(* ===== verification/Prelude.thy ===== *)
theory Prelude
  imports Main "HOL-Library.Word"
begin

text \<open>
  Shared vocabulary of the development: the fixed-width integer types of the C sources, the
  fact collections the component proofs simplify with, and the generic lemmas on words, lists
  and function updates that more than one component needs.

  C integers are words of their width: addition, subtraction and multiplication wrap, casts
  are \<open>ucast\<close>, shifts are \<open>push_bit\<close> and \<open>drop_bit\<close>.  The sizes of \<open>size_t\<close>,
  \<open>uintptr_t\<close>, \<open>int\<close> and pointers are those of the RV32 cores (E907 and E902), i.e. 32 bits.
\<close>

unbundle bit_operations_syntax

type_synonym u8 = "8 word"
type_synonym u16 = "16 word"
type_synonym u32 = "32 word"
type_synonym u64 = "64 word"

text \<open>Byte-addressed memory of a 32-bit core, and an address in it.\<close>

type_synonym addr = "32 word"
type_synonym mem = "addr \<Rightarrow> u8"

text \<open>
  \<open>word_simps\<close> moves word operations to \<open>nat\<close>; \<open>dev_defs\<close> unfolds the operations of the
  device models; \<open>irq_simps\<close> holds the facts that the interrupt line of a device is the
  function of its registers that its update routine computes.
\<close>

named_theorems word_simps
named_theorems dev_defs
named_theorems irq_simps

definition BIT :: "nat \<Rightarrow> 'a::len word" where
  "BIT n = push_bit n 1"

lemma BIT_numeral [simp]: "BIT (numeral n) = push_bit (numeral n) 1"
  by (simp add: BIT_def)

lemma BIT_0 [simp]: "BIT 0 = 1" and BIT_1 [simp]: "BIT (Suc 0) = 2"
  by (simp_all add: BIT_def)

section \<open>Words\<close>

lemma unat_less_len [simp]: "unat (a::'a::len word) < 2 ^ LENGTH('a)"
  by (rule unsigned_less)

lemma unat8_lt [simp]: "unat (a::u8) < 256"
  using unat_less_len [of a] by simp

lemma unat32_lt [simp]: "unat (a::u32) < 4294967296"
  using unat_less_len [of a] by simp

lemma unat64_lt [simp]: "unat (a::u64) < 18446744073709551616"
  using unat_less_len [of a] by simp

lemma unat_add_small:
  fixes a b :: "'a::len word"
  assumes "unat a + unat b < 2 ^ LENGTH('a)"
  shows "unat (a + b) = unat a + unat b"
  using assms unat_add_lem by blast

lemma unat_drop_bit [word_simps]: "unat (drop_bit n (x::'a::len word)) = unat x div 2 ^ n"
  unfolding unat_drop_bit_eq by (simp add: drop_bit_eq_div)

lemma unat_push_bit:
  fixes x :: "'a::len word"
  assumes "unat x * 2 ^ n < 2 ^ LENGTH('a)"
  shows "unat (push_bit n x) = unat x * 2 ^ n"
  unfolding unsigned_push_bit_eq using assms by (simp add: push_bit_eq_mult take_bit_eq_mod)

lemma unat_and_mask: "unat ((x::'a::len word) AND mask n) = unat x mod 2 ^ n"
  unfolding take_bit_eq_mask [symmetric] unsigned_take_bit_eq by (simp add: take_bit_eq_mod)

lemma unat_and_not_mask: "unat ((x::'a::len word) AND NOT (mask n)) = unat x div 2 ^ n * 2 ^ n"
proof -
  have eq: "x AND NOT (mask n) = push_bit n (drop_bit n x)"
    by (rule bit_word_eqI) (auto simp: bit_simps)
  have "unat (drop_bit n x) * 2 ^ n \<le> unat x"
    by (simp add: unat_drop_bit)
  then have "unat (drop_bit n x) * 2 ^ n < 2 ^ LENGTH('a)"
    using unat_less_len [of x] by linarith
  then show ?thesis
    unfolding eq by (simp only: unat_push_bit unat_drop_bit)
qed

lemma unat_or_disjoint:
  fixes x y :: "'a::len word"
  assumes "x AND y = 0"
  shows "unat (x OR y) = unat x + unat y"
proof -
  have "unat x AND unat y = 0" using arg_cong [OF assms, of unat] by (simp add: unsigned_and_eq)
  then show ?thesis by (simp add: unsigned_or_eq disjunctive_add_eq_or)
qed

lemma push_bit_and_low:
  fixes a l :: "'a::len word"
  assumes "unat l < 2 ^ k"
  shows "push_bit k a AND l = 0"
proof -
  have "unat (take_bit k l) = unat l"
    using assms by (simp add: unsigned_take_bit_eq take_bit_nat_eq_self)
  then have "take_bit k l = l" by (rule unsigned_word_eqI)
  then have "\<not> bit l n" if "k \<le> n" for n using that by (metis bit_take_bit_iff not_le)
  then show ?thesis by (intro bit_word_eqI) (auto simp: bit_simps)
qed

text \<open>The masks the allocator uses, as literals.\<close>

lemma unat_and_7 [word_simps]: "unat ((x::u32) AND 7) = unat x mod 8"
  using unat_and_mask [of x 3] by (simp add: mask_numeral)

lemma unat_and_not_7 [word_simps]: "unat ((x::u32) AND NOT 7) = unat x div 8 * 8"
  using unat_and_not_mask [of x 3] by (simp add: mask_numeral)

lemma unat_and_not_3 [word_simps]: "unat ((x::u32) AND NOT 3) = unat x div 4 * 4"
  using unat_and_not_mask [of x 2] by (simp add: mask_numeral)

lemma word_less_unat: "(a::'a::len word) < b \<longleftrightarrow> unat a < unat b"
  by (rule word_less_nat_alt)

lemma word_le_unat: "(a::'a::len word) \<le> b \<longleftrightarrow> unat a \<le> unat b"
  by (rule word_le_nat_alt)

lemma unat_minus_1: "(d::'a::len word) \<noteq> 0 \<Longrightarrow> unat (d - 1) = unat d - 1"
  by (rule unat_minus_one)

lemma unat_of_nat_small: "n < 2 ^ LENGTH('a) \<Longrightarrow> unat (of_nat n :: 'a::len word) = n"
  by (simp add: unsigned_of_nat take_bit_nat_eq_self)

lemma unat_ucast_up:
  fixes w :: "'a::len word"
  assumes "LENGTH('a) \<le> LENGTH('b)"
  shows "unat (ucast w :: 'b::len word) = unat w"
proof -
  have "unat w < 2 ^ LENGTH('b)"
    using unat_less_len [of w] assms power_increasing [of "LENGTH('a)" "LENGTH('b)" "2::nat"] by linarith
  then show ?thesis by (simp add: unsigned_ucast_eq take_bit_nat_eq_self)
qed

lemma ucast_ucast_same:
  fixes w :: "'a::len word"
  assumes "LENGTH('a) \<le> LENGTH('b)"
  shows "ucast (ucast w :: 'b::len word) = w"
  using assms by (intro bit_word_eqI) (auto simp: bit_simps)

lemma uint_pos_iff [simp]: "0 < uint (x::'a::len word) \<longleftrightarrow> x \<noteq> 0"
  by (auto simp: less_le unsigned_eq_0_iff)

lemma unat_minus_1_u32: "unat (- 1 :: u32) = 4294967295"
  by (simp add: unsigned_minus_1_eq_mask mask_numeral)

lemma unat_add_of_nat:
  fixes p :: addr
  assumes "unat p + n < 2 ^ 32"
  shows "unat (p + of_nat n) = unat p + n"
  using assms by (subst unat_add_small) (simp_all add: unat_of_nat_small)

lemma offset_less_Suc:
  fixes a p :: "'a::len word"
  shows "unat (a - p) < Suc n \<longleftrightarrow> a = p \<or> unat (a - (p + 1)) < n \<and> a \<noteq> p"
proof (cases "a = p")
  case False
  then have "a - p \<noteq> 0" by simp
  then have "unat (a - p - 1) = unat (a - p) - 1" and "0 < unat (a - p)"
    by (simp_all add: unat_minus_1 unat_gt_0)
  moreover have "a - (p + 1) = a - p - 1" by simp
  ultimately have "unat (a - (p + 1)) = unat (a - p) - 1" and "0 < unat (a - p)" by metis+
  then show ?thesis using False by auto
qed simp

lemma unat_or_pow2:
  fixes q bt :: u64
  assumes "unat bt = 2 ^ k" and "2 ^ Suc k dvd unat q" and "unat q + 2 ^ k < 2 ^ 64"
  shows "unat (q OR bt) = unat q + 2 ^ k"
proof -
  have k: "k < 64"
    using unat64_lt [of bt] assms(1) power_less_imp_less_exp [of "2::nat" k 64] by simp
  have bt: "bt = push_bit k 1"
    using k assms(1) unat_push_bit [of "1::u64" k] power_strict_increasing [of k 64 "2::nat"]
    by (intro unsigned_word_eqI [where 'a = nat]) simp
  have "\<not> bit q k"
    using assms(2) bit_unsigned_iff [of q k, where 'a = nat]
    by (auto simp: bit_iff_odd mult.commute elim!: dvdE)
  then have "q AND bt = 0"
    by (intro bit_word_eqI) (auto simp: bt bit_simps)
  then have "q OR bt = q + bt"
    by (metis add_0 word_plus_and_or)
  then show ?thesis
    using assms by (simp add: unat_add_small)
qed

lemma top_bit_clear: "(d::u64) AND push_bit 63 1 = 0 \<longleftrightarrow> unat d < 2 ^ 63"
proof -
  have "d AND push_bit 63 1 = 0 \<longleftrightarrow> \<not> bit d 63"
    by (simp only: bit_iff_and_push_bit_not_eq_0 simp_thms)
  also have "bit d 63 \<longleftrightarrow> odd (unat d div 2 ^ 63)"
    using bit_unsigned_iff [of d 63, where 'a = nat] by (simp add: bit_iff_odd)
  also have "odd (unat d div 2 ^ 63) \<longleftrightarrow> \<not> unat d < 2 ^ 63"
    using unat64_lt [of d] div_nat_eqI [of "2 ^ 63" 1 "unat d"]
    by (cases "unat d < 2 ^ 63") simp_all
  finally show ?thesis by simp
qed

end
