(* ===== verification/Libc.thy ===== *)
theory Libc
  imports Prelude
begin

text \<open>
  The freestanding C library of the kernel, \<open>src/src/bl808/kernel/baremetal_libc.c\<close>: memory
  and string routines over a byte memory, the integer helpers gcc calls on cores without
  libgcc, byte-order conversion, the sign-bit operations on floating-point bit patterns, and
  the \<open>_ctype_\<close> table.  \<open>char\<close> is unsigned, as in the RISC-V ABI.

  A loop whose end depends on the contents of memory (the string scans) or on a non-zero
  argument (the normalisation loop of \<open>__udivdi3\<close>) is a \<open>partial_function (option)\<close>: \<open>None\<close>
  is a loop that never ends, and the theorems prove that \<open>Some\<close> is returned.
\<close>

section \<open>Memory routines\<close>

text \<open>\<open>while (n--) *p++ = c\<close> runs \<open>n\<close> times; the loop counter is the \<open>nat\<close> argument.\<close>

fun memset_loop :: "mem \<Rightarrow> addr \<Rightarrow> u8 \<Rightarrow> nat \<Rightarrow> mem" where
  "memset_loop m p c 0 = m"
| "memset_loop m p c (Suc n) = memset_loop (m(p := c)) (p + 1) c n"

definition memset :: "mem \<Rightarrow> addr \<Rightarrow> u32 \<Rightarrow> u32 \<Rightarrow> addr \<times> mem" where
  "memset m s c n = (s, memset_loop m s (ucast c) (unat n))"

fun copy_up :: "mem \<Rightarrow> addr \<Rightarrow> addr \<Rightarrow> nat \<Rightarrow> mem" where
  "copy_up m d s 0 = m"
| "copy_up m d s (Suc n) = copy_up (m(d := m s)) (d + 1) (s + 1) n"

fun copy_down :: "mem \<Rightarrow> addr \<Rightarrow> addr \<Rightarrow> nat \<Rightarrow> mem" where
  "copy_down m d s 0 = m"
| "copy_down m d s (Suc n) = copy_down (m(d - 1 := m (s - 1))) (d - 1) (s - 1) n"

definition memcpy :: "mem \<Rightarrow> addr \<Rightarrow> addr \<Rightarrow> u32 \<Rightarrow> addr \<times> mem" where
  "memcpy m dest src n = (dest, copy_up m dest src (unat n))"

definition memmove :: "mem \<Rightarrow> addr \<Rightarrow> addr \<Rightarrow> u32 \<Rightarrow> addr \<times> mem" where
  "memmove m dest src n =
     (if dest < src then (dest, copy_up m dest src (unat n))
      else (dest, copy_down m (dest + n) (src + n) (unat n)))"

fun memcmp_loop :: "mem \<Rightarrow> addr \<Rightarrow> addr \<Rightarrow> nat \<Rightarrow> int" where
  "memcmp_loop m a b 0 = 0"
| "memcmp_loop m a b (Suc n) =
     (if m a \<noteq> m b then uint (m a) - uint (m b) else memcmp_loop m (a + 1) (b + 1) n)"

definition memcmp :: "mem \<Rightarrow> addr \<Rightarrow> addr \<Rightarrow> u32 \<Rightarrow> int" where
  "memcmp m s1 s2 n = memcmp_loop m s1 s2 (unat n)"

text \<open>A null result is \<open>None\<close>.\<close>

fun memchr_loop :: "mem \<Rightarrow> addr \<Rightarrow> u8 \<Rightarrow> nat \<Rightarrow> addr option" where
  "memchr_loop m p needle 0 = None"
| "memchr_loop m p needle (Suc n) =
     (if m p = needle then Some p else memchr_loop m (p + 1) needle n)"

definition memchr :: "mem \<Rightarrow> addr \<Rightarrow> u32 \<Rightarrow> u32 \<Rightarrow> addr option" where
  "memchr m s c n = memchr_loop m s (ucast c) (unat n)"

section \<open>String routines\<close>

partial_function (option) strlen_loop :: "mem \<Rightarrow> addr \<Rightarrow> addr option" where
  "strlen_loop m p = (if m p = 0 then Some p else strlen_loop m (p + 1))"

definition strlen :: "mem \<Rightarrow> addr \<Rightarrow> u32 option" where
  "strlen m s = map_option (\<lambda>p. p - s) (strlen_loop m s)"

text \<open>\<open>while ((*d++ = *src++));\<close>: the byte is stored before it is tested.\<close>

partial_function (option) strcpy_loop :: "mem \<Rightarrow> addr \<Rightarrow> addr \<Rightarrow> mem option" where
  "strcpy_loop m d s =
     (if m s = 0 then Some (m(d := m s)) else strcpy_loop (m(d := m s)) (d + 1) (s + 1))"

definition strcpy :: "mem \<Rightarrow> addr \<Rightarrow> addr \<Rightarrow> (addr \<times> mem) option" where
  "strcpy m dest src = map_option (Pair dest) (strcpy_loop m dest src)"

text \<open>The two \<open>for\<close> loops of \<open>strncpy\<close>; the counter is the number of bytes left.\<close>

fun strncpy_loop :: "mem \<Rightarrow> addr \<Rightarrow> addr \<Rightarrow> nat \<Rightarrow> mem" where
  "strncpy_loop m d s 0 = m"
| "strncpy_loop m d s (Suc n) =
     (if m s \<noteq> 0 then strncpy_loop (m(d := m s)) (d + 1) (s + 1) n
      else memset_loop m d 0 (Suc n))"

definition strncpy :: "mem \<Rightarrow> addr \<Rightarrow> addr \<Rightarrow> u32 \<Rightarrow> addr \<times> mem" where
  "strncpy m dest src n = (dest, strncpy_loop m dest src (unat n))"

partial_function (option) strchr_loop :: "mem \<Rightarrow> addr \<Rightarrow> u8 \<Rightarrow> (addr + addr) option" where
  "strchr_loop m s c =
     (if m s = 0 then Some (Inl s)
      else if m s = c then Some (Inr s)
      else strchr_loop m (s + 1) c)"

text \<open>
  Outer \<open>option\<close>: whether the loop ends.  Inner \<open>option\<close>: a null pointer is \<open>None\<close>.  The
  comparison in the loop is with \<open>(char)c\<close>, the test after it is on the \<open>int\<close>.
\<close>

definition strchr :: "mem \<Rightarrow> addr \<Rightarrow> u32 \<Rightarrow> addr option option" where
  "strchr m s c =
     (case strchr_loop m s (ucast c) of
        None \<Rightarrow> None
      | Some (Inr p) \<Rightarrow> Some (Some p)
      | Some (Inl e) \<Rightarrow> Some (if c = 0 then Some e else None))"

partial_function (option) strcmp_loop :: "mem \<Rightarrow> addr \<Rightarrow> addr \<Rightarrow> (addr \<times> addr) option" where
  "strcmp_loop m s1 s2 =
     (if m s1 \<noteq> 0 \<and> m s1 = m s2 then strcmp_loop m (s1 + 1) (s2 + 1) else Some (s1, s2))"

definition strcmp :: "mem \<Rightarrow> addr \<Rightarrow> addr \<Rightarrow> int option" where
  "strcmp m s1 s2 =
     map_option (\<lambda>(p, q). uint (m p) - uint (m q)) (strcmp_loop m s1 s2)"

text \<open>
  The inner loop of \<open>strspn\<close> and \<open>strcspn\<close>: does the string at \<open>a\<close> contain the byte \<open>c\<close>?
\<close>

partial_function (option) scan_set :: "mem \<Rightarrow> addr \<Rightarrow> u8 \<Rightarrow> bool option" where
  "scan_set m a c =
     (if m a = 0 then Some False
      else if c = m a then Some True
      else scan_set m (a + 1) c)"

partial_function (option) strspn_loop :: "mem \<Rightarrow> addr \<Rightarrow> addr \<Rightarrow> addr option" where
  "strspn_loop m p accept =
     (if m p = 0 then Some p
      else Option.bind (scan_set m accept (m p)) (\<lambda>found.
        if \<not> found then Some p else strspn_loop m (p + 1) accept))"

definition strspn :: "mem \<Rightarrow> addr \<Rightarrow> addr \<Rightarrow> u32 option" where
  "strspn m s accept = map_option (\<lambda>p. p - s) (strspn_loop m s accept)"

partial_function (option) strcspn_loop :: "mem \<Rightarrow> addr \<Rightarrow> addr \<Rightarrow> addr option" where
  "strcspn_loop m p reject =
     (if m p = 0 then Some p
      else Option.bind (scan_set m reject (m p)) (\<lambda>found.
        if found then Some p else strcspn_loop m (p + 1) reject))"

definition strcspn :: "mem \<Rightarrow> addr \<Rightarrow> addr \<Rightarrow> u32 option" where
  "strcspn m s reject = map_option (\<lambda>p. p - s) (strcspn_loop m s reject)"

section \<open>Integer helpers\<close>

text \<open>One \<open>if (x <= lim) { n += k; x <<= k; }\<close> of \<open>__clzsi2\<close>.\<close>

definition clz_stage :: "u32 \<Rightarrow> nat \<Rightarrow> nat \<times> u32 \<Rightarrow> nat \<times> u32" where
  "clz_stage lim k = (\<lambda>(n, x). if x \<le> lim then (n + k, push_bit k x) else (n, x))"

definition clzsi2 :: "u32 \<Rightarrow> nat" where
  "clzsi2 x =
     (if x = 0 then 32
      else let st = (0, x);
               st = clz_stage 0x0000FFFF 16 st;
               st = clz_stage 0x00FFFFFF 8 st;
               st = clz_stage 0x0FFFFFFF 4 st;
               st = clz_stage 0x3FFFFFFF 2 st
           in if snd st \<le> 0x7FFFFFFF then fst st + 1 else fst st)"

definition ctz_stage :: "u32 \<Rightarrow> nat \<Rightarrow> nat \<times> u32 \<Rightarrow> nat \<times> u32" where
  "ctz_stage m k = (\<lambda>(n, x). if x AND m = 0 then (n + k, drop_bit k x) else (n, x))"

definition ctzsi2 :: "u32 \<Rightarrow> nat" where
  "ctzsi2 x =
     (if x = 0 then 32
      else let st = (0, x);
               st = ctz_stage 0x0000FFFF 16 st;
               st = ctz_stage 0x000000FF 8 st;
               st = ctz_stage 0x0000000F 4 st;
               st = ctz_stage 0x00000003 2 st
           in if snd st AND 1 = 0 then fst st + 1 else fst st)"

partial_function (option) udiv_normalise :: "u64 \<Rightarrow> u64 \<Rightarrow> u64 \<Rightarrow> (u64 \<times> u64) option" where
  "udiv_normalise n d bt =
     (if d AND push_bit 63 1 = 0 \<and> d < n
      then udiv_normalise n (push_bit 1 d) (push_bit 1 bt)
      else Some (d, bt))"

function udiv_subtract :: "u64 \<Rightarrow> u64 \<Rightarrow> u64 \<Rightarrow> u64 \<Rightarrow> u64" where
  "udiv_subtract n d bt q =
     (if bt \<noteq> 0
      then (if n \<ge> d then udiv_subtract (n - d) (drop_bit 1 d) (drop_bit 1 bt) (q OR bt)
            else udiv_subtract n (drop_bit 1 d) (drop_bit 1 bt) q)
      else q)"
  by pat_completeness auto
termination
proof (relation "measure (\<lambda>(n, d, bt, q). unat bt)")
  have "bt \<noteq> 0 \<Longrightarrow> unat bt div 2 < unat bt" for bt :: u64
    by (simp add: unat_gt_0)
  then show "\<And>n d bt q. bt \<noteq> 0 \<Longrightarrow> d \<le> n \<Longrightarrow>
      ((n - d, drop_bit 1 d, drop_bit 1 bt, q OR bt), n, d, bt, q)
        \<in> measure (\<lambda>(n, d, bt, q). unat (bt::u64))"
    and "\<And>n d bt q. bt \<noteq> 0 \<Longrightarrow> \<not> d \<le> n \<Longrightarrow>
      ((n, drop_bit 1 d, drop_bit 1 bt, q), n, d, bt, q)
        \<in> measure (\<lambda>(n, d, bt, q). unat (bt::u64))"
    by (simp_all only: in_measure prod.case unat_drop_bit power_one_right)
qed simp

declare udiv_subtract.simps [simp del]

definition udivdi3 :: "u64 \<Rightarrow> u64 \<Rightarrow> u64 option" where
  "udivdi3 n d =
     (if d = 0 then Some (- 1)
      else map_option (\<lambda>(d', bt). udiv_subtract n d' bt 0) (udiv_normalise n d 1))"

definition umoddi3 :: "u64 \<Rightarrow> u64 \<Rightarrow> u64 option" where
  "umoddi3 n d = (if d = 0 then Some 0 else map_option (\<lambda>q. n - q * d) (udivdi3 n d))"

function popcount_loop :: "u32 \<Rightarrow> nat \<Rightarrow> nat" where
  "popcount_loop x n =
     (if x \<noteq> 0 then popcount_loop (drop_bit 1 x) (n + unat (x AND 1)) else n)"
  by pat_completeness auto
termination
proof (relation "measure (\<lambda>(x, n). unat x)")
  have "x \<noteq> 0 \<Longrightarrow> unat x div 2 < unat x" for x :: u32
    by (simp add: unat_gt_0)
  then show "\<And>x n. x \<noteq> 0 \<Longrightarrow>
      ((drop_bit 1 x, n + unat (x AND 1)), x, n) \<in> measure (\<lambda>(x, n). unat (x::u32))"
    by (simp only: in_measure prod.case unat_drop_bit power_one_right)
qed simp

declare popcount_loop.simps [simp del]

definition popcountsi2 :: "u32 \<Rightarrow> nat" where
  "popcountsi2 x = popcount_loop x 0"

text \<open>\<open>shift\<close> is an \<open>int\<close>: the guards cover every value outside 1..63.\<close>

definition ashldi3 :: "u64 \<Rightarrow> int \<Rightarrow> u64" where
  "ashldi3 value shift =
     (if shift \<le> 0 then value else if shift \<ge> 64 then 0 else push_bit (nat shift) value)"

definition lshrdi3 :: "u64 \<Rightarrow> int \<Rightarrow> u64" where
  "lshrdi3 value shift =
     (if shift \<le> 0 then value else if shift \<ge> 64 then 0 else drop_bit (nat shift) value)"

definition ashrdi3 :: "u64 \<Rightarrow> int \<Rightarrow> u64" where
  "ashrdi3 value shift =
     (if shift \<le> 0 then value
      else if shift \<ge> 64 then (if sint value < 0 then - 1 else 0)
      else signed_drop_bit (nat shift) value)"

definition htons :: "u16 \<Rightarrow> u16" where
  "htons x = drop_bit 8 x OR push_bit 8 x"

definition ntohs :: "u16 \<Rightarrow> u16" where
  "ntohs x = htons x"

definition htonl :: "u32 \<Rightarrow> u32" where
  "htonl x =
     push_bit 24 (x AND 0xFF) OR
     push_bit 8 (x AND 0xFF00) OR
     drop_bit 8 (x AND 0xFF0000) OR
     drop_bit 24 (x AND 0xFF000000)"

definition ntohl :: "u32 \<Rightarrow> u32" where
  "ntohl x = htonl x"

definition abs_int :: "u32 \<Rightarrow> u32" where
  "abs_int value = (if sint value < 0 then - value else value)"

text \<open>
  The floating-point routines below reinterpret their argument through a union and touch only
  bits of its representation; they are functions on that representation.
\<close>

definition fabs_bits :: "u64 \<Rightarrow> u64" where
  "fabs_bits u = u AND 0x7fffffffffffffff"

definition fabsf_bits :: "u32 \<Rightarrow> u32" where
  "fabsf_bits u = u AND 0x7fffffff"

definition copysign_bits :: "u64 \<Rightarrow> u64 \<Rightarrow> u64" where
  "copysign_bits x y = (x AND 0x7fffffffffffffff) OR (y AND 0x8000000000000000)"

definition copysignf_bits :: "u32 \<Rightarrow> u32 \<Rightarrow> u32" where
  "copysignf_bits x y = (x AND 0x7fffffff) OR (y AND 0x80000000)"

section \<open>The character table\<close>

text \<open>The flags are octal in the source: 01, 02, 04, 010, 020, 040, 0100, 0200.\<close>

abbreviation (input) cU :: u8 where "cU \<equiv> 1"
abbreviation (input) cL :: u8 where "cL \<equiv> 2"
abbreviation (input) cN :: u8 where "cN \<equiv> 4"
abbreviation (input) cS :: u8 where "cS \<equiv> 8"
abbreviation (input) cP :: u8 where "cP \<equiv> 16"
abbreviation (input) cC :: u8 where "cC \<equiv> 32"
abbreviation (input) cX :: u8 where "cX \<equiv> 64"
abbreviation (input) cB :: u8 where "cB \<equiv> 128"

definition ctype :: "u8 list" where
  "ctype = [
    0,
    cC, cC, cC, cC, cC, cC, cC, cC,
    cC, cC OR cS, cC OR cS, cC OR cS, cC OR cS, cC OR cS, cC, cC,
    cC, cC, cC, cC, cC, cC, cC, cC,
    cC, cC, cC, cC, cC, cC, cC, cC,
    cS OR cB, cP, cP, cP, cP, cP, cP, cP,
    cP, cP, cP, cP, cP, cP, cP, cP,
    cN, cN, cN, cN, cN, cN, cN, cN,
    cN, cN, cP, cP, cP, cP, cP, cP,
    cP, cU OR cX, cU OR cX, cU OR cX, cU OR cX, cU OR cX, cU OR cX, cU,
    cU, cU, cU, cU, cU, cU, cU, cU,
    cU, cU, cU, cU, cU, cU, cU, cU,
    cU, cU, cU, cP, cP, cP, cP, cP,
    cP, cL OR cX, cL OR cX, cL OR cX, cL OR cX, cL OR cX, cL OR cX, cL,
    cL, cL, cL, cL, cL, cL, cL, cL,
    cL, cL, cL, cL, cL, cL, cL, cL,
    cL, cL, cL, cP, cP, cP, cP, cC]
    @ replicate 128 0"

end
