(* ===== verification/Libc_Proofs.thy ===== *)
theory Libc_Proofs
  imports Libc "HOL-Library.List_Lexorder"
begin

text \<open>
  Correctness of the routines of \<open>Libc\<close>: the memory routines against a pointwise description
  of the memory they leave, the string routines against the byte list a string holds, the
  integer helpers against the arithmetic they stand for.  Every routine that loops is proved
  to return.
\<close>

section \<open>Memory routines\<close>

lemma memset_loop_apply:
  "memset_loop m p c n a = (if unat (a - p) < n then c else m a)"
  by (induction n arbitrary: m p) (auto simp: offset_less_Suc)

text \<open>Copying upwards is right when no write hits a byte that is still to be read.\<close>

lemma copy_up_apply:
  assumes "\<And>i j. i < j \<Longrightarrow> j < n \<Longrightarrow> d + of_nat i \<noteq> s + of_nat j"
    and "n \<le> 2 ^ 32"
  shows "copy_up m d s n a = (if unat (a - d) < n then m (s + (a - d)) else m a)"
  using assms
proof (induction m d s n rule: copy_up.induct)
  case (2 m d s n)
  have IH: "copy_up (m(d := m s)) (d + 1) (s + 1) n a =
      (if unat (a - (d + 1)) < n then (m(d := m s)) (s + 1 + (a - (d + 1)))
       else (m(d := m s)) a)"
  proof (rule 2)
    fix i j assume "i < j" "j < n"
    then show "d + 1 + of_nat i \<noteq> s + 1 + of_nat j"
      using "2.prems"(1) [of "Suc i" "Suc j"] by (simp add: algebra_simps)
  qed (use "2.prems" in simp)
  have hit: "s + (a - d) \<noteq> d" if "unat (a - (d + 1)) < n" "a \<noteq> d"
  proof -
    have "unat (a - d) < Suc n" using that by (simp add: offset_less_Suc)
    moreover have "0 < unat (a - d)" using that(2) by (simp add: unat_gt_0)
    ultimately show ?thesis
      using "2.prems"(1) [of 0 "unat (a - d)"] by auto
  qed
  show ?case
    using IH hit by (auto simp: offset_less_Suc algebra_simps)
qed simp

lemma copy_down_apply:
  assumes "\<And>i j. i < j \<Longrightarrow> j < n \<Longrightarrow> d + of_nat j \<noteq> s + of_nat i"
    and "n \<le> 2 ^ 32"
  shows "copy_down m (d + of_nat n) (s + of_nat n) n a =
    (if unat (a - d) < n then m (s + (a - d)) else m a)"
  using assms
proof (induction n arbitrary: m)
  case (Suc n)
  let ?m = "m(d + of_nat n := m (s + of_nat n))"
  have "copy_down m (d + of_nat (Suc n)) (s + of_nat (Suc n)) (Suc n) a =
      copy_down ?m (d + of_nat n) (s + of_nat n) n a"
    by (simp add: algebra_simps)
  also have "\<dots> = (if unat (a - d) < n then ?m (s + (a - d)) else ?m a)"
    using Suc.prems by (intro Suc.IH) auto
  finally have eq: "copy_down m (d + of_nat (Suc n)) (s + of_nat (Suc n)) (Suc n) a =
      (if unat (a - d) < n then ?m (s + (a - d)) else ?m a)" .
  have keep: "s + (a - d) \<noteq> d + of_nat n" if "unat (a - d) < n"
    using Suc.prems(1) [of "unat (a - d)" n] that by auto
  have last: "unat (a - d) = n \<longleftrightarrow> a = d + of_nat n"
    using Suc.prems(2) by (auto simp: unat_of_nat_small)
  show ?case
    unfolding eq using keep last by (auto simp: less_Suc_eq)
qed simp

lemma memmove_apply:
  assumes "unat dest + unat n \<le> 2 ^ 32" and "unat src + unat n \<le> 2 ^ 32"
  shows "snd (memmove m dest src n) a = (if a - dest < n then m (src + (a - dest)) else m a)"
proof (cases "dest < src")
  case True
  have "dest + of_nat i \<noteq> src + of_nat j" if "i < j" "j < unat n" for i j
    using that assms True unat_add_of_nat [of dest i] unat_add_of_nat [of src j]
    by (auto simp: word_less_unat)
  then show ?thesis
    using True copy_up_apply [of "unat n" dest src m a] unat32_lt [of n]
    by (simp add: memmove_def word_less_unat)
next
  case False
  have "dest + of_nat j \<noteq> src + of_nat i" if "i < j" "j < unat n" for i j
    using that assms False unat_add_of_nat [of dest j] unat_add_of_nat [of src i]
    by (auto simp: word_less_unat)
  then show ?thesis
    using False copy_down_apply [of "unat n" dest src m a] unat32_lt [of n]
    by (simp add: memmove_def word_less_unat)
qed

section \<open>Strings\<close>

text \<open>\<open>cstr m p xs\<close>: the bytes \<open>xs\<close>, none of them zero, and a terminating zero stand at \<open>p\<close>.\<close>

fun cstr :: "mem \<Rightarrow> addr \<Rightarrow> u8 list \<Rightarrow> bool" where
  "cstr m p [] = (m p = 0)"
| "cstr m p (x # xs) = (x \<noteq> 0 \<and> m p = x \<and> cstr m (p + 1) xs)"

lemma strlen_loop_cstr: "cstr m p xs \<Longrightarrow> strlen_loop m p = Some (p + of_nat (length xs))"
  by (induction xs arbitrary: p) (simp_all add: strlen_loop.simps algebra_simps)

lemma scan_set_cstr: "cstr m a as \<Longrightarrow> c \<noteq> 0 \<Longrightarrow> scan_set m a c = Some (c \<in> set as)"
  by (induction as arbitrary: a) (auto simp: scan_set.simps [of m])

lemma strspn_loop_cstr:
  "cstr m p xs \<Longrightarrow> cstr m a as \<Longrightarrow>
    strspn_loop m p a = Some (p + of_nat (length (takeWhile (\<lambda>c. c \<in> set as) xs)))"
  by (induction xs arbitrary: p) (simp_all add: strspn_loop.simps scan_set_cstr algebra_simps)

lemma strcspn_loop_cstr:
  "cstr m p xs \<Longrightarrow> cstr m a as \<Longrightarrow>
    strcspn_loop m p a = Some (p + of_nat (length (takeWhile (\<lambda>c. c \<notin> set as) xs)))"
  by (induction xs arbitrary: p) (simp_all add: strcspn_loop.simps scan_set_cstr algebra_simps)

lemma strchr_loop_cstr:
  "cstr m p xs \<Longrightarrow> c \<noteq> 0 \<Longrightarrow> strchr_loop m p c =
    (let k = length (takeWhile (\<lambda>x. x \<noteq> c) xs) in
     if k < length xs then Some (Inr (p + of_nat k)) else Some (Inl (p + of_nat k)))"
  by (induction xs arbitrary: p) (auto simp: strchr_loop.simps Let_def algebra_simps)

lemma strchr_loop_0: "cstr m p xs \<Longrightarrow> strchr_loop m p 0 = Some (Inl (p + of_nat (length xs)))"
  by (induction xs arbitrary: p) (auto simp: strchr_loop.simps algebra_simps)

lemma strcmp_cstr:
  "cstr m p xs \<Longrightarrow> cstr m q ys \<Longrightarrow>
    \<exists>r. strcmp m p q = Some r \<and> (r = 0 \<longleftrightarrow> xs = ys) \<and> (r < 0 \<longleftrightarrow> xs < ys)"
proof (induction xs ys arbitrary: p q rule: list_induct2')
  case (4 x xs y ys)
  show ?case
  proof (cases "x = y")
    case True
    then have "strcmp m p q = strcmp m (p + 1) (q + 1)"
      using "4.prems" by (simp add: strcmp_def strcmp_loop.simps [of m p q])
    then show ?thesis
      using "4.IH" [of "p + 1" "q + 1"] "4.prems" True by simp
  next
    case False
    then have "strcmp m p q = Some (uint x - uint y)"
      using "4.prems" by (simp add: strcmp_def strcmp_loop.simps [of m p q])
    then show ?thesis
      using False by (auto simp: word_less_def dest: unsigned_word_eqI)
  qed
qed (auto simp: strcmp_def strcmp_loop.simps unsigned_eq_0_iff)

section \<open>Integer helpers\<close>

lemma clz_stage_inv:
  assumes "clz_stage lim k (n, x) = (n', x')" and "unat lim + 1 = 2 ^ (32 - k)" and "2 * k \<le> 32"
    and "2 ^ (32 - 2 * k) \<le> unat x" and "unat x = x0 * 2 ^ n"
  shows "unat x' = x0 * 2 ^ n' \<and> 2 ^ (32 - k) \<le> unat x'"
proof (cases "x \<le> lim")
  case True
  then have "unat x < 2 ^ (32 - k)"
    using assms(2) by (simp add: word_le_unat)
  then have "unat x * 2 ^ k < 2 ^ (32 - k) * 2 ^ k"
    by simp
  then have "unat x * 2 ^ k < 2 ^ 32"
    using assms(3) by (simp flip: power_add)
  then have eq: "unat x' = unat x * 2 ^ k" and n': "n' = n + k"
    using True assms(1) by (auto simp: clz_stage_def unat_push_bit)
  have "2 ^ (32 - k) = 2 ^ (32 - 2 * k) * (2::nat) ^ k"
    using assms(3) by (simp flip: power_add)
  then show ?thesis
    using assms(4,5) eq n' by (simp add: power_add)
next
  case False
  then show ?thesis
    using assms by (auto simp: clz_stage_def word_le_unat)
qed

lemma clzsi2_bounds:
  assumes "x \<noteq> 0"
  shows "clzsi2 x < 32 \<and> 2 ^ (31 - clzsi2 x) \<le> unat x \<and> unat x < 2 ^ (32 - clzsi2 x)"
proof -
  obtain n1 x1 where s1: "clz_stage 0x0000FFFF 16 (0, x) = (n1, x1)" by fastforce
  obtain n2 x2 where s2: "clz_stage 0x00FFFFFF 8 (n1, x1) = (n2, x2)" by fastforce
  obtain n3 x3 where s3: "clz_stage 0x0FFFFFFF 4 (n2, x2) = (n3, x3)" by fastforce
  obtain n4 x4 where s4: "clz_stage 0x3FFFFFFF 2 (n3, x3) = (n4, x4)" by fastforce
  have "1 \<le> unat x" using assms by (simp add: Suc_le_eq unat_gt_0)
  then have "unat x1 = unat x * 2 ^ n1 \<and> 2 ^ 16 \<le> unat x1"
    using clz_stage_inv [OF s1, of "unat x"] by simp
  then have "unat x2 = unat x * 2 ^ n2 \<and> 2 ^ 24 \<le> unat x2"
    using clz_stage_inv [OF s2, of "unat x"] by simp
  then have "unat x3 = unat x * 2 ^ n3 \<and> 2 ^ 28 \<le> unat x3"
    using clz_stage_inv [OF s3, of "unat x"] by simp
  then have x4: "unat x4 = unat x * 2 ^ n4 \<and> 2 ^ 30 \<le> unat x4"
    using clz_stage_inv [OF s4, of "unat x"] by simp
  define n where "n = clzsi2 x"
  have n: "n = (if x4 \<le> 0x7FFFFFFF then n4 + 1 else n4)"
    using assms by (simp add: n_def clzsi2_def s1 s2 s3 s4)
  have lo: "2 ^ 31 \<le> unat x * 2 ^ n" and hi: "unat x * 2 ^ n < 2 ^ 32"
    using x4 unat32_lt [of x4] by (auto simp: n word_le_unat)
  have "(2::nat) ^ n < 2 ^ 32"
    using hi \<open>1 \<le> unat x\<close> by (metis le_less_trans mult_le_mono1 nat_mult_1)
  then have n32: "n < 32"
    using power_less_imp_less_exp [of "2::nat" n 32] by simp
  have "2 ^ (31 - n) * 2 ^ n \<le> unat x * 2 ^ n"
    using lo n32 by (simp flip: power_add)
  moreover have "unat x * 2 ^ n < 2 ^ (32 - n) * 2 ^ n"
    using hi n32 by (simp flip: power_add)
  ultimately show ?thesis
    using n32 by (simp add: n_def)
qed

lemma ctz_stage_inv:
  assumes "ctz_stage m k (n, x) = (n', x')" and "m = mask k" and "unat x * 2 ^ n = x0"
    and "0 < x0"
    and "\<not> 2 ^ (2 * k) dvd unat x"
  shows "unat x' * 2 ^ n' = x0 \<and> \<not> 2 ^ k dvd unat x'"
proof (cases "x AND m = 0")
  case True
  then have "unat x mod 2 ^ k = 0"
    using unat_and_mask [of x k] by (simp add: assms(2))
  then have dv: "2 ^ k dvd unat x" by (simp add: mod_0_imp_dvd)
  then obtain y where y: "unat x = 2 ^ k * y" by blast
  have eq: "n' = n + k" "unat x' = y"
    using True assms(1) y by (auto simp: ctz_stage_def unat_drop_bit)
  moreover have "\<not> 2 ^ k dvd y"
    using assms(5) y by (metis dvd_refl mult_2 mult_dvd_mono power_add)
  ultimately show ?thesis
    using assms(3) y by (simp add: power_add algebra_simps)
next
  case False
  then have "unat x mod 2 ^ k \<noteq> 0"
    using unat_and_mask [of x k] by (simp add: assms(2) flip: unat_0 unat_eq_zero)
  then show ?thesis
    using False assms by (auto simp: ctz_stage_def mod_eq_0_iff_dvd)
qed

lemma ctzsi2_bounds:
  assumes "x \<noteq> 0"
  shows "ctzsi2 x < 32 \<and> 2 ^ ctzsi2 x dvd unat x \<and> \<not> 2 ^ Suc (ctzsi2 x) dvd unat x"
proof -
  obtain n1 x1 where s1: "ctz_stage 0x0000FFFF 16 (0, x) = (n1, x1)" by fastforce
  obtain n2 x2 where s2: "ctz_stage 0x000000FF 8 (n1, x1) = (n2, x2)" by fastforce
  obtain n3 x3 where s3: "ctz_stage 0x0000000F 4 (n2, x2) = (n3, x3)" by fastforce
  obtain n4 x4 where s4: "ctz_stage 0x00000003 2 (n3, x3) = (n4, x4)" by fastforce
  have pos: "0 < unat x" using assms by (simp add: unat_gt_0)
  have "\<not> 2 ^ 32 dvd unat x"
    using pos unat32_lt [of x] nat_dvd_not_less [of "unat x" "2 ^ 32"] by simp
  then have "unat x1 * 2 ^ n1 = unat x \<and> \<not> 2 ^ 16 dvd unat x1"
    using ctz_stage_inv [OF s1, of "unat x"] pos by (simp add: mask_numeral)
  then have "unat x2 * 2 ^ n2 = unat x \<and> \<not> 2 ^ 8 dvd unat x2"
    using ctz_stage_inv [OF s2, of "unat x"] pos by (simp add: mask_numeral)
  then have "unat x3 * 2 ^ n3 = unat x \<and> \<not> 2 ^ 4 dvd unat x3"
    using ctz_stage_inv [OF s3, of "unat x"] pos by (simp add: mask_numeral)
  then have x4: "unat x4 * 2 ^ n4 = unat x \<and> \<not> 4 dvd unat x4"
    using ctz_stage_inv [OF s4, of "unat x"] pos by (simp add: mask_numeral)
  define n where "n = ctzsi2 x"
  have bit0: "x4 AND 1 = 0 \<longleftrightarrow> even (unat x4)"
    using unat_and_mask [of x4 1] by (simp add: even_iff_mod_2_eq_zero flip: unat_eq_0)
  have n: "n = (if even (unat x4) then n4 + 1 else n4)"
    using assms by (simp add: n_def ctzsi2_def s1 s2 s3 s4 bit0)
  obtain y where y: "unat x = 2 ^ n * y" and odd: "odd y"
  proof (cases "even (unat x4)")
    case True
    then obtain z where z: "unat x4 = 2 * z" by blast
    with x4 have "odd z" by auto
    with that [of z] show ?thesis using True n z x4 by (simp add: algebra_simps)
  next
    case False
    with that [of "unat x4"] show ?thesis using n x4 by (simp add: algebra_simps)
  qed
  have "2 ^ n \<le> unat x" using y odd by (cases y) auto
  then have "(2::nat) ^ n < 2 ^ 32" using unat32_lt [of x] by (simp add: le_less_trans)
  then have "n < 32" using power_less_imp_less_exp [of "2::nat" n 32] by simp
  moreover have "\<not> 2 ^ Suc n dvd unat x"
    using y odd by simp
  ultimately show ?thesis using y by (simp add: n_def)
qed

lemma udiv_step:
  fixes n d bt q :: u64
  assumes "unat d = d0 * 2 ^ k" and "unat bt = 2 ^ k" and "unat n < 2 * unat d"
    and "2 ^ Suc k dvd unat q" and "unat q * d0 + unat n = N" and "0 < d0" and "N < 2 ^ 64"
  obtains n' q' where "udiv_subtract n d bt q = udiv_subtract n' (drop_bit 1 d) (drop_bit 1 bt) q'"
    and "unat n' < unat d" and "2 ^ k dvd unat q'" and "unat q' * d0 + unat n' = N"
proof (cases "d \<le> n")
  case True
  then have le: "unat d \<le> unat n" by (simp add: word_le_unat)
  have "(unat q + 2 ^ k) * d0 \<le> N"
    using assms(1,5) le by (simp add: algebra_simps)
  then have "unat q + 2 ^ k < 2 ^ 64"
    using assms(6,7) by (metis One_nat_def Suc_leI le_less_trans mult_le_mono2 nat_mult_1_right order_trans)
  then have q: "unat (q OR bt) = unat q + 2 ^ k"
    using assms by (intro unat_or_pow2) auto
  show ?thesis
  proof (rule that [of "n - d" "q OR bt"])
    show "udiv_subtract n d bt q = udiv_subtract (n - d) (drop_bit 1 d) (drop_bit 1 bt) (q OR bt)"
      using True assms(2) by (subst udiv_subtract.simps) auto
    show "2 ^ k dvd unat (q OR bt)"
      using assms(4) unfolding q by (auto intro: dvd_trans [OF le_imp_power_dvd])
    show "unat (q OR bt) * d0 + unat (n - d) = N"
      using assms(1,5) le by (simp add: q unat_sub True algebra_simps)
  qed (use assms(3) True le in \<open>simp add: unat_sub\<close>)
next
  case False
  show ?thesis
  proof (rule that [of n q])
    show "udiv_subtract n d bt q = udiv_subtract n (drop_bit 1 d) (drop_bit 1 bt) q"
      using False assms(2) by (subst udiv_subtract.simps) auto
    show "2 ^ k dvd unat q"
      using assms(4) by (auto intro: dvd_trans [OF le_imp_power_dvd])
  qed (use False assms in \<open>auto simp: word_le_unat\<close>)
qed

lemma udiv_subtract_correct:
  assumes "unat d = d0 * 2 ^ k" and "unat bt = 2 ^ k" and "unat n < 2 * unat d"
    and "2 ^ Suc k dvd unat q" and "unat q * d0 + unat n = N" and "0 < d0" and "N < 2 ^ 64"
  shows "unat (udiv_subtract n d bt q) = N div d0"
  using assms
proof (induction k arbitrary: n d bt q)
  case 0
  from udiv_step [OF 0] obtain n' q' where
    eq: "udiv_subtract n d bt q = udiv_subtract n' (drop_bit 1 d) (drop_bit 1 bt) q'"
    and n': "unat n' < unat d" and N: "unat q' * d0 + unat n' = N" by blast
  have "unat (drop_bit 1 bt) = 0"
    by (simp add: unat_drop_bit "0.prems"(2))
  then have "drop_bit 1 bt = 0" by (simp add: unat_eq_0)
  then have "udiv_subtract n d bt q = q'"
    unfolding eq by (subst udiv_subtract.simps) simp
  then show ?case
    using n' N "0.prems"(1,6) by auto
next
  case (Suc k)
  from udiv_step [OF Suc.prems] obtain n' q' where
    eq: "udiv_subtract n d bt q = udiv_subtract n' (drop_bit 1 d) (drop_bit 1 bt) q'"
    and "unat n' < unat d" "2 ^ Suc k dvd unat q'" "unat q' * d0 + unat n' = N" by blast
  then show ?case
    unfolding eq using Suc.prems by (intro Suc.IH) (auto simp: unat_drop_bit)
qed

lemma udiv_normalise_correct:
  assumes "unat d = d0 * 2 ^ k" and "unat bt = 2 ^ k" and "k < 64" and "0 < d0"
  shows "\<exists>d' bt' k'. udiv_normalise n d bt = Some (d', bt') \<and> unat d' = d0 * 2 ^ k' \<and>
    unat bt' = 2 ^ k' \<and> unat n < 2 * unat d'"
  using assms
proof (induction "63 - k" arbitrary: k d bt rule: less_induct)
  case less
  show ?case
  proof (cases "unat d < 2 ^ 63 \<and> d < n")
    case True
    have "(2::nat) ^ k < 2 ^ 63"
      using True less.prems(1,4) by (metis One_nat_def Suc_leI le_less_trans mult_le_mono1 nat_mult_1)
    then have k: "k < 63"
      using power_less_imp_less_exp [of "2::nat" k 63] by simp
    have "(2::nat) ^ Suc k \<le> 2 ^ 63"
      using k by (intro power_increasing) auto
    then have "unat d * 2 ^ 1 < 2 ^ LENGTH(64)" and "unat bt * 2 ^ 1 < 2 ^ LENGTH(64)"
      using True less.prems(1,2) by auto
    then have d2: "unat (push_bit 1 d) = d0 * 2 ^ Suc k" "unat (push_bit 1 bt) = 2 ^ Suc k"
      unfolding unat_push_bit [OF \<open>unat d * 2 ^ 1 < _\<close>] unat_push_bit [OF \<open>unat bt * 2 ^ 1 < _\<close>]
      using less.prems(1,2) by simp_all
    have "udiv_normalise n d bt = udiv_normalise n (push_bit 1 d) (push_bit 1 bt)"
      using True by (subst udiv_normalise.simps) (simp only: top_bit_clear if_True simp_thms)
    then show ?thesis
      using less.hyps [of "Suc k", OF _ d2] k less.prems(4) by simp
  next
    case False
    have "0 < unat d"
      using less.prems(1,4) by simp
    moreover have "9223372036854775808 \<le> unat d \<or> unat n \<le> unat d"
      using False by (auto simp: word_less_unat)
    ultimately have "unat n < 2 * unat d"
      using unat64_lt [of n] by linarith
    moreover have "udiv_normalise n d bt = Some (d, bt)"
      using False by (subst udiv_normalise.simps) (simp only: top_bit_clear if_False simp_thms)
    ultimately show ?thesis
      using less.prems by blast
  qed
qed

lemma udivdi3_correct:
  assumes "d \<noteq> 0"
  shows "udivdi3 n d = Some (n div d)"
proof -
  have d0: "0 < unat d" using assms by (simp add: unat_gt_0)
  obtain d' bt' k where "udiv_normalise n d 1 = Some (d', bt')" and "unat d' = unat d * 2 ^ k"
    and "unat bt' = 2 ^ k" and "unat n < 2 * unat d'"
    using udiv_normalise_correct [of d "unat d" 0 1 n] d0 by auto
  moreover from this have "unat (udiv_subtract n d' bt' 0) = unat n div unat d"
    using d0 by (intro udiv_subtract_correct) auto
  moreover have "unat n div unat d = unat (n div d)"
    by (simp add: unat_div)
  ultimately show ?thesis
    using assms by (auto simp: udivdi3_def intro: unsigned_word_eqI)
qed

lemma umoddi3_correct:
  assumes "d \<noteq> 0"
  shows "umoddi3 n d = Some (n mod d)"
  using assms by (simp add: umoddi3_def udivdi3_correct minus_div_mult_eq_mod)

lemma byte_masks:
  "(0xFF::u32) = mask 8" "(0xFF00::u32) = push_bit 8 (mask 8)"
  "(0xFF0000::u32) = push_bit 16 (mask 8)" "(0xFF000000::u32) = push_bit 24 (mask 8)"
  by (simp_all add: mask_numeral)

lemma bit_htonl:
  "bit (htonl x) n \<longleftrightarrow>
    n < 32 \<and> bit x (if n < 8 then n + 24 else if n < 16 then n + 8
                    else if n < 24 then n - 8 else n - 24)"
proof -
  consider "n < 8" | "8 \<le> n" "n < 16" | "16 \<le> n" "n < 24" | "24 \<le> n" "n < 32" | "32 \<le> n"
    by linarith
  then show ?thesis
    unfolding htonl_def byte_masks
    by cases (simp_all only: bit_simps comp_apply, auto simp: add.commute)
qed

lemma htonl_involutive: "htonl (htonl x) = x"
  by (rule bit_word_eqI) (auto simp: bit_htonl)

lemma bit_htons: "bit (htons x) n \<longleftrightarrow> n < 16 \<and> bit x (if n < 8 then n + 8 else n - 8)"
proof (cases "n < 8")
  case True
  then show ?thesis by (auto simp: htons_def bit_simps add.commute)
next
  case False
  then show ?thesis by (auto simp: htons_def bit_simps dest: bit_imp_le_length)
qed

lemma htons_involutive: "htons (htons x) = x"
  by (rule bit_word_eqI) (auto simp: bit_htons)

lemma popcount_loop_card: "popcount_loop x n = n + card {i. bit x i}"
proof (induction x n rule: popcount_loop.induct)
  case (1 x n)
  show ?case
  proof (cases "x = 0")
    case False
    have "{i. bit x i} = Suc ` {i. bit (drop_bit 1 x) i} \<union> (if bit x 0 then {0} else {})"
      by (auto simp: bit_simps image_iff) (metis not0_implies_Suc)+
    moreover have "finite {i. bit (drop_bit 1 x) i}"
      by (rule finite_subset [of _ "{..<32}"]) (auto dest: bit_imp_le_length)
    ultimately have "card {i. bit x i} = card {i. bit (drop_bit 1 x) i} + of_bool (bit x 0)"
      by (simp add: card_image card_insert_if image_iff)
    moreover have "unat (x AND 1) = of_bool (bit x 0)"
      by (simp add: and_one_eq bit_0 mod2_eq_if)
    ultimately show ?thesis
      using False "1.IH" by (subst popcount_loop.simps) simp
  qed (simp add: popcount_loop.simps)
qed

lemma abs_int_sint: "sint v \<noteq> - (2 ^ 31) \<Longrightarrow> sint (abs_int v) = \<bar>sint v\<bar>"
proof -
  assume "sint v \<noteq> - (2 ^ 31)"
  moreover have "- (2 ^ 31) \<le> sint v" "sint v < 2 ^ 31"
    using sint_ge [of v] sint_lt [of v] by simp_all
  ultimately have "- (2 ^ 31) \<le> - sint v \<and> - sint v < 2 ^ 31" by linarith
  then have "sint (- v) = - sint v"
    by (simp add: sint_word_ariths signed_take_bit_int_eq_self)
  then show ?thesis by (simp add: abs_int_def)
qed
lemma ashrdi3_div: "sint (ashrdi3 v k) = sint v div 2 ^ nat (min k 63)"
proof -
  have r: "- (2 ^ 63) \<le> sint v" "sint v < 2 ^ 63"
    using sint_ge [of v] sint_lt [of v] by simp_all
  consider "k \<le> 0" | "0 < k" "k < 64" | "64 \<le> k" by linarith
  then show ?thesis
  proof cases
    case 1 then show ?thesis by (simp add: ashrdi3_def)
  next
    case 2 then show ?thesis by (simp add: ashrdi3_def sint_signed_drop_bit_eq drop_bit_eq_div)
  next
    case 3 
    have "sint v div 2 ^ 63 = (if sint v < 0 then - 1 else 0)"
      using r by (auto simp: div_eq_minus1 div_pos_pos_trivial)
    with 3 show ?thesis by (simp add: ashrdi3_def)
  qed
qed
lemma cstr_upd:
  "(\<And>j. j \<le> length xs \<Longrightarrow> p + of_nat j \<noteq> d) \<Longrightarrow> cstr (m(d := v)) p xs = cstr m p xs"
proof (induction xs arbitrary: p)
  case (Cons x xs)
  have "p \<noteq> d" using Cons.prems [of 0] by simp
  moreover have "p + 1 + of_nat j \<noteq> d" if "j \<le> length xs" for j
    using Cons.prems [of "Suc j"] that by (simp add: algebra_simps)
  ultimately show ?case using Cons.IH [of "p + 1"] by simp
qed simp

lemma strcpy_loop_cstr:
  assumes "cstr m s xs"
    and "\<And>i j. i \<le> length xs \<Longrightarrow> j \<le> length xs \<Longrightarrow> d + of_nat i \<noteq> s + of_nat j"
  shows "strcpy_loop m d s = Some (copy_up m d s (Suc (length xs)))"
  using assms
proof (induction xs arbitrary: m d s)
  case Nil
  then show ?case by (simp add: strcpy_loop.simps fun_upd_def)
next
  case (Cons x xs)
  have ne: "s + 1 + of_nat j \<noteq> d" if "j \<le> length xs" for j
    using Cons.prems(2) [of 0 "Suc j"] that by (simp add: algebra_simps)
  have "strcpy_loop (m(d := m s)) (d + 1) (s + 1) =
      Some (copy_up (m(d := m s)) (d + 1) (s + 1) (Suc (length xs)))"
  proof (rule Cons.IH)
    show "cstr (m(d := m s)) (s + 1) xs"
      using Cons.prems(1) ne by (simp add: cstr_upd)
    show "d + 1 + of_nat i \<noteq> s + 1 + of_nat j" if "i \<le> length xs" "j \<le> length xs" for i j
      using Cons.prems(2) [of "Suc i" "Suc j"] that by (simp add: algebra_simps)
  qed
  then show ?case
    using Cons.prems(1) by (subst strcpy_loop.simps) (auto simp: fun_upd_def)
qed

lemma strncpy_loop_cstr:
  assumes "cstr m s xs" and "n \<le> 2 ^ 32"
    and "\<And>i j. i < n \<Longrightarrow> j \<le> length xs \<Longrightarrow> d + of_nat i \<noteq> s + of_nat j"
  shows "strncpy_loop m d s n a =
    (let k = unat (a - d) in if k < n then (if k < length xs then xs ! k else 0) else m a)"
  using assms
proof (induction n arbitrary: m d s xs)
  case (Suc n)
  show ?case
  proof (cases xs)
    case Nil
    then show ?thesis using Suc.prems(1) by (simp add: memset_loop_apply Let_def del: memset_loop.simps)
  next
    case (Cons x ys)
    have ne: "s + 1 + of_nat j \<noteq> d" if "j \<le> length ys" for j
      using Suc.prems(3) [of 0 "Suc j"] Cons that by (simp add: algebra_simps)
    have IH: "strncpy_loop (m(d := x)) (d + 1) (s + 1) n a =
       (let k = unat (a - (d + 1)) in
         if k < n then (if k < length ys then ys ! k else 0) else (m(d := x)) a)"
    proof (rule Suc.IH)
      show "cstr (m(d := x)) (s + 1) ys"
        using Suc.prems(1) ne Cons by (simp add: cstr_upd)
      show "d + 1 + of_nat i \<noteq> s + 1 + of_nat j" if "i < n" "j \<le> length ys" for i j
        using Suc.prems(3) [of "Suc i" "Suc j"] that Cons by (simp add: algebra_simps)
    qed (use Suc.prems in simp)
    have k: "a \<noteq> d \<Longrightarrow> unat (a - d) = Suc (unat (a - (d + 1)))"
    proof -
      assume "a \<noteq> d"
      then have "a - d \<noteq> 0" by simp
      then have "unat (a - d) = Suc (unat (a - d - 1))"
        by (metis Suc_pred One_nat_def unat_gt_0 unat_minus_1)
      then show ?thesis by (simp add: algebra_simps)
    qed
    have "strncpy_loop m d s (Suc n) a = strncpy_loop (m(d := x)) (d + 1) (s + 1) n a"
      using Suc.prems(1) Cons by auto
    moreover have "\<not> unat (- 1 :: u32) < n"
      using Suc.prems(2) by (simp add: unat_minus_1_u32)
    ultimately show ?thesis
      unfolding IH using k Cons Suc.prems(2) by (cases "a = d") (auto simp: Let_def)
  qed
qed (simp add: Let_def)

section \<open>The character table\<close>

lemma ctype_rows:
  "list_all2 (\<lambda>c t. (t AND cU \<noteq> 0) = (65 \<le> c \<and> c \<le> 90)
     \<and> (t AND cL \<noteq> 0) = (97 \<le> c \<and> c \<le> 122)
     \<and> (t AND cN \<noteq> 0) = (48 \<le> c \<and> c \<le> 57)
     \<and> (t AND cX \<noteq> 0) = (65 \<le> c \<and> c \<le> 70 \<or> 97 \<le> c \<and> c \<le> 102)
     \<and> (t AND cS \<noteq> 0) = (c = 32 \<or> 9 \<le> c \<and> c \<le> 13)
     \<and> (t AND cC \<noteq> 0) = (c < 32 \<or> c = 127)) [0..<256] (tl ctype)"
  by code_simp

section \<open>Properties\<close>

text \<open>
  \<open>memmove\<close> copies correctly whatever the overlap of the two regions, as long as neither
  wraps around the address space: afterwards the byte at offset \<open>i < n\<close> of the destination is
  the byte that stood at offset \<open>i\<close> of the source before the call, every other byte is
  unchanged, and the destination pointer is returned.
\<close>

theorem memmove_overlap_safe:
  assumes "unat dest + unat n \<le> 2 ^ 32" and "unat src + unat n \<le> 2 ^ 32"
  shows "memmove m dest src n =
    (dest, \<lambda>a. if a - dest < n then m (src + (a - dest)) else m a)"
  using memmove_apply [OF assms, of m] by (simp add: prod_eq_iff fun_eq_iff) (simp add: memmove_def)

theorem memmove_overlap_safe_witness:
  "(let m' = snd (memmove (\<lambda>a. ucast a) 0x102 0x100 4) in
     map m' [0x100, 0x101, 0x102, 0x103, 0x104, 0x105, 0x106] = [0, 1, 0, 1, 2, 3, 6])"
  by (subst memmove_overlap_safe) (simp_all add: Let_def)

text \<open>
  \<open>strcmp\<close> on two terminated strings returns, and the sign of its result is the
  lexicographic order of the byte sequences compared as unsigned bytes.
\<close>

theorem strcmp_lexicographic:
  assumes "cstr m s1 xs" and "cstr m s2 ys"
  shows "\<exists>r. strcmp m s1 s2 = Some r \<and> (r = 0 \<longleftrightarrow> xs = ys) \<and> (r < 0 \<longleftrightarrow> xs < ys)"
  using assms by (rule strcmp_cstr)

theorem strcmp_lexicographic_witness:
  "\<exists>r. strcmp (\<lambda>a. if a = 0 then 7 else if a = 16 then 200 else 0) 0 16 = Some r \<and> r < 0"
proof -
  let ?m = "\<lambda>a. if a = 0 then 7 else if a = 16 then 200 else (0::u8)"
  have "cstr ?m 0 [7]" and "cstr ?m 16 [200]" by simp_all
  from strcmp_lexicographic [OF this] show ?thesis by auto
qed

text \<open>
  C39. \<open>__udivdi3\<close> and \<open>__umoddi3\<close> always return; for a non-zero divisor they are the 64-bit
  quotient and remainder, and for zero the documented saturated values.
\<close>

theorem udivmod_total_correct:
  "udivdi3 n d = Some (if d = 0 then 0xFFFFFFFFFFFFFFFF else n div d) \<and>
   umoddi3 n d = Some (if d = 0 then 0 else n mod d)"
proof (cases "d = 0")
  case True
  then show ?thesis by (simp add: udivdi3_def umoddi3_def)
next
  case False
  then show ?thesis by (simp add: udivdi3_correct umoddi3_correct)
qed

text \<open>
  \<open>__clzsi2\<close> and \<open>__ctzsi2\<close>: for a non-zero word the highest and the lowest set bit are
  at positions \<open>31 - clz\<close> and \<open>ctz\<close>, both below 32; zero gives 32.
\<close>

theorem clz_ctz_correct:
  assumes "x \<noteq> 0"
  shows "clzsi2 x < 32 \<and> 2 ^ (31 - clzsi2 x) \<le> unat x \<and> unat x < 2 ^ (32 - clzsi2 x)
    \<and> ctzsi2 x < 32 \<and> 2 ^ ctzsi2 x dvd unat x \<and> \<not> 2 ^ Suc (ctzsi2 x) dvd unat x"
  using clzsi2_bounds [OF assms] ctzsi2_bounds [OF assms] by blast

theorem clz_ctz_correct_witness:
  "2 ^ (31 - clzsi2 0x00140000) \<le> unat (0x00140000 :: u32) \<and> \<not> 2 ^ Suc (ctzsi2 0x00140000) dvd unat (0x00140000 :: u32)"
  using clz_ctz_correct [of "0x00140000"] by simp

text \<open>
  \<open>strcpy\<close> of a terminated string into a region that does not touch it returns the
  destination; the destination then holds the same string, and no byte outside the
  \<open>strlen + 1\<close> bytes written changes.
\<close>

theorem strcpy_copies:
  assumes "cstr m src xs" and "length xs < 2 ^ 32"
    and "\<And>i j. i \<le> length xs \<Longrightarrow> j \<le> length xs \<Longrightarrow> dest + of_nat i \<noteq> src + of_nat j"
  shows "strcpy m dest src = Some (dest,
    \<lambda>a. if unat (a - dest) \<le> length xs then m (src + (a - dest)) else m a)"
proof -
  have "copy_up m dest src (Suc (length xs)) =
      (\<lambda>a. if unat (a - dest) \<le> length xs then m (src + (a - dest)) else m a)"
    using copy_up_apply [of "Suc (length xs)" dest src m] assms(2,3)
    by (simp add: fun_eq_iff less_Suc_eq_le)
  then show ?thesis
    using strcpy_loop_cstr [OF assms(1,3)] by (simp add: strcpy_def)
qed

theorem strcpy_copies_witness:
  "\<exists>m'. strcpy (\<lambda>a. if a = 0 then 7 else 0) 16 0 = Some (16, m') \<and> m' 16 = 7 \<and> m' 17 = 0"
proof -
  let ?m = "\<lambda>a. if a = 0 then 7 else (0::u8)"
  have "cstr ?m 0 [7]" by simp
  moreover have "(16::addr) + of_nat i \<noteq> 0 + of_nat j" if "i \<le> length [7::u8]" "j \<le> length [7::u8]" for i j
    using that by (auto simp: le_Suc_eq)
  ultimately show ?thesis
    by (subst strcpy_copies [where xs = "[7]"]) auto
qed

text \<open>
  The \<open>_ctype_\<close> table has one entry for EOF and one for each of the 256 characters, and its
  flags classify every character as the C locale does: upper and lower case letters, digits,
  hexadecimal letters, white space and control characters.
\<close>

theorem ctype_classifies:
  assumes "c < 256"
  shows "length ctype = 257 \<and> (let t = ctype ! (c + 1) in
    (t AND cU \<noteq> 0) = (65 \<le> c \<and> c \<le> 90)
    \<and> (t AND cL \<noteq> 0) = (97 \<le> c \<and> c \<le> 122)
    \<and> (t AND cN \<noteq> 0) = (48 \<le> c \<and> c \<le> 57)
    \<and> (t AND cX \<noteq> 0) = (65 \<le> c \<and> c \<le> 70 \<or> 97 \<le> c \<and> c \<le> 102)
    \<and> (t AND cS \<noteq> 0) = (c = 32 \<or> 9 \<le> c \<and> c \<le> 13)
    \<and> (t AND cC \<noteq> 0) = (c < 32 \<or> c = 127))"
proof -
  have len: "length ctype = 257" by (simp add: ctype_def)
  have "tl ctype ! c = ctype ! (c + 1)" using assms len by (simp add: nth_tl)
  with list_all2_nthD [OF ctype_rows, of c] assms len show ?thesis by (simp add: Let_def)
qed

theorem ctype_classifies_witness:
  "ctype ! (70 + 1) AND cU \<noteq> 0 \<and> ctype ! (70 + 1) AND cX \<noteq> 0 \<and> ctype ! (70 + 1) AND cN = 0"
  using ctype_classifies [of 70] by (simp add: Let_def)

end
