(* ===== verification/Tlsf.thy ===== *)
theory Tlsf
  imports Libc
begin

text \<open>
  The kernel heap, \<open>src/src/bl808/kernel/tlsf.c\<close>: a two-level segregated-fit allocator over one
  pool.  The static \<open>tlsf_pool\<close> is the record \<open>tlsf_t\<close>.  Memory is split by type, as in a
  Burstall heap: \<open>headers\<close> maps the address of a block to its \<open>block_header_t\<close>, \<open>bytes\<close> is the
  memory of the payloads, where the tail canaries and the users' data live.  The C code
  reaches headers only through \<open>block_header_t *\<close> and payload bytes only through byte pointers
  past a header, so the split loses nothing unless a user writes outside its payload.

  \<open>size_t\<close> and pointers have 32 bits (the RV32 cores), so \<open>BLOCK_OVERHEAD\<close>, the size of the
  six-field header rounded up to 8, is 24.  \<open>NULL\<close> is address 0.
\<close>

section \<open>Constants and data\<close>

abbreviation (input) FL_INDEX_MAX :: int where "FL_INDEX_MAX \<equiv> 20"
abbreviation (input) SL_INDEX_LOG2 :: nat where "SL_INDEX_LOG2 \<equiv> 4"
abbreviation (input) SL_INDEX_COUNT :: int where "SL_INDEX_COUNT \<equiv> 16"
abbreviation (input) BLOCK_SIZE_MIN :: u32 where "BLOCK_SIZE_MIN \<equiv> 32"
abbreviation (input) BLOCK_ALIGN :: u32 where "BLOCK_ALIGN \<equiv> 8"
abbreviation (input) BLOCK_OVERHEAD :: u32 where "BLOCK_OVERHEAD \<equiv> 24"
abbreviation (input) BLOCK_CANARY_SIZE :: u32 where "BLOCK_CANARY_SIZE \<equiv> 4"
abbreviation (input) BLOCK_MAGIC_USED :: u32 where "BLOCK_MAGIC_USED \<equiv> 0xC0FFEE01"
abbreviation (input) BLOCK_MAGIC_FREE :: u32 where "BLOCK_MAGIC_FREE \<equiv> 0xFEEEFEED"
abbreviation (input) BLOCK_TAIL_CANARY :: u32 where "BLOCK_TAIL_CANARY \<equiv> 0xBAADF00D"
abbreviation (input) BLOCK_FREE_BIT :: u32 where "BLOCK_FREE_BIT \<equiv> 1"
abbreviation (input) BLOCK_PREV_FREE_BIT :: u32 where "BLOCK_PREV_FREE_BIT \<equiv> 2"
abbreviation (input) BLOCK_FLAG_BITS :: u32 where "BLOCK_FLAG_BITS \<equiv> 3"
abbreviation (input) NULL :: addr where "NULL \<equiv> 0"

definition ALIGN_UP :: "u32 \<Rightarrow> u32 \<Rightarrow> u32" where
  "ALIGN_UP x a = (x + (a - 1)) AND NOT (a - 1)"

record block_header =
  bh_size :: u32
  prev_phys :: addr
  next_free :: addr
  prev_free :: addr
  requested_size :: u32
  magic :: u32

record tlsf_t =
  fl_bitmap :: u32
  sl_bitmap :: "nat \<Rightarrow> u32"
  blocks :: "nat \<Rightarrow> nat \<Rightarrow> addr"
  pool_start :: addr
  pool_end :: addr
  used_bytes :: u32
  total_bytes :: u32
  alloc_count :: u32
  free_count :: u32
  high_water_bytes :: u32
  min_free_bytes :: u32
  alloc_fail_count :: u32
  invalid_free_count :: u32
  canary_fail_count :: u32

record heap =
  tlsf_pool :: tlsf_t
  headers :: "addr \<Rightarrow> block_header"
  bytes :: mem

text \<open>Updating the pool record, and one header.\<close>

abbreviation upd_pool :: "(tlsf_t \<Rightarrow> tlsf_t) \<Rightarrow> heap \<Rightarrow> heap" where
  "upd_pool f s \<equiv> s\<lparr>tlsf_pool := f (tlsf_pool s)\<rparr>"

definition upd_hdr :: "addr \<Rightarrow> (block_header \<Rightarrow> block_header) \<Rightarrow> heap \<Rightarrow> heap" where
  "upd_hdr b f s = s\<lparr>headers := (headers s)(b := f (headers s b))\<rparr>"

section \<open>Block headers\<close>

definition block_size :: "block_header \<Rightarrow> u32" where
  "block_size b = bh_size b AND NOT BLOCK_FLAG_BITS"

definition block_is_free :: "block_header \<Rightarrow> bool" where
  "block_is_free b \<longleftrightarrow> bh_size b AND BLOCK_FREE_BIT \<noteq> 0"

definition block_prev_is_free :: "block_header \<Rightarrow> bool" where
  "block_prev_is_free b \<longleftrightarrow> bh_size b AND BLOCK_PREV_FREE_BIT \<noteq> 0"

definition block_set_size :: "u32 \<Rightarrow> block_header \<Rightarrow> block_header" where
  "block_set_size sz b = b\<lparr>bh_size := sz OR (bh_size b AND BLOCK_FLAG_BITS)\<rparr>"

definition block_set_free :: "block_header \<Rightarrow> block_header" where
  "block_set_free b = b\<lparr>bh_size := bh_size b OR BLOCK_FREE_BIT\<rparr>"

definition block_set_used :: "block_header \<Rightarrow> block_header" where
  "block_set_used b = b\<lparr>bh_size := bh_size b AND NOT BLOCK_FREE_BIT\<rparr>"

definition block_set_prev_free :: "block_header \<Rightarrow> block_header" where
  "block_set_prev_free b = b\<lparr>bh_size := bh_size b OR BLOCK_PREV_FREE_BIT\<rparr>"

definition block_set_prev_used :: "block_header \<Rightarrow> block_header" where
  "block_set_prev_used b = b\<lparr>bh_size := bh_size b AND NOT BLOCK_PREV_FREE_BIT\<rparr>"

definition block_next :: "heap \<Rightarrow> addr \<Rightarrow> addr" where
  "block_next s b = b + BLOCK_OVERHEAD + block_size (headers s b)"

definition block_to_ptr :: "addr \<Rightarrow> addr" where
  "block_to_ptr b = b + BLOCK_OVERHEAD"

definition ptr_to_block :: "addr \<Rightarrow> addr" where
  "ptr_to_block p = p - BLOCK_OVERHEAD"

section \<open>Accounting and guards\<close>

definition ptr_in_pool :: "heap \<Rightarrow> addr \<Rightarrow> bool" where
  "ptr_in_pool s p \<longleftrightarrow> pool_start (tlsf_pool s) \<le> p \<and> p < pool_end (tlsf_pool s)"

definition accounted_block_size :: "heap \<Rightarrow> addr \<Rightarrow> u32" where
  "accounted_block_size s b = block_size (headers s b) + BLOCK_OVERHEAD"

definition update_watermarks :: "tlsf_t \<Rightarrow> tlsf_t" where
  "update_watermarks t =
     (let t = (if used_bytes t > high_water_bytes t
               then t\<lparr>high_water_bytes := used_bytes t\<rparr> else t);
          free_bytes = (if total_bytes t \<ge> used_bytes t then total_bytes t - used_bytes t else 0)
      in if free_bytes < min_free_bytes t then t\<lparr>min_free_bytes := free_bytes\<rparr> else t)"

definition size_with_canary :: "u32 \<Rightarrow> u32 option" where
  "size_with_canary requested =
     (if requested > - 1 - BLOCK_CANARY_SIZE then None
      else let internal = requested + BLOCK_CANARY_SIZE;
               internal = ALIGN_UP internal BLOCK_ALIGN
           in Some (if internal < BLOCK_SIZE_MIN then BLOCK_SIZE_MIN else internal))"

definition write_tail_canary :: "addr \<Rightarrow> heap \<Rightarrow> heap" where
  "write_tail_canary b s =
     (let h = headers s b in
      if requested_size h + BLOCK_CANARY_SIZE > block_size h then s
      else let p = block_to_ptr b + requested_size h;
               v = BLOCK_TAIL_CANARY
           in s\<lparr>bytes := (bytes s)
                (p := ucast (v AND 0xff),
                 p + 1 := ucast (drop_bit 8 v AND 0xff),
                 p + 2 := ucast (drop_bit 16 v AND 0xff),
                 p + 3 := ucast (drop_bit 24 v AND 0xff))\<rparr>)"

definition tail_canary_ok :: "heap \<Rightarrow> addr \<Rightarrow> bool" where
  "tail_canary_ok s b \<longleftrightarrow>
     (let h = headers s b in
      if requested_size h + BLOCK_CANARY_SIZE > block_size h then False
      else let p = block_to_ptr b + requested_size h;
               v = ucast (bytes s p) OR
                   push_bit 8 (ucast (bytes s (p + 1))) OR
                   push_bit 16 (ucast (bytes s (p + 2))) OR
                   push_bit 24 (ucast (bytes s (p + 3))) :: u32
           in v = BLOCK_TAIL_CANARY)"

definition block_header_valid :: "heap \<Rightarrow> addr \<Rightarrow> bool" where
  "block_header_valid s b \<longleftrightarrow>
     ptr_in_pool s b \<and>
     b AND (BLOCK_ALIGN - 1) = 0 \<and>
     \<not> block_size (headers s b) < BLOCK_SIZE_MIN \<and>
     \<not> b + BLOCK_OVERHEAD + block_size (headers s b) > pool_end (tlsf_pool s) \<and>
     (magic (headers s b) = BLOCK_MAGIC_USED \<or> magic (headers s b) = BLOCK_MAGIC_FREE)"

section \<open>Bit scans and the size classes\<close>

text \<open>
  \<open>__builtin_clz\<close> and \<open>__builtin_ctz\<close> are the library calls \<open>__clzsi2\<close> and \<open>__ctzsi2\<close> of
  \<open>baremetal_libc.c\<close> on these cores.  The results are C \<open>int\<close>s: -1 for a zero argument.
\<close>

definition tlsf_fls :: "u32 \<Rightarrow> int" where
  "tlsf_fls x = (if x = 0 then - 1 else 31 - int (clzsi2 x))"

definition tlsf_ffs :: "u32 \<Rightarrow> int" where
  "tlsf_ffs x = (if x = 0 then - 1 else int (ctzsi2 x))"

definition mapping_insert :: "u32 \<Rightarrow> int \<times> int" where
  "mapping_insert sz =
     (if sz < BLOCK_SIZE_MIN
      then (0, sint (sz div (BLOCK_SIZE_MIN div 16)))
      else let fl = tlsf_fls sz
           in (fl, sint (drop_bit (nat (fl - int SL_INDEX_LOG2)) sz XOR 16)))"

definition mapping_search :: "u32 \<Rightarrow> int \<times> int" where
  "mapping_search sz =
     (if sz \<ge> BLOCK_SIZE_MIN
      then let round = push_bit (nat (tlsf_fls sz - int SL_INDEX_LOG2)) 1 - 1
           in mapping_insert (sz + round)
      else mapping_insert sz)"

text \<open>The clamp to the last row and column, common to insertion and removal.\<close>

definition clamped_class :: "u32 \<Rightarrow> nat \<times> nat" where
  "clamped_class sz =
     (let (fl, sl) = mapping_insert sz;
          fl = (if fl \<ge> FL_INDEX_MAX then FL_INDEX_MAX - 1 else fl);
          sl = (if sl \<ge> SL_INDEX_COUNT then SL_INDEX_COUNT - 1 else sl)
      in (nat fl, nat sl))"

section \<open>Free lists\<close>

definition set_blocks :: "nat \<Rightarrow> nat \<Rightarrow> addr \<Rightarrow> tlsf_t \<Rightarrow> tlsf_t" where
  "set_blocks fl sl b t = t\<lparr>blocks := (blocks t)(fl := (blocks t fl)(sl := b))\<rparr>"

definition insert_free_block :: "addr \<Rightarrow> heap \<Rightarrow> heap" where
  "insert_free_block block s =
     (let (fl, sl) = clamped_class (block_size (headers s block));
          head = blocks (tlsf_pool s) fl sl;
          s = upd_hdr block (\<lambda>h. h\<lparr>next_free := head, prev_free := NULL\<rparr>) s;
          s = (if head \<noteq> NULL then upd_hdr head (\<lambda>h. h\<lparr>prev_free := block\<rparr>) s else s);
          s = upd_pool (set_blocks fl sl block) s;
          s = upd_pool (\<lambda>t. t\<lparr>fl_bitmap := fl_bitmap t OR push_bit fl 1\<rparr>) s
      in upd_pool (\<lambda>t. t\<lparr>sl_bitmap := (sl_bitmap t)(fl := sl_bitmap t fl OR push_bit sl 1)\<rparr>) s)"

definition remove_free_block :: "addr \<Rightarrow> heap \<Rightarrow> heap" where
  "remove_free_block block s =
     (let (fl, sl) = clamped_class (block_size (headers s block));
          prev = prev_free (headers s block);
          s = (if prev \<noteq> NULL
               then upd_hdr prev (\<lambda>h. h\<lparr>next_free := next_free (headers s block)\<rparr>) s
               else upd_pool (set_blocks fl sl (next_free (headers s block))) s);
          next = next_free (headers s block);
          s = (if next \<noteq> NULL
               then upd_hdr next (\<lambda>h. h\<lparr>prev_free := prev_free (headers s block)\<rparr>) s
               else s)
      in if blocks (tlsf_pool s) fl sl = NULL
         then let s = upd_pool (\<lambda>t. t\<lparr>sl_bitmap :=
                        (sl_bitmap t)(fl := sl_bitmap t fl AND NOT (push_bit sl 1))\<rparr>) s
              in if sl_bitmap (tlsf_pool s) fl = 0
                 then upd_pool (\<lambda>t. t\<lparr>fl_bitmap := fl_bitmap t AND NOT (push_bit fl 1)\<rparr>) s
                 else s
         else s)"

section \<open>Splitting and merging\<close>

text \<open>\<open>split_block\<close> returns the new block, or nothing when the block is too small to split.\<close>

definition split_block :: "addr \<Rightarrow> u32 \<Rightarrow> heap \<Rightarrow> addr option \<times> heap" where
  "split_block block sz s =
     (let current = block_size (headers s block) in
      if current < sz + BLOCK_OVERHEAD + BLOCK_SIZE_MIN then (None, s)
      else let remain = current - sz - BLOCK_OVERHEAD in
        if remain < BLOCK_SIZE_MIN then (None, s)
        else let rest = block + BLOCK_OVERHEAD + sz;
                 s = upd_hdr rest (\<lambda>h. (block_set_prev_used (block_set_free (block_set_size remain
                       (h\<lparr>bh_size := 0\<rparr>))))
                       \<lparr>prev_phys := block, requested_size := 0, magic := BLOCK_MAGIC_FREE\<rparr>) s;
                 s = upd_hdr block (block_set_size sz) s;
                 next = block_next s rest;
                 s = (if next < pool_end (tlsf_pool s)
                      then upd_hdr next (\<lambda>h. block_set_prev_free (h\<lparr>prev_phys := rest\<rparr>)) s
                      else s)
             in (Some rest, s))"

definition merge_prev :: "addr \<Rightarrow> heap \<Rightarrow> addr \<times> heap" where
  "merge_prev block s =
     (if block_prev_is_free (headers s block)
      then let prev = prev_phys (headers s block);
               s = remove_free_block prev s;
               new_size = block_size (headers s prev) + BLOCK_OVERHEAD
                          + block_size (headers s block);
               s = upd_hdr prev (block_set_size new_size) s;
               next = block_next s prev;
               s = (if next < pool_end (tlsf_pool s)
                    then upd_hdr next (\<lambda>h. h\<lparr>prev_phys := prev\<rparr>) s else s)
           in (prev, s)
      else (block, s))"

definition merge_next :: "addr \<Rightarrow> heap \<Rightarrow> addr \<times> heap" where
  "merge_next block s =
     (let next = block_next s block in
      if next < pool_end (tlsf_pool s) \<and> block_is_free (headers s next)
      then let s = remove_free_block next s;
               new_size = block_size (headers s block) + BLOCK_OVERHEAD
                          + block_size (headers s next);
               s = upd_hdr block (block_set_size new_size) s;
               nn = block_next s block;
               s = (if nn < pool_end (tlsf_pool s)
                    then upd_hdr nn (\<lambda>h. h\<lparr>prev_phys := block\<rparr>) s else s)
           in (block, s)
      else (block, s))"

definition find_suitable_block :: "u32 \<Rightarrow> heap \<Rightarrow> addr" where
  "find_suitable_block sz s =
     (let (fl, sl) = mapping_search sz in
      if fl \<ge> FL_INDEX_MAX then NULL
      else let sl_map = sl_bitmap (tlsf_pool s) (nat fl) AND push_bit (nat sl) (NOT 0) in
        if sl_map = 0
        then let fl_map = fl_bitmap (tlsf_pool s) AND push_bit (nat (fl + 1)) (NOT 0) in
          if fl_map = 0 then NULL
          else let fl = tlsf_ffs fl_map;
                   sl_map = sl_bitmap (tlsf_pool s) (nat fl);
                   sl = tlsf_ffs sl_map
               in blocks (tlsf_pool s) (nat fl) (nat sl)
        else let sl = tlsf_ffs sl_map
             in blocks (tlsf_pool s) (nat fl) (nat sl))"

section \<open>The public interface\<close>

text \<open>\<open>memset(&tlsf_pool, 0, sizeof(tlsf_pool))\<close>.\<close>

definition zero_pool :: tlsf_t where
  "zero_pool = \<lparr>fl_bitmap = 0, sl_bitmap = (\<lambda>_. 0), blocks = (\<lambda>_ _. NULL),
     pool_start = NULL, pool_end = NULL, used_bytes = 0, total_bytes = 0, alloc_count = 0,
     free_count = 0, high_water_bytes = 0, min_free_bytes = 0, alloc_fail_count = 0,
     invalid_free_count = 0, canary_fail_count = 0\<rparr>"

definition tlsf_init :: "addr \<Rightarrow> addr \<Rightarrow> heap \<Rightarrow> heap" where
  "tlsf_init heap_start heap_end s =
     (let start = (heap_start + BLOCK_ALIGN - 1) AND NOT (BLOCK_ALIGN - 1);
          end = heap_end AND NOT (BLOCK_ALIGN - 1);
          pool_size = end - start;
          s = s\<lparr>tlsf_pool := zero_pool\<lparr>pool_start := start, pool_end := end,
                  total_bytes := pool_size, min_free_bytes := pool_size\<rparr>\<rparr>
      in if pool_size < BLOCK_SIZE_MIN + BLOCK_OVERHEAD * 2 then s
         else let block = start;
                  block_data_size = (pool_size - BLOCK_OVERHEAD) AND NOT (BLOCK_ALIGN - 1);
                  s = upd_hdr block (\<lambda>h. (block_set_prev_used (block_set_free
                        (block_set_size block_data_size (h\<lparr>bh_size := 0\<rparr>))))
                        \<lparr>prev_phys := NULL, requested_size := 0, magic := BLOCK_MAGIC_FREE\<rparr>) s
              in insert_free_block block s)"

definition count_alloc_fail :: "heap \<Rightarrow> heap" where
  "count_alloc_fail = upd_pool (\<lambda>t. t\<lparr>alloc_fail_count := alloc_fail_count t + 1\<rparr>)"

definition count_invalid_free :: "heap \<Rightarrow> heap" where
  "count_invalid_free = upd_pool (\<lambda>t. t\<lparr>invalid_free_count := invalid_free_count t + 1\<rparr>)"

definition count_canary_fail :: "heap \<Rightarrow> heap" where
  "count_canary_fail = upd_pool (\<lambda>t. t\<lparr>canary_fail_count := canary_fail_count t + 1\<rparr>)"

definition tlsf_malloc :: "u32 \<Rightarrow> heap \<Rightarrow> addr \<times> heap" where
  "tlsf_malloc requested s =
     (if requested = 0 then (NULL, s)
      else case size_with_canary requested of
        None \<Rightarrow> (NULL, count_alloc_fail s)
      | Some sz \<Rightarrow>
        let block = find_suitable_block sz s in
        if block = NULL then (NULL, count_alloc_fail s)
        else let s = remove_free_block block s;
                 (remain, s) = split_block block sz s;
                 s = (case remain of Some r \<Rightarrow> insert_free_block r s | None \<Rightarrow> s);
                 s = upd_hdr block (\<lambda>h. (block_set_used h)
                       \<lparr>requested_size := requested, magic := BLOCK_MAGIC_USED\<rparr>) s;
                 s = write_tail_canary block s;
                 next = block_next s block;
                 s = (if next < pool_end (tlsf_pool s)
                      then upd_hdr next block_set_prev_used s else s);
                 s = upd_pool (\<lambda>t. t\<lparr>used_bytes := used_bytes t + accounted_block_size s block,
                                     alloc_count := alloc_count t + 1\<rparr>) s;
                 s = upd_pool update_watermarks s
             in (block_to_ptr block, s))"

text \<open>The test that \<open>tlsf_free\<close> and \<open>tlsf_realloc\<close> make before they touch a block.\<close>

definition rejects :: "heap \<Rightarrow> addr \<Rightarrow> bool" where
  "rejects s block \<longleftrightarrow>
     \<not> block_header_valid s block \<or> magic (headers s block) \<noteq> BLOCK_MAGIC_USED \<or>
     block_is_free (headers s block)"

definition tlsf_free :: "addr \<Rightarrow> heap \<Rightarrow> heap" where
  "tlsf_free ptr s =
     (if ptr = NULL then s
      else let block = ptr_to_block ptr in
        if rejects s block then count_invalid_free s
        else let s = (if \<not> tail_canary_ok s block then count_canary_fail s else s);
                 s = upd_pool (\<lambda>t. t\<lparr>used_bytes := used_bytes t - accounted_block_size s block,
                                     free_count := free_count t + 1\<rparr>) s;
                 s = upd_hdr block (\<lambda>h. (block_set_free h)
                       \<lparr>requested_size := 0, magic := BLOCK_MAGIC_FREE\<rparr>) s;
                 (block, s) = merge_prev block s;
                 (block, s) = merge_next block s;
                 s = insert_free_block block s;
                 next = block_next s block
             in if next < pool_end (tlsf_pool s)
                then upd_hdr next (\<lambda>h. block_set_prev_free (h\<lparr>prev_phys := block\<rparr>)) s
                else s)"

text \<open>The in-place branches of \<open>tlsf_realloc\<close>.\<close>

definition realloc_shrink :: "addr \<Rightarrow> u32 \<Rightarrow> u32 \<Rightarrow> u32 \<Rightarrow> heap \<Rightarrow> heap" where
  "realloc_shrink block requested new_size old_accounted s =
     (let (remain, s) = split_block block new_size s;
          s = (case remain of
                 None \<Rightarrow> s
               | Some remain \<Rightarrow>
                 let s = upd_hdr remain block_set_free s;
                     (remain, s) = merge_next remain s;
                     s = insert_free_block remain s;
                     nn = block_next s remain
                 in if nn < pool_end (tlsf_pool s)
                    then upd_hdr nn (\<lambda>h. block_set_prev_free (h\<lparr>prev_phys := remain\<rparr>)) s
                    else s);
          s = upd_hdr block (\<lambda>h. h\<lparr>requested_size := requested, magic := BLOCK_MAGIC_USED\<rparr>) s;
          s = write_tail_canary block s;
          new_accounted = accounted_block_size s block
      in if old_accounted \<ge> new_accounted
         then upd_pool (\<lambda>t. t\<lparr>used_bytes := used_bytes t - (old_accounted - new_accounted)\<rparr>) s
         else s)"

definition realloc_expand :: "addr \<Rightarrow> addr \<Rightarrow> u32 \<Rightarrow> u32 \<Rightarrow> u32 \<Rightarrow> u32 \<Rightarrow> heap \<Rightarrow> heap" where
  "realloc_expand block next combined requested new_size old_accounted s =
     (let s = remove_free_block next s;
          s = upd_hdr block (block_set_size combined) s;
          (remain, s) = split_block block new_size s;
          s = (case remain of Some r \<Rightarrow> insert_free_block r s | None \<Rightarrow> s);
          nn = block_next s block;
          s = (if nn < pool_end (tlsf_pool s)
               then upd_hdr nn (\<lambda>h. block_set_prev_used (h\<lparr>prev_phys := block\<rparr>)) s else s);
          s = upd_hdr block (\<lambda>h. h\<lparr>requested_size := requested, magic := BLOCK_MAGIC_USED\<rparr>) s;
          s = write_tail_canary block s;
          new_accounted = accounted_block_size s block;
          s = upd_pool (\<lambda>t. t\<lparr>used_bytes := used_bytes t + (new_accounted - old_accounted)\<rparr>) s
      in upd_pool update_watermarks s)"

definition realloc_move :: "addr \<Rightarrow> u32 \<Rightarrow> u32 \<Rightarrow> heap \<Rightarrow> addr \<times> heap" where
  "realloc_move ptr old_requested requested s =
     (let (new_ptr, s) = tlsf_malloc requested s in
      if new_ptr = NULL then (NULL, s)
      else let s = s\<lparr>bytes := snd (memcpy (bytes s) new_ptr ptr
                       (if old_requested < requested then old_requested else requested))\<rparr>
           in (new_ptr, tlsf_free ptr s))"

definition tlsf_realloc :: "addr \<Rightarrow> u32 \<Rightarrow> heap \<Rightarrow> addr \<times> heap" where
  "tlsf_realloc ptr requested s =
     (if ptr = NULL then tlsf_malloc requested s
      else if requested = 0 then (NULL, tlsf_free ptr s)
      else case size_with_canary requested of
        None \<Rightarrow> (NULL, count_alloc_fail s)
      | Some new_size \<Rightarrow>
        let block = ptr_to_block ptr in
        if rejects s block then (NULL, count_invalid_free s)
        else if \<not> tail_canary_ok s block then (NULL, count_canary_fail s)
        else let cur_size = block_size (headers s block);
                 old_accounted = accounted_block_size s block;
                 old_requested = requested_size (headers s block)
             in if cur_size \<ge> new_size
                then (ptr, realloc_shrink block requested new_size old_accounted s)
                else let next = block_next s block;
                         combined = cur_size + BLOCK_OVERHEAD + block_size (headers s next)
                     in if next < pool_end (tlsf_pool s) \<and> block_is_free (headers s next) \<and>
                           combined \<ge> new_size
                        then (ptr, realloc_expand block next combined requested new_size
                                     old_accounted s)
                        else realloc_move ptr old_requested requested s)"

definition tlsf_calloc :: "u32 \<Rightarrow> u32 \<Rightarrow> heap \<Rightarrow> addr \<times> heap" where
  "tlsf_calloc count sz s =
     (if sz \<noteq> 0 \<and> count > (- 1) div sz then (NULL, count_alloc_fail s)
      else let total = count * sz;
               (ptr, s) = tlsf_malloc total s
           in if ptr \<noteq> NULL then (ptr, s\<lparr>bytes := snd (memset (bytes s) ptr 0 total)\<rparr>)
              else (ptr, s))"

section \<open>Inspection\<close>

partial_function (option) largest_free_loop :: "heap \<Rightarrow> addr \<Rightarrow> u32 \<Rightarrow> u32 option" where
  "largest_free_loop s p largest =
     (if p + BLOCK_OVERHEAD \<le> pool_end (tlsf_pool s) then
        if \<not> block_header_valid s p then Some largest
        else let h = headers s p;
                 largest = (if block_is_free h \<and> block_size h > largest
                            then block_size h else largest)
             in largest_free_loop s (p + (BLOCK_OVERHEAD + block_size h)) largest
      else Some largest)"

definition tlsf_get_largest_free :: "heap \<Rightarrow> u32 option" where
  "tlsf_get_largest_free s = largest_free_loop s (pool_start (tlsf_pool s)) 0"

text \<open>\<open>Some True\<close> is a return of 1 after the last comparison with \<open>used_bytes\<close>.\<close>

partial_function (option) check_heap_loop :: "heap \<Rightarrow> addr \<Rightarrow> u32 \<Rightarrow> bool option" where
  "check_heap_loop s p accounted_used =
     (if p < pool_end (tlsf_pool s) then
        if p + BLOCK_OVERHEAD > pool_end (tlsf_pool s) then Some False
        else if \<not> block_header_valid s p then Some False
        else let h = headers s p;
                 next = p + (BLOCK_OVERHEAD + block_size h)
             in if magic h = BLOCK_MAGIC_USED then
                  if block_is_free h \<or> \<not> tail_canary_ok s p then Some False
                  else check_heap_loop s next (accounted_used + accounted_block_size s p)
                else if magic h = BLOCK_MAGIC_FREE then
                  if \<not> block_is_free h then Some False
                  else check_heap_loop s next accounted_used
                else check_heap_loop s next accounted_used
      else if p \<noteq> pool_end (tlsf_pool s) then Some False
      else Some (accounted_used = used_bytes (tlsf_pool s)))"

definition tlsf_check_heap :: "heap \<Rightarrow> bool option" where
  "tlsf_check_heap s =
     (if pool_start (tlsf_pool s) = NULL \<or> pool_end (tlsf_pool s) = NULL then Some False
      else check_heap_loop s (pool_start (tlsf_pool s)) 0)"

end
