(* ===== verification/Tlsf_Class.thy ===== *)
theory Tlsf_Class
  imports Tlsf Libc_Proofs
begin

text \<open>
  The size classes of the allocator: what \<open>mapping_insert\<close>, \<open>mapping_search\<close> and the clamp of
  the list operations compute, as arithmetic on sizes.  Class \<open>(fl, sl)\<close> holds the sizes from
  \<open>class_lo fl sl\<close> up to the next class; a search starts at a class whose every size is large
  enough.
\<close>


lemma tlsf_fls_bounds:
  assumes "x \<noteq> 0"
  obtains k where "tlsf_fls x = int k" "k \<le> 31" "2 ^ k \<le> unat x" "unat x < 2 ^ Suc k"
proof
  let ?k = "31 - clzsi2 x"
  have c: "clzsi2 x < 32" "2 ^ (31 - clzsi2 x) \<le> unat x" "unat x < 2 ^ (32 - clzsi2 x)"
    using clzsi2_bounds [OF assms] by auto
  show "tlsf_fls x = int ?k" "?k \<le> 31" "2 ^ ?k \<le> unat x"
    using c assms by (auto simp: tlsf_fls_def)
  have "32 - clzsi2 x = Suc ?k" using c(1) by simp
  then show "unat x < 2 ^ Suc ?k" using c(3) by simp
qed

text \<open>\<open>class_lo fl sl\<close>: the smallest size of the class \<open>(fl, sl)\<close>.\<close>

definition class_lo :: "nat \<Rightarrow> nat \<Rightarrow> nat" where
  "class_lo fl sl = (16 + sl) * 2 ^ (fl - 4)"

lemma sint_small:
  assumes "unat (x::u32) < 2 ^ 31"
  shows "sint x = int (unat x)"
proof -
  have "int (unat x) < int (2 ^ 31)"
    using assms by (simp only: of_nat_less_iff)
  then have "uint x < 2 ^ 31" by simp
  moreover have "- (2 ^ 31) \<le> uint x" by (rule order_trans [of _ 0]) simp_all
  ultimately show ?thesis
    by (simp add: sint_uint signed_take_bit_int_eq_self)
qed

lemma xor_16: "16 \<le> unat x \<Longrightarrow> unat x < 32 \<Longrightarrow> unat ((x::u32) XOR 16) = unat x - 16"
proof -
  assume a: "16 \<le> unat x" "unat x < 32"
  have "\<forall>y \<in> set [16..<32]. unat (word_of_nat y XOR (16::u32)) = y - 16"
    by code_simp
  moreover have "unat x \<in> set [16..<32]" using a by (simp only: set_upt atLeastLessThan_iff simp_thms)
  ultimately have "unat (word_of_nat (unat x) XOR (16::u32)) = unat x - 16" by (rule bspec)
  then show ?thesis by simp
qed

lemma mapping_insert_large:
  assumes "32 \<le> unat sz"
  obtains fl sl where "mapping_insert sz = (int fl, int sl)" "5 \<le> fl" "fl \<le> 31" "sl < 16"
    "class_lo fl sl \<le> unat sz" "unat sz < class_lo fl sl + 2 ^ (fl - 4)"
    "2 ^ fl \<le> unat sz" "unat sz < 2 ^ Suc fl" "tlsf_fls sz = int fl"
proof -
  have "sz \<noteq> 0" using assms by auto
  then obtain fl where fl: "tlsf_fls sz = int fl" "fl \<le> 31" "2 ^ fl \<le> unat sz" "unat sz < 2 ^ Suc fl"
    by (rule tlsf_fls_bounds)
  have "5 < Suc fl"
    using assms fl(4) power_less_imp_less_exp [of "2::nat" 5 "Suc fl"] by simp
  then have fl5: "5 \<le> fl" by simp
  define q where "q = unat sz div 2 ^ (fl - 4)"
  have pw: "(2::nat) ^ fl = 16 * 2 ^ (fl - 4)"
    using fl5 power_add [of "2::nat" 4 "fl - 4"] by simp
  have q: "16 \<le> q" "q < 32"
    using fl(3,4) unfolding q_def power_Suc pw
    by (simp_all add: less_eq_div_iff_mult_less_eq div_less_iff_less_mult)
  define w where "w = drop_bit (fl - 4) sz"
  have w: "unat w = q" by (simp only: w_def q_def unat_drop_bit)
  then have x: "unat (w XOR 16) = q - 16" using q by (simp add: xor_16)
  then have "sint (w XOR 16) = int (q - 16)" using q by (simp add: sint_small)
  moreover have "\<not> sz < 32" using assms by (simp add: word_less_unat)
  moreover have "nat (int fl - int 4) = fl - 4" using fl5 by simp
  ultimately have "mapping_insert sz = (int fl, int (q - 16))"
    using fl(1) by (simp add: mapping_insert_def w_def)
  moreover have lo: "class_lo fl (q - 16) = q * 2 ^ (fl - 4)"
    using q by (simp add: class_lo_def)
  moreover have "q * 2 ^ (fl - 4) \<le> unat sz" by (simp add: q_def)
  moreover have "unat sz < q * 2 ^ (fl - 4) + 2 ^ (fl - 4)"
    unfolding q_def using dividend_less_div_times [of "2 ^ (fl - 4)" "unat sz"] by simp
  ultimately show ?thesis
    using that [of fl "q - 16"] fl fl5 q by simp
qed

lemma clamped_class_large:
  assumes "32 \<le> unat sz"
  obtains fl sl where "clamped_class sz = (fl, sl)" "fl < 20" "sl < 16"
    "class_lo fl sl \<le> unat sz \<or> 2 ^ 20 \<le> unat sz"
    "unat sz < class_lo fl sl + 2 ^ (fl - 4) \<or> fl = 19"
proof -
  obtain fl sl where c: "mapping_insert sz = (int fl, int sl)" "5 \<le> fl" "fl \<le> 31" "sl < 16"
    "class_lo fl sl \<le> unat sz" "unat sz < class_lo fl sl + 2 ^ (fl - 4)" "2 ^ fl \<le> unat sz"
    using mapping_insert_large [OF assms] by metis
  show ?thesis
  proof (cases "fl < 20")
    case True
    with c show ?thesis by (intro that [of fl sl]) (auto simp: clamped_class_def)
  next
    case False
    then have "(2::nat) ^ 20 \<le> 2 ^ fl" by (intro power_increasing) auto
    then have "2 ^ 20 \<le> unat sz" using c(7) by (rule order_trans)
    with False c show ?thesis by (intro that [of 19 sl]) (auto simp: clamped_class_def)
  qed
qed

lemma class_lo_mono:
  assumes "fl < fl' \<or> fl = fl' \<and> sl \<le> sl'" and "sl < 16" "4 \<le> fl"
  shows "class_lo fl sl \<le> class_lo fl' sl'"
proof (cases "fl < fl'")
  case True
  have "class_lo fl sl \<le> 32 * 2 ^ (fl - 4)"
    using assms(2) by (simp add: class_lo_def)
  also have "\<dots> = 16 * 2 ^ (Suc fl - 4)"
    unfolding Suc_diff_le [OF assms(3)] by simp
  also have "\<dots> \<le> 16 * 2 ^ (fl' - 4)"
    using True by (intro mult_le_mono2 power_increasing) auto
  also have "\<dots> \<le> class_lo fl' sl'"
    by (simp add: class_lo_def)
  finally show ?thesis .
qed (use assms in \<open>auto simp: class_lo_def\<close>)

text \<open>
  A search class is good: below the wrap-around of the rounding, the lower end of the class
  found for a size is at least that size.
\<close>

lemma mapping_search_ge:
  assumes "32 \<le> unat sz" and "unat sz \<le> 0xF8000000"
  obtains fl sl where "mapping_search sz = (int fl, int sl)" "5 \<le> fl" "fl \<le> 31" "sl < 16"
    "unat sz \<le> class_lo fl sl" "16 * class_lo fl sl < 17 * unat sz"
proof -
  obtain f where f: "tlsf_fls sz = int f" "5 \<le> f" "f \<le> 31" "2 ^ f \<le> unat sz" "unat sz < 2 ^ Suc f"
    using mapping_insert_large [OF assms(1)] by metis
  define w :: nat where "w = 2 ^ (f - 4)"
  have w: "1 \<le> w" "w \<le> 2 ^ 27" "2 ^ f = 16 * w"
    using f(2,3) power_increasing [of "f - 4" 27 "2::nat"] power_add [of "2::nat" 4 "f - 4"]
    by (simp_all add: w_def)
  have sum: "unat sz + (w - 1) < 2 ^ 32"
  proof (cases "f = 31")
    case True
    then show ?thesis using assms(2) w(1) by (simp add: w_def)
  next
    case False
    then have "(2::nat) ^ Suc f \<le> 2 ^ 31" using f(3) by (intro power_increasing) auto
    then show ?thesis using f(5) w(1,2) by simp
  qed
  define r :: u32 where "r = push_bit (nat (int f - int 4)) 1 - 1"
  have "unat (push_bit (f - 4) (1::u32)) = w"
    using unat_push_bit [of "1::u32" "f - 4"] w(2) by (simp add: w_def)
  moreover have "nat (int f - int 4) = f - 4" using f(2) by simp
  ultimately have r: "unat r = w - 1"
    using w(1) unfolding r_def by (metis One_nat_def not_one_le_zero unat_0 unat_minus_one)
  have s': "unat (sz + r) = unat sz + (w - 1)"
    using sum r by (subst unat_add_small) simp_all
  have search: "mapping_search sz = mapping_insert (sz + r)"
    using assms(1) f(1) by (simp add: mapping_search_def r_def word_le_unat)
  have "32 \<le> unat (sz + r)" using assms(1) s' by simp
  then obtain fl sl where c: "mapping_insert (sz + r) = (int fl, int sl)" "5 \<le> fl" "fl \<le> 31" "sl < 16"
    "class_lo fl sl \<le> unat (sz + r)" "unat (sz + r) < class_lo fl sl + 2 ^ (fl - 4)"
    "2 ^ fl \<le> unat (sz + r)" "unat (sz + r) < 2 ^ Suc fl"
    using mapping_insert_large by metis
  have "f \<le> fl"
    using f(4) c(8) s' power_less_imp_less_exp [of "2::nat" f "Suc fl"] by simp
  then have wfl: "w \<le> 2 ^ (fl - 4)"
    unfolding w_def by (intro power_increasing) auto
  have "unat sz \<le> class_lo fl sl"
  proof (cases "fl = f")
    case True
    then show ?thesis using c(6) s' w(1) by (simp add: w_def)
  next
    case False
    then have "(2::nat) ^ Suc f \<le> 2 ^ fl" using \<open>f \<le> fl\<close> by (intro power_increasing) auto
    moreover have "2 ^ fl \<le> class_lo fl sl"
      using c(2) power_add [of "2::nat" 4 "fl - 4"] by (simp add: class_lo_def)
    ultimately show ?thesis using f(5) by linarith
  qed
  moreover have "16 * class_lo fl sl < 17 * unat sz"
    using c(5) s' w f(4) by linarith
  ultimately show ?thesis
    using that [of fl sl] c search by simp
qed
end
