(* ===== verification/Tlsf_Lists.thy ===== *)
theory Tlsf_Lists
  imports Tlsf_Class
begin

text \<open>
  The segregated free lists: doubly-linked lists threaded through the headers, one per size
  class, with the two-level bitmap.  \<open>insert_free_block\<close> and \<open>remove_free_block\<close> keep every list
  well formed and both bitmap levels exact, and change nothing of a header but its links.
\<close>

section \<open>Views of a header\<close>

definition ph :: "block_header \<Rightarrow> block_header" where
  "ph h = h\<lparr>next_free := NULL, prev_free := NULL\<rparr>"

definition pv :: "heap \<Rightarrow> addr \<Rightarrow> block_header" where
  "pv s a = ph (headers s a)"

text \<open>Updates that leave the links alone.\<close>

definition phys_upd :: "(block_header \<Rightarrow> block_header) \<Rightarrow> bool" where
  "phys_upd f \<longleftrightarrow> (\<forall>h. ph (f h) = f (ph h) \<and> next_free (f h) = next_free h \<and> prev_free (f h) = prev_free h)"

lemma pv_upd_hdr [simp]: "phys_upd f \<Longrightarrow> pv (upd_hdr b f s) = (pv s)(b := f (pv s b))"
  by (auto simp: phys_upd_def pv_def upd_hdr_def)

lemma pv_upd_pool [simp]: "pv (upd_pool f s) = pv s" and pv_bytes [simp]: "pv (s\<lparr>bytes := m\<rparr>) = pv s"
  by (auto simp: pv_def)

lemma ph_simps [simp]:
  "bh_size (ph h) = bh_size h" "prev_phys (ph h) = prev_phys h"
  "requested_size (ph h) = requested_size h" "magic (ph h) = magic h"
  by (simp_all add: ph_def)

lemma phys_upds [simp]:
  "phys_upd (block_set_size z)" "phys_upd block_set_free" "phys_upd block_set_used"
  "phys_upd block_set_prev_free" "phys_upd block_set_prev_used"
  "phys_upd (\<lambda>h. h\<lparr>prev_phys := x\<rparr>)"
  "phys_upd (\<lambda>h. block_set_prev_free (h\<lparr>prev_phys := x\<rparr>))"
  "phys_upd (\<lambda>h. (block_set_used h)\<lparr>requested_size := r, magic := m\<rparr>)"
  "phys_upd (\<lambda>h. (block_set_prev_used (block_set_free (block_set_size z (h\<lparr>bh_size := 0\<rparr>))))
     \<lparr>prev_phys := x, requested_size := r, magic := m\<rparr>)"
  by (simp_all add: phys_upd_def ph_def block_set_size_def block_set_free_def block_set_used_def
      block_set_prev_free_def block_set_prev_used_def)


section \<open>Doubly-linked lists of headers\<close>

text \<open>
  \<open>dls H head prev xs nxt lst\<close>: starting at \<open>head\<close>, whose \<open>prev_free\<close> is \<open>prev\<close>, the links run
  through \<open>xs\<close>; the last one points to \<open>nxt\<close>, and \<open>lst\<close> is the last element (\<open>prev\<close> if there is
  none).
\<close>

fun dls :: "(addr \<Rightarrow> block_header) \<Rightarrow> addr \<Rightarrow> addr \<Rightarrow> addr list \<Rightarrow> addr \<Rightarrow> addr \<Rightarrow> bool" where
  "dls H head prev [] nxt lst \<longleftrightarrow> head = nxt \<and> lst = prev"
| "dls H head prev (x # xs) nxt lst \<longleftrightarrow>
     head = x \<and> x \<noteq> NULL \<and> prev_free (H x) = prev \<and> dls H (next_free (H x)) x xs nxt lst"

lemma dls_append [simp]:
  "dls H head prev (xs @ ys) nxt lst \<longleftrightarrow>
    (\<exists>m k. dls H head prev xs m k \<and> dls H m k ys nxt lst)"
  by (induction xs arbitrary: head prev) auto

lemma dls_cong:
  "(\<And>a. a \<in> set xs \<Longrightarrow> next_free (H' a) = next_free (H a) \<and> prev_free (H' a) = prev_free (H a)) \<Longrightarrow>
    dls H' head prev xs nxt lst = dls H head prev xs nxt lst"
  by (induction xs arbitrary: head prev) auto

definition dll :: "(addr \<Rightarrow> block_header) \<Rightarrow> addr \<Rightarrow> addr list \<Rightarrow> bool" where
  "dll H head xs \<longleftrightarrow> distinct xs \<and> (\<exists>lst. dls H head NULL xs NULL lst)"

lemma dll_cong:
  "(\<And>a. a \<in> set xs \<Longrightarrow> next_free (H' a) = next_free (H a) \<and> prev_free (H' a) = prev_free (H a)) \<Longrightarrow>
    dll H' head xs = dll H head xs"
  using dls_cong [of xs H' H] by (simp add: dll_def)

lemma dll_head: "dll H head xs \<Longrightarrow> head = (case xs of [] \<Rightarrow> NULL | x # _ \<Rightarrow> x)"
  by (cases xs) (auto simp: dll_def)

lemma dll_NULL_iff: "dll H head xs \<Longrightarrow> head = NULL \<longleftrightarrow> xs = []"
  by (cases xs) (auto simp: dll_def)

lemma dls_not_NULL: "dls H head prev xs nxt lst \<Longrightarrow> NULL \<notin> set xs"
  by (induction xs arbitrary: head prev) auto

lemma dll_not_NULL: "dll H head xs \<Longrightarrow> NULL \<notin> set xs"
  by (auto simp: dll_def dest: dls_not_NULL)

lemma dll_push:
  assumes "dll H head xs" and "b \<notin> set xs" and "b \<noteq> NULL"
    and "next_free (H' b) = head" and "prev_free (H' b) = NULL"
    and "head \<noteq> NULL \<Longrightarrow> prev_free (H' head) = b \<and> next_free (H' head) = next_free (H head)"
    and "\<And>a. a \<noteq> b \<Longrightarrow> a \<noteq> head \<Longrightarrow> next_free (H' a) = next_free (H a) \<and> prev_free (H' a) = prev_free (H a)"
  shows "dll H' b (b # xs)"
proof (cases xs)
  case Nil
  with assms show ?thesis by (simp add: dll_def)
next
  case (Cons x ys)
  with assms(1) obtain lst where d: "head = x" "x \<noteq> NULL" "distinct (x # ys)"
    "dls H (next_free (H x)) x ys NULL lst" by (auto simp: dll_def)
  have same: "next_free (H' a) = next_free (H a) \<and> prev_free (H' a) = prev_free (H a)"
    if "a \<in> set ys" for a
    using assms(7) [of a] assms(2) d Cons that by auto
  have "dls H' (next_free (H x)) x ys NULL lst"
    using dls_cong [of ys H' H, OF same] d(4) by simp
  with assms d Cons show ?thesis by (auto simp: dll_def)
qed

lemma dll_neighbours:
  assumes "dll H head (xs @ b # ys)"
  shows "prev_free (H b) = (if xs = [] then NULL else last xs)"
    and "next_free (H b) = (case ys of [] \<Rightarrow> NULL | y # _ \<Rightarrow> y)"
    and "distinct (xs @ b # ys)" and "NULL \<notin> set (xs @ b # ys)"
proof -
  obtain k lst where xs: "dls H head NULL xs b k" and k: "prev_free (H b) = k"
    and ys: "dls H (next_free (H b)) b ys NULL lst"
    using assms by (auto simp: dll_def)
  show "prev_free (H b) = (if xs = [] then NULL else last xs)"
    using xs k by (cases xs rule: rev_cases) auto
  show "next_free (H b) = (case ys of [] \<Rightarrow> NULL | y # _ \<Rightarrow> y)"
    using ys by (cases ys) auto
  show "distinct (xs @ b # ys)" using assms by (simp add: dll_def)
  show "NULL \<notin> set (xs @ b # ys)" using dll_not_NULL [OF assms] .
qed

lemma dll_unlink:
  assumes "dll H head (xs @ b # ys)"
    and head': "head' = (if prev_free (H b) = NULL then next_free (H b) else head)"
    and H': "\<And>a. next_free (H' a) = (if a = prev_free (H b) \<and> a \<noteq> NULL then next_free (H b) else next_free (H a))
      \<and> prev_free (H' a) = (if a = next_free (H b) \<and> a \<noteq> NULL then prev_free (H b) else prev_free (H a))"
  shows "dll H' head' (xs @ ys)"
proof -
  have dist: "distinct (xs @ b # ys)" using assms(1) by (simp add: dll_def)
  obtain k lst where xs: "dls H head NULL xs b k" and k: "prev_free (H b) = k"
    and ys: "dls H (next_free (H b)) b ys NULL lst"
    using assms(1) by (auto simp: dll_def)
  define n where "n = next_free (H b)"
  have kxs: "k = (if xs = [] then NULL else last xs)"
    using xs by (cases xs rule: rev_cases) auto
  have nys: "n = (case ys of [] \<Rightarrow> NULL | y # _ \<Rightarrow> y)"
    using ys by (cases ys) (auto simp: n_def)
  have kNULL: "xs \<noteq> [] \<Longrightarrow> k \<noteq> NULL" 
    using dls_not_NULL [OF xs] kxs by (metis last_in_set)
  have kys: "k \<noteq> NULL \<Longrightarrow> k \<notin> set ys"
    using dist kxs last_in_set [of xs] by (auto simp: disjoint_iff split: if_splits)
  have left: "dls H' head' NULL xs n k"
  proof (cases xs rule: rev_cases)
    case Nil
    then show ?thesis using k kxs head' by (simp add: n_def)
  next
    case (snoc xs' x)
    then have x: "x = k" using kxs by simp
    from xs snoc obtain k' where p: "dls H head NULL xs' k k'" "prev_free (H k) = k'" by auto
    have nk: "k \<noteq> n" using dist snoc x kNULL by (auto simp: nys split: list.splits)
    have "dls H' head NULL xs' k k'"
      using p(1) dist snoc x kNULL by (subst dls_cong [of _ _ H]) (auto simp: H' k n_def [symmetric] nys split: list.splits)
    moreover have "head' = head" using head' k kNULL snoc by simp
    moreover have "prev_free (H' k) = k'" "next_free (H' k) = n"
      using p(2) kNULL snoc nk by (auto simp: H' k n_def)
    ultimately show ?thesis using snoc x kNULL by simp
  qed
  have "dls H' n k ys NULL (if ys = [] then k else lst)"
  proof (cases ys)
    case Nil
    then show ?thesis by (simp add: nys)
  next
    case (Cons y zs)
    then have y: "n = y" by (simp add: nys)
    have "y \<noteq> NULL" "dls H (next_free (H y)) y zs NULL lst" using ys Cons by auto
    moreover have "y \<noteq> k" using dist Cons kxs kNULL \<open>y \<noteq> NULL\<close> by (auto split: if_splits)
    moreover have "dls H' (next_free (H y)) y zs NULL lst"
      using \<open>dls H (next_free (H y)) y zs NULL lst\<close> dist Cons y kys
      by (subst dls_cong [of _ _ H]) (auto simp: H' k n_def [symmetric])
    ultimately show ?thesis
      using Cons y by (auto simp: H' k n_def [symmetric])
  qed
  with left have "\<exists>lst. dls H' head' NULL (xs @ ys) NULL lst" by auto
  with dist show ?thesis by (simp add: dll_def)
qed

section \<open>The segregated lists and their bitmaps\<close>

text \<open>
  \<open>lists_ok s F\<close>: every list head starts a well-formed doubly-linked list with the addresses
  \<open>F fl sl\<close>, every block in it has that (clamped) size class, and the two bitmap levels say
  exactly which lists and which rows are non-empty.
\<close>

type_synonym free_lists = "nat \<Rightarrow> nat \<Rightarrow> addr list"

definition free_set :: "free_lists \<Rightarrow> addr set" where
  "free_set F = {b. \<exists>fl sl. b \<in> set (F fl sl)}"

definition lists_ok :: "heap \<Rightarrow> free_lists \<Rightarrow> bool" where
  "lists_ok s F \<longleftrightarrow>
     (\<forall>fl sl. dll (headers s) (blocks (tlsf_pool s) fl sl) (F fl sl) \<and>
        (\<forall>b \<in> set (F fl sl). clamped_class (block_size (headers s b)) = (fl, sl)) \<and>
        bit (sl_bitmap (tlsf_pool s) fl) sl = (F fl sl \<noteq> [])) \<and>
     (\<forall>fl. bit (fl_bitmap (tlsf_pool s)) fl = (sl_bitmap (tlsf_pool s) fl \<noteq> 0))"

definition same_lists :: "heap \<Rightarrow> heap \<Rightarrow> bool" where
  "same_lists s s' \<longleftrightarrow> blocks (tlsf_pool s') = blocks (tlsf_pool s) \<and>
     sl_bitmap (tlsf_pool s') = sl_bitmap (tlsf_pool s) \<and>
     fl_bitmap (tlsf_pool s') = fl_bitmap (tlsf_pool s)"

lemma lists_ok_frame:
  assumes "lists_ok s F" and "same_lists s s'"
    and "\<And>b. b \<in> free_set F \<Longrightarrow> next_free (headers s' b) = next_free (headers s b) \<and>
      prev_free (headers s' b) = prev_free (headers s b) \<and>
      block_size (headers s' b) = block_size (headers s b)"
  shows "lists_ok s' F"
proof -
  have *: "next_free (headers s' b) = next_free (headers s b) \<and> prev_free (headers s' b) = prev_free (headers s b) \<and>
      block_size (headers s' b) = block_size (headers s b)" if "b \<in> set (F fl sl)" for b fl sl
    using assms(3) that by (auto simp: free_set_def)
  have "dll (headers s') h (F fl sl) = dll (headers s) h (F fl sl)" for h fl sl
    using * by (intro dll_cong) blast
  with assms(1,2) * show ?thesis
    by (simp add: lists_ok_def same_lists_def)
qed

lemma lists_ok_notin_other:
  assumes "lists_ok s F" and "b \<in> set (F fl sl)" and "(fl', sl') \<noteq> (fl, sl)"
  shows "b \<notin> set (F fl' sl')"
proof
  assume "b \<in> set (F fl' sl')"
  with assms(1,2) have "clamped_class (block_size (headers s b)) = (fl', sl')"
    "clamped_class (block_size (headers s b)) = (fl, sl)" unfolding lists_ok_def by blast+
  with assms(3) show False by simp
qed

definition add_free :: "nat \<Rightarrow> nat \<Rightarrow> addr \<Rightarrow> free_lists \<Rightarrow> free_lists" where
  "add_free fl sl b F = F(fl := (F fl)(sl := b # F fl sl))"

definition del_free :: "addr \<Rightarrow> free_lists \<Rightarrow> free_lists" where
  "del_free b F = (\<lambda>fl sl. remove1 b (F fl sl))"

lemma headers_upd_pool [simp]: "headers (upd_pool f s) = headers s" by simp

lemma bit_or_push: "bit (x OR 2 ^ k) i = (bit x i \<or> i = k \<and> k < 32)" for x :: u32
  by (auto simp: bit_simps)

lemma bit_andn_push: "bit (x AND NOT (2 ^ k)) i = (bit x i \<and> i \<noteq> k)" for x :: u32
  by (auto simp: bit_simps dest: bit_imp_le_length)

lemma insert_free_block_eqs:
  assumes c: "clamped_class (block_size (headers s b)) = (fl, sl)"
    and head: "head = blocks (tlsf_pool s) fl sl" "head \<noteq> b"
  shows "headers (insert_free_block b s) a =
      (if a = b then (headers s b)\<lparr>next_free := head, prev_free := NULL\<rparr>
       else if a = head \<and> head \<noteq> NULL then (headers s a)\<lparr>prev_free := b\<rparr> else headers s a)"
    and "tlsf_pool (insert_free_block b s) = (tlsf_pool s)
      \<lparr>blocks := (blocks (tlsf_pool s))(fl := (blocks (tlsf_pool s) fl)(sl := b)),
       fl_bitmap := fl_bitmap (tlsf_pool s) OR push_bit fl 1,
       sl_bitmap := (sl_bitmap (tlsf_pool s))(fl := sl_bitmap (tlsf_pool s) fl OR push_bit sl 1)\<rparr>"
    and "bytes (insert_free_block b s) = bytes s"
  using assms by (auto simp: insert_free_block_def upd_hdr_def set_blocks_def Let_def)

lemma insert_free_block_lists:
  assumes ok: "lists_ok s F" and b: "b \<notin> free_set F" "b \<noteq> NULL"
    and c: "clamped_class (block_size (headers s b)) = (fl, sl)" "fl < 32" "sl < 32"
  shows "lists_ok (insert_free_block b s) (add_free fl sl b F)"
proof -
  let ?s = "insert_free_block b s" and ?F = "add_free fl sl b F"
  define head where "head = blocks (tlsf_pool s) fl sl"
  have d: "dll (headers s) (blocks (tlsf_pool s) i j) (F i j)" for i j
    using ok by (simp add: lists_ok_def)
  have bF: "b \<notin> set (F i j)" for i j using b(1) by (auto simp: free_set_def)
  have head: "head = (case F fl sl of [] \<Rightarrow> NULL | x # _ \<Rightarrow> x)"
    unfolding head_def by (rule dll_head [OF d])
  then have hb: "head \<noteq> b" using bF [of fl sl] b(2) by (auto split: list.splits)
  note eqs = insert_free_block_eqs [OF c(1) head_def hb]
  have head_in: "head \<noteq> NULL \<Longrightarrow> head \<in> set (F fl sl)"
    using head by (auto split: list.splits)
  have "dll (headers ?s) (blocks (tlsf_pool ?s) i j) (?F i j)" for i j
  proof (cases "i = fl \<and> j = sl")
    case True
    have "dll (headers ?s) b (b # F fl sl)"
      using hb by (intro dll_push [OF d [of fl sl, folded head_def] bF b(2)]) (auto simp: eqs)
    with True show ?thesis by (simp add: eqs add_free_def)
  next
    case False
    have "head \<noteq> NULL \<Longrightarrow> head \<notin> set (F i j)"
      using lists_ok_notin_other [OF ok head_in, of i j] False by auto
    then have "dll (headers ?s) (blocks (tlsf_pool s) i j) (F i j)"
      using d [of i j] bF [of i j] by (subst dll_cong [of _ _ "headers s"]) (auto simp: eqs)
    with False show ?thesis by (auto simp: eqs add_free_def)
  qed
  moreover have "\<forall>x \<in> set (?F i j). clamped_class (block_size (headers ?s x)) = (i, j)" for i j
    using ok c(1) by (auto simp: lists_ok_def add_free_def eqs block_size_def)
  moreover have "bit (sl_bitmap (tlsf_pool ?s) i) j = (?F i j \<noteq> [])" for i j
    using ok c(3) by (auto simp: lists_ok_def add_free_def eqs bit_or_push)
  moreover have "bit (fl_bitmap (tlsf_pool ?s)) i = (sl_bitmap (tlsf_pool ?s) i \<noteq> 0)" for i
  proof -
    have "bit (sl_bitmap (tlsf_pool s) fl OR 2 ^ sl) sl" using c(3) by (simp add: bit_or_push)
    then have "sl_bitmap (tlsf_pool s) fl OR 2 ^ sl \<noteq> 0" by auto
    with ok c(2) show ?thesis by (auto simp: lists_ok_def eqs bit_or_push)
  qed
  ultimately show ?thesis unfolding lists_ok_def by blast
qed

lemma remove_free_block_eqs:
  assumes c: "clamped_class (block_size (headers s b)) = (fl, sl)"
    and p: "p = prev_free (headers s b)" "p \<noteq> b" and n: "n = next_free (headers s b)" "n \<noteq> b"
  defines "B \<equiv> (if p = NULL then (blocks (tlsf_pool s))(fl := (blocks (tlsf_pool s) fl)(sl := n)) else blocks (tlsf_pool s))"
  defines "S \<equiv> (if B fl sl = NULL then (sl_bitmap (tlsf_pool s))(fl := sl_bitmap (tlsf_pool s) fl AND NOT (2 ^ sl))
     else sl_bitmap (tlsf_pool s))"
  shows "headers (remove_free_block b s) a =
      (let h = (if a = p \<and> p \<noteq> NULL then (headers s a)\<lparr>next_free := n\<rparr> else headers s a)
       in if a = n \<and> n \<noteq> NULL then h\<lparr>prev_free := p\<rparr> else h)"
    and "tlsf_pool (remove_free_block b s) = (tlsf_pool s)
      \<lparr>blocks := B, sl_bitmap := S,
       fl_bitmap := (if B fl sl = NULL \<and> S fl = 0 then fl_bitmap (tlsf_pool s) AND NOT (2 ^ fl)
         else fl_bitmap (tlsf_pool s))\<rparr>"
    and "bytes (remove_free_block b s) = bytes s"
  using assms by (auto simp: remove_free_block_def upd_hdr_def set_blocks_def Let_def)

lemma remove_free_block_lists:
  assumes ok: "lists_ok s F" and b: "b \<in> free_set F"
  shows "lists_ok (remove_free_block b s) (del_free b F)"
proof -
  let ?s = "remove_free_block b s" and ?F = "del_free b F"
  obtain fl sl where bin: "b \<in> set (F fl sl)" using b by (auto simp: free_set_def)
  then obtain xs ys where split: "F fl sl = xs @ b # ys" by (meson split_list)
  have c: "clamped_class (block_size (headers s b)) = (fl, sl)"
    using ok bin by (simp add: lists_ok_def)
  define p n where pn: "p = prev_free (headers s b)" "n = next_free (headers s b)"
  have d: "dll (headers s) (blocks (tlsf_pool s) i j) (F i j)" for i j
    using ok by (simp add: lists_ok_def)
  have nbrs: "p = (if xs = [] then NULL else last xs)" "n = (case ys of [] \<Rightarrow> NULL | y # _ \<Rightarrow> y)"
    "distinct (xs @ b # ys)" "NULL \<notin> set (xs @ b # ys)"
    using dll_neighbours [OF d [of fl sl, unfolded split]] by (simp_all add: pn)
  have pb: "p \<noteq> b" and nb: "n \<noteq> b" using nbrs by (auto split: list.splits if_splits)
  note eqs = remove_free_block_eqs [OF c pn(1) pb pn(2) nb]
  have other: "x \<notin> set (F i j)" if "(i, j) \<noteq> (fl, sl)" "x \<in> set (F fl sl)" for x i j
    using lists_ok_notin_other [OF ok that(2)] that(1) by blast
  have pin: "p \<noteq> NULL \<Longrightarrow> p \<in> set (F fl sl)" and nin: "n \<noteq> NULL \<Longrightarrow> n \<in> set (F fl sl)"
    using nbrs split by (auto split: list.splits if_splits)
  have Fs: "?F fl sl = xs @ ys" using nbrs(3) split by (simp add: del_free_def remove1_append)
  have Fo: "?F i j = F i j" if "(i, j) \<noteq> (fl, sl)" for i j
    using other [OF that bin] by (simp add: del_free_def remove1_idem)
  have dl: "dll (headers ?s) (blocks (tlsf_pool ?s) i j) (?F i j)" for i j
  proof (cases "(i, j) = (fl, sl)")
    case True
    have "dll (headers ?s) (blocks (tlsf_pool ?s) fl sl) (xs @ ys)"
      using d [of fl sl] unfolding split
      by (rule dll_unlink) (auto simp: eqs pn [symmetric] Let_def)
    with True Fs show ?thesis by simp
  next
    case False
    have "dll (headers ?s) (blocks (tlsf_pool s) i j) (F i j)"
      using d [of i j] other [OF False] pin nin
      by (subst dll_cong [of _ _ "headers s"]) (auto simp: eqs Let_def)
    with False Fo [OF False] show ?thesis by (auto simp: eqs)
  qed
  have bit1: "bit (sl_bitmap (tlsf_pool ?s) i) j = (?F i j \<noteq> [])" for i j
  proof -
    have e: "blocks (tlsf_pool ?s) fl sl = NULL \<longleftrightarrow> ?F fl sl = []" by (rule dll_NULL_iff [OF dl])
    show ?thesis
      using ok Fo [of i j] e bin by (cases "(i, j) = (fl, sl)") (auto simp: lists_ok_def eqs bit_andn_push)
  qed
  moreover have "bit (fl_bitmap (tlsf_pool ?s)) i = (sl_bitmap (tlsf_pool ?s) i \<noteq> 0)" for i
    using ok by (auto simp: lists_ok_def eqs bit_andn_push)
  moreover have "\<forall>x \<in> set (?F i j). clamped_class (block_size (headers ?s x)) = (i, j)" for i j
  proof
    fix x assume "x \<in> set (?F i j)"
    then have "x \<in> set (F i j)" using set_remove1_subset [of b "F i j"] by (auto simp: del_free_def)
    then have "clamped_class (block_size (headers s x)) = (i, j)" using ok by (simp add: lists_ok_def)
    moreover have "block_size (headers ?s x) = block_size (headers s x)"
      by (simp add: eqs block_size_def Let_def)
    ultimately show "clamped_class (block_size (headers ?s x)) = (i, j)" by simp
  qed
  ultimately show ?thesis using dl unfolding lists_ok_def by blast
qed
end
