(* ===== verification/Tlsf_Headers.thy ===== *)
theory Tlsf_Headers
  imports Tlsf_Lists
begin

text \<open>
  What each setter of \<open>block_header_t\<close> does to the three quantities packed into the \<open>size\<close> word
  (the size and the two flags) and to the other fields.
\<close>

section \<open>Header fields\<close>

lemma bit_mask2: "bit (3::u32) n \<longleftrightarrow> n < 2"
proof -
  have "mask 2 = (3::u32)" by (simp add: mask_numeral)
  from this [symmetric] show ?thesis by (simp only: bit_mask_iff possible_bit_word) auto
qed

lemma bit_two: "bit (2::u32) n \<longleftrightarrow> n = 1"
proof -
  have eq: "2 ^ 1 = (2::u32)" by simp
  have "bit (2 ^ 1 :: u32) n \<longleftrightarrow> n = 1" by (simp only: bit_exp_iff possible_bit_word) auto
  then show ?thesis by (simp only: eq)
qed

lemma flag_bit_simps:
  "bit ((x::u32) AND 3) n \<longleftrightarrow> bit x n \<and> n < 2"
  "bit (x AND NOT 3) n \<longleftrightarrow> bit x n \<and> \<not> n < 2"
  "bit (x OR 1) n \<longleftrightarrow> bit x n \<or> n = 0"
  "bit (x AND NOT 1) n \<longleftrightarrow> bit x n \<and> n \<noteq> 0"
  "bit (x OR 2) n \<longleftrightarrow> bit x n \<or> n = 1"
  "bit (x AND NOT 2) n \<longleftrightarrow> bit x n \<and> n \<noteq> 1"
  unfolding bit_and_iff bit_or_iff bit_not_iff bit_mask2 bit_two bit_1_iff
  by (auto dest: bit_imp_le_length)

lemma block_size_bit: "bit (block_size h) n \<longleftrightarrow> bit (bh_size h) n \<and> \<not> n < 2"
  unfolding block_size_def by (rule flag_bit_simps)

lemma and_bit_nonzero:
  fixes x m :: u32
  assumes "\<And>n. bit m n \<longleftrightarrow> n = k"
  shows "x AND m \<noteq> 0 \<longleftrightarrow> bit x k"
proof
  assume "x AND m \<noteq> 0"
  then obtain n where "bit (x AND m) n" by (metis bit_0_eq bit_word_eqI bot_apply bot_bool_def)
  then show "bit x k" using assms [of n] by (auto simp only: bit_and_iff)
next
  assume "bit x k"
  then have "bit (x AND m) k" using assms [of k] by (simp only: bit_and_iff simp_thms)
  then show "x AND m \<noteq> 0" by (metis bit_0_eq bot_apply bot_bool_def)
qed

lemma block_is_free_bit: "block_is_free h \<longleftrightarrow> bit (bh_size h) 0"
  unfolding block_is_free_def by (rule and_bit_nonzero) (simp add: bit_1_iff)

lemma block_prev_is_free_bit: "block_prev_is_free h \<longleftrightarrow> bit (bh_size h) 1"
  unfolding block_prev_is_free_def by (rule and_bit_nonzero) (rule bit_two)

lemmas flag_defs = block_set_size_def block_set_free_def block_set_used_def
  block_set_prev_free_def block_set_prev_used_def

lemma bh_size_set:
  "bh_size (block_set_size z h) = z OR (bh_size h AND 3)"
  "bh_size (block_set_free h) = bh_size h OR 1" "bh_size (block_set_used h) = bh_size h AND NOT 1"
  "bh_size (block_set_prev_free h) = bh_size h OR 2"
  "bh_size (block_set_prev_used h) = bh_size h AND NOT 2"
  by (simp_all add: flag_defs)

lemma bh_size_bits:
  "bit (bh_size (block_set_size z h)) n \<longleftrightarrow> bit z n \<or> bit (bh_size h) n \<and> n < 2"
  "bit (bh_size (block_set_free h)) n \<longleftrightarrow> bit (bh_size h) n \<or> n = 0"
  "bit (bh_size (block_set_used h)) n \<longleftrightarrow> bit (bh_size h) n \<and> n \<noteq> 0"
  "bit (bh_size (block_set_prev_free h)) n \<longleftrightarrow> bit (bh_size h) n \<or> n = 1"
  "bit (bh_size (block_set_prev_used h)) n \<longleftrightarrow> bit (bh_size h) n \<and> n \<noteq> 1"
  by (simp_all only: bh_size_set flag_bit_simps bit_or_iff [of z])

lemma block_size_set [simp]:
  "block_size (block_set_free h) = block_size h" "block_size (block_set_used h) = block_size h"
  "block_size (block_set_prev_free h) = block_size h" "block_size (block_set_prev_used h) = block_size h"
  by (rule bit_word_eqI, simp only: block_size_bit bh_size_bits, force)+

lemma aligned_bits: "4 dvd unat (z::u32) \<Longrightarrow> bit z n \<Longrightarrow> \<not> n < 2"
proof
  assume z: "4 dvd unat z" "bit z n" "n < 2"
  then have "unat (z AND 3) = 0" using unat_and_mask [of z 2] by (simp add: mask_numeral)
  then have "z AND 3 = 0" by (simp add: unat_eq_0)
  moreover have "bit (z AND 3) n" using z by (simp only: flag_bit_simps)
  ultimately show False by simp
qed

lemma block_size_set_size [simp]: "4 dvd unat z \<Longrightarrow> block_size (block_set_size z h) = z"
  by (rule bit_word_eqI) (auto simp only: block_size_bit bh_size_bits dest: aligned_bits)

lemma flags_set [simp]:
  "block_is_free (block_set_free h)" "\<not> block_is_free (block_set_used h)"
  "block_is_free (block_set_prev_free h) = block_is_free h"
  "block_is_free (block_set_prev_used h) = block_is_free h"
  "block_prev_is_free (block_set_free h) = block_prev_is_free h"
  "block_prev_is_free (block_set_used h) = block_prev_is_free h"
  "block_prev_is_free (block_set_prev_free h)" "\<not> block_prev_is_free (block_set_prev_used h)"
  by (simp_all add: block_is_free_bit block_prev_is_free_bit bh_size_bits)

lemma flags_set_size [simp]:
  "4 dvd unat z \<Longrightarrow> block_is_free (block_set_size z h) = block_is_free h"
  "4 dvd unat z \<Longrightarrow> block_prev_is_free (block_set_size z h) = block_prev_is_free h"
  by (auto simp add: block_is_free_bit block_prev_is_free_bit bh_size_bits dest: aligned_bits)

lemma other_fields [simp]:
  "magic (block_set_size z h) = magic h" "magic (block_set_free h) = magic h"
  "magic (block_set_used h) = magic h" "magic (block_set_prev_free h) = magic h"
  "magic (block_set_prev_used h) = magic h"
  "requested_size (block_set_size z h) = requested_size h" "requested_size (block_set_free h) = requested_size h"
  "requested_size (block_set_used h) = requested_size h" "requested_size (block_set_prev_free h) = requested_size h"
  "requested_size (block_set_prev_used h) = requested_size h"
  "prev_phys (block_set_size z h) = prev_phys h" "prev_phys (block_set_free h) = prev_phys h"
  "prev_phys (block_set_used h) = prev_phys h" "prev_phys (block_set_prev_free h) = prev_phys h"
  "prev_phys (block_set_prev_used h) = prev_phys h"
  by (simp_all add: flag_defs)

lemma record_fields [simp]:
  "block_size (h\<lparr>prev_phys := x\<rparr>) = block_size h" "block_size (h\<lparr>next_free := x\<rparr>) = block_size h"
  "block_size (h\<lparr>prev_free := x\<rparr>) = block_size h" "block_size (h\<lparr>requested_size := r\<rparr>) = block_size h"
  "block_size (h\<lparr>magic := x\<rparr>) = block_size h"
  "block_is_free (h\<lparr>prev_phys := x\<rparr>) = block_is_free h" "block_is_free (h\<lparr>next_free := x\<rparr>) = block_is_free h"
  "block_is_free (h\<lparr>prev_free := x\<rparr>) = block_is_free h" "block_is_free (h\<lparr>requested_size := r\<rparr>) = block_is_free h"
  "block_is_free (h\<lparr>magic := x\<rparr>) = block_is_free h"
  "block_prev_is_free (h\<lparr>prev_phys := x\<rparr>) = block_prev_is_free h" "block_prev_is_free (h\<lparr>next_free := x\<rparr>) = block_prev_is_free h"
  "block_prev_is_free (h\<lparr>prev_free := x\<rparr>) = block_prev_is_free h" "block_prev_is_free (h\<lparr>requested_size := r\<rparr>) = block_prev_is_free h"
  "block_prev_is_free (h\<lparr>magic := x\<rparr>) = block_prev_is_free h"
  by (simp_all add: block_size_def block_is_free_def block_prev_is_free_def)

lemma ph_fields [simp]:
  "block_size (ph h) = block_size h" "block_is_free (ph h) = block_is_free h"
  "block_prev_is_free (ph h) = block_prev_is_free h"
  by (simp_all add: ph_def)

end
