(* ===== verification/Tlsf_Chain.thy ===== *)
theory Tlsf_Chain
  imports Tlsf_Headers
begin

text \<open>
  The pool as a chain of physical blocks: how the blocks tile it, what the flags, tags and
  back pointers along it say, and how splitting and merging a block that is \<open>in hand\<close> changes
  the chain.  Everything here is about the header map alone.
\<close>

section \<open>The physical chain of blocks\<close>

fun chain :: "(addr \<Rightarrow> block_header) \<Rightarrow> nat \<Rightarrow> addr list \<Rightarrow> nat \<Rightarrow> bool" where
  "chain H p [] e \<longleftrightarrow> p = e"
| "chain H p (x # xs) e \<longleftrightarrow> unat x = p \<and> 32 \<le> unat (block_size (H x)) \<and> 8 dvd unat (block_size (H x)) \<and>
     chain H (p + 24 + unat (block_size (H x))) xs e"

lemma chain_append [simp]:
  "chain H p (xs @ ys) e \<longleftrightarrow> (\<exists>m. chain H p xs m \<and> chain H m ys e)"
  by (induction xs arbitrary: p) auto

lemma chain_le: "chain H p xs e \<Longrightarrow> p \<le> e"
  by (induction xs arbitrary: p) fastforce+

lemma chain_mem:
  "chain H p xs e \<Longrightarrow> x \<in> set xs \<Longrightarrow> p \<le> unat x \<and> unat x + 24 + unat (block_size (H x)) \<le> e"
proof (induction xs arbitrary: p)
  case (Cons y ys)
  have "p + 24 + unat (block_size (H y)) \<le> e" using Cons.prems(1) chain_le by auto
  moreover have "x \<in> set ys \<Longrightarrow> p + 24 + unat (block_size (H y)) \<le> unat x \<and> unat x + 24 + unat (block_size (H x)) \<le> e"
    using Cons.IH [of "p + 24 + unat (block_size (H y))"] Cons.prems(1) by simp
  ultimately show ?case using Cons.prems by auto
qed simp

lemma chain_size: "chain H p xs e \<Longrightarrow> x \<in> set xs \<Longrightarrow> 32 \<le> unat (block_size (H x)) \<and> 8 dvd unat (block_size (H x))"
  by (induction xs arbitrary: p) auto

lemma chain_dvd: "chain H p xs e \<Longrightarrow> 8 dvd p \<Longrightarrow> x \<in> set xs \<Longrightarrow> 8 dvd unat x"
proof (induction xs arbitrary: p)
  case (Cons y ys)
  have "8 dvd p + 24 + unat (block_size (H y))" using Cons.prems by (auto intro!: dvd_add)
  then show ?case using Cons by auto
qed simp

lemma chain_dvd_end: "chain H p xs e \<Longrightarrow> 8 dvd p \<Longrightarrow> 8 dvd e"
proof (induction xs arbitrary: p)
  case (Cons y ys)
  have "8 dvd p + 24 + unat (block_size (H y))" using Cons.prems by (auto intro!: dvd_add)
  then show ?case using Cons by auto
qed simp

lemma chain_distinct: "chain H p xs e \<Longrightarrow> distinct xs"
proof (induction xs arbitrary: p)
  case (Cons y ys)
  then have "chain H (p + 24 + unat (block_size (H y))) ys e" by simp
  from chain_mem [OF this, of y] have "y \<notin> set ys" using Cons.prems by auto
  with Cons show ?case by auto
qed simp

lemma chain_cong:
  "(\<And>x. x \<in> set xs \<Longrightarrow> block_size (H' x) = block_size (H x)) \<Longrightarrow> chain H' p xs e = chain H p xs e"
  by (induction xs arbitrary: p) auto

lemma chain_upd_notin [simp]: "x \<notin> set xs \<Longrightarrow> chain (H(x := h)) p xs e = chain H p xs e"
  by (rule chain_cong) auto

section \<open>Flags and tags along the chain\<close>

fun links :: "(addr \<Rightarrow> block_header) \<Rightarrow> bool \<Rightarrow> addr \<Rightarrow> addr list \<Rightarrow> bool" where
  "links H pf pb [] \<longleftrightarrow> True"
| "links H pf pb (x # xs) \<longleftrightarrow>
     block_prev_is_free (H x) = pf \<and> (pf \<longrightarrow> prev_phys (H x) = pb \<and> \<not> block_is_free (H x)) \<and>
     links H (block_is_free (H x)) x xs"

definition links_tl :: "(addr \<Rightarrow> block_header) \<Rightarrow> addr list \<Rightarrow> bool" where
  "links_tl H ys \<longleftrightarrow> (case ys of [] \<Rightarrow> True | y # zs \<Rightarrow> links H (block_is_free (H y)) y zs)"

lemma links_tl_simps [simp]: "links_tl H []" "links_tl H (y # ys) = links H (block_is_free (H y)) y ys"
  by (simp_all add: links_tl_def)

definition tag_ok :: "addr set \<Rightarrow> block_header \<Rightarrow> addr \<Rightarrow> bool" where
  "tag_ok R h x \<longleftrightarrow> (if block_is_free h then magic h = BLOCK_MAGIC_FREE
     else magic h = BLOCK_MAGIC_USED \<and> (x \<notin> R \<longrightarrow> unat (requested_size h) + 4 \<le> unat (block_size h)))"

definition tags :: "addr set \<Rightarrow> (addr \<Rightarrow> block_header) \<Rightarrow> addr list \<Rightarrow> bool" where
  "tags R H xs \<longleftrightarrow> (\<forall>x \<in> set xs. tag_ok R (H x) x)"

definition frees :: "(addr \<Rightarrow> block_header) \<Rightarrow> addr list \<Rightarrow> addr set" where
  "frees H xs = {x \<in> set xs. block_is_free (H x)}"

text \<open>
  The abstract state of the allocator: the allocated blocks in address order, with the size of
  the payload and the size that was requested.
\<close>

type_synonym allocation = "addr \<times> u32 \<times> u32"

fun allocs :: "(addr \<Rightarrow> block_header) \<Rightarrow> addr list \<Rightarrow> allocation list" where
  "allocs H [] = []"
| "allocs H (x # xs) = (if block_is_free (H x) then [] else [(x, block_size (H x), requested_size (H x))]) @ allocs H xs"

definition used :: "allocation list \<Rightarrow> nat" where
  "used as = (\<Sum>(x, z, r)\<leftarrow>as. unat z + 24)"

lemma tags_simps [simp]:
  "tags R H []" "tags R H (x # xs) = (tag_ok R (H x) x \<and> tags R H xs)"
  "tags R H (xs @ ys) = (tags R H xs \<and> tags R H ys)"
  "x \<notin> set xs \<Longrightarrow> tags R (H(x := h)) xs = tags R H xs"
  by (auto simp: tags_def)

lemma frees_simps [simp]:
  "frees H [] = {}" "frees H (x # xs) = (if block_is_free (H x) then insert x (frees H xs) else frees H xs)"
  "frees H (xs @ ys) = frees H xs \<union> frees H ys"
  "x \<notin> set xs \<Longrightarrow> frees (H(x := h)) xs = frees H xs"
  by (auto simp: frees_def)

lemma used_simps [simp]:
  "used [] = 0" "used ((x, z, r) # as) = unat z + 24 + used as" "used (as @ bs) = used as + used bs"
  by (auto simp: used_def)

lemma allocs_append [simp]: "allocs H (xs @ ys) = allocs H xs @ allocs H ys"
  by (induction xs) auto

lemma allocs_cong:
  "(\<And>x. x \<in> set xs \<Longrightarrow> block_size (H' x) = block_size (H x) \<and> block_is_free (H' x) = block_is_free (H x)
     \<and> requested_size (H' x) = requested_size (H x)) \<Longrightarrow> allocs H' xs = allocs H xs"
  by (induction xs) auto

lemma allocs_upd_notin [simp]: "x \<notin> set xs \<Longrightarrow> allocs (H(x := h)) xs = allocs H xs"
  by (rule allocs_cong) auto

lemma chain_used: "chain H p xs e \<Longrightarrow> p + used (allocs H xs) \<le> e"
proof (induction xs arbitrary: p)
  case (Cons y ys)
  then have "p + 24 + unat (block_size (H y)) + used (allocs H ys) \<le> e" by simp
  then show ?case by simp
qed simp

lemma links_upd_notin [simp]: "x \<notin> set xs \<Longrightarrow> links (H(x := h)) pf pb xs = links H pf pb xs"
  by (induction xs arbitrary: pf pb) auto

lemma links_tl_upd_notin [simp]: "x \<notin> set xs \<Longrightarrow> links_tl (H(x := h)) xs = links_tl H xs"
  by (cases xs) auto

lemma links_append:
  "links H pf pb (xs @ ys) \<longleftrightarrow> links H pf pb xs \<and>
    (if xs = [] then links H pf pb ys else links H (block_is_free (H (last xs))) (last xs) ys)"
  by (induction xs arbitrary: pf pb) auto

lemma links_imp_tl: "links H pf pb ys \<Longrightarrow> links_tl H ys" by (cases ys) auto

text \<open>How the block after \<open>xs\<close> has to describe its predecessor.\<close>

definition entry :: "(addr \<Rightarrow> block_header) \<Rightarrow> addr list \<Rightarrow> addr \<Rightarrow> bool" where
  "entry H xs b \<longleftrightarrow> block_prev_is_free (H b) = (xs \<noteq> [] \<and> block_is_free (H (last xs))) \<and>
     (block_prev_is_free (H b) \<longrightarrow> prev_phys (H b) = last xs)"

section \<open>A pool with one block in hand\<close>

text \<open>
  \<open>closed H p e R bs\<close>: the blocks \<open>bs\<close> tile the pool from \<open>p\<close> to \<open>e\<close>, flags and tags agree and
  no two neighbours are free; for the blocks in \<open>R\<close> the requested size is not yet trusted.
  \<open>in_hand H p e R xs b ys\<close> says the same of all blocks but \<open>b\<close>, whose own status is open, and
  the successor of \<open>b\<close>, whose knowledge of \<open>b\<close> may be stale.
\<close>

definition pool_ok :: "(addr \<Rightarrow> block_header) \<Rightarrow> nat \<Rightarrow> nat \<Rightarrow> addr list \<Rightarrow> bool" where
  "pool_ok H p e bs \<longleftrightarrow> chain H p bs e \<and> 0 < p \<and> 8 dvd p \<and> e < 2 ^ 32"

definition closed :: "(addr \<Rightarrow> block_header) \<Rightarrow> nat \<Rightarrow> nat \<Rightarrow> addr set \<Rightarrow> addr list \<Rightarrow> bool" where
  "closed H p e R bs \<longleftrightarrow> pool_ok H p e bs \<and> links H False NULL bs \<and> tags R H bs"

definition in_hand :: "(addr \<Rightarrow> block_header) \<Rightarrow> nat \<Rightarrow> nat \<Rightarrow> addr set \<Rightarrow> addr list \<Rightarrow> addr \<Rightarrow> addr list \<Rightarrow> bool" where
  "in_hand H p e R xs b ys \<longleftrightarrow> pool_ok H p e (xs @ b # ys) \<and> links H False NULL xs \<and> entry H xs b \<and>
     links_tl H ys \<and> tags R H (xs @ ys)"

lemma pool_okD:
  assumes "pool_ok H p e (xs @ b # ys)"
  shows "distinct (xs @ b # ys)" and "b \<noteq> NULL" and "8 dvd unat b"
    and "32 \<le> unat (block_size (H b))" and "8 dvd unat (block_size (H b))"
    and "unat b + 24 + unat (block_size (H b)) \<le> e" and "p \<le> unat b"
    and "e < 2 ^ 32"
  using assms chain_distinct [of H p "xs @ b # ys" e] chain_dvd [of H p "xs @ b # ys" e b]
    chain_size [of H p "xs @ b # ys" e b] chain_mem [of H p "xs @ b # ys" e b]
  by (auto simp: pool_ok_def simp del: chain_append)

lemma pool_ok_next:
  assumes "pool_ok H p e (xs @ b # ys)"
  shows "unat (b + 24 + block_size (H b)) = unat b + 24 + unat (block_size (H b))"
    and "unat b + 24 + unat (block_size (H b)) < e \<longleftrightarrow> ys \<noteq> []"
    and "ys = y # zs \<Longrightarrow> b + 24 + block_size (H b) = y"
proof -
  note d = pool_okD [OF assms]
  show eq: "unat (b + 24 + block_size (H b)) = unat b + 24 + unat (block_size (H b))"
    using d by (simp add: unat_add_small)
  have c: "chain H (unat b + 24 + unat (block_size (H b))) ys e"
    using assms by (auto simp: pool_ok_def)
  show "unat b + 24 + unat (block_size (H b)) < e \<longleftrightarrow> ys \<noteq> []"
    using c chain_le by (cases ys) fastforce+
  show "ys = y # zs \<Longrightarrow> b + 24 + block_size (H b) = y"
    using c eq by (intro unsigned_word_eqI [where 'a = nat]) simp
qed

lemma closed_open:
  assumes "closed H p e R (xs @ b # ys)"
  shows "in_hand H p e R xs b ys"
  using assms by (auto simp: closed_def in_hand_def entry_def links_append links_imp_tl split: if_splits)

lemma in_hand_close:
  assumes "in_hand H p e R xs b ys" and "tag_ok R (H b) b"
    and "ys \<noteq> [] \<Longrightarrow> block_prev_is_free (H (hd ys)) = block_is_free (H b) \<and>
      (block_is_free (H b) \<longrightarrow> prev_phys (H (hd ys)) = b \<and> \<not> block_is_free (H (hd ys)))"
    and "block_is_free (H b) \<Longrightarrow> \<not> block_prev_is_free (H b)"
  shows "closed H p e R (xs @ b # ys)"
  using assms by (cases ys) (auto simp: closed_def in_hand_def entry_def links_append)

text \<open>Changes to the block in hand, and to what its successor knows of it.\<close>

lemma in_hand_upd:
  assumes "in_hand H p e R xs b ys"
    and "block_size h = block_size (H b)" "block_prev_is_free h = block_prev_is_free (H b)"
      "prev_phys h = prev_phys (H b)"
  shows "in_hand (H(b := h)) p e R xs b ys"
proof -
  have d: "b \<notin> set xs" "b \<notin> set ys" 
    using pool_okD(1) [of H p e xs b ys] assms(1) by (auto simp: in_hand_def)
  have "chain (H(b := h)) p (xs @ b # ys) e = chain H p (xs @ b # ys) e"
    using assms(2) by (intro chain_cong) auto
  moreover have "last xs \<noteq> b" if "xs \<noteq> []" using d last_in_set [OF that] by auto
  ultimately show ?thesis
    using assms d by (auto simp: in_hand_def pool_ok_def entry_def simp del: chain_append)
qed

lemma in_hand_upd_next:
  assumes "in_hand H p e R xs b (y # ys)"
    and "block_size h = block_size (H y)" "block_is_free h = block_is_free (H y)"
      "magic h = magic (H y)" "requested_size h = requested_size (H y)"
  shows "in_hand (H(y := h)) p e R xs b (y # ys)"
proof -
  have d: "y \<notin> set xs" "y \<notin> set ys" "y \<noteq> b"
    using pool_okD(1) [of H p e xs b "y # ys"] assms(1) by (auto simp: in_hand_def)
  have "chain (H(y := h)) p (xs @ b # y # ys) e = chain H p (xs @ b # y # ys) e"
    using assms(2) by (intro chain_cong) auto
  moreover have "last xs \<noteq> y" if "xs \<noteq> []" using d last_in_set [OF that] by auto
  ultimately show ?thesis
    using assms d by (auto simp: in_hand_def pool_ok_def entry_def tag_ok_def simp del: chain_append)
qed

lemma last_notin: "xs \<noteq> [] \<Longrightarrow> x \<notin> set xs \<Longrightarrow> last xs \<noteq> x"
  by (metis last_in_set)

lemma pool_ok_merge:
  assumes ok: "pool_ok H p e (xs @ c # b # ys)"
    and sz: "block_size h = block_size (H c) + 24 + block_size (H b)"
  shows "pool_ok (H(c := h)) p e (xs @ c # ys)"
proof -
  note d = pool_okD [OF ok] and d2 = pool_okD [of H p e "xs @ [c]" b ys, simplified, OF ok]
  have dist: "c \<notin> set xs" "c \<notin> set ys" using d(1) by auto
  have sz: "unat (block_size h) = unat (block_size (H c)) + 24 + unat (block_size (H b))"
    using pool_ok_next [OF ok] d d2 by (auto simp: sz unat_add_small)
  have c: "chain H p xs (unat c)" "chain H (unat c + 24 + unat (block_size h)) ys e"
    using ok unfolding sz by (auto simp: pool_ok_def add.assoc)
  have "32 \<le> unat (block_size h)" "8 dvd unat (block_size h)"
    using d(4,5) d2(5) unfolding sz by (auto intro!: dvd_add)
  then have "chain (H(c := h)) (unat c) (c # ys) e" using c(2) dist by simp
  moreover have "chain (H(c := h)) p xs (unat c)" using c(1) dist by simp
  ultimately have "chain (H(c := h)) p (xs @ c # ys) e" by (subst chain_append) blast
  with ok show ?thesis by (simp add: pool_ok_def)
qed

lemma in_hand_merge_prev:
  assumes "in_hand H p e R (xs @ [c]) b ys"
    and "block_size h = block_size (H c) + 24 + block_size (H b)"
      "block_prev_is_free h = block_prev_is_free (H c)" "prev_phys h = prev_phys (H c)"
  shows "in_hand (H(c := h)) p e R xs c ys"
proof -
  have ok: "pool_ok H p e (xs @ c # b # ys)" using assms(1) by (simp add: in_hand_def)
  have "c \<notin> set xs" "c \<notin> set ys" using pool_okD(1) [OF ok] by auto
  then show ?thesis
    using assms pool_ok_merge [OF ok assms(2)] last_notin [of xs c]
    by (auto simp: in_hand_def entry_def links_append split: if_splits)
qed

lemma in_hand_merge_next:
  assumes "in_hand H p e R xs b (n # ys)"
    and "block_size h = block_size (H b) + 24 + block_size (H n)"
      "block_prev_is_free h = block_prev_is_free (H b)" "prev_phys h = prev_phys (H b)"
  shows "in_hand (H(b := h)) p e R xs b ys"
proof -
  have ok: "pool_ok H p e (xs @ b # n # ys)" using assms(1) by (simp add: in_hand_def)
  have "b \<notin> set xs" "b \<notin> set ys" using pool_okD(1) [OF ok] by auto
  then show ?thesis
    using assms pool_ok_merge [OF ok assms(2)] last_notin [of xs b]
    by (auto simp: in_hand_def entry_def links_imp_tl split: if_splits)
qed

text \<open>Splitting the block in hand: \<open>h\<close> and \<open>k\<close> are the new headers of its two parts.\<close>

lemma pool_ok_split:
  assumes ok: "pool_ok H p e (xs @ b # ys)"
    and sz: "32 \<le> unat (block_size h)" "8 dvd unat (block_size h)" "32 \<le> unat (block_size k)"
      "unat (block_size (H b)) = unat (block_size h) + 24 + unat (block_size k)"
    and r: "r = b + 24 + block_size h"
  shows "pool_ok (H(r := k, b := h)) p e (xs @ b # r # ys)" and "r \<notin> set (xs @ b # ys)"
    and "unat r = unat b + 24 + unat (block_size h)"
proof -
  note d = pool_okD [OF ok]
  have c: "chain H p xs (unat b)" "chain H (unat b + 24 + unat (block_size (H b))) ys e"
    using ok by (auto simp: pool_ok_def)
  show ur: "unat r = unat b + 24 + unat (block_size h)"
    using d sz by (simp add: r unat_add_small)
  have "unat x \<le> unat b" if "x \<in> set xs" for x
    using chain_mem [OF c(1) that] by simp
  moreover have "unat b + 24 + unat (block_size (H b)) \<le> unat x" if "x \<in> set ys" for x
    using chain_mem [OF c(2) that] by simp
  ultimately show rn: "r \<notin> set (xs @ b # ys)"
    using ur sz by fastforce
  have dist: "b \<notin> set xs" "b \<notin> set ys" using d(1) by auto
  have k8: "8 dvd unat (block_size k)"
    using d(5) sz(2) unfolding sz(4) by (simp add: dvd_add_right_iff dvd_add_left_iff add.commute add.left_commute)
  have "chain (H(r := k, b := h)) (unat b) (b # r # ys) e"
    using c(2) dist rn sz k8 ur by (simp add: add.assoc)
  moreover have "chain (H(r := k, b := h)) p xs (unat b)" using c(1) dist rn by simp
  ultimately have "chain (H(r := k, b := h)) p (xs @ b # r # ys) e" by (subst chain_append) blast
  then show "pool_ok (H(r := k, b := h)) p e (xs @ b # r # ys)"
    using ok by (simp add: pool_ok_def)
qed

lemma in_hand_split:
  assumes ih: "in_hand H p e R xs b ys"
    and sz: "32 \<le> unat (block_size h)" "8 dvd unat (block_size h)" "32 \<le> unat (block_size k)"
      "unat (block_size (H b)) = unat (block_size h) + 24 + unat (block_size k)"
    and r: "r = b + 24 + block_size h"
    and h: "block_prev_is_free h = block_prev_is_free (H b)" "prev_phys h = prev_phys (H b)"
    and k: "block_is_free k" "magic k = BLOCK_MAGIC_FREE"
    and y: "ys \<noteq> [] \<Longrightarrow> block_prev_is_free (H (hd ys)) \<and> prev_phys (H (hd ys)) = r \<and> \<not> block_is_free (H (hd ys))"
  shows "in_hand (H(r := k, b := h)) p e R xs b (r # ys)"
proof -
  have ok: "pool_ok H p e (xs @ b # ys)" using ih by (simp add: in_hand_def)
  note s = pool_ok_split [OF ok sz r]
  have "b \<notin> set xs" "b \<notin> set ys" using pool_okD(1) [OF ok] by auto
  moreover have "links (H(r := k, b := h)) True r ys"
  proof (cases ys)
    case (Cons z zs)
    then show ?thesis using ih y s(2) \<open>b \<notin> set ys\<close> by (auto simp: in_hand_def)
  qed simp
  ultimately show ?thesis
    using ih s h k last_notin [of xs b] last_notin [of xs r]
    by (auto simp: in_hand_def entry_def tag_ok_def)
qed

lemma in_hand_split_used:
  assumes ih: "in_hand H p e R xs b ys"
    and sz: "32 \<le> unat (block_size h)" "8 dvd unat (block_size h)" "32 \<le> unat (block_size k)"
      "unat (block_size (H b)) = unat (block_size h) + 24 + unat (block_size k)"
    and r: "r = b + 24 + block_size h"
    and h: "block_prev_is_free h = block_prev_is_free (H b)" "prev_phys h = prev_phys (H b)"
      "\<not> block_is_free h" "magic h = BLOCK_MAGIC_USED"
    and k: "\<not> block_prev_is_free k"
  shows "in_hand (H(r := k, b := h)) p e (insert b R) (xs @ [b]) r ys"
proof -
  have ok: "pool_ok H p e (xs @ b # ys)" using ih by (simp add: in_hand_def)
  note s = pool_ok_split [OF ok sz r]
  have "b \<notin> set xs" "b \<notin> set ys" using pool_okD(1) [OF ok] by auto
  moreover have "tags (insert b R) H (xs @ ys)"
    using ih by (auto simp: in_hand_def tags_def tag_ok_def)
  moreover have "links H False NULL xs \<and> entry H xs b \<longrightarrow>
    (if xs = [] then links (H(r := k, b := h)) False NULL [b]
     else links (H(r := k, b := h)) (block_is_free (H (last xs))) (last xs) [b])"
    using h by (auto simp: entry_def)
  ultimately show ?thesis
    using ih s h k last_notin [of xs b] last_notin [of xs r]
    by (auto simp: in_hand_def entry_def tag_ok_def links_append)
qed

end
