(* ===== verification/Tlsf_Heap.thy ===== *)
theory Tlsf_Heap
  imports Tlsf_Chain
begin

text \<open>
  The invariant of the whole heap, \<open>heap_inv\<close>: the physical chain, the free lists with their
  bitmaps and the accounting agree.  The operations are followed through the predicate \<open>hole\<close>,
  the invariant with one block taken out of the heap.
\<close>

section \<open>Headers through the physical view\<close>

lemma hdr_pv:
  "block_size (headers s b) = block_size (pv s b)" "block_is_free (headers s b) = block_is_free (pv s b)"
  "block_prev_is_free (headers s b) = block_prev_is_free (pv s b)" "prev_phys (headers s b) = prev_phys (pv s b)"
  "magic (headers s b) = magic (pv s b)" "requested_size (headers s b) = requested_size (pv s b)"
  by (simp_all add: pv_def)

lemma pv_link_upd: "(\<And>h. ph (f h) = ph h) \<Longrightarrow> pv (upd_hdr b f s) = pv s"
  by (auto simp: pv_def upd_hdr_def)

lemma ph_links [simp]: "ph (h\<lparr>next_free := x\<rparr>) = ph h" "ph (h\<lparr>prev_free := x\<rparr>) = ph h"
  by (simp_all add: ph_def)

lemma pv_set_pool [simp]: "pv (s\<lparr>tlsf_pool := t\<rparr>) = pv s"
  by (auto simp: pv_def)

lemma pv_insert_free_block [simp]: "pv (insert_free_block b s) = pv s"
  unfolding insert_free_block_def Let_def by (simp add: pv_link_upd split: prod.split)

lemma pv_remove_free_block [simp]: "pv (remove_free_block b s) = pv s"
  unfolding remove_free_block_def Let_def by (simp add: pv_link_upd split: prod.split)

lemma pool_insert_free_block [simp]:
  "pool_start (tlsf_pool (insert_free_block b s)) = pool_start (tlsf_pool s)"
  "pool_end (tlsf_pool (insert_free_block b s)) = pool_end (tlsf_pool s)"
  "used_bytes (tlsf_pool (insert_free_block b s)) = used_bytes (tlsf_pool s)"
  "total_bytes (tlsf_pool (insert_free_block b s)) = total_bytes (tlsf_pool s)"
  "bytes (insert_free_block b s) = bytes s"
  by (auto simp: insert_free_block_def upd_hdr_def set_blocks_def Let_def split: prod.splits)

lemma pool_remove_free_block [simp]:
  "pool_start (tlsf_pool (remove_free_block b s)) = pool_start (tlsf_pool s)"
  "pool_end (tlsf_pool (remove_free_block b s)) = pool_end (tlsf_pool s)"
  "used_bytes (tlsf_pool (remove_free_block b s)) = used_bytes (tlsf_pool s)"
  "total_bytes (tlsf_pool (remove_free_block b s)) = total_bytes (tlsf_pool s)"
  "bytes (remove_free_block b s) = bytes s"
  by (auto simp: remove_free_block_def upd_hdr_def set_blocks_def Let_def split: prod.splits)

lemma upd_hdr_simps [simp]: "tlsf_pool (upd_hdr b f s) = tlsf_pool s" "bytes (upd_hdr b f s) = bytes s"
  by (simp_all add: upd_hdr_def)

lemma block_next_pv: "block_next s b = b + 24 + block_size (pv s b)"
  by (simp add: block_next_def hdr_pv)

section \<open>The heap with a block in hand\<close>

abbreviation p0 :: "heap \<Rightarrow> nat" where "p0 s \<equiv> unat (pool_start (tlsf_pool s))"
abbreviation pe :: "heap \<Rightarrow> nat" where "pe s \<equiv> unat (pool_end (tlsf_pool s))"

definition hole :: "heap \<Rightarrow> addr set \<Rightarrow> addr list \<Rightarrow> addr \<Rightarrow> addr list \<Rightarrow> free_lists \<Rightarrow> bool" where
  "hole s R xs b ys F \<longleftrightarrow> in_hand (pv s) (p0 s) (pe s) R xs b ys \<and> lists_ok s F \<and>
     free_set F = frees (pv s) (xs @ ys)"

text \<open>\<open>heap_rel\<close> leaves out the byte counter and, for the blocks in \<open>R\<close>, the requested sizes.\<close>

definition heap_rel :: "heap \<Rightarrow> addr set \<Rightarrow> addr list \<Rightarrow> free_lists \<Rightarrow> bool" where
  "heap_rel s R bs F \<longleftrightarrow> closed (pv s) (p0 s) (pe s) R bs \<and> bs \<noteq> [] \<and> lists_ok s F \<and>
     free_set F = frees (pv s) bs \<and>
     total_bytes (tlsf_pool s) = pool_end (tlsf_pool s) - pool_start (tlsf_pool s)"

definition heap_inv :: "heap \<Rightarrow> addr list \<Rightarrow> free_lists \<Rightarrow> bool" where
  "heap_inv s bs F \<longleftrightarrow> heap_rel s {} bs F \<and> unat (used_bytes (tlsf_pool s)) = used (allocs (pv s) bs)"

lemma hole_pool_ok: "hole s R xs b ys F \<Longrightarrow> pool_ok (pv s) (p0 s) (pe s) (xs @ b # ys)"
  by (simp add: hole_def in_hand_def)

lemma hole_distinct: "hole s R xs b ys F \<Longrightarrow> distinct (xs @ b # ys)"
  using pool_okD(1) hole_pool_ok by metis

lemma hole_not_free: "hole s R xs b ys F \<Longrightarrow> b \<notin> free_set F"
  using hole_distinct [of s R xs b ys F] by (auto simp: hole_def frees_def)

lemma hole_next:
  assumes "hole s R xs b ys F"
  shows "block_next s b < pool_end (tlsf_pool s) \<longleftrightarrow> ys \<noteq> []"
    and "ys \<noteq> [] \<Longrightarrow> block_next s b = hd ys"
proof -
  note n = pool_ok_next [OF hole_pool_ok [OF assms]]
  show "block_next s b < pool_end (tlsf_pool s) \<longleftrightarrow> ys \<noteq> []"
    using n(1,2) by (simp add: block_next_pv word_less_unat)
  show "ys \<noteq> [] \<Longrightarrow> block_next s b = hd ys"
    using n(3) [of "hd ys" "tl ys"] by (simp add: block_next_pv)
qed

lemma lists_ok_upd_hdr:
  assumes "lists_ok s F" and "phys_upd f"
    and "b \<in> free_set F \<Longrightarrow> block_size (f (pv s b)) = block_size (pv s b)"
  shows "lists_ok (upd_hdr b f s) F"
proof (rule lists_ok_frame [OF assms(1)])
  fix x assume "x \<in> free_set F"
  then have "block_size (pv (upd_hdr b f s) x) = block_size (pv s x)" using assms by auto
  moreover have "next_free (headers (upd_hdr b f s) x) = next_free (headers s x)"
    "prev_free (headers (upd_hdr b f s) x) = prev_free (headers s x)"
    using assms(2) by (auto simp: upd_hdr_def phys_upd_def)
  ultimately show "next_free (headers (upd_hdr b f s) x) = next_free (headers s x) \<and>
    prev_free (headers (upd_hdr b f s) x) = prev_free (headers s x) \<and>
    block_size (headers (upd_hdr b f s) x) = block_size (headers s x)" by (simp add: hdr_pv)
qed (simp add: same_lists_def)

lemma hole_upd:
  assumes "hole s R xs b ys F" and "phys_upd f"
    and "block_size (f (pv s b)) = block_size (pv s b)"
      "block_prev_is_free (f (pv s b)) = block_prev_is_free (pv s b)"
      "prev_phys (f (pv s b)) = prev_phys (pv s b)"
  shows "hole (upd_hdr b f s) R xs b ys F"
proof -
  have "b \<notin> set xs" "b \<notin> set ys" using hole_distinct [OF assms(1)] by auto
  then show ?thesis
    using assms in_hand_upd [of "pv s" "p0 s" "pe s" R xs b ys "f (pv s b)"] lists_ok_upd_hdr [of s F f b]
    by (auto simp: hole_def)
qed

text \<open>Telling the successor about the block in hand, as the C code does behind its bounds check.\<close>

definition upd_next :: "addr \<Rightarrow> (block_header \<Rightarrow> block_header) \<Rightarrow> heap \<Rightarrow> heap" where
  "upd_next b g s = (if block_next s b < pool_end (tlsf_pool s) then upd_hdr (block_next s b) g s else s)"

definition flag_upd :: "(block_header \<Rightarrow> block_header) \<Rightarrow> bool" where
  "flag_upd g \<longleftrightarrow> phys_upd g \<and> (\<forall>h. block_size (g h) = block_size h \<and> block_is_free (g h) = block_is_free h \<and>
     magic (g h) = magic h \<and> requested_size (g h) = requested_size h)"

lemma flag_upds [simp]:
  "flag_upd block_set_prev_used" "flag_upd block_set_prev_free" "flag_upd (\<lambda>h. h\<lparr>prev_phys := x\<rparr>)"
  "flag_upd (\<lambda>h. block_set_prev_free (h\<lparr>prev_phys := x\<rparr>))"
  "flag_upd (\<lambda>h. block_set_prev_used (h\<lparr>prev_phys := x\<rparr>))"
  by (simp_all add: flag_upd_def) (simp add: phys_upd_def ph_def block_set_prev_used_def)

lemma upd_next_pool [simp]: "tlsf_pool (upd_next b g s) = tlsf_pool s" "bytes (upd_next b g s) = bytes s"
  by (simp_all add: upd_next_def)

lemma pv_upd_next:
  assumes "hole s R xs b ys F" "flag_upd g"
  shows "pv (upd_next b g s) = (if ys = [] then pv s else (pv s)(hd ys := g (pv s (hd ys))))"
  using assms hole_next [OF assms(1)] by (auto simp: upd_next_def flag_upd_def)

lemma hole_upd_next:
  assumes "hole s R xs b ys F" "flag_upd g"
  shows "hole (upd_next b g s) R xs b ys F"
    and "pv (upd_next b g s) b = pv s b" and "allocs (pv (upd_next b g s)) xs = allocs (pv s) xs"
    and "allocs (pv (upd_next b g s)) ys = allocs (pv s) ys"
proof -
  note eq = pv_upd_next [OF assms]
  have d: "distinct (xs @ b # ys)" by (rule hole_distinct [OF assms(1)])
  show "pv (upd_next b g s) b = pv s b" "allocs (pv (upd_next b g s)) xs = allocs (pv s) xs"
    using d by (cases ys; auto simp: eq)+
  show "allocs (pv (upd_next b g s)) ys = allocs (pv s) ys"
    using assms(2) by (rule_tac allocs_cong) (auto simp: eq flag_upd_def)
  show "hole (upd_next b g s) R xs b ys F"
  proof (cases ys)
    case Nil
    then show ?thesis using assms hole_next [OF assms(1)] by (simp add: upd_next_def)
  next
    case (Cons y zs)
    have ih: "in_hand (pv s) (p0 s) (pe s) R xs b (y # zs)" using assms(1) Cons by (simp add: hole_def)
    have "lists_ok (upd_next b g s) F"
      using assms hole_next [OF assms(1)] lists_ok_upd_hdr [of s F g] by (auto simp: upd_next_def flag_upd_def hole_def)
    moreover have "frees (pv (upd_next b g s)) (xs @ ys) = frees (pv s) (xs @ ys)"
      using assms(2) by (auto simp: eq frees_def flag_upd_def split: if_splits)
    ultimately show ?thesis
      using assms in_hand_upd_next [OF ih, of "g (pv s y)"] Cons by (simp add: hole_def eq flag_upd_def)
  qed
qed

lemma hole_cong:
  assumes "hole s R xs b ys F" and "headers s' = headers s" "same_lists s s'"
    "pool_start (tlsf_pool s') = pool_start (tlsf_pool s)" "pool_end (tlsf_pool s') = pool_end (tlsf_pool s)"
  shows "hole s' R xs b ys F"
proof -
  have "pv s' = pv s" using assms(2) by (simp add: pv_def fun_eq_iff)
  with assms lists_ok_frame [of s F s'] show ?thesis by (simp add: hole_def)
qed

section \<open>Opening and closing\<close>

lemma heap_inv_open:
  assumes "heap_inv s (xs @ b # ys) F" and "\<not> block_is_free (pv s b)"
  shows "hole s {} xs b ys F"
  using assms by (auto simp: heap_inv_def heap_rel_def hole_def intro: closed_open)

lemma free_set_del:
  assumes "lists_ok s F" shows "free_set (del_free b F) = free_set F - {b}"
proof -
  have "distinct (F fl sl)" for fl sl using assms by (simp add: lists_ok_def dll_def)
  then show ?thesis by (auto simp: free_set_def del_free_def set_remove1_eq)
qed

lemma free_set_add [simp]: "free_set (add_free fl sl b F) = insert b (free_set F)"
  by (auto simp: free_set_def add_free_def)

lemma pool_okD':
  assumes "pool_ok H p e bs" "x \<in> set bs" 
  shows "x \<noteq> NULL" "32 \<le> unat (block_size (H x))" "8 dvd unat (block_size (H x))"
    "unat x + 24 + unat (block_size (H x)) \<le> e" "p \<le> unat x" "8 dvd unat x"
proof -
  obtain xs ys where "bs = xs @ x # ys" using assms(2) by (meson split_list)
  with assms(1) show "x \<noteq> NULL" "32 \<le> unat (block_size (H x))" "8 dvd unat (block_size (H x))"
    "unat x + 24 + unat (block_size (H x)) \<le> e" "p \<le> unat x" "8 dvd unat x"
    using pool_okD [of H p e xs x ys] by simp_all
qed

text \<open>The class of a block in the chain is a valid index.\<close>

lemma class_of_block:
  assumes "32 \<le> unat (block_size (pv s b))"
  obtains fl sl where "clamped_class (block_size (headers s b)) = (fl, sl)" "fl < 20" "sl < 16"
  using clamped_class_large [OF assms] by (metis hdr_pv(1))

lemma heap_inv_remove:
  assumes "heap_inv s (xs @ b # ys) F" and "block_is_free (pv s b)"
  shows "hole (remove_free_block b s) {} xs b ys (del_free b F)"
    and "\<not> block_prev_is_free (pv s b)"
proof -
  have c: "closed (pv s) (p0 s) (pe s) {} (xs @ b # ys)" using assms(1) by (simp add: heap_inv_def heap_rel_def)
  show "\<not> block_prev_is_free (pv s b)"
    using c assms(2) by (auto simp: closed_def links_append split: if_splits)
  have ok: "pool_ok (pv s) (p0 s) (pe s) (xs @ b # ys)" using c by (simp add: closed_def)
  have l: "lists_ok s F" "b \<in> free_set F" using assms by (auto simp: heap_inv_def heap_rel_def)
  have "lists_ok (remove_free_block b s) (del_free b F)"
    using l remove_free_block_lists by blast
  moreover have "free_set (del_free b F) = frees (pv s) (xs @ ys)"
    using assms pool_okD(1) [OF ok] free_set_del [OF l(1)] by (auto simp: heap_inv_def heap_rel_def frees_def)
  ultimately show "hole (remove_free_block b s) {} xs b ys (del_free b F)"
    using closed_open [OF c] by (simp add: hole_def)
qed

lemma hole_close_used:
  assumes h: "hole s R xs b ys F"
    and "\<not> block_is_free (pv s b)" "magic (pv s b) = BLOCK_MAGIC_USED"
      "b \<notin> R \<Longrightarrow> unat (requested_size (pv s b)) + 4 \<le> unat (block_size (pv s b))"
    and "ys \<noteq> [] \<Longrightarrow> \<not> block_prev_is_free (pv s (hd ys))"
    and "total_bytes (tlsf_pool s) = pool_end (tlsf_pool s) - pool_start (tlsf_pool s)"
  shows "heap_rel s R (xs @ b # ys) F"
proof -
  have "closed (pv s) (p0 s) (pe s) R (xs @ b # ys)"
    using assms by (intro in_hand_close) (auto simp: hole_def tag_ok_def)
  with assms show ?thesis by (auto simp: heap_rel_def hole_def)
qed

lemma hole_close_free:
  assumes h: "hole s {} xs b ys F"
    and "block_is_free (pv s b)" "magic (pv s b) = BLOCK_MAGIC_FREE" "\<not> block_prev_is_free (pv s b)"
    and "ys \<noteq> [] \<Longrightarrow> block_prev_is_free (pv s (hd ys)) \<and> prev_phys (pv s (hd ys)) = b \<and>
      \<not> block_is_free (pv s (hd ys))"
    and "unat (used_bytes (tlsf_pool s)) = used (allocs (pv s) xs) + used (allocs (pv s) ys)"
    and "total_bytes (tlsf_pool s) = pool_end (tlsf_pool s) - pool_start (tlsf_pool s)"
    and c: "clamped_class (block_size (headers s b)) = (fl, sl)"
  shows "heap_inv (insert_free_block b s) (xs @ b # ys) (add_free fl sl b F)"
proof -
  have "closed (pv s) (p0 s) (pe s) {} (xs @ b # ys)"
    using assms by (intro in_hand_close) (auto simp: hole_def tag_ok_def)
  moreover have "b \<noteq> NULL" "32 \<le> unat (block_size (pv s b))"
    using pool_okD [OF hole_pool_ok [OF h]] by auto
  moreover obtain fl' sl' where "clamped_class (block_size (headers s b)) = (fl', sl')" "fl' < 20" "sl' < 16"
    using class_of_block \<open>32 \<le> _\<close> by blast
  ultimately show ?thesis
    using assms hole_not_free [OF h] insert_free_block_lists [of s F b fl sl]
    by (auto simp: heap_inv_def heap_rel_def hole_def)
qed

end
