(* ===== verification/Tlsf_Blocks.thy ===== *)
theory Tlsf_Blocks
  imports Tlsf_Heap
begin

text \<open>
  \<open>merge_prev\<close>, \<open>merge_next\<close> and \<open>split_block\<close> on a heap with a block in hand: each keeps the
  \<open>hole\<close> predicate, the accounting and the list of the allocated blocks.
\<close>

section \<open>Merging\<close>

definition same_acct :: "heap \<Rightarrow> heap \<Rightarrow> bool" where
  "same_acct s s' \<longleftrightarrow> pool_start (tlsf_pool s') = pool_start (tlsf_pool s) \<and>
     pool_end (tlsf_pool s') = pool_end (tlsf_pool s) \<and> used_bytes (tlsf_pool s') = used_bytes (tlsf_pool s) \<and>
     total_bytes (tlsf_pool s') = total_bytes (tlsf_pool s) \<and> bytes s' = bytes s"

lemma same_acct_refl [simp]: "same_acct s s"
  and same_acct_trans: "same_acct s t \<Longrightarrow> same_acct t u \<Longrightarrow> same_acct s u"
  by (simp_all add: same_acct_def)

lemma merged_size:
  assumes ok: "pool_ok H p e (xs @ c # b # ys)"
  shows "unat (block_size (H c) + 24 + block_size (H b)) = unat (block_size (H c)) + 24 + unat (block_size (H b))"
    and "8 dvd unat (block_size (H c) + 24 + block_size (H b))"
    and "4 dvd unat (block_size (H c) + 24 + block_size (H b))"
proof -
  note d = pool_okD [OF ok] and d2 = pool_okD [of H p e "xs @ [c]" b ys, simplified, OF ok]
  show eq: "unat (block_size (H c) + 24 + block_size (H b)) = unat (block_size (H c)) + 24 + unat (block_size (H b))"
    using pool_ok_next [OF ok] d d2 by (auto simp: unat_add_small)
  show d8: "8 dvd unat (block_size (H c) + 24 + block_size (H b))"
    unfolding eq using d(5) d2(5) by (auto intro!: dvd_add)
  show "4 dvd unat (block_size (H c) + 24 + block_size (H b))"
    by (rule dvd_trans [OF _ d8]) simp
qed

lemma merge_prev_hole:
  assumes h: "hole s R xs b ys F" and pf: "block_prev_is_free (pv s b)"
  obtains xs' c s' where "xs = xs' @ [c]" "merge_prev b s = (c, s')" "hole s' R xs' c ys (del_free c F)"
    "allocs (pv s') xs' = allocs (pv s) xs" "allocs (pv s') ys = allocs (pv s) ys" "same_acct s s'"
    "block_is_free (pv s' c)" "magic (pv s' c) = BLOCK_MAGIC_FREE" "\<not> block_prev_is_free (pv s' c)"
proof -
  have ih: "in_hand (pv s) (p0 s) (pe s) R xs b ys" and l: "lists_ok s F"
    and fs: "free_set F = frees (pv s) (xs @ ys)" using h by (auto simp: hole_def)
  have e: "xs \<noteq> []" "block_is_free (pv s (last xs))" "prev_phys (pv s b) = last xs"
    using ih pf by (auto simp: in_hand_def entry_def)
  then obtain xs' c where xs: "xs = xs' @ [c]" by (metis append_butlast_last_id)
  with e have c: "block_is_free (pv s c)" "prev_phys (pv s b) = c" by auto
  have ok: "pool_ok (pv s) (p0 s) (pe s) (xs' @ c # b # ys)" using hole_pool_ok [OF h] xs by simp
  note m = merged_size [OF ok]
  let ?n = "block_size (pv s c) + 24 + block_size (pv s b)"
  let ?t = "upd_hdr c (block_set_size ?n) (remove_free_block c s)"
  have pv_t: "pv ?t = (pv s)(c := block_set_size ?n (pv s c))" by simp
  have cF: "c \<in> free_set F" using fs c xs by simp
  have d: "distinct (xs' @ c # b # ys)" using pool_okD(1) [OF ok] .
  have "lists_ok ?t (del_free c F)"
    by (rule lists_ok_upd_hdr [OF remove_free_block_lists [OF l cF]]) (simp_all add: free_set_del [OF l])
  moreover have "in_hand (pv ?t) (p0 s) (pe s) R xs' c ys"
    unfolding pv_t using ih xs m by (intro in_hand_merge_prev [where b = b]) auto
  moreover have "free_set (del_free c F) = frees (pv ?t) (xs' @ ys)"
    unfolding pv_t using fs xs d by (auto simp: free_set_del [OF l] frees_def)
  ultimately have ht: "hole ?t R xs' c ys (del_free c F)" by (simp add: hole_def)
  let ?s' = "upd_next c (\<lambda>h. h\<lparr>prev_phys := c\<rparr>) ?t"
  note n = hole_upd_next [OF ht, of "\<lambda>h. h\<lparr>prev_phys := c\<rparr>", simplified]
  have fc: "\<not> block_prev_is_free (pv s c)" "magic (pv s c) = BLOCK_MAGIC_FREE"
    using ih c xs by (auto simp: in_hand_def links_append tag_ok_def split: if_splits)
  show thesis
  proof
    show "merge_prev b s = (c, ?s')"
      using pf c by (simp add: merge_prev_def Let_def upd_next_def hdr_pv)
  qed (use xs n d c fc m in \<open>auto simp: same_acct_def\<close>)
qed

text \<open>Absorbing the free successor, before anyone else is told.\<close>

lemma absorb_next:
  assumes h: "hole s R xs b (n # ys) F" and nf: "block_is_free (pv s n)"
  defines "t \<equiv> upd_hdr b (block_set_size (block_size (pv s b) + 24 + block_size (pv s n))) (remove_free_block n s)"
  shows "hole t R xs b ys (del_free n F)"
    and "pv t = (pv s)(b := block_set_size (block_size (pv s b) + 24 + block_size (pv s n)) (pv s b))"
    and "same_acct s t" and "ys \<noteq> [] \<longrightarrow> \<not> block_is_free (pv t (hd ys))"
    and "allocs (pv t) xs = allocs (pv s) xs" "allocs (pv t) ys = allocs (pv s) (n # ys)"
proof -
  have ih: "in_hand (pv s) (p0 s) (pe s) R xs b (n # ys)" and l: "lists_ok s F"
    and fs: "free_set F = frees (pv s) (xs @ n # ys)" using h by (auto simp: hole_def)
  have ok: "pool_ok (pv s) (p0 s) (pe s) (xs @ b # n # ys)" using hole_pool_ok [OF h] .
  note m = merged_size [OF ok]
  show pv_t: "pv t = (pv s)(b := block_set_size (block_size (pv s b) + 24 + block_size (pv s n)) (pv s b))"
    by (simp add: t_def)
  show acct: "same_acct s t" by (simp add: t_def same_acct_def)
  have nF: "n \<in> free_set F" using fs nf by simp
  have d: "distinct (xs @ b # n # ys)" using pool_okD(1) [OF ok] .
  have "lists_ok t (del_free n F)"
    unfolding t_def by (rule lists_ok_upd_hdr [OF remove_free_block_lists [OF l nF]])
      (simp_all add: free_set_del [OF l] hole_not_free [OF h])
  moreover have "in_hand (pv t) (p0 s) (pe s) R xs b ys"
    unfolding pv_t using ih m by (intro in_hand_merge_next [where n = n]) auto
  moreover have "free_set (del_free n F) = frees (pv t) (xs @ ys)"
    unfolding pv_t using fs d by (auto simp: free_set_del [OF l] frees_def)
  ultimately show "hole t R xs b ys (del_free n F)" using acct by (simp add: hole_def same_acct_def)
  have "ys \<noteq> [] \<Longrightarrow> \<not> block_is_free (pv s (hd ys))"
    using ih nf by (cases ys) (auto simp: in_hand_def)
  then show "ys \<noteq> [] \<longrightarrow> \<not> block_is_free (pv t (hd ys))"
    using d unfolding pv_t by (cases ys) auto
  show "allocs (pv t) xs = allocs (pv s) xs" "allocs (pv t) ys = allocs (pv s) (n # ys)"
    using d nf unfolding pv_t by auto
qed

lemma merge_next_hole:
  assumes h: "hole s R xs b (n # ys) F" and nf: "block_is_free (pv s n)"
  obtains s' where "merge_next b s = (b, s')" "hole s' R xs b ys (del_free n F)"
    "allocs (pv s') xs = allocs (pv s) xs" "allocs (pv s') ys = allocs (pv s) (n # ys)" "same_acct s s'"
    "block_is_free (pv s' b) = block_is_free (pv s b)" "magic (pv s' b) = magic (pv s b)"
    "block_prev_is_free (pv s' b) = block_prev_is_free (pv s b)"
    "ys \<noteq> [] \<longrightarrow> \<not> block_is_free (pv s' (hd ys))"
proof -
  let ?n = "block_size (pv s b) + 24 + block_size (pv s n)"
  let ?t = "upd_hdr b (block_set_size ?n) (remove_free_block n s)"
  note t = absorb_next [OF h nf]
  have n4: "4 dvd unat ?n" by (rule merged_size(3) [OF hole_pool_ok [OF h]])
  let ?s' = "upd_next b (\<lambda>h. h\<lparr>prev_phys := b\<rparr>) ?t"
  note u = hole_upd_next [OF t(1), of "\<lambda>h. h\<lparr>prev_phys := b\<rparr>", simplified]
  show thesis
  proof
    show "merge_next b s = (b, ?s')"
      using nf hole_next [OF h] by (simp add: merge_next_def Let_def upd_next_def hdr_pv)
    show "ys \<noteq> [] \<longrightarrow> \<not> block_is_free (pv ?s' (hd ys))"
      using t(4) by (cases ys) (auto simp: pv_upd_next [OF t(1)])
  qed (use u t(3,5,6) n4 in \<open>simp_all add: same_acct_def\<close>)
qed

lemma merge_next_none:
  assumes "hole s R xs b ys F" and "ys \<noteq> [] \<longrightarrow> \<not> block_is_free (pv s (hd ys))"
  shows "merge_next b s = (b, s)"
  using assms hole_next [OF assms(1)] by (cases ys) (auto simp: merge_next_def Let_def hdr_pv)

section \<open>Splitting\<close>

lemma split_block_none:
  assumes "unat sz \<le> 0xF8000000" and "unat (block_size (pv s b)) < unat sz + 56"
  shows "split_block b sz s = (None, s)"
proof -
  have "unat (sz + 24 + 32) = unat sz + 56" using assms(1) by (simp add: unat_add_small)
  then have "block_size (headers s b) < sz + 24 + 32"
    using assms(2) by (simp add: word_less_unat hdr_pv)
  then show ?thesis by (simp add: split_block_def Let_def)
qed

text \<open>The header of the second part, and what the successor is told first.\<close>

abbreviation rest_hdr :: "addr \<Rightarrow> u32 \<Rightarrow> block_header \<Rightarrow> block_header" where
  "rest_hdr b z h \<equiv> (block_set_prev_used (block_set_free (block_set_size z (h\<lparr>bh_size := 0\<rparr>))))
     \<lparr>prev_phys := b, requested_size := 0, magic := BLOCK_MAGIC_FREE\<rparr>"

abbreviation tell_rest :: "addr \<Rightarrow> block_header \<Rightarrow> block_header" where
  "tell_rest r h \<equiv> block_set_prev_free (h\<lparr>prev_phys := r\<rparr>)"

lemma split_block_hole:
  assumes h: "hole s R xs b ys F" and sz: "32 \<le> unat sz" "8 dvd unat sz" "unat sz \<le> 0xF8000000"
    and big: "unat sz + 56 \<le> unat (block_size (pv s b))"
  defines "r \<equiv> b + 24 + sz" and "z \<equiv> block_size (pv s b) - sz - 24"
  defines "t \<equiv> upd_next b (tell_rest r) s"
  obtains s' where "split_block b sz s = (Some r, s')" "lists_ok s' F" "same_acct s s'"
    "pv s' = (pv t)(r := rest_hdr b z (pv s r), b := block_set_size sz (pv s b))"
    "r \<notin> set (xs @ b # ys)" "unat z = unat (block_size (pv s b)) - unat sz - 24" "8 dvd unat z" "4 dvd unat sz"
proof -
  have ok: "pool_ok (pv s) (p0 s) (pe s) (xs @ b # ys)" by (rule hole_pool_ok [OF h])
  note d = pool_okD [OF ok]
  have uz: "unat z = unat (block_size (pv s b)) - unat sz - 24"
    using big unfolding z_def by (subst unat_sub; simp add: word_le_unat unat_sub)+
  have z8: "8 dvd unat z" using d(5) sz(2) big unfolding uz by (auto intro!: dvd_diff_nat)
  have d4: "4 dvd unat sz" "4 dvd unat z"
    using dvd_trans [of "4::nat" 8] sz(2) z8 by simp_all
  have sizes: "block_size (block_set_size sz (pv s b)) = sz" "block_size (rest_hdr b z (pv s r)) = z"
    using d4 by simp_all
  have z32: "32 \<le> unat z" and sum: "unat (block_size (pv s b)) = unat sz + 24 + unat z"
    using uz big by linarith+
  have r: "r = b + 24 + sz" by (simp add: r_def)
  have rn: "r \<notin> set (xs @ b # ys)"
    by (rule pool_ok_split(2) [OF ok, of "block_set_size sz (pv s b)" "rest_hdr b z (pv s r)" r,
          unfolded sizes, OF sz(1,2) z32 sum r])
  have nxt: "r + 24 + z = b + 24 + block_size (pv s b)"
    by (simp add: r_def z_def algebra_simps)
  let ?u = "upd_hdr b (block_set_size sz) (upd_hdr r (rest_hdr b z) s)"
  have rb: "r \<noteq> b" using rn by simp
  have nn: "block_next ?u r = block_next s b"
    using rb nxt sizes(2) by (simp add: block_next_pv)
  define s' where "s' = (if block_next s b < pool_end (tlsf_pool s)
     then upd_hdr (block_next s b) (tell_rest r) ?u else ?u)"
  have "split_block b sz s = (Some r, s')"
  proof -
    have "\<not> block_size (headers s b) < sz + 24 + 32" "\<not> block_size (headers s b) - sz - 24 < 32"
      using big sz(3) uz by (simp_all add: word_less_unat hdr_pv unat_add_small z_def)
    then show ?thesis
      unfolding split_block_def Let_def s'_def nn [unfolded z_def, symmetric]
      by (simp add: r_def z_def hdr_pv)
  qed
  moreover have bF: "b \<notin> free_set F" "r \<notin> free_set F"
    using hole_not_free [OF h] h rn by (auto simp: hole_def frees_def)
  have "lists_ok s F" using h by (simp add: hole_def)
  then have "lists_ok (upd_hdr r (rest_hdr b z) s) F"
    by (rule lists_ok_upd_hdr) (use bF in simp_all)
  then have l: "lists_ok ?u F"
    by (rule lists_ok_upd_hdr) (use bF in simp_all)
  have "lists_ok (upd_hdr (block_next s b) (tell_rest r) ?u) F"
    by (rule lists_ok_upd_hdr [OF l]) simp_all
  with l have "lists_ok s' F" by (simp add: s'_def)
  moreover have "pv s' = (pv t)(r := rest_hdr b z (pv s r), b := block_set_size sz (pv s b))"
  proof (cases ys)
    case Nil
    then show ?thesis using hole_next [OF h] rb by (simp add: s'_def t_def upd_next_def fun_upd_twist)
  next
    case (Cons y zs)
    then have "y \<noteq> b" "y \<noteq> r" using rn d(1) by auto
    then show ?thesis using hole_next [OF h] rb Cons
      by (simp add: s'_def t_def upd_next_def fun_upd_twist)
  qed
  moreover have "same_acct s s'" by (simp add: s'_def same_acct_def)
  ultimately show thesis using that rn uz z8 d4 by blast
qed

definition split_insert :: "addr \<Rightarrow> u32 \<Rightarrow> heap \<Rightarrow> heap" where
  "split_insert b sz s = (case split_block b sz s of (remain, s) \<Rightarrow>
     (case remain of Some r \<Rightarrow> insert_free_block r s | None \<Rightarrow> s))"

lemma split_insert_hole:
  assumes h: "hole s R xs b ys F" and nf: "ys \<noteq> [] \<longrightarrow> \<not> block_is_free (pv s (hd ys))"
    and sz: "32 \<le> unat sz" "8 dvd unat sz" "unat sz \<le> 0xF8000000" "unat sz \<le> unat (block_size (pv s b))"
  obtains ys' F' where "hole (split_insert b sz s) R xs b ys' F'" "same_acct s (split_insert b sz s)"
    "allocs (pv (split_insert b sz s)) xs = allocs (pv s) xs"
    "allocs (pv (split_insert b sz s)) ys' = allocs (pv s) ys"
    "unat sz \<le> unat (block_size (pv (split_insert b sz s) b))"
    "unat (block_size (pv (split_insert b sz s) b)) < unat sz + 56"
    "\<exists>z. 4 dvd unat z \<and> pv (split_insert b sz s) b = block_set_size z (pv s b) \<or> pv (split_insert b sz s) b = pv s b"
    "ys' \<noteq> [] \<longrightarrow> pv (split_insert b sz s) b = pv s b \<or> \<not> block_prev_is_free (pv (split_insert b sz s) (hd ys'))"
proof (cases "unat sz + 56 \<le> unat (block_size (pv s b))")
  case False
  then have "split_insert b sz s = s"
    using split_block_none [OF sz(3), of s b] by (simp add: split_insert_def)
  with that [of ys F] h sz False show thesis by auto
next
  case True
  let ?r = "b + 24 + sz" and ?z = "block_size (pv s b) - sz - 24"
  let ?t = "upd_next b (tell_rest ?r) s"
  obtain s' where s': "split_block b sz s = (Some ?r, s')" "lists_ok s' F" "same_acct s s'"
    "pv s' = (pv ?t)(?r := rest_hdr b ?z (pv s ?r), b := block_set_size sz (pv s b))"
    "?r \<notin> set (xs @ b # ys)" "unat ?z = unat (block_size (pv s b)) - unat sz - 24" "8 dvd unat ?z" "4 dvd unat sz"
    using split_block_hole [OF h sz(1-3) True] by metis
  have z4: "4 dvd unat ?z" using s'(7) dvd_trans [of "4::nat" 8] by simp
  have ht: "hole ?t R xs b ys F" and tb: "pv ?t b = pv s b"
    and ta: "allocs (pv ?t) xs = allocs (pv s) xs" "allocs (pv ?t) ys = allocs (pv s) ys"
    using hole_upd_next [OF h, of "tell_rest ?r"] by simp_all
  have d: "distinct (xs @ b # ys)" by (rule hole_distinct [OF h])
  let ?k = "rest_hdr b ?z (pv s ?r)" and ?h = "block_set_size sz (pv s b)"
  have ih: "in_hand (pv s') (p0 s) (pe s) R xs b (?r # ys)"
    unfolding s'(4)
  proof (rule in_hand_split)
    show "in_hand (pv ?t) (p0 s) (pe s) R xs b ys" using ht by (simp add: hole_def)
    show "ys \<noteq> [] \<Longrightarrow> block_prev_is_free (pv ?t (hd ys)) \<and> prev_phys (pv ?t (hd ys)) = ?r \<and> \<not> block_is_free (pv ?t (hd ys))"
      using nf pv_upd_next [OF h, of "tell_rest ?r"] by simp
  qed (use sz True s'(6,8) z4 tb in auto)
  have s'_eqs: "split_insert b sz s = insert_free_block ?r s'" "same_acct s (split_insert b sz s)"
    using s'(1,3) by (simp_all add: split_insert_def same_acct_def)
  obtain fl sl where c: "clamped_class (block_size (headers s' ?r)) = (fl, sl)" "fl < 20" "sl < 16"
    using class_of_block [of s' ?r] pool_okD(4) [of "pv s'" "p0 s" "pe s" "xs @ [b]" ?r ys] ih
    by (auto simp: in_hand_def)
  have rF: "?r \<notin> free_set F" "?r \<noteq> NULL"
    using h s'(5) pool_okD(2) [of "pv s'" "p0 s" "pe s" "xs @ [b]" ?r ys] ih
    by (auto simp: hole_def frees_def in_hand_def)
  have fr: "free_set (add_free fl sl ?r F) = frees (pv s') (xs @ ?r # ys)"
    using ht s'(5) d by (auto simp: hole_def s'(4) frees_def)
  have ho: "hole (split_insert b sz s) R xs b (?r # ys) (add_free fl sl ?r F)"
    using ih fr insert_free_block_lists [OF s'(2) rF c(1)] c s'(3) s'_eqs(1)
    by (simp add: hole_def same_acct_def)
  show thesis
    by (rule that [OF ho s'_eqs(2)]) (use s'_eqs(1) s'(4,5,8) ta d sz in auto)
qed

text \<open>Closing the heap after the block in hand became free: insertion, then the successor is told.\<close>

lemma hole_close_free_next:
  assumes h: "hole s R xs b ys F"
    and b: "block_is_free (pv s b)" "magic (pv s b) = BLOCK_MAGIC_FREE" "\<not> block_prev_is_free (pv s b)"
    and y: "ys \<noteq> [] \<longrightarrow> \<not> block_is_free (pv s (hd ys))"
    and u: "total_bytes (tlsf_pool s) = pool_end (tlsf_pool s) - pool_start (tlsf_pool s)"
  obtains F' where "heap_rel (upd_next b (tell_rest b) (insert_free_block b s)) R (xs @ b # ys) F'"
proof -
  let ?s' = "upd_next b (tell_rest b) (insert_free_block b s)" and ?t = "upd_next b (tell_rest b) s"
  have sz: "32 \<le> unat (block_size (pv s b))" "b \<noteq> NULL" using pool_okD [OF hole_pool_ok [OF h]] by auto
  then obtain fl sl where c: "clamped_class (block_size (headers s b)) = (fl, sl)" "fl < 20" "sl < 16"
    using class_of_block by metis
  have l: "lists_ok (insert_free_block b s) (add_free fl sl b F)"
    using h hole_not_free [OF h] sz c by (intro insert_free_block_lists) (auto simp: hole_def)
  have pv: "pv ?s' = pv ?t" by (auto simp: upd_next_def block_next_pv)
  note n = hole_upd_next [OF h, of "tell_rest b", simplified]
  have "closed (pv ?t) (p0 s) (pe s) R (xs @ b # ys)"
    using n(1,2) b y pv_upd_next [OF h, of "tell_rest b"]
    by (intro in_hand_close) (auto simp: hole_def tag_ok_def)
  moreover have "lists_ok ?s' (add_free fl sl b F)"
    using l by (auto simp: upd_next_def intro!: lists_ok_upd_hdr)
  moreover have "free_set (add_free fl sl b F) = frees (pv ?t) (xs @ b # ys)"
    using n(1,2) b(1) by (auto simp: hole_def)
  ultimately have "heap_rel ?s' R (xs @ b # ys) (add_free fl sl b F)"
    using u b n by (simp add: heap_rel_def pv)
  then show thesis by (rule that)
qed

end
