(* ===== verification/Tlsf_Fit.thy ===== *)
theory Tlsf_Fit
  imports Tlsf_Heap
begin

text \<open>
  \<open>find_suitable_block\<close>: the two bitmap scans return a block that is on a free list and large
  enough, and they find one whenever a class at or above the one searched for is not empty.
\<close>

section \<open>Bit scans\<close>

lemma bit_u32_unat: "bit (x::u32) k \<longleftrightarrow> odd (unat x div 2 ^ k)"
  using bit_unsigned_iff [of x k, where 'a = nat] by (auto simp: bit_iff_odd dest: bit_imp_le_length)

lemma ctzsi2_bit:
  assumes "x \<noteq> 0"
  shows "bit x (ctzsi2 x)" and "ctzsi2 x < 32" and "bit x k \<Longrightarrow> ctzsi2 x \<le> k"
proof -
  have c: "ctzsi2 x < 32" "2 ^ ctzsi2 x dvd unat x" "\<not> 2 ^ Suc (ctzsi2 x) dvd unat x"
    using ctzsi2_bounds [OF assms] by auto
  then show "ctzsi2 x < 32" by simp
  from c(2) obtain m where m: "unat x = 2 ^ ctzsi2 x * m" by (auto elim: dvdE)
  with c(3) have "odd m" by auto
  then show "bit x (ctzsi2 x)" by (simp add: bit_u32_unat m)
  show "ctzsi2 x \<le> k" if "bit x k"
  proof (rule ccontr)
    assume "\<not> ctzsi2 x \<le> k"
    then have "2 ^ ctzsi2 x = (2::nat) ^ k * (2 * 2 ^ (ctzsi2 x - Suc k))"
      by (simp flip: power_add power_Suc)
    then have "unat x div 2 ^ k = 2 * (2 ^ (ctzsi2 x - Suc k) * m)" unfolding m by simp
    with that show False by (simp add: bit_u32_unat)
  qed
qed

lemma bit_from: "bit ((x::u32) AND push_bit k (NOT 0)) j \<longleftrightarrow> bit x j \<and> k \<le> j"
  by (auto simp: bit_simps dest: bit_imp_le_length)

lemma word_nonzero_bit: "(x::u32) \<noteq> 0 \<longleftrightarrow> (\<exists>k. bit x k)"
  by (metis bit_0_eq bit_word_eqI bot_apply bot_bool_def)

section \<open>Good fit\<close>

lemma list_block:
  assumes l: "lists_ok s F" and b: "\<And>x. x \<in> free_set F \<Longrightarrow> 32 \<le> unat (block_size (pv s x))"
    and bit: "bit (sl_bitmap (tlsf_pool s) fl) sl"
  shows "blocks (tlsf_pool s) fl sl \<in> set (F fl sl)" and "blocks (tlsf_pool s) fl sl \<in> free_set F"
    and "fl < 20" "sl < 16" "class_lo fl sl \<le> unat (block_size (pv s (blocks (tlsf_pool s) fl sl)))"
proof -
  have ne: "F fl sl \<noteq> []" and d: "dll (headers s) (blocks (tlsf_pool s) fl sl) (F fl sl)"
    using l bit by (auto simp: lists_ok_def)
  let ?b = "blocks (tlsf_pool s) fl sl"
  show bin: "?b \<in> set (F fl sl)" using dll_head [OF d] ne by (cases "F fl sl") auto
  then show bF: "?b \<in> free_set F" by (auto simp: free_set_def)
  have c: "clamped_class (block_size (pv s ?b)) = (fl, sl)" using l bin by (simp add: lists_ok_def hdr_pv)
  obtain fl' sl' where "clamped_class (block_size (pv s ?b)) = (fl', sl')" "fl' < 20" "sl' < 16"
    "class_lo fl' sl' \<le> unat (block_size (pv s ?b)) \<or> 2 ^ 20 \<le> unat (block_size (pv s ?b))"
    using clamped_class_large [OF b [OF bF]] by metis
  with c have r: "fl < 20" "sl < 16"
    "class_lo fl sl \<le> unat (block_size (pv s ?b)) \<or> 2 ^ 20 \<le> unat (block_size (pv s ?b))" by auto
  then show "fl < 20" "sl < 16" by auto
  have "class_lo fl sl \<le> 32 * 2 ^ 15"
    unfolding class_lo_def using r(1,2) by (intro mult_le_mono power_increasing) auto
  also have "(32 * 2 ^ 15 :: nat) = 2 ^ 20" by simp
  finally show "class_lo fl sl \<le> unat (block_size (pv s ?b))" using r(3) by linarith
qed

lemma find_suitable_block_fits:
  assumes l: "lists_ok s F" and b: "\<And>x. x \<in> free_set F \<Longrightarrow> 32 \<le> unat (block_size (pv s x))"
    and sz: "32 \<le> unat sz" "unat sz \<le> 0xF8000000"
    and ne: "find_suitable_block sz s \<noteq> NULL"
  shows "find_suitable_block sz s \<in> free_set F \<and> unat sz \<le> unat (block_size (pv s (find_suitable_block sz s))) \<and>
    (\<exists>fl sl fl' sl'. mapping_search sz = (int fl, int sl) \<and> (fl < fl' \<or> fl = fl' \<and> sl \<le> sl') \<and>
      find_suitable_block sz s \<in> set (F fl' sl'))"
proof -
  obtain fl sl where m: "mapping_search sz = (int fl, int sl)" "5 \<le> fl" "sl < 16" "unat sz \<le> class_lo fl sl"
    using mapping_search_ge [OF sz] by metis
  have goal: ?thesis if "find_suitable_block sz s = blocks (tlsf_pool s) fl' sl'"
    "bit (sl_bitmap (tlsf_pool s) fl') sl'" "fl < fl' \<or> fl = fl' \<and> sl \<le> sl'" for fl' sl'
    using list_block [OF l b that(2)] class_lo_mono [OF that(3) m(3)] m that(1,3) by auto
  let ?sm = "sl_bitmap (tlsf_pool s) fl AND push_bit sl (NOT 0)"
  let ?fm = "fl_bitmap (tlsf_pool s) AND push_bit (Suc fl) (NOT 0)"
  show ?thesis
  proof (cases "?sm = 0")
    case False
    note c = ctzsi2_bit [OF False]
    from c(1) have "bit (sl_bitmap (tlsf_pool s) fl) (ctzsi2 ?sm)" "sl \<le> ctzsi2 ?sm"
      by (simp_all only: bit_from)
    moreover have "find_suitable_block sz s = blocks (tlsf_pool s) fl (ctzsi2 ?sm)"
      using ne m False by (auto simp: find_suitable_block_def Let_def tlsf_ffs_def split: if_splits)
    ultimately show ?thesis by (intro goal) auto
  next
    case True
    have nf: "nat (int fl + 1) = Suc fl" by simp
    have fm: "?fm \<noteq> 0" using ne m True by (auto simp: find_suitable_block_def Let_def nf split: if_splits)
    have fb: "bit (fl_bitmap (tlsf_pool s)) (ctzsi2 ?fm)" "Suc fl \<le> ctzsi2 ?fm"
      using ctzsi2_bit(1) [OF fm] by (simp_all only: bit_from)
    let ?sm2 = "sl_bitmap (tlsf_pool s) (ctzsi2 ?fm)"
    have "?sm2 \<noteq> 0" using fb(1) l by (simp add: lists_ok_def)
    then have "bit ?sm2 (ctzsi2 ?sm2)" by (rule ctzsi2_bit)
    moreover have "find_suitable_block sz s = blocks (tlsf_pool s) (ctzsi2 ?fm) (ctzsi2 ?sm2)"
      using ne m True fm \<open>?sm2 \<noteq> 0\<close> by (auto simp: find_suitable_block_def Let_def nf tlsf_ffs_def split: if_splits)
    ultimately show ?thesis using fb(2) by (intro goal) auto
  qed
qed

text \<open>
  The search does not miss: if the size class that the request is rounded up to, or a larger one,
  holds a block, one is found.
\<close>

lemma find_suitable_block_finds:
  assumes l: "lists_ok s F" and b: "\<And>x. x \<in> free_set F \<Longrightarrow> 32 \<le> unat (block_size (pv s x)) \<and> x \<noteq> NULL"
    and m: "mapping_search sz = (int fl, int sl)" "fl < 20"
    and x: "x \<in> set (F fl' sl')" "fl < fl' \<or> fl = fl' \<and> sl \<le> sl'"
  shows "find_suitable_block sz s \<noteq> NULL"
proof -
  have bs: "bit (sl_bitmap (tlsf_pool s) fl') sl'" using l x(1) by (auto simp: lists_ok_def)
  have pick: "blocks (tlsf_pool s) i j \<noteq> NULL" if "bit (sl_bitmap (tlsf_pool s) i) j" for i j
    using list_block(2) [OF l _ that] b by blast
  let ?sm = "sl_bitmap (tlsf_pool s) fl AND push_bit sl (NOT 0)"
  let ?fm = "fl_bitmap (tlsf_pool s) AND push_bit (Suc fl) (NOT 0)"
  have nf: "nat (int fl + 1) = Suc fl" by simp
  show ?thesis
  proof (cases "?sm = 0")
    case False
    have "bit (sl_bitmap (tlsf_pool s) fl) (ctzsi2 ?sm)"
      using ctzsi2_bit(1) [OF False] by (simp only: bit_from)
    with pick have "blocks (tlsf_pool s) fl (ctzsi2 ?sm) \<noteq> NULL" .
    with False m show ?thesis by (simp add: find_suitable_block_def Let_def tlsf_ffs_def)
  next
    case True
    have "fl < fl'"
    proof (rule ccontr)
      assume "\<not> fl < fl'"
      with x(2) bs have "bit ?sm sl'" by (auto simp only: bit_from)
      with True show False by simp
    qed
    moreover have "bit (fl_bitmap (tlsf_pool s)) fl'" using l bs by (auto simp: lists_ok_def word_nonzero_bit)
    ultimately have "bit ?fm fl'" by (simp only: bit_from) simp
    then have fm: "?fm \<noteq> 0" by (metis word_nonzero_bit)
    let ?sm2 = "sl_bitmap (tlsf_pool s) (ctzsi2 ?fm)"
    have "bit (fl_bitmap (tlsf_pool s)) (ctzsi2 ?fm)" using ctzsi2_bit(1) [OF fm] by (simp only: bit_from)
    then have "?sm2 \<noteq> 0" using l by (simp add: lists_ok_def)
    then have "blocks (tlsf_pool s) (ctzsi2 ?fm) (ctzsi2 ?sm2) \<noteq> NULL"
      using pick ctzsi2_bit(1) by blast
    with True m fm \<open>?sm2 \<noteq> 0\<close> show ?thesis by (simp add: find_suitable_block_def Let_def nf tlsf_ffs_def)
  qed
qed

end
