(* ===== verification/Tlsf_Ops.thy ===== *)
theory Tlsf_Ops
  imports Tlsf_Blocks Tlsf_Fit
begin

text \<open>
  The public operations of the allocator on a heap that satisfies \<open>heap_inv\<close>: what each one
  does to the list of allocated blocks, and that the invariant holds again afterwards.
\<close>

section \<open>Sizes and canaries\<close>

lemma size_with_canary_ok:
  assumes "unat req \<le> 0xF7FFFFFC"
  obtains sz where "size_with_canary req = Some sz" "32 \<le> unat sz" "8 dvd unat sz" "unat sz \<le> 0xF8000000"
    "unat req + 4 \<le> unat sz" "unat sz \<le> max 32 (unat req + 11)"
proof -
  let ?i = "ALIGN_UP (req + 4) 8"
  have u: "unat (req + 4 + 7) = unat req + 11" using assms by (simp add: unat_add_small)
  have i: "unat ?i = (unat req + 11) div 8 * 8"
    unfolding ALIGN_UP_def using unat_and_not_7 [of "req + 4 + 7"] u by (simp add: add.assoc)
  have g: "\<not> req > - 1 - 4" using assms by (simp add: word_less_unat)
  let ?sz = "if ?i < 32 then 32 else ?i"
  have "(unat req + 11) div 8 \<le> 0xF8000007 div 8" using assms by (intro div_le_mono) simp
  then have "(unat req + 11) div 8 * 8 \<le> 0xF8000000" by simp
  moreover have "unat req + 4 \<le> (unat req + 11) div 8 * 8" by presburger
  ultimately show thesis
    using g i by (intro that [of ?sz]) (auto simp: size_with_canary_def Let_def word_less_unat)
qed

lemma write_tail_canary_heap [simp]:
  "headers (write_tail_canary b s) = headers s" "tlsf_pool (write_tail_canary b s) = tlsf_pool s"
  by (simp_all add: write_tail_canary_def Let_def)

lemma pv_write_tail_canary [simp]: "pv (write_tail_canary b s) = pv s"
  by (simp add: pv_def fun_eq_iff)

lemma canary_room:
  assumes "unat r + 4 \<le> unat z" shows "\<not> r + 4 > (z::u32)"
proof -
  have "unat r + 4 < 4294967296" using assms unat32_lt [of z] by linarith
  then have "unat (r + 4) = unat r + 4" by (simp add: unat_add_small)
  with assms show ?thesis by (simp add: word_less_unat)
qed

lemma canary_bytes: "v = (ucast (ucast (v AND 0xff) :: u8) OR push_bit 8 (ucast (ucast (drop_bit 8 v AND 0xff) :: u8)) OR
   push_bit 16 (ucast (ucast (drop_bit 16 v AND 0xff) :: u8)) OR push_bit 24 (ucast (ucast (drop_bit 24 v AND 0xff) :: u8)))"
  if "v = 0xBAADF00D" for v :: u32
  unfolding that by simp

lemma tail_canary_written:
  assumes "unat (requested_size (pv s b)) + 4 \<le> unat (block_size (pv s b))"
  shows "tail_canary_ok (write_tail_canary b s) b"
    and "bytes (write_tail_canary b s) a \<noteq> bytes s a \<Longrightarrow>
      unat (a - (b + 24 + requested_size (pv s b))) < 4"
proof -
  note r = canary_room [OF assms]
  show "tail_canary_ok (write_tail_canary b s) b"
    using r by (simp add: tail_canary_ok_def write_tail_canary_def Let_def hdr_pv)
  assume "bytes (write_tail_canary b s) a \<noteq> bytes s a"
  then have "a - (b + 24 + requested_size (pv s b)) \<in> {0, 1, 2, 3}"
    using r by (auto simp: write_tail_canary_def Let_def hdr_pv block_to_ptr_def split: if_splits)
  moreover have "q \<in> {0, 1, 2, 3} \<Longrightarrow> unat q < 4" for q :: u32 by auto
  ultimately show "unat (a - (b + 24 + requested_size (pv s b))) < 4" by blast
qed

lemma tail_canary_cong:
  assumes "\<And>i. i < 4 \<Longrightarrow> bytes s' (b + 24 + requested_size (pv s b) + of_nat i) = bytes s (b + 24 + requested_size (pv s b) + of_nat i)"
    and "requested_size (pv s' b) = requested_size (pv s b)" "block_size (pv s' b) = block_size (pv s b)"
  shows "tail_canary_ok s' b = tail_canary_ok s b"
  using assms(1) [of 0] assms(1) [of 1] assms(1) [of 2] assms(1) [of 3] assms(2,3)
  by (simp add: tail_canary_ok_def hdr_pv block_to_ptr_def Let_def)

lemma update_watermarks_simps [simp]:
  "pool_start (update_watermarks t) = pool_start t" "pool_end (update_watermarks t) = pool_end t"
  "used_bytes (update_watermarks t) = used_bytes t" "total_bytes (update_watermarks t) = total_bytes t"
  "blocks (update_watermarks t) = blocks t" "sl_bitmap (update_watermarks t) = sl_bitmap t"
  "fl_bitmap (update_watermarks t) = fl_bitmap t"
  by (simp_all add: update_watermarks_def Let_def)


section \<open>Allocation\<close>

abbreviation mark_used :: "u32 \<Rightarrow> block_header \<Rightarrow> block_header" where
  "mark_used req h \<equiv> (block_set_used h)\<lparr>requested_size := req, magic := BLOCK_MAGIC_USED\<rparr>"

abbreviation account_used :: "addr \<Rightarrow> heap \<Rightarrow> heap" where
  "account_used b s \<equiv> upd_pool (\<lambda>t. t\<lparr>used_bytes := used_bytes t + accounted_block_size s b,
     alloc_count := alloc_count t + 1\<rparr>) s"

lemma tlsf_malloc_eq:
  assumes "req \<noteq> 0" "size_with_canary req = Some sz" "find_suitable_block sz s = b" "b \<noteq> NULL"
  shows "tlsf_malloc req s = (b + 24, upd_pool update_watermarks (account_used b
    (upd_next b block_set_prev_used (write_tail_canary b (upd_hdr b (mark_used req)
      (split_insert b sz (remove_free_block b s)))))))"
  using assms by (simp add: tlsf_malloc_def split_insert_def upd_next_def block_to_ptr_def Let_def
      split: prod.splits option.splits)

lemma heap_inv_used_bound:
  assumes "pool_ok H p e bs" shows "used (allocs H bs) < 2 ^ 32"
  using assms chain_used [of H p bs e] by (simp add: pool_ok_def)

text \<open>The end of an allocation: a block in hand is tagged, guarded and accounted for.\<close>

definition commit :: "addr \<Rightarrow> u32 \<Rightarrow> heap \<Rightarrow> heap" where
  "commit b req s = upd_pool update_watermarks (account_used b
    (upd_next b block_set_prev_used (write_tail_canary b (upd_hdr b (mark_used req) s))))"

lemma commit_simps [simp]:
  "total_bytes (tlsf_pool (commit b req s)) = total_bytes (tlsf_pool s)"
  "pool_start (tlsf_pool (commit b req s)) = pool_start (tlsf_pool s)"
  "pool_end (tlsf_pool (commit b req s)) = pool_end (tlsf_pool s)"
  by (simp_all add: commit_def)

lemma hole_commit:
  assumes h: "hole s {} xs b ys F" and rz: "unat req + 4 \<le> unat (block_size (pv s b))"
    and acct: "unat (used_bytes (tlsf_pool s)) = used (allocs (pv s) xs) + used (allocs (pv s) ys)"
      "total_bytes (tlsf_pool s) = pool_end (tlsf_pool s) - pool_start (tlsf_pool s)"
  shows "heap_inv (commit b req s) (xs @ b # ys) F"
    and "allocs (pv (commit b req s)) (xs @ b # ys) =
      allocs (pv s) xs @ (b, block_size (pv s b), req) # allocs (pv s) ys"
    and "tail_canary_ok (commit b req s) b"
    and "bytes (commit b req s) a \<noteq> bytes s a \<Longrightarrow> unat (a - (b + 24 + req)) < 4"
proof -
  let ?s3 = "upd_hdr b (mark_used req) s" let ?s4 = "write_tail_canary b ?s3"
  let ?s5 = "upd_next b block_set_prev_used ?s4" let ?s6 = "commit b req s"
  have d: "b \<notin> set xs" "b \<notin> set ys" using hole_distinct [OF h] by auto
  have h3: "hole ?s3 {} xs b ys F" by (rule hole_upd [OF h]) simp_all
  have h4: "hole ?s4 {} xs b ys F"
    by (rule hole_cong [OF h3]) (simp_all add: same_lists_def)
  note h5 = hole_upd_next [OF h4, of block_set_prev_used, simplified]
  have h6: "hole ?s6 {} xs b ys F"
    by (rule hole_cong [OF h5(1)]) (simp_all add: same_lists_def commit_def)
  have pvb: "pv ?s6 b = mark_used req (pv s b)" using h5(2) by (simp add: commit_def)
  have al: "allocs (pv ?s6) xs = allocs (pv s) xs" "allocs (pv ?s6) ys = allocs (pv s) ys"
    using h5(3,4) d by (simp_all add: commit_def)
  then show "allocs (pv ?s6) (xs @ b # ys) = allocs (pv s) xs @ (b, block_size (pv s b), req) # allocs (pv s) ys"
    using pvb by simp
  let ?z = "block_size (pv s b)"
  have bound: "unat (used_bytes (tlsf_pool s)) + (unat ?z + 24) < 2 ^ 32"
    using heap_inv_used_bound [OF hole_pool_ok [OF h6]] al pvb acct(1) by simp
  have ub: "used_bytes (tlsf_pool ?s6) = used_bytes (tlsf_pool s) + (?z + 24)"
    using pvb by (simp add: commit_def accounted_block_size_def hdr_pv)
  have z24: "unat (?z + 24) = unat ?z + 24" using bound by (subst unat_add_small) auto
  have "unat (used_bytes (tlsf_pool ?s6)) = used (allocs (pv ?s6) (xs @ b # ys))"
    unfolding ub using bound z24 acct(1) al pvb by (subst unat_add_small) auto
  moreover have "heap_rel ?s6 {} (xs @ b # ys) F"
  proof (rule hole_close_used [OF h6])
    show "ys \<noteq> [] \<Longrightarrow> \<not> block_prev_is_free (pv ?s6 (hd ys))"
      using pv_upd_next [OF h4, of block_set_prev_used] by (simp add: commit_def)
  qed (use pvb rz acct(2) in auto)
  ultimately show "heap_inv ?s6 (xs @ b # ys) F" by (simp add: heap_inv_def)
  show "tail_canary_ok ?s6 b"
    using tail_canary_written(1) [of ?s3 b] rz h5(2)
    by (subst tail_canary_cong [of _ _ ?s4]) (simp_all add: commit_def)
  show "bytes ?s6 a \<noteq> bytes s a \<Longrightarrow> unat (a - (b + 24 + req)) < 4"
    using tail_canary_written(2) [of ?s3 b a] rz by (simp add: commit_def)
qed

lemma heap_inv_closedD:
  assumes "heap_inv s bs F"
  shows "closed (pv s) (p0 s) (pe s) {} bs" and "pool_ok (pv s) (p0 s) (pe s) bs"
    and "lists_ok s F" and "free_set F = frees (pv s) bs"
    and "unat (used_bytes (tlsf_pool s)) = used (allocs (pv s) bs)"
    and "total_bytes (tlsf_pool s) = pool_end (tlsf_pool s) - pool_start (tlsf_pool s)"
    and "x \<in> free_set F \<Longrightarrow> 32 \<le> unat (block_size (pv s x)) \<and> x \<noteq> NULL"
proof -
  show c: "closed (pv s) (p0 s) (pe s) {} bs" "lists_ok s F" "free_set F = frees (pv s) bs"
    "unat (used_bytes (tlsf_pool s)) = used (allocs (pv s) bs)"
    "total_bytes (tlsf_pool s) = pool_end (tlsf_pool s) - pool_start (tlsf_pool s)"
    using assms by (auto simp: heap_inv_def heap_rel_def)
  show ok: "pool_ok (pv s) (p0 s) (pe s) bs" using c(1) by (simp add: closed_def)
  show "x \<in> free_set F \<Longrightarrow> 32 \<le> unat (block_size (pv s x)) \<and> x \<noteq> NULL"
    using c(3) pool_okD' [OF ok] by (auto simp: frees_def)
qed

lemma tlsf_malloc_block:
  assumes inv: "heap_inv s bs F" and req: "req \<noteq> 0" "unat req \<le> 0xF7FFFFFC"
    and found: "size_with_canary req = Some sz" "find_suitable_block sz s = b" "b \<noteq> NULL"
  obtains s' bs' F' z as1 as2 where "tlsf_malloc req s = (b + 24, s')" "heap_inv s' bs' F'"
    "allocs (pv s) bs = as1 @ as2" "allocs (pv s') bs' = as1 @ (b, z, req) # as2"
    "unat req + 4 \<le> unat z" "tail_canary_ok s' b" "\<forall>a. bytes s' a \<noteq> bytes s a \<longrightarrow> unat (a - (b + 24 + req)) < 4"
proof -
  have sz: "32 \<le> unat sz" "8 dvd unat sz" "unat sz \<le> 0xF8000000" "unat req + 4 \<le> unat sz"
    using size_with_canary_ok [OF req(2)] found(1) by (metis option.inject)+
  note i = heap_inv_closedD [OF inv]
  have fit: "b \<in> free_set F" "unat sz \<le> unat (block_size (pv s b))"
    using find_suitable_block_fits [OF i(3) _ sz(1,3)] i(7) found(2,3) by auto
  then obtain xs ys where bs: "bs = xs @ b # ys" and bf: "block_is_free (pv s b)"
    using i(4) by (auto simp: frees_def in_set_conv_decomp)
  let ?s1 = "remove_free_block b s"
  note rem = heap_inv_remove [OF inv [unfolded bs] bf]
  have nf: "ys \<noteq> [] \<longrightarrow> \<not> block_is_free (pv ?s1 (hd ys))"
    using i(1) bs bf by (cases ys) (auto simp: closed_def links_append split: if_splits)
  let ?s2 = "split_insert b sz ?s1"
  obtain ys' F' where s2: "hole ?s2 {} xs b ys' F'" "same_acct ?s1 ?s2" "allocs (pv ?s2) xs = allocs (pv ?s1) xs"
    "allocs (pv ?s2) ys' = allocs (pv ?s1) ys" "unat sz \<le> unat (block_size (pv ?s2 b))"
    using split_insert_hole [OF rem(1) nf sz(1-3)] fit(2) by (metis pv_remove_free_block)
  have rz: "unat req + 4 \<le> unat (block_size (pv ?s2 b))" using sz(4) s2(5) by linarith
  note c = hole_commit [OF s2(1) rz]
  have acct: "unat (used_bytes (tlsf_pool ?s2)) = used (allocs (pv ?s2) xs) + used (allocs (pv ?s2) ys')"
    "total_bytes (tlsf_pool ?s2) = pool_end (tlsf_pool ?s2) - pool_start (tlsf_pool ?s2)" "bytes ?s2 = bytes s"
    using s2(2-4) i(5,6) bs bf by (simp_all add: same_acct_def)
  have "tlsf_malloc req s = (b + 24, commit b req ?s2)"
    using tlsf_malloc_eq [OF req(1) found] by (simp add: commit_def)
  then show thesis
    using that c acct s2(3,4) bs bf rz by simp
qed

section \<open>Freeing\<close>

text \<open>What \<open>tlsf_free\<close> and the shrinking \<open>tlsf_realloc\<close> do with a free block in hand.\<close>

definition coalesce_next :: "addr \<Rightarrow> heap \<Rightarrow> heap" where
  "coalesce_next b s = (case merge_next b s of (c, s) \<Rightarrow> upd_next c (tell_rest c) (insert_free_block c s))"

lemma coalesce_next_inv:
  assumes h: "hole s R xs b ys F"
    and b: "block_is_free (pv s b)" "magic (pv s b) = BLOCK_MAGIC_FREE" "\<not> block_prev_is_free (pv s b)"
    and u: "total_bytes (tlsf_pool s) = pool_end (tlsf_pool s) - pool_start (tlsf_pool s)"
  obtains bs F' where "heap_rel (coalesce_next b s) R bs F'"
    "allocs (pv (coalesce_next b s)) bs = allocs (pv s) xs @ allocs (pv s) ys" "same_acct s (coalesce_next b s)"
proof -
  note result = that
  have fin: thesis if m: "merge_next b s = (b, s')" and h': "hole s' R xs b ys' F'"
    and a: "allocs (pv s') xs = allocs (pv s) xs" "allocs (pv s') ys' = allocs (pv s) ys" "same_acct s s'"
    and b': "block_is_free (pv s' b)" "magic (pv s' b) = BLOCK_MAGIC_FREE" "\<not> block_prev_is_free (pv s' b)"
    and n: "ys' \<noteq> [] \<longrightarrow> \<not> block_is_free (pv s' (hd ys'))" for s' ys' F'
  proof -
    have acct: "total_bytes (tlsf_pool s') = pool_end (tlsf_pool s') - pool_start (tlsf_pool s')"
      using u a(3) by (simp add: same_acct_def)
    obtain F'' where i: "heap_rel (coalesce_next b s) R (xs @ b # ys') F''"
      using hole_close_free_next [OF h' b' n acct] m by (auto simp: coalesce_next_def)
    have pv: "pv (coalesce_next b s) = pv (upd_next b (tell_rest b) s')"
      using m by (auto simp: coalesce_next_def upd_next_def block_next_pv)
    have "allocs (pv (coalesce_next b s)) (xs @ b # ys') = allocs (pv s) xs @ allocs (pv s) ys"
      using hole_upd_next [OF h', of "tell_rest b"] a b'(1) unfolding pv by simp
    moreover have "same_acct s (coalesce_next b s)"
      using a(3) m by (simp add: coalesce_next_def same_acct_def)
    ultimately show thesis using result i by blast
  qed
  show thesis
  proof (cases "ys \<noteq> [] \<and> block_is_free (pv s (hd ys))")
    case False
    then show thesis using fin [OF merge_next_none [OF h] h] b by auto
  next
    case True
    then obtain n zs where ys: "ys = n # zs" "block_is_free (pv s n)" by (cases ys) auto
    show thesis
    proof (rule merge_next_hole [OF h [unfolded ys(1)] ys(2)])
      fix s' assume "merge_next b s = (b, s')" "hole s' R xs b zs (del_free n F)"
        "allocs (pv s') xs = allocs (pv s) xs" "allocs (pv s') zs = allocs (pv s) (n # zs)" "same_acct s s'"
        "block_is_free (pv s' b) = block_is_free (pv s b)" "magic (pv s' b) = magic (pv s b)"
        "block_prev_is_free (pv s' b) = block_prev_is_free (pv s b)"
        "zs \<noteq> [] \<longrightarrow> \<not> block_is_free (pv s' (hd zs))"
      then show thesis using fin [of s' zs "del_free n F"] b ys by simp
    qed
  qed
qed

abbreviation mark_free :: "block_header \<Rightarrow> block_header" where
  "mark_free h \<equiv> (block_set_free h)\<lparr>requested_size := 0, magic := BLOCK_MAGIC_FREE\<rparr>"

lemma phys_upd_marks [simp]: "phys_upd mark_free" "phys_upd (\<lambda>h. h\<lparr>requested_size := r, magic := m\<rparr>)"
  by (simp_all add: phys_upd_def ph_def block_set_free_def)

definition release_block :: "addr \<Rightarrow> heap \<Rightarrow> heap" where
  "release_block b s = upd_hdr b mark_free (upd_pool (\<lambda>t. t\<lparr>used_bytes := used_bytes t - accounted_block_size s b,
     free_count := free_count t + 1\<rparr>) (if \<not> tail_canary_ok s b then count_canary_fail s else s))"

lemma count_simps [simp]:
  "headers (count_canary_fail s) = headers s" "bytes (count_canary_fail s) = bytes s"
  "headers (count_invalid_free s) = headers s" "bytes (count_invalid_free s) = bytes s"
  "headers (count_alloc_fail s) = headers s" "bytes (count_alloc_fail s) = bytes s"
  by (simp_all add: count_canary_fail_def count_invalid_free_def count_alloc_fail_def)

lemma tlsf_free_eq:
  assumes "p = b + 24" "p \<noteq> NULL" "\<not> rejects s b"
  shows "tlsf_free p s = (case merge_prev b (release_block b s) of (c, s) \<Rightarrow> coalesce_next c s)"
proof -
  have a: "accounted_block_size (count_canary_fail s) b = accounted_block_size s b"
    by (simp add: accounted_block_size_def)
  show ?thesis
    using assms by (simp add: tlsf_free_def ptr_to_block_def release_block_def coalesce_next_def upd_next_def a Let_def
      split: prod.splits)
qed

lemma alloc_split:
  assumes "(b, z, r) \<in> set (allocs H bs)" and "distinct bs"
  obtains xs ys where "bs = xs @ b # ys" "\<not> block_is_free (H b)" "z = block_size (H b)" "r = requested_size (H b)"
    "allocs H bs = allocs H xs @ (b, z, r) # allocs H ys"
proof -
  have "b \<in> set bs \<and> \<not> block_is_free (H b) \<and> z = block_size (H b) \<and> r = requested_size (H b)"
    using assms(1) by (induction bs) (auto split: if_splits)
  moreover then obtain xs ys where "bs = xs @ b # ys" by (meson split_list)
  ultimately show thesis using that by auto
qed

lemma heap_inv_valid:
  assumes inv: "heap_inv s bs F" and b: "b \<in> set bs"
  shows "block_header_valid s b" and "b + 24 \<noteq> NULL" and "b + 24 + block_size (pv s b) \<le> pool_end (tlsf_pool s)"
    and "rejects s b \<longleftrightarrow> block_is_free (pv s b)"
proof -
  note i = heap_inv_closedD [OF inv]
  note d = pool_okD' [OF i(2) b]
  obtain xs ys where bs: "bs = xs @ b # ys" using b by (meson split_list)
  have e: "unat (b + 24 + block_size (pv s b)) = unat b + 24 + unat (block_size (pv s b))"
    using pool_ok_next(1) i(2) bs by blast
  have "unat b + 24 < 4294967296" using d(4) unat32_lt [of "pool_end (tlsf_pool s)"] by linarith
  then have b24: "unat (b + 24) = unat b + 24" by (simp add: unat_add_small)
  show "b + 24 \<noteq> NULL" using b24 by (metis add_is_0 unat_0 zero_neq_numeral)
  show le: "b + 24 + block_size (pv s b) \<le> pool_end (tlsf_pool s)"
    using e d(4) by (simp add: word_le_unat)
  have "unat (b AND 7) = 0" using d(6) by (simp add: unat_and_7)
  then have "b AND 7 = 0" by (simp add: unat_eq_0)
  moreover have tag: "tag_ok {} (pv s b) b" using i(1) b by (simp add: closed_def tags_def)
  ultimately show v: "block_header_valid s b"
    using d le by (auto simp: block_header_valid_def ptr_in_pool_def hdr_pv word_le_unat word_less_unat tag_ok_def split: if_splits)
  show "rejects s b \<longleftrightarrow> block_is_free (pv s b)"
    using v tag by (auto simp: rejects_def hdr_pv tag_ok_def split: if_splits)
qed

lemma tlsf_free_block:
  assumes inv: "heap_inv s bs F" and b: "(b, z, r) \<in> set (allocs (pv s) bs)"
  obtains bs' F' as1 as2 where "heap_inv (tlsf_free (b + 24) s) bs' F'"
    "allocs (pv s) bs = as1 @ (b, z, r) # as2" "allocs (pv (tlsf_free (b + 24) s)) bs' = as1 @ as2"
    "bytes (tlsf_free (b + 24) s) = bytes s"
proof -
  note result = that
  note i = heap_inv_closedD [OF inv]
  obtain xs ys where bs: "bs = xs @ b # ys" and bu: "\<not> block_is_free (pv s b)" and z: "z = block_size (pv s b)"
    and as: "allocs (pv s) bs = allocs (pv s) xs @ (b, z, r) # allocs (pv s) ys"
    by (rule alloc_split [OF b chain_distinct]) (use i(2) in \<open>auto simp: pool_ok_def\<close>)
  have bin: "b \<in> set bs" using bs by simp
  note v = heap_inv_valid [OF inv bin]
  let ?s = "release_block b s"
  have h0: "hole s {} xs b ys F" using heap_inv_open inv bs bu by simp
  let ?s1 = "upd_pool (\<lambda>t. t\<lparr>used_bytes := used_bytes t - accounted_block_size s b,
     free_count := free_count t + 1\<rparr>) (if \<not> tail_canary_ok s b then count_canary_fail s else s)"
  have h1: "hole ?s1 {} xs b ys F"
    by (rule hole_cong [OF h0]) (simp_all add: same_lists_def count_canary_fail_def)
  have pv1: "pv ?s1 = pv s" by (simp add: pv_def fun_eq_iff)
  have h: "hole ?s {} xs b ys F"
    unfolding release_block_def by (rule hole_upd [OF h1]) simp_all
  have pvs: "pv ?s = (pv s)(b := mark_free (pv s b))" unfolding release_block_def using pv1 by simp
  have d: "b \<notin> set xs" "b \<notin> set ys" using hole_distinct [OF h] by auto
  have z24: "unat (z + 24) = unat z + 24"
    using i(5) as unat32_lt [of "used_bytes (tlsf_pool s)"] by (subst unat_add_small) auto
  have acct: "unat (used_bytes (tlsf_pool ?s)) = used (allocs (pv ?s) xs) + used (allocs (pv ?s) ys)"
    "total_bytes (tlsf_pool ?s) = pool_end (tlsf_pool ?s) - pool_start (tlsf_pool ?s)"
    using i(5,6) as d z z24 unfolding pvs
    by (simp_all add: release_block_def count_canary_fail_def accounted_block_size_def hdr_pv unat_sub word_le_unat)
  have byt: "bytes ?s = bytes s" by (simp add: release_block_def)
  have goal: thesis if "tlsf_free (b + 24) s = coalesce_next c s'" "hole s' {} xs' c ys F'"
    "allocs (pv s') xs' = allocs (pv ?s) xs" "allocs (pv s') ys = allocs (pv ?s) ys" "same_acct ?s s'"
    "block_is_free (pv s' c)" "magic (pv s' c) = BLOCK_MAGIC_FREE" "\<not> block_prev_is_free (pv s' c)" for c s' xs' F'
  proof -
    have "total_bytes (tlsf_pool s') = pool_end (tlsf_pool s') - pool_start (tlsf_pool s')"
      using acct(2) that(5) by (simp add: same_acct_def)
    from coalesce_next_inv [OF that(2,6-8) this]
    obtain bs' F'' where "heap_rel (coalesce_next c s') {} bs' F''"
      "allocs (pv (coalesce_next c s')) bs' = allocs (pv s') xs' @ allocs (pv s') ys" "same_acct s' (coalesce_next c s')"
      by metis
    then show thesis
      using result [of bs' F'' "allocs (pv s) xs" "allocs (pv s) ys"] as that(1,3,4,5) pvs d byt acct(1)
      by (simp add: same_acct_def heap_inv_def)
  qed
  have eq: "tlsf_free (b + 24) s = (case merge_prev b ?s of (c, s) \<Rightarrow> coalesce_next c s)"
    using tlsf_free_eq v bu by simp
  show thesis
  proof (cases "block_prev_is_free (pv ?s b)")
    case False
    then have "merge_prev b ?s = (b, ?s)" by (simp add: merge_prev_def hdr_pv)
    with eq h False show thesis by (intro goal [of b ?s xs F]) (simp_all add: pvs)
  next
    case True
    show thesis
    proof (rule merge_prev_hole [OF h True])
      fix xs' c s' assume "merge_prev b ?s = (c, s')" "hole s' {} xs' c ys (del_free c F)"
        "allocs (pv s') xs' = allocs (pv ?s) xs" "allocs (pv s') ys = allocs (pv ?s) ys" "same_acct ?s s'"
        "block_is_free (pv s' c)" "magic (pv s' c) = BLOCK_MAGIC_FREE" "\<not> block_prev_is_free (pv s' c)"
      then show thesis using eq goal [of c s' xs' "del_free c F"] by simp
    qed
  qed
qed

end
