(* ===== verification/Tlsf_Resize.thy ===== *)
theory Tlsf_Resize
  imports Tlsf_Ops
begin

text \<open>
  The two in-place branches of \<open>tlsf_realloc\<close>: giving back the end of a block, and growing into
  a free successor.
\<close>

section \<open>Resizing in place\<close>

abbreviation retag :: "u32 \<Rightarrow> block_header \<Rightarrow> block_header" where
  "retag req h \<equiv> h\<lparr>requested_size := req, magic := BLOCK_MAGIC_USED\<rparr>"

lemma heap_rel_distinct: "heap_rel s R bs F \<Longrightarrow> distinct bs"
  by (auto simp: heap_rel_def closed_def pool_ok_def dest: chain_distinct)

lemma heap_rel_cong:
  assumes "heap_rel s R bs F" and "headers s' = headers s" "same_lists s s'"
    "pool_start (tlsf_pool s') = pool_start (tlsf_pool s)" "pool_end (tlsf_pool s') = pool_end (tlsf_pool s)"
    "total_bytes (tlsf_pool s') = total_bytes (tlsf_pool s)"
  shows "heap_rel s' R bs F"
proof -
  have "pv s' = pv s" using assms(2) by (simp add: pv_def fun_eq_iff)
  with assms lists_ok_frame [of s F s'] show ?thesis by (simp add: heap_rel_def)
qed

lemma split_first:
  "as @ x # bs = cs @ x # ds \<Longrightarrow> x \<notin> set as \<Longrightarrow> x \<notin> set cs \<Longrightarrow> as = cs \<and> bs = ds"
  by (induction as arbitrary: cs) (case_tac cs; auto)+

lemma heap_rel_weaken: "heap_rel s {} bs F \<Longrightarrow> heap_rel s R bs F"
  by (auto simp: heap_rel_def closed_def tags_def tag_ok_def)

lemma heap_rel_retag:
  assumes r: "heap_rel s {b} bs F" and a: "allocs (pv s) bs = as1 @ (b, z, r) # as2" "b \<notin> fst ` set as1"
    and req: "unat req + 4 \<le> unat z"
  defines "s' \<equiv> write_tail_canary b (upd_hdr b (retag req) s)"
  shows "heap_rel s' {} bs F" "allocs (pv s') bs = as1 @ (b, z, req) # as2" "tail_canary_ok s' b"
    "bytes s' a \<noteq> bytes s a \<Longrightarrow> unat (a - (b + 24 + req)) < 4" "block_size (pv s' b) = z" "tlsf_pool s' = tlsf_pool s"
proof -
  have d: "distinct bs" by (rule heap_rel_distinct [OF r])
  have in1: "(b, z, r) \<in> set (allocs (pv s) bs)" using a by simp
  obtain xs ys where bs: "bs = xs @ b # ys" "\<not> block_is_free (pv s b)" "z = block_size (pv s b)"
    "r = requested_size (pv s b)" "allocs (pv s) bs = allocs (pv s) xs @ (b, z, r) # allocs (pv s) ys"
    by (rule alloc_split [OF in1 d])
  have notin: "b \<notin> set xs" "b \<notin> set ys" using d bs(1) by auto
  have addr: "fst ` set (allocs (pv s) vs) \<subseteq> set vs" for vs by (induction vs) auto
  have as: "allocs (pv s) xs = as1" "allocs (pv s) ys = as2"
  proof -
    have "as1 @ (b, z, r) # as2 = allocs (pv s) xs @ (b, z, r) # allocs (pv s) ys" using a bs(5) by simp
    moreover have "(b, z, r) \<notin> set as1" "(b, z, r) \<notin> set (allocs (pv s) xs)"
      using a(2) addr [of xs] notin(1) by force+
    ultimately show "allocs (pv s) xs = as1" "allocs (pv s) ys = as2"
      using split_first by metis+
  qed
  have pvs: "pv s' = (pv s)(b := retag req (pv s b))" by (simp add: s'_def)
  have size: "block_size (pv s' x) = block_size (pv s x)" for x by (simp add: pvs)
  have c: "closed (pv s) (p0 s) (pe s) {b} bs" using r by (simp add: heap_rel_def)
  have "chain (pv s') (p0 s) bs (pe s) = chain (pv s) (p0 s) bs (pe s)" by (rule chain_cong) (simp add: size)
  moreover have "links (pv s') pf pb vs = links (pv s) pf pb vs" for pf pb vs
    by (induction vs arbitrary: pf pb) (auto simp: pvs)
  moreover have "tags {} (pv s') bs"
    using c bs req by (auto simp: closed_def tags_def tag_ok_def pvs)
  ultimately have "closed (pv s') (p0 s) (pe s) {} bs" using c by (simp add: closed_def pool_ok_def)
  moreover have "lists_ok s' F"
  proof -
    have "lists_ok (upd_hdr b (retag req) s) F"
      by (rule lists_ok_upd_hdr) (use r in \<open>simp_all add: heap_rel_def\<close>)
    then show ?thesis by (rule lists_ok_frame) (simp_all add: s'_def same_lists_def)
  qed
  moreover have "frees (pv s') bs = frees (pv s) bs" by (auto simp: frees_def pvs)
  ultimately show "heap_rel s' {} bs F" using r by (simp add: heap_rel_def s'_def)
  show "allocs (pv s') bs = as1 @ (b, z, req) # as2"
    using bs notin as by (simp add: pvs)
  show "block_size (pv s' b) = z" "tlsf_pool s' = tlsf_pool s" using bs by (simp_all add: size s'_def)
  show "tail_canary_ok s' b"
    unfolding s'_def using req bs by (intro tail_canary_written) simp
  show "bytes s' a \<noteq> bytes s a \<Longrightarrow> unat (a - (b + 24 + req)) < 4"
    using tail_canary_written(2) [of "upd_hdr b (retag req) s" b a] req bs by (simp add: s'_def)
qed

lemma allocs_notin: "distinct (xs @ b # ys) \<Longrightarrow> b \<notin> fst ` set (allocs H xs)"
proof -
  have "fst ` set (allocs H vs) \<subseteq> set vs" for vs by (induction vs) auto
  then show "distinct (xs @ b # ys) \<Longrightarrow> b \<notin> fst ` set (allocs H xs)" by fastforce
qed

text \<open>Shrinking: what is left of the block after a split goes back to the free lists.\<close>

lemma shrink_split:
  assumes h: "hole s {} xs b ys F" and u: "\<not> block_is_free (pv s b)" "magic (pv s b) = BLOCK_MAGIC_USED"
    and sz: "32 \<le> unat sz" "8 dvd unat sz" "unat sz \<le> 0xF8000000" "unat sz + 56 \<le> unat (block_size (pv s b))"
    and tot: "total_bytes (tlsf_pool s) = pool_end (tlsf_pool s) - pool_start (tlsf_pool s)"
  obtains r s1 bs F' where "split_block b sz s = (Some r, s1)"
    "heap_rel (coalesce_next r (upd_hdr r block_set_free s1)) {b} bs F'"
    "allocs (pv (coalesce_next r (upd_hdr r block_set_free s1))) bs =
       allocs (pv s) xs @ (b, sz, requested_size (pv s b)) # allocs (pv s) ys"
    "same_acct s (coalesce_next r (upd_hdr r block_set_free s1))"
proof -
  let ?r = "b + 24 + sz" and ?z = "block_size (pv s b) - sz - 24"
  let ?t = "upd_next b (tell_rest ?r) s"
  obtain s1 where s1: "split_block b sz s = (Some ?r, s1)" "lists_ok s1 F" "same_acct s s1"
    "pv s1 = (pv ?t)(?r := rest_hdr b ?z (pv s ?r), b := block_set_size sz (pv s b))"
    "?r \<notin> set (xs @ b # ys)" "unat ?z = unat (block_size (pv s b)) - unat sz - 24" "8 dvd unat ?z" "4 dvd unat sz"
    using split_block_hole [OF h sz] by metis
  have z4: "4 dvd unat ?z" using s1(7) dvd_trans [of "4::nat" 8] by simp
  note n = hole_upd_next [OF h, of "tell_rest ?r", simplified]
  have d: "distinct (xs @ b # ys)" by (rule hole_distinct [OF h])
  have "in_hand (pv s1) (p0 s) (pe s) (insert b {}) (xs @ [b]) ?r ys"
    unfolding s1(4)
    by (rule in_hand_split_used) (use n u sz s1(6,8) z4 in \<open>auto simp: hole_def\<close>)
  moreover have "free_set F = frees (pv s1) ((xs @ [b]) @ ys)"
    using n(1) s1(5,8) d u by (auto simp: hole_def s1(4) frees_def)
  ultimately have h1: "hole s1 {b} (xs @ [b]) ?r ys F"
    using s1(2,3) by (simp add: hole_def same_acct_def)
  let ?s2 = "upd_hdr ?r block_set_free s1"
  have h2: "hole ?s2 {b} (xs @ [b]) ?r ys F" by (rule hole_upd [OF h1]) simp_all
  have r: "block_is_free (pv ?s2 ?r)" "magic (pv ?s2 ?r) = BLOCK_MAGIC_FREE" "\<not> block_prev_is_free (pv ?s2 ?r)"
    using s1(5) by (simp_all add: s1(4))
  have al: "allocs (pv ?s2) (xs @ [b]) = allocs (pv s) xs @ [(b, sz, requested_size (pv s b))]"
    "allocs (pv ?s2) ys = allocs (pv s) ys"
    using s1(5,8) d u n by (simp_all add: s1(4))
  have "total_bytes (tlsf_pool ?s2) = pool_end (tlsf_pool ?s2) - pool_start (tlsf_pool ?s2)"
    using tot s1(3) by (simp add: same_acct_def)
  from coalesce_next_inv [OF h2 r this]
  obtain bs F' where "heap_rel (coalesce_next ?r ?s2) {b} bs F'"
    "allocs (pv (coalesce_next ?r ?s2)) bs = allocs (pv ?s2) (xs @ [b]) @ allocs (pv ?s2) ys"
    "same_acct ?s2 (coalesce_next ?r ?s2)" by metis
  then show thesis using that [of ?r s1 bs F'] s1(1,3) al by (simp add: same_acct_def)
qed


lemma heap_inv_set_used:
  assumes "heap_rel s {} bs F" "unat u = used (allocs (pv s) bs)" "used_bytes (f (tlsf_pool s)) = u"
    "\<And>t. pool_start (f t) = pool_start t \<and> pool_end (f t) = pool_end t \<and> total_bytes (f t) = total_bytes t \<and>
       blocks (f t) = blocks t \<and> sl_bitmap (f t) = sl_bitmap t \<and> fl_bitmap (f t) = fl_bitmap t"
  shows "heap_inv (upd_pool f s) bs F"
proof -
  have "heap_rel (upd_pool f s) {} bs F"
    by (rule heap_rel_cong [OF assms(1)]) (use assms(4) in \<open>auto simp: same_lists_def\<close>)
  with assms(2,3) show ?thesis by (simp add: heap_inv_def)
qed

lemma retag_account:
  assumes m: "heap_rel m {b} bs F" "allocs (pv m) bs = as1 @ (b, z, r) # as2" "b \<notin> fst ` set as1"
    and rz: "unat req + 4 \<le> unat z"
    and f: "unat (used_bytes (f (tlsf_pool m))) = used (as1 @ (b, z, r) # as2)"
      "\<And>t. pool_start (f t) = pool_start t \<and> pool_end (f t) = pool_end t \<and> total_bytes (f t) = total_bytes t \<and>
       blocks (f t) = blocks t \<and> sl_bitmap (f t) = sl_bitmap t \<and> fl_bitmap (f t) = fl_bitmap t"
  defines "s' \<equiv> upd_pool f (write_tail_canary b (upd_hdr b (retag req) m))"
  shows "heap_inv s' bs F \<and> allocs (pv s') bs = as1 @ (b, z, req) # as2 \<and> tail_canary_ok s' b \<and>
    (\<forall>a. bytes s' a \<noteq> bytes m a \<longrightarrow> unat (a - (b + 24 + req)) < 4)"
proof -
  let ?t = "write_tail_canary b (upd_hdr b (retag req) m)"
  note t = heap_rel_retag [OF m rz]
  have "heap_inv s' bs F"
    unfolding s'_def by (rule heap_inv_set_used [OF t(1)]) (use f t(2,6) in simp_all)
  moreover have "tail_canary_ok s' b" using t(3) unfolding s'_def by (subst tail_canary_cong) simp_all
  ultimately show ?thesis using t(2,4) by (simp add: s'_def)
qed

text \<open>What both in-place branches of \<open>tlsf_realloc\<close> promise.\<close>

definition resized :: "heap \<Rightarrow> addr list \<Rightarrow> addr \<Rightarrow> u32 \<Rightarrow> u32 \<Rightarrow> u32 \<Rightarrow> heap \<Rightarrow> bool" where
  "resized s bs b z r req s' \<longleftrightarrow> (\<exists>bs' F' z' as1 as2. heap_inv s' bs' F' \<and>
     allocs (pv s) bs = as1 @ (b, z, r) # as2 \<and> allocs (pv s') bs' = as1 @ (b, z', req) # as2 \<and>
     unat req + 4 \<le> unat z' \<and> tail_canary_ok s' b \<and>
     (\<forall>a. bytes s' a \<noteq> bytes s a \<longrightarrow> unat (a - (b + 24 + req)) < 4))"

text \<open>An allocated block and its surroundings.\<close>

lemma heap_inv_alloc:
  assumes inv: "heap_inv s bs F" and b: "(b, z, r) \<in> set (allocs (pv s) bs)"
  obtains xs ys where "bs = xs @ b # ys" "\<not> block_is_free (pv s b)" "z = block_size (pv s b)"
    "r = requested_size (pv s b)" "allocs (pv s) bs = allocs (pv s) xs @ (b, z, r) # allocs (pv s) ys"
    "b \<notin> fst ` set (allocs (pv s) xs)" "magic (pv s b) = BLOCK_MAGIC_USED" "hole s {} xs b ys F"
    "unat r + 4 \<le> unat z" "unat z + 24 < 2 ^ 32"
proof -
  note i = heap_inv_closedD [OF inv]
  have dist: "distinct bs" using i(2) by (auto simp: pool_ok_def dest: chain_distinct)
  show thesis
  proof (rule alloc_split [OF b dist])
    fix xs ys assume a: "bs = xs @ b # ys" "\<not> block_is_free (pv s b)" "z = block_size (pv s b)"
      "r = requested_size (pv s b)" "allocs (pv s) bs = allocs (pv s) xs @ (b, z, r) # allocs (pv s) ys"
    have "tag_ok {} (pv s b) b" using i(1) a(1) by (simp add: closed_def)
    with a have t: "magic (pv s b) = BLOCK_MAGIC_USED" "unat r + 4 \<le> unat z" by (auto simp: tag_ok_def)
    have "unat z + 24 < 2 ^ 32"
      using i(5) a(5) unat32_lt [of "used_bytes (tlsf_pool s)"] by simp
    then show thesis
      using a t allocs_notin [of xs b ys "pv s"] dist heap_inv_open [of s xs b ys F] inv by (intro that) auto
  qed
qed

lemma realloc_shrink_block:
  assumes inv: "heap_inv s bs F" and b: "(b, z, r) \<in> set (allocs (pv s) bs)"
    and req: "unat req \<le> 0xF7FFFFFC" "size_with_canary req = Some sz" "unat sz \<le> unat z"
  shows "resized s bs b z r req (realloc_shrink b req sz (accounted_block_size s b) s)"
proof (rule heap_inv_alloc [OF inv b])
  fix xs ys assume bs: "bs = xs @ b # ys" "\<not> block_is_free (pv s b)" "z = block_size (pv s b)"
    "r = requested_size (pv s b)" "allocs (pv s) bs = allocs (pv s) xs @ (b, z, r) # allocs (pv s) ys"
    "b \<notin> fst ` set (allocs (pv s) xs)" "magic (pv s b) = BLOCK_MAGIC_USED" "hole s {} xs b ys F"
    "unat r + 4 \<le> unat z" "unat z + 24 < 2 ^ 32"
  note i = heap_inv_closedD [OF inv]
  let ?s' = "realloc_shrink b req sz (accounted_block_size s b) s"
  let ?t = "\<lambda>m. write_tail_canary b (upd_hdr b (retag req) m)"
  let ?acc = "\<lambda>m. if accounted_block_size s b \<ge> accounted_block_size (?t m) b
      then upd_pool (\<lambda>p. p\<lparr>used_bytes := used_bytes p - (accounted_block_size s b - accounted_block_size (?t m) b)\<rparr>) (?t m) else ?t m"
  have sz: "32 \<le> unat sz" "8 dvd unat sz" "unat sz \<le> 0xF8000000" "unat req + 4 \<le> unat sz"
    using size_with_canary_ok [OF req(1)] req(2) by (metis option.inject)+
  have fin: ?thesis if m: "heap_rel m {b} bs' F'" "allocs (pv m) bs' = allocs (pv s) xs @ (b, z', r) # allocs (pv s) ys"
    and s: "same_acct s m" "unat sz \<le> unat z'" "unat z' \<le> unat z" and eq: "?s' = ?acc m" for m bs' F' z'
  proof -
    have rz: "unat req + 4 \<le> unat z'" using sz(4) s(2) by linarith
    have acc: "accounted_block_size s b = z + 24" "accounted_block_size (?t m) b = z' + 24"
      using bs(3) heap_rel_retag(5) [OF m bs(6) rz] by (simp_all add: accounted_block_size_def hdr_pv)
    have le: "z' + 24 \<le> z + 24" using s(3) bs(10) by (simp add: word_le_unat unat_add_small)
    let ?f = "\<lambda>p. p\<lparr>used_bytes := used_bytes p - (z - z')\<rparr>"
    have s': "?s' = upd_pool ?f (?t m)" using eq le by (simp add: acc)
    have "unat (used_bytes (tlsf_pool m) - (z - z')) = used (allocs (pv s) xs @ (b, z', r) # allocs (pv s) ys)"
      using i(5) bs(5) s by (simp add: unat_sub word_le_unat same_acct_def)
    from retag_account [OF m bs(6) rz, of ?f] this s' s(1) bs(5) rz show ?thesis
      by (simp add: resized_def same_acct_def) blast
  qed
  show ?thesis
  proof (cases "unat sz + 56 \<le> unat (block_size (pv s b))")
    case False
    then have "split_block b sz s = (None, s)" using split_block_none [OF sz(3)] by simp
    moreover have "heap_rel s {b} bs F"
      using inv by (simp add: heap_inv_def heap_rel_weaken)
    ultimately show ?thesis using bs(5) req(3)
      by (intro fin [of s bs F z]) (simp_all add: realloc_shrink_def Let_def)
  next
    case True
    show ?thesis
    proof (rule shrink_split [OF bs(8,2,7) sz(1-3) True i(6)])
      fix rr s1 bs' F' assume a: "split_block b sz s = (Some rr, s1)"
        "heap_rel (coalesce_next rr (upd_hdr rr block_set_free s1)) {b} bs' F'"
        "allocs (pv (coalesce_next rr (upd_hdr rr block_set_free s1))) bs' =
          allocs (pv s) xs @ (b, sz, requested_size (pv s b)) # allocs (pv s) ys"
        "same_acct s (coalesce_next rr (upd_hdr rr block_set_free s1))"
      have "?s' = ?acc (coalesce_next rr (upd_hdr rr block_set_free s1))"
        using a(1) by (simp add: realloc_shrink_def coalesce_next_def upd_next_def Let_def split: prod.splits)
      with a bs(4) req(3) show ?thesis by (intro fin) auto
    qed
  qed
qed

section \<open>Growing into the next block\<close>

lemma realloc_expand_eq:
  "realloc_expand b n c req sz old s = (let t = write_tail_canary b (upd_hdr b (retag req)
     (upd_next b (\<lambda>h. block_set_prev_used (h\<lparr>prev_phys := b\<rparr>))
       (split_insert b sz (upd_hdr b (block_set_size c) (remove_free_block n s)))))
   in upd_pool (\<lambda>p. update_watermarks (p\<lparr>used_bytes := used_bytes p + (accounted_block_size t b - old)\<rparr>)) t)"
  by (simp add: realloc_expand_def split_insert_def upd_next_def Let_def split: prod.splits)

lemma realloc_expand_block:
  assumes inv: "heap_inv s bs F" and b: "(b, z, r) \<in> set (allocs (pv s) bs)"
    and req: "unat req \<le> 0xF7FFFFFC" "size_with_canary req = Some sz"
    and n: "n = block_next s b" "n < pool_end (tlsf_pool s)" "block_is_free (headers s n)"
      "sz \<le> z + 24 + block_size (headers s n)" "unat z < unat sz"
  shows "resized s bs b z r req
    (realloc_expand b n (z + 24 + block_size (headers s n)) req sz (accounted_block_size s b) s)"
proof (rule heap_inv_alloc [OF inv b])
  fix xs ys assume bs: "bs = xs @ b # ys" "\<not> block_is_free (pv s b)" "z = block_size (pv s b)"
    "r = requested_size (pv s b)" "allocs (pv s) bs = allocs (pv s) xs @ (b, z, r) # allocs (pv s) ys"
    "b \<notin> fst ` set (allocs (pv s) xs)" "magic (pv s b) = BLOCK_MAGIC_USED" "hole s {} xs b ys F"
    "unat r + 4 \<le> unat z" "unat z + 24 < 2 ^ 32"
  note i = heap_inv_closedD [OF inv]
  have sz: "32 \<le> unat sz" "8 dvd unat sz" "unat sz \<le> 0xF8000000" "unat req + 4 \<le> unat sz"
    using size_with_canary_ok [OF req(1)] req(2) by (metis option.inject)+
  obtain zs where ys: "ys = n # zs" using hole_next [OF bs(8)] n(1,2) by (cases ys) auto
  have nf: "block_is_free (pv s n)" using n(3) by (simp add: hdr_pv)
  have ok: "pool_ok (pv s) (p0 s) (pe s) (xs @ b # n # zs)" using hole_pool_ok [OF bs(8)] ys by simp
  note m = merged_size [OF ok, folded bs(3)]
  let ?c = "z + 24 + block_size (pv s n)"
  let ?s1 = "upd_hdr b (block_set_size ?c) (remove_free_block n s)"
  note t = absorb_next [OF bs(8) [unfolded ys] nf, folded bs(3)]
  have fit: "unat sz \<le> unat (block_size (pv ?s1 b))" using n(4) m by (simp add: hdr_pv word_le_unat)
  let ?s2 = "split_insert b sz ?s1"
  obtain ys' F' where s2: "hole ?s2 {} xs b ys' F'" "same_acct ?s1 ?s2" "allocs (pv ?s2) xs = allocs (pv ?s1) xs"
    "allocs (pv ?s2) ys' = allocs (pv ?s1) zs" "unat sz \<le> unat (block_size (pv ?s2 b))"
    "\<exists>z. 4 dvd unat z \<and> pv ?s2 b = block_set_size z (pv ?s1 b) \<or> pv ?s2 b = pv ?s1 b"
    using split_insert_hole [OF t(1,4) sz(1-3) fit] by metis
  let ?g = "\<lambda>h. block_set_prev_used (h\<lparr>prev_phys := b\<rparr>)"
  let ?s3 = "upd_next b ?g ?s2" and ?z' = "block_size (pv ?s2 b)"
  note h3 = hole_upd_next [OF s2(1), of ?g, simplified]
  have b3: "\<not> block_is_free (pv ?s3 b)" "magic (pv ?s3 b) = BLOCK_MAGIC_USED" "requested_size (pv ?s3 b) = r"
    using s2(6) bs(2,4,7) m h3(2) by auto
  have rel: "heap_rel ?s3 {b} (xs @ b # ys') F'"
  proof (rule heap_rel_weaken, rule hole_close_used [OF h3(1)])
    show "unat (requested_size (pv ?s3 b)) + 4 \<le> unat (block_size (pv ?s3 b))"
      using b3(3) h3(2) bs(9) n(5) s2(5) by simp
    show "ys' \<noteq> [] \<Longrightarrow> \<not> block_prev_is_free (pv ?s3 (hd ys'))"
      using pv_upd_next [OF s2(1), of ?g] by simp
    show "total_bytes (tlsf_pool ?s3) = pool_end (tlsf_pool ?s3) - pool_start (tlsf_pool ?s3)"
      using s2(2) t(3) i(6) by (simp add: same_acct_def)
  qed (use b3 in simp_all)
  have al: "allocs (pv ?s3) (xs @ b # ys') = allocs (pv s) xs @ (b, ?z', r) # allocs (pv s) ys"
    using h3(2-4) s2(3,4) t(5,6) b3 ys by simp
  have rz: "unat req + 4 \<le> unat ?z'" using sz(4) s2(5) by linarith
  have pool: "pool_ok (pv ?s3) (p0 ?s3) (pe ?s3) (xs @ b # ys')" by (rule hole_pool_ok [OF h3(1)])
  have z24: "unat (?z' + 24) = unat ?z' + 24"
    using heap_inv_used_bound [OF pool] unfolding al by (simp add: unat_add_small)
  let ?t = "write_tail_canary b (upd_hdr b (retag req) ?s3)"
  let ?f = "\<lambda>p. update_watermarks (p\<lparr>used_bytes := used_bytes p + (?z' + 24 - (z + 24))\<rparr>)"
  have d: "unat (?z' - z) = unat ?z' - unat z" using n(5) s2(5) by (simp add: unat_sub word_le_unat)
  have ub: "used_bytes (tlsf_pool ?s3) = used_bytes (tlsf_pool s)" using s2(2) t(3) by (simp add: same_acct_def)
  have "unat (used_bytes (tlsf_pool s) + (?z' - z)) = used (allocs (pv s) xs @ (b, ?z', r) # allocs (pv s) ys)"
    using heap_inv_used_bound [OF pool] i(5) bs(5) d n(5) s2(5) unfolding al by (subst unat_add_small) auto
  then have "unat (used_bytes (?f (tlsf_pool ?s3))) = used (allocs (pv s) xs @ (b, ?z', r) # allocs (pv s) ys)"
    using ub by simp
  from retag_account [OF rel al bs(6) rz, of ?f, OF this]
  have res: "heap_inv (upd_pool ?f ?t) (xs @ b # ys') F'"
    "allocs (pv (upd_pool ?f ?t)) (xs @ b # ys') = allocs (pv s) xs @ (b, ?z', req) # allocs (pv s) ys"
    "tail_canary_ok (upd_pool ?f ?t) b"
    "\<forall>a. bytes (upd_pool ?f ?t) a \<noteq> bytes ?s3 a \<longrightarrow> unat (a - (b + 24 + req)) < 4" by simp_all
  have "accounted_block_size ?t b = ?z' + 24"
    using h3(2) by (simp add: accounted_block_size_def hdr_pv)
  then have eq: "realloc_expand b n (z + 24 + block_size (headers s n)) req sz (accounted_block_size s b) s = upd_pool ?f ?t"
    unfolding realloc_expand_eq Let_def by (simp add: accounted_block_size_def hdr_pv bs(3))
  have byt: "bytes ?s3 = bytes s" using s2(2) t(3) by (simp add: same_acct_def)
  show ?thesis
    unfolding resized_def eq using res [unfolded byt] bs(5) rz by blast
qed

end
