(* ===== verification/Tlsf_Guard.thy ===== *)
theory Tlsf_Guard
  imports Tlsf_Resize
begin

text \<open>
  Allocated blocks are disjoint, so an operation on one leaves the tail canaries of the others
  alone, and so does a user who writes only to bytes it has requested.
\<close>

section \<open>Allocations do not overlap\<close>

lemma chain_disjoint:
  assumes "chain H p bs e" "b \<in> set bs" "c \<in> set bs" "b \<noteq> c"
  shows "unat b + 24 + unat (block_size (H b)) \<le> unat c \<or> unat c + 24 + unat (block_size (H c)) \<le> unat b"
  using assms
proof (induction bs arbitrary: p)
  case (Cons x xs)
  have ch: "unat x = p" "chain H (p + 24 + unat (block_size (H x))) xs e" using Cons.prems(1) by auto
  have "p + 24 + unat (block_size (H x)) \<le> unat y" if "y \<in> set xs" for y
    using chain_mem [OF ch(2) that] by simp
  with Cons ch show ?case by auto
qed simp

lemma allocs_mem: "(b, z, r) \<in> set (allocs H bs) \<longleftrightarrow> b \<in> set bs \<and> \<not> block_is_free (H b) \<and> z = block_size (H b) \<and> r = requested_size (H b)"
  by (induction bs) auto

lemma heap_inv_disjoint:
  assumes inv: "heap_inv s bs F" and a: "(b, z, r) \<in> set (allocs (pv s) bs)" "(c, z', r') \<in> set (allocs (pv s) bs)" "b \<noteq> c"
  shows "unat b + 24 + unat z \<le> unat c \<or> unat c + 24 + unat z' \<le> unat b"
  using heap_inv_closedD(2) [OF inv] chain_disjoint [of "pv s" "p0 s" bs "pe s" b c] a
  by (auto simp: pool_ok_def allocs_mem)

lemma heap_inv_bounds:
  assumes inv: "heap_inv s bs F" and a: "(b, z, r) \<in> set (allocs (pv s) bs)"
  shows "p0 s \<le> unat b" "unat b + 24 + unat z \<le> pe s" "8 dvd unat b" "unat r + 4 \<le> unat z"
    "block_size (pv s b) = z" "requested_size (pv s b) = r" "unat (b + 24) = unat b + 24" "b + 24 \<noteq> NULL"
proof -
  note i = heap_inv_closedD [OF inv]
  have b: "b \<in> set bs" "z = block_size (pv s b)" "r = requested_size (pv s b)" "\<not> block_is_free (pv s b)"
    using a by (auto simp: allocs_mem)
  show le: "p0 s \<le> unat b" "unat b + 24 + unat z \<le> pe s" "8 dvd unat b" using pool_okD' [OF i(2) b(1)] b(2) by auto
  show "block_size (pv s b) = z" "requested_size (pv s b) = r" using b by auto
  show "unat r + 4 \<le> unat z" using i(1) b by (auto simp: closed_def tags_def tag_ok_def)
  show "b + 24 \<noteq> NULL" using heap_inv_valid [OF inv b(1)] by simp
  have "unat b + 24 < 4294967296" using le(2) unat32_lt [of "pool_end (tlsf_pool s)"] by linarith
  then show "unat (b + 24) = unat b + 24" by (simp add: unat_add_small)
qed

text \<open>The address of a byte of a payload.\<close>

lemma payload_addr:
  assumes inv: "heap_inv s bs F" and a: "(b, z, r) \<in> set (allocs (pv s) bs)" and i: "i < unat z"
  shows "unat (b + 24 + of_nat i) = unat b + 24 + i"
proof -
  note d = heap_inv_bounds [OF inv a]
  have "unat b + 24 + i < 4294967296" using d(2) i unat32_lt [of "pool_end (tlsf_pool s)"] by linarith
  then show ?thesis using d(7) unat_add_of_nat [of "b + 24" i] by simp
qed

lemma offset_less_iff:
  fixes a p :: addr
  assumes "unat p + n < 2 ^ 32"
  shows "unat (a - p) < n \<longleftrightarrow> unat p \<le> unat a \<and> unat a < unat p + n"
proof (cases "p \<le> a")
  case True
  then have "unat (a - p) = unat a - unat p" by (rule unat_sub)
  with True show ?thesis by (auto simp: word_le_unat)
next
  case False
  then have "unat a < unat p" by (simp add: word_le_unat)
  moreover have "unat (a - p) = 2 ^ 32 + unat a - unat p"
    using False unat_sub_if_size [of a p] by (simp add: word_size word_le_unat)
  ultimately show ?thesis using assms by auto
qed

definition canaries_ok :: "heap \<Rightarrow> addr list \<Rightarrow> bool" where
  "canaries_ok s bs \<longleftrightarrow> (\<forall>(b, z, r) \<in> set (allocs (pv s) bs). tail_canary_ok s b)"

lemma canaries_okD: "canaries_ok s bs \<Longrightarrow> (b, z, r) \<in> set (allocs (pv s) bs) \<Longrightarrow> tail_canary_ok s b"
  by (auto simp: canaries_ok_def)

lemma canary_frame:
  assumes inv: "heap_inv s' bs' F'" and c: "(c, z', r') \<in> set (allocs (pv s') bs')"
    and same: "block_size (pv s c) = z'" "requested_size (pv s c) = r'"
    and b: "\<And>a. bytes s' a \<noteq> bytes s a \<Longrightarrow> \<not> (unat c + 24 + unat r' \<le> unat a \<and> unat a < unat c + 24 + unat z')"
    and ok: "tail_canary_ok s c"
  shows "tail_canary_ok s' c"
proof -
  note d = heap_inv_bounds [OF inv c]
  have "bytes s' (c + 24 + r' + of_nat i) = bytes s (c + 24 + r' + of_nat i)" if i: "i < 4" for i
  proof -
    have "unat (c + 24 + of_nat (unat r' + i)) = unat c + 24 + (unat r' + i)"
      using payload_addr [OF inv c, of "unat r' + i"] d(4) i by simp
    then have "unat (c + 24 + r' + of_nat i) = unat c + 24 + unat r' + i"
      by (simp add: add.assoc)
    then show ?thesis using b [of "c + 24 + r' + of_nat i"] d(4) i by auto
  qed
  then have "tail_canary_ok s' c = tail_canary_ok s c"
    using d(5,6) same by (intro tail_canary_cong) auto
  with ok show ?thesis by simp
qed


text \<open>The bytes of a block's own canary lie between its requested and its real end.\<close>

lemma canary_zone:
  assumes inv: "heap_inv s bs F" and b: "(b, z, r) \<in> set (allocs (pv s) bs)" and a: "unat (a - (b + 24 + r)) < 4"
  shows "unat b + 24 + unat r \<le> unat a \<and> unat a < unat b + 24 + unat z"
proof -
  note d = heap_inv_bounds [OF inv b]
  have q: "unat (b + 24 + r) = unat b + 24 + unat r"
    using payload_addr [OF inv b, of "unat r"] d(4) by simp
  have "unat (b + 24 + r) + 4 < 4294967296"
    using q d(2,4) unat32_lt [of "pool_end (tlsf_pool s)"] by linarith
  then show ?thesis using a offset_less_iff [of "b + 24 + r" 4 a] q d(4) by auto
qed

lemma canaries_insert:
  assumes inv: "heap_inv s' bs' F'" and ok: "canaries_ok s bs"
    and al: "allocs (pv s') bs' = as1 @ (b, z, req) # as2" "set as1 \<union> set as2 \<subseteq> set (allocs (pv s) bs)"
    and b: "tail_canary_ok s' b" "\<forall>a. bytes s' a \<noteq> bytes s a \<longrightarrow> unat (a - (b + 24 + req)) < 4"
  shows "canaries_ok s' bs'"
proof -
  have bin: "(b, z, req) \<in> set (allocs (pv s') bs')" using al by simp
  have chg: "unat b + 24 \<le> unat a \<and> unat a < unat b + 24 + unat z" if "bytes s' a \<noteq> bytes s a" for a
    using b(2) that canary_zone [OF inv bin, of a] by auto
  have "tail_canary_ok s' c" if c: "(c, z', r') \<in> set (allocs (pv s') bs')" for c z' r'
  proof (cases "c = b")
    case False
    then have "(c, z', r') \<in> set (allocs (pv s) bs)" using c al by auto
    then have "block_size (pv s c) = z'" "requested_size (pv s c) = r'" "tail_canary_ok s c"
      using canaries_okD [OF ok] by (auto simp: allocs_mem)
    then show ?thesis
      using chg heap_inv_disjoint [OF inv bin c] False by (intro canary_frame [OF inv c]) fastforce+
  qed (use b in simp)
  then show ?thesis by (auto simp: canaries_ok_def)
qed

lemma canaries_subset:
  assumes "canaries_ok s bs" "set (allocs (pv s') bs') \<subseteq> set (allocs (pv s) bs)" "bytes s' = bytes s"
  shows "canaries_ok s' bs'"
proof -
  have "tail_canary_ok s' c" if "(c, z, r) \<in> set (allocs (pv s') bs')" for c z r
    using assms that tail_canary_cong [of s' c s] by (fastforce simp: canaries_ok_def allocs_mem)
  then show ?thesis by (auto simp: canaries_ok_def)
qed

text \<open>A well-behaved client writes only to payload bytes it has asked for.\<close>

definition user_write :: "heap \<Rightarrow> addr list \<Rightarrow> mem \<Rightarrow> bool" where
  "user_write s bs m \<longleftrightarrow> (\<forall>a. m a \<noteq> bytes s a \<longrightarrow> (\<exists>(b, z, r) \<in> set (allocs (pv s) bs).
     unat b + 24 \<le> unat a \<and> unat a < unat b + 24 + unat r))"

lemma heap_inv_bytes [simp]: "heap_inv (s\<lparr>bytes := m\<rparr>) bs F = heap_inv s bs F"
proof -
  have "heap_rel t R bs F \<Longrightarrow> heap_rel (t\<lparr>bytes := m'\<rparr>) R bs F" for t m' R
    by (erule heap_rel_cong) (simp_all add: same_lists_def)
  from this [of s "{}" m] this [of "s\<lparr>bytes := m\<rparr>" "{}" "bytes s"] show ?thesis
    by (auto simp: heap_inv_def)
qed

lemma canaries_user:
  assumes inv: "heap_inv s bs F" and ok: "canaries_ok s bs" and w: "user_write s bs m"
  shows "canaries_ok (s\<lparr>bytes := m\<rparr>) bs"
proof -
  let ?s = "s\<lparr>bytes := m\<rparr>"
  have inv': "heap_inv ?s bs F" using inv by simp
  have "tail_canary_ok ?s c" if c: "(c, z', r') \<in> set (allocs (pv ?s) bs)" for c z' r'
  proof (rule canary_frame [OF inv' c])
    have c': "(c, z', r') \<in> set (allocs (pv s) bs)" using c by simp
    show "block_size (pv s c) = z'" "requested_size (pv s c) = r'" using c' by (auto simp: allocs_mem)
    show "tail_canary_ok s c" using canaries_okD [OF ok c'] .
    fix a assume "bytes ?s a \<noteq> bytes s a"
    then obtain b z r where b: "(b, z, r) \<in> set (allocs (pv s) bs)" "unat b + 24 \<le> unat a" "unat a < unat b + 24 + unat r"
      using w by (auto simp: user_write_def)
    then have "unat a < unat b + 24 + unat z" using heap_inv_bounds(4) [OF inv b(1)] by linarith
    moreover have "c = b \<Longrightarrow> r' = r" using b(1) c' by (simp add: allocs_mem)
    ultimately show "\<not> (unat c + 24 + unat r' \<le> unat a \<and> unat a < unat c + 24 + unat z')"
      using heap_inv_disjoint [OF inv b(1) c'] b by fastforce
  qed
  then show ?thesis by (auto simp: canaries_ok_def)
qed

section \<open>Moving and clearing\<close>

lemma memcpy_payload:
  assumes inv: "heap_inv s bs F" and b: "(b, z, r) \<in> set (allocs (pv s) bs)" "(c, z', r') \<in> set (allocs (pv s) bs)" "b \<noteq> c"
    and n: "unat n \<le> unat r" "unat n \<le> unat r'"
  defines "m \<equiv> snd (memcpy (bytes s) (c + 24) (b + 24) n)"
  shows "user_write s bs m" and "i < unat n \<Longrightarrow> m (c + 24 + of_nat i) = bytes s (b + 24 + of_nat i)"
proof -
  note d = heap_inv_bounds [OF inv b(1)] and e = heap_inv_bounds [OF inv b(2)]
  have m: "m a = (if unat (a - (c + 24)) < unat n then bytes s (b + 24 + (a - (c + 24))) else bytes s a)" for a
    unfolding m_def memcpy_def snd_conv
  proof (rule copy_up_apply)
    fix i j assume ij: "i < j" "j < unat n"
    have "unat (c + 24 + of_nat i) = unat c + 24 + i" "unat (b + 24 + of_nat j) = unat b + 24 + j"
      using payload_addr [OF inv b(2), of i] payload_addr [OF inv b(1), of j] ij n d(4) e(4) by auto
    then show "c + 24 + of_nat i \<noteq> b + 24 + of_nat j"
      using heap_inv_disjoint [OF inv b] ij n d(4) e(4) by fastforce
  next
    show "unat n \<le> 2 ^ 32" by (rule less_imp_le) simp
  qed
  have "unat (c + 24) + unat n < 4294967296"
    using e(2,4,7) n unat32_lt [of "pool_end (tlsf_pool s)"] by linarith
  then have lim: "unat (c + 24) + unat n < 2 ^ 32" by simp
  show "user_write s bs m"
    unfolding user_write_def
  proof (intro allI impI)
    fix a assume "m a \<noteq> bytes s a"
    then have "unat (a - (c + 24)) < unat n" by (simp add: m split: if_splits)
    then have "unat c + 24 \<le> unat a \<and> unat a < unat c + 24 + unat r'"
      using offset_less_iff [OF lim] e(7) n by auto
    with b(2) show "\<exists>(b, z, r) \<in> set (allocs (pv s) bs). unat b + 24 \<le> unat a \<and> unat a < unat b + 24 + unat r"
      by blast
  qed
  assume i: "i < unat n"
  have "unat (of_nat i :: u32) = i" by (rule unat_of_nat_small [OF less_trans [OF i unat_less_len]])
  then show "m (c + 24 + of_nat i) = bytes s (b + 24 + of_nat i)" using i by (simp add: m)
qed

lemma memset_payload:
  assumes inv: "heap_inv s bs F" and b: "(b, z, r) \<in> set (allocs (pv s) bs)"
  defines "m \<equiv> snd (memset (bytes s) (b + 24) 0 r)"
  shows "user_write s bs m" and "i < unat r \<Longrightarrow> m (b + 24 + of_nat i) = 0"
proof -
  note d = heap_inv_bounds [OF inv b]
  have m: "m a = (if unat (a - (b + 24)) < unat r then 0 else bytes s a)" for a
    by (simp add: m_def memset_def memset_loop_apply)
  have "unat (b + 24) + unat r < 4294967296"
    using d(2,4,7) unat32_lt [of "pool_end (tlsf_pool s)"] by linarith
  then have lim: "unat (b + 24) + unat r < 2 ^ 32" by simp
  show "user_write s bs m"
    using b offset_less_iff [OF lim] d(7) by (fastforce simp: user_write_def m split: if_splits)
  assume i: "i < unat r"
  have "unat (of_nat i :: u32) = i" by (rule unat_of_nat_small [OF less_trans [OF i unat_less_len]])
  then show "m (b + 24 + of_nat i) = 0" using i by (simp add: m)
qed

end
