(* ===== verification/Tlsf_Inspect.thy ===== *)
theory Tlsf_Inspect
  imports Tlsf_Guard
begin

text \<open>
  \<open>tlsf_init\<close> establishes the invariant, and the walks of \<open>tlsf_check_heap\<close> and
  \<open>tlsf_get_largest_free\<close> over the physical chain return what they mean to.
\<close>

section \<open>Initialisation\<close>

lemma lists_ok_empty:
  "blocks (tlsf_pool s) = (\<lambda>_ _. NULL) \<Longrightarrow> sl_bitmap (tlsf_pool s) = (\<lambda>_. 0) \<Longrightarrow> fl_bitmap (tlsf_pool s) = 0 \<Longrightarrow>
    lists_ok s (\<lambda>_ _. [])"
  by (simp add: lists_ok_def dll_def)

lemma tlsf_init_inv:
  assumes "0 < unat hs" "unat hs + 7 + 88 \<le> unat he"
  obtains b F where "heap_inv (tlsf_init hs he s) [b] F" "allocs (pv (tlsf_init hs he s)) [b] = []"
    "bytes (tlsf_init hs he s) = bytes s" "block_size (pv (tlsf_init hs he s) b) = (he AND NOT 7) - ((hs + 8 - 1) AND NOT 7) - 24"
    "b = (hs + 8 - 1) AND NOT 7"
proof -
  define st where "st = (hs + 8 - 1) AND NOT (7::u32)"
  define e where "e = he AND NOT (7::u32)"
  have he: "unat he < 4294967296" by simp
  have "unat hs + 7 < 4294967296" using assms(2) he by linarith
  then have "unat (hs + 7) = unat hs + 7" by (simp add: unat_add_small)
  then have ust: "unat st = (unat hs + 7) div 8 * 8"
    unfolding st_def using unat_and_not_7 [of "hs + 7"] by (simp add: add.commute)
  have ue: "unat e = unat he div 8 * 8" unfolding e_def by (rule unat_and_not_7)
  have bnd: "0 < unat st" "unat st + 80 \<le> unat e" "8 dvd unat st" "8 dvd unat e"
    using assms div_mult_mod_eq [of "unat hs + 7" 8] div_mult_mod_eq [of "unat he" 8]
      mod_less_divisor [of 8 "unat hs + 7"] mod_less_divisor [of 8 "unat he"]
    unfolding ust ue by (linarith, linarith, simp, simp)
  define z where "z = e - st - 24"
  have uz: "unat z = unat e - unat st - 24"
    using bnd unfolding z_def by (subst unat_sub; simp add: word_le_unat unat_sub)+
  have z8: "8 dvd unat z" using bnd unfolding uz by (auto intro!: dvd_diff_nat)
  then have z4: "4 dvd unat z" using dvd_trans [of "4::nat" 8] by simp
  have zz: "z AND NOT 7 = z"
    using z8 unat_and_not_7 [of z] by (intro unsigned_word_eqI [where 'a = nat]) simp
  define s1 where "s1 = s\<lparr>tlsf_pool := zero_pool\<lparr>pool_start := st, pool_end := e, total_bytes := e - st, min_free_bytes := e - st\<rparr>\<rparr>"
  define s2 where "s2 = upd_hdr st (rest_hdr NULL z) s1"
  have "\<not> e - st < 32 + 24 * 2" using bnd by (simp add: word_less_unat unat_sub word_le_unat)
  moreover have norm: "7 + hs AND - 8 = st" "he AND - 8 = e" by (simp_all add: st_def e_def)
  ultimately have eq: "tlsf_init hs he s = insert_free_block st s2"
    using zz by (simp add: tlsf_init_def Let_def s1_def s2_def norm z_def)
  have st0: "st \<noteq> NULL" using bnd(1) by auto
  have pv2: "pv s2 = (pv s)(st := rest_hdr NULL z (pv s st))" by (simp add: s2_def s1_def)
  have l: "lists_ok s2 (\<lambda>_ _. [])" by (rule lists_ok_empty) (simp_all add: s2_def s1_def zero_pool_def)
  have "hole s2 {} [] st [] (\<lambda>_ _. [])"
    using l bnd uz z4 z8 by (simp add: hole_def in_hand_def pool_ok_def entry_def pv2 free_set_def) (simp add: s2_def s1_def)
  moreover obtain fl sl where "clamped_class (block_size (headers s2 st)) = (fl, sl)"
    by (cases "clamped_class (block_size (headers s2 st))")
  ultimately have inv: "heap_inv (insert_free_block st s2) ([] @ st # []) (add_free fl sl st (\<lambda>_ _. []))"
    by (rule_tac hole_close_free) (simp_all add: pv2, simp_all add: s2_def s1_def zero_pool_def)
  show thesis
  proof (rule that)
    show "heap_inv (tlsf_init hs he s) [st] (add_free fl sl st (\<lambda>_ _. []))" unfolding eq using inv by simp
    show "allocs (pv (tlsf_init hs he s)) [st] = []" unfolding eq by (simp add: pv2)
    show "bytes (tlsf_init hs he s) = bytes s" unfolding eq by (simp add: s2_def s1_def)
    have "block_size (pv (tlsf_init hs he s) st) = z" unfolding eq using z4 by (simp add: pv2)
    then show "block_size (pv (tlsf_init hs he s) st) = (he AND NOT 7) - ((hs + 8 - 1) AND NOT 7) - 24"
      by (simp only: z_def st_def e_def)
  qed (rule st_def)
qed

section \<open>Inspection\<close>

lemma check_heap_loop_chain:
  assumes "chain (pv s) (unat p) bs (pe s)" "\<And>b. b \<in> set bs \<Longrightarrow> block_header_valid s b"
    "tags R (pv s) bs"
  shows "check_heap_loop s p acc = Some ((\<forall>b \<in> set bs. \<not> block_is_free (pv s b) \<longrightarrow> tail_canary_ok s b) \<and>
    acc + of_nat (used (allocs (pv s) bs)) = used_bytes (tlsf_pool s))"
  using assms
proof (induction bs arbitrary: p acc)
  case Nil
  then have "p = pool_end (tlsf_pool s)" by (simp add: unsigned_word_eqI [where 'a = nat])
  then show ?case by (subst check_heap_loop.simps) simp
next
  case (Cons b bs)
  let ?n = "p + (24 + block_size (pv s p))"
  have pb: "p = b" using Cons.prems(1) by (auto intro: unsigned_word_eqI [where 'a = nat])
  have c: "32 \<le> unat (block_size (pv s p))" "chain (pv s) (unat p + 24 + unat (block_size (pv s p))) bs (pe s)"
    using Cons.prems(1) pb by auto
  have le: "unat p + 24 + unat (block_size (pv s p)) \<le> pe s" using chain_le [OF c(2)] .
  have lt: "unat p + 24 + unat (block_size (pv s p)) < 4294967296"
    using le unat32_lt [of "pool_end (tlsf_pool s)"] by linarith
  have n: "unat ?n = unat p + 24 + unat (block_size (pv s p))" "unat (p + 24) = unat p + 24"
    using lt by (simp_all add: unat_add_small)
  have IH: "check_heap_loop s ?n acc' = Some ((\<forall>b \<in> set bs. \<not> block_is_free (pv s b) \<longrightarrow> tail_canary_ok s b) \<and>
    acc' + of_nat (used (allocs (pv s) bs)) = used_bytes (tlsf_pool s))" for acc'
    using Cons.IH [of ?n acc'] Cons.prems(2,3) c(2) n by simp
  have g: "p < pool_end (tlsf_pool s)" "\<not> p + 24 > pool_end (tlsf_pool s)" "block_header_valid s p"
    using le n Cons.prems(2) [of p] pb by (auto simp: word_less_unat)
  have t: "tag_ok R (pv s p) p" using Cons.prems(3) pb by simp
  have step: "check_heap_loop s p acc = (if block_is_free (pv s p) then check_heap_loop s ?n acc
    else if \<not> tail_canary_ok s p then Some False else check_heap_loop s ?n (acc + accounted_block_size s p))"
    using g t by (subst check_heap_loop.simps) (simp add: Let_def hdr_pv tag_ok_def split: if_splits)
  show ?case unfolding step IH using pb by (simp add: accounted_block_size_def hdr_pv add.assoc)
qed

lemma max_if_less: "max m y = (if m < y then y else m)" for m :: u32
  by (auto simp: max_def)

lemma largest_free_loop_chain:
  assumes "chain (pv s) (unat p) bs (pe s)" "\<And>b. b \<in> set bs \<Longrightarrow> block_header_valid s b" "pe s < 2 ^ 32 - 24"
  shows "largest_free_loop s p m = Some (fold (\<lambda>b m. if block_is_free (pv s b) then max m (block_size (pv s b)) else m) bs m)"
  using assms
proof (induction bs arbitrary: p m)
  case Nil
  then have "p = pool_end (tlsf_pool s)" by (simp add: unsigned_word_eqI [where 'a = nat])
  moreover have "\<not> pool_end (tlsf_pool s) + 24 \<le> pool_end (tlsf_pool s)"
    using assms(3) by (simp add: word_le_unat unat_add_small)
  ultimately show ?case by (subst largest_free_loop.simps) simp
next
  case (Cons b bs)
  let ?n = "p + (24 + block_size (pv s p))"
  have pb: "p = b" using Cons.prems(1) by (auto intro: unsigned_word_eqI [where 'a = nat])
  have c: "chain (pv s) (unat p + 24 + unat (block_size (pv s p))) bs (pe s)"
    using Cons.prems(1) pb by auto
  have le: "unat p + 24 + unat (block_size (pv s p)) \<le> pe s" using chain_le [OF c] .
  have lt: "unat p + 24 + unat (block_size (pv s p)) < 4294967296"
    using le unat32_lt [of "pool_end (tlsf_pool s)"] by linarith
  have n: "unat ?n = unat p + 24 + unat (block_size (pv s p))" "unat (p + 24) = unat p + 24"
    using lt by (simp_all add: unat_add_small)
  have "p + 24 \<le> pool_end (tlsf_pool s)" "block_header_valid s p"
    using le n Cons.prems(2) [of p] pb by (auto simp: word_le_unat)
  then show ?case
    using Cons.IH [of ?n] Cons.prems(2,3) c n pb
    by (subst largest_free_loop.simps) (simp add: Let_def hdr_pv max_if_less)
qed

end
