(* ===== verification/Tlsf_Client.thy ===== *)
theory Tlsf_Client
  imports Tlsf_Inspect
begin

text \<open>
  The allocator as its clients see it: the set of live pointers with their requested sizes.
  Every operation keeps the heap healthy (the invariant holds and every canary is intact) and
  changes the set of live pointers as its contract says.
\<close>

section \<open>What a client of the heap sees\<close>

text \<open>The live pointers with the sizes that were requested for them.\<close>

definition ptrs :: "heap \<Rightarrow> addr list \<Rightarrow> (addr \<times> u32) set" where
  "ptrs s bs = (\<lambda>(b, z, r). (block_to_ptr b, r)) ` set (allocs (pv s) bs)"

lemma ptrsE:
  assumes "(p, r) \<in> ptrs s bs"
  obtains b z where "(b, z, r) \<in> set (allocs (pv s) bs)" "p = b + 24"
  using assms by (auto simp: ptrs_def block_to_ptr_def)

lemma ptrs_insert:
  assumes "allocs (pv s) bs = as1 @ as2" "allocs (pv s') bs' = as1 @ (b, z, r) # as2"
  shows "ptrs s' bs' = insert (b + 24, r) (ptrs s bs)"
  using assms by (auto simp: ptrs_def block_to_ptr_def)

lemma allocs_split_notin:
  assumes "allocs H bs = as1 @ (b, z, r) # as2" "distinct bs"
  shows "(b, z', r') \<notin> set as1 \<union> set as2"
proof -
  have sub: "fst ` set (allocs H vs) \<subseteq> set vs" for vs by (induction vs) auto
  have "distinct (map fst (allocs H bs))" using assms(2)
  proof (induction bs)
    case (Cons x xs)
    then have "x \<notin> fst ` set (allocs H xs)" using sub [of xs] by auto
    with Cons show ?case by (auto simp: image_iff)
  qed simp
  with assms(1) have "b \<notin> fst ` (set as1 \<union> set as2)" by auto
  then show ?thesis by force
qed

lemma ptrs_remove:
  assumes "allocs (pv s) bs = as1 @ (b, z, r) # as2" "distinct bs" "allocs (pv s') bs' = as1 @ as2"
  shows "ptrs s' bs' = ptrs s bs - {(b + 24, r)}"
  using assms allocs_split_notin [OF assms(1,2)] by (fastforce simp: ptrs_def block_to_ptr_def)

lemma heap_inv_distinct: "heap_inv s bs F \<Longrightarrow> distinct bs"
  by (auto simp: heap_inv_def dest: heap_rel_distinct)

lemma heap_inv_counts:
  assumes "heap_inv s bs F"
  shows "heap_inv (count_alloc_fail s) bs F" "heap_inv (count_invalid_free s) bs F"
proof -
  have r: "heap_rel s {} bs F" using assms by (simp add: heap_inv_def)
  have "heap_rel (count_alloc_fail s) {} bs F" "heap_rel (count_invalid_free s) {} bs F"
    by (rule heap_rel_cong [OF r]; simp add: same_lists_def count_alloc_fail_def count_invalid_free_def)+
  with assms show "heap_inv (count_alloc_fail s) bs F" "heap_inv (count_invalid_free s) bs F"
    by (simp_all add: heap_inv_def) (simp_all add: count_alloc_fail_def count_invalid_free_def)
qed

lemma pv_counts [simp]: "pv (count_alloc_fail s) = pv s" "pv (count_invalid_free s) = pv s"
  by (simp_all add: pv_def fun_eq_iff)

lemma ptrs_counts [simp]: "ptrs (count_alloc_fail s) bs = ptrs s bs" "ptrs (count_invalid_free s) bs = ptrs s bs"
  "ptrs (s\<lparr>bytes := m\<rparr>) bs = ptrs s bs"
  by (simp_all add: ptrs_def)

text \<open>A healthy heap with the live pointers \<open>L\<close>.\<close>

definition healthy :: "heap \<Rightarrow> (addr \<times> u32) set \<Rightarrow> bool" where
  "healthy s L \<longleftrightarrow> (\<exists>bs F. heap_inv s bs F \<and> canaries_ok s bs \<and> L = ptrs s bs)"

lemma healthy_counts:
  assumes "healthy s L" shows "healthy (count_alloc_fail s) L" "healthy (count_invalid_free s) L"
proof -
  obtain bs F where h: "heap_inv s bs F" "canaries_ok s bs" "L = ptrs s bs" using assms by (auto simp: healthy_def)
  have "canaries_ok (count_alloc_fail s) bs" "canaries_ok (count_invalid_free s) bs"
    by (rule canaries_subset [OF h(2)]; simp)+
  with h heap_inv_counts [OF h(1)] show "healthy (count_alloc_fail s) L" "healthy (count_invalid_free s) L"
    by (auto simp: healthy_def)
qed

lemma tlsf_malloc_null:
  "tlsf_malloc 0 s = (NULL, s)"
  "req \<noteq> 0 \<Longrightarrow> size_with_canary req = Some sz \<Longrightarrow> find_suitable_block sz s = NULL \<Longrightarrow>
    tlsf_malloc req s = (NULL, count_alloc_fail s)"
  by (simp_all add: tlsf_malloc_def)

lemma malloc_healthy:
  assumes h: "healthy s L" and req: "unat req \<le> 0xF7FFFFFC" and r: "tlsf_malloc req s = (p, s')"
  shows "if p = NULL then s' = (if req = 0 then s else count_alloc_fail s)
    else healthy s' (insert (p, req) L) \<and> p \<notin> fst ` L \<and>
      (\<forall>(q, r) \<in> L. \<forall>i < unat r. bytes s' (q + of_nat i) = bytes s (q + of_nat i))"
proof -
  obtain bs F where inv: "heap_inv s bs F" "canaries_ok s bs" "L = ptrs s bs" using h by (auto simp: healthy_def)
  obtain sz where sz: "size_with_canary req = Some sz" using size_with_canary_ok [OF req] by metis
  show ?thesis
  proof (cases "req = 0 \<or> find_suitable_block sz s = NULL")
    case True
    then show ?thesis using r sz tlsf_malloc_null by (cases "req = 0") auto
  next
    case False
    show ?thesis
    proof (rule tlsf_malloc_block [OF inv(1) _ req sz refl])
      show "req \<noteq> 0" "find_suitable_block sz s \<noteq> NULL" using False by auto
      fix t bs' F' z as1 as2
      let ?b = "find_suitable_block sz s"
      assume a: "tlsf_malloc req s = (?b + 24, t)" "heap_inv t bs' F'" "allocs (pv s) bs = as1 @ as2"
        "allocs (pv t) bs' = as1 @ (?b, z, req) # as2" "unat req + 4 \<le> unat z" "tail_canary_ok t ?b"
        "\<forall>a. bytes t a \<noteq> bytes s a \<longrightarrow> unat (a - (?b + 24 + req)) < 4"
      have "canaries_ok t bs'" by (rule canaries_insert [OF a(2) inv(2) a(4) _ a(6,7)]) (simp add: a(3))
      moreover have "?b + 24 \<noteq> NULL" using heap_inv_bounds(8) [OF a(2), of ?b z req] a(4) by simp
      moreover have "?b + 24 \<notin> fst ` ptrs s bs"
        using allocs_split_notin [OF a(4) heap_inv_distinct [OF a(2)]] a(3) by (force simp: ptrs_def block_to_ptr_def)
      moreover have "bytes t (q + of_nat i) = bytes s (q + of_nat i)" if q: "(q, r) \<in> ptrs s bs" "i < unat r" for q r i
      proof -
        obtain c zc where c: "(c, zc, r) \<in> set (allocs (pv s) bs)" "q = c + 24"
          using q(1) by (auto simp: ptrs_def block_to_ptr_def)
        have c': "(c, zc, r) \<in> set (allocs (pv t) bs')" "c \<noteq> ?b"
          using c(1) a(3,4) allocs_split_notin [OF a(4) heap_inv_distinct [OF a(2)]] by auto
        have bin: "(?b, z, req) \<in> set (allocs (pv t) bs')" using a(4) by simp
        have "unat (q + of_nat i) = unat c + 24 + i" "unat r + 4 \<le> unat zc"
          using payload_addr [OF a(2) c'(1), of i] heap_inv_bounds(4) [OF a(2) c'(1)] q(2) c(2) by auto
        with canary_zone [OF a(2) bin, of "q + of_nat i"] heap_inv_disjoint [OF a(2) bin c'(1)] c'(2) q(2) a(7)
        show ?thesis by force
      qed
      ultimately show ?thesis using r a(1,2) ptrs_insert [OF a(3,4)] inv(3) by (auto simp: healthy_def)
    qed
  qed
qed

lemma free_healthy:
  assumes h: "healthy s L" and p: "(p, r) \<in> L"
  shows "healthy (tlsf_free p s) (L - {(p, r)}) \<and> bytes (tlsf_free p s) = bytes s"
proof -
  obtain bs F where inv: "heap_inv s bs F" "canaries_ok s bs" "L = ptrs s bs" using h by (auto simp: healthy_def)
  then obtain b z where b: "(b, z, r) \<in> set (allocs (pv s) bs)" "p = b + 24" using p by (auto simp: ptrs_def block_to_ptr_def)
  show ?thesis
  proof (rule tlsf_free_block [OF inv(1) b(1)])
    fix bs' F' as1 as2 assume a: "heap_inv (tlsf_free (b + 24) s) bs' F'" "allocs (pv s) bs = as1 @ (b, z, r) # as2"
      "allocs (pv (tlsf_free (b + 24) s)) bs' = as1 @ as2" "bytes (tlsf_free (b + 24) s) = bytes s"
    have "canaries_ok (tlsf_free (b + 24) s) bs'" by (rule canaries_subset [OF inv(2) _ a(4)]) (auto simp: a(2,3))
    with a ptrs_remove [OF a(2) heap_inv_distinct [OF inv(1)] a(3)] inv(3) b(2) show ?thesis
      by (auto simp: healthy_def)
  qed
qed

lemma write_healthy:
  assumes h: "healthy s L" and w: "\<And>a. m a \<noteq> bytes s a \<Longrightarrow> \<exists>(p, r) \<in> L. unat p \<le> unat a \<and> unat a < unat p + unat r"
  shows "healthy (s\<lparr>bytes := m\<rparr>) L"
proof -
  obtain bs F where inv: "heap_inv s bs F" "canaries_ok s bs" "L = ptrs s bs" using h by (auto simp: healthy_def)
  have "user_write s bs m"
    unfolding user_write_def
  proof (intro allI impI)
    fix a assume "m a \<noteq> bytes s a"
    then obtain p r where "(p, r) \<in> ptrs s bs" "unat p \<le> unat a" "unat a < unat p + unat r" using w inv(3) by blast
    then obtain b z where "(b, z, r) \<in> set (allocs (pv s) bs)" "unat (b + 24) \<le> unat a" "unat a < unat (b + 24) + unat r"
      by (auto simp: ptrs_def block_to_ptr_def)
    moreover from this have "unat (b + 24) = unat b + 24" using heap_inv_bounds(7) [OF inv(1)] by blast
    ultimately show "\<exists>(b, z, r) \<in> set (allocs (pv s) bs). unat b + 24 \<le> unat a \<and> unat a < unat b + 24 + unat r"
      by (intro bexI [of _ "(b, z, r)"]) auto
  qed
  with canaries_user [OF inv(1,2)] inv show ?thesis by (auto simp: healthy_def)
qed

lemma resized_healthy:
  assumes inv: "heap_inv s bs F" "canaries_ok s bs" and r: "resized s bs b z r req s'"
  shows "healthy s' (insert (b + 24, req) (ptrs s bs - {(b + 24, r)}))"
    and "i < unat r \<Longrightarrow> i < unat req \<Longrightarrow> bytes s' (b + 24 + of_nat i) = bytes s (b + 24 + of_nat i)"
proof -
  obtain bs' F' z' as1 as2 where a: "heap_inv s' bs' F'" "allocs (pv s) bs = as1 @ (b, z, r) # as2"
    "allocs (pv s') bs' = as1 @ (b, z', req) # as2" "unat req + 4 \<le> unat z'" "tail_canary_ok s' b"
    "\<forall>a. bytes s' a \<noteq> bytes s a \<longrightarrow> unat (a - (b + 24 + req)) < 4"
    using r unfolding resized_def by blast
  have "canaries_ok s' bs'" by (rule canaries_insert [OF a(1) inv(2) a(3) _ a(5,6)]) (auto simp: a(2))
  moreover have "ptrs s' bs' = insert (b + 24, req) (ptrs s bs - {(b + 24, r)})"
    using allocs_split_notin [OF a(2) heap_inv_distinct [OF inv(1)]] a(2,3) by (fastforce simp: ptrs_def block_to_ptr_def)
  ultimately show "healthy s' (insert (b + 24, req) (ptrs s bs - {(b + 24, r)}))" using a(1) by (auto simp: healthy_def)
  assume i: "i < unat r" "i < unat req"
  have bin: "(b, z', req) \<in> set (allocs (pv s') bs')" using a(3) by simp
  have "unat (b + 24 + of_nat i) = unat b + 24 + i"
    using payload_addr [OF a(1) bin, of i] i a(4) by simp
  with canary_zone [OF a(1) bin, of "b + 24 + of_nat i"] i a(6)
  show "bytes s' (b + 24 + of_nat i) = bytes s (b + 24 + of_nat i)" by force
qed

lemma realloc_move_healthy:
  assumes h: "healthy s L" and p: "(p, r) \<in> L" and req: "unat req \<le> 0xF7FFFFFC" "req \<noteq> 0"
    and res: "realloc_move p r req s = (q, s')"
  shows "if q = NULL then s' = count_alloc_fail s
    else healthy s' (insert (q, req) (L - {(p, r)})) \<and> (\<forall>i. i < unat r \<longrightarrow> i < unat req \<longrightarrow>
      bytes s' (q + of_nat i) = bytes s (p + of_nat i))"
proof -
  obtain q1 s1 where m: "tlsf_malloc req s = (q1, s1)" by fastforce
  note hm = malloc_healthy [OF h req(1) m]
  show ?thesis
  proof (cases "q1 = NULL")
    case True
    then have "s1 = count_alloc_fail s" using hm req(2) by simp
    then show ?thesis using res m True by (simp add: realloc_move_def)
  next
    case False
    then have h1: "healthy s1 (insert (q1, req) L)" "q1 \<notin> fst ` L"
      and keep: "\<forall>(q, r) \<in> L. \<forall>i < unat r. bytes s1 (q + of_nat i) = bytes s (q + of_nat i)" using hm by auto
    let ?n = "if r < req then r else req"
    let ?m = "snd (memcpy (bytes s1) q1 p ?n)" let ?s2 = "s1\<lparr>bytes := ?m\<rparr>"
    have eq: "q = q1" "s' = tlsf_free p ?s2" using res m False by (auto simp: realloc_move_def)
    obtain bs F where inv: "heap_inv s1 bs F" "canaries_ok s1 bs" "insert (q1, req) L = ptrs s1 bs"
      using h1(1) by (auto simp: healthy_def)
    obtain b z where b: "(b, z, r) \<in> set (allocs (pv s1) bs)" "p = b + 24"
      using p inv(3) ptrsE by (metis insertI2)
    obtain c z' where c: "(c, z', req) \<in> set (allocs (pv s1) bs)" "q1 = c + 24"
      using inv(3) ptrsE by (metis insertI1)
    have "b \<noteq> c" using b c p h1(2) by force
    note cp = memcpy_payload [OF inv(1) b(1) c(1) this, of ?n]
    have n: "unat ?n \<le> unat r" "unat ?n \<le> unat req" by (auto simp: word_less_unat)
    have h2: "healthy ?s2 (insert (q1, req) L)"
      using canaries_user [OF inv(1,2)] cp(1) n inv b c by (auto simp: healthy_def)
    have "insert (q1, req) L - {(p, r)} = insert (q1, req) (L - {(p, r)})" using h1(2) p by force
    then have "healthy s' (insert (q, req) (L - {(p, r)}))" "bytes s' = ?m"
      using free_healthy [OF h2, of p r] p eq by auto
    moreover have "?m (q + of_nat i) = bytes s (p + of_nat i)" if i: "i < unat r" "i < unat req" for i
    proof -
      have "i < unat ?n" using i by simp
      then have "?m (q + of_nat i) = bytes s1 (p + of_nat i)" using cp(2) n b c eq by simp
      also have "\<dots> = bytes s (p + of_nat i)"
        using keep p i(1) by auto
      finally show ?thesis .
    qed
    ultimately show ?thesis using False eq by simp
  qed
qed

end
