(* ===== verification/Tlsf_Props.thy ===== *)
theory Tlsf_Props
  imports Tlsf_Client
begin

text \<open>
  The contracts of the public operations of \<open>tlsf.c\<close>, executions of a client that uses them, and
  the properties of the allocator: every execution keeps the heap consistent.
\<close>

section \<open>Contracts\<close>

lemma realloc_healthy:
  assumes h: "healthy s L" and p: "(p, r) \<in> L" and req: "unat req \<le> 0xF7FFFFFC" "req \<noteq> 0"
    and res: "tlsf_realloc p req s = (q, s')"
  shows "if q = NULL then s' = count_alloc_fail s
    else healthy s' (insert (q, req) (L - {(p, r)})) \<and> (\<forall>i. i < unat r \<longrightarrow> i < unat req \<longrightarrow>
      bytes s' (q + of_nat i) = bytes s (p + of_nat i))"
proof -
  obtain bs F where inv: "heap_inv s bs F" "canaries_ok s bs" "L = ptrs s bs" using h by (auto simp: healthy_def)
  obtain b z where b: "(b, z, r) \<in> set (allocs (pv s) bs)" "p = b + 24" using p inv(3) ptrsE by metis
  obtain sz where sz: "size_with_canary req = Some sz" using size_with_canary_ok [OF req(1)] by metis
  note d = heap_inv_bounds [OF inv(1) b(1)]
  have bin: "b \<in> set bs" "\<not> block_is_free (pv s b)" using b(1) by (auto simp: allocs_mem)
  have nr: "\<not> rejects s b" using heap_inv_valid(4) [OF inv(1) bin(1)] bin(2) by simp
  have can: "tail_canary_ok s b" by (rule canaries_okD [OF inv(2) b(1)])
  have hdr: "block_size (headers s b) = z" "requested_size (headers s b) = r" using d by (simp_all add: hdr_pv)
  let ?n = "block_next s b"
  let ?grow = "?n < pool_end (tlsf_pool s) \<and> block_is_free (headers s ?n) \<and> sz \<le> z + 24 + block_size (headers s ?n)"
  have eq: "tlsf_realloc p req s = (if sz \<le> z then (p, realloc_shrink b req sz (accounted_block_size s b) s)
    else if ?grow then (p, realloc_expand b ?n (z + 24 + block_size (headers s ?n)) req sz (accounted_block_size s b) s)
    else realloc_move p r req s)"
    using req(2) sz nr can hdr d(8) b(2) by (simp add: tlsf_realloc_def ptr_to_block_def Let_def)
  have inplace: ?thesis if "resized s bs b z r req s'" "q = p"
    using resized_healthy [OF inv(1,2) that(1)] that(2) inv(3) b(2) d(8) by simp
  consider "sz \<le> z" | "\<not> sz \<le> z" ?grow | "\<not> sz \<le> z" "\<not> ?grow" by blast
  then show ?thesis
  proof cases
    case 1
    then have "resized s bs b z r req s'" "q = p"
      using realloc_shrink_block [OF inv(1) b(1) req(1) sz] res eq by (auto simp: word_le_unat)
    then show ?thesis by (rule inplace)
  next
    case 2
    then have "unat z < unat sz" by (simp add: word_le_unat)
    then have "resized s bs b z r req s'" "q = p"
      using realloc_expand_block [OF inv(1) b(1) req(1) sz refl] 2 res eq by auto
    then show ?thesis by (rule inplace)
  next
    case 3
    then have "realloc_move p r req s = (q, s')" using res eq by (simp only: if_False)
    then show ?thesis by (rule realloc_move_healthy [OF h p req])
  qed
qed

lemma calloc_no_overflow: "sz = 0 \<or> \<not> count > (- 1) div (sz::u32) \<Longrightarrow> unat (count * sz) = unat count * unat sz"
proof -
  assume a: "sz = 0 \<or> \<not> count > (- 1) div sz"
  show ?thesis
  proof (cases "sz = 0")
    case False
    with a have "unat count \<le> unat ((- 1) div sz)" by (simp add: word_le_unat not_less)
    also have "\<dots> = 4294967295 div unat sz" by (simp add: unat_div unat_minus_1_u32)
    finally have "unat count * unat sz \<le> 4294967295"
      using False by (metis less_eq_div_iff_mult_less_eq unat_gt_0)
    then show ?thesis using unat_mult_lem [of count sz] by simp
  qed simp
qed

lemma calloc_healthy:
  assumes h: "healthy s L" and r: "tlsf_calloc count sz s = (p, s')"
    and big: "unat count * unat sz \<le> 0xF7FFFFFC"
  shows "if p = NULL then s' = (if count * sz = 0 then s else count_alloc_fail s)
    else healthy s' (insert (p, count * sz) L) \<and> p \<notin> fst ` L \<and> unat (count * sz) = unat count * unat sz \<and>
      (\<forall>i < unat count * unat sz. bytes s' (p + of_nat i) = 0)"
proof -
  have no: "sz = 0 \<or> \<not> count > (- 1) div sz"
  proof (rule ccontr)
    assume a: "\<not> ?thesis"
    then have "4294967295 div unat sz < unat count" by (simp add: word_less_unat unat_div unat_minus_1_u32)
    then have "4294967295 < unat count * unat sz" using a by (metis div_less_iff_less_mult unat_gt_0)
    with big show False by simp
  qed
  have tot: "unat (count * sz) = unat count * unat sz" by (rule calloc_no_overflow [OF no])
  obtain q t where m: "tlsf_malloc (count * sz) s = (q, t)" by fastforce
  have hm: "if q = NULL then t = (if count * sz = 0 then s else count_alloc_fail s)
    else healthy t (insert (q, count * sz) L) \<and> q \<notin> fst ` L \<and>
      (\<forall>(q, r) \<in> L. \<forall>i < unat r. bytes t (q + of_nat i) = bytes s (q + of_nat i))"
    using malloc_healthy [OF h _ m] tot big by simp
  have eq: "p = q" "s' = (if q = NULL then t else t\<lparr>bytes := snd (memset (bytes t) q 0 (count * sz))\<rparr>)"
    using r m no by (auto simp: tlsf_calloc_def split: if_splits)
  show ?thesis
  proof (cases "q = NULL")
    case True then show ?thesis using eq hm by simp
  next
    case False
    then have h1: "healthy t (insert (q, count * sz) L)" "q \<notin> fst ` L" using hm by auto
    obtain bs F where inv: "heap_inv t bs F" "canaries_ok t bs" "insert (q, count * sz) L = ptrs t bs"
      using h1(1) by (auto simp: healthy_def)
    obtain b z where b: "(b, z, count * sz) \<in> set (allocs (pv t) bs)" "q = b + 24"
      using inv(3) ptrsE by (metis insertI1)
    note ms = memset_payload [OF inv(1) b(1), folded b(2)]
    have "healthy s' (insert (q, count * sz) L)"
      using canaries_user [OF inv(1,2) ms(1)] inv eq(2) False by (auto simp: healthy_def)
    then show ?thesis using h1(2) ms(2) tot eq False by simp
  qed
qed

section \<open>Executions\<close>

text \<open>
  A client that initialises the heap once, calls the allocator and writes to memory it has been
  given.  \<open>tlsf_run s L\<close>: such a client can reach the heap \<open>s\<close> holding the pointers \<open>L\<close>.  Requests are bounded
  by \<open>0xF7FFFFFC\<close>: above it the size computations wrap, and the allocator may hand out a block that is too small
  (\<open>tlsf_malloc_class_wraps\<close>, \<open>tlsf_malloc_wraps\<close>).
\<close>

inductive tlsf_run :: "heap \<Rightarrow> (addr \<times> u32) set \<Rightarrow> bool" where
  init: "0 < unat hs \<Longrightarrow> unat hs + 95 \<le> unat he \<Longrightarrow> tlsf_run (tlsf_init hs he s) {}"
| malloc: "tlsf_run s L \<Longrightarrow> unat req \<le> 0xF7FFFFFC \<Longrightarrow> tlsf_malloc req s = (p, s') \<Longrightarrow>
    tlsf_run s' (if p = NULL then L else insert (p, req) L)"
| calloc: "tlsf_run s L \<Longrightarrow> unat count * unat sz \<le> 0xF7FFFFFC \<Longrightarrow> tlsf_calloc count sz s = (p, s') \<Longrightarrow>
    tlsf_run s' (if p = NULL then L else insert (p, count * sz) L)"
| free: "tlsf_run s L \<Longrightarrow> (p, r) \<in> L \<Longrightarrow> tlsf_run (tlsf_free p s) (L - {(p, r)})"
| realloc: "tlsf_run s L \<Longrightarrow> (p, r) \<in> L \<Longrightarrow> 0 < unat req \<Longrightarrow> unat req \<le> 0xF7FFFFFC \<Longrightarrow>
    tlsf_realloc p req s = (q, s') \<Longrightarrow> tlsf_run s' (if q = NULL then L else insert (q, req) (L - {(p, r)}))"
| store: "tlsf_run s L \<Longrightarrow>
    (\<And>a. m a \<noteq> bytes s a \<Longrightarrow> \<exists>(p, r) \<in> L. unat p \<le> unat a \<and> unat a < unat p + unat r) \<Longrightarrow>
    tlsf_run (s\<lparr>bytes := m\<rparr>) L"

lemma init_healthy:
  assumes "0 < unat hs" "unat hs + 95 \<le> unat he"
  shows "healthy (tlsf_init hs he s) {}"
proof (rule tlsf_init_inv [of hs he s])
  show "0 < unat hs" "unat hs + 7 + 88 \<le> unat he" using assms by simp_all
  fix b F assume "heap_inv (tlsf_init hs he s) [b] F" "allocs (pv (tlsf_init hs he s)) [b] = []"
  then show ?thesis unfolding healthy_def canaries_ok_def ptrs_def by (intro exI [of _ "[b]"] exI [of _ F]) simp
qed

lemma tlsf_run_healthy: "tlsf_run s L \<Longrightarrow> healthy s L"
proof (induction rule: tlsf_run.induct)
  case (init hs he s) then show ?case by (rule init_healthy)
next
  case (malloc s L req p s')
  then show ?case using malloc_healthy [of s L req p s'] healthy_counts by (auto split: if_splits)
next
  case (calloc s L count sz p s')
  then show ?case using calloc_healthy [of s L count sz p s'] healthy_counts by (auto split: if_splits)
next
  case (free s L p r) then show ?case using free_healthy by blast
next
  case (realloc s L p r req q s')
  then have "req \<noteq> 0" by auto
  with realloc show ?case using realloc_healthy [of s L p r req q s'] healthy_counts by (auto split: if_splits)
next
  case (store s L m) then show ?case using write_healthy by blast
qed

lemma healthy_check:
  assumes "healthy s L" shows "tlsf_check_heap s = Some True"
proof -
  obtain bs F where inv: "heap_inv s bs F" "canaries_ok s bs" using assms by (auto simp: healthy_def)
  note i = heap_inv_closedD [OF inv(1)]
  have c: "chain (pv s) (p0 s) bs (pe s)" "tags {} (pv s) bs" "0 < p0 s" using i(1) by (auto simp: closed_def pool_ok_def)
  have "\<forall>b \<in> set bs. \<not> block_is_free (pv s b) \<longrightarrow> tail_canary_ok s b"
    using canaries_okD [OF inv(2)] by (auto simp: allocs_mem)
  moreover have "of_nat (used (allocs (pv s) bs)) = used_bytes (tlsf_pool s)"
    by (simp flip: i(5))
  moreover have "pool_start (tlsf_pool s) \<noteq> NULL" "pool_end (tlsf_pool s) \<noteq> NULL"
    using c(3) chain_le [OF c(1)] by auto
  ultimately show ?thesis
    using check_heap_loop_chain [OF c(1) heap_inv_valid(1) [OF inv(1)] c(2), of 0] by (simp add: tlsf_check_heap_def)
qed


section \<open>Requests that are served\<close>

lemma class_lo_Suc: "class_lo fl sl + 2 ^ (fl - 4) = class_lo fl (Suc sl)"
  by (simp add: class_lo_def algebra_simps)

lemma class_lo_pow: "4 \<le> fl \<Longrightarrow> class_lo fl 0 = 2 ^ fl" "4 \<le> fl \<Longrightarrow> class_lo fl 16 = 2 ^ Suc fl"
  using power_add [of "2::nat" 4 "fl - 4"] by (simp_all add: class_lo_def)

lemma class_lo_le: "4 \<le> fl \<Longrightarrow> 2 ^ fl \<le> class_lo fl sl"
  using class_lo_pow(1) [of fl] by (simp add: class_lo_def algebra_simps)

lemma clamped_class_small:
  assumes "32 \<le> unat sz" "unat sz < 2 ^ 20"
  obtains fl sl where "clamped_class sz = (fl, sl)" "5 \<le> fl" "sl < 16" "unat sz < class_lo fl sl + 2 ^ (fl - 4)"
proof -
  obtain fl sl where c: "mapping_insert sz = (int fl, int sl)" "5 \<le> fl" "sl < 16"
    "unat sz < class_lo fl sl + 2 ^ (fl - 4)" "2 ^ fl \<le> unat sz"
    using mapping_insert_large [OF assms(1)] by metis
  have "(2::nat) ^ fl < 2 ^ 20" using c(5) assms(2) by linarith
  then have "fl < 20" by (rule power_less_imp_less_exp [rotated]) simp
  then show thesis using c by (intro that [of fl sl]) (simp_all add: clamped_class_def)
qed

lemma class_above:
  assumes "class_lo fl sl \<le> y" "y < class_lo fl' sl' + 2 ^ (fl' - 4)" "4 \<le> fl'" "4 \<le> fl" "sl' < 16"
  shows "fl < fl' \<or> fl = fl' \<and> sl \<le> sl'"
proof (rule ccontr)
  assume n: "\<not> ?thesis"
  have "class_lo fl' (Suc sl') \<le> class_lo fl sl"
  proof (cases "fl' < fl")
    case True
    have "class_lo fl' (Suc sl') \<le> class_lo fl' 16" using assms(5) by (simp add: class_lo_def)
    also have "\<dots> = 2 ^ Suc fl'" by (rule class_lo_pow(2) [OF assms(3)])
    also have "\<dots> \<le> 2 ^ fl" using True by (intro power_increasing) auto
    also have "\<dots> \<le> class_lo fl sl" by (rule class_lo_le [OF assms(4)])
    finally show ?thesis .
  next
    case False
    with n have "fl = fl'" "Suc sl' \<le> sl" by auto
    then show ?thesis by (simp add: class_lo_def)
  qed
  with assms(1,2) class_lo_Suc [of fl' sl'] show False by linarith
qed

lemma malloc_finds:
  assumes inv: "heap_inv s bs F" and x: "x \<in> set bs" "block_is_free (pv s x)" "unat (block_size (pv s x)) < 2 ^ 20"
    and req: "req \<noteq> 0" "17 * max 32 (unat req + 11) \<le> 16 * unat (block_size (pv s x))"
  shows "fst (tlsf_malloc req s) \<noteq> NULL"
proof -
  note i = heap_inv_closedD [OF inv]
  let ?y = "unat (block_size (pv s x))"
  have M: "unat req + 11 \<le> M \<Longrightarrow> 17 * M \<le> 16 * y \<Longrightarrow> y < 1048576 \<Longrightarrow> unat req \<le> 0xF7FFFFFC" for M y by linarith
  have r: "unat req \<le> 0xF7FFFFFC" by (rule M [OF max.cobounded2 req(2)]) (use x(3) in simp)
  obtain sz where sz: "size_with_canary req = Some sz" "32 \<le> unat sz" "unat sz \<le> 0xF8000000" "unat sz \<le> max 32 (unat req + 11)"
    using size_with_canary_ok [OF r] by metis
  obtain fl sl where m: "mapping_search sz = (int fl, int sl)" "5 \<le> fl" "16 * class_lo fl sl < 17 * unat sz"
    using mapping_search_ge [OF sz(2,3)] by metis
  have M2: "a \<le> M \<Longrightarrow> 17 * M \<le> 16 * y \<Longrightarrow> 16 * c < 17 * a \<Longrightarrow> c \<le> y" for a M y c :: nat by linarith
  have lo: "class_lo fl sl \<le> ?y" by (rule M2 [OF sz(4) req(2) m(3)])
  have "(2::nat) ^ fl < 2 ^ 20" using lo x(3) class_lo_le [of fl sl] m(2) by simp
  then have fl: "fl < 20" by (rule power_less_imp_less_exp [rotated]) simp
  have y32: "32 \<le> ?y" using pool_okD'(2) [OF i(2) x(1)] .
  obtain fl' sl' where c: "clamped_class (block_size (pv s x)) = (fl', sl')" "5 \<le> fl'" "sl' < 16"
    "?y < class_lo fl' sl' + 2 ^ (fl' - 4)" using clamped_class_small [OF y32 x(3)] .
  have "x \<in> free_set F" using i(4) x by (simp add: frees_def)
  then obtain f l where "x \<in> set (F f l)" by (auto simp: free_set_def)
  moreover from this have "clamped_class (block_size (pv s x)) = (f, l)" using i(3) by (auto simp: lists_ok_def hdr_pv)
  ultimately have "x \<in> set (F fl' sl')" using c(1) by simp
  then have "find_suitable_block sz s \<noteq> NULL"
    using class_above [OF lo c(4)] c m by (intro find_suitable_block_finds [OF i(3,7) m(1) fl]) auto
  then obtain s' where "tlsf_malloc req s = (find_suitable_block sz s + 24, s')" "find_suitable_block sz s \<in> set bs"
  proof -
    assume ne: "find_suitable_block sz s \<noteq> NULL"
    then have "find_suitable_block sz s \<in> set bs"
      using find_suitable_block_fits [OF i(3) _ sz(2,3) ne] i(4,7) by (auto simp: frees_def)
    with tlsf_malloc_eq [OF req(1) sz(1) refl ne] that show thesis by blast
  qed
  then show ?thesis using heap_inv_valid(2) [OF inv] by simp
qed


section \<open>Double frees\<close>

lemma magic_upd_hdr: "(\<And>h. magic (f h) = magic h) \<Longrightarrow> magic (headers (upd_hdr c f s) x) = magic (headers s x)"
  by (simp add: upd_hdr_def)

lemma magic_lists [simp]:
  "magic (headers (remove_free_block c s) x) = magic (headers s x)"
  "magic (headers (insert_free_block c s) x) = magic (headers s x)"
  by (simp_all add: hdr_pv)

lemma magic_merge:
  "magic (headers (snd (merge_prev c s)) x) = magic (headers s x)"
  "magic (headers (snd (merge_next c s)) x) = magic (headers s x)"
  by (simp_all add: merge_prev_def merge_next_def Let_def magic_upd_hdr)

lemma magic_coalesce [simp]: "magic (headers (coalesce_next c s) x) = magic (headers s x)"
  using magic_merge(2) [of c s x]
  by (cases "merge_next c s") (simp add: coalesce_next_def upd_next_def magic_upd_hdr)

lemma freed_magic:
  assumes "\<not> rejects s b" "b + 24 \<noteq> NULL"
  shows "magic (headers (tlsf_free (b + 24) s) b) = BLOCK_MAGIC_FREE"
proof -
  have "magic (headers (release_block b s) b) = BLOCK_MAGIC_FREE" by (simp add: release_block_def upd_hdr_def)
  moreover have "magic (headers (tlsf_free (b + 24) s) b) = magic (headers (release_block b s) b)"
    using tlsf_free_eq [OF refl assms(2,1)] magic_merge(1) [of b "release_block b s" b]
    by (cases "merge_prev b (release_block b s)") simp
  ultimately show ?thesis by simp
qed

section \<open>The allocator as an interface\<close>

text \<open>
  What the kernel relies on, for any allocator: \<open>ok s L\<close> says that \<open>s\<close> is in order and that the
  pointers \<open>L\<close> are live.
\<close>

fun alloc_all :: "('n \<Rightarrow> 's \<Rightarrow> 'p \<times> 's) \<Rightarrow> 'p \<Rightarrow> 'n list \<Rightarrow> 's \<Rightarrow> ('p \<times> 'n) list \<times> 's" where
  "alloc_all alloc null [] s = ([], s)"
| "alloc_all alloc null (n # ns) s =
     (let (p, s) = alloc n s; (ps, s) = alloc_all alloc null ns s
      in (if p = null then ps else (p, n) # ps, s))"

definition release_all :: "('p \<Rightarrow> 's \<Rightarrow> 's) \<Rightarrow> ('p \<times> 'n) list \<Rightarrow> 's \<Rightarrow> 's" where
  "release_all release ps s = fold (\<lambda>(p, n). release p) ps s"

locale heap_allocator =
  fixes ok :: "'s \<Rightarrow> ('p \<times> 'n) set \<Rightarrow> bool"
    and alloc :: "'n \<Rightarrow> 's \<Rightarrow> 'p \<times> 's"
    and release :: "'p \<Rightarrow> 's \<Rightarrow> 's"
    and null :: 'p
    and fits :: "'n \<Rightarrow> bool"
  assumes alloc_ok: "ok s L \<Longrightarrow> fits n \<Longrightarrow> alloc n s = (p, s') \<Longrightarrow> ok s' (if p = null then L else insert (p, n) L)"
    and alloc_fresh: "ok s L \<Longrightarrow> fits n \<Longrightarrow> alloc n s = (p, s') \<Longrightarrow> p \<noteq> null \<Longrightarrow> p \<notin> fst ` L"
    and release_ok: "ok s L \<Longrightarrow> (p, n) \<in> L \<Longrightarrow> ok (release p s) (L - {(p, n)})"
begin

lemma alloc_all_ok:
  "ok s L \<Longrightarrow> \<forall>n \<in> set ns. fits n \<Longrightarrow> alloc_all alloc null ns s = (ps, s') \<Longrightarrow>
    ok s' (L \<union> set ps) \<and> distinct (map fst ps) \<and> fst ` set ps \<inter> fst ` L = {}"
proof (induction ns arbitrary: s L ps s')
  case (Cons n ns)
  obtain p t where a: "alloc n s = (p, t)" by fastforce
  obtain qs u where r: "alloc_all alloc null ns t = (qs, u)" by fastforce
  let ?L = "if p = null then L else insert (p, n) L"
  have eq: "ps = (if p = null then qs else (p, n) # qs)" "s' = u" using Cons.prems(3) a r by auto
  have "ok t ?L" using alloc_ok [OF Cons.prems(1) _ a] Cons.prems(2) by simp
  from Cons.IH [OF this _ r] Cons.prems(2)
  have ih: "ok u (?L \<union> set qs)" "distinct (map fst qs)" "fst ` set qs \<inter> fst ` ?L = {}" by auto
  show ?case
  proof (cases "p = null")
    case False
    then have "p \<notin> fst ` L" using alloc_fresh [OF Cons.prems(1) _ a] Cons.prems(2) by simp
    moreover have "?L \<union> set qs = L \<union> set ps" using False eq by auto
    ultimately show ?thesis using ih eq False by auto
  qed (use ih eq in auto)
qed simp

lemma release_all_ok:
  "ok s (L \<union> set ps) \<Longrightarrow> distinct (map fst ps) \<Longrightarrow> fst ` set ps \<inter> fst ` L = {} \<Longrightarrow> ok (release_all release ps s) L"
proof (induction ps arbitrary: s)
  case (Cons x ps)
  obtain p n where x: "x = (p, n)" by fastforce
  have "ok (release p s) ((L \<union> set (x # ps)) - {(p, n)})" by (rule release_ok [OF Cons.prems(1)]) (simp add: x)
  moreover have "(L \<union> set (x # ps)) - {(p, n)} = L \<union> set ps"
    using Cons.prems(2,3) x by (force simp: image_iff)
  ultimately show ?case using Cons.IH [of "release p s"] Cons.prems(2,3) x by (simp add: release_all_def)
qed (simp add: release_all_def)

lemma no_leak:
  assumes "ok s L" "\<forall>n \<in> set ns. fits n" "alloc_all alloc null ns s = (ps, s')"
  shows "ok s' (L \<union> set ps) \<and> distinct (map fst ps) \<and> ok (release_all release ps s') L"
  using alloc_all_ok [OF assms] release_all_ok by blast

end

interpretation tlsf_heap: heap_allocator healthy tlsf_malloc tlsf_free NULL "\<lambda>req. unat req \<le> 0xF7FFFFFC"
proof
  show "healthy s' (if p = NULL then L else insert (p, n) L)"
    if "healthy s L" "unat n \<le> 0xF7FFFFFC" "tlsf_malloc n s = (p, s')" for s L n p s'
    using malloc_healthy [OF that] healthy_counts [OF that(1)] that(1) by (auto split: if_splits)
  show "p \<notin> fst ` L" if "healthy s L" "unat n \<le> 0xF7FFFFFC" "tlsf_malloc n s = (p, s')" "p \<noteq> NULL" for s L n p s'
    using malloc_healthy [OF that(1-3)] that(4) by simp
  show "healthy (tlsf_free p s) (L - {(p, n)})" if "healthy s L" "(p, n) \<in> L" for s L p n
    using free_healthy [OF that] by simp
qed

section \<open>Properties\<close>

text \<open>A small heap for the concrete instances below.\<close>

definition blank_heap :: heap where
  "blank_heap = \<lparr>tlsf_pool = zero_pool, headers = (\<lambda>_. \<lparr>bh_size = 0, prev_phys = 0, next_free = 0,
     prev_free = 0, requested_size = 0, magic = 0\<rparr>), bytes = (\<lambda>_. 0)\<rparr>"

definition demo_heap :: heap where
  "demo_heap = tlsf_init 0x1000 0x3000 blank_heap"

lemma demo_run: "tlsf_run demo_heap {}" "healthy demo_heap {}"
proof -
  show "tlsf_run demo_heap {}" unfolding demo_heap_def by (rule tlsf_run.init) simp_all
  then show "healthy demo_heap {}" by (rule tlsf_run_healthy)
qed

lemma demo_inv: obtains F where "heap_inv demo_heap [0x1000] F" "unat (block_size (pv demo_heap 0x1000)) = 8168"
  "block_is_free (pv demo_heap 0x1000)"
proof (rule tlsf_init_inv [of "0x1000" "0x3000" blank_heap])
  fix b F assume a: "heap_inv (tlsf_init 0x1000 0x3000 blank_heap) [b] F" "allocs (pv (tlsf_init 0x1000 0x3000 blank_heap)) [b] = []"
    "block_size (pv (tlsf_init 0x1000 0x3000 blank_heap) b) = (0x3000 AND NOT 7) - ((0x1000 + 8 - 1) AND NOT 7) - 24"
    "b = (0x1000 + 8 - 1) AND NOT 7"
  then have "b = 0x1000" by simp
  with a show thesis by (intro that [of F]) (simp_all add: demo_heap_def split: if_splits)
qed simp_all

lemma demo_malloc: obtains p s where "tlsf_malloc 100 demo_heap = (p, s)" "p \<noteq> NULL" "healthy s {(p, 100)}" "tlsf_run s {(p, 100)}"
proof -
  obtain F where d: "heap_inv demo_heap [0x1000] F" "unat (block_size (pv demo_heap 0x1000)) = 8168"
    "block_is_free (pv demo_heap 0x1000)" by (rule demo_inv)
  have "fst (tlsf_malloc 100 demo_heap) \<noteq> NULL" 
    by (rule malloc_finds [OF d(1), of "0x1000"]) (simp_all add: d(2,3))
  then obtain p s where m: "tlsf_malloc 100 demo_heap = (p, s)" "p \<noteq> NULL" by (cases "tlsf_malloc 100 demo_heap") auto
  have "tlsf_run s (if p = NULL then {} else insert (p, 100) {})" by (rule tlsf_run.malloc [OF demo_run(1) _ m(1)]) simp
  with m have "tlsf_run s {(p, 100)}" by simp
  with m tlsf_run_healthy show thesis using that by blast
qed


text \<open>
  C4. Every execution keeps the heap consistent: whatever a client that respects the interface
  and requests at most \<open>0xF7FFFFFC\<close> bytes at a time does, \<open>tlsf_check_heap\<close> returns 1; every live pointer is non-null, 8-aligned and lies in the pool
  together with its canary; and the blocks of two live pointers do not overlap.
\<close>

theorem tlsf_execution_safe:
  assumes "tlsf_run s L"
  shows "tlsf_check_heap s = Some True \<and>
    (\<forall>(p, r) \<in> L. p \<noteq> NULL \<and> 8 dvd unat p \<and> p0 s \<le> unat p \<and> unat p + unat r + 4 \<le> pe s) \<and>
    (\<forall>(p, r) \<in> L. \<forall>(q, t) \<in> L. p \<noteq> q \<longrightarrow> unat p + unat r + 4 \<le> unat q \<or> unat q + unat t + 4 \<le> unat p)"
proof -
  have h: "healthy s L" by (rule tlsf_run_healthy [OF assms])
  then obtain bs F where inv: "heap_inv s bs F" "L = ptrs s bs" by (auto simp: healthy_def)
  have b: "p \<noteq> NULL \<and> 8 dvd unat p \<and> p0 s \<le> unat p \<and> unat p + unat r + 4 \<le> pe s" if pr: "(p, r) \<in> L" for p r
  proof -
    obtain b z where b: "(b, z, r) \<in> set (allocs (pv s) bs)" "p = b + 24"
      by (rule ptrsE [OF pr [unfolded inv(2)]])
    note d = heap_inv_bounds [OF inv(1) b(1)]
    have "8 dvd unat b + 24" using d(3) by (intro dvd_add) simp_all
    then show ?thesis using d b(2) by simp
  qed
  have "unat p + unat r + 4 \<le> unat q \<or> unat q + unat t + 4 \<le> unat p" if p: "(p, r) \<in> L" "(q, t) \<in> L" "p \<noteq> q" for p r q t
  proof -
    obtain b z where b: "(b, z, r) \<in> set (allocs (pv s) bs)" "p = b + 24"
      by (rule ptrsE [OF p(1) [unfolded inv(2)]])
    obtain c y where c: "(c, y, t) \<in> set (allocs (pv s) bs)" "q = c + 24"
      by (rule ptrsE [OF p(2) [unfolded inv(2)]])
    have "unat p = unat b + 24" "unat r + 4 \<le> unat z" "unat q = unat c + 24" "unat t + 4 \<le> unat y" "b \<noteq> c"
      using heap_inv_bounds(4,7) [OF inv(1) b(1)] heap_inv_bounds(4,7) [OF inv(1) c(1)] b(2) c(2) p(3) by auto
    with heap_inv_disjoint [OF inv(1) b(1) c(1)] show ?thesis by linarith
  qed
  with b healthy_check [OF h] show ?thesis by blast
qed

theorem tlsf_execution_safe_witness:
  "\<exists>p s. tlsf_malloc 100 demo_heap = (p, s) \<and> p \<noteq> NULL \<and> tlsf_check_heap s = Some True \<and> 8 dvd unat p"
proof (rule demo_malloc)
  fix p s assume m: "tlsf_malloc 100 demo_heap = (p, s)" "p \<noteq> NULL" "tlsf_run s {(p, 100)}"
  from tlsf_execution_safe [OF m(3)] m show ?thesis by auto
qed

text \<open>
  C1. \<open>tlsf_malloc\<close> of at most \<open>0xF7FFFFFC\<close> bytes on a healthy heap either returns \<open>NULL\<close> and counts the failure, or returns a new
  pointer: the heap is healthy again, with that pointer and the requested size added to the
  live ones, and no byte of another live allocation has changed.
\<close>

theorem tlsf_malloc_contract:
  assumes "healthy s L" and "unat req \<le> 0xF7FFFFFC" and "tlsf_malloc req s = (p, s')"
  shows "if p = NULL then s' = (if req = 0 then s else count_alloc_fail s)
    else healthy s' (insert (p, req) L) \<and> p \<notin> fst ` L \<and>
      (\<forall>(q, r) \<in> L. \<forall>i < unat r. bytes s' (q + of_nat i) = bytes s (q + of_nat i))"
  by (rule malloc_healthy [OF assms])

theorem tlsf_malloc_contract_witness:
  "\<exists>p s. tlsf_malloc 100 demo_heap = (p, s) \<and> p \<noteq> NULL \<and> healthy s {(p, 100)}"
proof (rule demo_malloc)
  fix p s assume m: "tlsf_malloc 100 demo_heap = (p, s)" "p \<noteq> NULL"
  from tlsf_malloc_contract [OF demo_run(2) _ m(1)] m show ?thesis by auto
qed

text \<open>
  C37. A request is served whenever some free block below 1 MiB is one sixteenth larger than the
  request with its guard and alignment: the two-level search does not miss it.
\<close>

theorem tlsf_malloc_succeeds:
  assumes "heap_inv s bs F" and "x \<in> set bs" "block_is_free (pv s x)" "unat (block_size (pv s x)) < 2 ^ 20"
    and "req \<noteq> 0" "17 * max 32 (unat req + 11) \<le> 16 * unat (block_size (pv s x))"
  shows "fst (tlsf_malloc req s) \<noteq> NULL"
  by (rule malloc_finds [OF assms])

theorem tlsf_malloc_succeeds_witness: "fst (tlsf_malloc 7000 demo_heap) \<noteq> NULL"
proof -
  obtain F where d: "heap_inv demo_heap [0x1000] F" "unat (block_size (pv demo_heap 0x1000)) = 8168"
    "block_is_free (pv demo_heap 0x1000)" by (rule demo_inv)
  show ?thesis by (rule tlsf_malloc_succeeds [OF d(1), of "0x1000"]) (simp_all add: d(2,3))
qed

text \<open>
  C2. \<open>tlsf_free\<close> of a live pointer, with all its merging, leaves a healthy heap without that
  pointer and does not change a byte of memory; freeing the same pointer again right away is
  detected: only the counter of invalid frees moves.
\<close>

theorem tlsf_free_contract:
  assumes "healthy s L" and "(p, r) \<in> L"
  shows "let s' = tlsf_free p s in healthy s' (L - {(p, r)}) \<and> bytes s' = bytes s \<and>
    tlsf_free p s' = count_invalid_free s'"
proof -
  obtain bs F where inv: "heap_inv s bs F" "L = ptrs s bs" using assms(1) by (auto simp: healthy_def)
  obtain b z where b: "(b, z, r) \<in> set (allocs (pv s) bs)" "p = b + 24" using assms(2) inv(2) ptrsE by metis
  have bin: "b \<in> set bs" "\<not> block_is_free (pv s b)" using b(1) by (auto simp: allocs_mem)
  have "\<not> rejects s b" "b + 24 \<noteq> NULL" using heap_inv_valid [OF inv(1) bin(1)] bin(2) by auto
  note m = freed_magic [OF this]
  then have "rejects (tlsf_free p s) b" using b(2) by (simp add: rejects_def)
  then have "tlsf_free p (tlsf_free p s) = count_invalid_free (tlsf_free p s)"
    using b(2) \<open>b + 24 \<noteq> NULL\<close> by (subst tlsf_free_def) (simp add: ptr_to_block_def)
  with free_healthy [OF assms] show ?thesis by (simp add: Let_def)
qed

theorem tlsf_free_contract_witness:
  "\<exists>p s. tlsf_malloc 100 demo_heap = (p, s) \<and> healthy (tlsf_free p s) {} \<and>
    tlsf_free p (tlsf_free p s) = count_invalid_free (tlsf_free p s)"
proof (rule demo_malloc)
  fix p s assume m: "tlsf_malloc 100 demo_heap = (p, s)" "healthy s {(p, 100)}"
  from tlsf_free_contract [OF m(2), of p 100] m show ?thesis by (auto simp: Let_def)
qed

text \<open>
  C3. \<open>tlsf_realloc\<close> of a live pointer to a non-zero size of at most \<open>0xF7FFFFFC\<close> bytes, whether it shrinks in place, grows into
  the next block or moves: it fails without effect but the counter, or returns a pointer that
  replaces the old one in a healthy heap, with the old contents up to the smaller size.
\<close>

theorem tlsf_realloc_contract:
  assumes "healthy s L" and "(p, r) \<in> L" and "unat req \<le> 0xF7FFFFFC" "req \<noteq> 0"
    and "tlsf_realloc p req s = (q, s')"
  shows "if q = NULL then s' = count_alloc_fail s
    else healthy s' (insert (q, req) (L - {(p, r)})) \<and> (\<forall>i. i < unat r \<longrightarrow> i < unat req \<longrightarrow>
      bytes s' (q + of_nat i) = bytes s (p + of_nat i))"
  by (rule realloc_healthy [OF assms])

theorem tlsf_realloc_contract_witness:
  "\<exists>p s q t. tlsf_malloc 100 demo_heap = (p, s) \<and> tlsf_realloc p 200 s = (q, t) \<and>
    (q = NULL \<or> healthy t {(q, 200)} \<and> bytes t (q + 5) = bytes s (p + 5))"
proof (rule demo_malloc)
  fix p s assume m: "tlsf_malloc 100 demo_heap = (p, s)" "healthy s {(p, 100)}"
  obtain q t where r: "tlsf_realloc p 200 s = (q, t)" by fastforce
  have "q = NULL \<or> healthy t {(q, 200)} \<and> (\<forall>i. i < unat (100::u32) \<longrightarrow> i < unat (200::u32) \<longrightarrow>
      bytes t (q + of_nat i) = bytes s (p + of_nat i))"
    using tlsf_realloc_contract [OF m(2) _ _ _ r, of 100] by (auto split: if_splits)
  then have "q = NULL \<or> healthy t {(q, 200)} \<and> bytes t (q + 5) = bytes s (p + 5)"
    by (auto dest: spec [of _ 5])
  with m r show ?thesis by blast
qed

text \<open>
  \<open>tlsf_calloc\<close>: when the product is at most \<open>0xF7FFFFFC\<close>, the overflow test lets it through, and the result is
  \<open>NULL\<close> or a new live pointer to that many zero bytes.
\<close>

theorem tlsf_calloc_contract:
  assumes "healthy s L" and "tlsf_calloc count sz s = (p, s')" and "unat count * unat sz \<le> 0xF7FFFFFC"
  shows "if p = NULL then s' = (if count * sz = 0 then s else count_alloc_fail s)
    else healthy s' (insert (p, count * sz) L) \<and> p \<notin> fst ` L \<and> unat (count * sz) = unat count * unat sz \<and>
      (\<forall>i < unat count * unat sz. bytes s' (p + of_nat i) = 0)"
  by (rule calloc_healthy [OF assms])

theorem tlsf_calloc_contract_witness:
  "\<exists>p s. tlsf_calloc 5 20 demo_heap = (p, s) \<and> p \<noteq> NULL \<and> bytes s (p + 99) = 0"
proof (rule demo_malloc)
  fix q t assume m: "tlsf_malloc 100 demo_heap = (q, t)" "q \<noteq> NULL"
  obtain p s where c: "tlsf_calloc 5 20 demo_heap = (p, s)" by fastforce
  have "p = q" using c m by (simp add: tlsf_calloc_def)
  then have "\<forall>i < unat (5::u32) * unat (20::u32). bytes s (p + of_nat i) = 0"
    using tlsf_calloc_contract [OF demo_run(2) c] m(2) by (auto split: if_splits)
  then have "bytes s (p + 99) = 0" by (auto dest: spec [of _ 99])
  with c \<open>p = q\<close> m(2) show ?thesis by blast
qed

text \<open>
  \<open>tlsf_check_heap\<close> is exact on a heap whose structure is intact: it terminates, and returns 1
  if and only if the tail canary of every allocated block is intact.
\<close>

theorem tlsf_check_heap_exact:
  assumes "heap_inv s bs F"
  shows "tlsf_check_heap s = Some (\<forall>(b, z, r) \<in> set (allocs (pv s) bs). tail_canary_ok s b)"
proof -
  note i = heap_inv_closedD [OF assms]
  have c: "chain (pv s) (p0 s) bs (pe s)" "tags {} (pv s) bs" "0 < p0 s" using i(1) by (auto simp: closed_def pool_ok_def)
  have "of_nat (used (allocs (pv s) bs)) = used_bytes (tlsf_pool s)" by (simp flip: i(5))
  moreover have "pool_start (tlsf_pool s) \<noteq> NULL" "pool_end (tlsf_pool s) \<noteq> NULL"
    using c(3) chain_le [OF c(1)] by auto
  ultimately have "tlsf_check_heap s = Some (\<forall>b \<in> set bs. \<not> block_is_free (pv s b) \<longrightarrow> tail_canary_ok s b)"
    using check_heap_loop_chain [OF c(1) heap_inv_valid(1) [OF assms] c(2), of 0] by (simp add: tlsf_check_heap_def)
  moreover have "(\<forall>b \<in> set bs. \<not> block_is_free (pv s b) \<longrightarrow> tail_canary_ok s b) \<longleftrightarrow>
    (\<forall>(b, z, r) \<in> set (allocs (pv s) bs). tail_canary_ok s b)" by (fastforce simp: allocs_mem)
  ultimately show ?thesis by simp
qed

theorem tlsf_check_heap_exact_witness: "tlsf_check_heap demo_heap = Some True"
proof -
  obtain F where d: "heap_inv demo_heap [0x1000] F" "block_is_free (pv demo_heap 0x1000)" by (rule demo_inv)
  from tlsf_check_heap_exact [OF d(1)] d(2) show ?thesis by simp
qed

text \<open>
  \<open>tlsf_get_largest_free\<close> terminates and returns the size of the largest free block, 0 if none
  is free, for a pool that does not end in the last bytes of the address space.
\<close>

theorem tlsf_largest_free_exact:
  assumes "heap_inv s bs F" and "pe s < 2 ^ 32 - 24"
  shows "tlsf_get_largest_free s = Some (Max (set (0 # map (\<lambda>b. block_size (pv s b)) (filter (\<lambda>b. block_is_free (pv s b)) bs))))"
proof -
  note i = heap_inv_closedD [OF assms(1)]
  have c: "chain (pv s) (p0 s) bs (pe s)" using i(1) by (auto simp: closed_def pool_ok_def)
  have mx: "Max (insert (max m y) A) = Max (insert m (insert y A))" if "finite A" for m y :: u32 and A
    using that by (cases "A = {}") (auto simp: max.assoc)
  have f: "fold (\<lambda>b m. if block_is_free (pv s b) then max m (block_size (pv s b)) else m) xs m =
    Max (set (m # map (\<lambda>b. block_size (pv s b)) (filter (\<lambda>b. block_is_free (pv s b)) xs)))" for xs m
    by (induction xs arbitrary: m) (auto simp: mx simp del: Max_insert)
  show ?thesis
    using largest_free_loop_chain [OF c heap_inv_valid(1) [OF assms(1)] assms(2), of 0] f
    by (simp add: tlsf_get_largest_free_def)
qed

theorem tlsf_largest_free_exact_witness: "tlsf_get_largest_free demo_heap = Some 8168"
proof -
  obtain F where d: "heap_inv demo_heap [0x1000] F" "unat (block_size (pv demo_heap 0x1000)) = 8168"
    "block_is_free (pv demo_heap 0x1000)" by (rule demo_inv)
  have z: "block_size (pv demo_heap 0x1000) = 8168" using d(2) by (intro unsigned_word_eqI [where 'a = nat]) simp
  have "pe demo_heap = 0x3000"
    by (simp add: demo_heap_def tlsf_init_def Let_def)
  then show ?thesis using tlsf_largest_free_exact [OF d(1)] d(3) z by simp
qed


text \<open>
  C38. The overflow check of \<open>size_with_canary\<close> does not cover the rounding to 8: for the seven
  sizes from \<open>0xFFFFFFF5\<close> to \<open>0xFFFFFFFB\<close> the rounded size wraps to zero, and \<open>tlsf_malloc\<close> hands out
  the block it would hand out for 20 bytes.
\<close>

theorem tlsf_malloc_wraps:
  assumes "0xFFFFFFF5 \<le> unat req" and "unat req \<le> 0xFFFFFFFB"
  shows "size_with_canary req = Some 32 \<and> fst (tlsf_malloc req s) = fst (tlsf_malloc 20 s)"
proof -
  have "unat (req + 4 + 7) = (unat req + 11) mod 2 ^ 32"
    using unat_word_ariths(1) [of req 11] by (simp add: add.assoc)
  also have "\<dots> = unat req + 11 - 2 ^ 32"
    using assms le_mod_geq [of "2 ^ 32" "unat req + 11"] by simp
  finally have "unat (req + 4 + 7) < 8" using assms(2) by simp
  then have "unat ((req + 4 + 7) AND NOT 7) = 0" by (simp only: unat_and_not_7) simp
  then have "ALIGN_UP (req + 4) 8 = 0" by (simp add: ALIGN_UP_def unat_eq_0)
  moreover have "\<not> req > - 1 - 4" "req \<noteq> 0" using assms by (auto simp: word_less_unat)
  ultimately have sz: "size_with_canary req = Some 32" "req \<noteq> 0" by (simp_all add: size_with_canary_def)
  moreover have "size_with_canary 20 = Some 32" by (simp add: size_with_canary_def ALIGN_UP_def)
  ultimately show ?thesis by (auto simp: tlsf_malloc_def Let_def split: prod.split)
qed

theorem tlsf_malloc_wraps_witness: "fst (tlsf_malloc 0xFFFFFFF8 demo_heap) = fst (tlsf_malloc 20 demo_heap)"
  using tlsf_malloc_wraps [of "0xFFFFFFF8" demo_heap] by simp

text \<open>
  The rounding of \<open>mapping_search\<close> wraps for sizes above \<open>0xF8000000\<close>: the search is then for a size that is smaller by
  \<open>0xF8000001\<close>.
\<close>

lemma mapping_search_wraps:
  assumes "0xF8000000 < unat sz"
  shows "mapping_search sz = mapping_insert (sz - 0xF8000001)"
proof -
  obtain k where k: "tlsf_fls sz = int k" "k \<le> 31" "unat sz < 2 ^ Suc k"
    using tlsf_fls_bounds [of sz] assms by force
  have "\<not> k \<le> 30"
  proof
    assume "k \<le> 30"
    then have "(2 :: nat) ^ Suc k \<le> 2 ^ 31" by (intro power_increasing) simp_all
    with k(3) assms show False by simp
  qed
  then have f: "tlsf_fls sz = 31" using k by simp
  have e: "sz + 0x7FFFFFF = sz - 0xF8000001" by simp
  show ?thesis using assms by (simp add: mapping_search_def f word_le_unat e)
qed

lemma demo_search: "find_suitable_block 0xF8000008 demo_heap = 0x1000"
  by code_simp

lemma torn_check:
  assumes "pool_start (tlsf_pool s) = b" "b \<noteq> NULL" "b < pool_end (tlsf_pool s)"
    "magic (headers s b) = 0xC0FFEE01" "\<not> tail_canary_ok s b"
  shows "tlsf_check_heap s = Some False"
proof -
  have "pool_end (tlsf_pool s) \<noteq> NULL" using assms(3) by auto
  then show ?thesis using assms by (simp add: tlsf_check_heap_def check_heap_loop.simps [of s b] Let_def)
qed

text \<open>
  A request of \<open>0xF8000000\<close> bytes to a fresh pool of 8 KiB, one of those that the bound \<open>0xF7FFFFFC\<close> leaves out: the
  only free block, of 8168 bytes, is handed out for it, and the heap is no longer consistent.
\<close>

theorem tlsf_malloc_class_wraps:
  "\<exists>p s. tlsf_malloc 0xF8000000 demo_heap = (p, s) \<and> p \<noteq> NULL \<and> block_size (headers s (ptr_to_block p)) = 8168 \<and> tlsf_check_heap s = Some False"
proof -
  let ?req = "0xF8000000 :: u32" and ?b = "0x1000 :: addr"
  have sz: "size_with_canary ?req = Some 0xF8000008" by (simp add: size_with_canary_def ALIGN_UP_def)
  obtain F where "unat (block_size (pv demo_heap ?b)) = 8168" by (rule demo_inv)
  then have z: "block_size (pv demo_heap ?b) = 8168" by (intro unsigned_word_eqI [where 'a = nat]) simp
  define t where "t = remove_free_block ?b demo_heap"
  define u where "u = upd_hdr ?b (mark_used ?req) t"
  have zt: "block_size (headers t ?b) = 8168" using z by (simp add: t_def hdr_pv)
  then have split: "split_insert ?b 0xF8000008 t = t" by (simp add: split_insert_def split_block_def Let_def)
  have zu: "block_size (headers u ?b) = 8168" "requested_size (headers u ?b) = ?req" "magic (headers u ?b) = 0xC0FFEE01"
    using zt by (simp_all add: u_def upd_hdr_def)
  then have canary: "write_tail_canary ?b u = u" by (simp add: write_tail_canary_def Let_def)
  have pool: "pool_start (tlsf_pool u) = ?b" "pool_end (tlsf_pool u) = 0x3000"
    by (simp_all add: u_def t_def upd_hdr_def) (simp_all add: demo_heap_def tlsf_init_def Let_def)
  then have last: "upd_next ?b block_set_prev_used u = u" using zu(1) by (simp add: upd_next_def block_next_def)
  let ?s = "upd_pool update_watermarks (account_used ?b u)"
  have "tlsf_malloc ?req demo_heap = (?b + 24, ?s)"
    using tlsf_malloc_eq [OF _ sz demo_search] by (simp add: split canary last flip: t_def u_def)
  moreover have "\<not> tail_canary_ok ?s ?b" using zu(1,2) by (simp add: tail_canary_ok_def Let_def)
  then have "tlsf_check_heap ?s = Some False" using torn_check [of ?s ?b] pool zu(3) by simp
  ultimately show ?thesis using zu(1) by (simp add: ptr_to_block_def)
qed

text \<open>
  A free block of 1 MiB or more is filed in the last row under the column of its own row, so
  requests for the upper columns of the last row miss it: on a fresh heap with one free block
  of 1048576 bytes a request for 900000 bytes fails.
\<close>

theorem tlsf_large_block_missed:
  "tlsf_get_largest_free (tlsf_init 0x1000 0x101018 s) = Some 1048576 \<and>
   tlsf_malloc 900000 (tlsf_init 0x1000 0x101018 s) = (NULL, count_alloc_fail (tlsf_init 0x1000 0x101018 s))"
proof (rule tlsf_init_inv [of "0x1000" "0x101018" s])
  let ?s = "tlsf_init 0x1000 0x101018 s"
  fix b F assume a: "heap_inv ?s [b] F" "allocs (pv ?s) [b] = []"
    "block_size (pv ?s b) = (0x101018 AND NOT 7) - ((0x1000 + 8 - 1) AND NOT 7) - 24"
  note i = heap_inv_closedD [OF a(1)]
  have z: "block_size (pv ?s b) = 1048576" using a(3) by simp
  have fr: "block_is_free (pv ?s b)" using a(2) by (simp split: if_splits)
  have "tlsf_get_largest_free ?s = Some (fold (\<lambda>b m. if block_is_free (pv ?s b) then max m (block_size (pv ?s b)) else m) [b] 0)"
    unfolding tlsf_get_largest_free_def
  proof (rule largest_free_loop_chain [OF _ heap_inv_valid(1) [OF a(1)]])
    show "chain (pv ?s) (p0 ?s) [b] (pe ?s)" using i(2) by (simp add: pool_ok_def)
    show "pe ?s < 2 ^ 32 - 24" by (simp add: tlsf_init_def Let_def)
  qed
  then have large: "tlsf_get_largest_free ?s = Some 1048576" using z fr by simp
  have sz: "size_with_canary 900000 = Some 900008" by (simp add: size_with_canary_def ALIGN_UP_def)
  have ms: "mapping_search 900008 = (19, 12)" and cc: "clamped_class 1048576 = (19, 0)" by code_simp+
  have "find_suitable_block 900008 ?s = NULL"
  proof (rule ccontr)
    assume ne: "find_suitable_block 900008 ?s \<noteq> NULL"
    let ?x = "find_suitable_block 900008 ?s"
    obtain fl sl fl' sl' where x: "?x \<in> free_set F" "mapping_search 900008 = (int fl, int sl)"
      "fl < fl' \<or> fl = fl' \<and> sl \<le> sl'" "?x \<in> set (F fl' sl')"
      using find_suitable_block_fits [OF i(3) _ _ _ ne] i(7) by auto
    have "?x = b" using x(1) i(4) by (simp add: frees_def split: if_splits)
    then have "clamped_class (block_size (pv ?s b)) = (fl', sl')" using i(3) x(4) by (auto simp: lists_ok_def hdr_pv)
    with z cc x(2,3) ms show False by auto
  qed
  with large tlsf_malloc_null(2) [OF _ sz] show ?thesis by simp
qed simp_all


text \<open>
  C28. No leaks: however many blocks of whatever sizes up to \<open>0xF7FFFFFC\<close> bytes are allocated, the pointers that are
  returned are pairwise distinct and all live, and freeing them in order gives a healthy heap
  with exactly the pointers that were live before.
\<close>

theorem tlsf_no_leak:
  assumes "healthy s L" and "\<forall>n \<in> set ns. unat n \<le> 0xF7FFFFFC" and "alloc_all tlsf_malloc NULL ns s = (ps, s')"
  shows "healthy s' (L \<union> set ps) \<and> distinct (map fst ps) \<and> healthy (release_all tlsf_free ps s') L"
  by (rule tlsf_heap.no_leak [OF assms])

theorem tlsf_no_leak_witness:
  "\<exists>p s. tlsf_malloc 100 demo_heap = (p, s) \<and> p \<noteq> NULL \<and> healthy (release_all tlsf_free [(p, 100 :: u32)] s) {}"
proof (rule demo_malloc)
  fix p s assume m: "tlsf_malloc 100 demo_heap = (p, s)" "p \<noteq> NULL"
  from tlsf_no_leak [OF demo_run(2), of "[100]" "[(p, 100)]" s] m show ?thesis by simp
qed

end
