(* ===== verification/Device.thy ===== *)
theory Device
  imports Prelude
begin

text \<open>
  What the device models under \<open>src/qemu-machine/hw\<close> share.  A memory-mapped access has a 64-bit
  offset (\<open>hwaddr\<close>), a 64-bit value and an access size in bytes.  A \<open>qemu_irq\<close> output is the
  level last set on it, kept in the state of the device; a \<open>QEMUTimer\<close> is the deadline it is
  armed for, if any, a signed number of nanoseconds.

  The contract of an interrupt output is the locale \<open>irq_device\<close>: after every operation the
  level on the wire is the level the registers call for, so software never sees a stale
  interrupt.  Operations for which the sources do not guarantee this are left out by \<open>prompt\<close>.
  \<open>gated_irq_device\<close> adds that a device without clock or in reset is silent.
\<close>

type_synonym hwaddr = "64 word"

text \<open>Guest memory, and bytes written to successive addresses of it.\<close>

type_synonym gmem = "hwaddr \<Rightarrow> u8"

primrec store_bytes :: "hwaddr \<Rightarrow> u8 list \<Rightarrow> gmem \<Rightarrow> gmem" where
  "store_bytes a [] m = m"
| "store_bytes a (b # bs) m = store_bytes (a + 1) bs (m(a := b))"

lemma store_bytes_append:
  "store_bytes (a + of_nat (length xs)) ys (store_bytes a xs m) = store_bytes a (xs @ ys) m"
  by (induction xs arbitrary: a m) (simp_all flip: add.assoc)

text \<open>
  \<open>timer_mod\<close> arms a timer.  Its argument is an \<open>int64_t\<close>: the 64-bit sums that the devices hand over
  are read as signed numbers, and a timer whose deadline is not after the clock runs at once.
\<close>

definition timer_mod :: "u64 \<Rightarrow> int option" where
  "timer_mod ns = Some (sint ns)"

lemma timer_mod_armed [simp]: "timer_mod ns \<noteq> None" "timer_mod ns = Some d \<longleftrightarrow> d = sint ns"
  by (auto simp: timer_mod_def)

lemma sint_deadline:
  assumes "unat (x :: u64) < 2 ^ 63"
  shows "sint x = int (unat x)"
proof -
  have "int (unat x) < 2 ^ 63" using assms by (simp only: of_nat_less_numeral_power_cancel_iff)
  then have "uint x < 2 ^ 63" unfolding uint_nat .
  then have "signed_take_bit 63 (uint x) = uint x"
    using order_trans [of "- (2 ^ 63)" 0 "uint x"] by (intro signed_take_bit_int_eq_self) simp_all
  then show ?thesis unfolding uint_nat sint_uint by simp
qed

lemma sint_far:
  assumes "2 ^ 63 \<le> unat (x :: u64)"
  shows "sint x < 0"
proof -
  have "bit (uint x) 63"
  proof -
    have "2 ^ 63 \<le> int (unat x)" using assms by (simp only: numeral_power_le_of_nat_cancel_iff)
    then have lo: "9223372036854775808 \<le> uint x" unfolding uint_nat by simp
    have hi: "uint x < 18446744073709551616" using uint_lt2p [of x] by simp
    have "uint x div 9223372036854775808 = 1" using lo hi by (intro int_div_pos_eq [of _ _ 1 "uint x - 9223372036854775808"]) simp_all
    then show ?thesis by (simp add: bit_iff_odd)
  qed
  then show ?thesis by (simp add: sint_uint)
qed

text \<open>\<open>qemu_set_irq\<close> records a level; the bit test of the C sources.\<close>

definition tst :: "'a::len word \<Rightarrow> 'a word \<Rightarrow> bool" where
  "tst x m \<longleftrightarrow> x AND m \<noteq> 0"

lemma tst_BIT: "tst x (push_bit n 1) \<longleftrightarrow> bit x n" for x :: "'a::len word"
  by (simp only: tst_def bit_iff_and_push_bit_not_eq_0)

lemma tst_0 [simp]: "\<not> tst 0 m" "\<not> tst x 0"
  by (simp_all add: tst_def)

text \<open>
  Operations are folded over the state of the device; \<open>line\<close> is the level on the wire,
  \<open>level\<close> the level the registers call for.
\<close>

locale irq_device =
  fixes step :: "'op \<Rightarrow> 's \<Rightarrow> 's"
    and prompt :: "'op \<Rightarrow> bool"
    and start :: "'s \<Rightarrow> bool"
    and line :: "'s \<Rightarrow> bool"
    and level :: "'s \<Rightarrow> bool"
  assumes start_line: "start s \<Longrightarrow> line s = level s"
    and step_line: "prompt op \<Longrightarrow> line s = level s \<Longrightarrow> line (step op s) = level (step op s)"
begin

lemma run_line: "start s \<Longrightarrow> \<forall>op \<in> set ops. prompt op \<Longrightarrow> line (fold step ops s) = level (fold step ops s)"
proof (induction ops rule: rev_induct)
  case (snoc op ops)
  then show ?case by (simp add: step_line)
qed (simp add: start_line)

end

locale gated_irq_device = irq_device step prompt start line level
  for step :: "'op \<Rightarrow> 's \<Rightarrow> 's" and prompt start line level +
  fixes active :: "'s \<Rightarrow> bool"
  assumes level_active: "level s \<Longrightarrow> active s"
begin

lemma run_silent: "start s \<Longrightarrow> \<forall>op \<in> set ops. prompt op \<Longrightarrow> \<not> active (fold step ops s) \<Longrightarrow> \<not> line (fold step ops s)"
  using run_line level_active by blast

end

end
