(* ===== verification/Ipc.thy ===== *)
theory Ipc
  imports Device
begin

text \<open>
  The inter-processor mailbox, \<open>src/qemu-machine/hw/misc/bl808_ipc.c\<close>: 32 doorbell channels with
  a raw pending register and an enable mask, reachable through two register banks.
\<close>

section \<open>Model\<close>

record BL808IPCState =
  ipc_irq :: bool
  ipc_pending :: u32
  ipc_enabled :: u32
  ipc_clock_enabled :: bool
  ipc_reset_asserted :: bool

definition bl808_ipc_active :: "BL808IPCState \<Rightarrow> bool" where
  "bl808_ipc_active s \<longleftrightarrow> ipc_clock_enabled s \<and> \<not> ipc_reset_asserted s"

definition bl808_ipc_update_irq :: "BL808IPCState \<Rightarrow> BL808IPCState" where
  "bl808_ipc_update_irq s =
     (let asserted = (ipc_pending s AND ipc_enabled s \<noteq> 0)
      in s\<lparr>ipc_irq := bl808_ipc_active s \<and> asserted\<rparr>)"

abbreviation (input) IPC_SIZE :: hwaddr where "IPC_SIZE \<equiv> 0x40"

definition bl808_ipc_read :: "BL808IPCState \<Rightarrow> hwaddr \<Rightarrow> nat \<Rightarrow> u64" where
  "bl808_ipc_read s offset sz =
     (if sz \<noteq> 4 \<or> offset \<ge> IPC_SIZE then 0
      else if offset \<in> {0x00, 0x20} then 0
      else if offset \<in> {0x04, 0x24} then ucast (ipc_pending s)
      else if offset \<in> {0x08, 0x28} then 0
      else if offset \<in> {0x0C, 0x2C} then ucast (ipc_enabled s)
      else if offset \<in> {0x10, 0x30} then ucast (NOT (ipc_enabled s))
      else if offset \<in> {0x14, 0x1C, 0x3C} then ucast (ipc_pending s AND ipc_enabled s)
      else if offset \<in> {0x18, 0x34, 0x38} then 0xFFFFFFFF
      else 0)"

definition bl808_ipc_write :: "hwaddr \<Rightarrow> u64 \<Rightarrow> nat \<Rightarrow> BL808IPCState \<Rightarrow> BL808IPCState" where
  "bl808_ipc_write offset value sz s =
     (let masked = ucast value :: u32 in
      if sz \<noteq> 4 \<or> offset \<ge> IPC_SIZE then s
      else if ipc_reset_asserted s then s
      else if offset \<in> {0x00, 0x20}
        then bl808_ipc_update_irq (s\<lparr>ipc_pending := ipc_pending s OR masked\<rparr>)
      else if offset \<in> {0x08, 0x28}
        then bl808_ipc_update_irq (s\<lparr>ipc_pending := ipc_pending s AND NOT masked\<rparr>)
      else if offset \<in> {0x0C, 0x2C}
        then bl808_ipc_update_irq (s\<lparr>ipc_enabled := ipc_enabled s OR masked\<rparr>)
      else if offset \<in> {0x10, 0x30}
        then bl808_ipc_update_irq (s\<lparr>ipc_enabled := ipc_enabled s AND NOT masked\<rparr>)
      else s)"

definition bl808_ipc_init :: "BL808IPCState \<Rightarrow> BL808IPCState" where
  "bl808_ipc_init s = s\<lparr>ipc_clock_enabled := False, ipc_reset_asserted := False\<rparr>"

definition bl808_ipc_reset :: "BL808IPCState \<Rightarrow> BL808IPCState" where
  "bl808_ipc_reset s = bl808_ipc_update_irq (s\<lparr>ipc_pending := 0, ipc_enabled := 0\<rparr>)"

definition bl808_ipc_set_clock_enabled :: "bool \<Rightarrow> BL808IPCState \<Rightarrow> BL808IPCState" where
  "bl808_ipc_set_clock_enabled enabled s =
     bl808_ipc_update_irq (s\<lparr>ipc_clock_enabled := enabled\<rparr>)"

definition bl808_ipc_set_reset_asserted :: "bool \<Rightarrow> BL808IPCState \<Rightarrow> BL808IPCState" where
  "bl808_ipc_set_reset_asserted asserted s =
     (let s = s\<lparr>ipc_reset_asserted := asserted\<rparr>
      in if asserted then bl808_ipc_reset s else bl808_ipc_update_irq s)"

section \<open>Operations of the device\<close>

datatype ipc_op =
    Ipc_write hwaddr u64 nat
  | Ipc_reset
  | Ipc_clock bool
  | Ipc_reset_line bool

fun ipc_step :: "ipc_op \<Rightarrow> BL808IPCState \<Rightarrow> BL808IPCState" where
  "ipc_step (Ipc_write offset value sz) s = bl808_ipc_write offset value sz s"
| "ipc_step Ipc_reset s = bl808_ipc_reset s"
| "ipc_step (Ipc_clock b) s = bl808_ipc_set_clock_enabled b s"
| "ipc_step (Ipc_reset_line b) s = bl808_ipc_set_reset_asserted b s"

text \<open>A device as it leaves \<open>instance_init\<close> and the first reset.\<close>

definition ipc_fresh :: "BL808IPCState \<Rightarrow> bool" where
  "ipc_fresh s \<longleftrightarrow> (\<exists>t. s = bl808_ipc_reset (bl808_ipc_init t))"

lemmas ipc_defs = bl808_ipc_update_irq_def bl808_ipc_write_def bl808_ipc_reset_def
  bl808_ipc_set_clock_enabled_def bl808_ipc_set_reset_asserted_def bl808_ipc_init_def
  bl808_ipc_active_def Let_def

section \<open>The interrupt line\<close>

definition ipc_level :: "BL808IPCState \<Rightarrow> bool" where
  "ipc_level s \<longleftrightarrow> bl808_ipc_active s \<and> ipc_pending s AND ipc_enabled s \<noteq> 0"

lemma ipc_update_line [irq_simps]: "ipc_irq (bl808_ipc_update_irq s) = ipc_level (bl808_ipc_update_irq s)"
  by (simp add: ipc_level_def bl808_ipc_update_irq_def bl808_ipc_active_def Let_def)

interpretation ipc: gated_irq_device ipc_step "\<lambda>_. True" ipc_fresh ipc_irq ipc_level bl808_ipc_active
proof
  show "ipc_irq s = ipc_level s" if "ipc_fresh s" for s
    using that by (auto simp: ipc_fresh_def bl808_ipc_reset_def irq_simps)
  show "ipc_irq (ipc_step op s) = ipc_level (ipc_step op s)" if "ipc_irq s = ipc_level s" for op s
    using that by (cases op) (auto simp: bl808_ipc_write_def bl808_ipc_reset_def bl808_ipc_set_clock_enabled_def
        bl808_ipc_set_reset_asserted_def Let_def irq_simps)
  show "bl808_ipc_active s" if "ipc_level s" for s using that by (simp add: ipc_level_def)
qed

section \<open>Mailbox semantics\<close>

text \<open>The abstract mailbox: the sets of pending and of enabled channels.\<close>

definition channels :: "u32 \<Rightarrow> nat set" where
  "channels w = {i. bit w i}"

lemma channels_simps [simp]:
  "channels 0 = {}" "channels (a OR b) = channels a \<union> channels b"
  "channels (a AND NOT b) = channels a - channels b"
  by (auto simp: channels_def bit_simps dest: bit_imp_le_length)

lemma channels_and: "channels (a AND b) = channels a \<inter> channels b"
  by (auto simp: channels_def bit_simps)

lemma channels_empty [simp]: "channels w = {} \<longleftrightarrow> w = 0"
  by (auto simp: channels_def intro: bit_word_eqI)

text \<open>What one write does to the abstract mailbox \<open>(pending, enabled)\<close>.\<close>

fun mailbox_write :: "hwaddr \<Rightarrow> nat set \<Rightarrow> nat set \<times> nat set \<Rightarrow> nat set \<times> nat set" where
  "mailbox_write offset w (P, E) =
     (if offset \<in> {0x00, 0x20} then (P \<union> w, E)
      else if offset \<in> {0x08, 0x28} then (P - w, E)
      else if offset \<in> {0x0C, 0x2C} then (P, E \<union> w)
      else if offset \<in> {0x10, 0x30} then (P, E - w)
      else (P, E))"

definition mailbox :: "BL808IPCState \<Rightarrow> nat set \<times> nat set" where
  "mailbox s = (channels (ipc_pending s), channels (ipc_enabled s))"

lemma mailbox_update_irq [simp]: "mailbox (bl808_ipc_update_irq s) = mailbox s"
  by (simp add: mailbox_def bl808_ipc_update_irq_def Let_def)

lemma ipc_fields_update [simp]:
  "ipc_reset_asserted (bl808_ipc_update_irq s) = ipc_reset_asserted s"
  "ipc_pending (bl808_ipc_update_irq s) = ipc_pending s" "ipc_enabled (bl808_ipc_update_irq s) = ipc_enabled s"
  by (simp_all add: bl808_ipc_update_irq_def Let_def)

lemma mailbox_write_step:
  assumes "\<not> ipc_reset_asserted s"
  shows "mailbox (bl808_ipc_write offset value 4 s) = mailbox_write offset (channels (ucast value)) (mailbox s)"
    and "\<not> ipc_reset_asserted (bl808_ipc_write offset value 4 s)"
proof -
  have big: "offset \<ge> 0x40 \<Longrightarrow> offset \<notin> {0x00, 0x20, 0x08, 0x28, 0x0C, 0x2C, 0x10, 0x30}" by auto
  show "mailbox (bl808_ipc_write offset value 4 s) = mailbox_write offset (channels (ucast value)) (mailbox s)"
    using assms big by (cases "offset \<ge> 0x40") (simp_all add: bl808_ipc_write_def Let_def mailbox_def)
  show "\<not> ipc_reset_asserted (bl808_ipc_write offset value 4 s)"
    using assms by (simp add: bl808_ipc_write_def Let_def)
qed

section \<open>Properties\<close>

text \<open>
  The interrupt wire of a mailbox is never stale: after any sequence of register writes,
  resets, clock and reset-line changes it is high exactly when the device has its clock, is out
  of reset and some channel is both pending and enabled.
\<close>

theorem ipc_irq_exact:
  "let s = fold ipc_step ops (bl808_ipc_reset (bl808_ipc_init t)) in
    ipc_irq s \<longleftrightarrow> ipc_clock_enabled s \<and> \<not> ipc_reset_asserted s \<and> ipc_pending s AND ipc_enabled s \<noteq> 0"
  using ipc.run_line [of "bl808_ipc_reset (bl808_ipc_init t)" ops]
  by (auto simp: ipc_fresh_def ipc_level_def bl808_ipc_active_def Let_def)

text \<open>
  C33. The mailbox refines a pair of channel sets: a sequence of 32-bit writes to a device out of
  reset raises, acknowledges, unmasks and masks exactly the channels whose bits it names, and
  the status registers read back the pending set, the enabled set and their intersection.
\<close>

theorem ipc_mailbox_refines:
  assumes "\<not> ipc_reset_asserted s"
  shows "let s' = fold (\<lambda>(offset, value). bl808_ipc_write offset value 4) ws s in
    mailbox s' = fold (\<lambda>(offset, value). mailbox_write offset (channels (ucast value))) ws (mailbox s) \<and>
    bl808_ipc_read s' 0x24 4 = ucast (ipc_pending s') \<and> bl808_ipc_read s' 0x2C 4 = ucast (ipc_enabled s') \<and>
    channels (ucast (bl808_ipc_read s' 0x3C 4)) = fst (mailbox s') \<inter> snd (mailbox s')"
proof -
  have "mailbox (fold (\<lambda>(offset, value). bl808_ipc_write offset value 4) ws t) =
    fold (\<lambda>(offset, value). mailbox_write offset (channels (ucast value))) ws (mailbox t)"
    if "\<not> ipc_reset_asserted t" for t
    using that by (induction ws arbitrary: t) (auto simp: mailbox_write_step simp del: mailbox_write.simps)
  note this [OF assms]
  moreover have "ucast (ucast w :: u64) = w" for w :: u32 by (rule bit_word_eqI) (auto simp: bit_simps)
  ultimately show ?thesis by (simp add: bl808_ipc_read_def mailbox_def channels_and Let_def)
qed

theorem ipc_mailbox_refines_witness:
  "let s = \<lparr>ipc_irq = False, ipc_pending = 0, ipc_enabled = 0, ipc_clock_enabled = True, ipc_reset_asserted = False\<rparr>;
       s' = fold (\<lambda>(offset, value). bl808_ipc_write offset value 4) [(0x00, 5), (0x2C, 4), (0x28, 1)] s
   in mailbox s' = (channels 5 - channels 1, channels 4)"
  using ipc_mailbox_refines [of "\<lparr>ipc_irq = False, ipc_pending = 0, ipc_enabled = 0, ipc_clock_enabled = True, ipc_reset_asserted = False\<rparr>"
      "[(0x00, 5), (0x2C, 4), (0x28, 1)]"]
  by (simp add: mailbox_def Let_def)

end
