(* ===== verification/Cks.thy ===== *)
theory Cks
  imports Device
begin

text \<open>
  The checksum engine, \<open>src/qemu-machine/hw/misc/bl808_cks.c\<close>: bytes written to \<open>CKS_DATA_IN\<close> are
  paired into 16-bit words and added in ones' complement.
\<close>

section \<open>Model\<close>

record BL808CKSState =
  cks_config :: u32
  checksum :: u16
  pending_byte :: u8
  pending_valid :: bool
  cks_clock_enabled :: bool
  cks_reset_asserted :: bool

abbreviation (input) CKS_CONFIG :: hwaddr where "CKS_CONFIG \<equiv> 0x00"
abbreviation (input) CKS_DATA_IN :: hwaddr where "CKS_DATA_IN \<equiv> 0x04"
abbreviation (input) CKS_OUT :: hwaddr where "CKS_OUT \<equiv> 0x08"
abbreviation (input) CKS_CR_CKS_CLR :: u32 where "CKS_CR_CKS_CLR \<equiv> 1"
abbreviation (input) CKS_CR_CKS_BYTE_SWAP :: u32 where "CKS_CR_CKS_BYTE_SWAP \<equiv> 2"

definition bl808_cks_add_word :: "u16 \<Rightarrow> u16 \<Rightarrow> u16" where
  "bl808_cks_add_word acc w =
     (let total = ucast acc + ucast w :: u32;
          total = (total AND 0xffff) + drop_bit 16 total;
          total = (total AND 0xffff) + drop_bit 16 total
      in ucast total)"

definition bl808_cks_current_output :: "BL808CKSState \<Rightarrow> u16" where
  "bl808_cks_current_output s =
     (let acc = checksum s in
      if pending_valid s
      then let w = (if cks_config s AND CKS_CR_CKS_BYTE_SWAP \<noteq> 0
                    then push_bit 8 (ucast (pending_byte s)) else ucast (pending_byte s))
           in bl808_cks_add_word acc w
      else acc)"

definition bl808_cks_reset_state :: "BL808CKSState \<Rightarrow> BL808CKSState" where
  "bl808_cks_reset_state s =
     s\<lparr>cks_config := 0, checksum := 0xffff, pending_byte := 0, pending_valid := False\<rparr>"

definition bl808_cks_set_clock_enabled :: "bool \<Rightarrow> BL808CKSState \<Rightarrow> BL808CKSState" where
  "bl808_cks_set_clock_enabled enabled s = s\<lparr>cks_clock_enabled := enabled\<rparr>"

definition bl808_cks_set_reset_asserted :: "bool \<Rightarrow> BL808CKSState \<Rightarrow> BL808CKSState" where
  "bl808_cks_set_reset_asserted asserted s =
     (let s = s\<lparr>cks_reset_asserted := asserted\<rparr>
      in if asserted then bl808_cks_reset_state s else s)"

definition bl808_cks_read :: "BL808CKSState \<Rightarrow> hwaddr \<Rightarrow> u64" where
  "bl808_cks_read s offset =
     (if offset = CKS_CONFIG then ucast (cks_config s)
      else if offset = CKS_DATA_IN then 0
      else if offset = CKS_OUT then ucast (bl808_cks_current_output s)
      else 0)"

definition bl808_cks_write :: "hwaddr \<Rightarrow> u64 \<Rightarrow> BL808CKSState \<Rightarrow> BL808CKSState" where
  "bl808_cks_write offset value s =
     (let val = ucast value :: u32 in
      if offset = CKS_CONFIG then
        let s = s\<lparr>cks_config := val AND CKS_CR_CKS_BYTE_SWAP\<rparr> in
        if val AND CKS_CR_CKS_CLR \<noteq> 0
        then s\<lparr>checksum := 0xffff, pending_valid := False, pending_byte := 0\<rparr> else s
      else if offset = CKS_DATA_IN then
        let byte = ucast (val AND 0xff) :: u8 in
        if \<not> pending_valid s then s\<lparr>pending_byte := byte, pending_valid := True\<rparr>
        else let w = (if cks_config s AND CKS_CR_CKS_BYTE_SWAP \<noteq> 0
                      then push_bit 8 (ucast (pending_byte s)) OR ucast byte
                      else push_bit 8 (ucast byte) OR ucast (pending_byte s));
                 s = s\<lparr>checksum := bl808_cks_add_word (checksum s) w\<rparr>
             in s\<lparr>pending_valid := False, pending_byte := 0\<rparr>
      else s)"

section \<open>Ones' complement addition\<close>

lemma unat_ucast_16_32 [simp]: "unat (ucast (a :: u16) :: u32) = unat a"
  by (simp add: unat_ucast_up)

lemma unat16_lt: "unat (a :: u16) < 65536"
  using unat_less_len [of a] by simp

lemma unat_and_ffff: "unat ((x :: u32) AND 0xffff) = unat x mod 65536"
  using unat_and_mask [of x 16] by (simp add: mask_numeral)

lemma fold_carry:
  assumes "unat (x :: u32) < 131072"
  shows "unat ((x AND 0xffff) + drop_bit 16 x) = unat x mod 65536 + unat x div 65536"
proof -
  have "unat x mod 65536 + unat x div 65536 < 2 ^ 32" using assms by simp
  then show ?thesis by (subst unat_add_small) (simp_all add: unat_and_ffff unat_drop_bit)
qed

text \<open>One addition keeps a non-zero accumulator non-zero and adds modulo 65535.\<close>

lemma add_word_mod:
  assumes "0 < unat acc"
  shows "unat (bl808_cks_add_word acc w) = (unat acc + unat w - 1) mod 65535 + 1"
proof -
  let ?t = "ucast acc + ucast w :: u32"
  let ?t1 = "(?t AND 0xffff) + drop_bit 16 ?t" let ?t2 = "(?t1 AND 0xffff) + drop_bit 16 ?t1"
  define n where "n = unat acc + unat w"
  have n: "0 < n" "n \<le> 131070" using assms unat16_lt [of acc] unat16_lt [of w] by (simp_all add: n_def)
  have t: "unat ?t = n" using n by (subst unat_add_small) (simp_all add: n_def)
  have t1: "unat ?t1 = n mod 65536 + n div 65536" using fold_carry [of ?t] t n by simp
  have split: "n < 65536 \<or> n mod 65536 = n - 65536 \<and> n div 65536 = 1"
    using n div_nat_eqI [of 65536 1 n] le_mod_geq [of 65536 n] by auto
  have t1b: "unat ?t1 \<le> 65535" unfolding t1 using n split by auto
  have t2: "unat ?t2 = unat ?t1" using fold_carry [of ?t1] t1b by simp
  have "unat ?t1 = (n - 1) mod 65535 + 1"
  proof (cases "n < 65536")
    case False
    then have "unat ?t1 = n - 65535" using split t1 by auto
    moreover have "(n - 1) mod 65535 = n - 1 - 65535" using False n le_mod_geq [of 65535 "n - 1"] by auto
    ultimately show ?thesis using False by simp
  qed (use n t1 in simp)
  moreover have "unat (ucast ?t2 :: u16) = unat ?t2"
    using t1b t2 unat_and_mask [of ?t2 16] by (simp add: unsigned_ucast_eq take_bit_eq_mod)
  ultimately show ?thesis
    using t2 by (simp add: bl808_cks_add_word_def Let_def n_def)
qed

section \<open>The sum of a byte sequence\<close>

fun cks_words :: "bool \<Rightarrow> u8 list \<Rightarrow> nat" where
  "cks_words swap [] = 0"
| "cks_words swap [a] = (if swap then unat a * 256 else unat a)"
| "cks_words swap (a # b # bs) =
     (if swap then unat a * 256 + unat b else unat b * 256 + unat a) + cks_words swap bs"

definition cks_feed :: "u8 list \<Rightarrow> BL808CKSState \<Rightarrow> BL808CKSState" where
  "cks_feed bs s = fold (\<lambda>b. bl808_cks_write CKS_DATA_IN (ucast b)) bs s"

lemma byte_pair: "unat (push_bit 8 (ucast (a :: u8)) OR ucast (b :: u8) :: u16) = unat a * 256 + unat b"
proof -
  have eq: "push_bit 8 (ucast a) OR ucast b = (push_bit 8 (ucast a) + ucast b :: u16)"
  proof -
    have "push_bit 8 (ucast a) AND ucast b = (0 :: u16)"
      by (rule bit_word_eqI) (auto simp: bit_simps dest: bit_imp_le_length)
    then show ?thesis by (metis add_0 word_plus_and_or)
  qed
  have a: "unat (push_bit 8 (ucast a) :: u16) = unat a * 256"
    using unat_push_bit [of "ucast a :: u16" 8] unat8_lt [of a] by (simp add: unat_ucast_up)
  have "unat a * 256 + unat b < 65536" using unat8_lt [of a] unat8_lt [of b] by linarith
  then show ?thesis unfolding eq by (subst unat_add_small) (simp_all add: a unat_ucast_up)
qed

lemma byte_single: "unat (push_bit 8 (ucast (a :: u8)) :: u16) = unat a * 256"
  using byte_pair [of a 0] by simp

lemma data_byte [simp]: "ucast (ucast (ucast (b :: u8) :: u64) AND (0xff :: u32)) = b"
proof -
  have m: "mask 8 = (0xff :: u32)" by (simp add: mask_numeral)
  have "ucast (ucast (ucast b :: u64) AND (mask 8 :: u32)) = b"
    by (rule bit_word_eqI) (auto simp: bit_simps)
  then show ?thesis by (simp only: m)
qed

lemma cks_feed_output:
  assumes "\<not> pending_valid s" "0 < unat (checksum s)"
  shows "unat (bl808_cks_current_output (cks_feed bs s)) =
    (unat (checksum s) + cks_words (cks_config s AND CKS_CR_CKS_BYTE_SWAP \<noteq> 0) bs - 1) mod 65535 + 1"
  using assms
proof (induction "cks_config s AND CKS_CR_CKS_BYTE_SWAP \<noteq> 0" bs arbitrary: s rule: cks_words.induct)
  case (1 s)
  have "unat (checksum s) - 1 < 65535" using unat16_lt [of "checksum s"] 1(2) by linarith
  then show ?case using 1 by (simp add: cks_feed_def bl808_cks_current_output_def)
next
  case (2 a s)
  then show ?case
    by (simp add: cks_feed_def bl808_cks_current_output_def bl808_cks_write_def Let_def add_word_mod byte_single
        unat_ucast_up)
next
  case (3 a b bs s)
  let ?w = "if cks_config s AND CKS_CR_CKS_BYTE_SWAP \<noteq> 0 then push_bit 8 (ucast a) OR ucast b else push_bit 8 (ucast b) OR ucast a :: u16"
  let ?s = "s\<lparr>checksum := bl808_cks_add_word (checksum s) ?w, pending_valid := False, pending_byte := 0\<rparr>"
  have feed: "cks_feed (a # b # bs) s = cks_feed bs ?s"
    using 3(2) by (simp add: cks_feed_def bl808_cks_write_def Let_def)
  have c: "unat (checksum ?s) = (unat (checksum s) + unat ?w - 1) mod 65535 + 1"
    using add_word_mod [OF 3(3), of ?w] by simp
  have w: "unat ?w = (if cks_config s AND CKS_CR_CKS_BYTE_SWAP \<noteq> 0 then unat a * 256 + unat b else unat b * 256 + unat a)"
    by (simp add: byte_pair)
  let ?r = "cks_words (cks_config s AND CKS_CR_CKS_BYTE_SWAP \<noteq> 0) bs"
  have "unat (bl808_cks_current_output (cks_feed bs ?s)) = (unat (checksum ?s) + ?r - 1) mod 65535 + 1"
    using 3(1) [of ?s] c by simp
  also have "\<dots> = ((unat (checksum s) + unat ?w - 1) mod 65535 + ?r) mod 65535 + 1" using c by simp
  also have "\<dots> = (unat (checksum s) + unat ?w - 1 + ?r) mod 65535 + 1" by (simp add: mod_add_left_eq)
  also have "unat (checksum s) + unat ?w - 1 + ?r = unat (checksum s) + (unat ?w + ?r) - 1" using 3(3) by simp
  finally show ?case unfolding feed using w by simp
qed

section \<open>Properties\<close>

text \<open>
  C32. The checksum engine computes the ones' complement sum: after \<open>CKS_CLR\<close> with either byte
  order, feeding the bytes \<open>bs\<close> one register write at a time makes \<open>CKS_OUT\<close> read the sum of the
  16-bit words they form (a last odd byte padded with zero), reduced modulo 65535 into 1..65535.
\<close>

theorem cks_ones_complement_sum:
  "unat (bl808_cks_read (cks_feed bs (bl808_cks_write CKS_CONFIG (if swap then 3 else 1) s)) CKS_OUT) =
    (65534 + cks_words swap bs) mod 65535 + 1"
proof -
  let ?s = "bl808_cks_write CKS_CONFIG (if swap then 3 else 1) s"
  have s: "\<not> pending_valid ?s" "checksum ?s = 0xffff" "(cks_config ?s AND CKS_CR_CKS_BYTE_SWAP \<noteq> 0) = swap"
    by (simp_all add: bl808_cks_write_def Let_def)
  have "unat (bl808_cks_current_output (cks_feed bs ?s)) = (65534 + cks_words swap bs) mod 65535 + 1"
    using cks_feed_output [OF s(1), of bs] s(2,3) by simp
  then show ?thesis by (simp add: bl808_cks_read_def unat_ucast_up)
qed

end
