(* ===== verification/Clint.thy ===== *)
theory Clint
  imports Device
begin

text \<open>
  The core-local interruptor, \<open>src/qemu-machine/hw/intc/thead_clint.c\<close>: one software-interrupt
  register and one 64-bit compare register per hart, and the machine timer they compare with.

  The virtual clock and \<open>muldiv64\<close> belong to QEMU: the time of a call is the argument \<open>now\<close>
  (nanoseconds), and \<open>muldiv64\<close> is the parameter \<open>muldiv\<close>, of which only the documented behaviour
  \<open>muldiv_ok\<close> is used.  \<open>clint_timer\<close> holds the deadline each \<open>QEMUTimer\<close> is armed for.
\<close>

section \<open>Model\<close>

record THEADCLINTState =
  msip :: "u32 list"
  mtimecmp :: "u64 list"
  time_delta :: u64
  num_harts :: nat
  timebase_freq :: u32
  clint_timer :: "int option list"
  pirq :: "bool list"

type_synonym muldiv64 = "u64 \<Rightarrow> u32 \<Rightarrow> u32 \<Rightarrow> u64"

abbreviation (input) NANOSECONDS_PER_SECOND :: u32 where "NANOSECONDS_PER_SECOND \<equiv> 1000000000"

definition thead_clint_read_rtc_raw :: "muldiv64 \<Rightarrow> u64 \<Rightarrow> THEADCLINTState \<Rightarrow> u64" where
  "thead_clint_read_rtc_raw muldiv now s = muldiv now (timebase_freq s) NANOSECONDS_PER_SECOND"

definition thead_clint_read_rtc :: "muldiv64 \<Rightarrow> u64 \<Rightarrow> THEADCLINTState \<Rightarrow> u64" where
  "thead_clint_read_rtc muldiv now s = thead_clint_read_rtc_raw muldiv now s + time_delta s"

text \<open>The callback of the timer of one hart; the timer is no longer armed when it runs.\<close>

definition thead_clint_timer_cb :: "nat \<Rightarrow> THEADCLINTState \<Rightarrow> THEADCLINTState" where
  "thead_clint_timer_cb hart s =
     s\<lparr>clint_timer := (clint_timer s)[hart := None], pirq := (pirq s)[2 * hart + 1 := True]\<rparr>"

definition thead_clint_write_timecmp ::
    "muldiv64 \<Rightarrow> u64 \<Rightarrow> nat \<Rightarrow> u64 \<Rightarrow> THEADCLINTState \<Rightarrow> THEADCLINTState" where
  "thead_clint_write_timecmp muldiv now hartid value s =
     (let rtc = thead_clint_read_rtc muldiv now s;
          s = s\<lparr>mtimecmp := (mtimecmp s)[hartid := value]\<rparr>;
          s = s\<lparr>pirq := (pirq s)[2 * hartid + 1 := False]\<rparr>
      in if value \<le> rtc then s\<lparr>pirq := (pirq s)[2 * hartid + 1 := True]\<rparr>
         else let diff = value - rtc;
                  ns = now + muldiv diff NANOSECONDS_PER_SECOND (timebase_freq s)
              in s\<lparr>clint_timer := (clint_timer s)[hartid := timer_mod ns]\<rparr>)"

definition thead_clint_read :: "muldiv64 \<Rightarrow> u64 \<Rightarrow> THEADCLINTState \<Rightarrow> hwaddr \<Rightarrow> nat \<Rightarrow> u64" where
  "thead_clint_read muldiv now s addr sz =
     (if addr AND 3 \<noteq> 0 \<or> sz \<noteq> 4 then 0
      else if unat addr < num_harts s * 4 then ucast (msip s ! (unat addr div 4))
      else if 0x4000 \<le> unat addr \<and> unat addr < 0x4000 + num_harts s * 8
        then let hartid = (unat addr - 0x4000) div 8 in
             if addr AND 7 = 0 then mtimecmp s ! hartid AND 0xFFFFFFFF
             else drop_bit 32 (mtimecmp s ! hartid) AND 0xFFFFFFFF
      else if addr = 0xBFF8 then thead_clint_read_rtc muldiv now s AND 0xFFFFFFFF
      else if addr = 0xBFFC then drop_bit 32 (thead_clint_read_rtc muldiv now s) AND 0xFFFFFFFF
      else 0)"

definition thead_clint_write ::
    "muldiv64 \<Rightarrow> u64 \<Rightarrow> hwaddr \<Rightarrow> u64 \<Rightarrow> nat \<Rightarrow> THEADCLINTState \<Rightarrow> THEADCLINTState" where
  "thead_clint_write muldiv now addr value sz s =
     (if addr AND 3 \<noteq> 0 \<or> sz \<noteq> 4 then s
      else if unat addr < num_harts s * 4
        then let hartid = unat addr div 4;
                 s = s\<lparr>msip := (msip s)[hartid := ucast (value AND 1)]\<rparr>
             in s\<lparr>pirq := (pirq s)[hartid * 2 := (value AND 1 \<noteq> 0)]\<rparr>
      else if 0x4000 \<le> unat addr \<and> unat addr < 0x4000 + num_harts s * 8
        then let hartid = (unat addr - 0x4000) div 8 in
             if addr AND 7 = 0
             then let hi = mtimecmp s ! hartid AND 0xFFFFFFFF00000000
                  in thead_clint_write_timecmp muldiv now hartid (hi OR (value AND 0xFFFFFFFF)) s
             else let lo = mtimecmp s ! hartid AND 0xFFFFFFFF
                  in thead_clint_write_timecmp muldiv now hartid (push_bit 32 value OR lo) s
      else if addr = 0xBFF8 \<or> addr = 0xBFFC
        then let rtc_raw = thead_clint_read_rtc_raw muldiv now s;
                 rtc = thead_clint_read_rtc muldiv now s;
                 s = (if addr = 0xBFF8
                      then s\<lparr>time_delta := ((rtc AND NOT 0xFFFFFFFF) OR (value AND 0xFFFFFFFF)) - rtc_raw\<rparr>
                      else s\<lparr>time_delta := (push_bit 32 (value AND 0xFFFFFFFF) OR (rtc AND 0xFFFFFFFF)) - rtc_raw\<rparr>)
             in fold (\<lambda>hartid s. thead_clint_write_timecmp muldiv now hartid (mtimecmp s ! hartid) s)
                  [0..<num_harts s] s
      else s)"

definition thead_clint_realize :: "nat \<Rightarrow> u32 \<Rightarrow> THEADCLINTState" where
  "thead_clint_realize harts freq =
     \<lparr>msip = replicate harts 0, mtimecmp = replicate harts (- 1), time_delta = 0, num_harts = harts,
      timebase_freq = freq, clint_timer = replicate harts None, pirq = replicate (2 * harts) False\<rparr>"

section \<open>Well-formed states\<close>

definition clint_wf :: "THEADCLINTState \<Rightarrow> bool" where
  "clint_wf s \<longleftrightarrow> length (msip s) = num_harts s \<and> length (mtimecmp s) = num_harts s \<and>
     length (clint_timer s) = num_harts s \<and> length (pirq s) = 2 * num_harts s \<and> 0 < timebase_freq s"

lemma clint_wf_realize: "0 < freq \<Longrightarrow> clint_wf (thead_clint_realize harts freq)"
  by (simp add: clint_wf_def thead_clint_realize_def)

lemma write_timecmp_frame [simp]:
  "num_harts (thead_clint_write_timecmp muldiv now h v s) = num_harts s"
  "timebase_freq (thead_clint_write_timecmp muldiv now h v s) = timebase_freq s"
  "time_delta (thead_clint_write_timecmp muldiv now h v s) = time_delta s"
  "msip (thead_clint_write_timecmp muldiv now h v s) = msip s"
  "mtimecmp (thead_clint_write_timecmp muldiv now h v s) = (mtimecmp s)[h := v]"
  "length (pirq (thead_clint_write_timecmp muldiv now h v s)) = length (pirq s)"
  "length (clint_timer (thead_clint_write_timecmp muldiv now h v s)) = length (clint_timer s)"
  by (simp_all add: thead_clint_write_timecmp_def Let_def)

lemma clint_wf_write_timecmp: "clint_wf s \<Longrightarrow> clint_wf (thead_clint_write_timecmp muldiv now h v s)"
  by (simp add: clint_wf_def)

section \<open>The time base\<close>

text \<open>\<open>muldiv64(a, b, c)\<close> is \<open>a * b / c\<close> computed without intermediate overflow.\<close>

definition muldiv_ok :: "muldiv64 \<Rightarrow> bool" where
  "muldiv_ok muldiv \<longleftrightarrow> (\<forall>a b c. c \<noteq> 0 \<longrightarrow> unat a * unat b div unat c < 2 ^ 64 \<longrightarrow>
     unat (muldiv a b c) = unat a * unat b div unat c)"

definition muldiv_ref :: muldiv64 where
  "muldiv_ref a b c = of_nat (unat a * unat b div unat c)"

lemma muldiv_ref_ok: "muldiv_ok muldiv_ref"
  by (simp add: muldiv_ok_def muldiv_ref_def unat_of_nat_small)

lemma rtc_raw_tick:
  assumes "muldiv_ok muldiv" "unat (timebase_freq s) * k = 1000000000"
  shows "unat (thead_clint_read_rtc_raw muldiv now s) = unat now div k"
proof -
  have k: "0 < k" "0 < unat (timebase_freq s)" using assms(2) by (auto intro: Nat.gr0I)
  have "unat now * unat (timebase_freq s) div unat (1000000000 :: u32) = unat now * unat (timebase_freq s) div (unat (timebase_freq s) * k)"
    using assms(2) by simp
  also have "\<dots> = unat now div k" using k by (simp add: mult.commute)
  finally have eq: "unat now * unat (timebase_freq s) div unat (1000000000 :: u32) = unat now div k" .
  have "unat now div k < 2 ^ 64" using le_less_trans [OF div_le_dividend unat_less_len [of now]] by simp
  then show ?thesis using assms(1) eq by (simp add: thead_clint_read_rtc_raw_def muldiv_ok_def)
qed


lemma write_timecmp_line:
  assumes "clint_wf s" "h < num_harts s"
  shows "pirq (thead_clint_write_timecmp muldiv now h v s) ! (2 * h + 1) = (v \<le> thead_clint_read_rtc muldiv now s)"
    and "i \<noteq> 2 * h + 1 \<Longrightarrow> pirq (thead_clint_write_timecmp muldiv now h v s) ! i = pirq s ! i"
    and "v > thead_clint_read_rtc muldiv now s \<Longrightarrow>
      clint_timer (thead_clint_write_timecmp muldiv now h v s) ! h =
        timer_mod (now + muldiv (v - thead_clint_read_rtc muldiv now s) 1000000000 (timebase_freq s))"
    and "j \<noteq> h \<Longrightarrow> clint_timer (thead_clint_write_timecmp muldiv now h v s) ! j = clint_timer s ! j"
  using assms by (auto simp: thead_clint_write_timecmp_def clint_wf_def Let_def not_le)

lemma read_rtc_write_timecmp [simp]:
  "thead_clint_read_rtc muldiv t (thead_clint_write_timecmp muldiv' now h v s) = thead_clint_read_rtc muldiv t s"
  by (simp add: thead_clint_read_rtc_def thead_clint_read_rtc_raw_def)

text \<open>Re-evaluating the compare registers of the first \<open>n\<close> harts.\<close>

definition reeval :: "muldiv64 \<Rightarrow> u64 \<Rightarrow> nat \<Rightarrow> THEADCLINTState \<Rightarrow> THEADCLINTState" where
  "reeval muldiv now n s = fold (\<lambda>h s. thead_clint_write_timecmp muldiv now h (mtimecmp s ! h) s) [0..<n] s"

lemma reeval_lines:
  assumes "clint_wf s" "n \<le> num_harts s"
  shows "clint_wf (reeval muldiv now n s) \<and> num_harts (reeval muldiv now n s) = num_harts s \<and>
    mtimecmp (reeval muldiv now n s) = mtimecmp s \<and>
    (\<forall>t. thead_clint_read_rtc muldiv t (reeval muldiv now n s) = thead_clint_read_rtc muldiv t s) \<and>
    (\<forall>h < n. pirq (reeval muldiv now n s) ! (2 * h + 1) = (mtimecmp s ! h \<le> thead_clint_read_rtc muldiv now s))"
  using assms(2)
proof (induction n)
  case 0 then show ?case using assms(1) by (simp add: reeval_def)
next
  case (Suc n)
  let ?s = "reeval muldiv now n s"
  have ih: "clint_wf ?s" "num_harts ?s = num_harts s" "mtimecmp ?s = mtimecmp s"
    "thead_clint_read_rtc muldiv t ?s = thead_clint_read_rtc muldiv t s"
    "h < n \<Longrightarrow> pirq ?s ! (2 * h + 1) = (mtimecmp s ! h \<le> thead_clint_read_rtc muldiv now s)" for t h
    using Suc by auto
  have eq: "reeval muldiv now (Suc n) s = thead_clint_write_timecmp muldiv now n (mtimecmp s ! n) ?s"
    using ih(3) by (simp add: reeval_def)
  have n: "n < num_harts ?s" using Suc.prems ih(2) by simp
  note l = write_timecmp_line [OF ih(1) n, where muldiv = muldiv and now = now and v = "mtimecmp s ! n"]
  have "pirq (reeval muldiv now (Suc n) s) ! (2 * h + 1) = (mtimecmp s ! h \<le> thead_clint_read_rtc muldiv now s)"
    if "h < Suc n" for h
    using that l ih(4,5) unfolding eq by (cases "h = n") auto
  then show ?case unfolding eq using ih by (auto simp: clint_wf_write_timecmp)
qed

lemma halves_lo: "(a AND NOT 0xFFFFFFFF OR b AND 0xFFFFFFFF) AND (0xFFFFFFFF :: u64) = b AND 0xFFFFFFFF"
    "drop_bit 32 (a AND NOT 0xFFFFFFFF OR b AND 0xFFFFFFFF) AND (0xFFFFFFFF :: u64) = drop_bit 32 a AND 0xFFFFFFFF"
  and halves_hi: "(push_bit 32 b OR a AND 0xFFFFFFFF) AND (0xFFFFFFFF :: u64) = a AND 0xFFFFFFFF"
    "drop_bit 32 (push_bit 32 b OR a AND 0xFFFFFFFF) AND (0xFFFFFFFF :: u64) = b AND 0xFFFFFFFF"
proof -
  have m: "mask 32 = (0xFFFFFFFF :: u64)" by (simp add: mask_numeral)
  show "(a AND NOT 0xFFFFFFFF OR b AND 0xFFFFFFFF) AND (0xFFFFFFFF :: u64) = b AND 0xFFFFFFFF"
    "drop_bit 32 (a AND NOT 0xFFFFFFFF OR b AND 0xFFFFFFFF) AND (0xFFFFFFFF :: u64) = drop_bit 32 a AND 0xFFFFFFFF"
    "(push_bit 32 b OR a AND 0xFFFFFFFF) AND (0xFFFFFFFF :: u64) = a AND 0xFFFFFFFF"
    "drop_bit 32 (push_bit 32 b OR a AND 0xFFFFFFFF) AND (0xFFFFFFFF :: u64) = b AND 0xFFFFFFFF"
    unfolding m [symmetric]
    by (rule bit_word_eqI, auto simp: bit_simps)+
qed

section \<open>Compare registers\<close>

lemma and_low:
  assumes "n < 2 ^ 64"
  shows "of_nat n AND (3 :: hwaddr) = 0 \<longleftrightarrow> n mod 4 = 0" "of_nat n AND (7 :: hwaddr) = 0 \<longleftrightarrow> n mod 8 = 0"
proof -
  have "of_nat n AND mask k = (0 :: hwaddr) \<longleftrightarrow> unat (of_nat n AND mask k :: hwaddr) = 0" for k by (simp only: unat_eq_0)
  then have "of_nat n AND mask k = (0 :: hwaddr) \<longleftrightarrow> n mod 2 ^ k = 0" for k
    using assms by (simp add: unat_and_mask unat_of_nat_small)
  from this [of 2] this [of 3] show "of_nat n AND (3 :: hwaddr) = 0 \<longleftrightarrow> n mod 4 = 0" "of_nat n AND (7 :: hwaddr) = 0 \<longleftrightarrow> n mod 8 = 0"
    by (simp_all add: mask_numeral)
qed

text \<open>The address of a half of a compare register.\<close>

definition half_addr :: "nat \<Rightarrow> bool \<Rightarrow> hwaddr" where
  "half_addr h upper = of_nat (0x4000 + 8 * h + (if upper then 4 else 0))"

lemma half_addr:
  assumes "h < num_harts s" "num_harts s \<le> 4094"
  shows "half_addr h upper AND 3 = 0" "half_addr h upper AND 7 = 0 \<longleftrightarrow> \<not> upper" "(unat (half_addr h upper) - 0x4000) div 8 = h"
    "\<not> unat (half_addr h upper) < num_harts s * 4" "0x4000 \<le> unat (half_addr h upper)" "unat (half_addr h upper) < 0x4000 + num_harts s * 8"
proof -
  let ?n = "0x4000 + 8 * h + (if upper then 4 else 0)"
  have n: "?n < 2 ^ 64" using assms by simp
  then have u: "unat (half_addr h upper) = ?n" unfolding half_addr_def by (intro unat_of_nat_small) simp
  have "(0x4000 + 8 * h) mod 4 = 0" "(0x4000 + 8 * h) mod 8 = 0" "(0x4004 + 8 * h) mod 4 = 0" "(0x4004 + 8 * h) mod 8 = 4" by presburger+
  then have "?n mod 4 = 0" "?n mod 8 = 0 \<longleftrightarrow> \<not> upper" by (cases upper; simp)+
  then show "half_addr h upper AND 3 = 0" "half_addr h upper AND 7 = 0 \<longleftrightarrow> \<not> upper"
    unfolding half_addr_def and_low [OF n] by simp_all
  show "(unat (half_addr h upper) - 0x4000) div 8 = h" "\<not> unat (half_addr h upper) < num_harts s * 4"
    "0x4000 \<le> unat (half_addr h upper)" "unat (half_addr h upper) < 0x4000 + num_harts s * 8"
    unfolding u using assms by auto
qed

lemma read_half:
  assumes "h < num_harts s" "num_harts s \<le> 4094"
  shows "thead_clint_read muldiv now s (half_addr h upper) 4 = (if upper then drop_bit 32 (mtimecmp s ! h) else mtimecmp s ! h) AND 0xFFFFFFFF"
  using half_addr [OF assms] by (simp add: thead_clint_read_def Let_def)

definition with_half :: "bool \<Rightarrow> u64 \<Rightarrow> u64 \<Rightarrow> u64" where
  "with_half upper value old =
     (if upper then push_bit 32 value OR (old AND 0xFFFFFFFF) else (old AND NOT 0xFFFFFFFF) OR (value AND 0xFFFFFFFF))"

lemma write_half:
  assumes "h < num_harts s" "num_harts s \<le> 4094"
  shows "thead_clint_write muldiv now (half_addr h upper) value 4 s =
    thead_clint_write_timecmp muldiv now h (with_half upper value (mtimecmp s ! h)) s"
proof -
  have eq: "(0xFFFFFFFF00000000 :: u64) = - 0x100000000" by simp
  show ?thesis using half_addr [OF assms, of upper] by (simp add: thead_clint_write_def Let_def with_half_def eq)
qed

lemma with_half_reads:
  "(if upper then drop_bit 32 (with_half upper value old) else with_half upper value old) AND 0xFFFFFFFF = value AND 0xFFFFFFFF"
  "(if \<not> upper then drop_bit 32 (with_half upper value old) else with_half upper value old) AND 0xFFFFFFFF =
    (if \<not> upper then drop_bit 32 old else old) AND 0xFFFFFFFF"
  unfolding with_half_def by (simp_all only: halves_lo halves_hi split: if_splits) simp_all

section \<open>Deadlines\<close>

lemma read_rtc_later:
  assumes ok: "muldiv_ok muldiv" "unat (timebase_freq s) * k = 1000000000"
    and t: "now \<le> t" "unat (thead_clint_read_rtc muldiv now s) + (unat t - unat now) < 2 ^ 64"
  shows "unat (thead_clint_read_rtc muldiv t s) = unat (thead_clint_read_rtc muldiv now s) + (unat t div k - unat now div k)"
proof -
  let ?e = "unat t div k - unat now div k"
  have k: "0 < k" using ok(2) by (auto intro: Nat.gr0I)
  have le: "unat now \<le> unat t" using t(1) by (simp add: word_le_unat)
  then have "unat t \<le> unat now + (unat t - unat now) * k" using k by (cases k) simp_all
  then have "unat t div k \<le> (unat now + (unat t - unat now) * k) div k" by (rule div_le_mono)
  then have "?e \<le> unat t - unat now" using k by simp
  then have small: "unat (thead_clint_read_rtc muldiv now s) + ?e < 2 ^ 64" using t(2) by linarith
  have raw: "thead_clint_read_rtc_raw muldiv x s = of_nat (unat x div k)" for x
    using rtc_raw_tick [OF ok, of x] by (metis of_nat_unat ucast_id)
  have "thead_clint_read_rtc_raw muldiv t s = thead_clint_read_rtc_raw muldiv now s + of_nat ?e"
    unfolding raw using div_le_mono [OF le, of k] by (simp flip: of_nat_add)
  then have "thead_clint_read_rtc muldiv t s = thead_clint_read_rtc muldiv now s + of_nat ?e" by (simp add: thead_clint_read_rtc_def)
  then show ?thesis using small by (simp add: unat_add_small unat_of_nat_small)
qed

lemma timecmp_deadline:
  assumes ok: "muldiv_ok muldiv" "unat (timebase_freq s) * k = 1000000000"
    and lim: "unat now + (unat v - unat (thead_clint_read_rtc muldiv now s)) * k < 2 ^ 64"
  shows "v > thead_clint_read_rtc muldiv now s \<Longrightarrow> unat (now + muldiv (v - thead_clint_read_rtc muldiv now s) 1000000000 (timebase_freq s)) =
    unat now + (unat v - unat (thead_clint_read_rtc muldiv now s)) * k"
proof -
  let ?rtc = "thead_clint_read_rtc muldiv now s"
  assume v: "v > ?rtc"
  define n where "n = unat v - unat ?rtc"
  have k: "0 < k" "0 < unat (timebase_freq s)" using ok(2) by (auto intro: Nat.gr0I)
  have d: "unat (v - ?rtc) = n" using v by (simp add: n_def unat_sub word_le_unat word_less_unat less_imp_le)
  have "n * 1000000000 div unat (timebase_freq s) = n * k"
    using ok(2) k by (metis div_mult_self1_is_m mult.left_commute mult.commute)
  then have md: "unat (muldiv (v - ?rtc) 1000000000 (timebase_freq s)) = n * k"
    using ok(1) lim d k by (simp add: muldiv_ok_def unat_gt_0 n_def)
  show "unat (now + muldiv (v - ?rtc) 1000000000 (timebase_freq s)) = unat now + (unat v - unat ?rtc) * k"
    using md lim by (subst unat_add_small) (simp_all add: n_def)
qed

section \<open>Properties\<close>

text \<open>
  C34. The machine timer interrupt is on time.  A 32-bit write to either half of a compare register changes
  that half and keeps the other.  If the value is then not in the future the line of the hart is raised at once;
  otherwise it is lowered and the timer armed for a deadline that is never early and at most in the tick
  of the value: while the machine time is below the value the deadline is not reached, and when the time
  is above it the deadline has passed; the callback at the deadline raises the line.  No other line or timer
  changes.  The tick is a whole number \<open>k\<close> of nanoseconds and the deadline lies below \<open>2 ^ 63\<close>, as \<open>timer_mod\<close> takes a
  signed number.
\<close>

theorem clint_timer_on_time:
  assumes "clint_wf s" "h < num_harts s" "num_harts s \<le> 4094" "muldiv_ok muldiv" "unat (timebase_freq s) * k = 1000000000"
    and s': "s' = thead_clint_write muldiv now (half_addr h upper) value 4 s" and v: "v = unat (mtimecmp s' ! h)"
    and rtc: "rtc = (\<lambda>t. unat (thead_clint_read_rtc muldiv t s'))" and lim: "unat now + (v - rtc now) * k < 2 ^ 63"
  shows "thead_clint_read muldiv now s' (half_addr h upper) 4 = value AND 0xFFFFFFFF \<and>
    thead_clint_read muldiv now s' (half_addr h (\<not> upper)) 4 = thead_clint_read muldiv now s (half_addr h (\<not> upper)) 4 \<and>
    pirq s' ! (2 * h + 1) = (v \<le> rtc now) \<and> (\<forall>i. i \<noteq> 2 * h + 1 \<longrightarrow> pirq s' ! i = pirq s ! i) \<and>
    (\<forall>j. j \<noteq> h \<longrightarrow> clint_timer s' ! j = clint_timer s ! j) \<and>
    (rtc now < v \<longrightarrow> (\<exists>d. clint_timer s' ! h = Some d \<and>
      (\<forall>t. now \<le> t \<and> unat t < 2 ^ 63 \<and> rtc now + (unat t - unat now) < 2 ^ 64 \<longrightarrow>
        (rtc t < v \<longrightarrow> int (unat t) < d) \<and> (v < rtc t \<longrightarrow> d \<le> int (unat t)))) \<and>
      pirq (thead_clint_timer_cb h s') = (pirq s')[2 * h + 1 := True])"
proof -
  let ?v = "with_half upper value (mtimecmp s ! h)"
  have w: "s' = thead_clint_write_timecmp muldiv now h ?v s" unfolding s' by (rule write_half [OF assms(2,3)])
  have cmp: "mtimecmp s' ! h = ?v" "num_harts s' = num_harts s" using assms(1,2) by (simp_all add: w clint_wf_def)
  then have uv: "v = unat ?v" "rtc = (\<lambda>t. unat (thead_clint_read_rtc muldiv t s))" by (simp_all add: v rtc w)
  note line = write_timecmp_line [OF assms(1,2), where muldiv = muldiv and now = now and v = ?v, folded w]
  have k: "0 < k" using assms(5) by (auto intro: Nat.gr0I)
  have armed: "\<exists>d. clint_timer s' ! h = Some d \<and>
      (\<forall>t. now \<le> t \<and> unat t < 2 ^ 63 \<and> rtc now + (unat t - unat now) < 2 ^ 64 \<longrightarrow>
        (rtc t < v \<longrightarrow> int (unat t) < d) \<and> (v < rtc t \<longrightarrow> d \<le> int (unat t)))" if fut: "rtc now < v"
  proof -
    let ?d = "now + muldiv (?v - thead_clint_read_rtc muldiv now s) 1000000000 (timebase_freq s)"
    have f: "thead_clint_read_rtc muldiv now s < ?v" using fut by (simp add: uv word_less_unat)
    have ud: "unat ?d = unat now + (v - rtc now) * k"
      using timecmp_deadline [OF assms(4,5) _ f] lim by (simp add: uv)
    then have sd: "sint ?d = int (unat now + (v - rtc now) * k)" using lim by (subst sint_deadline) simp_all
    have "(rtc t < v \<longrightarrow> t' < unat now + (v - rtc now) * k) \<and> (v < rtc t \<longrightarrow> unat now + (v - rtc now) * k \<le> t')"
      if t: "now \<le> t" "rtc now + (unat t - unat now) < 2 ^ 64" and t': "t' = unat t" for t t'
    proof -
      have rt: "rtc t = rtc now + (t' div k - unat now div k)"
        using read_rtc_later [OF assms(4,5) t(1)] t(2) by (simp add: uv t')
      have early: "v - rtc now \<le> t' div k - unat now div k" if "unat now + (v - rtc now) * k \<le> t'"
        using div_le_mono [OF that, of k] k by simp
      have late: "t' div k - unat now div k \<le> v - rtc now" if "t' < unat now + (v - rtc now) * k"
        using div_le_mono [OF less_imp_le [OF that], of k] k by simp
      show ?thesis using early late fut rt by (auto simp: not_le not_less) linarith+
    qed
    then show ?thesis using line(3) [OF f] unfolding timer_mod_def sd
      by (intro exI [of _ "int (unat now + (v - rtc now) * k)"]) (auto simp only: of_nat_less_iff of_nat_le_iff)
  qed
  have reads: "thead_clint_read muldiv now s' (half_addr h upper) 4 = value AND 0xFFFFFFFF"
    "thead_clint_read muldiv now s' (half_addr h (\<not> upper)) 4 = thead_clint_read muldiv now s (half_addr h (\<not> upper)) 4"
    using assms(2,3) cmp with_half_reads [of upper "value" "mtimecmp s ! h"] by (cases upper; simp add: read_half)+
  show ?thesis
    using reads line(1,2,4) armed by (auto simp: uv word_le_unat thead_clint_timer_cb_def)
qed

theorem clint_timer_on_time_witness:
  "\<exists>d. clint_timer (thead_clint_write muldiv_ref 500 (half_addr 0 False) 7 4
      (thead_clint_write muldiv_ref 500 (half_addr 0 True) 0 4 (thead_clint_realize 1 1000000))) ! 0 = Some d \<and> 6000 < d \<and> d \<le> 8000"
proof -
  define s where "s = thead_clint_write muldiv_ref 500 (half_addr 0 True) 0 4 (thead_clint_realize 1 1000000)"
  define s' where "s' = thead_clint_write muldiv_ref 500 (half_addr 0 False) 7 4 s"
  have f: "num_harts s = 1" "timebase_freq s = 1000000" "time_delta s = 0" "mtimecmp s ! 0 = 0xFFFFFFFF"
    by (simp_all add: s_def write_half thead_clint_realize_def with_half_def)
  have wf: "clint_wf s" unfolding s_def by (subst write_half) (simp_all add: clint_wf_write_timecmp clint_wf_realize, simp_all add: thead_clint_realize_def)
  have v: "unat (mtimecmp s' ! 0) = 7" using wf f by (simp add: s'_def write_half with_half_def clint_wf_def)
  have rtc: "unat (thead_clint_read_rtc muldiv_ref t s') = unat t * 1000000 div 1000000000" if "unat t < 2 ^ 44" for t
  proof -
    have "unat t * 1000000 div 1000000000 < 2 ^ 64" using that by simp
    then show ?thesis using f by (simp add: s'_def write_half thead_clint_read_rtc_def thead_clint_read_rtc_raw_def muldiv_ref_def unat_of_nat_small)
  qed
  have r: "unat (thead_clint_read_rtc muldiv_ref 500 s') = 0" "unat (thead_clint_read_rtc muldiv_ref 6000 s') = 6" "unat (thead_clint_read_rtc muldiv_ref 8000 s') = 8"
    using rtc [of 500] rtc [of 6000] rtc [of 8000] by simp_all
  obtain d where d: "clint_timer s' ! 0 = Some d" "\<forall>t. 500 \<le> t \<and> unat t < 2 ^ 63 \<and> unat t - 500 < 2 ^ 64 \<longrightarrow>
      (unat (thead_clint_read_rtc muldiv_ref t s') < 7 \<longrightarrow> int (unat t) < d) \<and> (7 < unat (thead_clint_read_rtc muldiv_ref t s') \<longrightarrow> d \<le> int (unat t))"
    using clint_timer_on_time [OF wf _ _ muldiv_ref_ok _ s'_def refl refl, of 1000] f r(1) unfolding v by auto
  then have "6000 < d" "d \<le> 8000" using d(2) [rule_format, of 6000] d(2) [rule_format, of 8000] r by simp_all
  then show ?thesis using d(1) by (auto simp: s'_def s_def)
qed

text \<open>
  A compare value so far ahead that its deadline is \<open>2 ^ 63\<close> nanoseconds or more is handed to \<open>timer_mod\<close> as a negative
  number: the timer is due at once, although the value is in the future.
\<close>

theorem clint_far_deadline_due:
  assumes "clint_wf s" "h < num_harts s" "muldiv_ok muldiv" "unat (timebase_freq s) * k = 1000000000"
    and fut: "thead_clint_read_rtc muldiv now s < v"
    and lim: "2 ^ 63 \<le> unat now + (unat v - unat (thead_clint_read_rtc muldiv now s)) * k"
      "unat now + (unat v - unat (thead_clint_read_rtc muldiv now s)) * k < 2 ^ 64"
  shows "\<exists>d. clint_timer (thead_clint_write_timecmp muldiv now h v s) ! h = Some d \<and> d < 0"
  using write_timecmp_line(3) [OF assms(1,2) fut] timecmp_deadline [OF assms(3,4) lim(2) fut] lim(1)
  by (simp add: timer_mod_def sint_far)

text \<open>
  The machine time can be written, although the register map calls it read-only: a write to
  either half changes exactly that half of the time as it reads back at the same instant, and
  every timer line is re-evaluated against the new time.
\<close>

theorem clint_mtime_writable:
  assumes "clint_wf s" "num_harts s \<le> 4094"
  shows "let lo = thead_clint_write muldiv now 0xBFF8 v 4 s; hi = thead_clint_write muldiv now 0xBFFC v 4 s in
    thead_clint_read muldiv now lo 0xBFF8 4 = v AND 0xFFFFFFFF \<and>
    thead_clint_read muldiv now lo 0xBFFC 4 = thead_clint_read muldiv now s 0xBFFC 4 \<and>
    thead_clint_read muldiv now hi 0xBFFC 4 = v AND 0xFFFFFFFF \<and>
    thead_clint_read muldiv now hi 0xBFF8 4 = thead_clint_read muldiv now s 0xBFF8 4 \<and>
    (\<forall>h < num_harts s. \<forall>s' \<in> {lo, hi}. pirq s' ! (2 * h + 1) = (mtimecmp s ! h \<le> thead_clint_read_rtc muldiv now s'))"
proof -
  let ?rtc = "thead_clint_read_rtc muldiv now s" and ?raw = "thead_clint_read_rtc_raw muldiv now s"
  define a where "a = (?rtc AND NOT 0xFFFFFFFF) OR (v AND 0xFFFFFFFF)"
  define b where "b = push_bit 32 (v AND 0xFFFFFFFF) OR (?rtc AND 0xFFFFFFFF)"
  let ?lo = "reeval muldiv now (num_harts s) (s\<lparr>time_delta := a - ?raw\<rparr>)"
  let ?hi = "reeval muldiv now (num_harts s) (s\<lparr>time_delta := b - ?raw\<rparr>)"
  have eq: "thead_clint_write muldiv now 0xBFF8 v 4 s = ?lo" "thead_clint_write muldiv now 0xBFFC v 4 s = ?hi"
    using assms(2) by (simp_all add: thead_clint_write_def reeval_def a_def b_def Let_def)
  have wf: "clint_wf (s\<lparr>time_delta := x\<rparr>)" for x using assms(1) by (simp add: clint_wf_def)
  have t: "thead_clint_read_rtc muldiv now (s\<lparr>time_delta := x - ?raw\<rparr>) = x" for x
    by (simp add: thead_clint_read_rtc_def thead_clint_read_rtc_raw_def)
  have r: "num_harts (reeval muldiv now (num_harts s) (s\<lparr>time_delta := x - ?raw\<rparr>)) = num_harts s"
    "thead_clint_read_rtc muldiv now (reeval muldiv now (num_harts s) (s\<lparr>time_delta := x - ?raw\<rparr>)) = x"
    "h < num_harts s \<Longrightarrow> pirq (reeval muldiv now (num_harts s) (s\<lparr>time_delta := x - ?raw\<rparr>)) ! Suc (2 * h) = (mtimecmp s ! h \<le> x)" for x h
    using reeval_lines [OF wf, of "num_harts s" "x - ?raw" muldiv now] t by simp_all
  have rd: "thead_clint_read muldiv now u 0xBFF8 4 = thead_clint_read_rtc muldiv now u AND 0xFFFFFFFF"
    "thead_clint_read muldiv now u 0xBFFC 4 = drop_bit 32 (thead_clint_read_rtc muldiv now u) AND 0xFFFFFFFF"
    if "num_harts u = num_harts s" for u
    using assms(2) that by (simp_all add: thead_clint_read_def)
  have "a AND 0xFFFFFFFF = v AND 0xFFFFFFFF" "drop_bit 32 a AND 0xFFFFFFFF = drop_bit 32 ?rtc AND 0xFFFFFFFF"
    "b AND 0xFFFFFFFF = ?rtc AND 0xFFFFFFFF" "drop_bit 32 b AND 0xFFFFFFFF = v AND 0xFFFFFFFF"
    unfolding a_def b_def by (simp_all only: halves_lo halves_hi) simp_all
  then show ?thesis unfolding eq Let_def by (simp add: rd r)
qed

theorem clint_mtime_writable_witness:
  "let s = thead_clint_realize 2 1000000 in
    thead_clint_read muldiv_ref 500 (thead_clint_write muldiv_ref 500 0xBFF8 42 4 s) 0xBFF8 4 = 42"
  using clint_mtime_writable [of "thead_clint_realize 2 1000000" muldiv_ref 500 42]
  by (simp add: clint_wf_realize Let_def) (simp add: thead_clint_realize_def)

end
