(* ===== verification/Uart.thy ===== *)
theory Uart
  imports Device
begin

text \<open>
  The UART, \<open>src/qemu-machine/hw/char/bl808_uart.c\<close>: two 32-byte ring buffers, the length-limited
  transmitter, the interrupt sources and the hooks of the DMA controller.  The character
  back-end belongs to QEMU; \<open>chr\<close> is the sequence of bytes handed to \<open>qemu_chr_fe_write_all\<close>.
\<close>

section \<open>Model\<close>

record BL808UARTState =
  uart_irq :: bool
  chr :: "u8 list"
  utx_config :: u32
  urx_config :: u32
  bit_prd :: u32
  data_config :: u32
  utx_ir_position :: u32
  urx_ir_position :: u32
  urx_rto_timer :: u32
  uart_sw_mode :: u32
  int_sts :: u32
  int_mask :: u32
  int_en :: u32
  fifo_config_0 :: u32
  fifo_config_1 :: u32
  sts_urx_abr_prd :: u32
  urx_abr_prd_b01 :: u32
  urx_abr_prd_b23 :: u32
  urx_abr_prd_b45 :: u32
  urx_abr_prd_b67 :: u32
  urx_abr_pw_tol :: u32
  urx_bcr_int_cfg :: u32
  utx_rs485_cfg :: u32
  tx_fifo :: "u8 list"
  rx_fifo :: "u8 list"
  tx_head :: u32
  tx_tail :: u32
  tx_count :: u32
  rx_head :: u32
  rx_tail :: u32
  rx_count :: u32
  tx_total :: u32
  rx_total :: u32
  gate_enabled :: bool
  module_clock_enabled :: bool
  uart_clock_enabled :: bool
  uart_reset_asserted :: bool

abbreviation (input) BL808_UART_FIFO_DEPTH :: u32 where "BL808_UART_FIFO_DEPTH \<equiv> 32"
abbreviation (input) UTX_EN :: u32 where "UTX_EN \<equiv> 0x1"
abbreviation (input) UTX_FREERUN_EN :: u32 where "UTX_FREERUN_EN \<equiv> 0x4"
abbreviation (input) URX_EN :: u32 where "URX_EN \<equiv> 0x1"
abbreviation (input) INT_UTX_END :: u32 where "INT_UTX_END \<equiv> 0x1"
abbreviation (input) INT_URX_END :: u32 where "INT_URX_END \<equiv> 0x2"
abbreviation (input) INT_UTX_FRDY :: u32 where "INT_UTX_FRDY \<equiv> 0x4"
abbreviation (input) INT_URX_FRDY :: u32 where "INT_URX_FRDY \<equiv> 0x8"
abbreviation (input) INT_UTX_FER :: u32 where "INT_UTX_FER \<equiv> 0x40"
abbreviation (input) INT_URX_FER :: u32 where "INT_URX_FER \<equiv> 0x80"
abbreviation (input) FIFO_DMA_TX_EN :: u32 where "FIFO_DMA_TX_EN \<equiv> 0x1"
abbreviation (input) FIFO_DMA_RX_EN :: u32 where "FIFO_DMA_RX_EN \<equiv> 0x2"
abbreviation (input) FIFO_TX_CLR :: u32 where "FIFO_TX_CLR \<equiv> 0x4"
abbreviation (input) FIFO_RX_CLR :: u32 where "FIFO_RX_CLR \<equiv> 0x8"
abbreviation (input) FIFO_TX_OVERFLOW :: u32 where "FIFO_TX_OVERFLOW \<equiv> 0x10"
abbreviation (input) FIFO_TX_UNDERFLOW :: u32 where "FIFO_TX_UNDERFLOW \<equiv> 0x20"
abbreviation (input) FIFO_RX_OVERFLOW :: u32 where "FIFO_RX_OVERFLOW \<equiv> 0x40"
abbreviation (input) FIFO_RX_UNDERFLOW :: u32 where "FIFO_RX_UNDERFLOW \<equiv> 0x80"

definition bl808_uart_clock_active :: "BL808UARTState \<Rightarrow> bool" where
  "bl808_uart_clock_active s \<longleftrightarrow> uart_clock_enabled s \<and> \<not> uart_reset_asserted s"

definition bl808_uart_recompute_clock :: "BL808UARTState \<Rightarrow> BL808UARTState" where
  "bl808_uart_recompute_clock s = s\<lparr>uart_clock_enabled := gate_enabled s \<and> module_clock_enabled s\<rparr>"

definition bl808_uart_dynamic_ints :: "BL808UARTState \<Rightarrow> u32" where
  "bl808_uart_dynamic_ints s =
     (let tx_free = BL808_UART_FIFO_DEPTH - tx_count s;
          tx_thresh = drop_bit 16 (fifo_config_1 s) AND 0x1f;
          rx_thresh = drop_bit 24 (fifo_config_1 s) AND 0x1f
      in (if tx_free > tx_thresh then INT_UTX_FRDY else 0) OR
         (if rx_count s \<ge> rx_thresh \<and> rx_count s > 0 then INT_URX_FRDY else 0) OR
         (if fifo_config_0 s AND (FIFO_TX_OVERFLOW OR FIFO_TX_UNDERFLOW) \<noteq> 0 then INT_UTX_FER else 0) OR
         (if fifo_config_0 s AND (FIFO_RX_OVERFLOW OR FIFO_RX_UNDERFLOW) \<noteq> 0 then INT_URX_FER else 0))"

definition bl808_uart_update_irq :: "BL808UARTState \<Rightarrow> BL808UARTState" where
  "bl808_uart_update_irq s =
     (let pending = (int_sts s OR bl808_uart_dynamic_ints s) AND int_en s AND NOT (int_mask s)
      in s\<lparr>uart_irq := bl808_uart_clock_active s \<and> pending \<noteq> 0\<rparr>)"

definition bl808_uart_can_receive :: "BL808UARTState \<Rightarrow> u32" where
  "bl808_uart_can_receive s =
     (if \<not> bl808_uart_clock_active s \<or> urx_config s AND URX_EN = 0 then 0
      else BL808_UART_FIFO_DEPTH - rx_count s)"

definition bl808_uart_maybe_set_rx_end :: "BL808UARTState \<Rightarrow> BL808UARTState" where
  "bl808_uart_maybe_set_rx_end s =
     (let rx_len = drop_bit 16 (urx_config s) in
      if rx_len \<noteq> 0 \<and> rx_total s \<ge> rx_len
      then s\<lparr>int_sts := int_sts s OR INT_URX_END, rx_total := 0\<rparr> else s)"

text \<open>The four ring-buffer updates, written out at each use in the C code.\<close>

definition tx_push :: "u8 \<Rightarrow> BL808UARTState \<Rightarrow> BL808UARTState" where
  "tx_push ch s = s\<lparr>tx_fifo := (tx_fifo s)[unat (tx_tail s) := ch],
     tx_tail := (tx_tail s + 1) mod BL808_UART_FIFO_DEPTH, tx_count := tx_count s + 1\<rparr>"

definition tx_pop :: "BL808UARTState \<Rightarrow> u8 \<times> BL808UARTState" where
  "tx_pop s = (tx_fifo s ! unat (tx_head s),
     s\<lparr>tx_head := (tx_head s + 1) mod BL808_UART_FIFO_DEPTH, tx_count := tx_count s - 1\<rparr>)"

definition rx_push :: "u8 \<Rightarrow> BL808UARTState \<Rightarrow> BL808UARTState" where
  "rx_push ch s = s\<lparr>rx_fifo := (rx_fifo s)[unat (rx_tail s) := ch],
     rx_tail := (rx_tail s + 1) mod BL808_UART_FIFO_DEPTH, rx_count := rx_count s + 1\<rparr>"

definition rx_pop :: "BL808UARTState \<Rightarrow> u8 \<times> BL808UARTState" where
  "rx_pop s = (rx_fifo s ! unat (rx_head s),
     s\<lparr>rx_head := (rx_head s + 1) mod BL808_UART_FIFO_DEPTH, rx_count := rx_count s - 1\<rparr>)"

text \<open>The loop of \<open>bl808_uart_flush_tx\<close>.\<close>

function flush_tx_loop :: "BL808UARTState \<Rightarrow> BL808UARTState" where
  "flush_tx_loop s =
     (if tx_count s > 0 then
        let tx_len = drop_bit 16 (utx_config s);
            (ch, s) = tx_pop s;
            s = s\<lparr>chr := chr s @ [ch], tx_total := tx_total s + 1\<rparr>
        in if utx_config s AND UTX_FREERUN_EN = 0 \<and> tx_len \<noteq> 0 \<and> tx_total s \<ge> tx_len
           then s\<lparr>int_sts := int_sts s OR INT_UTX_END, utx_config := utx_config s AND NOT UTX_EN,
                  tx_total := 0\<rparr>
           else flush_tx_loop s
      else s)"
  by pat_completeness auto
termination
  by (relation "measure (\<lambda>s. unat (tx_count s))")
    (auto simp: tx_pop_def word_less_unat unat_minus_1 unat_gt_0)

declare flush_tx_loop.simps [simp del]

definition bl808_uart_flush_tx :: "BL808UARTState \<Rightarrow> BL808UARTState" where
  "bl808_uart_flush_tx s =
     (if \<not> bl808_uart_clock_active s \<or> utx_config s AND UTX_EN = 0 then s else flush_tx_loop s)"

text \<open>The loop of \<open>bl808_uart_receive\<close>.\<close>

fun receive_loop :: "u8 list \<Rightarrow> BL808UARTState \<Rightarrow> BL808UARTState" where
  "receive_loop [] s = s"
| "receive_loop (ch # buf) s =
     (if rx_count s \<ge> BL808_UART_FIFO_DEPTH
      then s\<lparr>fifo_config_0 := fifo_config_0 s OR FIFO_RX_OVERFLOW\<rparr>
      else let s = rx_push ch s in receive_loop buf (s\<lparr>rx_total := rx_total s + 1\<rparr>))"

definition bl808_uart_receive :: "u8 list \<Rightarrow> BL808UARTState \<Rightarrow> BL808UARTState" where
  "bl808_uart_receive buf s =
     (if \<not> bl808_uart_clock_active s \<or> urx_config s AND URX_EN = 0 then s
      else bl808_uart_update_irq (bl808_uart_maybe_set_rx_end (receive_loop buf s)))"

definition bl808_uart_status :: "BL808UARTState \<Rightarrow> u32" where
  "bl808_uart_status s =
     (if tx_count s > 0 then 1 else 0) OR (if rx_count s > 0 then 2 else 0)"

definition bl808_uart_fifo_config_1 :: "BL808UARTState \<Rightarrow> u32" where
  "bl808_uart_fifo_config_1 s =
     (fifo_config_1 s AND NOT (0x3f OR push_bit 8 0x3f)) OR
     ((BL808_UART_FIFO_DEPTH - tx_count s) AND 0x3f) OR
     push_bit 8 (rx_count s AND 0x3f)"

definition bl808_uart_dma_can_read :: "BL808UARTState \<Rightarrow> nat \<Rightarrow> bool" where
  "bl808_uart_dma_can_read s width_bytes =
     (if \<not> bl808_uart_clock_active s \<or> fifo_config_0 s AND FIFO_DMA_RX_EN = 0 \<or> width_bytes \<noteq> 1
      then False else rx_count s > 0)"

definition bl808_uart_dma_can_write :: "BL808UARTState \<Rightarrow> nat \<Rightarrow> bool" where
  "bl808_uart_dma_can_write s width_bytes =
     (if \<not> bl808_uart_clock_active s \<or> fifo_config_0 s AND FIFO_DMA_TX_EN = 0 \<or> width_bytes \<noteq> 1
      then False else tx_count s < BL808_UART_FIFO_DEPTH)"

definition bl808_uart_dma_read :: "nat \<Rightarrow> BL808UARTState \<Rightarrow> u32 \<times> BL808UARTState" where
  "bl808_uart_dma_read width_bytes s =
     (if width_bytes \<noteq> 1 then (0, s)
      else if rx_count s = 0
      then (0xFF, bl808_uart_update_irq (s\<lparr>fifo_config_0 := fifo_config_0 s OR FIFO_RX_UNDERFLOW\<rparr>))
      else let (ch, s) = rx_pop s in (ucast ch, bl808_uart_update_irq s))"

definition bl808_uart_dma_write :: "u32 \<Rightarrow> nat \<Rightarrow> BL808UARTState \<Rightarrow> BL808UARTState" where
  "bl808_uart_dma_write value width_bytes s =
     (if width_bytes \<noteq> 1 then s
      else if tx_count s \<ge> BL808_UART_FIFO_DEPTH
      then bl808_uart_update_irq (s\<lparr>fifo_config_0 := fifo_config_0 s OR FIFO_TX_OVERFLOW\<rparr>)
      else if utx_config s AND UTX_EN = 0
      then bl808_uart_update_irq (s\<lparr>fifo_config_0 := fifo_config_0 s OR FIFO_TX_UNDERFLOW\<rparr>)
      else bl808_uart_update_irq (bl808_uart_flush_tx (tx_push (ucast value) s)))"

definition bl808_uart_read :: "hwaddr \<Rightarrow> BL808UARTState \<Rightarrow> u64 \<times> BL808UARTState" where
  "bl808_uart_read offset s =
     (if offset = 0x00 then (ucast (utx_config s), s)
      else if offset = 0x04 then (ucast (urx_config s), s)
      else if offset = 0x08 then (ucast (bit_prd s), s)
      else if offset = 0x0C then (ucast (data_config s), s)
      else if offset = 0x10 then (ucast (utx_ir_position s), s)
      else if offset = 0x14 then (ucast (urx_ir_position s), s)
      else if offset = 0x18 then (ucast (urx_rto_timer s), s)
      else if offset = 0x1C then (ucast (uart_sw_mode s), s)
      else if offset = 0x20 then (ucast (int_sts s OR bl808_uart_dynamic_ints s), s)
      else if offset = 0x24 then (ucast (int_mask s), s)
      else if offset = 0x2C then (ucast (int_en s), s)
      else if offset = 0x30 then (ucast (bl808_uart_status s), s)
      else if offset = 0x34 then (ucast (sts_urx_abr_prd s), s)
      else if offset = 0x38 then (ucast (urx_abr_prd_b01 s), s)
      else if offset = 0x3C then (ucast (urx_abr_prd_b23 s), s)
      else if offset = 0x40 then (ucast (urx_abr_prd_b45 s), s)
      else if offset = 0x44 then (ucast (urx_abr_prd_b67 s), s)
      else if offset = 0x48 then (ucast (urx_abr_pw_tol s), s)
      else if offset = 0x50 then (ucast (urx_bcr_int_cfg s), s)
      else if offset = 0x54 then (ucast (utx_rs485_cfg s), s)
      else if offset = 0x80 then (ucast (fifo_config_0 s), s)
      else if offset = 0x84 then (ucast (bl808_uart_fifo_config_1 s), s)
      else if offset = 0x8C then
        (if rx_count s > 0
         then let (ch, s) = rx_pop s in (ucast ch, bl808_uart_update_irq s)
         else (0xFF, bl808_uart_update_irq (s\<lparr>fifo_config_0 := fifo_config_0 s OR FIFO_RX_UNDERFLOW\<rparr>)))
      else (0, s))"

definition uart_write_fifo_config_0 :: "u64 \<Rightarrow> BL808UARTState \<Rightarrow> BL808UARTState" where
  "uart_write_fifo_config_0 value s =
     (let value = ucast value :: u32;
          s = s\<lparr>fifo_config_0 := fifo_config_0 s AND NOT (FIFO_TX_CLR OR FIFO_RX_CLR)\<rparr>;
          s = s\<lparr>fifo_config_0 := (fifo_config_0 s AND NOT (FIFO_DMA_TX_EN OR FIFO_DMA_RX_EN)) OR
                 (value AND (FIFO_DMA_TX_EN OR FIFO_DMA_RX_EN))\<rparr>;
          s = (if value AND FIFO_TX_CLR \<noteq> 0
               then s\<lparr>fifo_config_0 := fifo_config_0 s AND NOT (FIFO_TX_OVERFLOW OR FIFO_TX_UNDERFLOW),
                      tx_head := 0, tx_tail := 0, tx_count := 0\<rparr> else s);
          s = (if value AND FIFO_RX_CLR \<noteq> 0
               then s\<lparr>fifo_config_0 := fifo_config_0 s AND NOT (FIFO_RX_OVERFLOW OR FIFO_RX_UNDERFLOW),
                      rx_head := 0, rx_tail := 0, rx_count := 0\<rparr> else s)
      in bl808_uart_update_irq s)"

definition uart_write_fifo_wdata :: "u64 \<Rightarrow> BL808UARTState \<Rightarrow> BL808UARTState" where
  "uart_write_fifo_wdata value s =
     bl808_uart_update_irq
       (if utx_config s AND UTX_EN \<noteq> 0
        then if tx_count s \<ge> BL808_UART_FIFO_DEPTH
             then s\<lparr>fifo_config_0 := fifo_config_0 s OR FIFO_TX_OVERFLOW\<rparr>
             else bl808_uart_flush_tx (tx_push (ucast value) s)
        else s\<lparr>fifo_config_0 := fifo_config_0 s OR FIFO_TX_UNDERFLOW\<rparr>)"

definition bl808_uart_write :: "hwaddr \<Rightarrow> u64 \<Rightarrow> BL808UARTState \<Rightarrow> BL808UARTState" where
  "bl808_uart_write offset value s =
     (if uart_reset_asserted s then s
      else if offset = 0x00 then
        let old = utx_config s;
            s = s\<lparr>utx_config := ucast value\<rparr>
        in if old AND UTX_EN = 0 \<and> utx_config s AND UTX_EN \<noteq> 0 then bl808_uart_flush_tx s else s
      else if offset = 0x04 then s\<lparr>urx_config := ucast value\<rparr>
      else if offset = 0x08 then s\<lparr>bit_prd := ucast value\<rparr>
      else if offset = 0x0C then s\<lparr>data_config := ucast value\<rparr>
      else if offset = 0x10 then s\<lparr>utx_ir_position := ucast value\<rparr>
      else if offset = 0x14 then s\<lparr>urx_ir_position := ucast value\<rparr>
      else if offset = 0x18 then s\<lparr>urx_rto_timer := ucast (value AND 0xff)\<rparr>
      else if offset = 0x1C then s\<lparr>uart_sw_mode := ucast (value AND 0xf)\<rparr>
      else if offset = 0x24 then bl808_uart_update_irq (s\<lparr>int_mask := ucast value\<rparr>)
      else if offset = 0x28 then bl808_uart_update_irq (s\<lparr>int_sts := int_sts s AND NOT (ucast value)\<rparr>)
      else if offset = 0x2C then bl808_uart_update_irq (s\<lparr>int_en := ucast value\<rparr>)
      else if offset = 0x48 then s\<lparr>urx_abr_pw_tol := ucast (value AND 0xff)\<rparr>
      else if offset = 0x50 then s\<lparr>urx_bcr_int_cfg := ucast (value AND 0xffff)\<rparr>
      else if offset = 0x54 then s\<lparr>utx_rs485_cfg := ucast value\<rparr>
      else if offset = 0x80 then uart_write_fifo_config_0 value s
      else if offset = 0x84 then
        bl808_uart_update_irq (s\<lparr>fifo_config_1 := ucast value AND (push_bit 16 0x1f OR push_bit 24 0x1f)\<rparr>)
      else if offset = 0x88 then uart_write_fifo_wdata value s
      else s)"

definition bl808_uart_init :: "BL808UARTState \<Rightarrow> BL808UARTState" where
  "bl808_uart_init s = bl808_uart_recompute_clock
     (s\<lparr>gate_enabled := True, module_clock_enabled := True, uart_reset_asserted := False\<rparr>)"

definition bl808_uart_reset :: "BL808UARTState \<Rightarrow> BL808UARTState" where
  "bl808_uart_reset s = bl808_uart_update_irq (bl808_uart_recompute_clock (s\<lparr>
     utx_config := push_bit 13 4 OR push_bit 11 1 OR push_bit 8 7, urx_config := push_bit 8 7,
     bit_prd := 0x00FF00FF, data_config := 0, utx_ir_position := push_bit 16 159 OR 112,
     urx_ir_position := 111, urx_rto_timer := 15, uart_sw_mode := 0, int_sts := 0,
     int_mask := 0x0FFF, int_en := 0x0FFF, fifo_config_0 := 0, fifo_config_1 := 0,
     sts_urx_abr_prd := 0, urx_abr_prd_b01 := 0, urx_abr_prd_b23 := 0, urx_abr_prd_b45 := 0,
     urx_abr_prd_b67 := 0, urx_abr_pw_tol := 3, urx_bcr_int_cfg := 0xFFFF, utx_rs485_cfg := 0x2,
     tx_head := 0, tx_tail := 0, tx_count := 0, rx_head := 0, rx_tail := 0, rx_count := 0,
     tx_total := 0, rx_total := 0\<rparr>))"

definition bl808_uart_set_clock_enabled :: "bool \<Rightarrow> BL808UARTState \<Rightarrow> BL808UARTState" where
  "bl808_uart_set_clock_enabled enabled s =
     (let s = bl808_uart_recompute_clock (s\<lparr>gate_enabled := enabled\<rparr>);
          s = (if bl808_uart_clock_active s then bl808_uart_flush_tx s else s)
      in bl808_uart_update_irq s)"

definition bl808_uart_set_module_clock_enabled :: "bool \<Rightarrow> BL808UARTState \<Rightarrow> BL808UARTState" where
  "bl808_uart_set_module_clock_enabled enabled s =
     (let s = bl808_uart_recompute_clock (s\<lparr>module_clock_enabled := enabled\<rparr>);
          s = (if bl808_uart_clock_active s then bl808_uart_flush_tx s else s)
      in bl808_uart_update_irq s)"

definition bl808_uart_set_reset_asserted :: "bool \<Rightarrow> BL808UARTState \<Rightarrow> BL808UARTState" where
  "bl808_uart_set_reset_asserted asserted s =
     (let s = s\<lparr>uart_reset_asserted := asserted\<rparr>;
          s = (if asserted then bl808_uart_reset s else s)
      in bl808_uart_update_irq s)"

section \<open>Operations of the device\<close>

datatype uart_op =
    Uart_read hwaddr
  | Uart_write hwaddr u64
  | Uart_receive "u8 list"
  | Uart_dma_read nat
  | Uart_dma_write u32 nat
  | Uart_reset
  | Uart_clock bool
  | Uart_module_clock bool
  | Uart_reset_line bool

fun uart_step :: "uart_op \<Rightarrow> BL808UARTState \<Rightarrow> BL808UARTState" where
  "uart_step (Uart_read offset) s = snd (bl808_uart_read offset s)"
| "uart_step (Uart_write offset value) s = bl808_uart_write offset value s"
| "uart_step (Uart_receive buf) s = bl808_uart_receive buf s"
| "uart_step (Uart_dma_read w) s = snd (bl808_uart_dma_read w s)"
| "uart_step (Uart_dma_write v w) s = bl808_uart_dma_write v w s"
| "uart_step Uart_reset s = bl808_uart_reset s"
| "uart_step (Uart_clock b) s = bl808_uart_set_clock_enabled b s"
| "uart_step (Uart_module_clock b) s = bl808_uart_set_module_clock_enabled b s"
| "uart_step (Uart_reset_line b) s = bl808_uart_set_reset_asserted b s"

end
