(* ===== verification/Ring.thy ===== *)
theory Ring
  imports Prelude
begin

text \<open>
  The ring buffers of the device models: an array of \<open>D\<close> cells with a head, a tail and a count,
  all 32-bit.  The locale \<open>fifo\<close> is the contract their clients rely on, a bounded queue;
  \<open>ring_items\<close> is the abstraction function from the array to the queue, and the lemmas
  \<open>ring_push\<close> and \<open>ring_pop\<close> say that the wrap-around arithmetic implements it.
\<close>

section \<open>The queue contract\<close>

locale fifo =
  fixes ok :: "'s \<Rightarrow> bool" and items :: "'s \<Rightarrow> 'a list"
    and push :: "'a \<Rightarrow> 's \<Rightarrow> 's" and pop :: "'s \<Rightarrow> 'a \<times> 's" and depth :: nat
  assumes bounded: "ok s \<Longrightarrow> length (items s) \<le> depth"
    and push_ok: "ok s \<Longrightarrow> length (items s) < depth \<Longrightarrow> ok (push x s)"
    and push_items: "ok s \<Longrightarrow> length (items s) < depth \<Longrightarrow> items (push x s) = items s @ [x]"
    and pop_ok: "ok s \<Longrightarrow> items s \<noteq> [] \<Longrightarrow> ok (snd (pop s))"
    and pop_hd: "ok s \<Longrightarrow> items s \<noteq> [] \<Longrightarrow> fst (pop s) = hd (items s)"
    and pop_tl: "ok s \<Longrightarrow> items s \<noteq> [] \<Longrightarrow> items (snd (pop s)) = tl (items s)"
begin

text \<open>What is pushed comes out, in the order it went in.\<close>

primrec pops :: "nat \<Rightarrow> 's \<Rightarrow> 'a list" where
  "pops 0 s = []"
| "pops (Suc n) s = fst (pop s) # pops n (snd (pop s))"

lemma push_all:
  "ok s \<Longrightarrow> length (items s) + length xs \<le> depth
    \<Longrightarrow> ok (fold push xs s) \<and> items (fold push xs s) = items s @ xs"
  by (induction xs arbitrary: s) (simp_all add: push_ok push_items)

lemma pops_take: "ok s \<Longrightarrow> n \<le> length (items s) \<Longrightarrow> pops n s = take n (items s)"
proof (induction n arbitrary: s)
  case (Suc n)
  then obtain x xs where it: "items s = x # xs" by (cases "items s") auto
  have "pops n (snd (pop s)) = take n xs"
    using Suc it pop_tl [of s] by (simp add: pop_ok)
  then show ?case using Suc.prems it pop_hd [of s] by simp
qed simp

lemma in_order:
  assumes "ok s" and "items s = []" and "length xs \<le> depth"
  shows "pops (length xs) (fold push xs s) = xs"
  using assms push_all [of s xs] pops_take [of "fold push xs s" "length xs"] by simp

end

section \<open>Ring arithmetic\<close>

definition ring_ok :: "nat \<Rightarrow> 'a list \<Rightarrow> u32 \<Rightarrow> u32 \<Rightarrow> u32 \<Rightarrow> bool" where
  "ring_ok D buf head tail count \<longleftrightarrow> length buf = D \<and> unat head < D \<and> unat count \<le> D \<and>
     unat tail = (unat head + unat count) mod D"

definition ring_items :: "'a list \<Rightarrow> u32 \<Rightarrow> u32 \<Rightarrow> 'a list" where
  "ring_items buf head count =
     map (\<lambda>i. buf ! ((unat head + i) mod length buf)) [0..<unat count]"

lemma length_ring_items [simp]: "length (ring_items buf h c) = unat c"
  by (simp add: ring_items_def)

lemma ring_items_Nil: "ring_items buf h c = [] \<longleftrightarrow> c = 0"
  by (simp add: ring_items_def unat_eq_0)

lemma unat_plus_1_below:
  fixes t w :: u32
  assumes "unat t < unat w"
  shows "unat (t + 1) = Suc (unat t)"
proof -
  have "unat t + 1 < 4294967296" using assms unat32_lt [of w] by linarith
  then show ?thesis by (subst unat_add_small) simp_all
qed

lemma unat_next:
  fixes t w :: u32
  assumes "unat t < unat w"
  shows "unat ((t + 1) mod w) = Suc (unat t) mod unat w"
  using unat_plus_1_below [OF assms] by (simp add: unat_mod_distrib)

lemma mod_add_neq:
  fixes h i c D :: nat
  assumes "i < c" "c < D"
  shows "(h + i) mod D \<noteq> (h + c) mod D"
proof
  assume "(h + i) mod D = (h + c) mod D"
  then have "(h + c - (h + i)) mod D = 0" by (metis mod_eq_dvd_iff_nat assms(1) add_le_cancel_left less_imp_le mod_0_imp_dvd dvd_imp_mod_0)
  then show False using assms by simp
qed

lemma ring_push:
  assumes ok: "ring_ok (unat w) b h t c" and c: "unat c < unat w"
  shows "ring_ok (unat w) (b[unat t := x]) h ((t + 1) mod w) (c + 1)"
    and "ring_items (b[unat t := x]) h (c + 1) = ring_items b h c @ [x]"
proof -
  have c1: "unat (c + 1) = Suc (unat c)"
    by (rule unat_plus_1_below [OF c])
  have t: "unat t = (unat h + unat c) mod unat w" and lb: "length b = unat w"
    using ok by (auto simp: ring_ok_def)
  have tw: "unat t < unat w" using t c by simp
  have "unat ((t + 1) mod w) = (unat h + unat (c + 1)) mod unat w"
    using unat_next [OF tw] t c1 by (simp add: mod_Suc_eq)
  then show "ring_ok (unat w) (b[unat t := x]) h ((t + 1) mod w) (c + 1)"
    using ok c1 c by (auto simp: ring_ok_def)
  have "map (\<lambda>i. b[unat t := x] ! ((unat h + i) mod unat w)) [0..<unat c]
      = map (\<lambda>i. b ! ((unat h + i) mod unat w)) [0..<unat c]"
    using mod_add_neq [OF _ c] t by (intro map_cong refl nth_list_update_neq) (metis atLeastLessThan_iff set_upt)
  then show "ring_items (b[unat t := x]) h (c + 1) = ring_items b h c @ [x]"
    using tw lb by (simp add: ring_items_def c1 t [symmetric])
qed

lemma ring_pop:
  assumes ok: "ring_ok (unat w) b h t c" and c: "c \<noteq> 0"
  shows "ring_ok (unat w) b ((h + 1) mod w) t (c - 1)"
    and "b ! unat h = hd (ring_items b h c)"
    and "ring_items b ((h + 1) mod w) (c - 1) = tl (ring_items b h c)"
proof -
  obtain n where n: "unat c = Suc n" using c by (metis not0_implies_Suc unat_eq_0)
  have c1: "unat (c - 1) = n" using c n by (simp add: unat_minus_1)
  have h: "unat h < unat w" and lb: "length b = unat w" using ok by (auto simp: ring_ok_def)
  have h1: "unat ((h + 1) mod w) = Suc (unat h) mod unat w" by (rule unat_next [OF h])
  show "ring_ok (unat w) b ((h + 1) mod w) t (c - 1)"
    using ok n c1 h by (auto simp: ring_ok_def h1 mod_simps)
  have up: "[0..<unat c] = 0 # map Suc [0..<n]" by (simp add: n map_Suc_upt upt_conv_Cons)
  show "b ! unat h = hd (ring_items b h c)"
    unfolding ring_items_def up using h lb by simp
  show "ring_items b ((h + 1) mod w) (c - 1) = tl (ring_items b h c)"
    unfolding ring_items_def up using lb by (simp add: c1 h1 mod_simps)
qed

section \<open>Rings with a head and a count only\<close>

definition nring_ok :: "nat \<Rightarrow> 'a list \<Rightarrow> nat \<Rightarrow> nat \<Rightarrow> bool" where
  "nring_ok D buf head count \<longleftrightarrow> length buf = D \<and> head < D \<and> count \<le> D"

definition nring_items :: "'a list \<Rightarrow> nat \<Rightarrow> nat \<Rightarrow> 'a list" where
  "nring_items buf head count = map (\<lambda>i. buf ! ((head + i) mod length buf)) [0..<count]"

lemma length_nring_items [simp]: "length (nring_items buf h c) = c"
  by (simp add: nring_items_def)

lemma nring_items_Nil: "nring_items buf h c = [] \<longleftrightarrow> c = 0"
  by (simp add: nring_items_def)

lemma nring_push:
  assumes ok: "nring_ok D b h c" and c: "c < D"
  shows "nring_ok D (b[(h + c) mod D := x]) h (c + 1)"
    and "nring_items (b[(h + c) mod D := x]) h (c + 1) = nring_items b h c @ [x]"
proof -
  have lb: "length b = D" and D: "0 < D" using ok c by (auto simp: nring_ok_def)
  show "nring_ok D (b[(h + c) mod D := x]) h (c + 1)" using ok c by (simp add: nring_ok_def)
  have "map (\<lambda>i. b[(h + c) mod D := x] ! ((h + i) mod D)) [0..<c] = map (\<lambda>i. b ! ((h + i) mod D)) [0..<c]"
    using mod_add_neq [OF _ c, of _ h] by (intro map_cong refl nth_list_update_neq) (metis atLeastLessThan_iff set_upt)
  then show "nring_items (b[(h + c) mod D := x]) h (c + 1) = nring_items b h c @ [x]"
    using lb D by (simp add: nring_items_def)
qed

lemma nring_pop:
  assumes ok: "nring_ok D b h c" and c: "c \<noteq> 0"
  shows "nring_ok D b ((h + 1) mod D) (c - 1)"
    and "b ! h = hd (nring_items b h c)"
    and "nring_items b ((h + 1) mod D) (c - 1) = tl (nring_items b h c)"
proof -
  obtain n where n: "c = Suc n" using c not0_implies_Suc by blast
  have h: "h < D" and lb: "length b = D" using ok by (auto simp: nring_ok_def)
  show "nring_ok D b ((h + 1) mod D) (c - 1)" using ok h by (auto simp: nring_ok_def)
  have up: "[0..<c] = 0 # map Suc [0..<n]" by (simp add: n map_Suc_upt upt_conv_Cons)
  show "b ! h = hd (nring_items b h c)" unfolding nring_items_def up using h lb by simp
  show "nring_items b ((h + 1) mod D) (c - 1) = tl (nring_items b h c)"
    unfolding nring_items_def up using lb by (simp add: n mod_simps)
qed

end
