(* ===== verification/Uart_Proofs.thy ===== *)
theory Uart_Proofs
  imports Uart Ring
begin

text \<open>
  Correctness of the UART model: both ring buffers are bounded queues at every moment, received
  bytes are read back in order, every byte accepted for transmission reaches the back-end
  exactly once and in order, a length-limited transfer stops exactly at its length, and the
  interrupt line is the level the registers call for after every operation but one.
\<close>

section \<open>The two queues\<close>

definition tx_items :: "BL808UARTState \<Rightarrow> u8 list" where
  "tx_items s = ring_items (tx_fifo s) (tx_head s) (tx_count s)"

definition rx_items :: "BL808UARTState \<Rightarrow> u8 list" where
  "rx_items s = ring_items (rx_fifo s) (rx_head s) (rx_count s)"

definition uart_tx_ok :: "BL808UARTState \<Rightarrow> bool" where
  "uart_tx_ok s \<longleftrightarrow> ring_ok 32 (tx_fifo s) (tx_head s) (tx_tail s) (tx_count s)"

definition uart_rx_ok :: "BL808UARTState \<Rightarrow> bool" where
  "uart_rx_ok s \<longleftrightarrow> ring_ok 32 (rx_fifo s) (rx_head s) (rx_tail s) (rx_count s)"

definition uart_wf :: "BL808UARTState \<Rightarrow> bool" where
  "uart_wf s \<longleftrightarrow> uart_tx_ok s \<and> uart_rx_ok s"

lemma length_items [simp]: "length (tx_items s) = unat (tx_count s)" "length (rx_items s) = unat (rx_count s)"
  by (simp_all add: tx_items_def rx_items_def)

lemma items_Nil: "tx_items s = [] \<longleftrightarrow> tx_count s = 0" "rx_items s = [] \<longleftrightarrow> rx_count s = 0"
  by (simp_all add: tx_items_def rx_items_def ring_items_Nil)

lemma uart_ok_count: "uart_tx_ok s \<Longrightarrow> unat (tx_count s) \<le> 32" "uart_rx_ok s \<Longrightarrow> unat (rx_count s) \<le> 32"
  by (simp_all add: uart_tx_ok_def uart_rx_ok_def ring_ok_def)

lemmas ring_push32 = ring_push [where w = "32 :: u32", simplified]
lemmas ring_pop32 = ring_pop [where w = "32 :: u32", simplified]

interpretation txq: fifo uart_tx_ok tx_items tx_push tx_pop 32
  by unfold_locales
    (simp_all add: uart_ok_count items_Nil, simp_all add: uart_tx_ok_def tx_items_def tx_push_def tx_pop_def
      ring_push32 ring_pop32)

interpretation rxq: fifo uart_rx_ok rx_items rx_push rx_pop 32
  by unfold_locales
    (simp_all add: uart_ok_count items_Nil, simp_all add: uart_rx_ok_def rx_items_def rx_push_def rx_pop_def
      ring_push32 ring_pop32)

text \<open>Register updates that leave a queue alone.\<close>

lemma uart_items_update [simp]:
  "tx_items (s\<lparr>fifo_config_0 := a\<rparr>) = tx_items s" "rx_items (s\<lparr>fifo_config_0 := a\<rparr>) = rx_items s"
  "tx_items (s\<lparr>uart_irq := b\<rparr>) = tx_items s" "rx_items (s\<lparr>uart_irq := b\<rparr>) = rx_items s"
  "tx_items (s\<lparr>int_sts := a\<rparr>) = tx_items s" "rx_items (s\<lparr>int_sts := a\<rparr>) = rx_items s"
  "tx_items (s\<lparr>rx_total := a\<rparr>) = tx_items s" "rx_items (s\<lparr>rx_total := a\<rparr>) = rx_items s"
  "tx_items (s\<lparr>tx_total := a\<rparr>) = tx_items s" "rx_items (s\<lparr>tx_total := a\<rparr>) = rx_items s"
  "tx_items (s\<lparr>utx_config := a\<rparr>) = tx_items s" "rx_items (s\<lparr>utx_config := a\<rparr>) = rx_items s"
  "tx_items (s\<lparr>chr := cs\<rparr>) = tx_items s" "rx_items (s\<lparr>chr := cs\<rparr>) = rx_items s"
  "tx_items (s\<lparr>uart_clock_enabled := b\<rparr>) = tx_items s" "tx_items (s\<lparr>gate_enabled := b\<rparr>) = tx_items s"
  "tx_items (rx_push ch s) = tx_items s" "rx_items (tx_push ch s) = rx_items s"
  "tx_items (snd (rx_pop s)) = tx_items s" "rx_items (snd (tx_pop s)) = rx_items s"
  by (simp_all add: tx_items_def rx_items_def rx_push_def tx_push_def rx_pop_def tx_pop_def)

lemma uart_ok_update [simp]:
  "uart_tx_ok (s\<lparr>fifo_config_0 := a\<rparr>) = uart_tx_ok s" "uart_rx_ok (s\<lparr>fifo_config_0 := a\<rparr>) = uart_rx_ok s"
  "uart_tx_ok (s\<lparr>uart_irq := b\<rparr>) = uart_tx_ok s" "uart_rx_ok (s\<lparr>uart_irq := b\<rparr>) = uart_rx_ok s"
  "uart_tx_ok (s\<lparr>int_sts := a\<rparr>) = uart_tx_ok s" "uart_rx_ok (s\<lparr>int_sts := a\<rparr>) = uart_rx_ok s"
  "uart_tx_ok (s\<lparr>rx_total := a\<rparr>) = uart_tx_ok s" "uart_rx_ok (s\<lparr>rx_total := a\<rparr>) = uart_rx_ok s"
  "uart_tx_ok (s\<lparr>tx_total := a\<rparr>) = uart_tx_ok s" "uart_rx_ok (s\<lparr>tx_total := a\<rparr>) = uart_rx_ok s"
  "uart_tx_ok (s\<lparr>utx_config := a\<rparr>) = uart_tx_ok s" "uart_rx_ok (s\<lparr>utx_config := a\<rparr>) = uart_rx_ok s"
  "uart_tx_ok (s\<lparr>chr := cs\<rparr>) = uart_tx_ok s" "uart_rx_ok (s\<lparr>chr := cs\<rparr>) = uart_rx_ok s"
  "uart_tx_ok (s\<lparr>uart_clock_enabled := b\<rparr>) = uart_tx_ok s" "uart_tx_ok (s\<lparr>gate_enabled := b\<rparr>) = uart_tx_ok s"
  "uart_tx_ok (rx_push ch s) = uart_tx_ok s" "uart_rx_ok (tx_push ch s) = uart_rx_ok s"
  "uart_tx_ok (snd (rx_pop s)) = uart_tx_ok s" "uart_rx_ok (snd (tx_pop s)) = uart_rx_ok s"
  by (simp_all add: uart_tx_ok_def uart_rx_ok_def rx_push_def tx_push_def rx_pop_def tx_pop_def)

lemma update_irq_keeps [simp]:
  "tx_items (bl808_uart_update_irq s) = tx_items s" "rx_items (bl808_uart_update_irq s) = rx_items s"
  "uart_tx_ok (bl808_uart_update_irq s) = uart_tx_ok s" "uart_rx_ok (bl808_uart_update_irq s) = uart_rx_ok s"
  "chr (bl808_uart_update_irq s) = chr s" "fifo_config_0 (bl808_uart_update_irq s) = fifo_config_0 s"
  "utx_config (bl808_uart_update_irq s) = utx_config s"
  by (simp_all add: bl808_uart_update_irq_def Let_def)

section \<open>Receiving\<close>

text \<open>What the receive loop does to the queue: it takes bytes while there is room.\<close>

lemma receive_loop_spec:
  assumes "uart_rx_ok s"
  shows "uart_rx_ok (receive_loop buf s) \<and>
    rx_items (receive_loop buf s) = rx_items s @ take (32 - unat (rx_count s)) buf \<and>
    fifo_config_0 (receive_loop buf s) =
      (if unat (rx_count s) + length buf \<le> 32 then fifo_config_0 s else fifo_config_0 s OR FIFO_RX_OVERFLOW) \<and>
    tx_items (receive_loop buf s) = tx_items s \<and> uart_tx_ok (receive_loop buf s) = uart_tx_ok s"
  using assms
proof (induction buf s rule: receive_loop.induct)
  case (2 ch buf s)
  note le = uart_ok_count(2) [OF "2.prems"]
  show ?case
  proof (cases "rx_count s \<ge> BL808_UART_FIFO_DEPTH")
    case True
    with le show ?thesis using "2.prems" by (simp add: word_le_unat)
  next
    case False
    then have lt: "unat (rx_count s) < 32" by (simp add: word_le_unat)
    let ?s = "rx_push ch s"
    have push: "uart_rx_ok ?s" "rx_items ?s = rx_items s @ [ch]" "fifo_config_0 ?s = fifo_config_0 s"
      using rxq.push_ok [of s ch] rxq.push_items [of s ch] "2.prems" lt by (simp_all add: rx_push_def)
    have c: "unat (rx_count ?s) = Suc (unat (rx_count s))"
      using push(2) length_items(2) [of ?s] by simp
    have d: "32 - unat (rx_count s) = Suc (31 - unat (rx_count s))" using lt by simp
    show ?thesis
      using "2.IH" [OF False, of ?s] False push lt by (simp add: Let_def c d)
  qed
qed (simp add: uart_ok_count)

text \<open>Reading the FIFO data register \<open>n\<close> times.\<close>

primrec uart_read_bytes :: "nat \<Rightarrow> BL808UARTState \<Rightarrow> u64 list" where
  "uart_read_bytes 0 s = []"
| "uart_read_bytes (Suc n) s =
     fst (bl808_uart_read 0x8C s) # uart_read_bytes n (snd (bl808_uart_read 0x8C s))"

lemma read_rdata:
  "bl808_uart_read 0x8C s = (if rx_count s > 0 then (ucast (fst (rx_pop s)), bl808_uart_update_irq (snd (rx_pop s)))
     else (0xFF, bl808_uart_update_irq (s\<lparr>fifo_config_0 := fifo_config_0 s OR FIFO_RX_UNDERFLOW\<rparr>)))"
  by (simp add: bl808_uart_read_def split_beta Let_def)

lemma uart_read_bytes_take:
  "uart_rx_ok s \<Longrightarrow> n \<le> length (rx_items s) \<Longrightarrow> uart_read_bytes n s = map ucast (take n (rx_items s))"
proof (induction n arbitrary: s)
  case (Suc n)
  then obtain x xs where it: "rx_items s = x # xs" by (cases "rx_items s") auto
  then have c: "rx_count s > 0" using items_Nil(2) [of s] by (auto simp: word_gt_0)
  have "rx_items (snd (rx_pop s)) = xs" "fst (rx_pop s) = x" "uart_rx_ok (snd (rx_pop s))"
    using it Suc.prems(1) by (simp_all add: rxq.pop_tl rxq.pop_hd rxq.pop_ok)
  then show ?case
    using Suc.IH [of "bl808_uart_update_irq (snd (rx_pop s))"] Suc.prems(2) it c by (simp add: read_rdata del: length_items)
qed simp

lemma uart_read_all: "uart_rx_ok s \<Longrightarrow> uart_read_bytes (length (rx_items s)) s = map ucast (rx_items s)"
  using uart_read_bytes_take [of s "length (rx_items s)"] by (simp del: length_items)

lemma rx_end_keeps [simp]:
  "tx_items (bl808_uart_maybe_set_rx_end s) = tx_items s" "rx_items (bl808_uart_maybe_set_rx_end s) = rx_items s"
  "uart_tx_ok (bl808_uart_maybe_set_rx_end s) = uart_tx_ok s" "uart_rx_ok (bl808_uart_maybe_set_rx_end s) = uart_rx_ok s"
  "fifo_config_0 (bl808_uart_maybe_set_rx_end s) = fifo_config_0 s"
  by (simp_all add: bl808_uart_maybe_set_rx_end_def Let_def)

section \<open>Transmitting\<close>

text \<open>
  \<open>uart_quota\<close> is the number of bytes the transmitter may still send before a length-limited
  transfer ends (\<open>None\<close>: no limit).
\<close>

definition uart_quota :: "BL808UARTState \<Rightarrow> nat option" where
  "uart_quota s =
     (let tx_len = drop_bit 16 (utx_config s) in
      if utx_config s AND UTX_FREERUN_EN = 0 \<and> tx_len \<noteq> 0
      then Some (max 1 (unat tx_len - unat (tx_total s))) else None)"

definition uart_sendable :: "BL808UARTState \<Rightarrow> nat" where
  "uart_sendable s = (case uart_quota s of None \<Rightarrow> unat (tx_count s) | Some k \<Rightarrow> min k (unat (tx_count s)))"

definition uart_tx_ends :: "BL808UARTState \<Rightarrow> bool" where
  "uart_tx_ends s \<longleftrightarrow> (case uart_quota s of None \<Rightarrow> False | Some k \<Rightarrow> k \<le> unat (tx_count s))"

text \<open>One byte of the loop.\<close>

definition uart_send1 :: "BL808UARTState \<Rightarrow> BL808UARTState" where
  "uart_send1 s = (snd (tx_pop s))\<lparr>chr := chr s @ [fst (tx_pop s)], tx_total := tx_total s + 1\<rparr>"

lemma tx_pop_keeps [simp]:
  "utx_config (snd (tx_pop s)) = utx_config s" "chr (snd (tx_pop s)) = chr s"
  "tx_total (snd (tx_pop s)) = tx_total s" "int_sts (snd (tx_pop s)) = int_sts s"
  "tx_count (snd (tx_pop s)) = tx_count s - 1"
  by (simp_all add: tx_pop_def)

lemma uart_send1_keeps [simp]:
  "utx_config (uart_send1 s) = utx_config s" "int_sts (uart_send1 s) = int_sts s"
  "tx_total (uart_send1 s) = tx_total s + 1" "tx_count (uart_send1 s) = tx_count s - 1"
  "chr (uart_send1 s) = chr s @ [fst (tx_pop s)]"
  by (simp_all add: uart_send1_def)

lemma flush_tx_loop_unfold:
  "flush_tx_loop s =
     (if tx_count s = 0 then s
      else if utx_config s AND UTX_FREERUN_EN = 0 \<and> drop_bit 16 (utx_config s) \<noteq> 0 \<and> tx_total s + 1 \<ge> drop_bit 16 (utx_config s)
      then (uart_send1 s)\<lparr>int_sts := int_sts s OR INT_UTX_END, utx_config := utx_config s AND NOT UTX_EN, tx_total := 0\<rparr>
      else flush_tx_loop (uart_send1 s))"
  by (subst flush_tx_loop.simps) (simp add: split_beta Let_def uart_send1_def word_gt_0)

lemma flush_induct [case_names flush]:
  assumes "\<And>s. (tx_count s \<noteq> 0 \<Longrightarrow> P (uart_send1 s)) \<Longrightarrow> P s"
  shows "P s"
proof (induction "unat (tx_count s)" arbitrary: s rule: less_induct)
  case less
  show ?case
    by (rule assms, rule less) (simp add: unat_minus_1 unat_gt_0)
qed

lemma uart_send1_queue:
  assumes "uart_tx_ok s" "tx_count s \<noteq> 0"
  shows "uart_tx_ok (uart_send1 s)" "tx_items (uart_send1 s) = tl (tx_items s)" "fst (tx_pop s) = hd (tx_items s)"
    "chr (uart_send1 s) @ tx_items (uart_send1 s) = chr s @ tx_items s"
  using assms items_Nil(1) [of s] txq.pop_ok [of s] txq.pop_tl [of s] txq.pop_hd [of s]
  by (simp_all add: uart_send1_def)

lemma uart_send1_quota:
  assumes "tx_count s \<noteq> 0" and "unat (tx_total s) + unat (tx_count s) < 4294967296"
  shows "uart_quota (uart_send1 s) = map_option (\<lambda>k. max 1 (k - 1)) (uart_quota s)"
    and "utx_config s AND UTX_FREERUN_EN = 0 \<and> drop_bit 16 (utx_config s) \<noteq> 0 \<and> tx_total s + 1 \<ge> drop_bit 16 (utx_config s)
      \<longleftrightarrow> uart_quota s = Some 1"
proof -
  have "unat (tx_count s) \<noteq> 0" using assms(1) by (simp add: unat_eq_0)
  then have t: "unat (tx_total s + 1) = Suc (unat (tx_total s))"
    using assms(2) by (subst unat_add_small) simp_all
  show "uart_quota (uart_send1 s) = map_option (\<lambda>k. max 1 (k - 1)) (uart_quota s)"
    by (auto simp: uart_quota_def Let_def t)
  show "utx_config s AND UTX_FREERUN_EN = 0 \<and> drop_bit 16 (utx_config s) \<noteq> 0 \<and> tx_total s + 1 \<ge> drop_bit 16 (utx_config s)
      \<longleftrightarrow> uart_quota s = Some 1"
    by (auto simp: uart_quota_def Let_def t word_le_unat)
qed

lemma uart_quota_pos: "uart_quota s = Some k \<Longrightarrow> 1 \<le> k"
  by (auto simp: uart_quota_def Let_def split: if_splits)

lemma flush_loop_spec:
  assumes "uart_tx_ok s" and "unat (tx_total s) + unat (tx_count s) < 4294967296"
  shows "uart_tx_ok (flush_tx_loop s) \<and>
    chr (flush_tx_loop s) = chr s @ take (uart_sendable s) (tx_items s) \<and>
    tx_items (flush_tx_loop s) = drop (uart_sendable s) (tx_items s) \<and>
    int_sts (flush_tx_loop s) = (if uart_tx_ends s then int_sts s OR INT_UTX_END else int_sts s) \<and>
    utx_config (flush_tx_loop s) = (if uart_tx_ends s then utx_config s AND NOT UTX_EN else utx_config s)"
  using assms
proof (induction s rule: flush_induct)
  case (flush s)
  show ?case
  proof (cases "tx_count s = 0")
    case True
    then show ?thesis using flush.prems uart_quota_pos [of s]
      by (auto simp: flush_tx_loop_unfold [of s] uart_sendable_def uart_tx_ends_def items_Nil split: option.splits)
  next
    case False
    then obtain c where c: "unat (tx_count s) = Suc c" by (metis not0_implies_Suc unat_eq_0)
    note q = uart_send1_quota [OF False flush.prems(2)] and i = uart_send1_queue [OF flush.prems(1) False]
    obtain x xs where it: "tx_items s = x # xs" using False items_Nil(1) [of s] by (cases "tx_items s") auto
    show ?thesis
    proof (cases "uart_quota s = Some 1")
      case True
      then show ?thesis using q(2) i it False c
        by (simp add: flush_tx_loop_unfold [of s] uart_sendable_def uart_tx_ends_def)
    next
      case no: False
      have t: "unat (tx_total s + 1) = Suc (unat (tx_total s))"
        using flush.prems(2) c by (subst unat_add_small) simp_all
      have c1: "unat (tx_count s - 1) = c" using False c by (simp add: unat_minus_1)
      have n: "uart_sendable s = Suc (uart_sendable (uart_send1 s))" "uart_tx_ends s = uart_tx_ends (uart_send1 s)"
        using no uart_quota_pos [of s] c c1
        by (auto simp: uart_sendable_def uart_tx_ends_def q(1) split: option.splits)
      have eq: "flush_tx_loop s = flush_tx_loop (uart_send1 s)"
        using False q(2) no by (subst flush_tx_loop_unfold) (simp only: if_False)
      show ?thesis
        unfolding eq using flush.IH [OF False i(1)] flush.prems(2) i it t c c1 by (simp add: n)
    qed
  qed
qed

text \<open>Whatever the totals: the loop moves bytes from the queue to the back-end and nothing else.\<close>

definition uart_stream :: "BL808UARTState \<Rightarrow> u8 list" where
  "uart_stream s = chr s @ tx_items s"

lemma send1_other [simp]:
  "rx_items (uart_send1 s) = rx_items s" "uart_rx_ok (uart_send1 s) = uart_rx_ok s"
  by (simp_all add: uart_send1_def)

lemma flush_loop_keeps:
  "uart_rx_ok (flush_tx_loop s) = uart_rx_ok s \<and> rx_items (flush_tx_loop s) = rx_items s \<and>
   (uart_tx_ok s \<longrightarrow> uart_tx_ok (flush_tx_loop s) \<and> uart_stream (flush_tx_loop s) = uart_stream s)"
proof (induction s rule: flush_induct)
  case (flush s)
  then show ?case
    using uart_send1_queue [of s]
    by (subst (1 2 3 4) flush_tx_loop_unfold) (auto simp: uart_stream_def)
qed

lemma flush_keeps:
  shows "uart_rx_ok (bl808_uart_flush_tx s) = uart_rx_ok s" "rx_items (bl808_uart_flush_tx s) = rx_items s"
    and "uart_tx_ok s \<Longrightarrow> uart_tx_ok (bl808_uart_flush_tx s)"
    and "uart_tx_ok s \<Longrightarrow> uart_stream (bl808_uart_flush_tx s) = uart_stream s"
  using flush_loop_keeps [of s] by (simp_all add: bl808_uart_flush_tx_def)

section \<open>Every operation\<close>

text \<open>
  The bytes an operation accepts for transmission, and the operations that empty the transmit
  queue without sending it.
\<close>

fun uart_accepts :: "uart_op \<Rightarrow> BL808UARTState \<Rightarrow> u8 list" where
  "uart_accepts (Uart_write offset value) s =
     (if offset = 0x88 \<and> \<not> uart_reset_asserted s \<and> utx_config s AND UTX_EN \<noteq> 0 \<and> tx_count s < 32 then [ucast value] else [])"
| "uart_accepts (Uart_dma_write value w) s =
     (if w = 1 \<and> utx_config s AND UTX_EN \<noteq> 0 \<and> tx_count s < 32 then [ucast value] else [])"
| "uart_accepts op s = []"

fun uart_discards :: "uart_op \<Rightarrow> BL808UARTState \<Rightarrow> bool" where
  "uart_discards (Uart_write offset value) s \<longleftrightarrow>
     offset = 0x80 \<and> \<not> uart_reset_asserted s \<and> ucast value AND FIFO_TX_CLR \<noteq> 0"
| "uart_discards Uart_reset s \<longleftrightarrow> True"
| "uart_discards (Uart_reset_line b) s \<longleftrightarrow> b"
| "uart_discards op s \<longleftrightarrow> False"

lemma push_stream:
  assumes "uart_tx_ok s" "tx_count s < 32"
  shows "uart_tx_ok (tx_push ch s)" "uart_stream (tx_push ch s) = uart_stream s @ [ch]"
  using txq.push_ok [of s ch] txq.push_items [of s ch] assms
  by (simp_all add: word_less_unat uart_stream_def) (simp add: tx_push_def)

lemma uart_stream_update_irq [simp]: "uart_stream (bl808_uart_update_irq s) = uart_stream s"
  by (simp add: uart_stream_def)

lemma ring_cleared: "ring_ok 32 b h t c \<Longrightarrow> ring_ok 32 b 0 0 0"
  by (simp add: ring_ok_def)

lemma wdata_keeps:
  assumes "uart_wf s"
  shows "uart_wf (uart_write_fifo_wdata v s)"
    and "uart_stream (uart_write_fifo_wdata v s) =
      uart_stream s @ (if utx_config s AND UTX_EN \<noteq> 0 \<and> tx_count s < 32 then [ucast v] else [])"
proof -
  have ok: "uart_tx_ok s" "uart_rx_ok s" using assms by (auto simp: uart_wf_def)
  note p = push_stream [OF ok(1), of "ucast v"]
  show "uart_wf (uart_write_fifo_wdata v s)"
    using ok p by (simp add: uart_write_fifo_wdata_def uart_wf_def flush_keeps not_le)
  show "uart_stream (uart_write_fifo_wdata v s) =
      uart_stream s @ (if utx_config s AND UTX_EN \<noteq> 0 \<and> tx_count s < 32 then [ucast v] else [])"
    using p flush_keeps(4) [of "tx_push (ucast v) s"] by (simp add: uart_write_fifo_wdata_def not_le) (simp add: uart_stream_def not_less)
qed

lemma dma_write_keeps:
  assumes "uart_wf s"
  shows "uart_wf (bl808_uart_dma_write v w s)"
    and "uart_stream (bl808_uart_dma_write v w s) =
      uart_stream s @ (if w = 1 \<and> utx_config s AND UTX_EN \<noteq> 0 \<and> tx_count s < 32 then [ucast v] else [])"
proof -
  have ok: "uart_tx_ok s" "uart_rx_ok s" using assms by (auto simp: uart_wf_def)
  note p = push_stream [OF ok(1), of "ucast v"]
  show "uart_wf (bl808_uart_dma_write v w s)"
    using ok p by (simp add: bl808_uart_dma_write_def uart_wf_def flush_keeps not_le)
  show "uart_stream (bl808_uart_dma_write v w s) =
      uart_stream s @ (if w = 1 \<and> utx_config s AND UTX_EN \<noteq> 0 \<and> tx_count s < 32 then [ucast v] else [])"
    using p flush_keeps(4) [of "tx_push (ucast v) s"] by (simp add: bl808_uart_dma_write_def not_le) (simp add: uart_stream_def not_less)
qed

lemma rx_pop_wf:
  assumes "uart_wf s" "rx_count s > 0"
  shows "uart_wf (snd (rx_pop s))" "uart_stream (snd (rx_pop s)) = uart_stream s"
proof -
  show "uart_wf (snd (rx_pop s))"
    using assms rxq.pop_ok [of s] items_Nil(2) [of s] by (simp add: uart_wf_def word_gt_0)
  show "uart_stream (snd (rx_pop s)) = uart_stream s"
    by (simp add: uart_stream_def) (simp add: rx_pop_def)
qed

lemma uart_read_keeps:
  assumes "uart_wf s"
  shows "uart_wf (snd (bl808_uart_read a s))" "uart_stream (snd (bl808_uart_read a s)) = uart_stream s"
proof -
  have "a = 0x8C \<or> snd (bl808_uart_read a s) = s" by (simp add: bl808_uart_read_def)
  then show "uart_wf (snd (bl808_uart_read a s))" "uart_stream (snd (bl808_uart_read a s)) = uart_stream s"
    using assms rx_pop_wf [OF assms]
    by (auto simp: read_rdata uart_wf_def uart_stream_def simp del: length_items)
qed

lemma uart_ok_fields:
  "uart_wf s \<longleftrightarrow> ring_ok 32 (tx_fifo s) (tx_head s) (tx_tail s) (tx_count s) \<and>
     ring_ok 32 (rx_fifo s) (rx_head s) (rx_tail s) (rx_count s)"
  by (simp add: uart_wf_def uart_tx_ok_def uart_rx_ok_def)

lemmas uart_fields = uart_ok_fields uart_stream_def tx_items_def bl808_uart_update_irq_def Let_def

lemma uart_wf_update_irq [simp]: "uart_wf (bl808_uart_update_irq s) = uart_wf s"
  by (simp add: uart_wf_def)

lemma utx_config_keeps:
  assumes "uart_wf s"
  shows "uart_wf (bl808_uart_write 0 v s)" "uart_stream (bl808_uart_write 0 v s) = uart_stream s"
proof -
  have ok: "uart_tx_ok (s\<lparr>utx_config := ucast v\<rparr>)" "uart_rx_ok (s\<lparr>utx_config := ucast v\<rparr>)"
    using assms by (simp_all add: uart_wf_def)
  show "uart_wf (bl808_uart_write 0 v s)"
    using assms ok by (simp add: bl808_uart_write_def Let_def uart_wf_def flush_keeps)
  show "uart_stream (bl808_uart_write 0 v s) = uart_stream s"
    using flush_keeps(4) [OF ok(1)] by (simp add: bl808_uart_write_def Let_def) (simp add: uart_stream_def)
qed

lemma fifo_config_0_keeps:
  assumes "uart_wf s"
  shows "uart_wf (uart_write_fifo_config_0 v s)"
    and "uart_stream (uart_write_fifo_config_0 v s) = (if ucast v AND FIFO_TX_CLR \<noteq> (0::u32) then chr s else uart_stream s)"
  using assms
  by (auto simp: uart_write_fifo_config_0_def Let_def uart_ok_fields ring_cleared uart_stream_def
      bl808_uart_update_irq_def tx_items_def ring_items_def)

lemma uart_write_keeps:
  assumes "uart_wf s"
  shows "uart_wf (bl808_uart_write a v s)"
    and "uart_stream (bl808_uart_write a v s) =
      (if uart_discards (Uart_write a v) s then chr s else uart_stream s) @ uart_accepts (Uart_write a v) s"
proof -
  consider "uart_reset_asserted s" | "\<not> uart_reset_asserted s" "a = 0" | "\<not> uart_reset_asserted s" "a = 0x80"
    | "\<not> uart_reset_asserted s" "a = 0x88" | "\<not> uart_reset_asserted s" "a \<noteq> 0" "a \<noteq> 0x80" "a \<noteq> 0x88" by blast
  then have "uart_wf (bl808_uart_write a v s) \<and> uart_stream (bl808_uart_write a v s) =
      (if uart_discards (Uart_write a v) s then chr s else uart_stream s) @ uart_accepts (Uart_write a v) s"
  proof cases
    case 1 then show ?thesis using assms by (simp add: bl808_uart_write_def)
  next
    case 2 then show ?thesis using utx_config_keeps [OF assms, of v] by simp
  next
    case 3
    then have "bl808_uart_write a v s = uart_write_fifo_config_0 v s" by (simp add: bl808_uart_write_def)
    then show ?thesis using 3 fifo_config_0_keeps [OF assms, of v] by simp
  next
    case 4
    then have "bl808_uart_write a v s = uart_write_fifo_wdata v s" by (simp add: bl808_uart_write_def)
    then show ?thesis using 4 wdata_keeps [OF assms, of v] by simp
  next
    case 5
    then have "uart_wf (bl808_uart_write a v s) = uart_wf s" "uart_stream (bl808_uart_write a v s) = uart_stream s"
      by (simp_all add: bl808_uart_write_def uart_fields)
    then show ?thesis using 5 assms by simp
  qed
  then show "uart_wf (bl808_uart_write a v s)"
    and "uart_stream (bl808_uart_write a v s) =
      (if uart_discards (Uart_write a v) s then chr s else uart_stream s) @ uart_accepts (Uart_write a v) s" by blast+
qed

lemma receive_chr [simp]: "chr (receive_loop buf s) = chr s"
  by (induction buf s rule: receive_loop.induct) (simp_all add: Let_def rx_push_def)

lemma receive_keeps:
  assumes "uart_wf s"
  shows "uart_wf (bl808_uart_receive buf s)" "uart_stream (bl808_uart_receive buf s) = uart_stream s"
  using assms receive_loop_spec [of s buf]
  by (simp_all add: bl808_uart_receive_def uart_wf_def uart_stream_def)
    (simp add: bl808_uart_maybe_set_rx_end_def Let_def)

lemma uart_dma_read_keeps:
  assumes "uart_wf s"
  shows "uart_wf (snd (bl808_uart_dma_read w s))" "uart_stream (snd (bl808_uart_dma_read w s)) = uart_stream s"
proof -
  have "uart_wf (s\<lparr>fifo_config_0 := c\<rparr>)" "uart_stream (s\<lparr>fifo_config_0 := c\<rparr>) = uart_stream s" for c
    using assms by (simp_all add: uart_wf_def uart_stream_def)
  then show "uart_wf (snd (bl808_uart_dma_read w s))" "uart_stream (snd (bl808_uart_dma_read w s)) = uart_stream s"
    using assms rx_pop_wf [OF assms]
    by (simp_all add: bl808_uart_dma_read_def split_beta Let_def word_gt_0)
qed

lemma reset_keeps:
  "uart_wf s \<Longrightarrow> uart_wf (bl808_uart_reset s)" "uart_stream (bl808_uart_reset s) = chr s"
  by (auto simp add: bl808_uart_reset_def uart_ok_fields bl808_uart_update_irq_def bl808_uart_recompute_clock_def
      Let_def ring_cleared uart_stream_def tx_items_def ring_items_def)

lemma clock_keeps:
  assumes "uart_wf s"
  shows "uart_wf (bl808_uart_set_clock_enabled b s)" "uart_stream (bl808_uart_set_clock_enabled b s) = uart_stream s"
    and "uart_wf (bl808_uart_set_module_clock_enabled b s)" "uart_stream (bl808_uart_set_module_clock_enabled b s) = uart_stream s"
proof -
  let ?r = bl808_uart_recompute_clock
  have eq: "uart_wf (?r (s\<lparr>gate_enabled := b\<rparr>)) = uart_wf s" "uart_stream (?r (s\<lparr>gate_enabled := b\<rparr>)) = uart_stream s"
     "uart_wf (?r (s\<lparr>module_clock_enabled := b\<rparr>)) = uart_wf s" "uart_stream (?r (s\<lparr>module_clock_enabled := b\<rparr>)) = uart_stream s"
    by (simp_all add: bl808_uart_recompute_clock_def uart_fields)
  have fl: "uart_wf (bl808_uart_flush_tx t)" "uart_stream (bl808_uart_flush_tx t) = uart_stream t" if "uart_wf t" for t
    using that flush_keeps [of t] by (auto simp: uart_wf_def)
  show "uart_wf (bl808_uart_set_clock_enabled b s)" "uart_stream (bl808_uart_set_clock_enabled b s) = uart_stream s"
    "uart_wf (bl808_uart_set_module_clock_enabled b s)" "uart_stream (bl808_uart_set_module_clock_enabled b s) = uart_stream s"
    using assms eq fl by (simp_all add: bl808_uart_set_clock_enabled_def bl808_uart_set_module_clock_enabled_def Let_def)
qed

lemma reset_line_keeps:
  "uart_wf s \<Longrightarrow> uart_wf (bl808_uart_set_reset_asserted b s)"
  "uart_stream (bl808_uart_set_reset_asserted b s) = (if b then chr s else uart_stream s)"
  using reset_keeps [of "s\<lparr>uart_reset_asserted := b\<rparr>"]
  by (cases b; simp add: bl808_uart_set_reset_asserted_def uart_fields)+

lemma uart_step_keeps:
  assumes "uart_wf s"
  shows "uart_wf (uart_step op s)"
    and "uart_stream (uart_step op s) =
      (if uart_discards op s then chr s else uart_stream s) @ uart_accepts op s"
  using assms
  by (cases op; simp add: uart_read_keeps uart_write_keeps receive_keeps uart_dma_read_keeps dma_write_keeps
      reset_keeps clock_keeps reset_line_keeps del: uart_accepts.simps(1) uart_discards.simps(1))+

section \<open>The interrupt line\<close>

definition uart_level :: "BL808UARTState \<Rightarrow> bool" where
  "uart_level s \<longleftrightarrow> bl808_uart_clock_active s \<and>
     (int_sts s OR bl808_uart_dynamic_ints s) AND int_en s AND NOT (int_mask s) \<noteq> 0"

text \<open>The one operation that can change the level without driving the line.\<close>

fun uart_prompt :: "uart_op \<Rightarrow> bool" where
  "uart_prompt (Uart_write offset value) \<longleftrightarrow> offset \<noteq> 0x00"
| "uart_prompt op \<longleftrightarrow> True"

definition uart_fresh :: "BL808UARTState \<Rightarrow> bool" where
  "uart_fresh s \<longleftrightarrow> (\<exists>z. length (tx_fifo z) = 32 \<and> length (rx_fifo z) = 32 \<and> s = bl808_uart_reset (bl808_uart_init z))"

lemma uart_update_irq_line [irq_simps]:
  "uart_irq (bl808_uart_update_irq s) = uart_level (bl808_uart_update_irq s)"
  by (simp add: bl808_uart_update_irq_def uart_level_def Let_def bl808_uart_clock_active_def bl808_uart_dynamic_ints_def)

lemmas uart_level_defs = uart_level_def bl808_uart_clock_active_def bl808_uart_dynamic_ints_def

lemma uart_read_line: "uart_irq s = uart_level s \<Longrightarrow> uart_irq (snd (bl808_uart_read a s)) = uart_level (snd (bl808_uart_read a s))"
  by (cases "a = 0x8C") (simp_all add: read_rdata irq_simps, simp add: bl808_uart_read_def)

lemma uart_write_line:
  assumes "uart_irq s = uart_level s" "a \<noteq> 0"
  shows "uart_irq (bl808_uart_write a v s) = uart_level (bl808_uart_write a v s)"
  using assms
  by (simp add: bl808_uart_write_def uart_write_fifo_config_0_def uart_write_fifo_wdata_def irq_simps Let_def)
    (simp add: uart_level_defs)

interpretation uart: gated_irq_device uart_step uart_prompt uart_fresh uart_irq uart_level bl808_uart_clock_active
proof
  show "uart_fresh s \<Longrightarrow> uart_irq s = uart_level s" for s
    by (auto simp: uart_fresh_def bl808_uart_reset_def irq_simps)
  show "uart_prompt op \<Longrightarrow> uart_irq s = uart_level s \<Longrightarrow> uart_irq (uart_step op s) = uart_level (uart_step op s)" for op s
    by (cases op) (simp_all add: uart_read_line uart_write_line irq_simps bl808_uart_receive_def bl808_uart_dma_read_def
        bl808_uart_dma_write_def bl808_uart_reset_def bl808_uart_set_clock_enabled_def split_beta Let_def
        bl808_uart_set_module_clock_enabled_def bl808_uart_set_reset_asserted_def)
  show "uart_level s \<Longrightarrow> bl808_uart_clock_active s" for s
    by (simp add: uart_level_def)
qed

lemma uart_fresh_wf: "uart_fresh s \<Longrightarrow> uart_wf s"
  by (auto simp: uart_fresh_def bl808_uart_reset_def bl808_uart_init_def bl808_uart_recompute_clock_def
      uart_fields ring_ok_def)

section \<open>Properties\<close>

text \<open>
  Reception: bytes that arrive while the receiver is clocked and enabled are queued behind
  those already waiting, up to the 32 bytes of the FIFO; the overflow flag is set exactly when
  one did not fit; reading the data register returns the queued bytes in the order they arrived;
  the transmit queue is untouched.
\<close>

theorem uart_receive_in_order:
  assumes "uart_wf s" and "bl808_uart_clock_active s" and "urx_config s AND URX_EN \<noteq> 0"
  shows "let t = bl808_uart_receive buf s; q = take 32 (rx_items s @ buf) in
    rx_items t = q \<and> uart_read_bytes (length q) t = map ucast q \<and>
    (fifo_config_0 t AND FIFO_RX_OVERFLOW \<noteq> 0 \<longleftrightarrow>
       fifo_config_0 s AND FIFO_RX_OVERFLOW \<noteq> 0 \<or> 32 < length (rx_items s @ buf)) \<and>
    tx_items t = tx_items s"
proof -
  have ok: "uart_rx_ok s" using assms by (simp add: uart_wf_def)
  let ?t = "bl808_uart_receive buf s" and ?q = "take 32 (rx_items s @ buf)"
  note spec = receive_loop_spec [OF ok, of buf]
  have t: "?t = bl808_uart_update_irq (bl808_uart_maybe_set_rx_end (receive_loop buf s))"
    using assms by (simp add: bl808_uart_receive_def)
  have items: "rx_items ?t = ?q" using spec uart_ok_count(2) [OF ok] by (simp add: t)
  have "uart_rx_ok ?t" using spec by (simp add: t)
  from uart_read_all [OF this] have rd: "uart_read_bytes (length ?q) ?t = map ucast ?q" by (simp only: items)
  have "(x OR 0x40) AND 0x40 \<noteq> 0" for x :: u32 by (simp add: bit.conj_disj_distrib2)
  then have "fifo_config_0 ?t AND FIFO_RX_OVERFLOW \<noteq> 0 \<longleftrightarrow>
       fifo_config_0 s AND FIFO_RX_OVERFLOW \<noteq> 0 \<or> 32 < length (rx_items s @ buf)"
    using spec by (simp add: t)
  then show ?thesis
    using items rd spec unfolding Let_def by (simp add: t)
qed

definition uart_example :: BL808UARTState where
  "uart_example = bl808_uart_reset (bl808_uart_init \<lparr>
     uart_irq = False, chr = [], utx_config = 0, urx_config = 0, bit_prd = 0, data_config = 0,
     utx_ir_position = 0, urx_ir_position = 0, urx_rto_timer = 0, uart_sw_mode = 0, int_sts = 0,
     int_mask = 0, int_en = 0, fifo_config_0 = 0, fifo_config_1 = 0, sts_urx_abr_prd = 0,
     urx_abr_prd_b01 = 0, urx_abr_prd_b23 = 0, urx_abr_prd_b45 = 0, urx_abr_prd_b67 = 0,
     urx_abr_pw_tol = 0, urx_bcr_int_cfg = 0, utx_rs485_cfg = 0, tx_fifo = replicate 32 0,
     rx_fifo = replicate 32 0, tx_head = 0, tx_tail = 0, tx_count = 0, rx_head = 0, rx_tail = 0,
     rx_count = 0, tx_total = 0, rx_total = 0, gate_enabled = False, module_clock_enabled = False,
     uart_clock_enabled = False, uart_reset_asserted = False\<rparr>)"

lemma uart_example_fresh: "uart_fresh uart_example"
  unfolding uart_fresh_def uart_example_def by (rule exI, intro conjI, rule_tac [3] refl) simp_all

lemma uart_example_fields:
  "bl808_uart_clock_active uart_example" "utx_config uart_example = 0x8F00" "urx_config uart_example = 0x700"
  "tx_count uart_example = 0" "tx_items uart_example = []" "rx_items uart_example = []"
  "chr uart_example = []" "uart_reset_asserted uart_example = False" "tx_total uart_example = 0"
  by (simp_all add: uart_example_def bl808_uart_reset_def bl808_uart_init_def bl808_uart_recompute_clock_def
      bl808_uart_update_irq_def bl808_uart_clock_active_def Let_def tx_items_def rx_items_def ring_items_def push_bit_eq_mult)

text \<open>The receiver switched on: three bytes arrive and are read back.\<close>

theorem uart_receive_in_order_witness:
  "uart_read_bytes 3 (bl808_uart_receive [0x41, 0x42, 0x43] (uart_example\<lparr>urx_config := 0x701\<rparr>)) = [0x41, 0x42, 0x43]"
proof -
  let ?s = "uart_example\<lparr>urx_config := 0x701\<rparr>"
  have "uart_wf ?s" using uart_fresh_wf [OF uart_example_fresh] by (simp add: uart_ok_fields)
  moreover have "bl808_uart_clock_active ?s" using uart_example_fields by (simp add: bl808_uart_clock_active_def)
  moreover have "rx_items ?s = []" using uart_example_fields by (simp add: rx_items_def)
  ultimately show ?thesis
    using uart_receive_in_order [of ?s "[0x41, 0x42, 0x43]"] by (simp add: Let_def numeral_3_eq_3)
qed

text \<open>
  Transmission: a byte written to an enabled transmitter with room in its FIFO is sent behind
  the queued ones.  In free-running mode everything queued goes out at once; a length-limited
  transfer sends exactly up to its length, then raises the end-of-transfer interrupt and
  switches the transmitter off, keeping the rest queued.
\<close>

theorem uart_transmit_exact:
  assumes "uart_wf s" and "bl808_uart_clock_active s" and "utx_config s AND UTX_EN \<noteq> 0"
    and "tx_count s < BL808_UART_FIFO_DEPTH" and "unat (tx_total s) + 33 \<le> 4294967296"
  shows "let t = bl808_uart_write 0x88 value s; q = tx_items s @ [ucast value];
      n = (case uart_quota s of None \<Rightarrow> length q | Some k \<Rightarrow> k)
    in chr t = chr s @ take n q \<and> tx_items t = drop n q \<and>
       (if uart_quota s \<noteq> None \<and> n \<le> length q
        then utx_config t = utx_config s AND NOT UTX_EN \<and> int_sts t = int_sts s OR INT_UTX_END
        else utx_config t = utx_config s \<and> int_sts t = int_sts s)"
proof -
  have ok: "uart_tx_ok s" using assms by (simp add: uart_wf_def)
  let ?p = "tx_push (ucast value) s"
  have c: "unat (tx_count s) < 32" using assms(4) by (simp add: word_less_unat)
  have p: "uart_tx_ok ?p" "tx_items ?p = tx_items s @ [ucast value]"
    using ok c by (simp_all add: txq.push_ok txq.push_items)
  have k: "utx_config ?p = utx_config s" "tx_total ?p = tx_total s" "chr ?p = chr s" "int_sts ?p = int_sts s"
    "bl808_uart_clock_active ?p" "uart_quota ?p = uart_quota s"
    using assms(2) by (simp_all add: tx_push_def bl808_uart_clock_active_def uart_quota_def Let_def)
  have cp: "unat (tx_count ?p) = Suc (unat (tx_count s))" using arg_cong [OF p(2), of length] by simp
  have w: "bl808_uart_write 0x88 value s = bl808_uart_update_irq (flush_tx_loop ?p)"
    using assms k by (simp add: bl808_uart_write_def uart_write_fifo_wdata_def bl808_uart_flush_tx_def
        bl808_uart_clock_active_def not_le)
  have "unat (tx_total ?p) + unat (tx_count ?p) < 4294967296" using assms(5) c cp k by simp
  note f = flush_loop_spec [OF p(1) this]
  have "int_sts (bl808_uart_update_irq x) = int_sts x" for x by (simp add: bl808_uart_update_irq_def Let_def)
  then show ?thesis
    using f uart_quota_pos [of s] by (auto simp: w k p cp uart_sendable_def uart_tx_ends_def split: option.splits)
qed

text \<open>A one-byte transfer (length 1, not free-running) sends its byte and ends.\<close>

theorem uart_transmit_exact_witness:
  "let t = bl808_uart_write 0x88 0x5A (uart_example\<lparr>utx_config := 0x18F01\<rparr>)
   in chr t = [0x5A] \<and> utx_config t = 0x18F00 \<and> int_sts t AND INT_UTX_END \<noteq> 0"
proof -
  let ?s = "uart_example\<lparr>utx_config := 0x18F01\<rparr>"
  have "uart_wf ?s" using uart_fresh_wf [OF uart_example_fresh] by (simp add: uart_ok_fields)
  moreover have "bl808_uart_clock_active ?s" using uart_example_fields by (simp add: bl808_uart_clock_active_def)
  moreover have "tx_items ?s = []" using uart_example_fields by (simp add: tx_items_def)
  moreover have "uart_quota ?s = Some 1" using uart_example_fields by (simp add: uart_quota_def Let_def)
  ultimately show ?thesis
    using uart_transmit_exact [of ?s "0x5A"] uart_example_fields
    by (simp add: Let_def bit.conj_disj_distrib2)
qed

text \<open>The bytes accepted for transmission along a run.\<close>

primrec uart_accepted :: "uart_op list \<Rightarrow> BL808UARTState \<Rightarrow> u8 list" where
  "uart_accepted [] s = []"
| "uart_accepted (op # ops) s = uart_accepts op s @ uart_accepted ops (uart_step op s)"

primrec uart_discards_in :: "uart_op list \<Rightarrow> BL808UARTState \<Rightarrow> bool" where
  "uart_discards_in [] s \<longleftrightarrow> False"
| "uart_discards_in (op # ops) s \<longleftrightarrow> uart_discards op s \<or> uart_discards_in ops (uart_step op s)"

lemma uart_run_keeps:
  "uart_wf s \<Longrightarrow> uart_wf (fold uart_step ops s) \<and>
    (\<not> uart_discards_in ops s \<longrightarrow> uart_stream (fold uart_step ops s) = uart_stream s @ uart_accepted ops s)"
  by (induction ops arbitrary: s) (simp_all add: uart_step_keeps)

text \<open>
  C26. Along any sequence of register accesses, received bytes, DMA accesses, clock and reset
  changes, both ring buffers stay well formed; and as long as no reset and no FIFO clear throws
  the queue away, the bytes handed to the back-end followed by those still queued are exactly
  the bytes accepted for transmission, in order: none is lost, duplicated or reordered.
\<close>

theorem uart_bytes_conserved:
  assumes "uart_fresh s"
  shows "uart_wf (fold uart_step ops s) \<and>
    (\<not> uart_discards_in ops s \<longrightarrow>
       chr (fold uart_step ops s) @ tx_items (fold uart_step ops s) = chr s @ uart_accepted ops s)"
proof -
  have "tx_items s = []"
    using assms by (auto simp: uart_fresh_def bl808_uart_reset_def bl808_uart_recompute_clock_def
        bl808_uart_update_irq_def Let_def tx_items_def ring_items_def)
  then show ?thesis
    using uart_run_keeps [OF uart_fresh_wf [OF assms], of ops] by (simp add: uart_stream_def)
qed

theorem uart_bytes_conserved_witness:
  "let t = fold uart_step [Uart_write 0x00 0x8F05, Uart_write 0x88 0x41, Uart_write 0x88 0x42] uart_example
   in chr t @ tx_items t = [0x41, 0x42]"
proof -
  let ?c = "uart_example\<lparr>utx_config := 0x8F05\<rparr>" let ?d = "bl808_uart_write 0x88 0x41 ?c"
  have c: "bl808_uart_write 0 0x8F05 uart_example = ?c"
    using uart_example_fields by (simp add: bl808_uart_write_def Let_def bl808_uart_flush_tx_def flush_tx_loop_unfold)
  have d: "\<not> uart_reset_asserted ?d" "utx_config ?d = 0x8F05" "tx_count ?d = 0"
    using uart_example_fields
    by (simp_all add: bl808_uart_write_def uart_write_fifo_wdata_def bl808_uart_update_irq_def bl808_uart_flush_tx_def
        flush_tx_loop_unfold uart_send1_def tx_push_def tx_pop_def bl808_uart_clock_active_def Let_def)
  let ?ops = "[Uart_write 0x00 0x8F05, Uart_write 0x88 0x41, Uart_write 0x88 0x42]"
  have "uart_accepted ?ops uart_example = [0x41, 0x42]" "\<not> uart_discards_in ?ops uart_example"
    using uart_example_fields d by (simp_all add: c)
  then show ?thesis
    using uart_bytes_conserved [OF uart_example_fresh, of ?ops] uart_example_fields(7) by (simp only: Let_def simp_thms append_Nil)
qed

text \<open>
  The interrupt line is exact: after any sequence of operations that does not write
  UTX_CONFIG, it is high exactly when a status or FIFO condition is enabled and unmasked and the
  device is clocked and out of reset; so it is low whenever the device is not.
\<close>

theorem uart_irq_exact:
  assumes "uart_fresh s" and "\<forall>op \<in> set ops. uart_prompt op"
  shows "let t = fold uart_step ops s in
    uart_irq t = uart_level t \<and> (\<not> bl808_uart_clock_active t \<longrightarrow> \<not> uart_irq t)"
  using uart.run_line [OF assms] uart.run_silent [OF assms] by (simp add: Let_def)

theorem uart_irq_exact_witness:
  "let t = fold uart_step [Uart_write 0x24 0] uart_example in uart_irq t = uart_level t \<and> uart_prompt (Uart_write 0x24 0)"
  using uart_irq_exact [OF uart_example_fresh, of "[Uart_write 0x24 0]"] by (simp add: Let_def)

text \<open>
  Writing UTX_CONFIG does not have this property.  A byte queued while the clock is gated is
  sent by the write that enables the transmitter again; the transfer ends and its interrupt is
  pending, enabled and unmasked, but the line stays low until some other register access.
\<close>

theorem uart_utx_config_stale_irq:
  "let s = fold uart_step
      [Uart_write 0x2C 0x1, Uart_write 0x24 0, Uart_clock False, Uart_write 0x00 0x10001,
       Uart_write 0x88 0x41, Uart_write 0x00 0, Uart_clock True] uart_example;
     t = uart_step (Uart_write 0x00 0x10001) s
   in uart_irq s = uart_level s \<and> uart_level t \<and> \<not> uart_irq t \<and> chr t = [0x41]"
  by code_simp

end
