(* ===== verification/Clic.thy ===== *)
theory Clic
  imports Device
begin

text \<open>
  The core-local interrupt controller, \<open>src/qemu-machine/hw/intc/xt_clic.c\<close>: per interrupt a
  pending, an enable, an attribute and a control byte; per hart a list of the enabled
  interrupts, sorted by priority when the configuration changes so that delivery is a linear
  scan.  All arrays are flat, hart after hart, as in the source.

  The hart itself is QEMU's; \<open>cpu_env\<close> keeps what the controller reads and writes of it: the
  field MIL of \<open>mintstatus\<close>, the field MPIL of \<open>mcause\<close> and the rest of \<open>mcause\<close>, \<open>mtvt\<close>, the
  vector bases, the privilege mode, the E902 wait-for-interrupt flags, the exception code and
  the level of its CLIC interrupt input.
\<close>

section \<open>State\<close>

record CLICActiveInterrupt =
  intcfg :: u16
  irq :: u16

datatype TRIG_TYPE = POSITIVE_LEVEL | POSITIVE_EDGE | NEG_LEVEL | NEG_EDGE

record CPURISCVState =
  mil :: u8
  mpil :: u8
  mcause :: u64
  mtvt :: u64
  mtvec :: u64
  stvec :: u64
  priv :: nat
  has_clic :: bool
  ext_xthead_e902 :: bool
  e902_wfi_active :: bool
  e902_mexstatus_wfe :: bool
  e902_wfi_wake_only :: bool
  exccode :: u32
  clic_interrupt :: bool

record XTCLICState =
  nvbits :: bool
  num_harts :: nat
  hartid_base :: nat
  num_sources :: nat
  clic_size :: nat
  clicintctlbits :: nat
  nmbits :: "u8 list"
  nlbits :: "u8 list"
  clicinfo :: "u32 list"
  clicintip :: "u8 list"
  clicintie :: "u8 list"
  clicintattr :: "u8 list"
  clicintctl :: "u8 list"
  mintthresh :: "u32 list"
  active_list :: "CLICActiveInterrupt list"
  active_count :: "nat list"
  cpu_env :: "CPURISCVState list"

abbreviation (input) PRV_M :: nat where "PRV_M \<equiv> 3"

section \<open>Decoding helpers\<close>

definition xt_clic_get_hartid_internal :: "nat \<Rightarrow> XTCLICState \<Rightarrow> nat" where
  "xt_clic_get_hartid_internal cpu_index clic = cpu_index - hartid_base clic"

definition xt_clic_get_trigger_type :: "XTCLICState \<Rightarrow> nat \<Rightarrow> TRIG_TYPE" where
  "xt_clic_get_trigger_type clic irq_offset =
     (let t = drop_bit 1 (clicintattr clic ! irq_offset) AND 3 in
      if t = 0 then POSITIVE_LEVEL else if t = 1 then POSITIVE_EDGE
      else if t = 2 then NEG_LEVEL else NEG_EDGE)"

definition xt_clic_is_edge_triggered :: "XTCLICState \<Rightarrow> nat \<Rightarrow> bool" where
  "xt_clic_is_edge_triggered clic irq_offset \<longleftrightarrow> drop_bit 1 (clicintattr clic ! irq_offset) AND 1 \<noteq> 0"

definition xt_clic_is_shv_interrupt :: "XTCLICState \<Rightarrow> nat \<Rightarrow> bool" where
  "xt_clic_is_shv_interrupt clic irq_offset \<longleftrightarrow> clicintattr clic ! irq_offset AND 1 \<noteq> 0 \<and> nvbits clic"

definition xt_clic_intctl_mask :: "XTCLICState \<Rightarrow> u8" where
  "xt_clic_intctl_mask clic =
     (if clicintctlbits clic = 0 then 0
      else if clicintctlbits clic \<ge> 8 then 0xFF
      else push_bit (8 - clicintctlbits clic) 0xFF)"

definition xt_clic_intctl_effective :: "XTCLICState \<Rightarrow> u8 \<Rightarrow> u8" where
  "xt_clic_intctl_effective clic intctl =
     (let m = xt_clic_intctl_mask clic in (intctl AND m) OR (0xFF AND NOT m))"

definition xt_clic_intctl_storage :: "XTCLICState \<Rightarrow> u8 \<Rightarrow> u8" where
  "xt_clic_intctl_storage clic intctl = intctl AND xt_clic_intctl_mask clic"

definition xt_clic_intctl_priority_valid :: "XTCLICState \<Rightarrow> u8 \<Rightarrow> bool" where
  "xt_clic_intctl_priority_valid clic intctl \<longleftrightarrow> intctl AND xt_clic_intctl_mask clic \<noteq> 0"

definition xt_clic_get_interrupt_level :: "XTCLICState \<Rightarrow> nat \<Rightarrow> u8 \<Rightarrow> u8" where
  "xt_clic_get_interrupt_level clic hartid intctl =
     (let nl = min (unat (nlbits clic ! hartid)) (clicintctlbits clic) in
      if nl = 0 then 0xFF
      else let mask_il = ucast (push_bit (8 - nl) (push_bit nl 1 - 1 :: u32)) :: u8;
               mask_padding = ucast (push_bit (8 - nl) 1 - 1 :: u32) :: u8
           in (intctl AND mask_il) OR mask_padding)"

definition xt_clic_get_interrupt_priority :: "XTCLICState \<Rightarrow> nat \<Rightarrow> u8 \<Rightarrow> u8" where
  "xt_clic_get_interrupt_priority clic hartid intctl = intctl"

definition xt_clic_intcfg_decode :: "XTCLICState \<Rightarrow> nat \<Rightarrow> u16 \<Rightarrow> u8 \<times> u8 \<times> u8" where
  "xt_clic_intcfg_decode clic hartid cfg =
     (ucast (drop_bit 8 cfg),
      xt_clic_get_interrupt_level clic hartid (ucast (cfg AND 0xff)),
      xt_clic_get_interrupt_priority clic hartid (ucast (cfg AND 0xff)))"

section \<open>Delivery\<close>

text \<open>The scan of \<open>xt_clic_find_pending\<close> over the hart's active entries.\<close>

fun find_pending_loop :: "XTCLICState \<Rightarrow> nat \<Rightarrow> u8 \<Rightarrow> bool \<Rightarrow> CLICActiveInterrupt list
    \<Rightarrow> (CLICActiveInterrupt \<times> u8) option" where
  "find_pending_loop clic hartid threshold non_shv_only [] = None"
| "find_pending_loop clic hartid threshold non_shv_only (active # rest) =
     (let irq_offset = unat (irq active) + hartid * num_sources clic in
      if \<not> xt_clic_intctl_priority_valid clic (clicintctl clic ! irq_offset)
      then find_pending_loop clic hartid threshold non_shv_only rest
      else case xt_clic_intcfg_decode clic hartid (intcfg active) of (md, lvl, pri) \<Rightarrow>
        if lvl \<le> threshold then None
        else if clicintip clic ! irq_offset \<noteq> 0
        then if non_shv_only \<and> xt_clic_is_shv_interrupt clic irq_offset then None
             else Some (active, lvl)
        else find_pending_loop clic hartid threshold non_shv_only rest)"

definition active_slice :: "XTCLICState \<Rightarrow> nat \<Rightarrow> CLICActiveInterrupt list" where
  "active_slice clic hartid =
     take (active_count clic ! hartid) (drop (hartid * num_sources clic) (active_list clic))"

definition xt_clic_find_pending :: "XTCLICState \<Rightarrow> nat \<Rightarrow> u8 \<Rightarrow> bool \<Rightarrow> (CLICActiveInterrupt \<times> u8) option" where
  "xt_clic_find_pending clic hartid threshold non_shv_only =
     find_pending_loop clic hartid threshold non_shv_only (active_slice clic hartid)"

definition set_env :: "nat \<Rightarrow> (CPURISCVState \<Rightarrow> CPURISCVState) \<Rightarrow> XTCLICState \<Rightarrow> XTCLICState" where
  "set_env hartid f clic = clic\<lparr>cpu_env := (cpu_env clic)[hartid := f (cpu_env clic ! hartid)]\<rparr>"

definition encode_exccode :: "CLICActiveInterrupt \<Rightarrow> u8 \<Rightarrow> u32" where
  "encode_exccode active lvl = ucast (irq active) OR push_bit 12 (of_nat PRV_M) OR push_bit 14 (ucast lvl)"

definition xt_clic_next_interrupt :: "nat \<Rightarrow> XTCLICState \<Rightarrow> XTCLICState" where
  "xt_clic_next_interrupt hartid clic =
     (let env = cpu_env clic ! hartid;
          threshold = ucast (max (ucast (mil env)) (mintthresh clic ! hartid)) :: u8;
          wfi_wake = ext_xthead_e902 env \<and> e902_wfi_active env \<and> e902_mexstatus_wfe env
      in case xt_clic_find_pending clic hartid threshold False of
           Some (active, lvl) \<Rightarrow>
             set_env hartid (\<lambda>e. e\<lparr>exccode := encode_exccode active lvl, e902_wfi_wake_only := False,
                                   clic_interrupt := True\<rparr>) clic
         | None \<Rightarrow>
             (case (if wfi_wake then xt_clic_find_pending clic hartid 0 False else None) of
                Some (active, lvl) \<Rightarrow>
                  set_env hartid (\<lambda>e. e\<lparr>exccode := encode_exccode active lvl, e902_wfi_wake_only := True,
                                        clic_interrupt := True\<rparr>) clic
              | None \<Rightarrow> set_env hartid (\<lambda>e. e\<lparr>e902_wfi_wake_only := False, clic_interrupt := False\<rparr>) clic))"

section \<open>The sorted list of enabled interrupts\<close>

definition xt_clic_encode_priority :: "CLICActiveInterrupt \<Rightarrow> int" where
  "xt_clic_encode_priority i =
     uint (push_bit 12 (ucast (intcfg i AND 0x3ff) :: u32) OR ucast (irq i AND 0xfff))"

definition xt_clic_active_compare :: "CLICActiveInterrupt \<Rightarrow> CLICActiveInterrupt \<Rightarrow> int" where
  "xt_clic_active_compare a b = xt_clic_encode_priority b - xt_clic_encode_priority a"

text \<open>
  The standard library's \<open>qsort\<close> and \<open>bsearch\<close>.  Only the result of \<open>qsort\<close> matters, the
  entries in ascending order of the comparison; \<open>bsearch\<close> halves the range \<open>[l, u)\<close>.
\<close>

primrec insert_by :: "('a \<Rightarrow> 'a \<Rightarrow> int) \<Rightarrow> 'a \<Rightarrow> 'a list \<Rightarrow> 'a list" where
  "insert_by cmp x [] = [x]"
| "insert_by cmp x (y # ys) = (if cmp x y \<le> 0 then x # y # ys else y # insert_by cmp x ys)"

definition qsort :: "('a \<Rightarrow> 'a \<Rightarrow> int) \<Rightarrow> 'a list \<Rightarrow> 'a list" where
  "qsort cmp xs = foldr (insert_by cmp) xs []"

function bsearch :: "('a \<Rightarrow> 'a \<Rightarrow> int) \<Rightarrow> 'a \<Rightarrow> 'a list \<Rightarrow> nat \<Rightarrow> nat \<Rightarrow> nat option" where
  "bsearch cmp key xs l u =
     (if l < u then
        let idx = (l + u) div 2; c = cmp key (xs ! idx)
        in if c < 0 then bsearch cmp key xs l idx
           else if c > 0 then bsearch cmp key xs (idx + 1) u
           else Some idx
      else None)"
  by pat_completeness auto
termination
  by (relation "measure (\<lambda>(cmp, key, xs, l, u). u - l)") auto

declare bsearch.simps [simp del]

definition qsort_range :: "nat \<Rightarrow> nat \<Rightarrow> CLICActiveInterrupt list \<Rightarrow> CLICActiveInterrupt list" where
  "qsort_range start n xs =
     take start xs @ qsort xt_clic_active_compare (take n (drop start xs)) @ drop (start + n) xs"

definition active_entry :: "XTCLICState \<Rightarrow> u8 \<Rightarrow> nat \<Rightarrow> CLICActiveInterrupt" where
  "active_entry clic intctl i =
     \<lparr>intcfg = push_bit 8 (of_nat PRV_M) OR ucast (xt_clic_intctl_effective clic intctl), irq = of_nat i\<rparr>"

definition xt_clic_enable_irq :: "nat \<Rightarrow> nat \<Rightarrow> XTCLICState \<Rightarrow> XTCLICState" where
  "xt_clic_enable_irq hartid i clic =
     (let hart_offset = hartid * num_sources clic;
          irq_offset = i + hart_offset;
          n = active_count clic ! hartid;
          al = (active_list clic)[hart_offset + n := active_entry clic (clicintctl clic ! irq_offset) i]
      in clic\<lparr>active_list := qsort_range hart_offset (n + 1) al,
              active_count := (active_count clic)[hartid := n + 1]\<rparr>)"

text \<open>\<open>None\<close> is a failed \<open>assert (result)\<close>.\<close>

definition xt_clic_disable_irq :: "nat \<Rightarrow> nat \<Rightarrow> XTCLICState \<Rightarrow> XTCLICState option" where
  "xt_clic_disable_irq hartid i clic =
     (let hart_offset = hartid * num_sources clic;
          irq_offset = i + hart_offset;
          n = active_count clic ! hartid;
          key = active_entry clic (clicintctl clic ! irq_offset) i
      in case bsearch xt_clic_active_compare key (active_slice clic hartid) 0 n of
           None \<Rightarrow> None
         | Some elem \<Rightarrow>
             let n' = n - 1;
                 al = active_list clic;
                 moved = take (hart_offset + elem) al @ take (n' - elem) (drop (hart_offset + elem + 1) al) @
                         drop (hart_offset + n') al
             in Some (clic\<lparr>active_list := qsort_range hart_offset n' moved,
                           active_count := (active_count clic)[hartid := n']\<rparr>))"

definition xt_clic_update_intctl :: "nat \<Rightarrow> nat \<Rightarrow> u8 \<Rightarrow> XTCLICState \<Rightarrow> XTCLICState" where
  "xt_clic_update_intctl hartid i new_intctl clic =
     (let hart_offset = hartid * num_sources clic;
          irq_offset = i + hart_offset;
          n = active_count clic ! hartid;
          key = active_entry clic (clicintctl clic ! irq_offset) i;
          clic = (case bsearch xt_clic_active_compare key (active_slice clic hartid) 0 n of
                    None \<Rightarrow> clic
                  | Some elem \<Rightarrow>
                      let al = active_list clic; k = hart_offset + elem
                      in clic\<lparr>active_list := qsort_range hart_offset n
                           (al[k := (al ! k)\<lparr>intcfg := intcfg (active_entry clic new_intctl i)\<rparr>])\<rparr>);
          clic = clic\<lparr>clicintctl := (clicintctl clic)[irq_offset := new_intctl]\<rparr>
      in xt_clic_next_interrupt hartid clic)"

definition xt_clic_update_intip :: "nat \<Rightarrow> nat \<Rightarrow> bool \<Rightarrow> XTCLICState \<Rightarrow> XTCLICState" where
  "xt_clic_update_intip hartid i v clic =
     xt_clic_next_interrupt hartid
       (clic\<lparr>clicintip := (clicintip clic)[i + num_sources clic * hartid := (if v then 1 else 0)]\<rparr>)"

definition xt_clic_validate_intip :: "nat \<Rightarrow> nat \<Rightarrow> XTCLICState \<Rightarrow> bool" where
  "xt_clic_validate_intip hartid i clic = xt_clic_is_edge_triggered clic (i + num_sources clic * hartid)"

definition xt_clic_update_intie :: "nat \<Rightarrow> nat \<Rightarrow> u8 \<Rightarrow> XTCLICState \<Rightarrow> XTCLICState option" where
  "xt_clic_update_intie hartid i new_intie clic =
     (let irq_offset = i + num_sources clic * hartid;
          old_intie = clicintie clic ! irq_offset;
          clic = clic\<lparr>clicintie := (clicintie clic)[irq_offset := (if new_intie \<noteq> 0 then 1 else 0)]\<rparr>
      in map_option (xt_clic_next_interrupt hartid)
           (if new_intie \<noteq> 0 \<and> old_intie = 0 then Some (xt_clic_enable_irq hartid i clic)
            else if new_intie = 0 \<and> old_intie \<noteq> 0 then xt_clic_disable_irq hartid i clic
            else Some clic))"

section \<open>Register file\<close>

text \<open>\<open>Some (irq, field)\<close> when the address is a per-interrupt byte of an implemented source.\<close>

definition xt_clic_decode_int_reg :: "XTCLICState \<Rightarrow> hwaddr \<Rightarrow> (nat \<times> nat) option" where
  "xt_clic_decode_int_reg clic addr =
     (if addr < 0x1000 then None
      else let rel = unat (addr - 0x1000); i = rel div 4; field = rel mod 4
           in if i < num_sources clic then Some (i, field) else None)"

definition xt_clic_read_int_field :: "XTCLICState \<Rightarrow> nat \<Rightarrow> nat \<Rightarrow> nat \<Rightarrow> u8" where
  "xt_clic_read_int_field clic hartid i field =
     (let irq_offset = i + num_sources clic * hartid in
      if field = 0 then clicintip clic ! irq_offset
      else if field = 1 then clicintie clic ! irq_offset
      else if field = 2 then clicintattr clic ! irq_offset OR push_bit 6 (of_nat PRV_M)
      else xt_clic_intctl_effective clic (clicintctl clic ! irq_offset))"

definition xt_clic_write_int_field :: "nat \<Rightarrow> nat \<Rightarrow> nat \<Rightarrow> u8 \<Rightarrow> XTCLICState \<Rightarrow> XTCLICState option" where
  "xt_clic_write_int_field hartid i field value clic =
     (let irq_offset = i + num_sources clic * hartid in
      if field = 0 then
        Some (if xt_clic_validate_intip hartid i clic \<and> value \<noteq> clicintip clic ! irq_offset
              then xt_clic_update_intip hartid i (value \<noteq> 0) clic else clic)
      else if field = 1 then
        if clicintie clic ! irq_offset \<noteq> value then xt_clic_update_intie hartid i value clic else Some clic
      else if field = 2 then
        Some (xt_clic_next_interrupt hartid
          (clic\<lparr>clicintattr := (clicintattr clic)[irq_offset := (value AND 7) OR push_bit 6 (of_nat PRV_M)]\<rparr>))
      else
        let value = xt_clic_intctl_storage clic value
        in Some (if value \<noteq> clicintctl clic ! irq_offset
                 then xt_clic_update_intctl hartid i value clic else clic))"

text \<open>The byte loop of \<open>xt_clic_write\<close>, \<open>k\<close> bytes from byte \<open>j\<close> of the value on.\<close>

primrec write_int_bytes :: "nat \<Rightarrow> nat \<Rightarrow> nat \<Rightarrow> u64 \<Rightarrow> nat \<Rightarrow> nat \<Rightarrow> XTCLICState \<Rightarrow> XTCLICState option" where
  "write_int_bytes hartid i field value j 0 clic = Some clic"
| "write_int_bytes hartid i field value j (Suc k) clic =
     Option.bind (xt_clic_write_int_field hartid i (field + j) (ucast (drop_bit (j * 8) value)) clic)
       (write_int_bytes hartid i field value (Suc j) k)"

definition xt_clic_write :: "nat \<Rightarrow> hwaddr \<Rightarrow> u64 \<Rightarrow> nat \<Rightarrow> XTCLICState \<Rightarrow> XTCLICState option" where
  "xt_clic_write cpu_index addr value sz clic =
     (let hartid = xt_clic_get_hartid_internal cpu_index clic in
      if addr = 0x000 then
        let nl = ucast (drop_bit 1 value AND 0xf) :: u8;
            clic = (if nl \<le> 8
                    then clic\<lparr>nlbits := (nlbits clic)[hartid := of_nat (min (unat nl) (clicintctlbits clic))]\<rparr>
                    else clic);
            clic = clic\<lparr>nmbits := (nmbits clic)[hartid := 0]\<rparr>
        in Some (xt_clic_next_interrupt hartid clic)
      else if addr = 0x008 then
        Some (xt_clic_next_interrupt hartid
          (clic\<lparr>mintthresh := (mintthresh clic)[hartid := ucast (ucast value :: u8)]\<rparr>))
      else case xt_clic_decode_int_reg clic addr of
        None \<Rightarrow> Some clic
      | Some (i, field) \<Rightarrow>
          if field + sz > 4 then Some clic
          else write_int_bytes hartid i field value 0 sz clic)"

primrec read_int_bytes :: "XTCLICState \<Rightarrow> nat \<Rightarrow> nat \<Rightarrow> nat \<Rightarrow> nat \<Rightarrow> nat \<Rightarrow> u64 \<Rightarrow> u64" where
  "read_int_bytes clic hartid i field j 0 ret = ret"
| "read_int_bytes clic hartid i field j (Suc k) ret =
     read_int_bytes clic hartid i field (Suc j) k
       (ret OR push_bit (j * 8) (ucast (xt_clic_read_int_field clic hartid i (field + j))))"

definition xt_clic_read :: "nat \<Rightarrow> XTCLICState \<Rightarrow> hwaddr \<Rightarrow> nat \<Rightarrow> u64" where
  "xt_clic_read cpu_index clic addr sz =
     (let hartid = xt_clic_get_hartid_internal cpu_index clic in
      if addr = 0x000 then
        (if nvbits clic then 1 else 0) OR push_bit 1 (ucast (nlbits clic ! hartid)) OR
        push_bit 5 (ucast (nmbits clic ! hartid))
      else if addr = 0x004 then
        (of_nat (num_sources clic) AND 0x1fff) OR push_bit 13 0x80 OR
        push_bit 21 (of_nat (clicintctlbits clic) AND 0xf)
      else if addr = 0x008 then ucast (mintthresh clic ! hartid)
      else case xt_clic_decode_int_reg clic addr of
        None \<Rightarrow> 0
      | Some (i, field) \<Rightarrow>
          if field + sz > 4 then 0 else read_int_bytes clic hartid i field 0 sz 0)"

section \<open>Interrupt wires and the processor's side\<close>

definition xt_clic_set_irq :: "nat \<Rightarrow> bool \<Rightarrow> XTCLICState \<Rightarrow> XTCLICState" where
  "xt_clic_set_irq line level clic =
     (let hartid = line div num_sources clic; i = line mod num_sources clic;
          irq_offset = i + num_sources clic * hartid
      in if level then
           (case xt_clic_get_trigger_type clic irq_offset of
              POSITIVE_LEVEL \<Rightarrow> xt_clic_update_intip hartid i level clic
            | POSITIVE_EDGE \<Rightarrow> xt_clic_update_intip hartid i level clic
            | NEG_LEVEL \<Rightarrow> xt_clic_update_intip hartid i (\<not> level) clic
            | NEG_EDGE \<Rightarrow> clic)
         else
           (case xt_clic_get_trigger_type clic irq_offset of
              POSITIVE_LEVEL \<Rightarrow> xt_clic_update_intip hartid i level clic
            | POSITIVE_EDGE \<Rightarrow> clic
            | NEG_LEVEL \<Rightarrow> xt_clic_update_intip hartid i (\<not> level) clic
            | NEG_EDGE \<Rightarrow> xt_clic_update_intip hartid i (\<not> level) clic))"

definition xt_clic_get_next_interrupt :: "nat \<Rightarrow> XTCLICState \<Rightarrow> XTCLICState" where
  "xt_clic_get_next_interrupt cpu_index clic = xt_clic_next_interrupt (cpu_index - hartid_base clic) clic"

definition xt_clic_shv_interrupt :: "nat \<Rightarrow> nat \<Rightarrow> XTCLICState \<Rightarrow> bool" where
  "xt_clic_shv_interrupt cpu_index i clic =
     xt_clic_is_shv_interrupt clic (i + num_sources clic * xt_clic_get_hartid_internal cpu_index clic)"

definition xt_clic_edge_triggered :: "nat \<Rightarrow> nat \<Rightarrow> XTCLICState \<Rightarrow> bool" where
  "xt_clic_edge_triggered cpu_index i clic =
     xt_clic_is_edge_triggered clic (i + num_sources clic * xt_clic_get_hartid_internal cpu_index clic)"

definition xt_clic_clean_pending :: "nat \<Rightarrow> nat \<Rightarrow> XTCLICState \<Rightarrow> XTCLICState" where
  "xt_clic_clean_pending cpu_index i clic =
     (let hartid = xt_clic_get_hartid_internal cpu_index clic;
          irq_offset = i + num_sources clic * hartid
      in xt_clic_next_interrupt hartid (clic\<lparr>clicintip := (clicintip clic)[irq_offset := 0]\<rparr>))"

definition xt_clic_mnxti_read :: "nat \<Rightarrow> bool \<Rightarrow> XTCLICState \<Rightarrow> u64 \<times> XTCLICState" where
  "xt_clic_mnxti_read cpu_index ack clic =
     (let hartid = xt_clic_get_hartid_internal cpu_index clic; env = cpu_env clic ! hartid in
      if priv env \<noteq> PRV_M then (0, clic)
      else case xt_clic_find_pending clic hartid (mpil env) True of
        None \<Rightarrow> (0, clic)
      | Some (active, lvl) \<Rightarrow>
          let irq_offset = unat (irq active) + num_sources clic * hartid;
              clic = set_env hartid (\<lambda>e. e\<lparr>mil := lvl, mcause := (mcause e AND NOT 0xfff) OR ucast (irq active)\<rparr>) clic;
              clic = (if ack \<and> xt_clic_is_edge_triggered clic irq_offset
                      then xt_clic_next_interrupt hartid (clic\<lparr>clicintip := (clicintip clic)[irq_offset := 0]\<rparr>)
                      else clic)
          in ((mtvt env AND NOT 0x3f) + 4 * ucast (irq active), clic))"

definition xt_clic_is_clic_mode :: "CPURISCVState \<Rightarrow> bool" where
  "xt_clic_is_clic_mode env =
     (let xtvec = (if priv env = PRV_M then mtvec env else stvec env) in has_clic env \<and> xtvec AND 3 = 3)"

text \<open>\<open>(mode, il, irq)\<close>.\<close>

definition xt_clic_decode_exccode :: "u32 \<Rightarrow> nat \<times> nat \<times> nat" where
  "xt_clic_decode_exccode code =
     (unat (drop_bit 12 code AND mask 2), unat (drop_bit 14 code AND mask 8), unat (code AND mask 12))"

definition xt_clic_realize :: "bool \<Rightarrow> nat \<Rightarrow> nat \<Rightarrow> nat \<Rightarrow> nat \<Rightarrow> CPURISCVState list \<Rightarrow> XTCLICState" where
  "xt_clic_realize vector base harts sources ctlbits cpus =
     (let irqs = harts * sources in
      \<lparr>nvbits = vector, num_harts = harts, hartid_base = base, num_sources = sources,
       clic_size = max 0x5000 (0x1000 + sources * 4), clicintctlbits = ctlbits,
       nmbits = replicate harts 0, nlbits = replicate harts 0, clicinfo = replicate harts 0,
       clicintip = replicate irqs 0, clicintie = replicate irqs 0, clicintattr = replicate irqs 0,
       clicintctl = replicate irqs 0, mintthresh = replicate harts 0,
       active_list = replicate irqs \<lparr>intcfg = 0, irq = 0\<rparr>, active_count = replicate harts 0,
       cpu_env = map (\<lambda>e. e\<lparr>has_clic := True\<rparr>) cpus\<rparr>)"

text \<open>\<open>None\<close> is one of the two assertions of \<open>xt_clic_create\<close>.\<close>

definition xt_clic_create :: "bool \<Rightarrow> nat \<Rightarrow> nat \<Rightarrow> nat \<Rightarrow> nat \<Rightarrow> CPURISCVState list \<Rightarrow> XTCLICState option" where
  "xt_clic_create vector base harts sources ctlbits cpus =
     (if sources \<le> 4096 \<and> ctlbits \<le> 8 then Some (xt_clic_realize vector base harts sources ctlbits cpus) else None)"

end
