(* ===== verification/Clic_Lists.thy ===== *)
theory Clic_Lists
  imports Clic "HOL-Library.Multiset"
begin

text \<open>
  The list machinery of the interrupt controller: \<open>qsort\<close> sorts and permutes, \<open>bsearch\<close> finds an
  entry of a strictly descending list exactly when it is there, priorities order interrupts by
  control byte and then by number, and each operation on the flat array changes one hart's
  slice only.
\<close>

abbreviation prio :: "CLICActiveInterrupt \<Rightarrow> int" where "prio \<equiv> xt_clic_encode_priority"

abbreviation descending :: "CLICActiveInterrupt list \<Rightarrow> bool" where
  "descending \<equiv> sorted_wrt (\<lambda>a b. prio a > prio b)"

section \<open>Sorting\<close>

lemma mset_insert_by [simp]: "mset (insert_by cmp x xs) = add_mset x (mset xs)"
  by (induction xs) auto

lemma mset_qsort [simp]: "mset (qsort cmp xs) = mset xs"
  by (induction xs) (simp_all add: qsort_def)

lemma set_qsort [simp]: "set (qsort cmp xs) = set xs"
  by (metis mset_qsort set_mset_mset)

lemma length_qsort [simp]: "length (qsort cmp xs) = length xs"
  by (metis mset_qsort size_mset)

lemma set_insert_by [simp]: "set (insert_by cmp x xs) = insert x (set xs)"
  by (metis mset_insert_by set_mset_add_mset_insert set_mset_mset)

lemma compare_le: "xt_clic_active_compare a b \<le> 0 \<longleftrightarrow> prio b \<le> prio a"
  by (simp add: xt_clic_active_compare_def)

lemma insert_by_sorted:
  "sorted_wrt (\<lambda>a b. prio a \<ge> prio b) xs \<Longrightarrow> sorted_wrt (\<lambda>a b. prio a \<ge> prio b) (insert_by xt_clic_active_compare x xs)"
  by (induction xs) (auto simp: compare_le intro: order_trans)

lemma qsort_sorted: "sorted_wrt (\<lambda>a b. prio a \<ge> prio b) (qsort xt_clic_active_compare xs)"
  by (induction xs) (simp_all add: qsort_def insert_by_sorted)

lemma qsort_descending:
  assumes "inj_on prio (set xs)" and "distinct xs"
  shows "descending (qsort xt_clic_active_compare xs)"
proof -
  let ?ys = "qsort xt_clic_active_compare xs"
  have d: "distinct ?ys" using assms(2) by (metis mset_qsort mset_eq_imp_distinct_iff)
  have "prio (?ys ! i) > prio (?ys ! j)" if "i < j" "j < length ?ys" for i j
  proof -
    have "prio (?ys ! i) \<ge> prio (?ys ! j)"
      using qsort_sorted [of xs] that by (simp only: sorted_wrt_iff_nth_less)
    moreover have "?ys ! i \<noteq> ?ys ! j" using d that by (auto simp: nth_eq_iff_index_eq)
    moreover have "?ys ! i \<in> set xs" "?ys ! j \<in> set xs"
      using that nth_mem [of _ ?ys] by simp_all
    ultimately show ?thesis using assms(1) by (metis inj_onD order_le_less)
  qed
  then show ?thesis by (simp add: sorted_wrt_iff_nth_less)
qed

lemma descending_distinct: "descending xs \<Longrightarrow> distinct xs"
  by (induction xs) auto

lemma descending_inj: "descending xs \<Longrightarrow> inj_on prio (set xs)"
  by (induction xs) auto

section \<open>Searching\<close>

lemma bsearch_spec:
  assumes "descending xs" and "u \<le> length xs"
  shows "case bsearch xt_clic_active_compare key xs l u of
      Some k \<Rightarrow> l \<le> k \<and> k < u \<and> prio (xs ! k) = prio key
    | None \<Rightarrow> \<forall>k. l \<le> k \<and> k < u \<longrightarrow> prio (xs ! k) \<noteq> prio key"
  using assms
proof (induction xt_clic_active_compare key xs l u rule: bsearch.induct)
  case (1 key xs l u)
  show ?case
  proof (cases "l < u")
    case True
    define m where "m = (l + u) div 2"
    let ?c = "xt_clic_active_compare key (xs ! m)"
    have m: "l \<le> m" "m < u" "m < length xs" using True 1(4) by (auto simp: m_def)
    have lt: "prio (xs ! j) < prio (xs ! i)" if "i < j" "j < length xs" for i j
      using 1(3) that by (simp add: sorted_wrt_iff_nth_less)
    consider "?c < 0" | "?c > 0" | "?c = 0" by linarith
    then show ?thesis
    proof cases
      case 1
      then have eq: "bsearch xt_clic_active_compare key xs l u = bsearch xt_clic_active_compare key xs l m"
        using True by (subst bsearch.simps) (simp add: m_def Let_def)
      have "prio (xs ! k) \<noteq> prio key" if "m \<le> k" "k < u" for k
        using lt [of m k] that 1 "1.prems"(2) by (cases "k = m") (auto simp: xt_clic_active_compare_def)
      then show ?thesis
        unfolding eq using "1.hyps"(1) [OF True m_def refl 1 "1.prems"(1)] m
        by (auto split: option.splits) (metis not_le)
    next
      case 2
      then have eq: "bsearch xt_clic_active_compare key xs l u = bsearch xt_clic_active_compare key xs (m + 1) u"
        using True by (subst bsearch.simps) (simp add: m_def Let_def)
      have "prio (xs ! k) \<noteq> prio key" if "k \<le> m" for k
        using lt [of k m] that 2 m by (cases "k = m") (auto simp: xt_clic_active_compare_def)
      then show ?thesis
        unfolding eq using "1.hyps"(2) [OF True m_def refl _ 2 "1.prems"(1)] 2 m "1.prems"(2)
        by (auto split: option.splits) (metis not_less_eq_eq not_le)
    next
      case 3
      then have "bsearch xt_clic_active_compare key xs l u = Some m"
        using True by (subst bsearch.simps) (simp add: m_def Let_def)
      then show ?thesis using 3 m by (simp add: xt_clic_active_compare_def)
    qed
  qed (simp add: bsearch.simps)
qed

lemma bsearch_complete:
  assumes "descending xs" and "inj_on prio (insert key (set xs))"
  shows "case bsearch xt_clic_active_compare key xs 0 (length xs) of
      Some k \<Rightarrow> k < length xs \<and> xs ! k = key | None \<Rightarrow> key \<notin> set xs"
proof (cases "bsearch xt_clic_active_compare key xs 0 (length xs)")
  case None
  then show ?thesis using bsearch_spec [OF assms(1) order_refl, where key = key and l = 0] by (auto simp: in_set_conv_nth)
next
  case (Some k)
  then have k: "k < length xs" "prio (xs ! k) = prio key"
    using bsearch_spec [OF assms(1) order_refl, where key = key and l = 0] by auto
  then have "xs ! k = key" using assms(2) by (meson inj_onD insertCI nth_mem)
  then show ?thesis using Some k by simp
qed

section \<open>Priorities\<close>

lemma high_low_disjoint: "push_bit 8 p AND (ucast (e :: u8) :: u16) = 0"
  by (rule bit_word_eqI) (auto simp: bit_simps dest: bit_imp_le_length)

lemma unat_intcfg: "unat (intcfg (active_entry clic c i)) = 768 + unat (xt_clic_intctl_effective clic c)"
proof -
  let ?e = "ucast (xt_clic_intctl_effective clic c) :: u16"
  have e: "unat ?e = unat (xt_clic_intctl_effective clic c)" by (rule unat_ucast_up) simp
  have "0x300 AND ?e = 0" using high_low_disjoint [of 3] by simp
  then have "0x300 OR ?e = 0x300 + ?e"
    by (metis add_0 word_plus_and_or)
  moreover have "unat (0x300 :: u16) + unat ?e < 65536"
    unfolding e using less_trans [OF unat8_lt, of 64768 "xt_clic_intctl_effective clic c"] by simp
  then have "unat (0x300 + ?e) = 768 + unat ?e" by (subst unat_add_small) simp_all
  ultimately show ?thesis by (simp add: active_entry_def e)
qed

lemma prio_entry:
  assumes "i < 4096"
  shows "prio (active_entry clic c i) = (768 + int (unat (xt_clic_intctl_effective clic c))) * 4096 + int i"
proof -
  let ?a = "active_entry clic c i" and ?e = "unat (xt_clic_intctl_effective clic c)"
  let ?h = "ucast (intcfg ?a AND 0x3ff) :: u32" and ?l = "ucast (irq ?a AND 0xfff) :: u32"
  have e: "?e < 256" by (rule unat8_lt)
  have h: "unat ?h = 768 + ?e"
    using unat_and_mask [of "intcfg ?a" 10] e by (simp add: unat_ucast_up mask_numeral unat_intcfg)
  have l: "unat ?l = i"
    using unat_and_mask [of "irq ?a" 12] assms
    by (simp add: unat_ucast_up mask_numeral active_entry_def unat_of_nat_small)
  have "768 * 4096 + ?e * 4096 + 4096 < 4294967296" using e by linarith
  then have b: "(768 + ?e) * 4096 + 4096 < 4294967296" by (simp add: distrib_right)
  then have ph: "unat (push_bit 12 ?h) = (768 + ?e) * 4096"
    using h by (subst unat_push_bit) simp_all
  have "push_bit 12 ?h AND ?l = 0" by (rule push_bit_and_low) (simp add: l assms)
  then have "push_bit 12 ?h OR ?l = push_bit 12 ?h + ?l" by (metis add_0 word_plus_and_or)
  moreover have "unat (push_bit 12 ?h + ?l) = (768 + ?e) * 4096 + i"
    using ph l b assms by (subst unat_add_small) simp_all
  ultimately have "unat (push_bit 12 ?h OR ?l) = (768 + ?e) * 4096 + i" by metis
  then show ?thesis unfolding xt_clic_encode_priority_def uint_nat by simp
qed

section \<open>Slices of the flat array\<close>

lemma active_slice_nth:
  assumes "hartid * num_sources clic + active_count clic ! hartid \<le> length (active_list clic)"
  shows "active_slice clic hartid =
    map (\<lambda>k. active_list clic ! (hartid * num_sources clic + k)) [0..<active_count clic ! hartid]"
  using assms by (intro nth_equalityI) (simp_all add: active_slice_def)

lemma length_qsort_range [simp]: "start + n \<le> length xs \<Longrightarrow> length (qsort_range start n xs) = length xs"
  by (simp add: qsort_range_def)

lemma qsort_range_slice:
  "start + n \<le> length xs \<Longrightarrow> take n (drop start (qsort_range start n xs)) = qsort xt_clic_active_compare (take n (drop start xs))"
  by (simp add: qsort_range_def)

lemma qsort_range_outside:
  assumes "start + n \<le> length xs" and "j < start \<or> start + n \<le> j"
  shows "qsort_range start n xs ! j = xs ! j"
  using assms by (auto simp: qsort_range_def nth_append)

text \<open>Removing one cell from a slice the way \<open>memmove\<close> does, and appending one.\<close>

lemma slice_remove:
  fixes al :: "'a list"
  assumes "start + n \<le> length al" and "e < n"
  defines "moved \<equiv> take (start + e) al @ take (n - 1 - e) (drop (start + e + 1) al) @ drop (start + (n - 1)) al"
  shows "length moved = length al"
    and "take (n - 1) (drop start moved) = take e (take n (drop start al)) @ drop (Suc e) (take n (drop start al))"
    and "j < start \<or> start + n \<le> j \<Longrightarrow> moved ! j = al ! j"
proof -
  show "length moved = length al" using assms(1,2) by (simp add: moved_def)
  have n: "n - 1 = e + (n - 1 - e)" using assms(2) by simp
  have "drop start moved = take e (drop start al) @ take (n - 1 - e) (drop (start + e + 1) al) @ drop (start + (n - 1)) al"
    using assms(1,2) by (simp add: moved_def take_add)
  moreover have "length (take e (drop start al)) = e" using assms(1,2) by simp
  moreover have "length (take (n - 1 - e) (drop (start + e + 1) al)) = n - 1 - e" using assms(1,2) by simp
  moreover have "drop (Suc e) (take n (drop start al)) = take (n - 1 - e) (drop (start + e + 1) al)"
    using assms(2) by (simp add: drop_take add.commute)
  moreover have "take e (take n (drop start al)) = take e (drop start al)" using assms(2) by (simp add: min_def)
  ultimately show "take (n - 1) (drop start moved) = take e (take n (drop start al)) @ drop (Suc e) (take n (drop start al))"
    by (metis (no_types, lifting) append_take_drop_id append_assoc length_append append_eq_conv_conj n)
  show "j < start \<or> start + n \<le> j \<Longrightarrow> moved ! j = al ! j"
    using assms(1,2) by (auto simp: moved_def nth_append)
qed

lemma slice_snoc:
  assumes "start + n < length al"
  shows "take (n + 1) (drop start (al[start + n := e])) = take n (drop start al) @ [e]"
  using assms by (simp add: take_Suc_conv_app_nth drop_update_swap)

lemma slice_update:
  assumes "start + n \<le> length al" and "k < n"
  shows "take n (drop start (al[start + k := e])) = (take n (drop start al))[k := e]"
  using assms by (simp add: drop_update_swap take_update_swap)

end
