(* ===== verification/Clic_Inv.thy ===== *)
theory Clic_Inv
  imports Clic_Lists
begin

text \<open>
  The invariant of the interrupt controller.  \<open>hview\<close> is all that belongs to one hart; every
  operation is \<open>local_to\<close> a hart, and re-establishes \<open>hart_ok\<close> there: the hart's slice of the
  flat array holds exactly its enabled interrupts, in strictly descending priority, and fits.
\<close>

section \<open>What belongs to a hart\<close>

abbreviation ip_of :: "XTCLICState \<Rightarrow> nat \<Rightarrow> nat \<Rightarrow> u8" where "ip_of clic h i \<equiv> clicintip clic ! (i + num_sources clic * h)"
abbreviation ie_of :: "XTCLICState \<Rightarrow> nat \<Rightarrow> nat \<Rightarrow> u8" where "ie_of clic h i \<equiv> clicintie clic ! (i + num_sources clic * h)"
abbreviation attr_of :: "XTCLICState \<Rightarrow> nat \<Rightarrow> nat \<Rightarrow> u8" where "attr_of clic h i \<equiv> clicintattr clic ! (i + num_sources clic * h)"
abbreviation ctl_of :: "XTCLICState \<Rightarrow> nat \<Rightarrow> nat \<Rightarrow> u8" where "ctl_of clic h i \<equiv> clicintctl clic ! (i + num_sources clic * h)"

definition cells :: "XTCLICState \<Rightarrow> nat \<Rightarrow> (nat \<Rightarrow> u8) \<Rightarrow> u8 list" where
  "cells clic h f = map f [0..<num_sources clic]"

definition hview where
  "hview clic h = (active_slice clic h, active_count clic ! h, nlbits clic ! h, mintthresh clic ! h, cpu_env clic ! h,
     cells clic h (ip_of clic h), cells clic h (ie_of clic h), cells clic h (attr_of clic h), cells clic h (ctl_of clic h))"

definition params where
  "params clic = (nvbits clic, num_harts clic, hartid_base clic, num_sources clic, clicintctlbits clic)"

definition lens :: "XTCLICState \<Rightarrow> nat list" where
  "lens clic = [length (nmbits clic), length (nlbits clic), length (mintthresh clic), length (cpu_env clic),
     length (active_count clic), length (clicintip clic), length (clicintie clic), length (clicintattr clic),
     length (clicintctl clic), length (active_list clic)]"

definition lens_ok :: "XTCLICState \<Rightarrow> bool" where
  "lens_ok clic \<longleftrightarrow> num_sources clic \<le> 4096 \<and> clicintctlbits clic \<le> 8 \<and>
     lens clic = replicate 5 (num_harts clic) @ replicate 5 (num_harts clic * num_sources clic)"

definition local_to :: "nat \<Rightarrow> XTCLICState \<Rightarrow> XTCLICState \<Rightarrow> bool" where
  "local_to h s t \<longleftrightarrow> params t = params s \<and> lens t = lens s \<and>
     (\<forall>h' < num_harts s. h' \<noteq> h \<longrightarrow> hview t h' = hview s h')"

definition entry :: "XTCLICState \<Rightarrow> nat \<Rightarrow> nat \<Rightarrow> CLICActiveInterrupt" where
  "entry clic h i = active_entry clic (ctl_of clic h i) i"

definition enabled :: "XTCLICState \<Rightarrow> nat \<Rightarrow> nat set" where
  "enabled clic h = {i. i < num_sources clic \<and> ie_of clic h i \<noteq> 0}"

definition hart_ok :: "XTCLICState \<Rightarrow> nat \<Rightarrow> bool" where
  "hart_ok clic h \<longleftrightarrow> active_count clic ! h \<le> num_sources clic \<and> length (active_slice clic h) = active_count clic ! h \<and>
     descending (active_slice clic h) \<and> set (active_slice clic h) = entry clic h ` enabled clic h"

definition clic_wf :: "XTCLICState \<Rightarrow> bool" where
  "clic_wf clic \<longleftrightarrow> lens_ok clic \<and> (\<forall>h < num_harts clic. hart_ok clic h)"

lemma lens_okD:
  assumes "lens_ok clic"
  shows "num_sources clic \<le> 4096" "clicintctlbits clic \<le> 8"
    "length (nlbits clic) = num_harts clic" "length (nmbits clic) = num_harts clic" "length (mintthresh clic) = num_harts clic"
    "length (cpu_env clic) = num_harts clic" "length (active_count clic) = num_harts clic"
    "length (clicintip clic) = num_harts clic * num_sources clic" "length (clicintie clic) = num_harts clic * num_sources clic"
    "length (clicintattr clic) = num_harts clic * num_sources clic" "length (clicintctl clic) = num_harts clic * num_sources clic"
    "length (active_list clic) = num_harts clic * num_sources clic"
  using assms by (simp_all add: lens_ok_def lens_def numeral_eq_Suc)

lemma replicate_5: "replicate 5 x = [x, x, x, x, x]"
  by (simp add: numeral_eq_Suc)

lemma params_eq:
  "params t = params s \<longleftrightarrow> nvbits t = nvbits s \<and> num_harts t = num_harts s \<and> hartid_base t = hartid_base s \<and>
     num_sources t = num_sources s \<and> clicintctlbits t = clicintctlbits s"
  by (auto simp: params_def)

lemma cell_index:
  assumes "i < n" "h < (m :: nat)"
  shows "i + n * h < m * n" "i + n * h < n * m"
proof -
  have "i + n * h < n * Suc h" using assms by simp
  also have "\<dots> \<le> n * m" using assms by (intro mult_le_mono2) simp
  finally show "i + n * h < m * n" "i + n * h < n * m" by (simp_all add: mult.commute)
qed

lemma cell_index_neq:
  assumes "i < n" "j < (n :: nat)" "h \<noteq> h'"
  shows "i + n * h \<noteq> j + n * h'"
proof
  assume "i + n * h = j + n * h'"
  then have "(i + n * h) div n = (j + n * h') div n" by simp
  then show False using assms by simp
qed

lemma local_refl [simp]: "local_to h s s"
  by (simp add: local_to_def)

lemma local_trans: "local_to h s t \<Longrightarrow> local_to h t u \<Longrightarrow> local_to h s u"
  by (auto simp: local_to_def params_eq)

lemma local_lens: "local_to h s t \<Longrightarrow> lens_ok t = lens_ok s"
  by (auto simp: local_to_def lens_ok_def params_eq)

lemma local_params: "local_to h s t \<Longrightarrow> params t = params s"
  by (simp add: local_to_def)

section \<open>Primitive updates\<close>

lemmas hview_defs = local_to_def params_def lens_def hview_def cells_def active_slice_def

lemma local_env: "local_to h s (set_env h f s)"
  by (simp add: hview_defs set_env_def)

lemma local_cells:
  assumes "i < num_sources s"
  shows "local_to h s (s\<lparr>clicintip := (clicintip s)[i + num_sources s * h := v]\<rparr>)"
    and "local_to h s (s\<lparr>clicintie := (clicintie s)[i + num_sources s * h := v]\<rparr>)"
    and "local_to h s (s\<lparr>clicintattr := (clicintattr s)[i + num_sources s * h := v]\<rparr>)"
    and "local_to h s (s\<lparr>clicintctl := (clicintctl s)[i + num_sources s * h := v]\<rparr>)"
  using cell_index_neq [OF assms] by (auto simp: hview_defs)

lemma local_hart_regs:
  "local_to h s (s\<lparr>nlbits := (nlbits s)[h := v]\<rparr>)" "local_to h s (s\<lparr>nmbits := (nmbits s)[h := v]\<rparr>)"
  "local_to h s (s\<lparr>mintthresh := (mintthresh s)[h := w]\<rparr>)"
  by (simp_all add: hview_defs)

lemma region_end:
  assumes "k \<le> n" "h < (m :: nat)"
  shows "h * n + k \<le> m * n"
proof -
  have "h * n + k \<le> Suc h * n" using assms by simp
  also have "\<dots> \<le> m * n" using assms by (intro mult_le_mono1) simp
  finally show ?thesis .
qed

lemma region_disjoint:
  assumes "h \<noteq> h'" "k < (n :: nat)"
  shows "h' * n + k < h * n \<or> h * n + n \<le> h' * n + k"
proof (cases "h' < h")
  case True
  then have "Suc h' * n \<le> h * n" by (intro mult_le_mono1) simp
  then show ?thesis using assms(2) by simp
next
  case False
  then have "Suc h * n \<le> h' * n" using assms(1) by (intro mult_le_mono1) simp
  then show ?thesis by simp
qed

lemma local_active:
  assumes "lens_ok s" and "\<forall>h' < num_harts s. active_count s ! h' \<le> num_sources s"
    and len: "length al = length (active_list s)"
    and out: "\<And>j. j < h * num_sources s \<or> h * num_sources s + num_sources s \<le> j \<Longrightarrow> al ! j = active_list s ! j"
  shows "local_to h s (s\<lparr>active_list := al, active_count := (active_count s)[h := c]\<rparr>)"
proof -
  let ?t = "s\<lparr>active_list := al, active_count := (active_count s)[h := c]\<rparr>"
  have "active_slice ?t h' = active_slice s h'" if h': "h' < num_harts s" "h' \<noteq> h" for h'
  proof -
    have c: "active_count s ! h' \<le> num_sources s" using assms(2) h' by blast
    have b: "h' * num_sources s + active_count s ! h' \<le> length (active_list s)"
      using region_end [OF c h'(1)] lens_okD(12) [OF assms(1)] by simp
    have "al ! (h' * num_sources s + k) = active_list s ! (h' * num_sources s + k)" if "k < active_count s ! h'" for k
      using region_disjoint [of h h' k "num_sources s"] h'(2) c that by (intro out) auto
    then show ?thesis
      using h' b len by (subst (1 2) active_slice_nth) simp_all
  qed
  then show ?thesis using len by (simp add: local_to_def params_def lens_def hview_def cells_def)
qed

section \<open>The hart's own part\<close>

lemma hart_ok_cong:
  assumes "params t = params s" "hview t h = hview s h"
  shows "hart_ok t h = hart_ok s h"
proof -
  have n: "num_sources t = num_sources s" "clicintctlbits t = clicintctlbits s" using assms(1) by (simp_all add: params_eq)
  have "ie_of t h i = ie_of s h i" "ctl_of t h i = ctl_of s h i" if "i < num_sources s" for i
    using assms(2) that by (auto simp: hview_def cells_def n)
  then have "enabled t h = enabled s h" "entry t h ` enabled s h = entry s h ` enabled s h"
    by (auto simp: enabled_def entry_def n active_entry_def xt_clic_intctl_effective_def xt_clic_intctl_mask_def intro!: image_cong)
  then show ?thesis using assms(2) by (simp add: hart_ok_def hview_def n)
qed

lemma wf_local:
  assumes "clic_wf s" "local_to h s t" "h < num_harts s \<Longrightarrow> hart_ok t h"
  shows "clic_wf t"
proof -
  have "num_harts t = num_harts s" using local_params [OF assms(2)] by (simp add: params_eq)
  moreover have "hart_ok t h'" if "h' < num_harts s" for h'
  proof (cases "h' = h")
    case False
    then have "hart_ok t h' = hart_ok s h'"
      using assms(2) that by (intro hart_ok_cong) (auto simp: local_to_def)
    then show ?thesis using assms(1) that by (simp add: clic_wf_def)
  qed (use assms(3) that in simp)
  ultimately show ?thesis using assms(1) local_lens [OF assms(2)] by (simp add: clic_wf_def)
qed

lemma next_interrupt_env: "\<exists>f. xt_clic_next_interrupt h s = set_env h f s"
  unfolding xt_clic_next_interrupt_def Let_def by (auto split: option.splits)

lemma hart_ok_env [simp]: "hart_ok (set_env h f s) h' = hart_ok s h'"
  by (simp add: hart_ok_def set_env_def active_slice_def entry_def enabled_def active_entry_def
      xt_clic_intctl_effective_def xt_clic_intctl_mask_def)

lemma next_interrupt_keeps [simp]: "hart_ok (xt_clic_next_interrupt h s) h' = hart_ok s h'"
  using next_interrupt_env [of h s] by auto

lemma local_next: "local_to h s t \<Longrightarrow> local_to h s (xt_clic_next_interrupt h t)"
  using next_interrupt_env [of h t] local_env local_trans by metis

lemma prio_entry_inj:
  assumes "i < 4096" "j < 4096" "prio (active_entry clic c i) = prio (active_entry clic' d j)"
  shows "i = j"
proof -
  obtain x y :: int where "x * 4096 + int i = y * 4096 + int j" using assms by (simp add: prio_entry)
  then have "(x * 4096 + int i) mod 4096 = (y * 4096 + int j) mod 4096" by simp
  then show ?thesis using assms(1,2) by simp
qed

lemma inj_prio_entries:
  assumes "lens_ok s" "X \<subseteq> {i. i < num_sources s}"
  shows "inj_on prio (entry s h ` X)" "inj_on (entry s h) X"
proof -
  have b: "i < 4096" if "i \<in> X" for i using lens_okD(1) [OF assms(1)] assms(2) that by force
  show "inj_on prio (entry s h ` X)" "inj_on (entry s h) X"
    using b by (auto simp: inj_on_def entry_def dest!: prio_entry_inj [rotated 2] arg_cong [where f = prio])
qed

lemma enabled_sub: "enabled s h \<subseteq> {i. i < num_sources s}"
  by (auto simp: enabled_def)

lemma hart_count:
  assumes "lens_ok s" "hart_ok s h"
  shows "active_count s ! h = card (enabled s h)"
proof -
  have "active_count s ! h = card (set (active_slice s h))"
    using assms(2) distinct_card [OF descending_distinct, of "active_slice s h"] by (simp add: hart_ok_def)
  also have "\<dots> = card (enabled s h)"
    using assms card_image [OF inj_prio_entries(2) [OF assms(1) enabled_sub]] by (simp add: hart_ok_def)
  finally show ?thesis .
qed

lemma hart_room:
  assumes "lens_ok s" "hart_ok s h" "i < num_sources s" "i \<notin> enabled s h"
  shows "active_count s ! h < num_sources s"
proof -
  have "enabled s h \<subset> {..<num_sources s}" using assms(3,4) by (auto simp: enabled_def)
  then have "card (enabled s h) < card {..<num_sources s}" by (intro psubset_card_mono) simp_all
  then show ?thesis using hart_count [OF assms(1,2)] by simp
qed

lemma hart_okI:
  assumes "lens_ok s" "h < num_harts s" "active_count s ! h \<le> num_sources s"
    and "active_slice s h = qsort xt_clic_active_compare xs" "distinct xs" "set xs = entry s h ` enabled s h"
  shows "hart_ok s h"
proof -
  have "inj_on prio (set xs)" using inj_prio_entries(1) [OF assms(1) enabled_sub] assms(6) by simp
  then have "descending (active_slice s h)" using qsort_descending assms(4,5) by simp
  moreover have "length (active_slice s h) = active_count s ! h"
    using region_end [OF assms(3,2)] lens_okD(12) [OF assms(1)] by (simp add: active_slice_def)
  ultimately show ?thesis using assms by (simp add: hart_ok_def)
qed

section \<open>Enabling, disabling, re-prioritising\<close>

lemma wf_counts: "clic_wf s \<Longrightarrow> \<forall>h < num_harts s. active_count s ! h \<le> num_sources s"
  by (simp add: clic_wf_def hart_ok_def)

lemma ie_update_enabled:
  assumes "lens_ok s" "h < num_harts s" "i < num_sources s"
  shows "enabled (s\<lparr>clicintie := (clicintie s)[i + num_sources s * h := v]\<rparr>) h =
    (if v = 0 then enabled s h - {i} else insert i (enabled s h))"
  using assms cell_index [OF assms(3,2)] lens_okD(9) [OF assms(1)] by (auto simp: enabled_def nth_list_update)

lemma active_entry_cong [simp]:
  "active_entry (s\<lparr>clicintie := a\<rparr>) = active_entry s" "active_entry (s\<lparr>clicintctl := a\<rparr>) = active_entry s"
  "active_entry (s\<lparr>active_list := al\<rparr>) = active_entry s" "active_entry (s\<lparr>active_count := ac\<rparr>) = active_entry s"
  by (simp_all add: fun_eq_iff active_entry_def xt_clic_intctl_effective_def xt_clic_intctl_mask_def)

lemma entry_cong [simp]:
  "entry (s\<lparr>clicintie := a\<rparr>) = entry s" "entry (s\<lparr>active_list := al\<rparr>) = entry s" "entry (s\<lparr>active_count := ac\<rparr>) = entry s"
  by (simp_all add: fun_eq_iff entry_def)

lemma enabled_cong [simp]:
  "enabled (s\<lparr>active_list := al\<rparr>) h = enabled s h" "enabled (s\<lparr>active_count := ac\<rparr>) h = enabled s h"
  "enabled (s\<lparr>clicintctl := a\<rparr>) h = enabled s h"
  by (simp_all add: enabled_def)

text \<open>Installing a sorted slice: the common shape of the three operations.\<close>

lemma install_slice:
  assumes ok: "lens_ok s" and cs: "\<forall>h < num_harts s. active_count s ! h \<le> num_sources s"
    and h: "h < num_harts s" and c: "c \<le> num_sources s"
    and len: "length al = length (active_list s)"
    and out: "\<And>j. j < h * num_sources s \<or> h * num_sources s + num_sources s \<le> j \<Longrightarrow> al ! j = active_list s ! j"
  defines "t \<equiv> s\<lparr>active_list := qsort_range (h * num_sources s) c al, active_count := (active_count s)[h := c]\<rparr>"
  shows "local_to h s t" and "active_slice t h = qsort xt_clic_active_compare (take c (drop (h * num_sources s) al))"
    and "active_count t ! h = c"
proof -
  have e: "h * num_sources s + c \<le> length al" using region_end [OF c h] lens_okD(12) [OF ok] len by simp
  show "local_to h s t" unfolding t_def
    using e len c by (intro local_active [OF ok cs]) (auto simp: qsort_range_outside out)
  show "active_count t ! h = c" using lens_okD(7) [OF ok] h by (simp add: t_def)
  then show "active_slice t h = qsort xt_clic_active_compare (take c (drop (h * num_sources s) al))"
    using e by (simp add: active_slice_def t_def qsort_range_slice)
qed

lemma enable_ok:
  assumes wf: "clic_wf s" and h: "h < num_harts s" and i: "i < num_sources s" and off: "ie_of s h i = 0" and v: "v \<noteq> 0"
  defines "s1 \<equiv> s\<lparr>clicintie := (clicintie s)[i + num_sources s * h := v]\<rparr>"
  shows "local_to h s (xt_clic_enable_irq h i s1) \<and> hart_ok (xt_clic_enable_irq h i s1) h"
proof -
  let ?n = "num_sources s" let ?c = "active_count s ! h" let ?xs = "active_slice s h"
  let ?e = "entry s h i"
  have ok: "lens_ok s" "hart_ok s h" using wf h by (simp_all add: clic_wf_def)
  have s1: "local_to h s s1" unfolding s1_def by (rule local_cells(2) [OF i])
  have ok1: "lens_ok s1" using local_lens [OF s1] ok(1) by simp
  have c: "?c < ?n" using hart_room [OF ok i] off by (simp add: enabled_def)
  have b: "h * ?n + ?c < length (active_list s)"
    using region_end [of "Suc ?c" ?n h "num_harts s"] c h lens_okD(12) [OF ok(1)] by simp
  define al where "al = (active_list s)[h * ?n + ?c := ?e]"
  define t where "t = s1\<lparr>active_list := qsort_range (h * num_sources s1) (?c + 1) al, active_count := (active_count s1)[h := ?c + 1]\<rparr>"
  have t: "xt_clic_enable_irq h i s1 = t"
    by (simp add: xt_clic_enable_irq_def Let_def s1_def t_def al_def entry_def mult.commute)
  have pre: "\<forall>h < num_harts s1. active_count s1 ! h \<le> num_sources s1" "h < num_harts s1" "?c + 1 \<le> num_sources s1"
    "length al = length (active_list s1)"
    using wf_counts [OF wf] h c by (simp_all add: s1_def al_def)
  have out: "al ! j = active_list s1 ! j" if "j < h * num_sources s1 \<or> h * num_sources s1 + num_sources s1 \<le> j" for j
    using that c by (auto simp: al_def s1_def)
  note inst = install_slice [OF ok1 pre(1,2,3,4) out, folded t_def]
  have loc: "local_to h s t" using local_trans [OF s1 inst(1)] .
  have sl: "active_slice t h = qsort xt_clic_active_compare (?xs @ [?e])"
    using inst(2) slice_snoc [OF b, of ?e] by (simp add: s1_def al_def active_slice_def)
  have en: "enabled t h = insert i (enabled s h)" "entry t h = entry s h"
    using ie_update_enabled [OF ok(1) h i, of v] v by (simp_all add: t_def s1_def)
  have "?e \<notin> set ?xs"
    using inj_prio_entries(2) [OF ok(1), of "insert i (enabled s h)" h] ok(2) off i enabled_sub [of s h]
    by (auto simp: hart_ok_def enabled_def inj_on_def)
  then have "distinct (?xs @ [?e])" using ok(2) descending_distinct by (auto simp: hart_ok_def)
  moreover have "set (?xs @ [?e]) = entry t h ` enabled t h" using ok(2) en by (simp add: hart_ok_def)
  moreover have "active_count t ! h \<le> num_sources t" using inst(3) c local_params [OF loc] by (simp add: params_eq)
  ultimately show ?thesis
    unfolding t
    using hart_okI [OF _ _ _ sl] loc local_lens [OF loc] ok(1) h local_params [OF loc] by (simp add: params_eq)
qed

lemma slice_bsearch:
  assumes "clic_wf s" and "h < num_harts s" and "i < num_sources s"
  shows "case bsearch xt_clic_active_compare (entry s h i) (active_slice s h) 0 (active_count s ! h) of
      Some k \<Rightarrow> i \<in> enabled s h \<and> k < active_count s ! h \<and> active_slice s h ! k = entry s h i
    | None \<Rightarrow> i \<notin> enabled s h"
proof -
  have ok: "lens_ok s" "hart_ok s h" using assms by (simp_all add: clic_wf_def)
  have X: "insert i (enabled s h) \<subseteq> {i. i < num_sources s}" using assms(3) by (auto simp: enabled_def)
  have set: "set (active_slice s h) = entry s h ` enabled s h" using ok(2) by (simp add: hart_ok_def)
  have "inj_on prio (insert (entry s h i) (set (active_slice s h)))"
    using inj_prio_entries(1) [OF ok(1) X, of h] set by simp
  moreover have "entry s h i \<in> set (active_slice s h) \<longleftrightarrow> i \<in> enabled s h"
    using inj_on_image_mem_iff [OF inj_prio_entries(2) [OF ok(1) X], of i "enabled s h" h] set by auto
  ultimately show ?thesis
    using bsearch_complete [of "active_slice s h" "entry s h i"] ok(2) nth_mem [of _ "active_slice s h"]
    by (auto simp: hart_ok_def split: option.splits) metis
qed

lemma set_remove_nth:
  assumes "distinct xs" "k < length xs"
  shows "set (take k xs @ drop (Suc k) xs) = set xs - {xs ! k}" "distinct (take k xs @ drop (Suc k) xs)"
proof -
  have "xs = take k xs @ xs ! k # drop (Suc k) xs" using assms(2) by (rule id_take_nth_drop)
  then have d: "distinct (take k xs @ xs ! k # drop (Suc k) xs)" and
    s: "set xs = set (take k xs @ xs ! k # drop (Suc k) xs)" using assms(1) by metis+
  show "set (take k xs @ drop (Suc k) xs) = set xs - {xs ! k}" unfolding s using d by auto
  show "distinct (take k xs @ drop (Suc k) xs)" using d by simp
qed

lemma disable_ok:
  assumes wf: "clic_wf s" and h: "h < num_harts s" and i: "i < num_sources s" and on: "ie_of s h i \<noteq> 0"
  defines "s1 \<equiv> s\<lparr>clicintie := (clicintie s)[i + num_sources s * h := 0]\<rparr>"
  shows "\<exists>t. xt_clic_disable_irq h i s1 = Some t \<and> local_to h s t \<and> hart_ok t h"
proof -
  let ?n = "num_sources s" let ?c = "active_count s ! h" let ?xs = "active_slice s h"
  have ok: "lens_ok s" "hart_ok s h" using wf h by (simp_all add: clic_wf_def)
  have ien: "i \<in> enabled s h" using i on by (simp add: enabled_def)
  then obtain k where k: "bsearch xt_clic_active_compare (entry s h i) ?xs 0 ?c = Some k" "k < ?c" "?xs ! k = entry s h i"
    using slice_bsearch [OF wf h i] by (auto split: option.splits)
  have s1: "local_to h s s1" unfolding s1_def by (rule local_cells(2) [OF i])
  have ok1: "lens_ok s1" using local_lens [OF s1] ok(1) by simp
  have c: "?c \<le> ?n" "length ?xs = ?c" using ok(2) by (simp_all add: hart_ok_def)
  have b: "h * ?n + ?c \<le> length (active_list s)" using region_end [OF c(1) h] lens_okD(12) [OF ok(1)] by simp
  define al where "al = take (h * ?n + k) (active_list s) @ take (?c - 1 - k) (drop (h * ?n + k + 1) (active_list s)) @
    drop (h * ?n + (?c - 1)) (active_list s)"
  note rm = slice_remove [OF b k(2), folded al_def]
  define t where "t = s1\<lparr>active_list := qsort_range (h * num_sources s1) (?c - 1) al, active_count := (active_count s1)[h := ?c - 1]\<rparr>"
  have dis: "xt_clic_disable_irq h i s1 = Some t"
    using k(1) by (simp add: xt_clic_disable_irq_def Let_def s1_def t_def al_def entry_def active_slice_def mult.commute)
  have pre: "\<forall>h < num_harts s1. active_count s1 ! h \<le> num_sources s1" "h < num_harts s1" "?c - 1 \<le> num_sources s1"
    "length al = length (active_list s1)"
    using wf_counts [OF wf] h le_trans [OF diff_le_self c(1), of 1] rm(1) by (simp_all add: s1_def)
  have out: "al ! j = active_list s1 ! j" if "j < h * num_sources s1 \<or> h * num_sources s1 + num_sources s1 \<le> j" for j
    using rm(3) [of j] that c by (auto simp: s1_def)
  note inst = install_slice [OF ok1 pre(1,2,3,4) out, folded t_def]
  have loc: "local_to h s t" using local_trans [OF s1 inst(1)] .
  have sl: "active_slice t h = qsort xt_clic_active_compare (take k ?xs @ drop (Suc k) ?xs)"
    using inst(2) rm(2) by (simp add: s1_def active_slice_def)
  have en: "enabled t h = enabled s h - {i}" "entry t h = entry s h"
    using ie_update_enabled [OF ok(1) h i, of 0] by (simp_all add: t_def s1_def)
  have d: "distinct ?xs" using ok(2) descending_distinct by (auto simp: hart_ok_def)
  have "entry s h ` enabled s h - {entry s h i} = entry s h ` (enabled s h - {i})"
    using inj_prio_entries(2) [OF ok(1) enabled_sub, of h h] ien by (auto simp: inj_on_def)
  then have "set (take k ?xs @ drop (Suc k) ?xs) = entry t h ` enabled t h"
    using set_remove_nth(1) [OF d, of k] k ok(2) c en by (simp add: hart_ok_def)
  moreover have "distinct (take k ?xs @ drop (Suc k) ?xs)" using set_remove_nth(2) [OF d, of k] k c by simp
  moreover have "active_count t ! h \<le> num_sources t" using inst(3) c local_params [OF loc] by (simp add: params_eq)
  ultimately have "hart_ok t h"
    using hart_okI [OF _ _ _ sl] loc local_lens [OF loc] ok(1) h local_params [OF loc] by (simp add: params_eq)
  then show ?thesis using dis loc by blast
qed

lemma entry_ctl_update:
  assumes "lens_ok s" "h < num_harts s" "i < num_sources s" "j < num_sources s"
  shows "entry (s\<lparr>clicintctl := (clicintctl s)[i + num_sources s * h := v]\<rparr>) h j =
    (if j = i then active_entry s v i else entry s h j)"
  using assms cell_index [OF assms(3,2)] lens_okD(11) [OF assms(1)] by (auto simp: entry_def nth_list_update)

lemma active_slice_ctl [simp]: "active_slice (s\<lparr>clicintctl := a\<rparr>) h = active_slice s h"
  by (simp add: active_slice_def)

lemma update_intctl_ok:
  assumes wf: "clic_wf s" and h: "h < num_harts s" and i: "i < num_sources s"
  shows "local_to h s (xt_clic_update_intctl h i v s) \<and> hart_ok (xt_clic_update_intctl h i v s) h"
proof -
  let ?n = "num_sources s" let ?c = "active_count s ! h" let ?xs = "active_slice s h"
  let ?set = "\<lambda>s'. s'\<lparr>clicintctl := (clicintctl s)[i + ?n * h := v]\<rparr>"
  have ok: "lens_ok s" "hart_ok s h" using wf h by (simp_all add: clic_wf_def)
  show ?thesis
  proof (cases "bsearch xt_clic_active_compare (entry s h i) ?xs 0 ?c")
    case None
    then have ni: "i \<notin> enabled s h" using slice_bsearch [OF wf h i] by simp
    have u: "xt_clic_update_intctl h i v s = xt_clic_next_interrupt h (?set s)"
      using None by (simp add: xt_clic_update_intctl_def Let_def entry_def mult.commute)
    have "entry (?set s) h ` enabled s h = entry s h ` enabled s h"
      using ni enabled_sub [of s h] by (intro image_cong refl) (auto simp: entry_ctl_update [OF ok(1) h i])
    then have "hart_ok (?set s) h" using ok(2) by (simp add: hart_ok_def)
    then show ?thesis using local_next [OF local_cells(4) [OF i, of h v]] by (simp add: u)
  next
    case (Some k)
    then have k: "i \<in> enabled s h" "k < ?c" "?xs ! k = entry s h i" using slice_bsearch [OF wf h i] by simp_all
    let ?e = "active_entry s v i"
    have c: "?c \<le> ?n" "length ?xs = ?c" using ok(2) by (simp_all add: hart_ok_def)
    have b: "h * ?n + ?c \<le> length (active_list s)" using region_end [OF c(1) h] lens_okD(12) [OF ok(1)] by simp
    have cell: "active_list s ! (h * ?n + k) = entry s h i"
      using k(2,3) b by (simp add: active_slice_def)
    define al where "al = (active_list s)[h * ?n + k := ?e]"
    define t where "t = s\<lparr>active_list := qsort_range (h * ?n) ?c al, active_count := (active_count s)[h := ?c]\<rparr>"
    have u: "xt_clic_update_intctl h i v s = xt_clic_next_interrupt h (?set t)"
      using Some cell
      by (simp add: xt_clic_update_intctl_def Let_def entry_def t_def al_def mult.commute)
        (simp add: active_entry_def)
    have out: "al ! j = active_list s ! j" if "j < h * ?n \<or> h * ?n + ?n \<le> j" for j
      using that c k(2) by (auto simp: al_def)
    have len: "length al = length (active_list s)" by (simp add: al_def)
    note inst = install_slice [OF ok(1) wf_counts [OF wf] h c(1) len out, folded t_def]
    have loc: "local_to h s (?set t)"
      using local_trans [OF inst(1) local_cells(4) [of i t h v]] i by (simp add: t_def)
    have sl: "active_slice (?set t) h = qsort xt_clic_active_compare (?xs[k := ?e])"
      using inst(2) slice_update [OF b k(2), of ?e] by (simp add: al_def active_slice_def)
    have d: "distinct ?xs" using ok(2) descending_distinct by (auto simp: hart_ok_def)
    have en: "enabled (?set t) h = enabled s h" by (simp add: t_def)
    have ent: "entry (?set t) h j = (if j = i then ?e else entry s h j)" if "j < ?n" for j
      using entry_ctl_update [OF ok(1) h i that, of v] by (simp add: t_def entry_def)
    have rest: "set ?xs - {?xs ! k} = entry s h ` (enabled s h - {i})"
      using ok(2) k inj_prio_entries(2) [OF ok(1) enabled_sub, of h h] by (auto simp: hart_ok_def inj_on_def)
    have new: "?e \<notin> entry s h ` (enabled s h - {i})"
    proof
      assume "?e \<in> entry s h ` (enabled s h - {i})"
      then obtain j where j: "j \<in> enabled s h" "j \<noteq> i" "active_entry s v i = active_entry s (ctl_of s h j) j"
        by (auto simp: entry_def)
      then have "i < 4096" "j < 4096" using i lens_okD(1) [OF ok(1)] by (auto simp: enabled_def)
      then show False using prio_entry_inj [of i j s v s] j by auto
    qed
    have "entry (?set t) h ` (enabled s h - {i}) = entry s h ` (enabled s h - {i})"
      using enabled_sub [of s h] by (intro image_cong refl) (auto simp: ent)
    then have img: "entry (?set t) h ` enabled s h = insert ?e (entry s h ` (enabled s h - {i}))"
      using ent [OF i] k(1) image_insert [of "entry (?set t) h" i "enabled s h - {i}"] by (simp add: insert_absorb)
    have "set (?xs[k := ?e]) = entry (?set t) h ` enabled (?set t) h"
      using set_update_distinct [OF d, of k ?e] k(2) c rest img by (simp only: en)
    moreover have "distinct (?xs[k := ?e])" using distinct_list_update [OF d, of ?e k] rest new by simp
    moreover have "active_count (?set t) ! h \<le> num_sources (?set t)" using inst(3) c by (simp add: t_def)
    ultimately have "hart_ok (?set t) h"
      using hart_okI [OF _ _ _ sl] local_lens [OF loc] ok(1) h by (simp add: t_def)
    then show ?thesis using local_next [OF loc] by (simp add: u)
  qed
qed

end
