(* ===== verification/Clic_Deliver.thy ===== *)
theory Clic_Deliver
  imports Clic_Inv
begin

text \<open>
  Delivery: the scan of the sorted list finds the pending, enabled, valid interrupt of highest
  priority above the threshold, if there is one, and the exception code handed to the hart
  decodes to its number and level.
\<close>

section \<open>Levels\<close>

lemma unat_entry_ctl: "ucast (intcfg (active_entry clic c i) AND 0xff) = xt_clic_intctl_effective clic c"
proof (rule unsigned_word_eqI)
  have "unat (intcfg (active_entry clic c i) AND 0xff) = unat (xt_clic_intctl_effective clic c)"
    using unat_and_mask [of "intcfg (active_entry clic c i)" 8] mod_mult_self2 [of "unat (xt_clic_intctl_effective clic c)" 256 3]
    by (simp add: mask_numeral unat_intcfg add.commute)
  then show "unat (ucast (intcfg (active_entry clic c i) AND 0xff) :: u8) = unat (xt_clic_intctl_effective clic c)"
    by (simp add: unsigned_ucast_eq take_bit_nat_eq_self)
qed

lemma level_masks:
  assumes "nl \<noteq> 0" "nl \<le> 8"
  shows "(ucast (push_bit (8 - nl) (push_bit nl 1 - 1 :: u32)) :: u8) = NOT (mask (8 - nl))"
    and "(ucast (push_bit (8 - nl) 1 - 1 :: u32) :: u8) = mask (8 - nl)"
proof -
  have "nl \<in> {1, 2, 3, 4, 5, 6, 7, 8}" using assms by auto
  then show "(ucast (push_bit (8 - nl) (push_bit nl 1 - 1 :: u32)) :: u8) = NOT (mask (8 - nl))"
    "(ucast (push_bit (8 - nl) 1 - 1 :: u32) :: u8) = mask (8 - nl)"
    by (auto simp: mask_numeral)
qed

lemma or_mask_mono:
  fixes x y :: "'a::len word"
  assumes "x \<le> y"
  shows "(x AND NOT (mask k)) OR mask k \<le> (y AND NOT (mask k)) OR mask k"
proof -
  have "(z AND NOT (mask k)) AND mask k = 0" for z :: "'a word" by (rule bit_word_eqI) (auto simp: bit_simps)
  then have eq: "unat ((z AND NOT (mask k)) OR mask k) = unat z div 2 ^ k * 2 ^ k + unat (mask k :: 'a word)" for z :: "'a word"
    by (simp add: unat_or_disjoint unat_and_not_mask)
  show ?thesis
    using assms by (simp add: word_le_unat eq div_le_mono)
qed

definition level_of :: "XTCLICState \<Rightarrow> nat \<Rightarrow> nat \<Rightarrow> u8" where
  "level_of s h i = xt_clic_get_interrupt_level s h (xt_clic_intctl_effective s (ctl_of s h i))"

lemma level_mono:
  assumes "lens_ok s" "x \<le> y"
  shows "xt_clic_get_interrupt_level s h x \<le> xt_clic_get_interrupt_level s h y"
proof -
  define nl where "nl = min (unat (nlbits s ! h)) (clicintctlbits s)"
  have eq: "xt_clic_get_interrupt_level s h z = (if nl = 0 then 0xFF else (z AND NOT (mask (8 - nl))) OR mask (8 - nl))" for z
  proof -
    have "nl \<le> 8" using lens_okD(2) [OF assms(1)] by (simp add: nl_def)
    from level_masks [OF _ this] show ?thesis
      unfolding xt_clic_get_interrupt_level_def nl_def [symmetric] Let_def by (cases "nl = 0") simp_all
  qed
  show ?thesis unfolding eq using or_mask_mono [OF assms(2)] by simp
qed

section \<open>The best candidate\<close>

definition candidates :: "XTCLICState \<Rightarrow> nat \<Rightarrow> u8 \<Rightarrow> nat set" where
  "candidates s h threshold =
     {i. i < num_sources s \<and> ie_of s h i \<noteq> 0 \<and> ip_of s h i \<noteq> 0 \<and>
         xt_clic_intctl_priority_valid s (ctl_of s h i) \<and> threshold < level_of s h i}"

text \<open>Highest control byte first, then highest interrupt number.\<close>

definition best :: "XTCLICState \<Rightarrow> nat \<Rightarrow> u8 \<Rightarrow> nat \<Rightarrow> bool" where
  "best s h threshold i \<longleftrightarrow> i \<in> candidates s h threshold \<and>
     (\<forall>j \<in> candidates s h threshold.
        let ci = xt_clic_intctl_effective s (ctl_of s h i); cj = xt_clic_intctl_effective s (ctl_of s h j)
        in cj < ci \<or> cj = ci \<and> j \<le> i)"

lemma prio_order:
  assumes "lens_ok s" "i < num_sources s" "j < num_sources s"
  shows "prio (entry s h j) \<le> prio (entry s h i) \<longleftrightarrow>
    (let ci = xt_clic_intctl_effective s (ctl_of s h i); cj = xt_clic_intctl_effective s (ctl_of s h j)
     in cj < ci \<or> cj = ci \<and> j \<le> i)"
proof -
  have b: "i < 4096" "j < 4096" using assms lens_okD(1) [OF assms(1)] by simp_all
  have lin: "a * 4096 + int j \<le> c * 4096 + int i \<longleftrightarrow> a < c \<or> a = c \<and> j \<le> i" for a c :: int
    using b by (cases "a < c"; cases "a = c") auto
  show ?thesis
    using b lin by (simp add: entry_def prio_entry Let_def word_less_def word_uint_eq_iff)
qed

lemma prio_le_level:
  assumes "lens_ok s" "i < num_sources s" "j < num_sources s" "prio (entry s h j) \<le> prio (entry s h i)"
  shows "level_of s h j \<le> level_of s h i"
  unfolding level_of_def using assms(4) unfolding prio_order [OF assms(1-3)]
  by (intro level_mono [OF assms(1)]) (auto simp: Let_def)

lemma entry_irq: "lens_ok s \<Longrightarrow> i < num_sources s \<Longrightarrow> unat (irq (entry s h i)) = i"
  using lens_okD(1) [of s] by (simp add: entry_def active_entry_def unat_of_nat_small)

lemma entry_decode: "fst (snd (xt_clic_intcfg_decode s h (intcfg (entry s h i)))) = level_of s h i"
  by (simp add: xt_clic_intcfg_decode_def level_of_def entry_def unat_entry_ctl)

text \<open>The scan over any part of the list that still holds every candidate.\<close>

lemma find_pending_loop_spec:
  assumes "lens_ok s" "descending xs" "set xs = entry s h ` X" "X \<subseteq> enabled s h" "candidates s h thr \<subseteq> X"
  shows "case find_pending_loop s h thr non_shv xs of
      Some (a, lvl) \<Rightarrow> \<exists>i. best s h thr i \<and> a = entry s h i \<and> lvl = level_of s h i \<and>
        \<not> (non_shv \<and> xt_clic_is_shv_interrupt s (i + num_sources s * h))
    | None \<Rightarrow> candidates s h thr = {} \<or>
        (\<exists>i. best s h thr i \<and> non_shv \<and> xt_clic_is_shv_interrupt s (i + num_sources s * h))"
  using assms(2-)
proof (induction xs arbitrary: X)
  case Nil
  then show ?case by auto
next
  case (Cons a rest)
  have "a \<in> entry s h ` X" using Cons.prems(2) by (metis list.set_intros(1))
  then obtain i where i: "i \<in> X" "a = entry s h i" by blast
  have iN: "i < num_sources s" "ie_of s h i \<noteq> 0" using i(1) Cons.prems(3) by (auto simp: enabled_def)
  have XN: "j < num_sources s" if "j \<in> X" for j using that Cons.prems(3) by (auto simp: enabled_def)
  have le: "prio (entry s h j) \<le> prio a" if "j \<in> X" for j
  proof -
    have "entry s h j \<in> set (a # rest)" using that Cons.prems(2) by blast
    then show ?thesis using Cons.prems(1) by auto
  qed
  have rest: "set rest = entry s h ` (X - {i})"
  proof -
    have "set rest = set (a # rest) - {a}" using descending_distinct [OF Cons.prems(1)] by auto
    moreover have "inj_on (entry s h) X" using XN by (intro inj_prio_entries(2) [OF assms(1)]) blast
    then have "entry s h ` (X - {i}) = entry s h ` X - {a}"
      using inj_on_image_set_diff [of "entry s h" X X "{i}"] i by auto
    ultimately show ?thesis using Cons.prems(2) by metis
  qed
  have idx: "unat (irq a) + h * num_sources s = i + num_sources s * h"
    using entry_irq [OF assms(1) iN(1)] i(2) by (simp add: mult.commute)
  obtain md pri where dec: "xt_clic_intcfg_decode s h (intcfg a) = (md, level_of s h i, pri)"
    using entry_decode [of s h i] i(2) by (cases "xt_clic_intcfg_decode s h (intcfg a)") auto
  have skip: ?case if "i \<notin> candidates s h thr"
    "find_pending_loop s h thr non_shv (a # rest) = find_pending_loop s h thr non_shv rest"
    using Cons.IH [of "X - {i}"] Cons.prems rest that by auto
  show ?case
  proof (cases "xt_clic_intctl_priority_valid s (ctl_of s h i)")
    case False
    then show ?thesis by (intro skip) (simp_all add: candidates_def Let_def idx)
  next
    case valid: True
    show ?thesis
    proof (cases "level_of s h i \<le> thr")
      case True
      then have "candidates s h thr = {}"
        using Cons.prems(4) le prio_le_level [OF assms(1) iN(1) XN] i(2) by (force simp: candidates_def)
      then show ?thesis using True valid by (simp add: Let_def idx dec)
    next
      case False
      then have lv: "thr < level_of s h i" by simp
      show ?thesis
      proof (cases "ip_of s h i = 0")
        case True
        then show ?thesis using valid lv False by (intro skip) (simp_all add: candidates_def Let_def idx dec)
      next
        case ip: False
        then have "i \<in> candidates s h thr" using iN valid lv by (simp add: candidates_def)
        then have "best s h thr i"
          unfolding best_def using Cons.prems(4) le prio_order [OF assms(1) iN(1) XN] i(2) by blast
        moreover have "find_pending_loop s h thr non_shv (a # rest) =
            (if non_shv \<and> xt_clic_is_shv_interrupt s (i + num_sources s * h) then None else Some (a, level_of s h i))"
          using valid False ip by (simp add: Let_def idx dec)
        ultimately show ?thesis using i(2) by auto
      qed
    qed
  qed
qed

lemma find_pending_spec:
  assumes "clic_wf s" "h < num_harts s"
  shows "case xt_clic_find_pending s h thr non_shv of
      Some (a, lvl) \<Rightarrow> \<exists>i. best s h thr i \<and> a = entry s h i \<and> lvl = level_of s h i \<and>
        \<not> (non_shv \<and> xt_clic_is_shv_interrupt s (i + num_sources s * h))
    | None \<Rightarrow> candidates s h thr = {} \<or>
        (\<exists>i. best s h thr i \<and> non_shv \<and> xt_clic_is_shv_interrupt s (i + num_sources s * h))"
  unfolding xt_clic_find_pending_def
proof (rule find_pending_loop_spec)
  show "descending (active_slice s h)" "set (active_slice s h) = entry s h ` enabled s h" "lens_ok s"
    using assms by (simp_all add: clic_wf_def hart_ok_def)
qed (auto simp: candidates_def enabled_def)

lemma best_unique: "best s h thr i \<Longrightarrow> best s h thr j \<Longrightarrow> i = j"
  by (fastforce simp: best_def Let_def)

section \<open>The exception code\<close>

lemma decode_encode:
  assumes "unat (irq a) < 4096"
  shows "xt_clic_decode_exccode (encode_exccode a lvl) = (3, unat lvl, unat (irq a))"
proof -
  let ?i = "ucast (irq a) :: u32" and ?l = "ucast lvl :: u32"
  have i: "unat ?i = unat (irq a)" and l: "unat ?l = unat lvl" by (simp_all add: unat_ucast_up)
  have l256: "unat lvl < 256" by (rule unat8_lt)
  have p12: "unat (push_bit 12 (3 :: u32)) = 12288" by simp
  have "unat lvl * 16384 < 4294967296" using l256 by linarith
  then have p14: "unat (push_bit 14 ?l) = unat lvl * 16384" using l by (subst unat_push_bit) simp_all
  have "push_bit 12 3 AND ?i = 0" using assms i by (intro push_bit_and_low) simp
  then have a: "unat (?i OR push_bit 12 3) = unat (irq a) + 12288"
    using unat_or_disjoint [of ?i "push_bit 12 3"] i by (simp add: and.commute)
  have "push_bit 14 ?l AND (?i OR push_bit 12 3) = 0" using assms a by (intro push_bit_and_low) simp
  then have code: "unat (encode_exccode a lvl) = unat (irq a) + 12288 + unat lvl * 16384"
    using unat_or_disjoint [of "?i OR push_bit 12 3" "push_bit 14 ?l"] a p14
    by (simp add: encode_exccode_def and.commute or.assoc)
  have split: "x + 12288 + y * 16384 = x + (3 + 4 * y) * 4096" for x y :: nat by simp
  have "(unat (irq a) + 12288 + unat lvl * 16384) div 4096 = 3 + 4 * unat lvl"
    unfolding split using assms by simp
  moreover have "(unat (irq a) + 12288 + unat lvl * 16384) mod 4096 = unat (irq a)"
    unfolding split mod_mult_self1 using assms by simp
  moreover have "(unat (irq a) + 12288 + unat lvl * 16384) div 16384 = unat lvl"
    unfolding div_mult_self1 [of 16384 "unat (irq a) + 12288" "unat lvl", OF numeral_neq_zero] using assms by simp
  ultimately show ?thesis
    using l256 by (simp add: xt_clic_decode_exccode_def unat_and_mask unat_drop_bit code)
qed

end
