(* ===== verification/Clic_Props.thy ===== *)
theory Clic_Props
  imports Clic_Deliver
begin

text \<open>
  The interrupt controller as a machine: every register write, wire change, acknowledgement and
  change of a hart's own registers, in any order.
\<close>

section \<open>Operations\<close>

datatype clic_op =
    Clic_write nat hwaddr u64 nat
  | Clic_wire nat bool
  | Clic_clean nat nat
  | Clic_next nat
  | Clic_mnxti nat bool
  | Clic_cpu nat CPURISCVState

fun clic_step :: "clic_op \<Rightarrow> XTCLICState \<Rightarrow> XTCLICState option" where
  "clic_step (Clic_write cpu addr value sz) s = xt_clic_write cpu addr value sz s"
| "clic_step (Clic_wire line level) s = Some (xt_clic_set_irq line level s)"
| "clic_step (Clic_clean cpu i) s = Some (xt_clic_clean_pending cpu i s)"
| "clic_step (Clic_next cpu) s = Some (xt_clic_get_next_interrupt cpu s)"
| "clic_step (Clic_mnxti cpu ack) s = Some (snd (xt_clic_mnxti_read cpu ack s))"
| "clic_step (Clic_cpu h env) s = Some (set_env h (\<lambda>_. env) s)"

primrec clic_run :: "clic_op list \<Rightarrow> XTCLICState \<Rightarrow> XTCLICState option" where
  "clic_run [] s = Some s"
| "clic_run (op # ops) s = Option.bind (clic_step op s) (clic_run ops)"

text \<open>Accesses come from the harts of the controller, at most four bytes wide, on existing wires.\<close>

fun clic_op_ok :: "nat \<Rightarrow> nat \<Rightarrow> nat \<Rightarrow> clic_op \<Rightarrow> bool" where
  "clic_op_ok base harts sources (Clic_write cpu addr value sz) \<longleftrightarrow> base \<le> cpu \<and> cpu < base + harts \<and> sz \<le> 4"
| "clic_op_ok base harts sources (Clic_wire line level) \<longleftrightarrow> line < harts * sources"
| "clic_op_ok base harts sources (Clic_clean cpu i) \<longleftrightarrow> base \<le> cpu \<and> cpu < base + harts \<and> i < sources"
| "clic_op_ok base harts sources (Clic_next cpu) \<longleftrightarrow> base \<le> cpu \<and> cpu < base + harts"
| "clic_op_ok base harts sources (Clic_mnxti cpu ack) \<longleftrightarrow> base \<le> cpu \<and> cpu < base + harts"
| "clic_op_ok base harts sources (Clic_cpu h env) \<longleftrightarrow> h < harts"

text \<open>The operations after which the controller has re-evaluated the hart it touched.\<close>

fun clic_prompt :: "clic_op \<Rightarrow> bool" where
  "clic_prompt (Clic_mnxti cpu ack) \<longleftrightarrow> False"
| "clic_prompt (Clic_cpu h env) \<longleftrightarrow> False"
| "clic_prompt op \<longleftrightarrow> True"

section \<open>Settled harts\<close>

definition settled :: "XTCLICState \<Rightarrow> nat \<Rightarrow> bool" where
  "settled s h \<longleftrightarrow> cpu_env (xt_clic_next_interrupt h s) ! h = cpu_env s ! h"

lemma env_irrelevant [simp]:
  "xt_clic_intctl_priority_valid (set_env h f s) = xt_clic_intctl_priority_valid s"
  "xt_clic_intcfg_decode (set_env h f s) = xt_clic_intcfg_decode s"
  "xt_clic_is_shv_interrupt (set_env h f s) = xt_clic_is_shv_interrupt s"
  "num_sources (set_env h f s) = num_sources s" "clicintip (set_env h f s) = clicintip s"
  "clicintctl (set_env h f s) = clicintctl s" "active_slice (set_env h f s) = active_slice s"
  by (simp_all add: fun_eq_iff set_env_def xt_clic_intctl_priority_valid_def xt_clic_intctl_mask_def active_slice_def
      xt_clic_intcfg_decode_def xt_clic_get_interrupt_level_def xt_clic_get_interrupt_priority_def xt_clic_is_shv_interrupt_def)

lemma find_pending_env [simp]: "xt_clic_find_pending (set_env h f s) h' thr b = xt_clic_find_pending s h' thr b"
proof -
  have "find_pending_loop (set_env h f s) h' thr b xs = find_pending_loop s h' thr b xs" for xs
    by (induction xs) (simp_all add: Let_def split_beta cong: if_cong)
  then show ?thesis by (simp add: xt_clic_find_pending_def)
qed

lemma set_env_simps [simp]:
  "h < length (cpu_env s) \<Longrightarrow> cpu_env (set_env h f s) ! h = f (cpu_env s ! h)"
  "length (cpu_env (set_env h f s)) = length (cpu_env s)" "mintthresh (set_env h f s) = mintthresh s"
  by (simp_all add: set_env_def)

text \<open>What the controller tells the hart, as a function of the two scans.\<close>

definition threshold_of :: "XTCLICState \<Rightarrow> nat \<Rightarrow> u8" where
  "threshold_of s h = ucast (max (ucast (mil (cpu_env s ! h))) (mintthresh s ! h))"

definition wfi_wake :: "CPURISCVState \<Rightarrow> bool" where
  "wfi_wake e \<longleftrightarrow> ext_xthead_e902 e \<and> e902_wfi_active e \<and> e902_mexstatus_wfe e"

definition signal :: "(CLICActiveInterrupt \<times> u8) option \<Rightarrow> (CLICActiveInterrupt \<times> u8) option \<Rightarrow> CPURISCVState \<Rightarrow> CPURISCVState" where
  "signal p q e =
     (case p of Some (a, l) \<Rightarrow> e\<lparr>exccode := encode_exccode a l, e902_wfi_wake_only := False, clic_interrupt := True\<rparr>
      | None \<Rightarrow> (case (if wfi_wake e then q else None) of
          Some (a, l) \<Rightarrow> e\<lparr>exccode := encode_exccode a l, e902_wfi_wake_only := True, clic_interrupt := True\<rparr>
        | None \<Rightarrow> e\<lparr>e902_wfi_wake_only := False, clic_interrupt := False\<rparr>))"

lemma next_signal:
  "xt_clic_next_interrupt h s =
     set_env h (\<lambda>_. signal (xt_clic_find_pending s h (threshold_of s h) False) (xt_clic_find_pending s h 0 False) (cpu_env s ! h)) s"
  by (auto simp: xt_clic_next_interrupt_def Let_def signal_def threshold_of_def wfi_wake_def set_env_def split: option.splits)

lemma settled_signal:
  assumes "h < length (cpu_env s)"
  shows "settled s h \<longleftrightarrow>
    signal (xt_clic_find_pending s h (threshold_of s h) False) (xt_clic_find_pending s h 0 False) (cpu_env s ! h) = cpu_env s ! h"
  using assms by (simp add: settled_def next_signal)

lemma signal_idem: "signal p q (signal p q e) = signal p q e" "mil (signal p q e) = mil e"
  by (auto simp: signal_def wfi_wake_def split: option.splits)

lemma next_settled:
  assumes "h < length (cpu_env s)"
  shows "settled (xt_clic_next_interrupt h s) h"
proof -
  have "threshold_of (xt_clic_next_interrupt h s) h = threshold_of s h"
    using assms by (simp add: next_signal threshold_of_def signal_idem)
  then show ?thesis
    using assms by (subst settled_signal) (simp_all add: next_signal signal_idem)
qed

lemma find_pending_cong:
  assumes "params t = params s" "hview t h = hview s h" "lens_ok s" "hart_ok s h"
  shows "xt_clic_find_pending t h thr b = xt_clic_find_pending s h thr b"
proof -
  have n: "num_sources t = num_sources s" "clicintctlbits t = clicintctlbits s" "nvbits t = nvbits s"
    using assms(1) by (simp_all add: params_eq)
  have sl: "active_slice t h = active_slice s h" "nlbits t ! h = nlbits s ! h" using assms(2) by (simp_all add: hview_def)
  have cell: "ip_of t h i = ip_of s h i" "ctl_of t h i = ctl_of s h i" "attr_of t h i = attr_of s h i" if "i < num_sources s" for i
    using assms(2) that by (auto simp: hview_def cells_def n)
  have f: "xt_clic_intctl_priority_valid t = xt_clic_intctl_priority_valid s"
    "xt_clic_intcfg_decode t h = xt_clic_intcfg_decode s h"
    "xt_clic_is_shv_interrupt t (i + num_sources s * h) = xt_clic_is_shv_interrupt s (i + num_sources s * h)"
    if "i < num_sources s" for i
    using cell [OF that] by (simp_all add: fun_eq_iff n sl xt_clic_intctl_priority_valid_def xt_clic_intctl_mask_def
        xt_clic_intcfg_decode_def xt_clic_get_interrupt_level_def xt_clic_get_interrupt_priority_def xt_clic_is_shv_interrupt_def)
  have "find_pending_loop t h thr b xs = find_pending_loop s h thr b xs"
    if "\<And>a. a \<in> set xs \<Longrightarrow> unat (irq a) < num_sources s" for xs
    using that
  proof (induction xs)
    case (Cons a xs)
    then have "unat (irq a) < num_sources s" by simp
    from cell [OF this] f [OF this] show ?case
      using Cons by (simp add: n mult.commute [of h] Let_def split_beta cong: if_cong)
  qed simp
  moreover have "unat (irq a) < num_sources s" if "a \<in> set (active_slice s h)" for a
    using that assms(3,4) entry_irq [OF assms(3)] by (auto simp: hart_ok_def enabled_def)
  ultimately show ?thesis by (simp add: xt_clic_find_pending_def sl)
qed

lemma settled_cong:
  assumes "params t = params s" "hview t h = hview s h" "lens_ok s" "hart_ok s h" "h < num_harts s" "lens t = lens s"
  shows "settled t h = settled s h"
proof -
  have env: "cpu_env t ! h = cpu_env s ! h" "mintthresh t ! h = mintthresh s ! h" using assms(2) by (simp_all add: hview_def)
  have "h < length (cpu_env s)" "h < length (cpu_env t)"
    using assms(5,6) lens_okD(6) [OF assms(3)] by (simp_all add: lens_def)
  then show ?thesis
    by (simp add: settled_signal threshold_of_def env find_pending_cong [OF assms(1-4)])
qed

section \<open>One operation\<close>

text \<open>The effect of an operation on hart \<open>h\<close>; \<open>Some\<close>: no assertion fails.\<close>

definition good :: "nat \<Rightarrow> XTCLICState \<Rightarrow> XTCLICState option \<Rightarrow> bool" where
  "good h s r \<longleftrightarrow> (\<exists>t. r = Some t \<and> clic_wf t \<and> local_to h s t \<and> (settled s h \<longrightarrow> settled t h))"

lemma good_same: "clic_wf s \<Longrightarrow> good h s (Some s)"
  by (simp add: good_def)

lemma good_next:
  assumes "clic_wf s" "h < num_harts s" "local_to h s u" "hart_ok u h"
  shows "good h s (Some (xt_clic_next_interrupt h u))"
proof -
  have "clic_wf u" using wf_local [OF assms(1,3)] assms(4) by simp
  then have "h < length (cpu_env u)"
    using assms(2) local_params [OF assms(3)] lens_okD(6) [of u] by (simp add: clic_wf_def params_eq)
  moreover have "clic_wf (xt_clic_next_interrupt h u)"
    using wf_local [OF assms(1) local_next [OF assms(3)]] assms(4) by simp
  ultimately show ?thesis
    using next_settled local_next [OF assms(3)] by (simp add: good_def)
qed

lemma hart_ok_irrelevant [simp]:
  "hart_ok (s\<lparr>clicintip := a\<rparr>) h = hart_ok s h" "hart_ok (s\<lparr>clicintattr := a\<rparr>) h = hart_ok s h"
  "hart_ok (s\<lparr>nlbits := a\<rparr>) h = hart_ok s h" "hart_ok (s\<lparr>nmbits := a\<rparr>) h = hart_ok s h"
  "hart_ok (s\<lparr>mintthresh := w\<rparr>) h = hart_ok s h"
  by (simp_all add: hart_ok_def active_slice_def entry_def enabled_def active_entry_def
      xt_clic_intctl_effective_def xt_clic_intctl_mask_def)

lemma wf_hart: "clic_wf s \<Longrightarrow> h < num_harts s \<Longrightarrow> hart_ok s h"
  by (simp add: clic_wf_def)

lemma good_intip:
  assumes "clic_wf s" "h < num_harts s" "i < num_sources s"
  shows "good h s (Some (xt_clic_update_intip h i v s))"
  unfolding xt_clic_update_intip_def
  using assms by (intro good_next local_cells) (simp_all add: wf_hart)

lemma good_intie:
  assumes "clic_wf s" "h < num_harts s" "i < num_sources s"
  shows "good h s (xt_clic_update_intie h i v s)"
proof -
  let ?s1 = "s\<lparr>clicintie := (clicintie s)[i + num_sources s * h := (if v \<noteq> 0 then 1 else 0)]\<rparr>"
  have l1: "local_to h s ?s1" by (rule local_cells(2) [OF assms(3)])
  consider "v \<noteq> 0" "ie_of s h i = 0" | "v = 0" "ie_of s h i \<noteq> 0" | "v = 0 \<longleftrightarrow> ie_of s h i = 0" by blast
  then show ?thesis
  proof cases
    case 1
    then show ?thesis
      using enable_ok [OF assms, of 1] good_next [OF assms(1,2)] by (simp add: xt_clic_update_intie_def Let_def)
  next
    case 2
    then obtain t where "xt_clic_disable_irq h i ?s1 = Some t" "local_to h s t" "hart_ok t h"
      using disable_ok [OF assms] by auto
    then show ?thesis
      using 2 good_next [OF assms(1,2)] by (simp add: xt_clic_update_intie_def Let_def)
  next
    case 3
    then have "enabled ?s1 h = enabled s h"
      using ie_update_enabled [of s h i "if v \<noteq> 0 then 1 else 0"] assms by (auto simp: clic_wf_def enabled_def)
    then have "hart_ok ?s1 h"
      using wf_hart [OF assms(1,2)] by (simp add: hart_ok_def active_slice_def)
    then show ?thesis
      using 3 good_next [OF assms(1,2) l1] by (auto simp: xt_clic_update_intie_def Let_def)
  qed
qed

lemma good_field:
  assumes "clic_wf s" "h < num_harts s" "i < num_sources s"
  shows "good h s (xt_clic_write_int_field h i f v s)"
proof -
  have attr: "good h s (Some (xt_clic_next_interrupt h (s\<lparr>clicintattr := (clicintattr s)[i + num_sources s * h := w]\<rparr>)))" for w
    using assms by (intro good_next local_cells) (simp_all add: wf_hart)
  have ctl: "good h s (Some (xt_clic_update_intctl h i w s))" for w
  proof -
    have "clic_wf (xt_clic_update_intctl h i w s)"
      using update_intctl_ok [OF assms, of w] by (blast intro: wf_local [OF assms(1)])
    moreover have "\<exists>u. xt_clic_update_intctl h i w s = xt_clic_next_interrupt h u \<and> length (cpu_env u) = length (cpu_env s)"
      by (auto simp: xt_clic_update_intctl_def Let_def split: option.splits)
    ultimately show ?thesis
      using update_intctl_ok [OF assms, of w] next_settled assms(1,2) lens_okD(6) [of s]
      by (auto simp: good_def clic_wf_def)
  qed
  show ?thesis
    using good_same [OF assms(1)] good_intip [OF assms] good_intie [OF assms] attr ctl
    by (simp add: xt_clic_write_int_field_def Let_def)
qed

lemma good_bind:
  assumes "good h s r" "\<And>t. clic_wf t \<Longrightarrow> local_to h s t \<Longrightarrow> good h t (f t)"
  shows "good h s (Option.bind r f)"
proof -
  obtain t where t: "r = Some t" "clic_wf t" "local_to h s t" "settled s h \<longrightarrow> settled t h"
    using assms(1) by (auto simp: good_def)
  obtain u where "f t = Some u" "clic_wf u" "local_to h t u" "settled t h \<longrightarrow> settled u h"
    using assms(2) [OF t(2,3)] by (auto simp: good_def)
  then show ?thesis using t local_trans [OF t(3)] by (auto simp: good_def)
qed

lemma good_bytes:
  "clic_wf s \<Longrightarrow> h < num_harts s \<Longrightarrow> i < num_sources s \<Longrightarrow> good h s (write_int_bytes h i f v j k s)"
proof (induction k arbitrary: s j)
  case (Suc k)
  show ?case
    unfolding write_int_bytes.simps
    using Suc.prems by (intro good_bind good_field Suc.IH) (auto dest!: local_params simp: params_eq)
qed (simp add: good_same)

lemma good_write:
  assumes "clic_wf s" "xt_clic_get_hartid_internal cpu s < num_harts s"
  shows "good (xt_clic_get_hartid_internal cpu s) s (xt_clic_write cpu addr v sz s)"
proof -
  let ?h = "xt_clic_get_hartid_internal cpu s"
  have cfg: "good ?h s (Some (xt_clic_next_interrupt ?h (s\<lparr>nlbits := (nlbits s)[?h := a], nmbits := (nmbits s)[?h := 0]\<rparr>)))" for a
    using assms local_trans [OF local_hart_regs(1) [of ?h s a] local_hart_regs(2) [of ?h _ 0]]
    by (intro good_next) (simp_all add: wf_hart)
  have nm: "good ?h s (Some (xt_clic_next_interrupt ?h (s\<lparr>nmbits := (nmbits s)[?h := 0]\<rparr>)))"
    using assms by (intro good_next local_hart_regs) (simp_all add: wf_hart)
  have thr: "good ?h s (Some (xt_clic_next_interrupt ?h (s\<lparr>mintthresh := (mintthresh s)[?h := w]\<rparr>)))" for w
    using assms by (intro good_next local_hart_regs) (simp_all add: wf_hart)
  have reg: "good ?h s (write_int_bytes ?h i f v 0 sz s)" if "xt_clic_decode_int_reg s addr = Some (i, f)" for i f
    using that assms by (intro good_bytes) (auto simp: xt_clic_decode_int_reg_def Let_def split: if_splits)
  show ?thesis
    using cfg nm thr reg good_same [OF assms(1)]
    by (simp add: xt_clic_write_def Let_def split: option.splits prod.splits)
qed

lemma good_wire:
  assumes "clic_wf s" "line < num_harts s * num_sources s"
  shows "good (line div num_sources s) s (Some (xt_clic_set_irq line lvl s))" "line div num_sources s < num_harts s"
proof -
  have n: "0 < num_sources s" using assms(2) by (cases "num_sources s") auto
  show h: "line div num_sources s < num_harts s" using assms(2) by (simp add: less_mult_imp_div_less)
  have i: "line mod num_sources s < num_sources s" using n by simp
  show "good (line div num_sources s) s (Some (xt_clic_set_irq line lvl s))"
    using good_intip [OF assms(1) h i] good_same [OF assms(1)]
    by (simp add: xt_clic_set_irq_def Let_def split: TRIG_TYPE.split)
qed

lemma good_clean:
  assumes "clic_wf s" "xt_clic_get_hartid_internal cpu s < num_harts s" "i < num_sources s"
  shows "good (xt_clic_get_hartid_internal cpu s) s (Some (xt_clic_clean_pending cpu i s))"
  unfolding xt_clic_clean_pending_def Let_def
  using assms by (intro good_next local_cells) (simp_all add: wf_hart)

text \<open>The acknowledging read works on the hart that executes it; the hart changes itself.\<close>

lemma env_keeps: "clic_wf s \<Longrightarrow> clic_wf (set_env h f s) \<and> local_to h s (set_env h f s)"
  using wf_local [OF _ local_env] local_env wf_hart by (metis hart_ok_env)

lemma mnxti_keeps:
  assumes "clic_wf s" and "xt_clic_get_hartid_internal cpu s < num_harts s"
  defines "h \<equiv> xt_clic_get_hartid_internal cpu s"
  shows "clic_wf (snd (xt_clic_mnxti_read cpu ack s)) \<and> local_to h s (snd (xt_clic_mnxti_read cpu ack s))"
proof (cases "priv (cpu_env s ! h) = PRV_M \<and> xt_clic_find_pending s h (mpil (cpu_env s ! h)) True \<noteq> None")
  case False
  then show ?thesis using assms by (auto simp: xt_clic_mnxti_read_def Let_def split: option.splits)
next
  case True
  then obtain a lvl where p: "xt_clic_find_pending s h (mpil (cpu_env s ! h)) True = Some (a, lvl)" by auto
  have hs: "h < num_harts s" using assms(2) by (simp add: h_def)
  obtain i where i: "i < num_sources s" "a = entry s h i"
    using find_pending_spec [OF assms(1) hs, of "mpil (cpu_env s ! h)" True] p by (auto simp: best_def candidates_def)
  have idx: "unat (irq a) < num_sources s" using entry_irq [of s i h] i assms(1) by (simp add: clic_wf_def)
  let ?e = "set_env h (\<lambda>e. e\<lparr>mil := lvl, mcause := (mcause e AND NOT 0xfff) OR ucast (irq a)\<rparr>) s"
  let ?c = "?e\<lparr>clicintip := (clicintip ?e)[unat (irq a) + num_sources s * h := 0]\<rparr>"
  have e: "clic_wf ?e" "local_to h s ?e" using env_keeps [OF assms(1)] by blast+
  have he: "h < num_harts ?e" using hs local_params [OF e(2)] by (simp add: params_eq)
  have c: "local_to h ?e ?c" using local_cells(1) [of "unat (irq a)" ?e h 0] idx by simp
  have "good h ?e (Some (xt_clic_next_interrupt h ?c))"
    by (rule good_next [OF e(1) he c]) (simp add: wf_hart [OF assms(1) hs])
  then have "clic_wf (xt_clic_next_interrupt h ?c) \<and> local_to h s (xt_clic_next_interrupt h ?c)"
    using local_trans [OF e(2)] by (auto simp: good_def)
  then show ?thesis
    using e True p by (simp add: xt_clic_mnxti_read_def Let_def h_def [symmetric] split_beta)
qed

lemma clic_step_ok:
  assumes wf: "clic_wf s" and op: "clic_op_ok (hartid_base s) (num_harts s) (num_sources s) op"
  shows "\<exists>t h. clic_step op s = Some t \<and> clic_wf t \<and> h < num_harts s \<and> local_to h s t \<and>
    (clic_prompt op \<longrightarrow> settled s h \<longrightarrow> settled t h)"
proof -
  have hid: "xt_clic_get_hartid_internal cpu s < num_harts s" if "hartid_base s \<le> cpu \<and> cpu < hartid_base s + num_harts s" for cpu
    using that by (auto simp: xt_clic_get_hartid_internal_def)
  show ?thesis
  proof (cases op)
    case (Clic_write cpu addr v sz)
    then show ?thesis using good_write [OF wf hid [of cpu], of addr v sz] hid [of cpu] op by (auto simp: good_def)
  next
    case (Clic_wire line lvl)
    then show ?thesis using good_wire(1) [OF wf, of line lvl] good_wire(2) [OF wf, of line] op by (auto simp: good_def)
  next
    case (Clic_clean cpu i)
    then show ?thesis using good_clean [OF wf hid [of cpu], of i] hid [of cpu] op by (auto simp: good_def)
  next
    case (Clic_next cpu)
    then have h: "cpu - hartid_base s < num_harts s" using op by auto
    then show ?thesis using good_next [OF wf h local_refl wf_hart [OF wf h]] Clic_next
      by (auto simp: good_def xt_clic_get_next_interrupt_def)
  next
    case (Clic_mnxti cpu ack)
    then show ?thesis using mnxti_keeps [OF wf hid [of cpu], of ack] hid [of cpu] op by auto
  next
    case (Clic_cpu h env)
    then show ?thesis using env_keeps [OF wf] op by auto
  qed
qed

lemma clic_run_ok:
  assumes "clic_wf s" "\<forall>op \<in> set ops. clic_op_ok (hartid_base s) (num_harts s) (num_sources s) op"
  shows "\<exists>t. clic_run ops s = Some t \<and> clic_wf t \<and> params t = params s \<and>
    ((\<forall>op \<in> set ops. clic_prompt op) \<longrightarrow> (\<forall>h < num_harts s. settled s h) \<longrightarrow> (\<forall>h < num_harts s. settled t h))"
  using assms
proof (induction ops arbitrary: s)
  case (Cons op ops)
  then obtain t h where t: "clic_step op s = Some t" "clic_wf t" "h < num_harts s" "local_to h s t"
    "clic_prompt op \<longrightarrow> settled s h \<longrightarrow> settled t h" using clic_step_ok [of s op] by auto
  have p: "params t = params s" using local_params [OF t(4)] .
  have st: "settled t h'" if "clic_prompt op" "\<forall>h < num_harts s. settled s h" "h' < num_harts s" for h'
  proof (cases "h' = h")
    case False
    then have "settled t h' = settled s h'"
      using t(4) that Cons.prems(1) by (intro settled_cong) (auto simp: local_to_def clic_wf_def)
    then show ?thesis using that by simp
  qed (use t that in simp)
  have "\<forall>op \<in> set ops. clic_op_ok (hartid_base t) (num_harts t) (num_sources t) op"
    using Cons.prems(2) p by (simp add: params_eq)
  from Cons.IH [OF t(2) this] obtain u where "clic_run ops t = Some u" "clic_wf u" "params u = params t"
    "(\<forall>op \<in> set ops. clic_prompt op) \<longrightarrow> (\<forall>h < num_harts t. settled t h) \<longrightarrow> (\<forall>h < num_harts t. settled u h)" by blast
  then show ?case using t(1) p st by (auto simp: params_eq)
qed simp

lemma realize_wf:
  assumes "xt_clic_create vec base harts sources bits cpus = Some s" "length cpus = harts"
  shows "clic_wf s" "params s = (vec, harts, base, sources, bits)"
    "\<forall>e \<in> set cpus. \<not> clic_interrupt e \<and> \<not> e902_wfi_wake_only e \<Longrightarrow> h < harts \<Longrightarrow> settled s h"
proof -
  have s: "s = xt_clic_realize vec base harts sources bits cpus" "sources \<le> 4096" "bits \<le> 8"
    using assms(1) by (simp_all add: xt_clic_create_def split: if_splits)
  show p: "params s = (vec, harts, base, sources, bits)" by (simp add: s xt_clic_realize_def params_def Let_def)
  have slice: "active_slice s h = []" if "h < harts" for h
    using that by (simp add: s active_slice_def xt_clic_realize_def Let_def)
  have "enabled s h = {}" if "h < harts" for h
    using that cell_index [of _ sources h harts] by (auto simp: s enabled_def xt_clic_realize_def Let_def)
  then show "clic_wf s"
    using slice s(2,3) assms(2)
    by (auto simp: clic_wf_def lens_ok_def lens_def hart_ok_def s(1) xt_clic_realize_def Let_def replicate_5)
  assume quiet: "\<forall>e \<in> set cpus. \<not> clic_interrupt e \<and> \<not> e902_wfi_wake_only e" and h: "h < harts"
  have "xt_clic_find_pending s h thr b = None" for thr b using slice [OF h] by (simp add: xt_clic_find_pending_def)
  moreover have "cpu_env s ! h = (cpus ! h)\<lparr>has_clic := True\<rparr>" "h < length (cpu_env s)"
    using h assms(2) by (simp_all add: s xt_clic_realize_def Let_def)
  ultimately show "settled s h"
    using quiet h assms(2) nth_mem [of h cpus] by (simp add: settled_signal signal_def)
qed

section \<open>What a settled hart sees\<close>

lemma delivered:
  assumes "clic_wf t" and "h < num_harts t" and "settled t h"
  shows "let e = cpu_env t ! h; above = candidates t h (threshold_of t h); any = candidates t h 0 in
    (clic_interrupt e \<longleftrightarrow> above \<noteq> {} \<or> wfi_wake e \<and> any \<noteq> {}) \<and>
    (clic_interrupt e \<longrightarrow>
       (\<exists>i. best t h (if above \<noteq> {} then threshold_of t h else 0) i \<and>
          xt_clic_decode_exccode (exccode e) = (3, unat (level_of t h i), i)))"
proof -
  let ?e = "cpu_env t ! h" and ?thr = "threshold_of t h"
  have lt: "h < length (cpu_env t)" using assms(1,2) lens_okD(6) [of t] by (simp add: clic_wf_def)
  note sig = assms(3) [unfolded settled_signal [OF lt]]
  have irq: "unat (irq (entry t h i)) = i" "i < 4096" if "best t h thr i" for thr i
    using that entry_irq [of t i h] assms(1) lens_okD(1) [of t] by (auto simp: best_def candidates_def clic_wf_def)
  have code: "xt_clic_decode_exccode (encode_exccode (entry t h i) (level_of t h i)) = (3, unat (level_of t h i), i)"
    if "best t h thr i" for thr i
    using decode_encode [of "entry t h i" "level_of t h i"] irq [OF that] by simp
  have ne: "candidates t h thr \<noteq> {}" if "best t h thr i" for thr i using that by (auto simp: best_def)
  note fp = find_pending_spec [OF assms(1,2), where non_shv = False, simplified]
  show ?thesis
  proof (cases "xt_clic_find_pending t h ?thr False")
    case (Some r)
    then obtain i where i: "best t h ?thr i" "r = (entry t h i, level_of t h i)"
      using fp [of ?thr] by (auto split: prod.splits)
    then have "exccode ?e = encode_exccode (entry t h i) (level_of t h i)" "clic_interrupt ?e"
      using Some arg_cong [OF sig, of exccode] arg_cong [OF sig, of clic_interrupt] by (simp_all add: signal_def)
    then show ?thesis using i(1) ne [OF i(1)] code [OF i(1)] by (auto simp: Let_def)
  next
    case None
    then have none: "candidates t h ?thr = {}" using fp [of ?thr] by simp
    show ?thesis
    proof (cases "if wfi_wake ?e then xt_clic_find_pending t h 0 False else None")
      case (Some r)
      then have w: "wfi_wake ?e" "xt_clic_find_pending t h 0 False = Some r" by (simp_all split: if_splits)
      then obtain i where i: "best t h 0 i" "r = (entry t h i, level_of t h i)"
        using fp [of 0] by (auto split: prod.splits)
      then have "exccode ?e = encode_exccode (entry t h i) (level_of t h i)" "clic_interrupt ?e"
        using None w arg_cong [OF sig, of exccode] arg_cong [OF sig, of clic_interrupt] by (simp_all add: signal_def)
      then show ?thesis using w(1) none i(1) ne [OF i(1)] code [OF i(1)] by (auto simp: Let_def)
    next
      case no: None
      then have "wfi_wake ?e \<longrightarrow> candidates t h 0 = {}" using fp [of 0] by (auto split: if_splits)
      moreover have "\<not> clic_interrupt ?e"
        using None no arg_cong [OF sig, of clic_interrupt] by (simp add: signal_def)
      ultimately show ?thesis using none by (simp add: Let_def)
    qed
  qed
qed

section \<open>Properties\<close>

text \<open>
  C27. The sorted list of enabled interrupts is exact.  From creation on, along any sequence of
  register writes, wire changes, acknowledgements and register changes of the harts, no
  assertion fails (the binary search finds every interrupt that is switched off); each hart's
  list stays within its slice of the array, is strictly descending in priority and holds
  exactly the enabled interrupts with their present configuration.
\<close>

theorem clic_active_lists_exact:
  assumes "xt_clic_create vec base harts sources bits cpus = Some s" and "length cpus = harts"
    and "\<forall>op \<in> set ops. clic_op_ok base harts sources op"
  shows "\<exists>t. clic_run ops s = Some t \<and>
    (\<forall>h < harts. active_count t ! h \<le> sources \<and> length (active_slice t h) = active_count t ! h \<and>
       descending (active_slice t h) \<and>
       set (active_slice t h) = {active_entry t (clicintctl t ! (i + sources * h)) i |i.
         i < sources \<and> clicintie t ! (i + sources * h) \<noteq> 0})"
proof -
  note r = realize_wf [OF assms(1,2)]
  have p: "num_harts s = harts" "num_sources s = sources" "hartid_base s = base" using r(2) by (simp_all add: params_def)
  then obtain t where t: "clic_run ops s = Some t" "clic_wf t" "params t = params s"
    using clic_run_ok [OF r(1), of ops] assms(3) by auto
  have n: "num_harts t = harts" "num_sources t = sources" using t(3) p by (simp_all add: params_eq)
  have "hart_ok t h" if "h < harts" for h using wf_hart [OF t(2)] that n by simp
  then show ?thesis
    using t(1) n by (auto simp: hart_ok_def entry_def enabled_def image_def Collect_disj_eq)
qed

text \<open>
  One hart, eight sources, three priority bits.  Interrupt 2 gets control byte 0xA0 and
  interrupt 5 gets 0x60; both are enabled, then both wires rise.
\<close>

definition clic_hart0 :: CPURISCVState where
  "clic_hart0 = \<lparr>mil = 0, mpil = 0, mcause = 0, mtvt = 0, mtvec = 3, stvec = 0, priv = 3, has_clic = False,
     ext_xthead_e902 = False, e902_wfi_active = False, e902_mexstatus_wfe = False, e902_wfi_wake_only = False,
     exccode = 0, clic_interrupt = False\<rparr>"

definition clic_example :: XTCLICState where
  "clic_example = xt_clic_realize True 2 1 8 3 [clic_hart0]"

definition clic_script :: "clic_op list" where
  "clic_script = [Clic_write 2 0x1008 0xA0000100 4, Clic_write 2 0x1014 0x60000100 4, Clic_wire 5 True, Clic_wire 2 True]"

lemma clic_example_create: "xt_clic_create True 2 1 8 3 [clic_hart0] = Some clic_example"
  by (simp add: xt_clic_create_def clic_example_def)

lemma clic_script_ok: "\<forall>op \<in> set clic_script. clic_op_ok 2 1 8 op \<and> clic_prompt op"
  by (simp add: clic_script_def)

theorem clic_active_lists_exact_witness:
  "\<exists>t. clic_run clic_script clic_example = Some t \<and> active_count t ! 0 \<le> 8 \<and> descending (active_slice t 0)"
  using clic_active_lists_exact [OF clic_example_create, of clic_script] clic_script_ok by auto

text \<open>
  C5. Delivery is prompt and picks the right interrupt.  Along any sequence of register writes,
  wire changes and acknowledgements, each hart's interrupt input is high exactly when some
  enabled, pending interrupt of valid priority has a level above the hart's threshold (or any
  level, for a core waiting in WFI with wake-up events); and the exception code then decodes to
  machine mode, the level and the number of the one with the highest control byte, the highest
  number among equals.
\<close>

theorem clic_delivers_best:
  assumes "xt_clic_create vec base harts sources bits cpus = Some s" and "length cpus = harts"
    and "\<forall>e \<in> set cpus. \<not> clic_interrupt e \<and> \<not> e902_wfi_wake_only e"
    and "\<forall>op \<in> set ops. clic_op_ok base harts sources op \<and> clic_prompt op"
  shows "\<exists>t. clic_run ops s = Some t \<and>
    (\<forall>h < harts. let e = cpu_env t ! h; above = candidates t h (threshold_of t h); any = candidates t h 0 in
       (clic_interrupt e \<longleftrightarrow> above \<noteq> {} \<or> wfi_wake e \<and> any \<noteq> {}) \<and>
       (clic_interrupt e \<longrightarrow>
          (\<exists>i. best t h (if above \<noteq> {} then threshold_of t h else 0) i \<and>
             xt_clic_decode_exccode (exccode e) = (3, unat (level_of t h i), i))))"
proof -
  note r = realize_wf [OF assms(1,2)]
  have p: "num_harts s = harts" "num_sources s = sources" "hartid_base s = base" using r(2) by (simp_all add: params_def)
  then obtain t where t: "clic_run ops s = Some t" "clic_wf t" "params t = params s" "\<forall>h < harts. settled t h"
    using clic_run_ok [OF r(1), of ops] assms(4) r(3) [OF assms(3)] by auto
  have "num_harts t = harts" using t(3) p by (simp add: params_eq)
  note dl = delivered [OF t(2), unfolded this]
  show ?thesis using t(1,4) dl by blast
qed

theorem clic_delivers_best_witness:
  "\<exists>t. clic_run clic_script clic_example = Some t \<and>
     (clic_interrupt (cpu_env t ! 0) \<longleftrightarrow>
       candidates t 0 (threshold_of t 0) \<noteq> {} \<or> wfi_wake (cpu_env t ! 0) \<and> candidates t 0 0 \<noteq> {})"
  using clic_delivers_best [OF clic_example_create, of clic_script] clic_script_ok
  by (auto simp: clic_hart0_def Let_def)

text \<open>
  The exception code handed to the processor is decoded without loss: packing an interrupt
  number below 4096 and a level and unpacking them gives machine mode, the level and the number.
\<close>

theorem clic_exccode_roundtrip:
  assumes "unat (irq a) < 4096"
  shows "xt_clic_decode_exccode (encode_exccode a lvl) = (PRV_M, unat lvl, unat (irq a))"
  using decode_encode [OF assms] by simp

theorem clic_exccode_roundtrip_witness:
  "xt_clic_decode_exccode (encode_exccode \<lparr>intcfg = 0x3FF, irq = 77\<rparr> 0x9F) = (3, 0x9F, 77)"
  using clic_exccode_roundtrip [of "\<lparr>intcfg = 0x3FF, irq = 77\<rparr>" "0x9F"] by simp

end
