(* ===== verification/Timer.thy ===== *)
theory Timer
  imports Device
begin

text \<open>
  The timer and watchdog block, \<open>src/qemu-machine/hw/timer/bl808_timer.c\<close>: two counting channels
  with three compare registers each, shadowed ("live") configuration, clock dividers, and a
  16-bit watchdog behind an unlock sequence.  Time is the virtual clock in nanoseconds, an
  argument \<open>now_ns\<close> of every operation that reads it; a \<open>QEMUTimer\<close> is its deadline.

  A pulse on an interrupt line (raised and lowered within one operation) is counted in
  \<open>pulses\<close>; \<open>reset_requested\<close> records \<open>qemu_system_reset_request\<close>.  Operations that divide by the
  watchdog's rate are partial: \<open>None\<close> is the division by zero.
\<close>

section \<open>State\<close>

record BL808TimerState =
  irq :: "bool list"
  pulses :: "nat list"
  channel_timer :: "int option list"
  wdt_timer :: "int option"
  timers_present :: bool
  reset_requested :: bool
  tccr :: u32
  tmr :: "u32 list list"
  tcr :: "u32 list"
  tsr :: "u32 list"
  tier :: "u32 list"
  tplvr :: "u32 list"
  tplcr :: "u32 list"
  tilr :: "u32 list"
  tcer :: u32
  tcmr :: u32
  tcdr :: u32
  wmer :: u32
  wmr :: u32
  wsr :: u32
  wcr :: u32
  tcdr_force :: u32
  bclk_hz :: u64
  xtal_hz :: u64
  f32k_hz :: u64
  tmr_live :: "u32 list list"
  tplvr_live :: "u32 list"
  tplcr_live :: "u32 list"
  tcdr_live :: u32
  wmr_live :: u32
  tcvwr :: "u32 list"
  channel_count :: "u32 list"
  channel_base_ns :: "u64 list"
  channel_compare_fired :: "bool list list"
  channel_update_pending :: "bool list"
  tcvwr_read_mask :: u8
  wdt_count :: u32
  wdt_base_ns :: u64
  wfar_seen :: bool
  wdt_unlocked :: bool
  wdt_update_pending :: bool
  timer_clock_enabled :: bool
  timer_reset_asserted :: bool

abbreviation (input) WMR_WDT_MATCH_MASK :: u32 where "WMR_WDT_MATCH_MASK \<equiv> 0xFFFF"
abbreviation (input) WMR_WDT_ALIGN :: u32 where "WMR_WDT_ALIGN \<equiv> 0x10000"
abbreviation (input) TCDR_WDT_MASK :: u32 where "TCDR_WDT_MASK \<equiv> 0xFF000000"
abbreviation (input) WMER_WDT_EN :: u32 where "WMER_WDT_EN \<equiv> 1"
abbreviation (input) WMER_WDT_RST :: u32 where "WMER_WDT_RST \<equiv> 2"
abbreviation (input) NANOSECONDS :: u64 where "NANOSECONDS \<equiv> 1000000000"

section \<open>Channels\<close>

definition bl808_timer_clock_base_hz :: "BL808TimerState \<Rightarrow> u32 \<Rightarrow> u64" where
  "bl808_timer_clock_base_hz s sel =
     (if sel = 0 then bclk_hz s else if sel = 1 then f32k_hz s
      else if sel = 2 then 1000 else if sel = 3 then xtal_hz s else 0)"

definition bl808_timer_channel_divider_mask :: "nat \<Rightarrow> u32" where
  "bl808_timer_channel_divider_mask ch = (if ch = 0 then 0xFF00 else 0xFF0000)"

definition bl808_timer_channel_divider_shift :: "nat \<Rightarrow> nat" where
  "bl808_timer_channel_divider_shift ch = (if ch = 0 then 8 else 16)"

definition bl808_timer_source_hz :: "BL808TimerState \<Rightarrow> nat \<Rightarrow> u64" where
  "bl808_timer_source_hz s ch =
     (let sel = (if ch = 0 then tccr s AND 0xF else drop_bit 4 (tccr s AND 0xF0));
          divider = drop_bit (bl808_timer_channel_divider_shift ch) (tcdr_live s AND bl808_timer_channel_divider_mask ch);
          base_hz = bl808_timer_clock_base_hz s sel
      in if base_hz = 0 then 0 else base_hz div ucast (divider + 1))"

definition bl808_timer_channel_enabled :: "BL808TimerState \<Rightarrow> nat \<Rightarrow> bool" where
  "bl808_timer_channel_enabled s ch \<longleftrightarrow>
     timer_clock_enabled s \<and> \<not> timer_reset_asserted s \<and> tst (tcer s) (if ch = 0 then 2 else 4)"

definition bl808_timer_channel_preload :: "BL808TimerState \<Rightarrow> nat \<Rightarrow> bool" where
  "bl808_timer_channel_preload s ch \<longleftrightarrow> \<not> tst (tcmr s) (if ch = 0 then 2 else 4)"

definition bl808_timer_channel_align_enabled :: "BL808TimerState \<Rightarrow> nat \<Rightarrow> bool" where
  "bl808_timer_channel_align_enabled s ch \<longleftrightarrow> tst (tcmr s) (if ch = 0 then 0x20 else 0x40)"

definition bl808_timer_channel_initial_count :: "BL808TimerState \<Rightarrow> nat \<Rightarrow> u32" where
  "bl808_timer_channel_initial_count s ch = (if bl808_timer_channel_preload s ch then tplvr_live s ! ch else 0)"

text \<open>\<open>Some match\<close> when reloading is on.\<close>

definition bl808_timer_channel_reload_match :: "BL808TimerState \<Rightarrow> nat \<Rightarrow> u32 option" where
  "bl808_timer_channel_reload_match s ch =
     (let cr = tplcr_live s ! ch AND 3 in
      if \<not> bl808_timer_channel_preload s ch \<or> cr = 0 then None else Some (tmr_live s ! ch ! (unat cr - 1)))"

definition bl808_timer_channel_now :: "BL808TimerState \<Rightarrow> nat \<Rightarrow> u64 \<Rightarrow> u32" where
  "bl808_timer_channel_now s ch now_ns =
     (let rate = bl808_timer_source_hz s ch in
      if \<not> bl808_timer_channel_enabled s ch \<or> rate = 0 then channel_count s ! ch
      else let elapsed_ticks = ((now_ns - channel_base_ns s ! ch) * rate) div NANOSECONDS
           in channel_count s ! ch + ucast elapsed_ticks)"

definition bl808_timer_channel_commit_now :: "nat \<Rightarrow> u32 \<Rightarrow> u64 \<Rightarrow> BL808TimerState \<Rightarrow> BL808TimerState" where
  "bl808_timer_channel_commit_now ch count now_ns s =
     s\<lparr>channel_count := (channel_count s)[ch := count], channel_base_ns := (channel_base_ns s)[ch := now_ns]\<rparr>"

definition bl808_timer_channel_sync :: "nat \<Rightarrow> u64 \<Rightarrow> BL808TimerState \<Rightarrow> BL808TimerState" where
  "bl808_timer_channel_sync ch now_ns s =
     bl808_timer_channel_commit_now ch (bl808_timer_channel_now s ch now_ns) now_ns s"

definition bl808_timer_channel_load_live_config :: "nat \<Rightarrow> BL808TimerState \<Rightarrow> BL808TimerState" where
  "bl808_timer_channel_load_live_config ch s =
     s\<lparr>tmr_live := (tmr_live s)[ch := tmr s ! ch], tplvr_live := (tplvr_live s)[ch := tplvr s ! ch],
       tplcr_live := (tplcr_live s)[ch := tplcr s ! ch AND 3],
       channel_update_pending := (channel_update_pending s)[ch := False]\<rparr>"

definition bl808_timer_channel_clear_compare_state :: "nat \<Rightarrow> BL808TimerState \<Rightarrow> BL808TimerState" where
  "bl808_timer_channel_clear_compare_state ch s =
     s\<lparr>channel_compare_fired := (channel_compare_fired s)[ch := [False, False, False]]\<rparr>"

definition bl808_timer_channel_mark_passed_compares :: "nat \<Rightarrow> u32 \<Rightarrow> BL808TimerState \<Rightarrow> BL808TimerState" where
  "bl808_timer_channel_mark_passed_compares ch current s =
     s\<lparr>channel_compare_fired := (channel_compare_fired s)[ch := map (\<lambda>i. tmr_live s ! ch ! i \<le> current) [0, 1, 2]]\<rparr>"

definition bl808_timer_channel_divider_pending :: "BL808TimerState \<Rightarrow> nat \<Rightarrow> bool" where
  "bl808_timer_channel_divider_pending s ch \<longleftrightarrow>
     (let m = bl808_timer_channel_divider_mask ch in tcdr s AND m \<noteq> tcdr_live s AND m)"

definition bl808_timer_channel_copy_programmed_divider :: "nat \<Rightarrow> BL808TimerState \<Rightarrow> BL808TimerState" where
  "bl808_timer_channel_copy_programmed_divider ch s =
     (let m = bl808_timer_channel_divider_mask ch
      in s\<lparr>tcdr_live := (tcdr_live s AND NOT m) OR (tcdr s AND m)\<rparr>)"

definition bl808_timer_channel_commit_divider :: "nat \<Rightarrow> u64 \<Rightarrow> BL808TimerState \<Rightarrow> BL808TimerState" where
  "bl808_timer_channel_commit_divider ch now_ns s =
     bl808_timer_channel_copy_programmed_divider ch
       (bl808_timer_channel_commit_now ch (bl808_timer_channel_now s ch now_ns) now_ns s)"

definition bl808_timer_channel_level_irq_pending :: "BL808TimerState \<Rightarrow> nat \<Rightarrow> bool" where
  "bl808_timer_channel_level_irq_pending s ch \<longleftrightarrow> tsr s ! ch AND tier s ! ch AND NOT (tilr s ! ch) AND 7 \<noteq> 0"

definition bl808_timer_channel_pulse_irq :: "nat \<Rightarrow> BL808TimerState \<Rightarrow> BL808TimerState" where
  "bl808_timer_channel_pulse_irq ch s =
     (if \<not> timer_clock_enabled s \<or> timer_reset_asserted s then s
      else s\<lparr>irq := (irq s)[ch := False], pulses := (pulses s)[ch := Suc (pulses s ! ch)]\<rparr>)"

definition bl808_timer_update_irq :: "BL808TimerState \<Rightarrow> BL808TimerState" where
  "bl808_timer_update_irq s =
     (let on = timer_clock_enabled s \<and> \<not> timer_reset_asserted s
      in s\<lparr>irq := [on \<and> bl808_timer_channel_level_irq_pending s 0, on \<and> bl808_timer_channel_level_irq_pending s 1,
                   on \<and> wsr s AND 1 \<noteq> 0]\<rparr>)"

text \<open>The nearest compare value that can still be reached; 0xFFFFFFFF when there is none.\<close>

definition reschedule_next :: "BL808TimerState \<Rightarrow> nat \<Rightarrow> u32 \<Rightarrow> u32" where
  "reschedule_next s ch current =
     fold (\<lambda>i next.
         let cmp = tmr_live s ! ch ! i in
         if channel_compare_fired s ! ch ! i \<or> cmp < current then next
         else if (case bl808_timer_channel_reload_match s ch of None \<Rightarrow> False | Some m \<Rightarrow> cmp > m) then next
         else min next cmp)
       [0, 1, 2] 0xFFFFFFFF"

definition set_channel_timer :: "nat \<Rightarrow> int option \<Rightarrow> BL808TimerState \<Rightarrow> BL808TimerState" where
  "set_channel_timer ch d s = s\<lparr>channel_timer := (channel_timer s)[ch := d]\<rparr>"

definition bl808_timer_channel_reschedule :: "nat \<Rightarrow> u64 \<Rightarrow> BL808TimerState \<Rightarrow> BL808TimerState" where
  "bl808_timer_channel_reschedule ch now_ns s =
     (if \<not> bl808_timer_channel_enabled s ch then set_channel_timer ch None s
      else let current = bl808_timer_channel_now s ch now_ns;
               rate = bl808_timer_source_hz s ch
      in if rate = 0 then set_channel_timer ch None s
      else let next = reschedule_next s ch current
      in if next = 0xFFFFFFFF then set_channel_timer ch None s
      else if next \<le> current then set_channel_timer ch (timer_mod (now_ns + 1)) s
      else let delta_ticks = ucast (next - current) :: u64;
               delta_ns = max 1 ((delta_ticks * NANOSECONDS + rate - 1) div rate)
           in set_channel_timer ch (timer_mod (now_ns + delta_ns)) s)"

text \<open>The compare loop of \<open>bl808_timer_channel_event\<close>, with the bits newly set.\<close>

definition event_compare :: "nat \<Rightarrow> u32 \<Rightarrow> nat \<Rightarrow> BL808TimerState \<times> u32 \<Rightarrow> BL808TimerState \<times> u32" where
  "event_compare ch current i = (\<lambda>(s, new_status).
     if \<not> channel_compare_fired s ! ch ! i \<and> tmr_live s ! ch ! i = current
     then (s\<lparr>tsr := (tsr s)[ch := tsr s ! ch OR push_bit i 1],
             channel_compare_fired := (channel_compare_fired s)[ch := (channel_compare_fired s ! ch)[i := True]]\<rparr>,
           new_status OR push_bit i 1)
     else (s, new_status))"

definition bl808_timer_channel_event :: "nat \<Rightarrow> u64 \<Rightarrow> BL808TimerState \<Rightarrow> BL808TimerState" where
  "bl808_timer_channel_event ch now_ns s =
     (let current = bl808_timer_channel_now s ch now_ns;
          had_level_irq = bl808_timer_channel_level_irq_pending s ch;
          reload_event = (bl808_timer_channel_reload_match s ch = Some current);
          (s, new_status) = fold (event_compare ch current) [0, 1, 2] (s, 0);
          s = (if reload_event then
                 let s = (if channel_update_pending s ! ch then bl808_timer_channel_load_live_config ch s else s);
                     s = (if bl808_timer_channel_divider_pending s ch
                          then bl808_timer_channel_copy_programmed_divider ch s else s);
                     s = bl808_timer_channel_clear_compare_state ch s
                 in bl808_timer_channel_commit_now ch (bl808_timer_channel_initial_count s ch) now_ns s
               else
                 let s = bl808_timer_channel_commit_now ch current now_ns s
                 in if channel_update_pending s ! ch \<and> bl808_timer_channel_align_enabled s ch \<and> new_status \<noteq> 0
                    then bl808_timer_channel_mark_passed_compares ch current (bl808_timer_channel_load_live_config ch s)
                    else s);
          s = (if new_status AND tier s ! ch AND tilr s ! ch AND 7 \<noteq> 0 \<and> \<not> had_level_irq \<and>
                  \<not> bl808_timer_channel_level_irq_pending s ch
               then bl808_timer_channel_pulse_irq ch s else s)
      in bl808_timer_channel_reschedule ch now_ns (bl808_timer_update_irq s))"

section \<open>Watchdog\<close>

definition bl808_timer_wdt_hz :: "BL808TimerState \<Rightarrow> u64" where
  "bl808_timer_wdt_hz s =
     (let sel = drop_bit 8 (tccr s AND 0xF00);
          divider = drop_bit 24 (tcdr_live s AND TCDR_WDT_MASK);
          base_hz = bl808_timer_clock_base_hz s sel
      in if base_hz = 0 then 0 else base_hz div ucast (divider + 1))"

definition bl808_timer_wdt_enabled :: "BL808TimerState \<Rightarrow> bool" where
  "bl808_timer_wdt_enabled s \<longleftrightarrow> timer_clock_enabled s \<and> \<not> timer_reset_asserted s \<and> tst (wmer s) WMER_WDT_EN"

definition bl808_timer_wdt_now :: "BL808TimerState \<Rightarrow> u64 \<Rightarrow> u32" where
  "bl808_timer_wdt_now s now_ns =
     (let rate = bl808_timer_wdt_hz s in
      if \<not> bl808_timer_wdt_enabled s \<or> rate = 0 then wdt_count s
      else let elapsed_ticks = ((now_ns - wdt_base_ns s) * rate) div NANOSECONDS
           in (wdt_count s + ucast elapsed_ticks) AND WMR_WDT_MATCH_MASK)"

definition bl808_timer_wdt_commit_now :: "u32 \<Rightarrow> u64 \<Rightarrow> BL808TimerState \<Rightarrow> BL808TimerState" where
  "bl808_timer_wdt_commit_now count now_ns s =
     s\<lparr>wdt_count := count AND WMR_WDT_MATCH_MASK, wdt_base_ns := now_ns\<rparr>"

definition bl808_timer_wdt_align_enabled :: "BL808TimerState \<Rightarrow> bool" where
  "bl808_timer_wdt_align_enabled s \<longleftrightarrow> tst (wmr s) WMR_WDT_ALIGN"

definition bl808_timer_wdt_match_value :: "BL808TimerState \<Rightarrow> u32" where
  "bl808_timer_wdt_match_value s = wmr_live s AND WMR_WDT_MATCH_MASK"

definition bl808_timer_wdt_divider_pending :: "BL808TimerState \<Rightarrow> bool" where
  "bl808_timer_wdt_divider_pending s \<longleftrightarrow> tcdr s AND TCDR_WDT_MASK \<noteq> tcdr_live s AND TCDR_WDT_MASK"

definition bl808_timer_wdt_copy_programmed_divider :: "BL808TimerState \<Rightarrow> BL808TimerState" where
  "bl808_timer_wdt_copy_programmed_divider s =
     s\<lparr>tcdr_live := (tcdr_live s AND NOT TCDR_WDT_MASK) OR (tcdr s AND TCDR_WDT_MASK)\<rparr>"

definition bl808_timer_wdt_commit_divider :: "u64 \<Rightarrow> BL808TimerState \<Rightarrow> BL808TimerState" where
  "bl808_timer_wdt_commit_divider now_ns s =
     bl808_timer_wdt_copy_programmed_divider (bl808_timer_wdt_commit_now (bl808_timer_wdt_now s now_ns) now_ns s)"

definition bl808_timer_wdt_apply_programmed :: "BL808TimerState \<Rightarrow> BL808TimerState" where
  "bl808_timer_wdt_apply_programmed s =
     s\<lparr>wmr_live := wmr s AND (WMR_WDT_ALIGN OR WMR_WDT_MATCH_MASK), wdt_update_pending := False\<rparr>"

definition bl808_timer_wdt_take_unlock :: "BL808TimerState \<Rightarrow> bool \<times> BL808TimerState" where
  "bl808_timer_wdt_take_unlock s = (wdt_unlocked s, s\<lparr>wdt_unlocked := False\<rparr>)"

text \<open>Unlike a channel, the watchdog is scheduled without a test of its rate.\<close>

definition bl808_timer_wdt_reschedule :: "u64 \<Rightarrow> BL808TimerState \<Rightarrow> BL808TimerState option" where
  "bl808_timer_wdt_reschedule now_ns s =
     (if \<not> bl808_timer_wdt_enabled s \<or> bl808_timer_wdt_match_value s = 0 then Some (s\<lparr>wdt_timer := None\<rparr>)
      else let current = bl808_timer_wdt_now s now_ns; rate = bl808_timer_wdt_hz s
      in if current \<ge> bl808_timer_wdt_match_value s then Some (s\<lparr>wdt_timer := timer_mod (now_ns + 1)\<rparr>)
      else if rate = 0 then None
      else let delta = ucast (bl808_timer_wdt_match_value s - current) :: u64;
               delta_ns = max 1 ((delta * NANOSECONDS + rate - 1) div rate)
           in Some (s\<lparr>wdt_timer := timer_mod (now_ns + delta_ns)\<rparr>))"

definition bl808_timer_wdt_fire :: "u64 \<Rightarrow> BL808TimerState \<Rightarrow> BL808TimerState option" where
  "bl808_timer_wdt_fire now_ns s =
     (let s = bl808_timer_wdt_commit_now (bl808_timer_wdt_match_value s) now_ns s;
          s = s\<lparr>wsr := wsr s OR 1\<rparr>;
          s = (if wdt_update_pending s \<and> bl808_timer_wdt_align_enabled s
               then bl808_timer_wdt_apply_programmed s else s);
          s = bl808_timer_update_irq s
      in if tst (wmer s) WMER_WDT_RST then Some (s\<lparr>reset_requested := True\<rparr>)
         else bl808_timer_wdt_reschedule now_ns s)"

section \<open>Reset and clock\<close>

definition bl808_timer_sync_counters :: "u64 \<Rightarrow> BL808TimerState \<Rightarrow> BL808TimerState" where
  "bl808_timer_sync_counters now_ns s =
     (let s = bl808_timer_channel_commit_now 0 (bl808_timer_channel_now s 0 now_ns) now_ns s;
          s = bl808_timer_channel_commit_now 1 (bl808_timer_channel_now s 1 now_ns) now_ns s
      in bl808_timer_wdt_commit_now (bl808_timer_wdt_now s now_ns) now_ns s)"

definition bl808_timer_reset_hold :: "u64 \<Rightarrow> BL808TimerState \<Rightarrow> BL808TimerState" where
  "bl808_timer_reset_hold now_ns s = bl808_timer_update_irq (s\<lparr>
     tccr := push_bit 8 1 OR push_bit 4 5 OR 5,
     tmr := replicate 2 (replicate 3 0xFFFFFFFF), tmr_live := replicate 2 (replicate 3 0xFFFFFFFF),
     tcr := [0, 0], tsr := [0, 0], tier := [0, 0], tplvr := [0, 0], tplvr_live := [0, 0], tplcr := [0, 0], tplcr_live := [0, 0],
     tilr := [0, 0], channel_compare_fired := replicate 2 [False, False, False],
     channel_update_pending := [False, False], tcvwr := [0, 0], tcvwr_read_mask := 0,
     tcer := 0, tcmr := 0, tcdr := 0, tcdr_live := 0, wmer := 0, wmr := WMR_WDT_MATCH_MASK,
     wmr_live := WMR_WDT_MATCH_MASK, wsr := 0, wcr := 0, tcdr_force := 0, wfar_seen := False,
     wdt_unlocked := False, wdt_update_pending := False,
     channel_count := [0, 0], channel_base_ns := [now_ns, now_ns], channel_timer := [None, None],
     wdt_count := 0, wdt_base_ns := now_ns, wdt_timer := None\<rparr>)"

definition bl808_timer_set_clock_enabled :: "bool \<Rightarrow> u64 \<Rightarrow> BL808TimerState \<Rightarrow> BL808TimerState option" where
  "bl808_timer_set_clock_enabled enabled now_ns s =
     (if \<not> timers_present s then Some (s\<lparr>timer_clock_enabled := enabled\<rparr>)
      else let s = (bl808_timer_sync_counters now_ns s)\<lparr>timer_clock_enabled := enabled\<rparr>;
               s = bl808_timer_channel_reschedule 1 now_ns (bl808_timer_channel_reschedule 0 now_ns s)
           in map_option bl808_timer_update_irq (bl808_timer_wdt_reschedule now_ns s))"

definition bl808_timer_set_reset_asserted :: "bool \<Rightarrow> u64 \<Rightarrow> BL808TimerState \<Rightarrow> BL808TimerState" where
  "bl808_timer_set_reset_asserted asserted now_ns s =
     (let s = s\<lparr>timer_reset_asserted := asserted\<rparr> in
      if \<not> timers_present s then s
      else if asserted then bl808_timer_reset_hold now_ns s else bl808_timer_update_irq s)"

definition bl808_timer_set_clock_inputs :: "u64 \<Rightarrow> u64 \<Rightarrow> u64 \<Rightarrow> u64 \<Rightarrow> BL808TimerState \<Rightarrow> BL808TimerState option" where
  "bl808_timer_set_clock_inputs bclk xtal f32k now_ns s =
     (if \<not> timers_present s then Some (s\<lparr>bclk_hz := bclk, xtal_hz := xtal, f32k_hz := f32k\<rparr>)
      else let s = (bl808_timer_sync_counters now_ns s)\<lparr>bclk_hz := bclk, xtal_hz := xtal, f32k_hz := f32k\<rparr>;
               s = bl808_timer_channel_reschedule 1 now_ns (bl808_timer_channel_reschedule 0 now_ns s)
           in map_option bl808_timer_update_irq (bl808_timer_wdt_reschedule now_ns s))"

definition bl808_timer_init :: "BL808TimerState \<Rightarrow> BL808TimerState" where
  "bl808_timer_init s = s\<lparr>channel_timer := [None, None], wdt_timer := None, timers_present := True,
     timer_clock_enabled := True, bclk_hz := 80000000, xtal_hz := 40000000, f32k_hz := 32768\<rparr>"

definition bl808_timer_reset :: "u64 \<Rightarrow> BL808TimerState \<Rightarrow> BL808TimerState" where
  "bl808_timer_reset now_ns s =
     bl808_timer_reset_hold now_ns (s\<lparr>timer_clock_enabled := True, timer_reset_asserted := False\<rparr>)"

section \<open>Reading\<close>

definition bl808_timer_tcvwr_read :: "nat \<Rightarrow> u64 \<Rightarrow> BL808TimerState \<Rightarrow> u32 \<times> BL808TimerState" where
  "bl808_timer_tcvwr_read ch now_ns s =
     (let s = (if tcvwr_read_mask s = 0
               then s\<lparr>tcvwr := [bl808_timer_channel_now s 0 now_ns, bl808_timer_channel_now s 1 now_ns]\<rparr> else s);
          m = tcvwr_read_mask s OR push_bit ch 1;
          s = s\<lparr>tcvwr_read_mask := (if m AND 3 = 3 then 0 else m)\<rparr>
      in (tcvwr s ! ch, s))"

definition bl808_timer_read :: "hwaddr \<Rightarrow> u64 \<Rightarrow> BL808TimerState \<Rightarrow> u64 \<times> BL808TimerState" where
  "bl808_timer_read offset now_ns s =
     (if offset = 0x00 then (ucast (push_bit 24 0xA5 OR tccr s), s)
      else if offset = 0x10 then (ucast (tmr s ! 0 ! 0), s)
      else if offset = 0x14 then (ucast (tmr s ! 0 ! 1), s)
      else if offset = 0x18 then (ucast (tmr s ! 0 ! 2), s)
      else if offset = 0x1C then (ucast (tmr s ! 1 ! 0), s)
      else if offset = 0x20 then (ucast (tmr s ! 1 ! 1), s)
      else if offset = 0x24 then (ucast (tmr s ! 1 ! 2), s)
      else if offset = 0x2C then (ucast (bl808_timer_channel_now s 0 now_ns), s)
      else if offset = 0x30 then (ucast (bl808_timer_channel_now s 1 now_ns), s)
      else if offset = 0x38 then (ucast (tsr s ! 0), s)
      else if offset = 0x3C then (ucast (tsr s ! 1), s)
      else if offset = 0x44 then (ucast (tier s ! 0), s)
      else if offset = 0x48 then (ucast (tier s ! 1), s)
      else if offset = 0x50 then (ucast (tplvr s ! 0), s)
      else if offset = 0x54 then (ucast (tplvr s ! 1), s)
      else if offset = 0x5C then (ucast (tplcr s ! 0), s)
      else if offset = 0x60 then (ucast (tplcr s ! 1), s)
      else if offset = 0x64 then (ucast (wmer s), s)
      else if offset = 0x68 then (ucast (wmr s AND (WMR_WDT_ALIGN OR WMR_WDT_MATCH_MASK)), s)
      else if offset = 0x6C then (ucast (bl808_timer_wdt_now s now_ns AND WMR_WDT_MATCH_MASK), s)
      else if offset = 0x70 then (ucast (wsr s), s)
      else if offset = 0x84 then (ucast (tcer s), s)
      else if offset = 0x88 then (ucast (tcmr s), s)
      else if offset = 0x90 then (ucast (tilr s ! 0), s)
      else if offset = 0x94 then (ucast (tilr s ! 1), s)
      else if offset = 0x98 then (ucast (wcr s), s)
      else if offset = 0xA8 then let (v, s) = bl808_timer_tcvwr_read 0 now_ns s in (ucast v, s)
      else if offset = 0xAC then let (v, s) = bl808_timer_tcvwr_read 1 now_ns s in (ucast v, s)
      else if offset = 0xB4 then (ucast (bl808_timer_channel_now s 0 now_ns), s)
      else if offset = 0xB8 then (ucast (bl808_timer_channel_now s 1 now_ns), s)
      else if offset = 0xBC then (ucast (tcdr s), s)
      else if offset = 0xCC then (ucast (tcdr_force s), s)
      else (0, s))"

section \<open>Writing\<close>

text \<open>
  One definition per register of \<open>bl808_timer_write\<close>; the registers of the two channels have the
  same code with the channel number exchanged.
\<close>

definition timer_write_tccr :: "u32 \<Rightarrow> u64 \<Rightarrow> BL808TimerState \<Rightarrow> BL808TimerState option" where
  "timer_write_tccr value now_ns s =
     (let s = (bl808_timer_sync_counters now_ns s)\<lparr>tccr := value AND 0xFFF\<rparr>;
          s = bl808_timer_channel_reschedule 1 now_ns (bl808_timer_channel_reschedule 0 now_ns s)
      in bl808_timer_wdt_reschedule now_ns s)"

definition timer_write_tmr :: "nat \<Rightarrow> nat \<Rightarrow> u32 \<Rightarrow> u64 \<Rightarrow> BL808TimerState \<Rightarrow> BL808TimerState" where
  "timer_write_tmr ch i value now_ns s =
     (let s = bl808_timer_channel_sync ch now_ns s;
          s = s\<lparr>tmr := (tmr s)[ch := (tmr s ! ch)[i := value]]\<rparr>
      in if bl808_timer_channel_enabled s ch \<and> bl808_timer_channel_align_enabled s ch
         then s\<lparr>channel_update_pending := (channel_update_pending s)[ch := True]\<rparr>
         else bl808_timer_channel_reschedule ch now_ns
                (bl808_timer_channel_clear_compare_state ch (bl808_timer_channel_load_live_config ch s)))"

definition timer_apply_preload :: "nat \<Rightarrow> u64 \<Rightarrow> BL808TimerState \<Rightarrow> BL808TimerState" where
  "timer_apply_preload ch now_ns s =
     (if bl808_timer_channel_enabled s ch \<and> bl808_timer_channel_align_enabled s ch
      then s\<lparr>channel_update_pending := (channel_update_pending s)[ch := True]\<rparr>
      else let s = bl808_timer_channel_load_live_config ch s
           in bl808_timer_channel_reschedule ch now_ns
                (bl808_timer_channel_mark_passed_compares ch (channel_count s ! ch) s))"

definition timer_write_tplvr :: "nat \<Rightarrow> u32 \<Rightarrow> u64 \<Rightarrow> BL808TimerState \<Rightarrow> BL808TimerState" where
  "timer_write_tplvr ch value now_ns s =
     (let s = bl808_timer_channel_sync ch now_ns s
      in timer_apply_preload ch now_ns (s\<lparr>tplvr := (tplvr s)[ch := value]\<rparr>))"

definition timer_write_tplcr :: "nat \<Rightarrow> u32 \<Rightarrow> u64 \<Rightarrow> BL808TimerState \<Rightarrow> BL808TimerState" where
  "timer_write_tplcr ch value now_ns s =
     (let s = bl808_timer_channel_sync ch now_ns s
      in timer_apply_preload ch now_ns (s\<lparr>tplcr := (tplcr s)[ch := value AND 3]\<rparr>))"

definition timer_write_wmer :: "u32 \<Rightarrow> u64 \<Rightarrow> BL808TimerState \<Rightarrow> BL808TimerState option" where
  "timer_write_wmer value now_ns s =
     (let (unlocked, s) = bl808_timer_wdt_take_unlock s in
      if \<not> unlocked then Some s
      else let s = bl808_timer_wdt_commit_now (bl808_timer_wdt_now s now_ns) now_ns s;
               old_wmer = wmer s;
               s = s\<lparr>wmer := value AND (WMER_WDT_EN OR WMER_WDT_RST)\<rparr>;
               s = (if old_wmer AND WMER_WDT_EN \<noteq> wmer s AND WMER_WDT_EN
                    then bl808_timer_wdt_apply_programmed
                           (if bl808_timer_wdt_divider_pending s then bl808_timer_wdt_copy_programmed_divider s else s)
                    else s)
           in bl808_timer_wdt_reschedule now_ns s)"

definition timer_write_wmr :: "u32 \<Rightarrow> u64 \<Rightarrow> BL808TimerState \<Rightarrow> BL808TimerState option" where
  "timer_write_wmr value now_ns s =
     (let (unlocked, s) = bl808_timer_wdt_take_unlock s in
      if \<not> unlocked then Some s
      else let s = bl808_timer_wdt_commit_now (bl808_timer_wdt_now s now_ns) now_ns s;
               m = WMR_WDT_ALIGN OR WMR_WDT_MATCH_MASK;
               s = s\<lparr>wmr := (wmr s AND NOT m) OR (value AND m)\<rparr>
           in if bl808_timer_wdt_enabled s \<and> bl808_timer_wdt_align_enabled s
              then Some (s\<lparr>wdt_update_pending := True\<rparr>)
              else bl808_timer_wdt_reschedule now_ns (bl808_timer_wdt_apply_programmed s))"

definition timer_write_ticr :: "nat \<Rightarrow> u32 \<Rightarrow> BL808TimerState \<Rightarrow> BL808TimerState" where
  "timer_write_ticr ch value s = bl808_timer_update_irq (s\<lparr>tsr := (tsr s)[ch := tsr s ! ch AND NOT (value AND 7)]\<rparr>)"

definition timer_write_wicr :: "u32 \<Rightarrow> BL808TimerState \<Rightarrow> BL808TimerState" where
  "timer_write_wicr value s =
     (let (unlocked, s) = bl808_timer_wdt_take_unlock s in
      if \<not> unlocked then s
      else if tst value 1 then bl808_timer_update_irq (s\<lparr>wsr := wsr s AND NOT 1\<rparr>) else s)"

definition timer_restart_channel :: "nat \<Rightarrow> u64 \<Rightarrow> BL808TimerState \<Rightarrow> BL808TimerState" where
  "timer_restart_channel ch now_ns s =
     (let s = bl808_timer_channel_clear_compare_state ch
                (bl808_timer_channel_copy_programmed_divider ch (bl808_timer_channel_load_live_config ch s))
      in bl808_timer_channel_commit_now ch (bl808_timer_channel_initial_count s ch) now_ns s)"

definition timer_write_tcer :: "u32 \<Rightarrow> u64 \<Rightarrow> BL808TimerState \<Rightarrow> BL808TimerState" where
  "timer_write_tcer value now_ns s =
     (let s = bl808_timer_channel_sync 1 now_ns (bl808_timer_channel_sync 0 now_ns s);
          old_tcer = tcer s;
          new_tcer = value AND 6;
          s = s\<lparr>tcer := new_tcer\<rparr>;
          s = (if tst value 0x20 \<or> (\<not> tst old_tcer 2 \<and> tst new_tcer 2) \<or> (tst old_tcer 2 \<and> \<not> tst new_tcer 2)
               then timer_restart_channel 0 now_ns s else s);
          s = (if tst value 0x40 \<or> (\<not> tst old_tcer 4 \<and> tst new_tcer 4) \<or> (tst old_tcer 4 \<and> \<not> tst new_tcer 4)
               then timer_restart_channel 1 now_ns s else s)
      in bl808_timer_channel_reschedule 1 now_ns (bl808_timer_channel_reschedule 0 now_ns s))"

definition timer_tcmr_channel :: "nat \<Rightarrow> BL808TimerState \<Rightarrow> BL808TimerState" where
  "timer_tcmr_channel ch s =
     (if channel_update_pending s ! ch \<and> \<not> bl808_timer_channel_align_enabled s ch
      then let s = bl808_timer_channel_load_live_config ch s
           in bl808_timer_channel_mark_passed_compares ch (channel_count s ! ch) s
      else s)"

definition timer_write_tcmr :: "u32 \<Rightarrow> u64 \<Rightarrow> BL808TimerState \<Rightarrow> BL808TimerState" where
  "timer_write_tcmr value now_ns s =
     (let s = bl808_timer_channel_sync 1 now_ns (bl808_timer_channel_sync 0 now_ns s);
          old_tcmr = tcmr s;
          s = s\<lparr>tcmr := value\<rparr>;
          s = (if tst (old_tcmr XOR tcmr s) 2 then bl808_timer_channel_clear_compare_state 0 s else s);
          s = (if tst (old_tcmr XOR tcmr s) 4 then bl808_timer_channel_clear_compare_state 1 s else s);
          s = timer_tcmr_channel 1 (timer_tcmr_channel 0 s)
      in bl808_timer_channel_reschedule 1 now_ns (bl808_timer_channel_reschedule 0 now_ns s))"

definition timer_write_wcr :: "u32 \<Rightarrow> u64 \<Rightarrow> BL808TimerState \<Rightarrow> BL808TimerState option" where
  "timer_write_wcr value now_ns s =
     (let (unlocked, s) = bl808_timer_wdt_take_unlock s in
      if \<not> unlocked then Some s
      else let s = s\<lparr>wcr := value AND 1\<rparr>
      in if wcr s = 0 then Some s
         else let s = (if bl808_timer_wdt_divider_pending s then bl808_timer_wdt_copy_programmed_divider s else s);
                  s = bl808_timer_wdt_commit_now 0 now_ns (bl808_timer_wdt_apply_programmed s)
              in bl808_timer_wdt_reschedule now_ns s)"

definition timer_write_wsar :: "u32 \<Rightarrow> BL808TimerState \<Rightarrow> BL808TimerState" where
  "timer_write_wsar value s =
     s\<lparr>wdt_unlocked := (wfar_seen s \<and> value AND 0xFFFF = 0xEB10), wfar_seen := False\<rparr>"

definition timer_write_tcdr :: "u32 \<Rightarrow> u64 \<Rightarrow> BL808TimerState \<Rightarrow> BL808TimerState" where
  "timer_write_tcdr value now_ns s =
     (let s = bl808_timer_channel_sync 1 now_ns (bl808_timer_channel_sync 0 now_ns s);
          s = bl808_timer_wdt_commit_now (bl808_timer_wdt_now s now_ns) now_ns s;
          s = s\<lparr>tcdr := value\<rparr>;
          s = (if bl808_timer_channel_enabled s 0 then s else bl808_timer_channel_copy_programmed_divider 0 s);
          s = (if bl808_timer_channel_enabled s 1 then s else bl808_timer_channel_copy_programmed_divider 1 s)
      in if bl808_timer_wdt_enabled s then s else bl808_timer_wdt_copy_programmed_divider s)"

definition timer_write_tcdr_force :: "u32 \<Rightarrow> u64 \<Rightarrow> BL808TimerState \<Rightarrow> BL808TimerState option" where
  "timer_write_tcdr_force value now_ns s =
     (let s = s\<lparr>tcdr_force := value AND 0x16\<rparr>;
          s = (if tst (tcdr_force s) 0x02
               then bl808_timer_channel_reschedule 0 now_ns (bl808_timer_channel_commit_divider 0 now_ns s) else s);
          s = (if tst (tcdr_force s) 0x04
               then bl808_timer_channel_reschedule 1 now_ns (bl808_timer_channel_commit_divider 1 now_ns s) else s)
      in if tst (tcdr_force s) 0x10
         then bl808_timer_wdt_reschedule now_ns (bl808_timer_wdt_commit_divider now_ns s) else Some s)"

definition bl808_timer_write :: "hwaddr \<Rightarrow> u64 \<Rightarrow> u64 \<Rightarrow> BL808TimerState \<Rightarrow> BL808TimerState option" where
  "bl808_timer_write offset value64 now_ns s =
     (let value = ucast value64 :: u32 in
      if offset = 0x00 then timer_write_tccr value now_ns s
      else if offset = 0x10 then Some (timer_write_tmr 0 0 value now_ns s)
      else if offset = 0x14 then Some (timer_write_tmr 0 1 value now_ns s)
      else if offset = 0x18 then Some (timer_write_tmr 0 2 value now_ns s)
      else if offset = 0x1C then Some (timer_write_tmr 1 0 value now_ns s)
      else if offset = 0x20 then Some (timer_write_tmr 1 1 value now_ns s)
      else if offset = 0x24 then Some (timer_write_tmr 1 2 value now_ns s)
      else if offset = 0x44 then Some (bl808_timer_update_irq (s\<lparr>tier := (tier s)[0 := value AND 7]\<rparr>))
      else if offset = 0x48 then Some (bl808_timer_update_irq (s\<lparr>tier := (tier s)[1 := value AND 7]\<rparr>))
      else if offset = 0x50 then Some (timer_write_tplvr 0 value now_ns s)
      else if offset = 0x54 then Some (timer_write_tplvr 1 value now_ns s)
      else if offset = 0x5C then Some (timer_write_tplcr 0 value now_ns s)
      else if offset = 0x60 then Some (timer_write_tplcr 1 value now_ns s)
      else if offset = 0x64 then timer_write_wmer value now_ns s
      else if offset = 0x68 then timer_write_wmr value now_ns s
      else if offset = 0x78 then Some (timer_write_ticr 0 value s)
      else if offset = 0x7C then Some (timer_write_ticr 1 value s)
      else if offset = 0x80 then Some (timer_write_wicr value s)
      else if offset = 0x84 then Some (timer_write_tcer value now_ns s)
      else if offset = 0x88 then Some (timer_write_tcmr value now_ns s)
      else if offset = 0x90 then Some (s\<lparr>tilr := (tilr s)[0 := value]\<rparr>)
      else if offset = 0x94 then Some (s\<lparr>tilr := (tilr s)[1 := value]\<rparr>)
      else if offset = 0x70 then
        Some (if value AND 1 = 0 then bl808_timer_update_irq (s\<lparr>wsr := wsr s AND NOT 1\<rparr>) else s)
      else if offset = 0x98 then timer_write_wcr value now_ns s
      else if offset = 0x9C then Some (s\<lparr>wfar_seen := (value AND 0xFFFF = 0xBABA), wdt_unlocked := False\<rparr>)
      else if offset = 0xA0 then Some (timer_write_wsar value s)
      else if offset = 0xBC then Some (timer_write_tcdr value now_ns s)
      else if offset = 0xCC then timer_write_tcdr_force value now_ns s
      else Some s)"

end
