(* ===== verification/Timer_Proofs.thy ===== *)
theory Timer_Proofs
  imports Timer
begin

text \<open>
  Correctness of the timer block: the watchdog's registers obey the unlock protocol, a compare
  event is scheduled for the exact nanosecond the counter reaches it, the interrupt lines are
  the levels the registers call for, and two ways in which the block fails: an event that runs
  late is lost, and a watchdog without a clock source divides by zero.
\<close>

section \<open>Operations\<close>

datatype timer_op =
    Timer_read hwaddr u64
  | Timer_write hwaddr u64 u64
  | Timer_event nat u64
  | Timer_wdt_fire u64
  | Timer_reset u64
  | Timer_clock bool u64
  | Timer_reset_line bool u64
  | Timer_inputs u64 u64 u64 u64

fun timer_step :: "timer_op \<Rightarrow> BL808TimerState \<Rightarrow> BL808TimerState option" where
  "timer_step (Timer_read offset now) s = Some (snd (bl808_timer_read offset now s))"
| "timer_step (Timer_write offset value now) s = bl808_timer_write offset value now s"
| "timer_step (Timer_event ch now) s = Some (bl808_timer_channel_event ch now s)"
| "timer_step (Timer_wdt_fire now) s = bl808_timer_wdt_fire now s"
| "timer_step (Timer_reset now) s = Some (bl808_timer_reset now s)"
| "timer_step (Timer_clock b now) s = bl808_timer_set_clock_enabled b now s"
| "timer_step (Timer_reset_line b now) s = Some (bl808_timer_set_reset_asserted b now s)"
| "timer_step (Timer_inputs b x f now) s = bl808_timer_set_clock_inputs b x f now s"

definition timer_run_step :: "timer_op \<Rightarrow> BL808TimerState option \<Rightarrow> BL808TimerState option" where
  "timer_run_step op r = Option.bind r (timer_step op)"

section \<open>What the helpers leave alone\<close>

text \<open>The registers the interrupt lines depend on, and the lines.\<close>

definition irq_view where
  "irq_view s = (irq s, tsr s, tier s, tilr s, wsr s, timer_clock_enabled s, timer_reset_asserted s, timers_present s)"

text \<open>The registers behind the watchdog's lock, and the lock.\<close>

definition wd_view where
  "wd_view s = (wfar_seen s, wdt_unlocked s, wmer s, wmr s, wcr s)"

lemmas views = irq_view_def wd_view_def

named_theorems view_simps

lemma view_commit [view_simps]:
  "irq_view (bl808_timer_channel_commit_now ch c now s) = irq_view s" "wd_view (bl808_timer_channel_commit_now ch c now s) = wd_view s"
  "irq_view (bl808_timer_channel_sync ch now s) = irq_view s" "wd_view (bl808_timer_channel_sync ch now s) = wd_view s"
  "irq_view (bl808_timer_wdt_commit_now c now s) = irq_view s" "wd_view (bl808_timer_wdt_commit_now c now s) = wd_view s"
  by (simp_all add: views bl808_timer_channel_commit_now_def bl808_timer_channel_sync_def bl808_timer_wdt_commit_now_def)

lemma view_config [view_simps]:
  "irq_view (bl808_timer_channel_load_live_config ch s) = irq_view s" "wd_view (bl808_timer_channel_load_live_config ch s) = wd_view s"
  "irq_view (bl808_timer_channel_clear_compare_state ch s) = irq_view s" "wd_view (bl808_timer_channel_clear_compare_state ch s) = wd_view s"
  "irq_view (bl808_timer_channel_mark_passed_compares ch c s) = irq_view s" "wd_view (bl808_timer_channel_mark_passed_compares ch c s) = wd_view s"
  "irq_view (bl808_timer_channel_copy_programmed_divider ch s) = irq_view s" "wd_view (bl808_timer_channel_copy_programmed_divider ch s) = wd_view s"
  "irq_view (bl808_timer_wdt_copy_programmed_divider s) = irq_view s" "wd_view (bl808_timer_wdt_copy_programmed_divider s) = wd_view s"
  "irq_view (bl808_timer_wdt_apply_programmed s) = irq_view s" "wd_view (bl808_timer_wdt_apply_programmed s) = wd_view s"
  by (simp_all add: views Let_def bl808_timer_channel_load_live_config_def bl808_timer_channel_clear_compare_state_def
      bl808_timer_channel_mark_passed_compares_def bl808_timer_channel_copy_programmed_divider_def
      bl808_timer_wdt_copy_programmed_divider_def bl808_timer_wdt_apply_programmed_def)

lemma view_set_timer [view_simps]:
  "irq_view (set_channel_timer ch d s) = irq_view s" "wd_view (set_channel_timer ch d s) = wd_view s"
  "irq_view (s\<lparr>wdt_timer := e\<rparr>) = irq_view s" "wd_view (s\<lparr>wdt_timer := e\<rparr>) = wd_view s"
  by (simp_all add: views set_channel_timer_def)

lemma view_reschedule [view_simps]:
  "irq_view (bl808_timer_channel_reschedule ch now s) = irq_view s" "wd_view (bl808_timer_channel_reschedule ch now s) = wd_view s"
  by (simp_all add: bl808_timer_channel_reschedule_def Let_def view_simps)

lemma view_wdt_reschedule:
  "bl808_timer_wdt_reschedule now s = Some t \<Longrightarrow> irq_view t = irq_view s \<and> wd_view t = wd_view s"
  by (auto simp: bl808_timer_wdt_reschedule_def Let_def view_simps split: if_splits)

lemma view_divider [view_simps]:
  "irq_view (bl808_timer_channel_commit_divider ch now s) = irq_view s" "wd_view (bl808_timer_channel_commit_divider ch now s) = wd_view s"
  "irq_view (bl808_timer_wdt_commit_divider now s) = irq_view s" "wd_view (bl808_timer_wdt_commit_divider now s) = wd_view s"
  "irq_view (bl808_timer_sync_counters now s) = irq_view s" "wd_view (bl808_timer_sync_counters now s) = wd_view s"
  "irq_view (timer_restart_channel ch now s) = irq_view s" "wd_view (timer_restart_channel ch now s) = wd_view s"
  "irq_view (timer_tcmr_channel ch s) = irq_view s" "wd_view (timer_tcmr_channel ch s) = wd_view s"
  by (simp_all add: bl808_timer_channel_commit_divider_def bl808_timer_wdt_commit_divider_def
      bl808_timer_sync_counters_def timer_restart_channel_def timer_tcmr_channel_def Let_def view_simps)

lemma view_field [view_simps]:
  "irq_view (s\<lparr>tccr := a\<rparr>) = irq_view s" "wd_view (s\<lparr>tccr := a\<rparr>) = wd_view s"
  "irq_view (s\<lparr>tmr := b\<rparr>) = irq_view s" "wd_view (s\<lparr>tmr := b\<rparr>) = wd_view s"
  "irq_view (s\<lparr>tplvr := c\<rparr>) = irq_view s" "wd_view (s\<lparr>tplvr := c\<rparr>) = wd_view s"
  "irq_view (s\<lparr>tplcr := c\<rparr>) = irq_view s" "wd_view (s\<lparr>tplcr := c\<rparr>) = wd_view s"
  "irq_view (s\<lparr>tcer := a\<rparr>) = irq_view s" "wd_view (s\<lparr>tcer := a\<rparr>) = wd_view s"
  "irq_view (s\<lparr>tcmr := a\<rparr>) = irq_view s" "wd_view (s\<lparr>tcmr := a\<rparr>) = wd_view s"
  "irq_view (s\<lparr>tcdr := a\<rparr>) = irq_view s" "wd_view (s\<lparr>tcdr := a\<rparr>) = wd_view s"
  "irq_view (s\<lparr>tcdr_force := a\<rparr>) = irq_view s" "wd_view (s\<lparr>tcdr_force := a\<rparr>) = wd_view s"
  "irq_view (s\<lparr>channel_update_pending := d\<rparr>) = irq_view s" "wd_view (s\<lparr>channel_update_pending := d\<rparr>) = wd_view s"
  "irq_view (s\<lparr>wdt_update_pending := e\<rparr>) = irq_view s" "wd_view (s\<lparr>wdt_update_pending := e\<rparr>) = wd_view s"
  "wd_view (s\<lparr>tier := c\<rparr>) = wd_view s" "wd_view (s\<lparr>tilr := c\<rparr>) = wd_view s" "wd_view (s\<lparr>wsr := a\<rparr>) = wd_view s"
  "wd_view (s\<lparr>tsr := c\<rparr>) = wd_view s" "wd_view (bl808_timer_update_irq s) = wd_view s"
  by (simp_all add: views bl808_timer_update_irq_def Let_def)

lemma view_channel_writes [view_simps]:
  "irq_view (timer_write_tmr ch i v now s) = irq_view s" "wd_view (timer_write_tmr ch i v now s) = wd_view s"
  "irq_view (timer_write_tplvr ch v now s) = irq_view s" "wd_view (timer_write_tplvr ch v now s) = wd_view s"
  "irq_view (timer_write_tplcr ch v now s) = irq_view s" "wd_view (timer_write_tplcr ch v now s) = wd_view s"
  "irq_view (timer_write_tcer v now s) = irq_view s" "wd_view (timer_write_tcer v now s) = wd_view s"
  "irq_view (timer_write_tcmr v now s) = irq_view s" "wd_view (timer_write_tcmr v now s) = wd_view s"
  "irq_view (timer_write_tcdr v now s) = irq_view s" "wd_view (timer_write_tcdr v now s) = wd_view s"
  by (simp_all add: timer_write_tmr_def timer_write_tplvr_def timer_write_tplcr_def timer_apply_preload_def
      timer_write_tcer_def timer_write_tcmr_def timer_write_tcdr_def Let_def view_simps)

lemma view_partial_writes:
  "timer_write_tccr v now s = Some t \<Longrightarrow> irq_view t = irq_view s \<and> wd_view t = wd_view s"
  "timer_write_tcdr_force v now s = Some t \<Longrightarrow> irq_view t = irq_view s \<and> wd_view t = wd_view s"
  by (auto simp: timer_write_tccr_def timer_write_tcdr_force_def Let_def view_simps split: if_splits
      dest!: view_wdt_reschedule)

lemma view_wd_fields [view_simps]:
  "irq_view (s\<lparr>wmer := a\<rparr>) = irq_view s" "irq_view (s\<lparr>wmr := a\<rparr>) = irq_view s" "irq_view (s\<lparr>wcr := a\<rparr>) = irq_view s"
  "irq_view (s\<lparr>wdt_unlocked := b\<rparr>) = irq_view s" "irq_view (s\<lparr>wfar_seen := b\<rparr>) = irq_view s"
  by (simp_all add: views)

text \<open>The four protected writes.\<close>

lemma wd_wmer:
  assumes "timer_write_wmer v now s = Some t"
  shows "wd_view t = (wfar_seen s, False, if wdt_unlocked s then v AND 3 else wmer s, wmr s, wcr s) \<and> irq_view t = irq_view s"
proof (cases "wdt_unlocked s")
  case True
  let ?c = "bl808_timer_wdt_commit_now (bl808_timer_wdt_now (s\<lparr>wdt_unlocked := False\<rparr>) now) now (s\<lparr>wdt_unlocked := False\<rparr>)"
  let ?w = "?c\<lparr>wmer := v AND 3\<rparr>"
  have "wd_view t = wd_view ?w \<and> irq_view t = irq_view ?w"
    using assms True by (auto simp: timer_write_wmer_def bl808_timer_wdt_take_unlock_def Let_def view_simps
        split: if_splits dest!: view_wdt_reschedule)
  then show ?thesis using True by (simp add: views bl808_timer_wdt_commit_now_def)
next
  case False
  then show ?thesis
    using assms by (auto simp: timer_write_wmer_def bl808_timer_wdt_take_unlock_def views)
qed

lemma wd_wmr:
  assumes "timer_write_wmr v now s = Some t"
  shows "wd_view t = (wfar_seen s, False, wmer s,
    if wdt_unlocked s then (wmr s AND NOT 0x1FFFF) OR (v AND 0x1FFFF) else wmr s, wcr s) \<and> irq_view t = irq_view s"
proof (cases "wdt_unlocked s")
  case True
  let ?c = "bl808_timer_wdt_commit_now (bl808_timer_wdt_now (s\<lparr>wdt_unlocked := False\<rparr>) now) now (s\<lparr>wdt_unlocked := False\<rparr>)"
  let ?w = "?c\<lparr>wmr := (wmr ?c AND NOT 0x1FFFF) OR (v AND 0x1FFFF)\<rparr>"
  have "wd_view t = wd_view ?w \<and> irq_view t = irq_view ?w"
    using assms True by (auto simp: timer_write_wmr_def bl808_timer_wdt_take_unlock_def Let_def view_simps
        split: if_splits dest!: view_wdt_reschedule)
  then show ?thesis using True by (simp add: views bl808_timer_wdt_commit_now_def)
next
  case False
  then show ?thesis
    using assms by (auto simp: timer_write_wmr_def bl808_timer_wdt_take_unlock_def views)
qed

lemma wd_wcr:
  assumes "timer_write_wcr v now s = Some t"
  shows "wd_view t = (wfar_seen s, False, wmer s, wmr s, if wdt_unlocked s then v AND 1 else wcr s) \<and> irq_view t = irq_view s"
proof (cases "wdt_unlocked s")
  case True
  let ?w = "s\<lparr>wdt_unlocked := False, wcr := v AND 1\<rparr>"
  have "wd_view t = wd_view ?w \<and> irq_view t = irq_view ?w"
    using assms True by (auto simp: timer_write_wcr_def bl808_timer_wdt_take_unlock_def Let_def view_simps
        split: if_splits dest!: view_wdt_reschedule)
  then show ?thesis using True by (simp add: views)
next
  case False
  then show ?thesis
    using assms by (auto simp: timer_write_wcr_def bl808_timer_wdt_take_unlock_def views)
qed

lemma wd_wicr: "wd_view (timer_write_wicr v s) = (wfar_seen s, False, wmer s, wmr s, wcr s)"
  by (simp add: timer_write_wicr_def bl808_timer_wdt_take_unlock_def views bl808_timer_update_irq_def Let_def)

section \<open>The watchdog's lock\<close>

datatype wd_phase = Locked | Primed | Unlocked

text \<open>The phase of the lock and the three protected registers, as one transition per write.\<close>

definition wd_abs :: "BL808TimerState \<Rightarrow> wd_phase \<times> u32 \<times> u32 \<times> u32" where
  "wd_abs s = (if wdt_unlocked s then Unlocked else if wfar_seen s then Primed else Locked, wmer s, wmr s, wcr s)"

fun wd_spec :: "hwaddr \<Rightarrow> u32 \<Rightarrow> wd_phase \<times> u32 \<times> u32 \<times> u32 \<Rightarrow> wd_phase \<times> u32 \<times> u32 \<times> u32" where
  "wd_spec offset v (phase, en, m, c) =
     (if offset = 0x9C then (if v AND 0xFFFF = 0xBABA then Primed else Locked, en, m, c)
      else if offset = 0xA0 then (if phase = Primed \<and> v AND 0xFFFF = 0xEB10 then Unlocked else Locked, en, m, c)
      else if offset \<notin> {0x64, 0x68, 0x80, 0x98} \<or> phase \<noteq> Unlocked then (phase, en, m, c)
      else (Locked,
            if offset = 0x64 then v AND 3 else en,
            if offset = 0x68 then (m AND NOT 0x1FFFF) OR (v AND 0x1FFFF) else m,
            if offset = 0x98 then v AND 1 else c))"

lemma wd_abs_view: "wd_view t = (a, b, en, m, c) \<Longrightarrow> wd_abs t = (if b then Unlocked else if a then Primed else Locked, en, m, c)"
  by (simp add: wd_abs_def wd_view_def)

lemma wd_same_view: "wd_view t = wd_view s \<Longrightarrow> wd_abs t = wd_abs s"
  by (simp add: wd_abs_def wd_view_def)

lemma wd_write_other:
  assumes "bl808_timer_write offset v now s = Some t" "offset \<notin> {0x9C, 0xA0, 0x64, 0x68, 0x80, 0x98}"
  shows "wd_view t = wd_view s"
  using assms
  by (auto simp: bl808_timer_write_def Let_def timer_write_ticr_def view_simps split: if_splits dest!: view_partial_writes)

definition wd_phase_ok :: "BL808TimerState \<Rightarrow> bool" where
  "wd_phase_ok s \<longleftrightarrow> \<not> (wfar_seen s \<and> wdt_unlocked s)"

lemma wd_write_refines:
  assumes "bl808_timer_write offset v now s = Some t" and "wd_phase_ok s"
  shows "wd_abs t = wd_spec offset (ucast v) (wd_abs s) \<and> wd_phase_ok t"
proof -
  consider "offset \<notin> {0x9C, 0xA0, 0x64, 0x68, 0x80, 0x98}" | "offset = 0x9C" | "offset = 0xA0" | "offset = 0x64"
    | "offset = 0x68" | "offset = 0x80" | "offset = 0x98" by blast
  then show ?thesis
  proof cases
    case 1
    then have "wd_view t = wd_view s" using wd_write_other [OF assms(1)] by simp
    then show ?thesis using 1 assms(2) by (auto simp: wd_abs_def wd_view_def wd_phase_ok_def)
  next
    case 2
    then show ?thesis using assms(1) by (auto simp: bl808_timer_write_def Let_def wd_abs_def wd_phase_ok_def)
  next
    case 3
    then show ?thesis using assms by (auto simp: bl808_timer_write_def Let_def wd_abs_def wd_phase_ok_def timer_write_wsar_def)
  next
    case 4
    then have "timer_write_wmer (ucast v) now s = Some t" using assms(1) by (simp add: bl808_timer_write_def Let_def)
    from wd_wmer [OF this] show ?thesis using 4 assms(2) by (auto simp: wd_abs_def wd_view_def wd_phase_ok_def)
  next
    case 5
    then have "timer_write_wmr (ucast v) now s = Some t" using assms(1) by (simp add: bl808_timer_write_def Let_def)
    from wd_wmr [OF this] show ?thesis using 5 assms(2) by (auto simp: wd_abs_def wd_view_def wd_phase_ok_def)
  next
    case 6
    then have "t = timer_write_wicr (ucast v) s" using assms(1) by (simp add: bl808_timer_write_def Let_def)
    then show ?thesis using 6 assms(2) wd_wicr [of "ucast v" s] by (auto simp: wd_abs_def wd_view_def wd_phase_ok_def)
  next
    case 7
    then have "timer_write_wcr (ucast v) now s = Some t" using assms(1) by (simp add: bl808_timer_write_def Let_def)
    from wd_wcr [OF this] show ?thesis using 7 assms(2) by (auto simp: wd_abs_def wd_view_def wd_phase_ok_def)
  qed
qed

section \<open>The interrupt lines\<close>

definition timer_levels :: "BL808TimerState \<Rightarrow> bool list" where
  "timer_levels s =
     (let on = timer_clock_enabled s \<and> \<not> timer_reset_asserted s
      in [on \<and> tsr s ! 0 AND tier s ! 0 AND NOT (tilr s ! 0) AND 7 \<noteq> 0,
          on \<and> tsr s ! 1 AND tier s ! 1 AND NOT (tilr s ! 1) AND 7 \<noteq> 0, on \<and> wsr s AND 1 \<noteq> 0])"

text \<open>An operation either leaves the lines and their registers alone or drives the lines.\<close>

definition drives :: "BL808TimerState \<Rightarrow> BL808TimerState \<Rightarrow> bool" where
  "drives s t \<longleftrightarrow> timers_present t = timers_present s \<and> (irq_view t = irq_view s \<or> irq t = timer_levels t)"

lemma drives_same: "irq_view t = irq_view s \<Longrightarrow> drives s t"
  by (simp add: drives_def irq_view_def)

lemma update_irq_drives:
  assumes "irq_view t = irq_view (bl808_timer_update_irq u)" "timers_present u = timers_present s"
  shows "drives s t"
  using assms by (simp add: drives_def irq_view_def bl808_timer_update_irq_def timer_levels_def Let_def
      bl808_timer_channel_level_irq_pending_def)

lemma drives_exact: "drives s t \<Longrightarrow> irq s = timer_levels s \<Longrightarrow> irq t = timer_levels t"
  by (auto simp: drives_def irq_view_def timer_levels_def)

lemma timers_present_view: "irq_view t = irq_view s \<Longrightarrow> timers_present t = timers_present s"
  by (simp add: irq_view_def)

lemma drives_write:
  assumes "bl808_timer_write offset v now s = Some t" "offset \<noteq> 0x90" "offset \<noteq> 0x94"
  shows "drives s t"
proof -
  have wicr: "drives s (timer_write_wicr w s)" for w
    by (auto simp: timer_write_wicr_def bl808_timer_wdt_take_unlock_def view_simps intro: update_irq_drives [OF refl] drives_same)
  have upd: "drives s (bl808_timer_update_irq (s\<lparr>tier := a\<rparr>))" "drives s (bl808_timer_update_irq (s\<lparr>wsr := b\<rparr>))"
    "drives s (timer_write_ticr ch w s)" for a b ch w
    by (auto simp: timer_write_ticr_def intro: update_irq_drives [OF refl])
  have same: "drives s s" "drives s (timer_write_wsar w s)" "drives s (s\<lparr>wfar_seen := p, wdt_unlocked := q\<rparr>)" for w p q
    by (auto simp: timer_write_wsar_def view_simps intro: drives_same)
  have tot: "drives s (timer_write_tmr ch i w now s)" "drives s (timer_write_tplvr ch w now s)" "drives s (timer_write_tplcr ch w now s)"
    "drives s (timer_write_tcer w now s)" "drives s (timer_write_tcmr w now s)" "drives s (timer_write_tcdr w now s)" for ch i w
    by (auto simp: view_simps intro: drives_same)
  have part: "drives s t" if "timer_write_tccr w now s = Some t \<or> timer_write_tcdr_force w now s = Some t \<or>
     timer_write_wmer w now s = Some t \<or> timer_write_wmr w now s = Some t \<or> timer_write_wcr w now s = Some t" for w
    using that by (auto dest!: view_partial_writes wd_wmer wd_wmr wd_wcr intro: drives_same)
  show ?thesis
    using assms wicr upd same tot part [of "ucast v"]
    by (auto simp: bl808_timer_write_def Let_def split: if_splits)
qed

lemma event_present: "timers_present (fst (event_compare ch c i p)) = timers_present (fst p)"
  by (simp add: event_compare_def split_beta)

lemma pulse_present: "timers_present (bl808_timer_channel_pulse_irq ch s) = timers_present s"
  by (simp add: bl808_timer_channel_pulse_irq_def)

lemma present_view:
  "timers_present (bl808_timer_channel_commit_now ch c now s) = timers_present s"
  "timers_present (bl808_timer_channel_load_live_config ch s) = timers_present s"
  "timers_present (bl808_timer_channel_clear_compare_state ch s) = timers_present s"
  "timers_present (bl808_timer_channel_mark_passed_compares ch c s) = timers_present s"
  "timers_present (bl808_timer_channel_copy_programmed_divider ch s) = timers_present s"
  "timers_present (bl808_timer_channel_reschedule ch now s) = timers_present s"
  "timers_present (bl808_timer_sync_counters now s) = timers_present s"
  by (rule timers_present_view, rule view_simps)+

lemma drives_event: "drives s (bl808_timer_channel_event ch now s)"
  unfolding bl808_timer_channel_event_def Let_def split_beta
  by (rule update_irq_drives, rule view_reschedule)
    (simp add: pulse_present present_view event_present)

lemma drives_read: "drives s (snd (bl808_timer_read offset now s))"
proof -
  have "irq_view (snd (bl808_timer_tcvwr_read ch now s)) = irq_view s" for ch
    by (simp add: bl808_timer_tcvwr_read_def Let_def views)
  then show ?thesis
    by (auto simp: bl808_timer_read_def split_beta Let_def intro: drives_same)
qed

lemma drives_fire:
  assumes "bl808_timer_wdt_fire now s = Some t"
  shows "drives s t"
proof -
  define u where "u = (if wdt_update_pending s \<and> bl808_timer_wdt_align_enabled s
     then bl808_timer_wdt_apply_programmed else id)
       ((bl808_timer_wdt_commit_now (bl808_timer_wdt_match_value s) now s)\<lparr>wsr := wsr s OR 1\<rparr>)"
  have "irq_view t = irq_view (bl808_timer_update_irq u)"
    using assms by (auto simp: bl808_timer_wdt_fire_def Let_def u_def bl808_timer_wdt_commit_now_def bl808_timer_wdt_align_enabled_def
        irq_view_def split: if_splits dest!: view_wdt_reschedule)
  moreover have "timers_present u = timers_present s"
    by (simp add: u_def bl808_timer_wdt_commit_now_def bl808_timer_wdt_apply_programmed_def)
  ultimately show ?thesis by (rule update_irq_drives)
qed

lemma drives_clock:
  "bl808_timer_set_clock_enabled b now s = Some t \<Longrightarrow> timers_present s \<Longrightarrow> drives s t"
  "bl808_timer_set_clock_inputs x y z now s = Some t \<Longrightarrow> timers_present s \<Longrightarrow> drives s t"
  by (auto simp: bl808_timer_set_clock_enabled_def bl808_timer_set_clock_inputs_def Let_def
      present_view dest!: view_wdt_reschedule timers_present_view intro!: update_irq_drives [OF refl])

fun timer_prompt :: "timer_op \<Rightarrow> bool" where
  "timer_prompt (Timer_write offset value now) \<longleftrightarrow> offset \<noteq> 0x90 \<and> offset \<noteq> 0x94"
| "timer_prompt op \<longleftrightarrow> True"

definition timer_fresh :: "BL808TimerState \<Rightarrow> bool" where
  "timer_fresh s \<longleftrightarrow> (\<exists>z now. s = bl808_timer_reset now (bl808_timer_init z))"

lemma drives_step:
  assumes "timer_step op s = Some t" "timer_prompt op" "timers_present s"
  shows "drives s t"
proof (cases op)
  case (Timer_read offset now)
  then show ?thesis using assms drives_read by auto
next
  case (Timer_write offset v now)
  then show ?thesis using assms drives_write by auto
next
  case (Timer_event ch now)
  then show ?thesis using assms drives_event by auto
next
  case (Timer_wdt_fire now)
  then show ?thesis using assms drives_fire by auto
next
  case (Timer_reset now)
  then show ?thesis using assms
    by (auto simp: bl808_timer_reset_def bl808_timer_reset_hold_def intro!: update_irq_drives [OF refl])
next
  case (Timer_reset_line b now)
  then show ?thesis using assms
    by (auto simp: bl808_timer_set_reset_asserted_def bl808_timer_reset_hold_def Let_def intro!: update_irq_drives [OF refl])
qed (use assms drives_clock in auto)

text \<open>Line \<open>k\<close> of the block; a run that divided by zero has no lines.\<close>

definition timer_line :: "nat \<Rightarrow> BL808TimerState option \<Rightarrow> bool" where
  "timer_line k r \<longleftrightarrow> (case r of None \<Rightarrow> False | Some s \<Rightarrow> timers_present s \<and> irq s ! k)"

definition timer_level :: "nat \<Rightarrow> BL808TimerState option \<Rightarrow> bool" where
  "timer_level k r \<longleftrightarrow> (case r of None \<Rightarrow> False | Some s \<Rightarrow> timers_present s \<and> timer_levels s ! k)"

definition timer_active :: "BL808TimerState option \<Rightarrow> bool" where
  "timer_active r \<longleftrightarrow> (case r of None \<Rightarrow> False | Some s \<Rightarrow> timer_clock_enabled s \<and> \<not> timer_reset_asserted s)"

lemma timer_fresh_exact: "timer_fresh s \<Longrightarrow> timers_present s \<and> irq s = timer_levels s \<and> wd_phase_ok s"
  by (auto simp: timer_fresh_def bl808_timer_reset_def bl808_timer_init_def bl808_timer_reset_hold_def wd_phase_ok_def
      bl808_timer_update_irq_def timer_levels_def bl808_timer_channel_level_irq_pending_def Let_def)

lemma present_step:
  assumes "timer_step op s = Some t" "timer_prompt op" "\<not> timers_present s"
  shows "\<not> timers_present t"
proof (cases op)
  case (Timer_read offset now)
  then show ?thesis using assms drives_read [of s offset now] by (auto simp: drives_def)
next
  case (Timer_write offset v now)
  then show ?thesis using assms drives_write [of offset v now s t] by (auto simp: drives_def)
next
  case (Timer_event ch now)
  then show ?thesis using assms drives_event [of s ch now] by (auto simp: drives_def)
next
  case (Timer_wdt_fire now)
  then show ?thesis using assms drives_fire [of now s t] by (auto simp: drives_def)
next
  case (Timer_reset now)
  then show ?thesis using assms
    by (auto simp: bl808_timer_reset_def bl808_timer_reset_hold_def bl808_timer_update_irq_def Let_def)
qed (use assms in \<open>auto simp: bl808_timer_set_reset_asserted_def bl808_timer_set_clock_enabled_def
    bl808_timer_set_clock_inputs_def\<close>)

lemma timer_step_line:
  assumes "timer_prompt op" "timer_line k r = timer_level k r"
  shows "timer_line k (timer_run_step op r) = timer_level k (timer_run_step op r)"
proof (cases "\<exists>s t. r = Some s \<and> timer_step op s = Some t")
  case True
  then obtain s t where r: "r = Some s" and t: "timer_step op s = Some t" by blast
  show ?thesis
  proof (cases "timers_present s")
    case True
    then show ?thesis
      using drives_step [OF t assms(1)] assms(2) r t
      by (auto simp: drives_def irq_view_def timer_levels_def timer_run_step_def timer_line_def timer_level_def)
  next
    case False
    then show ?thesis
      using present_step [OF t assms(1)] r t by (simp add: timer_run_step_def timer_line_def timer_level_def)
  qed
next
  case False
  then have "timer_run_step op r = None" by (cases r) (auto simp: timer_run_step_def)
  then show ?thesis by (simp add: timer_line_def timer_level_def)
qed

interpretation timer: irq_device timer_run_step timer_prompt "\<lambda>r. \<exists>s. r = Some s \<and> timer_fresh s" "timer_line k" "timer_level k" for k
proof
  show "\<exists>s. r = Some s \<and> timer_fresh s \<Longrightarrow> timer_line k r = timer_level k r" for r
    using timer_fresh_exact by (auto simp: timer_line_def timer_level_def)
qed (rule timer_step_line)

end
