(* ===== verification/Timer_Props.thy ===== *)
theory Timer_Props
  imports Timer_Proofs
begin

text \<open>The properties of the timer block.\<close>

section \<open>Counting\<close>

text \<open>The ceiling division of \<open>bl808_timer_channel_reschedule\<close> hits the tick exactly.\<close>

lemma ceil_div:
  fixes n K R :: nat
  assumes "0 < R" "R \<le> K"
  defines "q \<equiv> (n * K + R - 1) div R"
  shows "q * R div K = n" "D < q \<Longrightarrow> D * R div K < n" "0 < n \<Longrightarrow> 0 < q"
proof -
  have "q * R \<le> n * K + R - 1" unfolding q_def by (simp add: div_times_less_eq_dividend)
  then have up: "q * R < n * K + R" using assms(1) by linarith
  have lo: "n * K \<le> q * R"
  proof -
    have "n * K + R - 1 < Suc q * R" unfolding q_def using assms(1) by (simp add: dividend_less_div_times)
    then show ?thesis using assms(1) by simp
  qed
  have "q * R < Suc n * K" using up assms(2) by simp
  then show "q * R div K = n" using lo by (intro div_nat_eqI) (simp_all add: mult.commute)
  show "D * R div K < n" if "D < q"
  proof -
    have "Suc D * R \<le> q * R" using that by (intro mult_le_mono1) simp
    then have "D * R + R \<le> q * R" by simp
    then have "D * R < n * K" using up by linarith
    then show ?thesis by (simp add: less_mult_imp_div_less)
  qed
  show "0 < q" if "0 < n"
  proof (rule ccontr)
    assume "\<not> 0 < q"
    then show False using lo that assms(1,2) by simp
  qed
qed

lemma channel_now_unat:
  assumes "bl808_timer_channel_enabled s ch" "bl808_timer_source_hz s ch = rate" "rate \<noteq> 0"
    and "channel_base_ns s ! ch = now" "channel_count s ! ch = count"
    and "unat D * unat rate < 2 ^ 64" "unat count + unat D * unat rate div 1000000000 < 2 ^ 32"
  shows "unat (bl808_timer_channel_now s ch (now + D)) = unat count + unat D * unat rate div 1000000000"
proof -
  have m: "unat (D * rate) = unat D * unat rate" using assms(6) by (simp add: unat_mult_lem [symmetric])
  have e: "unat ((D * rate) div 1000000000) = unat D * unat rate div 1000000000"
    using m by (simp add: unat_div_distrib)
  then have c: "unat (ucast ((D * rate) div 1000000000) :: u32) = unat D * unat rate div 1000000000"
    using assms(7) by (simp add: unsigned_ucast_eq take_bit_nat_eq_self)
  have "bl808_timer_channel_now s ch (now + D) = count + ucast ((D * rate) div 1000000000)"
    using assms(1-5) by (simp add: bl808_timer_channel_now_def Let_def)
  then show ?thesis using c assms(7) by (simp add: unat_add_small)
qed

section \<open>The compare loop\<close>

lemma event_compare_fst:
  "tmr_live (fst (event_compare ch c j p)) = tmr_live (fst p)"
  "length (tsr (fst (event_compare ch c j p))) = length (tsr (fst p))"
  "i \<noteq> j \<Longrightarrow> channel_compare_fired (fst (event_compare ch c j p)) ! ch ! i = channel_compare_fired (fst p) ! ch ! i"
  "ch < length (tsr (fst p)) \<Longrightarrow> i < 32 \<Longrightarrow>
     bit (tsr (fst (event_compare ch c j p)) ! ch) i \<longleftrightarrow> bit (tsr (fst p) ! ch) i \<or>
       i = j \<and> \<not> channel_compare_fired (fst p) ! ch ! j \<and> tmr_live (fst p) ! ch ! j = c"
proof -
  show "i \<noteq> j \<Longrightarrow> channel_compare_fired (fst (event_compare ch c j p)) ! ch ! i = channel_compare_fired (fst p) ! ch ! i"
    by (cases "ch < length (channel_compare_fired (fst p))")
      (simp_all add: event_compare_def split_beta list_update_beyond)
qed (auto simp: event_compare_def split_beta bit_simps)

lemma event_tsr_bits:
  assumes "i < 3" "ch < length (tsr s)" "\<not> channel_compare_fired s ! ch ! i" "tmr_live s ! ch ! i = c"
  shows "bit (tsr (fst (fold (event_compare ch c) [0, 1, 2] (s, 0))) ! ch) i"
proof -
  have "i \<in> {0, 1, 2}" using assms(1) by auto
  then show ?thesis using assms(2-) by (auto simp: event_compare_fst)
qed

lemma tsr_view: "irq_view t = irq_view s \<Longrightarrow> tsr t = tsr s"
  by (simp add: irq_view_def)

lemma event_sets_status:
  assumes "i < 3" "ch < length (tsr s)" "\<not> channel_compare_fired s ! ch ! i"
    "tmr_live s ! ch ! i = bl808_timer_channel_now s ch now"
  shows "bit (tsr (bl808_timer_channel_event ch now s) ! ch) i"
proof -
  define p where "p = fold (event_compare ch (bl808_timer_channel_now s ch now)) [0, 1, 2] (s, 0)"
  have pulse: "tsr (bl808_timer_channel_pulse_irq ch u) = tsr u" "tsr (bl808_timer_update_irq u) = tsr u" for u
    by (simp_all add: bl808_timer_channel_pulse_irq_def bl808_timer_update_irq_def Let_def)
  have "tsr (bl808_timer_channel_event ch now s) = tsr (fst p)"
    unfolding bl808_timer_channel_event_def Let_def split_beta p_def [symmetric]
    by (simp add: tsr_view [OF view_reschedule(1)] pulse tsr_view [OF view_commit(1)] tsr_view [OF view_config(1)]
        tsr_view [OF view_config(3)] tsr_view [OF view_config(5)] tsr_view [OF view_config(7)])
  then show ?thesis using event_tsr_bits [OF assms] by (simp only: p_def)
qed

section \<open>Scheduling\<close>

lemma set_channel_timer_keeps:
  "bl808_timer_channel_now (set_channel_timer ch d s) = bl808_timer_channel_now s" "tsr (set_channel_timer ch d s) = tsr s"
  "channel_compare_fired (set_channel_timer ch d s) = channel_compare_fired s" "tmr_live (set_channel_timer ch d s) = tmr_live s"
  by (simp_all add: fun_eq_iff set_channel_timer_def bl808_timer_channel_now_def bl808_timer_source_hz_def
      bl808_timer_clock_base_hz_def bl808_timer_channel_enabled_def Let_def cong: if_cong)

lemma reschedule_deadline:
  fixes s ch now rate count nxt
  defines "rate \<equiv> bl808_timer_source_hz s ch" and "count \<equiv> channel_count s ! ch"
  assumes "bl808_timer_channel_enabled s ch" "0 < rate" "rate \<le> 1000000000" "channel_base_ns s ! ch = now"
    and "reschedule_next s ch count = nxt" "nxt \<noteq> 0xFFFFFFFF" "count < nxt"
  defines "D \<equiv> (ucast (nxt - count) * 1000000000 + rate - 1) div rate"
  shows "bl808_timer_channel_reschedule ch now s = set_channel_timer ch (timer_mod (now + D)) s"
    and "0 < unat D" "unat D \<le> 4294967296000000000"
    and "unat (bl808_timer_channel_now s ch (now + D)) = unat nxt"
    and "unat e < unat D \<Longrightarrow> unat (bl808_timer_channel_now s ch (now + e)) < unat nxt"
proof -
  let ?R = "unat rate" let ?n = "unat nxt - unat count"
  have R: "0 < ?R" "?R \<le> 1000000000" using assms(4,5) by (simp_all add: word_less_unat word_le_unat)
  have n: "0 < ?n" "?n < 4294967296" "unat (nxt - count) = ?n"
    using assms(9) le_less_trans [OF diff_le_self unat32_lt, of nxt "unat count"]
    by (simp_all add: word_less_unat unat_sub less_imp_le word_le_unat)
  have un: "unat (ucast (nxt - count) :: u64) = ?n" using n(3) by (simp add: unat_ucast_up)
  have b: "?n * 1000000000 + 1000000000 < 18446744073709551616" using n(2) by linarith
  have m: "unat (ucast (nxt - count) * 1000000000 :: u64) = ?n * 1000000000"
    using un b by (subst unat_mult_lem [THEN iffD1]) simp_all
  have "unat (ucast (nxt - count) * 1000000000 + rate :: u64) = ?n * 1000000000 + ?R"
    using m R b by (subst unat_add_small) simp_all
  moreover have "(ucast (nxt - count) * 1000000000 + rate :: u64) \<noteq> 0"
    using calculation R(1) by (metis add_gr_0 less_irrefl unat_0)
  ultimately have D: "unat D = (?n * 1000000000 + ?R - 1) div ?R"
    unfolding D_def by (simp add: unat_div_distrib unat_minus_1)
  note cd = ceil_div [OF R, where n = ?n, folded D]
  show D0: "0 < unat D" using cd(3) n(1) by simp
  have le: "unat D * ?R \<le> ?n * 1000000000 + ?R" unfolding D by (meson div_times_less_eq_dividend le_trans diff_le_self)
  have "unat D * 1 \<le> unat D * ?R" using R(1) by (intro mult_le_mono2) simp
  then show "unat D \<le> 4294967296000000000" using le n(2) R(2) by linarith
  have now: "unat (bl808_timer_channel_now s ch (now + e)) = unat count + unat e * ?R div 1000000000"
    if "unat e \<le> unat D" for e
  proof (rule channel_now_unat)
    have "unat e * ?R \<le> unat D * ?R" using that by (rule mult_le_mono1)
    then have "unat e * ?R < 18446744073709551616" using le b R(2) by linarith
    then show "unat e * ?R < 2 ^ 64" by simp
    have "unat e * ?R div 1000000000 \<le> unat D * ?R div 1000000000" using that by (intro div_le_mono mult_le_mono1)
    also have "\<dots> = ?n" using cd(1) .
    finally have "unat count + unat e * ?R div 1000000000 \<le> unat nxt" using n(1) by linarith
    then have "unat count + unat e * ?R div 1000000000 < 4294967296" using unat32_lt [of nxt] by (rule le_less_trans)
    then show "unat count + unat e * ?R div 1000000000 < 2 ^ 32" by simp
  qed (use assms in \<open>simp_all add: rate_def count_def\<close>)
  show "unat (bl808_timer_channel_now s ch (now + D)) = unat nxt"
    using now [OF order_refl] cd(1) n by simp
  show "unat (bl808_timer_channel_now s ch (now + e)) < unat nxt" if "unat e < unat D"
    using now [of e] cd(2) [OF that] n that by simp
  have "bl808_timer_channel_now s ch now = count"
    using now [of 0] by (simp add: unsigned_word_eqI)
  moreover have "max 1 D = D" using D0 by (simp add: max_def word_le_unat)
  ultimately show "bl808_timer_channel_reschedule ch now s = set_channel_timer ch (timer_mod (now + D)) s"
    using assms(3,4,7,8,9) by (simp add: bl808_timer_channel_reschedule_def Let_def rate_def D_def)
qed

section \<open>The next compare event\<close>

text \<open>
  What a running channel waits for: the compare registers that have not fired, whose value the counter has
  not passed and will reach before it is reloaded; the largest value stands for a compare that is off.
\<close>

definition reachable_compare :: "BL808TimerState \<Rightarrow> nat \<Rightarrow> nat \<Rightarrow> bool" where
  "reachable_compare s ch i \<longleftrightarrow> i < 3 \<and> \<not> channel_compare_fired s ! ch ! i \<and>
     channel_count s ! ch \<le> tmr_live s ! ch ! i \<and> tmr_live s ! ch ! i \<noteq> 0xFFFFFFFF \<and>
     (\<forall>m. bl808_timer_channel_reload_match s ch = Some m \<longrightarrow> tmr_live s ! ch ! i \<le> m)"

definition reachable_values :: "BL808TimerState \<Rightarrow> nat \<Rightarrow> u32 set" where
  "reachable_values s ch = (\<lambda>i. tmr_live s ! ch ! i) ` {i. reachable_compare s ch i}"

lemma finite_reachable [simp]: "finite (reachable_values s ch)"
proof -
  have "{i. reachable_compare s ch i} \<subseteq> {..<3}" by (auto simp: reachable_compare_def)
  then show ?thesis unfolding reachable_values_def by (meson finite_imageI finite_lessThan finite_subset)
qed

lemma fold_min_filter:
  fixes P :: "'a \<Rightarrow> bool" and f :: "'a \<Rightarrow> 'b::linorder"
  shows "fold (\<lambda>i m. if P i then min m (f i) else m) xs m = Min (insert m (f ` {i \<in> set xs. P i}))"
proof (induction xs arbitrary: m)
  case (Cons x xs)
  define S where "S = f ` {i \<in> set xs. P i}"
  then have fin: "finite S" by simp
  have "f ` {i \<in> set (x # xs). P i} = (if P x then insert (f x) S else S)" by (auto simp: S_def)
  moreover have "Min (insert (min m a) S) = Min (insert m (insert a S))" for a using fin by (cases "S = {}") (simp_all add: min.assoc)
  ultimately show ?case using Cons.IH [folded S_def] by simp
qed simp

lemma max_word_top: "x \<le> (0xFFFFFFFF :: u32)"
proof -
  have "(0xFFFFFFFF :: u32) = - 1" by simp
  then show ?thesis by (simp only: word_order.extremum)
qed

lemma reschedule_next_min:
  "reschedule_next s ch (channel_count s ! ch) =
     (if reachable_values s ch = {} then 0xFFFFFFFF else Min (reachable_values s ch))"
proof -
  define P where "P i \<longleftrightarrow> \<not> channel_compare_fired s ! ch ! i \<and> channel_count s ! ch \<le> tmr_live s ! ch ! i \<and>
      (\<forall>m. bl808_timer_channel_reload_match s ch = Some m \<longrightarrow> tmr_live s ! ch ! i \<le> m)" for i
  let ?V = "(\<lambda>i. tmr_live s ! ch ! i) ` {i \<in> set [0, 1, 2]. P i}"
  have "reschedule_next s ch (channel_count s ! ch) = fold (\<lambda>i m. if P i then min m (tmr_live s ! ch ! i) else m) [0, 1, 2] 0xFFFFFFFF"
    unfolding reschedule_next_def
    by (intro arg_cong [of _ _ "\<lambda>f. fold f [0, 1, 2] 0xFFFFFFFF"] ext)
      (auto simp: Let_def P_def not_less not_le split: option.split)
  also have "\<dots> = Min (insert 0xFFFFFFFF ?V)" by (rule fold_min_filter)
  also have "insert 0xFFFFFFFF ?V = insert 0xFFFFFFFF (reachable_values s ch)"
    by (auto simp: reachable_values_def reachable_compare_def P_def numeral_3_eq_3 less_Suc_eq)
  also have "Min (insert 0xFFFFFFFF (reachable_values s ch)) =
      (if reachable_values s ch = {} then 0xFFFFFFFF else Min (reachable_values s ch))"
    using min.absorb2 [OF max_word_top] by simp
  finally show ?thesis .
qed

lemma reachable_Min:
  assumes "reachable_values s ch \<noteq> {}"
  obtains i where "reachable_compare s ch i" "tmr_live s ! ch ! i = Min (reachable_values s ch)"
    "channel_count s ! ch \<le> Min (reachable_values s ch)" "Min (reachable_values s ch) \<noteq> 0xFFFFFFFF"
proof -
  have "Min (reachable_values s ch) \<in> reachable_values s ch" using assms by (intro Min_in) simp_all
  then obtain i where i: "reachable_compare s ch i" "Min (reachable_values s ch) = tmr_live s ! ch ! i" unfolding reachable_values_def by auto
  show ?thesis by (rule that [OF i(1) i(2) [symmetric]]) (use i in \<open>auto simp: reachable_compare_def\<close>)
qed

section \<open>Properties\<close>

text \<open>
  C25. A compare event is on time.  When a running channel that counts at no more than one tick
  per nanosecond is rescheduled at the instant its count was taken, its timer is armed exactly if some compare value
  is reachable: at the next nanosecond if the counter stands on one, and otherwise at the first nanosecond at which
  the counter equals the least of them.  Until then the counter is on none of them, and
  the event at the deadline sets the status bit of every compare register with the least value.
\<close>

theorem timer_compare_on_time:
  assumes "bl808_timer_channel_enabled s ch" and "ch < length (tsr s)" and "ch < length (channel_timer s)"
    and "0 < bl808_timer_source_hz s ch" and "bl808_timer_source_hz s ch \<le> 1000000000"
    and "channel_base_ns s ! ch = now" and "unat now < 2 ^ 62"
    and t: "t = bl808_timer_channel_reschedule ch now s"
  shows "(reachable_values s ch = {} \<longrightarrow> channel_timer t ! ch = None) \<and>
    (channel_count s ! ch \<in> reachable_values s ch \<longrightarrow> channel_timer t ! ch = Some (int (unat now) + 1)) \<and>
    (reachable_values s ch \<noteq> {} \<and> channel_count s ! ch \<notin> reachable_values s ch \<longrightarrow>
      (\<exists>d. channel_timer t ! ch = Some (int (unat d)) \<and> now < d \<and> bl808_timer_channel_now t ch d = Min (reachable_values s ch) \<and>
        (\<forall>e. now \<le> e \<and> e < d \<longrightarrow> bl808_timer_channel_now t ch e < Min (reachable_values s ch)) \<and>
        (\<forall>i. reachable_compare s ch i \<and> tmr_live s ! ch ! i = Min (reachable_values s ch) \<longrightarrow>
          bit (tsr (bl808_timer_channel_event ch d t) ! ch) i)))"
proof -
  let ?c = "channel_count s ! ch" and ?V = "reachable_values s ch" and ?rate = "bl808_timer_source_hz s ch"
  define nxt where "nxt = Min ?V"
  have here: "bl808_timer_channel_now s ch now = ?c"
    using assms(1,4,6) by (simp add: bl808_timer_channel_now_def Let_def)
  have one: "sint (now + 1) = int (unat now) + 1"
    using assms(7) by (subst sint_deadline) (simp_all add: unat_add_small)
  have unreach: "channel_timer t ! ch = None" if "?V = {}"
    using that assms(1,3,4) here by (simp add: t bl808_timer_channel_reschedule_def reschedule_next_min Let_def set_channel_timer_def)
  have at_once: "channel_timer t ! ch = Some (int (unat now) + 1)" if "?c \<in> ?V"
  proof -
    from that have V: "?V \<noteq> {}" "Min ?V \<le> ?c" by auto
    from V(1) have "Min ?V \<noteq> 0xFFFFFFFF" by (rule reachable_Min)
    then show ?thesis using V assms(1,3,4) here one
      by (simp add: t bl808_timer_channel_reschedule_def reschedule_next_min Let_def set_channel_timer_def timer_mod_def)
  qed
  have later: "\<exists>d. channel_timer t ! ch = Some (int (unat d)) \<and> now < d \<and> bl808_timer_channel_now t ch d = nxt \<and>
      (\<forall>e. now \<le> e \<and> e < d \<longrightarrow> bl808_timer_channel_now t ch e < nxt) \<and>
      (\<forall>i. reachable_compare s ch i \<and> tmr_live s ! ch ! i = nxt \<longrightarrow> bit (tsr (bl808_timer_channel_event ch d t) ! ch) i)"
    if V: "?V \<noteq> {}" "?c \<notin> ?V"
  proof -
    have "nxt \<in> ?V" unfolding nxt_def using V(1) by (intro Min_in) simp_all
    moreover have "?c \<le> nxt" "nxt \<noteq> 0xFFFFFFFF" unfolding nxt_def using reachable_Min [OF V(1)] by metis+
    ultimately have n: "nxt \<noteq> 0xFFFFFFFF" "?c < nxt" using V(2) by (auto simp: less_le)
    have eq: "reschedule_next s ch ?c = nxt" unfolding nxt_def using V(1) by (simp add: reschedule_next_min)
    define D where "D = (ucast (nxt - ?c) * 1000000000 + ?rate - 1) div ?rate"
    note r = reschedule_deadline [OF assms(1,4,5,6) eq n, folded D_def]
    let ?d = "now + D"
    have u: "t = set_channel_timer ch (timer_mod ?d) s" unfolding t by (rule r(1))
    have lim: "unat now + unat D < 9223372036854775808" using r(3) assms(7) by simp
    then have d: "unat ?d = unat now + unat D" by (subst unat_add_small) simp_all
    have at: "bl808_timer_channel_now t ch ?d = nxt"
      using r(4) by (simp add: u set_channel_timer_keeps unsigned_word_eqI)
    have before: "bl808_timer_channel_now t ch e < nxt" if "now \<le> e" "e < ?d" for e
    proof -
      have "unat (e - now) < unat D" using that d by (simp add: word_le_unat word_less_unat unat_sub)
      from r(5) [OF this] show ?thesis by (simp add: u set_channel_timer_keeps word_less_unat)
    qed
    have fires: "bit (tsr (bl808_timer_channel_event ch ?d t) ! ch) i"
      if "reachable_compare s ch i" "tmr_live s ! ch ! i = nxt" for i
      using that assms(2) at by (intro event_sets_status) (simp_all add: u set_channel_timer_keeps reachable_compare_def)
    have "channel_timer t ! ch = Some (int (unat ?d))"
      using assms(3) lim d by (simp add: u set_channel_timer_def sint_deadline timer_mod_def)
    moreover have "now < ?d" using d r(2) by (simp add: word_less_unat)
    ultimately show ?thesis using at before fires by (intro exI [of _ ?d]) auto
  qed
  show ?thesis using unreach at_once later unfolding nxt_def by blast
qed

text \<open>A channel at 80 MHz (12.5 ns a tick), started at 1000 ns, with its first compare at 100.\<close>

definition timer_example :: BL808TimerState where
  "timer_example = bl808_timer_reset 1000 (bl808_timer_init \<lparr>
     irq = [False, False, False], pulses = [0, 0], channel_timer = [], wdt_timer = None, timers_present = False,
     reset_requested = False, tccr = 0, tmr = [], tcr = [], tsr = [], tier = [], tplvr = [], tplcr = [], tilr = [], tcer = 0,
     tcmr = 0, tcdr = 0, wmer = 0, wmr = 0, wsr = 0, wcr = 0, tcdr_force = 0, bclk_hz = 0, xtal_hz = 0,
     f32k_hz = 0, tmr_live = [], tplvr_live = [], tplcr_live = [], tcdr_live = 0, wmr_live = 0, tcvwr = [],
     channel_count = [], channel_base_ns = [], channel_compare_fired = [], channel_update_pending = [],
     tcvwr_read_mask = 0, wdt_count = 0, wdt_base_ns = 0, wfar_seen = False, wdt_unlocked = False,
     wdt_update_pending = False, timer_clock_enabled = False, timer_reset_asserted = False\<rparr>)"

lemma timer_example_fresh: "timer_fresh timer_example"
  by (auto simp: timer_fresh_def timer_example_def)

definition timer_running :: BL808TimerState where
  "timer_running = timer_example\<lparr>tccr := 0, tcer := 2, tmr_live := [[100, 0xFFFFFFFF, 0xFFFFFFFF], [0, 0, 0]]\<rparr>"

lemma timer_running_fields:
  "bl808_timer_channel_enabled timer_running 0" "bl808_timer_source_hz timer_running 0 = 80000000"
  "tsr timer_running = [0, 0]" "channel_timer timer_running = [None, None]" "channel_base_ns timer_running = [1000, 1000]"
  "channel_count timer_running = [0, 0]" "bl808_timer_channel_reload_match timer_running 0 = None"
  "channel_compare_fired timer_running = [[False, False, False], [False, False, False]]"
  by code_simp+

lemma timer_running_reachable: "reachable_values timer_running 0 = {100}"
proof -
  have "{i. reachable_compare timer_running 0 i} = {0}"
    using timer_running_fields
    by (auto simp: reachable_compare_def numeral_3_eq_3 less_Suc_eq) (auto simp: timer_running_def)
  then show ?thesis by (simp add: reachable_values_def timer_running_def)
qed

theorem timer_compare_on_time_witness:
  "\<exists>d. channel_timer (bl808_timer_channel_reschedule 0 1000 timer_running) ! 0 = Some (int (unat d)) \<and>
     bl808_timer_channel_now (bl808_timer_channel_reschedule 0 1000 timer_running) 0 d = 100"
  using timer_compare_on_time [of timer_running 0 1000] timer_running_fields timer_running_reachable by auto

text \<open>
  C24. The watchdog's lock.  Along any sequence of register writes that completes, the enable,
  match and count-reset registers of the watchdog change exactly as the two-key protocol
  allows: a write takes effect only in the unlocked phase, which the keys 0xBABA and 0xEB10,
  written in this order to the two access registers, open for a single protected write.
\<close>

theorem timer_watchdog_lock:
  assumes "timer_fresh s"
    and "fold timer_run_step (map (\<lambda>(offset, v, now). Timer_write offset v now) ws) (Some s) = Some t"
  shows "wd_abs s = (Locked, 0, 0xFFFF, 0) \<and> wd_abs t = fold (\<lambda>(offset, v, now). wd_spec offset (ucast v)) ws (wd_abs s)"
proof -
  have none: "fold timer_run_step ops None = None" for ops
    by (induction ops) (simp_all add: timer_run_step_def)
  have st: "timer_run_step (Timer_write offset v now) (Some s) = bl808_timer_write offset v now s" for offset v now s
    by (simp add: timer_run_step_def)
  have "wd_abs t = fold (\<lambda>(offset, v, now). wd_spec offset (ucast v)) ws (wd_abs s)"
    if "wd_phase_ok s" "fold timer_run_step (map (\<lambda>(offset, v, now). Timer_write offset v now) ws) (Some s) = Some t" for s
    using that
  proof (induction ws arbitrary: s)
    case (Cons w ws)
    obtain offset v now where w: "w = (offset, v, now)" by (cases w) auto
    obtain u where u: "bl808_timer_write offset v now s = Some u"
      using Cons.prems(2) none w by (cases "bl808_timer_write offset v now s") (auto simp: st)
    then show ?case
      using Cons.IH [of u] Cons.prems wd_write_refines [OF u] w by (simp add: st)
  qed simp
  moreover have "wd_phase_ok s" using timer_fresh_exact [OF assms(1)] by blast
  moreover have "wd_abs s = (Locked, 0, 0xFFFF, 0)"
    using assms(1) by (auto simp: timer_fresh_def bl808_timer_reset_def bl808_timer_reset_hold_def bl808_timer_update_irq_def Let_def wd_abs_def)
  ultimately show ?thesis using assms(2) by blast
qed

text \<open>The keys, then two writes of the match register: only the first is accepted.\<close>

theorem timer_watchdog_lock_witness:
  "\<exists>t. fold timer_run_step (map (\<lambda>(offset, v, now). Timer_write offset v now)
       [(0x68, 5, 1000), (0x9C, 0xBABA, 1000), (0xA0, 0xEB10, 1000), (0x68, 7, 1000), (0x68, 9, 1000)]) (Some timer_example) = Some t \<and>
     wd_abs t = (Locked, 0, 7, 0)"
proof -
  let ?ws = "[(0x68, 5, 1000), (0x9C, 0xBABA, 1000), (0xA0, 0xEB10, 1000), (0x68, 7, 1000), (0x68, 9, 1000)]
    :: (hwaddr \<times> u64 \<times> u64) list"
  have "fold timer_run_step (map (\<lambda>(offset, v, now). Timer_write offset v now) ?ws) (Some timer_example) \<noteq> None"
    by code_simp
  then obtain t where t: "fold timer_run_step (map (\<lambda>(offset, v, now). Timer_write offset v now) ?ws) (Some timer_example) = Some t" by blast
  then show ?thesis
    using timer_watchdog_lock [OF timer_example_fresh t] by (intro exI [of _ t]) simp
qed

text \<open>
  The three interrupt lines are exact: after any sequence of operations that does not write
  the two interrupt-mode registers, a run that has not divided by zero shows on every line the
  level its status, enable and mode registers call for.
\<close>

theorem timer_irq_exact:
  assumes "timer_fresh s" and "\<forall>op \<in> set ops. timer_prompt op"
    and "fold timer_run_step ops (Some s) = Some t" and "timers_present t" and "k < 3"
  shows "irq t ! k = timer_levels t ! k"
  using timer.run_line [of "Some s" ops k] assms by (simp add: timer_line_def timer_level_def)

theorem timer_irq_exact_witness:
  "\<exists>t. fold timer_run_step [Timer_write 0x44 1 1000] (Some timer_example) = Some t \<and> irq t ! 0 = timer_levels t ! 0"
proof -
  let ?t = "bl808_timer_update_irq (timer_example\<lparr>tier := (tier timer_example)[0 := 1]\<rparr>)"
  have t: "fold timer_run_step [Timer_write 0x44 1 1000] (Some timer_example) = Some ?t"
    by (simp add: timer_run_step_def bl808_timer_write_def)
  have "timers_present ?t"
    using timer_fresh_exact [OF timer_example_fresh] by (simp add: bl808_timer_update_irq_def Let_def)
  then show ?thesis using timer_irq_exact [OF timer_example_fresh _ t] t by auto
qed

text \<open>A write of the interrupt mode is the exception: here a line stays high that should be low.\<close>

lemma timer_tilr_stale:
  "let s = bl808_timer_update_irq (timer_running\<lparr>tsr := [1, 0], tier := [1, 0]\<rparr>) in
   irq s ! 0 \<and> (case bl808_timer_write 0x90 7 1000 s of None \<Rightarrow> False | Some t \<Rightarrow> irq t ! 0 \<and> \<not> timer_levels t ! 0)"
  by code_simp

text \<open>
  An event that runs late is lost.  The event compares for equality: if it runs when the
  counter is already past every compare value of the channel, no status bit is set, and the
  timer is not armed again, so the interrupt of the missed compare never comes.
\<close>

theorem timer_late_event_lost:
  assumes "ch < length (channel_count s)" and "ch < length (channel_base_ns s)" and "ch < length (channel_timer s)"
    and "\<forall>i < 3. tmr_live s ! ch ! i < bl808_timer_channel_now s ch now"
  shows "tsr (bl808_timer_channel_event ch now s) = tsr s \<and> channel_timer (bl808_timer_channel_event ch now s) ! ch = None"
proof -
  let ?c = "bl808_timer_channel_now s ch now"
  let ?u = "bl808_timer_channel_commit_now ch ?c now s"
  have lt: "tmr_live s ! ch ! 0 < ?c" "tmr_live s ! ch ! 1 < ?c" "tmr_live s ! ch ! 2 < ?c" using assms(4) by simp_all
  then have cmp: "fold (event_compare ch ?c) [0, 1, 2] (s, 0) = (s, 0)" by (auto simp: event_compare_def)
  have "bl808_timer_channel_reload_match s ch \<noteq> Some ?c"
  proof
    assume m: "bl808_timer_channel_reload_match s ch = Some ?c"
    define cr where "cr = tplcr_live s ! ch AND 3"
    have "unat cr < 4" using unat_and_mask [of "tplcr_live s ! ch" 2] by (simp add: cr_def mask_numeral)
    then have "unat cr - 1 < 3" by simp
    moreover have "tmr_live s ! ch ! (unat cr - 1) = ?c"
      using m by (simp add: bl808_timer_channel_reload_match_def Let_def cr_def split: if_splits)
    ultimately show False using assms(4) by (metis less_irrefl)
  qed
  then have ev: "bl808_timer_channel_event ch now s = bl808_timer_channel_reschedule ch now (bl808_timer_update_irq ?u)"
    unfolding bl808_timer_channel_event_def Let_def cmp by simp
  let ?v = "bl808_timer_update_irq ?u"
  have "channel_count ?v ! ch = ?c" "channel_base_ns ?v ! ch = now"
    using assms(1,2) by (simp_all add: bl808_timer_channel_commit_now_def bl808_timer_update_irq_def Let_def)
  then have "bl808_timer_channel_now ?v ch now = ?c"
    by (simp add: bl808_timer_channel_now_def [of ?v] Let_def)
  moreover have "tmr_live ?v = tmr_live s" "channel_timer ?v = channel_timer s"
    by (simp_all add: bl808_timer_channel_commit_now_def bl808_timer_update_irq_def Let_def)
  moreover have "reschedule_next ?v ch ?c = 0xFFFFFFFF"
    using lt calculation(2) by (simp add: reschedule_next_def Let_def)
  ultimately have "channel_timer (bl808_timer_channel_reschedule ch now ?v) ! ch = None"
    using assms(3) by (simp add: bl808_timer_channel_reschedule_def set_channel_timer_def Let_def)
  moreover have "tsr (bl808_timer_channel_reschedule ch now ?v) = tsr s"
    by (simp add: tsr_view [OF view_reschedule(1)]) (simp add: bl808_timer_channel_commit_now_def bl808_timer_update_irq_def Let_def)
  ultimately show ?thesis by (simp add: ev)
qed

text \<open>The compare at 100 of the running channel is due at 2250 ns; an event 13 ns late loses it.\<close>

theorem timer_late_event_lost_witness:
  "let s = timer_running\<lparr>tmr_live := [[100, 100, 100], [0, 0, 0]]\<rparr> in
   bl808_timer_channel_now s 0 2250 = 100 \<and> tsr (bl808_timer_channel_event 0 2250 s) ! 0 = 7 \<and>
   tsr (bl808_timer_channel_event 0 2263 s) = tsr s \<and> channel_timer (bl808_timer_channel_event 0 2263 s) ! 0 = None"
proof -
  let ?s = "timer_running\<lparr>tmr_live := [[100, 100, 100], [0, 0, 0]]\<rparr>"
  have v: "bl808_timer_channel_now ?s 0 2250 = 100" "tsr (bl808_timer_channel_event 0 2250 ?s) ! 0 = 7"
    "bl808_timer_channel_now ?s 0 2263 = 101" by code_simp+
  have "\<forall>i < 3. tmr_live ?s ! 0 ! i < bl808_timer_channel_now ?s 0 2263"
    unfolding v(3) by (simp add: numeral_3_eq_3 less_Suc_eq)
  then show ?thesis using timer_late_event_lost [of 0 ?s 2263] timer_running_fields v(1,2) by (simp add: Let_def)
qed

text \<open>
  Enabling the watchdog with a clock source that the block maps to no clock divides by zero:
  from reset, selecting source 5, the two keys and the enable bit reach the division in
  \<open>bl808_timer_wdt_reschedule\<close>, which unlike the channels' has no test for a zero rate.
\<close>

theorem timer_watchdog_divides_by_zero:
  "fold timer_run_step
     [Timer_write 0x00 0x500 1000, Timer_write 0x9C 0xBABA 1000, Timer_write 0xA0 0xEB10 1000, Timer_write 0x64 1 1000]
     (Some timer_example) = None"
  by code_simp

end
