(* ===== verification/Dma.thy ===== *)
theory Dma
  imports Device
begin

text \<open>
  The DMA controller, \<open>src/qemu-machine/hw/dma/bl808_dma.c\<close>: eight channels with linked lists of
  transfers, peripherals attached to 32 request lines, and a bottom half that moves a bounded
  number of data per run and reschedules itself.

  Guest memory is a function from 64-bit addresses to bytes.  The peripherals are one state of
  type \<open>'e\<close>; the operations a peripheral registers (\<open>BL808DMARequestOps\<close>, with their \<open>opaque\<close>
  pointer) are functions on it, any of which may be a null pointer.
\<close>

section \<open>State\<close>

record 'e BL808DMARequestOps =
  can_read :: "('e \<Rightarrow> nat \<Rightarrow> bool) option"
  can_write :: "('e \<Rightarrow> nat \<Rightarrow> bool) option"
  req_read :: "(nat \<Rightarrow> 'e \<Rightarrow> u32 \<times> 'e) option"
  req_write :: "(u32 \<Rightarrow> nat \<Rightarrow> 'e \<Rightarrow> 'e) option"

record BL808DMAChannel =
  src_addr :: u32
  dst_addr :: u32
  lli :: u32
  control :: u32
  config :: u32
  active :: bool

record 'e BL808DMAState =
  dma_irq :: bool
  ch_irq :: "bool list"
  poll_timer :: "int option"
  channels :: "BL808DMAChannel list"
  requests :: "'e BL808DMARequestOps option list"
  raw_tc_status :: u32
  raw_err_status :: u32
  soft_breq :: u32
  soft_sreq :: u32
  soft_lbreq :: u32
  soft_lsreq :: u32
  top_config :: u32
  sync :: u32
  dma_channel_count :: u8
  supports_doubleword_width :: bool
  dma_clock_enabled :: bool
  dma_reset_asserted :: bool
  run_scheduled :: bool

abbreviation (input) DMA_CTRL_XFER_MASK :: u32 where "DMA_CTRL_XFER_MASK \<equiv> 0xFFF"
abbreviation (input) DMA_CTRL_SRC_INC :: u32 where "DMA_CTRL_SRC_INC \<equiv> 0x4000000"
abbreviation (input) DMA_CTRL_DST_INC :: u32 where "DMA_CTRL_DST_INC \<equiv> 0x8000000"
abbreviation (input) DMA_CTRL_TC_IRQ_EN :: u32 where "DMA_CTRL_TC_IRQ_EN \<equiv> 0x80000000"
abbreviation (input) DMA_CFG_ENABLE :: u32 where "DMA_CFG_ENABLE \<equiv> 1"
abbreviation (input) DMA_CFG_ERR_IRQ_EN :: u32 where "DMA_CFG_ERR_IRQ_EN \<equiv> 0x4000"
abbreviation (input) DMA_CFG_TC_IRQ_EN :: u32 where "DMA_CFG_TC_IRQ_EN \<equiv> 0x8000"
abbreviation (input) DMA_CFG_ACTIVE :: u32 where "DMA_CFG_ACTIVE \<equiv> 0x20000"
abbreviation (input) DMA_CFG_HALT :: u32 where "DMA_CFG_HALT \<equiv> 0x40000"

section \<open>Decoding\<close>

definition bl808_dma_channel_count :: "'e BL808DMAState \<Rightarrow> nat" where
  "bl808_dma_channel_count s = min (max (unat (dma_channel_count s)) 1) 8"

definition bl808_dma_width_bytes :: "'e BL808DMAState \<Rightarrow> u32 \<Rightarrow> bool \<Rightarrow> nat" where
  "bl808_dma_width_bytes s ctl dst =
     (let width = drop_bit (if dst then 21 else 18) ctl AND 3 in
      if width = 0 then 1 else if width = 1 then 2 else if width = 2 then 4
      else if supports_doubleword_width s then 8 else 0)"

definition bl808_dma_burst_len :: "u32 \<Rightarrow> bool \<Rightarrow> nat" where
  "bl808_dma_burst_len ctl dst =
     (let burst = drop_bit (if dst then 15 else 12) ctl AND 3 in
      if burst = 0 then 1 else if burst = 1 then 4 else if burst = 2 then 8 else 16)"

definition bl808_dma_src_request :: "u32 \<Rightarrow> nat" where
  "bl808_dma_src_request cfg = unat (drop_bit 1 cfg AND 0x1F)"

definition bl808_dma_dst_request :: "u32 \<Rightarrow> nat" where
  "bl808_dma_dst_request cfg = unat (drop_bit 6 cfg AND 0x1F)"

definition bl808_dma_flow :: "u32 \<Rightarrow> nat" where
  "bl808_dma_flow cfg = unat (drop_bit 11 (cfg AND 0x3800))"

definition channel_mask :: "'e BL808DMAState \<Rightarrow> (BL808DMAChannel \<Rightarrow> bool) \<Rightarrow> u32" where
  "channel_mask s p =
     fold (\<lambda>i m. if p (channels s ! i) then m OR push_bit i 1 else m) [0..<bl808_dma_channel_count s] 0"

definition bl808_dma_tc_mask :: "'e BL808DMAState \<Rightarrow> u32" where
  "bl808_dma_tc_mask s = channel_mask s (\<lambda>ch. tst (config ch) DMA_CFG_TC_IRQ_EN \<and> tst (control ch) DMA_CTRL_TC_IRQ_EN)"

definition bl808_dma_err_mask :: "'e BL808DMAState \<Rightarrow> u32" where
  "bl808_dma_err_mask s = channel_mask s (\<lambda>ch. tst (config ch) DMA_CFG_ERR_IRQ_EN)"

definition bl808_dma_visible_tc_status :: "'e BL808DMAState \<Rightarrow> u32" where
  "bl808_dma_visible_tc_status s = raw_tc_status s AND bl808_dma_tc_mask s"

definition bl808_dma_visible_err_status :: "'e BL808DMAState \<Rightarrow> u32" where
  "bl808_dma_visible_err_status s = raw_err_status s AND bl808_dma_err_mask s"

definition bl808_dma_update_irq :: "'e BL808DMAState \<Rightarrow> 'e BL808DMAState" where
  "bl808_dma_update_irq s =
     (let pending = bl808_dma_visible_tc_status s OR bl808_dma_visible_err_status s;
          n = bl808_dma_channel_count s;
          on = dma_clock_enabled s \<and> \<not> dma_reset_asserted s
      in s\<lparr>dma_irq := on \<and> pending \<noteq> 0,
           ch_irq := map (\<lambda>i. i < n \<and> on \<and> tst pending (push_bit i 1)) [0..<8]\<rparr>)"

section \<open>Scheduling\<close>

definition bl808_dma_has_active_channels :: "'e BL808DMAState \<Rightarrow> bool" where
  "bl808_dma_has_active_channels s \<longleftrightarrow> (\<exists>i \<in> set [0..<bl808_dma_channel_count s]. active (channels s ! i))"

definition bl808_dma_can_run :: "'e BL808DMAState \<Rightarrow> bool" where
  "bl808_dma_can_run s \<longleftrightarrow> dma_clock_enabled s \<and> \<not> dma_reset_asserted s \<and> tst (top_config s) 1"

definition bl808_dma_cancel_work :: "'e BL808DMAState \<Rightarrow> 'e BL808DMAState" where
  "bl808_dma_cancel_work s = s\<lparr>poll_timer := None, run_scheduled := False\<rparr>"

definition bl808_dma_schedule :: "'e BL808DMAState \<Rightarrow> 'e BL808DMAState" where
  "bl808_dma_schedule s =
     (if \<not> bl808_dma_can_run s \<or> \<not> bl808_dma_has_active_channels s \<or> run_scheduled s then s
      else s\<lparr>run_scheduled := True\<rparr>)"

definition bl808_dma_reschedule_poll :: "u64 \<Rightarrow> 'e BL808DMAState \<Rightarrow> 'e BL808DMAState" where
  "bl808_dma_reschedule_poll now_ns s =
     (if \<not> bl808_dma_can_run s \<or> \<not> bl808_dma_has_active_channels s then s
      else s\<lparr>poll_timer := timer_mod (now_ns + 1)\<rparr>)"

definition bl808_dma_enabled_channels :: "'e BL808DMAState \<Rightarrow> u32" where
  "bl808_dma_enabled_channels s = channel_mask s (\<lambda>ch. tst (config ch) DMA_CFG_ENABLE)"

section \<open>Moving data\<close>

text \<open>\<open>cpu_physical_memory_read\<close> and \<open>cpu_physical_memory_write\<close> of a little-endian value.\<close>

primrec load_le :: "nat \<Rightarrow> gmem \<Rightarrow> hwaddr \<Rightarrow> u64" where
  "load_le 0 m a = 0"
| "load_le (Suc k) m a = ucast (m a) OR push_bit 8 (load_le k m (a + 1))"

primrec store_le :: "nat \<Rightarrow> hwaddr \<Rightarrow> u64 \<Rightarrow> gmem \<Rightarrow> gmem" where
  "store_le 0 a v m = m"
| "store_le (Suc k) a v m = store_le k (a + 1) (drop_bit 8 v) (m(a := ucast v))"

definition bl808_dma_read_mem_value :: "gmem \<Rightarrow> hwaddr \<Rightarrow> nat \<Rightarrow> u64" where
  "bl808_dma_read_mem_value m addr width_bytes =
     (if width_bytes \<in> {1, 2, 4, 8} then load_le width_bytes m addr else 0)"

definition bl808_dma_write_mem_value :: "hwaddr \<Rightarrow> u64 \<Rightarrow> nat \<Rightarrow> gmem \<Rightarrow> gmem" where
  "bl808_dma_write_mem_value addr value width_bytes m =
     (if width_bytes \<in> {1, 2, 4, 8} then store_le width_bytes addr value m else m)"

definition bl808_dma_load_lli :: "gmem \<Rightarrow> BL808DMAChannel \<Rightarrow> BL808DMAChannel option" where
  "bl808_dma_load_lli m ch =
     (if lli ch = 0 then None
      else Some (ch\<lparr>src_addr := ucast (load_le 4 m (ucast (lli ch))),
                    dst_addr := ucast (load_le 4 m (ucast (lli ch + 4))),
                    lli := ucast (load_le 4 m (ucast (lli ch + 8))),
                    control := ucast (load_le 4 m (ucast (lli ch + 12)))\<rparr>))"

definition set_channel :: "nat \<Rightarrow> BL808DMAChannel \<Rightarrow> 'e BL808DMAState \<Rightarrow> 'e BL808DMAState" where
  "set_channel chno ch s = s\<lparr>channels := (channels s)[chno := ch]\<rparr>"

definition bl808_dma_complete_channel :: "nat \<Rightarrow> 'e BL808DMAState \<Rightarrow> 'e BL808DMAState" where
  "bl808_dma_complete_channel chno s =
     (let ch = channels s ! chno;
          ch = ch\<lparr>active := False, config := config ch AND NOT (DMA_CFG_ENABLE OR DMA_CFG_HALT),
                  control := control ch AND NOT DMA_CTRL_XFER_MASK\<rparr>;
          s = set_channel chno ch s
      in if tst (control ch) DMA_CTRL_TC_IRQ_EN then s\<lparr>raw_tc_status := raw_tc_status s OR push_bit chno 1\<rparr> else s)"

definition bl808_dma_error_channel :: "nat \<Rightarrow> 'e BL808DMAState \<Rightarrow> 'e BL808DMAState" where
  "bl808_dma_error_channel chno s =
     (let ch = channels s ! chno;
          s = set_channel chno (ch\<lparr>active := False, config := config ch AND NOT (DMA_CFG_ENABLE OR DMA_CFG_HALT)\<rparr>) s
      in s\<lparr>raw_err_status := raw_err_status s OR push_bit chno 1\<rparr>)"

definition bl808_dma_request_can_read :: "'e BL808DMAState \<Rightarrow> 'e \<Rightarrow> nat \<Rightarrow> nat \<Rightarrow> bool" where
  "bl808_dma_request_can_read s e req_id width_bytes =
     (if req_id \<ge> 32 then False
      else case requests s ! req_id of None \<Rightarrow> False
        | Some ops \<Rightarrow> (case can_read ops of None \<Rightarrow> False | Some f \<Rightarrow> f e width_bytes))"

definition bl808_dma_request_can_write :: "'e BL808DMAState \<Rightarrow> 'e \<Rightarrow> nat \<Rightarrow> nat \<Rightarrow> bool" where
  "bl808_dma_request_can_write s e req_id width_bytes =
     (if req_id \<ge> 32 then False
      else case requests s ! req_id of None \<Rightarrow> False
        | Some ops \<Rightarrow> (case can_write ops of None \<Rightarrow> False | Some f \<Rightarrow> f e width_bytes))"

text \<open>Calls through the two pointers; the callers have tested \<open>can_read\<close> or \<open>can_write\<close> before.\<close>

definition bl808_dma_request_read :: "'e BL808DMAState \<Rightarrow> nat \<Rightarrow> nat \<Rightarrow> 'e \<Rightarrow> u32 \<times> 'e" where
  "bl808_dma_request_read s req_id width_bytes e = the (req_read (the (requests s ! req_id))) width_bytes e"

definition bl808_dma_request_write :: "'e BL808DMAState \<Rightarrow> nat \<Rightarrow> u32 \<Rightarrow> nat \<Rightarrow> 'e \<Rightarrow> 'e" where
  "bl808_dma_request_write s req_id value width_bytes e = the (req_write (the (requests s ! req_id))) value width_bytes e"

text \<open>
  One round of the loop of \<open>bl808_dma_step_channel\<close>: the two switches.  \<open>Blocked\<close> is
  \<open>goto out\<close>, after which the world has the effects of what was already done.
\<close>

datatype xfer = Moved | Blocked | Unsupported

definition dma_fetch :: "'e BL808DMAState \<Rightarrow> BL808DMAChannel \<Rightarrow> gmem \<times> 'e \<Rightarrow> xfer \<times> u64 \<times> gmem \<times> 'e" where
  "dma_fetch s ch w =
     (let flow = bl808_dma_flow (config ch); width = bl808_dma_width_bytes s (control ch) False;
          req = bl808_dma_src_request (config ch); (m, e) = w
      in if flow \<in> {0, 1, 5} then (Moved, bl808_dma_read_mem_value m (ucast (src_addr ch)) width, m, e)
         else if flow \<in> {2, 6, 3, 4, 7} then
           if \<not> bl808_dma_request_can_read s e req width then (Blocked, 0, m, e)
           else let (v, e) = bl808_dma_request_read s req width e in (Moved, ucast v, m, e)
         else (Unsupported, 0, m, e))"

definition dma_put :: "'e BL808DMAState \<Rightarrow> BL808DMAChannel \<Rightarrow> u64 \<Rightarrow> gmem \<times> 'e \<Rightarrow> xfer \<times> gmem \<times> 'e" where
  "dma_put s ch value w =
     (let flow = bl808_dma_flow (config ch); width = bl808_dma_width_bytes s (control ch) True;
          req = bl808_dma_dst_request (config ch); (m, e) = w
      in if flow \<in> {0, 2, 6} then (Moved, bl808_dma_write_mem_value (ucast (dst_addr ch)) value width m, e)
         else if flow \<in> {1, 5, 3, 4, 7} then
           if \<not> bl808_dma_request_can_write s e req width then (Blocked, m, e)
           else (Moved, m, bl808_dma_request_write s req (ucast value) width e)
         else (Unsupported, m, e))"

definition dma_advance :: "'e BL808DMAState \<Rightarrow> BL808DMAChannel \<Rightarrow> BL808DMAChannel" where
  "dma_advance s ch =
     (let sw = of_nat (bl808_dma_width_bytes s (control ch) False); dw = of_nat (bl808_dma_width_bytes s (control ch) True);
          remaining = (control ch AND DMA_CTRL_XFER_MASK) - 1
      in ch\<lparr>src_addr := (if tst (control ch) DMA_CTRL_SRC_INC then src_addr ch + sw else src_addr ch),
            dst_addr := (if tst (control ch) DMA_CTRL_DST_INC then dst_addr ch + dw else dst_addr ch),
            control := (control ch AND NOT DMA_CTRL_XFER_MASK) OR remaining\<rparr>)"

text \<open>The loop: the channel, the world, whether progress was made, whether the flow is unsupported.\<close>

fun dma_loop :: "'e BL808DMAState \<Rightarrow> nat \<Rightarrow> BL808DMAChannel \<Rightarrow> gmem \<times> 'e \<Rightarrow> bool \<Rightarrow> BL808DMAChannel \<times> (gmem \<times> 'e) \<times> bool \<times> bool" where
  "dma_loop s 0 ch w progress = (ch, w, progress, False)"
| "dma_loop s (Suc limit) ch w progress =
     (if control ch AND DMA_CTRL_XFER_MASK = 0 then (ch, w, progress, False)
      else case dma_fetch s ch w of
        (Unsupported, v, w1) \<Rightarrow> (ch, w1, progress, True)
      | (Blocked, v, w1) \<Rightarrow> (ch, w1, progress, False)
      | (Moved, v, w1) \<Rightarrow>
          (case dma_put s ch v w1 of
             (Unsupported, w2) \<Rightarrow> (ch, w2, progress, True)
           | (Blocked, w2) \<Rightarrow> (ch, w2, progress, False)
           | (Moved, w2) \<Rightarrow> dma_loop s limit (dma_advance s ch) w2 True))"

text \<open>The end of a transfer: the next list item, or completion.\<close>

definition dma_finish :: "nat \<Rightarrow> gmem \<Rightarrow> 'e BL808DMAState \<Rightarrow> 'e BL808DMAState" where
  "dma_finish chno m s =
     (case bl808_dma_load_lli m (channels s ! chno) of
        Some ch \<Rightarrow> set_channel chno ch s
      | None \<Rightarrow> bl808_dma_complete_channel chno s)"

definition dma_limit :: "BL808DMAChannel \<Rightarrow> nat" where
  "dma_limit ch =
     (let burst = max (bl808_dma_burst_len (control ch) False) (bl808_dma_burst_len (control ch) True);
          limit = min (unat (control ch AND DMA_CTRL_XFER_MASK)) 64
      in if bl808_dma_flow (config ch) \<noteq> 0 then min limit (max 1 burst) else limit)"

definition bl808_dma_step_channel :: "nat \<Rightarrow> 'e BL808DMAState \<Rightarrow> gmem \<times> 'e \<Rightarrow> bool \<times> 'e BL808DMAState \<times> gmem \<times> 'e" where
  "bl808_dma_step_channel chno s w =
     (let ch = channels s ! chno;
          flow = bl808_dma_flow (config ch);
          sw = bl808_dma_width_bytes s (control ch) False; dw = bl808_dma_width_bytes s (control ch) True
      in if \<not> active ch \<or> \<not> tst (config ch) DMA_CFG_ENABLE \<or> tst (config ch) DMA_CFG_HALT
         then (False, set_channel chno (ch\<lparr>active := False\<rparr>) s, w)
         else if sw = 0 \<or> dw = 0 then (True, bl808_dma_error_channel chno s, w)
         else if (sw > 4 \<or> dw > 4) \<and> flow \<noteq> 0 then (True, bl808_dma_error_channel chno s, w)
         else if control ch AND DMA_CTRL_XFER_MASK = 0 then (True, dma_finish chno (fst w) s, w)
         else case dma_loop s (dma_limit ch) ch w False of (ch', w', progress, unsupported) \<Rightarrow>
           let s' = set_channel chno ch' s in
           if unsupported then (True, bl808_dma_error_channel chno s', w')
           else if control ch' AND DMA_CTRL_XFER_MASK = 0 then (True, dma_finish chno (fst w') s', w')
           else if \<not> progress \<and> flow \<in> {1, 5} \<and> requests s ! bl808_dma_dst_request (config ch) = None
           then (True, bl808_dma_error_channel chno s', w')
           else if \<not> progress \<and> flow \<in> {2, 6, 3, 4, 7} \<and> requests s ! bl808_dma_src_request (config ch) = None
           then (True, bl808_dma_error_channel chno s', w')
           else (progress, s', w'))"

text \<open>The loop over the channels of \<open>bl808_dma_run_bh\<close>.\<close>

fun run_channels :: "nat list \<Rightarrow> bool \<Rightarrow> 'e BL808DMAState \<Rightarrow> gmem \<times> 'e \<Rightarrow> bool \<times> 'e BL808DMAState \<times> gmem \<times> 'e" where
  "run_channels [] progress s w = (progress, s, w)"
| "run_channels (i # is) progress s w =
     (case bl808_dma_step_channel i s w of (p, s, w) \<Rightarrow> run_channels is (progress \<or> p) s w)"

definition bl808_dma_run_bh :: "u64 \<Rightarrow> 'e BL808DMAState \<Rightarrow> gmem \<times> 'e \<Rightarrow> 'e BL808DMAState \<times> gmem \<times> 'e" where
  "bl808_dma_run_bh now_ns s w =
     (let s = s\<lparr>run_scheduled := False\<rparr> in
      if \<not> bl808_dma_can_run s then (bl808_dma_update_irq s, w)
      else case run_channels [0..<bl808_dma_channel_count s] False s w of (progress, s, w) \<Rightarrow>
        let s = bl808_dma_update_irq s in
        if \<not> bl808_dma_has_active_channels s then (s, w)
        else if progress then (bl808_dma_schedule s, w)
        else (bl808_dma_reschedule_poll now_ns s, w))"

text \<open>The poll timer's callback; the timer that fired is no longer armed.\<close>

definition bl808_dma_poll_timer_cb :: "'e BL808DMAState \<Rightarrow> 'e BL808DMAState" where
  "bl808_dma_poll_timer_cb s =
     (let s = s\<lparr>poll_timer := None\<rparr> in if run_scheduled s then s else bl808_dma_schedule s)"

section \<open>Registers\<close>

definition dma_channel_offset :: "hwaddr \<Rightarrow> 'e BL808DMAState \<Rightarrow> (nat \<times> hwaddr) option" where
  "dma_channel_offset offset s =
     (if offset < 0x100 \<or> offset \<ge> 0x100 + 8 * 0x100 then None
      else let chno = unat ((offset - 0x100) div 0x100) in
        if chno \<ge> bl808_dma_channel_count s then None else Some (chno, (offset - 0x100) mod 0x100))"

definition bl808_dma_read :: "hwaddr \<Rightarrow> nat \<Rightarrow> 'e BL808DMAState \<Rightarrow> u64" where
  "bl808_dma_read offset sz s =
     (if sz \<noteq> 4 then 0
      else if offset = 0x00 then ucast (bl808_dma_visible_tc_status s OR bl808_dma_visible_err_status s)
      else if offset = 0x04 then ucast (bl808_dma_visible_tc_status s)
      else if offset = 0x0C then ucast (bl808_dma_visible_err_status s)
      else if offset = 0x14 then ucast (raw_tc_status s)
      else if offset = 0x18 then ucast (raw_err_status s)
      else if offset = 0x1C then ucast (bl808_dma_enabled_channels s)
      else if offset = 0x20 then ucast (soft_breq s)
      else if offset = 0x24 then ucast (soft_sreq s)
      else if offset = 0x28 then ucast (soft_lbreq s)
      else if offset = 0x2C then ucast (soft_lsreq s)
      else if offset = 0x30 then ucast (top_config s)
      else if offset = 0x34 then ucast (sync s)
      else case dma_channel_offset offset s of None \<Rightarrow> 0
        | Some (chno, choff) \<Rightarrow>
            let ch = channels s ! chno in
            if choff = 0x00 then ucast (src_addr ch)
            else if choff = 0x04 then ucast (dst_addr ch)
            else if choff = 0x08 then ucast (lli ch)
            else if choff = 0x0C then ucast (control ch)
            else if choff = 0x10 then ucast (config ch OR (if active ch then DMA_CFG_ACTIVE else 0))
            else 0)"

definition bl808_dma_write_channel_config :: "nat \<Rightarrow> u32 \<Rightarrow> 'e BL808DMAState \<Rightarrow> 'e BL808DMAState" where
  "bl808_dma_write_channel_config chno value s =
     (let ch = channels s ! chno;
          was_enabled = tst (config ch) DMA_CFG_ENABLE;
          enable = tst value DMA_CFG_ENABLE;
          ch = ch\<lparr>config := value AND NOT DMA_CFG_ACTIVE\<rparr>
      in if \<not> enable then set_channel chno (ch\<lparr>active := False, config := config ch AND NOT DMA_CFG_ENABLE\<rparr>) s
         else bl808_dma_schedule
           (set_channel chno (if \<not> was_enabled \<or> \<not> active ch then ch\<lparr>active := True\<rparr> else ch) s))"

definition dma_write_channel :: "nat \<Rightarrow> hwaddr \<Rightarrow> u64 \<Rightarrow> 'e BL808DMAState \<Rightarrow> 'e BL808DMAState" where
  "dma_write_channel chno choff value s =
     (let ch = channels s ! chno in
      if choff = 0x00 then bl808_dma_update_irq (set_channel chno (ch\<lparr>src_addr := ucast value\<rparr>) s)
      else if choff = 0x04 then bl808_dma_update_irq (set_channel chno (ch\<lparr>dst_addr := ucast value\<rparr>) s)
      else if choff = 0x08 then bl808_dma_update_irq (set_channel chno (ch\<lparr>lli := ucast value\<rparr>) s)
      else if choff = 0x0C then bl808_dma_update_irq (set_channel chno (ch\<lparr>control := ucast value\<rparr>) s)
      else if choff = 0x10 then bl808_dma_update_irq (bl808_dma_write_channel_config chno (ucast value) s)
      else s)"

definition bl808_dma_write :: "hwaddr \<Rightarrow> u64 \<Rightarrow> nat \<Rightarrow> 'e BL808DMAState \<Rightarrow> 'e BL808DMAState" where
  "bl808_dma_write offset value sz s =
     (if sz \<noteq> 4 then s
      else if dma_reset_asserted s then s
      else if offset = 0x08
      then bl808_dma_update_irq (s\<lparr>raw_tc_status := raw_tc_status s AND NOT (ucast value)\<rparr>)
      else if offset = 0x10
      then bl808_dma_update_irq (s\<lparr>raw_err_status := raw_err_status s AND NOT (ucast value)\<rparr>)
      else if offset = 0x20 then bl808_dma_schedule (s\<lparr>soft_breq := ucast value\<rparr>)
      else if offset = 0x24 then bl808_dma_schedule (s\<lparr>soft_sreq := ucast value\<rparr>)
      else if offset = 0x28 then bl808_dma_schedule (s\<lparr>soft_lbreq := ucast value\<rparr>)
      else if offset = 0x2C then bl808_dma_schedule (s\<lparr>soft_lsreq := ucast value\<rparr>)
      else if offset = 0x30
      then let s = s\<lparr>top_config := ucast value AND 1\<rparr> in
        if tst (top_config s) 1 then bl808_dma_schedule s else bl808_dma_cancel_work s
      else if offset = 0x34 then s\<lparr>sync := ucast value\<rparr>
      else case dma_channel_offset offset s of None \<Rightarrow> s
        | Some (chno, choff) \<Rightarrow> dma_write_channel chno choff value s)"

section \<open>Requests, clock and reset\<close>

definition bl808_dma_register_request :: "nat \<Rightarrow> 'e BL808DMARequestOps option \<Rightarrow> 'e BL808DMAState \<Rightarrow> 'e BL808DMAState" where
  "bl808_dma_register_request request_id ops s =
     (if request_id \<ge> 32 then s else s\<lparr>requests := (requests s)[request_id := ops]\<rparr>)"

definition zero_channel :: BL808DMAChannel where
  "zero_channel = \<lparr>src_addr = 0, dst_addr = 0, lli = 0, control = 0, config = 0, active = False\<rparr>"

definition bl808_dma_reset :: "'e BL808DMAState \<Rightarrow> 'e BL808DMAState" where
  "bl808_dma_reset s =
     bl808_dma_update_irq (bl808_dma_cancel_work
       (s\<lparr>channels := replicate 8 zero_channel, raw_tc_status := 0, raw_err_status := 0, soft_breq := 0,
          soft_sreq := 0, soft_lbreq := 0, soft_lsreq := 0, top_config := 0, sync := 0\<rparr>))"

definition bl808_dma_set_clock_enabled :: "bool \<Rightarrow> 'e BL808DMAState \<Rightarrow> 'e BL808DMAState" where
  "bl808_dma_set_clock_enabled enabled s =
     (let s = s\<lparr>dma_clock_enabled := enabled\<rparr> in
      bl808_dma_update_irq (if \<not> enabled then bl808_dma_cancel_work s else bl808_dma_schedule s))"

definition bl808_dma_set_reset_asserted :: "bool \<Rightarrow> 'e BL808DMAState \<Rightarrow> 'e BL808DMAState" where
  "bl808_dma_set_reset_asserted asserted s =
     (let s = s\<lparr>dma_reset_asserted := asserted\<rparr> in
      bl808_dma_update_irq (if asserted then bl808_dma_reset s else bl808_dma_schedule s))"

text \<open>The object as QEMU allocates it (all bytes zero) after the instance initialiser.\<close>

definition bl808_dma_init :: "'e BL808DMAState" where
  "bl808_dma_init =
     \<lparr>dma_irq = False, ch_irq = replicate 8 False, poll_timer = None, channels = replicate 8 zero_channel,
      requests = replicate 32 None, raw_tc_status = 0, raw_err_status = 0, soft_breq = 0, soft_sreq = 0,
      soft_lbreq = 0, soft_lsreq = 0, top_config = 0, sync = 0, dma_channel_count = 8,
      supports_doubleword_width = False, dma_clock_enabled = False, dma_reset_asserted = False,
      run_scheduled = False\<rparr>"

text \<open>
  What can happen to the controller and the world it works on.  \<open>Dma_world\<close> is anything the
  rest of the machine does to memory and to the peripherals.
\<close>

datatype 'e dma_op =
    Dma_write hwaddr u64 nat
  | Dma_run u64
  | Dma_poll
  | Dma_register nat "'e BL808DMARequestOps option"
  | Dma_clock bool
  | Dma_reset_line bool
  | Dma_reset
  | Dma_world "gmem \<times> 'e \<Rightarrow> gmem \<times> 'e"

fun dma_step :: "'e dma_op \<Rightarrow> 'e BL808DMAState \<times> gmem \<times> 'e \<Rightarrow> 'e BL808DMAState \<times> gmem \<times> 'e" where
  "dma_step (Dma_write offset v sz) (s, w) = (bl808_dma_write offset v sz s, w)"
| "dma_step (Dma_run t) (s, w) = bl808_dma_run_bh t s w"
| "dma_step Dma_poll (s, w) = (bl808_dma_poll_timer_cb s, w)"
| "dma_step (Dma_register n ops) (s, w) = (bl808_dma_register_request n ops s, w)"
| "dma_step (Dma_clock b) (s, w) = (bl808_dma_set_clock_enabled b s, w)"
| "dma_step (Dma_reset_line b) (s, w) = (bl808_dma_set_reset_asserted b s, w)"
| "dma_step Dma_reset (s, w) = (bl808_dma_reset s, w)"
| "dma_step (Dma_world f) (s, w) = (s, f w)"

end
