(* ===== verification/Dma_Proofs.thy ===== *)
theory Dma_Proofs
  imports Dma
begin

text \<open>
  Interrupt lines and scheduling of the DMA controller.  Every operation leaves each of the nine
  interrupt lines at the level the status, mask, clock and reset state call for (the
  interpretation \<open>dma\<close> of \<open>irq_device\<close>), and a controller that may run and has an active channel
  always has its bottom half or its poll timer pending.
\<close>

section \<open>Frames\<close>

text \<open>A channel step changes channels and raw status bits only.\<close>

definition dma_frame :: "'e BL808DMAState \<Rightarrow> 'e BL808DMAState" where
  "dma_frame s = s\<lparr>channels := [], raw_tc_status := 0, raw_err_status := 0\<rparr>"

lemma dma_frame_updates [simp]:
  "dma_frame (s\<lparr>channels := c\<rparr>) = dma_frame s"
  "dma_frame (s\<lparr>raw_tc_status := t\<rparr>) = dma_frame s"
  "dma_frame (s\<lparr>raw_err_status := t\<rparr>) = dma_frame s"
  "dma_frame (set_channel i ch s) = dma_frame s"
  by (simp_all add: dma_frame_def set_channel_def)

lemma dma_frame_eqD:
  assumes "dma_frame s' = dma_frame s"
  shows "bl808_dma_can_run s' = bl808_dma_can_run s" "run_scheduled s' = run_scheduled s" "poll_timer s' = poll_timer s"
    "bl808_dma_channel_count s' = bl808_dma_channel_count s" "requests s' = requests s"
    "supports_doubleword_width s' = supports_doubleword_width s" "dma_clock_enabled s' = dma_clock_enabled s"
    "dma_reset_asserted s' = dma_reset_asserted s"
  using arg_cong [OF assms, of bl808_dma_can_run] arg_cong [OF assms, of run_scheduled] arg_cong [OF assms, of poll_timer]
    arg_cong [OF assms, of bl808_dma_channel_count] arg_cong [OF assms, of requests]
    arg_cong [OF assms, of supports_doubleword_width] arg_cong [OF assms, of dma_clock_enabled]
    arg_cong [OF assms, of dma_reset_asserted]
  by (simp_all add: dma_frame_def bl808_dma_can_run_def bl808_dma_channel_count_def)

lemma complete_channel_frame [simp]: "dma_frame (bl808_dma_complete_channel i s) = dma_frame s"
  and error_channel_frame [simp]: "dma_frame (bl808_dma_error_channel i s) = dma_frame s"
  by (simp_all add: bl808_dma_complete_channel_def bl808_dma_error_channel_def Let_def)

lemma finish_frame [simp]: "dma_frame (dma_finish i m s) = dma_frame s"
  by (simp add: dma_finish_def split: option.split)

lemma frame_if:
  "dma_frame (fst (snd (if b then x else y))) = (if b then dma_frame (fst (snd x)) else dma_frame (fst (snd y)))"
  by simp

lemma step_channel_frame [simp]: "dma_frame (fst (snd (bl808_dma_step_channel i s w))) = dma_frame s"
  by (simp only: bl808_dma_step_channel_def Let_def split_beta frame_if fst_conv snd_conv error_channel_frame finish_frame
      dma_frame_updates if_cancel)

lemma run_channels_frame [simp]: "dma_frame (fst (snd (run_channels is p s w))) = dma_frame s"
proof (induction "is" arbitrary: p s w)
  case (Cons i "is")
  show ?case by (simp add: split_beta Cons)
qed simp

section \<open>Interrupt lines\<close>

lemma bit_fold_mask:
  "bit (fold (\<lambda>i m. if p i then m OR push_bit i 1 else m) is (m :: u32)) j
   \<longleftrightarrow> bit m j \<or> j < 32 \<and> j \<in> set is \<and> p j"
  by (induction "is" arbitrary: m) (auto simp: bit_simps)

lemma bit_channel_mask: "bit (channel_mask s p) i \<longleftrightarrow> i < bl808_dma_channel_count s \<and> p (channels s ! i)"
proof -
  have "bl808_dma_channel_count s \<le> 8" by (simp add: bl808_dma_channel_count_def)
  then show ?thesis unfolding channel_mask_def bit_fold_mask by auto
qed

text \<open>
  What calls for an interrupt of channel \<open>i\<close>: a completion that the configuration and the control
  word let through, or an error that the configuration lets through.
\<close>

definition dma_channel_pending :: "'e BL808DMAState \<Rightarrow> nat \<Rightarrow> bool" where
  "dma_channel_pending s i \<longleftrightarrow> i < bl808_dma_channel_count s \<and>
     (bit (raw_tc_status s) i \<and> bit (config (channels s ! i)) 15 \<and> bit (control (channels s ! i)) 31 \<or>
      bit (raw_err_status s) i \<and> bit (config (channels s ! i)) 14)"

text \<open>Line 0 is the common interrupt, line \<open>Suc i\<close> that of channel \<open>i\<close>.\<close>

definition dma_line :: "nat \<Rightarrow> 'e BL808DMAState \<Rightarrow> bool" where
  "dma_line k s = (if k = 0 then dma_irq s else ch_irq s ! (k - 1))"

definition dma_level :: "nat \<Rightarrow> 'e BL808DMAState \<Rightarrow> bool" where
  "dma_level k s \<longleftrightarrow> dma_clock_enabled s \<and> \<not> dma_reset_asserted s \<and>
     (if k = 0 then \<exists>i < 8. dma_channel_pending s i else dma_channel_pending s (k - 1))"

lemma bit_visible:
  "bit (bl808_dma_visible_tc_status s OR bl808_dma_visible_err_status s) i \<longleftrightarrow> dma_channel_pending s i"
proof -
  have "tst x 0x4000 = bit x 14" "tst x 0x8000 = bit x 15" "tst x 0x80000000 = bit x 31" for x :: u32
    using tst_BIT [of x 14] tst_BIT [of x 15] tst_BIT [of x 31] by (simp_all add: push_bit_eq_mult)
  then show ?thesis
    by (auto simp: bl808_dma_visible_tc_status_def bl808_dma_visible_err_status_def bl808_dma_tc_mask_def
        bl808_dma_err_mask_def dma_channel_pending_def bit_and_iff bit_or_iff bit_channel_mask)
qed

lemma visible_0: "bl808_dma_visible_tc_status s OR bl808_dma_visible_err_status s \<noteq> 0 \<longleftrightarrow> (\<exists>i < 8. dma_channel_pending s i)"
proof -
  have "bl808_dma_channel_count s \<le> 8" by (simp add: bl808_dma_channel_count_def)
  then have "dma_channel_pending s i \<Longrightarrow> i < 8" for i by (simp add: dma_channel_pending_def)
  then show ?thesis using bit_visible [of s] by (metis bit_0_eq bit_word_eqI bot_apply bot_bool_def)
qed

lemma update_irq_level [simp]: "dma_level k (bl808_dma_update_irq s) = dma_level k s"
  by (simp add: dma_level_def dma_channel_pending_def bl808_dma_update_irq_def bl808_dma_channel_count_def Let_def)

lemma update_irq_line [irq_simps]: "k \<le> 8 \<Longrightarrow> dma_line k (bl808_dma_update_irq s) = dma_level k s"
proof (cases k)
  case (Suc i)
  assume "k \<le> 8"
  then show ?thesis
    using Suc tst_BIT [of "bl808_dma_visible_tc_status s OR bl808_dma_visible_err_status s" i]
    by (auto simp: bl808_dma_update_irq_def dma_line_def dma_level_def Let_def bit_visible dma_channel_pending_def)
qed (simp add: bl808_dma_update_irq_def dma_line_def dma_level_def Let_def visible_0)

text \<open>Updates that concern neither the lines nor what calls for them.\<close>

lemma schedule_line [irq_simps]:
  "dma_line k (bl808_dma_schedule s) = dma_line k s" "dma_level k (bl808_dma_schedule s) = dma_level k s"
  "dma_line k (bl808_dma_cancel_work s) = dma_line k s" "dma_level k (bl808_dma_cancel_work s) = dma_level k s"
  "dma_line k (bl808_dma_reschedule_poll t s) = dma_line k s" "dma_level k (bl808_dma_reschedule_poll t s) = dma_level k s"
  "dma_line k (bl808_dma_poll_timer_cb s) = dma_line k s" "dma_level k (bl808_dma_poll_timer_cb s) = dma_level k s"
  "dma_line k (bl808_dma_register_request n ops s) = dma_line k s"
  "dma_level k (bl808_dma_register_request n ops s) = dma_level k s"
  by (simp_all add: bl808_dma_schedule_def bl808_dma_cancel_work_def bl808_dma_reschedule_poll_def Let_def
      bl808_dma_poll_timer_cb_def bl808_dma_register_request_def dma_line_def dma_level_def dma_channel_pending_def
      bl808_dma_channel_count_def)

lemma soft_line [irq_simps]:
  "dma_line k (s\<lparr>soft_breq := v\<rparr>) = dma_line k s" "dma_level k (s\<lparr>soft_breq := v\<rparr>) = dma_level k s"
  "dma_line k (s\<lparr>soft_sreq := v\<rparr>) = dma_line k s" "dma_level k (s\<lparr>soft_sreq := v\<rparr>) = dma_level k s"
  "dma_line k (s\<lparr>soft_lbreq := v\<rparr>) = dma_line k s" "dma_level k (s\<lparr>soft_lbreq := v\<rparr>) = dma_level k s"
  "dma_line k (s\<lparr>soft_lsreq := v\<rparr>) = dma_line k s" "dma_level k (s\<lparr>soft_lsreq := v\<rparr>) = dma_level k s"
  "dma_line k (s\<lparr>top_config := v\<rparr>) = dma_line k s" "dma_level k (s\<lparr>top_config := v\<rparr>) = dma_level k s"
  "dma_line k (s\<lparr>sync := v\<rparr>) = dma_line k s" "dma_level k (s\<lparr>sync := v\<rparr>) = dma_level k s"
  by (simp_all add: dma_line_def dma_level_def dma_channel_pending_def bl808_dma_channel_count_def)

lemma write_line:
  assumes "k \<le> 8" and "dma_line k s = dma_level k s"
  shows "dma_line k (bl808_dma_write a v n s) = dma_level k (bl808_dma_write a v n s)"
  using assms by (simp add: bl808_dma_write_def dma_write_channel_def irq_simps Let_def split: option.split)

lemma run_bh_line: "k \<le> 8 \<Longrightarrow> dma_line k (fst (bl808_dma_run_bh t s w)) = dma_level k (fst (bl808_dma_run_bh t s w))"
  by (simp add: bl808_dma_run_bh_def irq_simps Let_def split: prod.split)

text \<open>The controller as it is created, with its two properties set.\<close>

definition dma_start :: "'e BL808DMAState \<Rightarrow> bool" where
  "dma_start s \<longleftrightarrow> (\<exists>n d. s = bl808_dma_init\<lparr>dma_channel_count := n, supports_doubleword_width := d\<rparr>)"

interpretation dma: gated_irq_device dma_step "\<lambda>op. True" "\<lambda>(s, w). dma_start s" "\<lambda>(s, w). dma_line (k mod 9) s"
  "\<lambda>(s, w). dma_level (k mod 9) s" "\<lambda>(s, w). dma_clock_enabled s \<and> \<not> dma_reset_asserted s" for k
proof
  have k: "k mod 9 \<le> 8" by (simp add: less_Suc_eq_le [symmetric])
  show "(case sw of (s, w) \<Rightarrow> dma_start s) \<Longrightarrow>
      (case sw of (s, w) \<Rightarrow> dma_line (k mod 9) s) = (case sw of (s, w) \<Rightarrow> dma_level (k mod 9) s)"
    for sw :: "'a BL808DMAState \<times> gmem \<times> 'a"
    using k by (auto simp: dma_start_def bl808_dma_init_def dma_line_def dma_level_def nth_Cons' split: prod.splits)
  show "(case sw of (s, w) \<Rightarrow> dma_line (k mod 9) s) = (case sw of (s, w) \<Rightarrow> dma_level (k mod 9) s) \<Longrightarrow>
      (case dma_step op sw of (s, w) \<Rightarrow> dma_line (k mod 9) s) = (case dma_step op sw of (s, w) \<Rightarrow> dma_level (k mod 9) s)"
    for op and sw :: "'a BL808DMAState \<times> gmem \<times> 'a"
    using k run_bh_line [OF k] by (cases sw; cases op)
      (simp_all add: write_line irq_simps bl808_dma_reset_def bl808_dma_set_clock_enabled_def
        bl808_dma_set_reset_asserted_def Let_def split_beta)
qed (auto simp: dma_level_def)

section \<open>Scheduling\<close>

definition dma_work_pending :: "'e BL808DMAState \<Rightarrow> bool" where
  "dma_work_pending s \<longleftrightarrow> run_scheduled s \<or> poll_timer s \<noteq> None"

definition dma_live :: "'e BL808DMAState \<Rightarrow> bool" where
  "dma_live s \<longleftrightarrow>
     (bl808_dma_can_run s \<and> bl808_dma_has_active_channels s \<longrightarrow> dma_work_pending s) \<and>
     (dma_work_pending s \<longrightarrow> bl808_dma_can_run s)"

lemma cancel_live: "bl808_dma_can_run s = False \<Longrightarrow> dma_live (bl808_dma_cancel_work s)"
  by (auto simp: dma_live_def dma_work_pending_def bl808_dma_cancel_work_def bl808_dma_can_run_def)

text \<open>Scheduling works, whatever the active channels were before.\<close>

lemma schedule_live: "(dma_work_pending s \<Longrightarrow> bl808_dma_can_run s) \<Longrightarrow> dma_live (bl808_dma_schedule s)"
  by (auto simp: dma_live_def dma_work_pending_def bl808_dma_schedule_def bl808_dma_can_run_def)

lemma reschedule_live: "(dma_work_pending s \<Longrightarrow> bl808_dma_can_run s) \<Longrightarrow> dma_live (bl808_dma_reschedule_poll t s)"
  by (auto simp: dma_live_def dma_work_pending_def bl808_dma_reschedule_poll_def bl808_dma_can_run_def)

lemma idle_live:
  "(dma_work_pending s \<Longrightarrow> bl808_dma_can_run s) \<Longrightarrow> \<not> bl808_dma_has_active_channels s \<Longrightarrow> dma_live s"
  by (simp add: dma_live_def)

lemma off_live: "\<not> bl808_dma_can_run s \<Longrightarrow> \<not> dma_work_pending s \<Longrightarrow> dma_live s"
  by (simp add: dma_live_def)

lemma live_offD: "dma_live s \<Longrightarrow> \<not> bl808_dma_can_run s \<Longrightarrow> \<not> dma_work_pending s"
  by (auto simp: dma_live_def)

lemma live_pendingD: "dma_live s \<Longrightarrow> dma_work_pending s \<Longrightarrow> bl808_dma_can_run s"
  by (simp add: dma_live_def)

lemmas dma_sched_defs = dma_live_def dma_work_pending_def bl808_dma_can_run_def bl808_dma_has_active_channels_def
  bl808_dma_channel_count_def

lemma update_irq_live [simp]: "dma_live (bl808_dma_update_irq s) = dma_live s"
  by (simp add: dma_sched_defs bl808_dma_update_irq_def Let_def)

lemma register_live [simp]: "dma_live (bl808_dma_register_request n ops s) = dma_live s"
  by (simp add: dma_sched_defs bl808_dma_register_request_def)

text \<open>A channel update that activates nothing.\<close>

lemma set_channel_live:
  assumes "dma_live s" and "active ch \<Longrightarrow> active (channels s ! i)"
  shows "dma_live (set_channel i ch s)"
proof -
  have "active ((channels s)[i := ch] ! j) \<Longrightarrow> active (channels s ! j)" for j
    using assms(2) by (cases "i < length (channels s)"; cases "i = j") (simp_all add: list_update_beyond)
  then show ?thesis using assms(1) by (auto simp: dma_sched_defs set_channel_def)
qed

lemma pending_updates [simp]:
  "dma_work_pending (set_channel i ch s) = dma_work_pending s" "bl808_dma_can_run (set_channel i ch s) = bl808_dma_can_run s"
  "dma_work_pending (s\<lparr>soft_breq := v\<rparr>) = dma_work_pending s" "bl808_dma_can_run (s\<lparr>soft_breq := v\<rparr>) = bl808_dma_can_run s"
  "dma_work_pending (s\<lparr>soft_sreq := v\<rparr>) = dma_work_pending s" "bl808_dma_can_run (s\<lparr>soft_sreq := v\<rparr>) = bl808_dma_can_run s"
  "dma_work_pending (s\<lparr>soft_lbreq := v\<rparr>) = dma_work_pending s" "bl808_dma_can_run (s\<lparr>soft_lbreq := v\<rparr>) = bl808_dma_can_run s"
  "dma_work_pending (s\<lparr>soft_lsreq := v\<rparr>) = dma_work_pending s" "bl808_dma_can_run (s\<lparr>soft_lsreq := v\<rparr>) = bl808_dma_can_run s"
  "dma_work_pending (s\<lparr>top_config := v\<rparr>) = dma_work_pending s"
  by (simp_all add: dma_work_pending_def bl808_dma_can_run_def set_channel_def)

lemma sync_live [simp]: "dma_live (s\<lparr>sync := v\<rparr>) = dma_live s"
  "dma_live (s\<lparr>raw_tc_status := v\<rparr>) = dma_live s" "dma_live (s\<lparr>raw_err_status := v\<rparr>) = dma_live s"
  by (simp_all add: dma_sched_defs)

lemma write_channel_config_live: "dma_live s \<Longrightarrow> dma_live (bl808_dma_write_channel_config i v s)"
  unfolding bl808_dma_write_channel_config_def Let_def
  by (auto simp: live_pendingD intro!: schedule_live set_channel_live)

lemma write_channel_live: "dma_live s \<Longrightarrow> dma_live (dma_write_channel i a v s)"
  unfolding dma_write_channel_def Let_def
  by (auto intro!: set_channel_live write_channel_config_live)

lemma write_top_live:
  assumes "dma_live s"
  shows "dma_live (let s = s\<lparr>top_config := v\<rparr> in if tst (top_config s) 1 then bl808_dma_schedule s else bl808_dma_cancel_work s)"
proof (cases "tst v 1")
  case True
  have "dma_live (bl808_dma_schedule (s\<lparr>top_config := v\<rparr>))"
    by (rule schedule_live) (use live_pendingD [OF assms] True in \<open>simp add: bl808_dma_can_run_def\<close>)
  then show ?thesis using True by simp
next
  case False
  have "dma_live (bl808_dma_cancel_work (s\<lparr>top_config := v\<rparr>))"
    by (rule cancel_live) (use False in \<open>simp add: bl808_dma_can_run_def\<close>)
  then show ?thesis using False by simp
qed

lemma soft_schedule_live:
  assumes "dma_live s"
  shows "dma_live (bl808_dma_schedule (s\<lparr>soft_breq := v\<rparr>))" "dma_live (bl808_dma_schedule (s\<lparr>soft_sreq := v\<rparr>))"
    "dma_live (bl808_dma_schedule (s\<lparr>soft_lbreq := v\<rparr>))" "dma_live (bl808_dma_schedule (s\<lparr>soft_lsreq := v\<rparr>))"
  using live_pendingD [OF assms] by (auto intro!: schedule_live)

lemma write_live: "dma_live s \<Longrightarrow> dma_live (bl808_dma_write a v n s)"
  using write_top_live [of s "ucast v AND 1"] unfolding bl808_dma_write_def
  by (simp add: write_channel_live soft_schedule_live split: option.split)

lemma run_bh_live: "dma_live s \<Longrightarrow> dma_live (fst (bl808_dma_run_bh t s w))"
proof -
  assume live: "dma_live s"
  let ?s0 = "s\<lparr>run_scheduled := False\<rparr>"
  let ?s1 = "bl808_dma_update_irq (fst (snd (run_channels [0..<bl808_dma_channel_count ?s0] False ?s0 w)))"
  have frame: "dma_frame (fst (snd (run_channels [0..<bl808_dma_channel_count ?s0] False ?s0 w))) = dma_frame ?s0"
    by simp
  have runs: "bl808_dma_can_run ?s1 = bl808_dma_can_run ?s0" "run_scheduled ?s1 = run_scheduled ?s0"
    "poll_timer ?s1 = poll_timer ?s0"
    using dma_frame_eqD [OF frame] by (simp_all add: bl808_dma_update_irq_def bl808_dma_can_run_def Let_def)
  have can: "dma_work_pending ?s1 \<Longrightarrow> bl808_dma_can_run ?s1"
    using live unfolding dma_work_pending_def runs by (auto simp: dma_live_def dma_work_pending_def bl808_dma_can_run_def)
  have "dma_live (bl808_dma_schedule ?s1)" "dma_live (bl808_dma_reschedule_poll t ?s1)"
    by (rule schedule_live reschedule_live, erule can)+
  moreover have "\<not> bl808_dma_has_active_channels ?s1 \<Longrightarrow> dma_live ?s1"
    by (rule idle_live, erule can)
  moreover have "dma_live (bl808_dma_update_irq ?s0)" if "\<not> bl808_dma_can_run ?s0"
  proof -
    from that have "\<not> dma_work_pending s" using live_offD [OF live] by (simp add: bl808_dma_can_run_def)
    with that show ?thesis unfolding update_irq_live by (intro off_live) (simp_all add: dma_work_pending_def)
  qed
  ultimately show ?thesis
    by (simp add: bl808_dma_run_bh_def Let_def split_beta del: update_irq_live)
qed

lemma poll_live:
  assumes "dma_live s"
  shows "dma_live (bl808_dma_poll_timer_cb s)"
proof -
  let ?s = "s\<lparr>poll_timer := None\<rparr>"
  have can: "dma_work_pending ?s \<Longrightarrow> bl808_dma_can_run ?s"
    using live_pendingD [OF assms] by (simp add: dma_work_pending_def bl808_dma_can_run_def)
  have "dma_live (bl808_dma_schedule ?s)" by (rule schedule_live, erule can)
  moreover have "dma_live ?s" if "run_scheduled ?s"
    using that can by (simp add: dma_live_def dma_work_pending_def)
  ultimately show ?thesis by (simp add: bl808_dma_poll_timer_cb_def Let_def del: BL808DMAState.select_convs)
qed

lemma reset_live: "dma_live (bl808_dma_reset s)"
  unfolding bl808_dma_reset_def update_irq_live by (rule cancel_live) (simp add: bl808_dma_can_run_def)

lemma clock_live:
  assumes "dma_live s"
  shows "dma_live (bl808_dma_set_clock_enabled b s)"
proof (cases b)
  case True
  have "dma_live (bl808_dma_schedule (s\<lparr>dma_clock_enabled := True\<rparr>))"
    by (rule schedule_live) (use live_pendingD [OF assms] in \<open>simp add: dma_work_pending_def bl808_dma_can_run_def\<close>)
  then show ?thesis using True by (simp add: bl808_dma_set_clock_enabled_def Let_def)
next
  case False
  have "dma_live (bl808_dma_cancel_work (s\<lparr>dma_clock_enabled := False\<rparr>))"
    by (rule cancel_live) (simp add: bl808_dma_can_run_def)
  then show ?thesis using False by (simp add: bl808_dma_set_clock_enabled_def Let_def)
qed

lemma reset_line_live:
  assumes "dma_live s"
  shows "dma_live (bl808_dma_set_reset_asserted b s)"
proof -
  have "dma_live (bl808_dma_schedule (s\<lparr>dma_reset_asserted := False\<rparr>))"
    by (rule schedule_live) (use live_pendingD [OF assms] in \<open>simp add: dma_work_pending_def bl808_dma_can_run_def\<close>)
  then show ?thesis by (cases b) (simp_all add: bl808_dma_set_reset_asserted_def reset_live Let_def)
qed

lemma step_live: "dma_live (fst sw) \<Longrightarrow> dma_live (fst (dma_step op sw))"
  by (cases sw; cases op) (simp_all add: write_live run_bh_live poll_live reset_live clock_live reset_line_live)

lemma run_live: "dma_live (fst sw) \<Longrightarrow> dma_live (fst (fold dma_step ops sw))"
  by (induction ops arbitrary: sw) (simp_all add: step_live)

lemma start_live: "dma_start s \<Longrightarrow> dma_live s"
  by (auto simp: dma_start_def bl808_dma_init_def dma_live_def dma_work_pending_def bl808_dma_can_run_def)

end
