(* ===== verification/Dma_Move.thy ===== *)
theory Dma_Move
  imports Dma_Proofs
begin

text \<open>
  What the DMA controller moves.  Values read from and written to guest memory byte by byte, the
  loop of a channel, the memory-to-memory transfer, and the contract of a peripheral that feeds
  a channel (locale \<open>dma_source\<close>), which the UART's receiver meets.
\<close>

section \<open>Little-endian values\<close>

lemma load_le_byte:
  assumes "j < k" and "k \<le> 8"
  shows "ucast (drop_bit (8 * j) (load_le k m a)) = m (a + of_nat j)"
  using assms
proof (induction k arbitrary: j a)
  case (Suc k)
  show ?case
  proof (cases j)
    case 0
    have "ucast (ucast b OR push_bit 8 x :: u64) = (b :: u8)" for b x
      by (rule bit_word_eqI) (auto simp: bit_simps)
    then show ?thesis using 0 by simp
  next
    case (Suc i)
    then have i: "8 * i + 16 \<le> 64" using Suc.prems by simp
    have "ucast (drop_bit (8 + 8 * i) (ucast b OR push_bit 8 x :: u64)) = (ucast (drop_bit (8 * i) x) :: u8)" for b :: u8 and x
      using i by (intro bit_word_eqI) (auto simp: bit_simps dest: bit_imp_le_length)
    then show ?thesis using Suc Suc.IH [of i "a + 1"] Suc.prems by (simp add: algebra_simps)
  qed
qed simp

lemma unat_minus_1_u64: "unat (- 1 :: u64) = 18446744073709551615"
  by (simp add: unsigned_minus_1_eq_mask mask_numeral)

lemma store_le_apply:
  "k \<le> 8 \<Longrightarrow> store_le k a v m x = (if unat (x - a) < k then ucast (drop_bit (8 * unat (x - a)) v) else m x)"
proof (induction k arbitrary: a v m)
  case (Suc k)
  have "unat (x - a) = Suc (unat (x - (a + 1)))" if "x \<noteq> a"
  proof -
    have "x - a \<noteq> 0" using that by simp
    then have "unat (x - a - 1) = unat (x - a) - 1" "0 < unat (x - a)" by (simp_all add: unat_minus_1 unat_gt_0)
    then show ?thesis by (simp add: diff_diff_eq)
  qed
  then show ?case
    using Suc unat_minus_1_u64 by (cases "x = a") (auto simp: offset_less_Suc add.commute)
qed simp

text \<open>\<open>len\<close> bytes of memory from \<open>src\<close>, seen at \<open>dst\<close>.\<close>

definition copied :: "hwaddr \<Rightarrow> hwaddr \<Rightarrow> nat \<Rightarrow> gmem \<Rightarrow> gmem" where
  "copied src dst len m = (\<lambda>a. if unat (a - dst) < len then m (src + (a - dst)) else m a)"

lemma copy_value:
  assumes "w \<in> {1, 2, 4, 8}"
  shows "bl808_dma_write_mem_value dst (bl808_dma_read_mem_value m src w) w m = copied src dst w m"
proof
  fix a
  have "w \<le> 8" using assms by auto
  then show "bl808_dma_write_mem_value dst (bl808_dma_read_mem_value m src w) w m a = copied src dst w m a"
    using assms by (simp add: bl808_dma_write_mem_value_def bl808_dma_read_mem_value_def store_le_apply load_le_byte copied_def)
qed

lemma copied_0 [simp]: "copied src dst 0 m = m"
  by (simp add: copied_def)

text \<open>Copying upwards piece by piece is right unless the destination begins inside the source.\<close>

lemma copied_append:
  assumes "unat src + (k + l) < 2 ^ 64" and "unat dst + (k + l) < 2 ^ 64"
    and "unat dst \<le> unat src \<or> unat src + (k + l) \<le> unat dst"
  shows "copied (src + of_nat k) (dst + of_nat k) l (copied src dst k m) = copied src dst (k + l) m"
proof
  fix a
  have k: "unat (of_nat k :: hwaddr) = k" using assms by (simp add: unat_of_nat_small)
  have sub: "unat (x - y) = (if unat y \<le> unat x then unat x - unat y else unat x + 2 ^ 64 - unat y)" for x y :: hwaddr
    by (simp add: unat_sub_if' word_size)
  have off: "a - (dst + of_nat k) = (a - dst) - of_nat k" by simp
  consider "unat (a - dst) < k" | "k \<le> unat (a - dst)" "unat (a - dst) < k + l" | "k + l \<le> unat (a - dst)" by linarith
  then show "copied (src + of_nat k) (dst + of_nat k) l (copied src dst k m) a = copied src dst (k + l) m a"
  proof cases
    case 1
    then have "\<not> unat (a - (dst + of_nat k)) < l" using assms k unfolding off sub [of "a - dst"] by simp
    then show ?thesis using 1 by (simp add: copied_def)
  next
    case 2
    have in_l: "unat (a - (dst + of_nat k)) < l" using 2 k unfolding off sub [of "a - dst"] by simp
    let ?b = "src + (a - dst)"
    have b: "unat ?b = unat src + unat (a - dst)" using 2 assms by (intro unat_add_small) simp
    have "\<not> unat (?b - dst) < k" using 2 assms unfolding sub [of ?b] b by auto
    moreover have "src + of_nat k + (a - (dst + of_nat k)) = ?b" by simp
    ultimately show ?thesis using 2 in_l by (simp add: copied_def)
  next
    case 3
    then have "\<not> unat (a - (dst + of_nat k)) < l" "\<not> unat (a - dst) < k + l" "\<not> unat (a - dst) < k"
      using k unfolding off sub [of "a - dst"] by simp_all
    then show ?thesis by (simp add: copied_def)
  qed
qed

section \<open>One datum\<close>

abbreviation (input) dma_remaining :: "BL808DMAChannel \<Rightarrow> nat" where
  "dma_remaining ch \<equiv> unat (control ch AND 0xFFF)"

lemma remaining_less: "unat (c AND 0xFFF :: u32) < 4096"
  using unat_and_mask [of c 12] by (simp add: mask_numeral)

lemma count_bits:
  assumes "unat (r :: u32) < 4096"
  shows "((c AND NOT 0xFFF) OR r) AND 0xFFF = r" "12 \<le> i \<Longrightarrow> bit ((c AND NOT 0xFFF) OR r) i = bit (c :: u32) i"
proof -
  have "take_bit 12 r = r"
    using assms by (intro unsigned_word_eqI [where 'a = nat]) (simp add: unsigned_take_bit_eq take_bit_nat_eq_self)
  then have r: "\<not> bit r i" if "12 \<le> i" for i using that by (metis bit_take_bit_iff not_le)
  have m: "bit (0xFFF :: u32) i \<longleftrightarrow> i < 12" for i
    using bit_mask_iff [of 12 i, where 'a = u32] by (auto simp: mask_numeral)
  show "((c AND NOT 0xFFF) OR r) AND 0xFFF = r"
    by (rule bit_word_eqI, simp only: bit_and_iff bit_or_iff bit_not_iff m) (use r not_le in blast)
  show "12 \<le> i \<Longrightarrow> bit ((c AND NOT 0xFFF) OR r) i = bit c i"
    by (simp only: bit_and_iff bit_or_iff bit_not_iff m) (use r bit_imp_le_length in fastforce)
qed

lemma drop_bit_high:
  assumes "\<And>i. 12 \<le> i \<Longrightarrow> bit c' i = bit (c :: u32) i" and "12 \<le> n"
  shows "drop_bit n c' = drop_bit n c"
  using assms by (intro bit_word_eqI) (simp add: bit_simps)

lemma tst_high:
  assumes "\<And>i. 12 \<le> i \<Longrightarrow> bit c' i = bit (c :: u32) i" and "12 \<le> n"
  shows "tst c' (push_bit n 1) = tst c (push_bit n 1)"
  using assms unfolding tst_BIT by simp

text \<open>
  The part of a control word above the count says how a channel moves data: it does not change
  while the channel runs.
\<close>

definition same_control :: "u32 \<Rightarrow> u32 \<Rightarrow> bool" where
  "same_control c' c \<longleftrightarrow> (\<forall>i \<ge> 12. bit c' i = bit c i)"

lemma same_control_refl [simp]: "same_control c c"
  by (simp add: same_control_def)

lemma same_control_trans: "same_control a b \<Longrightarrow> same_control b c \<Longrightarrow> same_control a c"
  by (simp add: same_control_def)

lemma same_control_simps:
  assumes "same_control c' c"
  shows "bl808_dma_width_bytes s c' d = bl808_dma_width_bytes s c d" "bl808_dma_burst_len c' d = bl808_dma_burst_len c d"
    "tst c' 0x4000000 = tst c 0x4000000" "tst c' 0x8000000 = tst c 0x8000000" "tst c' 0x80000000 = tst c 0x80000000"
proof -
  have b: "\<And>i. 12 \<le> i \<Longrightarrow> bit c' i = bit c i" using assms by (simp add: same_control_def)
  show "bl808_dma_width_bytes s c' d = bl808_dma_width_bytes s c d" "bl808_dma_burst_len c' d = bl808_dma_burst_len c d"
    by (simp_all add: bl808_dma_width_bytes_def bl808_dma_burst_len_def drop_bit_high [OF b])
  show "tst c' 0x4000000 = tst c 0x4000000" "tst c' 0x8000000 = tst c 0x8000000" "tst c' 0x80000000 = tst c 0x80000000"
    using tst_high [OF b, of 26] tst_high [OF b, of 27] tst_high [OF b, of 31] by (simp_all add: push_bit_eq_mult)
qed

lemma advance_simps [simp]:
  "config (dma_advance s ch) = config ch" "lli (dma_advance s ch) = lli ch" "active (dma_advance s ch) = active ch"
  by (simp_all add: dma_advance_def Let_def)

lemma advance_addr:
  "src_addr (dma_advance s ch) =
     (if tst (control ch) 0x4000000 then src_addr ch + of_nat (bl808_dma_width_bytes s (control ch) False) else src_addr ch)"
  "dst_addr (dma_advance s ch) =
     (if tst (control ch) 0x8000000 then dst_addr ch + of_nat (bl808_dma_width_bytes s (control ch) True) else dst_addr ch)"
  by (simp_all add: dma_advance_def Let_def)

lemma advance_control:
  assumes "dma_remaining ch \<noteq> 0"
  shows "dma_remaining (dma_advance s ch) = dma_remaining ch - 1" "same_control (control (dma_advance s ch)) (control ch)"
proof -
  have "control ch AND 0xFFF \<noteq> 0" using assms by (metis unsigned_0)
  then have r: "unat ((control ch AND 0xFFF) - 1) = dma_remaining ch - 1" by (rule unat_minus_1)
  then have "unat ((control ch AND 0xFFF) - 1) < 4096" using remaining_less [of "control ch"] by simp
  from count_bits [OF this] show "dma_remaining (dma_advance s ch) = dma_remaining ch - 1"
    "same_control (control (dma_advance s ch)) (control ch)"
    using r by (simp_all add: dma_advance_def Let_def same_control_def)
qed

text \<open>Several data.\<close>

lemma advances_simps [simp]:
  "config ((dma_advance s ^^ k) ch) = config ch" "lli ((dma_advance s ^^ k) ch) = lli ch"
  "active ((dma_advance s ^^ k) ch) = active ch"
  by (induction k) simp_all

lemma advances_control:
  assumes "k \<le> dma_remaining ch"
  shows "dma_remaining ((dma_advance s ^^ k) ch) = dma_remaining ch - k \<and>
    same_control (control ((dma_advance s ^^ k) ch)) (control ch)"
  using assms
proof (induction k)
  case (Suc k)
  let ?c = "(dma_advance s ^^ k) ch"
  have IH: "dma_remaining ?c = dma_remaining ch - k" "same_control (control ?c) (control ch)" using Suc by simp_all
  then have "dma_remaining ?c \<noteq> 0" using Suc.prems by simp
  from advance_control [OF this] show ?case using IH by (auto intro: same_control_trans)
qed simp

lemma advances_same:
  assumes "k \<le> dma_remaining ch"
  shows "bl808_dma_width_bytes s (control ((dma_advance s ^^ k) ch)) d = bl808_dma_width_bytes s (control ch) d"
    "tst (control ((dma_advance s ^^ k) ch)) 0x4000000 = tst (control ch) 0x4000000"
    "tst (control ((dma_advance s ^^ k) ch)) 0x8000000 = tst (control ch) 0x8000000"
    "tst (control ((dma_advance s ^^ k) ch)) 0x80000000 = tst (control ch) 0x80000000"
  using same_control_simps [of "control ((dma_advance s ^^ k) ch)" "control ch"] advances_control [OF assms, of s] by simp_all

lemma advances_addr:
  assumes "k \<le> dma_remaining ch"
  shows "src_addr ((dma_advance s ^^ k) ch) =
      (if tst (control ch) 0x4000000 then src_addr ch + of_nat (k * bl808_dma_width_bytes s (control ch) False) else src_addr ch)"
    and "dst_addr ((dma_advance s ^^ k) ch) =
      (if tst (control ch) 0x8000000 then dst_addr ch + of_nat (k * bl808_dma_width_bytes s (control ch) True) else dst_addr ch)"
  using assms
proof (induction k)
  case (Suc k)
  case 1
  then show ?case using Suc advances_same [of k ch s]
    by (simp add: advance_addr algebra_simps)
  case 2
  then show ?case using Suc advances_same [of k ch s]
    by (simp add: advance_addr algebra_simps)
qed simp_all

section \<open>Memory to memory\<close>

text \<open>A channel set up for a copy: equal widths, both addresses counting up.\<close>

definition dma_m2m :: "'e BL808DMAState \<Rightarrow> nat \<Rightarrow> BL808DMAChannel \<Rightarrow> bool" where
  "dma_m2m s w ch \<longleftrightarrow>
     bl808_dma_flow (config ch) = 0 \<and> w \<in> {1, 2, 4, 8} \<and>
     bl808_dma_width_bytes s (control ch) False = w \<and> bl808_dma_width_bytes s (control ch) True = w \<and>
     tst (control ch) DMA_CTRL_SRC_INC \<and> tst (control ch) DMA_CTRL_DST_INC"

text \<open>The bytes of a copy lie below 4 GiB, and the destination does not begin inside the source.\<close>

definition dma_copyable :: "u32 \<Rightarrow> u32 \<Rightarrow> nat \<Rightarrow> bool" where
  "dma_copyable src dst len \<longleftrightarrow>
     unat src + len < 2 ^ 32 \<and> unat dst + len < 2 ^ 32 \<and> (unat dst \<le> unat src \<or> unat src + len \<le> unat dst)"

lemma m2m_advance: "dma_m2m s w ch \<Longrightarrow> k \<le> dma_remaining ch \<Longrightarrow> dma_m2m s w ((dma_advance s ^^ k) ch)"
  using advances_same [of k ch s] by (simp add: dma_m2m_def)

lemma ucast_offset:
  assumes "unat (a :: u32) + n < 2 ^ 32"
  shows "(ucast (a + of_nat n) :: hwaddr) = ucast a + of_nat n"
proof (rule unsigned_word_eqI [where 'a = nat])
  have "unat (ucast a + of_nat n :: hwaddr) = unat (ucast a :: hwaddr) + unat (of_nat n :: hwaddr)"
    using assms by (intro unat_add_small) (simp add: unat_ucast_up unat_of_nat_small)
  then show "unat (ucast (a + of_nat n) :: hwaddr) = unat (ucast a + of_nat n :: hwaddr)"
    using assms by (simp add: unat_ucast_up unat_of_nat_small unat_add_of_nat)
qed

lemma m2m_loop:
  assumes "dma_m2m s w ch" and "k \<le> dma_remaining ch" and "dma_copyable (src_addr ch) (dst_addr ch) (k * w)"
  shows "dma_loop s k ch (m, e) p =
    ((dma_advance s ^^ k) ch, (copied (ucast (src_addr ch)) (ucast (dst_addr ch)) (k * w) m, e), p \<or> 0 < k, False)"
  using assms
proof (induction k arbitrary: ch m p)
  case (Suc k)
  have w: "w \<in> {1, 2, 4, 8}" and flow: "bl808_dma_flow (config ch) = 0"
    and width: "bl808_dma_width_bytes s (control ch) False = w" "bl808_dma_width_bytes s (control ch) True = w"
    and inc: "tst (control ch) 0x4000000" "tst (control ch) 0x8000000"
    using Suc.prems(1) by (simp_all add: dma_m2m_def)
  have bounds: "unat (src_addr ch) + (w + k * w) < 2 ^ 32" "unat (dst_addr ch) + (w + k * w) < 2 ^ 32"
    "unat (dst_addr ch) \<le> unat (src_addr ch) \<or> unat (src_addr ch) + (w + k * w) \<le> unat (dst_addr ch)"
    using Suc.prems(3) by (simp_all add: dma_copyable_def add.commute)
  let ?c = "dma_advance s ch" and ?m = "copied (ucast (src_addr ch)) (ucast (dst_addr ch)) w m"
  have r: "dma_remaining ch \<noteq> 0" using Suc.prems(2) by linarith
  have "k \<le> dma_remaining ?c" using advance_control(1) [OF r, of s] Suc.prems(2) by simp
  have addr: "src_addr ?c = src_addr ch + of_nat w" "dst_addr ?c = dst_addr ch + of_nat w"
    using inc width by (simp_all add: advance_addr)
  have u: "unat (src_addr ?c) = unat (src_addr ch) + w" "unat (dst_addr ?c) = unat (dst_addr ch) + w"
    unfolding addr using bounds by (simp_all add: unat_add_of_nat)
  have "dma_copyable (src_addr ?c) (dst_addr ?c) (k * w)"
    using bounds unfolding dma_copyable_def u by auto
  moreover have "dma_m2m s w ?c" using m2m_advance [OF Suc.prems(1), of 1] r by simp
  ultimately have IH: "dma_loop s k ?c (?m, e) True = ((dma_advance s ^^ k) ?c,
      (copied (ucast (src_addr ?c)) (ucast (dst_addr ?c)) (k * w) ?m, e), True, False)"
    using Suc.IH \<open>k \<le> dma_remaining ?c\<close> by simp
  have "copied (ucast (src_addr ?c)) (ucast (dst_addr ?c)) (k * w) ?m
      = copied (ucast (src_addr ch)) (ucast (dst_addr ch)) (w + k * w) m"
    using bounds unfolding addr by (simp add: ucast_offset copied_append unat_ucast_up)
  moreover have "control ch AND 0xFFF \<noteq> 0" using r by (metis unsigned_0)
  moreover have "dma_fetch s ch (m, e) = (Moved, bl808_dma_read_mem_value m (ucast (src_addr ch)) w, m, e)"
    using flow width by (simp add: dma_fetch_def)
  moreover have "dma_put s ch (bl808_dma_read_mem_value m (ucast (src_addr ch)) w) (m, e) = (Moved, ?m, e)"
    using flow width copy_value [OF w] by (simp add: dma_put_def)
  ultimately show ?case using IH by (simp add: funpow_swap1)
qed simp

section \<open>A run with one active channel\<close>

text \<open>A step of channel \<open>c\<close> leaves the other channels alone; an inactive channel's step changes nothing.\<close>

definition dma_others :: "nat \<Rightarrow> 'e BL808DMAState \<Rightarrow> BL808DMAChannel list" where
  "dma_others c s = (channels s)[c := zero_channel]"

lemma others_updates [simp]:
  "dma_others c (set_channel c ch s) = dma_others c s"
  "dma_others c (s\<lparr>raw_tc_status := v\<rparr>) = dma_others c s" "dma_others c (s\<lparr>raw_err_status := v\<rparr>) = dma_others c s"
  by (simp_all add: dma_others_def set_channel_def)

lemma others_channel [simp]:
  "dma_others c (bl808_dma_complete_channel c s) = dma_others c s"
  "dma_others c (bl808_dma_error_channel c s) = dma_others c s"
  "dma_others c (dma_finish c m s) = dma_others c s"
  by (simp_all add: bl808_dma_complete_channel_def bl808_dma_error_channel_def dma_finish_def Let_def split: option.split)

lemma others_if:
  "dma_others c (fst (snd (if b then x else y))) = (if b then dma_others c (fst (snd x)) else dma_others c (fst (snd y)))"
  by simp

lemma step_channel_others: "dma_others c (fst (snd (bl808_dma_step_channel c s w))) = dma_others c s"
  by (simp only: bl808_dma_step_channel_def Let_def split_beta others_if fst_conv snd_conv others_channel
      others_updates if_cancel)

lemma step_channel_nth:
  assumes "i \<noteq> c"
  shows "channels (fst (snd (bl808_dma_step_channel c s w))) ! i = channels s ! i"
    and "length (channels (fst (snd (bl808_dma_step_channel c s w)))) = length (channels s)"
  using arg_cong [OF step_channel_others [of c s w], of "\<lambda>xs. xs ! i"] assms
    arg_cong [OF step_channel_others [of c s w], of length]
  by (simp_all add: dma_others_def)

lemma inactive_step:
  assumes "\<not> active (channels s ! i)" and "i < length (channels s)"
  shows "bl808_dma_step_channel i s w = (False, s, w)"
proof -
  have "(channels s)[i := (channels s ! i)\<lparr>active := False\<rparr>] = channels s"
    using assms by (intro nth_equalityI) (auto simp: nth_list_update)
  then show ?thesis using assms by (simp add: bl808_dma_step_channel_def set_channel_def Let_def)
qed

lemma run_inactive_channels:
  "\<forall>i \<in> set is. i < length (channels s) \<and> \<not> active (channels s ! i) \<Longrightarrow> run_channels is p s w = (p, s, w)"
  by (induction "is") (simp_all add: inactive_step)

lemma run_single_channel:
  assumes "c \<in> set is" and "distinct is" and "\<forall>i \<in> set is. i < length (channels s) \<and> (i \<noteq> c \<longrightarrow> \<not> active (channels s ! i))"
  shows "run_channels is False s w = bl808_dma_step_channel c s w"
  using assms
proof (induction "is")
  case (Cons i "is")
  show ?case
  proof (cases "i = c")
    case True
    let ?s = "fst (snd (bl808_dma_step_channel c s w))"
    have "\<forall>j \<in> set is. j < length (channels ?s) \<and> \<not> active (channels ?s ! j)"
    proof
      fix j assume "j \<in> set is"
      then have "j \<noteq> c" using Cons.prems True by auto
      then show "j < length (channels ?s) \<and> \<not> active (channels ?s ! j)"
        using Cons.prems \<open>j \<in> set is\<close> step_channel_nth [of j c s w] by simp
    qed
    then show ?thesis using True by (simp add: split_beta run_inactive_channels)
  next
    case False
    then show ?thesis using Cons by (simp add: inactive_step)
  qed
qed simp

text \<open>The controller may run, and \<open>c\<close> is its only active channel, enabled and not halted.\<close>

definition dma_only :: "'e BL808DMAState \<Rightarrow> nat \<Rightarrow> bool" where
  "dma_only s c \<longleftrightarrow> bl808_dma_can_run s \<and> c < bl808_dma_channel_count s \<and> length (channels s) = 8 \<and>
     (\<forall>i < bl808_dma_channel_count s. i \<noteq> c \<longrightarrow> \<not> active (channels s ! i)) \<and>
     active (channels s ! c) \<and> tst (config (channels s ! c)) 1 \<and> \<not> tst (config (channels s ! c)) DMA_CFG_HALT"

lemma channel_count_le: "bl808_dma_channel_count s \<le> 8"
  by (simp add: bl808_dma_channel_count_def)

lemma run_channels_only:
  "dma_only s c \<Longrightarrow> run_channels [0..<bl808_dma_channel_count s] False s w = bl808_dma_step_channel c s w"
  using channel_count_le [of s] by (intro run_single_channel) (auto simp: dma_only_def)

lemma only_unscheduled:
  "dma_only s c \<Longrightarrow> dma_only (s\<lparr>run_scheduled := False\<rparr>) c"
  by (simp add: dma_only_def bl808_dma_can_run_def bl808_dma_channel_count_def)

lemma finish_no_list:
  "c < length (channels s) \<Longrightarrow> lli ch = 0 \<Longrightarrow> dma_finish c m (set_channel c ch s) = bl808_dma_complete_channel c (set_channel c ch s)"
  by (simp add: dma_finish_def set_channel_def bl808_dma_load_lli_def)

lemma m2m_step:
  assumes only: "dma_only s c" and ch: "channels s ! c = ch" and m2m: "dma_m2m s w ch" and lli: "lli ch = 0"
    and copyable: "dma_copyable (src_addr ch) (dst_addr ch) (dma_remaining ch * w)" and k: "k = min (dma_remaining ch) 64"
  shows "bl808_dma_step_channel c s (m, e) =
    (True, if dma_remaining ch \<le> 64 then bl808_dma_complete_channel c (set_channel c ((dma_advance s ^^ k) ch) s)
           else set_channel c ((dma_advance s ^^ k) ch) s,
     copied (ucast (src_addr ch)) (ucast (dst_addr ch)) (k * w) m, e)"
proof -
  have run: "active ch" "tst (config ch) 1" "\<not> tst (config ch) DMA_CFG_HALT" and c: "c < length (channels s)"
    using only ch channel_count_le [of s] by (auto simp: dma_only_def)
  have flow: "bl808_dma_flow (config ch) = 0" and w: "w \<noteq> 0"
    and width: "bl808_dma_width_bytes s (control ch) False = w" "bl808_dma_width_bytes s (control ch) True = w"
    using m2m by (auto simp: dma_m2m_def)
  have "unat (src_addr ch) + k * w \<le> unat (src_addr ch) + dma_remaining ch * w"
    "unat (dst_addr ch) + k * w \<le> unat (dst_addr ch) + dma_remaining ch * w" using k by simp_all
  then have "dma_copyable (src_addr ch) (dst_addr ch) (k * w)"
    using copyable unfolding dma_copyable_def by linarith
  then have loop: "dma_loop s k ch (m, e) False = ((dma_advance s ^^ k) ch,
      (copied (ucast (src_addr ch)) (ucast (dst_addr ch)) (k * w) m, e), 0 < k, False)"
    using m2m_loop [OF m2m, of k m e False] k by simp
  have limit: "dma_limit ch = k" using flow k by (simp add: dma_limit_def Let_def)
  show ?thesis
  proof (cases "dma_remaining ch = 0")
    case True
    have "set_channel c ch s = s" unfolding set_channel_def ch [symmetric] list_update_id by simp
    moreover have "control ch AND 0xFFF = 0" using True unsigned_eq_0_iff by blast
    moreover have "dma_finish c m s = bl808_dma_complete_channel c s"
      using finish_no_list [OF c lli, of m] \<open>set_channel c ch s = s\<close> by simp
    ultimately show ?thesis
      using True k run width w flow ch by (simp add: bl808_dma_step_channel_def Let_def)
  next
    case False
    have left: "control ((dma_advance s ^^ k) ch) AND 0xFFF = 0 \<longleftrightarrow> dma_remaining ch \<le> 64"
      using advances_control [of k ch s] k by (metis diff_is_0_eq min.cobounded1 min_def unsigned_0 unsigned_eq_0_iff)
    have nz: "control ch AND 0xFFF \<noteq> 0" using False by (metis unsigned_0)
    have fin: "dma_finish c m' (set_channel c ((dma_advance s ^^ k) ch) s) =
        bl808_dma_complete_channel c (set_channel c ((dma_advance s ^^ k) ch) s)" for m'
      using finish_no_list [OF c] lli by simp
    have "0 < k" using k False by simp
    then show ?thesis
      using run width w flow nz left fin unfolding bl808_dma_step_channel_def Let_def ch limit loop by simp
  qed
qed

text \<open>
  A copy in progress on channel \<open>c\<close>: \<open>n\<close> data of \<open>w\<close> bytes are left, at \<open>src\<close> and \<open>dst\<close>; and a
  finished one.  \<open>tc\<close> says whether the control word asks for a completion interrupt.
\<close>

definition dma_copying :: "'e BL808DMAState \<Rightarrow> nat \<Rightarrow> nat \<Rightarrow> u32 \<Rightarrow> u32 \<Rightarrow> nat \<Rightarrow> bool \<Rightarrow> bool" where
  "dma_copying s c w src dst n tc \<longleftrightarrow> dma_only s c \<and>
     (let ch = channels s ! c in dma_m2m s w ch \<and> lli ch = 0 \<and> src_addr ch = src \<and> dst_addr ch = dst \<and>
        dma_remaining ch = n \<and> tst (control ch) DMA_CTRL_TC_IRQ_EN = tc)"

definition dma_copy_done :: "'e BL808DMAState \<Rightarrow> nat \<Rightarrow> u32 \<Rightarrow> u32 \<Rightarrow> bool \<Rightarrow> bool" where
  "dma_copy_done s c src dst tc \<longleftrightarrow>
     (let ch = channels s ! c in \<not> active ch \<and> \<not> tst (config ch) DMA_CFG_ENABLE \<and> src_addr ch = src \<and> dst_addr ch = dst \<and>
        dma_remaining ch = 0) \<and>
     (tc \<longrightarrow> bit (raw_tc_status s) c) \<and> \<not> bl808_dma_has_active_channels s \<and> \<not> run_scheduled s"

lemma schedule_update_fields [simp]:
  "channels (bl808_dma_update_irq s) = channels s" "channels (bl808_dma_schedule s) = channels s"
  "raw_tc_status (bl808_dma_update_irq s) = raw_tc_status s"
  "bl808_dma_channel_count (bl808_dma_update_irq s) = bl808_dma_channel_count s"
  "bl808_dma_channel_count (bl808_dma_schedule s) = bl808_dma_channel_count s"
  "bl808_dma_can_run (bl808_dma_update_irq s) = bl808_dma_can_run s"
  "bl808_dma_can_run (bl808_dma_schedule s) = bl808_dma_can_run s"
  "supports_doubleword_width (bl808_dma_update_irq s) = supports_doubleword_width s"
  "supports_doubleword_width (bl808_dma_schedule s) = supports_doubleword_width s"
  "run_scheduled (bl808_dma_update_irq s) = run_scheduled s"
  by (simp_all add: bl808_dma_update_irq_def bl808_dma_schedule_def Let_def bl808_dma_channel_count_def bl808_dma_can_run_def)

lemma has_active_update [simp]: "bl808_dma_has_active_channels (bl808_dma_update_irq s) = bl808_dma_has_active_channels s"
  by (simp add: bl808_dma_has_active_channels_def)

lemma m2m_dw: "supports_doubleword_width s' = supports_doubleword_width s \<Longrightarrow> dma_m2m s' w ch = dma_m2m s w ch"
  by (simp add: dma_m2m_def bl808_dma_width_bytes_def)

lemma only_set_channel:
  assumes "dma_only s c" and "active ch" and "config ch = config (channels s ! c)"
  shows "dma_only (set_channel c ch s) c"
proof -
  have "c < length (channels s)" using assms channel_count_le [of s] by (auto simp: dma_only_def)
  then show ?thesis using assms
    by (simp add: dma_only_def set_channel_def bl808_dma_can_run_def bl808_dma_channel_count_def)
qed

lemma only_schedule_update: "dma_only s c \<Longrightarrow> dma_only (bl808_dma_schedule (bl808_dma_update_irq s)) c"
  by (simp add: dma_only_def)

lemma only_has_active: "dma_only s c \<Longrightarrow> bl808_dma_has_active_channels s"
  by (auto simp: dma_only_def bl808_dma_has_active_channels_def)

lemma run_bh_only:
  assumes "dma_only s c"
  shows "bl808_dma_run_bh t s w =
    (case bl808_dma_step_channel c (s\<lparr>run_scheduled := False\<rparr>) w of (progress, s, w) \<Rightarrow>
       let s = bl808_dma_update_irq s in
       if \<not> bl808_dma_has_active_channels s then (s, w)
       else if progress then (bl808_dma_schedule s, w) else (bl808_dma_reschedule_poll t s, w))"
proof -
  note only = only_unscheduled [OF assms]
  then have "bl808_dma_can_run (s\<lparr>run_scheduled := False\<rparr>)" by (simp add: dma_only_def)
  then show ?thesis using run_channels_only [OF only] by (simp add: bl808_dma_run_bh_def)
qed

lemma m2m_run_more:
  assumes copy: "dma_copying s c w src dst n tc" and n: "64 < n" and ok: "dma_copyable src dst (n * w)"
  shows "\<exists>s'. bl808_dma_run_bh t s (m, e) = (s', copied (ucast src) (ucast dst) (64 * w) m, e) \<and>
    dma_copying s' c w (src + of_nat (64 * w)) (dst + of_nat (64 * w)) (n - 64) tc"
proof -
  let ?s = "s\<lparr>run_scheduled := False\<rparr>" and ?ch = "channels s ! c"
  let ?ch' = "(dma_advance ?s ^^ 64) ?ch"
  have only: "dma_only s c" and ch: "dma_m2m s w ?ch" "lli ?ch = 0" "src_addr ?ch = src" "dst_addr ?ch = dst"
    "dma_remaining ?ch = n" "tst (control ?ch) DMA_CTRL_TC_IRQ_EN = tc"
    using copy by (simp_all add: dma_copying_def Let_def)
  have m2m: "dma_m2m ?s w ?ch" using ch(1) m2m_dw [of ?s s] by simp
  have step: "bl808_dma_step_channel c ?s (m, e) = (True, set_channel c ?ch' ?s, copied (ucast src) (ucast dst) (64 * w) m, e)"
    using m2m_step [OF only_unscheduled [OF only] _ m2m ch(2), of 64 m e] ch ok n by simp
  have only': "dma_only (set_channel c ?ch' ?s) c"
    using only by (intro only_set_channel only_unscheduled) (simp_all add: dma_only_def)
  let ?s' = "bl808_dma_schedule (bl808_dma_update_irq (set_channel c ?ch' ?s))"
  have "channels ?s' ! c = ?ch'" using only channel_count_le [of s] by (auto simp: dma_only_def set_channel_def)
  moreover have le: "64 \<le> dma_remaining ?ch" using ch n by simp
  moreover have "dma_m2m ?s' w ?ch'"
    using m2m_advance [OF m2m le] m2m_dw [of ?s' ?s] by (simp add: set_channel_def)
  moreover have "src_addr ?ch' = src + of_nat (64 * w)" "dst_addr ?ch' = dst + of_nat (64 * w)"
    using advances_addr [OF le, of ?s] m2m ch by (simp_all add: dma_m2m_def)
  ultimately have "dma_copying ?s' c w (src + of_nat (64 * w)) (dst + of_nat (64 * w)) (n - 64) tc"
    using only_schedule_update [OF only'] advances_control [OF le, of ?s] advances_same(4) [OF le, of ?s] ch
    by (simp add: dma_copying_def Let_def)
  moreover have "bl808_dma_run_bh t s (m, e) = (?s', copied (ucast src) (ucast dst) (64 * w) m, e)"
    using only_has_active [OF only'] unfolding run_bh_only [OF only] step by (simp add: Let_def)
  ultimately show ?thesis by blast
qed

lemma config_disabled: "\<not> tst (x AND NOT (1 OR 0x40000) :: u32) 1"
proof -
  have "(x AND NOT (1 OR 0x40000)) AND (1 :: u32) = 0" by (simp add: and.assoc)
  then show ?thesis by (simp add: tst_def)
qed

lemma control_complete:
  "(x AND NOT 0xFFF) AND 0xFFF = (0 :: u32)" "tst (x AND NOT 0xFFF :: u32) 0x80000000 = tst x 0x80000000"
proof -
  show "(x AND NOT 0xFFF) AND 0xFFF = (0 :: u32)" by (rule bit_word_eqI) (auto simp: bit_simps)
  have "same_control (x AND NOT 0xFFF) x"
    using count_bits(2) [of 0 _ x] by (simp add: same_control_def)
  then show "tst (x AND NOT 0xFFF :: u32) 0x80000000 = tst x 0x80000000" by (rule same_control_simps)
qed

lemma complete_copy_done:
  assumes "dma_only s c" and "\<not> run_scheduled s"
  shows "dma_copy_done (bl808_dma_complete_channel c (set_channel c ch s)) c (src_addr ch) (dst_addr ch)
    (tst (control ch) DMA_CTRL_TC_IRQ_EN)"
proof -
  have c: "c < length (channels s)" "c < 32" and idle: "\<And>i. i < bl808_dma_channel_count s \<Longrightarrow> i \<noteq> c \<Longrightarrow> \<not> active (channels s ! i)"
    using assms channel_count_le [of s] by (auto simp: dma_only_def)
  let ?s = "bl808_dma_complete_channel c (set_channel c ch s)"
  have ch: "channels ?s = (channels s)[c := ch\<lparr>active := False, config := config ch AND NOT (1 OR 0x40000),
      control := control ch AND NOT 0xFFF\<rparr>]"
    using c by (simp add: bl808_dma_complete_channel_def set_channel_def Let_def)
  have "dma_frame ?s = dma_frame s" by simp
  from dma_frame_eqD [OF this] have count: "bl808_dma_channel_count ?s = bl808_dma_channel_count s"
    and sched: "run_scheduled ?s = run_scheduled s" by simp_all
  have "bl808_dma_has_active_channels ?s = False"
    using idle c unfolding bl808_dma_has_active_channels_def ch count by (auto simp: nth_list_update)
  moreover have "tst (control ch) 0x80000000 \<Longrightarrow> bit (raw_tc_status ?s) c"
    using c control_complete(2) [of "control ch"]
    by (simp add: bl808_dma_complete_channel_def set_channel_def Let_def bit_simps)
  ultimately show ?thesis
    using c assms(2) config_disabled [of "config ch"] control_complete(1) [of "control ch"] unfolding dma_copy_done_def ch sched
    by simp
qed

lemma m2m_run_last:
  assumes copy: "dma_copying s c w src dst n tc" and n: "n \<le> 64" and ok: "dma_copyable src dst (n * w)"
  shows "\<exists>s'. bl808_dma_run_bh t s (m, e) = (s', copied (ucast src) (ucast dst) (n * w) m, e) \<and>
    dma_copy_done s' c (src + of_nat (n * w)) (dst + of_nat (n * w)) tc"
proof -
  let ?s = "s\<lparr>run_scheduled := False\<rparr>" and ?ch = "channels s ! c"
  let ?ch' = "(dma_advance ?s ^^ n) ?ch"
  have only: "dma_only s c" and ch: "dma_m2m s w ?ch" "lli ?ch = 0" "src_addr ?ch = src" "dst_addr ?ch = dst"
    "dma_remaining ?ch = n" "tst (control ?ch) DMA_CTRL_TC_IRQ_EN = tc"
    using copy by (simp_all add: dma_copying_def Let_def)
  have m2m: "dma_m2m ?s w ?ch" using ch(1) m2m_dw [of ?s s] by simp
  let ?s1 = "bl808_dma_complete_channel c (set_channel c ?ch' ?s)"
  have step: "bl808_dma_step_channel c ?s (m, e) = (True, ?s1, copied (ucast src) (ucast dst) (n * w) m, e)"
    using m2m_step [OF only_unscheduled [OF only] _ m2m ch(2) _ refl, of m e] ok n
    unfolding ch(3,4,5) min_absorb1 [OF n] by simp
  have le: "n \<le> dma_remaining ?ch" using ch by simp
  have "src_addr ?ch' = src + of_nat (n * w)" "dst_addr ?ch' = dst + of_nat (n * w)"
    using advances_addr [OF le, of ?s] m2m ch by (simp_all add: dma_m2m_def)
  moreover have "tst (control ?ch') 0x80000000 = tc" using advances_same(4) [OF le] ch by simp
  ultimately have fin: "dma_copy_done ?s1 c (src + of_nat (n * w)) (dst + of_nat (n * w)) tc"
    using complete_copy_done [OF only_unscheduled [OF only], of ?ch'] by simp
  then have "dma_copy_done (bl808_dma_update_irq ?s1) c (src + of_nat (n * w)) (dst + of_nat (n * w)) tc"
    by (simp add: dma_copy_done_def)
  moreover have "bl808_dma_run_bh t s (m, e) = (bl808_dma_update_irq ?s1, copied (ucast src) (ucast dst) (n * w) m, e)"
    using fin unfolding run_bh_only [OF only] step by (simp add: Let_def dma_copy_done_def)
  ultimately show ?thesis by blast
qed

text \<open>Runs of the bottom half: each moves 64 data, until the last one, which completes the channel.\<close>

lemma m2m_runs:
  assumes "dma_copying s c w src dst n tc" and "dma_copyable src dst (n * w)" and "length ts \<le> max 1 ((n + 63) div 64)"
    and "k = min n (64 * length ts)"
  shows "\<exists>s'. fold dma_step (map Dma_run ts) (s, m, e) = (s', copied (ucast src) (ucast dst) (k * w) m, e) \<and>
    (if length ts = max 1 ((n + 63) div 64) then dma_copy_done s' c (src + of_nat (k * w)) (dst + of_nat (k * w)) tc
     else dma_copying s' c w (src + of_nat (k * w)) (dst + of_nat (k * w)) (n - k) tc)"
  using assms
proof (induction ts arbitrary: s src dst n k m)
  case Nil
  then show ?case by (simp add: copied_0)
next
  case (Cons t ts)
  show ?case
  proof (cases "n \<le> 64")
    case True
    then have "(n + 63) div 64 \<le> 1" by simp
    then have "ts = []" "max 1 ((n + 63) div 64) = 1" using Cons.prems(3) by simp_all
    then show ?thesis using m2m_run_last [OF Cons.prems(1) True Cons.prems(2), of t m e] True Cons.prems(4) by auto
  next
    case False
    then obtain s1 where run: "bl808_dma_run_bh t s (m, e) = (s1, copied (ucast src) (ucast dst) (64 * w) m, e)"
      and copy: "dma_copying s1 c w (src + of_nat (64 * w)) (dst + of_nat (64 * w)) (n - 64) tc"
      using m2m_run_more [OF Cons.prems(1) _ Cons.prems(2)] by force
    define j where "j = min (n - 64) (64 * length ts)"
    have k: "k = 64 + j" "n - k = n - 64 - j" using False Cons.prems(4) by (simp_all add: j_def)
    then have kw: "k * w = 64 * w + j * w" by (simp add: distrib_right)
    have nw: "n * w = 64 * w + (n - 64) * w" using False by (simp flip: distrib_right)
    have jw: "j * w \<le> (n - 64) * w" by (simp add: j_def)
    have bounds: "unat src + (64 * w + (n - 64) * w) < 2 ^ 32" "unat dst + (64 * w + (n - 64) * w) < 2 ^ 32"
      "unat dst \<le> unat src \<or> unat src + (64 * w + (n - 64) * w) \<le> unat dst"
      using Cons.prems(2) unfolding dma_copyable_def nw by simp_all
    have bounds': "unat src + (64 * w + j * w) < 2 ^ 32" "unat dst + (64 * w + j * w) < 2 ^ 32"
      "unat dst \<le> unat src \<or> unat src + (64 * w + j * w) \<le> unat dst" using bounds jw by linarith+
    have u: "unat (src + of_nat (64 * w)) = unat src + 64 * w" "unat (dst + of_nat (64 * w)) = unat dst + 64 * w"
      using bounds by (simp_all add: unat_add_of_nat del: of_nat_mult)
    have ok: "dma_copyable (src + of_nat (64 * w)) (dst + of_nat (64 * w)) ((n - 64) * w)"
      using bounds unfolding dma_copyable_def u by auto
    have "(n + 63) div 64 = Suc ((n - 64 + 63) div 64)" "1 \<le> (n - 64 + 63) div 64" using False by auto
    then have len: "length ts \<le> max 1 ((n - 64 + 63) div 64)"
      "length (t # ts) = max 1 ((n + 63) div 64) \<longleftrightarrow> length ts = max 1 ((n - 64 + 63) div 64)" using Cons.prems(3) by simp_all
    have copies: "copied (ucast (src + of_nat (64 * w))) (ucast (dst + of_nat (64 * w))) (j * w)
        (copied (ucast src) (ucast dst) (64 * w) m) = copied (ucast src) (ucast dst) (k * w) m"
      using bounds' unfolding kw by (subst ucast_offset, simp, subst ucast_offset, simp, intro copied_append) (simp_all add: unat_ucast_up)
    have sum: "x + of_nat (64 * w) + of_nat (j * w) = x + (of_nat (k * w) :: u32)" for x
      unfolding kw by (simp only: of_nat_add add.assoc)
    show ?thesis using Cons.IH [OF copy ok len(1) j_def, of "copied (ucast src) (ucast dst) (64 * w) m"]
      unfolding copies sum len(2) k(2) by (simp add: run)
  qed
qed

end
