(* ===== verification/Dma_Source.thy ===== *)
theory Dma_Source
  imports Dma_Move
begin

text \<open>
  Peripherals as sources of bytes.  The locale \<open>dma_source\<close> is what the DMA controller relies on
  in the operations a peripheral registers for reading; a channel that moves bytes from such a
  peripheral to memory delivers them in order and loses none.
\<close>

text \<open>A channel that moves bytes from request line \<open>req\<close> to successive addresses.\<close>

definition dma_p2m :: "'e BL808DMAState \<Rightarrow> nat \<Rightarrow> BL808DMAChannel \<Rightarrow> bool" where
  "dma_p2m s req ch \<longleftrightarrow>
     bl808_dma_flow (config ch) \<in> {2, 6} \<and> bl808_dma_src_request (config ch) = req \<and>
     bl808_dma_width_bytes s (control ch) False = 1 \<and> bl808_dma_width_bytes s (control ch) True = 1 \<and>
     tst (control ch) DMA_CTRL_DST_INC"

definition dma_burst :: "BL808DMAChannel \<Rightarrow> nat" where
  "dma_burst ch = max (bl808_dma_burst_len (control ch) False) (bl808_dma_burst_len (control ch) True)"

lemma dma_burst_bounds: "1 \<le> dma_burst ch" "dma_burst ch \<le> 16"
  by (simp_all add: dma_burst_def bl808_dma_burst_len_def Let_def max_def)

lemma p2m_limit: "dma_p2m s req ch \<Longrightarrow> dma_limit ch = min (dma_remaining ch) (dma_burst ch)"
  using dma_burst_bounds [of ch] by (auto simp: dma_p2m_def dma_limit_def dma_burst_def Let_def)

lemma p2m_advance: "dma_p2m s req ch \<Longrightarrow> k \<le> dma_remaining ch \<Longrightarrow> dma_p2m s req ((dma_advance s ^^ k) ch)"
  using advances_same [of k ch s] by (simp add: dma_p2m_def)

lemma p2m_cong:
  "supports_doubleword_width s' = supports_doubleword_width s \<Longrightarrow> dma_p2m s' req ch = dma_p2m s req ch"
  by (simp add: dma_p2m_def bl808_dma_width_bytes_def)

lemma advances_burst: "k \<le> dma_remaining ch \<Longrightarrow> dma_burst ((dma_advance s ^^ k) ch) = dma_burst ch"
  using same_control_simps(2) [OF conjunct2 [OF advances_control [of k ch s]]] by (simp add: dma_burst_def)

text \<open>A transfer in progress, and a controller without active channels.\<close>

definition dma_receiving :: "'e BL808DMAState \<Rightarrow> nat \<Rightarrow> nat \<Rightarrow> u32 \<Rightarrow> nat \<Rightarrow> nat \<Rightarrow> bool" where
  "dma_receiving s c req dst n b \<longleftrightarrow> dma_only s c \<and> n \<noteq> 0 \<and>
     (let ch = channels s ! c in dma_p2m s req ch \<and> lli ch = 0 \<and> dst_addr ch = dst \<and> dma_remaining ch = n \<and> dma_burst ch = b)"

definition dma_received :: "'e BL808DMAState \<Rightarrow> nat \<Rightarrow> u32 \<Rightarrow> bool" where
  "dma_received s c dst \<longleftrightarrow> length (channels s) = 8 \<and> c < 8 \<and> \<not> bl808_dma_has_active_channels s \<and>
     (let ch = channels s ! c in \<not> active ch \<and> dst_addr ch = dst \<and> dma_remaining ch = 0)"

lemma received_run:
  assumes "dma_received s c dst"
  shows "\<exists>s'. bl808_dma_run_bh t s w = (s', w) \<and> dma_received s' c dst"
proof -
  let ?s = "s\<lparr>run_scheduled := False\<rparr>"
  have "run_channels [0..<bl808_dma_channel_count ?s] False ?s w = (False, ?s, w)"
    using assms channel_count_le [of s]
    by (intro run_inactive_channels) (auto simp: dma_received_def bl808_dma_has_active_channels_def bl808_dma_channel_count_def)
  moreover have "\<not> bl808_dma_has_active_channels ?s"
    using assms by (simp add: dma_received_def bl808_dma_has_active_channels_def bl808_dma_channel_count_def)
  moreover have "dma_received (bl808_dma_update_irq ?s) c dst"
    using assms \<open>\<not> bl808_dma_has_active_channels ?s\<close> by (simp add: dma_received_def)
  ultimately show ?thesis by (simp add: bl808_dma_run_bh_def Let_def)
qed

lemma received_runs:
  "dma_received s c dst \<Longrightarrow> \<exists>s'. fold dma_step (map Dma_run ts) (s, w) = (s', w) \<and> dma_received s' c dst"
proof (induction ts arbitrary: s)
  case (Cons t ts)
  then show ?case using received_run [OF Cons.prems, of t w] by auto
qed simp

locale dma_source =
  fixes ops :: "'e BL808DMARequestOps"
    and ok :: "'e \<Rightarrow> bool"
    and offers :: "'e \<Rightarrow> bool"
    and items :: "'e \<Rightarrow> u8 list"
  assumes can_read_items: "ok e \<Longrightarrow> offers e \<Longrightarrow> \<exists>f. can_read ops = Some f \<and> (f e 1 \<longleftrightarrow> items e \<noteq> [])"
    and read_item: "ok e \<Longrightarrow> offers e \<Longrightarrow> items e = x # xs \<Longrightarrow>
      \<exists>f e'. req_read ops = Some f \<and> f 1 e = (ucast x, e') \<and> ok e' \<and> offers e' \<and> items e' = xs"
begin

lemma p2m_fetch:
  assumes "dma_p2m s req ch" and "requests s ! req = Some ops" and "ok e" and "offers e"
  shows "items e = [] \<Longrightarrow> dma_fetch s ch (m, e) = (Blocked, 0, m, e)"
    and "items e = x # xs \<Longrightarrow> \<exists>e'. dma_fetch s ch (m, e) = (Moved, ucast x, m, e') \<and> ok e' \<and> offers e' \<and> items e' = xs"
proof -
  have "bl808_dma_src_request (config ch) < 32"
    using unat_and_mask [of "drop_bit 1 (config ch)" 5] by (simp add: bl808_dma_src_request_def mask_numeral)
  then have "\<not> 32 \<le> req" using assms(1) by (simp add: dma_p2m_def)
  moreover obtain f where "can_read ops = Some f" "f e 1 \<longleftrightarrow> items e \<noteq> []" using can_read_items assms by blast
  ultimately have can: "bl808_dma_request_can_read s e req 1 \<longleftrightarrow> items e \<noteq> []"
    using assms(2) by (simp add: bl808_dma_request_can_read_def)
  have flow: "bl808_dma_flow (config ch) \<noteq> 0" "bl808_dma_flow (config ch) \<noteq> 1" "bl808_dma_flow (config ch) \<noteq> 5"
    "bl808_dma_flow (config ch) \<in> {2, 6, 3, 4, 7}" using assms(1) by (auto simp: dma_p2m_def)
  show "items e = [] \<Longrightarrow> dma_fetch s ch (m, e) = (Blocked, 0, m, e)"
    using assms(1) can flow by (simp add: dma_fetch_def dma_p2m_def)
  assume x: "items e = x # xs"
  then obtain f e' where e': "req_read ops = Some f" "f 1 e = (ucast x, e')" "ok e'" "offers e'" "items e' = xs"
    using read_item assms by blast
  have "(ucast (ucast x :: u32) :: u64) = ucast x" by (rule bit_word_eqI) (auto simp: bit_simps dest: bit_imp_le_length)
  then have "dma_fetch s ch (m, e) = (Moved, ucast x, m, e')"
    using assms(1,2) can flow x e'(1,2) by (simp add: dma_fetch_def dma_p2m_def bl808_dma_request_read_def)
  then show "\<exists>e'. dma_fetch s ch (m, e) = (Moved, ucast x, m, e') \<and> ok e' \<and> offers e' \<and> items e' = xs"
    using e' by blast
qed

lemma p2m_loop:
  assumes "dma_p2m s req ch" and "requests s ! req = Some ops" and "ok e" and "offers e"
    and "k \<le> dma_remaining ch" and "unat (dst_addr ch) + k < 2 ^ 32" and "j = min k (length (items e))"
  shows "\<exists>e'. dma_loop s k ch (m, e) p = ((dma_advance s ^^ j) ch,
      (store_bytes (ucast (dst_addr ch)) (take j (items e)) m, e'), p \<or> 0 < j, False) \<and>
    ok e' \<and> offers e' \<and> items e' = drop j (items e)"
  using assms
proof (induction k arbitrary: ch m e p j)
  case (Suc k)
  have r: "dma_remaining ch \<noteq> 0" using Suc.prems(5) by linarith
  then have nz: "control ch AND 0xFFF \<noteq> 0" by (metis unsigned_0)
  show ?case
  proof (cases "items e")
    case Nil
    then show ?thesis using Suc.prems nz p2m_fetch(1) [OF Suc.prems(1-4)] by simp
  next
    case (Cons x xs)
    obtain e1 where fetch: "dma_fetch s ch (m, e) = (Moved, ucast x, m, e1)" and e1: "ok e1" "offers e1" "items e1 = xs"
      using p2m_fetch(2) [OF Suc.prems(1-4) Cons] by blast
    let ?c = "dma_advance s ch" and ?m = "m(ucast (dst_addr ch) := x)"
    have flow: "bl808_dma_flow (config ch) \<in> {0, 2, 6}" using Suc.prems(1) by (auto simp: dma_p2m_def)
    have "(ucast (ucast x :: u64) :: u8) = x" by (rule bit_word_eqI) (auto simp: bit_simps)
    then have put: "dma_put s ch (ucast x) (m, e1) = (Moved, ?m, e1)"
      using Suc.prems(1) flow by (simp add: dma_put_def dma_p2m_def bl808_dma_write_mem_value_def)
    have dst: "dst_addr ?c = dst_addr ch + of_nat 1" using Suc.prems(1) by (simp add: advance_addr dma_p2m_def)
    have udst: "unat (dst_addr ?c) = unat (dst_addr ch) + 1" unfolding dst using Suc.prems(6) by (intro unat_add_of_nat) simp
    have cdst: "(ucast (dst_addr ?c) :: hwaddr) = ucast (dst_addr ch) + 1"
      unfolding dst using Suc.prems(6) by (subst ucast_offset) simp_all
    have "dma_p2m s req ?c" using p2m_advance [OF Suc.prems(1), of 1] r by simp
    moreover have "k \<le> dma_remaining ?c" using advance_control(1) [OF r, of s] Suc.prems(5) by simp
    moreover have "unat (dst_addr ?c) + k < 2 ^ 32" using Suc.prems(6) udst by simp
    ultimately obtain e' where IH: "dma_loop s k ?c (?m, e1) True = ((dma_advance s ^^ min k (length xs)) ?c,
        (store_bytes (ucast (dst_addr ?c)) (take (min k (length xs)) xs) ?m, e'), True, False)"
      "ok e'" "offers e'" "items e' = drop (min k (length xs)) xs"
      using Suc.IH [of ?c e1 "min k (length xs)" ?m True] Suc.prems(2) e1 unfolding simp_thms by blast
    have "j = Suc (min k (length xs))" using Suc.prems(7) Cons by simp
    then show ?thesis using IH nz fetch put cdst Cons by (simp add: funpow_swap1)
  qed
qed simp

lemma p2m_step:
  assumes recv: "dma_receiving s c req dst n b" and line: "requests s ! req = Some ops" and e: "ok e" "offers e"
    and bound: "unat dst + n < 2 ^ 32" and j: "j = min (min n b) (length (items e))"
  shows "\<exists>p s' e'. bl808_dma_step_channel c s (m, e) = (p, s', store_bytes (ucast dst) (take j (items e)) m, e') \<and>
    ok e' \<and> offers e' \<and> items e' = drop j (items e) \<and>
    s' = (if j = n then bl808_dma_complete_channel c (set_channel c ((dma_advance s ^^ j) (channels s ! c)) s)
          else set_channel c ((dma_advance s ^^ j) (channels s ! c)) s)"
proof -
  let ?ch = "channels s ! c" and ?k = "min n b"
  have only: "dma_only s c" and n: "n \<noteq> 0" and p2m: "dma_p2m s req ?ch" and lli: "lli ?ch = 0" and dst: "dst_addr ?ch = dst"
    and rem: "dma_remaining ?ch = n" and burst: "dma_burst ?ch = b"
    using recv by (simp_all add: dma_receiving_def Let_def)
  have run: "active ?ch" "tst (config ?ch) 1" "\<not> tst (config ?ch) DMA_CFG_HALT" and c: "c < length (channels s)"
    using only channel_count_le [of s] by (auto simp: dma_only_def)
  have flow: "bl808_dma_flow (config ?ch) \<noteq> 0" "bl808_dma_flow (config ?ch) \<notin> {1, 5}"
    and width: "bl808_dma_width_bytes s (control ?ch) False = 1" "bl808_dma_width_bytes s (control ?ch) True = 1"
    and req: "bl808_dma_src_request (config ?ch) = req"
    using p2m by (auto simp: dma_p2m_def)
  have limit: "dma_limit ?ch = ?k" using p2m_limit [OF p2m] rem burst by simp
  obtain e' where loop: "dma_loop s ?k ?ch (m, e) False = ((dma_advance s ^^ j) ?ch,
      (store_bytes (ucast dst) (take j (items e)) m, e'), 0 < j, False)" and e': "ok e'" "offers e'" "items e' = drop j (items e)"
    using p2m_loop [OF p2m line e _ _ j, of m False] bound unfolding rem dst simp_thms by force
  have nz: "control ?ch AND 0xFFF \<noteq> 0" using n rem by (metis unsigned_0)
  have "dma_remaining ((dma_advance s ^^ j) ?ch) = n - j" "j \<le> n" using advances_control [of j ?ch s] rem j by simp_all
  then have left: "control ((dma_advance s ^^ j) ?ch) AND 0xFFF = 0 \<longleftrightarrow> j = n"
    by (metis diff_is_0_eq diff_self_eq_0 le_antisym unsigned_0 unsigned_eq_0_iff)
  have fin: "dma_finish c m' (set_channel c ((dma_advance s ^^ j) ?ch) s) =
      bl808_dma_complete_channel c (set_channel c ((dma_advance s ^^ j) ?ch) s)" for m'
    using finish_no_list [OF c] lli by simp
  show ?thesis using run width flow nz left fin line req e'
    unfolding bl808_dma_step_channel_def Let_def limit loop by (cases "j = n") (simp_all, blast)
qed

lemma p2m_run:
  assumes recv: "dma_receiving s c req dst n b" and line: "requests s ! req = Some ops" and e: "ok e" "offers e"
    and bound: "unat dst + n < 2 ^ 32" and j: "j = min (min n b) (length (items e))"
  shows "\<exists>s' e'. bl808_dma_run_bh t s (m, e) = (s', store_bytes (ucast dst) (take j (items e)) m, e') \<and>
    ok e' \<and> offers e' \<and> items e' = drop j (items e) \<and> requests s' = requests s \<and>
    (if j = n then dma_received s' c (dst + of_nat n) else dma_receiving s' c req (dst + of_nat j) (n - j) b)"
proof -
  let ?s = "s\<lparr>run_scheduled := False\<rparr>" and ?ch = "channels s ! c"
  let ?ch' = "(dma_advance ?s ^^ j) ?ch"
  have only: "dma_only s c" and p2m: "dma_p2m s req ?ch" and ch: "lli ?ch = 0" "dst_addr ?ch = dst"
    "dma_remaining ?ch = n" "dma_burst ?ch = b" "n \<noteq> 0"
    using recv by (simp_all add: dma_receiving_def Let_def)
  have p2m': "dma_p2m ?s req ?ch" using p2m p2m_cong [of ?s s] by simp
  have "dma_receiving ?s c req dst n b" using recv p2m' only_unscheduled [OF only] by (simp add: dma_receiving_def Let_def)
  from p2m_step [OF this _ e bound j, of m] line obtain p s1 e' where
    step: "bl808_dma_step_channel c ?s (m, e) = (p, s1, store_bytes (ucast dst) (take j (items e)) m, e')"
    and e': "ok e'" "offers e'" "items e' = drop j (items e)"
    and s1: "s1 = (if j = n then bl808_dma_complete_channel c (set_channel c ?ch' ?s) else set_channel c ?ch' ?s)"
    by auto
  have le: "j \<le> dma_remaining ?ch" "j \<le> n" using ch j by simp_all
  have addr: "dst_addr ?ch' = dst + of_nat j" using advances_addr(2) [OF le(1), of ?s] p2m' ch by (simp add: dma_p2m_def)
  have frame: "dma_frame s1 = dma_frame ?s" unfolding s1 by simp
  show ?thesis
  proof (cases "j = n")
    case True
    have fin: "dma_copy_done s1 c (src_addr ?ch') (dst_addr ?ch') (tst (control ?ch') 0x80000000)"
      using complete_copy_done [OF only_unscheduled [OF only], of ?ch'] True s1 by simp
    then have idle: "\<not> bl808_dma_has_active_channels (bl808_dma_update_irq s1)" by (simp add: dma_copy_done_def)
    have "length (channels s1) = 8" "c < 8"
      using only True s1 channel_count_le [of s]
      by (auto simp: dma_only_def bl808_dma_complete_channel_def set_channel_def Let_def)
    then have "dma_received (bl808_dma_update_irq s1) c (dst + of_nat n)"
      using fin addr True by (simp add: dma_copy_done_def dma_received_def Let_def)
    moreover have "bl808_dma_run_bh t s (m, e) =
        (bl808_dma_update_irq s1, store_bytes (ucast dst) (take j (items e)) m, e')"
      using idle unfolding run_bh_only [OF only] step by (simp add: Let_def)
    ultimately show ?thesis using e' True dma_frame_eqD(5) [OF frame] by (simp add: bl808_dma_update_irq_def Let_def)
  next
    case False
    then have s1: "s1 = set_channel c ?ch' ?s" using s1 by simp
    have only': "dma_only s1 c"
      using only unfolding s1 by (intro only_set_channel only_unscheduled) (simp_all add: dma_only_def)
    define s2 where "s2 = (if p then bl808_dma_schedule (bl808_dma_update_irq s1)
      else bl808_dma_reschedule_poll t (bl808_dma_update_irq s1))"
    have keep: "channels s2 = channels s1" "bl808_dma_can_run s2 = bl808_dma_can_run s1"
      "bl808_dma_channel_count s2 = bl808_dma_channel_count s1" "requests s2 = requests s1"
      "supports_doubleword_width s2 = supports_doubleword_width s1"
      by (simp_all add: s2_def bl808_dma_schedule_def bl808_dma_reschedule_poll_def bl808_dma_update_irq_def Let_def
          bl808_dma_can_run_def bl808_dma_channel_count_def)
    have ch1: "channels s1 ! c = ?ch'" using only channel_count_le [of s] by (auto simp: s1 dma_only_def set_channel_def)
    have "dma_p2m s2 req ?ch'" using p2m_advance [OF p2m' le(1)] p2m_cong [of s2 ?s] keep by (simp add: s1 set_channel_def)
    moreover have "dma_only s2 c" using only' keep by (simp add: dma_only_def)
    ultimately have "dma_receiving s2 c req (dst + of_nat j) (n - j) b"
      using keep ch1 addr advances_control [OF le(1), of ?s] advances_burst [OF le(1), of ?s] ch False le(2)
      by (simp add: dma_receiving_def Let_def)
    moreover have "bl808_dma_run_bh t s (m, e) = (s2, store_bytes (ucast dst) (take j (items e)) m, e')"
      using only_has_active [OF only'] unfolding run_bh_only [OF only] step by (simp add: s2_def Let_def)
    ultimately show ?thesis using e' False keep dma_frame_eqD(5) [OF frame] by simp
  qed
qed

text \<open>
  Any number of runs: \<open>b\<close> bytes per run, as long as the channel wants and the peripheral has more.
\<close>

lemma p2m_runs:
  assumes "dma_receiving s c req dst n b" and "requests s ! req = Some ops" and "ok e" "offers e"
    and "unat dst + n < 2 ^ 32" and "j = min n (min (length ts * b) (length (items e)))"
  shows "\<exists>s' e'. fold dma_step (map Dma_run ts) (s, m, e) = (s', store_bytes (ucast dst) (take j (items e)) m, e') \<and>
    ok e' \<and> items e' = drop j (items e) \<and>
    (if j = n then dma_received s' c (dst + of_nat n) else dma_receiving s' c req (dst + of_nat j) (n - j) b)"
  using assms
proof (induction ts arbitrary: s dst n m e j)
  case Nil
  then show ?case by (auto simp: dma_receiving_def)
next
  case (Cons t ts)
  define i where "i = min (min n b) (length (items e))"
  obtain s1 e1 where run: "bl808_dma_run_bh t s (m, e) = (s1, store_bytes (ucast dst) (take i (items e)) m, e1)"
    and e1: "ok e1" "offers e1" "items e1 = drop i (items e)" and line: "requests s1 = requests s"
    and s1: "if i = n then dma_received s1 c (dst + of_nat n) else dma_receiving s1 c req (dst + of_nat i) (n - i) b"
    using p2m_run [OF Cons.prems(1-5) i_def, of t m] by auto
  show ?case
  proof (cases "i = n")
    case True
    then have "n \<le> b" "n \<le> length (items e)" unfolding i_def by linarith+
    then have "j = n" using Cons.prems(6) by simp
    then show ?thesis
      using received_runs [of s1 c "dst + of_nat n" ts "(store_bytes (ucast dst) (take i (items e)) m, e1)"] s1 True run e1 by auto
  next
    case False
    let ?d = "dst + of_nat i" and ?j = "min (n - i) (min (length ts * b) (length (items e1)))"
    have "i \<le> n" "i \<le> length (items e)" unfolding i_def by simp_all
    then have d: "unat ?d = unat dst + i" "(ucast ?d :: hwaddr) = ucast dst + of_nat i"
      using Cons.prems(5) by (simp_all add: unat_add_of_nat ucast_offset)
    have "i < n" using False \<open>i \<le> n\<close> by simp
    then have "j = i + ?j" using Cons.prems(6) e1(3) unfolding i_def by (auto simp: min_def split: if_splits)
    have recv: "dma_receiving s1 c req ?d (n - i) b" using s1 False by simp
    obtain s' e' where IH: "fold dma_step (map Dma_run ts) (s1, store_bytes (ucast dst) (take i (items e)) m, e1) =
        (s', store_bytes (ucast ?d) (take ?j (items e1)) (store_bytes (ucast dst) (take i (items e)) m), e')"
      "ok e'" "items e' = drop ?j (items e1)"
      "if ?j = n - i then dma_received s' c (?d + of_nat (n - i)) else dma_receiving s' c req (?d + of_nat ?j) (n - i - ?j) b"
      using Cons.IH [OF recv _ e1(1,2) _ refl, of "store_bytes (ucast dst) (take i (items e)) m"] line Cons.prems(2,5) d \<open>i \<le> n\<close>
      by auto
    have len: "length (take i (items e)) = i" using \<open>i \<le> length (items e)\<close> by simp
    have eqs: "(?j = n - i) = (j = n)" "?d + of_nat (n - i) = dst + of_nat n" "?d + of_nat ?j = dst + of_nat j"
      "n - i - ?j = n - j"
      using \<open>j = i + ?j\<close> \<open>i \<le> n\<close> by (auto simp: add.assoc simp flip: of_nat_add)
    have "store_bytes (ucast ?d) (take ?j (items e1)) (store_bytes (ucast dst) (take i (items e)) m) =
        store_bytes (ucast dst) (take j (items e)) m"
      using store_bytes_append [of "ucast dst" "take i (items e)" "take ?j (items e1)" m]
      unfolding d(2) len e1(3) \<open>j = i + ?j\<close> take_add by (simp only: e1(3))
    moreover have "items e' = drop j (items e)" using IH(3) \<open>j = i + ?j\<close> e1(3) by (simp add: add.commute)
    moreover have "if j = n then dma_received s' c (dst + of_nat n) else dma_receiving s' c req (dst + of_nat j) (n - j) b"
      using IH(4) unfolding eqs .
    ultimately show ?thesis using IH(1,2) run by auto
  qed
qed

end

end
