(* ===== verification/Dma_Props.thy ===== *)
theory Dma_Props
  imports Dma_Source Uart_Proofs
begin

text \<open>
  Properties of the DMA controller: exact interrupt lines, no lost work, memory-to-memory copies,
  and the composition with the UART, whose receiver is a \<open>dma_source\<close>.
\<close>

section \<open>The UART as a source\<close>

text \<open>The operations the machine registers for a UART, \<open>src/qemu-machine/hw/riscv/bl808.c\<close>.\<close>

definition bl808_soc_dma_uart_rx_ops :: "BL808UARTState BL808DMARequestOps" where
  "bl808_soc_dma_uart_rx_ops =
     \<lparr>can_read = Some bl808_uart_dma_can_read, can_write = None, req_read = Some bl808_uart_dma_read, req_write = None\<rparr>"

definition bl808_soc_dma_uart_tx_ops :: "BL808UARTState BL808DMARequestOps" where
  "bl808_soc_dma_uart_tx_ops =
     \<lparr>can_read = None, can_write = Some bl808_uart_dma_can_write, req_read = None, req_write = Some bl808_uart_dma_write\<rparr>"

definition uart_offers :: "BL808UARTState \<Rightarrow> bool" where
  "uart_offers s \<longleftrightarrow> bl808_uart_clock_active s \<and> fifo_config_0 s AND FIFO_DMA_RX_EN \<noteq> 0"

lemma rx_pop_offers [simp]: "uart_offers (snd (rx_pop s)) = uart_offers s"
  by (simp add: rx_pop_def uart_offers_def bl808_uart_clock_active_def Let_def)

lemma update_irq_offers [simp]: "uart_offers (bl808_uart_update_irq s) = uart_offers s"
  by (simp add: bl808_uart_update_irq_def uart_offers_def bl808_uart_clock_active_def Let_def)

interpretation uart_rx: dma_source bl808_soc_dma_uart_rx_ops uart_rx_ok uart_offers rx_items
proof
  fix e x xs
  assume ok: "uart_rx_ok e" and offers: "uart_offers e"
  show "\<exists>f. can_read bl808_soc_dma_uart_rx_ops = Some f \<and> f e 1 = (rx_items e \<noteq> [])"
    using offers by (simp add: bl808_soc_dma_uart_rx_ops_def bl808_uart_dma_can_read_def uart_offers_def items_Nil word_gt_0)
  assume items: "rx_items e = x # xs"
  then have "rx_count e \<noteq> 0" using items_Nil(2) [of e] by simp
  then have "bl808_uart_dma_read 1 e = (ucast (fst (rx_pop e)), bl808_uart_update_irq (snd (rx_pop e)))"
    by (simp add: bl808_uart_dma_read_def split_beta)
  moreover have "fst (rx_pop e) = x" "rx_items (snd (rx_pop e)) = xs" "uart_rx_ok (snd (rx_pop e))"
    using rxq.pop_hd [OF ok] rxq.pop_tl [OF ok] rxq.pop_ok [OF ok] items by simp_all
  ultimately show "\<exists>f e'. req_read bl808_soc_dma_uart_rx_ops = Some f \<and> f 1 e = (ucast x, e') \<and> uart_rx_ok e' \<and> uart_offers e' \<and> rx_items e' = xs"
    using offers by (simp add: bl808_soc_dma_uart_rx_ops_def)
qed

lemma receive_loop_active [simp]: "bl808_uart_clock_active (receive_loop buf s) = bl808_uart_clock_active s"
  by (induction buf s rule: receive_loop.induct) (simp_all add: Let_def rx_push_def bl808_uart_clock_active_def)

lemma receive_queue:
  assumes ok: "uart_rx_ok u" and offers: "uart_offers u" and en: "urx_config u AND URX_EN \<noteq> 0"
    and room: "length (rx_items u) + length xs \<le> 32"
  shows "uart_rx_ok (bl808_uart_receive xs u)" "uart_offers (bl808_uart_receive xs u)"
    "rx_items (bl808_uart_receive xs u) = rx_items u @ xs"
proof -
  have "uart_offers (bl808_uart_maybe_set_rx_end s) = uart_offers s" for s
    by (simp add: bl808_uart_maybe_set_rx_end_def uart_offers_def bl808_uart_clock_active_def Let_def)
  then show "uart_rx_ok (bl808_uart_receive xs u)" "uart_offers (bl808_uart_receive xs u)"
    "rx_items (bl808_uart_receive xs u) = rx_items u @ xs"
    using receive_loop_spec [OF ok, of xs] offers en room
    by (simp_all add: bl808_uart_receive_def) (simp_all add: uart_offers_def)
qed

section \<open>Examples\<close>

text \<open>A running controller with one channel programmed and one request line connected.\<close>

definition dma_example :: "BL808DMAChannel \<Rightarrow> 'e BL808DMARequestOps \<Rightarrow> 'e BL808DMAState" where
  "dma_example ch ops = bl808_dma_init\<lparr>channels := (replicate 8 zero_channel)[0 := ch],
     requests := (replicate 32 None)[0 := Some ops], dma_clock_enabled := True, top_config := 1\<rparr>"

lemma dma_example_only:
  assumes "active ch" and "tst (config ch) 1" and "\<not> tst (config ch) 0x40000"
  shows "dma_only (dma_example ch ops) 0"
  using assms by (auto simp: dma_only_def dma_example_def bl808_dma_init_def bl808_dma_can_run_def bl808_dma_channel_count_def
      zero_channel_def tst_def nth_Cons')

lemma dma_example_fields:
  "channels (dma_example ch ops) ! 0 = ch" "requests (dma_example ch ops) ! 0 = Some ops"
  "supports_doubleword_width (dma_example ch ops) = False"
  by (simp_all add: dma_example_def bl808_dma_init_def)

text \<open>A word-wise copy of three words with a completion interrupt, and a byte-wise receiving channel.\<close>

definition copy_channel :: BL808DMAChannel where
  "copy_channel = \<lparr>src_addr = 0x1000, dst_addr = 0x2000, lli = 0, control = 0x8C480003, config = 0x8001, active = True\<rparr>"

definition receive_channel :: BL808DMAChannel where
  "receive_channel = \<lparr>src_addr = 0, dst_addr = 0x2000, lli = 0, control = 0x88000003, config = 0x9001, active = True\<rparr>"

definition uart_receiver :: BL808UARTState where
  "uart_receiver = uart_example\<lparr>urx_config := 0x701, fifo_config_0 := FIFO_DMA_RX_EN\<rparr>"

lemma uart_receiver_ok:
  "uart_rx_ok uart_receiver" "uart_offers uart_receiver" "urx_config uart_receiver AND URX_EN \<noteq> 0" "rx_items uart_receiver = []"
  using uart_fresh_wf [OF uart_example_fresh] uart_example_fields
  by (simp_all add: uart_receiver_def uart_ok_fields uart_rx_ok_def uart_offers_def bl808_uart_clock_active_def rx_items_def)

section \<open>Properties\<close>

text \<open>
  Whatever happens to the controller and around it, its nine interrupt lines are exact: the
  common line is high exactly when the clock is on, reset is off and some channel has a completion
  or an error that its masks let through; a channel's own line exactly when this channel has.
\<close>

theorem dma_irq_exact:
  assumes "dma_start s" and "fold dma_step ops (s, w) = (s', w')"
  shows "(dma_irq s' \<longleftrightarrow> dma_clock_enabled s' \<and> \<not> dma_reset_asserted s' \<and> (\<exists>i < 8. dma_channel_pending s' i)) \<and>
    (\<forall>i < 8. ch_irq s' ! i \<longleftrightarrow> dma_clock_enabled s' \<and> \<not> dma_reset_asserted s' \<and> dma_channel_pending s' i)"
proof (intro conjI allI impI)
  show "dma_irq s' \<longleftrightarrow> dma_clock_enabled s' \<and> \<not> dma_reset_asserted s' \<and> (\<exists>i < 8. dma_channel_pending s' i)"
    using dma.run_line [of "(s, w)" ops 0] assms by (simp add: dma_line_def dma_level_def)
  show "ch_irq s' ! i \<longleftrightarrow> dma_clock_enabled s' \<and> \<not> dma_reset_asserted s' \<and> dma_channel_pending s' i" if "i < 8" for i
    using dma.run_line [of "(s, w)" ops "Suc i"] assms that by (simp add: dma_line_def dma_level_def)
qed

text \<open>
  The controller is switched on and a channel with transfer width 3, which this part does not
  have, is enabled: the run raises the channel's error interrupt.
\<close>

definition dma_error_run :: "unit BL808DMAState \<times> gmem \<times> unit" where
  "dma_error_run = fold dma_step [Dma_clock True, Dma_write 0x30 1 4, Dma_write 0x10C 0xC0001 4, Dma_write 0x110 0x4001 4, Dma_run 0]
     (bl808_dma_init, (\<lambda>_. 0), ())"

lemma dma_error_run_state:
  "raw_err_status (fst dma_error_run) = 1" "dma_irq (fst dma_error_run)" "\<not> active (channels (fst dma_error_run) ! 0)"
  unfolding dma_error_run_def by code_simp+

theorem dma_irq_exact_witness:
  "dma_irq (fst dma_error_run) \<longleftrightarrow> (\<exists>i < 8. dma_channel_pending (fst dma_error_run) i)"
proof -
  have "dma_start (bl808_dma_init :: unit BL808DMAState)"
    unfolding dma_start_def by (intro exI [of _ 8] exI [of _ False]) (simp add: bl808_dma_init_def)
  from dma_irq_exact [OF this, of _ "((\<lambda>_. 0), ())" "fst dma_error_run" "snd dma_error_run"] dma_error_run_state(2)
  show ?thesis unfolding dma_error_run_def by (metis prod.collapse)
qed

text \<open>
  C31. The controller never stalls: after any history, if it may run and a channel is active, its
  bottom half or its poll timer is pending; and nothing is pending while it may not run.
\<close>

theorem dma_never_stalls:
  assumes "dma_start s" and "fold dma_step ops (s, w) = (s', w')"
  shows "(bl808_dma_can_run s' \<and> bl808_dma_has_active_channels s' \<longrightarrow> run_scheduled s' \<or> poll_timer s' \<noteq> None) \<and>
    (run_scheduled s' \<or> poll_timer s' \<noteq> None \<longrightarrow> bl808_dma_can_run s')"
  using run_live [of "(s, w)" ops] start_live [OF assms(1)] assms(2) by (simp add: dma_live_def dma_work_pending_def)

text \<open>A transmission to a line that is not ready is polled for.\<close>

definition dma_poll_run :: "unit BL808DMAState \<times> gmem \<times> unit" where
  "dma_poll_run = fold dma_step
     [Dma_register 0 (Some \<lparr>can_read = None, can_write = Some (\<lambda>_ _. False), req_read = None, req_write = Some (\<lambda>_ _ e. e)\<rparr>),
      Dma_clock True, Dma_write 0x30 1 4, Dma_write 0x10C 1 4, Dma_write 0x110 0x801 4, Dma_run 7]
     (bl808_dma_init, (\<lambda>_. 0), ())"

lemma dma_poll_run_state:
  "bl808_dma_can_run (fst dma_poll_run)" "bl808_dma_has_active_channels (fst dma_poll_run)" "\<not> run_scheduled (fst dma_poll_run)"
  unfolding dma_poll_run_def by code_simp+

theorem dma_never_stalls_witness: "poll_timer (fst dma_poll_run) \<noteq> None"
proof -
  have "dma_start (bl808_dma_init :: unit BL808DMAState)"
    unfolding dma_start_def by (intro exI [of _ 8] exI [of _ False]) (simp add: bl808_dma_init_def)
  then show ?thesis
    using dma_never_stalls [OF _ prod.collapse [symmetric], of bl808_dma_init] dma_poll_run_state
    unfolding dma_poll_run_def by metis
qed

text \<open>
  C7. A memory-to-memory transfer terminates and copies.  With one active channel of equal widths
  and counting addresses, \<open>n\<close> data of \<open>w\<close> bytes take exactly \<open>max 1 \<lceil>n / 64\<rceil>\<close> runs of the bottom
  half: every run moves 64 of them, and before the last one the channel is still active with the others left.
  After \<open>j\<close> runs memory holds the source bytes moved so far at the destination and is otherwise unchanged, and the
  peripherals are untouched.  After the last run the channel is disabled with both addresses at their ends, the
  completion bit is set when asked for, and no work is pending.  The regions may overlap when the
  destination lies below the source.
\<close>

theorem dma_m2m_copies:
  assumes "dma_copying s c w src dst n tc" and "dma_copyable src dst (n * w)" and "length ts \<le> max 1 ((n + 63) div 64)"
    and "k = min n (64 * length ts)"
  shows "\<exists>s'. fold dma_step (map Dma_run ts) (s, m, e) =
      (s', (\<lambda>a. if unat (a - ucast dst) < k * w then m (ucast src + (a - ucast dst)) else m a), e) \<and>
    (if length ts = max 1 ((n + 63) div 64) then k = n \<and> dma_copy_done s' c (src + of_nat (n * w)) (dst + of_nat (n * w)) tc
     else active (channels s' ! c) \<and> \<not> dma_copy_done s' c (src + of_nat (n * w)) (dst + of_nat (n * w)) tc \<and>
       dma_copying s' c w (src + of_nat (k * w)) (dst + of_nat (k * w)) (n - k) tc)"
proof -
  have all: "k = n" if "length ts = max 1 ((n + 63) div 64)"
  proof -
    have "n \<le> 64 * ((n + 63) div 64)" by presburger
    then show ?thesis using assms(4) that by linarith
  qed
  have busy: "active (channels s' ! c) \<and> \<not> dma_copy_done s' c x y tc" if "dma_copying s' c w src' dst' n' tc" for s' src' dst' n' x y
    using that by (simp add: dma_copying_def dma_only_def dma_copy_done_def Let_def)
  obtain s' where s': "fold dma_step (map Dma_run ts) (s, m, e) = (s', copied (ucast src) (ucast dst) (k * w) m, e)"
    "if length ts = max 1 ((n + 63) div 64) then dma_copy_done s' c (src + of_nat (k * w)) (dst + of_nat (k * w)) tc
     else dma_copying s' c w (src + of_nat (k * w)) (dst + of_nat (k * w)) (n - k) tc"
    using m2m_runs [OF assms] by blast
  show ?thesis
    using s' all busy unfolding copied_def
    by (intro exI [of _ s']) (cases "length ts = max 1 ((n + 63) div 64)"; simp only: if_True if_False simp_thms; blast)
qed

lemma copy_channel_copying: "dma_copying (dma_example copy_channel ops) 0 4 0x1000 0x2000 3 True"
proof -
  have "dma_only (dma_example copy_channel ops) 0"
    by (rule dma_example_only) (simp_all add: copy_channel_def tst_def)
  moreover have "dma_m2m (dma_example copy_channel ops) 4 copy_channel"
    by (simp add: dma_m2m_def copy_channel_def bl808_dma_flow_def bl808_dma_width_bytes_def tst_def drop_bit_eq_div Let_def)
  ultimately show ?thesis
    unfolding dma_copying_def Let_def dma_example_fields by (simp add: copy_channel_def tst_def)
qed

theorem dma_m2m_copies_witness:
  "\<exists>s'. dma_step (Dma_run 5) (dma_example copy_channel bl808_soc_dma_uart_rx_ops, (\<lambda>a. ucast a), uart_example) =
      (s', (\<lambda>a. if unat (a - 0x2000) < 12 then ucast (0x1000 + (a - 0x2000)) else ucast a), uart_example) \<and>
    dma_copy_done s' 0 0x100C 0x200C True"
  using dma_m2m_copies [OF copy_channel_copying [of bl808_soc_dma_uart_rx_ops], of "[5]" 3 "\<lambda>a. ucast a" uart_example]
  by (simp add: dma_copyable_def cong: if_cong)

text \<open>
  C6. From the wire to memory: bytes that arrive at a UART whose receiver feeds a DMA channel are
  stored in order at the channel's destination.  After any number of runs of the bottom half
  exactly the first \<open>min n (runs * burst)\<close> of the queued bytes are in memory and the others still
  queued; once all \<open>n\<close> are there the channel has completed, before that it goes on from where it is.
\<close>

theorem dma_uart_to_memory:
  assumes "dma_receiving s c req dst n b" and "requests s ! req = Some bl808_soc_dma_uart_rx_ops"
    and "uart_rx_ok u" and "uart_offers u" and "urx_config u AND URX_EN \<noteq> 0" and "length (rx_items u) + length xs \<le> 32"
    and "unat dst + n < 2 ^ 32" and "j = min n (min (length ts * b) (length (rx_items u @ xs)))"
  shows "\<exists>s' u'. fold dma_step (map Dma_run ts) (s, m, bl808_uart_receive xs u) =
      (s', store_bytes (ucast dst) (take j (rx_items u @ xs)) m, u') \<and>
    rx_items u' = drop j (rx_items u @ xs) \<and>
    (if j = n then dma_received s' c (dst + of_nat n) else dma_receiving s' c req (dst + of_nat j) (n - j) b)"
  using uart_rx.p2m_runs [OF assms(1,2) receive_queue(1,2) [OF assms(3-6)] assms(7)] assms(8)
  unfolding receive_queue(3) [OF assms(3-6)] by blast

lemma receive_channel_receiving: "dma_receiving (dma_example receive_channel ops) 0 0 0x2000 3 1"
proof -
  have "dma_only (dma_example receive_channel ops) 0"
    by (rule dma_example_only) (simp_all add: receive_channel_def tst_def)
  moreover have "dma_p2m (dma_example receive_channel ops) 0 receive_channel"
    by (simp add: dma_p2m_def receive_channel_def bl808_dma_flow_def bl808_dma_src_request_def bl808_dma_width_bytes_def
        tst_def drop_bit_eq_div Let_def)
  moreover have "dma_burst receive_channel = 1"
    by (simp add: dma_burst_def receive_channel_def bl808_dma_burst_len_def drop_bit_eq_div Let_def)
  ultimately show ?thesis
    unfolding dma_receiving_def Let_def dma_example_fields by (simp add: receive_channel_def)
qed

theorem dma_uart_to_memory_witness:
  "\<exists>s' u'. fold dma_step [Dma_run 1, Dma_run 2, Dma_run 3]
      (dma_example receive_channel bl808_soc_dma_uart_rx_ops, (\<lambda>_. 0), bl808_uart_receive [0x41, 0x42, 0x43, 0x44] uart_receiver) =
      (s', (\<lambda>_. 0)(0x2000 := 0x41, 0x2001 := 0x42, 0x2002 := 0x43), u') \<and> rx_items u' = [0x44] \<and> dma_received s' 0 0x2003"
  using dma_uart_to_memory [OF receive_channel_receiving dma_example_fields(2) uart_receiver_ok(1-3),
      of "[0x41, 0x42, 0x43, 0x44]" 3 "[1, 2, 3]" "\<lambda>_. 0"] uart_receiver_ok(4)
  by (simp add: numeral_3_eq_3 del: length_items)

text \<open>
  A peripheral-to-peripheral transfer loses data: when the source has a datum and the
  destination does not accept one, a step of the channel takes the datum from the source and drops
  it, while the channel's count and addresses stay as they are.
\<close>

theorem dma_p2p_drops_datum:
  assumes only: "dma_only s c" and ch: "channels s ! c = ch" and flow: "bl808_dma_flow (config ch) \<in> {3, 4, 7}"
    and sw: "bl808_dma_width_bytes s (control ch) False = sw" "sw \<in> {1, 2, 4}"
    and dw: "bl808_dma_width_bytes s (control ch) True = dw" "dw \<in> {1, 2, 4}" and left: "control ch AND DMA_CTRL_XFER_MASK \<noteq> 0"
    and src: "bl808_dma_request_can_read s e (bl808_dma_src_request (config ch)) sw"
      "bl808_dma_request_read s (bl808_dma_src_request (config ch)) sw e = (v, e')"
    and dst: "\<not> bl808_dma_request_can_write s e' (bl808_dma_dst_request (config ch)) dw"
  shows "bl808_dma_step_channel c s (m, e) = (False, s, m, e')"
proof -
  have "unat (control ch AND 0xFFF) \<noteq> 0" using left by (metis unsigned_eq_0_iff)
  then have "dma_limit ch \<noteq> 0" using flow by (auto simp: dma_limit_def Let_def)
  then obtain k where k: "dma_limit ch = Suc k" using not0_implies_Suc by blast
  have "dma_loop s (Suc k) ch (m, e) False = (ch, (m, e'), False, False)"
    using flow left sw dw src dst by (auto simp: dma_fetch_def dma_put_def)
  moreover have "set_channel c ch s = s" unfolding set_channel_def ch [symmetric] list_update_id by simp
  moreover have "requests s ! bl808_dma_src_request (config ch) \<noteq> None"
    using src(1) by (auto simp: bl808_dma_request_can_read_def split: if_splits option.splits)
  moreover have "active ch" "tst (config ch) 1" "\<not> tst (config ch) DMA_CFG_HALT" using only ch by (simp_all add: dma_only_def)
  moreover have "\<not> (sw = 0 \<or> dw = 0)" "\<not> ((sw > 4 \<or> dw > 4) \<and> bl808_dma_flow (config ch) \<noteq> 0)"
    "bl808_dma_flow (config ch) \<notin> {1, 5}" using sw dw flow by auto
  ultimately show ?thesis
    using left unfolding bl808_dma_step_channel_def Let_def ch k sw(1) dw(1) by simp
qed

text \<open>From the UART's receiver to its transmitter, which does not ask for DMA: the byte is gone.\<close>

definition loop_channel :: BL808DMAChannel where
  "loop_channel = \<lparr>src_addr = 0, dst_addr = 0, lli = 0, control = 3, config = 0x1841, active = True\<rparr>"

definition dma_loop_example :: "BL808UARTState BL808DMAState" where
  "dma_loop_example = bl808_dma_register_request 1 (Some bl808_soc_dma_uart_tx_ops) (dma_example loop_channel bl808_soc_dma_uart_rx_ops)"

lemma dma_loop_example_fields:
  "channels dma_loop_example ! 0 = loop_channel" "requests dma_loop_example ! 0 = Some bl808_soc_dma_uart_rx_ops"
  "requests dma_loop_example ! 1 = Some bl808_soc_dma_uart_tx_ops" "dma_only dma_loop_example 0"
proof -
  have "dma_only (dma_example loop_channel bl808_soc_dma_uart_rx_ops) 0"
    by (rule dma_example_only) (simp_all add: loop_channel_def tst_def)
  then show "dma_only dma_loop_example 0"
    by (simp add: dma_loop_example_def bl808_dma_register_request_def dma_only_def bl808_dma_can_run_def bl808_dma_channel_count_def)
qed (simp_all add: dma_loop_example_def bl808_dma_register_request_def dma_example_def bl808_dma_init_def)

theorem dma_p2p_drops_datum_witness:
  "\<exists>u'. bl808_dma_step_channel 0 dma_loop_example ((\<lambda>_. 0), bl808_uart_receive [0x41] uart_receiver) =
     (False, dma_loop_example, (\<lambda>_. 0), u') \<and> rx_items u' = []"
proof -
  let ?u = "bl808_uart_receive [0x41] uart_receiver"
  have u: "uart_rx_ok ?u" "uart_offers ?u" "rx_items ?u = [0x41]"
    using receive_queue [OF uart_receiver_ok(1-3), of "[0x41]"] uart_receiver_ok(4) by simp_all
  obtain f u' where f: "req_read bl808_soc_dma_uart_rx_ops = Some f" "f 1 ?u = (ucast (0x41 :: u8), u')" and u': "rx_items u' = []"
    using uart_rx.read_item [OF u] by blast
  have "rx_count ?u \<noteq> 0" using u(3) items_Nil(2) [of ?u] by simp
  then have "fifo_config_0 (snd (bl808_uart_dma_read 1 ?u)) = fifo_config_0 ?u"
    by (simp add: bl808_uart_dma_read_def split_beta rx_pop_def bl808_uart_update_irq_def Let_def)
  moreover have "fifo_config_0 ?u = FIFO_DMA_RX_EN"
    using receive_loop_spec [OF uart_receiver_ok(1), of "[0x41]"] uart_receiver_ok(4) length_items(2) [of uart_receiver]
      uart_receiver_ok(2,3)
    by (simp add: bl808_uart_receive_def uart_offers_def bl808_uart_update_irq_def Let_def) (simp add: uart_receiver_def)
  ultimately have "fifo_config_0 u' = FIFO_DMA_RX_EN"
    using f by (simp add: bl808_soc_dma_uart_rx_ops_def)
  then have blocked: "\<not> bl808_dma_request_can_write dma_loop_example u' 1 1"
    by (simp add: bl808_dma_request_can_write_def dma_loop_example_fields [unfolded One_nat_def] bl808_soc_dma_uart_tx_ops_def
        bl808_uart_dma_can_write_def)
  have reads: "bl808_dma_request_can_read dma_loop_example ?u 0 1" "bl808_dma_request_read dma_loop_example 0 1 ?u = (ucast (0x41 :: u8), u')"
    using uart_rx.can_read_items [OF u(1,2)] u(3) f
    by (auto simp: bl808_dma_request_can_read_def bl808_dma_request_read_def dma_loop_example_fields)
  have "bl808_dma_step_channel 0 dma_loop_example ((\<lambda>_. 0), ?u) = (False, dma_loop_example, (\<lambda>_. 0), u')"
    by (rule dma_p2p_drops_datum [OF dma_loop_example_fields(4,1), where sw = 1 and dw = 1])
      (use blocked reads in \<open>simp_all add: loop_channel_def bl808_dma_flow_def bl808_dma_src_request_def
        bl808_dma_dst_request_def bl808_dma_width_bytes_def drop_bit_eq_div Let_def\<close>)
  then show ?thesis using u' by blast
qed

end
