(* ===== verification/Spi.thy ===== *)
theory Spi
  imports Device
begin

text \<open>
  The SPI controller, \<open>src/qemu-machine/hw/ssi/bl808_spi.c\<close>: two ring buffers whose usable depth
  depends on the frame size, a bottom half that shifts the queued frames out and the answers in,
  the interrupt sources and the hooks of the DMA controller.

  The bus belongs to QEMU: \<open>ssi_transfer\<close> is a parameter, a function on a bus state of type
  \<open>'b\<close> that takes the frame sent and gives the frame received.
\<close>

section \<open>State\<close>

type_synonym 'b ssi_transfer = "'b \<Rightarrow> u32 \<Rightarrow> u32 \<times> 'b"

record 'b BL808SPIState =
  spi_irq :: bool
  spi_cs :: bool
  spi_bus :: "'b option"
  spi_config :: u32
  spi_int_sts :: u32
  spi_int_enable :: u32
  spi_int_mask :: u32
  prd0 :: u32
  prd1 :: u32
  rxd_ignr :: u32
  sto_value :: u32
  spi_fifo_config0 :: u32
  spi_fifo_config1 :: u32
  spi_tx_fifo :: "u32 list"
  spi_rx_fifo :: "u32 list"
  spi_tx_head :: u32
  spi_tx_tail :: u32
  spi_tx_count :: u32
  spi_rx_head :: u32
  spi_rx_tail :: u32
  spi_rx_count :: u32
  rx_ignore_remaining :: u32
  transfer_scheduled :: bool
  transfer_active :: bool
  spi_gate_enabled :: bool
  spi_module_clock_enabled :: bool
  spi_clock_enabled :: bool
  spi_reset_asserted :: bool
  loopback :: bool

abbreviation (input) BL808_SPI_FIFO_DEPTH :: u32 where "BL808_SPI_FIFO_DEPTH \<equiv> 32"
abbreviation (input) SPI_MASTER_EN :: u32 where "SPI_MASTER_EN \<equiv> 0x1"
abbreviation (input) SPI_SLAVE_EN :: u32 where "SPI_SLAVE_EN \<equiv> 0x2"
abbreviation (input) SPI_FRAME_SIZE_MASK :: u32 where "SPI_FRAME_SIZE_MASK \<equiv> 0xC"
abbreviation (input) SPI_RXD_IGNR_EN :: u32 where "SPI_RXD_IGNR_EN \<equiv> 0x100"
abbreviation (input) SPI_INT_END :: u32 where "SPI_INT_END \<equiv> 0x1"
abbreviation (input) SPI_INT_TX_FIFO :: u32 where "SPI_INT_TX_FIFO \<equiv> 0x2"
abbreviation (input) SPI_INT_RX_FIFO :: u32 where "SPI_INT_RX_FIFO \<equiv> 0x4"
abbreviation (input) SPI_INT_TX_UNDER :: u32 where "SPI_INT_TX_UNDER \<equiv> 0x10"
abbreviation (input) SPI_INT_FIFO_ERR :: u32 where "SPI_INT_FIFO_ERR \<equiv> 0x20"
abbreviation (input) SPI_INT_STATUS_MASK :: u32 where "SPI_INT_STATUS_MASK \<equiv> 0x3F"
abbreviation (input) SPI_FIFO_DMA_RX_EN :: u32 where "SPI_FIFO_DMA_RX_EN \<equiv> 0x1"
abbreviation (input) SPI_FIFO_DMA_TX_EN :: u32 where "SPI_FIFO_DMA_TX_EN \<equiv> 0x2"
abbreviation (input) SPI_FIFO_TX_CLR :: u64 where "SPI_FIFO_TX_CLR \<equiv> 0x4"
abbreviation (input) SPI_FIFO_RX_CLR :: u64 where "SPI_FIFO_RX_CLR \<equiv> 0x8"
abbreviation (input) SPI_FIFO_TX_OVERFLOW :: u32 where "SPI_FIFO_TX_OVERFLOW \<equiv> 0x10"
abbreviation (input) SPI_FIFO_TX_UNDERFLOW :: u32 where "SPI_FIFO_TX_UNDERFLOW \<equiv> 0x20"
abbreviation (input) SPI_FIFO_RX_OVERFLOW :: u32 where "SPI_FIFO_RX_OVERFLOW \<equiv> 0x40"
abbreviation (input) SPI_FIFO_RX_UNDERFLOW :: u32 where "SPI_FIFO_RX_UNDERFLOW \<equiv> 0x80"
abbreviation (input) SPI_FIFO_STATUS_MASK :: u32 where "SPI_FIFO_STATUS_MASK \<equiv> 0xF0"

section \<open>Decoding\<close>

definition bl808_spi_clock_active :: "'b BL808SPIState \<Rightarrow> bool" where
  "bl808_spi_clock_active s \<longleftrightarrow> spi_clock_enabled s \<and> \<not> spi_reset_asserted s"

definition bl808_spi_recompute_clock :: "'b BL808SPIState \<Rightarrow> 'b BL808SPIState" where
  "bl808_spi_recompute_clock s = s\<lparr>spi_clock_enabled := spi_gate_enabled s \<and> spi_module_clock_enabled s\<rparr>"

definition spi_frame_size :: "'b BL808SPIState \<Rightarrow> u32" where
  "spi_frame_size s = drop_bit 2 (spi_config s AND SPI_FRAME_SIZE_MASK)"

definition bl808_spi_fifo_depth :: "'b BL808SPIState \<Rightarrow> u32" where
  "bl808_spi_fifo_depth s = (if spi_frame_size s = 0 then 32 else if spi_frame_size s = 1 then 16 else 8)"

definition bl808_spi_tx_free :: "'b BL808SPIState \<Rightarrow> u32" where
  "bl808_spi_tx_free s =
     (let depth = bl808_spi_fifo_depth s in if spi_tx_count s < depth then depth - spi_tx_count s else 0)"

definition bl808_spi_frame_mask :: "'b BL808SPIState \<Rightarrow> u32" where
  "bl808_spi_frame_mask s =
     (if spi_frame_size s = 0 then 0xFF else if spi_frame_size s = 1 then 0xFFFF
      else if spi_frame_size s = 2 then 0x00FFFFFF else 0xFFFFFFFF)"

definition bl808_spi_enabled :: "'b BL808SPIState \<Rightarrow> bool" where
  "bl808_spi_enabled s \<longleftrightarrow> spi_config s AND (SPI_MASTER_EN OR SPI_SLAVE_EN) \<noteq> 0"

definition bl808_spi_idle_frame :: "'b BL808SPIState \<Rightarrow> u32" where
  "bl808_spi_idle_frame s = bl808_spi_frame_mask s"

definition bl808_spi_dynamic_ints :: "'b BL808SPIState \<Rightarrow> u32" where
  "bl808_spi_dynamic_ints s =
     (let tx_free = bl808_spi_tx_free s;
          tx_thresh = drop_bit 16 (spi_fifo_config1 s) AND 0x1f;
          rx_thresh = drop_bit 24 (spi_fifo_config1 s) AND 0x1f
      in (if tx_free > tx_thresh then SPI_INT_TX_FIFO else 0) OR
         (if spi_rx_count s > rx_thresh then SPI_INT_RX_FIFO else 0) OR
         (if tst (spi_fifo_config0 s) SPI_FIFO_TX_UNDERFLOW then SPI_INT_TX_UNDER else 0) OR
         (if tst (spi_fifo_config0 s) (SPI_FIFO_TX_OVERFLOW OR SPI_FIFO_RX_OVERFLOW OR SPI_FIFO_RX_UNDERFLOW)
          then SPI_INT_FIFO_ERR else 0))"

definition bl808_spi_update_irq :: "'b BL808SPIState \<Rightarrow> 'b BL808SPIState" where
  "bl808_spi_update_irq s =
     (let pending = (spi_int_sts s OR bl808_spi_dynamic_ints s) AND spi_int_enable s AND NOT (spi_int_mask s)
      in s\<lparr>spi_irq := bl808_spi_clock_active s \<and> pending \<noteq> 0\<rparr>)"

section \<open>Queues\<close>

definition bl808_spi_clear_tx_fifo :: "'b BL808SPIState \<Rightarrow> 'b BL808SPIState" where
  "bl808_spi_clear_tx_fifo s = s\<lparr>spi_tx_head := 0, spi_tx_tail := 0, spi_tx_count := 0,
     spi_fifo_config0 := spi_fifo_config0 s AND NOT (SPI_FIFO_TX_OVERFLOW OR SPI_FIFO_TX_UNDERFLOW)\<rparr>"

definition bl808_spi_clear_rx_fifo :: "'b BL808SPIState \<Rightarrow> 'b BL808SPIState" where
  "bl808_spi_clear_rx_fifo s = s\<lparr>spi_rx_head := 0, spi_rx_tail := 0, spi_rx_count := 0, rx_ignore_remaining := 0,
     spi_fifo_config0 := spi_fifo_config0 s AND NOT (SPI_FIFO_RX_OVERFLOW OR SPI_FIFO_RX_UNDERFLOW)\<rparr>"

text \<open>The ring-buffer updates, written out at each use in the C code.\<close>

definition spi_tx_push :: "u32 \<Rightarrow> 'b BL808SPIState \<Rightarrow> 'b BL808SPIState" where
  "spi_tx_push v s = s\<lparr>spi_tx_fifo := (spi_tx_fifo s)[unat (spi_tx_tail s) := v],
     spi_tx_tail := (spi_tx_tail s + 1) mod BL808_SPI_FIFO_DEPTH, spi_tx_count := spi_tx_count s + 1\<rparr>"

definition spi_tx_pop :: "'b BL808SPIState \<Rightarrow> u32 \<times> 'b BL808SPIState" where
  "spi_tx_pop s = (spi_tx_fifo s ! unat (spi_tx_head s),
     s\<lparr>spi_tx_head := (spi_tx_head s + 1) mod BL808_SPI_FIFO_DEPTH, spi_tx_count := spi_tx_count s - 1\<rparr>)"

definition spi_rx_push :: "u32 \<Rightarrow> 'b BL808SPIState \<Rightarrow> 'b BL808SPIState" where
  "spi_rx_push v s = s\<lparr>spi_rx_fifo := (spi_rx_fifo s)[unat (spi_rx_tail s) := v],
     spi_rx_tail := (spi_rx_tail s + 1) mod BL808_SPI_FIFO_DEPTH, spi_rx_count := spi_rx_count s + 1\<rparr>"

definition spi_rx_pop :: "'b BL808SPIState \<Rightarrow> u32 \<times> 'b BL808SPIState" where
  "spi_rx_pop s = (spi_rx_fifo s ! unat (spi_rx_head s),
     s\<lparr>spi_rx_head := (spi_rx_head s + 1) mod BL808_SPI_FIFO_DEPTH, spi_rx_count := spi_rx_count s - 1\<rparr>)"

definition bl808_spi_schedule_transfer :: "'b BL808SPIState \<Rightarrow> 'b BL808SPIState" where
  "bl808_spi_schedule_transfer s =
     (if \<not> spi_clock_enabled s \<or> spi_reset_asserted s \<or> \<not> bl808_spi_enabled s \<or> transfer_scheduled s \<or>
         spi_tx_count s = 0 then s
      else s\<lparr>transfer_scheduled := True\<rparr>)"

definition bl808_spi_push_rx :: "u32 \<Rightarrow> 'b BL808SPIState \<Rightarrow> 'b BL808SPIState" where
  "bl808_spi_push_rx value s =
     (if tst (spi_config s) SPI_RXD_IGNR_EN \<and> rx_ignore_remaining s < rxd_ignr s AND 0xFF
      then s\<lparr>rx_ignore_remaining := rx_ignore_remaining s + 1\<rparr>
      else if spi_rx_count s \<ge> bl808_spi_fifo_depth s
      then s\<lparr>spi_fifo_config0 := spi_fifo_config0 s OR SPI_FIFO_RX_OVERFLOW\<rparr>
      else spi_rx_push (value AND bl808_spi_frame_mask s) s)"

section \<open>DMA\<close>

definition bl808_spi_dma_can_read :: "'b BL808SPIState \<Rightarrow> nat \<Rightarrow> bool" where
  "bl808_spi_dma_can_read s width_bytes =
     (if \<not> spi_clock_enabled s \<or> spi_reset_asserted s \<or> \<not> tst (spi_fifo_config0 s) SPI_FIFO_DMA_RX_EN then False
      else if width_bytes \<in> {1, 2, 4} then spi_rx_count s > 0 else False)"

definition bl808_spi_dma_can_write :: "'b BL808SPIState \<Rightarrow> nat \<Rightarrow> bool" where
  "bl808_spi_dma_can_write s width_bytes =
     (if \<not> spi_clock_enabled s \<or> spi_reset_asserted s \<or> \<not> tst (spi_fifo_config0 s) SPI_FIFO_DMA_TX_EN then False
      else if width_bytes \<in> {1, 2, 4} then spi_tx_count s < bl808_spi_fifo_depth s else False)"

definition spi_dma_masked :: "nat \<Rightarrow> u32 \<Rightarrow> u32" where
  "spi_dma_masked width_bytes value =
     (if width_bytes = 1 then value AND 0xFF else if width_bytes = 2 then value AND 0xFFFF else value)"

definition bl808_spi_dma_read :: "nat \<Rightarrow> 'b BL808SPIState \<Rightarrow> u32 \<times> 'b BL808SPIState" where
  "bl808_spi_dma_read width_bytes s =
     (if spi_rx_count s = 0
      then (let s = bl808_spi_update_irq (s\<lparr>spi_fifo_config0 := spi_fifo_config0 s OR SPI_FIFO_RX_UNDERFLOW\<rparr>)
            in (bl808_spi_idle_frame s, s))
      else let (value, s) = spi_rx_pop s in (spi_dma_masked width_bytes value, bl808_spi_update_irq s))"

text \<open>Queueing a frame, common to the DMA hook and the data register.\<close>

definition spi_queue_frame :: "u32 \<Rightarrow> 'b BL808SPIState \<Rightarrow> 'b BL808SPIState" where
  "spi_queue_frame value s =
     (let s = (if spi_tx_count s = 0 then s\<lparr>rx_ignore_remaining := 0\<rparr> else s);
          s = spi_tx_push (value AND bl808_spi_frame_mask s) s;
          s = s\<lparr>spi_int_sts := spi_int_sts s AND NOT SPI_INT_END\<rparr>
      in bl808_spi_schedule_transfer s)"

definition bl808_spi_dma_write :: "u32 \<Rightarrow> nat \<Rightarrow> 'b BL808SPIState \<Rightarrow> 'b BL808SPIState" where
  "bl808_spi_dma_write value width_bytes s =
     (if spi_tx_count s \<ge> bl808_spi_fifo_depth s
      then bl808_spi_update_irq (s\<lparr>spi_fifo_config0 := spi_fifo_config0 s OR SPI_FIFO_TX_OVERFLOW\<rparr>)
      else bl808_spi_update_irq (spi_queue_frame (spi_dma_masked width_bytes value) s))"

section \<open>Transfers\<close>

text \<open>What comes back for a frame sent.\<close>

definition spi_exchange :: "'b ssi_transfer \<Rightarrow> u32 \<Rightarrow> 'b BL808SPIState \<Rightarrow> u32 \<times> 'b BL808SPIState" where
  "spi_exchange xfer tx s =
     (if loopback s then (tx, s)
      else case spi_bus s of
        Some b \<Rightarrow> (let (rx, b) = xfer b tx in (rx, s\<lparr>spi_bus := Some b\<rparr>))
      | None \<Rightarrow> (bl808_spi_idle_frame s, s))"

text \<open>
  The loop of \<open>bl808_spi_transfer_bh\<close>; the frame leaves the queue after the exchange in the
  source, which touches no field of the queue.
\<close>

function spi_transfer_loop :: "'b ssi_transfer \<Rightarrow> 'b BL808SPIState \<Rightarrow> 'b BL808SPIState" where
  "spi_transfer_loop xfer s =
     (if spi_tx_count s > 0 then
        let (tx, s) = spi_tx_pop s;
            (rx, s) = spi_exchange xfer tx s
        in spi_transfer_loop xfer (bl808_spi_push_rx (rx AND bl808_spi_frame_mask s) s)
      else s)"
  by pat_completeness auto
termination
  by (relation "measure (\<lambda>(xfer, s). unat (spi_tx_count s))")
    (auto simp: spi_tx_pop_def spi_exchange_def bl808_spi_push_rx_def spi_rx_push_def split_beta
      word_less_unat unat_minus_1 unat_gt_0 split: option.splits if_splits)

definition bl808_spi_transfer_bh :: "'b ssi_transfer \<Rightarrow> 'b BL808SPIState \<Rightarrow> 'b BL808SPIState" where
  "bl808_spi_transfer_bh xfer s =
     (let s = s\<lparr>transfer_scheduled := False\<rparr> in
      if \<not> spi_clock_enabled s \<or> spi_reset_asserted s \<or> \<not> bl808_spi_enabled s then bl808_spi_update_irq s
      else let s = s\<lparr>transfer_active := True\<rparr>;
               s = (if \<not> loopback s then s\<lparr>spi_cs := False\<rparr> else s);
               transferred = spi_tx_count s > 0;
               s = spi_transfer_loop xfer s;
               s = (if \<not> loopback s then s\<lparr>spi_cs := True\<rparr> else s);
               s = s\<lparr>transfer_active := False\<rparr>;
               s = (if transferred then s\<lparr>spi_int_sts := spi_int_sts s OR SPI_INT_END\<rparr> else s)
           in bl808_spi_update_irq s)"

section \<open>Registers\<close>

definition bl808_spi_fifo_config1 :: "'b BL808SPIState \<Rightarrow> u32" where
  "bl808_spi_fifo_config1 s =
     (spi_fifo_config1 s AND NOT (0x3F OR push_bit 8 0x3F)) OR
     (bl808_spi_tx_free s AND 0x3F) OR
     push_bit 8 (min (spi_rx_count s) (bl808_spi_fifo_depth s) AND 0x3F)"

definition bl808_spi_read :: "hwaddr \<Rightarrow> 'b BL808SPIState \<Rightarrow> u64 \<times> 'b BL808SPIState" where
  "bl808_spi_read offset s =
     (if offset = 0x00 then (ucast (spi_config s), s)
      else if offset = 0x04
      then (ucast (spi_int_sts s OR bl808_spi_dynamic_ints s OR push_bit 8 (spi_int_mask s) OR
                   push_bit 24 (spi_int_enable s)), s)
      else if offset = 0x08 then (if transfer_active s \<or> transfer_scheduled s then 1 else 0, s)
      else if offset = 0x10 then (ucast (prd0 s), s)
      else if offset = 0x14 then (ucast (prd1 s), s)
      else if offset = 0x18 then (ucast (rxd_ignr s), s)
      else if offset = 0x1C then (ucast (sto_value s), s)
      else if offset = 0x80 then (ucast (spi_fifo_config0 s), s)
      else if offset = 0x84 then (ucast (bl808_spi_fifo_config1 s), s)
      else if offset = 0x8C then
        if spi_rx_count s = 0
        then (let s = bl808_spi_update_irq (s\<lparr>spi_fifo_config0 := spi_fifo_config0 s OR SPI_FIFO_RX_UNDERFLOW\<rparr>)
              in (ucast (bl808_spi_idle_frame s), s))
        else let (value, s) = spi_rx_pop s in (ucast value, bl808_spi_update_irq s)
      else (0, s))"

definition spi_write_config :: "u64 \<Rightarrow> 'b BL808SPIState \<Rightarrow> 'b BL808SPIState" where
  "spi_write_config value s =
     (let s = s\<lparr>spi_config := ucast value\<rparr> in
      if \<not> bl808_spi_enabled s then s\<lparr>transfer_active := False\<rparr> else bl808_spi_schedule_transfer s)"

definition spi_write_int_sts :: "u64 \<Rightarrow> 'b BL808SPIState \<Rightarrow> 'b BL808SPIState" where
  "spi_write_int_sts value s =
     (let v = ucast value :: u32 in
      s\<lparr>spi_int_enable := drop_bit 24 v AND SPI_INT_STATUS_MASK,
        spi_int_mask := drop_bit 8 v AND SPI_INT_STATUS_MASK,
        spi_int_sts := spi_int_sts s AND NOT (drop_bit 16 v AND SPI_INT_STATUS_MASK)\<rparr>)"

definition spi_write_fifo_config0 :: "u64 \<Rightarrow> 'b BL808SPIState \<Rightarrow> 'b BL808SPIState" where
  "spi_write_fifo_config0 value s =
     (let s = s\<lparr>spi_fifo_config0 := (spi_fifo_config0 s AND NOT SPI_FIFO_STATUS_MASK) OR
                  (ucast value AND (SPI_FIFO_DMA_RX_EN OR SPI_FIFO_DMA_TX_EN))\<rparr>;
          s = (if tst value SPI_FIFO_TX_CLR
               then let s = bl808_spi_clear_tx_fifo s in s\<lparr>spi_int_sts := spi_int_sts s AND NOT SPI_INT_END\<rparr> else s)
      in if tst value SPI_FIFO_RX_CLR then bl808_spi_clear_rx_fifo s else s)"

definition spi_write_wdata :: "u64 \<Rightarrow> 'b BL808SPIState \<Rightarrow> 'b BL808SPIState" where
  "spi_write_wdata value s =
     (if spi_tx_count s \<ge> bl808_spi_fifo_depth s
      then s\<lparr>spi_fifo_config0 := spi_fifo_config0 s OR SPI_FIFO_TX_OVERFLOW\<rparr>
      else spi_queue_frame (ucast value) s)"

definition bl808_spi_write :: "hwaddr \<Rightarrow> u64 \<Rightarrow> 'b BL808SPIState \<Rightarrow> 'b BL808SPIState" where
  "bl808_spi_write offset value s =
     (if spi_reset_asserted s then s
      else if offset = 0x00 then bl808_spi_update_irq (spi_write_config value s)
      else if offset = 0x04 then bl808_spi_update_irq (spi_write_int_sts value s)
      else if offset = 0x10 then bl808_spi_update_irq (s\<lparr>prd0 := ucast value\<rparr>)
      else if offset = 0x14 then bl808_spi_update_irq (s\<lparr>prd1 := ucast value\<rparr>)
      else if offset = 0x18 then bl808_spi_update_irq (s\<lparr>rxd_ignr := ucast value, rx_ignore_remaining := 0\<rparr>)
      else if offset = 0x1C then bl808_spi_update_irq (s\<lparr>sto_value := ucast value\<rparr>)
      else if offset = 0x80 then bl808_spi_update_irq (spi_write_fifo_config0 value s)
      else if offset = 0x84
      then bl808_spi_update_irq (s\<lparr>spi_fifo_config1 := ucast value AND (push_bit 16 0x1F OR push_bit 24 0x1F)\<rparr>)
      else if offset = 0x88 then bl808_spi_update_irq (spi_write_wdata value s)
      else s)"

section \<open>Clock and reset\<close>

definition bl808_spi_reset :: "'b BL808SPIState \<Rightarrow> 'b BL808SPIState" where
  "bl808_spi_reset s =
     (let s = s\<lparr>spi_config := 0, spi_int_sts := 0, spi_int_enable := SPI_INT_STATUS_MASK,
                spi_int_mask := SPI_INT_STATUS_MASK, prd0 := 0x0F0F0F0F, prd1 := 0x0F, rxd_ignr := 0,
                sto_value := 0x0FFF, spi_fifo_config0 := 0, spi_fifo_config1 := 0\<rparr>;
          s = bl808_spi_clear_rx_fifo (bl808_spi_clear_tx_fifo s);
          s = s\<lparr>transfer_scheduled := False, transfer_active := False, spi_cs := True\<rparr>
      in bl808_spi_update_irq s)"

definition bl808_spi_set_clock_enabled :: "bool \<Rightarrow> 'b BL808SPIState \<Rightarrow> 'b BL808SPIState" where
  "bl808_spi_set_clock_enabled enabled s =
     (let s = bl808_spi_recompute_clock (s\<lparr>spi_gate_enabled := enabled\<rparr>);
          s = (if \<not> bl808_spi_clock_active s
               then s\<lparr>transfer_scheduled := False, transfer_active := False, spi_cs := True\<rparr>
               else bl808_spi_schedule_transfer s)
      in bl808_spi_update_irq s)"

definition bl808_spi_set_module_clock_enabled :: "bool \<Rightarrow> 'b BL808SPIState \<Rightarrow> 'b BL808SPIState" where
  "bl808_spi_set_module_clock_enabled enabled s =
     (let s = s\<lparr>spi_module_clock_enabled := enabled\<rparr> in bl808_spi_set_clock_enabled (spi_gate_enabled s) s)"

definition bl808_spi_set_reset_asserted :: "bool \<Rightarrow> 'b BL808SPIState \<Rightarrow> 'b BL808SPIState" where
  "bl808_spi_set_reset_asserted asserted s =
     (let s = s\<lparr>spi_reset_asserted := asserted\<rparr> in
      bl808_spi_update_irq (if asserted then bl808_spi_reset s else bl808_spi_schedule_transfer s))"

text \<open>The object as QEMU allocates it (all bytes zero), after the instance initialiser, with its property.\<close>

definition bl808_spi_init :: "bool \<Rightarrow> 'b \<Rightarrow> 'b BL808SPIState" where
  "bl808_spi_init loop bus = bl808_spi_recompute_clock
     \<lparr>spi_irq = False, spi_cs = False, spi_bus = Some bus, spi_config = 0, spi_int_sts = 0, spi_int_enable = 0,
      spi_int_mask = 0, prd0 = 0, prd1 = 0, rxd_ignr = 0, sto_value = 0, spi_fifo_config0 = 0, spi_fifo_config1 = 0,
      spi_tx_fifo = replicate 32 0, spi_rx_fifo = replicate 32 0, spi_tx_head = 0, spi_tx_tail = 0, spi_tx_count = 0,
      spi_rx_head = 0, spi_rx_tail = 0, spi_rx_count = 0, rx_ignore_remaining = 0, transfer_scheduled = False,
      transfer_active = False, spi_gate_enabled = True, spi_module_clock_enabled = True, spi_clock_enabled = False,
      spi_reset_asserted = False, loopback = loop\<rparr>"

section \<open>Operations of the device\<close>

datatype spi_op =
    Spi_read hwaddr
  | Spi_write hwaddr u64
  | Spi_transfer
  | Spi_dma_read nat
  | Spi_dma_write u32 nat
  | Spi_reset
  | Spi_clock bool
  | Spi_module_clock bool
  | Spi_reset_line bool

fun spi_step :: "'b ssi_transfer \<Rightarrow> spi_op \<Rightarrow> 'b BL808SPIState \<Rightarrow> 'b BL808SPIState" where
  "spi_step xfer (Spi_read offset) s = snd (bl808_spi_read offset s)"
| "spi_step xfer (Spi_write offset value) s = bl808_spi_write offset value s"
| "spi_step xfer Spi_transfer s = bl808_spi_transfer_bh xfer s"
| "spi_step xfer (Spi_dma_read w) s = snd (bl808_spi_dma_read w s)"
| "spi_step xfer (Spi_dma_write v w) s = bl808_spi_dma_write v w s"
| "spi_step xfer Spi_reset s = bl808_spi_reset s"
| "spi_step xfer (Spi_clock b) s = bl808_spi_set_clock_enabled b s"
| "spi_step xfer (Spi_module_clock b) s = bl808_spi_set_module_clock_enabled b s"
| "spi_step xfer (Spi_reset_line b) s = bl808_spi_set_reset_asserted b s"

end
