(* ===== verification/Spi_Proofs.thy ===== *)
theory Spi_Proofs
  imports Spi Ring Dma_Source
begin

text \<open>
  Correctness of the SPI model: both ring buffers are bounded queues, a transfer sends exactly the
  queued frames and queues the answers that are neither ignored nor beyond the depth, queued
  frames never wait without a scheduled transfer, the interrupt line is exact, and the receiver
  is a source for the DMA controller.
\<close>

section \<open>The two queues\<close>

definition spi_tx_items :: "'b BL808SPIState \<Rightarrow> u32 list" where
  "spi_tx_items s = ring_items (spi_tx_fifo s) (spi_tx_head s) (spi_tx_count s)"

definition spi_rx_items :: "'b BL808SPIState \<Rightarrow> u32 list" where
  "spi_rx_items s = ring_items (spi_rx_fifo s) (spi_rx_head s) (spi_rx_count s)"

definition spi_tx_ok :: "'b BL808SPIState \<Rightarrow> bool" where
  "spi_tx_ok s \<longleftrightarrow> ring_ok 32 (spi_tx_fifo s) (spi_tx_head s) (spi_tx_tail s) (spi_tx_count s)"

definition spi_rx_ok :: "'b BL808SPIState \<Rightarrow> bool" where
  "spi_rx_ok s \<longleftrightarrow> ring_ok 32 (spi_rx_fifo s) (spi_rx_head s) (spi_rx_tail s) (spi_rx_count s)"

lemma length_spi_items [simp]:
  "length (spi_tx_items s) = unat (spi_tx_count s)" "length (spi_rx_items s) = unat (spi_rx_count s)"
  by (simp_all add: spi_tx_items_def spi_rx_items_def)

lemma spi_items_Nil: "spi_tx_items s = [] \<longleftrightarrow> spi_tx_count s = 0" "spi_rx_items s = [] \<longleftrightarrow> spi_rx_count s = 0"
  by (simp_all add: spi_tx_items_def spi_rx_items_def ring_items_Nil)

lemma spi_ok_count: "spi_tx_ok s \<Longrightarrow> unat (spi_tx_count s) \<le> 32" "spi_rx_ok s \<Longrightarrow> unat (spi_rx_count s) \<le> 32"
  by (simp_all add: spi_tx_ok_def spi_rx_ok_def ring_ok_def)

lemmas spi_ring_ops = ring_push [where w = "32 :: u32", simplified] ring_pop [where w = "32 :: u32", simplified]

interpretation stx: fifo spi_tx_ok spi_tx_items spi_tx_push spi_tx_pop 32
  by unfold_locales
    (simp_all add: spi_ok_count spi_items_Nil, simp_all add: spi_tx_ok_def spi_tx_items_def spi_tx_push_def spi_tx_pop_def
      spi_ring_ops)

interpretation srx: fifo spi_rx_ok spi_rx_items spi_rx_push spi_rx_pop 32
  by unfold_locales
    (simp_all add: spi_ok_count spi_items_Nil, simp_all add: spi_rx_ok_def spi_rx_items_def spi_rx_push_def spi_rx_pop_def
      spi_ring_ops)

text \<open>
  What the queues are made of: a state update outside these fields changes neither queue.
\<close>

definition spi_queues :: "'b BL808SPIState \<Rightarrow> (u32 list \<times> u32 \<times> u32 \<times> u32) \<times> (u32 list \<times> u32 \<times> u32 \<times> u32)" where
  "spi_queues s = ((spi_tx_fifo s, spi_tx_head s, spi_tx_tail s, spi_tx_count s),
     (spi_rx_fifo s, spi_rx_head s, spi_rx_tail s, spi_rx_count s))"

lemma spi_queues_eqD:
  assumes "spi_queues s' = spi_queues s"
  shows "spi_tx_items s' = spi_tx_items s" "spi_rx_items s' = spi_rx_items s" "spi_tx_ok s' = spi_tx_ok s"
    "spi_rx_ok s' = spi_rx_ok s" "spi_tx_count s' = spi_tx_count s" "spi_rx_count s' = spi_rx_count s"
  using assms by (simp_all add: spi_queues_def spi_tx_items_def spi_rx_items_def spi_tx_ok_def spi_rx_ok_def)

lemma spi_queues_update [simp]:
  "spi_queues (bl808_spi_update_irq s) = spi_queues s" "spi_queues (bl808_spi_schedule_transfer s) = spi_queues s"
  "spi_queues (bl808_spi_recompute_clock s) = spi_queues s"
  "spi_queues (s\<lparr>spi_fifo_config0 := v\<rparr>) = spi_queues s" "spi_queues (s\<lparr>spi_int_sts := v\<rparr>) = spi_queues s"
  "spi_queues (s\<lparr>rx_ignore_remaining := v\<rparr>) = spi_queues s" "spi_queues (s\<lparr>spi_bus := b\<rparr>) = spi_queues s"
  "spi_queues (s\<lparr>transfer_active := x\<rparr>) = spi_queues s" "spi_queues (s\<lparr>spi_cs := x\<rparr>) = spi_queues s"
  "spi_queues (s\<lparr>transfer_scheduled := x\<rparr>) = spi_queues s"
  by (simp_all add: spi_queues_def bl808_spi_update_irq_def bl808_spi_schedule_transfer_def bl808_spi_recompute_clock_def Let_def)

lemma spi_depth_bounds: "unat (bl808_spi_fifo_depth s) \<le> 32" "8 \<le> unat (bl808_spi_fifo_depth s)"
  by (simp_all add: bl808_spi_fifo_depth_def)

lemma spi_push_keeps [simp]:
  "spi_rx_items (spi_tx_push v s) = spi_rx_items s" "spi_rx_ok (spi_tx_push v s) = spi_rx_ok s"
  "spi_tx_items (spi_rx_push v s) = spi_tx_items s" "spi_tx_ok (spi_rx_push v s) = spi_tx_ok s"
  "spi_rx_items (snd (spi_tx_pop s)) = spi_rx_items s" "spi_rx_ok (snd (spi_tx_pop s)) = spi_rx_ok s"
  "spi_tx_items (snd (spi_rx_pop s)) = spi_tx_items s" "spi_tx_ok (snd (spi_rx_pop s)) = spi_tx_ok s"
  "spi_tx_count (spi_rx_push v s) = spi_tx_count s" "spi_rx_count (snd (spi_tx_pop s)) = spi_rx_count s"
  by (simp_all add: spi_tx_push_def spi_rx_push_def spi_tx_pop_def spi_rx_pop_def spi_rx_items_def spi_tx_items_def
      spi_rx_ok_def spi_tx_ok_def)

section \<open>Receiving\<close>

text \<open>How many answers are still to be ignored, and how many have room.\<close>

definition spi_ignored :: "'b BL808SPIState \<Rightarrow> nat" where
  "spi_ignored s = (if tst (spi_config s) SPI_RXD_IGNR_EN then unat (rxd_ignr s AND 0xFF) - unat (rx_ignore_remaining s) else 0)"

definition spi_room :: "'b BL808SPIState \<Rightarrow> nat" where
  "spi_room s = unat (bl808_spi_fifo_depth s) - unat (spi_rx_count s)"

text \<open>The setting of a transfer, which it does not change.\<close>

definition spi_setting :: "'b BL808SPIState \<Rightarrow> u32 \<times> u32 \<times> bool \<times> bool \<times> bool" where
  "spi_setting s = (spi_config s, rxd_ignr s, loopback s, spi_clock_enabled s, spi_reset_asserted s)"

lemma push_rx_cases:
  "bl808_spi_push_rx v s =
     (if 0 < spi_ignored s then s\<lparr>rx_ignore_remaining := rx_ignore_remaining s + 1\<rparr>
      else if spi_room s = 0 then s\<lparr>spi_fifo_config0 := spi_fifo_config0 s OR SPI_FIFO_RX_OVERFLOW\<rparr>
      else spi_rx_push (v AND bl808_spi_frame_mask s) s)"
  by (auto simp: bl808_spi_push_rx_def spi_ignored_def spi_room_def word_less_unat word_le_unat)

lemma push_rx_keeps:
  "spi_setting (bl808_spi_push_rx v s) = spi_setting s" "spi_bus (bl808_spi_push_rx v s) = spi_bus s"
  "spi_tx_items (bl808_spi_push_rx v s) = spi_tx_items s" "spi_tx_ok (bl808_spi_push_rx v s) = spi_tx_ok s"
  "spi_tx_count (bl808_spi_push_rx v s) = spi_tx_count s" "spi_int_sts (bl808_spi_push_rx v s) = spi_int_sts s"
  by (simp_all add: push_rx_cases spi_setting_def spi_rx_push_def spi_tx_items_def spi_tx_ok_def)

lemma setting_eqD:
  assumes "spi_setting s' = spi_setting s"
  shows "bl808_spi_frame_mask s' = bl808_spi_frame_mask s" "bl808_spi_fifo_depth s' = bl808_spi_fifo_depth s"
    "bl808_spi_enabled s' = bl808_spi_enabled s" "bl808_spi_clock_active s' = bl808_spi_clock_active s" "loopback s' = loopback s"
    "bl808_spi_idle_frame s' = bl808_spi_idle_frame s"
  using assms by (simp_all add: spi_setting_def bl808_spi_frame_mask_def bl808_spi_fifo_depth_def bl808_spi_enabled_def
      bl808_spi_clock_active_def bl808_spi_idle_frame_def spi_frame_size_def)

lemma push_rx_ignored: "spi_ignored (bl808_spi_push_rx v s) = spi_ignored s - 1"
proof (cases "0 < spi_ignored s")
  case True
  have "unat (rxd_ignr s AND 0xFF) < 256" using unat_and_mask [of "rxd_ignr s" 8] by (simp add: mask_numeral)
  then have "unat (rx_ignore_remaining s) + 1 < 2 ^ 32" using True by (simp add: spi_ignored_def split: if_splits)
  then have "unat (rx_ignore_remaining s + 1) = unat (rx_ignore_remaining s) + 1" by (subst unat_add_small) simp_all
  then show ?thesis using True unfolding push_rx_cases by (simp add: spi_ignored_def)
qed (auto simp: push_rx_cases spi_ignored_def spi_rx_push_def split: if_splits)

lemma push_rx_queue:
  assumes "spi_rx_ok s"
  shows "spi_rx_ok (bl808_spi_push_rx v s)"
    "spi_rx_items (bl808_spi_push_rx v s) =
       spi_rx_items s @ (if 0 < spi_ignored s \<or> spi_room s = 0 then [] else [v AND bl808_spi_frame_mask s])"
    "spi_room (bl808_spi_push_rx v s) = (if 0 < spi_ignored s then spi_room s else spi_room s - 1)"
    "spi_fifo_config0 (bl808_spi_push_rx v s) =
       (if 0 < spi_ignored s \<or> 0 < spi_room s then spi_fifo_config0 s else spi_fifo_config0 s OR SPI_FIFO_RX_OVERFLOW)"
proof -
  let ?p = "spi_rx_push (v AND bl808_spi_frame_mask s) s"
  have push: "spi_rx_ok ?p" "spi_rx_items ?p = spi_rx_items s @ [v AND bl808_spi_frame_mask s]" if "spi_room s \<noteq> 0"
  proof -
    have "length (spi_rx_items s) < 32" using that spi_depth_bounds(1) [of s] by (simp add: spi_room_def)
    then show "spi_rx_ok ?p" "spi_rx_items ?p = spi_rx_items s @ [v AND bl808_spi_frame_mask s]"
      using assms srx.push_ok srx.push_items by blast+
  qed
  have room: "spi_room ?p = spi_room s - 1" if "spi_room s \<noteq> 0"
  proof -
    have "unat (spi_rx_count ?p) = Suc (unat (spi_rx_count s))" using arg_cong [OF push(2) [OF that], of length] by simp
    moreover have "bl808_spi_fifo_depth ?p = bl808_spi_fifo_depth s"
      by (simp add: spi_rx_push_def bl808_spi_fifo_depth_def spi_frame_size_def)
    ultimately show ?thesis by (simp add: spi_room_def)
  qed
  have q: "spi_queues (s\<lparr>rx_ignore_remaining := x\<rparr>) = spi_queues s" "spi_queues (s\<lparr>spi_fifo_config0 := y\<rparr>) = spi_queues s" for x y
    by simp_all
  show "spi_rx_ok (bl808_spi_push_rx v s)"
    "spi_rx_items (bl808_spi_push_rx v s) =
       spi_rx_items s @ (if 0 < spi_ignored s \<or> spi_room s = 0 then [] else [v AND bl808_spi_frame_mask s])"
    unfolding push_rx_cases using assms push spi_queues_eqD [OF q(1)] spi_queues_eqD [OF q(2)] by auto
  show "spi_room (bl808_spi_push_rx v s) = (if 0 < spi_ignored s then spi_room s else spi_room s - 1)"
    unfolding push_rx_cases using room by (auto simp: spi_room_def bl808_spi_fifo_depth_def spi_frame_size_def)
  show "spi_fifo_config0 (bl808_spi_push_rx v s) =
       (if 0 < spi_ignored s \<or> 0 < spi_room s then spi_fifo_config0 s else spi_fifo_config0 s OR SPI_FIFO_RX_OVERFLOW)"
    unfolding push_rx_cases by (simp add: spi_rx_push_def)
qed

section \<open>Transfers\<close>

text \<open>The bus is given a list of frames, one after the other.\<close>

primrec bus_run :: "'b ssi_transfer \<Rightarrow> 'b \<Rightarrow> u32 list \<Rightarrow> u32 list \<times> 'b" where
  "bus_run xfer b [] = ([], b)"
| "bus_run xfer b (t # ts) = (let (r, b) = xfer b t; (rs, b) = bus_run xfer b ts in (r # rs, b))"

definition spi_answers :: "'b ssi_transfer \<Rightarrow> 'b BL808SPIState \<Rightarrow> u32 list \<Rightarrow> u32 list \<times> 'b option" where
  "spi_answers xfer s ts =
     (if loopback s then (ts, spi_bus s)
      else case spi_bus s of None \<Rightarrow> (replicate (length ts) (bl808_spi_idle_frame s), None)
        | Some b \<Rightarrow> (let (rs, b) = bus_run xfer b ts in (rs, Some b)))"

lemma exchange_keeps:
  "spi_queues (snd (spi_exchange xfer tx s)) = spi_queues s" "spi_setting (snd (spi_exchange xfer tx s)) = spi_setting s"
  "spi_fifo_config0 (snd (spi_exchange xfer tx s)) = spi_fifo_config0 s" "spi_int_sts (snd (spi_exchange xfer tx s)) = spi_int_sts s"
  "rx_ignore_remaining (snd (spi_exchange xfer tx s)) = rx_ignore_remaining s"
  by (simp_all add: spi_exchange_def spi_setting_def split_beta Let_def split: option.split)

lemma spi_tx_pop_keeps:
  "spi_setting (snd (spi_tx_pop s)) = spi_setting s" "spi_fifo_config0 (snd (spi_tx_pop s)) = spi_fifo_config0 s"
  "spi_int_sts (snd (spi_tx_pop s)) = spi_int_sts s" "spi_bus (snd (spi_tx_pop s)) = spi_bus s"
  "rx_ignore_remaining (snd (spi_tx_pop s)) = rx_ignore_remaining s"
  by (simp_all add: spi_tx_pop_def spi_setting_def)

text \<open>The first answer, and those that follow it.\<close>

lemma answers_Cons:
  assumes "spi_bus s0 = spi_bus s" and "spi_setting s0 = spi_setting s"
    and "spi_setting s1 = spi_setting s" and "spi_bus s1 = spi_bus (snd (spi_exchange xfer t s0))"
  shows "spi_answers xfer s (t # ts) =
    (fst (spi_exchange xfer t s0) # fst (spi_answers xfer s1 ts), snd (spi_answers xfer s1 ts))"
  using assms setting_eqD [OF assms(2)] setting_eqD [OF assms(3)]
  by (simp add: spi_answers_def spi_exchange_def split_beta Let_def split: option.splits)

lemma ignored_room_cong:
  assumes "spi_setting s' = spi_setting s"
  shows "rx_ignore_remaining s' = rx_ignore_remaining s \<Longrightarrow> spi_ignored s' = spi_ignored s"
    and "spi_rx_count s' = spi_rx_count s \<Longrightarrow> spi_room s' = spi_room s"
  using assms setting_eqD(2) [OF assms] by (simp_all add: spi_ignored_def spi_room_def spi_setting_def)

text \<open>One round of the transfer loop.\<close>

definition spi_round :: "'b ssi_transfer \<Rightarrow> 'b BL808SPIState \<Rightarrow> 'b BL808SPIState" where
  "spi_round xfer s =
     (let (tx, s) = spi_tx_pop s; (rx, s) = spi_exchange xfer tx s in bl808_spi_push_rx (rx AND bl808_spi_frame_mask s) s)"

lemma round_spec:
  fixes xfer :: "'b ssi_transfer"
  assumes tx: "spi_tx_ok s" "spi_tx_items s = t # ts" and rx: "spi_rx_ok s"
  defines "rs \<equiv> spi_answers xfer s (t # ts)" and "s' \<equiv> spi_round xfer s"
  shows "spi_tx_ok s'" "spi_tx_items s' = ts" "spi_rx_ok s'" "spi_setting s' = spi_setting s" "spi_int_sts s' = spi_int_sts s"
    "spi_answers xfer s' ts = (tl (fst rs), snd rs)" "spi_ignored s' = spi_ignored s - 1"
    "spi_rx_items s' = spi_rx_items s @
      (if 0 < spi_ignored s \<or> spi_room s = 0 then [] else [hd (fst rs) AND bl808_spi_frame_mask s])"
    "spi_room s' = (if 0 < spi_ignored s then spi_room s else spi_room s - 1)"
    "spi_fifo_config0 s' =
      (if 0 < spi_ignored s \<or> 0 < spi_room s then spi_fifo_config0 s else spi_fifo_config0 s OR SPI_FIFO_RX_OVERFLOW)"
    "fst rs \<noteq> []"
proof -
  let ?s0 = "snd (spi_tx_pop s)"
  let ?s1 = "snd (spi_exchange xfer t ?s0)" and ?r = "fst (spi_exchange xfer t ?s0)"
  have pop: "fst (spi_tx_pop s) = t" "spi_tx_items ?s0 = ts" "spi_tx_ok ?s0"
    using stx.pop_hd [OF tx(1)] stx.pop_tl [OF tx(1)] stx.pop_ok [OF tx(1)] tx(2) by simp_all
  have s': "s' = bl808_spi_push_rx (?r AND bl808_spi_frame_mask ?s1) ?s1"
    unfolding s'_def spi_round_def using pop(1) by (simp add: split_beta)
  have set1: "spi_setting ?s1 = spi_setting s" using exchange_keeps(2) spi_tx_pop_keeps(1) by metis
  have q1: "spi_tx_items ?s1 = ts" "spi_tx_ok ?s1" "spi_rx_items ?s1 = spi_rx_items s" "spi_rx_ok ?s1" "spi_rx_count ?s1 = spi_rx_count s"
    using spi_queues_eqD [OF exchange_keeps(1) [of xfer t ?s0]] pop rx by simp_all
  have ig: "spi_ignored ?s1 = spi_ignored s" "spi_room ?s1 = spi_room s"
    using ignored_room_cong [OF set1] q1(5) by (simp_all add: exchange_keeps spi_tx_pop_keeps)
  note mask = setting_eqD(1) [OF set1]
  show "spi_tx_ok s'" "spi_tx_items s' = ts" "spi_setting s' = spi_setting s" "spi_int_sts s' = spi_int_sts s"
    "spi_ignored s' = spi_ignored s - 1"
    unfolding s' push_rx_keeps push_rx_ignored using q1 set1 ig by (simp_all add: exchange_keeps spi_tx_pop_keeps)
  have ans: "rs = (?r # fst (spi_answers xfer s' ts), snd (spi_answers xfer s' ts))"
    unfolding rs_def by (rule answers_Cons) (simp_all add: spi_tx_pop_keeps s' push_rx_keeps set1)
  then show "spi_answers xfer s' ts = (tl (fst rs), snd rs)" "fst rs \<noteq> []" by simp_all
  show "spi_rx_ok s'" "spi_room s' = (if 0 < spi_ignored s then spi_room s else spi_room s - 1)"
    "spi_fifo_config0 s' =
      (if 0 < spi_ignored s \<or> 0 < spi_room s then spi_fifo_config0 s else spi_fifo_config0 s OR SPI_FIFO_RX_OVERFLOW)"
    unfolding s' using push_rx_queue [OF q1(4)] ig by (simp_all add: exchange_keeps spi_tx_pop_keeps)
  show "spi_rx_items s' = spi_rx_items s @
      (if 0 < spi_ignored s \<or> spi_room s = 0 then [] else [hd (fst rs) AND bl808_spi_frame_mask s])"
    unfolding s' using push_rx_queue(2) [OF q1(4)] ig q1(3) ans mask by (simp add: and.assoc)
qed

lemma round_scheduled: "transfer_scheduled (spi_round xfer s) = transfer_scheduled s"
  by (simp add: spi_round_def spi_tx_pop_def spi_exchange_def bl808_spi_push_rx_def spi_rx_push_def split_beta Let_def
      split: option.split)

lemma transfer_loop_unfold:
  "spi_transfer_loop xfer s = (if spi_tx_items s = [] then s else spi_transfer_loop xfer (spi_round xfer s))"
  by (subst spi_transfer_loop.simps) (simp add: spi_items_Nil word_gt_0 spi_round_def split_beta Let_def)

definition spi_received :: "'b BL808SPIState \<Rightarrow> u32 list \<Rightarrow> u32 list" where
  "spi_received s rs = take (spi_room s) (drop (spi_ignored s) (map (\<lambda>r. r AND bl808_spi_frame_mask s) rs))"

definition spi_overruns :: "'b BL808SPIState \<Rightarrow> u32 list \<Rightarrow> bool" where
  "spi_overruns s rs \<longleftrightarrow> spi_room s < length rs - spi_ignored s"

lemma received_step:
  assumes "spi_setting s' = spi_setting s" and "spi_ignored s' = spi_ignored s - 1"
    and "spi_room s' = (if 0 < spi_ignored s then spi_room s else spi_room s - 1)"
  shows "spi_received s (r # rs) =
      (if 0 < spi_ignored s \<or> spi_room s = 0 then [] else [r AND bl808_spi_frame_mask s]) @ spi_received s' rs"
    and "spi_overruns s (r # rs) \<longleftrightarrow> spi_ignored s = 0 \<and> spi_room s = 0 \<or> spi_overruns s' rs"
proof -
  note mask = setting_eqD(1) [OF assms(1)]
  consider k where "spi_ignored s = Suc k" | "spi_ignored s = 0" "spi_room s = 0" | k where "spi_ignored s = 0" "spi_room s = Suc k"
    by (metis not0_implies_Suc)
  then show "spi_received s (r # rs) =
      (if 0 < spi_ignored s \<or> spi_room s = 0 then [] else [r AND bl808_spi_frame_mask s]) @ spi_received s' rs"
    by cases (use assms(2,3) mask in \<open>simp_all add: spi_received_def\<close>)
  show "spi_overruns s (r # rs) \<longleftrightarrow> spi_ignored s = 0 \<and> spi_room s = 0 \<or> spi_overruns s' rs"
    using assms(2,3) unfolding spi_overruns_def by (cases "spi_ignored s"; cases "spi_room s") auto
qed

lemma or_absorb_again: "(x OR y) OR y = x OR (y :: 'a::len word)"
  by (simp add: or.assoc)

lemma loop_spec:
  fixes xfer :: "'b ssi_transfer"
  assumes "spi_tx_ok s" and "spi_rx_ok s" and "rs = spi_answers xfer s (spi_tx_items s)" and "s' = spi_transfer_loop xfer s"
  shows "spi_tx_ok s' \<and> spi_rx_ok s' \<and> spi_tx_items s' = [] \<and> spi_setting s' = spi_setting s \<and> spi_int_sts s' = spi_int_sts s \<and>
    transfer_scheduled s' = transfer_scheduled s \<and> spi_bus s' = snd rs \<and> spi_rx_items s' = spi_rx_items s @ spi_received s (fst rs) \<and>
    spi_fifo_config0 s' = (if spi_overruns s (fst rs) then spi_fifo_config0 s OR SPI_FIFO_RX_OVERFLOW else spi_fifo_config0 s)"
  using assms
proof (induction "spi_tx_items s" arbitrary: s rs s')
  case Nil
  then have rs: "fst rs = []" "snd rs = spi_bus s" by (simp_all add: spi_answers_def split: option.split)
  moreover have "s' = s" using Nil transfer_loop_unfold [of xfer s] by simp
  ultimately show ?case using Nil by (simp add: spi_received_def spi_overruns_def)
next
  case (Cons t ts)
  let ?s = "spi_round xfer s"
  have tx: "spi_tx_items s = t # ts" using Cons.hyps(2) by simp
  note step = round_spec [OF Cons.prems(1) tx Cons.prems(2), of xfer]
  have rs: "rs = spi_answers xfer s (t # ts)" using Cons.prems(3) tx by simp
  obtain r rs1 where r: "fst rs = r # rs1" using step(11) rs by (cases "fst rs") simp_all
  have loop: "s' = spi_transfer_loop xfer ?s" using Cons.prems(4) transfer_loop_unfold [of xfer s] tx by simp
  have ans: "spi_answers xfer ?s (spi_tx_items ?s) = (rs1, snd rs)" using step(2,6) rs r by simp
  note IH = Cons.hyps(1) [of ?s, OF _ step(1,3) ans [symmetric] loop]
  note rec = received_step [OF step(4,7,9), of r rs1]
  show ?case
    using IH step(2,4,5,8,10) rs r rec round_scheduled [of xfer s] by (auto simp: or_absorb_again)
qed

end
