(* ===== verification/Spi_Props.thy ===== *)
theory Spi_Props
  imports Spi_Proofs
begin

text \<open>
  Invariants along runs of the SPI controller, its contract as a DMA source, and its properties.
\<close>

section \<open>Runs\<close>

definition spi_inv :: "'b BL808SPIState \<Rightarrow> bool" where
  "spi_inv s \<longleftrightarrow> spi_tx_ok s \<and> spi_rx_ok s \<and>
     (spi_tx_items s \<noteq> [] \<and> bl808_spi_clock_active s \<and> bl808_spi_enabled s \<longrightarrow> transfer_scheduled s) \<and>
     (transfer_scheduled s \<longrightarrow> bl808_spi_clock_active s)"

lemma spi_invD:
  assumes "spi_inv s"
  shows "spi_tx_ok s" "spi_rx_ok s" "transfer_scheduled s \<Longrightarrow> bl808_spi_clock_active s"
  using assms by (simp_all add: spi_inv_def)

text \<open>The invariant depends on the queues and on these fields only.\<close>

definition spi_activity :: "'b BL808SPIState \<Rightarrow> u32 \<times> bool \<times> bool \<times> bool" where
  "spi_activity s = (spi_config s, spi_clock_enabled s, spi_reset_asserted s, transfer_scheduled s)"

lemma activity_eqD:
  assumes "spi_activity s' = spi_activity s"
  shows "bl808_spi_clock_active s' = bl808_spi_clock_active s" "bl808_spi_enabled s' = bl808_spi_enabled s"
    "transfer_scheduled s' = transfer_scheduled s"
  using assms by (simp_all add: spi_activity_def bl808_spi_clock_active_def bl808_spi_enabled_def)

lemma spi_inv_cong: "spi_queues s' = spi_queues s \<Longrightarrow> spi_activity s' = spi_activity s \<Longrightarrow> spi_inv s' = spi_inv s"
  using spi_queues_eqD [of s' s] activity_eqD [of s' s] by (simp add: spi_inv_def)

lemma spi_inv_updates [simp]:
  "spi_inv (bl808_spi_update_irq s) = spi_inv s" "spi_inv (s\<lparr>spi_fifo_config0 := v\<rparr>) = spi_inv s"
  "spi_inv (s\<lparr>spi_int_sts := v\<rparr>) = spi_inv s" "spi_inv (s\<lparr>rx_ignore_remaining := v\<rparr>) = spi_inv s"
  "spi_inv (s\<lparr>prd0 := v\<rparr>) = spi_inv s" "spi_inv (s\<lparr>prd1 := v\<rparr>) = spi_inv s" "spi_inv (s\<lparr>rxd_ignr := v\<rparr>) = spi_inv s"
  "spi_inv (s\<lparr>sto_value := v\<rparr>) = spi_inv s" "spi_inv (s\<lparr>spi_fifo_config1 := v\<rparr>) = spi_inv s"
  "spi_inv (s\<lparr>transfer_active := x\<rparr>) = spi_inv s" "spi_inv (s\<lparr>spi_int_enable := v\<rparr>) = spi_inv s"
  "spi_inv (s\<lparr>spi_int_mask := v\<rparr>) = spi_inv s" "spi_inv (s\<lparr>spi_cs := x\<rparr>) = spi_inv s"
  by (rule spi_inv_cong, simp_all add: spi_queues_def spi_activity_def bl808_spi_update_irq_def Let_def)+

lemma schedule_inv:
  assumes "spi_tx_ok s" "spi_rx_ok s" "transfer_scheduled s \<Longrightarrow> bl808_spi_clock_active s"
  shows "spi_inv (bl808_spi_schedule_transfer s)"
proof -
  have q: "spi_queues (bl808_spi_schedule_transfer s) = spi_queues s" by simp
  have "bl808_spi_clock_active (bl808_spi_schedule_transfer s) = bl808_spi_clock_active s"
    "bl808_spi_enabled (bl808_spi_schedule_transfer s) = bl808_spi_enabled s"
    by (simp_all add: bl808_spi_schedule_transfer_def bl808_spi_clock_active_def bl808_spi_enabled_def)
  moreover have "transfer_scheduled (bl808_spi_schedule_transfer s) \<longleftrightarrow>
      transfer_scheduled s \<or> bl808_spi_clock_active s \<and> bl808_spi_enabled s \<and> spi_tx_items s \<noteq> []"
    by (auto simp: bl808_spi_schedule_transfer_def bl808_spi_clock_active_def spi_items_Nil)
  ultimately show ?thesis using assms spi_queues_eqD [OF q] by (auto simp: spi_inv_def)
qed

lemma queue_frame_inv:
  assumes "spi_inv s" and "spi_tx_count s < bl808_spi_fifo_depth s"
  shows "spi_inv (spi_queue_frame v s)"
proof -
  have "length (spi_tx_items s) < 32" using assms(2) spi_depth_bounds(1) [of s] by (simp add: word_less_unat)
  then have push: "spi_tx_ok (spi_tx_push x s')" if "spi_queues s' = spi_queues s" for s' x
    using spi_queues_eqD [OF that] spi_invD(1) [OF assms(1)] stx.push_ok [of s'] by simp
  show ?thesis unfolding spi_queue_frame_def Let_def
  proof (rule schedule_inv, goal_cases)
    case 1
    have "spi_tx_ok (t\<lparr>spi_int_sts := y\<rparr>) = spi_tx_ok t" for t :: "'a BL808SPIState" and y by (simp add: spi_tx_ok_def)
    then show ?case using push [of s] push [of "s\<lparr>rx_ignore_remaining := 0\<rparr>"] by simp
  next
    case 2
    then show ?case using spi_invD(2) [OF assms(1)] by (simp add: spi_rx_ok_def spi_tx_push_def)
  next
    case 3
    then show ?case using spi_invD(3) [OF assms(1)]
      by (simp add: spi_tx_push_def bl808_spi_clock_active_def split: if_splits)
  qed
qed

lemma rx_pop_inv:
  assumes "spi_inv s" and "spi_rx_count s \<noteq> 0"
  shows "spi_inv (snd (spi_rx_pop s))"
proof -
  have act: "spi_activity (snd (spi_rx_pop s)) = spi_activity s" by (simp add: spi_rx_pop_def spi_activity_def)
  have "spi_rx_ok (snd (spi_rx_pop s))" using srx.pop_ok [of s] spi_invD(2) [OF assms(1)] assms(2) by (simp add: spi_items_Nil)
  then show ?thesis using assms(1) activity_eqD [OF act] by (simp add: spi_inv_def)
qed

lemma read_inv: "spi_inv s \<Longrightarrow> spi_inv (snd (bl808_spi_read a s))"
  by (simp add: bl808_spi_read_def split_beta Let_def rx_pop_inv)

lemma dma_inv: "spi_inv s \<Longrightarrow> spi_inv (snd (bl808_spi_dma_read w s))" "spi_inv s \<Longrightarrow> spi_inv (bl808_spi_dma_write v w s)"
  by (simp_all add: bl808_spi_dma_read_def bl808_spi_dma_write_def split_beta Let_def rx_pop_inv queue_frame_inv not_le)

lemma clear_fifo_inv:
  assumes "spi_inv s"
  shows "spi_inv (bl808_spi_clear_tx_fifo s)" "spi_inv (bl808_spi_clear_rx_fifo s)"
proof -
  have act: "spi_activity (bl808_spi_clear_tx_fifo s) = spi_activity s" "spi_activity (bl808_spi_clear_rx_fifo s) = spi_activity s"
    by (simp_all add: spi_activity_def bl808_spi_clear_tx_fifo_def bl808_spi_clear_rx_fifo_def)
  have "spi_tx_ok (bl808_spi_clear_tx_fifo s)" "spi_rx_ok (bl808_spi_clear_tx_fifo s)" "spi_tx_items (bl808_spi_clear_tx_fifo s) = []"
    "spi_tx_ok (bl808_spi_clear_rx_fifo s)" "spi_rx_ok (bl808_spi_clear_rx_fifo s)"
    "spi_tx_items (bl808_spi_clear_rx_fifo s) = spi_tx_items s"
    using spi_invD(1,2) [OF assms] by (simp_all add: bl808_spi_clear_tx_fifo_def bl808_spi_clear_rx_fifo_def spi_tx_ok_def
        spi_rx_ok_def ring_ok_def spi_tx_items_def ring_items_def)
  then show "spi_inv (bl808_spi_clear_tx_fifo s)" "spi_inv (bl808_spi_clear_rx_fifo s)"
    using assms activity_eqD [OF act(1)] activity_eqD [OF act(2)] by (simp_all add: spi_inv_def)
qed

lemma write_config_inv:
  assumes "spi_inv s"
  shows "spi_inv (spi_write_config v s)"
proof -
  let ?s = "s\<lparr>spi_config := ucast v\<rparr>"
  have q: "spi_tx_ok ?s" "spi_rx_ok ?s" "transfer_scheduled ?s \<Longrightarrow> bl808_spi_clock_active ?s"
    using spi_invD [OF assms] by (simp_all add: spi_tx_ok_def spi_rx_ok_def bl808_spi_clock_active_def)
  have "spi_inv ?s" if "\<not> bl808_spi_enabled ?s" using q that by (simp add: spi_inv_def)
  then show ?thesis using schedule_inv [OF q] by (simp add: spi_write_config_def Let_def)
qed

lemma write_inv: "spi_inv s \<Longrightarrow> spi_inv (bl808_spi_write a v s)"
  by (simp add: bl808_spi_write_def write_config_inv spi_write_int_sts_def spi_write_fifo_config0_def spi_write_wdata_def
      clear_fifo_inv queue_frame_inv not_le Let_def)

lemma reset_inv: "length (spi_tx_fifo s) = 32 \<Longrightarrow> length (spi_rx_fifo s) = 32 \<Longrightarrow> spi_inv (bl808_spi_reset s)"
  by (simp add: bl808_spi_reset_def Let_def)
    (simp add: spi_inv_def bl808_spi_clear_tx_fifo_def bl808_spi_clear_rx_fifo_def spi_tx_ok_def spi_rx_ok_def ring_ok_def
      spi_items_Nil)

lemma spi_inv_length: "spi_inv s \<Longrightarrow> length (spi_tx_fifo s) = 32 \<and> length (spi_rx_fifo s) = 32"
  by (simp add: spi_inv_def spi_tx_ok_def spi_rx_ok_def ring_ok_def)

lemma clock_inv:
  assumes "spi_inv s"
  shows "spi_inv (bl808_spi_set_clock_enabled b s)"
proof -
  let ?s = "bl808_spi_recompute_clock (s\<lparr>spi_gate_enabled := b\<rparr>)"
  let ?t = "?s\<lparr>transfer_scheduled := False, transfer_active := False, spi_cs := True\<rparr>"
  have q: "spi_tx_ok ?s" "spi_rx_ok ?s"
    using spi_invD [OF assms] by (simp_all add: spi_tx_ok_def spi_rx_ok_def bl808_spi_recompute_clock_def)
  have "spi_inv ?t" if "\<not> bl808_spi_clock_active ?s"
    using q that by (simp add: spi_inv_def spi_tx_ok_def spi_rx_ok_def bl808_spi_clock_active_def)
  moreover have "spi_inv (bl808_spi_schedule_transfer ?s)" if "bl808_spi_clock_active ?s"
    using schedule_inv [OF q] that by simp
  ultimately show ?thesis by (simp add: bl808_spi_set_clock_enabled_def Let_def)
qed

lemma module_clock_inv: "spi_inv s \<Longrightarrow> spi_inv (bl808_spi_set_module_clock_enabled b s)"
proof -
  assume "spi_inv s"
  then have "spi_inv (s\<lparr>spi_module_clock_enabled := b\<rparr>)"
    by (subst spi_inv_cong) (simp_all add: spi_queues_def spi_activity_def)
  then show ?thesis by (simp add: bl808_spi_set_module_clock_enabled_def Let_def clock_inv)
qed

lemma reset_line_inv:
  assumes "spi_inv s"
  shows "spi_inv (bl808_spi_set_reset_asserted b s)"
proof (cases b)
  case True
  then show ?thesis using spi_inv_length [OF assms] by (simp add: bl808_spi_set_reset_asserted_def Let_def reset_inv)
next
  case False
  let ?s = "s\<lparr>spi_reset_asserted := False\<rparr>"
  have "spi_inv (bl808_spi_schedule_transfer ?s)"
    by (rule schedule_inv)
      (use spi_invD [OF assms] in \<open>simp_all add: spi_tx_ok_def spi_rx_ok_def bl808_spi_clock_active_def\<close>)
  then show ?thesis using False by (simp add: bl808_spi_set_reset_asserted_def Let_def)
qed

text \<open>The bottom half: what it does when the controller runs.\<close>

lemma transfer_bh_spec:
  fixes xfer :: "'b ssi_transfer"
  assumes ok: "spi_tx_ok s" "spi_rx_ok s" and on: "bl808_spi_clock_active s" "bl808_spi_enabled s"
    and rs: "spi_answers xfer s (spi_tx_items s) = (rs, bus)" and s': "s' = bl808_spi_transfer_bh xfer s"
  shows "spi_tx_ok s' \<and> spi_rx_ok s' \<and> spi_tx_items s' = [] \<and> spi_bus s' = bus \<and>
    spi_rx_items s' = spi_rx_items s @ spi_received s rs \<and>
    spi_fifo_config0 s' = (if spi_overruns s rs then spi_fifo_config0 s OR SPI_FIFO_RX_OVERFLOW else spi_fifo_config0 s) \<and>
    spi_int_sts s' = (if spi_tx_items s = [] then spi_int_sts s else spi_int_sts s OR SPI_INT_END) \<and>
    (\<not> loopback s \<longrightarrow> spi_cs s') \<and> \<not> transfer_scheduled s' \<and> \<not> transfer_active s' \<and> spi_setting s' = spi_setting s"
proof -
  define t where "t = (if \<not> loopback s then s\<lparr>transfer_scheduled := False, transfer_active := True, spi_cs := False\<rparr>
    else s\<lparr>transfer_scheduled := False, transfer_active := True\<rparr>)"
  have q: "spi_queues t = spi_queues s" and set: "spi_setting t = spi_setting s" and bus: "spi_bus t = spi_bus s"
    and flags: "spi_fifo_config0 t = spi_fifo_config0 s" "spi_int_sts t = spi_int_sts s" "rx_ignore_remaining t = rx_ignore_remaining s"
    by (simp_all add: t_def spi_setting_def)
  note q = spi_queues_eqD [OF q]
  have ans: "spi_answers xfer t (spi_tx_items t) = (rs, bus)"
    using rs unfolding spi_answers_def q bus setting_eqD [OF set] .
  let ?u = "spi_transfer_loop xfer t"
  have loop: "spi_tx_ok ?u \<and> spi_rx_ok ?u \<and> spi_tx_items ?u = [] \<and> spi_setting ?u = spi_setting t \<and> spi_int_sts ?u = spi_int_sts t \<and>
    transfer_scheduled ?u = transfer_scheduled t \<and> spi_bus ?u = bus \<and> spi_rx_items ?u = spi_rx_items t @ spi_received t rs \<and>
    spi_fifo_config0 ?u = (if spi_overruns t rs then spi_fifo_config0 t OR SPI_FIFO_RX_OVERFLOW else spi_fifo_config0 t)"
    using loop_spec [of t "(rs, bus)" xfer ?u] ok q ans by simp
  have "spi_received t rs = spi_received s rs" "spi_overruns t rs = spi_overruns s rs"
    using ignored_room_cong [OF set] q flags setting_eqD(1) [OF set] by (simp_all add: spi_received_def spi_overruns_def)
  note loop = loop [unfolded this q flags set]
  have s'_eq: "s' = bl808_spi_update_irq
    (let u = (if \<not> loopback ?u then ?u\<lparr>spi_cs := True\<rparr> else ?u)\<lparr>transfer_active := False\<rparr> in
     if spi_tx_items s = [] then u else u\<lparr>spi_int_sts := spi_int_sts u OR SPI_INT_END\<rparr>)"
    using on unfolding s' bl808_spi_transfer_bh_def t_def
    by (simp add: Let_def bl808_spi_clock_active_def bl808_spi_enabled_def spi_items_Nil word_gt_0)
  have fields: "spi_queues s' = spi_queues ?u" "spi_setting s' = spi_setting ?u" "spi_bus s' = spi_bus ?u"
    "spi_fifo_config0 s' = spi_fifo_config0 ?u" "transfer_scheduled s' = transfer_scheduled ?u"
    "\<not> transfer_active s'" "\<not> loopback ?u \<longrightarrow> spi_cs s'"
    "spi_int_sts s' = (if spi_tx_items s = [] then spi_int_sts ?u else spi_int_sts ?u OR SPI_INT_END)"
    unfolding s'_eq by (simp_all add: Let_def bl808_spi_update_irq_def spi_setting_def spi_queues_def)
  show ?thesis using loop fields spi_queues_eqD [OF fields(1)] setting_eqD(5) [of ?u s] by (simp add: t_def)
qed

lemma transfer_inv:
  assumes "spi_inv s"
  shows "spi_inv (bl808_spi_transfer_bh xfer s)"
proof (cases "bl808_spi_clock_active s \<and> bl808_spi_enabled s")
  case True
  obtain rs bus where rs: "spi_answers xfer s (spi_tx_items s) = (rs, bus)" by fastforce
  from transfer_bh_spec [OF spi_invD(1,2) [OF assms] _ _ rs refl] True show ?thesis by (simp add: spi_inv_def)
next
  case False
  let ?s = "s\<lparr>transfer_scheduled := False\<rparr>"
  have "spi_inv ?s"
    using spi_invD [OF assms] False
    by (simp add: spi_inv_def spi_tx_ok_def spi_rx_ok_def bl808_spi_clock_active_def bl808_spi_enabled_def)
  then show ?thesis
    using False by (simp add: bl808_spi_transfer_bh_def Let_def bl808_spi_clock_active_def bl808_spi_enabled_def)
qed

lemma step_inv: "spi_inv s \<Longrightarrow> spi_inv (spi_step xfer op s)"
  using spi_inv_length [of s]
  by (cases op) (simp_all add: read_inv write_inv transfer_inv dma_inv reset_inv clock_inv module_clock_inv reset_line_inv)

lemma run_inv: "spi_inv s \<Longrightarrow> spi_inv (fold (spi_step xfer) ops s)"
  by (induction ops arbitrary: s) (simp_all add: step_inv)

lemma init_inv: "spi_inv (bl808_spi_init loop bus)"
  by (simp add: spi_inv_def bl808_spi_init_def bl808_spi_recompute_clock_def spi_tx_ok_def spi_rx_ok_def ring_ok_def
      spi_items_Nil)

section \<open>The interrupt line\<close>

definition spi_level :: "'b BL808SPIState \<Rightarrow> bool" where
  "spi_level s \<longleftrightarrow> bl808_spi_clock_active s \<and>
     (spi_int_sts s OR bl808_spi_dynamic_ints s) AND spi_int_enable s AND NOT (spi_int_mask s) \<noteq> 0"

lemma spi_update_irq_line [irq_simps]:
  "spi_irq (bl808_spi_update_irq s) = spi_level (bl808_spi_update_irq s)"
  by (simp add: bl808_spi_update_irq_def spi_level_def bl808_spi_clock_active_def bl808_spi_dynamic_ints_def
      bl808_spi_tx_free_def bl808_spi_fifo_depth_def spi_frame_size_def Let_def)

interpretation spi: gated_irq_device "spi_step xfer" "\<lambda>op. True" "\<lambda>s. \<exists>loop bus. s = bl808_spi_init loop bus" spi_irq spi_level
  bl808_spi_clock_active for xfer
proof
  show "\<exists>loop bus. s = bl808_spi_init loop bus \<Longrightarrow> spi_irq s = spi_level s" for s :: "'a BL808SPIState"
    by (auto simp: bl808_spi_init_def bl808_spi_recompute_clock_def spi_level_def)
  show "spi_irq s = spi_level s \<Longrightarrow> spi_irq (spi_step xfer op s) = spi_level (spi_step xfer op s)" for op s
    by (cases op) (simp_all add: irq_simps bl808_spi_read_def bl808_spi_write_def bl808_spi_transfer_bh_def
        bl808_spi_dma_read_def bl808_spi_dma_write_def bl808_spi_reset_def bl808_spi_set_clock_enabled_def
        bl808_spi_set_module_clock_enabled_def bl808_spi_set_reset_asserted_def split_beta Let_def)
qed (simp add: spi_level_def)

section \<open>The receiver as a DMA source\<close>

definition bl808_soc_dma_spi_rx_ops :: "'b BL808SPIState BL808DMARequestOps" where
  "bl808_soc_dma_spi_rx_ops =
     \<lparr>can_read = Some bl808_spi_dma_can_read, can_write = None, req_read = Some bl808_spi_dma_read, req_write = None\<rparr>"

definition spi_offers :: "'b BL808SPIState \<Rightarrow> bool" where
  "spi_offers s \<longleftrightarrow> bl808_spi_clock_active s \<and> tst (spi_fifo_config0 s) SPI_FIFO_DMA_RX_EN"

interpretation spi_rx: dma_source bl808_soc_dma_spi_rx_ops spi_rx_ok spi_offers "\<lambda>s. map ucast (spi_rx_items s)"
proof
  fix e :: "'a BL808SPIState" and x :: u8 and xs
  assume ok: "spi_rx_ok e" and offers: "spi_offers e"
  show "\<exists>f. can_read bl808_soc_dma_spi_rx_ops = Some f \<and> f e 1 = (map ucast (spi_rx_items e) \<noteq> [])"
    using offers by (simp add: bl808_soc_dma_spi_rx_ops_def bl808_spi_dma_can_read_def spi_offers_def bl808_spi_clock_active_def
        spi_items_Nil word_gt_0)
  assume "map ucast (spi_rx_items e) = x # xs"
  then obtain y ys where items: "spi_rx_items e = y # ys" and x: "x = ucast y" "xs = map ucast ys" by auto
  let ?p = "snd (spi_rx_pop e)"
  have "spi_rx_count e \<noteq> 0" using items spi_items_Nil(2) [of e] by simp
  then have "bl808_spi_dma_read 1 e = (fst (spi_rx_pop e) AND 0xFF, bl808_spi_update_irq ?p)"
    by (simp add: bl808_spi_dma_read_def spi_dma_masked_def split_beta)
  moreover have "fst (spi_rx_pop e) = y" "spi_rx_items ?p = ys" "spi_rx_ok ?p"
    using srx.pop_hd [OF ok] srx.pop_tl [OF ok] srx.pop_ok [OF ok] items by simp_all
  moreover have q: "spi_queues (bl808_spi_update_irq ?p) = spi_queues ?p" by simp
  moreover have "take_bit 8 y = (ucast (ucast y :: u8) :: u32)" by (rule bit_word_eqI) (auto simp: bit_simps)
  then have "y AND 0xFF = (ucast (ucast y :: u8) :: u32)" by (simp add: take_bit_eq_mask mask_numeral)
  moreover have "spi_offers (bl808_spi_update_irq ?p) = spi_offers e"
    by (simp add: spi_offers_def bl808_spi_update_irq_def spi_rx_pop_def bl808_spi_clock_active_def Let_def)
  ultimately show "\<exists>f e'. req_read bl808_soc_dma_spi_rx_ops = Some f \<and> f 1 e = (ucast x, e') \<and> spi_rx_ok e' \<and> spi_offers e' \<and>
      map ucast (spi_rx_items e') = xs"
    using offers x spi_queues_eqD [OF q] by (simp add: bl808_soc_dma_spi_rx_ops_def)
qed

section \<open>Properties\<close>

text \<open>
  A transfer of the SPI controller.  When the controller runs, the bottom half sends exactly the
  queued frames to the bus, in order (or back to itself in loopback mode), empties the queue, and
  queues the answers, masked to the frame size: the first ones are skipped as far as RXD_IGNR
  asks for, those beyond the depth are dropped and the overflow flag says so exactly.  The end
  interrupt is raised when something was sent, and the chip select is released.
\<close>

theorem spi_transfer_exact:
  assumes "spi_tx_ok s" and "spi_rx_ok s" and "bl808_spi_clock_active s" and "bl808_spi_enabled s"
    and "spi_answers xfer s (spi_tx_items s) = (rs, bus)" and "s' = bl808_spi_transfer_bh xfer s"
  shows "spi_tx_items s' = [] \<and> spi_bus s' = bus \<and>
    spi_rx_items s' = spi_rx_items s @
      take (spi_room s) (drop (spi_ignored s) (map (\<lambda>r. r AND bl808_spi_frame_mask s) rs)) \<and>
    spi_fifo_config0 s' = (if spi_room s < length rs - spi_ignored s
      then spi_fifo_config0 s OR SPI_FIFO_RX_OVERFLOW else spi_fifo_config0 s) \<and>
    spi_int_sts s' = (if spi_tx_items s = [] then spi_int_sts s else spi_int_sts s OR SPI_INT_END) \<and>
    (\<not> loopback s \<longrightarrow> spi_cs s') \<and> \<not> transfer_scheduled s' \<and> \<not> transfer_active s'"
  using transfer_bh_spec [OF assms] unfolding spi_received_def spi_overruns_def by simp

text \<open>
  Two 16-bit frames to a device that answers each frame with its successor, the first answer
  being ignored.
\<close>

definition spi_example :: "nat BL808SPIState" where
  "spi_example = fold (spi_step (\<lambda>b tx. (tx + 1, Suc b)))
     [Spi_write 0x00 0x105, Spi_write 0x18 1, Spi_write 0x88 0x11111, Spi_write 0x88 0x2222] (bl808_spi_init False 0)"

lemma spi_example_fields:
  "spi_tx_items spi_example = [0x1111, 0x2222]" "spi_rx_items spi_example = []" "bl808_spi_clock_active spi_example"
  "bl808_spi_enabled spi_example" "loopback spi_example = False" "spi_bus spi_example = Some 0"
  "spi_room spi_example = 16" "spi_ignored spi_example = 1" "bl808_spi_frame_mask spi_example = 0xFFFF"
  unfolding spi_example_def by code_simp+

theorem spi_transfer_exact_witness:
  "spi_rx_items (bl808_spi_transfer_bh (\<lambda>b tx. (tx + 1, Suc b)) spi_example) = [0x2223] \<and>
   spi_bus (bl808_spi_transfer_bh (\<lambda>b tx. (tx + 1, Suc b)) spi_example) = Some 2"
proof -
  have inv: "spi_inv spi_example" unfolding spi_example_def by (intro run_inv init_inv)
  have "spi_answers (\<lambda>b tx. (tx + 1, Suc b)) spi_example (spi_tx_items spi_example) = ([0x1112, 0x2223], Some 2)"
    by (simp add: spi_answers_def spi_example_fields)
  from spi_transfer_exact [OF spi_invD(1,2) [OF inv] spi_example_fields(3,4) this refl] show ?thesis
    by (simp add: spi_example_fields)
qed

text \<open>
  Queued frames never wait in vain: after any history of the SPI controller, with whatever
  device on the bus, both ring buffers are well formed, and when frames are queued while clock,
  reset and enable bits let the controller run, a transfer is scheduled; none is scheduled otherwise.
\<close>

theorem spi_never_stalls:
  assumes "s = fold (spi_step xfer) ops (bl808_spi_init loop bus)"
  shows "ring_ok 32 (spi_tx_fifo s) (spi_tx_head s) (spi_tx_tail s) (spi_tx_count s) \<and>
    ring_ok 32 (spi_rx_fifo s) (spi_rx_head s) (spi_rx_tail s) (spi_rx_count s) \<and>
    (spi_tx_count s \<noteq> 0 \<and> bl808_spi_clock_active s \<and> bl808_spi_enabled s \<longrightarrow> transfer_scheduled s) \<and>
    (transfer_scheduled s \<longrightarrow> bl808_spi_clock_active s)"
  using run_inv [OF init_inv, of xfer ops loop bus] assms
  by (simp add: spi_inv_def spi_tx_ok_def spi_rx_ok_def spi_items_Nil)

theorem spi_never_stalls_witness: "transfer_scheduled spi_example"
proof -
  have "spi_tx_count spi_example \<noteq> 0" using spi_example_fields(1) spi_items_Nil(1) [of spi_example] by simp
  then show ?thesis using spi_never_stalls [OF spi_example_def] spi_example_fields(3,4) by blast
qed

text \<open>
  The DMA enable bits of the SPI controller cannot be cleared: whatever is written to
  SPI_FIFO_CONFIG0, a DMA direction that was enabled stays enabled, so that only a reset ends it.
\<close>

theorem spi_dma_enable_sticky:
  assumes "bit (spi_fifo_config0 s) k" and "k < 2"
  shows "bit (spi_fifo_config0 (bl808_spi_write 0x80 v s)) k"
proof -
  have k: "bit (NOT 0xF0 :: u32) k" "bit (NOT (0x10 OR 0x20) :: u32) k" "bit (NOT (0x40 OR 0x80) :: u32) k"
    using assms(2) by (auto simp: less_Suc_eq numeral_2_eq_2)
  have update: "spi_fifo_config0 (bl808_spi_update_irq t) = spi_fifo_config0 t" for t :: "'a BL808SPIState"
    by (simp add: bl808_spi_update_irq_def Let_def)
  have "bit (spi_fifo_config0 (spi_write_fifo_config0 v s)) k"
    using assms(1) k by (simp add: spi_write_fifo_config0_def bl808_spi_clear_tx_fifo_def bl808_spi_clear_rx_fifo_def Let_def
        bit_or_iff bit_and_iff)
  then show ?thesis using assms(1) by (simp add: bl808_spi_write_def update)
qed

theorem spi_dma_enable_sticky_witness:
  "bit (spi_fifo_config0 (bl808_spi_write 0x80 0 ((bl808_spi_init False ()) \<lparr>spi_fifo_config0 := 3\<rparr>))) 0"
  by (rule spi_dma_enable_sticky) simp_all

end
