(* ===== verification/I2c.thy ===== *)
theory I2c
  imports Device
begin

text \<open>
  The I2C controller, \<open>src/qemu-machine/hw/i2c/bl808_i2c.c\<close>: two FIFOs of two bytes, master transfers
  with an optional sub-address, and the hooks of the DMA controller.

  The bus and the devices on it belong to QEMU: the functions the sources call are the fields of
  a record, acting on a bus state of type \<open>'b\<close>.  The initialiser creates the bus, so that the
  sources' tests for a null pointer are always true.  The C fields of type \<open>int\<close> hold FIFO
  positions (0 to 2) and a remaining length (0 to 256) that are only decremented when positive;
  they are natural numbers here.
\<close>

section \<open>State\<close>

record 'b i2c_bus_ops =
  i2c_start_send :: "'b \<Rightarrow> u8 \<Rightarrow> int \<times> 'b"
  i2c_start_recv :: "'b \<Rightarrow> u8 \<Rightarrow> int \<times> 'b"
  i2c_send :: "'b \<Rightarrow> u8 \<Rightarrow> int \<times> 'b"
  i2c_recv :: "'b \<Rightarrow> u8 \<times> 'b"
  i2c_end_transfer :: "'b \<Rightarrow> 'b"
  i2c_bus_busy :: "'b \<Rightarrow> bool"

record 'b BL808I2CState =
  i2c_irq :: bool
  i2c_bus :: 'b
  i2c_config :: u32
  i2c_int_sts :: u32
  sub_addr :: u32
  prd_start :: u32
  prd_stop :: u32
  prd_data :: u32
  i2c_fifo_config0 :: u32
  i2c_tx_fifo :: "u8 list"
  i2c_tx_head :: nat
  i2c_tx_count :: nat
  i2c_rx_fifo :: "u8 list"
  i2c_rx_head :: nat
  i2c_rx_count :: nat
  i2c_transfer_active :: bool
  xfer_remaining :: nat
  xfer_is_read :: bool
  i2c_gate_enabled :: bool
  i2c_module_clock_enabled :: bool
  i2c_clock_enabled :: bool
  i2c_reset_asserted :: bool

abbreviation (input) BL808_I2C_FIFO_DEPTH :: nat where "BL808_I2C_FIFO_DEPTH \<equiv> 2"
abbreviation (input) CFG_MASTER_EN :: u32 where "CFG_MASTER_EN \<equiv> 0x1"
abbreviation (input) CFG_PKT_DIR :: u32 where "CFG_PKT_DIR \<equiv> 0x2"
abbreviation (input) CFG_SUB_ADDR_EN :: u32 where "CFG_SUB_ADDR_EN \<equiv> 0x10"
abbreviation (input) CFG_10B_ADDR_EN :: u32 where "CFG_10B_ADDR_EN \<equiv> 0x80"
abbreviation (input) I2C_INT_END :: u32 where "I2C_INT_END \<equiv> 0x1"
abbreviation (input) I2C_INT_TX_FIFO :: u32 where "I2C_INT_TX_FIFO \<equiv> 0x2"
abbreviation (input) I2C_INT_RX_FIFO :: u32 where "I2C_INT_RX_FIFO \<equiv> 0x4"
abbreviation (input) I2C_INT_NAK :: u32 where "I2C_INT_NAK \<equiv> 0x8"
abbreviation (input) I2C_INT_FIFO_ERR :: u32 where "I2C_INT_FIFO_ERR \<equiv> 0x20"
abbreviation (input) I2C_FIFO_DMA_RX_EN :: u32 where "I2C_FIFO_DMA_RX_EN \<equiv> 0x1"
abbreviation (input) I2C_FIFO_DMA_TX_EN :: u32 where "I2C_FIFO_DMA_TX_EN \<equiv> 0x2"

section \<open>Interrupts and queues\<close>

definition bl808_i2c_clock_active :: "'b BL808I2CState \<Rightarrow> bool" where
  "bl808_i2c_clock_active s \<longleftrightarrow> i2c_clock_enabled s \<and> \<not> i2c_reset_asserted s"

definition bl808_i2c_recompute_clock :: "'b BL808I2CState \<Rightarrow> 'b BL808I2CState" where
  "bl808_i2c_recompute_clock s = s\<lparr>i2c_clock_enabled := i2c_gate_enabled s \<and> i2c_module_clock_enabled s\<rparr>"

definition bl808_i2c_update_irq :: "'b BL808I2CState \<Rightarrow> 'b BL808I2CState" where
  "bl808_i2c_update_irq s =
     (let status = i2c_int_sts s AND 0x3F; msk = drop_bit 8 (i2c_int_sts s) AND 0x3F
      in s\<lparr>i2c_irq := bl808_i2c_clock_active s \<and> status AND NOT msk \<noteq> 0\<rparr>)"

definition bl808_i2c_set_int :: "u32 \<Rightarrow> 'b BL808I2CState \<Rightarrow> 'b BL808I2CState" where
  "bl808_i2c_set_int bits s = bl808_i2c_update_irq (s\<lparr>i2c_int_sts := i2c_int_sts s OR (bits AND 0x3F)\<rparr>)"

definition tx_fifo_clear :: "'b BL808I2CState \<Rightarrow> 'b BL808I2CState" where
  "tx_fifo_clear s = s\<lparr>i2c_tx_head := 0, i2c_tx_count := 0\<rparr>"

definition rx_fifo_clear :: "'b BL808I2CState \<Rightarrow> 'b BL808I2CState" where
  "rx_fifo_clear s = s\<lparr>i2c_rx_head := 0, i2c_rx_count := 0\<rparr>"

definition bl808_i2c_finish_transfer :: "'b i2c_bus_ops \<Rightarrow> 'b BL808I2CState \<Rightarrow> 'b BL808I2CState" where
  "bl808_i2c_finish_transfer ops s =
     (let s = (if i2c_transfer_active s then s\<lparr>i2c_bus := i2c_end_transfer ops (i2c_bus s)\<rparr> else s)
      in s\<lparr>i2c_transfer_active := False, i2c_config := i2c_config s AND NOT CFG_MASTER_EN\<rparr>)"

definition bl808_i2c_abort_transfer :: "'b i2c_bus_ops \<Rightarrow> u32 \<Rightarrow> 'b BL808I2CState \<Rightarrow> 'b BL808I2CState" where
  "bl808_i2c_abort_transfer ops status_bits s =
     (let s = bl808_i2c_finish_transfer ops s in
      if status_bits \<noteq> 0 then bl808_i2c_set_int status_bits s else s)"

definition tx_fifo_push :: "u8 \<Rightarrow> 'b BL808I2CState \<Rightarrow> 'b BL808I2CState" where
  "tx_fifo_push val s =
     (if i2c_tx_count s \<ge> BL808_I2C_FIFO_DEPTH then bl808_i2c_set_int I2C_INT_FIFO_ERR s
      else s\<lparr>i2c_tx_fifo := (i2c_tx_fifo s)[(i2c_tx_head s + i2c_tx_count s) mod BL808_I2C_FIFO_DEPTH := val],
             i2c_tx_count := i2c_tx_count s + 1\<rparr>)"

definition tx_fifo_pop :: "'b BL808I2CState \<Rightarrow> u8 \<times> 'b BL808I2CState" where
  "tx_fifo_pop s =
     (if i2c_tx_count s = 0 then (0xFF, bl808_i2c_set_int I2C_INT_FIFO_ERR s)
      else (i2c_tx_fifo s ! i2c_tx_head s,
            s\<lparr>i2c_tx_head := (i2c_tx_head s + 1) mod BL808_I2C_FIFO_DEPTH, i2c_tx_count := i2c_tx_count s - 1\<rparr>))"

definition rx_fifo_push :: "u8 \<Rightarrow> 'b BL808I2CState \<Rightarrow> 'b BL808I2CState" where
  "rx_fifo_push val s =
     (if i2c_rx_count s \<ge> BL808_I2C_FIFO_DEPTH then bl808_i2c_set_int I2C_INT_FIFO_ERR s
      else s\<lparr>i2c_rx_fifo := (i2c_rx_fifo s)[(i2c_rx_head s + i2c_rx_count s) mod BL808_I2C_FIFO_DEPTH := val],
             i2c_rx_count := i2c_rx_count s + 1\<rparr>)"

definition rx_fifo_pop :: "'b BL808I2CState \<Rightarrow> u8 \<times> 'b BL808I2CState" where
  "rx_fifo_pop s =
     (if i2c_rx_count s = 0 then (0xFF, bl808_i2c_set_int I2C_INT_FIFO_ERR s)
      else (i2c_rx_fifo s ! i2c_rx_head s,
            s\<lparr>i2c_rx_head := (i2c_rx_head s + 1) mod BL808_I2C_FIFO_DEPTH, i2c_rx_count := i2c_rx_count s - 1\<rparr>))"

section \<open>Transfers\<close>

definition bl808_i2c_slave_addr :: "'b BL808I2CState \<Rightarrow> u8" where
  "bl808_i2c_slave_addr s = ucast (drop_bit 8 (i2c_config s AND push_bit 8 0x7F))"

definition bl808_i2c_subaddr_len :: "'b BL808I2CState \<Rightarrow> nat" where
  "bl808_i2c_subaddr_len s = unat (drop_bit 5 (i2c_config s AND push_bit 5 0x3)) + 1"

definition bl808_i2c_start_bus_send :: "'b i2c_bus_ops \<Rightarrow> 'b BL808I2CState \<Rightarrow> int \<times> 'b BL808I2CState" where
  "bl808_i2c_start_bus_send ops s =
     (let (r, b) = i2c_start_send ops (i2c_bus s) (bl808_i2c_slave_addr s) in (r, s\<lparr>i2c_bus := b\<rparr>))"

fun send_subaddr_loop :: "'b i2c_bus_ops \<Rightarrow> nat \<Rightarrow> 'b BL808I2CState \<Rightarrow> int \<times> 'b BL808I2CState" where
  "send_subaddr_loop ops 0 s = (0, s)"
| "send_subaddr_loop ops (Suc len) s =
     (let (r, b) = i2c_send ops (i2c_bus s) (ucast (drop_bit (len * 8) (sub_addr s) AND 0xFF));
          s = s\<lparr>i2c_bus := b\<rparr>
      in if r < 0 then (-1, s) else send_subaddr_loop ops len s)"

definition bl808_i2c_send_subaddr :: "'b i2c_bus_ops \<Rightarrow> 'b BL808I2CState \<Rightarrow> int \<times> 'b BL808I2CState" where
  "bl808_i2c_send_subaddr ops s =
     (if \<not> tst (i2c_config s) CFG_SUB_ADDR_EN then (0, s) else send_subaddr_loop ops (bl808_i2c_subaddr_len s) s)"

function bl808_i2c_fill_rx :: "'b i2c_bus_ops \<Rightarrow> 'b BL808I2CState \<Rightarrow> 'b BL808I2CState" where
  "bl808_i2c_fill_rx ops s =
     (if i2c_rx_count s < BL808_I2C_FIFO_DEPTH \<and> xfer_remaining s > 0 then
        let (v, b) = i2c_recv ops (i2c_bus s);
            s = rx_fifo_push v (s\<lparr>i2c_bus := b\<rparr>)
        in bl808_i2c_fill_rx ops (s\<lparr>xfer_remaining := xfer_remaining s - 1\<rparr>)
      else s)"
  by pat_completeness auto
termination
  by (relation "measure (\<lambda>(ops, s). xfer_remaining s)")
    (auto simp: rx_fifo_push_def bl808_i2c_set_int_def bl808_i2c_update_irq_def Let_def)

function bl808_i2c_drain_tx :: "'b i2c_bus_ops \<Rightarrow> 'b BL808I2CState \<Rightarrow> int \<times> 'b BL808I2CState" where
  "bl808_i2c_drain_tx ops s =
     (if i2c_tx_count s > 0 \<and> xfer_remaining s > 0 then
        let (v, s) = tx_fifo_pop s;
            (r, b) = i2c_send ops (i2c_bus s) v;
            s = s\<lparr>i2c_bus := b\<rparr>
        in if r < 0 then (-1, s) else bl808_i2c_drain_tx ops (s\<lparr>xfer_remaining := xfer_remaining s - 1\<rparr>)
      else (0, s))"
  by pat_completeness auto
termination
  by (relation "measure (\<lambda>(ops, s). xfer_remaining s)")
    (auto simp: tx_fifo_pop_def bl808_i2c_set_int_def bl808_i2c_update_irq_def Let_def split: if_splits)

definition bl808_i2c_check_complete :: "'b i2c_bus_ops \<Rightarrow> 'b BL808I2CState \<Rightarrow> 'b BL808I2CState" where
  "bl808_i2c_check_complete ops s =
     (if xfer_remaining s = 0 then bl808_i2c_set_int I2C_INT_END (bl808_i2c_finish_transfer ops s)
      else if xfer_is_read s then (if i2c_rx_count s > 0 then bl808_i2c_set_int I2C_INT_RX_FIFO s else s)
      else if i2c_tx_count s < BL808_I2C_FIFO_DEPTH then bl808_i2c_set_int I2C_INT_TX_FIFO s else s)"

text \<open>The start of a transfer: the address phase of both directions, then the data.\<close>

definition i2c_begin :: "'b BL808I2CState \<Rightarrow> 'b BL808I2CState" where
  "i2c_begin s =
     s\<lparr>i2c_int_sts := i2c_int_sts s AND NOT 0x3F, xfer_is_read := tst (i2c_config s) CFG_PKT_DIR,
       xfer_remaining := unat (drop_bit 16 (i2c_config s AND push_bit 16 0xFF)) + 1, i2c_transfer_active := True\<rparr>"

definition i2c_address :: "'b i2c_bus_ops \<Rightarrow> 'b BL808I2CState \<Rightarrow> bool \<times> 'b BL808I2CState" where
  "i2c_address ops s =
     (case bl808_i2c_start_bus_send ops s of (r, s) \<Rightarrow>
        if r \<noteq> 0 then (False, s)
        else case bl808_i2c_send_subaddr ops s of (r, s) \<Rightarrow> (\<not> r < 0, s))"

definition bl808_i2c_start_transfer :: "'b i2c_bus_ops \<Rightarrow> 'b BL808I2CState \<Rightarrow> 'b BL808I2CState" where
  "bl808_i2c_start_transfer ops s =
     (if \<not> bl808_i2c_clock_active s then bl808_i2c_abort_transfer ops 0 s
      else if tst (i2c_config s) CFG_10B_ADDR_EN then bl808_i2c_abort_transfer ops (I2C_INT_NAK OR I2C_INT_END) s
      else case i2c_address ops (i2c_begin s) of (ok, s) \<Rightarrow>
        if \<not> ok then bl808_i2c_abort_transfer ops (I2C_INT_NAK OR I2C_INT_END) s
        else if xfer_is_read s then
          let s = s\<lparr>i2c_bus := i2c_end_transfer ops (i2c_bus s)\<rparr>;
              (r, b) = i2c_start_recv ops (i2c_bus s) (bl808_i2c_slave_addr s);
              s = s\<lparr>i2c_bus := b\<rparr>
          in if r \<noteq> 0 then bl808_i2c_abort_transfer ops (I2C_INT_NAK OR I2C_INT_END) s
             else bl808_i2c_check_complete ops (bl808_i2c_fill_rx ops s)
        else case bl808_i2c_drain_tx ops s of (r, s) \<Rightarrow>
          if r < 0 then bl808_i2c_abort_transfer ops (I2C_INT_NAK OR I2C_INT_END) s
          else bl808_i2c_check_complete ops s)"

section \<open>DMA\<close>

definition bl808_i2c_dma_can_read :: "'b BL808I2CState \<Rightarrow> nat \<Rightarrow> bool" where
  "bl808_i2c_dma_can_read s width_bytes =
     (if \<not> bl808_i2c_clock_active s \<or> \<not> tst (i2c_fifo_config0 s) I2C_FIFO_DMA_RX_EN \<or> width_bytes \<noteq> 1 then False
      else i2c_rx_count s > 0)"

definition bl808_i2c_dma_can_write :: "'b BL808I2CState \<Rightarrow> nat \<Rightarrow> bool" where
  "bl808_i2c_dma_can_write s width_bytes =
     (if \<not> bl808_i2c_clock_active s \<or> \<not> tst (i2c_fifo_config0 s) I2C_FIFO_DMA_TX_EN \<or> width_bytes \<noteq> 1 then False
      else i2c_tx_count s < BL808_I2C_FIFO_DEPTH)"

text \<open>Taking a received byte and queueing one to send, common to the DMA hooks and the data registers.\<close>

definition i2c_take :: "'b i2c_bus_ops \<Rightarrow> 'b BL808I2CState \<Rightarrow> u8 \<times> 'b BL808I2CState" where
  "i2c_take ops s =
     (let (val, s) = rx_fifo_pop s in
      (val, if i2c_transfer_active s \<and> xfer_is_read s then bl808_i2c_check_complete ops (bl808_i2c_fill_rx ops s) else s))"

definition i2c_put :: "'b i2c_bus_ops \<Rightarrow> u8 \<Rightarrow> 'b BL808I2CState \<Rightarrow> 'b BL808I2CState" where
  "i2c_put ops val s =
     (let s = tx_fifo_push val s in
      if i2c_transfer_active s \<and> \<not> xfer_is_read s
      then case bl808_i2c_drain_tx ops s of (r, s) \<Rightarrow>
        if r < 0 then bl808_i2c_abort_transfer ops (I2C_INT_NAK OR I2C_INT_END) s else bl808_i2c_check_complete ops s
      else s)"

definition bl808_i2c_dma_read :: "'b i2c_bus_ops \<Rightarrow> nat \<Rightarrow> 'b BL808I2CState \<Rightarrow> u32 \<times> 'b BL808I2CState" where
  "bl808_i2c_dma_read ops width_bytes s =
     (if width_bytes \<noteq> 1 then (0, s) else let (val, s) = i2c_take ops s in (ucast val, s))"

definition bl808_i2c_dma_write :: "'b i2c_bus_ops \<Rightarrow> u32 \<Rightarrow> nat \<Rightarrow> 'b BL808I2CState \<Rightarrow> 'b BL808I2CState" where
  "bl808_i2c_dma_write ops value width_bytes s = (if width_bytes \<noteq> 1 then s else i2c_put ops (ucast value) s)"

section \<open>Registers\<close>

definition bl808_i2c_fifo_config1 :: "'b BL808I2CState \<Rightarrow> u32" where
  "bl808_i2c_fifo_config1 s = of_nat (BL808_I2C_FIFO_DEPTH - i2c_tx_count s) OR push_bit 8 (of_nat (i2c_rx_count s))"

definition bl808_i2c_read :: "'b i2c_bus_ops \<Rightarrow> hwaddr \<Rightarrow> 'b BL808I2CState \<Rightarrow> u64 \<times> 'b BL808I2CState" where
  "bl808_i2c_read ops offset s =
     (if offset = 0x00 then (ucast (i2c_config s), s)
      else if offset = 0x04 then (ucast (i2c_int_sts s), s)
      else if offset = 0x08 then (ucast (sub_addr s), s)
      else if offset = 0x0C then (if i2c_transfer_active s \<or> i2c_bus_busy ops (i2c_bus s) then 1 else 0, s)
      else if offset = 0x10 then (ucast (prd_start s), s)
      else if offset = 0x14 then (ucast (prd_stop s), s)
      else if offset = 0x18 then (ucast (prd_data s), s)
      else if offset = 0x80 then (ucast (i2c_fifo_config0 s), s)
      else if offset = 0x84 then (ucast (bl808_i2c_fifo_config1 s), s)
      else if offset = 0x8C then let (val, s) = i2c_take ops s in (ucast val, s)
      else (0, s))"

definition i2c_write_config :: "'b i2c_bus_ops \<Rightarrow> u64 \<Rightarrow> 'b BL808I2CState \<Rightarrow> 'b BL808I2CState" where
  "i2c_write_config ops value s =
     (let old = i2c_config s;
          s = s\<lparr>i2c_config := ucast value\<rparr>
      in if \<not> tst old CFG_MASTER_EN \<and> tst (i2c_config s) CFG_MASTER_EN then bl808_i2c_start_transfer ops s
         else if tst old CFG_MASTER_EN \<and> \<not> tst (i2c_config s) CFG_MASTER_EN then bl808_i2c_abort_transfer ops 0 s
         else s)"

definition i2c_write_int_sts :: "u64 \<Rightarrow> 'b BL808I2CState \<Rightarrow> 'b BL808I2CState" where
  "i2c_write_int_sts value s =
     (let mask_bits = ucast value AND push_bit 8 0x3F;
          clear_bits = drop_bit 16 (ucast value :: u32) AND 0x3F;
          s = s\<lparr>i2c_int_sts := (i2c_int_sts s AND NOT (push_bit 8 0x3F)) OR mask_bits\<rparr>
      in bl808_i2c_update_irq (s\<lparr>i2c_int_sts := i2c_int_sts s AND NOT clear_bits\<rparr>))"

definition i2c_write_fifo_config0 :: "u64 \<Rightarrow> 'b BL808I2CState \<Rightarrow> 'b BL808I2CState" where
  "i2c_write_fifo_config0 value s =
     (let s = s\<lparr>i2c_fifo_config0 := ucast value AND (I2C_FIFO_DMA_RX_EN OR I2C_FIFO_DMA_TX_EN)\<rparr>;
          s = (if tst value 0x4 then tx_fifo_clear s else s);
          s = (if tst value 0x8 then rx_fifo_clear s else s)
      in bl808_i2c_update_irq s)"

definition bl808_i2c_write :: "'b i2c_bus_ops \<Rightarrow> hwaddr \<Rightarrow> u64 \<Rightarrow> 'b BL808I2CState \<Rightarrow> 'b BL808I2CState" where
  "bl808_i2c_write ops offset value s =
     (if i2c_reset_asserted s then s
      else if offset = 0x00 then i2c_write_config ops value s
      else if offset = 0x04 then i2c_write_int_sts value s
      else if offset = 0x08 then s\<lparr>sub_addr := ucast value\<rparr>
      else if offset = 0x10 then s\<lparr>prd_start := ucast value\<rparr>
      else if offset = 0x14 then s\<lparr>prd_stop := ucast value\<rparr>
      else if offset = 0x18 then s\<lparr>prd_data := ucast value\<rparr>
      else if offset = 0x80 then i2c_write_fifo_config0 value s
      else if offset = 0x88 then i2c_put ops (ucast value) s
      else s)"

section \<open>Clock and reset\<close>

definition bl808_i2c_reset_hold :: "'b i2c_bus_ops \<Rightarrow> 'b BL808I2CState \<Rightarrow> 'b BL808I2CState" where
  "bl808_i2c_reset_hold ops s =
     (let s = (if i2c_transfer_active s then s\<lparr>i2c_bus := i2c_end_transfer ops (i2c_bus s)\<rparr> else s);
          s = s\<lparr>i2c_config := 0, i2c_int_sts := 0x3F00, sub_addr := 0, prd_start := 0x0f0f0f0f, prd_stop := 0x0f0f0f0f,
                prd_data := 0x0f0f0f0f, i2c_fifo_config0 := 0\<rparr>;
          s = rx_fifo_clear (tx_fifo_clear s)
      in bl808_i2c_update_irq (s\<lparr>i2c_transfer_active := False, xfer_remaining := 0, xfer_is_read := False\<rparr>))"

definition i2c_clock_changed :: "'b i2c_bus_ops \<Rightarrow> 'b BL808I2CState \<Rightarrow> 'b BL808I2CState" where
  "i2c_clock_changed ops s =
     (let s = bl808_i2c_recompute_clock s;
          s = (if \<not> bl808_i2c_clock_active s \<and> i2c_transfer_active s then bl808_i2c_abort_transfer ops 0 s else s)
      in bl808_i2c_update_irq s)"

definition bl808_i2c_set_clock_enabled :: "'b i2c_bus_ops \<Rightarrow> bool \<Rightarrow> 'b BL808I2CState \<Rightarrow> 'b BL808I2CState" where
  "bl808_i2c_set_clock_enabled ops enabled s = i2c_clock_changed ops (s\<lparr>i2c_gate_enabled := enabled\<rparr>)"

definition bl808_i2c_set_module_clock_enabled :: "'b i2c_bus_ops \<Rightarrow> bool \<Rightarrow> 'b BL808I2CState \<Rightarrow> 'b BL808I2CState" where
  "bl808_i2c_set_module_clock_enabled ops enabled s = i2c_clock_changed ops (s\<lparr>i2c_module_clock_enabled := enabled\<rparr>)"

definition bl808_i2c_set_reset_asserted :: "'b i2c_bus_ops \<Rightarrow> bool \<Rightarrow> 'b BL808I2CState \<Rightarrow> 'b BL808I2CState" where
  "bl808_i2c_set_reset_asserted ops asserted s =
     (let s = s\<lparr>i2c_reset_asserted := asserted\<rparr> in
      if asserted then bl808_i2c_reset_hold ops s else bl808_i2c_update_irq s)"

definition bl808_i2c_reset :: "'b i2c_bus_ops \<Rightarrow> 'b BL808I2CState \<Rightarrow> 'b BL808I2CState" where
  "bl808_i2c_reset ops s = bl808_i2c_reset_hold ops (bl808_i2c_recompute_clock s)"

text \<open>The object as QEMU allocates it (all bytes zero), after the instance initialiser.\<close>

definition bl808_i2c_init :: "'b \<Rightarrow> 'b BL808I2CState" where
  "bl808_i2c_init bus = bl808_i2c_recompute_clock
     \<lparr>i2c_irq = False, i2c_bus = bus, i2c_config = 0, i2c_int_sts = 0, sub_addr = 0, prd_start = 0, prd_stop = 0,
      prd_data = 0, i2c_fifo_config0 = 0, i2c_tx_fifo = [0, 0], i2c_tx_head = 0, i2c_tx_count = 0, i2c_rx_fifo = [0, 0],
      i2c_rx_head = 0, i2c_rx_count = 0, i2c_transfer_active = False, xfer_remaining = 0, xfer_is_read = False,
      i2c_gate_enabled = True, i2c_module_clock_enabled = True, i2c_clock_enabled = False, i2c_reset_asserted = False\<rparr>"

section \<open>Operations of the device\<close>

datatype i2c_op =
    I2c_read hwaddr
  | I2c_write hwaddr u64
  | I2c_dma_read nat
  | I2c_dma_write u32 nat
  | I2c_reset
  | I2c_clock bool
  | I2c_module_clock bool
  | I2c_reset_line bool

fun i2c_step :: "'b i2c_bus_ops \<Rightarrow> i2c_op \<Rightarrow> 'b BL808I2CState \<Rightarrow> 'b BL808I2CState" where
  "i2c_step ops (I2c_read offset) s = snd (bl808_i2c_read ops offset s)"
| "i2c_step ops (I2c_write offset value) s = bl808_i2c_write ops offset value s"
| "i2c_step ops (I2c_dma_read w) s = snd (bl808_i2c_dma_read ops w s)"
| "i2c_step ops (I2c_dma_write v w) s = bl808_i2c_dma_write ops v w s"
| "i2c_step ops I2c_reset s = bl808_i2c_reset ops s"
| "i2c_step ops (I2c_clock b) s = bl808_i2c_set_clock_enabled ops b s"
| "i2c_step ops (I2c_module_clock b) s = bl808_i2c_set_module_clock_enabled ops b s"
| "i2c_step ops (I2c_reset_line b) s = bl808_i2c_set_reset_asserted ops b s"

end
