(* ===== verification/I2c_Proofs.thy ===== *)
theory I2c_Proofs
  imports I2c Ring
begin

text \<open>
  Correctness of the I2C model.  The bytes a read transfer will deliver are those in the FIFO
  followed by those the device still has to send, a function of the bus state: taking a byte takes
  the first of them, whatever the FIFO prefetches.  Bytes written are sent in order.  The
  interrupt line is exact, and the receiver is a source for the DMA controller.
\<close>

declare bl808_i2c_fill_rx.simps [simp del] bl808_i2c_drain_tx.simps [simp del]

section \<open>The two queues\<close>

definition i2c_tx_items :: "'b BL808I2CState \<Rightarrow> u8 list" where
  "i2c_tx_items s = nring_items (i2c_tx_fifo s) (i2c_tx_head s) (i2c_tx_count s)"

definition i2c_rx_items :: "'b BL808I2CState \<Rightarrow> u8 list" where
  "i2c_rx_items s = nring_items (i2c_rx_fifo s) (i2c_rx_head s) (i2c_rx_count s)"

definition i2c_tx_ok :: "'b BL808I2CState \<Rightarrow> bool" where
  "i2c_tx_ok s \<longleftrightarrow> nring_ok 2 (i2c_tx_fifo s) (i2c_tx_head s) (i2c_tx_count s)"

definition i2c_rx_ok :: "'b BL808I2CState \<Rightarrow> bool" where
  "i2c_rx_ok s \<longleftrightarrow> nring_ok 2 (i2c_rx_fifo s) (i2c_rx_head s) (i2c_rx_count s)"

lemma length_i2c_items [simp]:
  "length (i2c_tx_items s) = i2c_tx_count s" "length (i2c_rx_items s) = i2c_rx_count s"
  by (simp_all add: i2c_tx_items_def i2c_rx_items_def)

lemma i2c_items_Nil: "i2c_tx_items s = [] \<longleftrightarrow> i2c_tx_count s = 0" "i2c_rx_items s = [] \<longleftrightarrow> i2c_rx_count s = 0"
  by (simp_all add: i2c_tx_items_def i2c_rx_items_def nring_items_Nil)

lemma i2c_ok_count: "i2c_tx_ok s \<Longrightarrow> i2c_tx_count s \<le> 2" "i2c_rx_ok s \<Longrightarrow> i2c_rx_count s \<le> 2"
  by (simp_all add: i2c_tx_ok_def i2c_rx_ok_def nring_ok_def)

interpretation itx: fifo i2c_tx_ok i2c_tx_items tx_fifo_push tx_fifo_pop 2
  by unfold_locales
    (simp_all add: i2c_ok_count i2c_items_Nil, simp_all add: i2c_tx_ok_def i2c_tx_items_def tx_fifo_push_def tx_fifo_pop_def
      nring_push [simplified] nring_pop [simplified])

interpretation irx: fifo i2c_rx_ok i2c_rx_items rx_fifo_push rx_fifo_pop 2
  by unfold_locales
    (simp_all add: i2c_ok_count i2c_items_Nil, simp_all add: i2c_rx_ok_def i2c_rx_items_def rx_fifo_push_def rx_fifo_pop_def
      nring_push [simplified] nring_pop [simplified])

section \<open>Receiving\<close>

text \<open>What a device sends next, and all that a read transfer still delivers.\<close>

primrec recv_run :: "'b i2c_bus_ops \<Rightarrow> nat \<Rightarrow> 'b \<Rightarrow> u8 list \<times> 'b" where
  "recv_run ops 0 b = ([], b)"
| "recv_run ops (Suc n) b = (let (v, b) = i2c_recv ops b; (vs, b) = recv_run ops n b in (v # vs, b))"

lemma length_recv_run [simp]: "length (fst (recv_run ops n b)) = n"
  by (induction n arbitrary: b) (simp_all add: split_beta Let_def)

definition i2c_reading :: "'b BL808I2CState \<Rightarrow> bool" where
  "i2c_reading s \<longleftrightarrow> i2c_transfer_active s \<and> xfer_is_read s"

definition i2c_stream :: "'b i2c_bus_ops \<Rightarrow> 'b BL808I2CState \<Rightarrow> u8 list" where
  "i2c_stream ops s =
     i2c_rx_items s @ (if i2c_reading s then fst (recv_run ops (xfer_remaining s) (i2c_bus s)) else [])"

text \<open>The bus when the transfer will have ended.\<close>

definition i2c_final_bus :: "'b i2c_bus_ops \<Rightarrow> 'b BL808I2CState \<Rightarrow> 'b" where
  "i2c_final_bus ops s =
     (if i2c_reading s then i2c_end_transfer ops (snd (recv_run ops (xfer_remaining s) (i2c_bus s))) else i2c_bus s)"

text \<open>What the two FIFO loops leave alone.\<close>

definition i2c_setting :: "'b BL808I2CState \<Rightarrow> u32 \<times> u32 \<times> u32 \<times> u32 \<times> bool \<times> bool \<times> bool \<times> bool" where
  "i2c_setting s = (i2c_config s, i2c_int_sts s, sub_addr s, i2c_fifo_config0 s, i2c_transfer_active s, xfer_is_read s,
     i2c_clock_enabled s, i2c_reset_asserted s)"

lemma setting_i2cD:
  assumes "i2c_setting s' = i2c_setting s"
  shows "i2c_config s' = i2c_config s" "i2c_int_sts s' = i2c_int_sts s" "sub_addr s' = sub_addr s"
    "i2c_fifo_config0 s' = i2c_fifo_config0 s" "i2c_transfer_active s' = i2c_transfer_active s" "xfer_is_read s' = xfer_is_read s"
    "i2c_clock_enabled s' = i2c_clock_enabled s" "i2c_reset_asserted s' = i2c_reset_asserted s" "i2c_reading s' = i2c_reading s"
    "bl808_i2c_clock_active s' = bl808_i2c_clock_active s"
  using assms by (simp_all add: i2c_setting_def i2c_reading_def bl808_i2c_clock_active_def)

definition i2c_tx_part :: "'b BL808I2CState \<Rightarrow> u8 list \<times> nat \<times> nat" where
  "i2c_tx_part s = (i2c_tx_fifo s, i2c_tx_head s, i2c_tx_count s)"

definition i2c_rx_part :: "'b BL808I2CState \<Rightarrow> u8 list \<times> nat \<times> nat" where
  "i2c_rx_part s = (i2c_rx_fifo s, i2c_rx_head s, i2c_rx_count s)"

lemma i2c_part_eqD:
  "i2c_tx_part s' = i2c_tx_part s \<Longrightarrow> i2c_tx_items s' = i2c_tx_items s \<and> i2c_tx_ok s' = i2c_tx_ok s \<and> i2c_tx_count s' = i2c_tx_count s"
  "i2c_rx_part s' = i2c_rx_part s \<Longrightarrow> i2c_rx_items s' = i2c_rx_items s \<and> i2c_rx_ok s' = i2c_rx_ok s \<and> i2c_rx_count s' = i2c_rx_count s"
  by (simp_all add: i2c_tx_part_def i2c_rx_part_def i2c_tx_items_def i2c_tx_ok_def i2c_rx_items_def i2c_rx_ok_def)

lemma fill_rx_spec:
  assumes "i2c_rx_ok s" and "s' = bl808_i2c_fill_rx ops s" and "k = min (2 - i2c_rx_count s) (xfer_remaining s)"
  shows "i2c_rx_ok s' \<and> i2c_rx_items s' = i2c_rx_items s @ fst (recv_run ops k (i2c_bus s)) \<and>
    i2c_bus s' = snd (recv_run ops k (i2c_bus s)) \<and> xfer_remaining s' = xfer_remaining s - k \<and>
    i2c_setting s' = i2c_setting s \<and> i2c_tx_part s' = i2c_tx_part s"
  using assms
proof (induction k arbitrary: s)
  case 0
  then have "\<not> (i2c_rx_count s < 2 \<and> xfer_remaining s > 0)" by auto
  then have "s' = s" unfolding 0(2) by (subst bl808_i2c_fill_rx.simps) (rule if_not_P)
  then show ?case using 0 by simp
next
  case (Suc k)
  then have go: "i2c_rx_count s < 2" "xfer_remaining s > 0" by auto
  obtain v b where recv: "i2c_recv ops (i2c_bus s) = (v, b)" by fastforce
  let ?p = "rx_fifo_push v (s\<lparr>i2c_bus := b\<rparr>)"
  let ?s = "?p\<lparr>xfer_remaining := xfer_remaining ?p - 1\<rparr>"
  have s': "s' = bl808_i2c_fill_rx ops ?s" using Suc.prems(2) go recv by (subst (asm) bl808_i2c_fill_rx.simps) (simp add: Let_def)
  have part: "i2c_rx_part (s\<lparr>i2c_bus := b\<rparr>) = i2c_rx_part s" "i2c_rx_part ?s = i2c_rx_part ?p" by (simp_all add: i2c_rx_part_def)
  note sb = i2c_part_eqD(2) [OF part(1)] and sp = i2c_part_eqD(2) [OF part(2)]
  have push: "i2c_rx_ok ?p" "i2c_rx_items ?p = i2c_rx_items s @ [v]"
    using irx.push_ok [of "s\<lparr>i2c_bus := b\<rparr>" v] irx.push_items [of "s\<lparr>i2c_bus := b\<rparr>" v] sb Suc.prems(1) go by simp_all
  have rem: "xfer_remaining ?s = xfer_remaining s - 1" "i2c_bus ?s = b" "i2c_setting ?s = i2c_setting s" "i2c_tx_part ?s = i2c_tx_part s"
    using go by (simp_all add: rx_fifo_push_def i2c_setting_def i2c_tx_part_def)
  have "i2c_rx_count ?s = i2c_rx_count s + 1" using arg_cong [OF push(2), of length] sp by simp
  then have "k = min (2 - i2c_rx_count ?s) (xfer_remaining ?s)" using Suc.prems(3) rem(1) go by simp
  from Suc.IH [OF _ s' this] push sp rem recv show ?case by (simp add: split_beta Let_def)
qed

lemma recv_run_add:
  "recv_run ops (k + n) b =
     (fst (recv_run ops k b) @ fst (recv_run ops n (snd (recv_run ops k b))), snd (recv_run ops n (snd (recv_run ops k b))))"
  by (induction k arbitrary: b) (simp_all add: split_beta Let_def)

text \<open>Prefetching changes neither the stream nor the final bus.\<close>

lemma fill_rx_stream:
  assumes "i2c_rx_ok s" and "i2c_reading s" and "s' = bl808_i2c_fill_rx ops s"
  shows "i2c_stream ops s' = i2c_stream ops s" "i2c_final_bus ops s' = i2c_final_bus ops s" "i2c_rx_ok s'" "i2c_reading s'"
    "xfer_remaining s' = 0 \<or> i2c_rx_count s' = 2" "i2c_setting s' = i2c_setting s"
proof -
  define k where "k = min (2 - i2c_rx_count s) (xfer_remaining s)"
  note fill = fill_rx_spec [OF assms(1,3) k_def]
  have "xfer_remaining s = k + xfer_remaining s'" using fill unfolding k_def by simp
  then have run: "recv_run ops (xfer_remaining s) (i2c_bus s) =
      (fst (recv_run ops k (i2c_bus s)) @ fst (recv_run ops (xfer_remaining s') (i2c_bus s')),
       snd (recv_run ops (xfer_remaining s') (i2c_bus s')))"
    using recv_run_add [of ops k "xfer_remaining s'" "i2c_bus s"] fill by metis
  show read: "i2c_reading s'" using fill setting_i2cD(9) [of s' s] assms(2) by simp
  then show "i2c_stream ops s' = i2c_stream ops s" "i2c_final_bus ops s' = i2c_final_bus ops s"
    using fill assms(2) unfolding i2c_stream_def i2c_final_bus_def run by simp_all
  have "i2c_rx_count s' = i2c_rx_count s + k" using fill length_i2c_items(2) [of s'] by (metis length_append length_i2c_items(2) length_recv_run)
  then show "xfer_remaining s' = 0 \<or> i2c_rx_count s' = 2" using fill i2c_ok_count(2) [OF assms(1)] unfolding k_def by auto
  show "i2c_rx_ok s'" "i2c_setting s' = i2c_setting s" using fill by simp_all
qed

lemma tst_low_bit: "tst (x OR 1) (1 :: u32)" "\<not> tst (x AND NOT 1) (1 :: u32)" "\<not> tst (x AND - 2) (1 :: u32)"
  by (simp_all add: tst_def bit.conj_disj_distrib2 and.assoc)

text \<open>The end of a round: the transfer goes on with a full FIFO, or is over.\<close>

definition i2c_read_ok :: "'b BL808I2CState \<Rightarrow> bool" where
  "i2c_read_ok s \<longleftrightarrow> i2c_rx_ok s \<and> (i2c_reading s \<longrightarrow> xfer_remaining s \<noteq> 0 \<and> i2c_rx_count s = 2)"

lemma set_int_simps [simp]:
  "i2c_rx_part (bl808_i2c_set_int v s) = i2c_rx_part s" "i2c_tx_part (bl808_i2c_set_int v s) = i2c_tx_part s"
  "i2c_bus (bl808_i2c_set_int v s) = i2c_bus s" "xfer_remaining (bl808_i2c_set_int v s) = xfer_remaining s"
  "i2c_transfer_active (bl808_i2c_set_int v s) = i2c_transfer_active s" "xfer_is_read (bl808_i2c_set_int v s) = xfer_is_read s"
  "i2c_config (bl808_i2c_set_int v s) = i2c_config s" "i2c_fifo_config0 (bl808_i2c_set_int v s) = i2c_fifo_config0 s"
  "bl808_i2c_clock_active (bl808_i2c_set_int v s) = bl808_i2c_clock_active s"
  "i2c_int_sts (bl808_i2c_set_int v s) = i2c_int_sts s OR (v AND 0x3F)"
  by (simp_all add: bl808_i2c_set_int_def bl808_i2c_update_irq_def Let_def i2c_rx_part_def i2c_tx_part_def bl808_i2c_clock_active_def)

lemma finish_simps [simp]:
  "i2c_rx_part (bl808_i2c_finish_transfer ops s) = i2c_rx_part s" "i2c_tx_part (bl808_i2c_finish_transfer ops s) = i2c_tx_part s"
  "i2c_transfer_active (bl808_i2c_finish_transfer ops s) = False"
  "i2c_bus (bl808_i2c_finish_transfer ops s) = (if i2c_transfer_active s then i2c_end_transfer ops (i2c_bus s) else i2c_bus s)"
  "i2c_int_sts (bl808_i2c_finish_transfer ops s) = i2c_int_sts s"
  "i2c_config (bl808_i2c_finish_transfer ops s) = i2c_config s AND NOT CFG_MASTER_EN"
  "i2c_fifo_config0 (bl808_i2c_finish_transfer ops s) = i2c_fifo_config0 s"
  "bl808_i2c_clock_active (bl808_i2c_finish_transfer ops s) = bl808_i2c_clock_active s"
  by (simp_all add: bl808_i2c_finish_transfer_def Let_def i2c_rx_part_def i2c_tx_part_def bl808_i2c_clock_active_def)

lemma set_int_reading [simp]: "i2c_reading (bl808_i2c_set_int v s) = i2c_reading s"
  "i2c_reading (bl808_i2c_finish_transfer ops s) = False"
  by (simp_all add: i2c_reading_def)

lemma check_complete_read:
  assumes "i2c_rx_ok s" and "i2c_reading s" and "xfer_remaining s = 0 \<or> i2c_rx_count s = 2"
    and "s' = bl808_i2c_check_complete ops s"
  shows "i2c_read_ok s'" "i2c_stream ops s' = i2c_stream ops s" "i2c_final_bus ops s' = i2c_final_bus ops s"
    "i2c_fifo_config0 s' = i2c_fifo_config0 s" "bl808_i2c_clock_active s' = bl808_i2c_clock_active s"
    "\<not> i2c_reading s' \<Longrightarrow> tst (i2c_int_sts s') I2C_INT_END \<and> \<not> tst (i2c_config s') CFG_MASTER_EN"
proof -
  have part: "i2c_rx_part s' = i2c_rx_part s" using assms(4) by (simp add: bl808_i2c_check_complete_def)
  note rx = i2c_part_eqD(2) [OF part]
  have act: "i2c_transfer_active s" "xfer_is_read s" using assms(2) by (simp_all add: i2c_reading_def)
  show "i2c_read_ok s'" "i2c_stream ops s' = i2c_stream ops s" "i2c_final_bus ops s' = i2c_final_bus ops s"
    "i2c_fifo_config0 s' = i2c_fifo_config0 s" "bl808_i2c_clock_active s' = bl808_i2c_clock_active s"
    using assms rx act unfolding i2c_read_ok_def i2c_stream_def i2c_final_bus_def
    by (auto simp: bl808_i2c_check_complete_def)
  show "\<not> i2c_reading s' \<Longrightarrow> tst (i2c_int_sts s') I2C_INT_END \<and> \<not> tst (i2c_config s') CFG_MASTER_EN"
    using assms by (auto simp: bl808_i2c_check_complete_def tst_low_bit split: if_splits)
qed

text \<open>Taking a byte.\<close>

definition i2c_end_ok :: "'b BL808I2CState \<Rightarrow> bool" where
  "i2c_end_ok s \<longleftrightarrow> (i2c_reading s \<or> tst (i2c_int_sts s) I2C_INT_END \<and> \<not> tst (i2c_config s) CFG_MASTER_EN)"

lemma take_spec:
  assumes ok: "i2c_read_ok s" and stream: "i2c_stream ops s = x # xs" and take: "i2c_take ops s = (v, s')"
  shows "v = x \<and> i2c_read_ok s' \<and> i2c_stream ops s' = xs \<and> i2c_final_bus ops s' = i2c_final_bus ops s \<and>
    i2c_fifo_config0 s' = i2c_fifo_config0 s \<and> bl808_i2c_clock_active s' = bl808_i2c_clock_active s \<and>
    (i2c_end_ok s \<longrightarrow> i2c_end_ok s')"
proof -
  have rx: "i2c_rx_ok s" using ok by (simp add: i2c_read_ok_def)
  have "i2c_rx_items s \<noteq> []"
  proof (cases "i2c_reading s")
    case True
    then show ?thesis using ok by (simp add: i2c_read_ok_def i2c_items_Nil)
  next
    case False
    then show ?thesis using stream by (simp add: i2c_stream_def)
  qed
  then obtain ys where items: "i2c_rx_items s = x # ys" using stream by (cases "i2c_rx_items s") (auto simp: i2c_stream_def)
  then have cnt: "i2c_rx_count s \<noteq> 0" using i2c_items_Nil(2) [of s] by simp
  let ?p = "snd (rx_fifo_pop s)"
  have pop: "fst (rx_fifo_pop s) = x" "i2c_rx_items ?p = ys" "i2c_rx_ok ?p"
    using irx.pop_hd [OF rx] irx.pop_tl [OF rx] irx.pop_ok [OF rx] items by simp_all
  have set: "i2c_setting ?p = i2c_setting s" "i2c_bus ?p = i2c_bus s" "xfer_remaining ?p = xfer_remaining s"
    using cnt by (simp_all add: rx_fifo_pop_def i2c_setting_def)
  note f = setting_i2cD [OF set(1)]
  have stream_p: "i2c_stream ops ?p = xs" "i2c_final_bus ops ?p = i2c_final_bus ops s"
    using stream items pop(2) f(9) set(2,3) by (auto simp: i2c_stream_def i2c_final_bus_def)
  have v: "v = x" and s': "s' = (if i2c_reading ?p then bl808_i2c_check_complete ops (bl808_i2c_fill_rx ops ?p) else ?p)"
    using take pop(1) by (simp_all add: i2c_take_def i2c_reading_def split_beta Let_def split: if_splits)
  show ?thesis
  proof (cases "i2c_reading ?p")
    case True
    note fill = fill_rx_stream [OF pop(3) True refl, of ops]
    note g = setting_i2cD [OF fill(6)]
    note cc = check_complete_read [OF fill(3,4,5) refl, of ops]
    show ?thesis using cc(1-5) fill(1,2) g f stream_p v s' True cc(6) by (auto simp: i2c_end_ok_def)
  next
    case False
    then show ?thesis using v s' stream_p pop f by (simp add: i2c_read_ok_def i2c_end_ok_def)
  qed
qed

text \<open>Reading the FIFO data register \<open>n\<close> times.\<close>

primrec i2c_read_bytes :: "'b i2c_bus_ops \<Rightarrow> nat \<Rightarrow> 'b BL808I2CState \<Rightarrow> u64 list \<times> 'b BL808I2CState" where
  "i2c_read_bytes ops 0 s = ([], s)"
| "i2c_read_bytes ops (Suc n) s =
     (let (v, s) = bl808_i2c_read ops 0x8C s; (vs, s) = i2c_read_bytes ops n s in (v # vs, s))"

lemma read_bytes_spec:
  assumes "i2c_read_ok s" and "i2c_end_ok s" and "n \<le> length (i2c_stream ops s)" and "i2c_read_bytes ops n s = (vs, s')"
  shows "vs = map ucast (take n (i2c_stream ops s)) \<and> i2c_read_ok s' \<and> i2c_end_ok s' \<and>
    i2c_stream ops s' = drop n (i2c_stream ops s) \<and> i2c_final_bus ops s' = i2c_final_bus ops s"
  using assms
proof (induction n arbitrary: s vs)
  case (Suc n)
  then obtain x xs where st: "i2c_stream ops s = x # xs" by (cases "i2c_stream ops s") auto
  obtain v s1 where t: "i2c_take ops s = (v, s1)" by fastforce
  note sp = take_spec [OF Suc.prems(1) st t]
  obtain ws s2 where ws: "i2c_read_bytes ops n s1 = (ws, s2)" by fastforce
  then have "vs = ucast v # ws" "s2 = s'" using Suc.prems(4) t by (simp_all add: bl808_i2c_read_def)
  note ws = ws [unfolded this(2)] this(1)
  show ?case using Suc.IH [of s1 ws] sp Suc.prems(2,3) ws st by simp
qed simp

section \<open>The address phase\<close>

lemma send_subaddr_bus: "\<exists>b. snd (send_subaddr_loop ops n s) = s\<lparr>i2c_bus := b\<rparr>"
proof (induction n arbitrary: s)
  case (Suc n)
  obtain r b where "i2c_send ops (i2c_bus s) (ucast (drop_bit (n * 8) (sub_addr s) AND 0xFF)) = (r, b)" by fastforce
  then show ?case using Suc [of "s\<lparr>i2c_bus := b\<rparr>"] by (auto simp: Let_def)
qed (metis BL808I2CState.surjective BL808I2CState.update_convs(2) snd_conv send_subaddr_loop.simps(1))

lemma address_bus: "\<exists>b. snd (i2c_address ops s) = s\<lparr>i2c_bus := b\<rparr>"
proof -
  obtain r b where "i2c_start_send ops (i2c_bus s) (bl808_i2c_slave_addr s) = (r, b)" by fastforce
  moreover obtain b' where "snd (bl808_i2c_send_subaddr ops (s\<lparr>i2c_bus := b\<rparr>)) = s\<lparr>i2c_bus := b'\<rparr>"
    using send_subaddr_bus [of ops "bl808_i2c_subaddr_len (s\<lparr>i2c_bus := b\<rparr>)" "s\<lparr>i2c_bus := b\<rparr>"]
    by (cases "tst (i2c_config s) CFG_SUB_ADDR_EN") (auto simp: bl808_i2c_send_subaddr_def)
  ultimately show ?thesis
    by (auto simp: i2c_address_def bl808_i2c_start_bus_send_def split_beta Let_def)
qed

text \<open>The length of a packet.\<close>

definition i2c_packet :: "'b BL808I2CState \<Rightarrow> nat" where
  "i2c_packet s = unat (drop_bit 16 (i2c_config s AND push_bit 16 0xFF)) + 1"

lemma start_read:
  assumes on: "bl808_i2c_clock_active s" "\<not> tst (i2c_config s) CFG_10B_ADDR_EN" and dir: "tst (i2c_config s) CFG_PKT_DIR"
    and rx: "i2c_rx_ok s" "i2c_rx_items s = []" and addr: "i2c_address ops (i2c_begin s) = (True, s1)"
    and recv: "i2c_start_recv ops (i2c_end_transfer ops (i2c_bus s1)) (bl808_i2c_slave_addr s) = (0, b)"
    and s': "s' = bl808_i2c_start_transfer ops s"
  shows "i2c_read_ok s'" "i2c_end_ok s'" "i2c_stream ops s' = fst (recv_run ops (i2c_packet s) b)"
    "i2c_final_bus ops s' = i2c_end_transfer ops (snd (recv_run ops (i2c_packet s) b))"
    "i2c_fifo_config0 s' = i2c_fifo_config0 s" "bl808_i2c_clock_active s' = bl808_i2c_clock_active s"
proof -
  obtain b1 where s1: "s1 = (i2c_begin s)\<lparr>i2c_bus := b1\<rparr>" using address_bus [of ops "i2c_begin s"] addr by auto
  let ?t = "s1\<lparr>i2c_bus := b\<rparr>"
  have t: "i2c_rx_part ?t = i2c_rx_part s" "i2c_reading ?t" "xfer_remaining ?t = i2c_packet s" "i2c_bus ?t = b"
    "i2c_fifo_config0 ?t = i2c_fifo_config0 s" "bl808_i2c_clock_active ?t = bl808_i2c_clock_active s"
    using dir by (simp_all add: s1 i2c_begin_def i2c_rx_part_def i2c_reading_def i2c_packet_def bl808_i2c_clock_active_def)
  have "bl808_i2c_slave_addr (s1\<lparr>i2c_bus := c\<rparr>) = bl808_i2c_slave_addr s" for c
    by (simp add: s1 i2c_begin_def bl808_i2c_slave_addr_def)
  moreover have "xfer_is_read s1" using dir by (simp add: s1 i2c_begin_def)
  ultimately have s'_eq: "s' = bl808_i2c_check_complete ops (bl808_i2c_fill_rx ops ?t)"
    using on addr recv by (simp add: s' bl808_i2c_start_transfer_def Let_def)
  note rxt = i2c_part_eqD(2) [OF t(1)]
  have rxok: "i2c_rx_ok ?t" using rxt rx by simp
  note fill = fill_rx_stream [OF rxok t(2) refl, of ops]
  note g = setting_i2cD [OF fill(6)]
  note cc = check_complete_read [OF fill(3,4,5) s'_eq]
  show "i2c_read_ok s'" "i2c_stream ops s' = fst (recv_run ops (i2c_packet s) b)"
    "i2c_final_bus ops s' = i2c_end_transfer ops (snd (recv_run ops (i2c_packet s) b))"
    using cc(1-3) fill(1,2) t rxt rx by (simp_all add: i2c_stream_def i2c_final_bus_def)
  show "i2c_fifo_config0 s' = i2c_fifo_config0 s" "bl808_i2c_clock_active s' = bl808_i2c_clock_active s"
    using cc(4,5) g t by simp_all
  show "i2c_end_ok s'" using cc(6) by (auto simp: i2c_end_ok_def)
qed

section \<open>Sending\<close>

text \<open>The bytes are offered to the device in order, up to the first one it refuses.\<close>

fun send_run :: "'b i2c_bus_ops \<Rightarrow> u8 list \<Rightarrow> 'b \<Rightarrow> bool \<times> 'b" where
  "send_run ops [] b = (True, b)"
| "send_run ops (v # vs) b = (case i2c_send ops b v of (r, b) \<Rightarrow> if r < 0 then (False, b) else send_run ops vs b)"

lemma send_run_append:
  "send_run ops (xs @ ys) b = (if fst (send_run ops xs b) then send_run ops ys (snd (send_run ops xs b)) else send_run ops xs b)"
  by (induction xs arbitrary: b) (auto split: prod.splits)

lemma drain_tx_spec:
  assumes "i2c_tx_ok s" and "bl808_i2c_drain_tx ops s = (r, s')" and "i2c_tx_items s = xs" and "length xs \<le> xfer_remaining s"
  shows "(r < 0 \<longleftrightarrow> \<not> fst (send_run ops xs (i2c_bus s))) \<and> i2c_bus s' = snd (send_run ops xs (i2c_bus s)) \<and>
    i2c_setting s' = i2c_setting s \<and> i2c_tx_ok s' \<and>
    (\<not> r < 0 \<longrightarrow> i2c_tx_items s' = [] \<and> xfer_remaining s' = xfer_remaining s - length xs)"
  using assms
proof (induction xs arbitrary: s)
  case Nil
  then have "s' = s" "r = 0" using i2c_items_Nil(1) [of s] by (subst (asm) bl808_i2c_drain_tx.simps, simp)+
  then show ?case using Nil by simp
next
  case (Cons x xs)
  note ok = Cons.prems(1) and drain = Cons.prems(2) and items = Cons.prems(3) and rem = Cons.prems(4)
  have go: "i2c_tx_count s > 0" "xfer_remaining s > 0" using items rem i2c_items_Nil(1) [of s] by auto
  let ?p = "snd (tx_fifo_pop s)"
  obtain q b where send: "i2c_send ops (i2c_bus s) x = (q, b)" by fastforce
  have pop: "fst (tx_fifo_pop s) = x" "i2c_tx_items ?p = xs" "i2c_tx_ok ?p"
    using itx.pop_hd [OF ok] itx.pop_tl [OF ok] itx.pop_ok [OF ok] items by simp_all
  have p: "i2c_bus ?p = i2c_bus s" "xfer_remaining ?p = xfer_remaining s" "i2c_setting ?p = i2c_setting s"
    using go by (simp_all add: tx_fifo_pop_def i2c_setting_def)
  let ?s = "?p\<lparr>i2c_bus := b, xfer_remaining := xfer_remaining ?p - 1\<rparr>"
  have part: "i2c_tx_part (?p\<lparr>i2c_bus := b\<rparr>) = i2c_tx_part ?p" "i2c_tx_part ?s = i2c_tx_part ?p" by (simp_all add: i2c_tx_part_def)
  note part = i2c_part_eqD(1) [OF part(1)] i2c_part_eqD(1) [OF part(2)]
  have set: "i2c_setting (?p\<lparr>i2c_bus := b\<rparr>) = i2c_setting s" "i2c_setting ?s = i2c_setting s" using p(3) by (simp_all add: i2c_setting_def)
  have step: "(r, s') = (if q < 0 then (-1, ?p\<lparr>i2c_bus := b\<rparr>) else bl808_i2c_drain_tx ops ?s)"
    using drain go send pop(1) p(1) by (subst (asm) bl808_i2c_drain_tx.simps) (simp add: split_beta Let_def split: if_splits)
  show ?case
  proof (cases "q < 0")
    case True
    then show ?thesis using step send set(1) part pop by simp
  next
    case False
    note IH = Cons.IH [of ?s, OF _ step [symmetric, unfolded if_not_P [OF False]]]
    show ?thesis using IH False send set(2) part pop p rem by simp
  qed
qed

text \<open>A transfer that is sending, and one that is over: acknowledged throughout, or refused.\<close>

definition i2c_sending :: "'b BL808I2CState \<Rightarrow> bool" where
  "i2c_sending s \<longleftrightarrow> i2c_tx_ok s \<and> i2c_transfer_active s \<and> \<not> xfer_is_read s \<and> \<not> tst (i2c_int_sts s) I2C_INT_NAK"

definition i2c_sent :: "'b i2c_bus_ops \<Rightarrow> bool \<Rightarrow> 'b \<Rightarrow> 'b BL808I2CState \<Rightarrow> bool" where
  "i2c_sent ops acked b s \<longleftrightarrow> \<not> i2c_transfer_active s \<and> i2c_bus s = i2c_end_transfer ops b \<and> tst (i2c_int_sts s) I2C_INT_END \<and>
     (tst (i2c_int_sts s) I2C_INT_NAK \<longleftrightarrow> \<not> acked) \<and> \<not> tst (i2c_config s) CFG_MASTER_EN"

lemma tst_or: "tst (x OR y) m \<longleftrightarrow> tst x m \<or> tst y m" for x :: "'a::len word"
  by (simp add: tst_def bit.conj_disj_distrib2 or_eq_0_iff)

lemma abort_sent:
  assumes "i2c_transfer_active s"
  shows "i2c_sent ops False (i2c_bus s) (bl808_i2c_abort_transfer ops (I2C_INT_NAK OR I2C_INT_END) s)"
  using assms by (simp add: i2c_sent_def bl808_i2c_abort_transfer_def Let_def tst_or tst_low_bit) (simp add: tst_def)

lemma reset_asserted_simps [simp]:
  "i2c_reset_asserted (bl808_i2c_set_int v s) = i2c_reset_asserted s"
  "i2c_reset_asserted (bl808_i2c_finish_transfer ops s) = i2c_reset_asserted s"
  "i2c_reset_asserted (bl808_i2c_abort_transfer ops v s) = i2c_reset_asserted s"
  "i2c_reset_asserted (bl808_i2c_check_complete ops s) = i2c_reset_asserted s"
  by (simp_all add: bl808_i2c_set_int_def bl808_i2c_update_irq_def bl808_i2c_finish_transfer_def bl808_i2c_abort_transfer_def
      bl808_i2c_check_complete_def Let_def)

lemma send_round:
  assumes s: "i2c_sending s" "i2c_tx_items s = xs" "length xs \<le> xfer_remaining s" and run: "send_run ops xs (i2c_bus s) = (acked, b)"
    and s': "s' = (case bl808_i2c_drain_tx ops s of (r, s) \<Rightarrow>
        if r < 0 then bl808_i2c_abort_transfer ops (I2C_INT_NAK OR I2C_INT_END) s else bl808_i2c_check_complete ops s)"
  shows "i2c_reset_asserted s' = i2c_reset_asserted s \<and> (if acked \<and> length xs < xfer_remaining s
    then i2c_sending s' \<and> i2c_tx_items s' = [] \<and> i2c_bus s' = b \<and> xfer_remaining s' = xfer_remaining s - length xs
    else i2c_sent ops acked b s')"
proof -
  obtain r t where drain: "bl808_i2c_drain_tx ops s = (r, t)" by fastforce
  have "i2c_tx_ok s" using s(1) by (simp add: i2c_sending_def)
  note sp = drain_tx_spec [OF this drain s(2,3), unfolded run]
  then have set: "i2c_setting t = i2c_setting s" by blast
  note f = setting_i2cD [OF set]
  have t: "i2c_transfer_active t" "\<not> xfer_is_read t" "\<not> tst (i2c_int_sts t) I2C_INT_NAK" "i2c_bus t = b" "i2c_tx_ok t"
    using f s(1) sp by (simp_all add: i2c_sending_def)
  show ?thesis
  proof (cases acked)
    case False
    then show ?thesis using s' drain sp f abort_sent [OF t(1), of ops] t(4) by simp
  next
    case True
    then have s'_eq: "s' = bl808_i2c_check_complete ops t" using s' drain sp by simp
    have items: "i2c_tx_items t = []" and rem: "xfer_remaining t = xfer_remaining s - length xs" using sp True by simp_all
    have part: "i2c_tx_part s' = i2c_tx_part t" by (simp add: s'_eq bl808_i2c_check_complete_def)
    note part = i2c_part_eqD(1) [OF part]
    have "i2c_sent ops True b s'" if "xfer_remaining t = 0"
      using t that unfolding s'_eq i2c_sent_def by (simp add: bl808_i2c_check_complete_def tst_or tst_low_bit) (simp add: tst_def)
    moreover have "i2c_sending s' \<and> i2c_bus s' = b \<and> xfer_remaining s' = xfer_remaining t" if "xfer_remaining t \<noteq> 0"
      using t that part unfolding i2c_sending_def by (simp add: s'_eq bl808_i2c_check_complete_def tst_or) (simp add: tst_def)
    ultimately show ?thesis using True s(3) rem items part f by (simp add: s'_eq)
  qed
qed

text \<open>Writing the FIFO data register, byte by byte.\<close>

definition i2c_write_bytes :: "'b i2c_bus_ops \<Rightarrow> u8 list \<Rightarrow> 'b BL808I2CState \<Rightarrow> 'b BL808I2CState" where
  "i2c_write_bytes ops vs s = fold (\<lambda>v. bl808_i2c_write ops 0x88 (ucast v)) vs s"

lemma sent_put:
  assumes "i2c_sent ops acked b s"
  shows "i2c_sent ops acked b (i2c_put ops v s)"
  using assms unfolding i2c_sent_def by (auto simp: i2c_put_def tx_fifo_push_def Let_def tst_or) (simp_all add: tst_def)

lemma sent_write_bytes: "i2c_sent ops acked b s \<Longrightarrow> i2c_sent ops acked b (i2c_write_bytes ops vs s)"
  by (induction vs arbitrary: s) (simp_all add: i2c_write_bytes_def bl808_i2c_write_def sent_put)

lemma put_round:
  assumes s: "i2c_sending s" "i2c_tx_items s = []" "xfer_remaining s > 0" and run: "send_run ops [v] (i2c_bus s) = (acked, b)"
    and s': "s' = i2c_put ops v s"
  shows "i2c_reset_asserted s' = i2c_reset_asserted s \<and> (if acked \<and> 1 < xfer_remaining s
    then i2c_sending s' \<and> i2c_tx_items s' = [] \<and> i2c_bus s' = b \<and> xfer_remaining s' = xfer_remaining s - 1
    else i2c_sent ops acked b s')"
proof -
  let ?p = "tx_fifo_push v s"
  have ok: "i2c_tx_ok s" and cnt: "i2c_tx_count s = 0" using s i2c_items_Nil(1) [of s] by (simp_all add: i2c_sending_def)
  have set: "i2c_setting ?p = i2c_setting s" and p: "i2c_bus ?p = i2c_bus s" "xfer_remaining ?p = xfer_remaining s"
    using cnt by (simp_all add: tx_fifo_push_def i2c_setting_def)
  note f = setting_i2cD [OF set]
  have q: "i2c_tx_ok ?p" "i2c_tx_items ?p = [v]" using itx.push_ok [OF ok, of v] itx.push_items [OF ok, of v] s(2) by simp_all
  have sending: "i2c_sending ?p" using s(1) f q by (simp add: i2c_sending_def)
  have "s' = (case bl808_i2c_drain_tx ops ?p of (r, s) \<Rightarrow>
      if r < 0 then bl808_i2c_abort_transfer ops (I2C_INT_NAK OR I2C_INT_END) s else bl808_i2c_check_complete ops s)"
    using sending unfolding s' i2c_put_def i2c_sending_def Let_def by simp
  from send_round [OF sending q(2) _ _ this] show ?thesis using run p s(3) f by simp
qed

lemma write_bytes_spec:
  assumes "i2c_sending s" and "i2c_tx_items s = []" and "xfer_remaining s = length vs" and "vs \<noteq> []"
    and "send_run ops vs (i2c_bus s) = (acked, b)" and "\<not> i2c_reset_asserted s"
  shows "i2c_sent ops acked b (i2c_write_bytes ops vs s)"
  using assms
proof (induction vs arbitrary: s)
  case (Cons v vs)
  let ?s = "i2c_put ops v s"
  obtain a1 b1 where run1: "send_run ops [v] (i2c_bus s) = (a1, b1)" by fastforce
  note put = put_round [OF Cons.prems(1,2) _ run1 refl]
  have eq: "i2c_write_bytes ops (v # vs) s = i2c_write_bytes ops vs ?s"
    using Cons.prems(6) by (simp add: i2c_write_bytes_def bl808_i2c_write_def ucast_ucast_same)
  have run: "(acked, b) = (if a1 then send_run ops vs b1 else (False, b1))"
    using send_run_append [of ops "[v]" vs "i2c_bus s"] Cons.prems(5) run1 by (auto split: prod.splits if_splits)
  show ?case
  proof (cases "a1 \<and> vs \<noteq> []")
    case True
    then show ?thesis using Cons.IH [of ?s] put run Cons.prems(3,6) eq by simp
  next
    case False
    then have "i2c_sent ops acked b ?s" using put run Cons.prems(3) by (auto split: if_splits)
    then show ?thesis unfolding eq by (rule sent_write_bytes)
  qed
qed simp

lemma start_write:
  assumes on: "bl808_i2c_clock_active s" "\<not> tst (i2c_config s) CFG_10B_ADDR_EN" and dir: "\<not> tst (i2c_config s) CFG_PKT_DIR"
    and tx: "i2c_tx_ok s" "length (i2c_tx_items s) \<le> i2c_packet s" and addr: "i2c_address ops (i2c_begin s) = (True, s1)"
    and run: "send_run ops (i2c_tx_items s) (i2c_bus s1) = (acked, b)" and s': "s' = bl808_i2c_start_transfer ops s"
  shows "i2c_reset_asserted s' = i2c_reset_asserted s \<and> (if acked \<and> length (i2c_tx_items s) < i2c_packet s
    then i2c_sending s' \<and> i2c_tx_items s' = [] \<and> i2c_bus s' = b \<and> xfer_remaining s' = i2c_packet s - length (i2c_tx_items s)
    else i2c_sent ops acked b s')"
proof -
  obtain b1 where s1: "s1 = (i2c_begin s)\<lparr>i2c_bus := b1\<rparr>" using address_bus [of ops "i2c_begin s"] addr by auto
  have part: "i2c_tx_part s1 = i2c_tx_part s" by (simp add: s1 i2c_begin_def i2c_tx_part_def)
  note part = i2c_part_eqD(1) [OF part]
  have "\<not> tst (x AND NOT 0x3F) (8 :: u32)" for x by (simp add: tst_def and.assoc)
  then have s1_ok: "i2c_sending s1" "xfer_remaining s1 = i2c_packet s" "i2c_reset_asserted s1 = i2c_reset_asserted s"
    using dir part tx(1) unfolding i2c_sending_def by (simp_all add: s1 i2c_begin_def i2c_packet_def)
  have "s' = (case bl808_i2c_drain_tx ops s1 of (r, s) \<Rightarrow>
      if r < 0 then bl808_i2c_abort_transfer ops (I2C_INT_NAK OR I2C_INT_END) s else bl808_i2c_check_complete ops s)"
    using on addr s1_ok(1) unfolding i2c_sending_def by (simp add: s' bl808_i2c_start_transfer_def)
  from send_round [OF s1_ok(1) _ _ _ this, of "i2c_tx_items s" acked b] show ?thesis using s1_ok part tx run by simp
qed

end
