(* ===== verification/I2c_Props.thy ===== *)
theory I2c_Props
  imports I2c_Proofs Dma_Props
begin

text \<open>
  The invariant of the I2C controller over every history, its interrupt line as an instance of
  \<open>gated_irq_device\<close>, its receiver as an instance of \<open>dma_source\<close>, and the properties of its transfers.
\<close>

section \<open>The invariant\<close>

text \<open>
  The queues are well formed; a transfer that is active has bytes outstanding, its enable bit is
  set and the clock runs; one that sends has nothing left in the queue.
\<close>

definition i2c_idle_ok :: "'b BL808I2CState \<Rightarrow> bool" where
  "i2c_idle_ok s \<longleftrightarrow> i2c_tx_ok s \<and> i2c_rx_ok s \<and> xfer_remaining s \<le> 256"

definition i2c_inv :: "'b BL808I2CState \<Rightarrow> bool" where
  "i2c_inv s \<longleftrightarrow> i2c_idle_ok s \<and> (i2c_transfer_active s \<longrightarrow> 0 < xfer_remaining s \<and> tst (i2c_config s) CFG_MASTER_EN \<and>
     bl808_i2c_clock_active s \<and> (\<not> xfer_is_read s \<longrightarrow> i2c_tx_count s = 0))"

definition i2c_core :: "'b BL808I2CState \<Rightarrow> (u8 list \<times> nat \<times> nat) \<times> (u8 list \<times> nat \<times> nat) \<times> nat" where
  "i2c_core s = (i2c_tx_part s, i2c_rx_part s, xfer_remaining s)"

lemma i2c_core_eqD: "i2c_core s' = i2c_core s \<Longrightarrow> i2c_idle_ok s' = i2c_idle_ok s \<and> i2c_tx_count s' = i2c_tx_count s"
  by (simp add: i2c_core_def i2c_idle_ok_def i2c_tx_part_def i2c_rx_part_def i2c_tx_ok_def i2c_rx_ok_def)

definition i2c_control :: "'b BL808I2CState \<Rightarrow> u32 \<times> bool \<times> bool \<times> bool" where
  "i2c_control s = (i2c_config s, i2c_transfer_active s, xfer_is_read s, bl808_i2c_clock_active s)"

lemma i2c_inv_cong: "i2c_core s' = i2c_core s \<Longrightarrow> i2c_control s' = i2c_control s \<Longrightarrow> i2c_inv s' = i2c_inv s"
  using i2c_core_eqD [of s' s] by (auto simp: i2c_inv_def i2c_control_def i2c_core_def)

lemma finish_remaining [simp]: "xfer_remaining (bl808_i2c_finish_transfer ops s) = xfer_remaining s"
  by (simp add: bl808_i2c_finish_transfer_def Let_def)

lemma core_simps [simp]:
  "i2c_core (bl808_i2c_set_int v s) = i2c_core s" "i2c_core (bl808_i2c_finish_transfer ops s) = i2c_core s"
  "i2c_core (bl808_i2c_abort_transfer ops v s) = i2c_core s" "i2c_core (bl808_i2c_check_complete ops s) = i2c_core s"
  "i2c_core (bl808_i2c_update_irq s) = i2c_core s" "i2c_core (bl808_i2c_recompute_clock s) = i2c_core s"
  by (simp_all add: i2c_core_def bl808_i2c_abort_transfer_def bl808_i2c_check_complete_def Let_def)
    (simp_all add: i2c_tx_part_def i2c_rx_part_def bl808_i2c_update_irq_def bl808_i2c_recompute_clock_def Let_def)

lemma control_simps [simp]: "i2c_control (bl808_i2c_set_int v s) = i2c_control s" "i2c_control (bl808_i2c_update_irq s) = i2c_control s"
  by (simp_all add: i2c_control_def) (simp_all add: bl808_i2c_update_irq_def bl808_i2c_clock_active_def Let_def)

lemma idle_inv: "i2c_idle_ok s \<Longrightarrow> \<not> i2c_transfer_active s \<Longrightarrow> i2c_inv s"
  by (simp add: i2c_inv_def)

lemma inv_idle: "i2c_inv s \<Longrightarrow> i2c_idle_ok s"
  by (simp add: i2c_inv_def)

lemma update_irq_inv: "i2c_inv (bl808_i2c_update_irq s) = i2c_inv s" "i2c_inv (bl808_i2c_set_int v s) = i2c_inv s"
  by (rule i2c_inv_cong; simp)+

lemma abort_inv: "i2c_idle_ok s \<Longrightarrow> i2c_inv (bl808_i2c_abort_transfer ops v s)"
  using i2c_core_eqD [OF core_simps(3), of ops v s] by (intro idle_inv) (simp_all add: bl808_i2c_abort_transfer_def Let_def)

lemma check_complete_inv:
  assumes "i2c_idle_ok s" and "tst (i2c_config s) CFG_MASTER_EN" and "bl808_i2c_clock_active s"
    and "\<not> xfer_is_read s \<Longrightarrow> i2c_tx_count s = 0 \<or> xfer_remaining s = 0"
  shows "i2c_inv (bl808_i2c_check_complete ops s)"
proof (cases "xfer_remaining s = 0")
  case True
  then have "\<not> i2c_transfer_active (bl808_i2c_check_complete ops s)" by (simp add: bl808_i2c_check_complete_def)
  then show ?thesis using i2c_core_eqD [OF core_simps(4), of ops s] assms(1) by (intro idle_inv) simp_all
next
  case False
  then have "i2c_inv s" using assms by (auto simp: i2c_inv_def)
  then show ?thesis using False by (simp add: bl808_i2c_check_complete_def update_irq_inv)
qed

section \<open>The loops\<close>

lemma drain_tx_keeps:
  assumes "bl808_i2c_drain_tx ops s = (r, s')"
  shows "(i2c_idle_ok s \<longrightarrow> i2c_idle_ok s') \<and> i2c_setting s' = i2c_setting s \<and> i2c_irq s' = i2c_irq s \<and>
    (r < 0 \<or> i2c_tx_count s' = 0 \<or> xfer_remaining s' = 0)"
  using assms
proof (induction ops s rule: bl808_i2c_drain_tx.induct)
  case (1 ops s)
  show ?case
  proof (cases "i2c_tx_count s > 0 \<and> xfer_remaining s > 0")
    case False
    then show ?thesis using 1(2) by (subst (asm) bl808_i2c_drain_tx.simps) auto
  next
    case True
    let ?p = "snd (tx_fifo_pop s)"
    obtain q b where send: "i2c_send ops (i2c_bus ?p) (fst (tx_fifo_pop s)) = (q, b)" by fastforce
    let ?t = "?p\<lparr>i2c_bus := b\<rparr>" and ?s = "?p\<lparr>i2c_bus := b, xfer_remaining := xfer_remaining ?p - 1\<rparr>"
    have p: "i2c_rx_part ?p = i2c_rx_part s" "xfer_remaining ?p = xfer_remaining s" "i2c_setting ?p = i2c_setting s" "i2c_irq ?p = i2c_irq s"
      using True by (simp_all add: tx_fifo_pop_def i2c_setting_def i2c_rx_part_def)
    have "i2c_tx_items s \<noteq> []" using True i2c_items_Nil(1) [of s] by simp
    then have "i2c_tx_ok s \<Longrightarrow> i2c_tx_ok ?p" using itx.pop_ok [of s] by blast
    moreover have "i2c_rx_ok ?p = i2c_rx_ok s" using i2c_part_eqD(2) [OF p(1)] by simp
    ultimately have idle: "i2c_idle_ok s \<longrightarrow> i2c_idle_ok ?t" "i2c_idle_ok s \<longrightarrow> i2c_idle_ok ?s"
      using p(2) by (auto simp: i2c_idle_ok_def i2c_tx_ok_def i2c_rx_ok_def)
    have set: "i2c_setting ?t = i2c_setting s" "i2c_setting ?s = i2c_setting s" using p(3) by (simp_all add: i2c_setting_def)
    have step: "(r, s') = (if q < 0 then (-1, ?t) else bl808_i2c_drain_tx ops ?s)"
      using 1(2) True send by (subst (asm) bl808_i2c_drain_tx.simps) (simp add: split_beta Let_def split: if_splits)
    show ?thesis
    proof (cases "q < 0")
      case True
      then show ?thesis using step idle set p(4) by simp
    next
      case False
      note IH = 1(1) [OF \<open>i2c_tx_count s > 0 \<and> xfer_remaining s > 0\<close> refl prod.collapse refl send [symmetric] refl False]
      show ?thesis using IH step False idle(2) set(2) p(4) by simp
    qed
  qed
qed

lemma fill_rx_frame:
  "i2c_irq (bl808_i2c_fill_rx ops s) = i2c_irq s \<and> i2c_setting (bl808_i2c_fill_rx ops s) = i2c_setting s \<and>
   (xfer_remaining (bl808_i2c_fill_rx ops s) = 0 \<or> 2 \<le> i2c_rx_count (bl808_i2c_fill_rx ops s))"
proof (induction ops s rule: bl808_i2c_fill_rx.induct)
  case (1 ops s)
  obtain v b where recv: "i2c_recv ops (i2c_bus s) = (v, b)" by fastforce
  let ?p = "rx_fifo_push v (s\<lparr>i2c_bus := b\<rparr>)"
  let ?s = "?p\<lparr>xfer_remaining := xfer_remaining ?p - 1\<rparr>"
  show ?case
  proof (cases "i2c_rx_count s < 2 \<and> xfer_remaining s > 0")
    case True
    have "bl808_i2c_fill_rx ops s = bl808_i2c_fill_rx ops ?s"
      using True recv by (subst bl808_i2c_fill_rx.simps) (simp add: Let_def)
    moreover have "i2c_irq ?s = i2c_irq s" "i2c_setting ?s = i2c_setting s"
      using True by (simp_all add: rx_fifo_push_def i2c_setting_def)
    ultimately show ?thesis using 1 [OF True refl recv [symmetric] refl] by simp
  next
    case False
    then show ?thesis by (subst (1 2 3 4) bl808_i2c_fill_rx.simps) auto
  qed
qed

lemma fill_rx_keeps:
  assumes "i2c_idle_ok s" and "s' = bl808_i2c_fill_rx ops s"
  shows "i2c_idle_ok s' \<and> i2c_setting s' = i2c_setting s \<and> i2c_tx_count s' = i2c_tx_count s"
  using fill_rx_spec [OF _ assms(2) refl] assms(1) i2c_part_eqD(1) [of s' s] by (simp add: i2c_idle_ok_def le_trans [OF diff_le_self])

section \<open>Every operation keeps the invariant\<close>

lemma round_inv:
  assumes "i2c_idle_ok s" and "tst (i2c_config s) CFG_MASTER_EN" and "bl808_i2c_clock_active s"
  shows "xfer_is_read s \<Longrightarrow> i2c_inv (bl808_i2c_check_complete ops (bl808_i2c_fill_rx ops s))"
    and "\<not> xfer_is_read s \<Longrightarrow> i2c_inv (case bl808_i2c_drain_tx ops s of (r, s) \<Rightarrow>
      if r < 0 then bl808_i2c_abort_transfer ops (I2C_INT_NAK OR I2C_INT_END) s else bl808_i2c_check_complete ops s)"
proof -
  have "i2c_setting (bl808_i2c_fill_rx ops s) = i2c_setting s" using fill_rx_keeps [OF assms(1) refl] by blast
  from setting_i2cD [OF this] show "i2c_inv (bl808_i2c_check_complete ops (bl808_i2c_fill_rx ops s))" if "xfer_is_read s"
    using that assms fill_rx_keeps [OF assms(1) refl] by (intro check_complete_inv) simp_all
  obtain r t where drain: "bl808_i2c_drain_tx ops s = (r, t)" by fastforce
  note keeps = drain_tx_keeps [OF drain]
  then have "i2c_setting t = i2c_setting s" by blast
  from setting_i2cD [OF this] show "i2c_inv (case bl808_i2c_drain_tx ops s of (r, s) \<Rightarrow>
      if r < 0 then bl808_i2c_abort_transfer ops (I2C_INT_NAK OR I2C_INT_END) s else bl808_i2c_check_complete ops s)"
    using keeps assms drain by (auto intro!: abort_inv check_complete_inv)
qed

lemma begin_idle: "i2c_idle_ok s \<Longrightarrow> i2c_idle_ok ((i2c_begin s)\<lparr>i2c_bus := b\<rparr>)"
proof -
  have "unat (drop_bit 16 (i2c_config s) AND 0xFF) < 256"
    using unat_and_mask [of "drop_bit 16 (i2c_config s)" 8] by (simp add: mask_numeral)
  then have "unat (drop_bit 16 (i2c_config s AND push_bit 16 0xFF)) < 256" by (simp add: drop_bit_and)
  then show "i2c_idle_ok s \<Longrightarrow> ?thesis" by (simp add: i2c_idle_ok_def i2c_begin_def i2c_tx_ok_def i2c_rx_ok_def)
qed

lemma start_inv:
  assumes "i2c_idle_ok s" and "tst (i2c_config s) CFG_MASTER_EN"
  shows "i2c_inv (bl808_i2c_start_transfer ops s)"
proof -
  obtain ok s1 where addr: "i2c_address ops (i2c_begin s) = (ok, s1)" by fastforce
  then obtain b1 where s1: "s1 = (i2c_begin s)\<lparr>i2c_bus := b1\<rparr>" using address_bus [of ops "i2c_begin s"] by auto
  have bus: "i2c_idle_ok (s1\<lparr>i2c_bus := b\<rparr>)" "tst (i2c_config (s1\<lparr>i2c_bus := b\<rparr>)) CFG_MASTER_EN"
    "bl808_i2c_clock_active (s1\<lparr>i2c_bus := b\<rparr>) = bl808_i2c_clock_active s" for b
    using begin_idle [OF assms(1), of b] assms(2) by (simp_all add: s1 i2c_begin_def bl808_i2c_clock_active_def)
  have s1_ok: "i2c_idle_ok s1" "tst (i2c_config s1) CFG_MASTER_EN" "bl808_i2c_clock_active s1 = bl808_i2c_clock_active s"
    using begin_idle [OF assms(1), of b1] assms(2) by (simp_all add: s1 i2c_begin_def bl808_i2c_clock_active_def)
  show ?thesis
    unfolding bl808_i2c_start_transfer_def addr
    using round_inv(1) [OF bus(1,2), of _ ops] round_inv(2) [OF s1_ok(1,2), of ops] bus s1_ok assms(1)
    by (simp add: abort_inv split_beta Let_def)
qed

lemma take_inv:
  assumes "i2c_inv s"
  shows "i2c_inv (snd (i2c_take ops s))"
proof -
  let ?p = "snd (rx_fifo_pop s)"
  have "i2c_control ?p = i2c_control s" "i2c_tx_part ?p = i2c_tx_part s" "xfer_remaining ?p = xfer_remaining s"
    by (simp_all add: rx_fifo_pop_def) (simp_all add: i2c_control_def i2c_tx_part_def bl808_i2c_clock_active_def)
  moreover have "i2c_rx_ok ?p"
    using irx.pop_ok [of s] assms i2c_items_Nil(2) [of s] i2c_part_eqD(2) [OF set_int_simps(1), of I2C_INT_FIFO_ERR s]
    by (cases "i2c_rx_count s = 0") (simp_all add: i2c_inv_def i2c_idle_ok_def rx_fifo_pop_def)
  ultimately have inv: "i2c_inv ?p" using assms i2c_part_eqD(1) [of ?p s] by (simp add: i2c_inv_def i2c_idle_ok_def i2c_control_def)
  then show ?thesis
    using round_inv(1) [OF inv_idle [OF inv], of ops] by (simp add: i2c_take_def split_beta Let_def i2c_inv_def [of ?p])
qed

lemma push_keeps:
  assumes "i2c_idle_ok s" and "s' = tx_fifo_push v s"
  shows "i2c_idle_ok s' \<and> i2c_control s' = i2c_control s \<and> xfer_remaining s' = xfer_remaining s"
proof -
  have "i2c_tx_ok s'"
    using itx.push_ok [of s v] assms i2c_part_eqD(1) [OF set_int_simps(2), of I2C_INT_FIFO_ERR s]
    by (cases "2 \<le> i2c_tx_count s") (simp_all add: i2c_idle_ok_def tx_fifo_push_def)
  moreover have "i2c_control s' = i2c_control s" "i2c_rx_part s' = i2c_rx_part s" "xfer_remaining s' = xfer_remaining s"
    unfolding assms(2) by (simp_all add: tx_fifo_push_def) (simp_all add: i2c_control_def i2c_rx_part_def bl808_i2c_clock_active_def)
  ultimately show ?thesis using assms(1) i2c_part_eqD(2) [of s' s] by (simp add: i2c_idle_ok_def)
qed

lemma put_inv:
  assumes "i2c_inv s"
  shows "i2c_inv (i2c_put ops v s)"
proof -
  let ?p = "tx_fifo_push v s"
  note keeps = push_keeps [OF inv_idle [OF assms] refl, of v]
  have "i2c_inv ?p" if "\<not> (i2c_transfer_active ?p \<and> \<not> xfer_is_read ?p)"
    using keeps assms that by (auto simp: i2c_inv_def i2c_control_def)
  then show ?thesis
    using round_inv(2) [of ?p ops] keeps assms
    by (cases "i2c_transfer_active ?p \<and> \<not> xfer_is_read ?p") (simp_all add: i2c_put_def Let_def i2c_inv_def i2c_control_def)
qed

lemma config_inv:
  assumes "i2c_inv s"
  shows "i2c_inv (i2c_write_config ops v s)"
proof -
  let ?s = "s\<lparr>i2c_config := ucast v\<rparr>"
  have idle: "i2c_idle_ok ?s" using inv_idle [OF assms] by (simp add: i2c_idle_ok_def i2c_tx_ok_def i2c_rx_ok_def)
  have "i2c_inv ?s" if "tst (i2c_config s) CFG_MASTER_EN \<longleftrightarrow> tst (ucast v) CFG_MASTER_EN"
    using assms that idle by (auto simp: i2c_inv_def bl808_i2c_clock_active_def)
  then show ?thesis using start_inv [OF idle] abort_inv [OF idle] by (auto simp: i2c_write_config_def Let_def)
qed

lemma int_sts_inv: "i2c_inv s \<Longrightarrow> i2c_inv (i2c_write_int_sts v s)"
  unfolding i2c_write_int_sts_def Let_def update_irq_inv
  by (erule rev_iffD1, rule i2c_inv_cong; simp add: i2c_core_def i2c_control_def i2c_tx_part_def i2c_rx_part_def bl808_i2c_clock_active_def)

lemma nring_ok_clear: "nring_ok D buf h c \<Longrightarrow> nring_ok D buf 0 0"
  by (auto simp: nring_ok_def)

lemma fifo_config_inv: "i2c_inv s \<Longrightarrow> i2c_inv (i2c_write_fifo_config0 v s)"
  unfolding i2c_write_fifo_config0_def Let_def update_irq_inv
  by (auto simp: i2c_inv_def i2c_idle_ok_def i2c_tx_ok_def i2c_rx_ok_def bl808_i2c_clock_active_def tx_fifo_clear_def
      rx_fifo_clear_def intro: nring_ok_clear)

lemma frame_inv:
  "i2c_inv (s\<lparr>sub_addr := v\<rparr>) = i2c_inv s" "i2c_inv (s\<lparr>prd_start := v\<rparr>) = i2c_inv s"
  "i2c_inv (s\<lparr>prd_stop := v\<rparr>) = i2c_inv s" "i2c_inv (s\<lparr>prd_data := v\<rparr>) = i2c_inv s"
  "i2c_inv (s\<lparr>i2c_gate_enabled := b\<rparr>) = i2c_inv s" "i2c_inv (s\<lparr>i2c_module_clock_enabled := b\<rparr>) = i2c_inv s"
  by (rule i2c_inv_cong; simp add: i2c_core_def i2c_control_def i2c_tx_part_def i2c_rx_part_def bl808_i2c_clock_active_def)+

lemma i2c_write_inv: "i2c_inv s \<Longrightarrow> i2c_inv (bl808_i2c_write ops offset v s)"
  unfolding bl808_i2c_write_def by (simp add: config_inv int_sts_inv fifo_config_inv put_inv frame_inv)

lemma i2c_read_inv: "i2c_inv s \<Longrightarrow> i2c_inv (snd (bl808_i2c_read ops offset s))"
  using take_inv [of s ops] unfolding bl808_i2c_read_def by (auto simp: split_beta Let_def)

lemma reset_hold_inv: "i2c_idle_ok s \<Longrightarrow> i2c_inv (bl808_i2c_reset_hold ops s)"
  unfolding bl808_i2c_reset_hold_def Let_def update_irq_inv
  by (auto simp: i2c_inv_def i2c_idle_ok_def i2c_tx_ok_def i2c_rx_ok_def tx_fifo_clear_def rx_fifo_clear_def intro: nring_ok_clear)

lemma clock_changed_inv:
  assumes "i2c_inv s"
  shows "i2c_inv (i2c_clock_changed ops s)"
proof -
  let ?s = "bl808_i2c_recompute_clock s"
  have idle: "i2c_idle_ok ?s" using i2c_core_eqD [OF core_simps(6)] inv_idle [OF assms] by blast
  have "i2c_inv ?s" if "bl808_i2c_clock_active ?s \<or> \<not> i2c_transfer_active ?s"
    using assms that idle i2c_core_eqD [OF core_simps(6), of s]
    by (auto simp: i2c_inv_def bl808_i2c_recompute_clock_def bl808_i2c_clock_active_def)
  then show ?thesis using abort_inv [OF idle] by (auto simp: i2c_clock_changed_def Let_def update_irq_inv)
qed

lemma i2c_step_inv: "i2c_inv s \<Longrightarrow> i2c_inv (i2c_step ops op s)"
proof (cases op)
  case (I2c_reset_line b)
  assume inv: "i2c_inv s"
  let ?s = "s\<lparr>i2c_reset_asserted := b\<rparr>"
  have "i2c_idle_ok ?s" using inv_idle [OF inv] by (simp add: i2c_idle_ok_def i2c_tx_ok_def i2c_rx_ok_def)
  moreover have "i2c_inv ?s" if "\<not> b"
    using inv that \<open>i2c_idle_ok ?s\<close> by (auto simp: i2c_inv_def bl808_i2c_clock_active_def)
  ultimately show ?thesis
    using I2c_reset_line by (auto simp: bl808_i2c_set_reset_asserted_def Let_def update_irq_inv reset_hold_inv)
next
  case I2c_reset
  assume "i2c_inv s"
  then show ?thesis using I2c_reset i2c_core_eqD [OF core_simps(6), of s] by (simp add: bl808_i2c_reset_def reset_hold_inv inv_idle)
qed (auto simp: i2c_read_inv i2c_write_inv bl808_i2c_dma_read_def bl808_i2c_dma_write_def split_beta take_inv put_inv Let_def
    bl808_i2c_set_clock_enabled_def bl808_i2c_set_module_clock_enabled_def clock_changed_inv frame_inv)

lemma i2c_run_inv: "i2c_inv s \<Longrightarrow> i2c_inv (fold (i2c_step ops) hist s)"
  by (induction hist arbitrary: s) (simp_all add: i2c_step_inv)

lemma i2c_init_inv: "i2c_inv (bl808_i2c_init bus)"
  by (simp add: i2c_inv_def i2c_idle_ok_def bl808_i2c_init_def bl808_i2c_recompute_clock_def i2c_tx_ok_def i2c_rx_ok_def nring_ok_def)

section \<open>The interrupt line\<close>

definition i2c_level :: "'b BL808I2CState \<Rightarrow> bool" where
  "i2c_level s \<longleftrightarrow> bl808_i2c_clock_active s \<and> (i2c_int_sts s AND 0x3F) AND NOT (drop_bit 8 (i2c_int_sts s) AND 0x3F) \<noteq> 0"

lemma i2c_update_line [irq_simps]:
  "i2c_irq (bl808_i2c_update_irq s) = i2c_level (bl808_i2c_update_irq s)"
  "i2c_irq (bl808_i2c_set_int v s) = i2c_level (bl808_i2c_set_int v s)"
  by (simp_all add: bl808_i2c_set_int_def bl808_i2c_update_irq_def i2c_level_def bl808_i2c_clock_active_def Let_def)

definition i2c_exact :: "'b BL808I2CState \<Rightarrow> bool" where
  "i2c_exact s \<longleftrightarrow> i2c_irq s = i2c_level s"

lemma exact_simps [simp]: "i2c_exact (bl808_i2c_update_irq s)" "i2c_exact (bl808_i2c_set_int v s)"
  by (simp_all add: i2c_exact_def irq_simps)

lemma exact_cong:
  "i2c_irq s' = i2c_irq s \<Longrightarrow> i2c_int_sts s' = i2c_int_sts s \<Longrightarrow> bl808_i2c_clock_active s' = bl808_i2c_clock_active s
    \<Longrightarrow> i2c_exact s' = i2c_exact s"
  by (simp add: i2c_exact_def i2c_level_def)

lemma finish_exact: "i2c_exact (bl808_i2c_finish_transfer ops s) = i2c_exact s"
  by (rule exact_cong) (simp_all, simp add: bl808_i2c_finish_transfer_def Let_def)

lemma abort_exact: "i2c_exact s \<or> v \<noteq> 0 \<Longrightarrow> i2c_exact (bl808_i2c_abort_transfer ops v s)"
  by (auto simp: bl808_i2c_abort_transfer_def Let_def finish_exact)

lemma check_complete_exact:
  "xfer_remaining s = 0 \<or> (if xfer_is_read s then 0 < i2c_rx_count s else i2c_tx_count s < 2) \<Longrightarrow> i2c_exact (bl808_i2c_check_complete ops s)"
  by (auto simp: bl808_i2c_check_complete_def split: if_splits)

lemma round_exact:
  "xfer_is_read s \<Longrightarrow> i2c_exact (bl808_i2c_check_complete ops (bl808_i2c_fill_rx ops s))"
  "\<not> xfer_is_read s \<Longrightarrow> i2c_exact (case bl808_i2c_drain_tx ops s of (r, s) \<Rightarrow>
     if r < 0 then bl808_i2c_abort_transfer ops (I2C_INT_NAK OR I2C_INT_END) s else bl808_i2c_check_complete ops s)"
proof -
  have set: "i2c_setting (bl808_i2c_fill_rx ops s) = i2c_setting s" using fill_rx_frame by blast
  show "xfer_is_read s \<Longrightarrow> i2c_exact (bl808_i2c_check_complete ops (bl808_i2c_fill_rx ops s))"
    using setting_i2cD(6) [OF set] fill_rx_frame [of ops s] by (intro check_complete_exact) auto
  obtain r t where drain: "bl808_i2c_drain_tx ops s = (r, t)" by fastforce
  note keeps = drain_tx_keeps [OF drain]
  then have "i2c_setting t = i2c_setting s" by blast
  from setting_i2cD(6) [OF this] show "i2c_exact (case bl808_i2c_drain_tx ops s of (r, s) \<Rightarrow>
      if r < 0 then bl808_i2c_abort_transfer ops (I2C_INT_NAK OR I2C_INT_END) s else bl808_i2c_check_complete ops s)"
    if "\<not> xfer_is_read s"
    using keeps drain that by (auto intro!: abort_exact check_complete_exact)
qed

lemma start_exact:
  assumes "i2c_exact s"
  shows "i2c_exact (bl808_i2c_start_transfer ops s)"
proof -
  obtain ok s1 where addr: "i2c_address ops (i2c_begin s) = (ok, s1)" by fastforce
  show ?thesis
    unfolding bl808_i2c_start_transfer_def addr
    using round_exact(2) [of s1 ops] assms by (auto simp: split_beta Let_def intro!: abort_exact round_exact(1))
qed

lemma take_exact: "i2c_exact s \<Longrightarrow> i2c_exact (snd (i2c_take ops s))"
  using round_exact(1) [of "snd (rx_fifo_pop s)" ops] exact_cong [of "snd (rx_fifo_pop s)" s]
  by (cases "i2c_rx_count s = 0") (auto simp: i2c_take_def rx_fifo_pop_def split_beta Let_def bl808_i2c_clock_active_def)

lemma put_exact:
  assumes "i2c_exact s"
  shows "i2c_exact (i2c_put ops v s)"
proof -
  let ?p = "tx_fifo_push v s"
  have "i2c_exact ?p"
    using assms exact_cong [of ?p s] by (cases "2 \<le> i2c_tx_count s") (simp_all add: tx_fifo_push_def bl808_i2c_clock_active_def)
  then show ?thesis using round_exact(2) [of ?p ops] by (simp add: i2c_put_def Let_def)
qed

lemma field_exact:
  "i2c_exact (s\<lparr>i2c_config := v\<rparr>) = i2c_exact s" "i2c_exact (s\<lparr>sub_addr := v\<rparr>) = i2c_exact s"
  "i2c_exact (s\<lparr>prd_start := v\<rparr>) = i2c_exact s" "i2c_exact (s\<lparr>prd_stop := v\<rparr>) = i2c_exact s" "i2c_exact (s\<lparr>prd_data := v\<rparr>) = i2c_exact s"
  by (rule exact_cong; simp add: bl808_i2c_clock_active_def)+

lemma write_line_exact: "i2c_exact s \<Longrightarrow> i2c_exact (bl808_i2c_write ops offset v s)"
  unfolding bl808_i2c_write_def i2c_write_config_def
  by (simp add: Let_def field_exact start_exact abort_exact put_exact) (simp add: i2c_write_int_sts_def i2c_write_fifo_config0_def Let_def)

interpretation i2c: gated_irq_device "i2c_step ops" "\<lambda>op. True" "\<lambda>s. \<exists>bus. s = bl808_i2c_init bus" i2c_irq i2c_level
  bl808_i2c_clock_active for ops
proof
  show "\<exists>bus. s = bl808_i2c_init bus \<Longrightarrow> i2c_irq s = i2c_level s" for s :: "'a BL808I2CState"
    by (auto simp: bl808_i2c_init_def bl808_i2c_recompute_clock_def i2c_level_def)
  have "i2c_exact s \<Longrightarrow> i2c_exact (i2c_step ops op s)" for op and s :: "'a BL808I2CState"
    by (cases op) (auto simp: bl808_i2c_read_def take_exact put_exact write_line_exact bl808_i2c_dma_read_def bl808_i2c_dma_write_def
        bl808_i2c_reset_def bl808_i2c_reset_hold_def bl808_i2c_set_clock_enabled_def bl808_i2c_set_module_clock_enabled_def
        i2c_clock_changed_def bl808_i2c_set_reset_asserted_def split_beta Let_def)
  then show "i2c_irq s = i2c_level s \<Longrightarrow> i2c_irq (i2c_step ops op s) = i2c_level (i2c_step ops op s)" for op s
    by (simp add: i2c_exact_def)
qed (simp add: i2c_level_def)

section \<open>The receiver as a DMA source\<close>

definition bl808_soc_dma_i2c_rx_ops :: "'b i2c_bus_ops \<Rightarrow> 'b BL808I2CState BL808DMARequestOps" where
  "bl808_soc_dma_i2c_rx_ops ops =
     \<lparr>can_read = Some bl808_i2c_dma_can_read, can_write = None, req_read = Some (bl808_i2c_dma_read ops), req_write = None\<rparr>"

definition i2c_offers :: "'b BL808I2CState \<Rightarrow> bool" where
  "i2c_offers s \<longleftrightarrow> bl808_i2c_clock_active s \<and> tst (i2c_fifo_config0 s) I2C_FIFO_DMA_RX_EN"

text \<open>A byte is in the FIFO whenever the transfer still has one to deliver.\<close>

lemma stream_Nil: "i2c_read_ok s \<Longrightarrow> i2c_stream ops s = [] \<longleftrightarrow> i2c_rx_count s = 0"
  using i2c_items_Nil(2) [of s] by (auto simp: i2c_stream_def i2c_read_ok_def)

lemma stream_done: "i2c_read_ok s \<Longrightarrow> i2c_stream ops s = [] \<Longrightarrow> \<not> i2c_reading s"
  by (auto simp: stream_Nil i2c_read_ok_def)

interpretation i2c_rx: dma_source "bl808_soc_dma_i2c_rx_ops ops" i2c_read_ok i2c_offers "i2c_stream ops" for ops
proof
  fix e :: "'a BL808I2CState" and x :: u8 and xs
  assume ok: "i2c_read_ok e" and offers: "i2c_offers e"
  show "\<exists>f. can_read (bl808_soc_dma_i2c_rx_ops ops) = Some f \<and> f e 1 = (i2c_stream ops e \<noteq> [])"
    using offers stream_Nil [OF ok] by (simp add: bl808_soc_dma_i2c_rx_ops_def bl808_i2c_dma_can_read_def i2c_offers_def)
  assume st: "i2c_stream ops e = x # xs"
  obtain v e' where take: "i2c_take ops e = (v, e')" by fastforce
  from take_spec [OF ok st take] offers
  show "\<exists>f e'. req_read (bl808_soc_dma_i2c_rx_ops ops) = Some f \<and> f 1 e = (ucast x, e') \<and> i2c_read_ok e' \<and> i2c_offers e' \<and>
      i2c_stream ops e' = xs"
    using take by (auto simp: bl808_soc_dma_i2c_rx_ops_def bl808_i2c_dma_read_def i2c_offers_def)
qed

section \<open>Starting a transfer from the configuration register\<close>

lemma write_config_starts:
  assumes "bl808_i2c_clock_active s" and "\<not> tst (i2c_config s) CFG_MASTER_EN" and "tst (ucast v) CFG_MASTER_EN"
  shows "bl808_i2c_write ops 0x00 v s = bl808_i2c_start_transfer ops (s\<lparr>i2c_config := ucast v\<rparr>)"
  using assms by (simp add: bl808_i2c_write_def i2c_write_config_def bl808_i2c_clock_active_def)

lemma config_frame [simp]:
  "i2c_rx_ok (s\<lparr>i2c_config := v\<rparr>) = i2c_rx_ok s" "i2c_rx_items (s\<lparr>i2c_config := v\<rparr>) = i2c_rx_items s"
  "i2c_tx_ok (s\<lparr>i2c_config := v\<rparr>) = i2c_tx_ok s" "i2c_tx_items (s\<lparr>i2c_config := v\<rparr>) = i2c_tx_items s"
  "bl808_i2c_clock_active (s\<lparr>i2c_config := v\<rparr>) = bl808_i2c_clock_active s"
  by (simp_all add: i2c_rx_ok_def i2c_rx_items_def i2c_tx_ok_def i2c_tx_items_def bl808_i2c_clock_active_def)

text \<open>The configuration a transfer runs with: enabled, with a 7-bit address, in the direction \<open>rd\<close>, answered by a device.\<close>

definition i2c_answered :: "'b i2c_bus_ops \<Rightarrow> bool \<Rightarrow> u64 \<Rightarrow> 'b BL808I2CState \<Rightarrow> 'b BL808I2CState \<Rightarrow> bool" where
  "i2c_answered ops rd v s s1 \<longleftrightarrow> bl808_i2c_clock_active s \<and> \<not> tst (i2c_config s) CFG_MASTER_EN \<and>
     tst (ucast v) CFG_MASTER_EN \<and> \<not> tst (ucast v) CFG_10B_ADDR_EN \<and> (tst (ucast v) CFG_PKT_DIR \<longleftrightarrow> rd) \<and>
     i2c_address ops (i2c_begin (s\<lparr>i2c_config := ucast v\<rparr>)) = (True, s1)"

lemma write_config_read:
  assumes ans: "i2c_answered ops True v s s1" and rx: "i2c_rx_ok s" "i2c_rx_items s = []"
    and recv: "i2c_start_recv ops (i2c_end_transfer ops (i2c_bus s1)) (bl808_i2c_slave_addr (s\<lparr>i2c_config := ucast v\<rparr>)) = (0, b)"
    and n: "n = i2c_packet (s\<lparr>i2c_config := ucast v\<rparr>)" and s': "s' = bl808_i2c_write ops 0x00 v s"
  shows "i2c_read_ok s'" "i2c_end_ok s'" "i2c_stream ops s' = fst (recv_run ops n b)"
    "i2c_final_bus ops s' = i2c_end_transfer ops (snd (recv_run ops n b))"
    "i2c_fifo_config0 s' = i2c_fifo_config0 s" "bl808_i2c_clock_active s'"
proof -
  let ?t = "s\<lparr>i2c_config := ucast v\<rparr>"
  have on: "bl808_i2c_clock_active ?t" "\<not> tst (i2c_config ?t) CFG_10B_ADDR_EN" "tst (i2c_config ?t) CFG_PKT_DIR" "i2c_rx_ok ?t"
    "i2c_rx_items ?t = []" and addr: "i2c_address ops (i2c_begin ?t) = (True, s1)"
    and s'_eq: "s' = bl808_i2c_start_transfer ops ?t"
    using ans rx write_config_starts [of s v ops] s' by (simp_all add: i2c_answered_def)
  note start = start_read [OF on addr recv s'_eq]
  show "i2c_read_ok s'" "i2c_end_ok s'" "i2c_stream ops s' = fst (recv_run ops n b)"
    "i2c_final_bus ops s' = i2c_end_transfer ops (snd (recv_run ops n b))"
    "i2c_fifo_config0 s' = i2c_fifo_config0 s" "bl808_i2c_clock_active s'"
    using start on(1) unfolding n by simp_all
qed

section \<open>Properties\<close>

text \<open>
  A read transfer of the I2C controller.  When a device answers, reading the data register
  delivers the bytes of the device one after another, none lost to the FIFO's prefetching and none
  read beyond the packet length; the byte count of the packet having been read, the transfer has
  been ended on the bus with the device having sent exactly that many, the end interrupt is
  flagged and the enable bit is clear.
\<close>

theorem i2c_read_in_order:
  assumes "i2c_answered ops True v s s1" and "i2c_rx_ok s" and "i2c_rx_items s = []"
    and "i2c_start_recv ops (i2c_end_transfer ops (i2c_bus s1)) (bl808_i2c_slave_addr (s\<lparr>i2c_config := ucast v\<rparr>)) = (0, b)"
    and "n = i2c_packet (s\<lparr>i2c_config := ucast v\<rparr>)" and "k \<le> n"
    and "i2c_read_bytes ops k (bl808_i2c_write ops 0x00 v s) = (vs, s')"
  shows "vs = map ucast (take k (fst (recv_run ops n b))) \<and>
    (k = n \<longrightarrow> \<not> i2c_reading s' \<and> i2c_rx_items s' = [] \<and> i2c_bus s' = i2c_end_transfer ops (snd (recv_run ops n b)) \<and>
      tst (i2c_int_sts s') I2C_INT_END \<and> \<not> tst (i2c_config s') CFG_MASTER_EN)"
proof -
  note start = write_config_read [OF assms(1-5) refl]
  have "k \<le> length (i2c_stream ops (bl808_i2c_write ops 0x00 v s))" using assms(6) start(3) by simp
  note read = read_bytes_spec [OF start(1,2) this assms(7), unfolded start(3,4)]
  moreover have "\<not> i2c_reading s' \<and> i2c_rx_items s' = []" if "k = n"
    using read that stream_done [of s' ops] by (auto simp: i2c_stream_def split: if_splits)
  ultimately show ?thesis by (auto simp: i2c_end_ok_def i2c_final_bus_def)
qed

text \<open>A device at address 0x50 that sends successive bytes and refuses the byte 0xFF.\<close>

definition i2c_demo :: "u8 i2c_bus_ops" where
  "i2c_demo = \<lparr>i2c_start_send = (\<lambda>b a. (if a = 0x50 then 0 else 1, b)), i2c_start_recv = (\<lambda>b a. (if a = 0x50 then 0 else 1, b)),
     i2c_send = (\<lambda>b v. (if v = 0xFF then - 1 else 0, b + v)), i2c_recv = (\<lambda>b. (b, b + 1)), i2c_end_transfer = (\<lambda>b. b),
     i2c_bus_busy = (\<lambda>b. False)\<rparr>"

lemma i2c_demo_answered:
  "i2c_answered i2c_demo True 0x25003 (bl808_i2c_init b) ((i2c_begin ((bl808_i2c_init b)\<lparr>i2c_config := 0x25003\<rparr>)))"
  "i2c_answered i2c_demo False 0x25001 (bl808_i2c_init b) ((i2c_begin ((bl808_i2c_init b)\<lparr>i2c_config := 0x25001\<rparr>)))"
  "i2c_packet ((bl808_i2c_init b)\<lparr>i2c_config := 0x25003\<rparr>) = 3" "i2c_packet ((bl808_i2c_init b)\<lparr>i2c_config := 0x25001\<rparr>) = 3"
  "bl808_i2c_slave_addr ((bl808_i2c_init b)\<lparr>i2c_config := 0x25003\<rparr>) = 0x50"
  unfolding i2c_answered_def i2c_demo_def i2c_packet_def by code_simp+

lemma i2c_demo_runs:
  "i2c_start_recv i2c_demo b 0x50 = (0, b)" "i2c_end_transfer i2c_demo b = b" "recv_run i2c_demo 3 7 = ([7, 8, 9], 10)"
  "send_run i2c_demo [1, 2, 3] 10 = (True, 16)" "send_run i2c_demo [1, 0xFF, 3] 10 = (False, 10)"
  "i2c_bus (i2c_begin s) = i2c_bus s" "i2c_bus (bl808_i2c_init c) = c"
  by (simp_all add: i2c_demo_def numeral_3_eq_3 i2c_begin_def bl808_i2c_init_def bl808_i2c_recompute_clock_def)

lemma i2c_init_fifos:
  "i2c_rx_ok (bl808_i2c_init b)" "i2c_rx_items (bl808_i2c_init b) = []"
  "i2c_tx_ok (bl808_i2c_init b)" "i2c_tx_items (bl808_i2c_init b) = []"
  using i2c_init_inv [of b] i2c_items_Nil [of "bl808_i2c_init b"]
  by (simp_all add: i2c_inv_def i2c_idle_ok_def bl808_i2c_init_def bl808_i2c_recompute_clock_def)

theorem i2c_read_in_order_witness:
  "fst (i2c_read_bytes i2c_demo 3 (bl808_i2c_write i2c_demo 0x00 0x25003 (bl808_i2c_init 7))) = [7, 8, 9] \<and>
   i2c_bus (snd (i2c_read_bytes i2c_demo 3 (bl808_i2c_write i2c_demo 0x00 0x25003 (bl808_i2c_init 7)))) = 10"
  using i2c_read_in_order [OF i2c_demo_answered(1) [of 7] i2c_init_fifos(1,2), of 7 3 3, OF _ _ _ prod.collapse [symmetric]]
    i2c_demo_answered(3,5) [of 7]
  by (simp add: i2c_demo_runs)

text \<open>
  A write transfer of the I2C controller.  The bytes queued before the start and those written to
  the data register afterwards, together as many as the packet length asks for, are offered to the
  device in order, up to the first one that it refuses.  The transfer then has been ended on the
  bus, the end interrupt is flagged, and the NAK interrupt tells exactly whether a byte was refused.
\<close>

theorem i2c_write_in_order:
  assumes "i2c_answered ops False v s s1" and "i2c_tx_ok s"
    and "i2c_packet (s\<lparr>i2c_config := ucast v\<rparr>) = length (i2c_tx_items s @ vs)"
    and "send_run ops (i2c_tx_items s @ vs) (i2c_bus s1) = (acked, b)"
    and "s' = i2c_write_bytes ops vs (bl808_i2c_write ops 0x00 v s)"
  shows "\<not> i2c_transfer_active s' \<and> i2c_bus s' = i2c_end_transfer ops b \<and> tst (i2c_int_sts s') I2C_INT_END \<and>
    (tst (i2c_int_sts s') I2C_INT_NAK \<longleftrightarrow> \<not> acked) \<and> \<not> tst (i2c_config s') CFG_MASTER_EN"
proof -
  let ?t = "s\<lparr>i2c_config := ucast v\<rparr>" and ?s = "bl808_i2c_write ops 0x00 v s"
  obtain a1 b1 where run1: "send_run ops (i2c_tx_items s) (i2c_bus s1) = (a1, b1)" by fastforce
  have on: "bl808_i2c_clock_active ?t" "\<not> tst (i2c_config ?t) CFG_10B_ADDR_EN" "\<not> tst (i2c_config ?t) CFG_PKT_DIR" "i2c_tx_ok ?t"
    "length (i2c_tx_items ?t) \<le> i2c_packet ?t" and addr: "i2c_address ops (i2c_begin ?t) = (True, s1)"
    and s_eq: "?s = bl808_i2c_start_transfer ops ?t" and reset: "\<not> i2c_reset_asserted ?t"
    using assms(1-3) write_config_starts [of s v ops] by (simp_all add: i2c_answered_def bl808_i2c_clock_active_def)
  have run: "(acked, b) = (if a1 then send_run ops vs b1 else (False, b1))"
    using send_run_append [of ops "i2c_tx_items s" vs "i2c_bus s1"] assms(4) run1 by (auto split: if_splits)
  note start = start_write [OF on addr _ s_eq, of a1 b1]
  have "i2c_sent ops acked b s'"
  proof (cases "a1 \<and> vs \<noteq> []")
    case True
    then show ?thesis
      using start run1 assms(3,5) reset run write_bytes_spec [of ?s vs ops acked b] by simp
  next
    case False
    then have "i2c_sent ops acked b ?s" using start run1 assms(3) run by (auto split: if_splits)
    then show ?thesis unfolding assms(5) by (rule sent_write_bytes)
  qed
  then show ?thesis by (simp add: i2c_sent_def)
qed

theorem i2c_write_in_order_witness:
  "i2c_bus (i2c_write_bytes i2c_demo [1, 2, 3] (bl808_i2c_write i2c_demo 0x00 0x25001 (bl808_i2c_init 10))) = 16 \<and>
   tst (i2c_int_sts (i2c_write_bytes i2c_demo [1, 0xFF, 3] (bl808_i2c_write i2c_demo 0x00 0x25001 (bl808_i2c_init 10)))) I2C_INT_NAK"
  using i2c_write_in_order [OF i2c_demo_answered(2) [of 10] i2c_init_fifos(3) _ _ refl, of "[1, 2, 3]" True 16]
    i2c_write_in_order [OF i2c_demo_answered(2) [of 10] i2c_init_fifos(3) _ _ refl, of "[1, 0xFF, 3]" False 10]
    i2c_demo_answered(4) [of 10]
  by (simp add: i2c_init_fifos i2c_demo_runs del: send_run.simps)

text \<open>
  C20. From an I2C device to memory: the bytes a device sends in a read transfer are stored by the DMA
  channel that reads the controller at successive addresses, in order and without loss, however
  the runs of the DMA controller interleave with the refilling of the two-byte FIFO.
\<close>

theorem i2c_device_to_memory:
  assumes "i2c_answered ops True v p p1" and "i2c_rx_ok p" and "i2c_rx_items p = []"
    and "i2c_start_recv ops (i2c_end_transfer ops (i2c_bus p1)) (bl808_i2c_slave_addr (p\<lparr>i2c_config := ucast v\<rparr>)) = (0, b)"
    and "tst (i2c_fifo_config0 p) I2C_FIFO_DMA_RX_EN" and "xs = fst (recv_run ops (i2c_packet (p\<lparr>i2c_config := ucast v\<rparr>)) b)"
    and "dma_receiving s c req dst n burst" and "requests s ! req = Some (bl808_soc_dma_i2c_rx_ops ops)" and "unat dst + n < 2 ^ 32"
    and "j = min n (min (length ts * burst) (length xs))"
  shows "\<exists>s' p'. fold dma_step (map Dma_run ts) (s, m, bl808_i2c_write ops 0x00 v p) =
      (s', store_bytes (ucast dst) (take j xs) m, p') \<and>
    (if j = n then dma_received s' c (dst + of_nat n) else dma_receiving s' c req (dst + of_nat j) (n - j) burst)"
proof -
  note start = write_config_read [OF assms(1-4) refl refl]
  have "i2c_offers (bl808_i2c_write ops 0x00 v p)" using start(5,6) assms(5) by (simp add: i2c_offers_def)
  from i2c_rx.p2m_runs [OF assms(7,8) start(1) this assms(9), of j ts m, unfolded start(3), OF assms(10) [unfolded assms(6)]]
  show ?thesis unfolding assms(6) by blast
qed

theorem i2c_device_to_memory_witness:
  "\<exists>s' p'. fold dma_step [Dma_run 1, Dma_run 2, Dma_run 3]
      (dma_example receive_channel (bl808_soc_dma_i2c_rx_ops i2c_demo), (\<lambda>_. 0),
       bl808_i2c_write i2c_demo 0x00 0x25003 ((bl808_i2c_init 7)\<lparr>i2c_fifo_config0 := 1\<rparr>)) =
      (s', (\<lambda>_. 0)(0x2000 := 7, 0x2001 := 8, 0x2002 := 9), p') \<and> dma_received s' 0 0x2003"
proof -
  let ?p = "(bl808_i2c_init 7)\<lparr>i2c_fifo_config0 := 1\<rparr> :: u8 BL808I2CState"
  have "i2c_answered i2c_demo True 0x25003 ?p (i2c_begin (?p\<lparr>i2c_config := 0x25003\<rparr>))"
    unfolding i2c_answered_def i2c_demo_def by code_simp
  from i2c_device_to_memory [OF this _ _ _ _ refl receive_channel_receiving dma_example_fields(2), of 7 3 "[1, 2, 3]" "\<lambda>_. 0"]
    i2c_init_fifos [of 7] i2c_demo_answered(3,5) [of 7]
  show ?thesis by (simp add: i2c_rx_ok_def i2c_rx_items_def i2c_packet_def bl808_i2c_slave_addr_def i2c_demo_runs tst_def) blast
qed

text \<open>
  C36. The state of the I2C controller after any history and with any devices on the bus: both FIFOs
  are well formed, at most 256 bytes are outstanding, and an active transfer has bytes outstanding,
  its enable bit set and a running clock, so that a new start never meets an active transfer.  One
  that sends has no byte waiting in the FIFO.
\<close>

theorem i2c_well_formed:
  assumes "s = fold (i2c_step ops) hist (bl808_i2c_init bus)"
  shows "nring_ok 2 (i2c_tx_fifo s) (i2c_tx_head s) (i2c_tx_count s) \<and> nring_ok 2 (i2c_rx_fifo s) (i2c_rx_head s) (i2c_rx_count s) \<and>
    xfer_remaining s \<le> 256 \<and>
    (i2c_transfer_active s \<longrightarrow> 0 < xfer_remaining s \<and> tst (i2c_config s) CFG_MASTER_EN \<and> bl808_i2c_clock_active s \<and>
      (\<not> xfer_is_read s \<longrightarrow> i2c_tx_count s = 0))"
  using i2c_run_inv [OF i2c_init_inv, of ops hist bus] assms
  by (simp add: i2c_inv_def i2c_idle_ok_def i2c_tx_ok_def i2c_rx_ok_def)

theorem i2c_well_formed_witness:
  "tst (i2c_config (fold (i2c_step i2c_demo) [I2c_write 0x88 1, I2c_write 0x00 0x25001] (bl808_i2c_init 10))) CFG_MASTER_EN"
proof -
  let ?s = "fold (i2c_step i2c_demo) [I2c_write 0x88 1, I2c_write 0x00 0x25001] (bl808_i2c_init 10)"
  have "i2c_transfer_active ?s" unfolding i2c_demo_def by code_simp
  then show ?thesis using i2c_well_formed [OF refl, of i2c_demo "[I2c_write 0x88 1, I2c_write 0x00 0x25001]" 10] by blast
qed

end
