(* ===== verification/Boot.thy ===== *)
theory Boot
  imports Device
begin

text \<open>
  How the machine finds the firmware in flash, \<open>src/qemu-machine/hw/riscv/bl808.c\<close>: boot headers
  with a CRC, two copies of a partition table of which the younger valid one counts, firmware
  entries with an active and a spare slot, the fallback to the spare slot that is written back to
  the older copy, the synthetic boot ROM, and what a reset of the machine makes of all that.

  Byte arrays (the flash, a table, the boot ROM, the RAM of the pass parameters) are functions
  from the offset.  The flash has \<open>FLASH_SIZE\<close> bytes and is allocated when the machine is built,
  so that the sources' tests for a null pointer never succeed; an access beyond it is undefined
  in C, and is the result \<open>None\<close> here.  The copies of the flash that the flash controller keeps
  (the XIP aperture, the block backend) belong to that controller.
\<close>

section \<open>Byte arrays\<close>

type_synonym bytes = "nat \<Rightarrow> u8"

definition ptr_at :: "bytes \<Rightarrow> nat \<Rightarrow> bytes" where
  "ptr_at f off = (\<lambda>i. f (off + i))"

definition lduw_le_p :: "bytes \<Rightarrow> nat \<Rightarrow> u16" where
  "lduw_le_p f off = ucast (f off) OR push_bit 8 (ucast (f (off + 1)))"

definition ldl_le_p :: "bytes \<Rightarrow> nat \<Rightarrow> u32" where
  "ldl_le_p f off = ucast (f off) OR push_bit 8 (ucast (f (off + 1))) OR push_bit 16 (ucast (f (off + 2))) OR
     push_bit 24 (ucast (f (off + 3)))"

definition stl_le_p :: "nat \<Rightarrow> u32 \<Rightarrow> bytes \<Rightarrow> bytes" where
  "stl_le_p off v f = f(off := ucast v, off + 1 := ucast (drop_bit 8 v), off + 2 := ucast (drop_bit 16 v),
     off + 3 := ucast (drop_bit 24 v))"

definition memcpy_to :: "nat \<Rightarrow> bytes \<Rightarrow> nat \<Rightarrow> bytes \<Rightarrow> bytes" where
  "memcpy_to off src n dst = (\<lambda>i. if off \<le> i \<and> i < off + n then src (i - off) else dst i)"

definition byte_range :: "bytes \<Rightarrow> nat \<Rightarrow> nat \<Rightarrow> u8 list" where
  "byte_range f off n = map f [off..<off + n]"

section \<open>Boot headers\<close>

abbreviation (input) FLASH_SIZE :: u32 where "FLASH_SIZE \<equiv> 0x1000000"
abbreviation (input) BOOTHEADER_SIZE :: u32 where "BOOTHEADER_SIZE \<equiv> 352"
abbreviation (input) MAGIC_BFNP :: u32 where "MAGIC_BFNP \<equiv> 0x504E4642"
abbreviation (input) MAGIC_BFAP :: u32 where "MAGIC_BFAP \<equiv> 0x50414642"
abbreviation (input) FLASH_CFG_MAGIC :: u32 where "FLASH_CFG_MAGIC \<equiv> 0x47464346"
abbreviation (input) CRC_DEADBEEF :: u32 where "CRC_DEADBEEF \<equiv> 0xDEADBEEF"
abbreviation (input) PT_MAGIC_CODE :: u32 where "PT_MAGIC_CODE \<equiv> 0x54504642"
abbreviation (input) FLASH_OFFSET_D0_IMAGE :: u32 where "FLASH_OFFSET_D0_IMAGE \<equiv> 0x101000"
abbreviation (input) FLASH_XIP_BASE :: u64 where "FLASH_XIP_BASE \<equiv> 0x58000000"
abbreviation (input) LP_FLASH_XIP_BASE :: u64 where "LP_FLASH_XIP_BASE \<equiv> 0x58020000"
abbreviation (input) CPU0_BOOT_RESET :: u32 where "CPU0_BOOT_RESET \<equiv> 0x3eff0000"

record BL808BootHeaderInfo =
  hdr_valid :: bool
  power_on_mm :: bool
  flash_offset :: u32
  group_image_offset :: u32
  partition_table_offset :: "u32 list"
  cpu_enabled :: "bool list"
  cpu_halt :: "bool list"
  cpu_image_offset :: "u32 list"

definition zero_header :: BL808BootHeaderInfo where
  "zero_header = \<lparr>hdr_valid = False, power_on_mm = False, flash_offset = 0, group_image_offset = 0, partition_table_offset = [0, 0],
     cpu_enabled = [False, False, False], cpu_halt = [False, False, False], cpu_image_offset = [0, 0, 0]\<rparr>"

record BL808PartitionInfo =
  part_valid :: bool
  fallback_applied :: bool
  header_flash_offset :: u32
  table_flash_offset :: u32
  writeback_flash_offset :: u32
  table_index :: u8
  entry_index :: u16
  entry_count :: u16
  active_index :: u8
  entry_prefix :: "u8 list"

definition zero_partition :: BL808PartitionInfo where
  "zero_partition = \<lparr>part_valid = False, fallback_applied = False, header_flash_offset = 0, table_flash_offset = 0,
     writeback_flash_offset = 0, table_index = 0, entry_index = 0, entry_count = 0, active_index = 0, entry_prefix = replicate 20 0\<rparr>"

text \<open>One bit, one byte, and the whole message of the CRC.\<close>

definition crc_bit :: "u32 \<Rightarrow> u32" where
  "crc_bit crc = drop_bit 1 crc XOR (0xEDB88320 AND - (crc AND 1))"

definition crc_byte :: "u8 \<Rightarrow> u32 \<Rightarrow> u32" where
  "crc_byte b crc = (crc_bit ^^ 8) (crc XOR ucast b)"

definition bl808_bootheader_crc32 :: "u8 list \<Rightarrow> u32" where
  "bl808_bootheader_crc32 data = NOT (fold crc_byte data 0xFFFFFFFF)"

definition bootheader_fields :: "bytes \<Rightarrow> u32 \<Rightarrow> BL808BootHeaderInfo" where
  "bootheader_fields raw off =
     \<lparr>hdr_valid = True, power_on_mm = tst (ldl_le_p raw 0x80) 0x40000, flash_offset = off,
      group_image_offset = ldl_le_p raw 0x84 AND 0x0FFFFFFF,
      partition_table_offset = [ldl_le_p raw 0xF4 AND 0x0FFFFFFF, ldl_le_p raw 0xF8 AND 0x0FFFFFFF],
      cpu_enabled = map (\<lambda>cpu. raw (0xB0 + cpu * 24) \<noteq> 0) [0..<3],
      cpu_halt = map (\<lambda>cpu. raw (0xB0 + cpu * 24 + 1) \<noteq> 0) [0..<3],
      cpu_image_offset = map (\<lambda>cpu. ldl_le_p raw (0xB0 + cpu * 24 + 12)) [0..<3]\<rparr>"

text \<open>
  The bound check adds 32-bit numbers.  When it is passed although the header does not lie in the
  flash, already the first load is outside.
\<close>

definition bl808_bootheader_read :: "bytes \<Rightarrow> u32 \<Rightarrow> (bool \<times> BL808BootHeaderInfo) option" where
  "bl808_bootheader_read flash off =
     (if off + BOOTHEADER_SIZE > FLASH_SIZE then Some (False, zero_header)
      else if unat off \<ge> unat FLASH_SIZE then None
      else
        let raw = ptr_at flash (unat off);
            magic = ldl_le_p raw 0; flash_cfg_magic = ldl_le_p raw 8; stored_crc = ldl_le_p raw 0x15C
        in if (magic \<noteq> MAGIC_BFNP \<and> magic \<noteq> MAGIC_BFAP) \<or> flash_cfg_magic \<noteq> FLASH_CFG_MAGIC then Some (False, zero_header)
           else if stored_crc \<noteq> CRC_DEADBEEF \<and> bl808_bootheader_crc32 (byte_range raw 0 0x15C) \<noteq> stored_crc
           then Some (False, zero_header)
           else Some (True, bootheader_fields raw off))"

section \<open>Partition tables\<close>

fun strncmp_eq :: "nat \<Rightarrow> u8 list \<Rightarrow> u8 list \<Rightarrow> bool" where
  "strncmp_eq (Suc n) (a # as) (b # bs) \<longleftrightarrow> a = b \<and> (a = 0 \<or> strncmp_eq n as bs)"
| "strncmp_eq _ _ _ \<longleftrightarrow> True"

definition bl808_partition_name_matches :: "u8 list \<Rightarrow> u8 list \<Rightarrow> bool" where
  "bl808_partition_name_matches raw_name want = strncmp_eq (length want + 1) (raw_name @ [0]) (want @ [0])"

definition bl808_partition_table_valid :: "bytes \<Rightarrow> (u32 \<times> u16) option" where
  "bl808_partition_table_valid raw =
     (let count = lduw_le_p raw 0x06 in
      if ldl_le_p raw 0 \<noteq> PT_MAGIC_CODE \<or> count > 16 then None
      else if bl808_bootheader_crc32 (byte_range raw 0 12) \<noteq> ldl_le_p raw 0x0C then None
      else if bl808_bootheader_crc32 (byte_range raw 0x10 (unat count * 36)) \<noteq> ldl_le_p raw (0x10 + unat count * 36) then None
      else Some (ldl_le_p raw 0x08, count))"

definition bl808_partition_entry_bootheader :: "bytes \<Rightarrow> bytes \<Rightarrow> u8 \<Rightarrow> (bool \<times> BL808BootHeaderInfo) option" where
  "bl808_partition_entry_bootheader flash entry slot =
     (if slot > 1 then Some (False, zero_header)
      else let off = ldl_le_p entry (12 + unat slot * 4) in
        if off = 0 then Some (False, zero_header)
        else case bl808_bootheader_read flash off of
          None \<Rightarrow> None
        | Some (ok, info) \<Rightarrow> Some (ok \<and> cpu_enabled info ! 0 \<and> \<not> cpu_halt info ! 0, info))"

definition bl808_sf_ctrl_write_flash :: "u32 \<Rightarrow> bytes \<Rightarrow> u32 \<Rightarrow> bytes \<Rightarrow> bytes" where
  "bl808_sf_ctrl_write_flash off data sz flash =
     (if sz = 0 \<or> off \<ge> FLASH_SIZE then flash
      else let sz = (if off + sz > FLASH_SIZE then FLASH_SIZE - off else sz)
           in memcpy_to (unat off) data (unat sz) flash)"

text \<open>The new contents of a table whose entry \<open>i\<close> switches to the slot \<open>new_active\<close>.\<close>

definition switched_table :: "bytes \<Rightarrow> nat \<Rightarrow> nat \<Rightarrow> u8 \<Rightarrow> bytes" where
  "switched_table table_raw count i new_active =
     (let entry_base = 0x10 + i * 36; entries_end = 0x10 + count * 36;
          table = table_raw(entry_base + 2 := new_active);
          table = stl_le_p (entry_base + 32) (ldl_le_p table (entry_base + 32) + 1) table;
          table = stl_le_p 0x08 (ldl_le_p table 0x08 + 1) table;
          table = stl_le_p 0x0C (bl808_bootheader_crc32 (byte_range table 0 12)) table
      in stl_le_p entries_end (bl808_bootheader_crc32 (byte_range table 0x10 (count * 36))) table)"

definition bl808_partition_table_writeback :: "bytes \<Rightarrow> u16 \<Rightarrow> u16 \<Rightarrow> u8 \<Rightarrow> u32 \<Rightarrow> bytes \<Rightarrow> bytes" where
  "bl808_partition_table_writeback table_raw count i new_active writeback_offset flash =
     (if i \<ge> count \<or> 0x10 + unat count * 36 + 4 > 596 then flash
      else bl808_sf_ctrl_write_flash writeback_offset (switched_table table_raw (unat count) (unat i) new_active) 596 flash)"

text \<open>
  The choice between the two copies: the second one wins a tie.  The offsets come from a boot header
  and are 28-bit numbers, so that the bound check cannot wrap here.
\<close>

record pt_choice =
  selected_copy :: nat
  selected_age :: u32
  selected_entries :: u16

fun select_copies :: "bytes \<Rightarrow> (nat \<times> u32) list \<Rightarrow> pt_choice option \<Rightarrow> pt_choice option" where
  "select_copies flash [] sel = sel"
| "select_copies flash ((copy, off) # rest) sel =
     (if off + 596 > FLASH_SIZE then select_copies flash rest sel
      else case bl808_partition_table_valid (ptr_at flash (unat off)) of
        None \<Rightarrow> select_copies flash rest sel
      | Some (age, count) \<Rightarrow>
          if (case sel of None \<Rightarrow> True | Some c \<Rightarrow> age \<ge> selected_age c)
          then select_copies flash rest (Some \<lparr>selected_copy = copy, selected_age = age, selected_entries = count\<rparr>)
          else select_copies flash rest sel)"

definition pt_offsets :: "BL808BootHeaderInfo \<Rightarrow> u32 list" where
  "pt_offsets boot2 =
     [if partition_table_offset boot2 ! 0 \<noteq> 0 then partition_table_offset boot2 ! 0 else 0xE000,
      if partition_table_offset boot2 ! 1 \<noteq> 0 then partition_table_offset boot2 ! 1 else 0xF000]"

text \<open>What is recorded about the entry \<open>i\<close>, booted from \<open>slot\<close>.\<close>

definition partition_result :: "u32 list \<Rightarrow> pt_choice \<Rightarrow> bytes \<Rightarrow> nat \<Rightarrow> u8 \<Rightarrow> bool \<Rightarrow> BL808BootHeaderInfo \<Rightarrow> BL808PartitionInfo" where
  "partition_result offs sel entry i slot fallback candidate =
     \<lparr>part_valid = True, fallback_applied = fallback, header_flash_offset = flash_offset candidate,
      table_flash_offset = offs ! selected_copy sel, writeback_flash_offset = offs ! (1 - selected_copy sel),
      table_index = of_nat (selected_copy sel), entry_index = of_nat i, entry_count = selected_entries sel, active_index = slot,
      entry_prefix = (if fallback then (byte_range entry 0 20)[2 := slot] else byte_range entry 0 20)\<rparr>"

definition is_firmware_entry :: "bytes \<Rightarrow> bool" where
  "is_firmware_entry entry \<longleftrightarrow> (bl808_partition_name_matches (byte_range entry 3 9) [0x46, 0x57] \<or> entry 0 = 0) \<and> \<not> entry 2 > 1"

text \<open>
  The loop over the entries, from entry \<open>i\<close> on.  An entry is a pointer into the flash: after a write-back it is read
  from the flash as it is then.
\<close>

fun select_entries :: "bytes \<Rightarrow> u32 list \<Rightarrow> pt_choice \<Rightarrow> bool \<Rightarrow> nat list \<Rightarrow> (bool \<times> BL808PartitionInfo \<times> bytes) option" where
  "select_entries flash offs sel commit [] = Some (False, zero_partition, flash)"
| "select_entries flash offs sel commit (i # rest) =
     (let raw = ptr_at flash (unat (offs ! selected_copy sel)); entry = ptr_at raw (0x10 + i * 36);
          active_index = entry 2 AND 1; inactive_index = active_index XOR 1
      in if \<not> is_firmware_entry entry then select_entries flash offs sel commit rest
         else case bl808_partition_entry_bootheader flash entry active_index of
           None \<Rightarrow> None
         | Some (True, candidate) \<Rightarrow> Some (True, partition_result offs sel entry i active_index False candidate, flash)
         | Some (False, _) \<Rightarrow>
             (case bl808_partition_entry_bootheader flash entry inactive_index of
                None \<Rightarrow> None
              | Some (False, _) \<Rightarrow> select_entries flash offs sel commit rest
              | Some (True, candidate) \<Rightarrow>
                  let flash = (if commit then bl808_partition_table_writeback raw (selected_entries sel) (of_nat i) inactive_index
                                 (offs ! (1 - selected_copy sel)) flash
                               else flash);
                      entry = ptr_at (ptr_at flash (unat (offs ! selected_copy sel))) (0x10 + i * 36)
                  in Some (True, partition_result offs sel entry i inactive_index True candidate, flash)))"

definition bl808_select_partition_header ::
    "bytes \<Rightarrow> BL808BootHeaderInfo \<Rightarrow> bool \<Rightarrow> (bool \<times> BL808PartitionInfo \<times> bytes) option" where
  "bl808_select_partition_header flash boot2 commit =
     (let offs = pt_offsets boot2 in
      case select_copies flash [(0, offs ! 0), (1, offs ! 1)] None of
        None \<Rightarrow> Some (False, zero_partition, flash)
      | Some sel \<Rightarrow> select_entries flash offs sel commit [0..<unat (selected_entries sel)])"

section \<open>The machine\<close>

text \<open>
  A file as the image loader of QEMU sees it: the results of \<open>get_image_size\<close> and
  \<open>load_image_size\<close>, and the bytes it has.
\<close>

record image_file =
  get_image_size :: int
  load_image_size :: int
  image_bytes :: bytes

text \<open>The part of the machine state that booting works on.\<close>

record BL808BootMachine =
  flash :: bytes
  wram_params :: bytes
  bootrom :: bytes
  bootrom_image :: "image_file option"
  strict_fidelity :: bool
  boot_gpio39 :: bool
  have_m0_entry :: bool
  have_lp_entry :: bool
  have_d0_entry :: bool
  lp_entry :: u64
  d0_entry :: u64
  reset_xip_offset :: "u32 list"
  xip_offset :: "u32 list"
  pds_ctl2 :: u32
  pds_cpu_core_cfg13 :: u32
  hbn_glb :: u32
  mm_misc_cpu0_boot :: u32

definition runs_cpu :: "nat \<Rightarrow> BL808BootHeaderInfo \<Rightarrow> bool" where
  "runs_cpu cpu info \<longleftrightarrow> cpu_enabled info ! cpu \<and> \<not> cpu_halt info ! cpu"

text \<open>
  The second attempt of the sources, when the partition does not lead to a header, is the boot
  header itself.
\<close>

definition primary_boot2 :: "BL808BootHeaderInfo \<Rightarrow> BL808BootHeaderInfo \<Rightarrow> bool \<times> BL808BootHeaderInfo" where
  "primary_boot2 boot2 info = (if runs_cpu 0 boot2 then (True, boot2) else (False, info))"

definition bl808_primary_flash_bootheader :: "BL808BootMachine \<Rightarrow> (bool \<times> BL808BootHeaderInfo) option" where
  "bl808_primary_flash_bootheader s =
     (if strict_fidelity s \<or> boot_gpio39 s \<or> have_m0_entry s then Some (False, zero_header)
      else case bl808_bootheader_read (flash s) 0 of
        None \<Rightarrow> None
      | Some (False, _) \<Rightarrow> Some (False, zero_header)
      | Some (True, boot2) \<Rightarrow>
          (case bl808_select_partition_header (flash s) boot2 False of
             None \<Rightarrow> None
           | Some (False, _) \<Rightarrow> Some (primary_boot2 boot2 zero_header)
           | Some (True, part, _) \<Rightarrow>
               (case bl808_bootheader_read (flash s) (header_flash_offset part) of
                  None \<Rightarrow> None
                | Some (ok, info) \<Rightarrow> Some (if ok \<and> runs_cpu 0 info then (True, info) else primary_boot2 boot2 info))))"

text \<open>The 24 bytes of parameters that are passed to the second boot stage.\<close>

definition bl808_boot2_clear_pass_params :: "BL808BootMachine \<Rightarrow> BL808BootMachine" where
  "bl808_boot2_clear_pass_params s = s\<lparr>wram_params := memcpy_to 0 (\<lambda>_. 0) 24 (wram_params s)\<rparr>"

definition bl808_boot2_store_partition_params :: "BL808PartitionInfo \<Rightarrow> BL808BootMachine \<Rightarrow> BL808BootMachine" where
  "bl808_boot2_store_partition_params info s =
     (if \<not> part_valid info then s
      else s\<lparr>wram_params := memcpy_to 4 (\<lambda>i. entry_prefix info ! i) 20 (stl_le_p 0 (ucast (table_index info)) (wram_params s))\<rparr>)"

section \<open>The synthetic boot ROM\<close>

definition bl808_riscv_encode_lui :: "u32 \<Rightarrow> u32 \<Rightarrow> u32" where
  "bl808_riscv_encode_lui rd imm20 = push_bit 12 (imm20 AND 0xFFFFF) OR push_bit 7 (rd AND 0x1F) OR 0x37"

definition bl808_riscv_encode_jalr :: "u32 \<Rightarrow> u32 \<Rightarrow> u32 \<Rightarrow> u32" where
  "bl808_riscv_encode_jalr rd rs1 imm12 =
     push_bit 20 (imm12 AND 0xFFF) OR push_bit 15 (rs1 AND 0x1F) OR push_bit 7 (rd AND 0x1F) OR 0x67"

definition bl808_bootrom_write32 :: "nat \<Rightarrow> u32 \<Rightarrow> bytes \<Rightarrow> bytes" where
  "bl808_bootrom_write32 off v rom = stl_le_p off v rom"

definition bl808_bootrom_build_jump :: "u32 \<Rightarrow> bytes \<Rightarrow> bytes" where
  "bl808_bootrom_build_jump target rom =
     (let hi20 = drop_bit 12 (target + 0x800); lo12 = target - push_bit 12 hi20;
          rom = bl808_bootrom_write32 0 (bl808_riscv_encode_lui 5 hi20) rom;
          rom = bl808_bootrom_write32 4 (bl808_riscv_encode_jalr 0 5 lo12) rom
      in bl808_bootrom_write32 8 0x00000013 rom)"

definition bl808_bootrom_build_download_stub :: "bytes \<Rightarrow> bytes" where
  "bl808_bootrom_build_download_stub rom = bl808_bootrom_write32 4 0x00100073 (bl808_bootrom_write32 0 0x0000006F rom)"

text \<open>
  The functions below return whether they succeed; \<open>None\<close> is again an access outside the flash.
\<close>

definition bl808_load_external_bootrom :: "image_file \<Rightarrow> bytes \<Rightarrow> bool \<times> bytes" where
  "bl808_load_external_bootrom img rom =
     (let size = get_image_size img; loaded = load_image_size img in
      if size < 0 then (False, rom)
      else if size > 131072 then (False, rom)
      else if loaded < 0 then (False, rom)
      else let rom = memcpy_to 0 (image_bytes img) (nat loaded) rom in (loaded = size, rom))"

definition boot_signature :: bytes where
  "boot_signature = (\<lambda>i. ([0x42, 0x4C, 0x38, 0x30, 0x38, 0x51, 0x45, 0x4D, 0x55, 0x42, 0x4F, 0x4F, 0x54, 0, 0, 0] :: u8 list) ! i)"

definition bl808_populate_bootrom :: "BL808BootMachine \<Rightarrow> (bool \<times> BL808BootMachine) option" where
  "bl808_populate_bootrom s =
     (let s = s\<lparr>bootrom := memcpy_to 0 (\<lambda>_. 0) 131072 (bootrom s)\<rparr> in
      case bootrom_image s of
        Some img \<Rightarrow> (let (ok, rom) = bl808_load_external_bootrom img (bootrom s) in Some (ok, s\<lparr>bootrom := rom\<rparr>))
      | None \<Rightarrow>
         (if strict_fidelity s then Some (False, s)
          else if have_m0_entry s then Some (True, s)
          else if boot_gpio39 s then
            Some (True, s\<lparr>bootrom := memcpy_to 131056 boot_signature 16 (bl808_bootrom_build_download_stub (bootrom s))\<rparr>)
          else case bl808_primary_flash_bootheader s of
            None \<Rightarrow> None
          | Some (found, boothdr) \<Rightarrow>
              let target = ucast FLASH_XIP_BASE + (if found then cpu_image_offset boothdr ! 0 else 0)
              in Some (True, s\<lparr>bootrom := memcpy_to 131056 boot_signature 16 (bl808_bootrom_build_jump target (bootrom s))\<rparr>)))"

section \<open>Booting at a reset of the machine\<close>

definition bl808_sf_ctrl_set_flash_image_offset :: "nat \<Rightarrow> u32 \<Rightarrow> BL808BootMachine \<Rightarrow> BL808BootMachine" where
  "bl808_sf_ctrl_set_flash_image_offset grp off s = s\<lparr>xip_offset := (xip_offset s)[grp := off AND 0x0FFFFFFF]\<rparr>"

text \<open>The image of a header becomes the flash image of a group of cores.\<close>

definition boot_group :: "BL808BootHeaderInfo \<Rightarrow> BL808BootMachine \<Rightarrow> BL808BootMachine" where
  "boot_group boothdr s =
     (let group_offset = flash_offset boothdr + group_image_offset boothdr;
          s = s\<lparr>reset_xip_offset := (reset_xip_offset s)[0 := group_offset]\<rparr>;
          s = bl808_sf_ctrl_set_flash_image_offset 0 group_offset s
      in if power_on_mm boothdr then s\<lparr>pds_ctl2 := 0\<rparr> else s)"

text \<open>
  The first choice: the header that the partition table names, the switch to the spare slot being
  committed.  The result is the header found, the machine, and whether this choice succeeded.
\<close>

definition boot_partition :: "BL808BootMachine \<Rightarrow> (bool \<times> BL808BootHeaderInfo \<times> BL808BootMachine) option" where
  "boot_partition s =
     (if strict_fidelity s \<or> boot_gpio39 s \<or> have_m0_entry s then Some (False, zero_header, s)
      else case bl808_bootheader_read (flash s) 0 of
        None \<Rightarrow> None
      | Some (False, _) \<Rightarrow> Some (False, zero_header, s)
      | Some (True, boot2) \<Rightarrow>
          (case bl808_select_partition_header (flash s) boot2 True of
             None \<Rightarrow> None
           | Some (False, _, f) \<Rightarrow> Some (False, zero_header, s\<lparr>flash := f\<rparr>)
           | Some (True, part, f) \<Rightarrow>
               (case bl808_bootheader_read f (header_flash_offset part) of
                  None \<Rightarrow> None
                | Some (ok, boothdr) \<Rightarrow>
                    if ok \<and> runs_cpu 0 boothdr
                    then Some (True, boothdr, boot_group boothdr (bl808_boot2_store_partition_params part (s\<lparr>flash := f\<rparr>)))
                    else Some (False, boothdr, s\<lparr>flash := f\<rparr>))))"

definition boot_primary :: "BL808BootMachine \<Rightarrow> (BL808BootHeaderInfo \<times> BL808BootMachine) option" where
  "boot_primary s =
     (case bl808_primary_flash_bootheader s of
        None \<Rightarrow> None
      | Some (found, boothdr) \<Rightarrow> Some (boothdr, if found then boot_group boothdr s else s))"

text \<open>The entry points of the two other cores.\<close>

definition boot_entries :: "BL808BootHeaderInfo \<Rightarrow> BL808BootMachine \<Rightarrow> BL808BootMachine" where
  "boot_entries boothdr s =
     (let s = (if have_lp_entry s then s\<lparr>pds_cpu_core_cfg13 := ucast (lp_entry s)\<rparr>
               else if hdr_valid boothdr \<and> runs_cpu 2 boothdr
               then s\<lparr>pds_cpu_core_cfg13 := ucast FLASH_XIP_BASE + cpu_image_offset boothdr ! 2\<rparr>
               else if \<not> strict_fidelity s then s\<lparr>pds_cpu_core_cfg13 := ucast LP_FLASH_XIP_BASE\<rparr> else s);
          s = s\<lparr>hbn_glb := 2\<rparr>;
          s = (if have_d0_entry s then s\<lparr>mm_misc_cpu0_boot := ucast (d0_entry s)\<rparr>
               else if hdr_valid boothdr \<and> runs_cpu 1 boothdr
               then s\<lparr>mm_misc_cpu0_boot := ucast FLASH_XIP_BASE + cpu_image_offset boothdr ! 1\<rparr>
               else if \<not> strict_fidelity s \<and> \<not> boot_gpio39 s then s\<lparr>mm_misc_cpu0_boot := ucast FLASH_XIP_BASE\<rparr>
               else s\<lparr>mm_misc_cpu0_boot := CPU0_BOOT_RESET\<rparr>);
          off = (if hdr_valid boothdr \<and> runs_cpu 1 boothdr then flash_offset boothdr + group_image_offset boothdr
                 else if \<not> strict_fidelity s \<and> \<not> boot_gpio39 s then FLASH_OFFSET_D0_IMAGE else 0);
          s = s\<lparr>reset_xip_offset := (reset_xip_offset s)[1 := off]\<rparr>
      in bl808_sf_ctrl_set_flash_image_offset 1 off s)"

definition bl808_machine_boot :: "BL808BootMachine \<Rightarrow> (BL808BootHeaderInfo \<times> BL808BootMachine) option" where
  "bl808_machine_boot s =
     (let s = bl808_boot2_clear_pass_params s;
          s = s\<lparr>reset_xip_offset := (reset_xip_offset s)[0 := 0]\<rparr>;
          s = bl808_sf_ctrl_set_flash_image_offset 0 0 s
      in case (case boot_partition s of
                 None \<Rightarrow> None
               | Some (True, boothdr, s) \<Rightarrow> Some (boothdr, s)
               | Some (False, _, s) \<Rightarrow> boot_primary s) of
           None \<Rightarrow> None
         | Some (boothdr, s) \<Rightarrow> Some (boothdr, boot_entries boothdr s))"

end
