(* ===== verification/Boot_Proofs.thy ===== *)
theory Boot_Proofs
  imports Boot
begin

text \<open>
  Correctness of booting: the CRC separates messages that differ in one byte, little-endian loads
  and stores fit together, and a table that was written back is a valid, younger table that
  differs from the old one in the switched entry.
\<close>

section \<open>The CRC\<close>

lemma crc_bit_parity: "crc_bit c = (if odd c then drop_bit 1 c XOR 0xEDB88320 else drop_bit 1 c)"
proof (cases "odd c")
  case True
  then have "c mod 2 = 1" by (simp add: odd_iff_mod_2_eq_one)
  then show ?thesis using True by (simp add: crc_bit_def and_one_eq)
next
  case False
  then have "c mod 2 = 0" by (simp add: even_iff_mod_2_eq_zero)
  then show ?thesis using False by (simp add: crc_bit_def and_one_eq)
qed

lemma crc_bit_top: "bit (crc_bit c) 31 = odd c"
proof -
  have "\<not> bit (drop_bit 1 c) 31" by (auto simp: bit_simps dest: bit_imp_le_length)
  then show ?thesis by (simp add: crc_bit_parity bit_xor_iff)
qed

lemma odd_drop_bit_eqI:
  fixes c d :: u32
  assumes "odd c = odd d" and "drop_bit 1 c = drop_bit 1 d"
  shows "c = d"
proof (rule bit_word_eqI)
  fix n
  show "bit c n = bit d n"
  proof (cases n)
    case 0
    then show ?thesis using assms(1) by (simp add: bit_0)
  next
    case (Suc m)
    then show ?thesis using arg_cong [OF assms(2), of "\<lambda>x. bit x m"] by (simp add: bit_drop_bit_eq)
  qed
qed

lemma crc_bit_inj: "inj crc_bit"
proof (rule injI)
  fix c d assume eq: "crc_bit c = crc_bit d"
  then have par: "odd c = odd d" using crc_bit_top [of c] crc_bit_top [of d] by simp
  moreover have "drop_bit 1 c = drop_bit 1 d"
    using eq par unfolding crc_bit_parity by (auto dest: arg_cong [where f = "\<lambda>x. x XOR 0xEDB88320"] simp: xor.assoc split: if_splits)
  ultimately show "c = d" by (rule odd_drop_bit_eqI)
qed

lemma xor_cancel: "(a XOR c = b XOR c) = (a = b)" "(c XOR a = c XOR b) = (a = b)" for a b c :: "'a::len word"
proof -
  have "(a XOR c) XOR c = a" "(b XOR c) XOR c = b" by (simp_all add: xor.assoc)
  then show "(a XOR c = b XOR c) = (a = b)" by metis
  then show "(c XOR a = c XOR b) = (a = b)" by (simp add: xor.commute)
qed

lemma crc_byte_inj: "crc_byte b c = crc_byte b d \<longleftrightarrow> c = d" "crc_byte a c = crc_byte b c \<longleftrightarrow> a = b"
proof -
  have "inj (crc_bit ^^ 8)" using crc_bit_inj by (rule inj_fn)
  then have pow: "(crc_bit ^^ 8) x = (crc_bit ^^ 8) y \<longleftrightarrow> x = y" for x y by (simp add: inj_eq)
  show "crc_byte b c = crc_byte b d \<longleftrightarrow> c = d" unfolding crc_byte_def pow by (simp add: xor_cancel)
  have "ucast (ucast x :: u32) = x" for x :: u8 by (simp add: ucast_ucast_same)
  then have "ucast a = (ucast b :: u32) \<longleftrightarrow> a = b" by metis
  then show "crc_byte a c = crc_byte b c \<longleftrightarrow> a = b" unfolding crc_byte_def pow xor_cancel(2) .
qed

lemma crc_fold_inj: "fold crc_byte data c = fold crc_byte data d \<longleftrightarrow> c = d"
  by (induction data arbitrary: c d) (simp_all add: crc_byte_inj)

lemma crc32_one_byte:
  assumes "a \<noteq> b"
  shows "bl808_bootheader_crc32 (xs @ a # ys) \<noteq> bl808_bootheader_crc32 (xs @ b # ys)"
  using assms by (simp add: bl808_bootheader_crc32_def crc_fold_inj crc_byte_inj) 

section \<open>Byte arrays\<close>

lemma length_byte_range [simp]: "length (byte_range f off n) = n"
  by (simp add: byte_range_def)

lemma byte_range_cong: "(\<And>i. off \<le> i \<Longrightarrow> i < off + n \<Longrightarrow> f i = g i) \<Longrightarrow> byte_range f off n = byte_range g off n"
  by (simp add: byte_range_def)

lemma byte_range_split:
  assumes "k < n"
  shows "byte_range f off n = byte_range f off k @ f (off + k) # byte_range f (off + k + 1) (n - k - 1)"
proof -
  have "[off..<off + n] = [off..<off + k] @ [off + k..<off + n]" using upt_add_eq_append [of off "off + k" "n - k"] assms by simp
  moreover have "[off + k..<off + n] = (off + k) # [off + k + 1..<off + n]" using assms by (simp add: upt_conv_Cons)
  ultimately show ?thesis using assms by (simp add: byte_range_def)
qed

lemma byte_range_upd:
  assumes "k < n"
  shows "byte_range (f(off + k := v)) off n = byte_range f off k @ v # byte_range f (off + k + 1) (n - k - 1)"
  unfolding byte_range_split [OF assms] using byte_range_cong [of off k "f(off + k := v)" f]
    byte_range_cong [of "off + k + 1" "n - k - 1" "f(off + k := v)" f] by simp

lemma ldl_cong: "(\<And>i. off \<le> i \<Longrightarrow> i < off + 4 \<Longrightarrow> f i = g i) \<Longrightarrow> ldl_le_p f off = ldl_le_p g off"
  by (simp add: ldl_le_p_def)

lemma lduw_cong: "(\<And>i. off \<le> i \<Longrightarrow> i < off + 2 \<Longrightarrow> f i = g i) \<Longrightarrow> lduw_le_p f off = lduw_le_p g off"
  by (simp add: lduw_le_p_def)

lemma ldl_stl [simp]: "ldl_le_p (stl_le_p off v f) off = v"
proof -
  have "ucast (ucast v :: u8) OR push_bit 8 (ucast (ucast (drop_bit 8 v) :: u8)) OR push_bit 16 (ucast (ucast (drop_bit 16 v) :: u8)) OR
      push_bit 24 (ucast (ucast (drop_bit 24 v) :: u8)) = v"
  proof (rule bit_word_eqI)
    fix n assume n: "n < LENGTH(32)"
    consider "n < 8" | "8 \<le> n \<and> n < 16" | "16 \<le> n \<and> n < 24" | "24 \<le> n" by linarith
    then show "bit (ucast (ucast v :: u8) OR push_bit 8 (ucast (ucast (drop_bit 8 v) :: u8)) OR
        push_bit 16 (ucast (ucast (drop_bit 16 v) :: u8)) OR push_bit 24 (ucast (ucast (drop_bit 24 v) :: u8)) :: u32) n = bit v n"
      using n by cases (auto simp: bit_simps)
  qed
  then show ?thesis unfolding ldl_le_p_def stl_le_p_def by simp
qed

lemma stl_other: "i < off \<or> off + 4 \<le> i \<Longrightarrow> stl_le_p off v f i = f i"
  by (auto simp: stl_le_p_def)

lemma memcpy_to_in: "i < n \<Longrightarrow> memcpy_to off src n dst (off + i) = src i"
  by (simp add: memcpy_to_def)

lemma memcpy_to_out: "i < off \<or> off + n \<le> i \<Longrightarrow> memcpy_to off src n dst i = dst i"
  by (auto simp: memcpy_to_def)

section \<open>Headers\<close>

lemma unat_bound_check:
  fixes off len lim :: u32
  assumes "\<not> off + len > lim" and "unat off < unat lim" and "unat lim + unat len < 2 ^ 32"
  shows "unat off + unat len \<le> unat lim"
proof -
  have "unat off + unat len < 2 ^ LENGTH(32)" using assms by simp
  then have "unat (off + len) = unat off + unat len" by (rule unat_add_small)
  then show ?thesis using assms(1) by (simp add: word_less_unat)
qed

lemma header_read_cong:
  assumes "\<And>i. unat off \<le> i \<Longrightarrow> i < unat off + 352 \<Longrightarrow> g i = f i"
  shows "bl808_bootheader_read g off = bl808_bootheader_read f off"
proof -
  have raw: "ptr_at g (unat off) i = ptr_at f (unat off) i" if "i < 352" for i using assms that by (simp add: ptr_at_def)
  have ldl: "ldl_le_p (ptr_at g (unat off)) a = ldl_le_p (ptr_at f (unat off)) a" if "a + 4 \<le> 352" for a
    using raw that by (intro ldl_cong) simp
  have crc: "byte_range (ptr_at g (unat off)) 0 0x15C = byte_range (ptr_at f (unat off)) 0 0x15C"
    using raw by (intro byte_range_cong) simp
  have "bootheader_fields (ptr_at g (unat off)) off = bootheader_fields (ptr_at f (unat off)) off"
    unfolding bootheader_fields_def using raw ldl by (simp add: upt_conv_Cons)
  then show ?thesis unfolding bl808_bootheader_read_def Let_def crc by (simp add: ldl)
qed

lemma header_read_flash_offset: "bl808_bootheader_read f off = Some (True, info) \<Longrightarrow> flash_offset info = off"
  by (auto simp: bl808_bootheader_read_def Let_def bootheader_fields_def split: if_splits)

section \<open>A table that is written back\<close>

text \<open>The bytes of a table that the switch of entry \<open>i\<close> may change.\<close>

definition switched_at :: "nat \<Rightarrow> nat \<Rightarrow> nat \<Rightarrow> bool" where
  "switched_at count i j \<longleftrightarrow> j = 0x10 + i * 36 + 2 \<or> (0x10 + i * 36 + 32 \<le> j \<and> j < 0x10 + i * 36 + 36) \<or> (8 \<le> j \<and> j < 16) \<or>
     (0x10 + count * 36 \<le> j \<and> j < 0x10 + count * 36 + 4)"

lemma switched_other: "\<not> switched_at count i j \<Longrightarrow> switched_table t count i a j = t j"
  unfolding switched_table_def Let_def switched_at_def by (subst stl_other, force)+ simp

lemma switched_active: "i < count \<Longrightarrow> switched_table t count i a (0x10 + i * 36 + 2) = a"
  unfolding switched_table_def Let_def by (subst stl_other, force)+ simp

lemma switched_valid:
  assumes valid: "bl808_partition_table_valid t = Some (age, count)" and i: "i < unat count" and t'_def: "t' = switched_table t (unat count) i a"
  shows "bl808_partition_table_valid t' = Some (age + 1, count)"
proof -
  let ?n = "unat count" and ?tail = "0x10 + unat count * 36"
  have old: "lduw_le_p t 6 = count" "ldl_le_p t 0 = PT_MAGIC_CODE" "\<not> count > 16" "ldl_le_p t 8 = age"
    using valid by (auto simp: bl808_partition_table_valid_def Let_def split: if_splits)
  define t1 where "t1 = stl_le_p (0x10 + i * 36 + 32) (ldl_le_p (t(0x10 + i * 36 + 2 := a)) (0x10 + i * 36 + 32) + 1) (t(0x10 + i * 36 + 2 := a))"
  define t2 where "t2 = stl_le_p 8 (ldl_le_p t1 8 + 1) t1"
  define t3 where "t3 = stl_le_p 12 (bl808_bootheader_crc32 (byte_range t2 0 12)) t2"
  have t': "t' = stl_le_p ?tail (bl808_bootheader_crc32 (byte_range t3 0x10 (?n * 36))) t3"
    by (simp add: t'_def switched_table_def t1_def t2_def t3_def Let_def)
  have same: "t' j = t j" if "j < 8" for j unfolding t'_def using that i by (intro switched_other) (auto simp: switched_at_def)
  have low: "t' j = t3 j" if "j < ?tail" for j using that by (simp add: t' stl_other)
  have "ldl_le_p t' 0 = PT_MAGIC_CODE" "lduw_le_p t' 6 = count" using old same ldl_cong [of 0 t' t] lduw_cong [of 6 t' t] by simp_all
  moreover have "ldl_le_p t' 8 = age + 1"
  proof -
    have "ldl_le_p t1 8 = ldl_le_p t 8" by (rule ldl_cong) (simp add: t1_def stl_other)
    then have "ldl_le_p t2 8 = age + 1" using old(4) by (simp add: t2_def)
    moreover have "ldl_le_p t' 8 = ldl_le_p t2 8" using i by (intro ldl_cong) (simp add: low t3_def stl_other)
    ultimately show ?thesis by simp
  qed
  moreover have "bl808_bootheader_crc32 (byte_range t' 0 12) = ldl_le_p t' 0x0C"
  proof -
    have "byte_range t' 0 12 = byte_range t2 0 12" by (rule byte_range_cong) (simp add: low t3_def stl_other)
    moreover have "ldl_le_p t' 12 = ldl_le_p t3 12" by (rule ldl_cong) (simp add: low)
    ultimately show ?thesis by (simp add: t3_def)
  qed
  moreover have "bl808_bootheader_crc32 (byte_range t' 0x10 (?n * 36)) = ldl_le_p t' ?tail"
  proof -
    have "byte_range t' 0x10 (?n * 36) = byte_range t3 0x10 (?n * 36)" by (rule byte_range_cong) (simp add: low)
    then show ?thesis by (simp add: t')
  qed
  ultimately show ?thesis using old(3) by (simp add: bl808_partition_table_valid_def Let_def)
qed

section \<open>The loop over the entries\<close>

definition pt_entry :: "bytes \<Rightarrow> u32 \<Rightarrow> nat \<Rightarrow> bytes" where
  "pt_entry f off i = ptr_at (ptr_at f (unat off)) (0x10 + i * 36)"

abbreviation (input) slot_of :: "bytes \<Rightarrow> u8" where
  "slot_of entry \<equiv> entry 2 AND 1"

text \<open>An entry that is passed over, and one that leads to a fallback.\<close>

definition entry_rejected :: "bytes \<Rightarrow> bytes \<Rightarrow> bool" where
  "entry_rejected f e \<longleftrightarrow> \<not> is_firmware_entry e \<or>
     (\<exists>x y. bl808_partition_entry_bootheader f e (slot_of e) = Some (False, x) \<and>
            bl808_partition_entry_bootheader f e (slot_of e XOR 1) = Some (False, y))"

definition entry_falls_back :: "bytes \<Rightarrow> bytes \<Rightarrow> BL808BootHeaderInfo \<Rightarrow> bool" where
  "entry_falls_back f e cand \<longleftrightarrow> is_firmware_entry e \<and>
     (\<exists>x. bl808_partition_entry_bootheader f e (slot_of e) = Some (False, x)) \<and>
     bl808_partition_entry_bootheader f e (slot_of e XOR 1) = Some (True, cand)"

lemma select_entries_skip:
  assumes "\<forall>k \<in> set ys. entry_rejected f (pt_entry f (offs ! selected_copy sel) k)"
  shows "select_entries f offs sel commit (ys @ zs) = select_entries f offs sel commit zs"
  using assms by (induction ys) (auto simp: entry_rejected_def pt_entry_def Let_def)

definition fallback_result ::
    "bytes \<Rightarrow> u32 list \<Rightarrow> pt_choice \<Rightarrow> bool \<Rightarrow> nat \<Rightarrow> BL808BootHeaderInfo \<Rightarrow> BL808PartitionInfo \<times> bytes" where
  "fallback_result f offs sel commit i cand =
     (let e = pt_entry f (offs ! selected_copy sel) i; slot = slot_of e XOR 1;
          f' = (if commit then bl808_partition_table_writeback (ptr_at f (unat (offs ! selected_copy sel))) (selected_entries sel) (of_nat i) slot
                  (offs ! (1 - selected_copy sel)) f
                else f)
      in (partition_result offs sel (pt_entry f' (offs ! selected_copy sel) i) i slot True cand, f'))"

lemma select_entry_fallback:
  assumes "\<not> entry_rejected f (pt_entry f (offs ! selected_copy sel) i)"
    and "select_entries f offs sel commit (i # xs) = Some (True, info, f')" and "fallback_applied info"
  shows "\<exists>cand. entry_falls_back f (pt_entry f (offs ! selected_copy sel) i) cand \<and> (info, f') = fallback_result f offs sel commit i cand"
proof -
  let ?e = "pt_entry f (offs ! selected_copy sel) i"
  have fw: "is_firmware_entry ?e" using assms(1) by (simp add: entry_rejected_def)
  obtain a x where a: "bl808_partition_entry_bootheader f ?e (slot_of ?e) = Some (a, x)"
    using assms(2) fw by (cases "bl808_partition_entry_bootheader f ?e (slot_of ?e)") (auto simp: pt_entry_def Let_def)
  have "\<not> a" using assms(2,3) fw a by (auto simp: pt_entry_def Let_def partition_result_def)
  then obtain b y where b: "bl808_partition_entry_bootheader f ?e (slot_of ?e XOR 1) = Some (b, y)"
    using assms(2) fw a by (cases "bl808_partition_entry_bootheader f ?e (slot_of ?e XOR 1)") (auto simp: pt_entry_def Let_def)
  have "b" using assms(1) a b \<open>\<not> a\<close> by (auto simp: entry_rejected_def)
  then show ?thesis
    using assms(2) fw a b \<open>\<not> a\<close> by (auto simp: entry_falls_back_def fallback_result_def pt_entry_def Let_def)
qed

lemma select_entries_fallback:
  assumes "select_entries f offs sel commit xs = Some (True, info, f')" and "fallback_applied info"
  shows "\<exists>ys i zs cand. xs = ys @ i # zs \<and> (\<forall>k \<in> set ys. entry_rejected f (pt_entry f (offs ! selected_copy sel) k)) \<and>
    entry_falls_back f (pt_entry f (offs ! selected_copy sel) i) cand \<and> (info, f') = fallback_result f offs sel commit i cand"
  using assms(1)
proof (induction xs)
  case (Cons i xs)
  show ?case
  proof (cases "entry_rejected f (pt_entry f (offs ! selected_copy sel) i)")
    case True
    then have "select_entries f offs sel commit xs = Some (True, info, f')"
      using Cons.prems select_entries_skip [of "[i]" f offs sel commit xs] by simp
    from Cons.IH [OF this] obtain ys j zs cand where
      "xs = ys @ j # zs" "\<forall>k \<in> set ys. entry_rejected f (pt_entry f (offs ! selected_copy sel) k)"
      "entry_falls_back f (pt_entry f (offs ! selected_copy sel) j) cand" "(info, f') = fallback_result f offs sel commit j cand" by blast
    then show ?thesis using True by (intro exI [of _ "i # ys"]) auto
  next
    case False
    from select_entry_fallback [OF False Cons.prems assms(2)] show ?thesis by (intro exI [of _ "[]"]) auto
  qed
qed simp

section \<open>The fallback is kept\<close>

text \<open>
  The copy that is written back lies in the flash, apart from the copy in use and from the headers
  that its entries name.
\<close>

definition pt_separate :: "bytes \<Rightarrow> BL808PartitionInfo \<Rightarrow> bool" where
  "pt_separate f info \<longleftrightarrow>
     (let o1 = unat (table_flash_offset info); w = unat (writeback_flash_offset info) in
      w + 596 \<le> unat FLASH_SIZE \<and> (o1 + 596 \<le> w \<or> w + 596 \<le> o1) \<and>
      (\<forall>k < unat (entry_count info). \<forall>slot < 2.
         let h = unat (ldl_le_p (pt_entry f (table_flash_offset info) k) (12 + slot * 4)) in h = 0 \<or> h + 352 \<le> w \<or> w + 596 \<le> h))"

text \<open>Entries that differ at most in the active slot and the age.\<close>

definition same_entry :: "bytes \<Rightarrow> bytes \<Rightarrow> bool" where
  "same_entry e e' \<longleftrightarrow> e' 0 = e 0 \<and> (\<forall>j. 3 \<le> j \<and> j < 20 \<longrightarrow> e' j = e j)"

lemma same_entry_firmware: "same_entry e e' \<Longrightarrow> (e 2 > 1 \<longleftrightarrow> e' 2 > 1) \<Longrightarrow> is_firmware_entry e' = is_firmware_entry e"
  using byte_range_cong [of 3 9 e' e] by (simp add: is_firmware_entry_def same_entry_def)

lemma same_entry_bootheader:
  assumes same: "same_entry e e'" and slot: "slot \<le> 1"
    and reads: "\<And>off. off = ldl_le_p e (12 + unat slot * 4) \<Longrightarrow> off \<noteq> 0 \<Longrightarrow> bl808_bootheader_read f' off = bl808_bootheader_read f off"
  shows "bl808_partition_entry_bootheader f' e' slot = bl808_partition_entry_bootheader f e slot"
proof -
  have "unat slot \<le> 1" using slot by (simp add: word_le_unat)
  then have "ldl_le_p e' (12 + unat slot * 4) = ldl_le_p e (12 + unat slot * 4)"
    using same by (intro ldl_cong) (simp add: same_entry_def)
  then show ?thesis using reads by (simp add: bl808_partition_entry_bootheader_def Let_def)
qed

lemma slot_le: "slot_of e \<le> 1" "slot_of e XOR 1 \<le> 1" "(slot_of e XOR 1) AND 1 = slot_of e XOR 1"
proof -
  have "slot_of e = 0 \<or> slot_of e = 1" by (cases "odd (e 2)") (simp_all add: and_one_eq odd_iff_mod_2_eq_one even_iff_mod_2_eq_zero)
  then show "slot_of e \<le> 1" "slot_of e XOR 1 \<le> 1" "(slot_of e XOR 1) AND 1 = slot_of e XOR 1" by auto
qed

lemma table_valid_cong:
  assumes "\<And>j. j < 596 \<Longrightarrow> g j = f j"
  shows "bl808_partition_table_valid g = bl808_partition_table_valid f"
proof -
  have ldl: "ldl_le_p g a = ldl_le_p f a" if "a + 4 \<le> 596" for a using assms that by (intro ldl_cong) simp
  have w: "lduw_le_p g 6 = lduw_le_p f 6" using assms by (intro lduw_cong) simp
  have range: "byte_range g a n = byte_range f a n" if "a + n \<le> 596" for a n using assms that by (intro byte_range_cong) simp
  show ?thesis
  proof (cases "lduw_le_p f 6 > 16")
    case True
    then show ?thesis unfolding bl808_partition_table_valid_def Let_def w by simp
  next
    case False
    then have "unat (lduw_le_p f 6) * 36 + 20 \<le> 596" by (simp add: word_less_unat)
    then show ?thesis unfolding bl808_partition_table_valid_def Let_def w by (simp add: ldl range)
  qed
qed

lemma table_valid_count: "bl808_partition_table_valid t = Some (age, count) \<Longrightarrow> unat count \<le> 16"
  by (auto simp: bl808_partition_table_valid_def Let_def word_less_unat split: if_splits)

lemma select_two:
  assumes "select_copies f [(0, o0), (1, o1)] None = Some sel"
  shows "selected_copy sel \<le> 1 \<and> \<not> [o0, o1] ! selected_copy sel + 596 > FLASH_SIZE \<and>
    bl808_partition_table_valid (ptr_at f (unat ([o0, o1] ! selected_copy sel))) = Some (selected_age sel, selected_entries sel)"
  using assms by (auto split: if_splits option.splits)

lemma select_younger:
  assumes "c \<le> 1" and "\<not> offs ! c + 596 > FLASH_SIZE" "\<not> offs ! (1 - c) + 596 > FLASH_SIZE"
    and "bl808_partition_table_valid (ptr_at f (unat (offs ! c))) = Some (age, m)"
    and "bl808_partition_table_valid (ptr_at f (unat (offs ! (1 - c)))) = Some (age', n)" and "age < age'"
  shows "select_copies f [(0, offs ! 0), (1, offs ! 1)] None = Some \<lparr>selected_copy = 1 - c, selected_age = age', selected_entries = n\<rparr>"
proof -
  have "c = 0 \<or> c = 1" using assms(1) by auto
  then show ?thesis using assms(2-6) by auto
qed

lemma word_less_Suc: "age \<noteq> - 1 \<Longrightarrow> age < age + 1" for age :: u32
proof -
  assume "age \<noteq> - 1"
  then have "unat age \<noteq> unat (- 1 :: u32)" using unsigned_word_eqI [where 'a = nat, of age "- 1"] by blast
  then have "unat age < 4294967295" using unat32_lt [of age] unfolding unat_minus_1_u32 by linarith
  then show "age < age + 1" by (simp add: word_less_unat unat_add_small)
qed

text \<open>What a committed fallback leaves in the flash.\<close>

lemma fallback_flash:
  assumes sep: "pt_separate f info" and res: "(info, f') = fallback_result f offs sel True i cand"
    and valid: "bl808_partition_table_valid (ptr_at f (unat (offs ! selected_copy sel))) = Some (age, selected_entries sel)"
    and i: "i < unat (selected_entries sel)"
  shows "\<not> offs ! (1 - selected_copy sel) + 596 > FLASH_SIZE \<and>
    (\<forall>j < 596. ptr_at f' (unat (offs ! (1 - selected_copy sel))) j = switched_table (ptr_at f (unat (offs ! selected_copy sel)))
      (unat (selected_entries sel)) i (slot_of (pt_entry f (offs ! selected_copy sel) i) XOR 1) j) \<and>
    (\<forall>j. j < unat (offs ! (1 - selected_copy sel)) \<or> unat (offs ! (1 - selected_copy sel)) + 596 \<le> j \<longrightarrow> f' j = f j)"
proof -
  let ?w = "offs ! (1 - selected_copy sel)" and ?n = "selected_entries sel"
  have info: "writeback_flash_offset info = ?w" using res by (simp add: fallback_result_def partition_result_def Let_def)
  have fits: "unat ?w + 596 \<le> 16777216" using sep by (simp add: pt_separate_def info Let_def)
  then have "unat (?w + 596) = unat ?w + 596" by (subst unat_add_small) simp_all
  then have in_flash: "\<not> ?w + 596 > FLASH_SIZE" "\<not> ?w \<ge> FLASH_SIZE" using fits by (simp_all add: word_less_unat word_le_unat)
  have "unat (of_nat i :: u16) = i" using i table_valid_count [OF valid] by (simp add: unat_of_nat_small)
  then have f': "f' = memcpy_to (unat ?w) (switched_table (ptr_at f (unat (offs ! selected_copy sel))) (unat ?n) i
      (slot_of (pt_entry f (offs ! selected_copy sel) i) XOR 1)) 596 f"
    using res i table_valid_count [OF valid] in_flash
    by (simp add: fallback_result_def bl808_partition_table_writeback_def bl808_sf_ctrl_write_flash_def Let_def word_le_unat)
  then show ?thesis using in_flash by (simp add: ptr_at_def memcpy_to_in memcpy_to_out)
qed

end
