(* ===== verification/Boot_Props.thy ===== *)
theory Boot_Props
  imports Boot_Proofs
begin

text \<open>The properties of booting from flash.\<close>

section \<open>The second boot after a fallback\<close>

lemma separate_header:
  assumes "pt_separate f info" and "k < unat (entry_count info)" and "slot < 2"
    and "off = ldl_le_p (pt_entry f (table_flash_offset info) k) (12 + slot * 4)" and "off \<noteq> 0"
  shows "unat off + 352 \<le> unat (writeback_flash_offset info) \<or> unat (writeback_flash_offset info) + 596 \<le> unat off"
proof -
  have "\<forall>k < unat (entry_count info). \<forall>slot < 2. let h = unat (ldl_le_p (pt_entry f (table_flash_offset info) k) (12 + slot * 4)) in
      h = 0 \<or> h + 352 \<le> unat (writeback_flash_offset info) \<or> unat (writeback_flash_offset info) + 596 \<le> h"
    using assms(1) unfolding pt_separate_def Let_def by (elim conjE)
  from this [rule_format, OF assms(2,3)] show ?thesis using assms(4,5) by (simp add: Let_def unat_eq_0)
qed

lemma entry_not_switched:
  assumes "k < count" and "j = 0 \<or> 3 \<le> j \<and> j < 20 \<or> j = 2 \<and> k \<noteq> i"
  shows "\<not> switched_at count i (0x10 + k * 36 + j)"
proof -
  consider "k < i" | "k = i" | "i < k" by linarith
  then show ?thesis using assms by cases (auto simp: switched_at_def dest!: less_imp_Suc_add)
qed

text \<open>The entries of the copy that was written back, and the headers they name.\<close>

lemma entries_after_fallback:
  assumes sep: "pt_separate f info" and res: "(info, f') = fallback_result f offs sel True i cand"
    and valid: "bl808_partition_table_valid (ptr_at f (unat (offs ! selected_copy sel))) = Some (age, selected_entries sel)"
    and i: "i < unat (selected_entries sel)" and k: "k < unat (selected_entries sel)"
    and e: "e = pt_entry f (offs ! selected_copy sel) k" and e': "e' = pt_entry f' (offs ! (1 - selected_copy sel)) k"
  shows "same_entry e e'" and "e' 2 = (if k = i then slot_of e XOR 1 else e 2)"
    and "slot \<le> 1 \<Longrightarrow> bl808_partition_entry_bootheader f' e' slot = bl808_partition_entry_bootheader f e slot"
proof -
  let ?w = "offs ! (1 - selected_copy sel)" and ?n = "unat (selected_entries sel)"
  note flash = fallback_flash [OF sep res valid i]
  have n: "?n \<le> 16" by (rule table_valid_count [OF valid])
  have e'_eq: "e' j = switched_table (ptr_at f (unat (offs ! selected_copy sel))) ?n i (slot_of (pt_entry f (offs ! selected_copy sel) i) XOR 1)
      (0x10 + k * 36 + j)" if "j < 36" for j
    using flash that k n by (simp add: e' pt_entry_def ptr_at_def add.assoc)
  have e_eq: "e j = ptr_at f (unat (offs ! selected_copy sel)) (0x10 + k * 36 + j)" for j by (simp add: e pt_entry_def ptr_at_def)
  have keep: "e' j = e j" if "j = 0 \<or> 3 \<le> j \<and> j < 20 \<or> j = 2 \<and> k \<noteq> i" for j
    using e'_eq [of j] that entry_not_switched [OF k that] e_eq [of j] by (auto simp: switched_other)
  then show same: "same_entry e e'" by (simp add: same_entry_def)
  show "e' 2 = (if k = i then slot_of e XOR 1 else e 2)"
    using keep [of 2] e'_eq [of 2] switched_active [OF i] by (simp add: e)
  have info: "table_flash_offset info = offs ! selected_copy sel" "writeback_flash_offset info = ?w" "entry_count info = selected_entries sel"
    using res by (simp_all add: fallback_result_def partition_result_def Let_def)
  assume slot: "slot \<le> 1"
  show "bl808_partition_entry_bootheader f' e' slot = bl808_partition_entry_bootheader f e slot"
  proof (rule same_entry_bootheader [OF same slot])
    fix off assume off: "off = ldl_le_p e (12 + unat slot * 4)" "off \<noteq> 0"
    have "unat slot < 2" using slot by (simp add: word_le_unat)
    then have "unat off + 352 \<le> unat ?w \<or> unat ?w + 596 \<le> unat off"
      using separate_header [OF sep _ _ _ off(2), of k "unat slot"] k off(1) by (simp add: info e)
    then show "bl808_bootheader_read f' off = bl808_bootheader_read f off" using flash by (intro header_read_cong) auto
  qed
qed

lemma upt_split: "[0..<n] = ys @ i # zs \<Longrightarrow> i < n \<and> set ys = {0..<i}" for i :: nat
proof -
  assume eq: "[0..<n] = ys @ i # zs"
  have len: "length ys < n" using arg_cong [OF eq, of length] by simp
  have "i = length ys" using arg_cong [OF eq, of "\<lambda>xs. xs ! length ys"] len by simp
  moreover have "ys = [0..<length ys]" using arg_cong [OF eq, of "take (length ys)"] len by (simp add: take_upt)
  ultimately show "i < n \<and> set ys = {0..<i}" using len by (metis atLeastLessThan_upt)
qed

text \<open>The loop over the entries of the copy that was written back.\<close>

lemma select_after_fallback:
  assumes sep: "pt_separate f info" and res: "(info, f') = fallback_result f offs sel True i cand"
    and valid: "bl808_partition_table_valid (ptr_at f (unat (offs ! selected_copy sel))) = Some (age, selected_entries sel)"
    and split: "[0..<unat (selected_entries sel)] = ys @ i # zs"
    and rej: "\<forall>k \<in> set ys. entry_rejected f (pt_entry f (offs ! selected_copy sel) k)"
    and fb: "entry_falls_back f (pt_entry f (offs ! selected_copy sel) i) cand"
    and s: "s = \<lparr>selected_copy = 1 - selected_copy sel, selected_age = age', selected_entries = selected_entries sel\<rparr>"
  shows "select_entries f' offs s commit [0..<unat (selected_entries sel)] =
    Some (True, partition_result offs s (pt_entry f' (offs ! (1 - selected_copy sel)) i) i
      (slot_of (pt_entry f (offs ! selected_copy sel) i) XOR 1) False cand, f')"
proof -
  note i = upt_split [OF split, THEN conjunct1] and ys = upt_split [OF split, THEN conjunct2]
  let ?c = "selected_copy sel" and ?n = "unat (selected_entries sel)"
  let ?e = "\<lambda>k. pt_entry f (offs ! ?c) k" and ?e' = "\<lambda>k. pt_entry f' (offs ! (1 - ?c)) k"
  note after = entries_after_fallback [OF sep res valid i _ refl refl]
  have "entry_rejected f' (?e' k)" if "k < i" for k
    using rej that ys i after(1,2) [of k] after(3) [of k "slot_of (?e k)"] after(3) [of k "slot_of (?e k) XOR 1"] same_entry_firmware [of "?e k" "?e' k"]
    by (simp add: entry_rejected_def slot_le)
  then have skip: "select_entries f' offs s commit [0..<?n] = select_entries f' offs s commit (i # zs)"
    unfolding split using ys by (intro select_entries_skip) (simp add: s)
  have e2: "?e' i 2 = slot_of (?e i) XOR 1" using after(2) [OF i] by simp
  have fw: "is_firmware_entry (?e' i)"
    using same_entry_firmware [OF after(1) [OF i]] fb slot_le(2) [of "?e i"] e2 by (simp add: entry_falls_back_def is_firmware_entry_def leD)
  have bh: "bl808_partition_entry_bootheader f' (?e' i) (slot_of (?e i) XOR 1) = Some (True, cand)"
    using after(3) [OF i slot_le(2)] fb by (simp add: entry_falls_back_def)
  show ?thesis unfolding skip using fw bh e2 slot_le(3) [of "?e i"] by (simp add: pt_entry_def Let_def s)
qed

section \<open>Properties\<close>

text \<open>
  C10. A switch to the spare firmware slot is kept.  When the active slot of a firmware entry does not
  boot and the machine falls back to the spare slot, the partition table it writes back is a valid
  and younger copy: the next boot chooses that copy, finds the same header through the same entry
  without falling back, and writes nothing.  The copies and the headers must not overlap, and the
  age must not be the largest one.
\<close>

theorem boot_fallback_kept:
  assumes select: "bl808_select_partition_header f boot2 True = Some (True, info, f')" and fallback: "fallback_applied info"
    and sep: "pt_separate f info"
    and age: "bl808_partition_table_valid (ptr_at f (unat (table_flash_offset info))) = Some (age, n)" "age \<noteq> - 1"
  shows "\<exists>info'. bl808_select_partition_header f' boot2 commit = Some (True, info', f') \<and> \<not> fallback_applied info' \<and>
    header_flash_offset info' = header_flash_offset info \<and> entry_index info' = entry_index info \<and>
    active_index info' = active_index info \<and> table_flash_offset info' = writeback_flash_offset info \<and>
    bl808_partition_table_valid (ptr_at f' (unat (table_flash_offset info'))) = Some (age + 1, n)"
proof -
  define offs where "offs = pt_offsets boot2"
  obtain sel where sel: "select_copies f [(0, offs ! 0), (1, offs ! 1)] None = Some sel"
    and entries: "select_entries f offs sel True [0..<unat (selected_entries sel)] = Some (True, info, f')"
    using select unfolding bl808_select_partition_header_def offs_def by (auto simp: Let_def split: option.splits)
  let ?c = "selected_copy sel" and ?n = "unat (selected_entries sel)"
  have offs2: "[offs ! 0, offs ! 1] = offs" by (simp add: offs_def pt_offsets_def)
  note two = select_two [OF sel, unfolded offs2]
  obtain ys i zs cand where split: "[0..<?n] = ys @ i # zs"
    and rej: "\<forall>k \<in> set ys. entry_rejected f (pt_entry f (offs ! ?c) k)"
    and fb: "entry_falls_back f (pt_entry f (offs ! ?c) i) cand" and res: "(info, f') = fallback_result f offs sel True i cand"
    using select_entries_fallback [OF entries fallback] by blast
  note i = upt_split [OF split, THEN conjunct1]
  have info: "info = partition_result offs sel (pt_entry f' (offs ! ?c) i) i (slot_of (pt_entry f (offs ! ?c) i) XOR 1) True cand"
    using res by (auto simp: fallback_result_def Let_def)
  then have off: "table_flash_offset info = offs ! ?c" by (simp add: partition_result_def)
  then have age_eq: "selected_age sel = age" "selected_entries sel = n" using two age(1) by simp_all
  have valid: "bl808_partition_table_valid (ptr_at f (unat (offs ! ?c))) = Some (age, selected_entries sel)" using two age_eq by simp
  note flash = fallback_flash [OF sep res valid i]
  have v_new: "bl808_partition_table_valid (ptr_at f' (unat (offs ! (1 - ?c)))) = Some (age + 1, selected_entries sel)"
    using table_valid_cong [of "ptr_at f' (unat (offs ! (1 - ?c)))"] flash switched_valid [OF valid i refl] by simp
  have "unat (offs ! ?c) + 596 \<le> unat (offs ! (1 - ?c)) \<or> unat (offs ! (1 - ?c)) + 596 \<le> unat (offs ! ?c)"
    using sep info by (simp add: pt_separate_def partition_result_def Let_def)
  then have v_old: "bl808_partition_table_valid (ptr_at f' (unat (offs ! ?c))) = Some (age, selected_entries sel)"
    using valid flash table_valid_cong [of "ptr_at f' (unat (offs ! ?c))" "ptr_at f (unat (offs ! ?c))"] by (auto simp: ptr_at_def)
  let ?s = "\<lparr>selected_copy = 1 - ?c, selected_age = age + 1, selected_entries = selected_entries sel\<rparr>"
  have copies: "select_copies f' [(0, offs ! 0), (1, offs ! 1)] None = Some ?s"
    using select_younger [OF _ _ _ v_old v_new word_less_Suc [OF age(2)]] two flash by blast
  then have "bl808_select_partition_header f' boot2 commit =
      Some (True, partition_result offs ?s (pt_entry f' (offs ! (1 - ?c)) i) i (slot_of (pt_entry f (offs ! ?c) i) XOR 1) False cand, f')"
    using select_after_fallback [OF sep res valid split rej fb refl, of "age + 1" commit]
    unfolding bl808_select_partition_header_def offs_def [symmetric] Let_def by simp
  then show ?thesis using info v_new age_eq by (simp add: partition_result_def)
qed

text \<open>
  A table with one firmware entry, its checksums filled in, in the first copy; the entry names a
  header at 0x1000 that is not there and one at 0x2000.
\<close>

definition seal_table :: "nat \<Rightarrow> bytes \<Rightarrow> bytes" where
  "seal_table n t = (let t = stl_le_p 0x0C (bl808_bootheader_crc32 (byte_range t 0 12)) t
     in stl_le_p (0x10 + n * 36) (bl808_bootheader_crc32 (byte_range t 0x10 (n * 36))) t)"

lemma seal_table_valid:
  assumes "lduw_le_p t 6 = count" and "ldl_le_p t 0 = PT_MAGIC_CODE" and "\<not> count > 16"
  shows "bl808_partition_table_valid (seal_table (unat count) t) = Some (ldl_le_p t 8, count)"
proof -
  define t1 where "t1 = stl_le_p 12 (bl808_bootheader_crc32 (byte_range t 0 12)) t"
  let ?t = "seal_table (unat count) t"
  have seal: "?t = stl_le_p (0x10 + unat count * 36) (bl808_bootheader_crc32 (byte_range t1 0x10 (unat count * 36))) t1"
    by (simp add: seal_table_def t1_def Let_def)
  have low: "?t j = t1 j" if "j < 0x10 + unat count * 36" for j using that by (simp add: seal stl_other)
  have head: "?t j = t j" if "j < 12" for j using that by (simp add: low t1_def stl_other)
  have "lduw_le_p ?t 6 = count" "ldl_le_p ?t 0 = PT_MAGIC_CODE" "ldl_le_p ?t 8 = ldl_le_p t 8"
    using assms lduw_cong [of 6 ?t t] ldl_cong [of 0 ?t t] ldl_cong [of 8 ?t t] head by simp_all
  moreover have "byte_range ?t 0 12 = byte_range t 0 12" by (rule byte_range_cong) (simp add: head)
  moreover have "ldl_le_p ?t 12 = ldl_le_p t1 12" by (rule ldl_cong) (simp add: low)
  moreover have "byte_range ?t 0x10 (unat count * 36) = byte_range t1 0x10 (unat count * 36)" by (rule byte_range_cong) (simp add: low)
  moreover have "ldl_le_p ?t (0x10 + unat count * 36) = bl808_bootheader_crc32 (byte_range t1 0x10 (unat count * 36))"
    unfolding seal by (rule ldl_stl)
  ultimately show ?thesis using assms(3) by (simp add: bl808_partition_table_valid_def Let_def t1_def)
qed

definition example_table :: bytes where
  "example_table = seal_table 1 (stl_le_p 0 PT_MAGIC_CODE (stl_le_p 28 0x1000 (stl_le_p 32 0x2000 ((\<lambda>_. 0)(6 := 1, 8 := 5)))))"

definition example_header :: bytes where
  "example_header = stl_le_p 0 MAGIC_BFNP (stl_le_p 8 FLASH_CFG_MAGIC (stl_le_p 0x15C CRC_DEADBEEF (stl_le_p 0xBC 0x1800 ((\<lambda>_. 0)(0xB0 := 1)))))"

definition example_flash :: bytes where
  "example_flash = memcpy_to 0xE000 example_table 596 (memcpy_to 0x2000 example_header 352 (memcpy_to 0 example_header 352 (\<lambda>_. 0)))"

definition example_boot2 :: BL808BootHeaderInfo where
  "example_boot2 = bootheader_fields (ptr_at example_flash 0) 0"

lemma example_table_valid: "bl808_partition_table_valid (ptr_at example_flash 0xE000) = Some (5, 1)"
proof -
  have "bl808_partition_table_valid (ptr_at example_flash 0xE000) = bl808_partition_table_valid example_table"
    by (rule table_valid_cong) (simp add: example_flash_def ptr_at_def memcpy_to_in)
  also have "\<dots> = Some (5, 1)"
    using seal_table_valid [of "stl_le_p 0 PT_MAGIC_CODE (stl_le_p 28 0x1000 (stl_le_p 32 0x2000 ((\<lambda>_. 0)(6 := 1, 8 := 5))))" 1]
    by (simp add: example_table_def ldl_le_p_def lduw_le_p_def stl_le_p_def)
  finally show ?thesis .
qed

text \<open>Only the entry of the example table is read besides the checksums.\<close>

lemma example_entry:
  "pt_entry example_flash 0xE000 0 j = (if j = 12 + 1 then 0x10 else if j = 16 + 1 then 0x20 else 0)" if "j < 36"
proof -
  have "pt_entry example_flash 0xE000 0 j = example_table (0x10 + j)"
    using that by (simp add: pt_entry_def example_flash_def ptr_at_def memcpy_to_def)
  also have "\<dots> = stl_le_p 0 PT_MAGIC_CODE (stl_le_p 28 0x1000 (stl_le_p 32 0x2000 ((\<lambda>_. 0)(6 := 1, 8 := 5)))) (0x10 + j)"
    using that by (simp add: example_table_def seal_table_def Let_def stl_other)
  also have "\<dots> = (if j = 12 + 1 then 0x10 else if j = 16 + 1 then 0x20 else 0)"
    using that by (auto simp: stl_le_p_def)
  finally show ?thesis .
qed

lemma example_flash_far: "j < 0xE000 \<Longrightarrow> example_flash j = memcpy_to 0x2000 example_header 352 (memcpy_to 0 example_header 352 (\<lambda>_. 0)) j" "0xE000 + 596 \<le> j \<Longrightarrow> example_flash j = 0"
  by (simp_all add: example_flash_def memcpy_to_def)

lemma example_header_at:
  assumes "off = 0 \<or> off = 0x2000"
  shows "bl808_bootheader_read example_flash off = Some (True, bootheader_fields (ptr_at example_flash (unat off)) off)"
    "ptr_at example_flash (unat off) 0xB0 = 1" "ptr_at example_flash (unat off) 0xB1 = 0"
    "ldl_le_p (ptr_at example_flash (unat off)) 0xBC = 0x1800" "ldl_le_p (ptr_at example_flash (unat off)) 0xF4 = 0"
    "ldl_le_p (ptr_at example_flash (unat off)) 0xF8 = 0"
  using assms
  by (auto simp: bl808_bootheader_read_def ldl_le_p_def ptr_at_def example_flash_far memcpy_to_def example_header_def stl_le_p_def)

lemma example_header_fields:
  assumes "off = 0 \<or> off = 0x2000" and "info = bootheader_fields (ptr_at example_flash (unat off)) off"
  shows "cpu_enabled info ! 0" "\<not> cpu_halt info ! 0" "flash_offset info = off" "partition_table_offset info = [0, 0]"
    "cpu_image_offset info ! 0 = 0x1800" "hdr_valid info"
  using example_header_at [OF assms(1)] unfolding assms(2) by (simp_all add: bootheader_fields_def)

lemma example_headers:
  "bl808_bootheader_read example_flash 0x1000 = Some (False, zero_header)"
  "\<exists>info. bl808_bootheader_read example_flash 0x2000 = Some (True, info) \<and> cpu_enabled info ! 0 \<and> \<not> cpu_halt info ! 0 \<and>
     flash_offset info = 0x2000 \<and> cpu_image_offset info ! 0 = 0x1800"
proof -
  show "bl808_bootheader_read example_flash 0x1000 = Some (False, zero_header)"
    by (simp add: bl808_bootheader_read_def ldl_le_p_def ptr_at_def example_flash_far memcpy_to_def)
  show "\<exists>info. bl808_bootheader_read example_flash 0x2000 = Some (True, info) \<and> cpu_enabled info ! 0 \<and> \<not> cpu_halt info ! 0 \<and>
     flash_offset info = 0x2000 \<and> cpu_image_offset info ! 0 = 0x1800"
    using example_header_at(1) [of "0x2000"] example_header_fields [of "0x2000", OF _ refl] by simp
qed

lemma example_falls_back:
  "\<exists>info f'. bl808_select_partition_header example_flash example_boot2 True = Some (True, info, f') \<and> fallback_applied info \<and>
     header_flash_offset info = 0x2000 \<and> table_flash_offset info = 0xE000 \<and> writeback_flash_offset info = 0xF000 \<and> entry_count info = 1"
proof -
  let ?e = "pt_entry example_flash 0xE000 0"
  have offs: "pt_offsets example_boot2 = [0xE000, 0xF000]" 
    using example_header_fields(4) [of 0, OF _ refl] by (simp add: pt_offsets_def example_boot2_def)
  have "bl808_partition_table_valid (ptr_at example_flash 0xF000) = None"
    by (simp add: bl808_partition_table_valid_def ldl_le_p_def ptr_at_def example_flash_far)
  then have sel: "select_copies example_flash [(0, [0xE000, 0xF000] ! 0), (1, [0xE000, 0xF000] ! 1)] None = Some \<lparr>selected_copy = 0, selected_age = 5, selected_entries = 1\<rparr>"
    using example_table_valid by simp
  have loop: "bl808_select_partition_header example_flash example_boot2 True =
      select_entries example_flash [0xE000, 0xF000] \<lparr>selected_copy = 0, selected_age = 5, selected_entries = 1\<rparr> True [0]"
    by (simp only: bl808_select_partition_header_def offs Let_def sel option.case) simp
  have "is_firmware_entry ?e" by (simp add: is_firmware_entry_def example_entry)
  moreover have "bl808_partition_entry_bootheader example_flash ?e 0 = Some (False, zero_header)"
    using example_headers(1) by (simp add: bl808_partition_entry_bootheader_def ldl_le_p_def example_entry)
  moreover obtain cand where "bl808_partition_entry_bootheader example_flash ?e 1 = Some (True, cand)" "flash_offset cand = 0x2000"
    using example_headers(2) by (auto simp: bl808_partition_entry_bootheader_def ldl_le_p_def example_entry)
  moreover have "?e 2 = 0" by (simp add: example_entry)
  ultimately show ?thesis unfolding loop by (simp add: pt_entry_def Let_def partition_result_def)
qed

lemma example_pt_separate:
  "table_flash_offset info = 0xE000 \<Longrightarrow> writeback_flash_offset info = 0xF000 \<Longrightarrow> entry_count info = 1 \<Longrightarrow> pt_separate example_flash info"
  by (auto simp: pt_separate_def Let_def ldl_le_p_def example_entry less_2_cases_iff)

theorem boot_fallback_kept_witness:
  "\<exists>info f' info'. bl808_select_partition_header example_flash example_boot2 True = Some (True, info, f') \<and> fallback_applied info \<and>
     bl808_select_partition_header f' example_boot2 True = Some (True, info', f') \<and> \<not> fallback_applied info' \<and> header_flash_offset info' = 0x2000"
proof -
  obtain info f' where sel: "bl808_select_partition_header example_flash example_boot2 True = Some (True, info, f')" "fallback_applied info"
    and info: "header_flash_offset info = 0x2000" "table_flash_offset info = 0xE000" "writeback_flash_offset info = 0xF000" "entry_count info = 1"
    using example_falls_back by blast
  from boot_fallback_kept [OF sel example_pt_separate [OF info(2-4)], of 5 1 True] show ?thesis using sel info example_table_valid by auto
qed

text \<open>
  C21. A corrupted boot header is never used.  Take a header that is accepted for its checksum, and
  change any one of the bytes the checksum covers: the changed header is rejected.
\<close>

theorem boot_header_corruption_detected:
  assumes read: "bl808_bootheader_read f off = Some (True, info)" and crc: "ldl_le_p (ptr_at f (unat off)) 0x15C \<noteq> CRC_DEADBEEF"
    and k: "k < 0x15C" and v: "v \<noteq> f (unat off + k)"
  shows "bl808_bootheader_read (f(unat off + k := v)) off = Some (False, zero_header)"
proof -
  let ?raw = "ptr_at f (unat off)" and ?new = "ptr_at (f(unat off + k := v)) (unat off)"
  have ok: "\<not> off + BOOTHEADER_SIZE > FLASH_SIZE" "\<not> unat off \<ge> unat FLASH_SIZE"
    "bl808_bootheader_crc32 (byte_range ?raw 0 0x15C) = ldl_le_p ?raw 0x15C"
    using read crc by (auto simp: bl808_bootheader_read_def Let_def split: if_splits)
  have new: "?new = ?raw(0 + k := v)" by (auto simp: ptr_at_def)
  have stored: "ldl_le_p ?new 0x15C = ldl_le_p ?raw 0x15C" unfolding new using k by (intro ldl_cong) simp
  have "byte_range ?new 0 0x15C = byte_range ?raw 0 k @ v # byte_range ?raw (k + 1) (0x15C - k - 1)"
    unfolding new using byte_range_upd [OF k, of ?raw 0 v] by simp
  moreover have "byte_range ?raw 0 0x15C = byte_range ?raw 0 k @ f (unat off + k) # byte_range ?raw (k + 1) (0x15C - k - 1)"
    using byte_range_split [OF k, of ?raw 0] by (simp add: ptr_at_def)
  ultimately have "bl808_bootheader_crc32 (byte_range ?new 0 0x15C) \<noteq> ldl_le_p ?new 0x15C"
    using crc32_one_byte [OF v] ok(3) stored by metis
  then show ?thesis using ok(1,2) crc stored unfolding bl808_bootheader_read_def Let_def by simp
qed

text \<open>
  A header at the start of the flash with its checksum filled in.  For at least one of two values of
  a byte the checksum is not the one that means that there is none.
\<close>

definition checked_header :: "u8 \<Rightarrow> bytes" where
  "checked_header b = (let h = stl_le_p 0 MAGIC_BFNP (stl_le_p 8 FLASH_CFG_MAGIC ((\<lambda>_. 0)(0xB0 := b)))
     in stl_le_p 0x15C (bl808_bootheader_crc32 (byte_range h 0 0x15C)) h)"

lemma checked_header_eq:
  fixes b :: u8
  defines "h \<equiv> stl_le_p 0 MAGIC_BFNP (stl_le_p 8 FLASH_CFG_MAGIC (\<lambda>_. 0))"
  shows "checked_header b = stl_le_p 0x15C (bl808_bootheader_crc32 (byte_range h 0 0xB0 @ b # byte_range h 0xB1 171)) (h(0xB0 := b))"
proof -
  have "stl_le_p 0 MAGIC_BFNP (stl_le_p 8 FLASH_CFG_MAGIC ((\<lambda>_. 0)(0xB0 := b))) = h(0 + 0xB0 := b)"
    unfolding h_def by (auto simp: stl_le_p_def fun_eq_iff)
  then show ?thesis unfolding checked_header_def Let_def by (simp only: byte_range_upd) simp
qed

lemma checked_header_crc: "\<exists>b. (b = 1 \<or> b = 2) \<and> ldl_le_p (checked_header b) 0x15C \<noteq> CRC_DEADBEEF"
proof -
  let ?h = "stl_le_p 0 MAGIC_BFNP (stl_le_p 8 FLASH_CFG_MAGIC (\<lambda>_. 0))"
  have "bl808_bootheader_crc32 (byte_range ?h 0 0xB0 @ 1 # byte_range ?h 0xB1 171) \<noteq>
      bl808_bootheader_crc32 (byte_range ?h 0 0xB0 @ 2 # byte_range ?h 0xB1 171)"
    by (rule crc32_one_byte) simp
  then have "ldl_le_p (checked_header 1) 0x15C \<noteq> ldl_le_p (checked_header 2) 0x15C" unfolding checked_header_eq ldl_stl .
  then show ?thesis by metis
qed

lemma checked_header_read: "\<exists>info. bl808_bootheader_read (checked_header b) 0 = Some (True, info)"
proof -
  define h where "h = stl_le_p 0 MAGIC_BFNP (stl_le_p 8 FLASH_CFG_MAGIC ((\<lambda>_. 0)(0xB0 := b)))"
  have ch: "checked_header b = stl_le_p 0x15C (bl808_bootheader_crc32 (byte_range h 0 0x15C)) h" by (simp add: checked_header_def h_def Let_def)
  have low: "checked_header b j = h j" if "j < 0x15C" for j using that by (simp add: ch stl_other)
  have "byte_range (checked_header b) 0 0x15C = byte_range h 0 0x15C" by (rule byte_range_cong) (simp add: low)
  moreover have "ldl_le_p (checked_header b) 0 = MAGIC_BFNP" "ldl_le_p (checked_header b) 8 = FLASH_CFG_MAGIC"
    using ldl_cong [of 0 "checked_header b" h] ldl_cong [of 8 "checked_header b" h] low by (simp_all add: h_def ldl_le_p_def stl_le_p_def)
  ultimately show ?thesis unfolding bl808_bootheader_read_def ptr_at_def Let_def by (simp add: ch)
qed

theorem boot_header_corruption_detected_witness:
  "\<exists>b. (b = 1 \<or> b = 2) \<and> bl808_bootheader_read ((checked_header b)(0xB1 := 1)) 0 = Some (False, zero_header)"
proof -
  obtain b where b: "b = 1 \<or> b = 2" "ldl_le_p (checked_header b) 0x15C \<noteq> CRC_DEADBEEF" using checked_header_crc by blast
  moreover have "checked_header b 0xB1 = 0" by (simp add: checked_header_def Let_def stl_le_p_def)
  moreover obtain info where "bl808_bootheader_read (checked_header b) 0 = Some (True, info)" using checked_header_read by blast
  ultimately have "bl808_bootheader_read ((checked_header b)(0xB1 := 1)) 0 = Some (False, zero_header)"
    using boot_header_corruption_detected [of "checked_header b" 0 info "0xB1" 1] by (simp add: ptr_at_def)
  then show ?thesis using b(1) by blast
qed

text \<open>
  The bound check of the boot header wraps.  An offset within 352 bytes of the end of the 32-bit
  range passes the check and the header is read outside the flash; these are all the offsets for
  which this happens.  A partition table may name such an offset.
\<close>

theorem boot_header_check_wraps:
  "bl808_bootheader_read f off = None \<longleftrightarrow> off \<ge> 0xFFFFFEA0"
proof (cases "off \<ge> 0xFFFFFEA0")
  case True
  have "unat (off - 0xFFFFFEA0) = unat off - 4294966944" using unat_sub [OF True] by simp
  moreover have "off - 0xFFFFFEA0 = off + 352" by simp
  ultimately have "unat (off + 352) = unat off - 4294966944" by simp
  then have "unat (off + 352) < 352" using unat32_lt [of off] by linarith
  then have "\<not> off + BOOTHEADER_SIZE > FLASH_SIZE" by (simp add: word_less_unat)
  moreover have "unat off \<ge> unat FLASH_SIZE" using True by (simp add: word_le_unat)
  ultimately show ?thesis using True unfolding bl808_bootheader_read_def by simp
next
  case False
  then have "unat off + unat (352 :: u32) < 2 ^ LENGTH(32)" by (simp add: word_le_unat)
  then have "unat (off + 352) = unat off + 352" by (subst unat_add_small) simp_all
  then have "off + BOOTHEADER_SIZE > FLASH_SIZE \<or> \<not> unat off \<ge> unat FLASH_SIZE" by (auto simp: word_less_unat)
  then show ?thesis using False unfolding bl808_bootheader_read_def Let_def by (elim disjE) (simp_all del: not_None_eq)
qed

section \<open>The jump of the boot ROM\<close>

text \<open>
  What a core does with the first two words of the ROM: the immediate of \<open>lui\<close> is the upper 20 bits
  of the instruction, the one of \<open>jalr\<close> the upper 12 bits with their sign, added to the source
  register with the lowest bit cleared.
\<close>

definition lui_imm :: "u32 \<Rightarrow> u32" where
  "lui_imm insn = insn AND 0xFFFFF000"

definition jalr_imm :: "u32 \<Rightarrow> u32" where
  "jalr_imm insn = (let imm = drop_bit 20 insn in if tst imm 0x800 then imm OR 0xFFFFF000 else imm)"

definition run_boot_stub :: "bytes \<Rightarrow> u32 option" where
  "run_boot_stub rom =
     (let i0 = ldl_le_p rom 0; i1 = ldl_le_p rom 4; rd = drop_bit 7 i0 AND 0x1F; rs1 = drop_bit 15 i1 AND 0x1F in
      if i0 AND 0x7F = 0x37 \<and> i1 AND 0x707F = 0x67 \<and> rd = rs1 \<and> rd \<noteq> 0
      then Some ((lui_imm i0 + jalr_imm i1) AND NOT 1) else None)"

lemma field_split:
  fixes x c :: u32
  assumes "take_bit k c = c" and "k \<le> 32"
  shows "take_bit k (push_bit k x OR c) = c" "drop_bit k (push_bit k x OR c) = take_bit (32 - k) x"
proof -
  show "take_bit k (push_bit k x OR c) = c" using assms(1) by (simp add: take_bit_or take_bit_push_bit)
  have low: "\<not> bit c n" if "k \<le> n" for n using assms(1) that by (metis bit_take_bit_iff not_le)
  show "drop_bit k (push_bit k x OR c) = take_bit (32 - k) x"
    using assms(2) low by (intro bit_word_eqI) (auto simp: bit_simps)
qed

lemma and_mask_lits:
  "x AND 0x7F = take_bit 7 x" "x AND 0x1F = take_bit 5 x" "x AND 0xFFF = take_bit 12 x" "x AND 0xFFFFF = take_bit 20 x" for x :: u32
  by (simp_all add: take_bit_eq_mask mask_numeral)

lemma lui_fields:
  fixes u :: u32
  defines "insn \<equiv> bl808_riscv_encode_lui 5 (drop_bit 12 u)"
  shows "insn AND 0x7F = 0x37" "drop_bit 7 insn AND 0x1F = 5" "lui_imm insn = push_bit 12 (drop_bit 12 u)"
proof -
  have insn: "insn = push_bit 12 (drop_bit 12 u AND 0xFFFFF) OR 0x2B7"
    by (simp add: insn_def bl808_riscv_encode_lui_def or.assoc)
  have low: "take_bit 12 insn = 0x2B7" unfolding insn by (rule field_split) simp_all
  have "insn AND 0x7F = take_bit 7 (take_bit 12 insn)" by (simp add: and_mask_lits)
  then show "insn AND 0x7F = 0x37" unfolding low by simp
  have "drop_bit 7 insn AND 0x1F = drop_bit 7 (take_bit 12 insn)" by (simp add: and_mask_lits take_bit_drop_bit)
  then show "drop_bit 7 insn AND 0x1F = 5" unfolding low by simp
  have "insn AND NOT (mask 12) = push_bit 12 (drop_bit 12 insn)" by (rule bit_word_eqI) (auto simp: bit_simps)
  moreover have "drop_bit 12 insn = drop_bit 12 u" unfolding insn
    by (subst field_split(2)) (simp_all add: and_mask_lits, rule bit_word_eqI, auto simp: bit_simps dest: bit_imp_le_length)
  moreover have "(0xFFFFF000 :: u32) = NOT (mask 12)" by (simp add: mask_numeral)
  ultimately show "lui_imm insn = push_bit 12 (drop_bit 12 u)" by (simp only: lui_imm_def)
qed

lemma jalr_fields:
  fixes lo :: u32
  defines "insn \<equiv> bl808_riscv_encode_jalr 0 5 lo"
  shows "insn AND 0x707F = 0x67" "drop_bit 15 insn AND 0x1F = 5" "drop_bit 20 insn = take_bit 12 lo"
proof -
  have insn: "insn = push_bit 20 (take_bit 12 lo) OR 0x28067"
    by (simp add: insn_def bl808_riscv_encode_jalr_def or.assoc and_mask_lits)
  have low: "take_bit 20 insn = 0x28067" unfolding insn by (rule field_split) simp_all
  have "insn AND 0x707F = take_bit 20 insn AND 0x707F"
    by (simp add: take_bit_eq_mask mask_numeral and.assoc)
  then show "insn AND 0x707F = 0x67" unfolding low by simp
  have "drop_bit 15 insn AND 0x1F = drop_bit 15 (take_bit 20 insn)" by (simp add: and_mask_lits take_bit_drop_bit)
  then show "drop_bit 15 insn AND 0x1F = 5" unfolding low by simp
  show "drop_bit 20 insn = take_bit 12 lo" unfolding insn by (subst field_split(2)) simp_all
qed

text \<open>The low part of the target is a 12-bit number with a sign.\<close>

lemma sign_extend_12:
  fixes m :: u32
  assumes "unat m < 4096" and imm: "imm = take_bit 12 (m - 0x800)"
  shows "(if tst imm 0x800 then imm OR 0xFFFFF000 else imm) = m - 0x800"
proof (cases "m \<ge> 0x800")
  case True
  then have le: "unat (m - 0x800) = unat m - 2048" using unat_sub [OF True] by simp
  then have "take_bit 11 (m - 0x800) = m - 0x800" using assms(1)
    by (intro unsigned_word_eqI [where 'a = nat]) (simp add: unsigned_take_bit_eq take_bit_nat_eq_self)
  then have bits: "\<not> bit (m - 0x800) n" if "11 \<le> n" for n using that by (metis bit_take_bit_iff not_le)
  have "n < 12" if "bit (m - 0x800) n" for n using bits [of n] that by (cases "n < 12") auto
  then have "imm = m - 0x800" unfolding imm by (intro bit_word_eqI) (auto simp: bit_take_bit_iff)
  moreover have "\<not> tst imm 0x800" using bits [of 11] tst_BIT [of imm 11] calculation by simp
  ultimately show ?thesis by simp
next
  case False
  then have m: "unat m < 2048" by (simp add: word_le_unat)
  have sum: "unat (m + 0x800) = unat m + 2048" using m by (subst unat_add_small) simp_all
  have low: "take_bit 12 (m + 0x800) = m + 0x800"
    using m sum by (intro unsigned_word_eqI [where 'a = nat]) (simp add: unsigned_take_bit_eq take_bit_nat_eq_self)
  have "(m + 0x800) AND 0xFFFFF000 = ((m + 0x800) AND 0xFFF) AND 0xFFFFF000" using low by (simp add: and_mask_lits)
  then have "(m + 0x800) AND 0xFFFFF000 = 0" by (simp add: and.assoc)
  then have x: "m - 0x800 = (m + 0x800) OR 0xFFFFF000" by (simp flip: disjunctive_add_eq_or)
  then have "imm = m + 0x800" using low by (simp add: imm take_bit_or)
  moreover have "bit (m + 0x800) 11"
    using sum m bit_unsigned_iff [of "m + 0x800" 11, where 'a = nat] by (simp add: bit_iff_odd div_nat_eqI [of 2048 1])
  ultimately show ?thesis using x tst_BIT [of imm 11] by simp
qed

lemma jump_parts:
  fixes target :: u32
  defines "hi \<equiv> drop_bit 12 (target + 0x800)"
  shows "push_bit 12 hi + jalr_imm (bl808_riscv_encode_jalr 0 5 (target - push_bit 12 hi)) = target"
proof -
  let ?m = "take_bit 12 (target + 0x800)"
  have "push_bit 12 hi + ?m = target + 0x800"
    unfolding hi_def by (metis bits_ident)
  then have lo: "target - push_bit 12 hi = ?m - 0x800" by (simp add: algebra_simps)
  have "unat ?m < 4096" unfolding take_bit_eq_mask unat_and_mask by simp
  from sign_extend_12 [OF this refl] have "jalr_imm (bl808_riscv_encode_jalr 0 5 (target - push_bit 12 hi)) = ?m - 0x800"
    unfolding lo jalr_imm_def jalr_fields(3) Let_def .
  then have "jalr_imm (bl808_riscv_encode_jalr 0 5 (target - push_bit 12 hi)) = target - push_bit 12 hi" by (simp only: lo)
  then show ?thesis by simp
qed

text \<open>
  The synthetic boot ROM goes where it should: whatever the target, also where its low part is
  negative as an immediate, a core that runs the two instructions the ROM starts with ends up at
  the target, and the ROM holds them in little-endian order.
\<close>

lemma build_jump_target:
  "run_boot_stub (bl808_bootrom_build_jump target rom) = Some (target AND NOT 1)"
proof -
  let ?hi = "drop_bit 12 (target + 0x800)"
  let ?rom = "bl808_bootrom_build_jump target rom"
  have rom: "?rom = stl_le_p 8 0x13 (stl_le_p 4 (bl808_riscv_encode_jalr 0 5 (target - push_bit 12 ?hi))
      (stl_le_p 0 (bl808_riscv_encode_lui 5 ?hi) rom))"
    by (simp add: bl808_bootrom_build_jump_def bl808_bootrom_write32_def Let_def)
  have i0: "ldl_le_p ?rom 0 = bl808_riscv_encode_lui 5 ?hi"
  proof -
    have "ldl_le_p ?rom 0 = ldl_le_p (stl_le_p 0 (bl808_riscv_encode_lui 5 ?hi) rom) 0"
      unfolding rom by (rule ldl_cong) (simp add: stl_other)
    then show ?thesis by simp
  qed
  have i1: "ldl_le_p ?rom 4 = bl808_riscv_encode_jalr 0 5 (target - push_bit 12 ?hi)"
  proof -
    have "ldl_le_p ?rom 4 = ldl_le_p (stl_le_p 4 (bl808_riscv_encode_jalr 0 5 (target - push_bit 12 ?hi))
        (stl_le_p 0 (bl808_riscv_encode_lui 5 ?hi) rom)) 4"
      unfolding rom by (rule ldl_cong) (simp add: stl_other)
    then show ?thesis by simp
  qed
  show ?thesis unfolding run_boot_stub_def Let_def i0 i1 lui_fields jalr_fields(1,2) jump_parts by simp
qed

section \<open>The boot ROM and the reset\<close>

text \<open>Committing a fallback changes the flash, not the choice of the header.\<close>

lemma select_entries_commit:
  "select_entries f offs sel True xs = Some (ok, info, f') \<Longrightarrow>
   \<exists>info'. select_entries f offs sel False xs = Some (ok, info', f) \<and> header_flash_offset info' = header_flash_offset info"
  by (induction xs) (auto simp: Let_def partition_result_def split: option.splits bool.splits if_splits)

lemma select_commit:
  assumes "bl808_select_partition_header f boot2 True = Some (ok, info, f')"
  obtains info' where "bl808_select_partition_header f boot2 False = Some (ok, info', f)" "header_flash_offset info' = header_flash_offset info"
  using assms by (fastforce simp: bl808_select_partition_header_def Let_def dest: select_entries_commit split: option.splits simp del: select_copies.simps)

lemma select_entries_keeps:
  "select_entries f offs sel commit xs = Some (ok, info, f') \<Longrightarrow> \<not> (ok \<and> fallback_applied info) \<Longrightarrow> f' = f"
  by (induction xs) (auto simp: Let_def partition_result_def split: option.splits bool.splits if_splits)

lemma select_keeps:
  "bl808_select_partition_header f boot2 commit = Some (ok, info, f') \<Longrightarrow> \<not> (ok \<and> fallback_applied info) \<Longrightarrow> f' = f"
  by (auto simp: bl808_select_partition_header_def Let_def dest: select_entries_keeps split: option.splits simp del: select_copies.simps)

lemma entry_bootheader_read:
  assumes "bl808_partition_entry_bootheader f e slot = Some (True, cand)"
  shows "flash_offset cand = ldl_le_p e (12 + unat slot * 4) \<and> flash_offset cand \<noteq> 0 \<and>
    bl808_bootheader_read f (flash_offset cand) = Some (True, cand) \<and> runs_cpu 0 cand"
  using assms header_read_flash_offset [of f _ cand]
  by (auto simp: bl808_partition_entry_bootheader_def Let_def runs_cpu_def split: if_splits option.splits prod.splits)

lemma select_entries_header:
  "select_entries f offs sel commit xs = Some (True, info, f') \<Longrightarrow>
    \<exists>cand. bl808_bootheader_read f (header_flash_offset info) = Some (True, cand) \<and> runs_cpu 0 cand"
  by (induction xs) (auto simp: Let_def partition_result_def dest!: entry_bootheader_read split: option.splits bool.splits if_splits)

lemma select_header:
  "bl808_select_partition_header f boot2 commit = Some (True, info, f') \<Longrightarrow>
    \<exists>cand. bl808_bootheader_read f (header_flash_offset info) = Some (True, cand) \<and> runs_cpu 0 cand"
  by (auto simp: bl808_select_partition_header_def Let_def dest: select_entries_header split: option.splits simp del: select_copies.simps)

text \<open>The header found is not touched by the commit.\<close>

lemma select_header_committed:
  assumes select: "bl808_select_partition_header f boot2 True = Some (True, info, f')" and sep: "fallback_applied info \<Longrightarrow> pt_separate f info"
  shows "bl808_bootheader_read f' (header_flash_offset info) = bl808_bootheader_read f (header_flash_offset info)"
proof (cases "fallback_applied info")
  case False
  then show ?thesis using select_keeps [OF select] by simp
next
  case True
  define offs where "offs = pt_offsets boot2"
  obtain sel where sel: "select_copies f [(0, offs ! 0), (1, offs ! 1)] None = Some sel"
    and entries: "select_entries f offs sel True [0..<unat (selected_entries sel)] = Some (True, info, f')"
    using select unfolding bl808_select_partition_header_def offs_def by (auto simp: Let_def split: option.splits)
  let ?c = "selected_copy sel"
  have "[offs ! 0, offs ! 1] = offs" by (simp add: offs_def pt_offsets_def)
  then have valid: "bl808_partition_table_valid (ptr_at f (unat (offs ! ?c))) = Some (selected_age sel, selected_entries sel)"
    using select_two [OF sel] by simp
  obtain ys i zs cand where split: "[0..<unat (selected_entries sel)] = ys @ i # zs"
    and fb: "entry_falls_back f (pt_entry f (offs ! ?c) i) cand" and res: "(info, f') = fallback_result f offs sel True i cand"
    using select_entries_fallback [OF entries True] by blast
  let ?e = "pt_entry f (offs ! ?c) i" and ?w = "unat (offs ! (1 - ?c))"
  have i: "i < unat (selected_entries sel)" using upt_split [OF split] by blast
  have info: "table_flash_offset info = offs ! ?c" "writeback_flash_offset info = offs ! (1 - ?c)" "entry_count info = selected_entries sel"
    "header_flash_offset info = flash_offset cand"
    using res by (simp_all add: fallback_result_def partition_result_def Let_def)
  have bh: "bl808_partition_entry_bootheader f ?e (slot_of ?e XOR 1) = Some (True, cand)" using fb by (simp add: entry_falls_back_def)
  have "unat (slot_of ?e XOR 1) < 2" using slot_le(2) [of ?e] by (simp add: word_le_unat)
  then have "unat (flash_offset cand) + 352 \<le> ?w \<or> ?w + 596 \<le> unat (flash_offset cand)"
    using separate_header [OF sep [OF True], of i "unat (slot_of ?e XOR 1)" "flash_offset cand"] entry_bootheader_read [OF bh] i
    unfolding info by metis
  then show ?thesis using fallback_flash [OF sep [OF True] res valid i] unfolding info(4) by (intro header_read_cong) auto
qed

definition boot_separate :: "bytes \<Rightarrow> bool" where
  "boot_separate f \<longleftrightarrow> (\<forall>boot2 info f'. bl808_bootheader_read f 0 = Some (True, boot2) \<longrightarrow>
     bl808_select_partition_header f boot2 True = Some (True, info, f') \<longrightarrow> fallback_applied info \<longrightarrow> pt_separate f info)"

text \<open>The header the reset works with is the one that was found when the ROM was made.\<close>

lemma boot_partition_result:
  assumes sep: "boot_separate (flash s)" and flags: "\<not> strict_fidelity s" "\<not> boot_gpio39 s" "\<not> have_m0_entry s"
    and boot: "boot_partition s = Some (ok, h, s')"
  shows "if ok then bl808_primary_flash_bootheader s = Some (True, h) \<and>
      (\<exists>t. s' = boot_group h t \<and> bootrom t = bootrom s \<and> xip_offset t = xip_offset s) else s' = s"
proof -
  obtain b boot2 where read: "bl808_bootheader_read (flash s) 0 = Some (b, boot2)"
    using boot flags by (cases "bl808_bootheader_read (flash s) 0") (auto simp: boot_partition_def)
  show ?thesis
  proof (cases b)
    case False
    then show ?thesis using boot read flags by (simp add: boot_partition_def)
  next
    case True
    note read = read [unfolded eqTrueI [OF True]]
    obtain ok1 part f where sel: "bl808_select_partition_header (flash s) boot2 True = Some (ok1, part, f)"
      using boot read flags by (cases "bl808_select_partition_header (flash s) boot2 True") (auto simp: boot_partition_def)
    show ?thesis
    proof (cases ok1)
      case False
      then show ?thesis using boot read flags sel select_keeps [OF sel] by (simp add: boot_partition_def)
    next
      case True
      note sel = sel [unfolded eqTrueI [OF True]]
      obtain cand where cand: "bl808_bootheader_read (flash s) (header_flash_offset part) = Some (True, cand)" "runs_cpu 0 cand"
        using select_header [OF sel] by blast
      have "fallback_applied part \<Longrightarrow> pt_separate (flash s) part" using sep sel read unfolding boot_separate_def by blast
      from select_header_committed [OF sel this] cand boot read flags sel
      have "ok \<and> h = cand \<and> s' = boot_group cand (bl808_boot2_store_partition_params part (s\<lparr>flash := f\<rparr>))"
        by (auto simp: boot_partition_def)
      moreover have "bl808_primary_flash_bootheader s = Some (True, cand)"
        by (rule select_commit [OF sel]) (use cand read flags in \<open>simp add: bl808_primary_flash_bootheader_def\<close>)
      moreover have "bootrom (bl808_boot2_store_partition_params part (s\<lparr>flash := f\<rparr>)) = bootrom s"
        "xip_offset (bl808_boot2_store_partition_params part (s\<lparr>flash := f\<rparr>)) = xip_offset s"
        by (simp_all add: bl808_boot2_store_partition_params_def)
      ultimately show ?thesis by auto
    qed
  qed
qed

lemma primary_found: "bl808_primary_flash_bootheader s = Some (found, h) \<Longrightarrow> hdr_valid h = found"
proof -
  have valid: "hdr_valid info = ok" if "bl808_bootheader_read f off = Some (ok, info)" for f off ok info
    using that by (auto simp: bl808_bootheader_read_def Let_def bootheader_fields_def zero_header_def split: if_splits)
  have zero: "\<not> hdr_valid zero_header" by (simp add: zero_header_def)
  have sel: "ok \<and> runs_cpu 0 info" if "bl808_select_partition_header f b False = Some (True, part, g)"
    "bl808_bootheader_read f (header_flash_offset part) = Some (ok, info)" for f b part g ok info
    using select_header [OF that(1)] that(2) by auto
  assume "bl808_primary_flash_bootheader s = Some (found, h)"
  then show ?thesis
    unfolding bl808_primary_flash_bootheader_def primary_boot2_def
    by (auto simp: zero dest: valid sel split: if_splits option.splits prod.splits bool.splits)
qed

lemma primary_cong:
  assumes "flash s' = flash s" "strict_fidelity s' = strict_fidelity s" "boot_gpio39 s' = boot_gpio39 s" "have_m0_entry s' = have_m0_entry s"
  shows "bl808_primary_flash_bootheader s' = bl808_primary_flash_bootheader s"
  unfolding bl808_primary_flash_bootheader_def assms by (rule refl)

lemma boot_frame:
  "bootrom (boot_entries h s) = bootrom s" "length (xip_offset s) = 2 \<Longrightarrow> xip_offset (boot_entries h s) ! 0 = xip_offset s ! 0"
  "bootrom (boot_group h s) = bootrom s"
  "length (xip_offset s) = 2 \<Longrightarrow> xip_offset (boot_group h s) ! 0 = (flash_offset h + group_image_offset h) AND 0x0FFFFFFF"
  "length (xip_offset (boot_group h s)) = length (xip_offset s)"
  by (simp_all add: boot_entries_def boot_group_def bl808_sf_ctrl_set_flash_image_offset_def Let_def)

lemma reset_boots:
  assumes sep: "boot_separate (flash s)" and flags: "\<not> strict_fidelity s" "\<not> boot_gpio39 s" "\<not> have_m0_entry s"
    and xip: "length (xip_offset s) = 2" and boot: "bl808_machine_boot s = Some (h, s')"
  shows "bl808_primary_flash_bootheader s = Some (hdr_valid h, h) \<and> bootrom s' = bootrom s \<and>
    (hdr_valid h \<longrightarrow> xip_offset s' ! 0 = (flash_offset h + group_image_offset h) AND 0x0FFFFFFF)"
proof -
  let ?s = "bl808_sf_ctrl_set_flash_image_offset 0 0 ((bl808_boot2_clear_pass_params s)\<lparr>reset_xip_offset :=
    (reset_xip_offset (bl808_boot2_clear_pass_params s))[0 := 0]\<rparr>)"
  have same: "flash ?s = flash s" "strict_fidelity ?s = strict_fidelity s" "boot_gpio39 ?s = boot_gpio39 s" "have_m0_entry ?s = have_m0_entry s"
    "bootrom ?s = bootrom s" "length (xip_offset ?s) = 2"
    using xip by (simp_all add: bl808_sf_ctrl_set_flash_image_offset_def bl808_boot2_clear_pass_params_def)
  note prim = primary_cong [OF same(1-4)]
  obtain ok h1 s1 where part: "boot_partition ?s = Some (ok, h1, s1)"
    using boot by (cases "boot_partition ?s") (auto simp: bl808_machine_boot_def Let_def)
  have "boot_separate (flash ?s)" "\<not> strict_fidelity ?s" "\<not> boot_gpio39 ?s" "\<not> have_m0_entry ?s" using sep flags same by simp_all
  note result = boot_partition_result [OF this part]
  show ?thesis
  proof (cases ok)
    case True
    then obtain t where t: "s1 = boot_group h1 t" "bootrom t = bootrom ?s" "xip_offset t = xip_offset ?s"
      and p: "bl808_primary_flash_bootheader ?s = Some (True, h1)" using result by auto
    moreover have "h = h1" "s' = boot_entries h1 s1" using boot part True by (auto simp: bl808_machine_boot_def Let_def)
    ultimately show ?thesis using prim same primary_found [OF p] by (simp add: boot_frame)
  next
    case False
    then have "s1 = ?s" using result by simp
    then obtain found where p: "bl808_primary_flash_bootheader ?s = Some (found, h)"
      and s': "s' = boot_entries h (if found then boot_group h ?s else ?s)"
      using boot part False by (auto simp: bl808_machine_boot_def boot_primary_def Let_def split: option.splits)
    show ?thesis using p prim s' same primary_found [OF p] by (cases found) (simp_all add: boot_frame)
  qed
qed

text \<open>
  C19. The boot ROM and the reset of the machine agree.  The ROM is made before the reset looks for the
  firmware, and the reset may switch to the spare slot and write the partition table: nevertheless
  the ROM jumps to the entry point of the firmware whose image the reset maps into the flash
  window, and to the start of the window when there is no firmware.  The machine boots from flash (no ROM image, no entry
  point and no strap pin given) and a table that is written back does not overlap the headers and the other table.
\<close>

theorem boot_rom_and_reset_agree:
  assumes "boot_separate (flash s)" and "\<not> strict_fidelity s" and "\<not> boot_gpio39 s" and "\<not> have_m0_entry s"
    and "bootrom_image s = None" and "length (xip_offset s) = 2"
    and "bl808_populate_bootrom s = Some (True, s1)" and "bl808_machine_boot s1 = Some (h, s2)"
  shows "run_boot_stub (bootrom s2) = Some ((0x58000000 + (if hdr_valid h then cpu_image_offset h ! 0 else 0)) AND NOT 1) \<and>
    (hdr_valid h \<longrightarrow> xip_offset s2 ! 0 = (flash_offset h + group_image_offset h) AND 0x0FFFFFFF)"
proof -
  let ?s = "s\<lparr>bootrom := memcpy_to 0 (\<lambda>_. 0) 131072 (bootrom s)\<rparr>"
  have prim: "bl808_primary_flash_bootheader ?s = bl808_primary_flash_bootheader s" by (rule primary_cong) simp_all
  obtain found hp where p: "bl808_primary_flash_bootheader s = Some (found, hp)"
    and s1: "s1 = ?s\<lparr>bootrom := memcpy_to 131056 boot_signature 16
      (bl808_bootrom_build_jump (0x58000000 + (if found then cpu_image_offset hp ! 0 else 0)) (bootrom ?s))\<rparr>"
    using assms(2-5,7) prim by (auto simp: bl808_populate_bootrom_def Let_def split: option.splits)
  have "bl808_primary_flash_bootheader s1 = bl808_primary_flash_bootheader s" by (rule primary_cong) (simp_all add: s1)
  moreover have "bl808_primary_flash_bootheader s1 = Some (hdr_valid h, h) \<and> bootrom s2 = bootrom s1 \<and>
      (hdr_valid h \<longrightarrow> xip_offset s2 ! 0 = (flash_offset h + group_image_offset h) AND 0x0FFFFFFF)"
    using assms(1-4,6) by (intro reset_boots [OF _ _ _ _ _ assms(8)]) (simp_all add: s1)
  moreover have "run_boot_stub (memcpy_to 131056 boot_signature 16 rom) = run_boot_stub rom" for rom
    using ldl_cong [of 0 "memcpy_to 131056 boot_signature 16 rom" rom] ldl_cong [of 4 "memcpy_to 131056 boot_signature 16 rom" rom]
    by (simp add: run_boot_stub_def memcpy_to_out)
  ultimately show ?thesis using p by (simp add: s1 build_jump_target)
qed

definition example_machine :: BL808BootMachine where
  "example_machine = \<lparr>flash = example_flash, wram_params = (\<lambda>_. 0), bootrom = (\<lambda>_. 0), bootrom_image = None, strict_fidelity = False,
     boot_gpio39 = False, have_m0_entry = False, have_lp_entry = False, have_d0_entry = False, lp_entry = 0, d0_entry = 0,
     reset_xip_offset = [0, 0], xip_offset = [0, 0], pds_ctl2 = 0x333, pds_cpu_core_cfg13 = 0, hbn_glb = 0, mm_misc_cpu0_boot = 0\<rparr>"

lemma example_separate: "boot_separate example_flash"
proof -
  have "pt_separate example_flash info"
    if "bl808_bootheader_read example_flash 0 = Some (True, boot2)" "bl808_select_partition_header example_flash boot2 True = Some (True, info, f')"
    for boot2 info f'
  proof -
    have "boot2 = example_boot2" using that(1) example_header_at(1) [of 0] by (simp add: example_boot2_def)
    then have "table_flash_offset info = 0xE000" "writeback_flash_offset info = 0xF000" "entry_count info = 1"
      using that(2) example_falls_back by auto
    then show ?thesis by (rule example_pt_separate)
  qed
  then show ?thesis unfolding boot_separate_def by blast
qed

lemma machine_boot_partition:
  assumes flags: "\<not> strict_fidelity s" "\<not> boot_gpio39 s" "\<not> have_m0_entry s"
    and read: "bl808_bootheader_read (flash s) 0 = Some (True, boot2)"
    and sel: "bl808_select_partition_header (flash s) boot2 True = Some (True, info, f')" and sep: "pt_separate (flash s) info"
    and cand: "bl808_bootheader_read (flash s) (header_flash_offset info) = Some (True, cand)" "runs_cpu 0 cand"
  shows "\<exists>s'. bl808_machine_boot s = Some (cand, s')" "bl808_primary_flash_bootheader s = Some (True, cand)"
proof -
  show "bl808_primary_flash_bootheader s = Some (True, cand)"
    by (rule select_commit [OF sel]) (use cand read flags in \<open>simp add: bl808_primary_flash_bootheader_def\<close>)
  have "bl808_bootheader_read f' (header_flash_offset info) = Some (True, cand)"
    using select_header_committed [OF sel sep] cand(1) by simp
  then show "\<exists>s'. bl808_machine_boot s = Some (cand, s')"
    using read sel flags cand(2)
    by (simp add: bl808_machine_boot_def boot_partition_def bl808_boot2_clear_pass_params_def bl808_sf_ctrl_set_flash_image_offset_def Let_def)
qed

theorem boot_rom_and_reset_agree_witness:
  "\<exists>s1 h s2. bl808_populate_bootrom example_machine = Some (True, s1) \<and> bl808_machine_boot s1 = Some (h, s2) \<and>
     flash_offset h = 0x2000 \<and> run_boot_stub (bootrom s2) = Some 0x58001800"
proof -
  obtain info f' where sel: "bl808_select_partition_header example_flash example_boot2 True = Some (True, info, f')"
    and info: "header_flash_offset info = 0x2000" "table_flash_offset info = 0xE000" "writeback_flash_offset info = 0xF000" "entry_count info = 1"
    using example_falls_back by blast
  obtain cand where cand: "bl808_bootheader_read example_flash 0x2000 = Some (True, cand)" "cpu_enabled cand ! 0" "\<not> cpu_halt cand ! 0"
      "flash_offset cand = 0x2000" "cpu_image_offset cand ! 0 = 0x1800" using example_headers(2) by blast
  have read: "bl808_bootheader_read example_flash 0 = Some (True, example_boot2)" using example_header_at(1) [of 0] by (simp add: example_boot2_def)
  have boots: "\<exists>s'. bl808_machine_boot s = Some (cand, s')" "bl808_primary_flash_bootheader s = Some (True, cand)"
    if "flash s = example_flash" "\<not> strict_fidelity s" "\<not> boot_gpio39 s" "\<not> have_m0_entry s" for s
    using machine_boot_partition [of s example_boot2 info f' cand] read sel example_pt_separate [OF info(2-4)] cand(1-3) info(1) that
    by (simp_all add: runs_cpu_def)
  let ?m = "example_machine\<lparr>bootrom := memcpy_to 0 (\<lambda>_. 0) 131072 (bootrom example_machine)\<rparr>"
  have "bl808_primary_flash_bootheader ?m = Some (True, cand)" by (rule boots) (simp_all add: example_machine_def)
  then obtain s1 where s1: "bl808_populate_bootrom example_machine = Some (True, s1)" "flash s1 = example_flash"
      "\<not> strict_fidelity s1" "\<not> boot_gpio39 s1" "\<not> have_m0_entry s1"
    by (simp add: bl808_populate_bootrom_def example_machine_def Let_def)
  obtain s2 where s2: "bl808_machine_boot s1 = Some (cand, s2)" using boots(1) [OF s1(2-5)] by blast
  have "hdr_valid cand" using primary_found [OF boots(2) [OF s1(2-5)]] by simp
  then have "run_boot_stub (bootrom s2) = Some 0x58001800"
    using boot_rom_and_reset_agree [OF _ _ _ _ _ _ s1(1) s2] example_separate cand(5) by (simp add: example_machine_def)
  then show ?thesis using s1(1) s2 cand(4) by blast
qed

end
