(* ===== verification/Dma2d.thy ===== *)
theory Dma2d
  imports Dma_Move
begin

text \<open>
  The 2D DMA controller, \<open>src/qemu-machine/hw/dma/bl808_dma2d.c\<close>: two channels that copy a run of data or a
  rectangle, with a colour key that leaves pixels out.  Guest memory is a function, accessed with
  the loads and stores of the DMA controller's model; the bottom half is an operation of its own.
\<close>

section \<open>State\<close>

record BL808DMA2DChannel =
  d2_src_addr :: u32
  d2_dst_addr :: u32
  d2_lli :: u32
  d2_bus :: u32
  src_cnt :: u32
  src_xic :: u32
  src_yic :: u32
  dst_cnt :: u32
  dst_xic :: u32
  dst_yic :: u32
  d2_key :: u32
  key_en :: u32
  d2_cfg :: u32
  d2_active :: bool

record BL808DMA2DState =
  d2_irq :: "bool list"
  d2_channels :: "BL808DMA2DChannel list"
  d2_int_status :: u32
  d2_int_tc_status :: u32
  global_cfg :: u32
  d2_sync :: u32
  d2_soft_breq :: u32
  d2_soft_lbreq :: u32
  d2_soft_sreq :: u32
  d2_soft_lsreq :: u32
  d2_qos :: u32
  d2_run_scheduled :: bool
  d2_clock_enabled :: bool
  d2_reset_asserted :: bool

abbreviation (input) DMA2D_E :: u32 where "DMA2D_E \<equiv> 0x1"
abbreviation (input) DMA2D_SI :: u32 where "DMA2D_SI \<equiv> 0x4000000"
abbreviation (input) DMA2D_DI :: u32 where "DMA2D_DI \<equiv> 0x8000000"
abbreviation (input) DMA2D_I :: u32 where "DMA2D_I \<equiv> 0x80000000"
abbreviation (input) DMA2D_CH_EN :: u32 where "DMA2D_CH_EN \<equiv> 0x1"
abbreviation (input) DMA2D_FIFO_EMPTY :: u32 where "DMA2D_FIFO_EMPTY \<equiv> 0x10000"
abbreviation (input) DMA2D_REG_2D_EN :: u32 where "DMA2D_REG_2D_EN \<equiv> 0x80000000"
abbreviation (input) DMA2D_KEY_EN_BIT :: u32 where "DMA2D_KEY_EN_BIT \<equiv> 0x1"

definition bl808_dma2d_active :: "BL808DMA2DState \<Rightarrow> bool" where
  "bl808_dma2d_active s \<longleftrightarrow> d2_clock_enabled s \<and> \<not> d2_reset_asserted s"

definition bl808_dma2d_width_bytes :: "u32 \<Rightarrow> bool \<Rightarrow> nat" where
  "bl808_dma2d_width_bytes bus dst =
     (let width = drop_bit (if dst then 21 else 18) bus AND 0x3
      in if width = 0 then 1 else if width = 1 then 2 else if width = 2 then 4 else 8)"

definition bl808_dma2d_read_mem :: "gmem \<Rightarrow> hwaddr \<Rightarrow> nat \<Rightarrow> u64" where
  "bl808_dma2d_read_mem m addr width_bytes = (if width_bytes \<in> {1, 2, 4, 8} then load_le width_bytes m addr else 0)"

definition bl808_dma2d_write_mem :: "hwaddr \<Rightarrow> u64 \<Rightarrow> nat \<Rightarrow> gmem \<Rightarrow> gmem" where
  "bl808_dma2d_write_mem addr value width_bytes m = (if width_bytes \<in> {1, 2, 4, 8} then store_le width_bytes addr value m else m)"

definition bl808_dma2d_enabled_channels :: "BL808DMA2DState \<Rightarrow> u32" where
  "bl808_dma2d_enabled_channels s =
     fold (\<lambda>i msk. if tst (d2_cfg (d2_channels s ! i)) DMA2D_CH_EN then msk OR BIT i else msk) [0..<2] 0"

definition bl808_dma2d_update_irq :: "BL808DMA2DState \<Rightarrow> BL808DMA2DState" where
  "bl808_dma2d_update_irq s = s\<lparr>d2_irq := map (\<lambda>i. bl808_dma2d_active s \<and> tst (d2_int_status s) (BIT i)) [0..<2]\<rparr>"

section \<open>Copying\<close>

text \<open>The bytes of value and key that the strobe selects are compared.\<close>

definition key_bytes :: "u32 \<Rightarrow> u32 \<Rightarrow> u32" where
  "key_bytes strobe x =
     (let r = (if tst strobe 1 then x AND 0x000000ff else 0);
          r = (if tst strobe 2 then r OR (x AND 0x0000ff00) else r);
          r = (if tst strobe 4 then r OR (x AND 0x00ff0000) else r)
      in if tst strobe 8 then r OR (x AND 0xff000000) else r)"

definition bl808_dma2d_color_key_skip :: "BL808DMA2DChannel \<Rightarrow> u64 \<Rightarrow> bool" where
  "bl808_dma2d_color_key_skip ch value =
     (if \<not> tst (key_en ch) DMA2D_KEY_EN_BIT then False
      else let strobe = drop_bit 4 (key_en ch AND push_bit 4 0xf)
           in key_bytes strobe (ucast value) = key_bytes strobe (d2_key ch))"

definition set_channel2d :: "nat \<Rightarrow> BL808DMA2DChannel \<Rightarrow> BL808DMA2DState \<Rightarrow> BL808DMA2DState" where
  "set_channel2d chno ch s = s\<lparr>d2_channels := (d2_channels s)[chno := ch]\<rparr>"

definition bl808_dma2d_complete_channel :: "nat \<Rightarrow> BL808DMA2DState \<Rightarrow> BL808DMA2DState" where
  "bl808_dma2d_complete_channel chno s =
     (let ch = d2_channels s ! chno;
          s = set_channel2d chno (ch\<lparr>d2_active := False, d2_cfg := (d2_cfg ch AND NOT DMA2D_CH_EN) OR DMA2D_FIFO_EMPTY\<rparr>) s
      in if tst (d2_bus ch) DMA2D_I
         then s\<lparr>d2_int_tc_status := d2_int_tc_status s OR BIT chno, d2_int_status := d2_int_status s OR BIT chno\<rparr> else s)"

definition copy_datum :: "BL808DMA2DChannel \<Rightarrow> nat \<Rightarrow> nat \<Rightarrow> hwaddr \<Rightarrow> hwaddr \<Rightarrow> gmem \<Rightarrow> gmem" where
  "copy_datum ch src_width dst_width src dst m =
     (let value = bl808_dma2d_read_mem m src src_width
      in if \<not> bl808_dma2d_color_key_skip ch value then bl808_dma2d_write_mem dst value dst_width m else m)"

fun linear_loop :: "BL808DMA2DChannel \<Rightarrow> nat \<Rightarrow> nat \<Rightarrow> nat \<Rightarrow> hwaddr \<Rightarrow> hwaddr \<Rightarrow> gmem \<Rightarrow> hwaddr \<times> hwaddr \<times> gmem" where
  "linear_loop ch sw dw 0 src dst m = (src, dst, m)"
| "linear_loop ch sw dw (Suc count) src dst m =
     linear_loop ch sw dw count
       (if tst (d2_bus ch) DMA2D_SI then src + of_nat sw else src)
       (if tst (d2_bus ch) DMA2D_DI then dst + of_nat dw else dst)
       (copy_datum ch sw dw src dst m)"

definition bl808_dma2d_run_linear :: "nat \<Rightarrow> BL808DMA2DState \<Rightarrow> gmem \<Rightarrow> BL808DMA2DState \<times> gmem" where
  "bl808_dma2d_run_linear chno s m =
     (let ch = d2_channels s ! chno;
          (src, dst, m) = linear_loop ch (bl808_dma2d_width_bytes (d2_bus ch) False) (bl808_dma2d_width_bytes (d2_bus ch) True)
            (unat (d2_bus ch AND 0x0fff)) (ucast (d2_src_addr ch)) (ucast (d2_dst_addr ch)) m;
          s = set_channel2d chno (ch\<lparr>d2_src_addr := ucast src, d2_dst_addr := ucast dst\<rparr>) s
      in (bl808_dma2d_complete_channel chno s, m))"

text \<open>A row of pixels, then the rows; the increments are signed 32-bit numbers.\<close>

fun row_loop :: "BL808DMA2DChannel \<Rightarrow> nat \<Rightarrow> nat \<Rightarrow> hwaddr \<Rightarrow> hwaddr \<Rightarrow> gmem \<Rightarrow> hwaddr \<times> hwaddr \<times> gmem" where
  "row_loop ch w 0 src dst m = (src, dst, m)"
| "row_loop ch w (Suc n) src dst m = row_loop ch w n (src + scast (src_xic ch)) (dst + scast (dst_xic ch)) (copy_datum ch w w src dst m)"

fun rows_loop :: "BL808DMA2DChannel \<Rightarrow> nat \<Rightarrow> nat \<Rightarrow> nat \<Rightarrow> hwaddr \<Rightarrow> hwaddr \<Rightarrow> gmem \<Rightarrow> hwaddr \<times> hwaddr \<times> gmem" where
  "rows_loop ch w xcount 0 src dst m = (src, dst, m)"
| "rows_loop ch w xcount (Suc n) row_src row_dst m =
     (case row_loop ch w xcount row_src row_dst m of (src, dst, m) \<Rightarrow>
        rows_loop ch w xcount n (src + scast (src_yic ch)) (dst + scast (dst_yic ch)) m)"

definition bl808_dma2d_run_2d :: "nat \<Rightarrow> BL808DMA2DState \<Rightarrow> gmem \<Rightarrow> BL808DMA2DState \<times> gmem" where
  "bl808_dma2d_run_2d chno s m =
     (let ch = d2_channels s ! chno;
          xcount = unat (src_cnt ch AND 0xffff); ycount = unat (drop_bit 16 (src_cnt ch) AND 0xffff);
          (row_src, row_dst, m) = rows_loop ch (bl808_dma2d_width_bytes (d2_bus ch) False) xcount ycount
            (ucast (d2_src_addr ch)) (ucast (d2_dst_addr ch)) m;
          s = set_channel2d chno (ch\<lparr>d2_src_addr := ucast row_src, d2_dst_addr := ucast row_dst\<rparr>) s
      in (bl808_dma2d_complete_channel chno s, m))"

definition bl808_dma2d_run_channel :: "nat \<Rightarrow> BL808DMA2DState \<times> gmem \<Rightarrow> BL808DMA2DState \<times> gmem" where
  "bl808_dma2d_run_channel chno = (\<lambda>(s, m).
     let ch = d2_channels s ! chno in
     if \<not> bl808_dma2d_active s then (set_channel2d chno (ch\<lparr>d2_active := False\<rparr>) s, m)
     else if \<not> tst (global_cfg s) DMA2D_E \<or> \<not> tst (d2_cfg ch) DMA2D_CH_EN then (set_channel2d chno (ch\<lparr>d2_active := False\<rparr>) s, m)
     else
       let ch = ch\<lparr>d2_active := True, d2_cfg := d2_cfg ch AND NOT DMA2D_FIFO_EMPTY\<rparr>; s = set_channel2d chno ch s
       in if tst (d2_cfg ch) DMA2D_REG_2D_EN then bl808_dma2d_run_2d chno s m else bl808_dma2d_run_linear chno s m)"

definition bl808_dma2d_schedule :: "BL808DMA2DState \<Rightarrow> BL808DMA2DState" where
  "bl808_dma2d_schedule s =
     (if \<not> d2_run_scheduled s \<and> bl808_dma2d_active s \<and> bl808_dma2d_enabled_channels s \<noteq> 0 \<and> tst (global_cfg s) DMA2D_E
      then s\<lparr>d2_run_scheduled := True\<rparr> else s)"

definition bl808_dma2d_run_bh :: "BL808DMA2DState \<times> gmem \<Rightarrow> BL808DMA2DState \<times> gmem" where
  "bl808_dma2d_run_bh = (\<lambda>(s, m).
     let (s, m) = fold bl808_dma2d_run_channel [0..<2] (s\<lparr>d2_run_scheduled := False\<rparr>, m)
     in (bl808_dma2d_update_irq s, m))"

section \<open>Registers\<close>

definition dma2d_channel_offset :: "hwaddr \<Rightarrow> (nat \<times> hwaddr) option" where
  "dma2d_channel_offset offset =
     (if offset < 0x100 \<or> offset \<ge> 0x100 + 2 * 0x100 then None
      else Some (unat ((offset - 0x100) div 0x100), (offset - 0x100) mod 0x100))"

definition dma2d_read_channel :: "hwaddr \<Rightarrow> BL808DMA2DChannel \<Rightarrow> u64" where
  "dma2d_read_channel choff ch =
     (if choff = 0x00 then ucast (d2_src_addr ch)
      else if choff = 0x04 then ucast (d2_dst_addr ch)
      else if choff = 0x08 then ucast (d2_lli ch)
      else if choff = 0x0c then ucast (d2_bus ch)
      else if choff = 0x10 then ucast (src_cnt ch)
      else if choff = 0x14 then ucast (src_xic ch)
      else if choff = 0x18 then ucast (src_yic ch)
      else if choff = 0x1c then ucast (dst_cnt ch)
      else if choff = 0x20 then ucast (dst_xic ch)
      else if choff = 0x24 then ucast (dst_yic ch)
      else if choff = 0x74 then ucast (d2_key ch)
      else if choff = 0x78 then ucast (key_en ch)
      else if choff = 0x7c then ucast (d2_cfg ch)
      else 0)"

definition bl808_dma2d_read :: "hwaddr \<Rightarrow> nat \<Rightarrow> BL808DMA2DState \<Rightarrow> u64" where
  "bl808_dma2d_read offset sz s =
     (if sz \<noteq> 4 then 0
      else if offset = 0x000 then ucast (d2_int_status s)
      else if offset = 0x004 then ucast (d2_int_tc_status s)
      else if offset = 0x008 then 0
      else if offset = 0x00c then ucast (bl808_dma2d_enabled_channels s)
      else if offset = 0x010 then ucast (global_cfg s)
      else if offset = 0x014 then ucast (d2_sync s)
      else if offset = 0x020 then ucast (d2_soft_breq s)
      else if offset = 0x024 then ucast (d2_soft_lbreq s)
      else if offset = 0x028 then ucast (d2_soft_sreq s)
      else if offset = 0x02c then ucast (d2_soft_lsreq s)
      else if offset = 0x038 then ucast (d2_qos s)
      else case dma2d_channel_offset offset of None \<Rightarrow> 0 | Some (chno, choff) \<Rightarrow> dma2d_read_channel choff (d2_channels s ! chno))"

definition dma2d_write_cfg :: "u32 \<Rightarrow> BL808DMA2DChannel \<Rightarrow> BL808DMA2DChannel" where
  "dma2d_write_cfg val ch =
     (let ch = ch\<lparr>d2_cfg := val AND (DMA2D_CH_EN OR DMA2D_REG_2D_EN OR BIT 14)\<rparr>
      in if \<not> tst (d2_cfg ch) DMA2D_CH_EN then ch\<lparr>d2_active := False, d2_cfg := d2_cfg ch OR DMA2D_FIFO_EMPTY\<rparr> else ch)"

definition dma2d_write_channel :: "nat \<Rightarrow> hwaddr \<Rightarrow> u32 \<Rightarrow> BL808DMA2DState \<Rightarrow> BL808DMA2DState" where
  "dma2d_write_channel chno choff val s =
     (let ch = d2_channels s ! chno in
     (if choff = 0x00 then set_channel2d chno (ch\<lparr>d2_src_addr := val\<rparr>) s
      else if choff = 0x04 then set_channel2d chno (ch\<lparr>d2_dst_addr := val\<rparr>) s
      else if choff = 0x08 then set_channel2d chno (ch\<lparr>d2_lli := val\<rparr>) s
      else if choff = 0x0c then set_channel2d chno (ch\<lparr>d2_bus := val\<rparr>) s
      else if choff = 0x10 then set_channel2d chno (ch\<lparr>src_cnt := val\<rparr>) s
      else if choff = 0x14 then set_channel2d chno (ch\<lparr>src_xic := val\<rparr>) s
      else if choff = 0x18 then set_channel2d chno (ch\<lparr>src_yic := val\<rparr>) s
      else if choff = 0x1c then set_channel2d chno (ch\<lparr>dst_cnt := val\<rparr>) s
      else if choff = 0x20 then set_channel2d chno (ch\<lparr>dst_xic := val\<rparr>) s
      else if choff = 0x24 then set_channel2d chno (ch\<lparr>dst_yic := val\<rparr>) s
      else if choff = 0x74 then set_channel2d chno (ch\<lparr>d2_key := val\<rparr>) s
      else if choff = 0x78 then set_channel2d chno (ch\<lparr>key_en := val AND (DMA2D_KEY_EN_BIT OR push_bit 1 0x3 OR push_bit 4 0xf)\<rparr>) s
      else if choff = 0x7c then bl808_dma2d_schedule (set_channel2d chno (dma2d_write_cfg val ch) s)
      else s))"

definition bl808_dma2d_write :: "hwaddr \<Rightarrow> u64 \<Rightarrow> nat \<Rightarrow> BL808DMA2DState \<Rightarrow> BL808DMA2DState" where
  "bl808_dma2d_write offset value sz s =
     (let val = (ucast value :: u32) in
      if sz \<noteq> 4 then s
      else if d2_reset_asserted s then s
      else if offset = 0x008 then
        bl808_dma2d_update_irq (s\<lparr>d2_int_tc_status := d2_int_tc_status s AND NOT val, d2_int_status := d2_int_status s AND NOT val\<rparr>)
      else if offset = 0x010 then bl808_dma2d_schedule (s\<lparr>global_cfg := val AND 0x00ff0001\<rparr>)
      else if offset = 0x014 then s\<lparr>d2_sync := val\<rparr>
      else if offset = 0x020 then s\<lparr>d2_soft_breq := val\<rparr>
      else if offset = 0x024 then s\<lparr>d2_soft_lbreq := val\<rparr>
      else if offset = 0x028 then s\<lparr>d2_soft_sreq := val\<rparr>
      else if offset = 0x02c then s\<lparr>d2_soft_lsreq := val\<rparr>
      else if offset = 0x038 then s\<lparr>d2_qos := val AND 0x3\<rparr>
      else case dma2d_channel_offset offset of None \<Rightarrow> s | Some (chno, choff) \<Rightarrow> dma2d_write_channel chno choff val s)"

section \<open>Clock and reset\<close>

definition zero_channel2d :: BL808DMA2DChannel where
  "zero_channel2d = \<lparr>d2_src_addr = 0, d2_dst_addr = 0, d2_lli = 0, d2_bus = 0, src_cnt = 0, src_xic = 0, src_yic = 0, dst_cnt = 0,
     dst_xic = 0, dst_yic = 0, d2_key = 0, key_en = 0, d2_cfg = 0, d2_active = False\<rparr>"

definition bl808_dma2d_reset :: "BL808DMA2DState \<Rightarrow> BL808DMA2DState" where
  "bl808_dma2d_reset s = bl808_dma2d_update_irq
     (s\<lparr>d2_channels := replicate 2 (zero_channel2d\<lparr>d2_cfg := DMA2D_FIFO_EMPTY\<rparr>), d2_int_status := 0, d2_int_tc_status := 0,
        global_cfg := 0, d2_sync := 0, d2_soft_breq := 0, d2_soft_lbreq := 0, d2_soft_sreq := 0, d2_soft_lsreq := 0, d2_qos := 0,
        d2_run_scheduled := False\<rparr>)"

definition bl808_dma2d_set_clock_enabled :: "bool \<Rightarrow> BL808DMA2DState \<Rightarrow> BL808DMA2DState" where
  "bl808_dma2d_set_clock_enabled enabled s =
     (let s = s\<lparr>d2_clock_enabled := enabled\<rparr>;
          s = (if \<not> enabled then s\<lparr>d2_run_scheduled := False\<rparr> else bl808_dma2d_schedule s)
      in bl808_dma2d_update_irq s)"

definition bl808_dma2d_set_reset_asserted :: "bool \<Rightarrow> BL808DMA2DState \<Rightarrow> BL808DMA2DState" where
  "bl808_dma2d_set_reset_asserted asserted s =
     (let s = s\<lparr>d2_reset_asserted := asserted\<rparr>;
          s = (if asserted then bl808_dma2d_reset (s\<lparr>d2_run_scheduled := False\<rparr>) else bl808_dma2d_schedule s)
      in bl808_dma2d_update_irq s)"

text \<open>The object as QEMU allocates it (all bytes zero), after the instance initialiser.\<close>

definition bl808_dma2d_init :: BL808DMA2DState where
  "bl808_dma2d_init =
     \<lparr>d2_irq = [False, False], d2_channels = replicate 2 zero_channel2d, d2_int_status = 0, d2_int_tc_status = 0, global_cfg = 0,
      d2_sync = 0, d2_soft_breq = 0, d2_soft_lbreq = 0, d2_soft_sreq = 0, d2_soft_lsreq = 0, d2_qos = 0, d2_run_scheduled = False,
      d2_clock_enabled = False, d2_reset_asserted = False\<rparr>"

section \<open>Operations of the device\<close>

datatype dma2d_op =
    Dma2d_write hwaddr u64 nat
  | Dma2d_run
  | Dma2d_reset
  | Dma2d_clock bool
  | Dma2d_reset_line bool

text \<open>The bottom half runs only when it is scheduled; reads change nothing.\<close>

fun dma2d_step :: "dma2d_op \<Rightarrow> BL808DMA2DState \<times> gmem \<Rightarrow> BL808DMA2DState \<times> gmem" where
  "dma2d_step (Dma2d_write offset value sz) (s, m) = (bl808_dma2d_write offset value sz s, m)"
| "dma2d_step Dma2d_run (s, m) = (if d2_run_scheduled s then bl808_dma2d_run_bh (s, m) else (s, m))"
| "dma2d_step Dma2d_reset (s, m) = (bl808_dma2d_reset s, m)"
| "dma2d_step (Dma2d_clock b) (s, m) = (bl808_dma2d_set_clock_enabled b s, m)"
| "dma2d_step (Dma2d_reset_line b) (s, m) = (bl808_dma2d_set_reset_asserted b s, m)"

end
