(* ===== verification/Dma2d_Props.thy ===== *)
theory Dma2d_Props
  imports Dma2d
begin

text \<open>
  Correctness of the 2D DMA model: the nested loops are a sequence of single copies, which for
  rectangles that do not overlap amounts to copying all pixels at once, except those that the
  colour key leaves out.  Enabled channels never wait in vain, and the interrupt lines are exact.
\<close>

section \<open>Copies one after another\<close>

definition in_datum :: "nat \<Rightarrow> hwaddr \<Rightarrow> hwaddr \<Rightarrow> bool" where
  "in_datum w base a \<longleftrightarrow> unat (a - base) < w"

lemma load_le_cong: "(\<And>a. in_datum w s a \<Longrightarrow> m' a = m a) \<Longrightarrow> w \<le> 8 \<Longrightarrow> load_le w m' s = load_le w m s"
proof (induction w arbitrary: s)
  case (Suc w)
  have "m' a = m a" if "in_datum w (s + 1) a" for a
    using Suc.prems(1) [of a] that by (cases "a = s") (simp_all add: in_datum_def offset_less_Suc)
  then show ?case using Suc.IH [of "s + 1"] Suc.prems(1) [of s] Suc.prems(2) by (simp add: in_datum_def)
qed simp

lemma copy_datum_copied:
  assumes "w \<in> {1, 2, 4, 8}"
  shows "copy_datum ch w w src dst m = (if bl808_dma2d_color_key_skip ch (load_le w m src) then m else copied src dst w m)"
  using assms copy_value [OF assms, of dst m src]
  by (auto simp: copy_datum_def bl808_dma2d_read_mem_def bl808_dma2d_write_mem_def bl808_dma_read_mem_value_def
      bl808_dma_write_mem_value_def Let_def)

text \<open>The data of a list of copies lie apart: destinations from each other and from all sources.\<close>

definition apart :: "nat \<Rightarrow> hwaddr \<Rightarrow> hwaddr \<Rightarrow> bool" where
  "apart w a b \<longleftrightarrow> (\<forall>x. \<not> (in_datum w a x \<and> in_datum w b x))"

definition copies_apart :: "nat \<Rightarrow> (hwaddr \<times> hwaddr) list \<Rightarrow> bool" where
  "copies_apart w ps \<longleftrightarrow> sorted_wrt (\<lambda>p q. apart w (snd p) (snd q)) ps \<and> (\<forall>p \<in> set ps. \<forall>q \<in> set ps. apart w (snd p) (fst q))"

text \<open>Memory after all copies at once.\<close>

definition blitted :: "BL808DMA2DChannel \<Rightarrow> nat \<Rightarrow> (hwaddr \<times> hwaddr) list \<Rightarrow> gmem \<Rightarrow> gmem \<Rightarrow> bool" where
  "blitted ch w ps m m' \<longleftrightarrow>
     (\<forall>a. (\<forall>p \<in> set ps. \<not> in_datum w (snd p) a) \<longrightarrow> m' a = m a) \<and>
     (\<forall>p \<in> set ps. \<forall>a. in_datum w (snd p) a \<longrightarrow>
        m' a = (if bl808_dma2d_color_key_skip ch (load_le w m (fst p)) then m a else m (fst p + (a - snd p))))"

lemma copies_blitted:
  assumes "w \<in> {1, 2, 4, 8}" and "copies_apart w ps"
  shows "blitted ch w ps m (fold (\<lambda>(s, d). copy_datum ch w w s d) ps m)"
  using assms(2)
proof (induction ps arbitrary: m)
  case Nil
  then show ?case by (simp add: blitted_def)
next
  case (Cons p ps)
  obtain s d where p: "p = (s, d)" by fastforce
  let ?m = "copy_datum ch w w s d m" and ?f = "\<lambda>m. fold (\<lambda>(s, d). copy_datum ch w w s d) ps m"
  have w: "w \<le> 8" using assms(1) by auto
  have ap: "copies_apart w ps" "\<And>q. q \<in> set ps \<Longrightarrow> apart w d (snd q) \<and> apart w d (fst q)"
    using Cons.prems unfolding copies_apart_def p by auto
  have out: "?m a = m a" if "\<not> in_datum w d a" for a
    using that assms(1) by (simp add: copy_datum_copied copied_def in_datum_def)
  have src: "?m (fst q + (a - snd q)) = m (fst q + (a - snd q))" if "q \<in> set ps" "in_datum w (snd q) a" for q a
  proof -
    have "in_datum w (fst q) (fst q + (a - snd q))" using that(2) by (simp add: in_datum_def)
    then show ?thesis using ap(2) [OF that(1)] out by (auto simp: apart_def)
  qed
  have ld: "load_le w ?m (fst q) = load_le w m (fst q)" if "q \<in> set ps" for q
    using ap(2) [OF that] out w by (intro load_le_cong) (auto simp: apart_def)
  have dst: "?m a = m a" if "q \<in> set ps" "in_datum w (snd q) a" for q a
    using ap(2) [OF that(1)] that(2) out by (auto simp: apart_def)
  note IH = Cons.IH [OF ap(1), of ?m, unfolded blitted_def]
  have "?f ?m a = m a" if "\<not> in_datum w d a" "\<forall>q \<in> set ps. \<not> in_datum w (snd q) a" for a
    using IH that out by simp
  moreover have "?f ?m a = (if bl808_dma2d_color_key_skip ch (load_le w m s) then m a else m (s + (a - d)))" if "in_datum w d a" for a
  proof -
    have "\<forall>q \<in> set ps. \<not> in_datum w (snd q) a" using ap(2) that by (auto simp: apart_def)
    then have "?f ?m a = ?m a" using IH by blast
    then show ?thesis using that assms(1) by (simp add: copy_datum_copied copied_def in_datum_def)
  qed
  moreover have "?f ?m a = (if bl808_dma2d_color_key_skip ch (load_le w m (fst q)) then m a else m (fst q + (a - snd q)))"
    if "q \<in> set ps" "in_datum w (snd q) a" for q a
    using IH that src [OF that] ld [OF that(1)] dst [OF that] by simp
  ultimately show ?case unfolding blitted_def p by simp
qed

section \<open>The pixels of a rectangle\<close>

text \<open>The address of the pixel in column \<open>x\<close> of row \<open>y\<close>, where a row has \<open>n\<close> pixels.\<close>

definition pixel :: "hwaddr \<Rightarrow> u32 \<Rightarrow> u32 \<Rightarrow> nat \<Rightarrow> nat \<Rightarrow> nat \<Rightarrow> hwaddr" where
  "pixel base xic yic n x y = base + of_nat y * (of_nat n * scast xic + scast yic) + of_nat x * scast xic"

definition row_pairs :: "BL808DMA2DChannel \<Rightarrow> nat \<Rightarrow> hwaddr \<Rightarrow> hwaddr \<Rightarrow> (hwaddr \<times> hwaddr) list" where
  "row_pairs ch n src dst = map (\<lambda>x. (src + of_nat x * scast (src_xic ch), dst + of_nat x * scast (dst_xic ch))) [0..<n]"

fun rect_pairs :: "BL808DMA2DChannel \<Rightarrow> nat \<Rightarrow> nat \<Rightarrow> hwaddr \<Rightarrow> hwaddr \<Rightarrow> (hwaddr \<times> hwaddr) list" where
  "rect_pairs ch n 0 src dst = []"
| "rect_pairs ch n (Suc k) src dst = row_pairs ch n src dst @
     rect_pairs ch n k (pixel src (src_xic ch) (src_yic ch) n 0 1) (pixel dst (dst_xic ch) (dst_yic ch) n 0 1)"

lemma upt_Suc_shift: "[0..<Suc n] = 0 # map Suc [0..<n]"
  by (simp only: map_Suc_upt upt_conv_Cons [of 0 "Suc n"] zero_less_Suc)

lemma row_loop_fold:
  "row_loop ch w n src dst m = (src + of_nat n * scast (src_xic ch), dst + of_nat n * scast (dst_xic ch),
     fold (\<lambda>(s, d). copy_datum ch w w s d) (row_pairs ch n src dst) m)"
proof (induction n arbitrary: src dst m)
  case 0
  then show ?case by (simp add: row_pairs_def)
next
  case (Suc n)
  have "row_pairs ch (Suc n) src dst = (src, dst) # row_pairs ch n (src + scast (src_xic ch)) (dst + scast (dst_xic ch))"
    unfolding row_pairs_def upt_Suc_shift by (simp add: algebra_simps comp_def)
  then show ?case by (simp add: Suc algebra_simps)
qed

lemma rows_loop_fold:
  "rows_loop ch w n k src dst m = (pixel src (src_xic ch) (src_yic ch) n 0 k, pixel dst (dst_xic ch) (dst_yic ch) n 0 k,
     fold (\<lambda>(s, d). copy_datum ch w w s d) (rect_pairs ch n k src dst) m)"
proof (induction k arbitrary: src dst m)
  case (Suc k)
  then show ?case by (simp add: row_loop_fold pixel_def algebra_simps)
qed (simp add: pixel_def)

lemma rect_pairs_pixels:
  "rect_pairs ch n k src dst = concat (map (\<lambda>y. map (\<lambda>x. (pixel src (src_xic ch) (src_yic ch) n x y, pixel dst (dst_xic ch) (dst_yic ch) n x y))
     [0..<n]) [0..<k])"
proof (induction k arbitrary: src dst)
  case (Suc k)
  have step: "pixel (pixel b xi yi n 0 1) xi yi n x y = pixel b xi yi n x (Suc y)" for b xi yi x y
    by (simp add: pixel_def algebra_simps)
  show ?case
    unfolding upt_Suc_shift [of k] rect_pairs.simps Suc
    by (simp add: comp_def step [unfolded One_nat_def] row_pairs_def) (simp add: pixel_def)
qed simp

text \<open>A rectangle whose pixels lie apart.\<close>

definition rect_apart :: "nat \<Rightarrow> nat \<Rightarrow> nat \<Rightarrow> (nat \<Rightarrow> nat \<Rightarrow> hwaddr) \<Rightarrow> (nat \<Rightarrow> nat \<Rightarrow> hwaddr) \<Rightarrow> bool" where
  "rect_apart w n k S D \<longleftrightarrow> (\<forall>x < n. \<forall>y < k. \<forall>x' < n. \<forall>y' < k.
     ((x, y) \<noteq> (x', y') \<longrightarrow> apart w (D x y) (D x' y')) \<and> apart w (D x y) (S x' y'))"

lemma sorted_wrt_concat:
  "(\<forall>xs \<in> set xss. sorted_wrt P xs) \<Longrightarrow> sorted_wrt (\<lambda>xs ys. \<forall>x \<in> set xs. \<forall>y \<in> set ys. P x y) xss \<Longrightarrow> sorted_wrt P (concat xss)"
  by (induction xss) (auto simp: sorted_wrt_append)

lemma rect_copies_apart:
  assumes "rect_apart w n k S D"
  shows "copies_apart w (concat (map (\<lambda>y. map (\<lambda>x. (S x y, D x y)) [0..<n]) [0..<k]))"
proof -
  have "sorted_wrt (\<lambda>p q. apart w (snd p) (snd q)) (map (\<lambda>x. (S x y, D x y)) [0..<n])" if "y < k" for y
    using assms that by (auto simp: sorted_wrt_map rect_apart_def sorted_wrt_iff_nth_less)
  moreover have "sorted_wrt (\<lambda>xs ys. \<forall>p \<in> set xs. \<forall>q \<in> set ys. apart w (snd p) (snd q))
      (map (\<lambda>y. map (\<lambda>x. (S x y, D x y)) [0..<n]) [0..<k])"
    using assms by (auto simp: sorted_wrt_map rect_apart_def sorted_wrt_iff_nth_less)
  ultimately show ?thesis using assms unfolding copies_apart_def by (auto intro!: sorted_wrt_concat simp: rect_apart_def)
qed

section \<open>A run of a channel\<close>

lemma width_bytes_range: "bl808_dma2d_width_bytes bus dst \<in> {1, 2, 4, 8}"
  by (simp add: bl808_dma2d_width_bytes_def Let_def)

text \<open>A channel that is over: idle, disabled, its interrupt raised when it asked for one.\<close>

definition dma2d_done :: "BL808DMA2DChannel \<Rightarrow> nat \<Rightarrow> BL808DMA2DState \<Rightarrow> BL808DMA2DState \<Rightarrow> bool" where
  "dma2d_done ch c s s' \<longleftrightarrow> \<not> d2_active (d2_channels s' ! c) \<and> \<not> tst (d2_cfg (d2_channels s' ! c)) DMA2D_CH_EN \<and>
     d2_int_status s' = (if tst (d2_bus ch) DMA2D_I then d2_int_status s OR BIT c else d2_int_status s)"

lemma tst_disabled: "\<not> tst ((x AND NOT 1) OR 0x10000) (1 :: u32)" "\<not> tst ((x AND - 2) OR 0x10000) (1 :: u32)"
  by (simp_all add: tst_def bit.conj_disj_distrib2 and.assoc)

lemma complete_channel_done:
  assumes "c < length (d2_channels s)" and "d2_bus (d2_channels s ! c) = d2_bus ch"
  shows "dma2d_done ch c s (bl808_dma2d_complete_channel c s)"
  using assms by (simp add: dma2d_done_def bl808_dma2d_complete_channel_def set_channel2d_def Let_def tst_disabled)

text \<open>
  C22. The 2D DMA controller copies a rectangle exactly.  When a channel runs in 2D mode and the pixels of
  the destination overlap neither each other nor the source, then every pixel of the destination
  becomes the corresponding pixel of the source, with signed strides in both directions, except
  where the colour key matches the source pixel, whose destination keeps its contents; no other
  byte of memory changes, and the channel is completed.
\<close>

theorem dma2d_rectangle_exact:
  assumes len: "length (d2_channels s) = 2" "c < 2" and ch: "ch = d2_channels s ! c"
    and on: "bl808_dma2d_active s" "tst (global_cfg s) DMA2D_E" "tst (d2_cfg ch) DMA2D_CH_EN" "tst (d2_cfg ch) DMA2D_REG_2D_EN"
    and w: "w = bl808_dma2d_width_bytes (d2_bus ch) False"
    and n: "n = unat (src_cnt ch AND 0xffff)" and k: "k = unat (drop_bit 16 (src_cnt ch) AND 0xffff)"
    and S: "S = pixel (ucast (d2_src_addr ch)) (src_xic ch) (src_yic ch) n"
    and D: "D = pixel (ucast (d2_dst_addr ch)) (dst_xic ch) (dst_yic ch) n" and apart: "rect_apart w n k S D"
    and run: "bl808_dma2d_run_channel c (s, m) = (s', m')"
  shows "(\<forall>x < n. \<forall>y < k. \<forall>i < w. m' (D x y + of_nat i) =
      (if bl808_dma2d_color_key_skip ch (load_le w m (S x y)) then m (D x y + of_nat i) else m (S x y + of_nat i))) \<and>
    (\<forall>a. (\<forall>x < n. \<forall>y < k. \<not> in_datum w (D x y) a) \<longrightarrow> m' a = m a) \<and> dma2d_done ch c s s'"
proof -
  let ?ch = "ch\<lparr>d2_active := True, d2_cfg := d2_cfg ch AND NOT DMA2D_FIFO_EMPTY\<rparr>"
  let ?ps = "concat (map (\<lambda>y. map (\<lambda>x. (S x y, D x y)) [0..<n]) [0..<k])"
  have "(d2_cfg ch AND NOT DMA2D_FIFO_EMPTY) AND DMA2D_REG_2D_EN = d2_cfg ch AND DMA2D_REG_2D_EN" by (simp add: and.assoc)
  then have two: "tst (d2_cfg ch AND NOT DMA2D_FIFO_EMPTY) DMA2D_REG_2D_EN" using on(4) by (simp add: tst_def)
  have rp: "rect_pairs ?ch n k (ucast (d2_src_addr ch)) (ucast (d2_dst_addr ch)) = ?ps" by (simp add: rect_pairs_pixels S D)
  obtain src dst where loop: "rows_loop ?ch w n k (ucast (d2_src_addr ch)) (ucast (d2_dst_addr ch)) m =
      (src, dst, fold (\<lambda>(s, d). copy_datum ?ch w w s d) ?ps m)"
    by (simp only: rows_loop_fold rp)
  have run2d: "(s', m') = bl808_dma2d_run_2d c (set_channel2d c ?ch s) m"
    using run on(1-3) two ch by (simp add: bl808_dma2d_run_channel_def Let_def)
  then have m': "m' = fold (\<lambda>(s, d). copy_datum ?ch w w s d) ?ps m"
    and s': "s' = bl808_dma2d_complete_channel c (set_channel2d c (?ch\<lparr>d2_src_addr := ucast src, d2_dst_addr := ucast dst\<rparr>) (set_channel2d c ?ch s))"
    using loop len by (simp_all add: bl808_dma2d_run_2d_def set_channel2d_def w n k Let_def)
  have bl: "blitted ?ch w ?ps m m'"
    unfolding m' by (rule copies_blitted) (use width_bytes_range w rect_copies_apart [OF apart] in auto)
  have skip: "bl808_dma2d_color_key_skip ?ch v = bl808_dma2d_color_key_skip ch v" for v by (simp add: bl808_dma2d_color_key_skip_def)
  have w8: "w \<le> 8" using width_bytes_range [of "d2_bus ch" False] w by auto
  have "m' (D x y + of_nat i) = (if bl808_dma2d_color_key_skip ch (load_le w m (S x y)) then m (D x y + of_nat i) else m (S x y + of_nat i))"
    if "x < n" "y < k" "i < w" for x y i
  proof -
    have "unat (of_nat i :: hwaddr) = i" using that(3) w8 by (simp add: unat_of_nat_small)
    then have "in_datum w (D x y) (D x y + of_nat i)" using that(3) by (simp add: in_datum_def)
    moreover have "(S x y, D x y) \<in> set ?ps" using that by (auto intro!: bexI [of _ y] image_eqI [of _ _ x])
    ultimately show ?thesis using bl unfolding blitted_def skip by fastforce
  qed
  moreover have "m' a = m a" if "\<forall>x < n. \<forall>y < k. \<not> in_datum w (D x y) a" for a
    using bl that unfolding blitted_def by auto
  moreover have "dma2d_done ch c s s'"
    using len complete_channel_done [of c "set_channel2d c (?ch\<lparr>d2_src_addr := ucast src, d2_dst_addr := ucast dst\<rparr>) (set_channel2d c ?ch s)" ch]
    unfolding s' by (simp add: dma2d_done_def set_channel2d_def)
  ultimately show ?thesis by blast
qed

text \<open>
  Two rows of two bytes are taken from a picture that is four bytes wide and put one below the
  other; the byte 0x22 is transparent.
\<close>

definition dma2d_example :: BL808DMA2DState where
  "dma2d_example = fst (fold dma2d_step
     [Dma2d_clock True, Dma2d_write 0x100 0x1000 4, Dma2d_write 0x104 0x2000 4, Dma2d_write 0x10c 0x80000000 4, Dma2d_write 0x110 0x20002 4,
      Dma2d_write 0x114 1 4, Dma2d_write 0x118 2 4, Dma2d_write 0x120 1 4, Dma2d_write 0x174 0x22 4, Dma2d_write 0x178 0x11 4,
      Dma2d_write 0x17c 0x80000001 4, Dma2d_write 0x010 1 4] (bl808_dma2d_init, \<lambda>_. 0))"

definition dma2d_picture :: gmem where
  "dma2d_picture = (\<lambda>_. 0)(0x1000 := 0x11, 0x1001 := 0x22, 0x1004 := 0x33, 0x1005 := 0x44, 0x2001 := 0x55)"

lemma dma2d_example_fields:
  "length (d2_channels dma2d_example) = 2" "bl808_dma2d_active dma2d_example" "tst (global_cfg dma2d_example) DMA2D_E"
  "d2_channels dma2d_example ! 0 = \<lparr>d2_src_addr = 0x1000, d2_dst_addr = 0x2000, d2_lli = 0, d2_bus = 0x80000000, src_cnt = 0x20002,
     src_xic = 1, src_yic = 2, dst_cnt = 0, dst_xic = 1, dst_yic = 0, d2_key = 0x22, key_en = 0x11, d2_cfg = 0x80000001, d2_active = False\<rparr>"
  "d2_int_status dma2d_example = 0" "d2_run_scheduled dma2d_example"
  unfolding dma2d_example_def by code_simp+

lemma in_datum_1: "in_datum 1 base a \<longleftrightarrow> a = base" "apart 1 a b \<longleftrightarrow> a \<noteq> b"
  by (auto simp: apart_def in_datum_def unat_eq_0)

theorem dma2d_rectangle_exact_witness:
  "map (snd (bl808_dma2d_run_channel 0 (dma2d_example, dma2d_picture))) [0x2000, 0x2001, 0x2002, 0x2003, 0x2004] = [0x11, 0x55, 0x33, 0x44, 0]"
proof -
  let ?ch = "d2_channels dma2d_example ! 0"
  let ?S = "pixel 0x1000 1 2 2" and ?D = "pixel 0x2000 1 0 2"
  have px: "pixel b 1 2 2 x y = b + of_nat y * 4 + of_nat x" "pixel b 1 0 2 x y = b + of_nat y * 2 + of_nat x" for b x y
    by (simp_all add: pixel_def)
  have fields: "tst (d2_cfg ?ch) 1" "tst (d2_cfg ?ch) 0x80000000" "1 = bl808_dma2d_width_bytes (d2_bus ?ch) False"
    "2 = unat (src_cnt ?ch AND 0xffff)" "2 = unat (drop_bit 16 (src_cnt ?ch) AND 0xffff)"
    "?S = pixel (ucast (d2_src_addr ?ch)) (src_xic ?ch) (src_yic ?ch) 2" "?D = pixel (ucast (d2_dst_addr ?ch)) (dst_xic ?ch) (dst_yic ?ch) 2"
    unfolding dma2d_example_fields(4) by (simp_all add: tst_def bl808_dma2d_width_bytes_def)
  have apart: "rect_apart 1 2 2 ?S ?D" unfolding rect_apart_def in_datum_1 px by (auto simp: less_2_cases_iff)
  obtain s' m' where run: "bl808_dma2d_run_channel 0 (dma2d_example, dma2d_picture) = (s', m')" by fastforce
  note ex = dma2d_rectangle_exact [OF dma2d_example_fields(1) _ refl dma2d_example_fields(2,3) fields apart run]
  have val: "m' (?D x y) = (if bl808_dma2d_color_key_skip ?ch (load_le 1 dma2d_picture (?S x y)) then dma2d_picture (?D x y) else dma2d_picture (?S x y))"
    if "x < 2" "y < 2" for x y
    using ex that by fastforce
  have out: "m' 0x2004 = dma2d_picture 0x2004" using ex unfolding in_datum_1 px by (auto simp: less_2_cases_iff)
  have skip: "bl808_dma2d_color_key_skip ?ch (ucast v) \<longleftrightarrow> (ucast (ucast v :: u64) AND 0xff :: u32) = 0x22" for v :: u8
    unfolding dma2d_example_fields(4) by (simp add: bl808_dma2d_color_key_skip_def key_bytes_def tst_def Let_def)
  have load: "load_le 1 dma2d_picture a = ucast (dma2d_picture a)" for a by simp
  show ?thesis
    using val [of 0 0] val [of 1 0] val [of 0 1] val [of 1 1] out run unfolding load skip px by (simp add: dma2d_picture_def)
qed

section \<open>The interrupt lines\<close>

definition dma2d_level :: "nat \<Rightarrow> BL808DMA2DState \<Rightarrow> bool" where
  "dma2d_level i s \<longleftrightarrow> bl808_dma2d_active s \<and> tst (d2_int_status s) (BIT i)"

definition dma2d_exact :: "nat \<Rightarrow> BL808DMA2DState \<Rightarrow> bool" where
  "dma2d_exact i s \<longleftrightarrow> d2_irq s ! i = dma2d_level i s"

lemma update_irq_exact: "i < 2 \<Longrightarrow> dma2d_exact i (bl808_dma2d_update_irq s)"
  by (simp add: dma2d_exact_def bl808_dma2d_update_irq_def dma2d_level_def bl808_dma2d_active_def del: upt_Suc)

lemma set_channel2d_simps [simp]:
  "d2_irq (set_channel2d c ch s) = d2_irq s" "d2_int_status (set_channel2d c ch s) = d2_int_status s"
  "global_cfg (set_channel2d c ch s) = global_cfg s" "d2_run_scheduled (set_channel2d c ch s) = d2_run_scheduled s"
  "bl808_dma2d_active (set_channel2d c ch s) = bl808_dma2d_active s" "length (d2_channels (set_channel2d c ch s)) = length (d2_channels s)"
  by (simp_all add: set_channel2d_def bl808_dma2d_active_def)

lemma dma2d_exact_cong:
  "d2_irq s' = d2_irq s \<Longrightarrow> d2_int_status s' = d2_int_status s \<Longrightarrow> bl808_dma2d_active s' = bl808_dma2d_active s \<Longrightarrow> dma2d_exact i s' = dma2d_exact i s"
  by (simp add: dma2d_exact_def dma2d_level_def)

lemma schedule_exact: "dma2d_exact i (bl808_dma2d_schedule s) = dma2d_exact i s"
  by (rule dma2d_exact_cong) (simp_all add: bl808_dma2d_schedule_def bl808_dma2d_active_def)

lemma write_channel_exact: "dma2d_exact i (dma2d_write_channel c choff v s) = dma2d_exact i s"
  unfolding dma2d_write_channel_def Let_def
  by (simp add: schedule_exact dma2d_exact_cong [of "set_channel2d _ _ s" s])

lemma dma2d_write_exact:
  assumes "i < 2" and "dma2d_exact i s"
  shows "dma2d_exact i (bl808_dma2d_write offset v sz s)"
proof -
  have field: "dma2d_exact i (s\<lparr>global_cfg := x\<rparr>)" "dma2d_exact i (s\<lparr>d2_sync := x\<rparr>)" "dma2d_exact i (s\<lparr>d2_soft_breq := x\<rparr>)"
    "dma2d_exact i (s\<lparr>d2_soft_lbreq := x\<rparr>)" "dma2d_exact i (s\<lparr>d2_soft_sreq := x\<rparr>)" "dma2d_exact i (s\<lparr>d2_soft_lsreq := x\<rparr>)"
    "dma2d_exact i (s\<lparr>d2_qos := x\<rparr>)" for x
    using assms(2) by (simp_all add: dma2d_exact_def dma2d_level_def bl808_dma2d_active_def)
  show ?thesis
    unfolding bl808_dma2d_write_def Let_def
    using assms by (simp add: update_irq_exact schedule_exact write_channel_exact field split: option.split)
qed

lemma dma2d_step_exact:
  assumes "i < 2" and "dma2d_exact i (fst sm)"
  shows "dma2d_exact i (fst (dma2d_step op sm))"
proof -
  obtain s m where sm: "sm = (s, m)" by fastforce
  show ?thesis
    using assms unfolding sm
    by (cases op) (simp_all add: dma2d_write_exact update_irq_exact bl808_dma2d_run_bh_def bl808_dma2d_reset_def
        bl808_dma2d_set_clock_enabled_def bl808_dma2d_set_reset_asserted_def split_beta Let_def)
qed

interpretation dma2d_line0: gated_irq_device dma2d_step "\<lambda>op. True" "\<lambda>sm. fst sm = bl808_dma2d_init" "\<lambda>sm. d2_irq (fst sm) ! 0"
  "\<lambda>sm. dma2d_level 0 (fst sm)" "\<lambda>sm. bl808_dma2d_active (fst sm)"
  using dma2d_step_exact [of 0] by unfold_locales (auto simp: bl808_dma2d_init_def dma2d_exact_def dma2d_level_def)

interpretation dma2d_line1: gated_irq_device dma2d_step "\<lambda>op. True" "\<lambda>sm. fst sm = bl808_dma2d_init" "\<lambda>sm. d2_irq (fst sm) ! 1"
  "\<lambda>sm. dma2d_level 1 (fst sm)" "\<lambda>sm. bl808_dma2d_active (fst sm)"
  using dma2d_step_exact [of 1] by unfold_locales (auto simp: bl808_dma2d_init_def dma2d_exact_def dma2d_level_def)

section \<open>Scheduling\<close>

definition dma2d_runnable :: "BL808DMA2DState \<Rightarrow> bool" where
  "dma2d_runnable s \<longleftrightarrow> bl808_dma2d_active s \<and> tst (global_cfg s) DMA2D_E \<and> bl808_dma2d_enabled_channels s \<noteq> 0"

definition dma2d_live :: "BL808DMA2DState \<Rightarrow> bool" where
  "dma2d_live s \<longleftrightarrow> length (d2_channels s) = 2 \<and> (dma2d_runnable s \<longrightarrow> d2_run_scheduled s) \<and> (d2_run_scheduled s \<longrightarrow> bl808_dma2d_active s)"

lemma live_length: "dma2d_live s \<Longrightarrow> length (d2_channels s) = 2"
  and live_active: "dma2d_live s \<Longrightarrow> d2_run_scheduled s \<Longrightarrow> bl808_dma2d_active s"
  and live_cong: "dma2d_live s \<Longrightarrow> length (d2_channels s') = length (d2_channels s) \<Longrightarrow> dma2d_runnable s' = dma2d_runnable s \<Longrightarrow>
    d2_run_scheduled s' = d2_run_scheduled s \<Longrightarrow> bl808_dma2d_active s' = bl808_dma2d_active s \<Longrightarrow> dma2d_live s'"
  unfolding dma2d_live_def by metis+

lemma enabled_iff: "bl808_dma2d_enabled_channels s \<noteq> 0 \<longleftrightarrow> 
    tst (d2_cfg (d2_channels s ! 0)) DMA2D_CH_EN \<or> tst (d2_cfg (d2_channels s ! 1)) DMA2D_CH_EN"
  by (auto simp: bl808_dma2d_enabled_channels_def upt_conv_Cons)

lemma schedule_live2d:
  "length (d2_channels s) = 2 \<Longrightarrow> (d2_run_scheduled s \<Longrightarrow> bl808_dma2d_active s) \<Longrightarrow> dma2d_live (bl808_dma2d_schedule s)"
  by (auto simp: dma2d_live_def dma2d_runnable_def bl808_dma2d_schedule_def bl808_dma2d_active_def bl808_dma2d_enabled_channels_def)

lemma update_irq_live2d: "dma2d_live (bl808_dma2d_update_irq s) = dma2d_live s"
  by (simp add: dma2d_live_def dma2d_runnable_def bl808_dma2d_update_irq_def bl808_dma2d_active_def bl808_dma2d_enabled_channels_def)

lemma complete_frame [simp]:
  "global_cfg (bl808_dma2d_complete_channel c s) = global_cfg s" "d2_run_scheduled (bl808_dma2d_complete_channel c s) = d2_run_scheduled s"
  "bl808_dma2d_active (bl808_dma2d_complete_channel c s) = bl808_dma2d_active s"
  "length (d2_channels (bl808_dma2d_complete_channel c s)) = length (d2_channels s)"
  "j \<noteq> c \<Longrightarrow> d2_channels (bl808_dma2d_complete_channel c s) ! j = d2_channels s ! j"
  by (simp_all add: bl808_dma2d_complete_channel_def Let_def bl808_dma2d_active_def set_channel2d_def)

lemma complete_disables:
  "c < length (d2_channels s) \<Longrightarrow> \<not> tst (d2_cfg (d2_channels (bl808_dma2d_complete_channel c s) ! c)) DMA2D_CH_EN"
  using complete_channel_done [of c s "d2_channels s ! c"] by (simp add: dma2d_done_def)

lemma run_channel_frame:
  assumes "s' = fst (bl808_dma2d_run_channel c (s, m))"
  shows "global_cfg s' = global_cfg s" "d2_run_scheduled s' = d2_run_scheduled s" "bl808_dma2d_active s' = bl808_dma2d_active s"
    "length (d2_channels s') = length (d2_channels s)" "j \<noteq> c \<Longrightarrow> d2_channels s' ! j = d2_channels s ! j"
  unfolding assms bl808_dma2d_run_channel_def bl808_dma2d_run_2d_def bl808_dma2d_run_linear_def
  by (simp_all add: split_beta Let_def) (simp_all add: set_channel2d_def)

lemma run_channel_disables:
  assumes "c < length (d2_channels s)" and "bl808_dma2d_active s" and "tst (global_cfg s) DMA2D_E"
  shows "\<not> tst (d2_cfg (d2_channels (fst (bl808_dma2d_run_channel c (s, m))) ! c)) DMA2D_CH_EN"
  using assms
  by (auto simp: bl808_dma2d_run_channel_def bl808_dma2d_run_2d_def bl808_dma2d_run_linear_def split_beta Let_def complete_disables)
    (simp add: set_channel2d_def)

lemma run_bh_live2d:
  assumes len: "length (d2_channels s) = 2" and act: "bl808_dma2d_active s"
  shows "dma2d_live (fst (bl808_dma2d_run_bh (s, m)))"
proof -
  let ?s = "s\<lparr>d2_run_scheduled := False\<rparr>"
  obtain s1 m1 where r1: "bl808_dma2d_run_channel 0 (?s, m) = (s1, m1)" by fastforce
  obtain s2 m2 where r2: "bl808_dma2d_run_channel 1 (s1, m1) = (s2, m2)" by fastforce
  have act': "bl808_dma2d_active ?s" using act by (simp add: bl808_dma2d_active_def)
  note f1 = run_channel_frame [of s1 0 ?s m] and f2 = run_channel_frame [of s2 1 s1 m1]
  have eq: "fst (bl808_dma2d_run_bh (s, m)) = bl808_dma2d_update_irq s2"
    using r1 r2 by (simp add: bl808_dma2d_run_bh_def upt_conv_Cons)
  have "\<not> tst (d2_cfg (d2_channels s2 ! 0)) DMA2D_CH_EN \<and> \<not> tst (d2_cfg (d2_channels s2 ! 1)) DMA2D_CH_EN"
    if "tst (global_cfg s2) DMA2D_E"
    using that f1 f2 r1 r2 len act' run_channel_disables [of 0 ?s m] run_channel_disables [of 1 s1 m1] by simp
  then have "\<not> dma2d_runnable s2" unfolding dma2d_runnable_def enabled_iff by blast
  then show ?thesis using f1 f2 r1 r2 len unfolding eq update_irq_live2d by (simp add: dma2d_live_def)
qed

lemma live_if: "(b \<Longrightarrow> dma2d_live x) \<Longrightarrow> (\<not> b \<Longrightarrow> dma2d_live y) \<Longrightarrow> dma2d_live (if b then x else y)"
  by simp

lemma dma2d_write_live:
  assumes "dma2d_live s"
  shows "dma2d_live (bl808_dma2d_write offset v sz s)"
proof -
  note len = live_length [OF assms] and act = live_active [OF assms]
  have field: "dma2d_live (s\<lparr>d2_sync := x\<rparr>)" "dma2d_live (s\<lparr>d2_soft_breq := x\<rparr>)" "dma2d_live (s\<lparr>d2_soft_lbreq := x\<rparr>)"
    "dma2d_live (s\<lparr>d2_soft_sreq := x\<rparr>)" "dma2d_live (s\<lparr>d2_soft_lsreq := x\<rparr>)" "dma2d_live (s\<lparr>d2_qos := x\<rparr>)"
    "dma2d_live (s\<lparr>d2_int_tc_status := x, d2_int_status := y\<rparr>)" for x y
    by (rule live_cong [OF assms]; simp add: dma2d_runnable_def bl808_dma2d_active_def bl808_dma2d_enabled_channels_def)+
  have glob: "dma2d_live (bl808_dma2d_schedule (s\<lparr>global_cfg := x\<rparr>))" for x
    using len act by (intro schedule_live2d) (simp_all add: bl808_dma2d_active_def)
  have sched: "dma2d_live (bl808_dma2d_schedule (set_channel2d c ch s))" for c ch
    using len act by (intro schedule_live2d) simp_all
  have chan: "dma2d_live (set_channel2d c ch s)" if "d2_cfg ch = d2_cfg (d2_channels s ! c)" for c ch
  proof -
    have "d2_cfg (d2_channels (set_channel2d c ch s) ! i) = d2_cfg (d2_channels s ! i)" for i
      using that by (cases "c < length (d2_channels s)") (auto simp: set_channel2d_def nth_list_update list_update_beyond)
    then have "bl808_dma2d_enabled_channels (set_channel2d c ch s) = bl808_dma2d_enabled_channels s" by (simp add: bl808_dma2d_enabled_channels_def)
    then show ?thesis by (intro live_cong [OF assms]) (simp_all add: dma2d_runnable_def)
  qed
  have "dma2d_live (dma2d_write_channel c choff x s)" for c choff x
    unfolding dma2d_write_channel_def Let_def by (intro live_if sched assms) (rule chan, simp)+
  then show ?thesis
    unfolding bl808_dma2d_write_def Let_def update_irq_live2d
    by (intro live_if assms field glob) (auto simp: update_irq_live2d split: option.split intro: assms field)
qed

lemma reset_live2d: "dma2d_live (bl808_dma2d_reset s)"
proof -
  have "\<not> tst (0x10000 :: u32) 1" by (simp add: tst_def)
  then show ?thesis unfolding bl808_dma2d_reset_def update_irq_live2d
    by (simp add: dma2d_live_def dma2d_runnable_def enabled_iff zero_channel2d_def)
qed

lemma clock_live2d:
  assumes "dma2d_live s"
  shows "dma2d_live (bl808_dma2d_set_clock_enabled b s)"
  unfolding bl808_dma2d_set_clock_enabled_def Let_def update_irq_live2d
proof (rule live_if)
  assume "\<not> b"
  then show "dma2d_live (s\<lparr>d2_clock_enabled := b, d2_run_scheduled := False\<rparr>)"
    using live_length [OF assms] by (simp add: dma2d_live_def dma2d_runnable_def bl808_dma2d_active_def)
next
  assume "\<not> \<not> b"
  then show "dma2d_live (bl808_dma2d_schedule (s\<lparr>d2_clock_enabled := b\<rparr>))"
    using live_length [OF assms] live_active [OF assms] by (intro schedule_live2d) (auto simp: bl808_dma2d_active_def)
qed

lemma reset_line_live2d:
  assumes "dma2d_live s"
  shows "dma2d_live (bl808_dma2d_set_reset_asserted b s)"
  unfolding bl808_dma2d_set_reset_asserted_def Let_def update_irq_live2d
proof (intro live_if reset_live2d)
  assume "\<not> b"
  then show "dma2d_live (bl808_dma2d_schedule (s\<lparr>d2_reset_asserted := b\<rparr>))"
    using live_length [OF assms] live_active [OF assms] by (intro schedule_live2d) (auto simp: bl808_dma2d_active_def)
qed

lemma dma2d_step_live:
  assumes "dma2d_live (fst sm)"
  shows "dma2d_live (fst (dma2d_step op sm))"
proof -
  obtain s m where sm: "sm = (s, m)" by fastforce
  have live: "dma2d_live s" using assms by (simp add: sm)
  show ?thesis
    using live live_length [OF live] live_active [OF live] unfolding sm by (cases op) (simp_all add: dma2d_write_live reset_live2d clock_live2d reset_line_live2d run_bh_live2d)
qed

lemma dma2d_run_live: "dma2d_live (fst sm) \<Longrightarrow> dma2d_live (fst (fold dma2d_step ops sm))"
  by (induction ops arbitrary: sm) (simp_all add: dma2d_step_live)

text \<open>
  Enabled channels never wait in vain: after any history of the 2D DMA controller, when clock, reset and
  the enable bits let a channel run, the bottom half is scheduled, and it is scheduled only while
  clock and reset allow it.
\<close>

theorem dma2d_never_stalls:
  assumes "(s, m') = fold dma2d_step ops (bl808_dma2d_init, m)"
  shows "(dma2d_runnable s \<longrightarrow> d2_run_scheduled s) \<and> (d2_run_scheduled s \<longrightarrow> bl808_dma2d_active s)"
proof -
  have "dma2d_live (fst (bl808_dma2d_init, m))"
    by (simp add: dma2d_live_def dma2d_runnable_def bl808_dma2d_init_def bl808_dma2d_active_def)
  from dma2d_run_live [OF this, of ops] show ?thesis unfolding assms [symmetric] by (simp add: dma2d_live_def)
qed

end
