(* ===== verification/Sf.thy ===== *)
theory Sf
  imports Boot
begin

text \<open>
  The serial flash controller, \<open>src/qemu-machine/hw/block/bl808_sf_ctrl.c\<close>: a NOR flash of 16 MiB
  that the processor commands through registers and a buffer of 512 bytes, its status and
  security registers, the windows of 64 MiB through which the cores execute from it (XIP), and the
  optional drive that keeps its contents.

  Arrays are functions from the index.  A window is \<open>None\<close> where the machine attached no memory; the
  machine attaches separate ROM regions, so that windows do not overlap and the processor does not
  write to them.  The flash is allocated when the device is realized.  QEMU's block layer is the
  record \<open>blk_ops\<close> of the functions called, over a type \<open>'b\<close> of drives.  Accesses are aligned, since
  the memory region does not admit others, so that none crosses the end of the buffer.
\<close>

section \<open>Constants and state\<close>

abbreviation (input) FLASH_APERTURE_SIZE :: u32 where "FLASH_APERTURE_SIZE \<equiv> 0x4000000"
abbreviation (input) SF_CTRL_BUF_OFF :: hwaddr where "SF_CTRL_BUF_OFF \<equiv> 0x600"
abbreviation (input) SF_CTRL_BUF_SIZE :: u32 where "SF_CTRL_BUF_SIZE \<equiv> 512"
abbreviation (input) SEC_REG_SIZE :: u32 where "SEC_REG_SIZE \<equiv> 256"
abbreviation (input) FLASH_PAGE_SIZE :: u32 where "FLASH_PAGE_SIZE \<equiv> 256"
abbreviation (input) FLASH_SECTOR_SIZE :: u32 where "FLASH_SECTOR_SIZE \<equiv> 0x1000"
abbreviation (input) FLASH_BLOCK32_SIZE :: u32 where "FLASH_BLOCK32_SIZE \<equiv> 0x8000"
abbreviation (input) FLASH_BLOCK64_SIZE :: u32 where "FLASH_BLOCK64_SIZE \<equiv> 0x10000"

abbreviation (input) SF_CTRL_0_32B_ADDR_EN :: u32 where "SF_CTRL_0_32B_ADDR_EN \<equiv> 0x80000"
abbreviation (input) SAHB0_BUSY :: u32 where "SAHB0_BUSY \<equiv> 1"
abbreviation (input) SAHB0_TRIGGER :: u32 where "SAHB0_TRIGGER \<equiv> 2"
abbreviation (input) SAHB0_DATA_BYTES_MASK :: u32 where "SAHB0_DATA_BYTES_MASK \<equiv> 0xFFC"
abbreviation (input) SAHB0_ADDR_BYTES_MASK :: u32 where "SAHB0_ADDR_BYTES_MASK \<equiv> 0xE0000"
abbreviation (input) SAHB0_CMD_BYTES_MASK :: u32 where "SAHB0_CMD_BYTES_MASK \<equiv> 0x700000"
abbreviation (input) SAHB0_DATA_EN :: u32 where "SAHB0_DATA_EN \<equiv> 0x1000000"
abbreviation (input) SAHB0_ADDR_EN :: u32 where "SAHB0_ADDR_EN \<equiv> 0x4000000"
abbreviation (input) SAHB0_CMD_EN :: u32 where "SAHB0_CMD_EN \<equiv> 0x8000000"

abbreviation (input) SR1_WEL :: u8 where "SR1_WEL \<equiv> 0x02"
abbreviation (input) SR1_WRITABLE_MASK :: u8 where "SR1_WRITABLE_MASK \<equiv> 0xFC"
abbreviation (input) SR2_SRL :: u8 where "SR2_SRL \<equiv> 0x01"
abbreviation (input) SR2_QE :: u8 where "SR2_QE \<equiv> 0x02"
abbreviation (input) SR2_LB1 :: u8 where "SR2_LB1 \<equiv> 0x08"
abbreviation (input) SR2_LB_MASK :: u8 where "SR2_LB_MASK \<equiv> 0x38"
abbreviation (input) SR2_CMP :: u8 where "SR2_CMP \<equiv> 0x40"
abbreviation (input) SR2_SUS :: u8 where "SR2_SUS \<equiv> 0x80"
abbreviation (input) SR2_WRITABLE_MASK :: u8 where "SR2_WRITABLE_MASK \<equiv> 0x7B"
abbreviation (input) SR3_WRITABLE_MASK :: u8 where "SR3_WRITABLE_MASK \<equiv> 0x64"

abbreviation (input) W25Q128JW_MFR :: u8 where "W25Q128JW_MFR \<equiv> 0xEF"
abbreviation (input) W25Q128JW_MEM :: u8 where "W25Q128JW_MEM \<equiv> 0x60"
abbreviation (input) W25Q128JW_CAP :: u8 where "W25Q128JW_CAP \<equiv> 0x18"
abbreviation (input) W25Q128JW_DEVICE_ID :: u8 where "W25Q128JW_DEVICE_ID \<equiv> 0x17"

record 'b blk_ops =
  blk_set_perm :: "'b \<Rightarrow> int \<times> 'b"
  blk_getlength :: "'b \<Rightarrow> int"
  blk_pread :: "nat \<Rightarrow> nat \<Rightarrow> 'b \<Rightarrow> int \<times> bytes"
  blk_pwrite :: "nat \<Rightarrow> nat \<Rightarrow> bytes \<Rightarrow> 'b \<Rightarrow> int \<times> 'b"

record 'b BL808SfCtrlState =
  sf_blk :: "'b option"
  sf_ctrl_0 :: u32
  sf_ctrl_1 :: u32
  sf_ctrl_if_sahb0 :: u32
  sf_ctrl_if_sahb1 :: u32
  sf_ctrl_if_sahb2 :: u32
  sf_regs :: "nat \<Rightarrow> u32"
  sf_buf :: bytes
  sf_flash :: bytes
  sec_reg :: "nat \<Rightarrow> bytes"
  xip_ptr :: "nat \<Rightarrow> nat \<Rightarrow> bytes option"
  sf_xip_offset :: "nat \<Rightarrow> nat \<Rightarrow> u32"
  sf_reset_xip_offset :: "nat \<Rightarrow> nat \<Rightarrow> u32"
  sr1 :: u8
  sr2 :: u8
  sr3 :: u8
  sr1_nv :: u8
  sr2_nv :: u8
  sr3_nv :: u8
  volatile_wel :: u8
  powered_down :: u8
  qpi_mode :: u8
  reset_armed :: u8
  burst_wrap_data :: u8

definition put2 :: "nat \<Rightarrow> nat \<Rightarrow> 'a \<Rightarrow> (nat \<Rightarrow> nat \<Rightarrow> 'a) \<Rightarrow> nat \<Rightarrow> nat \<Rightarrow> 'a" where
  "put2 g b v f = f(g := (f g)(b := v))"

section \<open>XIP windows and the drive\<close>

definition sf_ctrl_valid_group_bank :: "nat \<Rightarrow> nat \<Rightarrow> bool" where
  "sf_ctrl_valid_group_bank g b \<longleftrightarrow> g < 2 \<and> b < 2"

definition group_banks :: "(nat \<times> nat) list" where
  "group_banks = [(0, 0), (0, 1), (1, 0), (1, 1)]"

definition sf_ctrl_image_offset_reg :: "nat \<Rightarrow> nat \<Rightarrow> nat" where
  "sf_ctrl_image_offset_reg g b = [[0x0A0, 0x0A8], [0x0A4, 0x0AC]] ! g ! b"

definition bl808_sf_ctrl_get_flash_image_offset :: "'b BL808SfCtrlState \<Rightarrow> nat \<Rightarrow> nat \<Rightarrow> u32" where
  "bl808_sf_ctrl_get_flash_image_offset s g b = (if \<not> sf_ctrl_valid_group_bank g b then 0 else sf_xip_offset s g b)"

definition sf_ctrl_refresh_xip_view :: "nat \<Rightarrow> nat \<Rightarrow> 'b BL808SfCtrlState \<Rightarrow> 'b BL808SfCtrlState" where
  "sf_ctrl_refresh_xip_view g b s =
     (if \<not> sf_ctrl_valid_group_bank g b then s
      else case xip_ptr s g b of
          None \<Rightarrow> s
        | Some xip \<Rightarrow>
            let off = sf_xip_offset s g b;
                xip = memcpy_to 0 (\<lambda>_. 0xFF) (unat FLASH_APERTURE_SIZE) xip;
                xip = (if off \<ge> FLASH_SIZE then xip
                       else let available = FLASH_SIZE - off
                            in memcpy_to 0 (ptr_at (sf_flash s) (unat off)) (unat (min available FLASH_APERTURE_SIZE)) xip)
            in s\<lparr>xip_ptr := put2 g b (Some xip) (xip_ptr s)\<rparr>)"

definition sf_ctrl_sync_xip_range :: "nat \<Rightarrow> nat \<Rightarrow> u32 \<Rightarrow> u32 \<Rightarrow> 'b BL808SfCtrlState \<Rightarrow> 'b BL808SfCtrlState" where
  "sf_ctrl_sync_xip_range g b off sz s =
     (if \<not> sf_ctrl_valid_group_bank g b then s
      else case xip_ptr s g b of
          None \<Rightarrow> s
        | Some xip \<Rightarrow>
            if sz = 0 then s
            else let image_offset = sf_xip_offset s g b in
              if off + sz \<le> image_offset then s
              else let start = (if off > image_offset then off - image_offset else 0) in
                if start \<ge> FLASH_APERTURE_SIZE then s
                else let fin = min (off + sz - image_offset) FLASH_APERTURE_SIZE in
                  if fin \<le> start then s
                  else s\<lparr>xip_ptr := put2 g b (Some (memcpy_to (unat start)
                      (ptr_at (sf_flash s) (unat image_offset + unat start)) (unat (fin - start)) xip)) (xip_ptr s)\<rparr>)"

definition bl808_sf_ctrl_sync_all_xip :: "'b BL808SfCtrlState \<Rightarrow> 'b BL808SfCtrlState" where
  "bl808_sf_ctrl_sync_all_xip s = fold (\<lambda>(g, b). sf_ctrl_refresh_xip_view g b) group_banks s"

definition sf_ctrl_set_flash_image_offset :: "nat \<Rightarrow> nat \<Rightarrow> u32 \<Rightarrow> 'b BL808SfCtrlState \<Rightarrow> 'b BL808SfCtrlState" where
  "sf_ctrl_set_flash_image_offset g b addr_offset s =
     (if \<not> sf_ctrl_valid_group_bank g b then s
      else let addr_offset = addr_offset AND 0x0FFFFFFF;
               reg = sf_ctrl_image_offset_reg g b
           in sf_ctrl_refresh_xip_view g b
                (s\<lparr>sf_xip_offset := put2 g b addr_offset (sf_xip_offset s), sf_regs := (sf_regs s)(reg div 4 := addr_offset)\<rparr>))"

definition sf_ctrl_sync_xip :: "u32 \<Rightarrow> u32 \<Rightarrow> 'b BL808SfCtrlState \<Rightarrow> 'b BL808SfCtrlState" where
  "sf_ctrl_sync_xip off sz s = fold (\<lambda>(g, b). sf_ctrl_sync_xip_range g b off sz) group_banks s"

definition sf_ctrl_blk_write :: "'b blk_ops \<Rightarrow> u32 \<Rightarrow> u32 \<Rightarrow> 'b BL808SfCtrlState \<Rightarrow> 'b BL808SfCtrlState" where
  "sf_ctrl_blk_write ops off sz s =
     (case sf_blk s of
        Some d \<Rightarrow>
          if off + sz \<le> FLASH_SIZE
          then s\<lparr>sf_blk := Some (snd (blk_pwrite ops (unat off) (unat sz) (ptr_at (sf_flash s) (unat off)) d))\<rparr>
          else s
      | None \<Rightarrow> s)"

definition sf_ctrl_write_flash :: "'b blk_ops \<Rightarrow> u32 \<Rightarrow> bytes \<Rightarrow> u32 \<Rightarrow> 'b BL808SfCtrlState \<Rightarrow> 'b BL808SfCtrlState" where
  "sf_ctrl_write_flash ops off data sz s =
     (if sz = 0 \<or> off \<ge> FLASH_SIZE then s
      else let sz = (if off + sz > FLASH_SIZE then FLASH_SIZE - off else sz);
               s = s\<lparr>sf_flash := memcpy_to (unat off) data (unat sz) (sf_flash s)\<rparr>
           in sf_ctrl_blk_write ops off sz (sf_ctrl_sync_xip off sz s))"

section \<open>Buffer, status and resets\<close>

definition sf_ctrl_store_data :: "u8 list \<Rightarrow> 'b BL808SfCtrlState \<Rightarrow> 'b BL808SfCtrlState" where
  "sf_ctrl_store_data data s =
     (let copy_len = min (length data) (unat SF_CTRL_BUF_SIZE);
          buf = memcpy_to 0 (\<lambda>_. 0xFF) (unat SF_CTRL_BUF_SIZE) (sf_buf s)
      in s\<lparr>sf_buf := memcpy_to 0 (\<lambda>i. data ! i) copy_len buf\<rparr>)"

definition sf_ctrl_restore_status_from_nv :: "'b BL808SfCtrlState \<Rightarrow> 'b BL808SfCtrlState" where
  "sf_ctrl_restore_status_from_nv s =
     s\<lparr>sr1 := sr1_nv s AND SR1_WRITABLE_MASK, sr2 := (sr2_nv s AND SR2_WRITABLE_MASK) OR SR2_QE, sr3 := sr3_nv s AND SR3_WRITABLE_MASK\<rparr>"

definition clear_wel :: "'b BL808SfCtrlState \<Rightarrow> 'b BL808SfCtrlState" where
  "clear_wel s = s\<lparr>sr1 := sr1 s AND NOT SR1_WEL\<rparr>"

definition sf_ctrl_soft_reset :: "'b BL808SfCtrlState \<Rightarrow> 'b BL808SfCtrlState" where
  "sf_ctrl_soft_reset s =
     (let s = s\<lparr>sf_ctrl_0 := sf_ctrl_0 s AND NOT SF_CTRL_0_32B_ADDR_EN, sf_ctrl_if_sahb0 := 0, sf_ctrl_if_sahb1 := 0, sf_ctrl_if_sahb2 := 0\<rparr>;
          s = clear_wel (sf_ctrl_restore_status_from_nv s)
      in s\<lparr>sr2 := sr2 s AND NOT SR2_SUS, volatile_wel := 0, powered_down := 0, qpi_mode := 0, reset_armed := 0,
           burst_wrap_data := 0, sf_buf := memcpy_to 0 (\<lambda>_. 0) (unat SF_CTRL_BUF_SIZE) (sf_buf s)\<rparr>)"

definition sf_ctrl_status_write_enabled :: "'b BL808SfCtrlState \<Rightarrow> bool" where
  "sf_ctrl_status_write_enabled s = (if tst (sr2 s) SR2_SRL then False else tst (sr1 s) SR1_WEL \<or> volatile_wel s \<noteq> 0)"

definition reset_image_offset :: "nat \<Rightarrow> nat \<Rightarrow> 'b BL808SfCtrlState \<Rightarrow> 'b BL808SfCtrlState" where
  "reset_image_offset g b s =
     (let v = sf_reset_xip_offset s g b AND 0x0FFFFFFF
      in s\<lparr>sf_xip_offset := put2 g b v (sf_xip_offset s), sf_regs := (sf_regs s)(sf_ctrl_image_offset_reg g b div 4 := v)\<rparr>)"

definition sf_ctrl_reset_register_defaults :: "'b BL808SfCtrlState \<Rightarrow> 'b BL808SfCtrlState" where
  "sf_ctrl_reset_register_defaults s =
     (let s = fold (\<lambda>(g, b). reset_image_offset g b) group_banks (s\<lparr>sf_regs := \<lambda>_. 0\<rparr>)
      in s\<lparr>sf_regs := (sf_regs s)
           (0x14C div 4 := ucast W25Q128JW_MFR OR push_bit 8 (ucast W25Q128JW_MEM) OR push_bit 16 (ucast W25Q128JW_CAP),
            0x150 div 4 := ucast W25Q128JW_DEVICE_ID)\<rparr>)"

definition sf_ctrl_flash_power_on_reset :: "'b BL808SfCtrlState \<Rightarrow> 'b BL808SfCtrlState" where
  "sf_ctrl_flash_power_on_reset s =
     (let s = sf_ctrl_restore_status_from_nv (s\<lparr>sr1_nv := 0, sr2_nv := SR2_QE, sr3_nv := 0\<rparr>)
      in s\<lparr>volatile_wel := 0, powered_down := 0, qpi_mode := 0, reset_armed := 0, burst_wrap_data := 0\<rparr>)"

section \<open>Memory commands\<close>

definition sf_ctrl_read_buffer :: "u32 \<Rightarrow> u32 \<Rightarrow> 'b BL808SfCtrlState \<Rightarrow> 'b BL808SfCtrlState" where
  "sf_ctrl_read_buffer addr data_len s =
     (let max_bytes = (if data_len \<noteq> 0 then min data_len SF_CTRL_BUF_SIZE else SF_CTRL_BUF_SIZE);
          buf = memcpy_to 0 (\<lambda>_. 0xFF) (unat SF_CTRL_BUF_SIZE) (sf_buf s)
      in if addr \<ge> FLASH_SIZE then s\<lparr>sf_buf := buf\<rparr>
         else let avail = FLASH_SIZE - addr; len = min avail max_bytes
              in s\<lparr>sf_buf := memcpy_to 0 (ptr_at (sf_flash s) (unat addr)) (unat len) buf\<rparr>)"

definition sf_ctrl_decode_sec_reg_addr :: "u32 \<Rightarrow> (nat \<times> nat) option" where
  "sf_ctrl_decode_sec_reg_addr addr =
     (if addr AND 0xFF0000 \<noteq> 0 \<or> addr AND 0x0F00 \<noteq> 0 then None
      else let slot = unat (drop_bit 12 addr AND 0x0F) in
        if slot < 1 \<or> slot > 3 then None else Some (slot - 1, unat (addr AND 0xFF)))"

definition sf_ctrl_sec_reg_lock_mask :: "nat \<Rightarrow> u8" where
  "sf_ctrl_sec_reg_lock_mask reg_index = push_bit reg_index SR2_LB1"

definition sf_ctrl_read_sec_reg :: "u32 \<Rightarrow> u32 \<Rightarrow> 'b BL808SfCtrlState \<Rightarrow> 'b BL808SfCtrlState" where
  "sf_ctrl_read_sec_reg addr data_len s =
     (let max_bytes = (if data_len \<noteq> 0 then min data_len SF_CTRL_BUF_SIZE else SF_CTRL_BUF_SIZE);
          buf = memcpy_to 0 (\<lambda>_. 0xFF) (unat SF_CTRL_BUF_SIZE) (sf_buf s)
      in case sf_ctrl_decode_sec_reg_addr addr of
           None \<Rightarrow> s\<lparr>sf_buf := buf\<rparr>
         | Some (reg_index, reg_offset) \<Rightarrow>
             s\<lparr>sf_buf := memcpy_to 0 (\<lambda>i. sec_reg s reg_index ((reg_offset + i) mod 256)) (unat max_bytes) buf\<rparr>)"

definition sf_ctrl_erase_range :: "'b blk_ops \<Rightarrow> u32 \<Rightarrow> u32 \<Rightarrow> 'b BL808SfCtrlState \<Rightarrow> 'b BL808SfCtrlState" where
  "sf_ctrl_erase_range ops base sz s =
     (let s = s\<lparr>sf_flash := memcpy_to (unat base) (\<lambda>_. 0xFF) (unat sz) (sf_flash s)\<rparr>
      in clear_wel (sf_ctrl_blk_write ops base sz (sf_ctrl_sync_xip base sz s)))"

fun page_loop :: "bytes \<Rightarrow> u32 \<Rightarrow> u32 \<Rightarrow> nat \<Rightarrow> nat \<Rightarrow> bytes \<Rightarrow> bytes" where
  "page_loop src page_base page_offset i 0 f = f"
| "page_loop src page_base page_offset i (Suc n) f =
     (let dest = page_base + ((page_offset + of_nat i) AND (FLASH_PAGE_SIZE - 1))
      in page_loop src page_base page_offset (Suc i) n
           (if dest < FLASH_SIZE then f(unat dest := f (unat dest) AND src i) else f))"

definition sf_ctrl_page_program :: "'b blk_ops \<Rightarrow> u32 \<Rightarrow> u32 \<Rightarrow> 'b BL808SfCtrlState \<Rightarrow> 'b BL808SfCtrlState" where
  "sf_ctrl_page_program ops addr data_len s =
     (if addr \<ge> FLASH_SIZE \<or> \<not> tst (sr1 s) SR1_WEL then clear_wel s
      else let page_base = addr AND NOT (FLASH_PAGE_SIZE - 1);
               page_offset = addr AND (FLASH_PAGE_SIZE - 1);
               len = min (if data_len \<noteq> 0 then data_len else SF_CTRL_BUF_SIZE) FLASH_PAGE_SIZE;
               s = s\<lparr>sf_flash := page_loop (sf_buf s) page_base page_offset 0 (unat len) (sf_flash s)\<rparr>
           in clear_wel (sf_ctrl_blk_write ops page_base FLASH_PAGE_SIZE (sf_ctrl_sync_xip page_base FLASH_PAGE_SIZE s)))"

definition sf_ctrl_sec_reg_erase :: "u32 \<Rightarrow> 'b BL808SfCtrlState \<Rightarrow> 'b BL808SfCtrlState" where
  "sf_ctrl_sec_reg_erase addr s =
     (case sf_ctrl_decode_sec_reg_addr addr of
        None \<Rightarrow> clear_wel s
      | Some (reg_index, reg_offset) \<Rightarrow>
          if tst (sr2 s) (sf_ctrl_sec_reg_lock_mask reg_index) then clear_wel s
          else clear_wel (s\<lparr>sec_reg := (sec_reg s)(reg_index := memcpy_to 0 (\<lambda>_. 0xFF) (unat SEC_REG_SIZE) (sec_reg s reg_index))\<rparr>))"

fun sec_reg_loop :: "bytes \<Rightarrow> nat \<Rightarrow> nat \<Rightarrow> nat \<Rightarrow> bytes \<Rightarrow> bytes" where
  "sec_reg_loop src reg_offset i 0 reg = reg"
| "sec_reg_loop src reg_offset i (Suc n) reg =
     (let dest = (reg_offset + i) mod 256 in sec_reg_loop src reg_offset (Suc i) n (reg(dest := reg dest AND src i)))"

definition sf_ctrl_sec_reg_program :: "u32 \<Rightarrow> u32 \<Rightarrow> 'b BL808SfCtrlState \<Rightarrow> 'b BL808SfCtrlState" where
  "sf_ctrl_sec_reg_program addr data_len s =
     (if \<not> tst (sr1 s) SR1_WEL then clear_wel s
      else case sf_ctrl_decode_sec_reg_addr addr of
        None \<Rightarrow> clear_wel s
      | Some (reg_index, reg_offset) \<Rightarrow>
          if tst (sr2 s) (sf_ctrl_sec_reg_lock_mask reg_index) then clear_wel s
          else let len = min (if data_len \<noteq> 0 then data_len else SF_CTRL_BUF_SIZE) SEC_REG_SIZE
               in clear_wel (s\<lparr>sec_reg := (sec_reg s)
                    (reg_index := sec_reg_loop (sf_buf s) reg_offset 0 (unat len) (sec_reg s reg_index))\<rparr>))"

definition sf_ctrl_apply_sr2_write :: "u8 \<Rightarrow> u8 \<Rightarrow> u8" where
  "sf_ctrl_apply_sr2_write current requested =
     (let nxt = current AND NOT (SR2_SRL OR SR2_CMP);
          nxt = nxt OR (requested AND (SR2_SRL OR SR2_CMP));
          nxt = nxt OR (current AND SR2_LB_MASK);
          nxt = nxt OR (requested AND SR2_LB_MASK)
      in nxt OR SR2_QE)"

definition sf_ctrl_apply_sr3_write :: "u8 \<Rightarrow> u8 \<Rightarrow> u8" where
  "sf_ctrl_apply_sr3_write current requested = (current AND NOT SR3_WRITABLE_MASK) OR (requested AND SR3_WRITABLE_MASK)"

definition sf_ctrl_commit_status_write :: "bool \<Rightarrow> 'b BL808SfCtrlState \<Rightarrow> 'b BL808SfCtrlState" where
  "sf_ctrl_commit_status_write write_volatile s =
     (let s = s\<lparr>sr1 := sr1 s AND NOT SR1_WEL, sr2 := sr2 s OR SR2_QE, volatile_wel := 0\<rparr>
      in if \<not> write_volatile
         then s\<lparr>sr1_nv := sr1 s AND SR1_WRITABLE_MASK, sr2_nv := (sr2 s AND SR2_WRITABLE_MASK) OR SR2_QE,
                sr3_nv := sr3 s AND SR3_WRITABLE_MASK\<rparr>
         else s)"

section \<open>Execution of a command\<close>

text \<open>The switch over the command byte, in three parts: a part hands on the commands it does not know.\<close>

definition sf_switch_modes :: "'b blk_ops \<Rightarrow> u8 \<Rightarrow> u32 \<Rightarrow> 'b BL808SfCtrlState \<Rightarrow> 'b BL808SfCtrlState" where
  "sf_switch_modes ops cmd data_len s =
     (if cmd = 0xC7 \<or> cmd = 0x60 then (if tst (sr1 s) SR1_WEL then sf_ctrl_erase_range ops 0 FLASH_SIZE s else s)
      else if cmd = 0x77 \<or> cmd = 0xC0 then (if data_len > 0 then s\<lparr>burst_wrap_data := sf_buf s 0\<rparr> else s)
      else if cmd = 0xB9 then s\<lparr>powered_down := 1\<rparr>
      else if cmd = 0xFF then s\<lparr>qpi_mode := 0\<rparr>
      else if cmd = 0x66 then s\<lparr>reset_armed := 1\<rparr>
      else if cmd = 0x99
      then (if reset_armed s \<noteq> 0 then sf_ctrl_reset_register_defaults (sf_ctrl_soft_reset s) else s)
      else s)"

definition sf_erase_at :: "'b blk_ops \<Rightarrow> u32 \<Rightarrow> bool \<Rightarrow> u32 \<Rightarrow> 'b BL808SfCtrlState \<Rightarrow> 'b BL808SfCtrlState" where
  "sf_erase_at ops unit has_addr addr s =
     (if has_addr \<and> tst (sr1 s) SR1_WEL
      then let base = addr AND NOT (unit - 1) in
        if base + unit \<le> FLASH_SIZE then sf_ctrl_erase_range ops base unit s else clear_wel s
      else s)"

definition sf_switch_memory :: "'b blk_ops \<Rightarrow> u8 \<Rightarrow> bool \<Rightarrow> u32 \<Rightarrow> u32 \<Rightarrow> 'b BL808SfCtrlState \<Rightarrow> 'b BL808SfCtrlState" where
  "sf_switch_memory ops cmd has_addr addr data_len s =
     (if cmd \<in> {0x03, 0x0B, 0xBB, 0x3B, 0xEB, 0x6B} then (if has_addr then sf_ctrl_read_buffer addr data_len s else s)
      else if cmd = 0x48 then (if has_addr then sf_ctrl_read_sec_reg addr data_len s else s)
      else if cmd = 0x02 \<or> cmd = 0x32 then (if has_addr then sf_ctrl_page_program ops addr data_len s else s)
      else if cmd = 0x42 then (if has_addr then sf_ctrl_sec_reg_program addr data_len s else s)
      else if cmd = 0x38 then (if has_addr then sf_ctrl_page_program ops addr data_len s else s\<lparr>qpi_mode := 1\<rparr>)
      else if cmd = 0x20 then sf_erase_at ops FLASH_SECTOR_SIZE has_addr addr s
      else if cmd = 0x44 then (if has_addr \<and> tst (sr1 s) SR1_WEL then sf_ctrl_sec_reg_erase addr s else s)
      else if cmd = 0x52 then sf_erase_at ops FLASH_BLOCK32_SIZE has_addr addr s
      else if cmd = 0xD8 then sf_erase_at ops FLASH_BLOCK64_SIZE has_addr addr s
      else sf_switch_modes ops cmd data_len s)"

definition sf_write_sr :: "u8 \<Rightarrow> u32 \<Rightarrow> bool \<Rightarrow> 'b BL808SfCtrlState \<Rightarrow> 'b BL808SfCtrlState" where
  "sf_write_sr cmd data_len write_volatile s =
     (if \<not> sf_ctrl_status_write_enabled s then s
      else let buf = sf_buf s;
               s = (if cmd = 0x01 then
                      let s = (if data_len > 0 then s\<lparr>sr1 := (sr1 s AND NOT SR1_WRITABLE_MASK) OR (buf 0 AND SR1_WRITABLE_MASK)\<rparr> else s)
                      in if data_len > 1 then s\<lparr>sr2 := sf_ctrl_apply_sr2_write (sr2 s) (buf 1)\<rparr> else s
                    else if cmd = 0x31 then (if data_len > 0 then s\<lparr>sr2 := sf_ctrl_apply_sr2_write (sr2 s) (buf 0)\<rparr> else s)
                    else (if data_len > 0 then s\<lparr>sr3 := sf_ctrl_apply_sr3_write (sr3 s) (buf 0)\<rparr> else s))
           in sf_ctrl_commit_status_write write_volatile s)"

definition sf_switch_status :: "'b blk_ops \<Rightarrow> u8 \<Rightarrow> bool \<Rightarrow> u32 \<Rightarrow> u32 \<Rightarrow> bool \<Rightarrow> 'b BL808SfCtrlState \<Rightarrow> 'b BL808SfCtrlState" where
  "sf_switch_status ops cmd has_addr addr data_len write_volatile s =
     (if cmd = 0x06 then s\<lparr>sr1 := sr1 s OR SR1_WEL, volatile_wel := 0\<rparr>
      else if cmd = 0x50 then s\<lparr>volatile_wel := 1\<rparr>
      else if cmd = 0x04 then s\<lparr>sr1 := sr1 s AND NOT SR1_WEL, volatile_wel := 0\<rparr>
      else if cmd = 0x05 then sf_ctrl_store_data [sr1 s] s
      else if cmd = 0x35 then sf_ctrl_store_data [sr2 s] s
      else if cmd = 0x15 then sf_ctrl_store_data [sr3 s] s
      else if cmd = 0x01 \<or> cmd = 0x31 \<or> cmd = 0x11 then sf_write_sr cmd data_len write_volatile s
      else if cmd = 0x9F then sf_ctrl_store_data [W25Q128JW_MFR, W25Q128JW_MEM, W25Q128JW_CAP] s
      else if cmd = 0x4B then sf_ctrl_store_data [0x11, 0x22, 0x33, 0x44, 0x55, 0x66, 0x77, 0x88] s
      else if cmd = 0xAB then
        let s = s\<lparr>powered_down := 0\<rparr> in if data_len > 0 then sf_ctrl_store_data [W25Q128JW_DEVICE_ID] s else s
      else if cmd = 0x90 \<or> cmd = 0x92 \<or> cmd = 0x94 then
        (if \<not> has_addr \<or> addr = 0 then sf_ctrl_store_data [W25Q128JW_MFR, W25Q128JW_DEVICE_ID] s else s)
      else sf_switch_memory ops cmd has_addr addr data_len s)"

definition be_bytes :: "u32 \<Rightarrow> u8 list" where
  "be_bytes v = [ucast (drop_bit 24 v), ucast (drop_bit 16 v), ucast (drop_bit 8 v), ucast v]"

fun addr_loop :: "u8 list \<Rightarrow> nat \<Rightarrow> nat \<Rightarrow> u32 \<Rightarrow> u32" where
  "addr_loop stream pos 0 addr = addr"
| "addr_loop stream pos (Suc n) addr =
     (if pos < 8 then addr_loop stream (Suc pos) n (push_bit 8 addr OR ucast (stream ! pos)) else addr)"

text \<open>The byte counts that the first interface register gives for command, address and data.\<close>

definition sf_cmd_bytes :: "u32 \<Rightarrow> u32" where
  "sf_cmd_bytes sahb0 = (if tst sahb0 SAHB0_CMD_EN then drop_bit 20 (sahb0 AND SAHB0_CMD_BYTES_MASK) + 1 else 0)"

definition sf_addr_bytes :: "u32 \<Rightarrow> u32" where
  "sf_addr_bytes sahb0 = (if tst sahb0 SAHB0_ADDR_EN then drop_bit 17 (sahb0 AND SAHB0_ADDR_BYTES_MASK) + 1 else 0)"

definition sf_data_len :: "u32 \<Rightarrow> u32" where
  "sf_data_len sahb0 = (if tst sahb0 SAHB0_DATA_EN then drop_bit 2 (sahb0 AND SAHB0_DATA_BYTES_MASK) + 1 else 0)"

definition sf_finish :: "'b BL808SfCtrlState \<Rightarrow> 'b BL808SfCtrlState" where
  "sf_finish s = s\<lparr>sf_ctrl_if_sahb0 := sf_ctrl_if_sahb0 s AND NOT (SAHB0_BUSY OR SAHB0_TRIGGER)\<rparr>"

definition sf_ctrl_execute_cmd :: "'b blk_ops \<Rightarrow> 'b BL808SfCtrlState \<Rightarrow> 'b BL808SfCtrlState" where
  "sf_ctrl_execute_cmd ops s =
     (let sahb0 = sf_ctrl_if_sahb0 s;
          cmd_bytes = sf_cmd_bytes sahb0; addr_bytes = sf_addr_bytes sahb0; data_len = sf_data_len sahb0;
          write_status_volatile = volatile_wel s \<noteq> 0;
          cmd_stream = be_bytes (sf_ctrl_if_sahb1 s) @ be_bytes (sf_ctrl_if_sahb2 s)
      in if cmd_bytes = 0 then sf_finish s
         else let cmd = cmd_stream ! 0;
                  addr = addr_loop cmd_stream (unat cmd_bytes) (unat addr_bytes) 0;
                  addr = (if \<not> tst (sf_ctrl_0 s) SF_CTRL_0_32B_ADDR_EN then addr AND 0x00FFFFFF else addr)
              in if powered_down s \<noteq> 0 \<and> cmd \<noteq> 0xAB then sf_finish s
                 else let s = (if reset_armed s \<noteq> 0 \<and> cmd \<noteq> 0x99 then s\<lparr>reset_armed := 0\<rparr> else s)
                      in sf_finish (sf_switch_status ops cmd (addr_bytes \<noteq> 0) addr data_len write_status_volatile s))"

section \<open>Register accesses\<close>

definition bl808_sf_ctrl_read :: "hwaddr \<Rightarrow> nat \<Rightarrow> 'b BL808SfCtrlState \<Rightarrow> u64" where
  "bl808_sf_ctrl_read offset sz s =
     (if offset \<ge> SF_CTRL_BUF_OFF \<and> offset < SF_CTRL_BUF_OFF + ucast SF_CTRL_BUF_SIZE then
        let pos = unat (offset - SF_CTRL_BUF_OFF) in
        if sz = 1 then ucast (sf_buf s pos)
        else if sz = 2 then ucast (lduw_le_p (sf_buf s) pos)
        else if sz = 4 then ucast (ldl_le_p (sf_buf s) pos)
        else 0
      else if sz \<noteq> 4 then 0
      else if offset = 0x000 then ucast (sf_ctrl_0 s)
      else if offset = 0x004 then ucast (sf_ctrl_1 s)
      else if offset = 0x008 then ucast (sf_ctrl_if_sahb0 s)
      else if offset = 0x00C then ucast (sf_ctrl_if_sahb1 s)
      else if offset = 0x010 then ucast (sf_ctrl_if_sahb2 s)
      else if offset < SF_CTRL_BUF_OFF \<and> offset AND 3 = 0 then ucast (sf_regs s (unat offset div 4))
      else 0)"

definition stw_le_p :: "nat \<Rightarrow> u16 \<Rightarrow> bytes \<Rightarrow> bytes" where
  "stw_le_p off v f = f(off := ucast v, off + 1 := ucast (drop_bit 8 v))"

definition sf_write_sahb0 :: "'b blk_ops \<Rightarrow> u32 \<Rightarrow> 'b BL808SfCtrlState \<Rightarrow> 'b BL808SfCtrlState" where
  "sf_write_sahb0 ops val s =
     (let old = sf_ctrl_if_sahb0 s; new_value = val AND NOT SAHB0_BUSY;
          s = s\<lparr>sf_ctrl_if_sahb0 := new_value\<rparr>
      in if \<not> tst old SAHB0_TRIGGER \<and> tst new_value SAHB0_TRIGGER
         then sf_ctrl_execute_cmd ops (s\<lparr>sf_ctrl_if_sahb0 := sf_ctrl_if_sahb0 s OR SAHB0_BUSY\<rparr>)
         else s)"

definition bl808_sf_ctrl_write :: "'b blk_ops \<Rightarrow> hwaddr \<Rightarrow> u64 \<Rightarrow> nat \<Rightarrow> 'b BL808SfCtrlState \<Rightarrow> 'b BL808SfCtrlState" where
  "bl808_sf_ctrl_write ops offset val sz s =
     (if offset \<ge> SF_CTRL_BUF_OFF \<and> offset < SF_CTRL_BUF_OFF + ucast SF_CTRL_BUF_SIZE then
        let pos = unat (offset - SF_CTRL_BUF_OFF) in
        if sz = 1 then s\<lparr>sf_buf := (sf_buf s)(pos := ucast val)\<rparr>
        else if sz = 2 then s\<lparr>sf_buf := stw_le_p pos (ucast val) (sf_buf s)\<rparr>
        else if sz = 4 then s\<lparr>sf_buf := stl_le_p pos (ucast val) (sf_buf s)\<rparr>
        else s
      else if sz \<noteq> 4 then s
      else if offset = 0x000 then s\<lparr>sf_ctrl_0 := ucast val\<rparr>
      else if offset = 0x004 then s\<lparr>sf_ctrl_1 := ucast val\<rparr>
      else if offset = 0x008 then sf_write_sahb0 ops (ucast val) s
      else if offset = 0x00C then s\<lparr>sf_ctrl_if_sahb1 := ucast val\<rparr>
      else if offset = 0x010 then s\<lparr>sf_ctrl_if_sahb2 := ucast val\<rparr>
      else if offset = 0x0A0 then sf_ctrl_set_flash_image_offset 0 0 (ucast val) s
      else if offset = 0x0A4 then sf_ctrl_set_flash_image_offset 1 0 (ucast val) s
      else if offset = 0x0A8 then sf_ctrl_set_flash_image_offset 0 1 (ucast val) s
      else if offset = 0x0AC then sf_ctrl_set_flash_image_offset 1 1 (ucast val) s
      else if offset < SF_CTRL_BUF_OFF \<and> offset AND 3 = 0 then s\<lparr>sf_regs := (sf_regs s)(unat offset div 4 := ucast val)\<rparr>
      else s)"

section \<open>Life cycle\<close>

definition bl808_sf_ctrl_reset :: "'b BL808SfCtrlState \<Rightarrow> 'b BL808SfCtrlState" where
  "bl808_sf_ctrl_reset s =
     (let s = sf_ctrl_flash_power_on_reset (sf_ctrl_reset_register_defaults s)
      in bl808_sf_ctrl_sync_all_xip (sf_ctrl_soft_reset (s\<lparr>sf_ctrl_0 := 0, sf_ctrl_1 := 0\<rparr>)))"

datatype sf_error = Drive_permission | Drive_length | Drive_read

definition sf_load_drive :: "'b blk_ops \<Rightarrow> 'b \<Rightarrow> 'b BL808SfCtrlState \<Rightarrow> sf_error + 'b BL808SfCtrlState" where
  "sf_load_drive ops d s =
     (case blk_set_perm ops d of (ret, d) \<Rightarrow>
        if ret < 0 then Inl Drive_permission
        else let s = s\<lparr>sf_blk := Some d\<rparr>; len = blk_getlength ops d in
          if len < 0 then Inl Drive_length
          else let len = (if len > int (unat FLASH_SIZE) then int (unat FLASH_SIZE) else len) in
            if len > 0
            then case blk_pread ops 0 (nat len) d of (ret, data) \<Rightarrow>
              if ret < 0 then Inl Drive_read else Inr (s\<lparr>sf_flash := memcpy_to 0 data (nat len) (sf_flash s)\<rparr>)
            else Inr s)"

definition bl808_sf_ctrl_realize :: "'b blk_ops \<Rightarrow> 'b BL808SfCtrlState \<Rightarrow> sf_error + 'b BL808SfCtrlState" where
  "bl808_sf_ctrl_realize ops s =
     (let s = s\<lparr>sf_flash := memcpy_to 0 (\<lambda>_. 0xFF) (unat FLASH_SIZE) (sf_flash s),
                sec_reg := \<lambda>r. memcpy_to 0 (\<lambda>_. 0xFF) (unat SEC_REG_SIZE) (sec_reg s r)\<rparr>;
          s = sf_ctrl_flash_power_on_reset (sf_ctrl_reset_register_defaults s)
      in case (case sf_blk s of Some d \<Rightarrow> sf_load_drive ops d s | None \<Rightarrow> Inr s) of
           Inl e \<Rightarrow> Inl e
         | Inr s \<Rightarrow> Inr (bl808_sf_ctrl_sync_all_xip s))"

text \<open>
  What happens to the device: register writes of the processor, the machine writing to the flash,
  moving a window, choosing the offset for the next reset, and the reset.
\<close>

datatype sf_op =
    Sf_write hwaddr u64 nat
  | Sf_program_flash u32 bytes u32
  | Sf_image_offset nat nat u32
  | Sf_reset_offset nat nat u32
  | Sf_reset

fun sf_step :: "'b blk_ops \<Rightarrow> sf_op \<Rightarrow> 'b BL808SfCtrlState \<Rightarrow> 'b BL808SfCtrlState" where
  "sf_step ops (Sf_write offset val sz) s = bl808_sf_ctrl_write ops offset val sz s"
| "sf_step ops (Sf_program_flash off data sz) s = sf_ctrl_write_flash ops off data sz s"
| "sf_step ops (Sf_image_offset g b v) s = sf_ctrl_set_flash_image_offset g b v s"
| "sf_step ops (Sf_reset_offset g b v) s = s\<lparr>sf_reset_xip_offset := put2 g b v (sf_reset_xip_offset s)\<rparr>"
| "sf_step ops Sf_reset s = bl808_sf_ctrl_reset s"

end
