(* ===== verification/Sf_Proofs.thy ===== *)
theory Sf_Proofs
  imports Sf
begin

text \<open>
  What the operations of the serial flash controller do to the flash, its windows, its drive and
  its security registers: a closed form for each operation on the windows, and the step relation
  \<open>sf_effect\<close> that every register write follows.
\<close>

section \<open>Windows in closed form\<close>

lemma put2_apply [simp]: "put2 g b v f g' b' = (if g' = g \<and> b' = b then v else f g' b')"
  by (simp add: put2_def)

lemma put2_same [simp]: "put2 g b (f g b) f = f"
  by (simp add: put2_def)

lemma memcpy_apply: "memcpy_to off src n dst i = (if off \<le> i \<and> i < off + n then src (i - off) else dst i)"
  by (simp add: memcpy_to_def)

abbreviation (input) flash_len :: nat where "flash_len \<equiv> 0x1000000"
abbreviation (input) window_len :: nat where "window_len \<equiv> 0x4000000"

text \<open>What a window at an offset should show.\<close>

definition window :: "bytes \<Rightarrow> u32 \<Rightarrow> bytes" where
  "window f off i = (if unat off + i < flash_len then f (unat off + i) else 0xFF)"

definition refresh_window :: "bytes \<Rightarrow> u32 \<Rightarrow> bytes \<Rightarrow> bytes" where
  "refresh_window f off xip = memcpy_to 0 (window f off) window_len xip"

definition sync_window :: "u32 \<Rightarrow> u32 \<Rightarrow> bytes \<Rightarrow> u32 \<Rightarrow> bytes \<Rightarrow> bytes" where
  "sync_window off sz f image_offset xip =
     (if sz = 0 \<or> off + sz \<le> image_offset then xip
      else let start = (if off > image_offset then off - image_offset else 0); fin = min (off + sz - image_offset) 0x4000000
           in if start \<ge> 0x4000000 \<or> fin \<le> start then xip
              else memcpy_to (unat start) (ptr_at f (unat image_offset + unat start)) (unat (fin - start)) xip)"

lemma refresh_view_eq:
  "sf_ctrl_refresh_xip_view g b s =
     (if sf_ctrl_valid_group_bank g b
      then s\<lparr>xip_ptr := put2 g b (map_option (refresh_window (sf_flash s) (sf_xip_offset s g b)) (xip_ptr s g b)) (xip_ptr s)\<rparr> else s)"
proof -
  have copy: "memcpy_to 0 (ptr_at (sf_flash s) (unat off)) (unat (min (0x1000000 - off) 0x4000000)) (memcpy_to 0 (\<lambda>_. 0xFF) 0x4000000 x) =
      refresh_window (sf_flash s) off x" if "\<not> off \<ge> 0x1000000" for off :: u32 and x
  proof -
    have "unat (min (0x1000000 - off) 0x4000000) = 0x1000000 - unat off"
      using that by (simp add: min_def word_le_unat unat_sub)
    then show ?thesis using that by (auto simp: fun_eq_iff refresh_window_def window_def memcpy_apply ptr_at_def word_le_unat)
  qed
  have out: "memcpy_to 0 (\<lambda>_. 0xFF) 0x4000000 x = refresh_window (sf_flash s) off x" if "off \<ge> 0x1000000" for off :: u32 and x
    using that by (auto simp: fun_eq_iff refresh_window_def window_def memcpy_apply word_le_unat)
  show ?thesis
  proof (cases "xip_ptr s g b")
    case None
    then show ?thesis using put2_same [of g b "xip_ptr s"] by (simp add: sf_ctrl_refresh_xip_view_def)
  next
    case (Some x)
    then show ?thesis using copy [of "sf_xip_offset s g b" x] out [of "sf_xip_offset s g b" x]
      by (simp add: sf_ctrl_refresh_xip_view_def Let_def)
  qed
qed

lemma sync_range_eq:
  "sf_ctrl_sync_xip_range g b off sz s =
     (if sf_ctrl_valid_group_bank g b
      then s\<lparr>xip_ptr := put2 g b (map_option (sync_window off sz (sf_flash s) (sf_xip_offset s g b)) (xip_ptr s g b)) (xip_ptr s)\<rparr> else s)"
proof (cases "xip_ptr s g b")
  case None
  then show ?thesis using put2_same [of g b "xip_ptr s"] by (simp add: sf_ctrl_sync_xip_range_def)
next
  case (Some x)
  then have keep: "s\<lparr>xip_ptr := put2 g b (Some x) (xip_ptr s)\<rparr> = s" using put2_same [of g b "xip_ptr s"] by simp
  show ?thesis
    unfolding sf_ctrl_sync_xip_range_def sync_window_def Let_def Some option.case option.map
    by (split if_split | rule conjI impI | simp only: if_True if_False simp_thms keep)+
qed

definition each_window :: "(nat \<Rightarrow> nat \<Rightarrow> bytes \<Rightarrow> bytes) \<Rightarrow> (nat \<Rightarrow> nat \<Rightarrow> bytes option) \<Rightarrow> nat \<Rightarrow> nat \<Rightarrow> bytes option" where
  "each_window h p g b = (if sf_ctrl_valid_group_bank g b then map_option (h g b) (p g b) else p g b)"

lemma valid_cases: "sf_ctrl_valid_group_bank g b \<longleftrightarrow> (g, b) \<in> set group_banks"
  by (auto simp: sf_ctrl_valid_group_bank_def group_banks_def)

lemma each_window_fold:
  "put2 1 1 (map_option (h 1 1) (p 1 1)) (put2 1 0 (map_option (h 1 0) (p 1 0))
     (put2 0 1 (map_option (h 0 1) (p 0 1)) (put2 0 0 (map_option (h 0 0) (p 0 0)) p))) = each_window h p"
  by (auto simp: fun_eq_iff each_window_def valid_cases group_banks_def)

lemma valid_group_banks [simp]:
  "sf_ctrl_valid_group_bank 0 0" "sf_ctrl_valid_group_bank 0 (Suc 0)" "sf_ctrl_valid_group_bank (Suc 0) 0"
  "sf_ctrl_valid_group_bank (Suc 0) (Suc 0)"
  by (simp_all add: sf_ctrl_valid_group_bank_def)

lemma sync_xip_eq:
  "sf_ctrl_sync_xip off sz s = s\<lparr>xip_ptr := each_window (\<lambda>g b. sync_window off sz (sf_flash s) (sf_xip_offset s g b)) (xip_ptr s)\<rparr>"
  unfolding each_window_fold [symmetric] by (simp add: sf_ctrl_sync_xip_def group_banks_def sync_range_eq)

lemma sync_all_eq:
  "bl808_sf_ctrl_sync_all_xip s = s\<lparr>xip_ptr := each_window (\<lambda>g b. refresh_window (sf_flash s) (sf_xip_offset s g b)) (xip_ptr s)\<rparr>"
  unfolding each_window_fold [symmetric] by (simp add: bl808_sf_ctrl_sync_all_xip_def group_banks_def refresh_view_eq)

lemma reset_defaults_eq:
  "\<exists>r. sf_ctrl_reset_register_defaults s =
     s\<lparr>sf_xip_offset := \<lambda>g b. if sf_ctrl_valid_group_bank g b then sf_reset_xip_offset s g b AND 0x0FFFFFFF else sf_xip_offset s g b, sf_regs := r\<rparr>"
proof -
  have "put2 1 1 (h 1 1) (put2 1 0 (h 1 0) (put2 0 1 (h 0 1) (put2 0 0 (h 0 0) p))) =
      (\<lambda>g b. if sf_ctrl_valid_group_bank g b then h g b else p g b)" for h p
    by (auto simp: fun_eq_iff valid_cases group_banks_def)
  from this [of "\<lambda>g b. sf_reset_xip_offset s g b AND 0x0FFFFFFF" "sf_xip_offset s"] show ?thesis
    by (auto simp: sf_ctrl_reset_register_defaults_def group_banks_def reset_image_offset_def Let_def)
qed

section \<open>Coherence of the windows\<close>

definition mirrors :: "bytes \<Rightarrow> u32 \<Rightarrow> bytes \<Rightarrow> bool" where
  "mirrors f off x \<longleftrightarrow> (\<forall>i < window_len. x i = window f off i)"

lemma refresh_mirrors [simp]: "mirrors f off (refresh_window f off x)"
  by (simp add: mirrors_def refresh_window_def memcpy_apply)

lemma sync_window_mirrors:
  assumes small: "unat off + unat sz \<le> flash_len"
    and old: "\<And>i. i < window_len \<Longrightarrow> \<not> (unat off \<le> unat img + i \<and> unat img + i < unat off + unat sz) \<Longrightarrow> x i = window f img i"
  shows "mirrors f img (sync_window off sz f img x)"
  unfolding mirrors_def
proof (intro allI impI)
  fix i assume i: "i < window_len"
  have sum: "unat (off + sz) = unat off + unat sz" using small by (intro unat_add_small) simp
  show "sync_window off sz f img x i = window f img i"
  proof (cases "sz = 0 \<or> off + sz \<le> img")
    case True
    then have "unat sz = 0 \<or> unat off + unat sz \<le> unat img" using sum by (auto simp: word_le_unat)
    then have "x i = window f img i" using old [OF i] by linarith
    then show ?thesis using True by (simp add: sync_window_def)
  next
    case False
    define start where "start = (if off > img then off - img else 0)"
    define fin where "fin = min (off + sz - img) 0x4000000"
    have "unat img < unat off + unat sz" using False sum by (simp add: word_le_unat not_le)
    moreover have "unat start = unat off - unat img"
      by (auto simp: start_def word_less_unat unat_sub word_le_unat)
    moreover have "unat (off + sz - img) = unat off + unat sz - unat img"
      using False sum by (subst unat_sub) (auto simp: word_le_unat)
    then have "unat fin = min (unat off + unat sz - unat img) window_len" by (simp add: fin_def min_def word_le_unat)
    ultimately have
      inside: "start \<ge> 0x4000000 \<or> fin \<le> start \<Longrightarrow> \<not> (unat off \<le> unat img + i \<and> unat img + i < unat off + unat sz)" and
      copied: "\<not> (start \<ge> 0x4000000 \<or> fin \<le> start) \<Longrightarrow>
        (unat start \<le> i \<and> i < unat start + unat (fin - start)) = (unat off \<le> unat img + i \<and> unat img + i < unat off + unat sz)"
      using i by (auto simp: word_le_unat unat_sub)
    have eq: "sync_window off sz f img x = (if start \<ge> 0x4000000 \<or> fin \<le> start then x
        else memcpy_to (unat start) (ptr_at f (unat img + unat start)) (unat (fin - start)) x)"
      using False unfolding sync_window_def start_def fin_def Let_def by (simp only: if_False)
    show ?thesis
    proof (cases "start \<ge> 0x4000000 \<or> fin \<le> start")
      case True
      then show ?thesis using old [OF i inside [OF True]] by (simp only: eq if_True)
    next
      case out: False
      show ?thesis using old [OF i] copied [OF out] small
        by (simp only: eq out if_False memcpy_apply ptr_at_def) (auto simp: window_def)
    qed
  qed
qed

text \<open>Every attached window shows the flash from its offset.\<close>

definition sf_coherent :: "'b BL808SfCtrlState \<Rightarrow> bool" where
  "sf_coherent s \<longleftrightarrow> (\<forall>g b x. sf_ctrl_valid_group_bank g b \<longrightarrow> xip_ptr s g b = Some x \<longrightarrow> mirrors (sf_flash s) (sf_xip_offset s g b) x)"

definition flash_changed :: "'b blk_ops \<Rightarrow> u32 \<Rightarrow> u32 \<Rightarrow> bytes \<Rightarrow> 'b BL808SfCtrlState \<Rightarrow> 'b BL808SfCtrlState" where
  "flash_changed ops off sz f s = sf_ctrl_blk_write ops off sz (sf_ctrl_sync_xip off sz (s\<lparr>sf_flash := f\<rparr>))"

definition agree_outside :: "nat \<Rightarrow> nat \<Rightarrow> bytes \<Rightarrow> bytes \<Rightarrow> bool" where
  "agree_outside off n f f' \<longleftrightarrow> (\<forall>i. \<not> (off \<le> i \<and> i < off + n) \<longrightarrow> f' i = f i)"

lemma blk_write_eq:
  "sf_ctrl_blk_write ops off sz s = s\<lparr>sf_blk := (if off + sz \<le> 0x1000000
     then map_option (\<lambda>d. snd (blk_pwrite ops (unat off) (unat sz) (ptr_at (sf_flash s) (unat off)) d)) (sf_blk s) else sf_blk s)\<rparr>"
  by (cases "sf_blk s") (simp_all add: sf_ctrl_blk_write_def)

lemma update_coherent:
  assumes s: "sf_coherent s" and f: "agree_outside (unat off) (unat sz) (sf_flash s) f" and small: "unat off + unat sz \<le> flash_len"
  shows "sf_coherent (flash_changed ops off sz f s)"
  unfolding sf_coherent_def
proof (intro allI impI)
  fix g b x assume v: "sf_ctrl_valid_group_bank g b" and x: "xip_ptr (flash_changed ops off sz f s) g b = Some x"
  then obtain y where y: "xip_ptr s g b = Some y" "x = sync_window off sz f (sf_xip_offset s g b) y"
    by (auto simp: flash_changed_def sync_xip_eq blk_write_eq each_window_def)
  have "mirrors (sf_flash s) (sf_xip_offset s g b) y" using s v y(1) by (simp add: sf_coherent_def)
  then have "mirrors f (sf_xip_offset s g b) x"
    unfolding y(2) using f by (intro sync_window_mirrors [OF small]) (auto simp: mirrors_def window_def agree_outside_def)
  then show "mirrors (sf_flash (flash_changed ops off sz f s)) (sf_xip_offset (flash_changed ops off sz f s) g b) x"
    by (simp add: flash_changed_def sync_xip_eq blk_write_eq)
qed

lemma sync_all_coherent: "sf_coherent (bl808_sf_ctrl_sync_all_xip s)"
  by (auto simp: sf_coherent_def sync_all_eq each_window_def)

lemma set_offset_coherent: "sf_coherent s \<Longrightarrow> sf_coherent (sf_ctrl_set_flash_image_offset g b v s)"
  by (auto simp: sf_ctrl_set_flash_image_offset_def refresh_view_eq sf_coherent_def Let_def split: if_splits)

section \<open>Programming a page\<close>

definition only_clears :: "bytes \<Rightarrow> bytes \<Rightarrow> bool" where
  "only_clears f f' \<longleftrightarrow> (\<forall>i. f' i = f' i AND f i)"

lemma nor_trans:
  "agree_outside off n f f1 \<Longrightarrow> agree_outside off n f1 f2 \<Longrightarrow> agree_outside off n f f2"
  "only_clears f f1 \<Longrightarrow> only_clears f1 f2 \<Longrightarrow> only_clears f f2"
  unfolding agree_outside_def only_clears_def by (metis, metis and.assoc)

lemma and_255: "(x::u32) AND 255 = take_bit 8 x" and and_not_255: "(x::u32) AND - 256 = x AND NOT (mask 8)"
  by (simp_all add: take_bit_eq_mask mask_numeral)

lemma page_bounds:
  fixes addr :: u32
  assumes "unat addr < flash_len"
  shows "unat (addr AND - 256) = unat addr div 256 * 256" "unat (addr AND - 256) + 256 \<le> flash_len"
proof -
  show *: "unat (addr AND - 256) = unat addr div 256 * 256"
    unfolding and_not_255 by (subst unat_and_not_mask) simp
  have "unat addr div 256 < 65536" using assms by (simp add: div_less_iff_less_mult)
  then show "unat (addr AND - 256) + 256 \<le> flash_len" unfolding * by simp
qed

lemma page_dest:
  fixes base :: u32
  assumes "unat base + 256 \<le> flash_len"
  shows "unat (base + (x AND 255)) = unat base + unat x mod 256" "base + (x AND 255) < 0x1000000"
proof -
  have low: "unat (x AND 255) = unat x mod 256" using unat_and_mask [of x 8] by (simp add: mask_numeral)
  have "unat x mod 256 < 256" by simp
  then show *: "unat (base + (x AND 255)) = unat base + unat x mod 256"
    using assms low unat_add_small [of base "x AND 255"] by simp
  then show "base + (x AND 255) < 0x1000000" using assms by (simp add: word_less_unat)
qed

lemma page_loop_frame:
  assumes "unat base + 256 \<le> flash_len"
  shows "agree_outside (unat base) 256 f (page_loop src base off i n f) \<and> only_clears f (page_loop src base off i n f)"
proof (induction n arbitrary: i f)
  case 0
  then show ?case by (simp add: agree_outside_def only_clears_def)
next
  case (Suc n)
  define d where "d = unat (base + ((off + of_nat i) AND 255))"
  define f1 where "f1 = f(d := f d AND src i)"
  have d: "unat base \<le> d" "d < unat base + 256" using page_dest(1) [OF assms] by (simp_all add: d_def)
  have "page_loop src base off i (Suc n) f = page_loop src base off (Suc i) n f1"
    using page_dest(2) [OF assms] by (simp add: f1_def d_def Let_def)
  moreover have "agree_outside (unat base) 256 f f1" "only_clears f f1"
    using d by (auto simp: agree_outside_def only_clears_def f1_def and.commute and.left_commute)
  ultimately show ?case using Suc.IH [where f = f1 and i = "Suc i"] nor_trans by metis
qed

text \<open>Without a wrap at the end of the page, the bytes land one after the other.\<close>

lemma page_loop_linear:
  assumes "unat base + 256 \<le> flash_len" "unat off + i + n \<le> 256"
  shows "page_loop src base off i n f =
    (\<lambda>j. if unat base + unat off + i \<le> j \<and> j < unat base + unat off + i + n then f j AND src (j - (unat base + unat off)) else f j)"
  using assms(2)
proof (induction n arbitrary: i f)
  case 0
  then show ?case by (auto simp: fun_eq_iff)
next
  case (Suc n)
  have "unat (off + of_nat i) = unat off + i" using Suc.prems by (intro unat_add_of_nat) simp
  then have "unat (base + ((off + of_nat i) AND 255)) = unat base + unat off + i"
    using page_dest(1) [OF assms(1), of "off + of_nat i"] Suc.prems by simp
  then have "page_loop src base off i (Suc n) f =
      page_loop src base off (Suc i) n (f(unat base + unat off + i := f (unat base + unat off + i) AND src i))"
    using page_dest(2) [OF assms(1)] by (simp add: Let_def)
  also have "\<dots> = (\<lambda>j. if unat base + unat off + i \<le> j \<and> j < unat base + unat off + i + Suc n
      then f j AND src (j - (unat base + unat off)) else f j)"
    using Suc.prems by (subst Suc.IH) (auto simp: fun_eq_iff)
  finally show ?case .
qed

section \<open>The effect of a register write\<close>

definition sf_view :: "'b BL808SfCtrlState \<Rightarrow> bytes \<times> (nat \<Rightarrow> nat \<Rightarrow> bytes option) \<times> (nat \<Rightarrow> nat \<Rightarrow> u32) \<times>
    (nat \<Rightarrow> nat \<Rightarrow> u32) \<times> (nat \<Rightarrow> bytes) \<times> 'b option" where
  "sf_view s = (sf_flash s, xip_ptr s, sf_xip_offset s, sf_reset_xip_offset s, sec_reg s, sf_blk s)"

definition erased :: "nat \<Rightarrow> nat \<Rightarrow> bytes \<Rightarrow> bytes" where
  "erased off n f = memcpy_to off (\<lambda>_. 0xFF) n f"

definition sec_locked :: "u8 \<Rightarrow> nat \<Rightarrow> bool" where
  "sec_locked sr r \<longleftrightarrow> tst sr (sf_ctrl_sec_reg_lock_mask r)"

text \<open>A change of the flash is the erasure of an aligned unit or a page in which bits were cleared.\<close>

definition nor_change :: "nat \<Rightarrow> nat \<Rightarrow> bytes \<Rightarrow> bytes \<Rightarrow> bool" where
  "nor_change off n f f' \<longleftrightarrow> off mod n = 0 \<and> off + n \<le> flash_len \<and> agree_outside off n f f' \<and>
     (f' = erased off n f \<and> n \<in> {0x1000, 0x8000, 0x10000, flash_len} \<or> only_clears f f' \<and> n = 256)"

inductive sf_effect :: "'b blk_ops \<Rightarrow> 'b BL808SfCtrlState \<Rightarrow> 'b BL808SfCtrlState \<Rightarrow> bool" for ops s where
  keep: "sf_view s' = sf_view s \<Longrightarrow> sf_effect ops s s'"
| change: "tst (sr1 s) SR1_WEL \<Longrightarrow> powered_down s = 0 \<Longrightarrow> nor_change (unat off) (unat sz) (sf_flash s) f \<Longrightarrow>
    sf_view s' = sf_view (flash_changed ops off sz f s) \<Longrightarrow> \<not> tst (sr1 s') SR1_WEL \<Longrightarrow> sf_effect ops s s'"
| secure: "tst (sr1 s) SR1_WEL \<Longrightarrow> powered_down s = 0 \<Longrightarrow> r < 3 \<Longrightarrow> \<not> sec_locked (sr2 s) r \<Longrightarrow>
    sf_view s' = sf_view (s\<lparr>sec_reg := (sec_reg s)(r := x)\<rparr>) \<Longrightarrow> \<not> tst (sr1 s') SR1_WEL \<Longrightarrow> sf_effect ops s s'"
| move: "sf_view s' = sf_view (sf_ctrl_set_flash_image_offset g b v s) \<Longrightarrow> sf_effect ops s s'"
| reset: "reset_armed s \<noteq> 0 \<Longrightarrow> powered_down s = 0 \<Longrightarrow> sf_view s' = sf_view (sf_ctrl_reset_register_defaults s) \<Longrightarrow> sf_effect ops s s'"

end
