(* ===== verification/Sf_Effect.thy ===== *)
theory Sf_Effect
  imports Sf_Proofs
begin

text \<open>
  Every register write of the serial flash controller follows \<open>sf_effect\<close>, as long as the controller
  uses addresses of 24 bits: the flash and the security registers change only as a NOR flash does.
\<close>

lemma view_simps [simp]:
  "sf_view (clear_wel s) = sf_view s" "sf_view (sf_finish s) = sf_view s" "sf_view (sf_ctrl_store_data d s) = sf_view s"
  "sf_view (sf_ctrl_read_buffer addr n s) = sf_view s" "sf_view (sf_ctrl_read_sec_reg addr n s) = sf_view s"
  "sf_view (sf_ctrl_commit_status_write v s) = sf_view s" "sf_view (sf_ctrl_soft_reset s) = sf_view s"
  by (simp_all add: sf_view_def clear_wel_def sf_finish_def sf_ctrl_store_data_def sf_ctrl_read_buffer_def sf_ctrl_read_sec_reg_def
      sf_ctrl_commit_status_write_def sf_ctrl_soft_reset_def sf_ctrl_restore_status_from_nv_def Let_def split: option.split)

lemma wel_clear_wel [simp]: "\<not> tst (sr1 (clear_wel s)) 2"
  by (simp add: clear_wel_def tst_def and.assoc)

lemma program_effect:
  assumes "powered_down s = 0"
  shows "sf_effect ops s (sf_ctrl_page_program ops addr n s)"
proof (cases "addr \<ge> 0x1000000 \<or> \<not> tst (sr1 s) 2")
  case True
  then show ?thesis by (simp add: sf_ctrl_page_program_def sf_effect.keep)
next
  case False
  then have addr: "unat addr < flash_len" and lt: "(0x1000000 \<le> addr) = False" by (simp_all add: word_le_unat not_le)
  define f where "f = page_loop (sf_buf s) (addr AND - 256) (addr AND 255) 0 (unat (min (if n \<noteq> 0 then n else 512) 256)) (sf_flash s)"
  have eq: "sf_ctrl_page_program ops addr n s = clear_wel (flash_changed ops (addr AND - 256) 256 f s)"
    using False by (simp add: sf_ctrl_page_program_def flash_changed_def f_def lt Let_def)
  have "nor_change (unat (addr AND - 256)) (unat (256 :: u32)) (sf_flash s) f"
    using page_loop_frame [OF page_bounds(2) [OF addr]] page_bounds [OF addr]
    by (auto simp: nor_change_def f_def)
  then show ?thesis using False assms eq by (intro sf_effect.change) auto
qed

lemma erase_bounds:
  fixes addr :: u32
  assumes "unat addr < flash_len" "k \<le> 24"
  shows "unat (addr AND NOT (mask k)) mod 2 ^ k = 0" "unat (addr AND NOT (mask k)) + 2 ^ k \<le> flash_len"
proof -
  have eq: "unat (addr AND NOT (mask k)) = unat addr div 2 ^ k * 2 ^ k" by (rule unat_and_not_mask)
  then show "unat (addr AND NOT (mask k)) mod 2 ^ k = 0" by simp
  have split: "(2::nat) ^ (24 - k) * 2 ^ k = flash_len" using assms(2) power_add [of "2::nat" "24 - k" k] by simp
  then have "unat addr div 2 ^ k < 2 ^ (24 - k)" using assms(1) by (simp add: div_less_iff_less_mult)
  then have "(unat addr div 2 ^ k + 1) * 2 ^ k \<le> 2 ^ (24 - k) * 2 ^ k" by (intro mult_right_mono) simp_all
  then show "unat (addr AND NOT (mask k)) + 2 ^ k \<le> flash_len" using split eq by simp
qed

lemma erase_range_effect:
  assumes "powered_down s = 0" "tst (sr1 s) 2" "unat base mod unat n = 0" "unat base + unat n \<le> flash_len"
    and "unat n \<in> {0x1000, 0x8000, 0x10000, flash_len}"
  shows "sf_effect ops s (sf_ctrl_erase_range ops base n s)"
proof -
  let ?f = "erased (unat base) (unat n) (sf_flash s)"
  have "sf_ctrl_erase_range ops base n s = clear_wel (flash_changed ops base n ?f s)"
    by (simp add: sf_ctrl_erase_range_def flash_changed_def erased_def Let_def)
  moreover have "nor_change (unat base) (unat n) (sf_flash s) ?f"
    using assms by (auto simp: nor_change_def agree_outside_def erased_def memcpy_apply)
  ultimately show ?thesis using assms by (intro sf_effect.change) auto
qed

lemma erase_at_effect:
  assumes "powered_down s = 0" "addr < 0x1000000" "k \<in> {12, 15, 16}"
  shows "sf_effect ops s (sf_erase_at ops (2 ^ k) has_addr addr s)"
proof (cases "has_addr \<and> tst (sr1 s) 2")
  case True
  define base where "base = addr AND NOT (mask k)"
  have addr: "unat addr < flash_len" and k: "k \<le> 24" using assms by (auto simp: word_less_unat)
  have eq: "sf_erase_at ops (2 ^ k) has_addr addr s =
      (if base + 2 ^ k \<le> 0x1000000 then sf_ctrl_erase_range ops base (2 ^ k) s else clear_wel s)"
    using True by (simp add: sf_erase_at_def base_def mask_eq_exp_minus_1 Let_def)
  have "unat (2 ^ k :: u32) = 2 ^ k" using assms(3) by auto
  then have "sf_effect ops s (sf_ctrl_erase_range ops base (2 ^ k) s)"
    using erase_bounds [OF addr k] True assms by (intro erase_range_effect) (auto simp: base_def)
  then show ?thesis unfolding eq by (auto intro: sf_effect.keep)
next
  case False
  then show ?thesis by (auto simp: sf_erase_at_def intro: sf_effect.keep)
qed

lemma sec_index: "sf_ctrl_decode_sec_reg_addr addr = Some (r, off) \<Longrightarrow> r < 3"
  by (auto simp: sf_ctrl_decode_sec_reg_addr_def Let_def split: if_splits)

lemma sec_effect:
  assumes "powered_down s = 0" "tst (sr1 s) 2"
  shows "sf_effect ops s (sf_ctrl_sec_reg_erase addr s)" "sf_effect ops s (sf_ctrl_sec_reg_program addr n s)"
proof -
  have view: "sf_view (clear_wel t) = sf_view t" for t by simp
  have "sf_effect ops s (clear_wel (s\<lparr>sec_reg := (sec_reg s)(r := x)\<rparr>))" if "\<not> tst (sr2 s) (sf_ctrl_sec_reg_lock_mask r)" "r < 3" for r x
    using assms that by (intro sf_effect.secure [OF _ _ _ _ view]) (auto simp: sec_locked_def)
  then show "sf_effect ops s (sf_ctrl_sec_reg_erase addr s)" "sf_effect ops s (sf_ctrl_sec_reg_program addr n s)"
    using assms by (auto simp: sf_ctrl_sec_reg_erase_def sf_ctrl_sec_reg_program_def Let_def
        dest: sec_index intro: sf_effect.keep split: option.split)
qed

lemma sec_program_effect: "powered_down s = 0 \<Longrightarrow> sf_effect ops s (sf_ctrl_sec_reg_program addr n s)"
  using sec_effect(2) [of s ops addr n] by (cases "tst (sr1 s) 2") (auto simp: sf_ctrl_sec_reg_program_def intro: sf_effect.keep)

lemma reset_defaults_view:
  "sf_view (sf_ctrl_reset_register_defaults s) = (sf_flash s, xip_ptr s,
     \<lambda>g b. if sf_ctrl_valid_group_bank g b then sf_reset_xip_offset s g b AND 0x0FFFFFFF else sf_xip_offset s g b,
     sf_reset_xip_offset s, sec_reg s, sf_blk s)"
  using reset_defaults_eq [of s] by (auto simp: sf_view_def)

lemma reset_defaults_cong: "sf_view a = sf_view b \<Longrightarrow> sf_view (sf_ctrl_reset_register_defaults a) = sf_view (sf_ctrl_reset_register_defaults b)"
  unfolding reset_defaults_view by (auto simp: sf_view_def fun_eq_iff)

lemma update_view_cong: "sf_view a = sf_view b \<Longrightarrow> sf_view (flash_changed ops off n f a) = sf_view (flash_changed ops off n f b)"
  by (simp add: flash_changed_def sync_xip_eq blk_write_eq sf_view_def)

lemma move_view_cong:
  "sf_view a = sf_view b \<Longrightarrow> sf_view (sf_ctrl_set_flash_image_offset g i v a) = sf_view (sf_ctrl_set_flash_image_offset g i v b)"
  by (simp add: sf_ctrl_set_flash_image_offset_def refresh_view_eq sf_view_def Let_def)

text \<open>What an effect depends on.\<close>

lemma effect_cong:
  assumes "sf_effect ops a c" and "sf_view a = sf_view b" "sr1 a = sr1 b" "sr2 a = sr2 b" "powered_down a = powered_down b"
    and "reset_armed a \<noteq> 0 \<Longrightarrow> reset_armed b \<noteq> 0" and "sf_view c = sf_view d" "sr1 c = sr1 d"
  shows "sf_effect ops b d"
  using assms(1)
proof cases
  case keep
  then show ?thesis using assms by (intro sf_effect.keep) simp
next
  case (change off n f)
  then show ?thesis using assms update_view_cong [OF assms(2)]
    by (intro sf_effect.change [of b off n f]) (simp_all add: sf_view_def)
next
  case (secure r x)
  then show ?thesis using assms by (intro sf_effect.secure [of b r _ x]) (simp_all add: sf_view_def)
next
  case (move g i v)
  then show ?thesis using assms move_view_cong [OF assms(2)] by (intro sf_effect.move) simp
next
  case reset
  then show ?thesis using assms reset_defaults_cong [OF assms(2)] by (intro sf_effect.reset) simp_all
qed

section \<open>The switch over the commands\<close>

lemma modes_effect:
  assumes "powered_down s = 0"
  shows "sf_effect ops s (sf_switch_modes ops cmd n s)"
proof -
  have "sf_effect ops s (sf_ctrl_erase_range ops 0 0x1000000 s)" if "tst (sr1 s) 2"
    using assms that by (intro erase_range_effect) simp_all
  moreover have "sf_effect ops s (sf_ctrl_reset_register_defaults (sf_ctrl_soft_reset s))" if "reset_armed s \<noteq> 0"
    using assms that by (intro sf_effect.reset reset_defaults_cong) simp_all
  ultimately show ?thesis unfolding sf_switch_modes_def by (auto intro: sf_effect.keep simp: sf_view_def)
qed

lemma memory_effect:
  assumes "powered_down s = 0" "addr < 0x1000000"
  shows "sf_effect ops s (sf_switch_memory ops cmd has_addr addr n s)"
proof -
  have "sf_effect ops s (sf_erase_at ops 0x1000 h addr s)" "sf_effect ops s (sf_erase_at ops 0x8000 h addr s)"
    "sf_effect ops s (sf_erase_at ops 0x10000 h addr s)" for h
    using erase_at_effect [OF assms, of 12 ops h] erase_at_effect [OF assms, of 15 ops h] erase_at_effect [OF assms, of 16 ops h] by simp_all
  moreover have "sf_effect ops s (s\<lparr>qpi_mode := 1\<rparr>)" "sf_effect ops s s" by (auto intro: sf_effect.keep simp: sf_view_def)
  moreover have "sf_effect ops s (sf_ctrl_read_buffer addr n s)" "sf_effect ops s (sf_ctrl_read_sec_reg addr n s)"
    by (auto intro: sf_effect.keep)
  ultimately show ?thesis
    using program_effect [OF assms(1)] sec_effect(1) [OF assms(1)] sec_program_effect [OF assms(1)] modes_effect [OF assms(1)]
    unfolding sf_switch_memory_def by simp
qed

lemma write_sr_view [simp]: "sf_view (sf_write_sr cmd n v s) = sf_view s"
  by (simp add: sf_write_sr_def Let_def) (simp add: sf_view_def)

lemma view_registers [simp]:
  "sf_view (s\<lparr>sr1 := a\<rparr>) = sf_view s" "sf_view (s\<lparr>volatile_wel := w\<rparr>) = sf_view s" "sf_view (s\<lparr>powered_down := w\<rparr>) = sf_view s"
  "sf_view (s\<lparr>reset_armed := w\<rparr>) = sf_view s" "sf_view (s\<lparr>sf_ctrl_if_sahb0 := x\<rparr>) = sf_view s"
  "sf_view (s\<lparr>sf_ctrl_if_sahb1 := x\<rparr>) = sf_view s" "sf_view (s\<lparr>sf_ctrl_if_sahb2 := x\<rparr>) = sf_view s"
  "sf_view (s\<lparr>sf_ctrl_0 := x\<rparr>) = sf_view s" "sf_view (s\<lparr>sf_ctrl_1 := x\<rparr>) = sf_view s" "sf_view (s\<lparr>sf_buf := d\<rparr>) = sf_view s"
  "sf_view (s\<lparr>sf_regs := r\<rparr>) = sf_view s"
  by (simp_all add: sf_view_def)

lemma status_effect:
  assumes "powered_down s = 0 \<or> cmd = 0xAB" "addr < 0x1000000"
  shows "sf_effect ops s (sf_switch_status ops cmd has_addr addr n v s)"
proof -
  have "sf_effect ops s (s\<lparr>sr1 := a, volatile_wel := w\<rparr>)" "sf_effect ops s (s\<lparr>volatile_wel := w\<rparr>)" "sf_effect ops s (sf_ctrl_store_data d s)"
    "sf_effect ops s s" "sf_effect ops s (s\<lparr>powered_down := 0\<rparr>)" "sf_effect ops s (sf_ctrl_store_data d (s\<lparr>powered_down := 0\<rparr>))"
    "sf_effect ops s (sf_write_sr cmd n v s)" for a w d
    by (rule sf_effect.keep, simp)+
  moreover have "sf_effect ops s (sf_switch_memory ops cmd h addr n s)" if "cmd \<noteq> 0xAB" for h
    using that assms by (intro memory_effect) auto
  ultimately show ?thesis unfolding sf_switch_status_def Let_def by (cases "cmd = 0xAB") simp_all
qed

section \<open>Commands and register writes\<close>

lemma effect_refl: "sf_effect ops s s"
  by (rule sf_effect.keep) simp

definition sf_command :: "'b BL808SfCtrlState \<Rightarrow> u8" where
  "sf_command s = (be_bytes (sf_ctrl_if_sahb1 s) @ be_bytes (sf_ctrl_if_sahb2 s)) ! 0"

definition sf_address :: "'b BL808SfCtrlState \<Rightarrow> u32" where
  "sf_address s = addr_loop (be_bytes (sf_ctrl_if_sahb1 s) @ be_bytes (sf_ctrl_if_sahb2 s))
     (unat (sf_cmd_bytes (sf_ctrl_if_sahb0 s))) (unat (sf_addr_bytes (sf_ctrl_if_sahb0 s))) 0 AND 0x00FFFFFF"

definition sf_disarmed :: "'b BL808SfCtrlState \<Rightarrow> 'b BL808SfCtrlState" where
  "sf_disarmed s = (if reset_armed s \<noteq> 0 \<and> sf_command s \<noteq> 0x99 then s\<lparr>reset_armed := 0\<rparr> else s)"

lemma if_merge: "(if a then x else if b then x else y) = (if a \<or> b then x else y)"
  by simp

lemma execute_eq:
  assumes "\<not> tst (sf_ctrl_0 s) 0x80000"
  shows "sf_ctrl_execute_cmd ops s =
    (if sf_cmd_bytes (sf_ctrl_if_sahb0 s) = 0 \<or> powered_down s \<noteq> 0 \<and> sf_command s \<noteq> 0xAB then sf_finish s
     else sf_finish (sf_switch_status ops (sf_command s) (sf_addr_bytes (sf_ctrl_if_sahb0 s) \<noteq> 0) (sf_address s)
       (sf_data_len (sf_ctrl_if_sahb0 s)) (volatile_wel s \<noteq> 0) (sf_disarmed s)))"
  using assms unfolding sf_ctrl_execute_cmd_def sf_command_def sf_address_def sf_disarmed_def if_merge [symmetric] Let_def
  by (simp only: not_False_eq_True if_True)

lemma sf_address_less: "sf_address s < 0x1000000"
proof -
  have "unat (x AND 0xFFFFFF) < flash_len" for x :: u32 using unat_and_mask [of x 24] by (simp add: mask_numeral)
  then show ?thesis by (simp add: sf_address_def word_less_unat)
qed

lemma disarmed_simps [simp]:
  "sf_view (sf_disarmed s) = sf_view s" "sr1 (sf_disarmed s) = sr1 s" "sr2 (sf_disarmed s) = sr2 s"
  "powered_down (sf_disarmed s) = powered_down s" "sf_buf (sf_disarmed s) = sf_buf s" "sf_flash (sf_disarmed s) = sf_flash s"
  "sr2_nv (sf_disarmed s) = sr2_nv s" "sf_ctrl_0 (sf_disarmed s) = sf_ctrl_0 s"
  by (simp_all add: sf_disarmed_def)

lemma disarmed_armed: "reset_armed (sf_disarmed s) \<noteq> 0 \<Longrightarrow> reset_armed s \<noteq> 0"
  by (auto simp: sf_disarmed_def split: if_splits)

lemma execute_effect:
  assumes "\<not> tst (sf_ctrl_0 s) 0x80000"
  shows "sf_effect ops s (sf_ctrl_execute_cmd ops s)"
proof -
  have "sf_effect ops s (sf_finish (sf_switch_status ops (sf_command s) h (sf_address s) n v (sf_disarmed s)))"
    if "powered_down s = 0 \<or> sf_command s = 0xAB" for h n v
    by (rule effect_cong [OF status_effect [of "sf_disarmed s"]]) (use that sf_address_less disarmed_armed [of s] in \<open>auto simp: sf_finish_def\<close>)
  then show ?thesis unfolding execute_eq [OF assms] by (auto intro: sf_effect.keep)
qed

theorem write_effect:
  assumes "\<not> tst (sf_ctrl_0 s) 0x80000"
  shows "sf_effect ops s (bl808_sf_ctrl_write ops off v sz s)"
proof -
  have "sf_effect ops s (sf_write_sahb0 ops x s)" for x
  proof -
    define t where "t = s\<lparr>sf_ctrl_if_sahb0 := (x AND NOT 1) OR 1\<rparr>"
    have "sf_effect ops t (sf_ctrl_execute_cmd ops t)" using assms by (intro execute_effect) (simp add: t_def)
    then have "sf_effect ops s (sf_ctrl_execute_cmd ops t)" by (rule effect_cong) (simp_all add: t_def)
    then show ?thesis by (simp add: sf_write_sahb0_def t_def Let_def sf_effect.keep)
  qed
  moreover have "sf_effect ops s (sf_ctrl_set_flash_image_offset g b x s)" for g b x by (rule sf_effect.move) simp
  moreover have "sf_effect ops s (s\<lparr>sf_ctrl_0 := x\<rparr>)" "sf_effect ops s (s\<lparr>sf_ctrl_1 := x\<rparr>)" "sf_effect ops s (s\<lparr>sf_ctrl_if_sahb1 := x\<rparr>)"
    "sf_effect ops s (s\<lparr>sf_ctrl_if_sahb2 := x\<rparr>)" "sf_effect ops s (s\<lparr>sf_buf := d\<rparr>)" "sf_effect ops s (s\<lparr>sf_regs := r\<rparr>)" for x d r
    by (rule sf_effect.keep, simp)+
  ultimately show ?thesis unfolding bl808_sf_ctrl_write_def Let_def using effect_refl [of ops s] by (simp split del: if_split) (simp split: if_split)
qed

end
