(* ===== verification/Sf_Props.thy ===== *)
theory Sf_Props
  imports Sf_Effect
begin

text \<open>
  The serial flash controller over whole histories: the windows show the flash, the flash changes as
  a NOR flash does, locked security registers never change, the drive holds the flash, and what is
  programmed is read back.
\<close>

section \<open>Status and mode bits\<close>

text \<open>The second status register and its non-volatile image both have the bit.\<close>

definition status_bit :: "nat \<Rightarrow> 'b BL808SfCtrlState \<Rightarrow> bool" where
  "status_bit k s \<longleftrightarrow> bit (sr2 s) k \<and> bit (sr2_nv s) k"

definition addr24 :: "'b BL808SfCtrlState \<Rightarrow> bool" where
  "addr24 s \<longleftrightarrow> \<not> bit (sf_ctrl_0 s) 19"

lemma addr24_tst: "addr24 s \<longleftrightarrow> \<not> tst (sf_ctrl_0 s) 0x80000"
  using tst_BIT [of "sf_ctrl_0 s" 19] by (simp add: addr24_def)

text \<open>A state that an operation leaves as it was in these respects.\<close>

definition same_mode :: "'b BL808SfCtrlState \<Rightarrow> 'b BL808SfCtrlState \<Rightarrow> bool" where
  "same_mode s s' \<longleftrightarrow> sr2 s' = sr2 s \<and> sr2_nv s' = sr2_nv s \<and> sf_ctrl_0 s' = sf_ctrl_0 s"

lemma same_mode_flash:
  "same_mode s (sf_ctrl_erase_range ops base n s)" "same_mode s (sf_ctrl_page_program ops addr n s)"
  "same_mode s (sf_erase_at ops u h addr s)" "same_mode s (sf_ctrl_write_flash ops off d sz s)"
  "same_mode s (sf_ctrl_set_flash_image_offset g b v s)"
  unfolding same_mode_def sf_erase_at_def sf_ctrl_erase_range_def sf_ctrl_page_program_def sf_ctrl_write_flash_def
    sf_ctrl_set_flash_image_offset_def refresh_view_eq sync_xip_eq blk_write_eq clear_wel_def Let_def by simp_all

lemma same_mode_data:
  "same_mode s (sf_ctrl_read_buffer addr n s)" "same_mode s (sf_ctrl_read_sec_reg addr n s)" "same_mode s (sf_ctrl_store_data d s)"
  "same_mode s (sf_ctrl_sec_reg_erase addr s)" "same_mode s (sf_ctrl_sec_reg_program addr n s)"
  unfolding same_mode_def sf_ctrl_read_buffer_def sf_ctrl_read_sec_reg_def sf_ctrl_store_data_def sf_ctrl_sec_reg_erase_def
    sf_ctrl_sec_reg_program_def clear_wel_def Let_def by (simp_all split: option.split)

lemma reset_defaults_mode: "same_mode s (sf_ctrl_reset_register_defaults s)"
  using reset_defaults_eq [of s] by (auto simp: same_mode_def)

text \<open>What every command keeps: lock bits that are set for good, and the addressing mode.\<close>

definition keeps_mode :: "'b BL808SfCtrlState \<Rightarrow> 'b BL808SfCtrlState \<Rightarrow> bool" where
  "keeps_mode s s' \<longleftrightarrow> (\<forall>k \<in> {3, 4, 5}. status_bit k s \<longrightarrow> status_bit k s') \<and> (addr24 s \<longrightarrow> addr24 s')"

lemma same_mode_keeps: "same_mode s s' \<Longrightarrow> keeps_mode s s'"
  by (simp add: same_mode_def keeps_mode_def status_bit_def addr24_def)

lemma keeps_trans: "keeps_mode a b \<Longrightarrow> keeps_mode b c \<Longrightarrow> keeps_mode a c"
  by (simp add: keeps_mode_def)

lemma soft_reset_keeps: "keeps_mode s (sf_ctrl_soft_reset s)"
  by (simp add: keeps_mode_def status_bit_def addr24_def sf_ctrl_soft_reset_def sf_ctrl_restore_status_from_nv_def clear_wel_def bit_simps Let_def)

lemma commit_keeps: "keeps_mode s (sf_ctrl_commit_status_write v s)"
  by (simp add: keeps_mode_def status_bit_def addr24_def sf_ctrl_commit_status_write_def bit_simps Let_def)

lemma sr2_write_keeps: "keeps_mode s (s\<lparr>sr2 := sf_ctrl_apply_sr2_write (sr2 s) x\<rparr>)"
  by (simp add: keeps_mode_def status_bit_def addr24_def sf_ctrl_apply_sr2_write_def bit_simps Let_def)

lemma write_sr_keeps: "keeps_mode s (sf_write_sr cmd n v s)"
proof -
  define a where "a = (sr1 s AND NOT 0xFC) OR (sf_buf s 0 AND 0xFC)"
  have "keeps_mode s (s\<lparr>sr1 := a, sr2 := sf_ctrl_apply_sr2_write (sr2 s) x\<rparr>)" for x
    using sr2_write_keeps [of s x] by (simp add: keeps_mode_def status_bit_def addr24_def)
  moreover have "keeps_mode s (s\<lparr>sr1 := a\<rparr>)" "keeps_mode s (s\<lparr>sr3 := x\<rparr>)" "keeps_mode s s" for x
    by (auto intro!: same_mode_keeps simp: same_mode_def)
  ultimately show ?thesis
    unfolding sf_write_sr_def Let_def a_def by (auto intro!: keeps_trans [OF _ commit_keeps] sr2_write_keeps)
qed

lemma switch_keeps: "keeps_mode s (sf_switch_status ops cmd h addr n v s)"
proof -
  note same = same_mode_flash [THEN same_mode_keeps] same_mode_data [THEN same_mode_keeps]
  have plain: "keeps_mode s (s\<lparr>sr1 := a, volatile_wel := w\<rparr>)" "keeps_mode s (s\<lparr>volatile_wel := w\<rparr>)" "keeps_mode s (s\<lparr>powered_down := w\<rparr>)"
    "keeps_mode s (s\<lparr>qpi_mode := w\<rparr>)" "keeps_mode s (s\<lparr>burst_wrap_data := w\<rparr>)" "keeps_mode s (s\<lparr>reset_armed := w\<rparr>)" "keeps_mode s s"
    "keeps_mode s (sf_ctrl_store_data d (s\<lparr>powered_down := w\<rparr>))" for a w d
    by (auto intro!: same_mode_keeps simp: same_mode_def sf_ctrl_store_data_def Let_def)
  have "keeps_mode s (sf_ctrl_reset_register_defaults (sf_ctrl_soft_reset s))"
    using keeps_trans [OF soft_reset_keeps same_mode_keeps [OF reset_defaults_mode]] .
  then have "keeps_mode s (sf_switch_memory ops cmd h addr n s)" for h
    unfolding sf_switch_memory_def sf_switch_modes_def by (simp add: same plain)
  then show ?thesis unfolding sf_switch_status_def Let_def by (simp add: same plain write_sr_keeps)
qed

lemma finish_keeps: "keeps_mode s (sf_finish s)"
  by (intro same_mode_keeps) (simp add: same_mode_def sf_finish_def)

lemma execute_keeps: "keeps_mode s (sf_ctrl_execute_cmd ops s)"
proof -
  have "keeps_mode s (sf_finish (sf_switch_status ops cmd h addr n v s))"
    "keeps_mode s (sf_finish (sf_switch_status ops cmd h addr n v (s\<lparr>reset_armed := 0\<rparr>)))" for cmd h addr n v
    using keeps_trans [OF switch_keeps finish_keeps] keeps_trans [OF _ keeps_trans [OF switch_keeps finish_keeps], of s "s\<lparr>reset_armed := 0\<rparr>"]
    by (simp_all add: same_mode_def same_mode_keeps)
  then show ?thesis unfolding sf_ctrl_execute_cmd_def Let_def by (simp add: finish_keeps)
qed

text \<open>
  The operations that the theorems below admit: the processor does not switch to addresses of 32
  bits, and the machine does not write beyond the address space.
\<close>

fun sf_plain :: "sf_op \<Rightarrow> bool" where
  "sf_plain (Sf_write off v sz) = (off \<noteq> 0 \<or> sz \<noteq> 4 \<or> \<not> bit v 19)"
| "sf_plain (Sf_program_flash off d sz) = (unat off + unat sz < 2 ^ 32)"
| "sf_plain _ = True"

lemma sahb0_keeps: "keeps_mode s (sf_write_sahb0 ops x s)"
proof -
  have "keeps_mode s (s\<lparr>sf_ctrl_if_sahb0 := y\<rparr>)" for y by (intro same_mode_keeps) (simp add: same_mode_def)
  moreover from keeps_trans [OF this execute_keeps] have "keeps_mode s (sf_ctrl_execute_cmd ops (s\<lparr>sf_ctrl_if_sahb0 := y\<rparr>))" for y .
  ultimately show ?thesis by (simp add: sf_write_sahb0_def Let_def)
qed

lemma write_keeps:
  assumes "sf_plain (Sf_write off v sz)"
  shows "keeps_mode s (bl808_sf_ctrl_write ops off v sz s)"
proof -
  have "keeps_mode s (s\<lparr>sf_buf := d\<rparr>)" "keeps_mode s (s\<lparr>sf_ctrl_1 := x\<rparr>)" "keeps_mode s (s\<lparr>sf_ctrl_if_sahb1 := x\<rparr>)"
    "keeps_mode s (s\<lparr>sf_ctrl_if_sahb2 := x\<rparr>)" "keeps_mode s (s\<lparr>sf_regs := r\<rparr>)" "keeps_mode s s" for d x r
    by (rule same_mode_keeps, simp add: same_mode_def)+
  moreover have "keeps_mode s (s\<lparr>sf_ctrl_0 := ucast v\<rparr>)" if "off = 0" "sz = 4"
    using assms that by (simp add: keeps_mode_def status_bit_def addr24_def bit_simps)
  ultimately show ?thesis
    unfolding bl808_sf_ctrl_write_def Let_def by (simp add: same_mode_flash(5) [THEN same_mode_keeps] sahb0_keeps)
qed

lemma step_addr24:
  assumes "sf_plain op" "addr24 s"
  shows "addr24 (sf_step ops op s)"
proof (cases op)
  case (Sf_write off v sz)
  then show ?thesis using write_keeps [of off v sz s ops] assms by (simp add: keeps_mode_def)
next
  case Sf_reset
  then show ?thesis
    by (simp add: bl808_sf_ctrl_reset_def sync_all_eq sf_ctrl_soft_reset_def sf_ctrl_restore_status_from_nv_def clear_wel_def addr24_def Let_def)
qed (use assms(2) in \<open>simp_all add: addr24_def same_mode_flash [unfolded same_mode_def]\<close>)

section \<open>Locked security registers\<close>

lemma locked_bit: "r < 3 \<Longrightarrow> sec_locked x r \<longleftrightarrow> bit x (3 + r)"
  using tst_BIT [of x "3 + r"] by (simp add: sec_locked_def sf_ctrl_sec_reg_lock_mask_def push_bit_eq_mult power_add mult.commute)

definition otp_locked :: "nat \<Rightarrow> 'b BL808SfCtrlState \<Rightarrow> bool" where
  "otp_locked r s \<longleftrightarrow> sec_locked (sr2 s) r \<and> sec_locked (sr2_nv s) r"

lemma locked_status: "r < 3 \<Longrightarrow> otp_locked r s \<longleftrightarrow> status_bit (3 + r) s"
  by (simp add: otp_locked_def locked_bit status_bit_def)

lemma set_offset_view:
  "sec_reg (sf_ctrl_set_flash_image_offset g b v s) = sec_reg s" "sf_flash (sf_ctrl_set_flash_image_offset g b v s) = sf_flash s"
  "sf_blk (sf_ctrl_set_flash_image_offset g b v s) = sf_blk s"
  by (simp_all add: sf_ctrl_set_flash_image_offset_def refresh_view_eq Let_def)

lemma effect_locked:
  assumes "sf_effect ops s s'" "sec_locked (sr2 s) r"
  shows "sec_reg s' r = sec_reg s r"
  using assms(1) by cases
    (use assms(2) in \<open>auto simp: sf_view_def flash_changed_def sync_xip_eq blk_write_eq set_offset_view reset_defaults_view [unfolded sf_view_def]\<close>)

lemma write_locked:
  assumes "sf_plain (Sf_write off v sz)" "addr24 s" "r < 3" "otp_locked r s"
  shows "sec_reg (bl808_sf_ctrl_write ops off v sz s) r = sec_reg s r \<and> addr24 (bl808_sf_ctrl_write ops off v sz s) \<and>
    otp_locked r (bl808_sf_ctrl_write ops off v sz s)"
proof -
  have "3 + r \<in> {3, 4, 5}" using assms(3) by auto
  then show ?thesis
    using write_keeps [OF assms(1), of s ops] effect_locked [OF write_effect [of s ops off v sz], of r] assms(2-)
    unfolding keeps_mode_def locked_status [OF assms(3)] addr24_tst [symmetric] locked_bit [OF assms(3)] status_bit_def [of _ s] by blast
qed

lemma step_locked:
  assumes "sf_plain op" "op \<noteq> Sf_reset" "addr24 s" "r < 3" "otp_locked r s"
  shows "sec_reg (sf_step d op s) r = sec_reg s r \<and> addr24 (sf_step d op s) \<and> otp_locked r (sf_step d op s)"
proof (cases op)
  case (Sf_write off v sz)
  then show ?thesis using write_locked [of off v sz s r d] assms by simp
next
  case (Sf_program_flash off data sz)
  then show ?thesis using assms same_mode_flash(4) [of s d off data sz]
    by (auto simp: same_mode_def otp_locked_def addr24_def sf_ctrl_write_flash_def sync_xip_eq blk_write_eq Let_def)
next
  case (Sf_image_offset g b v)
  then show ?thesis using assms same_mode_flash(5) [of s g b v] by (auto simp: same_mode_def otp_locked_def addr24_def set_offset_view)
qed (use assms in \<open>auto simp: otp_locked_def addr24_def\<close>)

text \<open>
  C13. A security register whose lock bit is set in the status register and in its non-volatile image
  is never changed again: whatever the processor writes to the controller afterwards (status writes,
  volatile or not, flash resets, erase and program commands) and wherever the machine moves its
  windows, the register keeps its bytes, until the machine is reset.
\<close>

theorem sf_otp_permanent:
  assumes "otp_locked r s" "r < 3" "addr24 s" and "\<forall>op \<in> set ops. sf_plain op \<and> op \<noteq> Sf_reset"
  shows "sec_reg (fold (sf_step d) ops s) r = sec_reg s r"
  using assms(1,3,4)
proof (induction ops arbitrary: s)
  case (Cons op ops)
  then show ?case using step_locked [of op s r d] assms(2) by simp
qed simp

text \<open>The reset of the machine forgets the lock: the non-volatile image does not survive it.\<close>

lemma reset_unlocks: "r < 3 \<Longrightarrow> \<not> sec_locked (sr2 (bl808_sf_ctrl_reset s)) r"
  by (auto simp: locked_bit bl808_sf_ctrl_reset_def sync_all_eq sf_ctrl_soft_reset_def sf_ctrl_flash_power_on_reset_def
      sf_ctrl_restore_status_from_nv_def clear_wel_def bit_simps numeral_3_eq_3 less_Suc_eq Let_def)

section \<open>Windows over histories\<close>

fun sf_unarmed :: "'b blk_ops \<Rightarrow> sf_op list \<Rightarrow> 'b BL808SfCtrlState \<Rightarrow> bool" where
  "sf_unarmed d [] s = True"
| "sf_unarmed d (op # ops) s = (reset_armed s = 0 \<and> sf_unarmed d ops (sf_step d op s))"

lemma coherent_view: "sf_view s' = sf_view s \<Longrightarrow> sf_coherent s' = sf_coherent s"
  by (simp add: sf_view_def sf_coherent_def)

lemma write_coherent:
  assumes "addr24 s" "reset_armed s = 0" "sf_coherent s"
  shows "sf_coherent (bl808_sf_ctrl_write d off v sz s)"
  using write_effect [OF assms(1) [unfolded addr24_tst], of d off v sz]
proof cases
  case (change o n f)
  then show ?thesis using assms(3) coherent_view [OF change(4)] by (simp add: nor_change_def update_coherent)
next
  case (secure r x)
  then show ?thesis using assms(3) coherent_view [OF secure(5)] by (simp add: sf_coherent_def)
qed (use assms in \<open>auto dest: coherent_view simp: set_offset_coherent\<close>)

lemma write_flash_update:
  assumes "sz \<noteq> 0" "off < 0x1000000" "unat off + unat sz < 2 ^ 32"
  obtains n where "unat off + unat n \<le> flash_len" "n \<le> sz"
    "sf_ctrl_write_flash d off data sz s = flash_changed d off n (memcpy_to (unat off) data (unat n) (sf_flash s)) s"
proof (rule that)
  define n where "n = (if off + sz > 0x1000000 then 0x1000000 - off else sz)"
  have sum: "unat (off + sz) = unat off + unat sz" using assms(3) by (intro unat_add_small) simp
  have sub: "unat (0x1000000 - off) = 0x1000000 - unat off" using assms(2) by (subst unat_sub) (simp_all add: word_less_unat word_le_unat)
  show "unat off + unat n \<le> flash_len" using sum sub assms(2) by (auto simp: n_def word_less_unat)
  show "n \<le> sz" using sum sub assms(2) by (auto simp: n_def word_less_unat word_le_unat)
  show "sf_ctrl_write_flash d off data sz s = flash_changed d off n (memcpy_to (unat off) data (unat n) (sf_flash s)) s"
    using assms(1,2) linorder_not_le [of "0x1000000" off] unfolding sf_ctrl_write_flash_def flash_changed_def n_def Let_def by auto
qed

lemma step_coherent:
  assumes "sf_plain op" "addr24 s" "reset_armed s = 0" "sf_coherent s"
  shows "sf_coherent (sf_step d op s)"
proof (cases op)
  case (Sf_write off v sz)
  then show ?thesis using write_coherent assms by simp
next
  case (Sf_program_flash off data sz)
  show ?thesis
  proof (cases "sz = 0 \<or> 0x1000000 \<le> off")
    case True
    then show ?thesis using Sf_program_flash assms(4) by (auto simp: sf_ctrl_write_flash_def)
  next
    case False
    then obtain n where "unat off + unat n \<le> flash_len"
      "sf_ctrl_write_flash d off data sz s = flash_changed d off n (memcpy_to (unat off) data (unat n) (sf_flash s)) s"
      using write_flash_update [of sz off d data s] Sf_program_flash assms(1) by (auto simp: not_le)
    then show ?thesis using Sf_program_flash update_coherent [OF assms(4), of off n "memcpy_to (unat off) data (unat n) (sf_flash s)" d]
      by (simp add: agree_outside_def memcpy_apply)
  qed
next
  case Sf_reset
  then show ?thesis by (simp add: bl808_sf_ctrl_reset_def sync_all_coherent Let_def)
next
  case (Sf_image_offset g b v)
  then show ?thesis using assms(4) by (simp add: set_offset_coherent)
next
  case (Sf_reset_offset g b v)
  then show ?thesis using assms(4) by (simp add: sf_coherent_def)
qed

lemma run_coherent:
  "\<lbrakk>\<forall>op \<in> set ops. sf_plain op; sf_unarmed d ops s; addr24 s; sf_coherent s\<rbrakk> \<Longrightarrow> sf_coherent (fold (sf_step d) ops s)"
  by (induction ops arbitrary: s) (auto simp: step_coherent step_addr24)

lemma realize_ready:
  assumes "bl808_sf_ctrl_realize d s0 = Inr s"
  shows "sf_coherent s" "sf_ctrl_0 s = sf_ctrl_0 s0" "reset_armed s = 0"
proof -
  have load: "sf_ctrl_0 t' = sf_ctrl_0 t \<and> reset_armed t' = reset_armed t" if "sf_load_drive d b t = Inr t'" for b t t'
    using that by (auto simp: sf_load_drive_def Let_def split: prod.splits if_splits)
  define t where "t = sf_ctrl_flash_power_on_reset (sf_ctrl_reset_register_defaults (s0\<lparr>sf_flash := memcpy_to 0 (\<lambda>_. 0xFF) (unat (0x1000000::u32)) (sf_flash s0),
                sec_reg := \<lambda>r. memcpy_to 0 (\<lambda>_. 0xFF) (unat (256::u32)) (sec_reg s0 r)\<rparr>))"
  have t: "sf_ctrl_0 t = sf_ctrl_0 s0" "reset_armed t = 0"
    using reset_defaults_mode [of "s0\<lparr>sf_flash := memcpy_to 0 (\<lambda>_. 0xFF) (unat (0x1000000::u32)) (sf_flash s0),
                sec_reg := \<lambda>r. memcpy_to 0 (\<lambda>_. 0xFF) (unat (256::u32)) (sec_reg s0 r)\<rparr>"]
    by (simp_all add: t_def same_mode_def sf_ctrl_flash_power_on_reset_def sf_ctrl_restore_status_from_nv_def Let_def)
  obtain u where u: "(case sf_blk t of Some b \<Rightarrow> sf_load_drive d b t | None \<Rightarrow> Inr t) = Inr u" "s = bl808_sf_ctrl_sync_all_xip u"
    using assms unfolding bl808_sf_ctrl_realize_def Let_def t_def [symmetric] by (auto split: sum.splits)
  then have "sf_ctrl_0 u = sf_ctrl_0 t \<and> reset_armed u = reset_armed t" by (auto dest: load split: option.splits)
  then show "sf_coherent s" "sf_ctrl_0 s = sf_ctrl_0 s0" "reset_armed s = 0"
    using t by (simp_all add: u(2) sync_all_coherent) (simp_all add: sync_all_eq)
qed

text \<open>
  C9. After every history of register writes, flash writes and resets of the machine in which the
  flash is not armed for a software reset, each attached XIP window shows the flash from its offset,
  byte by byte, and erased bytes behind the end of the flash.
\<close>

theorem sf_windows_show_flash:
  assumes "bl808_sf_ctrl_realize d s0 = Inr s" "addr24 s0" and "\<forall>op \<in> set ops. sf_plain op" "sf_unarmed d ops s"
    and "s' = fold (sf_step d) ops s" "sf_ctrl_valid_group_bank g b" "xip_ptr s' g b = Some x" "i < 0x4000000"
  shows "x i = (let pos = unat (sf_xip_offset s' g b) + i in if pos < 0x1000000 then sf_flash s' pos else 0xFF)"
proof -
  have "addr24 s" using realize_ready(2) [OF assms(1)] assms(2) by (simp add: addr24_def)
  then have "sf_coherent s'" using run_coherent [OF assms(3,4)] realize_ready(1) [OF assms(1)] assms(5) by simp
  then show ?thesis using assms(6-8) by (simp add: sf_coherent_def mirrors_def window_def Let_def)
qed

section \<open>The flash as a NOR flash\<close>

text \<open>
  C12. With addresses of 24 bits, a register write changes the flash only when the device is powered up and
  the write enable latch is set, and clears the latch: then it erases one aligned sector, block or
  the whole chip to \<open>0xFF\<close>, or clears bits within one page of 256 bytes.  The other bytes
  keep their values, and nothing beyond the 16 MiB is written.
\<close>

theorem sf_flash_protected:
  assumes "addr24 s" and "s' = bl808_sf_ctrl_write d off v sz s"
  shows "sf_flash s' = sf_flash s \<or>
    tst (sr1 s) 0x02 \<and> powered_down s = 0 \<and> \<not> tst (sr1 s') 0x02 \<and> (\<exists>base n. nor_change base n (sf_flash s) (sf_flash s'))"
  using write_effect [OF assms(1) [unfolded addr24_tst], of d off v sz] unfolding assms(2) [symmetric]
proof cases
  case (change o n f)
  then have "sf_flash s' = f" by (simp add: sf_view_def flash_changed_def sync_xip_eq blk_write_eq)
  then show ?thesis using change by blast
qed (auto simp: sf_view_def set_offset_view reset_defaults_view [unfolded sf_view_def])

section \<open>An example\<close>

text \<open>A device without a drive, with a window for each core, and an empty flash.\<close>

definition no_drive :: "unit blk_ops" where
  "no_drive = \<lparr>blk_set_perm = \<lambda>d. (0, d), blk_getlength = \<lambda>_. 0, blk_pread = \<lambda>_ _ _. (0, \<lambda>_. 0), blk_pwrite = \<lambda>_ _ _ d. (0, d)\<rparr>"

definition sf_new :: "'b option \<Rightarrow> 'b BL808SfCtrlState" where
  "sf_new drive = \<lparr>sf_blk = drive, sf_ctrl_0 = 0, sf_ctrl_1 = 0, sf_ctrl_if_sahb0 = 0, sf_ctrl_if_sahb1 = 0, sf_ctrl_if_sahb2 = 0,
     sf_regs = \<lambda>_. 0, sf_buf = \<lambda>_. 0, sf_flash = \<lambda>_. 0, sec_reg = \<lambda>_ _. 0, xip_ptr = \<lambda>g b. if b = 0 then Some (\<lambda>_. 0) else None,
     sf_xip_offset = \<lambda>_ _. 0, sf_reset_xip_offset = \<lambda>_ _. 0, sr1 = 0, sr2 = 0, sr3 = 0, sr1_nv = 0, sr2_nv = 0, sr3_nv = 0,
     volatile_wel = 0, powered_down = 0, qpi_mode = 0, reset_armed = 0, burst_wrap_data = 0\<rparr>"

definition sf_example :: "unit BL808SfCtrlState" where
  "sf_example = projr (bl808_sf_ctrl_realize no_drive (sf_new None))"

lemma fresh_view:
  "sf_view (sf_ctrl_flash_power_on_reset (sf_ctrl_reset_register_defaults s)) = sf_view (sf_ctrl_reset_register_defaults s)"
  by (simp add: sf_view_def sf_ctrl_flash_power_on_reset_def sf_ctrl_restore_status_from_nv_def Let_def)

lemmas fresh_fields = fresh_view [unfolded reset_defaults_view, unfolded sf_view_def prod.inject]

lemma sf_example_fields:
  "bl808_sf_ctrl_realize no_drive (sf_new None) = Inr sf_example" "xip_ptr sf_example 0 0 \<noteq> None" "reset_armed sf_example = 0"
proof -
  show *: "bl808_sf_ctrl_realize no_drive (sf_new None) = Inr sf_example"
    by (simp add: sf_example_def bl808_sf_ctrl_realize_def sf_new_def fresh_fields Let_def)
  show "xip_ptr sf_example 0 0 \<noteq> None"
    by (simp add: sf_example_def bl808_sf_ctrl_realize_def sf_new_def fresh_fields sync_all_eq each_window_def Let_def)
  show "reset_armed sf_example = 0" using realize_ready(3) [OF *] .
qed

theorem sf_windows_show_flash_witness:
  "\<exists>x. xip_ptr (fold (sf_step no_drive) [Sf_write 0xA0 0x1000 4, Sf_program_flash 0x1000 of_nat 16] sf_example) 0 0 = Some x \<and> x 3 = 3"
proof -
  let ?ops = "[Sf_write 0xA0 0x1000 4, Sf_program_flash 0x1000 of_nat 16]"
  define s where "s = fold (sf_step no_drive) ?ops sf_example"
  have "xip_ptr s 0 0 \<noteq> None" "sf_xip_offset s 0 0 = 0x1000" "sf_flash s 0x1003 = 3"
    using sf_example_fields(2) unfolding s_def
    by (simp_all add: bl808_sf_ctrl_write_def sf_ctrl_set_flash_image_offset_def refresh_view_eq sf_ctrl_write_flash_def sync_xip_eq
        blk_write_eq each_window_def memcpy_apply Let_def)
  moreover have "sf_unarmed no_drive ?ops sf_example"
    using sf_example_fields(3) by (simp add: bl808_sf_ctrl_write_def sf_ctrl_set_flash_image_offset_def refresh_view_eq Let_def)
  moreover have "addr24 (sf_new None :: unit BL808SfCtrlState)" by (simp add: addr24_def sf_new_def)
  moreover have "\<forall>op \<in> set ?ops. sf_plain op" by simp
  ultimately show ?thesis
    using sf_windows_show_flash [OF sf_example_fields(1), of ?ops s 0 0 _ 3] s_def by auto
qed

text \<open>The status register locks the second security register, and a program command for it is refused.\<close>

definition sf_locked_example :: "unit BL808SfCtrlState" where
  "sf_locked_example = sf_new None\<lparr>sr1 := 0x02, sr2 := 0x12, sr2_nv := 0x12\<rparr>"

theorem sf_otp_permanent_witness:
  "sec_reg (fold (sf_step no_drive) [Sf_write 0x0C 0x42002000 4, Sf_write 0x08 0xD040002 4, Sf_write 0x08 0 4] sf_locked_example) 1 =
   sec_reg sf_locked_example 1"
  by (rule sf_otp_permanent)
    (simp_all add: otp_locked_def sec_locked_def sf_locked_example_def sf_new_def sf_ctrl_sec_reg_lock_mask_def tst_def addr24_def)

theorem sf_flash_protected_witness:
  "sf_flash (bl808_sf_ctrl_write no_drive 0x08 0xC040002 4 (sf_new None\<lparr>sf_ctrl_if_sahb1 := 0x20000000\<rparr>)) = (\<lambda>_. 0)"
  using sf_flash_protected [OF _ refl, of "sf_new None\<lparr>sf_ctrl_if_sahb1 := 0x20000000\<rparr>" no_drive 8 "0xC040002" 4]
  by (simp add: addr24_def sf_new_def)

end
