(* ===== verification/Sf_Driver.thy ===== *)
theory Sf_Driver
  imports Sf_Props
begin

text \<open>
  The commands of a flash driver, as sequences of register writes of the serial flash controller:
  what is programmed is read back.
\<close>

section \<open>A driver's commands\<close>

text \<open>
  How firmware issues a command: the command byte and an address of three bytes in the second
  interface register, then the byte counts and the trigger in the first.
\<close>

definition addr_cmd :: "u8 \<Rightarrow> u32 \<Rightarrow> nat \<Rightarrow> sf_op list" where
  "addr_cmd cmd addr n = [Sf_write 0x0C (ucast (push_bit 24 (ucast cmd :: u32) OR addr)) 4,
     Sf_write 0x08 (ucast ((if n = 0 then 0xC040002 else 0xD040002 OR push_bit 2 (of_nat (n - 1))) :: u32)) 4]"

definition plain_cmd :: "u8 \<Rightarrow> sf_op list" where
  "plain_cmd cmd = [Sf_write 0x0C (ucast (push_bit 24 (ucast cmd :: u32))) 4, Sf_write 0x08 0x8000002 4]"

definition sf_ready :: "'b BL808SfCtrlState \<Rightarrow> bool" where
  "sf_ready s \<longleftrightarrow> addr24 s \<and> powered_down s = 0 \<and> \<not> tst (sf_ctrl_if_sahb0 s) 2"

lemma ucast_back: "ucast (ucast x :: u64) = (x :: u32)"
  by (rule bit_word_eqI) (simp add: bit_simps)

lemma count_mask:
  assumes "m < 1024"
  shows "push_bit 2 m AND 0xFFC = push_bit 2 (m :: u32)" "drop_bit 2 (push_bit 2 m) = (m :: u32)"
proof -
  have low: "m AND mask 10 = m"
    using assms unat_and_mask [of m 10] by (simp add: word_unat_eq_iff word_less_unat)
  then have b: "bit m k \<Longrightarrow> k < 10" for k by (metis bit_and_iff bit_mask_iff)
  have "push_bit 2 m AND push_bit 2 (mask 10) = push_bit 2 (m AND mask 10)" by (simp add: push_bit_and)
  moreover have "push_bit 2 (mask 10) = (0xFFC :: u32)" by (simp add: mask_numeral)
  ultimately show "push_bit 2 m AND 0xFFC = push_bit 2 m" by (simp only: low)
  show "drop_bit 2 (push_bit 2 m) = m" by (rule bit_word_eqI) (auto simp: bit_simps dest: b)
qed

lemma data_flags:
  assumes "n \<noteq> 0" "n \<le> 1024"
  shows "sf_data_len (0xD040003 OR push_bit 2 (of_nat (n - 1))) = of_nat n" "sf_cmd_bytes (0xD040003 OR push_bit 2 (of_nat (n - 1))) = 1"
    "sf_addr_bytes (0xD040003 OR push_bit 2 (of_nat (n - 1))) = 3" "tst (0xD040002 OR push_bit 2 (of_nat (n - 1)) :: u32) 2"
    "(0xD040002 OR push_bit 2 (of_nat (n - 1)) :: u32) AND NOT 1 OR 1 = 0xD040003 OR push_bit 2 (of_nat (n - 1))"
proof -
  define m :: u32 where "m = of_nat (n - 1)"
  have "unat m = n - 1" unfolding m_def using assms by (intro unat_of_nat_small) simp
  then have m: "m < 1024" using assms by (simp add: word_less_unat)
  have other: "push_bit 2 m AND c = 0" if "0xFFC AND c = 0" for c
  proof -
    have "push_bit 2 m AND c = (push_bit 2 m AND 0xFFC) AND c" by (simp only: count_mask(1) [OF m])
    also have "\<dots> = 0" by (simp only: and.assoc that and_zero_eq)
    finally show ?thesis .
  qed
  have bits: "push_bit 2 m AND 0x1000000 = 0" "push_bit 2 m AND 0x4000000 = 0" "push_bit 2 m AND 0x8000000 = 0"
    "push_bit 2 m AND 0x700000 = 0" "push_bit 2 m AND 0xE0000 = 0" "push_bit 2 m AND 2 = 0" "push_bit 2 m AND 1 = 0"
    by (rule other, simp)+
  have dist: "(c OR push_bit 2 m) AND e = (c AND e) OR (push_bit 2 m AND e)" for c e by (rule bit.conj_disj_distrib2)
  have "m + 1 = of_nat n" using assms(1) by (simp add: m_def of_nat_diff)
  then show "sf_data_len (0xD040003 OR push_bit 2 (of_nat (n - 1))) = of_nat n"
    using count_mask [OF m] unfolding m_def [symmetric] sf_data_len_def tst_def dist bits by simp
  show "sf_cmd_bytes (0xD040003 OR push_bit 2 (of_nat (n - 1))) = 1" "sf_addr_bytes (0xD040003 OR push_bit 2 (of_nat (n - 1))) = 3"
    "tst (0xD040002 OR push_bit 2 (of_nat (n - 1)) :: u32) 2"
    unfolding m_def [symmetric] sf_cmd_bytes_def sf_addr_bytes_def tst_def dist bits by simp_all
  have "push_bit 2 m AND NOT 1 = push_bit 2 m" by (rule bit_word_eqI) (auto simp: bit_simps)
  then have "(0xD040002 OR push_bit 2 m) AND NOT 1 = 0xD040002 OR push_bit 2 m" unfolding dist by simp
  moreover have "(0xD040002 OR push_bit 2 m) OR 1 = (0xD040002 OR 1) OR push_bit 2 m" by (simp only: or.assoc or.commute [of _ 1])
  ultimately show "(0xD040002 OR push_bit 2 (of_nat (n - 1)) :: u32) AND NOT 1 OR 1 = 0xD040003 OR push_bit 2 (of_nat (n - 1))"
    unfolding m_def [symmetric] by simp
qed

lemma sent_bytes:
  assumes "addr < 0x1000000"
  shows "be_bytes (push_bit 24 (ucast cmd) OR addr) ! 0 = cmd"
    "addr_loop (be_bytes (push_bit 24 (ucast cmd) OR addr) @ rest) 1 3 0 AND 0xFFFFFF = addr"
proof -
  have low: "addr AND mask 24 = addr"
    using assms unat_and_mask [of addr 24] by (simp add: word_unat_eq_iff word_less_unat)
  then have b: "bit addr k \<Longrightarrow> k < 24" for k by (metis bit_and_iff bit_mask_iff)
  show "be_bytes (push_bit 24 (ucast cmd) OR addr) ! 0 = cmd"
    by (simp add: be_bytes_def, rule bit_word_eqI) (auto simp: bit_simps dest: b)
  define x where "x = push_bit 24 (ucast cmd) OR addr"
  have mask24: "(0xFFFFFF :: u32) = mask 24" by (simp add: mask_numeral)
  have "addr_loop (be_bytes x @ rest) 1 3 0 AND 0xFFFFFF = x AND mask 24"
  proof (rule bit_word_eqI)
    fix k assume k: "k < LENGTH(32)"
    consider "k < 8" | "8 \<le> k" "k < 16" | "16 \<le> k" "k < 24" | "24 \<le> k" by linarith
    then show "bit (addr_loop (be_bytes x @ rest) 1 3 0 AND 0xFFFFFF) k = bit (x AND mask 24) k"
      using k unfolding mask24 by cases (auto simp: be_bytes_def numeral_3_eq_3 bit_simps)
  qed
  also have "\<dots> = addr" unfolding x_def by (intro bit_word_eqI) (auto simp: bit_simps dest: b)
  finally show "addr_loop (be_bytes (push_bit 24 (ucast cmd) OR addr) @ rest) 1 3 0 AND 0xFFFFFF = addr" by (simp only: x_def)
qed

text \<open>The state in which the switch runs: registers and buffer as before, no reset armed unless asked for.\<close>

definition issued :: "'b BL808SfCtrlState \<Rightarrow> 'b BL808SfCtrlState \<Rightarrow> bool" where
  "issued s t \<longleftrightarrow> sf_view t = sf_view s \<and> sf_buf t = sf_buf s \<and> sr1 t = sr1 s \<and> sf_ctrl_0 t = sf_ctrl_0 s \<and> powered_down t = powered_down s"

lemma execute_issued:
  assumes "sf_ready s" "sf_cmd_bytes x = 1" "be_bytes w ! 0 = cmd"
  shows "\<exists>t. issued s t \<and> (cmd = 0x99 \<longrightarrow> reset_armed t = reset_armed s) \<and>
    sf_ctrl_execute_cmd d (s\<lparr>sf_ctrl_if_sahb1 := w, sf_ctrl_if_sahb0 := x\<rparr>) =
    sf_finish (sf_switch_status d cmd (sf_addr_bytes x \<noteq> 0) (addr_loop (be_bytes w @ be_bytes (sf_ctrl_if_sahb2 s)) 1 (unat (sf_addr_bytes x)) 0 AND 0xFFFFFF)
      (sf_data_len x) (volatile_wel s \<noteq> 0) t)"
proof -
  let ?u = "s\<lparr>sf_ctrl_if_sahb1 := w, sf_ctrl_if_sahb0 := x\<rparr>"
  have u: "\<not> tst (sf_ctrl_0 ?u) 0x80000" "powered_down ?u = 0" using assms(1) by (simp_all add: sf_ready_def addr24_tst)
  have cmd: "sf_command ?u = cmd" using assms(3) by (simp add: sf_command_def be_bytes_def)
  have "issued s (sf_disarmed ?u)" "cmd = 0x99 \<longrightarrow> reset_armed (sf_disarmed ?u) = reset_armed s"
    by (simp_all add: issued_def) (simp add: sf_disarmed_def cmd)
  moreover have "sf_address ?u = addr_loop (be_bytes w @ be_bytes (sf_ctrl_if_sahb2 s)) 1 (unat (sf_addr_bytes x)) 0 AND 0xFFFFFF"
    using assms(2) by (simp add: sf_address_def)
  ultimately show ?thesis
    using assms(2) u by (intro exI [of _ "sf_disarmed ?u"]) (simp add: execute_eq cmd)
qed

lemma addr_cmd_run:
  assumes "sf_ready s" "addr < 0x1000000" "n \<le> 1024"
  shows "\<exists>t. issued s t \<and> fold (sf_step d) (addr_cmd cmd addr n) s =
    sf_finish (sf_switch_status d cmd True addr (of_nat n) (volatile_wel s \<noteq> 0) t)"
proof -
  define w where "w = push_bit 24 (ucast cmd) OR addr"
  define f :: u32 where "f = (if n = 0 then 0xC040003 else 0xD040003 OR push_bit 2 (of_nat (n - 1)))"
  have f: "sf_cmd_bytes f = 1" "sf_addr_bytes f = 3" "sf_data_len f = of_nat n"
    using data_flags [of n] assms(3) by (simp_all add: f_def) (simp_all add: sf_cmd_bytes_def sf_addr_bytes_def sf_data_len_def tst_def)
  have w: "be_bytes w ! 0 = cmd" "addr_loop (be_bytes w @ rest) 1 3 0 AND 0xFFFFFF = addr" for rest
    using sent_bytes [OF assms(2)] by (simp_all add: w_def)
  have sahb: "sf_write_sahb0 d (if n = 0 then 0xC040002 else 0xD040002 OR push_bit 2 (of_nat (n - 1))) t =
      sf_ctrl_execute_cmd d (t\<lparr>sf_ctrl_if_sahb0 := f\<rparr>)" if "\<not> tst (sf_ctrl_if_sahb0 t) 2" for t :: "'a BL808SfCtrlState"
  proof (cases "n = 0")
    case True
    then show ?thesis using that by (simp add: sf_write_sahb0_def f_def tst_def Let_def)
  next
    case False
    have "tst ((0xD040002 OR push_bit 2 (of_nat (n - 1)) :: u32) AND NOT 1) 2"
      using data_flags(4) [OF False assms(3)] by (simp add: tst_def and.assoc)
    then show ?thesis using that False data_flags(5) [OF False assms(3)] by (simp add: sf_write_sahb0_def f_def Let_def)
  qed
  have "fold (sf_step d) (addr_cmd cmd addr n) s = sf_write_sahb0 d (if n = 0 then 0xC040002 else 0xD040002 OR push_bit 2 (of_nat (n - 1)))
      (s\<lparr>sf_ctrl_if_sahb1 := w\<rparr>)"
    by (simp add: addr_cmd_def bl808_sf_ctrl_write_def w_def ucast_back)
  also have "\<dots> = sf_ctrl_execute_cmd d (s\<lparr>sf_ctrl_if_sahb1 := w, sf_ctrl_if_sahb0 := f\<rparr>)"
    using assms(1) by (subst sahb) (simp_all add: sf_ready_def)
  finally show ?thesis using execute_issued [OF assms(1) f(1) w(1), of d] by (auto simp: f w(2) [simplified])
qed

lemma plain_cmd_run:
  assumes "sf_ready s"
  shows "\<exists>t. issued s t \<and> (cmd = 0x99 \<longrightarrow> reset_armed t = reset_armed s) \<and> fold (sf_step d) (plain_cmd cmd) s =
    sf_finish (sf_switch_status d cmd False 0 0 (volatile_wel s \<noteq> 0) t)"
proof -
  have f: "sf_cmd_bytes 0x8000003 = 1" "sf_addr_bytes 0x8000003 = 0" "sf_data_len 0x8000003 = 0"
    by (simp_all add: sf_cmd_bytes_def sf_addr_bytes_def sf_data_len_def tst_def)
  have w: "be_bytes (push_bit 24 (ucast cmd)) ! 0 = cmd" using sent_bytes(1) [of 0 cmd] by simp
  have "fold (sf_step d) (plain_cmd cmd) s = sf_ctrl_execute_cmd d (s\<lparr>sf_ctrl_if_sahb1 := push_bit 24 (ucast cmd), sf_ctrl_if_sahb0 := 0x8000003\<rparr>)"
    using assms by (simp add: plain_cmd_def bl808_sf_ctrl_write_def ucast_back sf_write_sahb0_def sf_ready_def tst_def Let_def)
  then show ?thesis using execute_issued [OF assms f(1) w, of d] by (auto simp: f)
qed

lemma sf_finish_simps [simp]:
  "sf_flash (sf_finish s) = sf_flash s" "sf_buf (sf_finish s) = sf_buf s" "sr1 (sf_finish s) = sr1 s"
  "sf_ctrl_0 (sf_finish s) = sf_ctrl_0 s" "powered_down (sf_finish s) = powered_down s" "reset_armed (sf_finish s) = reset_armed s"
  "\<not> tst (sf_ctrl_if_sahb0 (sf_finish s)) 2"
  by (simp_all add: sf_finish_def tst_def and.assoc)

lemma issued_simps:
  "issued s t \<Longrightarrow> sf_flash t = sf_flash s" "issued s t \<Longrightarrow> sf_buf t = sf_buf s" "issued s t \<Longrightarrow> sr1 t = sr1 s"
  "issued s t \<Longrightarrow> powered_down t = powered_down s" "issued s t \<Longrightarrow> addr24 t = addr24 s" "issued s t \<Longrightarrow> sf_ctrl_0 t = sf_ctrl_0 s"
  by (simp_all add: issued_def sf_view_def addr24_def)

text \<open>What a step of the driver leaves: ready for the next command, with these flash and buffer contents.\<close>

definition left :: "'b BL808SfCtrlState \<Rightarrow> bytes \<Rightarrow> bytes \<Rightarrow> bool \<Rightarrow> bool" where
  "left s f buf wel \<longleftrightarrow> sf_ready s \<and> sf_flash s = f \<and> sf_buf s = buf \<and> tst (sr1 s) 2 = wel"

lemma wren_left:
  assumes "left s f buf w"
  shows "left (fold (sf_step d) (plain_cmd 0x06) s) f buf True"
proof -
  have ready: "sf_ready s" using assms by (simp add: left_def)
  obtain t where t: "issued s t" "fold (sf_step d) (plain_cmd 0x06) s = sf_finish (sf_switch_status d 0x06 False 0 0 (volatile_wel s \<noteq> 0) t)"
    using plain_cmd_run [OF ready, of 6 d] by auto
  have "tst (x OR 2 :: u8) 2" for x by (simp add: tst_def bit.conj_disj_distrib2)
  then show ?thesis using assms issued_simps [OF t(1)] unfolding t(2) left_def sf_ready_def addr24_def
    by (simp add: sf_switch_status_def)
qed

lemma erase_left:
  assumes "left s f buf True" "addr < 0x1000000"
  shows "left (fold (sf_step d) (addr_cmd 0x20 addr 0) s) (erased (unat addr div 4096 * 4096) 4096 f) buf False"
proof -
  have ready: "sf_ready s" using assms by (simp add: left_def)
  obtain t where t: "issued s t" "fold (sf_step d) (addr_cmd 0x20 addr 0) s = sf_finish (sf_switch_status d 0x20 True addr 0 (volatile_wel s \<noteq> 0) t)"
    using addr_cmd_run [OF ready assms(2), of 0 d "0x20"] by auto
  have addr: "unat addr < flash_len" using assms(2) by (simp add: word_less_unat)
  have base: "addr AND - 4096 = addr AND NOT (mask 12)" by (simp add: mask_numeral)
  have "unat (addr AND - 4096) + 4096 \<le> flash_len" using erase_bounds(2) [OF addr, of 12] unfolding base by simp
  then have "(addr AND - 4096) + 0x1000 \<le> 0x1000000" by (simp add: word_le_unat unat_add_small)
  moreover have "unat (addr AND - 4096) = unat addr div 4096 * 4096" unfolding base by (subst unat_and_not_mask) simp
  ultimately show ?thesis using assms(1) issued_simps [OF t(1)] unfolding t(2) left_def sf_ready_def addr24_def
    by (simp add: sf_switch_status_def sf_switch_memory_def sf_erase_at_def sf_ctrl_erase_range_def sync_xip_eq blk_write_eq erased_def Let_def)
      (simp add: clear_wel_def)
qed

lemma program_left:
  assumes "left s f buf True" "addr < 0x1000000" "n \<noteq> 0" "unat addr mod 256 + n \<le> 256"
  shows "left (fold (sf_step d) (addr_cmd 0x02 addr n) s)
    (\<lambda>j. if unat addr \<le> j \<and> j < unat addr + n then f j AND buf (j - unat addr) else f j) buf False"
proof -
  have ready: "sf_ready s" and n: "n \<le> 1024" using assms by (simp_all add: left_def)
  obtain t where t: "issued s t" "fold (sf_step d) (addr_cmd 0x02 addr n) s = sf_finish (sf_switch_status d 0x02 True addr (of_nat n) (volatile_wel s \<noteq> 0) t)"
    using addr_cmd_run [OF ready assms(2) n, of d 2] by auto
  have addr: "unat addr < flash_len" using assms(2) by (simp add: word_less_unat)
  have un: "unat (of_nat n :: u32) = n" using assms(4) by (intro unat_of_nat_small) simp
  have len: "unat (min (of_nat n) 256 :: u32) = n" using un assms(4) by (simp add: min_def word_le_unat)
  have nz: "(of_nat n :: u32) \<noteq> 0" using un assms(3) by (metis unat_0)
  have off: "unat (addr AND 255) = unat addr mod 256" using unat_and_mask [of addr 8] by (simp add: mask_numeral)
  have "page_loop buf (addr AND - 256) (addr AND 255) 0 n f =
      (\<lambda>j. if unat addr \<le> j \<and> j < unat addr + n then f j AND buf (j - unat addr) else f j)"
    using page_loop_linear [OF page_bounds(2) [OF addr], of "addr AND 255" 0 n buf f] assms(4) unfolding off page_bounds(1) [OF addr] div_mult_mod_eq by simp
  then show ?thesis using assms(1) issued_simps [OF t(1)] nz len leD assms(2) unfolding t(2) left_def sf_ready_def addr24_def
    by (simp add: sf_switch_status_def sf_switch_memory_def sf_ctrl_page_program_def sync_xip_eq blk_write_eq linorder_not_le [symmetric] Let_def)
      (simp add: clear_wel_def)
qed

fun load_buffer :: "nat \<Rightarrow> u8 list \<Rightarrow> sf_op list" where
  "load_buffer k [] = []"
| "load_buffer k (x # xs) = Sf_write (0x600 + of_nat k) (ucast x) 1 # load_buffer (Suc k) xs"

lemma buffer_write:
  assumes "k < 512"
  shows "bl808_sf_ctrl_write d (0x600 + of_nat k) (ucast x) 1 s = s\<lparr>sf_buf := (sf_buf s)(k := x)\<rparr>"
proof -
  have k: "unat (of_nat k :: hwaddr) = k" using assms by (intro unat_of_nat_small) simp
  then have "unat (0x600 + of_nat k :: hwaddr) = 0x600 + k" using assms by (subst unat_add_small) simp_all
  then have "0x600 \<le> (0x600 + of_nat k :: hwaddr)" "(0x600 + of_nat k :: hwaddr) < 0x800" using assms by (simp_all add: word_le_unat word_less_unat)
  moreover have "ucast (ucast x :: u64) = x" by (rule bit_word_eqI) (simp add: bit_simps)
  ultimately show ?thesis using k by (simp add: bl808_sf_ctrl_write_def Let_def)
qed

lemma buffer_left:
  "left s f buf w \<Longrightarrow> k + length xs \<le> 512 \<Longrightarrow>
    left (fold (sf_step d) (load_buffer k xs) s) f (memcpy_to k (\<lambda>i. xs ! i) (length xs) buf) w"
proof (induction xs arbitrary: k s buf)
  case Nil
  then show ?case by (auto simp: left_def memcpy_to_def fun_eq_iff)
next
  case (Cons x xs)
  have "left (s\<lparr>sf_buf := buf(k := x)\<rparr>) f (buf(k := x)) w"
    using Cons.prems(1) by (simp add: left_def sf_ready_def addr24_def)
  moreover have "sf_buf s = buf" using Cons.prems(1) by (simp add: left_def)
  moreover have "memcpy_to (Suc k) (\<lambda>i. xs ! i) (length xs) (buf(k := x)) = memcpy_to k (\<lambda>i. (x # xs) ! i) (Suc (length xs)) buf"
    by (auto simp: fun_eq_iff memcpy_apply nth_Cons' Suc_diff_Suc)
  moreover have "k < 512" "Suc k + length xs \<le> 512" using Cons.prems(2) by simp_all
  ultimately show ?case using Cons.IH [of "s\<lparr>sf_buf := buf(k := x)\<rparr>" "buf(k := x)" "Suc k"]
    by (simp only: load_buffer.simps fold_simps sf_step.simps buffer_write list.size add_Suc_right add_0_right simp_thms)
qed

lemma read_left:
  assumes "left s f buf w" "addr < 0x1000000" "n \<noteq> 0" "n \<le> 512" "unat addr + n \<le> flash_len"
  shows "\<exists>buf'. left (fold (sf_step d) (addr_cmd 0x03 addr n) s) f buf' w \<and> (\<forall>i < n. buf' i = f (unat addr + i))"
proof -
  have ready: "sf_ready s" and n: "n \<le> 1024" using assms by (simp_all add: left_def)
  obtain t where t: "issued s t" "fold (sf_step d) (addr_cmd 0x03 addr n) s = sf_finish (sf_switch_status d 0x03 True addr (of_nat n) (volatile_wel s \<noteq> 0) t)"
    using addr_cmd_run [OF ready assms(2) n, of d 3] by auto
  have un: "unat (of_nat n :: u32) = n" using assms(4) by (intro unat_of_nat_small) simp
  have nz: "(of_nat n :: u32) \<noteq> 0" using un assms(3) by (metis unat_0)
  have sub: "unat (0x1000000 - addr) = 0x1000000 - unat addr" using assms(2) by (subst unat_sub) (simp_all add: word_less_unat word_le_unat)
  have len: "unat (min (0x1000000 - addr) (min (of_nat n) 512)) = n" using un assms(4,5) sub by (auto simp: min_def word_le_unat)
  have lt: "(0x1000000 \<le> addr) = False" using assms(2) by (simp add: not_le)
  show ?thesis using assms(1) issued_simps [OF t(1)] unfolding t(2) left_def sf_ready_def addr24_def
    by (simp add: sf_switch_status_def sf_switch_memory_def sf_ctrl_read_buffer_def len lt nz Let_def memcpy_apply ptr_at_def)
qed

lemma same_unit:
  fixes a j :: nat
  assumes "a \<le> j" "j < a + n" "a mod 256 + n \<le> 256"
  shows "j div 256 = a div 256"
proof -
  define r where "r = a mod 256 + (j - a)"
  have "j = r + a div 256 * 256" "r < 256" using assms div_mult_mod_eq [of a 256] unfolding r_def by linarith+
  then show ?thesis by simp
qed

lemma and_erased [simp]: "(0xFF :: u8) AND x = x"
proof -
  have "(0xFF :: u8) = mask 8" by (simp add: mask_numeral)
  then show ?thesis by (simp add: bit_eq_iff bit_simps)
qed

definition program_page :: "u32 \<Rightarrow> u8 list \<Rightarrow> sf_op list" where
  "program_page addr xs = plain_cmd 0x06 @ addr_cmd 0x20 addr 0 @ plain_cmd 0x06 @ load_buffer 0 xs @ addr_cmd 0x02 addr (length xs)"

text \<open>
  C8. What a driver programs it reads back: after write enable, sector erase, write enable, loading the
  buffer and a page program, the flash holds the bytes at the address, erased bytes in the rest of
  the sector, and its old bytes elsewhere; a read command then brings the same bytes into the buffer.
\<close>

theorem sf_program_reads_back:
  assumes "sf_ready s" "addr < 0x1000000" "xs \<noteq> []" "unat addr mod 256 + length xs \<le> 256"
    and "s1 = fold (sf_step d) (program_page addr xs) s" "s2 = fold (sf_step d) (addr_cmd 0x03 addr (length xs)) s1"
  shows "sf_flash s1 = (\<lambda>j. if unat addr \<le> j \<and> j < unat addr + length xs then xs ! (j - unat addr)
      else if j div 4096 = unat addr div 4096 then 0xFF else sf_flash s j) \<and>
    sf_flash s2 = sf_flash s1 \<and> map (sf_buf s2) [0..<length xs] = xs"
proof -
  let ?n = "length xs" and ?e = "erased (unat addr div 4096 * 4096) 4096 (sf_flash s)"
  let ?b = "memcpy_to 0 (\<lambda>i. xs ! i) (length xs) (sf_buf s)"
  let ?p = "\<lambda>j. if unat addr \<le> j \<and> j < unat addr + ?n then ?e j AND ?b (j - unat addr) else ?e j"
  have n: "?n \<noteq> 0" "0 + ?n \<le> 512" "?n \<le> 512" using assms(3,4) by simp_all
  have "left s (sf_flash s) (sf_buf s) (tst (sr1 s) 2)" using assms(1) by (simp add: left_def)
  from program_left [OF buffer_left [OF wren_left [OF erase_left [OF wren_left [OF this] assms(2)]] n(2)] assms(2) n(1) assms(4)]
  have s1: "left s1 ?p ?b False" unfolding assms(5) program_page_def by simp
  have "unat addr < flash_len" using assms(2) by (simp add: word_less_unat)
  then have "unat addr div 256 < 65536" by (simp add: div_less_iff_less_mult)
  then have inside: "unat addr + ?n \<le> flash_len" using assms(4) div_mult_mod_eq [of "unat addr" 256] by linarith
  have "?p j = xs ! (j - unat addr)" if j: "unat addr \<le> j" "j < unat addr + ?n" for j
  proof -
    have "j div 256 = unat addr div 256"
      using same_unit [OF j assms(4)] .
    then have "j div 256 div 16 = unat addr div 256 div 16" by simp
    then have "j div 4096 = unat addr div 4096" by (simp add: div_mult2_eq [symmetric])
    then show ?thesis using j div_mult_mod_eq [of j 4096] by (auto simp: erased_def memcpy_apply)
  qed
  moreover have "?p j = (if j div 4096 = unat addr div 4096 then 0xFF else sf_flash s j)" if j: "\<not> (unat addr \<le> j \<and> j < unat addr + ?n)" for j
  proof -
    have "(unat addr div 4096 * 4096 \<le> j \<and> j < unat addr div 4096 * 4096 + 4096) = (j div 4096 = unat addr div 4096)"
      using div_mult_mod_eq [of j 4096] by auto
    then show ?thesis using j by (auto simp: erased_def memcpy_apply)
  qed
  ultimately have p: "?p = (\<lambda>j. if unat addr \<le> j \<and> j < unat addr + ?n then xs ! (j - unat addr)
      else if j div 4096 = unat addr div 4096 then 0xFF else sf_flash s j)" by (auto simp: fun_eq_iff)
  define q where "q = (\<lambda>j. if unat addr \<le> j \<and> j < unat addr + ?n then xs ! (j - unat addr)
      else if j div 4096 = unat addr div 4096 then 0xFF else sf_flash s j)"
  have s1: "left s1 q ?b False" using s1 unfolding p q_def [symmetric] .
  obtain buf' where "left s2 q buf' False" "\<forall>i < ?n. buf' i = q (unat addr + i)"
    using read_left [OF s1 assms(2) n(1,3) inside, of d] unfolding assms(6) by auto
  moreover have "q (unat addr + i) = xs ! i" if "i < ?n" for i using that by (simp add: q_def)
  ultimately show ?thesis using s1 unfolding q_def [symmetric] by (auto simp: left_def intro!: nth_equalityI)
qed

theorem sf_program_reads_back_witness:
  "map (sf_buf (fold (sf_step no_drive) (addr_cmd 0x03 0x1010 3) (fold (sf_step no_drive) (program_page 0x1010 [1, 2, 3]) (sf_new None)))) [0..<3] = [1, 2, 3]"
  using sf_program_reads_back [OF _ _ _ _ refl refl, of "sf_new None" "0x1010" "[1, 2, 3]" no_drive]
  by (simp add: sf_ready_def addr24_def sf_new_def numeral_3_eq_3)

section \<open>Two defects\<close>

text \<open>
  A software reset of the flash moves the windows without refreshing them: after the commands enable
  reset and reset, each window is at its reset offset again but still shows the bytes of the old one, so
  that a window whose flash contents differ at the two offsets no longer shows the flash.
\<close>

theorem sf_reset_leaves_windows:
  assumes "sf_ready s" "sf_ctrl_valid_group_bank g b" "s' = fold (sf_step d) (plain_cmd 0x66 @ plain_cmd 0x99) s"
    and "sf_coherent s" "xip_ptr s g b = Some x" "i < 0x4000000"
    and "window (sf_flash s) (sf_xip_offset s g b) i \<noteq> window (sf_flash s) (sf_reset_xip_offset s g b AND 0x0FFFFFFF) i"
  shows "xip_ptr s' g b = Some x \<and> sf_xip_offset s' g b = sf_reset_xip_offset s g b AND 0x0FFFFFFF \<and> \<not> sf_coherent s'"
proof -
  obtain t where t: "issued s t" "fold (sf_step d) (plain_cmd 0x66) s = sf_finish (sf_switch_status d 0x66 False 0 0 (volatile_wel s \<noteq> 0) t)"
    using plain_cmd_run [OF assms(1), of "0x66" d] by auto
  define u where "u = fold (sf_step d) (plain_cmd 0x66) s"
  have u: "sf_view u = sf_view s" "reset_armed u = 1" "sf_ready u"
    using t(1) assms(1) unfolding u_def t(2)
    by (simp_all add: sf_switch_status_def sf_switch_memory_def sf_switch_modes_def issued_def sf_ready_def addr24_def)
  obtain v where v: "issued u v" "reset_armed v = reset_armed u"
    "fold (sf_step d) (plain_cmd 0x99) u = sf_finish (sf_switch_status d 0x99 False 0 0 (volatile_wel u \<noteq> 0) v)"
    using plain_cmd_run [OF u(3), of "0x99" d] by auto
  have "s' = sf_finish (sf_ctrl_reset_register_defaults (sf_ctrl_soft_reset v))"
    using assms(3) v u(2) unfolding fold_append comp_def u_def [symmetric]
    by (simp add: sf_switch_status_def sf_switch_memory_def sf_switch_modes_def)
  moreover have "sf_view (sf_ctrl_soft_reset v) = sf_view s" using v(1) u(1) by (simp add: issued_def)
  ultimately have "sf_view s' = sf_view (sf_ctrl_reset_register_defaults s)" using reset_defaults_cong [of "sf_ctrl_soft_reset v" s] by simp
  then have s': "sf_flash s' = sf_flash s" "xip_ptr s' g b = Some x" "sf_xip_offset s' g b = sf_reset_xip_offset s g b AND 0x0FFFFFFF"
    using assms(2,5) unfolding reset_defaults_view by (simp_all add: sf_view_def)
  moreover have "x i = window (sf_flash s) (sf_xip_offset s g b) i" using assms(2,4-6) by (simp add: sf_coherent_def mirrors_def)
  ultimately have "\<not> mirrors (sf_flash s') (sf_xip_offset s' g b) x" using assms(6,7) by (auto simp: mirrors_def)
  then show ?thesis using s'(2,3) assms(2) unfolding sf_coherent_def by blast
qed

definition sf_moved_example :: "unit BL808SfCtrlState" where
  "sf_moved_example = bl808_sf_ctrl_sync_all_xip (sf_new None\<lparr>sf_flash := \<lambda>i. if i < 0x1000 then 1 else 2, sf_xip_offset := \<lambda>_ _. 0x1000\<rparr>)"

theorem sf_reset_leaves_windows_witness:
  "sf_coherent sf_moved_example \<and> \<not> sf_coherent (fold (sf_step no_drive) (plain_cmd 0x66 @ plain_cmd 0x99) sf_moved_example)"
proof -
  have c: "sf_coherent sf_moved_example" unfolding sf_moved_example_def by (rule sync_all_coherent)
  moreover obtain x where "xip_ptr sf_moved_example 0 0 = Some x"
    by (simp add: sf_moved_example_def sync_all_eq each_window_def sf_new_def)
  moreover have "sf_ready sf_moved_example" by (simp add: sf_moved_example_def sync_all_eq sf_ready_def addr24_def sf_new_def)
  ultimately show ?thesis
    using sf_reset_leaves_windows [OF _ _ refl, of sf_moved_example 0 0 x 0 no_drive]
    by (simp add: sf_moved_example_def sync_all_eq window_def sf_new_def)
qed

text \<open>
  With addresses of 32 bits, the bound check of the sector erase wraps: the commands write enable and
  sector erase at \<open>0xFFFFF000\<close> pass the check, since the end of the sector is the address 0, and
  fill 4096 bytes far behind the 16 MiB of the flash, in whatever memory of the emulator lies there.
\<close>

theorem sf_erase_wraps:
  assumes "bit (sf_ctrl_0 s) 19" "powered_down s = 0" "\<not> tst (sf_ctrl_if_sahb0 s) 2" "reset_armed s = 0"
    and "s' = fold (sf_step d) (plain_cmd 0x06 @ [Sf_write 0x0C 0x20FFFFF0 4, Sf_write 0x10 0 4, Sf_write 0x08 0xC060002 4]) s"
  shows "sf_flash s' = memcpy_to 0xFFFFF000 (\<lambda>_. 0xFF) 0x1000 (sf_flash s)"
proof -
  have mode: "tst (sf_ctrl_0 s) 0x80000" using assms(1) tst_BIT [of "sf_ctrl_0 s" 19] by simp
  have f: "sf_cmd_bytes 0x8000003 = 1" "sf_addr_bytes 0x8000003 = 0" "sf_data_len 0x8000003 = 0"
    "sf_cmd_bytes 0xC060003 = 1" "sf_addr_bytes 0xC060003 = 4" "sf_data_len 0xC060003 = 0"
    by (simp_all add: sf_cmd_bytes_def sf_addr_bytes_def sf_data_len_def tst_def)
  have tr: "\<not> tst (0x8000000 :: u32) 2" "tst (0xC060002 :: u32) 2" by (simp_all add: tst_def)
  have w: "tst (x OR 2 :: u8) 2" for x by (simp add: tst_def bit.conj_disj_distrib2)
  have a: "addr_loop (be_bytes 0x20FFFFF0 @ be_bytes 0) (Suc 0) 4 0 = 0xFFFFF000" "(be_bytes 0x20FFFFF0 @ be_bytes 0) ! 0 = 0x20"
    by code_simp+
  define u where "u = fold (sf_step d) (plain_cmd 0x06) s"
  have u: "u = sf_finish (s\<lparr>sf_ctrl_if_sahb1 := 0x06000000, sf_ctrl_if_sahb0 := 0x8000003, sr1 := sr1 s OR 2, volatile_wel := 0\<rparr>)"
    using assms(2-4) mode unfolding u_def
    by (simp add: plain_cmd_def bl808_sf_ctrl_write_def sf_write_sahb0_def sf_ctrl_execute_cmd_def f be_bytes_def sf_switch_status_def Let_def)
      (simp add: tst_def)
  show ?thesis unfolding assms(5) fold_append comp_def u_def [symmetric] u
    using assms(2-4) mode w
    by (simp add: bl808_sf_ctrl_write_def sf_write_sahb0_def sf_finish_def sf_ctrl_execute_cmd_def f a tr
        sf_switch_status_def sf_switch_memory_def sf_erase_at_def sf_ctrl_erase_range_def sync_xip_eq blk_write_eq clear_wel_def Let_def)
qed

definition sf_wide_example :: "unit BL808SfCtrlState" where
  "sf_wide_example = sf_new None\<lparr>sf_ctrl_0 := 0x80000\<rparr>"

theorem sf_erase_wraps_witness:
  "sf_flash (fold (sf_step no_drive) (plain_cmd 0x06 @ [Sf_write 0x0C 0x20FFFFF0 4, Sf_write 0x10 0 4, Sf_write 0x08 0xC060002 4]) sf_wide_example)
     0xFFFFF000 = 0xFF \<and> sf_flash sf_wide_example 0xFFFFF000 = 0"
  using sf_erase_wraps [OF _ _ _ _ refl, of sf_wide_example no_drive]
  by (simp add: sf_wide_example_def sf_new_def memcpy_to_def)

section \<open>The drive\<close>

text \<open>
  What QEMU documents of its block layer, for a drive whose bytes are \<open>contents\<close>: a write within
  the drive stores the bytes and keeps its length, a read returns them, and asking for permission
  changes nothing.
\<close>

definition blk_faithful :: "'b blk_ops \<Rightarrow> ('b \<Rightarrow> bytes) \<Rightarrow> bool" where
  "blk_faithful ops contents \<longleftrightarrow>
     (\<forall>d. fst (blk_set_perm ops d) \<ge> 0 \<and> contents (snd (blk_set_perm ops d)) = contents d \<and>
       blk_getlength ops (snd (blk_set_perm ops d)) = blk_getlength ops d) \<and>
     (\<forall>d off n p. int (off + n) \<le> blk_getlength ops d \<longrightarrow>
       contents (snd (blk_pwrite ops off n p d)) = memcpy_to off p n (contents d) \<and>
       blk_getlength ops (snd (blk_pwrite ops off n p d)) = blk_getlength ops d) \<and>
     (\<forall>d off n. int (off + n) \<le> blk_getlength ops d \<longrightarrow>
       fst (blk_pread ops off n d) \<ge> 0 \<and> (\<forall>i < n. snd (blk_pread ops off n d) i = contents d (off + i)))"

lemma faithfulD:
  assumes "blk_faithful ops contents"
  shows "fst (blk_set_perm ops d) \<ge> 0" "contents (snd (blk_set_perm ops d)) = contents d"
    "blk_getlength ops (snd (blk_set_perm ops d)) = blk_getlength ops d"
    "int (off + n) \<le> blk_getlength ops d \<Longrightarrow> contents (snd (blk_pwrite ops off n p d)) = memcpy_to off p n (contents d)"
    "int (off + n) \<le> blk_getlength ops d \<Longrightarrow> blk_getlength ops (snd (blk_pwrite ops off n p d)) = blk_getlength ops d"
    "int (off + n) \<le> blk_getlength ops d \<Longrightarrow> fst (blk_pread ops off n d) \<ge> 0"
    "int (off + n) \<le> blk_getlength ops d \<Longrightarrow> i < n \<Longrightarrow> snd (blk_pread ops off n d) i = contents d (off + i)"
  using assms unfolding blk_faithful_def by blast+

text \<open>The drive is attached, large enough, and has the bytes of the flash.\<close>

definition sf_stored :: "'b blk_ops \<Rightarrow> ('b \<Rightarrow> bytes) \<Rightarrow> 'b BL808SfCtrlState \<Rightarrow> bool" where
  "sf_stored ops contents s \<longleftrightarrow> (\<exists>d. sf_blk s = Some d \<and> blk_getlength ops d \<ge> int flash_len \<and>
     (\<forall>i < flash_len. contents d i = sf_flash s i))"

lemma changed_stored:
  assumes ops: "blk_faithful ops contents" and s: "sf_stored ops contents s"
    and f: "agree_outside (unat off) (unat n) (sf_flash s) f" and small: "unat off + unat n \<le> flash_len"
  shows "sf_stored ops contents (flash_changed ops off n f s)"
proof -
  obtain d where d: "sf_blk s = Some d" "blk_getlength ops d \<ge> int flash_len" "\<forall>i < flash_len. contents d i = sf_flash s i"
    using s by (auto simp: sf_stored_def)
  have len: "int (unat off + unat n) \<le> blk_getlength ops d" using small d(2) by linarith
  have "unat (off + n) = unat off + unat n" using small by (intro unat_add_small) simp
  then have "off + n \<le> 0x1000000" using small by (simp add: word_le_unat)
  moreover have "memcpy_to (unat off) (ptr_at f (unat off)) (unat n) (contents d) i = f i" if "i < flash_len" for i
    using that d(3) f by (auto simp: memcpy_apply ptr_at_def agree_outside_def)
  ultimately show ?thesis
    using d(1,2) faithfulD(4,5) [OF ops len] by (auto simp: sf_stored_def flash_changed_def sync_xip_eq blk_write_eq)
qed

lemma stored_view: "sf_view s' = sf_view s \<Longrightarrow> sf_stored ops contents s' = sf_stored ops contents s"
  by (simp add: sf_view_def sf_stored_def)

lemma write_stored:
  assumes "blk_faithful ops contents" "addr24 s" "sf_stored ops contents s"
  shows "sf_stored ops contents (bl808_sf_ctrl_write ops off v sz s)"
  using write_effect [OF assms(2) [unfolded addr24_tst], of ops off v sz]
proof cases
  case (change o n f)
  then show ?thesis using changed_stored [OF assms(1,3)] stored_view [OF change(4)] by (simp add: nor_change_def)
next
  case reset
  then show ?thesis using assms(3) unfolding reset_defaults_view by (simp add: sf_view_def sf_stored_def)
qed (use assms(3) in \<open>auto simp: sf_view_def sf_stored_def set_offset_view\<close>)

lemma step_stored:
  assumes "blk_faithful ops contents" "sf_plain op" "addr24 s" "sf_stored ops contents s"
  shows "sf_stored ops contents (sf_step ops op s)"
proof (cases op)
  case (Sf_write off v sz)
  then show ?thesis using write_stored assms by simp
next
  case (Sf_program_flash off data sz)
  show ?thesis
  proof (cases "sz = 0 \<or> 0x1000000 \<le> off")
    case True
    then show ?thesis using Sf_program_flash assms(4) by (auto simp: sf_ctrl_write_flash_def)
  next
    case False
    then obtain n where n: "unat off + unat n \<le> flash_len"
      "sf_ctrl_write_flash ops off data sz s = flash_changed ops off n (memcpy_to (unat off) data (unat n) (sf_flash s)) s"
      using write_flash_update [of sz off ops data s] Sf_program_flash assms(2) by (auto simp: not_le)
    then show ?thesis using Sf_program_flash changed_stored [OF assms(1,4) _ n(1), of "memcpy_to (unat off) data (unat n) (sf_flash s)"]
      by (simp add: agree_outside_def memcpy_apply)
  qed
next
  case Sf_reset
  have "sf_view (sf_ctrl_soft_reset t) = sf_view t" for t :: "'a BL808SfCtrlState" by simp
  then show ?thesis using Sf_reset assms(4)
    by (simp add: bl808_sf_ctrl_reset_def sync_all_eq sf_stored_def sf_view_def fresh_fields Let_def)
qed (use assms(4) in \<open>simp_all add: sf_stored_def set_offset_view\<close>)

lemma realize_drive:
  assumes ops: "blk_faithful ops contents" and d: "sf_blk s0 = Some d" "blk_getlength ops d \<ge> int flash_len"
  shows "\<exists>s. bl808_sf_ctrl_realize ops s0 = Inr s \<and> sf_stored ops contents s \<and> (\<forall>i < flash_len. sf_flash s i = contents d i)"
proof -
  obtain r d1 where d1: "blk_set_perm ops d = (r, d1)" by fastforce
  then have r: "\<not> r < 0" and same: "contents d1 = contents d" "blk_getlength ops d1 = blk_getlength ops d"
    using faithfulD(1-3) [OF ops, of d] by simp_all
  have len: "int (0 + flash_len) \<le> blk_getlength ops d1" using d(2) same(2) by simp
  obtain q data where data: "blk_pread ops 0 flash_len d1 = (q, data)" by fastforce
  have q: "\<not> q < 0" "\<And>i. i < flash_len \<Longrightarrow> data i = contents d i"
    using faithfulD(6,7) [OF ops len] data same(1) by simp_all
  have clip: "(if blk_getlength ops d1 > int flash_len then int flash_len else blk_getlength ops d1) = int flash_len" using len by simp
  show ?thesis
    using d(1) r q len by (simp add: bl808_sf_ctrl_realize_def sf_load_drive_def fresh_fields d1 data clip [simplified] sync_all_eq sf_stored_def same memcpy_apply Let_def)
qed

text \<open>
  C11. The drive keeps the flash: whatever the processor and the machine do, with 24-bit addresses, to a controller with a drive
  of at least 16 MiB whose writes succeed, the drive holds the contents of the flash afterwards, and a controller that is
  realized again on that drive starts with the same flash.
\<close>

theorem sf_flash_survives_restart:
  assumes "blk_faithful d contents" "sf_blk s0 = Some b" "blk_getlength d b \<ge> 0x1000000" "addr24 s0"
    and "bl808_sf_ctrl_realize d s0 = Inr s" "\<forall>op \<in> set ops. sf_plain op" "s1 = fold (sf_step d) ops s"
  shows "\<exists>s2. bl808_sf_ctrl_realize d (s0\<lparr>sf_blk := sf_blk s1\<rparr>) = Inr s2 \<and> (\<forall>i < 0x1000000. sf_flash s2 i = sf_flash s1 i)"
proof -
  have "sf_stored d contents s" using realize_drive [OF assms(1,2)] assms(3,5) by auto
  moreover have "addr24 s" using realize_ready(2) [OF assms(5)] assms(4) by (simp add: addr24_def)
  ultimately have "sf_stored d contents s1"
    unfolding assms(7) using assms(6)
  proof (induction ops arbitrary: s)
    case (Cons op ops)
    then show ?case using step_stored [OF assms(1), of op s] step_addr24 [of op s d] by simp
  qed simp
  then obtain b' where b': "sf_blk s1 = Some b'" "blk_getlength d b' \<ge> int flash_len" "\<forall>i < flash_len. contents b' i = sf_flash s1 i"
    by (auto simp: sf_stored_def)
  then show ?thesis using realize_drive [OF assms(1) _ b'(2), of "s0\<lparr>sf_blk := sf_blk s1\<rparr>"] by auto
qed

text \<open>A drive of 16 MiB in memory.\<close>

definition ram_drive :: "bytes blk_ops" where
  "ram_drive = \<lparr>blk_set_perm = \<lambda>d. (0, d), blk_getlength = \<lambda>_. 0x1000000, blk_pread = \<lambda>off n d. (0, ptr_at d off),
     blk_pwrite = \<lambda>off n p d. (0, memcpy_to off p n d)\<rparr>"

lemma ram_drive_faithful: "blk_faithful ram_drive (\<lambda>d. d)"
  by (simp add: blk_faithful_def ram_drive_def ptr_at_def)

definition ram_new :: "bytes BL808SfCtrlState" where
  "ram_new = sf_new (Some (\<lambda>_. 0xFF))"

theorem sf_flash_survives_restart_witness:
  "\<exists>s s2. bl808_sf_ctrl_realize ram_drive ram_new = Inr s \<and>
     bl808_sf_ctrl_realize ram_drive (ram_new\<lparr>sf_blk := sf_blk (fold (sf_step ram_drive) [Sf_program_flash 0x1000 of_nat 16] s)\<rparr>) = Inr s2 \<and>
     sf_flash s2 0x1003 = 3"
proof -
  have new: "sf_blk ram_new = Some (\<lambda>_. 0xFF)" "addr24 ram_new" by (simp_all add: ram_new_def sf_new_def addr24_def)
  have len: "blk_getlength ram_drive (\<lambda>_. 0xFF) \<ge> 0x1000000" by (simp add: ram_drive_def)
  then obtain s where s: "bl808_sf_ctrl_realize ram_drive ram_new = Inr s"
    using realize_drive [OF ram_drive_faithful new(1)] by auto
  have "sf_flash (fold (sf_step ram_drive) [Sf_program_flash 0x1000 of_nat 16] s) 0x1003 = 3"
    by (simp add: sf_ctrl_write_flash_def sync_xip_eq blk_write_eq memcpy_apply Let_def)
  then show ?thesis
    using sf_flash_survives_restart [OF ram_drive_faithful new(1) len new(2) s _ refl, of "[Sf_program_flash 0x1000 of_nat 16]"] s by auto
qed

end
