(* ===== verification/Pwm.thy ===== *)
theory Pwm
  imports Device
begin

text \<open>
  The PWM controller, \<open>src/qemu-machine/hw/timer/bl808_pwm.c\<close>: two motor control groups with a period
  timer, four channels with two thresholds each, repeat counts that can stop a group, and one
  interrupt line.  The arrays over the groups are functions from the index; a period timer is the
  deadline it is armed for.  The virtual clock is an argument of the operations that read it.
\<close>

section \<open>State\<close>

abbreviation (input) PWM_STOP_ON_REPT :: u32 where "PWM_STOP_ON_REPT \<equiv> 0x80000"
abbreviation (input) PWM_STOP_EN :: u32 where "PWM_STOP_EN \<equiv> 0x8000000"
abbreviation (input) PWM_STOP_MODE :: u32 where "PWM_STOP_MODE \<equiv> 0x10000000"
abbreviation (input) PWM_STS_STOP :: u32 where "PWM_STS_STOP \<equiv> 0x20000000"
abbreviation (input) PWM_CLK_SEL_MASK :: u32 where "PWM_CLK_SEL_MASK \<equiv> 0xC0000000"
abbreviation (input) PWM_INT_PRDE :: u32 where "PWM_INT_PRDE \<equiv> 0x100"
abbreviation (input) PWM_INT_REPT :: u32 where "PWM_INT_REPT \<equiv> 0x400"
abbreviation (input) PWM_INT_ALL :: u32 where "PWM_INT_ALL \<equiv> 0x7FF"

record BL808PWMState =
  pwm_irq :: bool
  period_timer :: "nat \<Rightarrow> int option"
  pwm_int_config :: u32
  mc_config0 :: "nat \<Rightarrow> u32"
  mc_config1 :: "nat \<Rightarrow> u32"
  mc_period :: "nat \<Rightarrow> u32"
  mc_dead_time :: "nat \<Rightarrow> u32"
  mc_thre :: "nat \<Rightarrow> nat \<Rightarrow> u32"
  mc_int_sts :: "nat \<Rightarrow> u32"
  mc_int_mask :: "nat \<Rightarrow> u32"
  mc_int_en :: "nat \<Rightarrow> u32"
  repeat_count :: "nat \<Rightarrow> u32"
  pwm_clock_enabled :: bool
  pwm_reset_asserted :: bool
  repeat_stop_active :: "nat \<Rightarrow> bool"

section \<open>Interrupts and timing\<close>

definition bl808_pwm_cfg0_read :: "BL808PWMState \<Rightarrow> nat \<Rightarrow> u32" where
  "bl808_pwm_cfg0_read s mc =
     (let val = mc_config0 s mc AND NOT PWM_STS_STOP in
      if pwm_reset_asserted s \<or> repeat_stop_active s mc \<or> tst (mc_config0 s mc) PWM_STOP_EN then val OR PWM_STS_STOP else val)"

definition bl808_pwm_int_config_read :: "BL808PWMState \<Rightarrow> u32" where
  "bl808_pwm_int_config_read s =
     (let val = pwm_int_config s AND NOT 0x3;
          val = (if tst (mc_int_sts s 0) PWM_INT_ALL then val OR 1 else val)
      in if tst (mc_int_sts s 1) PWM_INT_ALL then val OR 2 else val)"

definition pwm_pending :: "BL808PWMState \<Rightarrow> u32" where
  "pwm_pending s = fold (\<lambda>mc pending. pending OR (mc_int_sts s mc AND mc_int_en s mc AND NOT (mc_int_mask s mc))) [0, 1] 0"

definition bl808_pwm_update_irq :: "BL808PWMState \<Rightarrow> BL808PWMState" where
  "bl808_pwm_update_irq s = s\<lparr>pwm_irq := pwm_clock_enabled s \<and> \<not> pwm_reset_asserted s \<and> pwm_pending s \<noteq> 0\<rparr>"

definition bl808_pwm_running :: "BL808PWMState \<Rightarrow> nat \<Rightarrow> bool" where
  "bl808_pwm_running s mc \<longleftrightarrow> pwm_clock_enabled s \<and> \<not> pwm_reset_asserted s \<and> \<not> repeat_stop_active s mc \<and> \<not> tst (mc_config0 s mc) PWM_STOP_EN"

definition bl808_pwm_base_hz :: "BL808PWMState \<Rightarrow> nat \<Rightarrow> u64" where
  "bl808_pwm_base_hz s mc =
     (let sel = drop_bit 30 (mc_config0 s mc AND PWM_CLK_SEL_MASK) in
      if sel = 0 then 40000000 else if sel = 1 then 32000000 else if sel = 2 then 32000 else 32000000)"

definition bl808_pwm_period_ns :: "BL808PWMState \<Rightarrow> nat \<Rightarrow> u64" where
  "bl808_pwm_period_ns s mc =
     (let clk_div = ucast ((mc_config0 s mc AND 0xFFFF) + 1); period = ucast ((mc_period s mc AND 0xFFFF) + 1);
          base_hz = bl808_pwm_base_hz s mc; ticks = clk_div * period
      in (ticks * 1000000000 + base_hz - 1) div base_hz)"

definition bl808_pwm_reschedule :: "nat \<Rightarrow> u64 \<Rightarrow> BL808PWMState \<Rightarrow> BL808PWMState" where
  "bl808_pwm_reschedule mc now s =
     (if \<not> bl808_pwm_running s mc then s\<lparr>period_timer := (period_timer s)(mc := None)\<rparr>
      else s\<lparr>period_timer := (period_timer s)(mc := timer_mod (now + max 1 (bl808_pwm_period_ns s mc)))\<rparr>)"

definition threshold_bits :: "BL808PWMState \<Rightarrow> nat \<Rightarrow> nat \<Rightarrow> u32" where
  "threshold_bits s mc ch =
     (if \<not> tst (mc_config1 s mc) (push_bit (ch * 4) 1) then 0
      else (if mc_thre s mc ch AND 0xFFFF \<noteq> 0 then push_bit (2 * ch) 1 else 0) OR
           (if drop_bit 16 (mc_thre s mc ch) \<noteq> 0 then push_bit (2 * ch + 1) 1 else 0))"

definition bl808_pwm_raise_threshold_irqs :: "nat \<Rightarrow> BL808PWMState \<Rightarrow> BL808PWMState" where
  "bl808_pwm_raise_threshold_irqs mc s =
     fold (\<lambda>ch s. s\<lparr>mc_int_sts := (mc_int_sts s)(mc := mc_int_sts s mc OR threshold_bits s mc ch)\<rparr>) [0, 1, 2, 3] s"

definition pwm_count_repeat :: "nat \<Rightarrow> BL808PWMState \<Rightarrow> BL808PWMState" where
  "pwm_count_repeat mc s =
     (let repeat_target = drop_bit 16 (mc_period s mc) in
      if repeat_target = 0 then s
      else let s = s\<lparr>repeat_count := (repeat_count s)(mc := repeat_count s mc + 1)\<rparr> in
        if repeat_count s mc \<ge> repeat_target
        then let s = s\<lparr>repeat_count := (repeat_count s)(mc := 0), mc_int_sts := (mc_int_sts s)(mc := mc_int_sts s mc OR PWM_INT_REPT)\<rparr>
             in if tst (mc_config0 s mc) PWM_STOP_ON_REPT then s\<lparr>repeat_stop_active := (repeat_stop_active s)(mc := True)\<rparr> else s
        else s)"

definition bl808_pwm_period_tick :: "nat \<Rightarrow> u64 \<Rightarrow> BL808PWMState \<Rightarrow> BL808PWMState" where
  "bl808_pwm_period_tick mc now s =
     (if \<not> bl808_pwm_running s mc then s
      else let s = s\<lparr>mc_int_sts := (mc_int_sts s)(mc := mc_int_sts s mc OR PWM_INT_PRDE)\<rparr>;
               s = pwm_count_repeat mc (bl808_pwm_raise_threshold_irqs mc s)
           in bl808_pwm_reschedule mc now (bl808_pwm_update_irq s))"

section \<open>Register accesses\<close>

definition bl808_pwm_decode_mc_offset :: "hwaddr \<Rightarrow> (nat \<times> hwaddr) option" where
  "bl808_pwm_decode_mc_offset offset =
     (if offset \<ge> 0x40 \<and> offset < 0x70 then Some (0, offset - 0x40)
      else if offset \<ge> 0x80 \<and> offset < 0xB0 then Some (1, offset - 0x80)
      else None)"

definition bl808_pwm_read :: "hwaddr \<Rightarrow> BL808PWMState \<Rightarrow> u64" where
  "bl808_pwm_read offset s =
     (if offset = 0x00 then ucast (bl808_pwm_int_config_read s)
      else case bl808_pwm_decode_mc_offset offset of
          None \<Rightarrow> 0
        | Some (mc, rel) \<Rightarrow>
            if rel = 0x00 then ucast (bl808_pwm_cfg0_read s mc)
            else if rel = 0x04 then ucast (mc_config1 s mc)
            else if rel = 0x08 then ucast (mc_period s mc)
            else if rel = 0x0C then ucast (mc_dead_time s mc)
            else if rel \<in> {0x10, 0x14, 0x18, 0x1C} then ucast (mc_thre s mc (unat (rel - 0x10) div 4))
            else if rel = 0x20 then ucast (mc_int_sts s mc)
            else if rel = 0x24 then ucast (mc_int_mask s mc)
            else if rel = 0x2C then ucast (mc_int_en s mc)
            else 0)"

definition pwm_restart :: "nat \<Rightarrow> u64 \<Rightarrow> BL808PWMState \<Rightarrow> BL808PWMState" where
  "pwm_restart mc now s =
     (if repeat_stop_active s mc then bl808_pwm_reschedule mc now (s\<lparr>repeat_stop_active := (repeat_stop_active s)(mc := False)\<rparr>) else s)"

definition bl808_pwm_clear_all :: "nat \<Rightarrow> u64 \<Rightarrow> BL808PWMState \<Rightarrow> BL808PWMState" where
  "bl808_pwm_clear_all mc now s = pwm_restart mc now (s\<lparr>mc_int_sts := (mc_int_sts s)(mc := 0)\<rparr>)"

definition pwm_write_int_config :: "u64 \<Rightarrow> u64 \<Rightarrow> BL808PWMState \<Rightarrow> BL808PWMState" where
  "pwm_write_int_config val now s =
     (let s = (if tst val 0x100 then bl808_pwm_clear_all 0 now s else s);
          s = (if tst val 0x200 then bl808_pwm_clear_all 1 now s else s)
      in bl808_pwm_update_irq (s\<lparr>pwm_int_config := 0\<rparr>))"

definition pwm_write_mc :: "nat \<Rightarrow> hwaddr \<Rightarrow> u32 \<Rightarrow> u64 \<Rightarrow> BL808PWMState \<Rightarrow> BL808PWMState option" where
  "pwm_write_mc mc rel val now s =
     (if rel = 0x00 then
        Some (bl808_pwm_reschedule mc now (s\<lparr>mc_config0 := (mc_config0 s)(mc := val AND NOT PWM_STS_STOP), repeat_count := (repeat_count s)(mc := 0)\<rparr>))
      else if rel = 0x04 then Some (s\<lparr>mc_config1 := (mc_config1 s)(mc := val)\<rparr>)
      else if rel = 0x08 then
        Some (bl808_pwm_reschedule mc now (s\<lparr>mc_period := (mc_period s)(mc := val), repeat_count := (repeat_count s)(mc := 0)\<rparr>))
      else if rel = 0x0C then Some (s\<lparr>mc_dead_time := (mc_dead_time s)(mc := val)\<rparr>)
      else if rel \<in> {0x10, 0x14, 0x18, 0x1C} then
        Some (s\<lparr>mc_thre := (mc_thre s)(mc := (mc_thre s mc)(unat (rel - 0x10) div 4 := val))\<rparr>)
      else if rel = 0x24 then Some (s\<lparr>mc_int_mask := (mc_int_mask s)(mc := val AND PWM_INT_ALL)\<rparr>)
      else if rel = 0x28 then
        let cleared = val AND PWM_INT_ALL;
            s = s\<lparr>mc_int_sts := (mc_int_sts s)(mc := mc_int_sts s mc AND NOT cleared)\<rparr>
        in Some (if tst cleared PWM_INT_REPT then pwm_restart mc now s else s)
      else if rel = 0x2C then Some (s\<lparr>mc_int_en := (mc_int_en s)(mc := val AND PWM_INT_ALL)\<rparr>)
      else None)"

definition bl808_pwm_write :: "hwaddr \<Rightarrow> u64 \<Rightarrow> u64 \<Rightarrow> BL808PWMState \<Rightarrow> BL808PWMState" where
  "bl808_pwm_write offset val now s =
     (if pwm_reset_asserted s then s
      else if offset = 0x00 then pwm_write_int_config val now s
      else case bl808_pwm_decode_mc_offset offset of
          None \<Rightarrow> s
        | Some (mc, rel) \<Rightarrow>
            (case pwm_write_mc mc rel (ucast val) now s of None \<Rightarrow> s | Some s \<Rightarrow> bl808_pwm_update_irq s))"

section \<open>Reset and clock\<close>

definition pwm_reset_mc :: "nat \<Rightarrow> BL808PWMState \<Rightarrow> BL808PWMState" where
  "pwm_reset_mc mc s =
     s\<lparr>mc_config0 := (mc_config0 s)(mc := PWM_STOP_MODE OR push_bit 20 0xF), mc_config1 := (mc_config1 s)(mc := 0x00FF8888),
       mc_period := (mc_period s)(mc := 0), mc_dead_time := (mc_dead_time s)(mc := 0), mc_thre := (mc_thre s)(mc := \<lambda>_. 0),
       mc_int_sts := (mc_int_sts s)(mc := 0), mc_int_mask := (mc_int_mask s)(mc := PWM_INT_ALL), mc_int_en := (mc_int_en s)(mc := PWM_INT_ALL),
       repeat_count := (repeat_count s)(mc := 0), repeat_stop_active := (repeat_stop_active s)(mc := False),
       period_timer := (period_timer s)(mc := None)\<rparr>"

definition bl808_pwm_reset :: "BL808PWMState \<Rightarrow> BL808PWMState" where
  "bl808_pwm_reset s = bl808_pwm_update_irq (fold pwm_reset_mc [0, 1] (s\<lparr>pwm_int_config := 0\<rparr>))"

definition bl808_pwm_set_clock_enabled :: "bool \<Rightarrow> u64 \<Rightarrow> BL808PWMState \<Rightarrow> BL808PWMState" where
  "bl808_pwm_set_clock_enabled enabled now s =
     bl808_pwm_update_irq (fold (\<lambda>mc. bl808_pwm_reschedule mc now) [0, 1] (s\<lparr>pwm_clock_enabled := enabled\<rparr>))"

definition bl808_pwm_set_reset_asserted :: "bool \<Rightarrow> u64 \<Rightarrow> BL808PWMState \<Rightarrow> BL808PWMState" where
  "bl808_pwm_set_reset_asserted asserted now s =
     (let s = s\<lparr>pwm_reset_asserted := asserted\<rparr>
      in bl808_pwm_update_irq (if asserted then bl808_pwm_reset s else fold (\<lambda>mc. bl808_pwm_reschedule mc now) [0, 1] s))"

definition bl808_pwm_init :: "BL808PWMState" where
  "bl808_pwm_init = \<lparr>pwm_irq = False, period_timer = \<lambda>_. None, pwm_int_config = 0, mc_config0 = \<lambda>_. 0, mc_config1 = \<lambda>_. 0,
     mc_period = \<lambda>_. 0, mc_dead_time = \<lambda>_. 0, mc_thre = \<lambda>_ _. 0, mc_int_sts = \<lambda>_. 0, mc_int_mask = \<lambda>_. 0, mc_int_en = \<lambda>_. 0,
     repeat_count = \<lambda>_. 0, pwm_clock_enabled = True, pwm_reset_asserted = False, repeat_stop_active = \<lambda>_. False\<rparr>"

text \<open>What happens to the device; a tick is the callback of a timer, which the expiry has disarmed.\<close>

datatype pwm_op =
    Pwm_write hwaddr u64 u64
  | Pwm_tick nat u64
  | Pwm_clock bool u64
  | Pwm_reset_line bool u64
  | Pwm_reset

fun pwm_step :: "pwm_op \<Rightarrow> BL808PWMState \<Rightarrow> BL808PWMState" where
  "pwm_step (Pwm_write offset val now) s = bl808_pwm_write offset val now s"
| "pwm_step (Pwm_tick mc now) s =
     (if mc < 2 \<and> period_timer s mc \<noteq> None then bl808_pwm_period_tick mc now (s\<lparr>period_timer := (period_timer s)(mc := None)\<rparr>) else s)"
| "pwm_step (Pwm_clock enabled now) s = bl808_pwm_set_clock_enabled enabled now s"
| "pwm_step (Pwm_reset_line asserted now) s = bl808_pwm_set_reset_asserted asserted now s"
| "pwm_step Pwm_reset s = bl808_pwm_reset s"

end
