(* ===== verification/Pwm_Props.thy ===== *)
theory Pwm_Props
  imports Pwm
begin

text \<open>
  The PWM controller over whole histories: its interrupt line, its period timers, the length of a
  period and the repeat count.
\<close>

section \<open>Fields\<close>

lemma update_irq_simps [simp]:
  "period_timer (bl808_pwm_update_irq s) = period_timer s" "mc_config0 (bl808_pwm_update_irq s) = mc_config0 s"
  "mc_period (bl808_pwm_update_irq s) = mc_period s" "mc_int_sts (bl808_pwm_update_irq s) = mc_int_sts s"
  "repeat_count (bl808_pwm_update_irq s) = repeat_count s" "repeat_stop_active (bl808_pwm_update_irq s) = repeat_stop_active s"
  "pwm_clock_enabled (bl808_pwm_update_irq s) = pwm_clock_enabled s" "pwm_reset_asserted (bl808_pwm_update_irq s) = pwm_reset_asserted s"
  "pwm_pending (bl808_pwm_update_irq s) = pwm_pending s" "bl808_pwm_running (bl808_pwm_update_irq s) = bl808_pwm_running s"
  by (simp_all add: bl808_pwm_update_irq_def pwm_pending_def bl808_pwm_running_def fun_eq_iff)

lemma reschedule_eq:
  "bl808_pwm_reschedule mc now s = s\<lparr>period_timer := (period_timer s)
     (mc := if bl808_pwm_running s mc then timer_mod (now + max 1 (bl808_pwm_period_ns s mc)) else None)\<rparr>"
  by (simp add: bl808_pwm_reschedule_def)

lemma running_timer [simp]: "bl808_pwm_running (s\<lparr>period_timer := p\<rparr>) = bl808_pwm_running s"
  by (simp add: bl808_pwm_running_def fun_eq_iff)

lemma raise_eq: "\<exists>v. bl808_pwm_raise_threshold_irqs mc s = s\<lparr>mc_int_sts := (mc_int_sts s)(mc := mc_int_sts s mc OR v)\<rparr>"
  by (simp add: bl808_pwm_raise_threshold_irqs_def or.assoc) blast

section \<open>The interrupt line\<close>

definition pwm_level :: "BL808PWMState \<Rightarrow> bool" where
  "pwm_level s \<longleftrightarrow> pwm_clock_enabled s \<and> \<not> pwm_reset_asserted s \<and> pwm_pending s \<noteq> 0"

definition pwm_exact :: "BL808PWMState \<Rightarrow> bool" where
  "pwm_exact s \<longleftrightarrow> pwm_irq s = pwm_level s"

lemma update_exact [simp]: "pwm_exact (bl808_pwm_update_irq s)"
  by (simp add: pwm_exact_def pwm_level_def bl808_pwm_update_irq_def pwm_pending_def)

lemma timer_exact [simp]: "pwm_exact (s\<lparr>period_timer := p\<rparr>) = pwm_exact s"
  by (simp add: pwm_exact_def pwm_level_def pwm_pending_def)

lemma pwm_step_exact: "pwm_exact s \<Longrightarrow> pwm_exact (pwm_step op s)"
proof (cases op)
  case (Pwm_write off v now)
  then show "pwm_exact s \<Longrightarrow> ?thesis"
    by (simp add: bl808_pwm_write_def pwm_write_int_config_def Let_def split: option.split prod.split)
next
  case (Pwm_tick mc now)
  then show "pwm_exact s \<Longrightarrow> ?thesis" by (simp add: bl808_pwm_period_tick_def reschedule_eq Let_def)
qed (simp_all add: bl808_pwm_set_clock_enabled_def bl808_pwm_set_reset_asserted_def bl808_pwm_reset_def Let_def)

interpretation pwm: gated_irq_device pwm_step "\<lambda>_. True" "\<lambda>s. s = bl808_pwm_init" pwm_irq pwm_level "\<lambda>s. pwm_clock_enabled s \<and> \<not> pwm_reset_asserted s"
proof unfold_locales
  fix s assume "s = bl808_pwm_init"
  then show "pwm_irq s = pwm_level s" by (simp add: bl808_pwm_init_def pwm_level_def pwm_pending_def)
next
  fix op s assume "pwm_irq s = pwm_level s"
  then show "pwm_irq (pwm_step op s) = pwm_level (pwm_step op s)" using pwm_step_exact [of s op] by (simp add: pwm_exact_def)
qed (simp add: pwm_level_def)

section \<open>Period timers\<close>

text \<open>The timer of a group is armed exactly while the group runs.\<close>

definition pwm_timed :: "nat \<Rightarrow> BL808PWMState \<Rightarrow> bool" where
  "pwm_timed mc s \<longleftrightarrow> (period_timer s mc \<noteq> None) = bl808_pwm_running s mc"

lemma timed_update [simp]: "pwm_timed mc (bl808_pwm_update_irq s) = pwm_timed mc s"
  by (simp add: pwm_timed_def)

lemma timed_reschedule: "(k \<noteq> mc \<Longrightarrow> pwm_timed mc s) \<Longrightarrow> pwm_timed mc (bl808_pwm_reschedule k now s)"
  by (auto simp: pwm_timed_def reschedule_eq)

lemma timed_fields [simp]:
  "pwm_timed mc (s\<lparr>mc_config1 := a\<rparr>) = pwm_timed mc s" "pwm_timed mc (s\<lparr>mc_dead_time := a\<rparr>) = pwm_timed mc s"
  "pwm_timed mc (s\<lparr>mc_thre := b\<rparr>) = pwm_timed mc s" "pwm_timed mc (s\<lparr>mc_int_sts := a\<rparr>) = pwm_timed mc s"
  "pwm_timed mc (s\<lparr>mc_int_mask := a\<rparr>) = pwm_timed mc s" "pwm_timed mc (s\<lparr>mc_int_en := a\<rparr>) = pwm_timed mc s"
  "pwm_timed mc (s\<lparr>repeat_count := a\<rparr>) = pwm_timed mc s" "pwm_timed mc (s\<lparr>mc_period := a\<rparr>) = pwm_timed mc s"
  "pwm_timed mc (s\<lparr>pwm_int_config := w\<rparr>) = pwm_timed mc s"
  "k \<noteq> mc \<Longrightarrow> pwm_timed mc (s\<lparr>mc_config0 := (mc_config0 s)(k := w)\<rparr>) = pwm_timed mc s"
  "k \<noteq> mc \<Longrightarrow> pwm_timed mc (s\<lparr>repeat_stop_active := (repeat_stop_active s)(k := e)\<rparr>) = pwm_timed mc s"
  by (simp_all add: pwm_timed_def bl808_pwm_running_def)

lemma timed_restart: "pwm_timed mc s \<Longrightarrow> pwm_timed mc (pwm_restart k now s)"
  by (simp add: pwm_restart_def timed_reschedule)

lemma timed_clear: "pwm_timed mc s \<Longrightarrow> pwm_timed mc (bl808_pwm_clear_all k now s)"
  by (simp add: bl808_pwm_clear_all_def timed_restart)

lemma timed_write_mc: "pwm_timed mc s \<Longrightarrow> pwm_write_mc k rel v now s = Some t \<Longrightarrow> pwm_timed mc t"
  unfolding pwm_write_mc_def by (auto simp: timed_reschedule timed_restart Let_def split: if_splits)

lemma timed_write: "pwm_timed mc s \<Longrightarrow> pwm_timed mc (bl808_pwm_write off v now s)"
  unfolding bl808_pwm_write_def pwm_write_int_config_def
  by (auto simp: Let_def timed_clear split: option.split dest: timed_write_mc)

lemma running_tick_fields [simp]:
  "bl808_pwm_running (s\<lparr>mc_int_sts := a\<rparr>) = bl808_pwm_running s" "bl808_pwm_running (s\<lparr>repeat_count := a\<rparr>) = bl808_pwm_running s"
  by (simp_all add: bl808_pwm_running_def fun_eq_iff)

lemma count_repeat_other:
  "k \<noteq> mc \<Longrightarrow> pwm_timed mc (pwm_count_repeat k s) = pwm_timed mc s"
  by (simp add: pwm_count_repeat_def pwm_timed_def bl808_pwm_running_def Let_def)

lemma timed_tick: "pwm_timed mc s \<Longrightarrow> pwm_timed mc (pwm_step (Pwm_tick k now) s)"
proof (cases "k < 2 \<and> period_timer s k \<noteq> None")
  case True
  assume s: "pwm_timed mc s"
  define t where "t = s\<lparr>period_timer := (period_timer s)(k := None)\<rparr>"
  have t: "pwm_timed mc t" if "k \<noteq> mc" using s that by (simp add: t_def pwm_timed_def)
  have stop: "pwm_timed mc t" if "\<not> bl808_pwm_running t k" using t that by (cases "k = mc") (simp_all add: t_def pwm_timed_def)
  define u where "u = t\<lparr>mc_int_sts := (mc_int_sts t)(k := mc_int_sts t k OR 0x100)\<rparr>"
  obtain v where v: "bl808_pwm_raise_threshold_irqs k u = u\<lparr>mc_int_sts := v\<rparr>" using raise_eq [of k u] by blast
  have "pwm_timed mc (bl808_pwm_reschedule k now (bl808_pwm_update_irq (pwm_count_repeat k (u\<lparr>mc_int_sts := v\<rparr>))))"
    using t by (intro timed_reschedule) (simp add: count_repeat_other u_def)
  then have "pwm_timed mc (bl808_pwm_period_tick k now t)"
    using stop unfolding bl808_pwm_period_tick_def Let_def u_def [symmetric] v by simp
  then show ?thesis using True by (simp add: t_def)
qed auto

lemma reschedule_both: "pwm_timed mc s \<or> mc < 2 \<Longrightarrow> pwm_timed mc (bl808_pwm_reschedule 1 now (bl808_pwm_reschedule 0 now s))"
  by (auto intro!: timed_reschedule simp: less_2_cases_iff)

lemma timed_step:
  assumes "pwm_timed mc s" "mc < 2" "op \<noteq> Pwm_reset"
  shows "pwm_timed mc (pwm_step op s)"
proof (cases op)
  case (Pwm_clock e now)
  then show ?thesis using reschedule_both [of mc "s\<lparr>pwm_clock_enabled := e\<rparr>" now] assms(2) by (simp add: bl808_pwm_set_clock_enabled_def)
next
  case (Pwm_reset_line a now)
  have "pwm_timed mc (bl808_pwm_reset (s\<lparr>pwm_reset_asserted := True\<rparr>))"
    using assms(2) by (auto simp: bl808_pwm_reset_def pwm_timed_def bl808_pwm_running_def pwm_reset_mc_def less_2_cases_iff)
  then show ?thesis using Pwm_reset_line reschedule_both [of mc "s\<lparr>pwm_reset_asserted := False\<rparr>" now] assms(2)
    by (simp add: bl808_pwm_set_reset_asserted_def Let_def)
qed (use assms timed_write timed_tick in auto)

text \<open>
  C35. Switching the clock of the PWM controller starts a history in which, until the device is
  reset as a whole, the period timer of each group is armed exactly while the group runs: a running
  group never waits without its next period being scheduled, and a stopped one takes no interrupts.
\<close>

theorem pwm_timers_follow_running:
  assumes "mc < 2" "\<forall>op \<in> set ops. op \<noteq> Pwm_reset"
    and "s' = fold pwm_step ops (bl808_pwm_set_clock_enabled enabled now s)"
  shows "(period_timer s' mc \<noteq> None) = bl808_pwm_running s' mc"
proof -
  have "pwm_timed mc (bl808_pwm_set_clock_enabled enabled now s)"
    using reschedule_both [of mc "s\<lparr>pwm_clock_enabled := enabled\<rparr>" now] assms(1) by (simp add: bl808_pwm_set_clock_enabled_def)
  then have "pwm_timed mc s'" unfolding assms(3) using assms(2)
  proof (induction ops rule: rev_induct)
    case (snoc op ops)
    then show ?case using timed_step [OF _ assms(1)] by simp
  qed simp
  then show ?thesis by (simp add: pwm_timed_def)
qed

theorem pwm_timers_follow_running_witness:
  "(period_timer (fold pwm_step [Pwm_write 0x48 99 7, Pwm_tick 0 9] (bl808_pwm_set_clock_enabled True 5 bl808_pwm_init)) 0 \<noteq> None) \<and>
   bl808_pwm_running (fold pwm_step [Pwm_write 0x48 99 7, Pwm_tick 0 9] (bl808_pwm_set_clock_enabled True 5 bl808_pwm_init)) 0"
proof -
  have "bl808_pwm_running (fold pwm_step [Pwm_write 0x48 99 7, Pwm_tick 0 9] (bl808_pwm_set_clock_enabled True 5 bl808_pwm_init)) 0" by code_simp
  then show ?thesis using pwm_timers_follow_running [OF _ _ refl, of 0 "[Pwm_write 0x48 99 7, Pwm_tick 0 9]" True 5 bl808_pwm_init] by simp
qed

text \<open>A reset of the device as a whole stops the timers, but the groups count as running afterwards.\<close>

lemma reset_stops_timers:
  assumes "pwm_clock_enabled s" "\<not> pwm_reset_asserted s" "mc < 2"
  shows "bl808_pwm_running (bl808_pwm_reset s) mc \<and> period_timer (bl808_pwm_reset s) mc = None"
  using assms by (auto simp: bl808_pwm_reset_def bl808_pwm_running_def pwm_reset_mc_def tst_def less_2_cases_iff)

section \<open>The length of a period\<close>

definition pwm_cycles :: "BL808PWMState \<Rightarrow> nat \<Rightarrow> nat" where
  "pwm_cycles s mc = (unat (mc_config0 s mc AND 0xFFFF) + 1) * (unat (mc_period s mc AND 0xFFFF) + 1)"

lemma low_half: "unat ((x :: u32) AND 0xFFFF) < 65536" "unat (ucast ((x AND 0xFFFF) + 1) :: u64) = unat (x AND 0xFFFF) + 1"
proof -
  show lt: "unat (x AND 0xFFFF) < 65536" using unat_and_mask [of x 16] by (simp add: mask_numeral)
  then have "unat ((x AND 0xFFFF) + 1) = unat (x AND 0xFFFF) + 1" by (subst unat_add_small) simp_all
  then show "unat (ucast ((x AND 0xFFFF) + 1) :: u64) = unat (x AND 0xFFFF) + 1" by (simp add: unat_ucast_up)
qed

lemma cycles_bound: "0 < pwm_cycles s mc" "pwm_cycles s mc \<le> 4294967296"
proof -
  show "0 < pwm_cycles s mc" by (simp add: pwm_cycles_def)
  have "unat (mc_config0 s mc AND 0xFFFF) + 1 \<le> 65536" "unat (mc_period s mc AND 0xFFFF) + 1 \<le> 65536"
    using low_half(1) [of "mc_config0 s mc"] low_half(1) [of "mc_period s mc"] by linarith+
  then have "pwm_cycles s mc \<le> 65536 * 65536" unfolding pwm_cycles_def by (rule mult_le_mono)
  then show "pwm_cycles s mc \<le> 4294967296" by simp
qed

lemma base_hz_cases: "unat (bl808_pwm_base_hz s mc) \<in> {40000000, 32000000, 32000}"
  by (simp add: bl808_pwm_base_hz_def Let_def)

lemma period_ns_nat:
  "unat (bl808_pwm_period_ns s mc) = (pwm_cycles s mc * 1000000000 + unat (bl808_pwm_base_hz s mc) - 1) div unat (bl808_pwm_base_hz s mc)"
proof -
  define hz where "hz = bl808_pwm_base_hz s mc"
  have hz: "0 < unat hz" "unat hz \<le> 40000000" using base_hz_cases [of s mc] by (auto simp: hz_def)
  define ticks :: u64 where "ticks = ucast ((mc_config0 s mc AND 0xFFFF) + 1) * ucast ((mc_period s mc AND 0xFFFF) + 1)"
  have c: "pwm_cycles s mc \<le> 4294967296" by (rule cycles_bound)
  then have ticks: "unat ticks = pwm_cycles s mc"
    unfolding ticks_def pwm_cycles_def by (simp add: unat_word_ariths low_half(2))
  have ns: "unat (ticks * 1000000000) = pwm_cycles s mc * 1000000000" using c by (simp add: unat_word_ariths ticks)
  have sum: "unat (ticks * 1000000000 + hz) = pwm_cycles s mc * 1000000000 + unat hz"
    using c hz ns by (subst unat_add_small) simp_all
  then have "ticks * 1000000000 + hz \<noteq> 0" using hz(1) by (metis add_is_0 less_numeral_extra(3) unat_0)
  then have "unat (ticks * 1000000000 + hz - 1) = pwm_cycles s mc * 1000000000 + unat hz - 1"
    using sum by (simp add: unat_minus_1)
  then show ?thesis unfolding bl808_pwm_period_ns_def Let_def hz_def [symmetric] ticks_def [symmetric] by (simp add: unat_div_distrib)
qed

lemma ceiling_div: "0 < (h::nat) \<Longrightarrow> (c + h - 1) div h \<le> n \<longleftrightarrow> c \<le> n * h"
  by (simp add: less_Suc_eq_le [symmetric] div_less_iff_less_mult) (auto simp: algebra_simps)

text \<open>
  A running PWM group is scheduled for the first nanosecond at which the divided clock has counted
  its period: the deadline lies \<open>ns\<close> after the present time, where \<open>ns\<close> is the least number of
  nanoseconds in which the selected clock makes (divider + 1) * (period + 1) cycles.  No
  intermediate result of the 64-bit computation wraps.
\<close>

theorem pwm_period_exact:
  assumes "bl808_pwm_running s mc" "unat now < 2 ^ 62"
  shows "\<exists>deadline ns. period_timer (bl808_pwm_reschedule mc now s) mc = Some deadline \<and> deadline = int (unat now + ns) \<and>
    (\<forall>n. ns \<le> n \<longleftrightarrow> pwm_cycles s mc * 1000000000 \<le> n * unat (bl808_pwm_base_hz s mc))"
proof -
  let ?ns = "unat (bl808_pwm_period_ns s mc)" and ?hz = "unat (bl808_pwm_base_hz s mc)"
  have hz: "0 < ?hz" "32000 \<le> ?hz" using base_hz_cases [of s mc] by auto
  have least: "?ns \<le> n \<longleftrightarrow> pwm_cycles s mc * 1000000000 \<le> n * ?hz" for n unfolding period_ns_nat by (rule ceiling_div [OF hz(1)])
  have "?ns \<noteq> 0" using least [of 0] cycles_bound(1) [of s mc] by auto
  then have one: "max 1 (bl808_pwm_period_ns s mc) = bl808_pwm_period_ns s mc" by (simp add: max_def word_le_unat)
  have "pwm_cycles s mc * 1000000000 \<le> 2 ^ 48 * 32000" using cycles_bound(2) [of s mc] by simp
  also have "\<dots> \<le> 2 ^ 48 * ?hz" using hz(2) by simp
  finally have "?ns \<le> 2 ^ 48" unfolding least .
  then have "unat (now + bl808_pwm_period_ns s mc) = unat now + ?ns" using assms(2) by (intro unat_add_small) simp
  moreover from this have "sint (now + bl808_pwm_period_ns s mc) = int (unat now + ?ns)"
    using assms(2) \<open>?ns \<le> 2 ^ 48\<close> by (subst sint_deadline) simp_all
  ultimately show ?thesis using assms(1) least
    by (intro exI [of _ "int (unat now + ?ns)"] exI [of _ ?ns]) (simp add: reschedule_eq one)
qed

theorem pwm_period_exact_witness:
  "\<exists>deadline. period_timer (bl808_pwm_reschedule 0 1000 (bl808_pwm_init\<lparr>mc_period := \<lambda>_. 3\<rparr>)) 0 = Some deadline \<and> deadline = 1100"
proof -
  define e where "e = bl808_pwm_init\<lparr>mc_period := \<lambda>_. 3\<rparr>"
  have v: "pwm_cycles e 0 = 4" "bl808_pwm_base_hz e 0 = 40000000" "bl808_pwm_running e 0"
    by (simp_all add: pwm_cycles_def bl808_pwm_base_hz_def bl808_pwm_running_def bl808_pwm_init_def e_def)
  obtain deadline ns where d: "period_timer (bl808_pwm_reschedule 0 1000 e) 0 = Some deadline" "deadline = 1000 + int ns"
    "\<forall>n. ns \<le> n \<longleftrightarrow> 4000000000 \<le> n * 40000000"
    using pwm_period_exact [OF v(3), of 1000] by (auto simp: v)
  have "ns \<le> 100" "\<not> ns \<le> 99" unfolding d(3) [rule_format] by simp_all
  then show ?thesis using d(1,2) by (auto simp: e_def)
qed

section \<open>Repeat counts\<close>

lemma raise_low: "\<exists>v. bl808_pwm_raise_threshold_irqs mc s = s\<lparr>mc_int_sts := (mc_int_sts s)(mc := mc_int_sts s mc OR v)\<rparr> \<and> \<not> bit v 10"
proof -
  have "\<not> bit (threshold_bits t mc ch) 10" if "ch \<in> {0, 1, 2, 3}" for t ch
    using that by (auto simp: threshold_bits_def bit_simps)
  then show ?thesis by (auto simp: bl808_pwm_raise_threshold_irqs_def or.assoc bit_simps intro!: exI)
qed

text \<open>A group in the \<open>k\<close>-th of \<open>n\<close> periods, and one that has stopped after the last.\<close>

definition pwm_repeating :: "nat \<Rightarrow> nat \<Rightarrow> nat \<Rightarrow> BL808PWMState \<Rightarrow> bool" where
  "pwm_repeating mc n k s \<longleftrightarrow> bl808_pwm_running s mc \<and> period_timer s mc \<noteq> None \<and> unat (drop_bit 16 (mc_period s mc)) = n \<and>
     unat (repeat_count s mc) = k \<and> tst (mc_config0 s mc) 0x80000"

definition pwm_stopped :: "nat \<Rightarrow> BL808PWMState \<Rightarrow> bool" where
  "pwm_stopped mc s \<longleftrightarrow> repeat_stop_active s mc \<and> \<not> bl808_pwm_running s mc \<and> period_timer s mc = None \<and> bit (mc_int_sts s mc) 10"

lemma tick_repeat:
  assumes "mc < 2" "pwm_repeating mc n k s" "k < n"
    and s'_def: "s' = pwm_step (Pwm_tick mc t) s"
  shows "if Suc k = n then pwm_stopped mc s' else pwm_repeating mc n (Suc k) s' \<and> bit (mc_int_sts s' mc) 10 = bit (mc_int_sts s mc) 10"
proof -
  define u where "u = s\<lparr>period_timer := (period_timer s)(mc := None), mc_int_sts := (mc_int_sts s)(mc := mc_int_sts s mc OR 0x100)\<rparr>"
  obtain v where v: "bl808_pwm_raise_threshold_irqs mc u = u\<lparr>mc_int_sts := (mc_int_sts u)(mc := mc_int_sts u mc OR v)\<rparr>" "\<not> bit v 10"
    using raise_low by blast
  define w where "w = u\<lparr>mc_int_sts := (mc_int_sts u)(mc := mc_int_sts u mc OR v)\<rparr>"
  have run: "bl808_pwm_running s mc" "period_timer s mc \<noteq> None" using assms(2) by (simp_all add: pwm_repeating_def)
  have s': "s' = bl808_pwm_reschedule mc t (bl808_pwm_update_irq (pwm_count_repeat mc w))"
    using run assms(1) v(1) by (simp add: s'_def bl808_pwm_period_tick_def u_def w_def Let_def)
  have "unat (mc_period s mc) div 65536 < 65536" using unat32_lt [of "mc_period s mc"] by (simp add: div_less_iff_less_mult)
  then have n: "n < 65536" using assms(2) unat_drop_bit [of 16 "mc_period s mc"] by (simp add: pwm_repeating_def)
  have count: "unat (repeat_count s mc + 1) = Suc k" using assms(2,3) n by (subst unat_add_small) (simp_all add: pwm_repeating_def)
  have target: "drop_bit 16 (mc_period s mc) \<noteq> 0" "(drop_bit 16 (mc_period s mc) \<le> repeat_count s mc + 1) = (Suc k = n)"
    using assms(2,3) count by (auto simp: pwm_repeating_def word_le_unat)
  show ?thesis
    using target count assms(2) v(2) by (auto simp: s' pwm_count_repeat_def w_def u_def reschedule_eq pwm_stopped_def pwm_repeating_def
        bl808_pwm_running_def bit_simps Let_def)
qed

lemma tick_stopped: "pwm_stopped mc s \<Longrightarrow> pwm_stopped mc (pwm_step (Pwm_tick mc t) s)"
  by (simp add: pwm_stopped_def)

text \<open>
  A group that repeats \<open>n\<close> periods and stops then does so exactly: through fewer than \<open>n\<close> period
  ticks it runs on, counting them, with the repeat interrupt as it was; the \<open>n\<close>-th raises the
  repeat interrupt and stops the group and its timer, and later ticks find it stopped.
\<close>

theorem pwm_repeat_exact:
  assumes "mc < 2" "pwm_repeating mc n 0 s" "0 < n" "s' = fold (\<lambda>t. pwm_step (Pwm_tick mc t)) ts s"
  shows "if length ts < n then pwm_repeating mc n (length ts) s' \<and> bit (mc_int_sts s' mc) 10 = bit (mc_int_sts s mc) 10 else pwm_stopped mc s'"
  unfolding assms(4)
proof (induction ts rule: rev_induct)
  case Nil
  then show ?case using assms(2,3) by simp
next
  case (snoc t ts)
  let ?r = "fold (\<lambda>t. pwm_step (Pwm_tick mc t)) ts s"
  show ?case
  proof (cases "length ts < n")
    case True
    then have "pwm_repeating mc n (length ts) ?r" "bit (mc_int_sts ?r mc) 10 = bit (mc_int_sts s mc) 10" using snoc by simp_all
    then show ?thesis using True tick_repeat [OF assms(1) _ True refl, of ?r t] by (simp del: pwm_step.simps)
  next
    case False
    then show ?thesis using snoc tick_stopped [of mc ?r t] by (simp del: pwm_step.simps)
  qed
qed

definition pwm_repeat_example :: BL808PWMState where
  "pwm_repeat_example = fold pwm_step [Pwm_write 0x40 0x80000 1, Pwm_write 0x48 0x20003 2] bl808_pwm_init"

theorem pwm_repeat_exact_witness:
  "pwm_stopped 0 (fold (\<lambda>t. pwm_step (Pwm_tick 0 t)) [200, 300] pwm_repeat_example)"
proof -
  have "pwm_repeating 0 2 0 pwm_repeat_example" unfolding pwm_repeat_example_def by code_simp
  then show ?thesis using pwm_repeat_exact [OF _ _ _ refl, of 0 2 pwm_repeat_example "[200, 300]"] by simp
qed

end
