(* ===== verification/Sec_Hash.thy ===== *)
theory Sec_Hash
  imports Device
begin

text \<open>
  The digests that the security engine computes itself,
  \<open>src/qemu-machine/hw/misc/bl808_sec_eng.c\<close>: SHA-512 with a given initial value, for SHA-512/224 and
  SHA-512/256, and cyclic redundancy checks of 16 and 32 bits.  Buffers are byte lists; a
  \<open>size_t\<close> that only counts bytes of such a list is a natural number.
\<close>

section \<open>SHA-512\<close>

definition bl808_sec_eng_rotr64 :: "u64 \<Rightarrow> nat \<Rightarrow> u64" where
  "bl808_sec_eng_rotr64 v shift = drop_bit shift v OR push_bit (64 - shift) v"

definition bl808_sec_eng_sha512_ch :: "u64 \<Rightarrow> u64 \<Rightarrow> u64 \<Rightarrow> u64" where
  "bl808_sec_eng_sha512_ch x y z = (x AND y) XOR (NOT x AND z)"

definition bl808_sec_eng_sha512_maj :: "u64 \<Rightarrow> u64 \<Rightarrow> u64 \<Rightarrow> u64" where
  "bl808_sec_eng_sha512_maj x y z = (x AND y) XOR (x AND z) XOR (y AND z)"

definition bl808_sec_eng_sha512_sigma0 :: "u64 \<Rightarrow> u64" where
  "bl808_sec_eng_sha512_sigma0 x = bl808_sec_eng_rotr64 x 28 XOR bl808_sec_eng_rotr64 x 34 XOR bl808_sec_eng_rotr64 x 39"

definition bl808_sec_eng_sha512_sigma1 :: "u64 \<Rightarrow> u64" where
  "bl808_sec_eng_sha512_sigma1 x = bl808_sec_eng_rotr64 x 14 XOR bl808_sec_eng_rotr64 x 18 XOR bl808_sec_eng_rotr64 x 41"

definition bl808_sec_eng_sha512_gamma0 :: "u64 \<Rightarrow> u64" where
  "bl808_sec_eng_sha512_gamma0 x = bl808_sec_eng_rotr64 x 1 XOR bl808_sec_eng_rotr64 x 8 XOR drop_bit 7 x"

definition bl808_sec_eng_sha512_gamma1 :: "u64 \<Rightarrow> u64" where
  "bl808_sec_eng_sha512_gamma1 x = bl808_sec_eng_rotr64 x 19 XOR bl808_sec_eng_rotr64 x 61 XOR drop_bit 6 x"

definition sha512_k :: "u64 list" where
  "sha512_k =
    [0x428a2f98d728ae22, 0x7137449123ef65cd, 0xb5c0fbcfec4d3b2f, 0xe9b5dba58189dbbc, 0x3956c25bf348b538,
     0x59f111f1b605d019, 0x923f82a4af194f9b, 0xab1c5ed5da6d8118, 0xd807aa98a3030242, 0x12835b0145706fbe,
     0x243185be4ee4b28c, 0x550c7dc3d5ffb4e2, 0x72be5d74f27b896f, 0x80deb1fe3b1696b1, 0x9bdc06a725c71235,
     0xc19bf174cf692694, 0xe49b69c19ef14ad2, 0xefbe4786384f25e3, 0x0fc19dc68b8cd5b5, 0x240ca1cc77ac9c65,
     0x2de92c6f592b0275, 0x4a7484aa6ea6e483, 0x5cb0a9dcbd41fbd4, 0x76f988da831153b5, 0x983e5152ee66dfab,
     0xa831c66d2db43210, 0xb00327c898fb213f, 0xbf597fc7beef0ee4, 0xc6e00bf33da88fc2, 0xd5a79147930aa725,
     0x06ca6351e003826f, 0x142929670a0e6e70, 0x27b70a8546d22ffc, 0x2e1b21385c26c926, 0x4d2c6dfc5ac42aed,
     0x53380d139d95b3df, 0x650a73548baf63de, 0x766a0abb3c77b2a8, 0x81c2c92e47edaee6, 0x92722c851482353b,
     0xa2bfe8a14cf10364, 0xa81a664bbc423001, 0xc24b8b70d0f89791, 0xc76c51a30654be30, 0xd192e819d6ef5218,
     0xd69906245565a910, 0xf40e35855771202a, 0x106aa07032bbd1b8, 0x19a4c116b8d2d0c8, 0x1e376c085141ab53,
     0x2748774cdf8eeb99, 0x34b0bcb5e19b48a8, 0x391c0cb3c5c95a63, 0x4ed8aa4ae3418acb, 0x5b9cca4f7763e373,
     0x682e6ff3d6b2b8a3, 0x748f82ee5defb2fc, 0x78a5636f43172f60, 0x84c87814a1f0ab72, 0x8cc702081a6439ec,
     0x90befffa23631e28, 0xa4506cebde82bde9, 0xbef9a3f7b2c67915, 0xc67178f2e372532b, 0xca273eceea26619c,
     0xd186b8c721c0c207, 0xeada7dd6cde0eb1e, 0xf57d4f7fee6ed178, 0x06f067aa72176fba, 0x0a637dc5a2c898a6,
     0x113f9804bef90dae, 0x1b710b35131c471b, 0x28db77f523047d84, 0x32caab7b40c72493, 0x3c9ebe0a15c9bebc,
     0x431d67c49c100d4c, 0x4cc5d4becb3e42b6, 0x597f299cfc657e2a, 0x5fcb6fab3ad6faec, 0x6c44198c4a475817]"

definition ldq_be_p :: "u8 list \<Rightarrow> nat \<Rightarrow> u64" where
  "ldq_be_p b off = fold (\<lambda>i v. push_bit 8 v OR ucast (b ! (off + i))) [0..<8] 0"

definition stq_be_p :: "u64 \<Rightarrow> u8 list" where
  "stq_be_p v = map (\<lambda>i. ucast (drop_bit (56 - 8 * i) v)) [0..<8]"

text \<open>The array \<open>w\<close> is filled from the front; it is the list of the elements filled so far.\<close>

fun schedule_loop :: "nat \<Rightarrow> u64 list \<Rightarrow> u64 list" where
  "schedule_loop 0 w = w"
| "schedule_loop (Suc n) w =
     (let i = length w in
      schedule_loop n (w @ [bl808_sec_eng_sha512_gamma1 (w ! (i - 2)) + w ! (i - 7) + bl808_sec_eng_sha512_gamma0 (w ! (i - 15)) + w ! (i - 16)]))"

type_synonym sha_vars = "u64 \<times> u64 \<times> u64 \<times> u64 \<times> u64 \<times> u64 \<times> u64 \<times> u64"

definition sha512_round :: "u64 list \<Rightarrow> nat \<Rightarrow> sha_vars \<Rightarrow> sha_vars" where
  "sha512_round w i = (\<lambda>(a, b, c, d, e, f, g, h).
     let t1 = h + bl808_sec_eng_sha512_sigma1 e + bl808_sec_eng_sha512_ch e f g + sha512_k ! i + w ! i;
         t2 = bl808_sec_eng_sha512_sigma0 a + bl808_sec_eng_sha512_maj a b c
     in (t1 + t2, a, b, c, d + t1, e, f, g))"

definition bl808_sec_eng_sha512_process_block :: "u64 list \<Rightarrow> u8 list \<Rightarrow> u64 list" where
  "bl808_sec_eng_sha512_process_block state block =
     (let w = schedule_loop 64 (map (\<lambda>i. ldq_be_p block (i * 8)) [0..<16]);
          (a, b, c, d, e, f, g, h) = fold (sha512_round w) [0..<80]
            (state ! 0, state ! 1, state ! 2, state ! 3, state ! 4, state ! 5, state ! 6, state ! 7)
      in [state ! 0 + a, state ! 1 + b, state ! 2 + c, state ! 3 + d, state ! 4 + e, state ! 5 + f, state ! 6 + g, state ! 7 + h])"

definition write_at :: "nat \<Rightarrow> 'a list \<Rightarrow> 'a list \<Rightarrow> 'a list" where
  "write_at pos src dst = take pos dst @ src @ drop (pos + length src) dst"

definition bl808_sec_eng_sha512_custom :: "u8 list \<Rightarrow> u64 list \<Rightarrow> nat \<Rightarrow> u8 list" where
  "bl808_sec_eng_sha512_custom data iv digest_len =
     (let len = length data;
          rem = len mod 128; blocks = len div 128; final_len = rem + 1 + 16;
          padded_len = (if final_len \<le> 128 then 128 else 256);
          bit_len_hi = drop_bit 61 (of_nat len); bit_len_lo = push_bit 3 (of_nat len);
          state = fold (\<lambda>i state. bl808_sec_eng_sha512_process_block state (take 128 (drop (i * 128) data))) [0..<blocks] iv;
          final_blocks = write_at 0 (take rem (drop (blocks * 128) data)) (replicate 256 0);
          final_blocks = write_at rem [0x80] final_blocks;
          final_blocks = write_at (padded_len - 16) (stq_be_p bit_len_hi) final_blocks;
          final_blocks = write_at (padded_len - 8) (stq_be_p bit_len_lo) final_blocks;
          state = bl808_sec_eng_sha512_process_block state (take 128 final_blocks);
          state = (if padded_len = 256 then bl808_sec_eng_sha512_process_block state (take 128 (drop 128 final_blocks)) else state);
          full_digest = concat (map stq_be_p state)
      in take digest_len full_digest)"

definition sha512_224_iv :: "u64 list" where
  "sha512_224_iv = [0x8c3d37c819544da2, 0x73e1996689dcd4d6, 0x1dfab7ae32ff9c82, 0x679dd514582f9fcf,
     0x0f6d2b697bd44da8, 0x77e36f7304c48942, 0x3f9d85a86a1d36c8, 0x1112e6ad91d692a1]"

definition sha512_256_iv :: "u64 list" where
  "sha512_256_iv = [0x22312194fc2bf72c, 0x9f555fa3c84c64c2, 0x2393b86b6f53b151, 0x963877195940eabd,
     0x96283ee2a88effe3, 0xbe5e1e2553863992, 0x2b0199fc2c85b8aa, 0x0eb72ddc81c52ca2]"

definition bl808_sec_eng_sha512_t_hash :: "u8 list \<Rightarrow> u32 \<Rightarrow> u8 list option" where
  "bl808_sec_eng_sha512_t_hash accum mode =
     (if mode = 6 then Some (bl808_sec_eng_sha512_custom accum sha512_224_iv 28)
      else if mode = 7 then Some (bl808_sec_eng_sha512_custom accum sha512_256_iv 32)
      else None)"

section \<open>Cyclic redundancy checks\<close>

fun reflect_loop :: "u32 \<Rightarrow> nat \<Rightarrow> nat \<Rightarrow> u32" where
  "reflect_loop v width 0 = 0"
| "reflect_loop v width (Suc i) = (reflect_loop v width i) OR (if tst v (push_bit i 1) then push_bit (width - 1 - i) 1 else 0)"

definition bl808_sec_eng_reflect_bits :: "u32 \<Rightarrow> nat \<Rightarrow> u32" where
  "bl808_sec_eng_reflect_bits v width = reflect_loop v width width"

definition bl808_sec_eng_crc_mask :: "nat \<Rightarrow> u32" where
  "bl808_sec_eng_crc_mask width = (if width = 32 then - 1 else push_bit width 1 - 1)"

definition crc_ref_bit :: "u32 \<Rightarrow> u32 \<Rightarrow> u32 \<Rightarrow> u32" where
  "crc_ref_bit m poly_ref crc = (if tst crc 1 then drop_bit 1 crc XOR poly_ref else drop_bit 1 crc) AND m"

definition crc_top_bit :: "nat \<Rightarrow> u32 \<Rightarrow> u32 \<Rightarrow> u32 \<Rightarrow> u32" where
  "crc_top_bit width m poly crc =
     (if tst crc (push_bit (width - 1) 1) then (push_bit 1 crc AND m) XOR poly else push_bit 1 crc AND m)"

definition bl808_sec_eng_crc_update :: "u8 list \<Rightarrow> nat \<Rightarrow> u32 \<Rightarrow> u32 \<Rightarrow> bool \<Rightarrow> u32" where
  "bl808_sec_eng_crc_update data width poly crc din_ref =
     (let m = bl808_sec_eng_crc_mask width; crc = crc AND m; poly = poly AND m;
          crc = (if din_ref
                 then let poly_ref = bl808_sec_eng_reflect_bits poly width
                      in fold (\<lambda>d crc. (crc_ref_bit m poly_ref ^^ 8) (crc XOR ucast d)) data crc
                 else fold (\<lambda>d crc. (crc_top_bit width m poly ^^ 8) (crc XOR push_bit (width - 8) (ucast d))) data crc)
      in crc AND m)"

definition bl808_sec_eng_crc_finalize :: "nat \<Rightarrow> u32 \<Rightarrow> bool \<Rightarrow> bool \<Rightarrow> bool \<Rightarrow> u32" where
  "bl808_sec_eng_crc_finalize width crc din_ref dout_ref dout_inv =
     (let m = bl808_sec_eng_crc_mask width; crc = crc AND m;
          crc = (if dout_ref \<noteq> din_ref then bl808_sec_eng_reflect_bits crc width else crc);
          crc = (if dout_inv then crc XOR m else crc)
      in crc AND m)"

definition bl808_sec_eng_crc_restore_state :: "nat \<Rightarrow> u32 \<Rightarrow> bool \<Rightarrow> bool \<Rightarrow> bool \<Rightarrow> u32" where
  "bl808_sec_eng_crc_restore_state width stored_crc din_ref dout_ref dout_inv =
     (let m = bl808_sec_eng_crc_mask width; stored_crc = stored_crc AND m;
          stored_crc = (if dout_inv then stored_crc XOR m else stored_crc);
          stored_crc = (if dout_ref \<noteq> din_ref then bl808_sec_eng_reflect_bits stored_crc width else stored_crc)
      in stored_crc AND m)"

end
