(* ===== verification/Sec_Sha.thy ===== *)
theory Sec_Sha
  imports Sec_Hash
begin

text \<open>
  SHA-512 as the Secure Hash Standard (FIPS 180-4) describes it, and the proof that the routine of
  the security engine computes it for every message: rotations as rotations, the message schedule
  as a recursive function, padding on the whole message, and the constants from cube roots.
\<close>

section \<open>The standard\<close>

definition fips_Sigma0 :: "u64 \<Rightarrow> u64" where
  "fips_Sigma0 x = word_rotr 28 x XOR word_rotr 34 x XOR word_rotr 39 x"

definition fips_Sigma1 :: "u64 \<Rightarrow> u64" where
  "fips_Sigma1 x = word_rotr 14 x XOR word_rotr 18 x XOR word_rotr 41 x"

definition fips_sigma0 :: "u64 \<Rightarrow> u64" where
  "fips_sigma0 x = word_rotr 1 x XOR word_rotr 8 x XOR drop_bit 7 x"

definition fips_sigma1 :: "u64 \<Rightarrow> u64" where
  "fips_sigma1 x = word_rotr 19 x XOR word_rotr 61 x XOR drop_bit 6 x"

definition fips_Ch :: "u64 \<Rightarrow> u64 \<Rightarrow> u64 \<Rightarrow> u64" where
  "fips_Ch x y z = (x AND y) XOR (NOT x AND z)"

definition fips_Maj :: "u64 \<Rightarrow> u64 \<Rightarrow> u64 \<Rightarrow> u64" where
  "fips_Maj x y z = (x AND y) XOR (x AND z) XOR (y AND z)"

text \<open>The constants: the first 64 bits of the fractional parts of the cube roots of the first 80 primes.\<close>

definition fips_primes :: "nat list" where
  "fips_primes = [2, 3, 5, 7, 11, 13, 17, 19, 23, 29, 31, 37, 41, 43, 47, 53, 59, 61, 67, 71,
     73, 79, 83, 89, 97, 101, 103, 107, 109, 113, 127, 131, 137, 139, 149, 151, 157, 163, 167, 173,
     179, 181, 191, 193, 197, 199, 211, 223, 227, 229, 233, 239, 241, 251, 257, 263, 269, 271, 277, 281,
     283, 293, 307, 311, 313, 317, 331, 337, 347, 349, 353, 359, 367, 373, 379, 383, 389, 397, 401, 409]"

definition cube_root_bits :: "nat \<Rightarrow> u64 \<Rightarrow> bool" where
  "cube_root_bits p k \<longleftrightarrow>
     (\<exists>m. (m * 2 ^ 64 + unat k) ^ 3 \<le> p * 2 ^ 192 \<and> p * 2 ^ 192 < (m * 2 ^ 64 + unat k + 1) ^ 3)"

text \<open>A message is padded and parsed into blocks of 128 bytes, a block into words, big-endian.\<close>

definition big_endian :: "nat \<Rightarrow> nat \<Rightarrow> u8 list" where
  "big_endian n v = map (\<lambda>i. of_nat (v div 2 ^ (8 * (n - 1 - i)))) [0..<n]"

definition fips_pad :: "u8 list \<Rightarrow> u8 list" where
  "fips_pad msg = msg @ [0x80] @ replicate ((239 - length msg mod 128) mod 128) 0 @ big_endian 16 (8 * length msg)"

function chunks :: "nat \<Rightarrow> 'a list \<Rightarrow> 'a list list" where
  "chunks n xs = (if n = 0 \<or> xs = [] then [] else take n xs # chunks n (drop n xs))"
  by auto
termination by (relation "measure (\<lambda>(n, xs). length xs)") auto

declare chunks.simps [simp del]

definition fips_word :: "u8 list \<Rightarrow> u64" where
  "fips_word bs = of_nat (foldl (\<lambda>v b. 256 * v + unat b) 0 bs)"

fun fips_W :: "u64 list \<Rightarrow> nat \<Rightarrow> u64" where
  "fips_W M t = (if t < 16 then M ! t else fips_sigma1 (fips_W M (t - 2)) + fips_W M (t - 7) + fips_sigma0 (fips_W M (t - 15)) + fips_W M (t - 16))"

declare fips_W.simps [simp del]

definition fips_step :: "u64 list \<Rightarrow> nat \<Rightarrow> sha_vars \<Rightarrow> sha_vars" where
  "fips_step M t = (\<lambda>(a, b, c, d, e, f, g, h).
     let T1 = h + fips_Sigma1 e + fips_Ch e f g + sha512_k ! t + fips_W M t;
         T2 = fips_Sigma0 a + fips_Maj a b c
     in (T1 + T2, a, b, c, d + T1, e, f, g))"

definition fips_block :: "u8 list \<Rightarrow> u64 list \<Rightarrow> u64 list" where
  "fips_block block H =
     (let M = map fips_word (chunks 8 block);
          (a, b, c, d, e, f, g, h) = fold (fips_step M) [0..<80] (H ! 0, H ! 1, H ! 2, H ! 3, H ! 4, H ! 5, H ! 6, H ! 7)
      in map2 (+) H [a, b, c, d, e, f, g, h])"

definition fips_sha512 :: "u64 list \<Rightarrow> u8 list \<Rightarrow> u8 list" where
  "fips_sha512 H msg = concat (map (\<lambda>w. big_endian 8 (unat w)) (fold fips_block (chunks 128 (fips_pad msg)) H))"

section \<open>Constants and logical functions\<close>

lemma sha512_k_roots: "list_all2 cube_root_bits fips_primes sha512_k"
proof -
  have bits: "cube_root_bits p k"
    if "(m * 2 ^ 64 + unat k) ^ 3 \<le> p * 2 ^ 192" "p * 2 ^ 192 < (m * 2 ^ 64 + unat k + 1) ^ 3" for m p k
    using that unfolding cube_root_bits_def by blast
  define root where "root = (\<lambda>p::nat. if p < 8 then 1::nat else if p < 27 then 2 else if p < 64 then 3 else if p < 125 then 4
    else if p < 216 then 5 else if p < 343 then 6 else 7)"
  have "list_all2 (\<lambda>p k. (root p * 2 ^ 64 + unat k) ^ 3 \<le> p * 2 ^ 192 \<and> p * 2 ^ 192 < (root p * 2 ^ 64 + unat k + 1) ^ 3) fips_primes sha512_k"
    unfolding fips_primes_def sha512_k_def root_def by simp
  then show ?thesis by (rule list_all2_mono) (blast intro: bits)
qed

lemma rotr64:
  assumes "0 < n" "n < 64"
  shows "bl808_sec_eng_rotr64 x n = word_rotr n x"
proof (rule bit_word_eqI)
  fix k assume "k < LENGTH(64)"
  then have k: "k < 64" by simp
  show "bit (bl808_sec_eng_rotr64 x n) k = bit (word_rotr n x) k"
  proof (cases "k + n < 64")
    case True
    then have "\<not> 64 - n \<le> k" by simp
    then show ?thesis using True assms k by (simp add: bl808_sec_eng_rotr64_def bit_simps bit_word_rotr_iff add.commute)
  next
    case False
    then have "(k + n) mod 64 = k + n - 64" "64 - n \<le> k" "\<not> bit x (n + k)" "k - (64 - n) = k + n - 64"
      using assms k by (auto simp: mod_if dest: bit_imp_le_length)
    then show ?thesis using assms k by (simp add: bl808_sec_eng_rotr64_def bit_simps bit_word_rotr_iff)
  qed
qed

lemma logical_functions:
  "bl808_sec_eng_sha512_sigma0 = fips_Sigma0" "bl808_sec_eng_sha512_sigma1 = fips_Sigma1"
  "bl808_sec_eng_sha512_gamma0 = fips_sigma0" "bl808_sec_eng_sha512_gamma1 = fips_sigma1"
  "bl808_sec_eng_sha512_ch = fips_Ch" "bl808_sec_eng_sha512_maj = fips_Maj"
  by (simp_all add: fun_eq_iff rotr64 bl808_sec_eng_sha512_sigma0_def fips_Sigma0_def bl808_sec_eng_sha512_sigma1_def fips_Sigma1_def
    bl808_sec_eng_sha512_gamma0_def fips_sigma0_def bl808_sec_eng_sha512_gamma1_def fips_sigma1_def
    bl808_sec_eng_sha512_ch_def fips_Ch_def bl808_sec_eng_sha512_maj_def fips_Maj_def)

section \<open>Bytes and words\<close>

lemma shift_in_byte: "push_bit 8 v OR ucast (b :: u8) = 256 * v + (ucast b :: u64)"
proof -
  have "push_bit 8 v AND (ucast b :: u64) = 0"
    by (rule bit_word_eqI) (auto simp: bit_simps dest: bit_imp_le_length)
  then have "push_bit 8 v OR (ucast b :: u64) = push_bit 8 v + ucast b" using word_plus_and_or [of "push_bit 8 v" "ucast b :: u64"] by simp
  moreover have "push_bit 8 v = 256 * v" by (simp add: push_bit_eq_mult)
  ultimately show ?thesis by simp
qed

lemma fips_word_snoc: "fips_word (bs @ [b]) = 256 * fips_word bs + ucast b"
  by (simp add: fips_word_def)

lemma ldq_prefix:
  assumes "n \<le> length bs"
  shows "fold (\<lambda>i v. push_bit 8 v OR ucast (bs ! i)) [0..<n] 0 = fips_word (take n bs)"
  using assms
proof (induction n)
  case 0
  then show ?case by (simp add: fips_word_def)
next
  case (Suc n)
  then show ?case by (simp add: take_Suc_conv_app_nth fips_word_snoc shift_in_byte)
qed

lemma ldq_be_word: "off + 8 \<le> length b \<Longrightarrow> ldq_be_p b off = fips_word (take 8 (drop off b))"
  using ldq_prefix [of 8 "drop off b"] by (simp add: ldq_be_p_def)

lemma byte_of_nat: "k \<le> 56 \<Longrightarrow> ucast (drop_bit k (of_nat n :: u64)) = (of_nat (n div 2 ^ k) :: u8)"
  by (rule bit_word_eqI) (auto simp: bit_simps simp flip: drop_bit_eq_div)

lemma stq_be_of_nat: "stq_be_p (of_nat n) = big_endian 8 n"
  by (simp add: stq_be_p_def big_endian_def byte_of_nat diff_mult_distrib2)

lemma stq_be_bytes: "stq_be_p w = big_endian 8 (unat w)"
  using stq_be_of_nat [of "unat w"] by simp

lemma length_big_endian [simp]: "length (big_endian n v) = n"
  by (simp add: big_endian_def)

lemma big_endian_append: "big_endian 8 (v div 2 ^ 64) @ big_endian 8 v = big_endian 16 v"
  by (simp add: big_endian_def upt_rec flip: div_mult2_eq)

lemma bit_length_bytes:
  assumes "n < 2 ^ 64"
  shows "stq_be_p (drop_bit 61 (of_nat n)) @ stq_be_p (push_bit 3 (of_nat n)) = big_endian 16 (8 * n)"
proof -
  have "drop_bit 61 (of_nat n :: u64) = of_nat (8 * n div 2 ^ 64)"
    using assms by (intro word_unat_eq_iff [THEN iffD2]) (simp add: unat_drop_bit unat_of_nat_small div_mult2_eq unat_of_nat)
  moreover have "push_bit 3 (of_nat n :: u64) = of_nat (8 * n)" by (simp add: push_bit_eq_mult)
  ultimately show ?thesis by (simp only: stq_be_of_nat big_endian_append)
qed

section \<open>Blocks\<close>

lemma chunks_map: "0 < n \<Longrightarrow> length xs = n * m \<Longrightarrow> chunks n xs = map (\<lambda>i. take n (drop (n * i) xs)) [0..<m]"
proof (induction m arbitrary: xs)
  case 0
  then show ?case by (simp add: chunks.simps)
next
  case (Suc m)
  then have "chunks n (drop n xs) = map (\<lambda>i. take n (drop (n * i) (drop n xs))) [0..<m]" by simp
  moreover have "xs \<noteq> []" using Suc.prems by auto
  ultimately show ?case using Suc.prems(1)
    by (subst chunks.simps) (simp add: upt_conv_Cons add.commute flip: map_Suc_upt del: upt_Suc)
qed

lemma chunks_append: "0 < n \<Longrightarrow> length xs = n * m \<Longrightarrow> chunks n (xs @ ys) = chunks n xs @ chunks n ys"
proof (induction m arbitrary: xs)
  case 0
  then show ?case by (simp add: chunks.simps [of n "[]"])
next
  case (Suc m)
  then have "xs \<noteq> []" "n \<le> length xs" by auto
  then show ?case using Suc.prems Suc.IH [of "drop n xs"] by (subst (1 2) chunks.simps) simp
qed

lemma schedule_W:
  "16 \<le> k \<Longrightarrow> schedule_loop n (map (fips_W M) [0..<k]) = map (fips_W M) [0..<k + n]"
proof (induction n arbitrary: k)
  case (Suc n)
  then have "fips_W M k = fips_sigma1 (fips_W M (k - 2)) + fips_W M (k - 7) + fips_sigma0 (fips_W M (k - 15)) + fips_W M (k - 16)"
    by (subst fips_W.simps) simp
  then show ?case using Suc.prems Suc.IH [of "Suc k"] by (simp add: logical_functions)
qed simp

lemma block_words:
  assumes "length block = 128"
  shows "map (\<lambda>i. ldq_be_p block (i * 8)) [0..<16] = map (fips_W (map fips_word (chunks 8 block))) [0..<16]"
proof (rule map_cong [OF refl])
  fix i :: nat assume "i \<in> set [0..<16]"
  then have i: "i < 16" by simp
  have "chunks 8 block = map (\<lambda>i. take 8 (drop (8 * i) block)) [0..<16]" using assms by (intro chunks_map) simp_all
  then have "chunks 8 block ! i = take 8 (drop (8 * i) block)" "length (chunks 8 block) = 16" using i by simp_all
  then show "ldq_be_p block (i * 8) = fips_W (map fips_word (chunks 8 block)) i"
    using i assms by (simp add: fips_W.simps [of _ i] ldq_be_word mult.commute)
qed

lemma process_block:
  assumes "length block = 128" "length H = 8"
  shows "bl808_sec_eng_sha512_process_block H block = fips_block block H"
proof -
  let ?M = "map fips_word (chunks 8 block)" and ?v = "(H ! 0, H ! 1, H ! 2, H ! 3, H ! 4, H ! 5, H ! 6, H ! 7)"
  let ?w = "schedule_loop 64 (map (\<lambda>i. ldq_be_p block (i * 8)) [0..<16])"
  have w: "?w = map (fips_W ?M) [0..<80]" unfolding block_words [OF assms(1)] using schedule_W [of 16 64 ?M] by simp
  have "fold (sha512_round ?w) [0..<80] ?v = fold (fips_step ?M) [0..<80] ?v"
  proof (intro fold_cong refl ext)
    fix i v assume "i \<in> set [0..<80]"
    then have "?w ! i = fips_W ?M i" unfolding w by simp
    then show "sha512_round ?w i v = fips_step ?M i v" by (simp add: sha512_round_def fips_step_def logical_functions)
  qed
  moreover obtain x0 x1 x2 x3 x4 x5 x6 x7 where "H = [x0, x1, x2, x3, x4, x5, x6, x7]"
    using assms(2) by (auto simp: numeral_eq_Suc length_Suc_conv)
  ultimately show ?thesis
    by (simp add: bl808_sec_eng_sha512_process_block_def fips_block_def Let_def split: prod.split)
qed

lemma length_process_block [simp]: "length (bl808_sec_eng_sha512_process_block H block) = 8"
  by (simp add: bl808_sec_eng_sha512_process_block_def Let_def split: prod.split)

lemma process_blocks:
  assumes "\<forall>b \<in> set bs. length b = 128" "length H = 8"
  shows "fold (\<lambda>b H. bl808_sec_eng_sha512_process_block H b) bs H = fold fips_block bs H"
  using assms
proof (induction bs arbitrary: H)
  case (Cons b bs)
  then show ?case using process_block [of b H] length_process_block [of H b] by simp
qed simp

section \<open>Padding\<close>

lemma write_at_zeros:
  "pos = length xs + k \<Longrightarrow> k + length src \<le> n \<Longrightarrow>
   write_at pos src (xs @ replicate n z) = xs @ replicate k z @ src @ replicate (n - k - length src) z"
  by (simp add: write_at_def min_def)

lemma final_blocks:
  assumes "length t < 128" "p = (if length t + 1 + 16 \<le> 128 then 128 else 256)" "length hi = 8" "length lo = 8"
    and "f = write_at (p - 8) lo (write_at (p - 16) hi (write_at (length t) [0x80] (write_at 0 t (replicate 256 0))))"
  shows "take p f = t @ [0x80] @ replicate ((239 - length t) mod 128) (0 :: u8) @ hi @ lo" and "length f = 256"
proof -
  define k where "k = p - 16 - length t - 1"
  have k: "p = length t + 1 + k + 16" "(239 - length t) mod 128 = k" "p \<le> 256"
    using assms(1,2) by (auto simp: k_def mod_if)
  have "write_at (length t) [0x80] (write_at 0 t (replicate 256 0)) = (t @ [0x80]) @ replicate (255 - length t) (0 :: u8)"
    using assms(1) write_at_zeros [of 0 "[]" 0 t 256 "0 :: u8"] write_at_zeros [of "length t" t 0 "[0x80]" "256 - length t" "0 :: u8"] by simp
  then have step: "write_at (p - 16) hi (write_at (length t) [0x80] (write_at 0 t (replicate 256 0))) =
      (t @ [0x80] @ replicate k 0 @ hi) @ replicate (247 - length t - k) 0"
    using assms(3) k write_at_zeros [of "p - 16" "t @ [0x80]" k hi "255 - length t" "0 :: u8"] by simp
  define X where "X = t @ [0x80] @ replicate k 0 @ hi @ lo"
  have "length X = p" using assms(3,4) k by (simp add: X_def)
  moreover from step have "f = X @ replicate (239 - length t - k) 0" unfolding X_def
    using assms(3-5) k write_at_zeros [of "p - 8" "t @ [0x80] @ replicate k 0 @ hi" 0 lo "247 - length t - k" "0 :: u8"] by simp
  ultimately have "take p f = X" "length f = 256" using k by simp_all
  then show "take p f = t @ [0x80] @ replicate ((239 - length t) mod 128) (0 :: u8) @ hi @ lo" "length f = 256"
    unfolding X_def k(2) by simp_all
qed

lemma sha512_custom_standard:
  assumes "length msg < 2 ^ 64" "length iv = 8"
  shows "bl808_sec_eng_sha512_custom msg iv n = take n (fips_sha512 iv msg)"
proof -
  define q where "q = length msg div 128"
  define t where "t = drop (q * 128) msg"
  define p :: nat where "p = (if length msg mod 128 + 1 + 16 \<le> 128 then 128 else 256)"
  define hi where "hi = stq_be_p (drop_bit 61 (of_nat (length msg)))"
  define lo where "lo = stq_be_p (push_bit 3 (of_nat (length msg)))"
  define f where "f = write_at (p - 8) lo (write_at (p - 16) hi (write_at (length t) [0x80] (write_at 0 t (replicate 256 0))))"
  let ?st = "fold (\<lambda>b H. bl808_sec_eng_sha512_process_block H b)"
  have len: "length t = length msg mod 128" "take (length msg mod 128) t = t" "q * 128 \<le> length msg"
    by (simp_all add: t_def q_def flip: minus_mult_div_eq_mod)
  note f = final_blocks [OF _ p_def [folded len(1)] _ _ f_def]
  have tail: "take p f = t @ [0x80] @ replicate ((239 - length t) mod 128) 0 @ big_endian 16 (8 * length msg)" "length f = 256"
    using f bit_length_bytes [OF assms(1)] len(1) by (simp_all add: hi_def lo_def stq_be_bytes)
  have blocks: "fold (\<lambda>i H. bl808_sec_eng_sha512_process_block H (take 128 (drop (i * 128) msg))) [0..<q] iv = ?st (chunks 128 (take (q * 128) msg)) iv"
  proof -
    have "chunks 128 (take (q * 128) msg) = map (\<lambda>i. take 128 (drop (i * 128) msg)) [0..<q]"
      using len(3) chunks_map [of 128 "take (q * 128) msg" q]
      by (auto simp: mult.commute drop_take min_def intro!: map_cong) 
    then show ?thesis by (simp add: fold_map comp_def)
  qed
  have final: "(if p = 256 then bl808_sec_eng_sha512_process_block (bl808_sec_eng_sha512_process_block H (take 128 f)) (take 128 (drop 128 f))
      else bl808_sec_eng_sha512_process_block H (take 128 f)) = ?st (chunks 128 (take p f)) H" for H
    using tail(2) by (auto simp: p_def chunks.simps)
  have pad: "chunks 128 (fips_pad msg) = chunks 128 (take (q * 128) msg) @ chunks 128 (take p f)"
  proof -
    have "fips_pad msg = take (q * 128) msg @ take p f"
      unfolding fips_pad_def tail(1) len(1) by (simp add: t_def)
    then show ?thesis using len(3) chunks_append [of 128 "take (q * 128) msg" q "take p f"] by simp
  qed
  have "\<forall>b \<in> set (chunks 128 (fips_pad msg)). length b = 128"
  proof -
    have "length (take p f) = 128 * (p div 128)" using tail(2) by (auto simp: p_def)
    then show ?thesis unfolding pad
      using len(3) chunks_map [of 128 "take p f"] chunks_map [of 128 "take (q * 128) msg" q] tail(2) by (auto simp: p_def)
  qed
  then have "?st (chunks 128 (take p f)) (?st (chunks 128 (take (q * 128) msg)) iv) = fold fips_block (chunks 128 (fips_pad msg)) iv"
    using process_blocks [OF _ assms(2)] pad by (metis fold_append comp_apply)
  moreover have "bl808_sec_eng_sha512_custom msg iv n = take n (concat (map stq_be_p (?st (chunks 128 (take p f)) (?st (chunks 128 (take (q * 128) msg)) iv))))"
    unfolding final [symmetric] blocks [symmetric]
    by (simp only: bl808_sec_eng_sha512_custom_def Let_def f_def hi_def lo_def p_def q_def t_def len(1,2) [unfolded t_def q_def])
  ultimately show ?thesis by (simp add: fips_sha512_def stq_be_bytes [abs_def, symmetric])
qed

end
