(* ===== verification/Sec_Sha_Eval.thy ===== *)
theory Sec_Sha_Eval
  imports Sec_Sha
begin

text \<open>
  SHA-512 on natural numbers below \<open>2 ^ 64\<close>, which the simplifier evaluates, and its agreement with the
  routine of the security engine: digests of concrete messages become theorems.
\<close>

section \<open>Arithmetic on natural numbers\<close>

definition nrot :: "nat \<Rightarrow> nat \<Rightarrow> nat" where
  "nrot n x = drop_bit n x OR push_bit (64 - n) (take_bit n x)"

definition nred :: "nat \<Rightarrow> nat" where
  "nred z = z mod 2 ^ 64"

definition nadd :: "nat \<Rightarrow> nat \<Rightarrow> nat" where
  "nadd x y = nred (x + y)"

definition nsched1 :: "nat list \<Rightarrow> nat" where
  "nsched1 r = nadd (nadd (nadd (nrot 19 (r ! 1) XOR nrot 61 (r ! 1) XOR drop_bit 6 (r ! 1)) (r ! 6))
     (nrot 1 (r ! 14) XOR nrot 8 (r ! 14) XOR drop_bit 7 (r ! 14))) (r ! 15)"

fun nsched :: "nat \<Rightarrow> nat list \<Rightarrow> nat list" where
  "nsched 0 r = r"
| "nsched (Suc n) r = nsched n (nsched1 r # r)"

type_synonym nvars = "nat \<times> nat \<times> nat \<times> nat \<times> nat \<times> nat \<times> nat \<times> nat"

fun nmix :: "nat \<Rightarrow> nat \<Rightarrow> nvars \<Rightarrow> nvars" where
  "nmix t1 t2 (a, b, c, d, e, f, g, h) = (nadd t1 t2, a, b, c, nadd d t1, e, f, g)"

fun nround :: "nat \<times> nat \<Rightarrow> nvars \<Rightarrow> nvars" where
  "nround (k, w) (a, b, c, d, e, f, g, h) =
     nmix (nadd (nadd (nadd (nadd h (nrot 14 e XOR nrot 18 e XOR nrot 41 e)) (g XOR (e AND (f XOR g)))) k) w)
       (nadd (nrot 28 a XOR nrot 34 a XOR nrot 39 a) ((a AND b) XOR (a AND c) XOR (b AND c))) (a, b, c, d, e, f, g, h)"

definition nblock :: "nat list \<Rightarrow> nat list \<Rightarrow> nat list" where
  "nblock ws hs =
     (let (a, b, c, d, e, f, g, h) = fold nround (zip (map unat sha512_k) (rev (nsched 64 (rev ws))))
        (hs ! 0, hs ! 1, hs ! 2, hs ! 3, hs ! 4, hs ! 5, hs ! 6, hs ! 7)
      in map2 nadd hs [a, b, c, d, e, f, g, h])"

section \<open>Agreement with words\<close>

lemma of_nat_nadd: "(of_nat (nadd x y) :: u64) = of_nat x + of_nat y"
proof -
  have "(of_nat (nred n) :: u64) = of_nat n" for n
    unfolding nred_def take_bit_eq_mod [symmetric] by (rule bit_word_eqI) (simp add: bit_simps)
  then show ?thesis by (simp add: nadd_def)
qed

lemma nadd_less: "nadd x y < 2 ^ 64"
  by (simp add: nadd_def nred_def)

lemma bit_below: "bit (x::nat) m \<Longrightarrow> x < 2 ^ 64 \<Longrightarrow> m < 64"
proof (rule ccontr)
  assume x: "bit x m" "x < 2 ^ 64" "\<not> m < 64"
  then have "(2::nat) ^ 64 \<le> 2 ^ m" by (intro power_increasing) simp_all
  then show False using x by (simp add: bit_iff_odd)
qed

lemma of_nat_drop: "x < 2 ^ 64 \<Longrightarrow> (of_nat (drop_bit n x) :: u64) = drop_bit n (of_nat x)"
  by (rule bit_word_eqI) (auto simp: bit_simps dest: bit_below)

lemma of_nat_nrot:
  assumes "x < 2 ^ 64" "0 < n" "n < 64"
  shows "(of_nat (nrot n x) :: u64) = bl808_sec_eng_rotr64 (of_nat x) n"
proof -
  have "(of_nat (push_bit (64 - n) (take_bit n x)) :: u64) = push_bit (64 - n) (of_nat x)"
    using assms(2,3) by (intro bit_word_eqI) (auto simp: bit_simps)
  then show ?thesis using assms(1) by (simp add: nrot_def bl808_sec_eng_rotr64_def of_nat_or_eq of_nat_drop)
qed

lemma ch_short: "bl808_sec_eng_sha512_ch x y z = z XOR (x AND (y XOR z))"
  by (rule bit_word_eqI) (auto simp: bl808_sec_eng_sha512_ch_def bit_simps)

lemmas of_nat_word = of_nat_nadd of_nat_drop of_nat_nrot of_nat_xor_eq of_nat_and_eq

lemma of_nat_sched1:
  assumes "\<forall>x \<in> set r. x < 2 ^ 64" "16 \<le> length r"
  shows "(of_nat (nsched1 r) :: u64) = bl808_sec_eng_sha512_gamma1 (of_nat (r ! 1)) + of_nat (r ! 6) +
    bl808_sec_eng_sha512_gamma0 (of_nat (r ! 14)) + of_nat (r ! 15)"
proof -
  have "r ! i < 2 ^ 64" if "i < 16" for i using assms that by simp
  then show ?thesis
    by (simp add: nsched1_def bl808_sec_eng_sha512_gamma0_def bl808_sec_eng_sha512_gamma1_def of_nat_word)
qed

lemma schedule_nsched:
  assumes "\<forall>x \<in> set r. x < 2 ^ 64" "16 \<le> length r"
  shows "schedule_loop n (map of_nat (rev r)) = map of_nat (rev (nsched n r)) \<and> (\<forall>x \<in> set (nsched n r). x < 2 ^ 64) \<and>
    length (nsched n r) = n + length r"
  using assms
proof (induction n arbitrary: r)
  case (Suc n)
  let ?i = "length r" and ?w = "map of_nat (rev r) :: u64 list"
  have "?w ! (?i - Suc k) = of_nat (r ! k)" if "k < 16" for k using that Suc.prems(2) by (simp add: rev_nth)
  from this [of 1] this [of 6] this [of 14] this [of 15] have "schedule_loop (Suc n) ?w = schedule_loop n (?w @ [of_nat (nsched1 r)])"
    by (simp add: of_nat_sched1 [OF Suc.prems] numeral_2_eq_2)
  moreover have "\<forall>x \<in> set (nsched1 r # r). x < 2 ^ 64" using Suc.prems(1) nadd_less by (simp add: nsched1_def)
  ultimately show ?case using Suc.IH [of "nsched1 r # r"] Suc.prems(2) by simp
qed simp

lemma nvars_cases:
  obtains a b c d e f g h where "(v :: nvars) = (a, b, c, d, e, f, g, h)"
  by (metis surj_pair)

definition of_nvars :: "nvars \<Rightarrow> sha_vars" where
  "of_nvars = (\<lambda>(a, b, c, d, e, f, g, h). (of_nat a, of_nat b, of_nat c, of_nat d, of_nat e, of_nat f, of_nat g, of_nat h))"

definition nvars_ok :: "nvars \<Rightarrow> bool" where
  "nvars_ok = (\<lambda>(a, b, c, d, e, f, g, h). \<forall>x \<in> {a, b, c, d, e, f, g, h}. x < 2 ^ 64)"

lemma nround_round:
  assumes "nvars_ok v" "w ! i = of_nat wi"
  shows "of_nvars (nround (unat (sha512_k ! i), wi) v) = sha512_round w i (of_nvars v)" and "nvars_ok (nround (unat (sha512_k ! i), wi) v)"
proof -
  obtain a b c d e f g h where v: "v = (a, b, c, d, e, f, g, h)" by (rule nvars_cases)
  have "a < 2 ^ 64" "e < 2 ^ 64" using assms(1) by (simp_all add: v nvars_ok_def)
  then show "of_nvars (nround (unat (sha512_k ! i), wi) v) = sha512_round w i (of_nvars v)"
    by (simp add: v of_nvars_def sha512_round_def Let_def ch_short bl808_sec_eng_sha512_maj_def bl808_sec_eng_sha512_sigma0_def
      bl808_sec_eng_sha512_sigma1_def of_nat_word assms(2))
  show "nvars_ok (nround (unat (sha512_k ! i), wi) v)" using assms(1) nadd_less by (simp add: v nvars_ok_def)
qed

lemma nrounds:
  assumes "nvars_ok v" "n \<le> 80" "length ws = 80"
  shows "of_nvars (fold nround (take n (zip (map unat sha512_k) ws)) v) = fold (sha512_round (map of_nat ws)) [0..<n] (of_nvars v) \<and>
    nvars_ok (fold nround (take n (zip (map unat sha512_k) ws)) v)"
  using assms(2)
proof (induction n)
  case (Suc n)
  have "length sha512_k = 80" by (simp add: sha512_k_def)
  then have "take (Suc n) (zip (map unat sha512_k) ws) = take n (zip (map unat sha512_k) ws) @ [(unat (sha512_k ! n), ws ! n)]"
    using Suc.prems assms(3) by (simp add: take_Suc_conv_app_nth)
  then show ?case using Suc nround_round [where i = n and w = "map of_nat ws" and wi = "ws ! n"] assms(3) by simp
qed (use assms(1) in simp)

lemma nblock_block:
  assumes ws: "length ws = 16" "\<forall>x \<in> set ws. x < 2 ^ 64" and hs: "length hs = 8" "\<forall>x \<in> set hs. x < 2 ^ 64"
    and block: "length block = 128" "map fips_word (chunks 8 block) = map of_nat ws"
  shows "fips_block block (map of_nat hs) = map of_nat (nblock ws hs)"
proof -
  let ?w = "rev (nsched 64 (rev ws))"
  obtain x0 x1 x2 x3 x4 x5 x6 x7 where H: "hs = [x0, x1, x2, x3, x4, x5, x6, x7]"
    using hs(1) by (auto simp: numeral_eq_Suc length_Suc_conv)
  have "map (fips_W (map of_nat ws)) [0..<16] = map of_nat ws"
    using ws(1) by (intro nth_equalityI) (auto simp: fips_W.simps)
  then have words: "map (\<lambda>i. ldq_be_p block (i * 8)) [0..<16] = map of_nat (rev (rev ws))"
    using block_words [OF block(1)] block(2) by simp
  have sched: "schedule_loop 64 (map of_nat (rev (rev ws))) = map of_nat ?w" "length ?w = 80"
    using schedule_nsched [of "rev ws" 64] ws by simp_all
  have vars: "nvars_ok (x0, x1, x2, x3, x4, x5, x6, x7)" using hs(2) by (simp add: nvars_ok_def H)
  have "take 80 (zip (map unat sha512_k) ?w) = zip (map unat sha512_k) ?w" using sched(2) by (intro take_all) simp
  then have rounds: "fold (sha512_round (map of_nat ?w)) [0..<80] (of_nvars (x0, x1, x2, x3, x4, x5, x6, x7)) =
      of_nvars (fold nround (zip (map unat sha512_k) ?w) (x0, x1, x2, x3, x4, x5, x6, x7))"
    using nrounds [OF vars _ sched(2), of 80] by simp
  obtain a b c d e f g h where v: "fold nround (zip (map unat sha512_k) ?w) (x0, x1, x2, x3, x4, x5, x6, x7) = (a, b, c, d, e, f, g, h)"
    by (rule nvars_cases)
  have "bl808_sec_eng_sha512_process_block (map of_nat hs) block = map of_nat (nblock ws hs)"
    unfolding bl808_sec_eng_sha512_process_block_def words sched nblock_def
    using rounds v by (simp add: of_nvars_def H of_nat_nadd)
  then show ?thesis using process_block [OF block(1)] hs(1) by simp
qed

lemma nsched_numeral: "nsched (numeral n) r = nsched (pred_numeral n) (nsched1 r # r)"
  by (simp add: numeral_eq_Suc)

lemma nred_eval: "nred z = (if z < 0x10000000000000000 then z else if z < 0x20000000000000000 then z - 0x10000000000000000 else z mod 0x10000000000000000)"
  by (simp add: nred_def mod_if)

lemma nrot_eval: "nrot n x = drop_bit n x OR push_bit (64 - n) (x - push_bit n (drop_bit n x))"
  by (simp add: nrot_def push_bit_eq_mult drop_bit_eq_div take_bit_eq_mod minus_div_mult_eq_mod)

lemmas nblock_eval = nblock_def nsched_numeral nsched1_def nadd_def nred_eval nrot_eval sha512_k_def

section \<open>The initial values of SHA-512/t\<close>

text \<open>The standard derives them by hashing the name of the function with a modified SHA-512.\<close>

definition fips_H512 :: "u64 list" where
  "fips_H512 = [0x6a09e667f3bcc908, 0xbb67ae8584caa73b, 0x3c6ef372fe94f82b, 0xa54ff53a5f1d36f1,
     0x510e527fade682d1, 0x9b05688c2b3e6c1f, 0x1f83d9abfb41bd6b, 0x5be0cd19137e2179]"

definition fips_t_iv :: "string \<Rightarrow> u64 list" where
  "fips_t_iv name = fold fips_block (chunks 128 (fips_pad (map of_char name))) (map (\<lambda>h. h XOR 0xa5a5a5a5a5a5a5a5) fips_H512)"

definition iv_seed :: "nat list" where
  "iv_seed = [0xcfac43c256196cad, 0x1ec20b20216f029e, 0x99cb56d75b315d8e, 0x00ea509ffab89354,
     0xf4abf7da08432774, 0x3ea0cd298e9bc9ba, 0xba267c0e5ee418ce, 0xfe4568bcb6db84dc]"

lemma iv_seed: "map (\<lambda>h. h XOR 0xa5a5a5a5a5a5a5a5) fips_H512 = map of_nat iv_seed" "length iv_seed = 8" "\<forall>x \<in> set iv_seed. x < 2 ^ 64"
  by (simp_all add: fips_H512_def iv_seed_def)

lemma short_message:
  assumes "length msg < 112" "map fips_word (chunks 8 (fips_pad msg)) = map of_nat ws" "\<forall>x \<in> set ws. x < 2 ^ 64"
    and "length hs = 8" "\<forall>x \<in> set hs. x < 2 ^ 64"
  shows "fold fips_block (chunks 128 (fips_pad msg)) (map of_nat hs) = map of_nat (nblock ws hs)"
proof -
  have "(239 - length msg) mod 128 = 111 - length msg" using assms(1) by (simp add: mod_if)
  then have len: "length (fips_pad msg) = 128" using assms(1) by (simp add: fips_pad_def)
  then have "chunks 128 (fips_pad msg) = [fips_pad msg]" using chunks_map [of 128 "fips_pad msg" 1] by simp
  moreover have "length (chunks 8 (fips_pad msg)) = 16" using chunks_map [of 8 "fips_pad msg" 16] len by simp
  then have "length ws = 16" using assms(2) by (metis length_map)
  ultimately show ?thesis using nblock_block [OF _ assms(3-5) len assms(2)] by simp
qed

lemma iv_224: "nblock [0x5348412d3531322f, 0x3232348000000000, 0, 0, 0, 0, 0, 0, 0, 0, 0, 0, 0, 0, 0, 0x58] iv_seed =
  [0x8c3d37c819544da2, 0x73e1996689dcd4d6, 0x1dfab7ae32ff9c82, 0x679dd514582f9fcf,
   0x0f6d2b697bd44da8, 0x77e36f7304c48942, 0x3f9d85a86a1d36c8, 0x1112e6ad91d692a1]"
  by (simp add: nblock_eval iv_seed_def)

lemma iv_256: "nblock [0x5348412d3531322f, 0x3235368000000000, 0, 0, 0, 0, 0, 0, 0, 0, 0, 0, 0, 0, 0, 0x58] iv_seed =
  [0x22312194fc2bf72c, 0x9f555fa3c84c64c2, 0x2393b86b6f53b151, 0x963877195940eabd,
   0x96283ee2a88effe3, 0xbe5e1e2553863992, 0x2b0199fc2c85b8aa, 0x0eb72ddc81c52ca2]"
  by (simp add: nblock_eval iv_seed_def)

lemma replicate_numeral: "replicate (numeral n) x = x # replicate (pred_numeral n) x"
  by (simp add: numeral_eq_Suc)

lemma name_words:
  "map fips_word (chunks 8 (fips_pad (map of_char ''SHA-512/224''))) =
    map of_nat [0x5348412d3531322f, 0x3232348000000000, 0, 0, 0, 0, 0, 0, 0, 0, 0, 0, 0, 0, 0, 0x58]"
  "map fips_word (chunks 8 (fips_pad (map of_char ''SHA-512/256''))) =
    map of_nat [0x5348412d3531322f, 0x3235368000000000, 0, 0, 0, 0, 0, 0, 0, 0, 0, 0, 0, 0, 0, 0x58]"
  by (simp_all add: fips_pad_def chunks.simps fips_word_def big_endian_def upt_rec replicate_numeral)

lemma t_iv: "fips_t_iv ''SHA-512/224'' = sha512_224_iv" "fips_t_iv ''SHA-512/256'' = sha512_256_iv"
  using short_message [OF _ name_words(1) _ iv_seed(2,3)] short_message [OF _ name_words(2) _ iv_seed(2,3)]
  unfolding fips_t_iv_def iv_seed(1)
  by (simp_all add: iv_224 iv_256 sha512_224_iv_def sha512_256_iv_def)

section \<open>The digests of the security engine\<close>

text \<open>
  C14. The security engine computes SHA-512/224 and SHA-512/256 as FIPS 180-4 defines them, for
  every message: the digest is the one of the standard, with the initial values that the standard
  derives from the names of the functions and the round constants that are the leading bits of the
  fractional parts of the cube roots of the first eighty primes.
\<close>

theorem sec_sha512t_standard:
  assumes "length msg < 2 ^ 64"
  shows "bl808_sec_eng_sha512_t_hash msg 6 = Some (take 28 (fips_sha512 (fips_t_iv ''SHA-512/224'') msg)) \<and>
    bl808_sec_eng_sha512_t_hash msg 7 = Some (take 32 (fips_sha512 (fips_t_iv ''SHA-512/256'') msg)) \<and>
    list_all2 cube_root_bits fips_primes sha512_k"
  using sha512_k_roots sha512_custom_standard [OF assms]
  by (simp add: bl808_sec_eng_sha512_t_hash_def t_iv sha512_224_iv_def sha512_256_iv_def)

text \<open>The digest of the message \<open>abc\<close> that the examples of the standard give.\<close>

lemma abc_block: "nblock (0x6162638000000000 # replicate 14 0 @ [0x18])
    [0x22312194fc2bf72c, 0x9f555fa3c84c64c2, 0x2393b86b6f53b151, 0x963877195940eabd,
     0x96283ee2a88effe3, 0xbe5e1e2553863992, 0x2b0199fc2c85b8aa, 0x0eb72ddc81c52ca2] =
  [0x53048e2681941ef9, 0x9b2e29b76b4c7dab, 0xe4c2d0c634fc6d46, 0xe0e2f13107e7af23,
   0xe35949b85d8f387, 0x2007b3491c26c06d, 0x82914c0c30ef079b, 0xa3656a19dd7f0618]"
  by (simp add: nblock_eval replicate_numeral)

lemma abc_words: "map fips_word (chunks 8 (fips_pad [0x61, 0x62, 0x63])) = map of_nat (0x6162638000000000 # replicate 14 0 @ [0x18])"
  by (simp add: fips_pad_def chunks.simps fips_word_def big_endian_def upt_rec replicate_numeral)

theorem sec_sha512t_standard_witness:
  "bl808_sec_eng_sha512_t_hash [0x61, 0x62, 0x63] 7 = Some
    [0x53, 0x4, 0x8e, 0x26, 0x81, 0x94, 0x1e, 0xf9, 0x9b, 0x2e, 0x29, 0xb7, 0x6b, 0x4c, 0x7d, 0xab,
     0xe4, 0xc2, 0xd0, 0xc6, 0x34, 0xfc, 0x6d, 0x46, 0xe0, 0xe2, 0xf1, 0x31, 0x7, 0xe7, 0xaf, 0x23]"
proof -
  have "fold fips_block (chunks 128 (fips_pad [0x61, 0x62, 0x63])) sha512_256_iv = map of_nat
    [0x53048e2681941ef9, 0x9b2e29b76b4c7dab, 0xe4c2d0c634fc6d46, 0xe0e2f13107e7af23,
     0xe35949b85d8f387, 0x2007b3491c26c06d, 0x82914c0c30ef079b, 0xa3656a19dd7f0618]"
    using short_message [OF _ abc_words, of "[0x22312194fc2bf72c, 0x9f555fa3c84c64c2, 0x2393b86b6f53b151, 0x963877195940eabd,
       0x96283ee2a88effe3, 0xbe5e1e2553863992, 0x2b0199fc2c85b8aa, 0x0eb72ddc81c52ca2]", unfolded abc_block]
    by (simp add: sha512_256_iv_def)
  then show ?thesis
    using sec_sha512t_standard [of "[0x61, 0x62, 0x63]"] by (simp add: fips_sha512_def t_iv big_endian_def upt_rec)
qed

end
