(* ===== verification/Sec_Aes.thy ===== *)
theory Sec_Aes
  imports Sec_Hash
begin

text \<open>
  The AES path of the security engine, \<open>src/qemu-machine/hw/misc/bl808_sec_eng.c\<close>: counter mode and XTS
  built on a block cipher, ECB and CBC by the library.  QEMU's cipher and hash layers and the
  message authentication of GnuTLS are the record \<open>crypto_ops\<close>, over the types of their handles; a
  call that fails is \<open>None\<close>.  The loop over XTS units is a partial function: it does not end for a
  length that is not a multiple of the block size, which no caller passes.
\<close>

section \<open>The libraries behind the engine\<close>

datatype hash_algo = MD5 | SHA1 | SHA224 | SHA256 | SHA384 | SHA512
datatype cipher_algo = AES_128 | AES_192 | AES_256
datatype cipher_mode = ECB | CBC | CTR | XTS

record ('c, 'h) crypto_ops =
  qcrypto_hash_bytes :: "hash_algo \<Rightarrow> u8 list \<Rightarrow> u8 list option"
  qcrypto_cipher_supports :: "cipher_algo \<Rightarrow> cipher_mode \<Rightarrow> bool"
  qcrypto_cipher_new :: "cipher_algo \<Rightarrow> cipher_mode \<Rightarrow> u8 list \<Rightarrow> 'c option"
  qcrypto_cipher_setiv :: "'c \<Rightarrow> u8 list \<Rightarrow> 'c option"
  qcrypto_cipher_encrypt :: "'c \<Rightarrow> u8 list \<Rightarrow> (u8 list \<times> 'c) option"
  qcrypto_cipher_decrypt :: "'c \<Rightarrow> u8 list \<Rightarrow> (u8 list \<times> 'c) option"
  config_gnutls :: bool
  gmac_nonce_size :: nat
  gnutls_hmac_init :: "u8 list \<Rightarrow> 'h option"
  gnutls_hmac_set_nonce :: "'h \<Rightarrow> u8 list \<Rightarrow> 'h"
  gnutls_hmac :: "'h \<Rightarrow> u8 list \<Rightarrow> 'h option"
  gnutls_hmac_output :: "'h \<Rightarrow> u8 list"

section \<open>Guest memory and byte order\<close>

definition bl808_sec_eng_read_guest :: "hwaddr \<Rightarrow> nat \<Rightarrow> gmem \<Rightarrow> u8 list" where
  "bl808_sec_eng_read_guest a len m = map (\<lambda>i. m (a + of_nat i)) [0..<len]"

definition ldl_le_p :: "u8 list \<Rightarrow> u32" where
  "ldl_le_p b = ucast (b ! 0) OR push_bit 8 (ucast (b ! 1)) OR push_bit 16 (ucast (b ! 2)) OR push_bit 24 (ucast (b ! 3))"

definition stl_le_p :: "u32 \<Rightarrow> u8 list" where
  "stl_le_p v = [ucast v, ucast (drop_bit 8 v), ucast (drop_bit 16 v), ucast (drop_bit 24 v)]"

definition stl_be_p :: "u32 \<Rightarrow> u8 list" where
  "stl_be_p v = [ucast (drop_bit 24 v), ucast (drop_bit 16 v), ucast (drop_bit 8 v), ucast v]"

definition bl808_sec_eng_ldl :: "hwaddr \<Rightarrow> gmem \<Rightarrow> u32" where
  "bl808_sec_eng_ldl a m = ldl_le_p (bl808_sec_eng_read_guest a 4 m)"

section \<open>Block modes\<close>

definition bl808_sec_eng_aes_mode :: "u32 \<Rightarrow> cipher_mode option" where
  "bl808_sec_eng_aes_mode ctrl =
     (let v = drop_bit 12 (ctrl AND 0x3000) in
      if v = 0 then Some ECB else if v = 1 then Some CTR else if v = 2 then Some CBC else if v = 3 then Some XTS else None)"

fun mul_x_loop :: "u8 \<Rightarrow> u8 list \<Rightarrow> u8 list \<times> u8" where
  "mul_x_loop carry_in [] = ([], carry_in)"
| "mul_x_loop carry_in (t # tweak) =
     (let carry_out = drop_bit 7 t; (rest, carry) = mul_x_loop carry_out tweak
      in ((push_bit 1 t OR carry_in) # rest, carry))"

definition bl808_sec_eng_xts_mul_x :: "u8 list \<Rightarrow> u8 list" where
  "bl808_sec_eng_xts_mul_x tweak =
     (let (tweak, carry_out) = mul_x_loop 0 tweak
      in if carry_out \<noteq> 0 then tweak[0 := tweak ! 0 XOR 0x87] else tweak)"

fun bl808_sec_eng_xts_inc_unit :: "u8 list \<Rightarrow> u8 list" where
  "bl808_sec_eng_xts_inc_unit [] = []"
| "bl808_sec_eng_xts_inc_unit (b # unit_iv) =
     (let b = b + 1 in if b \<noteq> 0 then b # unit_iv else b # bl808_sec_eng_xts_inc_unit unit_iv)"

definition ctr_increment :: "u8 list \<Rightarrow> u8 list" where
  "ctr_increment counter = rev (bl808_sec_eng_xts_inc_unit (rev counter))"

text \<open>Counter mode: the input that is left, in steps of 16 bytes.\<close>

function ctr_loop :: "('c, 'h) crypto_ops \<Rightarrow> 'c \<Rightarrow> u8 list \<Rightarrow> u8 list \<Rightarrow> u8 list option" where
  "ctr_loop ops cipher counter data =
     (if data = [] then Some []
      else case qcrypto_cipher_encrypt ops cipher counter of
          None \<Rightarrow> None
        | Some (stream, cipher) \<Rightarrow>
            (case ctr_loop ops cipher (ctr_increment counter) (drop 16 data) of
                None \<Rightarrow> None
              | Some out \<Rightarrow> Some (map2 (XOR) (take 16 data) stream @ out)))"
  by auto
termination by (relation "measure (\<lambda>(ops, cipher, counter, data). length data)") auto

declare ctr_loop.simps [simp del]

text \<open>XTS: \<open>n\<close> blocks of a unit, with the input that is left after them and the handle of the cipher.\<close>

fun xts_blocks :: "('c, 'h) crypto_ops \<Rightarrow> bool \<Rightarrow> nat \<Rightarrow> 'c \<Rightarrow> u8 list \<Rightarrow> u8 list \<Rightarrow> (u8 list \<times> u8 list \<times> 'c) option" where
  "xts_blocks ops dec 0 cipher tweak data = Some ([], data, cipher)"
| "xts_blocks ops dec (Suc n) cipher tweak data =
     (let block = map2 (XOR) (take 16 data) tweak in
      case (if dec then qcrypto_cipher_decrypt ops cipher block else qcrypto_cipher_encrypt ops cipher block) of
          None \<Rightarrow> None
        | Some (crypt, cipher) \<Rightarrow>
            (case xts_blocks ops dec n cipher (if n \<noteq> 0 then bl808_sec_eng_xts_mul_x tweak else tweak) (drop 16 data) of
                None \<Rightarrow> None
              | Some (out, data, cipher) \<Rightarrow> Some (map2 (XOR) crypt tweak @ out, data, cipher)))"

partial_function (option) xts_units ::
  "('c, 'h) crypto_ops \<Rightarrow> bool \<Rightarrow> bool \<Rightarrow> nat \<Rightarrow> nat \<Rightarrow> 'c \<Rightarrow> 'c \<Rightarrow> u8 list \<Rightarrow> u8 list \<Rightarrow> u8 list \<Rightarrow> u8 list option option" where
  "xts_units ops dec single total_blocks unit_blocks crypt_cipher tweak_cipher unit_iv done_out data =
     (if data = [] then Some (Some done_out)
      else
        let blocks_this_unit = (if single then total_blocks else min unit_blocks (length data div 16)) in
        case qcrypto_cipher_encrypt ops tweak_cipher unit_iv of
            None \<Rightarrow> Some None
          | Some (tweak, tweak_cipher) \<Rightarrow>
              (case xts_blocks ops dec blocks_this_unit crypt_cipher tweak data of
                  None \<Rightarrow> Some None
                | Some (out, data, crypt_cipher) \<Rightarrow>
                    xts_units ops dec single total_blocks unit_blocks crypt_cipher tweak_cipher
                      (if \<not> single \<and> data \<noteq> [] then bl808_sec_eng_xts_inc_unit unit_iv else unit_iv) (done_out @ out) data))"

definition aes_ctr :: "('c, 'h) crypto_ops \<Rightarrow> cipher_algo \<Rightarrow> u8 list \<Rightarrow> u8 list \<Rightarrow> u8 list \<Rightarrow> u8 list option" where
  "aes_ctr ops alg key iv data =
     (if \<not> qcrypto_cipher_supports ops alg ECB then None
      else case qcrypto_cipher_new ops alg ECB key of
          None \<Rightarrow> None
        | Some cipher \<Rightarrow> ctr_loop ops cipher iv data)"

definition aes_xts ::
  "('c, 'h) crypto_ops \<Rightarrow> bool \<Rightarrow> cipher_algo \<Rightarrow> u8 list \<Rightarrow> u8 list \<Rightarrow> u16 \<Rightarrow> bool \<Rightarrow> u8 list \<Rightarrow> u8 list option option" where
  "aes_xts ops dec alg key iv xts_unit_len xts_single_unit data =
     (let key_part_len = length key div 2;
          total_blocks = length data div 16;
          unit_blocks = (if xts_unit_len \<noteq> 0 then unat xts_unit_len else total_blocks)
      in if odd (length key) \<or> key_part_len = 0 \<or> \<not> qcrypto_cipher_supports ops alg ECB then Some None
         else case qcrypto_cipher_new ops alg ECB (take key_part_len key) of
             None \<Rightarrow> Some None
           | Some crypt_cipher \<Rightarrow>
               (case qcrypto_cipher_new ops alg ECB (drop key_part_len key) of
                   None \<Rightarrow> Some None
                 | Some tweak_cipher \<Rightarrow>
                     xts_units ops dec xts_single_unit total_blocks unit_blocks crypt_cipher tweak_cipher iv [] data))"

definition aes_library :: "('c, 'h) crypto_ops \<Rightarrow> bool \<Rightarrow> cipher_algo \<Rightarrow> cipher_mode \<Rightarrow> u8 list \<Rightarrow> u8 list \<Rightarrow> u8 list \<Rightarrow> u8 list option" where
  "aes_library ops dec alg mode key iv data =
     (if \<not> qcrypto_cipher_supports ops alg mode then None
      else case qcrypto_cipher_new ops alg mode key of
          None \<Rightarrow> None
        | Some cipher \<Rightarrow>
            (case (if mode \<noteq> ECB then qcrypto_cipher_setiv ops cipher iv else Some cipher) of
                None \<Rightarrow> None
              | Some cipher \<Rightarrow>
                  map_option fst (if dec then qcrypto_cipher_decrypt ops cipher data else qcrypto_cipher_encrypt ops cipher data)))"

text \<open>The outer \<open>None\<close> is a call that does not return, the inner one a call that fails and leaves the memory alone.\<close>

definition bl808_sec_eng_run_aes_crypt ::
  "('c, 'h) crypto_ops \<Rightarrow> u32 \<Rightarrow> hwaddr \<Rightarrow> hwaddr \<Rightarrow> u8 list \<Rightarrow> cipher_algo \<Rightarrow> u8 list \<Rightarrow> u16 \<Rightarrow> bool \<Rightarrow> nat \<Rightarrow> gmem \<Rightarrow> gmem option option" where
  "bl808_sec_eng_run_aes_crypt ops ctrl src dst key alg iv xts_unit_len xts_single_unit data_len m =
     (let data = bl808_sec_eng_read_guest src data_len m; dec = tst ctrl 0x20 in
      case bl808_sec_eng_aes_mode ctrl of
          None \<Rightarrow> Some None
        | Some mode \<Rightarrow>
            map_option (map_option (\<lambda>out. store_bytes dst out m))
              (if mode = CTR then Some (aes_ctr ops alg key iv data)
               else if mode = XTS then aes_xts ops dec alg key iv xts_unit_len xts_single_unit data
               else Some (aes_library ops dec alg mode key iv data)))"

end
