(* ===== verification/Sec_Eng.thy ===== *)
theory Sec_Eng
  imports Sec_Aes
begin

text \<open>
  The security engine, \<open>src/qemu-machine/hw/misc/bl808_sec_eng.c\<close>: six engines (SHA with CRC, AES, TRNG, PKA,
  CDET, GMAC) behind one window of registers, each with an interrupt that goes to the owners of the
  engine.  The register array is a function of the word index.  The buffer of the message hashed so
  far is the list of its bytes, with the capacity allocated for it; an absent list of efuse words is the
  null pointer.  Operations on guest memory pass it along.
\<close>

section \<open>State\<close>

abbreviation (input) R_SHA_CTRL :: nat where "R_SHA_CTRL \<equiv> 0"
abbreviation (input) R_SHA_MSA :: nat where "R_SHA_MSA \<equiv> 1"
abbreviation (input) R_SHA_STATUS :: nat where "R_SHA_STATUS \<equiv> 2"
abbreviation (input) R_SHA_ENDIAN :: nat where "R_SHA_ENDIAN \<equiv> 3"
abbreviation (input) R_SHA_HASH_L :: nat where "R_SHA_HASH_L \<equiv> 4"
abbreviation (input) R_SHA_HASH_H :: nat where "R_SHA_HASH_H \<equiv> 12"
abbreviation (input) R_SHA_LINK :: nat where "R_SHA_LINK \<equiv> 20"
abbreviation (input) R_SHA_PROT :: nat where "R_SHA_PROT \<equiv> 63"
abbreviation (input) R_AES_CTRL :: nat where "R_AES_CTRL \<equiv> 64"
abbreviation (input) R_AES_MSA :: nat where "R_AES_MSA \<equiv> 65"
abbreviation (input) R_AES_MDA :: nat where "R_AES_MDA \<equiv> 66"
abbreviation (input) R_AES_STATUS :: nat where "R_AES_STATUS \<equiv> 67"
abbreviation (input) R_AES_IV_0 :: nat where "R_AES_IV_0 \<equiv> 68"
abbreviation (input) R_AES_IV_3 :: nat where "R_AES_IV_3 \<equiv> 71"
abbreviation (input) R_AES_KEY_0 :: nat where "R_AES_KEY_0 \<equiv> 72"
abbreviation (input) R_AES_KEY_SEL_0 :: nat where "R_AES_KEY_SEL_0 \<equiv> 80"
abbreviation (input) R_AES_KEY_SEL_1 :: nat where "R_AES_KEY_SEL_1 \<equiv> 81"
abbreviation (input) R_AES_ENDIAN :: nat where "R_AES_ENDIAN \<equiv> 82"
abbreviation (input) R_AES_SBOOT :: nat where "R_AES_SBOOT \<equiv> 83"
abbreviation (input) R_AES_LINK :: nat where "R_AES_LINK \<equiv> 84"
abbreviation (input) R_AES_PROT :: nat where "R_AES_PROT \<equiv> 127"
abbreviation (input) R_TRNG_CTRL :: nat where "R_TRNG_CTRL \<equiv> 128"
abbreviation (input) R_TRNG_STATUS :: nat where "R_TRNG_STATUS \<equiv> 129"
abbreviation (input) R_TRNG_DOUT :: nat where "R_TRNG_DOUT \<equiv> 130"
abbreviation (input) R_TRNG_PROT :: nat where "R_TRNG_PROT \<equiv> 191"
abbreviation (input) R_PKA_CTRL :: nat where "R_PKA_CTRL \<equiv> 192"
abbreviation (input) R_PKA_PROT :: nat where "R_PKA_PROT \<equiv> 255"
abbreviation (input) R_CDET_CTRL :: nat where "R_CDET_CTRL \<equiv> 256"
abbreviation (input) R_CDET_PROT :: nat where "R_CDET_PROT \<equiv> 319"
abbreviation (input) R_GMAC_CTRL :: nat where "R_GMAC_CTRL \<equiv> 320"
abbreviation (input) R_GMAC_LCA :: nat where "R_GMAC_LCA \<equiv> 321"
abbreviation (input) R_GMAC_STATUS :: nat where "R_GMAC_STATUS \<equiv> 322"
abbreviation (input) R_GMAC_PROT :: nat where "R_GMAC_PROT \<equiv> 383"
abbreviation (input) R_CTRL_PROT_RD :: nat where "R_CTRL_PROT_RD \<equiv> 960"

record BL808SecEngState =
  irq_id1_shared :: bool
  irq_id0_shared :: bool
  irq_id1_cdet :: bool
  irq_id0_cdet :: bool
  sec_regs :: "nat \<Rightarrow> u32"
  sha_accum :: "u8 list"
  sha_accum_cap :: nat
  trng_state :: u64
  efuse_shadow :: "u32 list option"

definition set_reg :: "nat \<Rightarrow> u32 \<Rightarrow> BL808SecEngState \<Rightarrow> BL808SecEngState" where
  "set_reg i v s = s\<lparr>sec_regs := (sec_regs s)(i := v)\<rparr>"

section \<open>Owners and interrupts\<close>

definition bl808_sec_eng_pair_from_bits :: "u32 \<Rightarrow> u32 \<Rightarrow> u32 \<Rightarrow> u32" where
  "bl808_sec_eng_pair_from_bits v id0_bit id1_bit = (if tst v id0_bit then 1 else 0) OR (if tst v id1_bit then 2 else 0)"

definition bl808_sec_eng_update_ctrl_prot :: "BL808SecEngState \<Rightarrow> BL808SecEngState" where
  "bl808_sec_eng_update_ctrl_prot s =
     (let pair = (\<lambda>i. bl808_sec_eng_pair_from_bits (sec_regs s i) 2 4);
          prot = pair R_SHA_PROT OR push_bit 2 (pair R_AES_PROT) OR push_bit 4 (pair R_TRNG_PROT) OR
                 push_bit 6 (pair R_PKA_PROT) OR push_bit 8 (pair R_CDET_PROT) OR push_bit 10 (pair R_GMAC_PROT)
      in set_reg R_CTRL_PROT_RD prot s)"

definition bl808_sec_eng_set_owner :: "hwaddr \<Rightarrow> u32 \<Rightarrow> BL808SecEngState \<Rightarrow> BL808SecEngState" where
  "bl808_sec_eng_set_owner offset v s =
     (let reg = v AND 7 in
      if offset \<in> {0x0fc, 0x1fc, 0x2fc, 0x3fc, 0x5fc} then bl808_sec_eng_update_ctrl_prot (set_reg (unat offset div 4) (reg AND 6) s)
      else if offset = 0x4fc then bl808_sec_eng_update_ctrl_prot (set_reg (unat offset div 4) reg s)
      else s)"

definition bl808_sec_eng_owner_pair :: "BL808SecEngState \<Rightarrow> nat \<Rightarrow> u32" where
  "bl808_sec_eng_owner_pair s shift = drop_bit shift (sec_regs s R_CTRL_PROT_RD) AND 3"

definition engine_pending :: "BL808SecEngState \<Rightarrow> nat \<Rightarrow> bool" where
  "engine_pending s i \<longleftrightarrow> sec_regs s i AND (0x100 OR 0x800) = 0x100"

text \<open>The engines that share a line: control register and position of the owner pair.\<close>

definition shared_engines :: "(nat \<times> nat) list" where
  "shared_engines = [(R_AES_CTRL, 2), (R_SHA_CTRL, 0), (R_TRNG_CTRL, 4), (R_PKA_CTRL, 6), (R_GMAC_CTRL, 10)]"

definition owner_level :: "BL808SecEngState \<Rightarrow> u32 \<Rightarrow> (nat \<times> nat) list \<Rightarrow> bool" where
  "owner_level s owner engines = list_ex (\<lambda>(i, shift). engine_pending s i \<and> tst (bl808_sec_eng_owner_pair s shift) owner) engines"

definition bl808_sec_eng_update_irq :: "BL808SecEngState \<Rightarrow> BL808SecEngState" where
  "bl808_sec_eng_update_irq s =
     s\<lparr>irq_id1_shared := owner_level s 2 shared_engines, irq_id0_shared := owner_level s 1 shared_engines,
       irq_id1_cdet := owner_level s 2 [(R_CDET_CTRL, 8)], irq_id0_cdet := owner_level s 1 [(R_CDET_CTRL, 8)]\<rparr>"

section \<open>The message buffer\<close>

definition bl808_sec_eng_sha_accum_reset :: "BL808SecEngState \<Rightarrow> BL808SecEngState" where
  "bl808_sec_eng_sha_accum_reset s = s\<lparr>sha_accum := [], sha_accum_cap := 0\<rparr>"

function grow_cap :: "nat \<Rightarrow> nat \<Rightarrow> nat" where
  "grow_cap new_cap new_len = (if new_cap < new_len \<and> 0 < new_cap then grow_cap (2 * new_cap) new_len else new_cap)"
  by auto
termination by (relation "measure (\<lambda>(new_cap, new_len). new_len - new_cap)") auto

declare grow_cap.simps [simp del]

definition bl808_sec_eng_sha_accum_append :: "u8 list \<Rightarrow> BL808SecEngState \<Rightarrow> BL808SecEngState" where
  "bl808_sec_eng_sha_accum_append buf s =
     (let new_len = length (sha_accum s) + length buf;
          cap = (if new_len > sha_accum_cap s then grow_cap (max 256 (sha_accum_cap s)) new_len else sha_accum_cap s)
      in s\<lparr>sha_accum := sha_accum s @ buf, sha_accum_cap := cap\<rparr>)"

section \<open>SHA and CRC\<close>

definition bl808_sec_eng_store_words_le :: "nat \<Rightarrow> u8 list \<Rightarrow> nat \<Rightarrow> BL808SecEngState \<Rightarrow> BL808SecEngState" where
  "bl808_sec_eng_store_words_le base buf max_words s =
     (let tmp = take 64 buf @ replicate (64 - length buf) 0
      in fold (\<lambda>i. set_reg (base + i) (ldl_le_p (drop (i * 4) tmp))) [0..<max_words] s)"

definition bl808_sec_eng_sha_mode :: "u32 \<Rightarrow> u32" where
  "bl808_sec_eng_sha_mode ctrl = drop_bit 2 (ctrl AND 0x1C)"

definition bl808_sec_eng_sha_mode_ext :: "u32 \<Rightarrow> u32" where
  "bl808_sec_eng_sha_mode_ext ctrl = drop_bit 12 (ctrl AND 0x3000)"

definition bl808_sec_eng_sha_is_64bit :: "u32 \<Rightarrow> bool" where
  "bl808_sec_eng_sha_is_64bit ctrl \<longleftrightarrow> bl808_sec_eng_sha_mode ctrl \<in> {4, 5, 6, 7}"

definition bl808_sec_eng_clear_sha_output :: "BL808SecEngState \<Rightarrow> BL808SecEngState" where
  "bl808_sec_eng_clear_sha_output s = fold (\<lambda>i. set_reg (R_SHA_HASH_L + i) 0) [0..<16] s"

definition bl808_sec_eng_store_sha_output :: "u32 \<Rightarrow> u8 list \<Rightarrow> BL808SecEngState \<Rightarrow> BL808SecEngState" where
  "bl808_sec_eng_store_sha_output ctrl digest s =
     (let words = (length digest + 3) div 4; s = bl808_sec_eng_clear_sha_output s in
      if \<not> bl808_sec_eng_sha_is_64bit ctrl then bl808_sec_eng_store_words_le R_SHA_HASH_L digest 16 s
      else fold (\<lambda>i s.
          let chunk = take 4 (drop (i * 4) digest); word_buf = chunk @ replicate (4 - length chunk) 0;
              reg = (if even i then R_SHA_HASH_H + i div 2 else R_SHA_HASH_L + i div 2)
          in set_reg reg (ldl_le_p word_buf) s) [0..<words] s)"

definition bl808_sec_eng_store_sha_link_output :: "hwaddr \<Rightarrow> u8 list \<Rightarrow> gmem \<Rightarrow> gmem" where
  "bl808_sec_eng_store_sha_link_output link_addr digest m =
     (let m = store_bytes (link_addr + 8) (replicate 64 0) m
      in if digest \<noteq> [] then store_bytes (link_addr + 8) digest m else m)"

definition bl808_sec_eng_sha_hash :: "('c, 'h) crypto_ops \<Rightarrow> u32 \<Rightarrow> u8 list \<Rightarrow> u8 list option" where
  "bl808_sec_eng_sha_hash ops ctrl accum =
     (let mode = bl808_sec_eng_sha_mode ctrl; mode_ext = bl808_sec_eng_sha_mode_ext ctrl in
      if mode_ext = 1 then qcrypto_hash_bytes ops MD5 accum
      else if mode_ext = 2 \<or> mode_ext = 3 then None
      else if mode_ext \<noteq> 0 then None
      else if mode = 0 then qcrypto_hash_bytes ops SHA256 accum
      else if mode = 1 then qcrypto_hash_bytes ops SHA224 accum
      else if mode = 2 \<or> mode = 3 then qcrypto_hash_bytes ops SHA1 accum
      else if mode = 4 then qcrypto_hash_bytes ops SHA512 accum
      else if mode = 5 then qcrypto_hash_bytes ops SHA384 accum
      else if mode = 6 \<or> mode = 7 then bl808_sec_eng_sha512_t_hash accum mode
      else None)"

definition bl808_sec_eng_sha_block_bytes :: "u32 \<Rightarrow> nat" where
  "bl808_sec_eng_sha_block_bytes ctrl =
     (let mode_ext = bl808_sec_eng_sha_mode_ext ctrl; mode = bl808_sec_eng_sha_mode ctrl in
      if mode_ext = 1 then 64 else if mode_ext = 2 \<or> mode_ext = 3 then 4
      else if mode \<in> {4, 5, 6, 7} then 128 else 64)"

definition crc_width :: "u32 \<Rightarrow> nat option" where
  "crc_width mode_ext = (if mode_ext = 2 then Some 16 else if mode_ext = 3 then Some 32 else None)"

definition msg_blocks :: "u32 \<Rightarrow> nat" where
  "msg_blocks ctrl = unat (drop_bit 16 (ctrl AND 0xFFFF0000))"

definition bl808_sec_eng_run_crc_link :: "hwaddr \<Rightarrow> u32 \<Rightarrow> gmem \<Rightarrow> BL808SecEngState \<Rightarrow> (BL808SecEngState \<times> gmem) option" where
  "bl808_sec_eng_run_crc_link link_addr ctrl m s =
     (let total_len = msg_blocks ctrl * 4;
          src = ucast (bl808_sec_eng_ldl (link_addr + 4) m);
          poly = bl808_sec_eng_ldl (link_addr + 8) m;
          crc_ctrl = bl808_sec_eng_ldl (link_addr + 12) m;
          iv_and_hash = bl808_sec_eng_ldl (link_addr + 16) m;
          dout_inv = tst crc_ctrl 1; dout_ref = tst crc_ctrl 2; din_ref = tst crc_ctrl 4
      in case crc_width (bl808_sec_eng_sha_mode_ext ctrl) of
          None \<Rightarrow> None
        | Some width \<Rightarrow>
            let crc = (if tst ctrl 0x40 then bl808_sec_eng_crc_restore_state width iv_and_hash din_ref dout_ref dout_inv
                       else iv_and_hash AND bl808_sec_eng_crc_mask width);
                data = bl808_sec_eng_read_guest src total_len m;
                crc = bl808_sec_eng_crc_update data width poly crc din_ref;
                crc = bl808_sec_eng_crc_finalize width crc din_ref dout_ref dout_inv
            in Some (set_reg R_SHA_HASH_L crc (bl808_sec_eng_clear_sha_output s), store_bytes (link_addr + 16) (stl_le_p crc) m))"

definition bl808_sec_eng_run_crc_direct :: "u32 \<Rightarrow> gmem \<Rightarrow> BL808SecEngState \<Rightarrow> BL808SecEngState option" where
  "bl808_sec_eng_run_crc_direct ctrl m s =
     (let total_len = msg_blocks ctrl * 4; src = ucast (sec_regs s R_SHA_MSA) in
      case (if bl808_sec_eng_sha_mode_ext ctrl = 2 then Some (16, 0x8005, False, True, True, 0xffff)
            else if bl808_sec_eng_sha_mode_ext ctrl = 3 then Some (32, 0x04c11db7, True, True, True, 0xffffffff)
            else None) of
          None \<Rightarrow> None
        | Some (width, poly, dout_inv, dout_ref, din_ref, crc) \<Rightarrow>
            let crc = (if tst ctrl 0x40 then bl808_sec_eng_crc_restore_state width (sec_regs s R_SHA_HASH_L) din_ref dout_ref dout_inv else crc);
                data = bl808_sec_eng_read_guest src total_len m;
                crc = bl808_sec_eng_crc_update data width poly crc din_ref;
                crc = bl808_sec_eng_crc_finalize width crc din_ref dout_ref dout_inv
            in Some (set_reg R_SHA_HASH_L crc (bl808_sec_eng_clear_sha_output s)))"

definition bl808_sec_eng_complete_sha :: "u32 \<Rightarrow> BL808SecEngState \<Rightarrow> BL808SecEngState" where
  "bl808_sec_eng_complete_sha ctrl s = set_reg R_SHA_CTRL ((ctrl AND NOT 1 AND NOT 2) OR 0x100) s"

definition sha_finish :: "u32 \<Rightarrow> BL808SecEngState \<Rightarrow> BL808SecEngState" where
  "sha_finish ctrl s = bl808_sec_eng_update_irq (bl808_sec_eng_complete_sha ctrl (set_reg R_SHA_STATUS 0 s))"

definition sha_accumulate :: "u32 \<Rightarrow> hwaddr \<Rightarrow> gmem \<Rightarrow> BL808SecEngState \<Rightarrow> BL808SecEngState" where
  "sha_accumulate ctrl src m s =
     (let total_len = msg_blocks ctrl * bl808_sec_eng_sha_block_bytes ctrl;
          s = (if \<not> tst ctrl 0x40 then bl808_sec_eng_sha_accum_reset s else s)
      in bl808_sec_eng_sha_accum_append (bl808_sec_eng_read_guest src total_len m) s)"

definition run_sha_link :: "('c, 'h) crypto_ops \<Rightarrow> u32 \<Rightarrow> gmem \<Rightarrow> BL808SecEngState \<Rightarrow> BL808SecEngState \<times> gmem" where
  "run_sha_link ops ctrl m s =
     (let link_addr = ucast (sec_regs s R_SHA_LINK);
          work_ctrl = bl808_sec_eng_ldl link_addr m;
          mode_ext = bl808_sec_eng_sha_mode_ext work_ctrl
      in if mode_ext = 2 \<or> mode_ext = 3
         then case bl808_sec_eng_run_crc_link link_addr work_ctrl m s of
             None \<Rightarrow> (sha_finish ctrl (bl808_sec_eng_clear_sha_output s), m)
           | Some (s, m) \<Rightarrow> (sha_finish ctrl s, m)
         else let s = sha_accumulate work_ctrl (ucast (bl808_sec_eng_ldl (link_addr + 4) m)) m s
              in case bl808_sec_eng_sha_hash ops work_ctrl (sha_accum s) of
                  Some digest \<Rightarrow>
                    (sha_finish ctrl (bl808_sec_eng_store_sha_output work_ctrl digest s), bl808_sec_eng_store_sha_link_output link_addr digest m)
                | None \<Rightarrow> (sha_finish ctrl (bl808_sec_eng_clear_sha_output s), bl808_sec_eng_store_sha_link_output link_addr [] m))"

definition run_sha_direct :: "('c, 'h) crypto_ops \<Rightarrow> u32 \<Rightarrow> gmem \<Rightarrow> BL808SecEngState \<Rightarrow> BL808SecEngState" where
  "run_sha_direct ops ctrl m s =
     (let mode_ext = bl808_sec_eng_sha_mode_ext ctrl in
      if mode_ext = 2 \<or> mode_ext = 3
      then case bl808_sec_eng_run_crc_direct ctrl m s of
          None \<Rightarrow> sha_finish ctrl (bl808_sec_eng_clear_sha_output s)
        | Some s \<Rightarrow> sha_finish ctrl s
      else let s = sha_accumulate ctrl (ucast (sec_regs s R_SHA_MSA)) m s
           in case bl808_sec_eng_sha_hash ops ctrl (sha_accum s) of
               Some digest \<Rightarrow> sha_finish ctrl (bl808_sec_eng_store_sha_output ctrl digest s)
             | None \<Rightarrow> sha_finish ctrl (bl808_sec_eng_clear_sha_output s))"

definition bl808_sec_eng_run_sha :: "('c, 'h) crypto_ops \<Rightarrow> u32 \<Rightarrow> gmem \<Rightarrow> BL808SecEngState \<Rightarrow> BL808SecEngState \<times> gmem" where
  "bl808_sec_eng_run_sha ops ctrl m s = (if tst ctrl 0x8000 then run_sha_link ops ctrl m s else (run_sha_direct ops ctrl m s, m))"

section \<open>AES\<close>

definition bl808_sec_eng_hw_key_slot_offset :: "u32 \<Rightarrow> nat option" where
  "bl808_sec_eng_hw_key_slot_offset slot =
     (if slot = 0 then Some 0x1c else if slot = 1 then Some 0x2c else if slot = 2 then Some 0x3c
      else if slot = 3 then Some 0x4c else if slot = 4 then Some 0x80 else if slot = 5 then Some 0x90 else None)"

definition bl808_sec_eng_load_hw_key_slot :: "BL808SecEngState \<Rightarrow> u32 \<Rightarrow> nat \<Rightarrow> u8 list option" where
  "bl808_sec_eng_load_hw_key_slot s slot key_len =
     (let words = (key_len + 3) div 4 in
      case (efuse_shadow s, bl808_sec_eng_hw_key_slot_offset slot) of
          (Some shadow, Some offset) \<Rightarrow>
            let word_base = offset div 4 in
            if word_base + words > length shadow then None
            else Some (concat (map (\<lambda>i. stl_le_p (shadow ! (word_base + i))) [0..<words]))
        | _ \<Rightarrow> None)"

definition both_halves :: "u8 list option \<Rightarrow> u8 list option \<Rightarrow> u8 list option" where
  "both_halves a b = (case a of None \<Rightarrow> None | Some x \<Rightarrow> map_option ((@) x) b)"

definition key_mode :: "u32 \<Rightarrow> u32" where
  "key_mode ctrl = drop_bit 3 (ctrl AND 0x18)"

definition bl808_sec_eng_build_aes_key_regs :: "u32 \<Rightarrow> BL808SecEngState \<Rightarrow> (u8 list \<times> cipher_algo) option" where
  "bl808_sec_eng_build_aes_key_regs ctrl s =
     (let key = (\<lambda>reg_key_len. concat (map (\<lambda>i. stl_le_p (sec_regs s (R_AES_KEY_0 + i))) [0..<(reg_key_len + 3) div 4])) in
      case bl808_sec_eng_aes_mode ctrl of
          None \<Rightarrow> None
        | Some mode \<Rightarrow>
            if mode = XTS
            then if key_mode ctrl = 0 then Some (key 32, AES_128)
                 else if key_mode ctrl = 1 then Some (key 32 @ key 32, AES_256)
                 else if key_mode ctrl = 2 then Some (key 24 @ key 24, AES_192)
                 else if key_mode ctrl = 3 then Some (key 32, AES_128)
                 else None
            else if key_mode ctrl = 0 then Some (key 16, AES_128)
                 else if key_mode ctrl = 1 then Some (key 32, AES_256)
                 else if key_mode ctrl = 2 then Some (key 24, AES_192)
                 else None)"

definition bl808_sec_eng_build_aes_hw_key :: "u32 \<Rightarrow> BL808SecEngState \<Rightarrow> (u8 list \<times> cipher_algo) option" where
  "bl808_sec_eng_build_aes_hw_key ctrl s =
     (let keysel0 = sec_regs s R_AES_KEY_SEL_0 AND 3; keysel1 = sec_regs s R_AES_KEY_SEL_1 AND 3;
          both = both_halves (bl808_sec_eng_load_hw_key_slot s keysel0 16) (bl808_sec_eng_load_hw_key_slot s keysel1 16)
      in if tst (sec_regs s R_AES_SBOOT) 1 then None
         else case bl808_sec_eng_aes_mode ctrl of
             None \<Rightarrow> None
           | Some mode \<Rightarrow>
               if mode = XTS
               then if key_mode ctrl = 0 \<or> key_mode ctrl = 3 then map_option (\<lambda>key. (key, AES_128)) both else None
               else if key_mode ctrl = 0 then map_option (\<lambda>key. (key, AES_128)) (bl808_sec_eng_load_hw_key_slot s keysel0 16)
               else if key_mode ctrl = 1 then map_option (\<lambda>key. (key, AES_256)) both
               else None)"

definition bl808_sec_eng_build_iv_regs :: "u32 \<Rightarrow> BL808SecEngState \<Rightarrow> u8 list" where
  "bl808_sec_eng_build_iv_regs ctrl s =
     (case bl808_sec_eng_aes_mode ctrl of
          None \<Rightarrow> replicate 16 0
        | Some mode \<Rightarrow>
            if mode = XTS then concat (map (\<lambda>i. stl_be_p (sec_regs s (R_AES_IV_3 - i))) [0..<4])
            else concat (map (\<lambda>i. stl_le_p (sec_regs s (R_AES_IV_0 + i))) [0..<4]))"

definition bl808_sec_eng_build_aes_link_key :: "hwaddr \<Rightarrow> bool \<Rightarrow> u32 \<Rightarrow> gmem \<Rightarrow> (u8 list \<times> cipher_algo) option" where
  "bl808_sec_eng_build_aes_link_key link xts mode m =
     (let part = (\<lambda>base len. concat (map (\<lambda>i. stl_be_p (bl808_sec_eng_ldl (link + base + of_nat (i * 4)) m)) [0..<(len + 3) div 4])) in
      if xts
      then if mode = 0 \<or> mode = 3 then Some (part 28 16 @ part 64 16, AES_128)
           else if mode = 1 then Some (part 28 32 @ part 64 32, AES_256)
           else if mode = 2 then Some (part 28 24 @ part 64 24, AES_192)
           else None
      else if mode = 0 then Some (part 28 16, AES_128)
           else if mode = 1 then Some (part 28 32, AES_256)
           else if mode = 2 then Some (part 28 24, AES_192)
           else None)"

definition bl808_sec_eng_complete_aes :: "u32 \<Rightarrow> BL808SecEngState \<Rightarrow> BL808SecEngState" where
  "bl808_sec_eng_complete_aes ctrl s =
     bl808_sec_eng_update_irq (set_reg R_AES_STATUS 0 (set_reg R_AES_CTRL ((ctrl AND NOT 1 AND NOT 2) OR 0x100) s))"

text \<open>What an AES operation works on, from a descriptor in memory or from the registers.\<close>

record aes_job =
  job_key :: "u8 list"
  job_alg :: cipher_algo
  job_iv :: "u8 list"
  job_unit_len :: u16
  job_single :: bool
  job_src :: hwaddr
  job_dst :: hwaddr

definition aes_link_ctrl :: "u32 \<Rightarrow> u32 \<Rightarrow> u32" where
  "aes_link_ctrl ctrl link_ctrl =
     (let block_mode = drop_bit 12 link_ctrl AND 3; mode = drop_bit 3 link_ctrl AND 3
      in (ctrl AND NOT (0x3000 OR 0x18 OR 0x20 OR 0xFFFF0000)) OR (push_bit 12 block_mode AND 0x3000) OR (push_bit 3 mode AND 0x18) OR
         (if tst link_ctrl 0x20 then 0x20 else 0) OR (link_ctrl AND 0xFFFF0000))"

definition aes_link_job :: "u32 \<Rightarrow> u32 \<Rightarrow> hwaddr \<Rightarrow> gmem \<Rightarrow> BL808SecEngState \<Rightarrow> aes_job option" where
  "aes_link_job ctrl link_ctrl link m s =
     (let xts = drop_bit 12 link_ctrl AND 3 = 3; mode = drop_bit 3 link_ctrl AND 3 in
      case bl808_sec_eng_aes_mode ctrl of
          None \<Rightarrow> None
        | Some _ \<Rightarrow>
            map_option (\<lambda>(key, alg).
              \<lparr>job_key = key, job_alg = alg, job_iv = concat (map (\<lambda>i. stl_be_p (bl808_sec_eng_ldl (link + 12 + of_nat (i * 4)) m)) [0..<4]),
               job_unit_len = (if xts then ucast (drop_bit 16 (bl808_sec_eng_ldl (link + 60) m)) else 0),
               job_single = (xts \<and> tst link_ctrl 0x8000),
               job_src = ucast (bl808_sec_eng_ldl (link + 4) m), job_dst = ucast (bl808_sec_eng_ldl (link + 8) m)\<rparr>)
              (if tst link_ctrl 0x80 then bl808_sec_eng_build_aes_hw_key ctrl s else bl808_sec_eng_build_aes_link_key link xts mode m))"

definition aes_reg_job :: "u32 \<Rightarrow> BL808SecEngState \<Rightarrow> aes_job option" where
  "aes_reg_job ctrl s =
     (let sboot = sec_regs s R_AES_SBOOT; xts = drop_bit 12 (ctrl AND 0x3000) = 3 in
      map_option (\<lambda>(key, alg).
        \<lparr>job_key = key, job_alg = alg, job_iv = bl808_sec_eng_build_iv_regs ctrl s,
         job_unit_len = (if xts then ucast (drop_bit 16 sboot AND 0xFFFF) else 0), job_single = (xts \<and> tst sboot 0x8000),
         job_src = ucast (sec_regs s R_AES_MSA), job_dst = ucast (sec_regs s R_AES_MDA)\<rparr>)
        (if tst ctrl 0x80 then bl808_sec_eng_build_aes_hw_key ctrl s else bl808_sec_eng_build_aes_key_regs ctrl s))"

text \<open>\<open>None\<close> is an operation that does not return.\<close>

definition bl808_sec_eng_run_aes :: "('c, 'h) crypto_ops \<Rightarrow> u32 \<Rightarrow> gmem \<Rightarrow> BL808SecEngState \<Rightarrow> (BL808SecEngState \<times> gmem) option" where
  "bl808_sec_eng_run_aes ops ctrl m s =
     (let link = ucast (sec_regs s R_AES_LINK); link_ctrl = bl808_sec_eng_ldl link m;
          linked = tst ctrl 0x8000;
          ctrl = (if linked then aes_link_ctrl ctrl link_ctrl else ctrl);
          job = (if linked then aes_link_job ctrl link_ctrl link m s else aes_reg_job ctrl s);
          data_len = unat (drop_bit 16 (ctrl AND 0xFFFF0000) * 16)
      in case job of
          None \<Rightarrow> Some (bl808_sec_eng_complete_aes ctrl s, m)
        | Some j \<Rightarrow>
            if data_len = 0 then Some (bl808_sec_eng_complete_aes ctrl s, m)
            else map_option (\<lambda>m'. (bl808_sec_eng_complete_aes ctrl s, case m' of None \<Rightarrow> m | Some m' \<Rightarrow> m'))
              (bl808_sec_eng_run_aes_crypt ops ctrl (job_src j) (job_dst j) (job_key j) (job_alg j) (job_iv j) (job_unit_len j) (job_single j) data_len m))"

section \<open>Random numbers and message authentication\<close>

definition bl808_sec_eng_rand32 :: "BL808SecEngState \<Rightarrow> u32 \<times> BL808SecEngState" where
  "bl808_sec_eng_rand32 s =
     (let x = trng_state s; x = x XOR drop_bit 12 x; x = x XOR push_bit 25 x; x = x XOR drop_bit 27 x
      in (ucast (drop_bit 32 (x * 2685821657736338717)), s\<lparr>trng_state := x\<rparr>))"

definition bl808_sec_eng_run_trng :: "u32 \<Rightarrow> BL808SecEngState \<Rightarrow> BL808SecEngState" where
  "bl808_sec_eng_run_trng ctrl s =
     (let s = fold (\<lambda>i s. let (v, s) = bl808_sec_eng_rand32 s in set_reg (R_TRNG_DOUT + i) v s) [0..<8] s
      in bl808_sec_eng_update_irq (set_reg R_TRNG_CTRL ((ctrl AND NOT 3) OR 0x100) (set_reg R_TRNG_STATUS 1 s)))"

definition bl808_sec_eng_run_gmac_link :: "('c, 'h) crypto_ops \<Rightarrow> gmem \<Rightarrow> BL808SecEngState \<Rightarrow> gmem" where
  "bl808_sec_eng_run_gmac_link ops m s =
     (if \<not> config_gnutls ops then m
      else
        let link_addr = ucast (sec_regs s R_GMAC_LCA);
            link_ctrl = bl808_sec_eng_ldl link_addr m;
            src = ucast (bl808_sec_eng_ldl (link_addr + 4) m);
            data_len = unat ((drop_bit 16 link_ctrl AND 0xFFFF) * 16);
            key = concat (map (\<lambda>i. stl_le_p (bl808_sec_eng_ldl (link_addr + 8 + of_nat (i * 4)) m)) [0..<4]);
            data = bl808_sec_eng_read_guest src data_len m;
            tag = (if gmac_nonce_size ops > 16 then replicate 16 0
                   else case gnutls_hmac_init ops key of
                       None \<Rightarrow> replicate 16 0
                     | Some hmac \<Rightarrow>
                         (case gnutls_hmac ops (gnutls_hmac_set_nonce ops hmac (replicate (gmac_nonce_size ops) 0)) data of
                             None \<Rightarrow> replicate 16 0
                           | Some hmac \<Rightarrow> take 16 (gnutls_hmac_output ops hmac)))
        in store_bytes (link_addr + 0x18) tag m)"

section \<open>Register accesses\<close>

definition bl808_sec_eng_read :: "hwaddr \<Rightarrow> nat \<Rightarrow> BL808SecEngState \<Rightarrow> u64" where
  "bl808_sec_eng_read offset access_size s =
     (if access_size \<noteq> 4 then 0
      else if tst offset 3 \<or> offset \<ge> 0x1000 then 0
      else ucast (sec_regs s (unat offset div 4)))"

text \<open>The interrupt bits of a control register: clear, then set, on request.\<close>

definition int_bits :: "u32 \<Rightarrow> u32 \<Rightarrow> u32" where
  "int_bits v ctrl =
     (let ctrl = (if tst v 0x200 then ctrl AND NOT 0x100 else ctrl)
      in if tst v 0x400 then ctrl OR 0x100 else ctrl)"

definition bl808_sec_eng_write_sha :: "('c, 'h) crypto_ops \<Rightarrow> u32 \<Rightarrow> gmem \<Rightarrow> BL808SecEngState \<Rightarrow> BL808SecEngState \<times> gmem" where
  "bl808_sec_eng_write_sha ops v m s =
     (let ctrl = int_bits v ((sec_regs s R_SHA_CTRL AND NOT 0xFFFFB87C) OR (v AND 0xFFFFB87C)) in
      if tst v 2 then let ctrl = ctrl OR 1 in bl808_sec_eng_run_sha ops ctrl m (set_reg R_SHA_CTRL ctrl s)
      else (bl808_sec_eng_update_irq (set_reg R_SHA_CTRL (ctrl AND NOT 3) s), m))"

definition bl808_sec_eng_write_aes :: "('c, 'h) crypto_ops \<Rightarrow> u32 \<Rightarrow> gmem \<Rightarrow> BL808SecEngState \<Rightarrow> (BL808SecEngState \<times> gmem) option" where
  "bl808_sec_eng_write_aes ops v m s =
     (let ctrl = int_bits v ((sec_regs s R_AES_CTRL AND NOT 0xFFFFF8BC) OR (v AND 0xFFFFF8BC)) in
      if tst v 2 then let ctrl = ctrl OR 1 in bl808_sec_eng_run_aes ops ctrl m (set_reg R_AES_CTRL ctrl s)
      else Some (bl808_sec_eng_update_irq (set_reg R_AES_CTRL (ctrl AND NOT 3) s), m))"

definition bl808_sec_eng_write_trng :: "u32 \<Rightarrow> BL808SecEngState \<Rightarrow> BL808SecEngState" where
  "bl808_sec_eng_write_trng v s =
     (let ctrl = int_bits v ((sec_regs s R_TRNG_CTRL AND NOT 0x804) OR (v AND 0x804));
          s = (if tst v 8 then fold (\<lambda>i. set_reg (R_TRNG_DOUT + i) 0) [0..<8] s else s)
      in if tst v 2 \<and> tst ctrl 4 then let ctrl = ctrl OR 1 in bl808_sec_eng_run_trng ctrl (set_reg R_TRNG_CTRL ctrl s)
         else bl808_sec_eng_update_irq (set_reg R_TRNG_CTRL (ctrl AND NOT 3) s))"

definition bl808_sec_eng_write_pka :: "u32 \<Rightarrow> BL808SecEngState \<Rightarrow> BL808SecEngState" where
  "bl808_sec_eng_write_pka v s =
     (let ctrl = (sec_regs s R_PKA_CTRL AND NOT 0xFFFF0808) OR (v AND 0xFFFF0808);
          ctrl = (if tst v 2 then ctrl AND NOT 1 else ctrl);
          ctrl = int_bits v ctrl;
          ctrl = (if tst v 8 then ctrl OR 1 else ctrl)
      in bl808_sec_eng_update_irq (set_reg R_PKA_CTRL (ctrl AND NOT 4) s))"

definition bl808_sec_eng_write_cdet :: "u32 \<Rightarrow> BL808SecEngState \<Rightarrow> BL808SecEngState" where
  "bl808_sec_eng_write_cdet v s =
     (let ctrl = int_bits v ((sec_regs s R_CDET_CTRL AND NOT 0x18F9) OR (v AND 0x18F9)) AND NOT 2;
          ctrl = (if tst v 1 then ctrl OR 0x100 else ctrl)
      in bl808_sec_eng_update_irq (set_reg R_CDET_CTRL ctrl s))"

definition bl808_sec_eng_write_gmac :: "('c, 'h) crypto_ops \<Rightarrow> u32 \<Rightarrow> gmem \<Rightarrow> BL808SecEngState \<Rightarrow> BL808SecEngState \<times> gmem" where
  "bl808_sec_eng_write_gmac ops v m s =
     (let ctrl = int_bits v ((sec_regs s R_GMAC_CTRL AND NOT 0x7804) OR (v AND 0x7804));
          run = tst v 2 \<and> tst ctrl 4;
          m = (if run then bl808_sec_eng_run_gmac_link ops m s else m);
          ctrl = (if run then ctrl OR 0x100 else ctrl)
      in (bl808_sec_eng_update_irq (set_reg R_GMAC_STATUS 0 (set_reg R_GMAC_CTRL (ctrl AND NOT 3) s)), m))"

definition bl808_sec_eng_write ::
  "('c, 'h) crypto_ops \<Rightarrow> hwaddr \<Rightarrow> u64 \<Rightarrow> nat \<Rightarrow> BL808SecEngState \<times> gmem \<Rightarrow> (BL808SecEngState \<times> gmem) option" where
  "bl808_sec_eng_write ops offset v access_size = (\<lambda>(s, m).
     let val = ucast v in
     if access_size \<noteq> 4 then Some (s, m)
     else if tst offset 3 \<or> offset \<ge> 0x1000 then Some (s, m)
     else if offset = 0x000 then Some (bl808_sec_eng_write_sha ops val m s)
     else if offset = 0x100 then bl808_sec_eng_write_aes ops val m s
     else if offset = 0x200 then Some (bl808_sec_eng_write_trng val s, m)
     else if offset = 0x300 then Some (bl808_sec_eng_write_pka val s, m)
     else if offset = 0x400 then Some (bl808_sec_eng_write_cdet val s, m)
     else if offset = 0x500 then Some (bl808_sec_eng_write_gmac ops val m s)
     else if offset \<in> {0x0fc, 0x1fc, 0x2fc, 0x3fc, 0x4fc, 0x5fc}
     then Some (bl808_sec_eng_update_irq (bl808_sec_eng_set_owner offset val s), m)
     else Some (set_reg (unat offset div 4) val s, m))"

section \<open>Reset\<close>

definition bl808_sec_eng_reset :: "BL808SecEngState \<Rightarrow> BL808SecEngState" where
  "bl808_sec_eng_reset s =
     (let s = bl808_sec_eng_sha_accum_reset (s\<lparr>sec_regs := \<lambda>_. 0\<rparr>);
          s = fold (\<lambda>(i, v). set_reg i v)
            [(R_SHA_STATUS, 0x41), (R_SHA_ENDIAN, 1), (R_AES_ENDIAN, 0x1f), (R_AES_SBOOT, push_bit 16 2), (R_SHA_PROT, 6), (R_AES_PROT, 6),
             (R_TRNG_PROT, 6), (R_PKA_PROT, 6), (R_CDET_PROT, 7), (R_GMAC_PROT, 6)] s;
          s = bl808_sec_eng_update_ctrl_prot s
      in bl808_sec_eng_update_irq (s\<lparr>trng_state := 0x8081b10b1e5eed5\<rparr>))"

end
