(* ===== verification/Sec_Xts.thy ===== *)
theory Sec_Xts
  imports Sec_Aes
begin

text \<open>
  The block modes of the security engine against their definitions: counters as numbers, the tweak of
  XTS as repeated doubling in the field of \<open>2 ^ 128\<close> elements (IEEE 1619), and decryption as the
  inverse of encryption.  The block cipher behind the library is a function of key and block.
\<close>

section \<open>Byte lists as numbers\<close>

primrec le_nat :: "u8 list \<Rightarrow> nat" where
  "le_nat [] = 0"
| "le_nat (b # bs) = unat b + 256 * le_nat bs"

lemma le_nat_less: "le_nat bs < 256 ^ length bs"
proof (induction bs)
  case (Cons b bs)
  have "unat b \<le> 255" using unat8_lt [of b] by linarith
  with Cons show ?case by simp
qed simp

lemma le_nat_inj: "length xs = length ys \<Longrightarrow> le_nat xs = le_nat ys \<Longrightarrow> xs = ys"
proof (induction xs ys rule: list_induct2)
  case (Cons x xs y ys)
  have split: "unat b = le_nat (b # bs) mod 256 \<and> le_nat bs = le_nat (b # bs) div 256" for b bs by simp
  have "unat x = unat y \<and> le_nat xs = le_nat ys" using split [of x xs] split [of y ys] Cons.prems by metis
  then show ?case using Cons.IH by (simp add: word_unat_eq_iff)
qed simp

lemma length_inc_unit [simp]: "length (bl808_sec_eng_xts_inc_unit bs) = length bs"
  by (induction bs) (simp_all add: Let_def)

lemma unat_minus_one_byte: "unat (- 1 :: u8) = 255"
  by (simp add: unsigned_minus_1_eq_mask mask_numeral)

lemma inc_unit_nat: "le_nat (bl808_sec_eng_xts_inc_unit bs) = (le_nat bs + 1) mod 256 ^ length bs"
proof (induction bs)
  case (Cons b bs)
  show ?case
  proof (cases "b + 1 = 0")
    case True
    then have "b = - 1" by (simp add: eq_neg_iff_add_eq_0)
    then have "unat b = 255" by (simp add: unat_minus_one_byte)
    then have "le_nat (b # bs) + 1 = 256 * (le_nat bs + 1)" by simp
    then show ?thesis using Cons True by (simp add: mult_mod_right)
  next
    case False
    then have "unat (b + 1) = unat b + 1" using unat_minus_1 [of "b + 1"] by (metis Suc_eq_plus1 Suc_pred add_diff_cancel_right' unat_gt_0)
    then have "unat b + 1 + 256 * le_nat bs < 256 * 256 ^ length bs"
      using le_nat_less [of "(b + 1) # bs"] by simp
    then show ?thesis using False \<open>unat (b + 1) = unat b + 1\<close> by simp
  qed
qed simp

lemma unat_byte_shift: "carry < 2 \<Longrightarrow> unat (push_bit 1 (t :: u8) OR carry) + 256 * unat (drop_bit 7 t) = 2 * unat t + unat carry"
proof -
  assume "carry < 2"
  then have c: "carry = 0 \<or> carry = 1" using unat8_lt [of carry] by (auto simp: word_less_nat_alt word_unat_eq_iff)
  have "2 * t AND carry = 0" using c by (auto simp: and_one_eq mod_2_eq_odd)
  then have "2 * t OR carry = 2 * t + carry" using word_plus_and_or [of "2 * t" carry] by simp
  moreover have even: "unat (2 * t) = 2 * unat t mod 256" by (simp add: unat_word_ariths)
  moreover have "unat (2 * t + carry) = unat (2 * t) + unat carry"
  proof (rule unat_add_small)
    have "even (unat (2 * t))" unfolding even by (simp add: dvd_mod_iff)
    moreover have "unat (2 * t) \<le> 255" using unat8_lt [of "2 * t"] by linarith
    ultimately have "unat (2 * t) < 255" by (cases "unat (2 * t) = 255") simp_all
    then show "unat (2 * t) + unat carry < 2 ^ LENGTH(8)" using c by auto
  qed
  moreover have "push_bit 1 t = 2 * t" by (simp add: mult.commute)
  ultimately show ?thesis using div_mult_mod_eq [of "2 * unat t" 256] by (simp add: unat_drop_bit mult.commute)
qed

lemma mul_x_loop_nat:
  assumes "mul_x_loop carry bs = (rest, c)" "carry < 2"
  shows "le_nat rest + 256 ^ length bs * unat c = 2 * le_nat bs + unat carry \<and> length rest = length bs \<and> c < 2"
  using assms
proof (induction bs arbitrary: carry rest c)
  case (Cons t bs)
  obtain r where r: "mul_x_loop (drop_bit 7 t) bs = (r, c)" "rest = (push_bit 1 t OR carry) # r"
    using Cons.prems(1) by (auto split: prod.splits)
  have d: "drop_bit 7 t < 2" unfolding word_less_nat_alt using unat8_lt [of t] by (simp add: unat_drop_bit del: unat8_lt)
  show ?case using Cons.IH [OF r(1) d] unat_byte_shift [OF Cons.prems(2), of t] by (simp add: r(2) algebra_simps)
qed simp

text \<open>Multiplication by the primitive element of the field: doubling, reduced by \<open>x ^ 128 + x ^ 7 + x ^ 2 + x + 1\<close>.\<close>

definition gf_double :: "nat \<Rightarrow> nat" where
  "gf_double v = (2 * v mod 2 ^ 128) XOR (if v \<ge> 2 ^ 127 then 0x87 else 0)"

lemma le_nat_xor_low: "bs \<noteq> [] \<Longrightarrow> le_nat (bs[0 := bs ! 0 XOR c]) = le_nat bs XOR unat c"
proof (cases bs)
  case (Cons b bs')
  have push: "unat x + 256 * r = unat x OR push_bit 8 r" for x :: u8 and r :: nat
  proof -
    have "unat x AND push_bit 8 r = 0" by (rule bit_eqI) (auto simp: bit_simps dest: bit_imp_le_length)
    then show ?thesis by (simp add: disjunctive_add_eq_or push_bit_eq_mult mult.commute)
  qed
  have low: "\<not> (bit c n \<and> 8 \<le> n)" for n by (auto dest: bit_imp_le_length)
  have "unat (b XOR c) OR push_bit 8 r = (unat b OR push_bit 8 r) XOR unat c" for r
    by (rule bit_eqI) (use low in \<open>auto simp: bit_simps unsigned_xor_eq\<close>)
  then show ?thesis by (simp add: Cons push)
qed simp

lemma mul_x_nat:
  assumes "length t = 16"
  shows "le_nat (bl808_sec_eng_xts_mul_x t) = gf_double (le_nat t)" "length (bl808_sec_eng_xts_mul_x t) = 16"
proof -
  obtain r c where r: "mul_x_loop 0 t = (r, c)" by fastforce
  note l = mul_x_loop_nat [OF r]
  have c: "unat c = 0 \<or> unat c = 1" using l by (auto simp: word_less_nat_alt)
  have len: "length r = 16" "r \<noteq> []" using l assms by auto
  have bound: "le_nat r < 2 ^ 128" "le_nat t < 2 ^ 128" using le_nat_less [of r] le_nat_less [of t] len(1) assms by simp_all
  have sum: "le_nat r + 2 ^ 128 * unat c = 2 * le_nat t" using l assms by simp
  show "length (bl808_sec_eng_xts_mul_x t) = 16" using len by (simp add: bl808_sec_eng_xts_mul_x_def r)
  show "le_nat (bl808_sec_eng_xts_mul_x t) = gf_double (le_nat t)"
  proof (cases "unat c = 0")
    case True
    then show ?thesis using sum bound by (simp add: bl808_sec_eng_xts_mul_x_def r gf_double_def word_unat_eq_iff)
  next
    case False
    then have "2 * le_nat t = le_nat r + 2 ^ 128" using c sum by simp
    then have "2 * le_nat t mod 2 ^ 128 = le_nat r" "le_nat t \<ge> 2 ^ 127" using bound by simp_all
    then show ?thesis using False len(2) by (simp add: bl808_sec_eng_xts_mul_x_def r gf_double_def word_unat_eq_iff le_nat_xor_low)
  qed
qed

section \<open>The block cipher\<close>

text \<open>
  What is documented of the library in ECB mode: a cipher is made for every key of the length that the algorithm
  asks for, encrypts and decrypts blocks of 16 bytes by functions of the key, and decryption is the
  inverse of encryption.  Nothing is assumed of keys of another length, which the library refuses.
\<close>

definition aes_key_len :: "cipher_algo \<Rightarrow> nat" where
  "aes_key_len alg = (case alg of AES_128 \<Rightarrow> 16 | AES_192 \<Rightarrow> 24 | AES_256 \<Rightarrow> 32)"

lemma aes_key_len_pos [simp]: "0 < aes_key_len alg"
  by (simp add: aes_key_len_def split: cipher_algo.split)

definition ecb_cipher :: "('c, 'h) crypto_ops \<Rightarrow> cipher_algo \<Rightarrow> (u8 list \<Rightarrow> u8 list \<Rightarrow> u8 list) \<Rightarrow> (u8 list \<Rightarrow> u8 list \<Rightarrow> u8 list) \<Rightarrow> bool" where
  "ecb_cipher ops alg Enc Dec \<longleftrightarrow>
     qcrypto_cipher_supports ops alg ECB \<and>
     (\<forall>key. length key = aes_key_len alg \<longrightarrow>
       (\<exists>h. qcrypto_cipher_new ops alg ECB key = Some h \<and>
         (\<forall>b. length b = 16 \<longrightarrow> qcrypto_cipher_encrypt ops h b = Some (Enc key b, h) \<and> qcrypto_cipher_decrypt ops h b = Some (Dec key b, h))) \<and>
       (\<forall>b. length b = 16 \<longrightarrow> length (Enc key b) = 16 \<and> length (Dec key b) = 16 \<and> Dec key (Enc key b) = b))"

definition xors8 :: "u8 list \<Rightarrow> u8 list \<Rightarrow> u8 list" where
  "xors8 = map2 (XOR)"

lemma xors8_twice: "length t = length b \<Longrightarrow> xors8 (xors8 b t) t = b"
  by (intro nth_equalityI) (auto simp: xors8_def xor.assoc)

lemma length_xors8 [simp]: "length (xors8 a b) = min (length a) (length b)"
  by (simp add: xors8_def)

definition le_bytes16 :: "nat \<Rightarrow> u8 list" where
  "le_bytes16 v = map (\<lambda>i. of_nat (v div 256 ^ i)) [0..<16]"

lemma le_nat_bytes16: "le_nat (le_bytes16 v) = v mod 2 ^ 128"
proof -
  have "le_nat (map (\<lambda>i. of_nat (v div 256 ^ i)) [0..<n]) = v mod 256 ^ n" for n
  proof (induction n arbitrary: v)
    case (Suc n)
    have "map (\<lambda>i. of_nat (v div 256 ^ i)) [0..<Suc n] = (of_nat v :: u8) # map (\<lambda>i. of_nat (v div 256 div 256 ^ i)) [0..<n]"
      by (simp add: upt_conv_Cons div_mult2_eq flip: map_Suc_upt del: upt_Suc)
    then show ?case using Suc [of "v div 256"] by (simp add: unat_of_nat mod_mult2_eq)
  qed simp
  from this [of 16] show ?thesis by (simp add: le_bytes16_def)
qed

lemma le_bytes16_nat: "length bs = 16 \<Longrightarrow> le_bytes16 (le_nat bs) = bs"
  using le_nat_less [of bs] by (intro le_nat_inj) (simp_all add: le_nat_bytes16 le_bytes16_def [of "le_nat bs", THEN arg_cong, of length])

section \<open>XTS\<close>

text \<open>
  Block \<open>j\<close> of the data unit with number \<open>n\<close>: the encrypted number is multiplied \<open>j\<close> times by the primitive
  element, and the result is added before and after the block cipher.
\<close>

definition xts_tweak :: "(u8 list \<Rightarrow> u8 list) \<Rightarrow> nat \<Rightarrow> nat \<Rightarrow> u8 list" where
  "xts_tweak E2 n j = le_bytes16 ((gf_double ^^ j) (le_nat (E2 (le_bytes16 n))))"

definition xts_block :: "(u8 list \<Rightarrow> u8 list) \<Rightarrow> u8 list \<Rightarrow> u8 list \<Rightarrow> u8 list" where
  "xts_block F1 tweak b = xors8 (F1 (xors8 b tweak)) tweak"

text \<open>Block \<open>k\<close> of the data lies in unit \<open>k div ub\<close>, at position \<open>k mod ub\<close>.\<close>

definition block_map :: "(nat \<Rightarrow> u8 list \<Rightarrow> u8 list) \<Rightarrow> u8 list \<Rightarrow> u8 list" where
  "block_map f data = concat (map (\<lambda>k. f k (take 16 (drop (16 * k) data))) [0..<length data div 16])"

definition xts_spec :: "(u8 list \<Rightarrow> u8 list) \<Rightarrow> (u8 list \<Rightarrow> u8 list) \<Rightarrow> nat \<Rightarrow> nat \<Rightarrow> u8 list \<Rightarrow> u8 list" where
  "xts_spec F1 E2 ub n data = block_map (\<lambda>k. xts_block F1 (xts_tweak E2 (n + k div ub) (k mod ub))) data"

lemma mul_x_pow:
  assumes "length t = 16"
  shows "(bl808_sec_eng_xts_mul_x ^^ j) t = le_bytes16 ((gf_double ^^ j) (le_nat t)) \<and> length ((bl808_sec_eng_xts_mul_x ^^ j) t) = 16"
proof -
  have "length ((bl808_sec_eng_xts_mul_x ^^ j) t) = 16 \<and> le_nat ((bl808_sec_eng_xts_mul_x ^^ j) t) = (gf_double ^^ j) (le_nat t)"
    by (induction j) (simp_all add: assms mul_x_nat)
  then show ?thesis using le_bytes16_nat by metis
qed

lemma xts_blocks_spec:
  assumes "16 * n \<le> length data" "length tweak = 16"
    and F: "\<And>b. length b = 16 \<Longrightarrow> (if dec then qcrypto_cipher_decrypt ops h b else qcrypto_cipher_encrypt ops h b) = Some (F1 b, h) \<and> length (F1 b) = 16"
  shows "xts_blocks ops dec n h tweak data =
    Some (concat (map (\<lambda>j. xts_block F1 ((bl808_sec_eng_xts_mul_x ^^ j) tweak) (take 16 (drop (16 * j) data))) [0..<n]), drop (16 * n) data, h)"
  using assms(1,2)
proof (induction n arbitrary: tweak data)
  case (Suc n)
  let ?b = "map2 (XOR) (take 16 data) tweak"
  have b: "length ?b = 16" using Suc.prems by simp
  have tl: "map (\<lambda>j. xts_block F1 ((bl808_sec_eng_xts_mul_x ^^ j) tweak) (take 16 (drop (16 * j) data))) [0..<Suc n] =
      xts_block F1 tweak (take 16 data) #
      map (\<lambda>j. xts_block F1 ((bl808_sec_eng_xts_mul_x ^^ j) (bl808_sec_eng_xts_mul_x tweak)) (take 16 (drop (16 * j) (drop 16 data)))) [0..<n]"
    by (simp add: upt_conv_Cons add.commute funpow_swap1 flip: map_Suc_upt del: upt_Suc)
  have "xts_blocks ops dec n h (if n \<noteq> 0 then bl808_sec_eng_xts_mul_x tweak else tweak) (drop 16 data) =
      xts_blocks ops dec n h (bl808_sec_eng_xts_mul_x tweak) (drop 16 data)" by (cases n) simp_all
  then show ?case
    using Suc.IH [of "drop 16 data" "bl808_sec_eng_xts_mul_x tweak"] Suc.prems mul_x_nat(2) [of tweak] F [OF b]
    unfolding tl by (simp add: Let_def xts_block_def xors8_def add.commute)
qed simp

lemma le_bytes16_cong: "a mod 2 ^ 128 = b mod 2 ^ 128 \<Longrightarrow> le_bytes16 a = le_bytes16 b"
  by (rule le_nat_inj) (simp_all add: le_nat_bytes16, simp add: le_bytes16_def)

lemma length_le_bytes16 [simp]: "length (le_bytes16 v) = 16"
  by (simp add: le_bytes16_def)

lemma xts_spec_mod: "xts_spec F1 E2 ub (N mod 2 ^ 128) data = xts_spec F1 E2 ub N data"
proof -
  have "le_bytes16 (N mod 2 ^ 128 + u) = le_bytes16 (N + u)" for u by (rule le_bytes16_cong) (simp add: mod_add_left_eq)
  then show ?thesis by (simp add: xts_spec_def block_map_def xts_tweak_def)
qed

lemma xts_spec_unit:
  assumes "length data = 16 * n" "0 < ub" and m: "m = min ub n"
  shows "xts_spec F1 E2 ub N data =
    concat (map (\<lambda>j. xts_block F1 (xts_tweak E2 N j) (take 16 (drop (16 * j) data))) [0..<m]) @ xts_spec F1 E2 ub (N + 1) (drop (16 * m) data)"
proof -
  let ?f = "\<lambda>k. xts_block F1 (xts_tweak E2 (N + k div ub) (k mod ub)) (take 16 (drop (16 * k) data))"
  have "[0..<n] = [0..<m] @ map (\<lambda>k. k + m) [0..<n - m]"
    using m upt_add_eq_append [of 0 m "n - m"] by (simp add: map_add_upt add.commute)
  then have split: "concat (map ?f [0..<n]) = concat (map ?f [0..<m]) @ concat (map (\<lambda>k. ?f (k + m)) [0..<n - m])"
    by (simp add: comp_def)
  have first: "map ?f [0..<m] = map (\<lambda>j. xts_block F1 (xts_tweak E2 N j) (take 16 (drop (16 * j) data))) [0..<m]"
    using m by simp
  have rest: "map (\<lambda>k. ?f (k + m)) [0..<n - m] =
      map (\<lambda>k. xts_block F1 (xts_tweak E2 (N + 1 + k div ub) (k mod ub)) (take 16 (drop (16 * k) (drop (16 * m) data)))) [0..<n - m]"
  proof (rule map_cong [OF refl])
    fix k assume "k \<in> set [0..<n - m]"
    then have "m = ub" using m by (cases "ub \<le> n") auto
    then show "?f (k + m) = xts_block F1 (xts_tweak E2 (N + 1 + k div ub) (k mod ub)) (take 16 (drop (16 * k) (drop (16 * m) data)))"
      using assms(2) by (simp add: add.commute distrib_left div_add_self2)
  qed
  have len: "length (drop (16 * m) data) div 16 = n - m" "length data div 16 = n"
    using assms(1) m by (simp_all flip: diff_mult_distrib2)
  show ?thesis unfolding xts_spec_def block_map_def len split first rest by (rule refl)
qed

lemma xts_units_done: "xts_units ops dec single tb ub h1 h2 iv out [] = Some (Some out)"
  by (simp add: xts_units.simps)

lemma xts_units_unit:
  assumes n: "length data = 16 * n" "0 < n" and m: "m = (if single then tb else min ub n)" "m \<le> n" and iv: "length iv = 16"
    and F: "\<And>b. length b = 16 \<Longrightarrow> (if dec then qcrypto_cipher_decrypt ops h1 b else qcrypto_cipher_encrypt ops h1 b) = Some (F1 b, h1) \<and> length (F1 b) = 16"
    and E2: "\<And>b. length b = 16 \<Longrightarrow> qcrypto_cipher_encrypt ops h2 b = Some (E2 b, h2) \<and> length (E2 b) = 16"
  shows "xts_units ops dec single tb ub h1 h2 iv out data =
    xts_units ops dec single tb ub h1 h2 (if \<not> single \<and> drop (16 * m) data \<noteq> [] then bl808_sec_eng_xts_inc_unit iv else iv)
      (out @ concat (map (\<lambda>j. xts_block F1 (xts_tweak E2 (le_nat iv) j) (take 16 (drop (16 * j) data))) [0..<m])) (drop (16 * m) data)"
proof -
  have "data \<noteq> []" "(if single then tb else min ub (length data div 16)) = m" using n m by auto
  moreover have "(bl808_sec_eng_xts_mul_x ^^ j) (E2 iv) = xts_tweak E2 (le_nat iv) j" for j
    using mul_x_pow [of "E2 iv" j] E2 [OF iv] by (simp add: xts_tweak_def le_bytes16_nat [OF iv])
  ultimately show ?thesis
    using E2 [OF iv] xts_blocks_spec [OF _ _ F, of m data "E2 iv"] n m(2)
    by (subst xts_units.simps) (simp add: Let_def)
qed

lemma xts_units_spec:
  assumes "length data = 16 * n" "0 < ub" "length iv = 16"
    and F: "\<And>b. length b = 16 \<Longrightarrow> (if dec then qcrypto_cipher_decrypt ops h1 b else qcrypto_cipher_encrypt ops h1 b) = Some (F1 b, h1) \<and> length (F1 b) = 16"
    and E2: "\<And>b. length b = 16 \<Longrightarrow> qcrypto_cipher_encrypt ops h2 b = Some (E2 b, h2) \<and> length (E2 b) = 16"
  shows "xts_units ops dec False tb ub h1 h2 iv out data = Some (Some (out @ xts_spec F1 E2 ub (le_nat iv) data))"
  using assms(1,3)
proof (induction n arbitrary: data iv out rule: less_induct)
  case (less n)
  show ?case
  proof (cases "n = 0")
    case True
    then show ?thesis using less.prems by (simp add: xts_units_done xts_spec_def block_map_def)
  next
    case False
    let ?m = "min ub n"
    define rest where "rest = drop (16 * ?m) data"
    have rest: "length rest = 16 * (n - ?m)" "n - ?m < n" using less.prems False assms(2) by (auto simp: rest_def diff_mult_distrib2)
    define iv' where "iv' = (if rest \<noteq> [] then bl808_sec_eng_xts_inc_unit iv else iv)"
    have iv': "length iv' = 16" using less.prems by (simp add: iv'_def)
    have "xts_spec F1 E2 ub (le_nat iv') rest = xts_spec F1 E2 ub (le_nat iv + 1) rest"
    proof (cases "rest = []")
      case False
      then have "le_nat iv' = (le_nat iv + 1) mod 2 ^ 128" using less.prems(2) by (simp add: iv'_def inc_unit_nat)
      then show ?thesis by (simp only: xts_spec_mod)
    qed (simp add: xts_spec_def block_map_def)
    then show ?thesis
      using xts_units_unit [OF less.prems(1) _ _ _ less.prems(2) F E2, of ?m False tb ub out] False
        less.IH [OF rest(2,1) iv'] xts_spec_unit [OF less.prems(1) assms(2) refl, of F1 E2 "le_nat iv"]
      by (simp add: rest_def [symmetric] iv'_def [symmetric])
  qed
qed

lemma ecb_handle:
  assumes "ecb_cipher ops alg Enc Dec" "length key = aes_key_len alg"
  obtains h where "qcrypto_cipher_new ops alg ECB key = Some h"
    and "\<And>b. length b = 16 \<Longrightarrow> qcrypto_cipher_encrypt ops h b = Some (Enc key b, h) \<and> length (Enc key b) = 16"
    and "\<And>b. length b = 16 \<Longrightarrow> qcrypto_cipher_decrypt ops h b = Some (Dec key b, h) \<and> length (Dec key b) = 16"
  using assms unfolding ecb_cipher_def by metis

definition xts_unit_blocks :: "u16 \<Rightarrow> bool \<Rightarrow> nat \<Rightarrow> nat" where
  "xts_unit_blocks unit_len single n = (if single \<or> unit_len = 0 then n else unat unit_len)"

lemma aes_xts_spec:
  assumes ecb: "ecb_cipher ops alg Enc Dec" and key: "length key = 2 * aes_key_len alg" and "length iv = 16" "length data = 16 * n"
  shows "aes_xts ops dec alg key iv unit_len single data =
    Some (Some (xts_spec ((if dec then Dec else Enc) (take (length key div 2) key)) (Enc (drop (length key div 2) key))
      (xts_unit_blocks unit_len single n) (le_nat iv) data))"
proof -
  let ?k1 = "take (length key div 2) key" and ?k2 = "drop (length key div 2) key"
  let ?F = "(if dec then Dec else Enc) ?k1"
  have halves: "length ?k1 = aes_key_len alg" "length ?k2 = aes_key_len alg" using key by simp_all
  obtain h1 where h1: "qcrypto_cipher_new ops alg ECB ?k1 = Some h1"
    "\<And>b. length b = 16 \<Longrightarrow> qcrypto_cipher_encrypt ops h1 b = Some (Enc ?k1 b, h1) \<and> length (Enc ?k1 b) = 16"
    "\<And>b. length b = 16 \<Longrightarrow> qcrypto_cipher_decrypt ops h1 b = Some (Dec ?k1 b, h1) \<and> length (Dec ?k1 b) = 16"
    using ecb_handle [OF ecb, of ?k1] halves(1) by metis
  obtain h2 where h2: "qcrypto_cipher_new ops alg ECB ?k2 = Some h2"
    "\<And>b. length b = 16 \<Longrightarrow> qcrypto_cipher_encrypt ops h2 b = Some (Enc ?k2 b, h2) \<and> length (Enc ?k2 b) = 16"
    using ecb_handle [OF ecb, of ?k2] halves(2) by metis
  have F: "\<And>b. length b = 16 \<Longrightarrow> (if dec then qcrypto_cipher_decrypt ops h1 b else qcrypto_cipher_encrypt ops h1 b) = Some (?F b, h1) \<and> length (?F b) = 16"
    using h1(2,3) by simp
  have "length key div 2 \<noteq> 0" "even (length key)" using key by simp_all
  then have "aes_xts ops dec alg key iv unit_len single data =
      xts_units ops dec single n (if unit_len \<noteq> 0 then unat unit_len else n) h1 h2 iv [] data"
    using ecb h1(1) h2(1) assms(4) by (simp add: aes_xts_def Let_def ecb_cipher_def)
  moreover have "xts_units ops dec True n ub h1 h2 iv [] data = Some (Some (xts_spec ?F (Enc ?k2) n (le_nat iv) data))" if False: "n \<noteq> 0" for ub
  proof -
    have "xts_units ops dec True n ub h1 h2 iv [] data = Some (Some (concat (map (\<lambda>j. xts_block ?F (xts_tweak (Enc ?k2) (le_nat iv) j) (take 16 (drop (16 * j) data))) [0..<n])))"
      using xts_units_unit [OF assms(4) _ _ _ assms(3) F h2(2), of n True n ub "[]"] False assms(4) by (simp add: xts_units_done)
    then show ?thesis using xts_spec_unit [OF assms(4) _ refl, of n ?F "Enc ?k2" "le_nat iv"] False assms(4) by (simp add: xts_spec_def block_map_def)
  qed
  moreover have "xts_units ops dec False n ub h1 h2 iv [] data = Some (Some (xts_spec ?F (Enc ?k2) ub (le_nat iv) data))" if "0 < ub" for ub
    using xts_units_spec [OF assms(4) that assms(3) F h2(2)] by simp
  moreover have "xts_units ops dec single n ub h1 h2 iv [] [] = Some (Some [])" "xts_spec f g ub n0 [] = []" for ub f g n0
    by (simp_all add: xts_units_done xts_spec_def block_map_def)
  ultimately show ?thesis using assms(4) by (cases "n = 0"; cases single) (auto simp: xts_unit_blocks_def unat_gt_0)
qed

section \<open>Decryption\<close>

lemma concat_blocks:
  "\<forall>b \<in> set bs. length b = 16 \<Longrightarrow> k < length bs \<Longrightarrow> take 16 (drop (16 * k) (concat bs)) = bs ! k"
proof (induction bs arbitrary: k)
  case (Cons b bs)
  then show ?case by (cases k) simp_all
qed simp

lemma length_concat_blocks: "\<forall>b \<in> set bs. length b = 16 \<Longrightarrow> length (concat bs) = 16 * length bs"
  by (induction bs) simp_all

lemma concat_split: "length data = 16 * n \<Longrightarrow> concat (map (\<lambda>k. take 16 (drop (16 * k) data)) [0..<n]) = data"
proof (induction n arbitrary: data)
  case (Suc n)
  then show ?case using Suc.IH [of "drop 16 data"] by (simp add: upt_conv_Cons add.commute comp_def flip: map_Suc_upt del: upt_Suc)
qed simp

lemma length_block_map:
  assumes "length data = 16 * n" "\<And>k b. length b = 16 \<Longrightarrow> length (f k b) = 16"
  shows "length (block_map f data) = 16 * n"
  using assms by (subst block_map_def, subst length_concat_blocks) auto

lemma block_map_inverse:
  assumes n: "length data = 16 * n" and inv: "\<And>k b. length b = 16 \<Longrightarrow> length (f k b) = 16 \<and> g k (f k b) = b"
  shows "block_map g (block_map f data) = data"
proof -
  let ?bs = "map (\<lambda>k. f k (take 16 (drop (16 * k) data))) [0..<n]"
  have len: "\<forall>b \<in> set ?bs. length b = 16" using n inv by auto
  have "g k (take 16 (drop (16 * k) (concat ?bs))) = take 16 (drop (16 * k) data)" if "k < n" for k
    using concat_blocks [OF len, of k] inv [of "take 16 (drop (16 * k) data)" k] n that by simp
  then have eq: "map (\<lambda>k. g k (take 16 (drop (16 * k) (concat ?bs)))) [0..<n] = map (\<lambda>k. take 16 (drop (16 * k) data)) [0..<n]"
    by simp
  have "length (concat ?bs) div 16 = n" using length_concat_blocks [OF len] by simp
  then have "block_map g (concat ?bs) = concat (map (\<lambda>k. g k (take 16 (drop (16 * k) (concat ?bs)))) [0..<n])"
    unfolding block_map_def by (simp only:)
  also have "\<dots> = data" unfolding eq by (rule concat_split [OF n])
  finally show ?thesis using n by (simp add: block_map_def [of f])
qed

lemma xts_inverse:
  assumes "length data = 16 * n" and inv: "\<And>b. length b = 16 \<Longrightarrow> length (E1 b) = 16 \<and> D1 (E1 b) = b"
  shows "xts_spec D1 E2 ub N (xts_spec E1 E2 ub N data) = data" and "length (xts_spec E1 E2 ub N data) = 16 * n"
proof -
  have "length (xts_block E1 t b) = 16 \<and> xts_block D1 t (xts_block E1 t b) = b" if "length b = 16" "length t = 16" for t b
    using that inv [of "xors8 b t"] by (simp add: xts_block_def xors8_twice)
  then show "xts_spec D1 E2 ub N (xts_spec E1 E2 ub N data) = data" "length (xts_spec E1 E2 ub N data) = 16 * n"
    unfolding xts_spec_def by (auto intro!: block_map_inverse [OF assms(1)] length_block_map [OF assms(1)] simp: xts_tweak_def)
qed

section \<open>Counter mode\<close>

text \<open>Block \<open>k\<close> is added to the encryption of the counter plus \<open>k\<close>, a big-endian number of 128 bits.\<close>

definition ctr_spec :: "(u8 list \<Rightarrow> u8 list) \<Rightarrow> nat \<Rightarrow> u8 list \<Rightarrow> u8 list" where
  "ctr_spec E n data = block_map (\<lambda>k b. xors8 b (E (rev (le_bytes16 (n + k))))) data"

lemma ctr_loop_spec:
  assumes "length data = 16 * n" "length counter = 16"
    and E: "\<And>b. length b = 16 \<Longrightarrow> qcrypto_cipher_encrypt ops h b = Some (E b, h)"
  shows "ctr_loop ops h counter data = Some (ctr_spec E (le_nat (rev counter)) data)"
  using assms(1,2)
proof (induction n arbitrary: data counter)
  case 0
  then show ?case by (simp add: ctr_loop.simps ctr_spec_def block_map_def)
next
  case (Suc n)
  let ?N = "le_nat (rev counter)"
  have next_counter: "length (ctr_increment counter) = 16" "le_nat (rev (ctr_increment counter)) = (?N + 1) mod 2 ^ 128"
    using Suc.prems(2) by (simp_all add: ctr_increment_def inc_unit_nat)
  have "le_bytes16 ((?N + 1) mod 2 ^ 128 + k) = le_bytes16 (?N + Suc k)" for k by (rule le_bytes16_cong) (simp add: mod_add_left_eq)
  then have "map (\<lambda>k. xors8 (take 16 (drop (16 * k) data)) (E (rev (le_bytes16 (?N + k))))) [0..<Suc n] =
      xors8 (take 16 data) (E counter) #
      map (\<lambda>k. xors8 (take 16 (drop (16 * k) (drop 16 data))) (E (rev (le_bytes16 (le_nat (rev (ctr_increment counter)) + k))))) [0..<n]"
    using Suc.prems(2) le_bytes16_nat [of "rev counter"] next_counter(2)
    by (simp add: upt_conv_Cons add.commute comp_def flip: map_Suc_upt del: upt_Suc)
  then have "ctr_spec E ?N data = xors8 (take 16 data) (E counter) @ ctr_spec E (le_nat (rev (ctr_increment counter))) (drop 16 data)"
    using Suc.prems(1) by (simp add: ctr_spec_def block_map_def)
  moreover have "data \<noteq> []" using Suc.prems(1) by auto
  ultimately show ?case using Suc.IH [of "drop 16 data" "ctr_increment counter"] Suc.prems E [OF Suc.prems(2)] next_counter(1)
    by (subst ctr_loop.simps) (simp add: xors8_def)
qed

lemma ctr_inverse:
  assumes "length data = 16 * n" "\<And>b. length b = 16 \<Longrightarrow> length (E b) = 16"
  shows "ctr_spec E N (ctr_spec E N data) = data" and "length (ctr_spec E N data) = 16 * n"
  unfolding ctr_spec_def
  using assms(2) by (auto intro!: block_map_inverse [OF assms(1)] length_block_map [OF assms(1)] simp: xors8_twice)

lemma aes_ctr_spec:
  assumes "ecb_cipher ops alg Enc Dec" "length data = 16 * n" "length iv = 16" "length key = aes_key_len alg"
  shows "aes_ctr ops alg key iv data = Some (ctr_spec (Enc key) (le_nat (rev iv)) data)"
proof -
  obtain h where h: "qcrypto_cipher_new ops alg ECB key = Some h"
    "\<And>b. length b = 16 \<Longrightarrow> qcrypto_cipher_encrypt ops h b = Some (Enc key b, h) \<and> length (Enc key b) = 16"
    using ecb_handle [OF assms(1,4)] by metis
  then have "ctr_loop ops h iv data = Some (ctr_spec (Enc key) (le_nat (rev iv)) data)" by (intro ctr_loop_spec [OF assms(2,3)]) simp
  then show ?thesis using assms(1) h(1) by (simp add: aes_ctr_def ecb_cipher_def)
qed

section \<open>The loop over units ends\<close>

lemma xts_blocks_rest: "xts_blocks ops dec n h tweak data = Some (out, rest, h') \<Longrightarrow> rest = drop (16 * n) data"
proof (induction n arbitrary: h tweak data out rest h')
  case (Suc n)
  then obtain t h1 out1 where "xts_blocks ops dec n h1 t (drop 16 data) = Some (out1, rest, h')"
    by (auto simp: Let_def split: option.splits prod.splits)
  from Suc.IH [OF this] show ?case by (simp add: add.commute)
qed simp

lemma xts_units_returns:
  assumes "length data = 16 * n" "0 < ub" "single \<Longrightarrow> tb = n \<or> n = 0"
  shows "xts_units ops dec single tb ub h1 h2 iv out data \<noteq> None"
  using assms(1,3)
proof (induction n arbitrary: data h1 h2 iv out rule: less_induct)
  case (less n)
  show ?case
  proof (cases "n = 0")
    case True
    then show ?thesis using less.prems(1) by (simp add: xts_units_done)
  next
    case False
    let ?m = "if single then tb else min ub (length data div 16)"
    have m: "n - ?m < n" "single \<Longrightarrow> n - ?m = 0" "length (drop (16 * ?m) data) = 16 * (n - ?m)"
      using less.prems False assms(2) by (auto simp: diff_mult_distrib2)
    have IH: "xts_units ops dec single tb ub h1' h2' iv' out' (drop (16 * ?m) data) \<noteq> None" for h1' h2' iv' out'
      using less.IH [OF m(1,3)] m(2) by blast
    show ?thesis
    proof (cases "qcrypto_cipher_encrypt ops h2 iv")
      case (Some e)
      obtain tweak h2' where e: "e = (tweak, h2')" by fastforce
      show ?thesis
      proof (cases "xts_blocks ops dec ?m h1 tweak data")
        case None
        then show ?thesis using Some less.prems(1) False by (subst xts_units.simps) (simp add: e Let_def)
      next
        case (Some r)
        obtain o1 rest h1' where r: "r = (o1, rest, h1')" by (metis surj_pair)
        have "rest = drop (16 * ?m) data" by (rule xts_blocks_rest [OF Some [unfolded r]])
        then show ?thesis using IH Some \<open>qcrypto_cipher_encrypt ops h2 iv = Some e\<close> less.prems(1) False
          by (subst xts_units.simps) (auto simp: e r Let_def)
      qed
    qed (use less.prems(1) False in \<open>subst xts_units.simps, simp\<close>)
  qed
qed

lemma run_aes_crypt_returns:
  "bl808_sec_eng_run_aes_crypt ops ctrl src dst key alg iv unit_len single (16 * n) m \<noteq> None"
proof -
  have "aes_xts ops dec alg key iv unit_len single data \<noteq> None" if "length data = 16 * n" for dec data
  proof -
    have "xts_units ops dec single n (if unit_len \<noteq> 0 then unat unit_len else n) h1 h2 iv [] data \<noteq> None" for h1 h2
    proof (cases "n = 0")
      case False
      then show ?thesis by (intro xts_units_returns [OF that]) (simp_all add: unat_gt_0)
    qed (use that in \<open>simp add: xts_units_done\<close>)
    then show ?thesis using that by (auto simp: aes_xts_def Let_def split: option.split)
  qed
  then show ?thesis by (auto simp: bl808_sec_eng_run_aes_crypt_def Let_def bl808_sec_eng_read_guest_def split: option.split)
qed

end
