(* ===== verification/Sec_Crc.thy ===== *)
theory Sec_Crc
  imports Sec_Hash
begin

text \<open>
  Cyclic redundancy checks as remainders: polynomials over the field of two elements are lists of
  coefficients, highest first, and the routine of the security engine computes the remainder of the
  long division of the message by the generator, in both bit orders.  A checksum is resumed from its
  stored value.
\<close>

section \<open>Long division\<close>

abbreviation (input) xors :: "bool list \<Rightarrow> bool list \<Rightarrow> bool list" where
  "xors \<equiv> map2 (\<noteq>)"

definition xor_front :: "bool list \<Rightarrow> bool list \<Rightarrow> bool list" where
  "xor_front p bs = xors p bs @ drop (length p) bs"

text \<open>The divisor has the leading coefficient 1, which is not part of the list \<open>p\<close>.\<close>

function poly_rem :: "bool list \<Rightarrow> bool list \<Rightarrow> bool list" where
  "poly_rem p [] = []"
| "poly_rem p (b # bs) = (if length bs < length p then b # bs else poly_rem p (if b then xor_front p bs else bs))"
  by pat_completeness auto
termination by (relation "measure (\<lambda>(p, bs). length bs)") (auto simp: xor_front_def)

text \<open>The message is followed by as many zeros as the remainder has bits; the initial value is added in front.\<close>

definition crc_division :: "bool list \<Rightarrow> bool list \<Rightarrow> bool list \<Rightarrow> bool list" where
  "crc_division p init msg = poly_rem p (xor_front init (msg @ replicate (length p) False))"

section \<open>Division by shifting\<close>

definition crc_shift :: "bool list \<Rightarrow> bool list \<Rightarrow> bool list" where
  "crc_shift p r = (if hd r then xors p (tl r @ [False]) else tl r @ [False])"

lemma length_xor_front [simp]: "length p \<le> length bs \<Longrightarrow> length (xor_front p bs) = length bs"
  by (simp add: xor_front_def)

lemma length_crc_shift [simp]: "length r = length p \<Longrightarrow> p \<noteq> [] \<Longrightarrow> length (crc_shift p r) = length p"
  by (cases r) (auto simp: crc_shift_def)

lemma length_shifts [simp]: "length r = length p \<Longrightarrow> p \<noteq> [] \<Longrightarrow> length ((crc_shift p ^^ n) r) = length p"
  by (induction n) simp_all

lemma xor_front_Cons: "xor_front (c # q) (b # bs) = (c \<noteq> b) # xor_front q bs"
  by (simp add: xor_front_def)

lemma xor_front_twice: "length q = length p \<Longrightarrow> xor_front p (xor_front q bs) = xor_front (xors p q) bs"
proof (induction p q arbitrary: bs rule: list_induct2')
  case (4 x xs y ys)
  then show ?case by (cases bs) (auto simp: xor_front_def)
qed (simp_all add: xor_front_def)

lemma xor_front_pad: "length r < length bs \<Longrightarrow> xor_front (r @ [False]) bs = xor_front r bs"
proof (induction r arbitrary: bs)
  case Nil
  then show ?case by (cases bs) (auto simp: xor_front_def)
next
  case (Cons x r)
  then show ?case by (cases bs) (auto simp: xor_front_def)
qed

lemma poly_rem_shift:
  assumes "length r = length p" "p \<noteq> []" "length p \<le> length bs"
  shows "poly_rem p (xor_front r (False # bs)) = poly_rem p (xor_front (crc_shift p r) bs)"
proof -
  obtain c q where r: "r = c # q" using assms(1,2) by (cases r) auto
  have q: "length q < length bs" "length (q @ [False]) = length p" using assms r by auto
  then show ?thesis
    using assms(3) xor_front_pad [OF q(1)] xor_front_twice [OF q(2), of bs]
    by (simp add: r crc_shift_def xor_front_Cons)
qed

lemma poly_rem_shifts:
  "length r = length p \<Longrightarrow> p \<noteq> [] \<Longrightarrow> length p \<le> length bs \<Longrightarrow>
   poly_rem p (xor_front r (replicate n False @ bs)) = poly_rem p (xor_front ((crc_shift p ^^ n) r) bs)"
proof (induction n arbitrary: r)
  case (Suc n)
  then show ?case using poly_rem_shift [of r p "replicate n False @ bs"] by (simp add: funpow_swap1)
qed simp

lemma xor_front_into: "length bits \<le> length r \<Longrightarrow>
  xor_front r (bits @ bs) = xor_front (xor_front bits r) (replicate (length bits) False @ bs)"
proof (induction bits arbitrary: r)
  case (Cons b bits)
  then show ?case by (cases r) (auto simp: xor_front_def)
qed (simp add: xor_front_def)

definition crc_octet :: "bool list \<Rightarrow> bool list \<Rightarrow> bool list \<Rightarrow> bool list" where
  "crc_octet p bits r = (crc_shift p ^^ length bits) (xor_front bits r)"

lemma length_crc_byte: "length r = length p \<Longrightarrow> p \<noteq> [] \<Longrightarrow> length bits \<le> length p \<Longrightarrow> length (crc_octet p bits r) = length p"
  by (simp add: crc_octet_def)

lemma crc_division_bytes:
  assumes "length r = length p" "p \<noteq> []" "\<forall>b \<in> set bs. length b \<le> length p"
  shows "crc_division p r (concat bs) = fold (crc_octet p) bs r"
  using assms(1,3)
proof (induction bs arbitrary: r)
  case Nil
  have "xor_front r (replicate (length p) False) = r"
    using Nil.prems(1) by (intro nth_equalityI) (auto simp: xor_front_def)
  moreover have "poly_rem p r = r" using Nil.prems(1) by (cases r) auto
  ultimately show ?case by (simp add: crc_division_def)
next
  case (Cons b bs)
  have "crc_division p r (concat (b # bs)) = crc_division p (crc_octet p b r) (concat bs)"
    using Cons.prems assms(2) xor_front_into [of b r] poly_rem_shifts [of "xor_front b r" p]
    by (simp add: crc_division_def crc_octet_def)
  then show ?case using Cons assms(2) length_crc_byte [of r p b] by simp
qed

section \<open>Registers as coefficient lists\<close>

text \<open>A register holds its coefficients from the top bit down, or from the bottom up when the input is reflected.\<close>

definition reg_bits :: "bool \<Rightarrow> nat \<Rightarrow> u32 \<Rightarrow> bool list" where
  "reg_bits ref w x = map (bit x) (if ref then [0..<w] else rev [0..<w])"

definition byte_bits :: "bool \<Rightarrow> u8 \<Rightarrow> bool list" where
  "byte_bits ref b = map (bit b) (if ref then [0..<8] else rev [0..<8])"

lemma length_reg_bits [simp]: "length (reg_bits ref w x) = w" "length (byte_bits ref b) = 8"
  by (simp_all add: reg_bits_def byte_bits_def)

lemma reg_bits_Nil [simp]: "reg_bits ref w x = [] \<longleftrightarrow> w = 0"
  by (simp add: reg_bits_def)

lemma nth_reg_bits: "i < w \<Longrightarrow> reg_bits ref w x ! i = bit x (if ref then i else w - 1 - i)"
  by (simp add: reg_bits_def rev_nth)

lemma nth_byte_bits: "i < 8 \<Longrightarrow> byte_bits ref b ! i = bit b (if ref then i else 7 - i)"
  by (simp add: byte_bits_def rev_nth)

lemma crc_mask: "w \<le> 32 \<Longrightarrow> bl808_sec_eng_crc_mask w = mask w"
  by (simp add: bl808_sec_eng_crc_mask_def mask_eq_exp_minus_1 push_bit_eq_mult)

lemma reflect_loop_bit: "i \<le> w \<Longrightarrow> w \<le> 32 \<Longrightarrow> bit (reflect_loop v w i) k \<longleftrightarrow> k < w \<and> w - 1 - k < i \<and> bit v (w - 1 - k)"
proof (induction i)
  case (Suc i)
  have "bit (push_bit (w - 1 - i) 1 :: u32) k \<longleftrightarrow> k = w - 1 - i" using Suc.prems by (auto simp: bit_simps)
  then show ?case using Suc by (auto simp: bit_simps tst_BIT less_Suc_eq simp del: push_bit_of_1)
qed simp

lemma reflect_bit: "w \<le> 32 \<Longrightarrow> bit (bl808_sec_eng_reflect_bits v w) k \<longleftrightarrow> k < w \<and> bit v (w - 1 - k)"
  by (auto simp: bl808_sec_eng_reflect_bits_def reflect_loop_bit)

lemma ref_bit_shift:
  assumes "w \<le> 32" "0 < w" "crc AND mask w = crc"
  shows "reg_bits True w (crc_ref_bit (mask w) (bl808_sec_eng_reflect_bits poly w) crc) = crc_shift (reg_bits False w poly) (reg_bits True w crc)"
proof (rule nth_equalityI)
  fix i assume "i < length (reg_bits True w (crc_ref_bit (mask w) (bl808_sec_eng_reflect_bits poly w) crc))"
  then have i: "i < w" by simp
  have top: "\<not> bit crc w" using assms(3) by (metis bit_and_iff bit_mask_iff less_irrefl)
  have "tst crc 1 = bit crc 0" using tst_BIT [of crc 0] by simp
  moreover have "hd (reg_bits True w crc) = bit crc 0" using assms(2) by (simp add: reg_bits_def upt_rec)
  moreover have "(tl (reg_bits True w crc) @ [False]) ! i = bit crc (Suc i)"
    using i top by (cases "i = w - 1") (auto simp: nth_append nth_tl nth_reg_bits)
  ultimately show "reg_bits True w (crc_ref_bit (mask w) (bl808_sec_eng_reflect_bits poly w) crc) ! i =
      crc_shift (reg_bits False w poly) (reg_bits True w crc) ! i"
    using i assms(1,2) by (auto simp: nth_reg_bits crc_ref_bit_def crc_shift_def bit_simps reflect_bit)
qed (use assms(2) in simp)

lemma top_bit_shift:
  assumes "w \<le> 32" "0 < w"
  shows "reg_bits False w (crc_top_bit w (mask w) poly crc) = crc_shift (reg_bits False w poly) (reg_bits False w crc)"
proof (rule nth_equalityI)
  fix i assume "i < length (reg_bits False w (crc_top_bit w (mask w) poly crc))"
  then have i: "i < w" by simp
  have "tst crc (push_bit (w - 1) 1) = bit crc (w - 1)" by (rule tst_BIT)
  moreover have "hd (reg_bits False w crc) = bit crc (w - 1)" using assms(2) by (cases w) (auto simp: reg_bits_def)
  moreover have "(tl (reg_bits False w crc) @ [False]) ! i = (i < w - 1 \<and> bit crc (w - 2 - i))"
    using i by (auto simp: nth_append nth_tl nth_reg_bits numeral_2_eq_2)
  moreover have "bit (push_bit 1 crc AND mask w) (w - Suc i) = (i < w - 1 \<and> bit crc (w - 2 - i))"
    using i assms(1) by (auto simp: bit_and_iff bit_mask_iff bit_push_bit_iff numeral_2_eq_2 simp del: push_bit_Suc)
  ultimately show "reg_bits False w (crc_top_bit w (mask w) poly crc) ! i = crc_shift (reg_bits False w poly) (reg_bits False w crc) ! i"
    using i assms(2) by (auto simp: nth_reg_bits crc_top_bit_def crc_shift_def bit_xor_iff)
qed (use assms(2) in simp)

lemma nth_xor_front: "i < length bs \<Longrightarrow> xor_front p bs ! i = (if i < length p then p ! i \<noteq> bs ! i else bs ! i)"
  by (auto simp: xor_front_def nth_append)

lemma byte_into_register:
  assumes "8 \<le> w" "w \<le> 32"
  shows "reg_bits True w (crc XOR ucast d) = xor_front (byte_bits True d) (reg_bits True w crc)"
    and "reg_bits False w (crc XOR push_bit (w - 8) (ucast d)) = xor_front (byte_bits False d) (reg_bits False w crc)"
proof -
  have high: "\<not> bit d n" if "\<not> n < 8" for n using bit_imp_le_length [of d n] that by auto
  show "reg_bits True w (crc XOR ucast d) = xor_front (byte_bits True d) (reg_bits True w crc)"
    using assms high by (intro nth_equalityI) (auto simp: nth_xor_front nth_reg_bits nth_byte_bits bit_simps)
  show "reg_bits False w (crc XOR push_bit (w - 8) (ucast d)) = xor_front (byte_bits False d) (reg_bits False w crc)"
  proof (rule nth_equalityI)
    fix i assume "i < length (reg_bits False w (crc XOR push_bit (w - 8) (ucast d)))"
    then have i: "i < w" by simp
    have "bit (push_bit (w - 8) (ucast d) :: u32) (w - Suc i) = (i < 8 \<and> bit d (7 - i))"
    proof (cases "i < 8")
      case True
      then have "w - Suc i - (w - 8) = 7 - i" using assms(1) by simp
      then show ?thesis using True i assms by (auto simp: bit_simps)
    next
      case False
      then have "\<not> w - 8 \<le> w - Suc i" using i by auto
      then show ?thesis using False by (simp add: bit_simps)
    qed
    then show "reg_bits False w (crc XOR push_bit (w - 8) (ucast d)) ! i = xor_front (byte_bits False d) (reg_bits False w crc) ! i"
      using i assms(1) by (auto simp: nth_xor_front nth_reg_bits nth_byte_bits bit_xor_iff)
  qed (use assms in simp)
qed

section \<open>The routine computes the remainder\<close>

lemma ref_bits:
  assumes "w \<le> 32" "0 < w" "crc AND mask w = crc"
    and f_def: "f = crc_ref_bit (mask w) (bl808_sec_eng_reflect_bits poly w)"
  shows "reg_bits True w ((f ^^ n) crc) = (crc_shift (reg_bits False w poly) ^^ n) (reg_bits True w crc) \<and> (f ^^ n) crc AND mask w = (f ^^ n) crc"
proof (induction n)
  case (Suc n)
  moreover have "f x AND mask w = f x" for x by (simp add: f_def crc_ref_bit_def and.assoc)
  ultimately show ?case using ref_bit_shift [OF assms(1,2), of "(f ^^ n) crc" poly] by (simp add: f_def)
qed (use assms(3) in simp)

lemma top_bits:
  assumes "w \<le> 32" "0 < w"
  shows "reg_bits False w ((crc_top_bit w (mask w) poly ^^ n) crc) = (crc_shift (reg_bits False w poly) ^^ n) (reg_bits False w crc)"
  by (induction n) (simp_all add: top_bit_shift [OF assms])

lemma reg_bits_mask [simp]: "reg_bits ref w (x AND mask w) = reg_bits ref w x"
  by (auto simp: reg_bits_def bit_simps dest: bit_imp_le_length)

lemma fold_reflected:
  assumes "8 \<le> w" "w \<le> 32" "crc AND mask w = crc"
    and f_def: "f = crc_ref_bit (mask w) (bl808_sec_eng_reflect_bits poly w)"
  shows "reg_bits True w (fold (\<lambda>d crc. (f ^^ 8) (crc XOR ucast d)) data crc) =
      fold (crc_octet (reg_bits False w poly)) (map (byte_bits True) data) (reg_bits True w crc)"
  using assms(3)
proof (induction data arbitrary: crc)
  case (Cons d data)
  have "(ucast d :: u32) AND mask w = ucast d"
    using assms(1) by (intro bit_word_eqI) (auto simp: bit_simps dest: bit_imp_le_length)
  then have "(crc XOR ucast d) AND mask w = crc XOR ucast d" using Cons.prems by (simp add: bit.conj_xor_distrib2)
  note step = ref_bits [OF assms(2) _ this f_def, of 8]
  show ?case using Cons.IH [of "(f ^^ 8) (crc XOR ucast d)"] step assms(1,2) byte_into_register(1) [OF assms(1,2), of crc d]
    by (simp add: crc_octet_def)
qed simp

lemma fold_unreflected:
  assumes "8 \<le> w" "w \<le> 32"
  shows "reg_bits False w (fold (\<lambda>d crc. (crc_top_bit w (mask w) poly ^^ 8) (crc XOR push_bit (w - 8) (ucast d))) data crc) =
      fold (crc_octet (reg_bits False w poly)) (map (byte_bits False) data) (reg_bits False w crc)"
proof (induction data arbitrary: crc)
  case (Cons d data)
  show ?case using Cons.IH byte_into_register(2) [OF assms, of crc d] top_bits [OF assms(2), where n = 8 and poly = poly] assms(1)
    by (simp add: crc_octet_def)
qed simp

lemma crc_update_division:
  assumes "8 \<le> w" "w \<le> 32"
  shows "reg_bits ref w (bl808_sec_eng_crc_update data w poly crc ref) =
    crc_division (reg_bits False w poly) (reg_bits ref w crc) (concat (map (byte_bits ref) data))"
proof -
  let ?p = "reg_bits False w poly"
  have p: "?p \<noteq> []" using assms(1) by simp
  have "reg_bits ref w (bl808_sec_eng_crc_update data w poly crc ref) = fold (crc_octet ?p) (map (byte_bits ref) data) (reg_bits ref w crc)"
    using fold_reflected [OF assms _ refl, of "crc AND mask w" "poly AND mask w" data] fold_unreflected [OF assms, of "poly AND mask w" data "crc AND mask w"]
    by (cases ref) (simp_all add: bl808_sec_eng_crc_update_def Let_def crc_mask [OF assms(2)])
  then show ?thesis using crc_division_bytes [OF _ p, of "reg_bits ref w crc" "map (byte_bits ref) data"] assms(1) by simp
qed

lemma crc_finalize_bits:
  assumes "w \<le> 32"
  shows "reg_bits dout_ref w (bl808_sec_eng_crc_finalize w crc din_ref dout_ref dout_inv) = map (\<lambda>b. b \<noteq> dout_inv) (reg_bits din_ref w crc)"
  using assms by (intro nth_equalityI) (auto simp: nth_reg_bits bl808_sec_eng_crc_finalize_def Let_def crc_mask bit_simps reflect_bit)

lemma crc_restore:
  assumes "w \<le> 32"
  shows "bl808_sec_eng_crc_restore_state w (bl808_sec_eng_crc_finalize w crc din_ref dout_ref dout_inv) din_ref dout_ref dout_inv = crc AND mask w"
  using assms by (intro bit_word_eqI)
    (auto simp: bl808_sec_eng_crc_finalize_def bl808_sec_eng_crc_restore_state_def Let_def crc_mask bit_simps reflect_bit)

lemma fold_masked:
  fixes f :: "u32 \<Rightarrow> u32"
  assumes "\<And>x. f x AND m = f x" "crc AND m = crc"
  shows "fold (\<lambda>d crc. (f ^^ 8) (g d crc)) data crc AND m = fold (\<lambda>d crc. (f ^^ 8) (g d crc)) data crc"
proof -
  have "(f ^^ 8) x AND m = (f ^^ 8) x" for x using assms(1) [of "(f ^^ 7) x"] by (simp add: numeral_eq_Suc)
  then show ?thesis using assms(2) by (induction data rule: rev_induct) simp_all
qed

lemma crc_update_append:
  "bl808_sec_eng_crc_update (xs @ ys) w poly crc ref = bl808_sec_eng_crc_update ys w poly (bl808_sec_eng_crc_update xs w poly crc ref) ref"
proof -
  let ?m = "bl808_sec_eng_crc_mask w"
  have "crc_ref_bit ?m q x AND ?m = crc_ref_bit ?m q x" for q x by (simp add: crc_ref_bit_def and.assoc)
  moreover have "crc_top_bit w ?m (q AND ?m) x AND ?m = crc_top_bit w ?m (q AND ?m) x" for q x
    by (simp add: crc_top_bit_def and.assoc bit.conj_xor_distrib2)
  ultimately show ?thesis by (simp add: bl808_sec_eng_crc_update_def Let_def and.assoc fold_masked)
qed

lemma crc_update_masked: "bl808_sec_eng_crc_update xs w poly (crc AND bl808_sec_eng_crc_mask w) ref = bl808_sec_eng_crc_update xs w poly crc ref"
  by (simp add: bl808_sec_eng_crc_update_def Let_def and.assoc)

end
