(* ===== verification/Sec_Props.thy ===== *)
theory Sec_Props
  imports Sec_Eng Sec_Xts Sec_Crc
begin

text \<open>
  What the security engine guarantees at its registers: every operation completes, its block modes are
  those of the standards, and what the AES engine encrypts it decrypts.
\<close>

section \<open>Every access returns\<close>

lemma set_reg_simps [simp]:
  "sec_regs (set_reg i v s) = (sec_regs s)(i := v)" "trng_state (set_reg i v s) = trng_state s"
  "sha_accum (set_reg i v s) = sha_accum s" "sha_accum_cap (set_reg i v s) = sha_accum_cap s" "efuse_shadow (set_reg i v s) = efuse_shadow s"
  by (simp_all add: set_reg_def)

lemma sec_update_irq_simps [simp]:
  "sec_regs (bl808_sec_eng_update_irq s) = sec_regs s" "trng_state (bl808_sec_eng_update_irq s) = trng_state s"
  "sha_accum (bl808_sec_eng_update_irq s) = sha_accum s" "sha_accum_cap (bl808_sec_eng_update_irq s) = sha_accum_cap s"
  "efuse_shadow (bl808_sec_eng_update_irq s) = efuse_shadow s"
  by (simp_all add: bl808_sec_eng_update_irq_def)

lemma high_half: "drop_bit 16 (x AND 0xFFFF0000) = drop_bit 16 (x :: u32)"
proof -
  have "0xFFFF0000 = (NOT (mask 16) :: u32)" by (simp add: mask_numeral)
  then have "drop_bit 16 (x AND 0xFFFF0000) = drop_bit 16 (x AND NOT (mask 16))" by (simp only:)
  also have "\<dots> = drop_bit 16 x" by (rule bit_word_eqI) (auto simp: bit_simps dest: bit_imp_le_length)
  finally show ?thesis .
qed

lemma high_half_blocks: "unat (drop_bit 16 (x AND 0xFFFF0000) * 16 :: u32) = 16 * (unat x div 65536)"
proof -
  have "unat x div 65536 < 65536" using unat32_lt [of x] by (simp add: div_less_iff_less_mult del: unat32_lt)
  then show ?thesis unfolding high_half by (simp add: unat_word_ariths unat_drop_bit mult.commute)
qed

lemma run_aes_returns: "\<exists>ctrl' m'. bl808_sec_eng_run_aes ops ctrl m s = Some (bl808_sec_eng_complete_aes ctrl' s, m')"
  using run_aes_crypt_returns unfolding bl808_sec_eng_run_aes_def Let_def high_half_blocks
  by (fastforce split: option.split)

lemma run_sha_finishes: "\<exists>s' m'. bl808_sec_eng_run_sha ops ctrl m s = (sha_finish ctrl s', m')"
  by (auto simp: bl808_sec_eng_run_sha_def run_sha_link_def run_sha_direct_def Let_def split: option.split prod.split)

lemma finish_regs:
  "sec_regs (sha_finish ctrl s) = (sec_regs s)(2 := 0, 0 := (ctrl AND NOT 1 AND NOT 2) OR 0x100)"
  "sec_regs (bl808_sec_eng_complete_aes ctrl s) = (sec_regs s)(64 := (ctrl AND NOT 1 AND NOT 2) OR 0x100, 67 := 0)"
  by (simp_all add: sha_finish_def bl808_sec_eng_complete_sha_def bl808_sec_eng_complete_aes_def)

lemma completed_bits: "((c AND NOT 1 AND NOT 2) OR 0x100) AND 0x103 = (0x100 :: u32)"
  by (simp add: bit.conj_disj_distrib2 and.assoc word_ao_absorbs)

text \<open>
  C29. Every write to a register of the security engine returns, whatever the libraries behind it
  answer and whatever descriptor it follows, and a SHA or AES operation that was started is then complete:
  the busy and trigger bits of its control register are clear and its interrupt is pending.
\<close>

theorem sec_write_completes:
  "\<exists>s' m'. bl808_sec_eng_write ops offset v access_size (s, m) = Some (s', m') \<and>
    (access_size = 4 \<and> (offset = 0x000 \<or> offset = 0x100) \<and> tst (ucast v :: u32) 2 \<longrightarrow>
      sec_regs s' (unat offset div 4) AND 0x103 = 0x100)"
proof (cases "access_size = 4 \<and> (offset = 0x000 \<or> offset = 0x100) \<and> tst (ucast v :: u32) 2")
  case True
  then consider (sha) "offset = 0x000" | (aes) "offset = 0x100" by blast
  then show ?thesis
  proof cases
    case sha
    then have "\<exists>ctrl s1. bl808_sec_eng_write ops offset v access_size (s, m) = Some (bl808_sec_eng_run_sha ops ctrl m s1)"
      using True by (auto simp: bl808_sec_eng_write_def bl808_sec_eng_write_sha_def Let_def)
    then obtain ctrl s1 m1 where "bl808_sec_eng_write ops offset v access_size (s, m) = Some (sha_finish ctrl s1, m1)"
      using run_sha_finishes by metis
    then show ?thesis using sha completed_bits by (simp add: finish_regs)
  next
    case aes
    then have "\<exists>ctrl s1. bl808_sec_eng_write ops offset v access_size (s, m) = bl808_sec_eng_run_aes ops ctrl m s1"
      using True by (auto simp: bl808_sec_eng_write_def bl808_sec_eng_write_aes_def Let_def tst_def)
    then obtain ctrl s1 m1 where "bl808_sec_eng_write ops offset v access_size (s, m) = Some (bl808_sec_eng_complete_aes ctrl s1, m1)"
      using run_aes_returns by metis
    then show ?thesis using aes completed_bits by (simp add: finish_regs)
  qed
next
  case False
  have "bl808_sec_eng_write_aes ops w m s \<noteq> None" for w
    using run_aes_returns by (fastforce simp: bl808_sec_eng_write_aes_def Let_def)
  then show ?thesis using False by (auto simp: bl808_sec_eng_write_def Let_def)
qed

section \<open>Control registers\<close>

lemma bit_256: "bit (0x100 :: u32) n \<longleftrightarrow> n = 8"
proof -
  have "(0x100 :: u32) = 2 ^ 8" by simp
  then show ?thesis by (simp only: bit_exp_iff) auto
qed

lemma int_bits_bit: "n \<noteq> 8 \<Longrightarrow> bit (int_bits v c) n = bit c n"
proof -
  assume n: "n \<noteq> 8"
  define k :: u32 where "k = 0x100"
  have k: "\<not> bit k n" unfolding k_def bit_256 by (rule n)
  have "bit (c AND NOT k) n = bit c n"
    using k bit_imp_le_length [of c n] by (auto simp: bit_and_iff bit_not_iff)
  moreover have "bit (x OR k) n = bit x n" for x using k by (simp add: bit_or_iff)
  ultimately show ?thesis unfolding int_bits_def Let_def k_def [symmetric] by simp
qed

lemma ctrl_fields:
  assumes "x AND 0x100 = 0" "x AND 1 = 0"
  shows "((int_bits v ((c AND NOT x) OR (v AND x))) OR 1) AND x = v AND x"
proof (rule bit_word_eqI)
  fix n
  have "bit (x AND 0x100) n = False" "bit (x AND 1) n = False" for n using assms by simp_all
  then have "bit x n \<Longrightarrow> n \<noteq> 8 \<and> n \<noteq> 0" unfolding bit_and_iff bit_256 by (auto simp: bit_1_iff)
  then show "bit (((int_bits v ((c AND NOT x) OR (v AND x))) OR 1) AND x) n = bit (v AND x) n"
    by (cases "bit x n") (auto simp: bit_and_iff bit_or_iff bit_not_iff int_bits_bit bit_1_iff)
qed

lemma and_submask: "(a :: u32) AND x = b AND x \<Longrightarrow> y AND x = y \<Longrightarrow> a AND y = b AND y"
  by (metis and.commute and.left_commute)

section \<open>AES\<close>

text \<open>
  A control word that works on the registers: the job it describes depends on few of its bits and, source and
  destination apart, on registers that no operation changes.
\<close>

definition job_at :: "hwaddr \<Rightarrow> hwaddr \<Rightarrow> aes_job \<Rightarrow> aes_job" where
  "job_at src dst j = j\<lparr>job_src := src, job_dst := dst\<rparr>"

lemma job_at_simps [simp]:
  "job_src (job_at x y j) = x" "job_dst (job_at x y j) = y" "job_key (job_at x y j) = job_key j" "job_alg (job_at x y j) = job_alg j"
  "job_iv (job_at x y j) = job_iv j" "job_unit_len (job_at x y j) = job_unit_len j" "job_single (job_at x y j) = job_single j"
  by (simp_all add: job_at_def)

definition same_setup :: "BL808SecEngState \<Rightarrow> BL808SecEngState \<Rightarrow> bool" where
  "same_setup s t \<longleftrightarrow> (\<forall>i. i \<notin> {64, 65, 66, 67} \<longrightarrow> sec_regs s i = sec_regs t i) \<and> efuse_shadow s = efuse_shadow t"

lemma reg_job_at:
  assumes "a AND 0x3098 = b AND 0x3098" "same_setup s t"
  shows "aes_reg_job a s = map_option (job_at (ucast (sec_regs s 65)) (ucast (sec_regs s 66))) (aes_reg_job b t)"
proof -
  have regs: "sec_regs s i = sec_regs t i" if "i \<notin> {64, 65, 66, 67}" for i using assms(2) that by (simp add: same_setup_def)
  have "a AND 0x3000 = b AND 0x3000" "a AND 0x18 = b AND 0x18" "a AND 0x80 = b AND 0x80"
    by (rule and_submask [OF assms(1)], simp)+
  moreover have "bl808_sec_eng_load_hw_key_slot s = bl808_sec_eng_load_hw_key_slot t"
    using assms(2) by (simp add: fun_eq_iff same_setup_def bl808_sec_eng_load_hw_key_slot_def)
  moreover have "sec_regs s (71 - i) = sec_regs t (71 - i)" if "i < 4" for i using that by (intro regs) auto
  then have "map (\<lambda>i. stl_be_p (sec_regs s (71 - i))) [0..<4] = map (\<lambda>i. stl_be_p (sec_regs t (71 - i))) [0..<4]" by simp
  moreover have "sec_regs s (68 + i) = sec_regs t (68 + i)" "sec_regs s (72 + i) = sec_regs t (72 + i)" for i
    by (rule regs, simp)+
  ultimately have parts: "bl808_sec_eng_build_iv_regs a s = bl808_sec_eng_build_iv_regs b t"
    "bl808_sec_eng_build_aes_hw_key a s = bl808_sec_eng_build_aes_hw_key b t"
    "bl808_sec_eng_build_aes_key_regs a s = bl808_sec_eng_build_aes_key_regs b t" "a AND 0x3000 = b AND 0x3000" "tst a 0x80 = tst b 0x80"
    using regs by (simp_all only: bl808_sec_eng_build_iv_regs_def bl808_sec_eng_build_aes_hw_key_def
      bl808_sec_eng_build_aes_key_regs_def bl808_sec_eng_aes_mode_def key_mode_def tst_def) simp_all
  have comp: "map_option f x = map_option g (map_option h x)" if "\<And>p. f p = g (h p)" for f g h and x :: "(u8 list \<times> cipher_algo) option"
    using that by (cases x) simp_all
  show ?thesis unfolding aes_reg_job_def Let_def parts
    by (rule comp) (use regs [of 83] in \<open>simp add: job_at_def split: prod.split\<close>)
qed

lemma aes_crypt_cong:
  "a AND 0xFFFFF8BC = b AND 0xFFFFF8BC \<Longrightarrow> bl808_sec_eng_run_aes_crypt ops a = bl808_sec_eng_run_aes_crypt ops b"
proof -
  assume "a AND 0xFFFFF8BC = b AND 0xFFFFF8BC"
  note mask = and_submask [OF this]
  have "a AND 0x3000 = b AND 0x3000" "a AND 0x20 = b AND 0x20" by (rule mask, simp)+
  then have "bl808_sec_eng_aes_mode a = bl808_sec_eng_aes_mode b" "tst a 0x20 = tst b 0x20"
    by (simp_all only: bl808_sec_eng_aes_mode_def tst_def)
  then show ?thesis by (simp add: fun_eq_iff bl808_sec_eng_run_aes_crypt_def)
qed

lemma aes_trigger:
  assumes v: "tst v 2" "\<not> tst v 0x8000" and j: "aes_reg_job v s = Some j"
  obtains s' where "same_setup s' s"
    "bl808_sec_eng_write ops 0x100 (ucast v) 4 (s, m) =
       (if unat v div 65536 = 0 then Some (s', m)
        else map_option (\<lambda>m'. (s', case m' of None \<Rightarrow> m | Some m' \<Rightarrow> m'))
          (bl808_sec_eng_run_aes_crypt ops v (job_src j) (job_dst j) (job_key j) (job_alg j) (job_iv j) (job_unit_len j) (job_single j) (16 * (unat v div 65536)) m))"
proof -
  define ctrl where "ctrl = int_bits v ((sec_regs s 64 AND NOT 0xFFFFF8BC) OR (v AND 0xFFFFF8BC)) OR 1"
  define t where "t = set_reg 64 ctrl s"
  have eq: "ctrl AND 0xFFFFF8BC = v AND 0xFFFFF8BC" unfolding ctrl_def by (rule ctrl_fields) simp_all
  have fields: "ctrl AND 0x3098 = v AND 0x3098" by (rule and_submask [OF eq]) simp
  have job: "aes_reg_job ctrl t = Some j"
    using reg_job_at [OF fields, of t s] reg_job_at [of v v s s] j by (simp add: t_def same_setup_def)
  have "ctrl AND 0x8000 = v AND 0x8000" "ctrl AND 0xFFFF0000 = v AND 0xFFFF0000" by (rule and_submask [OF eq], simp)+
  then have "\<not> tst ctrl 0x8000" "unat (drop_bit 16 (ctrl AND 0xFFFF0000) * 16) = 16 * (unat v div 65536)"
    using v(2) high_half_blocks [of v] by (simp add: tst_def, simp only:)
  then have run: "bl808_sec_eng_run_aes ops ctrl m t =
      (if unat v div 65536 = 0 then Some (bl808_sec_eng_complete_aes ctrl t, m)
       else map_option (\<lambda>m'. (bl808_sec_eng_complete_aes ctrl t, case m' of None \<Rightarrow> m | Some m' \<Rightarrow> m'))
         (bl808_sec_eng_run_aes_crypt ops v (job_src j) (job_dst j) (job_key j) (job_alg j) (job_iv j) (job_unit_len j) (job_single j) (16 * (unat v div 65536)) m))"
    using job by (simp add: bl808_sec_eng_run_aes_def Let_def aes_crypt_cong [OF eq])
  have "bl808_sec_eng_write ops 0x100 (ucast v) 4 (s, m) = bl808_sec_eng_run_aes ops ctrl m t"
    using v(1) by (simp add: bl808_sec_eng_write_def bl808_sec_eng_write_aes_def Let_def ucast_ucast_same tst_def ctrl_def t_def)
  with run show ?thesis
    by (intro that [of "bl808_sec_eng_complete_aes ctrl t"]) (simp_all add: finish_regs t_def same_setup_def, simp add: bl808_sec_eng_complete_aes_def)
qed

text \<open>What the job of a control word makes of the data, in the modes that the engine implements itself.\<close>

definition aes_result :: "(cipher_algo \<Rightarrow> u8 list \<Rightarrow> u8 list \<Rightarrow> u8 list) \<Rightarrow> (cipher_algo \<Rightarrow> u8 list \<Rightarrow> u8 list \<Rightarrow> u8 list) \<Rightarrow> u32 \<Rightarrow> aes_job \<Rightarrow> nat \<Rightarrow> u8 list \<Rightarrow> u8 list" where
  "aes_result Enc Dec v j n data =
     (let alg = job_alg j; k = length (job_key j) div 2 in
      if bl808_sec_eng_aes_mode v = Some CTR then ctr_spec (Enc alg (job_key j)) (le_nat (rev (job_iv j))) data
      else xts_spec ((if tst v 0x20 then Dec else Enc) alg (take k (job_key j))) (Enc alg (drop k (job_key j)))
        (xts_unit_blocks (job_unit_len j) (job_single j) n) (le_nat (job_iv j)) data)"

lemma aes_result_at: "aes_result Enc Dec v (job_at x y j) = aes_result Enc Dec v j"
  by (simp add: fun_eq_iff aes_result_def Let_def)

lemma length_stores:
  "length (concat (map (\<lambda>i. stl_le_p (f i)) [0..<n])) = 4 * n" "length (concat (map (\<lambda>i. stl_be_p (f i)) [0..<n])) = 4 * n"
  by (induction n) (simp_all add: stl_le_p_def stl_be_p_def)

text \<open>The key of a job has the length of its algorithm, twice in XTS mode.\<close>

definition key_fits :: "u32 \<Rightarrow> aes_job \<Rightarrow> bool" where
  "key_fits v j \<longleftrightarrow> length (job_key j) = (if bl808_sec_eng_aes_mode v = Some XTS then 2 else 1) * aes_key_len (job_alg j)"

lemma reg_job_shape:
  assumes "aes_reg_job v s = Some j" "\<not> tst v 0x80"
  shows "length (job_iv j) = 16" "key_fits v j"
proof -
  have iv: "length (bl808_sec_eng_build_iv_regs v s) = 16"
    by (auto simp: bl808_sec_eng_build_iv_regs_def length_stores split: option.split simp del: upt_Suc upt_conv_Cons)
  obtain key alg where key: "bl808_sec_eng_build_aes_key_regs v s = Some (key, alg)" and j: "job_iv j = bl808_sec_eng_build_iv_regs v s" "job_key j = key" "job_alg j = alg"
    using assms by (auto simp: aes_reg_job_def Let_def split: option.splits)
  have "length key = (if bl808_sec_eng_aes_mode v = Some XTS then 2 else 1) * aes_key_len alg"
    using key by (auto simp: bl808_sec_eng_build_aes_key_regs_def Let_def length_stores aes_key_len_def split: option.splits if_splits)
  then show "length (job_iv j) = 16" "key_fits v j" using iv j by (simp_all add: key_fits_def)
qed

lemma run_crypt_result:
  assumes ecb: "\<And>alg. ecb_cipher ops alg (Enc alg) (Dec alg)" and mode: "bl808_sec_eng_aes_mode v \<in> {Some CTR, Some XTS}"
    and shape: "length (job_iv j) = 16" "key_fits v j"
  shows "bl808_sec_eng_run_aes_crypt ops v src dst (job_key j) (job_alg j) (job_iv j) (job_unit_len j) (job_single j) (16 * n) m =
    Some (Some (store_bytes dst (aes_result Enc Dec v j n (bl808_sec_eng_read_guest src (16 * n) m)) m))"
proof -
  have "length (bl808_sec_eng_read_guest src (16 * n) m) = 16 * n" by (simp add: bl808_sec_eng_read_guest_def)
  then show ?thesis
    using mode aes_ctr_spec [OF ecb _ shape(1), of _ _ "job_key j" "job_alg j"] aes_xts_spec [OF ecb _ shape(1), of "job_key j" "job_alg j"] shape(2)
    by (auto simp: bl808_sec_eng_run_aes_crypt_def aes_result_def Let_def key_fits_def)
qed

lemma aes_result_inverse:
  assumes ecb: "\<And>alg. ecb_cipher ops alg (Enc alg) (Dec alg)" and data: "length data = 16 * n" "\<not> tst v 0x20"
    and fits: "key_fits v j" and mode: "bl808_sec_eng_aes_mode v \<in> {Some CTR, Some XTS}"
  shows "aes_result Enc Dec (v OR 0x20) j n (aes_result Enc Dec v j n data) = data" "length (aes_result Enc Dec v j n data) = 16 * n"
proof -
  let ?alg = "job_alg j"
  have block: "length (Enc ?alg key b) = 16 \<and> Dec ?alg key (Enc ?alg key b) = b" if "length key = aes_key_len ?alg" "length b = 16" for key b
    using ecb [of ?alg] that by (auto simp: ecb_cipher_def)
  have same: "bl808_sec_eng_aes_mode (v OR 0x20) = bl808_sec_eng_aes_mode v" "tst (v OR 0x20) 0x20"
    by (simp_all add: bl808_sec_eng_aes_mode_def tst_def bit.conj_disj_distrib2)
  consider (ctr) "bl808_sec_eng_aes_mode v = Some CTR" "length (job_key j) = aes_key_len ?alg"
    | (xts) "bl808_sec_eng_aes_mode v = Some XTS" "length (take (length (job_key j) div 2) (job_key j)) = aes_key_len ?alg"
    using mode fits by (auto simp: key_fits_def)
  then have "aes_result Enc Dec (v OR 0x20) j n (aes_result Enc Dec v j n data) = data \<and> length (aes_result Enc Dec v j n data) = 16 * n"
  proof cases
    case ctr
    then show ?thesis using ctr_inverse [OF data(1), of "Enc ?alg (job_key j)"] block [OF ctr(2)] same by (simp add: aes_result_def Let_def)
  next
    case xts
    note inv = xts_inverse [OF data(1), where ?E1.0 = "Enc ?alg k" and ?D1.0 = "Dec ?alg k" for k, OF block [OF xts(2)]]
    show ?thesis using inv same xts(1) data(2) by (simp add: aes_result_def Let_def)
  qed
  then show "aes_result Enc Dec (v OR 0x20) j n (aes_result Enc Dec v j n data) = data" "length (aes_result Enc Dec v j n data) = 16 * n"
    by simp_all
qed

section \<open>Encryption and decryption through the registers\<close>

fun sec_writes :: "('c, 'h) crypto_ops \<Rightarrow> (hwaddr \<times> u32) list \<Rightarrow> BL808SecEngState \<times> gmem \<Rightarrow> (BL808SecEngState \<times> gmem) option" where
  "sec_writes ops [] sm = Some sm"
| "sec_writes ops ((offset, v) # ws) sm =
     (case bl808_sec_eng_write ops offset (ucast v) 4 sm of None \<Rightarrow> None | Some sm \<Rightarrow> sec_writes ops ws sm)"

lemma write_plain:
  "bl808_sec_eng_write ops 0x104 (ucast (v :: u32)) 4 (s, m) = Some (set_reg 65 v s, m)"
  "bl808_sec_eng_write ops 0x108 (ucast v) 4 (s, m) = Some (set_reg 66 v s, m)"
  "bl808_sec_eng_write ops 0x004 (ucast v) 4 (s, m) = Some (set_reg 1 v s, m)"
  by (simp_all add: bl808_sec_eng_write_def tst_def ucast_ucast_same)

lemma store_bytes_at:
  "length bs \<le> 2 ^ 64 \<Longrightarrow> store_bytes a bs m x = (if unat (x - a) < length bs then bs ! unat (x - a) else m x)"
proof (induction bs arbitrary: a m)
  case (Cons b bs)
  show ?case
  proof (cases "x = a")
    case True
    have "unat (a - (a + 1)) = 2 ^ 64 - 1" by (simp add: unsigned_minus_1_eq_mask mask_numeral)
    then show ?thesis using Cons True by simp
  next
    case False
    then have "unat (x - a) = Suc (unat (x - (a + 1)))" using unat_minus_1 [of "x - a"] by (simp add: diff_diff_add unat_gt_0)
    then show ?thesis using Cons False by simp
  qed
qed simp

lemma read_stored: "length bs \<le> 2 ^ 63 \<Longrightarrow> bl808_sec_eng_read_guest a (length bs) (store_bytes a bs m) = bs"
  by (intro nth_equalityI) (simp_all add: bl808_sec_eng_read_guest_def store_bytes_at unat_of_nat_small)

lemma aes_one_run:
  assumes ecb: "\<And>alg. ecb_cipher ops alg (Enc alg) (Dec alg)"
    and v: "tst v 2" "\<not> tst v 0x8000" "\<not> tst v 0x80" "bl808_sec_eng_aes_mode v \<in> {Some CTR, Some XTS}" and j: "aes_reg_job v s = Some j"
  obtains s' where "same_setup s' s"
    "sec_writes ops [(0x104, src), (0x108, dst), (0x100, v)] (s, m) =
       Some (s', store_bytes (ucast dst) (aes_result Enc Dec v j (unat v div 65536) (bl808_sec_eng_read_guest (ucast src) (16 * (unat v div 65536)) m)) m)"
proof -
  let ?n = "unat v div 65536" and ?t = "set_reg 66 dst (set_reg 65 src s)" and ?j = "job_at (ucast src) (ucast dst) j"
  note shape = reg_job_shape [OF j v(3)]
  have t: "same_setup ?t s" by (simp add: same_setup_def)
  then have "aes_reg_job v ?t = Some ?j" using reg_job_at [of v v ?t s] j by simp
  then obtain s' where s': "same_setup s' ?t"
    "bl808_sec_eng_write ops 0x100 (ucast v) 4 (?t, m) =
       (if ?n = 0 then Some (s', m)
        else map_option (\<lambda>m'. (s', case m' of None \<Rightarrow> m | Some m' \<Rightarrow> m'))
          (bl808_sec_eng_run_aes_crypt ops v (job_src ?j) (job_dst ?j) (job_key ?j) (job_alg ?j) (job_iv ?j) (job_unit_len ?j) (job_single ?j) (16 * ?n) m))"
    using aes_trigger [OF v(1,2)] by metis
  have "aes_result Enc Dec v j 0 [] = []" by (simp add: aes_result_def Let_def ctr_spec_def xts_spec_def block_map_def)
  then have "bl808_sec_eng_write ops 0x100 (ucast v) 4 (?t, m) =
      Some (s', store_bytes (ucast dst) (aes_result Enc Dec v j ?n (bl808_sec_eng_read_guest (ucast src) (16 * ?n) m)) m)"
    using s'(2) run_crypt_result [OF ecb v(4) shape, of "ucast src" "ucast dst" ?n m]
    by (cases "?n = 0") (simp_all add: bl808_sec_eng_read_guest_def)
  then show ?thesis using s'(1) t by (intro that [of s']) (simp_all add: write_plain same_setup_def)
qed

lemma sec_writes_append:
  "sec_writes ops (xs @ ys) sm = (case sec_writes ops xs sm of None \<Rightarrow> None | Some sm \<Rightarrow> sec_writes ops ys sm)"
  by (induction xs arbitrary: sm) (auto split: option.split)

text \<open>
  C16. What the AES engine encrypts it decrypts: a driver that programs source, destination and control
  register to encrypt in counter or XTS mode with the key registers, and then decrypts the result to a
  second destination, finds there the bytes it started with.  The block cipher of the library is
  only assumed to accept keys of its length and to have an inverse for them.
\<close>

theorem sec_aes_roundtrip:
  assumes ecb: "\<And>alg. ecb_cipher ops alg (Enc alg) (Dec alg)"
    and v: "tst v 2" "\<not> tst v 0x8000" "\<not> tst v 0x80" "\<not> tst v 0x20" "bl808_sec_eng_aes_mode v \<in> {Some CTR, Some XTS}"
    and job: "aes_reg_job v s \<noteq> None" and data: "data = bl808_sec_eng_read_guest (ucast src) (16 * (unat v div 65536)) m"
  shows "\<exists>s' out. length out = length data \<and>
    sec_writes ops [(0x104, src), (0x108, dst), (0x100, v), (0x104, dst), (0x108, dst2), (0x100, v OR 0x20)] (s, m) =
      Some (s', store_bytes (ucast dst2) data (store_bytes (ucast dst) out m))"
proof -
  let ?n = "unat v div 65536" and ?v = "v OR 0x20"
  obtain j where j: "aes_reg_job v s = Some j" using job by blast
  have len: "length data = 16 * ?n" by (simp add: data bl808_sec_eng_read_guest_def)
  define out where "out = aes_result Enc Dec v j ?n data"
  note inv = aes_result_inverse [OF ecb len v(4) reg_job_shape(2) [OF j v(3)] v(5), folded out_def]
  obtain s1 where s1: "same_setup s1 s" "sec_writes ops [(0x104, src), (0x108, dst), (0x100, v)] (s, m) = Some (s1, store_bytes (ucast dst) out m)"
    using aes_one_run [OF ecb v(1,2,3,5) j, of src dst m, folded data, folded out_def] by metis
  have masks: "?v AND 0x3098 = v AND 0x3098" "?v AND 0x3000 = v AND 0x3000" "?v AND 0x8000 = v AND 0x8000" "?v AND 0x80 = v AND 0x80"
    "?v AND 2 = v AND 2" "?v AND 0xFFFF0000 = v AND 0xFFFF0000" by (simp_all add: bit.conj_disj_distrib2)
  then have v': "tst ?v 2" "\<not> tst ?v 0x8000" "\<not> tst ?v 0x80" "bl808_sec_eng_aes_mode ?v \<in> {Some CTR, Some XTS}"
    using v by (simp_all only: tst_def bl808_sec_eng_aes_mode_def) simp_all
  have "drop_bit 16 ?v = drop_bit 16 v" using high_half [of ?v] high_half [of v] masks(6) by simp
  then have "unat (drop_bit 16 ?v) = unat (drop_bit 16 v)" by (simp only:)
  then have n: "unat ?v div 65536 = ?n" unfolding unat_drop_bit by simp
  obtain j2 x y where j2: "aes_reg_job ?v s1 = Some (job_at x y j)" using reg_job_at [OF masks(1) s1(1)] j by simp
  have "unat v \<le> 4294967295" using unat32_lt [of v] by linarith
  then have "?n \<le> 65536" using div_le_mono [of "unat v" 4294967295 65536] by simp
  then have "bl808_sec_eng_read_guest (ucast dst) (16 * ?n) (store_bytes (ucast dst) out m) = out"
    using read_stored [of out "ucast dst" m] inv(2) by simp
  then have "aes_result Enc Dec ?v (job_at x y j) ?n (bl808_sec_eng_read_guest (ucast dst) (16 * ?n) (store_bytes (ucast dst) out m)) = data"
    using inv(1) by (simp add: aes_result_at)
  then obtain s2 where "sec_writes ops [(0x104, dst), (0x108, dst2), (0x100, ?v)] (s1, store_bytes (ucast dst) out m) =
      Some (s2, store_bytes (ucast dst2) data (store_bytes (ucast dst) out m))"
    using aes_one_run [OF ecb v' j2, of dst dst2 "store_bytes (ucast dst) out m", unfolded n] by metis
  then show ?thesis
    using s1(2) inv(2) len sec_writes_append [of ops "[(0x104, src), (0x108, dst), (0x100, v)]" "[(0x104, dst), (0x108, dst2), (0x100, ?v)]" "(s, m)"]
    by auto
qed

text \<open>A library whose block cipher adds the key, for the examples.\<close>

definition xor_ops :: "(u8 list, unit) crypto_ops" where
  "xor_ops = \<lparr>qcrypto_hash_bytes = (\<lambda>_ bs. Some (take 4 bs)), qcrypto_cipher_supports = (\<lambda>_ mode. mode = ECB),
     qcrypto_cipher_new = (\<lambda>alg _ key. if length key = aes_key_len alg then Some key else None), qcrypto_cipher_setiv = (\<lambda>c _. Some c),
     qcrypto_cipher_encrypt = (\<lambda>c b. Some (xors8 b (take 16 (c @ replicate 16 0)), c)),
     qcrypto_cipher_decrypt = (\<lambda>c b. Some (xors8 b (take 16 (c @ replicate 16 0)), c)),
     config_gnutls = False, gmac_nonce_size = 12, gnutls_hmac_init = (\<lambda>_. None), gnutls_hmac_set_nonce = (\<lambda>h _. h),
     gnutls_hmac = (\<lambda>_ _. None), gnutls_hmac_output = (\<lambda>_. [])\<rparr>"

lemma xor_ops_cipher: "ecb_cipher xor_ops alg (\<lambda>key b. xors8 b (take 16 (key @ replicate 16 0))) (\<lambda>key b. xors8 b (take 16 (key @ replicate 16 0)))"
  by (simp add: ecb_cipher_def xor_ops_def xors8_twice)

definition sec_example :: BL808SecEngState where
  "sec_example = bl808_sec_eng_reset \<lparr>irq_id1_shared = False, irq_id0_shared = False, irq_id1_cdet = False, irq_id0_cdet = False,
     sec_regs = \<lambda>_. 0, sha_accum = [], sha_accum_cap = 0, trng_state = 0, efuse_shadow = None\<rparr>"

theorem sec_aes_roundtrip_witness:
  "\<exists>s' out. length out = 32 \<and>
    sec_writes xor_ops [(0x104, 0x1000), (0x108, 0x2000), (0x100, 0x23006), (0x104, 0x2000), (0x108, 0x3000), (0x100, 0x23026)] (sec_example, ucast) =
      Some (s', store_bytes 0x3000 (map of_nat [0..<32]) (store_bytes 0x2000 out ucast))"
proof -
  have "aes_reg_job 0x23006 sec_example \<noteq> None"
    by (simp add: aes_reg_job_def Let_def bl808_sec_eng_build_aes_key_regs_def bl808_sec_eng_aes_mode_def key_mode_def tst_def)
  moreover have "bl808_sec_eng_read_guest 0x1000 32 ucast = map of_nat [0..<32]"
    by (simp add: bl808_sec_eng_read_guest_def upt_rec)
  ultimately show ?thesis
    using sec_aes_roundtrip [OF xor_ops_cipher, of "0x23006" sec_example _ "0x1000" ucast "0x2000" "0x3000"]
    by (simp add: tst_def bl808_sec_eng_aes_mode_def)
qed

theorem sec_write_completes_witness:
  "\<exists>s' m'. bl808_sec_eng_write xor_ops 0x100 0x23006 4 (sec_example, \<lambda>_. 0) = Some (s', m') \<and> sec_regs s' 64 AND 0x103 = 0x100"
  using sec_write_completes [of xor_ops "0x100" "0x23006" 4 sec_example "\<lambda>_. 0"] by (simp add: tst_def)

text \<open>
  C15. The security engine implements counter mode and XTS as they are defined, on top of any block
  cipher of its library with a key of its length, or two in XTS: block \<open>k\<close> in counter mode is added to the encryption of the counter plus \<open>k\<close>; in
  XTS, for both directions and every size of the data unit, block \<open>j\<close> of unit \<open>u\<close> is whitened before and
  after the cipher with the encrypted number of the unit, multiplied \<open>j\<close> times by the primitive element of the
  field of \<open>2 ^ 128\<close> elements, and the loop over the units ends.
\<close>

theorem sec_block_modes_standard:
  assumes "ecb_cipher ops alg Enc Dec" "length iv = 16" "length data = 16 * n"
  shows "(length key = aes_key_len alg \<longrightarrow> aes_ctr ops alg key iv data = Some (ctr_spec (Enc key) (le_nat (rev iv)) data)) \<and>
    (length key = 2 * aes_key_len alg \<longrightarrow> aes_xts ops dec alg key iv unit_len single data =
      Some (Some (xts_spec ((if dec then Dec else Enc) (take (length key div 2) key)) (Enc (drop (length key div 2) key))
        (xts_unit_blocks unit_len single n) (le_nat iv) data)))"
  using aes_ctr_spec [OF assms(1,3,2)] aes_xts_spec [OF assms(1) _ assms(2,3)] by simp

theorem sec_block_modes_standard_witness:
  "aes_xts xor_ops False AES_128 (replicate 32 1) (replicate 16 3) 2 False (replicate 48 7) =
    Some (Some (xts_spec (\<lambda>b. xors8 b (replicate 16 1)) (\<lambda>b. xors8 b (replicate 16 1)) 2 (le_nat (replicate 16 3)) (replicate 48 7)))"
proof -
  have "take 16 (replicate 16 (1 :: u8) @ replicate 16 0) = replicate 16 1" by simp
  then show ?thesis
    using sec_block_modes_standard [OF xor_ops_cipher, of "replicate 16 3" "replicate 48 7" 3 "replicate 32 1" AES_128 False 2 False]
    by (simp add: xts_unit_blocks_def aes_key_len_def)
qed

end
