(* ===== verification/Sec_Digest.thy ===== *)
theory Sec_Digest
  imports Sec_Props
begin

text \<open>
  Digests at the registers of the security engine: messages in pieces and the layout of a digest in the
  registers.
\<close>

section \<open>Digest registers\<close>

lemma regs_fold_consecutive:
  "sec_regs (fold (\<lambda>i. set_reg (b + i) (g i)) [0..<n] s) j = (if b \<le> j \<and> j < b + n then g (j - b) else sec_regs s j)"
  by (induction n) auto

lemma rest_fold_set_reg:
  "sha_accum (fold (\<lambda>i. set_reg (f i) (g i)) is s) = sha_accum s" "trng_state (fold (\<lambda>i. set_reg (f i) (g i)) is s) = trng_state s"
  by (induction "is" arbitrary: s) simp_all

definition digest_word :: "u8 list \<Rightarrow> nat \<Rightarrow> u32" where
  "digest_word d i = ldl_le_p (drop (i * 4) (take 64 d @ replicate (64 - length d) 0))"

text \<open>
  Register \<open>k\<close> of the sixteen digest registers: digests of 64-bit words have the odd words in the low
  half and the even ones in the high half.
\<close>

definition digest_reg :: "u32 \<Rightarrow> u8 list \<Rightarrow> nat \<Rightarrow> u32" where
  "digest_reg ctrl d k =
     (if bl808_sec_eng_sha_is_64bit ctrl then digest_word d (if k < 8 then 2 * k + 1 else 2 * (k - 8)) else digest_word d k)"

lemma ldl_le_cong: "(\<And>i. i < 4 \<Longrightarrow> a ! i = b ! i) \<Longrightarrow> ldl_le_p a = ldl_le_p b"
  by (simp add: ldl_le_p_def)

lemma clear_regs: "sec_regs (bl808_sec_eng_clear_sha_output s) j = (if 4 \<le> j \<and> j < 20 then 0 else sec_regs s j)"
  unfolding bl808_sec_eng_clear_sha_output_def by (subst regs_fold_consecutive) simp

lemma digest_word_chunk:
  assumes "length d \<le> 64" "i * 4 < length d"
  shows "ldl_le_p (take 4 (drop (i * 4) d) @ replicate (4 - length (take 4 (drop (i * 4) d))) 0) = digest_word d i"
  unfolding digest_word_def
proof (rule ldl_le_cong)
  fix k :: nat assume k: "k < 4"
  have "i < 16" using assms by linarith
  then have "k + i * 4 - length d < 64 - length d \<or> k + i * 4 < length d" using k by linarith
  then show "(take 4 (drop (i * 4) d) @ replicate (4 - length (take 4 (drop (i * 4) d))) 0) ! k = drop (i * 4) (take 64 d @ replicate (64 - length d) 0) ! k"
    using assms k by (cases "k + i * 4 < length d") (auto simp: nth_append add.commute)
qed

lemma digest_word_beyond:
  assumes "length d \<le> i * 4" "i < 16"
  shows "digest_word d i = 0"
proof -
  have "(drop (i * 4) (take 64 d @ replicate (64 - length d) 0)) ! k = 0" if "k < 4" for k
    using assms that by (simp add: nth_append)
  then show ?thesis by (simp add: digest_word_def ldl_le_p_def)
qed

definition digest_slot :: "nat \<Rightarrow> nat" where
  "digest_slot i = (if even i then 12 + i div 2 else 4 + i div 2)"

lemma regs_fold_slots:
  "n \<le> 16 \<Longrightarrow> sec_regs (fold (\<lambda>i. set_reg (digest_slot i) (g i)) [0..<n] s) (4 + k) =
    (let i = (if k < 8 then 2 * k + 1 else 2 * (k - 8)) in if i < n then g i else sec_regs s (4 + k))"
proof (induction n)
  case (Suc n)
  have "4 + k = digest_slot n \<longleftrightarrow> n = (if k < 8 then 2 * k + 1 else 2 * (k - 8))"
    using Suc.prems by (auto simp: digest_slot_def)
  then show ?case using Suc by (auto simp: Let_def)
qed simp

lemma store_sha_output_regs:
  assumes "length d \<le> 64" "k < 16"
  shows "sec_regs (bl808_sec_eng_store_sha_output ctrl d s) (4 + k) = digest_reg ctrl d k"
proof (cases "bl808_sec_eng_sha_is_64bit ctrl")
  case True
  let ?w = "(length d + 3) div 4" and ?i = "if k < 8 then 2 * k + 1 else 2 * (k - 8)"
  let ?g = "\<lambda>i. ldl_le_p (take 4 (drop (i * 4) d) @ replicate (4 - length (take 4 (drop (i * 4) d))) 0)"
  have w: "?w \<le> 16" using assms(1) by auto
  have "bl808_sec_eng_store_sha_output ctrl d s = fold (\<lambda>i. set_reg (digest_slot i) (?g i)) [0..<?w] (bl808_sec_eng_clear_sha_output s)"
    using True by (simp add: bl808_sec_eng_store_sha_output_def Let_def digest_slot_def)
  then have "sec_regs (bl808_sec_eng_store_sha_output ctrl d s) (4 + k) = (if ?i < ?w then ?g ?i else 0)"
    using regs_fold_slots [OF w] clear_regs [of s "4 + k"] assms(2) by (simp add: Let_def)
  moreover have "?i < ?w \<Longrightarrow> ?i * 4 < length d" "\<not> ?i < ?w \<Longrightarrow> length d \<le> ?i * 4" "?i < 16" using assms(2) by auto
  ultimately show ?thesis using True digest_word_chunk [OF assms(1)] digest_word_beyond by (simp add: digest_reg_def)
next
  case False
  then show ?thesis using assms(2)
    by (simp add: bl808_sec_eng_store_sha_output_def bl808_sec_eng_store_words_le_def Let_def regs_fold_consecutive digest_reg_def digest_word_def)
qed

section \<open>Messages in pieces\<close>

lemma sha_fields:
  assumes "a AND 0xFFFFB87C = b AND 0xFFFFB87C"
  shows "bl808_sec_eng_sha_mode a = bl808_sec_eng_sha_mode b" "bl808_sec_eng_sha_mode_ext a = bl808_sec_eng_sha_mode_ext b"
    "msg_blocks a = msg_blocks b" "tst a 0x40 = tst b 0x40" "tst a 0x8000 = tst b 0x8000"
proof -
  note mask = and_submask [OF assms]
  have "a AND 0x1C = b AND 0x1C" "a AND 0x3000 = b AND 0x3000" "a AND 0xFFFF0000 = b AND 0xFFFF0000" "a AND 0x40 = b AND 0x40" "a AND 0x8000 = b AND 0x8000"
    by (rule mask, simp)+
  then show "bl808_sec_eng_sha_mode a = bl808_sec_eng_sha_mode b" "bl808_sec_eng_sha_mode_ext a = bl808_sec_eng_sha_mode_ext b"
    "msg_blocks a = msg_blocks b" "tst a 0x40 = tst b 0x40" "tst a 0x8000 = tst b 0x8000"
    by (simp_all only: bl808_sec_eng_sha_mode_def bl808_sec_eng_sha_mode_ext_def msg_blocks_def tst_def)
qed

lemma sha_trigger:
  assumes "tst v 2" "\<not> tst v 0x8000"
  obtains ctrl where "ctrl AND 0xFFFFB87C = v AND 0xFFFFB87C"
    "bl808_sec_eng_write ops 0 (ucast v) 4 (s, m) = Some (run_sha_direct ops ctrl m (set_reg 0 ctrl s), m)"
proof -
  define ctrl where "ctrl = int_bits v ((sec_regs s 0 AND NOT 0xFFFFB87C) OR (v AND 0xFFFFB87C)) OR 1"
  have eq: "ctrl AND 0xFFFFB87C = v AND 0xFFFFB87C" unfolding ctrl_def by (rule ctrl_fields) simp_all
  then have "\<not> tst ctrl 0x8000" using sha_fields(5) assms(2) by blast
  then have "bl808_sec_eng_write ops 0 (ucast v) 4 (s, m) = Some (run_sha_direct ops ctrl m (set_reg 0 ctrl s), m)"
    using assms(1) by (simp add: bl808_sec_eng_write_def bl808_sec_eng_write_sha_def bl808_sec_eng_run_sha_def Let_def ucast_ucast_same tst_def ctrl_def)
  with eq show ?thesis by (rule that)
qed

text \<open>The registers of a piece: its address, and a control word that starts a message or goes on with one.\<close>

definition sha_piece :: "u32 \<Rightarrow> u32 \<Rightarrow> u32 \<times> nat \<Rightarrow> (hwaddr \<times> u32) list" where
  "sha_piece base sel = (\<lambda>(src, n). [(0x004, src), (0x000, base OR 2 OR sel OR push_bit 16 (of_nat n))])"

fun sha_program :: "u32 \<Rightarrow> (u32 \<times> nat) list \<Rightarrow> (hwaddr \<times> u32) list" where
  "sha_program base [] = []"
| "sha_program base (p # ps) = sha_piece base 0 p @ concat (map (sha_piece base 0x40) ps)"

definition sha_base :: "u32 \<Rightarrow> bool" where
  "sha_base base \<longleftrightarrow> base AND NOT 0x383C = 0"

lemma and_not_zero: "(x :: u32) AND NOT k = 0 \<Longrightarrow> x AND k = x"
proof (rule bit_word_eqI)
  fix n assume "x AND NOT k = 0" "n < LENGTH(32)"
  then have "\<not> bit (x AND NOT k) n" "n < 32" by simp_all
  then show "bit (x AND k) n = bit x n" by (auto simp: bit_and_iff bit_not_iff)
qed

lemma and_disjoint: "(x :: u32) AND k = x \<Longrightarrow> y AND k = 0 \<Longrightarrow> x AND y = 0"
proof -
  assume "x AND k = x" "y AND k = 0"
  moreover have "(x AND k) AND y = x AND (y AND k)" by (simp only: and.assoc and.commute and.left_commute)
  ultimately show ?thesis by simp
qed

lemma mask_16: "mask 16 = (0xFFFF :: u32)"
  by (simp add: mask_numeral)

lemma bit_below16: "bit n k \<Longrightarrow> n < 65536 \<Longrightarrow> k < 16" for n k :: nat
proof (rule ccontr)
  assume n: "bit n k" "n < 65536" "\<not> k < 16"
  then have "(2::nat) ^ 16 \<le> 2 ^ k" by (intro power_increasing) simp_all
  then show False using n by (simp add: bit_iff_odd)
qed

lemma piece_fields:
  assumes "sha_base base" "n < 65536" "sel \<in> {0, 0x40}"
  defines "v \<equiv> base OR 2 OR sel OR push_bit 16 (of_nat n)"
  shows "tst v 2" "\<not> tst v 0x8000" "tst v 0x40 = (sel = 0x40)" "bl808_sec_eng_sha_mode v = bl808_sec_eng_sha_mode base"
    "bl808_sec_eng_sha_mode_ext v = bl808_sec_eng_sha_mode_ext base" "msg_blocks v = n"
proof -
  have "base AND 0x383C = base" using assms(1) unfolding sha_base_def by (rule and_not_zero)
  then have base: "base AND k = 0" if "k AND 0x383C = 0" for k using that by (rule and_disjoint)
  have "push_bit 16 (of_nat n :: u32) AND mask 16 = 0" by (rule bit_word_eqI) (auto simp: bit_simps)
  then have "push_bit 16 (of_nat n :: u32) AND k = 0" if "k AND 0xFFFF = k" for k
    using and_disjoint [OF that, of "push_bit 16 (of_nat n)"] and.commute [of k] unfolding mask_16 by simp
  then have field: "v AND k = (base AND k) OR (2 AND k) OR (sel AND k)" if "k AND 0xFFFF = k" for k
    unfolding v_def bit.conj_disj_distrib2 using that by simp
  show "tst v 2" "\<not> tst v 0x8000" "tst v 0x40 = (sel = 0x40)"
    using assms(3) base [of 2] base [of "0x8000"] base [of "0x40"] by (auto simp: tst_def field)
  have "v AND 0x1C = base AND 0x1C" "v AND 0x3000 = base AND 0x3000" using assms(3) by (auto simp: field)
  then show "bl808_sec_eng_sha_mode v = bl808_sec_eng_sha_mode base" "bl808_sec_eng_sha_mode_ext v = bl808_sec_eng_sha_mode_ext base"
    by (simp_all only: bl808_sec_eng_sha_mode_def bl808_sec_eng_sha_mode_ext_def)
  have "drop_bit 16 base = drop_bit 16 (base AND 0xFFFF0000)" by (simp only: high_half)
  also have "\<dots> = 0" by (subst base) simp_all
  finally have "drop_bit 16 v = drop_bit 16 (push_bit 16 (of_nat n))" using assms(3) by (auto simp: v_def)
  also have "\<dots> = of_nat n"
    by (rule bit_word_eqI) (use assms(2) in \<open>auto simp: bit_simps dest: bit_below16\<close>)
  finally show "msg_blocks v = n" unfolding msg_blocks_def high_half using assms(2) by (simp add: unat_of_nat_small)
qed

lemma accum_append_simps [simp]:
  "sha_accum (bl808_sec_eng_sha_accum_append buf s) = sha_accum s @ buf" "sec_regs (bl808_sec_eng_sha_accum_append buf s) = sec_regs s"
  "sha_accum (bl808_sec_eng_sha_accum_reset s) = []" "sec_regs (bl808_sec_eng_sha_accum_reset s) = sec_regs s"
  by (simp_all add: bl808_sec_eng_sha_accum_append_def bl808_sec_eng_sha_accum_reset_def Let_def)

lemma output_accum [simp]:
  "sha_accum (bl808_sec_eng_clear_sha_output s) = sha_accum s" "sha_accum (bl808_sec_eng_store_sha_output ctrl d s) = sha_accum s"
  "sha_accum (sha_finish ctrl s) = sha_accum s"
  by (simp_all add: bl808_sec_eng_clear_sha_output_def bl808_sec_eng_store_sha_output_def bl808_sec_eng_store_words_le_def Let_def rest_fold_set_reg
    sha_finish_def bl808_sec_eng_complete_sha_def)

definition sha_piece_bytes :: "u32 \<Rightarrow> gmem \<Rightarrow> u32 \<times> nat \<Rightarrow> u8 list" where
  "sha_piece_bytes base m = (\<lambda>(src, n). bl808_sec_eng_read_guest (ucast src) (n * bl808_sec_eng_sha_block_bytes base) m)"

definition shows_digest :: "('c, 'h) crypto_ops \<Rightarrow> u32 \<Rightarrow> u8 list \<Rightarrow> BL808SecEngState \<Rightarrow> bool" where
  "shows_digest ops base msg s \<longleftrightarrow> sha_accum s = msg \<and>
     (\<forall>k < 16. sec_regs s (4 + k) = (case bl808_sec_eng_sha_hash ops base msg of None \<Rightarrow> 0 | Some d \<Rightarrow> digest_reg base d k))"

definition short_digests :: "('c, 'h) crypto_ops \<Rightarrow> bool" where
  "short_digests ops \<longleftrightarrow> (\<forall>alg msg d. qcrypto_hash_bytes ops alg msg = Some d \<longrightarrow> length d \<le> 64)"

lemma sha_hash_short:
  assumes "short_digests ops" "bl808_sec_eng_sha_hash ops ctrl msg = Some d"
  shows "length d \<le> 64"
  using assms by (auto simp: bl808_sec_eng_sha_hash_def Let_def short_digests_def bl808_sec_eng_sha512_t_hash_def
    bl808_sec_eng_sha512_custom_def split: if_splits)

lemma one_piece:
  assumes base: "sha_base base" "bl808_sec_eng_sha_mode_ext base \<in> {0, 1}" and p: "snd p < 65536" "sel \<in> {0, 0x40}" and ops: "short_digests ops"
  obtains s' where "sec_writes ops (sha_piece base sel p) (s, m) = Some (s', m)"
    "shows_digest ops base ((if sel = 0 then [] else sha_accum s) @ sha_piece_bytes base m p) s'"
proof -
  obtain src n where sn: "p = (src, n)" by fastforce
  let ?v = "base OR 2 OR sel OR push_bit 16 (of_nat n)" and ?msg = "(if sel = 0 then [] else sha_accum s) @ sha_piece_bytes base m p"
  note f = piece_fields [OF base(1) _ p(2), of n]
  have n: "n < 65536" using p(1) sn by simp
  obtain ctrl where ctrl: "ctrl AND 0xFFFFB87C = ?v AND 0xFFFFB87C"
    "bl808_sec_eng_write ops 0 (ucast ?v) 4 (set_reg 1 src s, m) = Some (run_sha_direct ops ctrl m (set_reg 0 ctrl (set_reg 1 src s)), m)"
    using sha_trigger [OF f(1,2) [OF n]] by metis
  have c: "bl808_sec_eng_sha_mode ctrl = bl808_sec_eng_sha_mode base" "bl808_sec_eng_sha_mode_ext ctrl = bl808_sec_eng_sha_mode_ext base"
    "msg_blocks ctrl = n" "tst ctrl 0x40 = (sel = 0x40)"
    using sha_fields [OF ctrl(1)] f [OF n] by simp_all
  then have c': "bl808_sec_eng_sha_block_bytes ctrl = bl808_sec_eng_sha_block_bytes base" "bl808_sec_eng_sha_hash ops ctrl = bl808_sec_eng_sha_hash ops base"
    "digest_reg ctrl = digest_reg base"
    by (simp_all add: fun_eq_iff bl808_sec_eng_sha_block_bytes_def bl808_sec_eng_sha_hash_def digest_reg_def bl808_sec_eng_sha_is_64bit_def)
  define u where "u = set_reg 0 ctrl (set_reg 1 src s)"
  have u: "sec_regs u 1 = src" "sha_accum u = sha_accum s" by (simp_all add: u_def)
  define t where "t = sha_accumulate ctrl (ucast src) m u"
  have t: "sha_accum t = ?msg" using p(2) c c' u(2) by (auto simp: t_def sha_accumulate_def Let_def sha_piece_bytes_def sn)
  define s' where "s' = (case bl808_sec_eng_sha_hash ops base ?msg of Some d \<Rightarrow> sha_finish ctrl (bl808_sec_eng_store_sha_output ctrl d t)
      | None \<Rightarrow> sha_finish ctrl (bl808_sec_eng_clear_sha_output t))"
  have "bl808_sec_eng_sha_mode_ext ctrl \<noteq> 2" "bl808_sec_eng_sha_mode_ext ctrl \<noteq> 3" using base(2) c(2) by auto
  then have "run_sha_direct ops ctrl m u = s'"
    unfolding run_sha_direct_def Let_def u(1) t_def [symmetric] c'(2) t s'_def by simp
  then have "sec_writes ops (sha_piece base sel p) (s, m) = Some (s', m)"
    using ctrl(2) by (simp add: sha_piece_def sn write_plain u_def)
  moreover have "shows_digest ops base ?msg s'"
    using t c'(3) sha_hash_short [OF ops, of base ?msg] store_sha_output_regs clear_regs
    by (auto simp: shows_digest_def s'_def finish_regs split: option.split)
  ultimately show ?thesis by (rule that)
qed

text \<open>
  C17. A message handed to the SHA engine in pieces gives the digest of the whole: the first piece
  starts the message, the others go on with it, and the digest registers then hold the words of the digest
  of the concatenation, in the order of the mode, or zeros when the library has no digest.
\<close>

theorem sec_sha_pieces:
  assumes "sha_base base" "bl808_sec_eng_sha_mode_ext base \<in> {0, 1}" "short_digests ops" "ps \<noteq> []" "\<forall>p \<in> set ps. snd p < 65536"
  shows "\<exists>s'. sec_writes ops (sha_program base ps) (s, m) = Some (s', m) \<and>
    shows_digest ops base (concat (map (sha_piece_bytes base m) ps)) s'"
  using assms(4,5)
proof (induction ps rule: rev_induct)
  case (snoc p ps)
  show ?case
  proof (cases "ps = []")
    case True
    obtain s' where "sec_writes ops (sha_piece base 0 p) (s, m) = Some (s', m)" "shows_digest ops base (sha_piece_bytes base m p) s'"
      using one_piece [OF assms(1,2) _ _ assms(3), of p 0 s m] snoc.prems by auto
    then show ?thesis using True by auto
  next
    case False
    then obtain s1 where s1: "sec_writes ops (sha_program base ps) (s, m) = Some (s1, m)" "shows_digest ops base (concat (map (sha_piece_bytes base m) ps)) s1"
      using snoc by auto
    have "sha_accum s1 = concat (map (sha_piece_bytes base m) ps)" using s1(2) by (simp add: shows_digest_def)
    then obtain s2 where "sec_writes ops (sha_piece base 0x40 p) (s1, m) = Some (s2, m)"
      "shows_digest ops base (concat (map (sha_piece_bytes base m) (ps @ [p]))) s2"
      using one_piece [OF assms(1,2) _ _ assms(3), of p "0x40" s1 m] snoc.prems by auto
    moreover have "sha_program base (ps @ [p]) = sha_program base ps @ sha_piece base 0x40 p" using False by (cases ps) simp_all
    ultimately show ?thesis using s1(1) by (simp add: sec_writes_append)
  qed
qed simp

end
