(* ===== verification/Sec_Check.thy ===== *)
theory Sec_Check
  imports Sec_Digest
begin

text \<open>
  Checksums of the security engine in pieces and from descriptors in memory, and examples of digests and
  checksums.
\<close>

section \<open>Digest of two pieces\<close>

theorem sec_sha_pieces_witness:
  "\<exists>s'. sec_writes xor_ops [(0x004, 0x1000), (0x000, 0x10022), (0x004, 0x2000), (0x000, 0x10062)] (sec_example, ucast) = Some (s', ucast) \<and>
    length (sha_accum s') = 128 \<and> sec_regs s' 4 = 0x03020100 \<and> sec_regs s' 5 = 0"
proof -
  have "\<forall>alg msg d. qcrypto_hash_bytes xor_ops alg msg = Some d \<longrightarrow> length d \<le> 64" by (auto simp: xor_ops_def)
  then have ops: "short_digests xor_ops" by (simp add: short_digests_def)
  have mode: "bl808_sec_eng_sha_mode_ext 0x20 = 0" "bl808_sec_eng_sha_mode 0x20 = 0"
    by (simp_all add: bl808_sec_eng_sha_mode_ext_def bl808_sec_eng_sha_mode_def)
  have "sha_program 0x20 [(0x1000, 1), (0x2000, 1)] = [(0x004, 0x1000), (0x000, 0x10022), (0x004, 0x2000), (0x000, 0x10062)]"
    by (simp add: sha_piece_def)
  moreover define msg where "msg = concat (map (sha_piece_bytes 0x20 ucast) [(0x1000, 1), (0x2000, 1)])"
  ultimately obtain s' where s': "sec_writes xor_ops [(0x004, 0x1000), (0x000, 0x10022), (0x004, 0x2000), (0x000, 0x10062)] (sec_example, ucast) = Some (s', ucast)"
    "shows_digest xor_ops 0x20 msg s'"
    using sec_sha_pieces [of "0x20" xor_ops "[(0x1000, 1), (0x2000, 1)]" sec_example ucast] ops mode by (auto simp: sha_base_def)
  have msg: "length msg = 128" "take 4 msg = [0, 1, 2, 3]"
    by (simp_all add: msg_def sha_piece_bytes_def bl808_sec_eng_sha_block_bytes_def mode bl808_sec_eng_read_guest_def upt_rec)
  have "bl808_sec_eng_sha_hash xor_ops 0x20 msg = Some [0, 1, 2, 3]" using msg(2) by (simp add: bl808_sec_eng_sha_hash_def mode xor_ops_def)
  moreover have "digest_reg 0x20 [0, 1, 2, 3] 0 = 0x03020100" "digest_reg 0x20 [0, 1, 2, 3] 1 = 0"
    by (simp_all add: digest_reg_def bl808_sec_eng_sha_is_64bit_def mode digest_word_def ldl_le_p_def nth_append)
  ultimately have "sec_regs s' (4 + 0) = 0x03020100" "sec_regs s' (4 + 1) = 0" "length (sha_accum s') = 128"
    using s'(2) msg(1) unfolding shows_digest_def by (metis option.case(2) zero_less_numeral, metis option.case(2) one_less_numeral_iff semiring_norm(76), simp)
  then show ?thesis using s'(1) by simp
qed

section \<open>Checksums in pieces\<close>

text \<open>The two checksums that the engine computes without a descriptor: width, polynomial, inversion.\<close>

definition crc_setup :: "u32 \<Rightarrow> (nat \<times> u32 \<times> bool) option" where
  "crc_setup base =
     (if bl808_sec_eng_sha_mode_ext base = 2 then Some (16, 0x8005, False)
      else if bl808_sec_eng_sha_mode_ext base = 3 then Some (32, 0x04c11db7, True) else None)"

definition crc_value :: "nat \<Rightarrow> u32 \<Rightarrow> bool \<Rightarrow> u8 list \<Rightarrow> u32" where
  "crc_value w poly neg msg = bl808_sec_eng_crc_finalize w (bl808_sec_eng_crc_update msg w poly (mask w) True) True True neg"

lemma crc_value_append:
  assumes "w \<le> 32"
  shows "bl808_sec_eng_crc_finalize w (bl808_sec_eng_crc_update ys w poly
      (bl808_sec_eng_crc_restore_state w (crc_value w poly neg xs) True True neg) True) True True neg = crc_value w poly neg (xs @ ys)"
  using assms crc_update_masked [of ys w poly _ True, unfolded crc_mask [OF assms]] by (simp add: crc_value_def crc_restore crc_update_append)

lemma crc_direct_reg:
  assumes "crc_setup ctrl = Some (w, poly, neg)"
    and "data = bl808_sec_eng_read_guest (ucast (sec_regs s 1)) (msg_blocks ctrl * 4) m"
  shows "\<exists>s'. bl808_sec_eng_run_crc_direct ctrl m s = Some s' \<and> sec_regs s' 4 =
    (if tst ctrl 0x40 then bl808_sec_eng_crc_finalize w (bl808_sec_eng_crc_update data w poly
        (bl808_sec_eng_crc_restore_state w (sec_regs s 4) True True neg) True) True True neg
     else crc_value w poly neg data)"
  using assms by (auto simp: crc_setup_def bl808_sec_eng_run_crc_direct_def crc_value_def Let_def mask_numeral split: if_splits)

lemma one_crc_piece:
  assumes base: "sha_base base" "crc_setup base = Some (w, poly, neg)" and p: "snd p < 65536" "sel \<in> {0, 0x40}"
    and prev: "sel = 0x40 \<Longrightarrow> sec_regs s 4 = crc_value w poly neg xs" "sel = 0 \<Longrightarrow> xs = []"
  obtains s' where "sec_writes ops (sha_piece base sel p) (s, m) = Some (s', m)" "sec_regs s' 4 = crc_value w poly neg (xs @ sha_piece_bytes base m p)"
proof -
  obtain src n where sn: "p = (src, n)" by fastforce
  let ?v = "base OR 2 OR sel OR push_bit 16 (of_nat n)"
  note f = piece_fields [OF base(1) _ p(2), of n]
  have n: "n < 65536" using p(1) sn by simp
  define u0 where "u0 = set_reg 1 src s"
  obtain ctrl where ctrl: "ctrl AND 0xFFFFB87C = ?v AND 0xFFFFB87C"
    "bl808_sec_eng_write ops 0 (ucast ?v) 4 (u0, m) = Some (run_sha_direct ops ctrl m (set_reg 0 ctrl u0), m)"
    using sha_trigger [OF f(1,2) [OF n]] by metis
  define u where "u = set_reg 0 ctrl u0"
  have u: "sec_regs u 1 = src" "sec_regs u 4 = sec_regs s 4" by (simp_all add: u_def u0_def)
  have c: "bl808_sec_eng_sha_mode_ext ctrl = bl808_sec_eng_sha_mode_ext base" "msg_blocks ctrl = n" "tst ctrl 0x40 = (sel = 0x40)"
    using sha_fields [OF ctrl(1)] f [OF n] by simp_all
  have kind: "crc_setup ctrl = Some (w, poly, neg)" using base(2) unfolding crc_setup_def c(1) .
  have w: "w \<le> 32" "bl808_sec_eng_sha_mode_ext ctrl = 2 \<or> bl808_sec_eng_sha_mode_ext ctrl = 3"
    using kind by (auto simp: crc_setup_def split: if_splits)
  have bytes: "sha_piece_bytes base m p = bl808_sec_eng_read_guest (ucast (sec_regs u 1)) (msg_blocks ctrl * 4) m"
    using w(2) c u(1) by (auto simp: sha_piece_bytes_def sn bl808_sec_eng_sha_block_bytes_def)
  obtain s1 where s1: "bl808_sec_eng_run_crc_direct ctrl m u = Some s1" "sec_regs s1 4 = crc_value w poly neg (xs @ sha_piece_bytes base m p)"
    using crc_direct_reg [OF kind bytes] prev crc_value_append [OF w(1), of "sha_piece_bytes base m p" poly neg xs] c(3) p(2) u(2) by auto
  then have "run_sha_direct ops ctrl m u = sha_finish ctrl s1" using w(2) by (auto simp: run_sha_direct_def)
  then have "sec_writes ops (sha_piece base sel p) (s, m) = Some (sha_finish ctrl s1, m)"
    using ctrl(2) by (simp add: sha_piece_def sn write_plain u_def u0_def)
  then show ?thesis using s1(2) by (intro that [of "sha_finish ctrl s1"]) (simp_all add: finish_regs)
qed

text \<open>
  C18. The CRC-16 and CRC-32 of the security engine are the remainders of polynomial long division,
  also for a message in pieces: after the pieces the register holds, lowest bit first, the
  remainder of the message bits, lowest bit of every byte first, divided by the generator with all initial
  bits set, inverted for CRC-32.
\<close>

theorem sec_crc_pieces:
  assumes "sha_base base" "crc_setup base = Some (w, poly, neg)" "ps \<noteq> []" "\<forall>p \<in> set ps. snd p < 65536"
  shows "\<exists>s'. sec_writes ops (sha_program base ps) (s, m) = Some (s', m) \<and> (\<forall>i. bit (sec_regs s' 4) i \<longrightarrow> i < w) \<and>
    map (\<lambda>i. bit (sec_regs s' 4) i \<noteq> neg) [0..<w] =
      crc_division (reg_bits False w poly) (replicate w True) (concat (map (byte_bits True) (concat (map (sha_piece_bytes base m) ps))))"
proof -
  let ?msg = "\<lambda>ps. concat (map (sha_piece_bytes base m) ps)"
  have w: "8 \<le> w" "w \<le> 32" using assms(2) by (auto simp: crc_setup_def split: if_splits)
  have "\<exists>s'. sec_writes ops (sha_program base ps) (s, m) = Some (s', m) \<and> sec_regs s' 4 = crc_value w poly neg (?msg ps)"
    using assms(3,4)
  proof (induction ps rule: rev_induct)
    case (snoc p ps)
    show ?case
    proof (cases "ps = []")
      case True
      then show ?thesis using one_crc_piece [OF assms(1,2), of p 0 s "[]" ops m] snoc.prems by auto
    next
      case False
      then obtain s1 where s1: "sec_writes ops (sha_program base ps) (s, m) = Some (s1, m)" "sec_regs s1 4 = crc_value w poly neg (?msg ps)"
        using snoc by auto
      then obtain s2 where "sec_writes ops (sha_piece base 0x40 p) (s1, m) = Some (s2, m)" "sec_regs s2 4 = crc_value w poly neg (?msg (ps @ [p]))"
        using one_crc_piece [OF assms(1,2), of p "0x40" s1 "?msg ps" ops m] snoc.prems by auto
      moreover have "sha_program base (ps @ [p]) = sha_program base ps @ sha_piece base 0x40 p" using False by (cases ps) simp_all
      ultimately show ?thesis using s1(1) by (simp add: sec_writes_append)
    qed
  qed simp
  then obtain s' where s': "sec_writes ops (sha_program base ps) (s, m) = Some (s', m)" "sec_regs s' 4 = crc_value w poly neg (?msg ps)" by blast
  have "reg_bits True w (mask w) = replicate w True" using w by (intro nth_equalityI) (simp_all add: nth_reg_bits bit_simps)
  then have "reg_bits True w (sec_regs s' 4) = map (\<lambda>b. b \<noteq> neg) (crc_division (reg_bits False w poly) (replicate w True) (concat (map (byte_bits True) (?msg ps))))"
    unfolding s'(2) crc_value_def crc_finalize_bits [OF w(2)] crc_update_division [OF w] by simp
  moreover have "map (\<lambda>b. b \<noteq> neg) (map (\<lambda>b. b \<noteq> neg) bs) = bs" for bs by (cases neg) (simp_all add: comp_def)
  ultimately have "map (\<lambda>b. b \<noteq> neg) (reg_bits True w (sec_regs s' 4)) =
      crc_division (reg_bits False w poly) (replicate w True) (concat (map (byte_bits True) (?msg ps)))" by (simp only:)
  then have "map (\<lambda>i. bit (sec_regs s' 4) i \<noteq> neg) [0..<w] = crc_division (reg_bits False w poly) (replicate w True) (concat (map (byte_bits True) (?msg ps)))"
    by (simp add: reg_bits_def [of True] comp_def)
  moreover have "bit (sec_regs s' 4) i \<Longrightarrow> i < w" for i
    using w(2) by (auto simp: s'(2) crc_value_def bl808_sec_eng_crc_finalize_def Let_def crc_mask bit_simps)
  ultimately show ?thesis using s'(1) by blast
qed

lemma crc_of_12345678:
  "crc_division (reg_bits False 32 0x04c11db7) (replicate 32 True) (concat (map (byte_bits True) [0x31, 0x32, 0x33, 0x34, 0x35, 0x36, 0x37, 0x38])) =
    map (\<lambda>i. \<not> bit (0x9AE0DAAF :: u32) i) [0..<32]"
  by code_simp

theorem sec_crc_pieces_witness:
  "\<exists>s'. sec_writes xor_ops [(0x004, 0x30), (0x000, 0x13002), (0x004, 0x34), (0x000, 0x13042)]
      (sec_example, \<lambda>a. ucast a + 1) = Some (s', \<lambda>a. ucast a + 1) \<and> sec_regs s' 4 = 0x9AE0DAAF"
proof -
  let ?m = "\<lambda>a :: hwaddr. ucast a + 1 :: u8"
  have mode: "bl808_sec_eng_sha_mode_ext 0x3000 = 3" by (simp add: bl808_sec_eng_sha_mode_ext_def)
  have prog: "sha_program 0x3000 [(0x30, 1), (0x34, 1)] = [(0x004, 0x30), (0x000, 0x13002), (0x004, 0x34), (0x000, 0x13042)]"
    by (simp add: sha_piece_def)
  have msg: "concat (map (sha_piece_bytes 0x3000 ?m) [(0x30, 1), (0x34, 1)]) = [0x31, 0x32, 0x33, 0x34, 0x35, 0x36, 0x37, 0x38]"
    by (simp add: sha_piece_bytes_def bl808_sec_eng_sha_block_bytes_def mode bl808_sec_eng_read_guest_def upt_rec)
  have "sha_base 0x3000" "crc_setup 0x3000 = Some (32, 0x04c11db7, True)" by (simp_all add: sha_base_def crc_setup_def mode)
  then obtain s' where s': "sec_writes xor_ops [(0x004, 0x30), (0x000, 0x13002), (0x004, 0x34), (0x000, 0x13042)] (sec_example, ?m) = Some (s', ?m)"
    "map (\<lambda>i. bit (sec_regs s' 4) i \<noteq> True) [0..<32] = map (\<lambda>i. \<not> bit (0x9AE0DAAF :: u32) i) [0..<32]"
    using sec_crc_pieces [of "0x3000" 32 "0x04c11db7" True "[(0x30, 1), (0x34, 1)]" xor_ops sec_example ?m, unfolded prog msg crc_of_12345678] by auto
  then have "bit (sec_regs s' 4) i = bit (0x9AE0DAAF :: u32) i" if "i < 32" for i
    using arg_cong [OF s'(2), of "\<lambda>bs. bs ! i"] that by simp
  then have "sec_regs s' 4 = 0x9AE0DAAF" by (intro bit_word_eqI) simp
  then show ?thesis using s'(1) by blast
qed

section \<open>Checksums from a descriptor\<close>

text \<open>
  A checksum described by a descriptor in memory is the remainder of long division with the
  polynomial, initial value and bit orders of the descriptor: the coefficients of the message are taken
  from each byte in the order of the input, those of the result from the register in the order of the
  output, inverted on request; the result is also written back to the descriptor.
\<close>

theorem sec_crc_descriptor:
  assumes v: "tst (v :: u32) 2" "tst v 0x8000" and desc: "link = ucast (sec_regs s 20)" "ctrl = bl808_sec_eng_ldl link m"
      "crc_ctrl = bl808_sec_eng_ldl (link + 12) m" "data = bl808_sec_eng_read_guest (ucast (bl808_sec_eng_ldl (link + 4) m)) (msg_blocks ctrl * 4) m"
    and w: "crc_width (bl808_sec_eng_sha_mode_ext ctrl) = Some w" "\<not> tst ctrl 0x40"
  shows "\<exists>s'. bl808_sec_eng_write ops 0 (ucast v) 4 (s, m) = Some (s', store_bytes (link + 16) (stl_le_p (sec_regs s' 4)) m) \<and>
    reg_bits (tst crc_ctrl 2) w (sec_regs s' 4) = map (\<lambda>b. b \<noteq> tst crc_ctrl 1)
      (crc_division (reg_bits False w (bl808_sec_eng_ldl (link + 8) m)) (reg_bits (tst crc_ctrl 4) w (bl808_sec_eng_ldl (link + 16) m))
        (concat (map (byte_bits (tst crc_ctrl 4)) data)))"
proof -
  have width: "8 \<le> w" "w \<le> 32" and ext: "bl808_sec_eng_sha_mode_ext ctrl = 2 \<or> bl808_sec_eng_sha_mode_ext ctrl = 3"
    using w(1) by (auto simp: crc_width_def split: if_splits)
  define c where "c = int_bits v ((sec_regs s 0 AND NOT 0xFFFFB87C) OR (v AND 0xFFFFB87C)) OR 1"
  have "c AND 0xFFFFB87C = v AND 0xFFFFB87C" unfolding c_def by (rule ctrl_fields) simp_all
  then have "tst c 0x8000" using sha_fields(5) v(2) by blast
  then have run: "bl808_sec_eng_write ops 0 (ucast v) 4 (s, m) = Some (run_sha_link ops c m (set_reg 0 c s))"
    using v(1) by (simp add: bl808_sec_eng_write_def bl808_sec_eng_write_sha_def bl808_sec_eng_run_sha_def Let_def ucast_ucast_same tst_def c_def)
  define crc where "crc = bl808_sec_eng_crc_finalize w (bl808_sec_eng_crc_update data w (bl808_sec_eng_ldl (link + 8) m)
    (bl808_sec_eng_ldl (link + 16) m AND bl808_sec_eng_crc_mask w) (tst crc_ctrl 4)) (tst crc_ctrl 4) (tst crc_ctrl 2) (tst crc_ctrl 1)"
  define t where "t = set_reg 4 crc (bl808_sec_eng_clear_sha_output (set_reg 0 c s))"
  have "bl808_sec_eng_run_crc_link link ctrl m (set_reg 0 c s) = Some (t, store_bytes (link + 16) (stl_le_p crc) m)"
    using w desc(3,4) by (simp add: bl808_sec_eng_run_crc_link_def Let_def crc_def t_def)
  then have "run_sha_link ops c m (set_reg 0 c s) = (sha_finish c t, store_bytes (link + 16) (stl_le_p crc) m)"
    using ext desc(1,2) by (auto simp: run_sha_link_def Let_def)
  moreover have "sec_regs (sha_finish c t) 4 = crc" by (simp add: finish_regs t_def)
  moreover have "reg_bits (tst crc_ctrl 2) w crc = map (\<lambda>b. b \<noteq> tst crc_ctrl 1)
      (crc_division (reg_bits False w (bl808_sec_eng_ldl (link + 8) m)) (reg_bits (tst crc_ctrl 4) w (bl808_sec_eng_ldl (link + 16) m))
        (concat (map (byte_bits (tst crc_ctrl 4)) data)))"
    unfolding crc_def crc_update_masked crc_finalize_bits [OF width(2)] crc_update_division [OF width] by (rule refl)
  ultimately show ?thesis using run by auto
qed

text \<open>CRC-16/CCITT-FALSE of the bytes \<open>1234\<close>: polynomial 0x1021, initial value 0xFFFF, highest bit first.\<close>

definition crc_descriptor :: gmem where
  "crc_descriptor = store_bytes 0x100 ([0x00, 0x20, 0x01, 0x00, 0x14, 0x01, 0x00, 0x00, 0x21, 0x10, 0x00, 0x00, 0x00, 0x00, 0x00, 0x00,
     0xFF, 0xFF, 0x00, 0x00] @ [0x31, 0x32, 0x33, 0x34]) (\<lambda>_. 0)"

lemma crc_descriptor_words:
  "bl808_sec_eng_ldl 0x100 crc_descriptor = 0x12000" "bl808_sec_eng_ldl 0x104 crc_descriptor = 0x114" "bl808_sec_eng_ldl 0x108 crc_descriptor = 0x1021"
  "bl808_sec_eng_ldl 0x10C crc_descriptor = 0" "bl808_sec_eng_ldl 0x110 crc_descriptor = 0xFFFF"
  "bl808_sec_eng_read_guest 0x114 4 crc_descriptor = [0x31, 0x32, 0x33, 0x34]"
  by (simp_all add: bl808_sec_eng_ldl_def bl808_sec_eng_read_guest_def crc_descriptor_def ldl_le_p_def upt_rec)

lemma crc_of_1234:
  "crc_division (reg_bits False 16 0x1021) (reg_bits False 16 0xFFFF) (concat (map (byte_bits False) [0x31, 0x32, 0x33, 0x34])) =
    map (bit (0x5349 :: u32)) (rev [0..<16])"
  by code_simp

theorem sec_crc_descriptor_witness:
  "\<exists>s' m'. bl808_sec_eng_write xor_ops 0 0x8002 4 (set_reg 20 0x100 sec_example, crc_descriptor) = Some (s', m') \<and>
    reg_bits False 16 (sec_regs s' 4) = reg_bits False 16 0x5349"
proof -
  let ?s = "set_reg 20 0x100 sec_example"
  have mode: "bl808_sec_eng_sha_mode_ext 0x12000 = 2" "msg_blocks 0x12000 = 1" by (simp_all add: bl808_sec_eng_sha_mode_ext_def msg_blocks_def)
  have v: "tst (0x8002 :: u32) 2" "tst (0x8002 :: u32) 0x8000" "crc_width (bl808_sec_eng_sha_mode_ext 0x12000) = Some 16" "\<not> tst (0x12000 :: u32) 0x40"
    by (simp_all add: tst_def crc_width_def mode)
  have d: "(0x100 :: hwaddr) = ucast (sec_regs ?s 20)" "0x12000 = bl808_sec_eng_ldl 0x100 crc_descriptor" "0 = bl808_sec_eng_ldl (0x100 + 12) crc_descriptor"
    "[0x31, 0x32, 0x33, 0x34] = bl808_sec_eng_read_guest (ucast (bl808_sec_eng_ldl (0x100 + 4) crc_descriptor)) (msg_blocks 0x12000 * 4) crc_descriptor"
    using crc_descriptor_words by (simp_all add: mode)
  have words: "bl808_sec_eng_ldl (0x100 + 8) crc_descriptor = 0x1021" "bl808_sec_eng_ldl (0x100 + 16) crc_descriptor = 0xFFFF"
    using crc_descriptor_words by simp_all
  have zero: "tst (0 :: u32) k = False" for k by simp
  obtain s' m' where "bl808_sec_eng_write xor_ops 0 (ucast (0x8002 :: u32)) 4 (?s, crc_descriptor) = Some (s', m')"
    "reg_bits False 16 (sec_regs s' 4) = map (\<lambda>b. b \<noteq> False) (map (bit (0x5349 :: u32)) (rev [0..<16]))"
    using sec_crc_descriptor [OF v(1,2) d v(3,4), of xor_ops] unfolding words zero crc_of_1234 by blast
  then show ?thesis by (auto simp: reg_bits_def comp_def)
qed

end
