(* ===== verification/Sec_Lines.thy ===== *)
theory Sec_Lines
  imports Sec_Digest
begin

text \<open>
  The interrupt lines of the security engine and their owners, and its random generator: what holds after a
  reset and any sequence of accesses, as long as the read-only copy of the owners is not written.
\<close>

section \<open>Operations\<close>

datatype sec_op = Sec_write hwaddr u64 nat | Sec_reset

fun sec_step :: "('c, 'h) crypto_ops \<Rightarrow> sec_op \<Rightarrow> BL808SecEngState \<times> gmem \<Rightarrow> BL808SecEngState \<times> gmem" where
  "sec_step ops (Sec_write offset v access_size) sm =
     (case bl808_sec_eng_write ops offset v access_size sm of None \<Rightarrow> sm | Some sm' \<Rightarrow> sm')"
| "sec_step ops Sec_reset (s, m) = (bl808_sec_eng_reset s, m)"

fun sec_prompt :: "sec_op \<Rightarrow> bool" where
  "sec_prompt (Sec_write offset v access_size) \<longleftrightarrow> offset \<noteq> 0xf00"
| "sec_prompt Sec_reset \<longleftrightarrow> True"

section \<open>The random generator\<close>

lemma xor_zero: "a XOR b = 0 \<Longrightarrow> a = b" for a b :: u64
  by (metis xor.assoc xor.right_neutral xor_self_eq)

lemma xor_drop_zero: "x XOR drop_bit n x = 0 \<Longrightarrow> 0 < n \<Longrightarrow> x = 0" for x :: u64
proof -
  assume "x XOR drop_bit n x = 0" and n: "0 < n"
  then have "unat x = unat (drop_bit n x)" by - (drule xor_zero, rule arg_cong)
  then have div: "unat x = unat x div 2 ^ n" unfolding unat_drop_bit .
  have "unat x div 2 ^ n < unat x" if "0 < unat x" using that n by (intro div_less_dividend) (simp_all add: one_less_power [of "2 :: nat" n, simplified])
  with div have "\<not> 0 < unat x" by linarith
  then show "x = 0" by (simp add: unat_gt_0)
qed

lemma xor_push_zero: "x XOR push_bit n x = 0 \<Longrightarrow> 0 < n \<Longrightarrow> x = 0" for x :: u64
proof (rule bit_word_eqI)
  fix k assume "x XOR push_bit n x = 0" and n: "0 < n"
  then have eq: "bit x k = bit (push_bit n x) k" for k by - (drule xor_zero, rule arg_cong)
  have "\<not> bit x k"
  proof (induction k rule: less_induct)
    case (less k)
    show ?case unfolding eq [of k] using less [of "k - n"] n by (cases "k < n") (auto simp: bit_push_bit_iff)
  qed
  then show "bit x k = bit 0 k" by simp
qed

lemma xorshift_alive:
  "x \<noteq> 0 \<Longrightarrow> 0 < n \<Longrightarrow> x XOR drop_bit n x \<noteq> 0" "x \<noteq> 0 \<Longrightarrow> 0 < n \<Longrightarrow> x XOR push_bit n x \<noteq> 0" for x :: u64
  using xor_drop_zero xor_push_zero by metis+

lemma trng_state_update [simp]: "trng_state (s\<lparr>trng_state := x\<rparr>) = x"
  by simp

lemma rand32_alive: "trng_state s \<noteq> 0 \<Longrightarrow> trng_state (snd (bl808_sec_eng_rand32 s)) \<noteq> 0"
  unfolding bl808_sec_eng_rand32_def Let_def snd_conv trng_state_update by (intro xorshift_alive; simp)

section \<open>Registers that hold the owners\<close>

definition owner_regs :: "nat set" where
  "owner_regs = {63, 127, 191, 255, 319, 383, 960}"

definition keeps :: "BL808SecEngState \<Rightarrow> BL808SecEngState \<Rightarrow> bool" where
  "keeps s t \<longleftrightarrow> (\<forall>i \<in> owner_regs. sec_regs t i = sec_regs s i) \<and> (trng_state s \<noteq> 0 \<longrightarrow> trng_state t \<noteq> 0)"

lemma keeps_refl [simp, intro]: "keeps s s"
  by (simp add: keeps_def)

lemma keeps_owners_trans: "keeps s t \<Longrightarrow> keeps t u \<Longrightarrow> keeps s u"
  by (simp add: keeps_def)

lemma keeps_set_reg [simp]:
  "i \<notin> owner_regs \<Longrightarrow> keeps s (set_reg i v t) \<longleftrightarrow> keeps s t" "i \<notin> owner_regs \<Longrightarrow> keeps (set_reg i v s) t \<longleftrightarrow> keeps s t"
  by (auto simp: keeps_def)

lemma keeps_update_irq [simp]: "keeps s (bl808_sec_eng_update_irq t) \<longleftrightarrow> keeps s t"
  by (simp add: keeps_def)

lemma keeps_fold: "(\<And>x t. x \<in> set xs \<Longrightarrow> keeps t (f x t)) \<Longrightarrow> keeps s t \<Longrightarrow> keeps s (fold f xs t)"
proof (induction xs arbitrary: t)
  case (Cons x xs)
  have "keeps s (f x t)" using Cons.prems by (auto intro: keeps_owners_trans [of s t])
  then show ?case using Cons.IH [of "f x t"] Cons.prems(1) by simp
qed simp

lemma keeps_accum [simp]:
  "keeps s (bl808_sec_eng_sha_accum_reset t) \<longleftrightarrow> keeps s t" "keeps s (bl808_sec_eng_sha_accum_append buf t) \<longleftrightarrow> keeps s t"
  by (simp_all add: keeps_def bl808_sec_eng_sha_accum_reset_def bl808_sec_eng_sha_accum_append_def Let_def)

lemma low_not_owner [simp]: "i < 63 \<Longrightarrow> i \<notin> owner_regs"
  by (auto simp: owner_regs_def)

lemma keeps_clear_output: "keeps s t \<Longrightarrow> keeps s (bl808_sec_eng_clear_sha_output t)"
  by (auto simp: bl808_sec_eng_clear_sha_output_def intro!: keeps_fold)

lemma keeps_store_output:
  assumes "length digest \<le> 64" "keeps s t"
  shows "keeps s (bl808_sec_eng_store_sha_output ctrl digest t)"
proof -
  have "i < 16" if "i < (length digest + 3) div 4" for i using assms(1) that by linarith
  then show ?thesis
    using keeps_clear_output [OF assms(2)]
    by (fastforce simp: bl808_sec_eng_store_sha_output_def bl808_sec_eng_store_words_le_def Let_def intro!: keeps_fold)
qed

lemma keeps_regs: "keeps s t \<Longrightarrow> sec_regs t' = sec_regs t \<Longrightarrow> trng_state t' = trng_state t \<Longrightarrow> keeps s t'"
  by (simp add: keeps_def)

lemma keeps_sha_finish [simp]: "keeps s (sha_finish ctrl t) \<longleftrightarrow> keeps s t"
  by (simp add: sha_finish_def bl808_sec_eng_complete_sha_def)

lemma keeps_accumulate [simp]: "keeps s (sha_accumulate ctrl src m t) \<longleftrightarrow> keeps s t"
  by (simp add: sha_accumulate_def Let_def)

lemma keeps_crc_store [simp]: "keeps s (set_reg 4 crc (bl808_sec_eng_clear_sha_output s))"
  by (simp add: keeps_clear_output)

lemma keeps_crc:
  "bl808_sec_eng_run_crc_link link ctrl m s = Some (s', m') \<Longrightarrow> keeps s s'" "bl808_sec_eng_run_crc_direct ctrl m s = Some s' \<Longrightarrow> keeps s s'"
  by (auto simp del: keeps_set_reg simp: bl808_sec_eng_run_crc_link_def bl808_sec_eng_run_crc_direct_def Let_def split: option.split_asm if_split_asm)

lemma keeps_run_sha: "short_digests ops \<Longrightarrow> keeps s (fst (bl808_sec_eng_run_sha ops ctrl m s))"
  by (auto simp: bl808_sec_eng_run_sha_def run_sha_link_def run_sha_direct_def Let_def split: option.splits prod.splits
      intro: keeps_clear_output keeps_store_output sha_hash_short keeps_crc)

lemma keeps_run_trng: "keeps s (bl808_sec_eng_run_trng ctrl s)"
proof -
  have "keeps t (let (v, u) = bl808_sec_eng_rand32 t in set_reg (130 + i) v u)" if "i < 8" for i t
  proof -
    have "130 + i \<notin> owner_regs" using that by (auto simp: owner_regs_def)
    moreover have "keeps t (snd (bl808_sec_eng_rand32 t))"
      using rand32_alive [of t] by (simp add: keeps_def bl808_sec_eng_rand32_def Let_def)
    ultimately show ?thesis by (simp add: split_beta)
  qed
  then show ?thesis by (auto simp: bl808_sec_eng_run_trng_def Let_def owner_regs_def intro!: keeps_fold)
qed

section \<open>What a write does to the owners\<close>

text \<open>The registers with a function: the control registers and the owners.\<close>

definition plain_reg :: "nat \<Rightarrow> bool" where
  "plain_reg i \<longleftrightarrow> i \<notin> {0, 64, 128, 192, 256, 320} \<and> i \<notin> owner_regs"

lemma aligned_index:
  assumes "\<not> tst (offset :: hwaddr) 3"
  shows "offset = of_nat (4 * (unat offset div 4))"
proof -
  have "unat (offset AND mask 2) = 0" using assms by (simp add: tst_def mask_numeral)
  then have "unat offset mod 4 = 0" by (simp add: unat_and_mask)
  then have "unat offset = 4 * (unat offset div 4)" using mult_div_mod_eq [of 4 "unat offset"] by linarith
  then show ?thesis by (metis of_nat_unat ucast_id)
qed

lemma plain_offset:
  assumes "\<not> tst (offset :: hwaddr) 3"
    and "offset \<notin> {0x000, 0x100, 0x200, 0x300, 0x400, 0x500, 0x0fc, 0x1fc, 0x2fc, 0x3fc, 0x4fc, 0x5fc, 0xf00}"
  shows "plain_reg (unat offset div 4)"
proof (rule ccontr)
  assume "\<not> plain_reg (unat offset div 4)"
  then have "unat offset div 4 \<in> {0, 64, 128, 192, 256, 320, 63, 127, 191, 255, 319, 383, 960}" by (auto simp: plain_reg_def owner_regs_def)
  then have "of_nat (4 * (unat offset div 4)) \<in> {0x000, 0x100, 0x200, 0x300, 0x400, 0x500, 0x0fc, 0x1fc, 0x2fc, 0x3fc, 0x4fc, 0x5fc, 0xf00 :: hwaddr}"
    by auto
  then show False using assms(2) aligned_index [OF assms(1)] by metis
qed

definition refreshed :: "BL808SecEngState \<Rightarrow> bool" where
  "refreshed s \<longleftrightarrow> bl808_sec_eng_update_irq s = s"

lemma refreshed_update [simp]: "refreshed (bl808_sec_eng_update_irq s)"
  by (simp add: refreshed_def) (simp add: bl808_sec_eng_update_irq_def owner_level_def engine_pending_def bl808_sec_eng_owner_pair_def)

lemma refreshed_finish [simp]: "refreshed (sha_finish ctrl s)" "refreshed (bl808_sec_eng_complete_aes ctrl s)" "refreshed (bl808_sec_eng_run_trng ctrl s)"
  by (simp_all add: sha_finish_def bl808_sec_eng_complete_aes_def bl808_sec_eng_run_trng_def Let_def)

lemma ctrl_not_owner [simp]:
  "0 \<notin> owner_regs" "64 \<notin> owner_regs" "67 \<notin> owner_regs" "128 \<notin> owner_regs" "129 \<notin> owner_regs" "192 \<notin> owner_regs" "256 \<notin> owner_regs"
  "320 \<notin> owner_regs" "322 \<notin> owner_regs"
  by (simp_all add: owner_regs_def)

lemma keeps_complete_aes: "keeps s (bl808_sec_eng_complete_aes ctrl s)"
  by (simp add: bl808_sec_eng_complete_aes_def)

lemma write_sha_ok: "bl808_sec_eng_write_sha ops v m s = (s', m') \<Longrightarrow> (short_digests ops \<longrightarrow> keeps s s') \<and> refreshed s'"
proof -
  assume run: "bl808_sec_eng_write_sha ops v m s = (s', m')"
  have "short_digests ops \<longrightarrow> keeps s t" if "bl808_sec_eng_run_sha ops ctrl m (set_reg 0 ctrl s) = (t, m')" for ctrl t
    using keeps_run_sha [of ops "set_reg 0 ctrl s" ctrl m] that by simp
  moreover have "refreshed t" if "bl808_sec_eng_run_sha ops ctrl m u = (t, m')" for ctrl u t
    using run_sha_finishes [of ops ctrl m u] that by auto
  ultimately show ?thesis using run by (auto simp: bl808_sec_eng_write_sha_def Let_def split: if_splits)
qed

lemma write_aes_ok: "bl808_sec_eng_write_aes ops v m s = Some (s', m') \<Longrightarrow> keeps s s' \<and> refreshed s'"
proof -
  assume run: "bl808_sec_eng_write_aes ops v m s = Some (s', m')"
  have "keeps s t \<and> refreshed t" if "bl808_sec_eng_run_aes ops ctrl m (set_reg 64 ctrl s) = Some (t, m')" for ctrl t
    using run_aes_returns [of ops ctrl m "set_reg 64 ctrl s"] that keeps_complete_aes [of "set_reg 64 ctrl s"] by auto
  then show ?thesis using run by (auto simp: bl808_sec_eng_write_aes_def Let_def split: if_splits)
qed

lemma write_trng_ok: "keeps s (bl808_sec_eng_write_trng v s) \<and> refreshed (bl808_sec_eng_write_trng v s)"
proof -
  have "keeps s (fold (\<lambda>i. set_reg (130 + i) 0) [0..<8] s)" by (rule keeps_fold) (auto simp: owner_regs_def)
  moreover have "keeps s (bl808_sec_eng_run_trng ctrl (set_reg 128 ctrl t))" if "keeps s t" for ctrl t
    using keeps_run_trng [of "set_reg 128 ctrl t"] that by (auto intro: keeps_owners_trans [of s t])
  ultimately show ?thesis by (simp add: bl808_sec_eng_write_trng_def Let_def)
qed

lemma write_others_ok:
  "keeps s (bl808_sec_eng_write_pka v s)" "refreshed (bl808_sec_eng_write_pka v s)"
  "keeps s (bl808_sec_eng_write_cdet v s)" "refreshed (bl808_sec_eng_write_cdet v s)"
  "bl808_sec_eng_write_gmac ops v m s = (s', m') \<Longrightarrow> keeps s s' \<and> refreshed s'"
  by (auto simp: bl808_sec_eng_write_pka_def bl808_sec_eng_write_cdet_def bl808_sec_eng_write_gmac_def Let_def)

lemma write_cases:
  assumes "offset \<noteq> 0xf00" "bl808_sec_eng_write ops offset v access_size (s, m) = Some (s', m')"
  obtains "s' = s" | i x where "plain_reg i" "s' = set_reg i x s" | "short_digests ops \<longrightarrow> keeps s s'" "refreshed s'"
  | v where "s' = bl808_sec_eng_update_irq (bl808_sec_eng_set_owner offset v s)" "offset \<in> {0x0fc, 0x1fc, 0x2fc, 0x3fc, 0x4fc, 0x5fc}"
proof -
  have "s' = s \<or> (short_digests ops \<longrightarrow> keeps s s') \<and> refreshed s' \<or> plain_reg (unat offset div 4) \<and> (\<exists>x. s' = set_reg (unat offset div 4) x s) \<or>
      (\<exists>v. s' = bl808_sec_eng_update_irq (bl808_sec_eng_set_owner offset v s)) \<and> offset \<in> {0x0fc, 0x1fc, 0x2fc, 0x3fc, 0x4fc, 0x5fc}"
  proof (cases "offset \<in> {0x000, 0x100, 0x200, 0x300, 0x400, 0x500}")
    case True
    then show ?thesis using assms(2)
      by (auto simp: bl808_sec_eng_write_def Let_def tst_def write_trng_ok write_others_ok(1-4) split: if_splits
          dest: write_sha_ok write_aes_ok write_others_ok(5))
  next
    case False
    then show ?thesis using assms plain_offset [of offset] by (auto simp: bl808_sec_eng_write_def Let_def split: if_splits)
  qed
  then show ?thesis using that by blast
qed

section \<open>The lines\<close>

definition sec_line :: "nat \<Rightarrow> BL808SecEngState \<Rightarrow> bool" where
  "sec_line k s = [irq_id1_shared s, irq_id0_shared s, irq_id1_cdet s, irq_id0_cdet s] ! (k mod 4)"

definition sec_level :: "nat \<Rightarrow> BL808SecEngState \<Rightarrow> bool" where
  "sec_level k s = [owner_level s 2 shared_engines, owner_level s 1 shared_engines, owner_level s 2 [(256, 8)], owner_level s 1 [(256, 8)]] ! (k mod 4)"

lemma refreshed_line: "refreshed s \<Longrightarrow> sec_line k s = sec_level k s"
proof -
  assume "refreshed s"
  then have "sec_line k s = sec_line k (bl808_sec_eng_update_irq s)" by (simp add: refreshed_def)
  also have "\<dots> = sec_level k s"
    by (simp add: sec_line_def sec_level_def bl808_sec_eng_update_irq_def)
  finally show ?thesis .
qed

lemma plain_line: "plain_reg i \<Longrightarrow> sec_line k (set_reg i x s) = sec_line k s" "plain_reg i \<Longrightarrow> sec_level k (set_reg i x s) = sec_level k s"
  by (simp add: sec_line_def set_reg_def)
    (auto simp: sec_level_def plain_reg_def owner_regs_def owner_level_def shared_engines_def engine_pending_def bl808_sec_eng_owner_pair_def)

lemma reset_refreshed: "refreshed (bl808_sec_eng_reset s)"
  by (simp add: bl808_sec_eng_reset_def Let_def)

lemma step_line:
  assumes "sec_prompt op" "sec_line k (fst sm) = sec_level k (fst sm)"
  shows "sec_line k (fst (sec_step ops op sm)) = sec_level k (fst (sec_step ops op sm))"
proof (cases op)
  case (Sec_write offset v n)
  obtain s m where sm: "sm = (s, m)" by fastforce
  show ?thesis
  proof (cases "bl808_sec_eng_write ops offset v n (s, m)")
    case (Some r)
    obtain s' m' where r: "r = (s', m')" by fastforce
    have "offset \<noteq> 0xf00" "bl808_sec_eng_write ops offset v n (s, m) = Some (s', m')" using assms(1) Some r Sec_write by simp_all
    then show ?thesis
      by (cases rule: write_cases) (use assms(2) Some r Sec_write sm in \<open>simp_all add: plain_line refreshed_line\<close>)
  qed (use assms Sec_write sm in simp)
next
  case Sec_reset
  then show ?thesis by (cases sm) (simp add: refreshed_line reset_refreshed)
qed

interpretation sec_eng: irq_device "sec_step ops" sec_prompt "\<lambda>sm. refreshed (fst sm)" "\<lambda>sm. sec_line k (fst sm)" "\<lambda>sm. sec_level k (fst sm)" for ops k
  by unfold_locales (simp_all add: refreshed_line step_line)

section \<open>The owners\<close>

definition owners_ok :: "BL808SecEngState \<Rightarrow> bool" where
  "owners_ok s \<longleftrightarrow> sec_regs (bl808_sec_eng_update_ctrl_prot s) 960 = sec_regs s 960"

lemma pair_bits: "bit (bl808_sec_eng_pair_from_bits v a b) n \<longleftrightarrow> n = 0 \<and> tst v a \<or> n = 1 \<and> tst v b"
proof -
  have "bit (1 :: u32) n \<longleftrightarrow> n = 0" by (auto simp: bit_1_iff)
  moreover have "bit (2 ^ 1 :: u32) n \<longleftrightarrow> n = 1" by (simp only: bit_exp_iff) auto
  ultimately show ?thesis by (auto simp: bl808_sec_eng_pair_from_bits_def bit_or_iff)
qed

lemma six_pairs:
  fixes f :: "nat \<Rightarrow> u32"
  assumes pair: "\<And>i n. bit (f i) n \<Longrightarrow> n < 2" and n: "n < 2"
  defines "r \<equiv> f 0 OR push_bit 2 (f 1) OR push_bit 4 (f 2) OR push_bit 6 (f 3) OR push_bit 8 (f 4) OR push_bit 10 (f 5)"
  shows "bit r n = bit (f 0) n" "bit r (2 + n) = bit (f 1) n" "bit r (4 + n) = bit (f 2) n"
    "bit r (6 + n) = bit (f 3) n" "bit r (8 + n) = bit (f 4) n" "bit r (10 + n) = bit (f 5) n"
proof -
  have no: "bit (f i) k = False" if "2 \<le> k" for i k using pair [of i k] that by auto
  have "n = 0 \<or> n = 1" using n by linarith
  then show "bit r n = bit (f 0) n" "bit r (2 + n) = bit (f 1) n" "bit r (4 + n) = bit (f 2) n"
    "bit r (6 + n) = bit (f 3) n" "bit r (8 + n) = bit (f 4) n" "bit r (10 + n) = bit (f 5) n"
    unfolding r_def bit_or_iff bit_push_bit_iff by (elim disjE; simp add: no)+
qed

lemma prot_bits:
  assumes ok: "owners_ok s" and n: "n < 2"
  defines "b \<equiv> (if n = 0 then 2 else 4 :: u32)" and "r \<equiv> sec_regs s 960"
  shows "bit r n = tst (sec_regs s 63) b" "bit r (2 + n) = tst (sec_regs s 127) b" "bit r (4 + n) = tst (sec_regs s 191) b"
    "bit r (6 + n) = tst (sec_regs s 255) b" "bit r (8 + n) = tst (sec_regs s 319) b" "bit r (10 + n) = tst (sec_regs s 383) b"
proof -
  define f where "f i = bl808_sec_eng_pair_from_bits (sec_regs s ([63, 127, 191, 255, 319, 383] ! i)) 2 4" for i
  have f: "bit (f i) n \<Longrightarrow> n < 2" for i n by (auto simp: f_def pair_bits)
  have "bit (f i) n = tst (sec_regs s ([63, 127, 191, 255, 319, 383] ! i)) b" for i using n by (auto simp: f_def pair_bits b_def)
  moreover have "r = f 0 OR push_bit 2 (f 1) OR push_bit 4 (f 2) OR push_bit 6 (f 3) OR push_bit 8 (f 4) OR push_bit 10 (f 5)"
    unfolding r_def ok [unfolded owners_ok_def, symmetric] by (simp add: bl808_sec_eng_update_ctrl_prot_def Let_def f_def)
  ultimately show "bit r n = tst (sec_regs s 63) b" "bit r (2 + n) = tst (sec_regs s 127) b" "bit r (4 + n) = tst (sec_regs s 191) b"
    "bit r (6 + n) = tst (sec_regs s 255) b" "bit r (8 + n) = tst (sec_regs s 319) b" "bit r (10 + n) = tst (sec_regs s 383) b"
    using six_pairs [where f = f, OF f n] by simp_all
qed

lemma owner_pair_bit: "tst (bl808_sec_eng_owner_pair s n) 1 \<longleftrightarrow> bit (sec_regs s 960) n" "tst (bl808_sec_eng_owner_pair s n) 2 \<longleftrightarrow> bit (sec_regs s 960) (Suc n)"
proof -
  have "tst x 1 \<longleftrightarrow> bit x 0" "tst x 2 \<longleftrightarrow> bit x 1" for x :: u32 using tst_BIT [of x 0] tst_BIT [of x 1] by simp_all
  moreover have "bit (mask 2 :: u32) 0" "bit (mask 2 :: u32) 1" by (simp_all only: bit_mask_iff) simp_all
  then have "bit (3 :: u32) 0" "bit (3 :: u32) 1" by (simp_all add: mask_numeral)
  ultimately show "tst (bl808_sec_eng_owner_pair s n) 1 \<longleftrightarrow> bit (sec_regs s 960) n" "tst (bl808_sec_eng_owner_pair s n) 2 \<longleftrightarrow> bit (sec_regs s 960) (Suc n)"
    by (simp_all add: bl808_sec_eng_owner_pair_def bit_and_iff bit_drop_bit_eq)
qed

text \<open>The engines with a shared line: control register and register of the owners.\<close>

definition engine_owners :: "(nat \<times> nat) list" where
  "engine_owners = [(64, 127), (0, 63), (128, 191), (192, 255), (320, 383)]"

definition wants :: "BL808SecEngState \<Rightarrow> u32 \<Rightarrow> (nat \<times> nat) list \<Rightarrow> bool" where
  "wants s owner engines = list_ex (\<lambda>(ctrl, prot). engine_pending s ctrl \<and> tst (sec_regs s prot) owner) engines"

lemma owned_levels:
  assumes "owners_ok s"
  shows "owner_level s 1 shared_engines = wants s 2 engine_owners" "owner_level s 2 shared_engines = wants s 4 engine_owners"
    "owner_level s 1 [(256, 8)] = wants s 2 [(256, 319)]" "owner_level s 2 [(256, 8)] = wants s 4 [(256, 319)]"
  using prot_bits [OF assms, of 0] prot_bits [OF assms, of 1]
  by (simp_all add: owner_level_def wants_def shared_engines_def engine_owners_def owner_pair_bit)

lemma owners_keep: "keeps s t \<Longrightarrow> owners_ok s \<Longrightarrow> owners_ok t"
  by (simp add: keeps_def owners_ok_def bl808_sec_eng_update_ctrl_prot_def Let_def owner_regs_def)

lemma owners_update [simp]: "owners_ok (bl808_sec_eng_update_ctrl_prot s)" "owners_ok (bl808_sec_eng_update_irq s) = owners_ok s"
  by (simp_all add: owners_ok_def bl808_sec_eng_update_ctrl_prot_def Let_def)

lemma set_owner_ok:
  assumes "offset \<in> {0x0fc, 0x1fc, 0x2fc, 0x3fc, 0x4fc, 0x5fc}"
  shows "owners_ok (bl808_sec_eng_set_owner offset v s)" "trng_state (bl808_sec_eng_set_owner offset v s) = trng_state s"
  using assms by (auto simp: bl808_sec_eng_set_owner_def Let_def) (auto simp: bl808_sec_eng_update_ctrl_prot_def Let_def)

definition sec_inv :: "BL808SecEngState \<Rightarrow> bool" where
  "sec_inv s \<longleftrightarrow> owners_ok s \<and> trng_state s \<noteq> 0"

lemma sec_inv_keep: "keeps s t \<Longrightarrow> sec_inv s \<Longrightarrow> sec_inv t"
  by (auto simp: sec_inv_def dest: owners_keep) (simp add: keeps_def)

lemma reset_sec_inv: "sec_inv (bl808_sec_eng_reset s)"
  by (simp add: sec_inv_def bl808_sec_eng_reset_def Let_def) (simp add: owners_ok_def bl808_sec_eng_update_ctrl_prot_def Let_def)

lemma step_sec_inv:
  assumes "short_digests ops" "sec_prompt op" "sec_inv (fst sm)"
  shows "sec_inv (fst (sec_step ops op sm))"
proof (cases op)
  case (Sec_write offset v n)
  obtain s m where sm: "sm = (s, m)" by fastforce
  show ?thesis
  proof (cases "bl808_sec_eng_write ops offset v n (s, m)")
    case (Some r)
    obtain s' m' where r: "r = (s', m')" by fastforce
    have "offset \<noteq> 0xf00" "bl808_sec_eng_write ops offset v n (s, m) = Some (s', m')" using assms(2) Some r Sec_write by simp_all
    then have "sec_inv s'"
    proof (cases rule: write_cases)
      case (2 i x)
      then have "keeps s s'" by (simp add: plain_reg_def)
      then show ?thesis using assms(3) sm by (auto intro: sec_inv_keep)
    next
      case 4
      then show ?thesis using assms(3) sm by (simp add: sec_inv_def set_owner_ok)
    qed (use assms(1,3) sm in \<open>auto intro: sec_inv_keep\<close>)
    then show ?thesis using Some r Sec_write sm by simp
  qed (use assms Sec_write sm in simp)
next
  case Sec_reset
  then show ?thesis by (cases sm) (simp add: reset_sec_inv)
qed

lemma run_sec_inv:
  "short_digests c \<Longrightarrow> \<forall>op \<in> set ops. sec_prompt op \<Longrightarrow> sec_inv (fst sm) \<Longrightarrow> sec_inv (fst (fold (sec_step c) ops sm))"
  by (induction ops arbitrary: sm) (simp_all add: step_sec_inv)

text \<open>
  C30. The interrupts of the security engine reach their owners: after a reset and any sequence of writes and
  resets, as long as no write goes to the read-only copy of the owners, each of the four lines is high
  exactly if an engine of its group has an unmasked interrupt pending and names the core of the line in its own
  protection register; and the random generator has not fallen into its fixed point 0.
\<close>

theorem sec_irq_owner:
  assumes "short_digests c" "\<forall>op \<in> set ops. sec_prompt op" "s = fst (fold (sec_step c) ops (bl808_sec_eng_reset s0, m))"
  shows "irq_id0_shared s = wants s 2 engine_owners \<and> irq_id1_shared s = wants s 4 engine_owners \<and>
    irq_id0_cdet s = wants s 2 [(256, 319)] \<and> irq_id1_cdet s = wants s 4 [(256, 319)] \<and> trng_state s \<noteq> 0"
proof -
  have "sec_inv s" using run_sec_inv [OF assms(1,2), of "(bl808_sec_eng_reset s0, m)"] assms(3) by (simp add: reset_sec_inv)
  moreover have "sec_line k s = sec_level k s" for k
    using sec_eng.run_line [OF _ assms(2), of "(bl808_sec_eng_reset s0, m)" k c] assms(3) by (simp add: reset_refreshed)
  from this [of 0] this [of 1] this [of 2] this [of 3] have "irq_id1_shared s = owner_level s 2 shared_engines"
    "irq_id0_shared s = owner_level s 1 shared_engines" "irq_id1_cdet s = owner_level s 2 [(256, 8)]" "irq_id0_cdet s = owner_level s 1 [(256, 8)]"
    by (simp_all add: sec_line_def sec_level_def)
  ultimately show ?thesis by (simp add: sec_inv_def owned_levels)
qed

definition sec_power_on :: BL808SecEngState where
  "sec_power_on = \<lparr>irq_id1_shared = False, irq_id0_shared = False, irq_id1_cdet = False, irq_id0_cdet = False,
     sec_regs = \<lambda>_. 0, sha_accum = [], sha_accum_cap = 0, trng_state = 0, efuse_shadow = None\<rparr>"

theorem sec_irq_owner_witness:
  "irq_id0_shared (fst (fold (sec_step xor_ops) [Sec_write 0x2fc 2 4, Sec_write 0x200 0x404 4] (bl808_sec_eng_reset sec_power_on, \<lambda>_. 0))) \<and>
    \<not> irq_id1_shared (fst (fold (sec_step xor_ops) [Sec_write 0x2fc 2 4, Sec_write 0x200 0x404 4] (bl808_sec_eng_reset sec_power_on, \<lambda>_. 0)))"
proof -
  define s where "s = fst (fold (sec_step xor_ops) [Sec_write 0x2fc 2 4, Sec_write 0x200 0x404 4] (bl808_sec_eng_reset sec_power_on, \<lambda>_. 0))"
  have "short_digests xor_ops" by (auto simp: short_digests_def xor_ops_def)
  then have "irq_id0_shared s = wants s 2 engine_owners" "irq_id1_shared s = wants s 4 engine_owners"
    using sec_irq_owner [of xor_ops "[Sec_write 0x2fc 2 4, Sec_write 0x200 0x404 4]" s sec_power_on "\<lambda>_. 0"] by (simp_all add: s_def)
  moreover have "sec_regs s 128 = 0x104" "sec_regs s 191 = 2" "sec_regs s 0 = 0" "sec_regs s 64 = 0" "sec_regs s 192 = 0" "sec_regs s 320 = 0"
    by (simp_all add: s_def bl808_sec_eng_write_def bl808_sec_eng_set_owner_def bl808_sec_eng_update_ctrl_prot_def bl808_sec_eng_write_trng_def
        bl808_sec_eng_reset_def bl808_sec_eng_sha_accum_reset_def int_bits_def Let_def tst_def)
  ultimately have "irq_id0_shared s" "\<not> irq_id1_shared s" by (simp_all add: wants_def engine_owners_def engine_pending_def tst_def)
  then show ?thesis by (simp add: s_def)
qed

lemma raised_pending: "(((r AND NOT 0xFFFFB87C) OR 0x100) AND NOT 3) AND 0x900 = (0x100 :: u32)"
proof -
  have "(((r AND NOT 0xFFFFB87C) OR 0x100) AND NOT 3) AND 0x900 = ((r AND NOT 0xFFFFB87C) OR 0x100) AND (NOT 3 AND 0x900)" by (rule and.assoc)
  also have "\<dots> = (r AND (NOT 0xFFFFB87C AND 0x900)) OR 0x100" by (simp add: bit.conj_disj_distrib2 and.assoc)
  also have "\<dots> = 0x100" by (simp add: word_ao_absorbs)
  finally show ?thesis .
qed

text \<open>
  C40. The copy of the owners at 0xf00 reads back what the six protection registers say, but a write to it is
  stored, and the lines are routed by it: after the guest cleared it, an unmasked interrupt of the SHA engine
  that is then raised reaches neither core, although the protection register of the engine still names its owners.
\<close>

theorem sec_prot_readback_writable:
  "\<exists>s'. sec_writes ops [(0xf00, 0), (0x000, 0x400)] (s, m) = Some (s', m) \<and> sec_regs s' 63 = sec_regs s 63 \<and>
    engine_pending s' 0 \<and> \<not> irq_id0_shared s' \<and> \<not> irq_id1_shared s'"
proof -
  let ?s = "set_reg 960 0 s" and ?c = "((sec_regs s 0 AND NOT 0xFFFFB87C) OR 0x100) AND NOT 3"
  have "sec_writes ops [(0xf00, 0), (0x000, 0x400)] (s, m) = Some (bl808_sec_eng_update_irq (set_reg 0 ?c ?s), m)"
    by (simp add: bl808_sec_eng_write_def bl808_sec_eng_write_sha_def int_bits_def Let_def tst_def)
  moreover have "owner_level (set_reg 0 x ?s) b es = False" for x b es
    by (simp add: owner_level_def bl808_sec_eng_owner_pair_def list_ex_iff)
  then have "\<not> irq_id0_shared (bl808_sec_eng_update_irq (set_reg 0 ?c ?s))" "\<not> irq_id1_shared (bl808_sec_eng_update_irq (set_reg 0 ?c ?s))"
    by (simp_all add: bl808_sec_eng_update_irq_def)
  moreover have "engine_pending (bl808_sec_eng_update_irq (set_reg 0 ?c ?s)) 0"
    using raised_pending [of "sec_regs s 0"] by (simp add: engine_pending_def)
  ultimately show ?thesis by simp
qed

end
