(* ===== verification/Spec2Isabelle.thy ===== *)
theory Spec2Isabelle
  imports Libc_Proofs Tlsf_Props Ipc Cks Clint Uart_Proofs Clic_Props Timer_Props Dma_Props Spi_Props I2c_Props Boot_Props Dma2d_Props Sf_Driver Pwm_Props Sec_Sha_Eval Sec_Check Sec_Lines
begin

text \<open>
  A verification development for the C code of the BL808 hardware abstraction layer.  The
  repository has two kinds of C code of its own: the bare-metal runtime that is linked into
  firmware (\<open>src/src/bl808\<close>), and device models that extend QEMU with a BL808 machine
  (\<open>src/qemu-machine\<close>).  Both are modelled here function by function; a definition has the name of the
  C function it translates, and parts of long functions have names of their own.

  \<^bold>\<open>Conventions\<close> (theories \<open>Prelude\<close>, \<open>Device\<close>, \<open>Ring\<close>).  A C integer is a word of its width, so that
  arithmetic wraps where the C code wraps; \<open>size_t\<close> and pointers of the firmware are those of the
  32-bit cores.  A struct is a record, a loop a recursive function with a termination proof, a
  fallible function returns an option.  A device state carries the level of its \<open>qemu_irq\<close> outputs and
  the deadline of its timers, signed as \<open>timer_mod\<close> takes it; bottom halves and timer callbacks are operations of their own, so
  that every interleaving with register accesses is a list of operations.  Three interfaces are locales:
  \<open>irq_device\<close> and \<open>gated_irq_device\<close> (the interrupt wire is the function of the registers it should
  be after every operation, and low without clock), interpreted for IPC, UART, timer, DMA, SPI, I2C, PWM,
  both lines of the 2D DMA and the four of the security engine; \<open>fifo\<close> (a bounded queue), interpreted for the ring buffers of UART, SPI and
  I2C; and \<open>dma_source\<close> (what the DMA controller needs of a peripheral it reads), interpreted for the
  UART, SPI and I2C receivers.

  \<^bold>\<open>Bare-metal C runtime\<close> (\<open>kernel/baremetal_libc.c\<close>; theories \<open>Libc\<close>, \<open>Libc_Proofs\<close>): memory and string
  functions on a byte memory, the 64-bit division, shift and bit-count routines of libgcc, the
  byte-order and ctype functions.  Shown: \<open>memmove\<close> for every overlap, division against \<open>div\<close> and
  \<open>mod\<close>, \<open>strcmp\<close> against the lexicographic order, and lemmas on the others.

  \<^bold>\<open>TLSF heap\<close> (\<open>kernel/tlsf.c\<close>; theories \<open>Tlsf\<close> for the model, \<open>Tlsf_Headers\<close>, \<open>Tlsf_Chain\<close>,
  \<open>Tlsf_Lists\<close>, \<open>Tlsf_Class\<close>, \<open>Tlsf_Heap\<close>, \<open>Tlsf_Blocks\<close>, \<open>Tlsf_Ops\<close>, \<open>Tlsf_Resize\<close>, \<open>Tlsf_Guard\<close>,
  \<open>Tlsf_Fit\<close>, \<open>Tlsf_Inspect\<close>, \<open>Tlsf_Client\<close>, \<open>Tlsf_Props\<close> for the proofs): the heap is a header at
  every block address, a payload memory and the pool descriptor with its two-level bitmaps.  The
  invariant ties the chain of blocks, the free lists and the bitmaps together.  Shown: contracts
  of malloc, free, realloc and calloc against the abstract set of live allocations, safety of every
  client execution, no leaks, the good-fit guarantee, exactness of the heap checker, and three
  defects.  Requests are bounded by \<open>0xF7FFFFFC\<close>, up to which no size computation wraps.  Above it the rounding of
  \<open>mapping_search\<close> wraps (lemma \<open>mapping_search_wraps\<close>) and a block that is too small may be handed out, as the
  theorem \<open>tlsf_malloc_class_wraps\<close> shows for one request; \<open>tlsf_malloc_wraps\<close> is about the seven largest accepted ones,
  whose size itself wraps.

  \<^bold>\<open>Interrupt controllers\<close>.  \<open>Clint\<close> models \<open>hw/intc/thead_clint.c\<close>: software interrupts and the
  machine timer; \<open>muldiv64\<close> and the virtual clock are arguments.  Shown: a write to either half of a compare
  register arms the timer on time for deadlines below \<open>2 ^ 63\<close> ns, and
  those from there to \<open>2 ^ 64\<close> are due at once.  \<open>Clic\<close>, \<open>Clic_Lists\<close>, \<open>Clic_Inv\<close>,
  \<open>Clic_Deliver\<close> and \<open>Clic_Props\<close> model \<open>hw/intc/xt_clic.c\<close>; the processor is the record of the fields the
  controller reads and writes.  Shown: the sorted list of enabled interrupts is exact after any run
  and no assertion fails, and each hart is given the pending interrupt of highest level and number
  above its threshold (up to 4096 sources and 8 control bits, as the realize function asserts).

  \<^bold>\<open>Timer and watchdog\<close> (\<open>hw/timer/bl808_timer.c\<close>; \<open>Timer\<close>, \<open>Timer_Proofs\<close>, \<open>Timer_Props\<close>): both
  channels with preload, dividers and three compare values, and the watchdog with its unlock
  protocol.  Shown: events are armed for the first nanosecond of the nearest compare value (rates
  up to 1 GHz, times below \<open>2 ^ 62\<close> ns), the watchdog registers follow the two-key protocol, exact lines,
  and two defects.

  \<^bold>\<open>UART, SPI, DMA\<close>.  \<open>Uart\<close> and \<open>Uart_Proofs\<close> model \<open>hw/char/bl808_uart.c\<close>; \<open>Spi\<close>, \<open>Spi_Proofs\<close> and
  \<open>Spi_Props\<close> model \<open>hw/ssi/bl808_spi.c\<close> with \<open>ssi_transfer\<close> as a parameter; \<open>Dma\<close>, \<open>Dma_Proofs\<close>,
  \<open>Dma_Move\<close>, \<open>Dma_Source\<close> and \<open>Dma_Props\<close> model \<open>hw/dma/bl808_dma.c\<close>, where guest memory is a
  function and the peripherals behind the request lines are a type parameter.  Shown: bytes are
  conserved and kept in order, length-limited transfers stop exactly, no queued work waits without
  a scheduled bottom half, memory-to-memory transfers copy in a stated number of runs, and the compositions: bytes
  from the UART's wire and frames looped back through the SPI controller reach memory through the DMA
  controller in order and without loss.

  \<^bold>\<open>I2C\<close> (\<open>hw/i2c/bl808_i2c.c\<close>; \<open>I2c\<close>, \<open>I2c_Proofs\<close>, \<open>I2c_Props\<close>): the controller with its two queues,
  its sub-address phase and the transfer that runs ahead of the processor as far as the queues allow.
  QEMU's bus core is a record of operations, so that every device on the bus is covered.  Shown: the
  bytes of a read reach the processor, or memory through the DMA controller, in the order in which
  the device sent them; the bytes of a write reach the device in order; the state stays well formed.

  \<^bold>\<open>2D DMA\<close> (\<open>hw/dma/bl808_dma2d.c\<close>; \<open>Dma2d\<close>, \<open>Dma2d_Props\<close>): linear and rectangular transfers with
  signed steps and the transparent key colour.  Shown: a rectangle is copied datum by datum to the positions the
  step registers describe, and no enabled channel waits without a scheduled bottom half.

  \<^bold>\<open>Booting\<close> (\<open>hw/riscv/bl808.c\<close>, boot headers, partition tables, boot ROM and the boot part of the
  machine reset; \<open>Boot\<close>, \<open>Boot_Proofs\<close>, \<open>Boot_Props\<close>): the flash is a byte function with a size, and an
  access outside it is the result \<open>None\<close>.  Shown: a switch to the other firmware slot survives the
  next boot, a damaged header is refused, ROM and reset agree on the entry point, and the bound check of the
  header wraps for large offsets.

  \<^bold>\<open>Serial flash\<close> (\<open>hw/block/bl808_sf_ctrl.c\<close>; \<open>Sf\<close> for the model, \<open>Sf_Proofs\<close>, \<open>Sf_Effect\<close>, \<open>Sf_Props\<close>,
  \<open>Sf_Driver\<close>): the command interpreter with status, protection, erase, program and security-register
  commands, the buffer, the XIP windows and the drive behind the flash.  QEMU's block layer is the record
  \<open>blk_ops\<close>.  Arrays are functions, so that an index of 16 MiB or more is an access outside the
  array.  The effect of one register write on the flash is the inductive relation \<open>sf_effect\<close>.  Shown, with
  24-bit addresses: what a driver programs it reads back, the flash changes only as the write enable latch
  allows, locked security registers are permanent between resets, every window shows the flash, and
  the drive carries the contents over a restart; and two defects: a reset command that leaves the
  windows stale, and a bound check that wraps with 32-bit addresses.

  \<^bold>\<open>PWM\<close> (\<open>hw/timer/bl808_pwm.c\<close>; \<open>Pwm\<close>, \<open>Pwm_Props\<close>): both groups with their timers, thresholds, repeat
  counts and the interrupt line.  Shown: timers are armed exactly while a group runs, for the first
  nanosecond of the next period, and a group stops after exactly its number of repeats; a reset of the device
  leaves groups that count as running without timers.

  \<^bold>\<open>Security engine\<close> (\<open>hw/misc/bl808_sec_eng.c\<close>; model in \<open>Sec_Hash\<close>, \<open>Sec_Aes\<close>, \<open>Sec_Eng\<close>): six engines with
  their registers, owners, interrupts and descriptors in guest memory, which is a function of the address.  The
  ciphers, digests and MACs of QEMU's libraries are the record \<open>crypto_ops\<close>; what the proofs use of it are the
  predicates \<open>ecb_cipher\<close> (the block cipher accepts keys of its length and has an inverse for them) and \<open>short_digests\<close> (digests of at most 64 bytes).
  The loop over the units of XTS is a partial function, proved to return.  Shown: SHA-512/224 and SHA-512/256
  are those of FIPS 180-4, constants included (\<open>Sec_Sha\<close>, \<open>Sec_Sha_Eval\<close>); the checksums are remainders of long
  division (\<open>Sec_Crc\<close>, \<open>Sec_Check\<close>); counter mode and XTS are those of the standards (\<open>Sec_Xts\<close>); every write returns
  with its operation complete, and encryption round-trips at the registers (\<open>Sec_Props\<close>); a message in pieces has the digest of
  the whole (\<open>Sec_Digest\<close>); the lines follow the owners and the random generator is not stuck (\<open>Sec_Lines\<close>), unless
  the guest writes the copy of the owners, which is a defect.

  \<^bold>\<open>Mailbox and checksum\<close>.  \<open>Ipc\<close> (\<open>hw/misc/bl808_ipc.c\<close>): writes refine operations on the sets of
  pending and enabled channels.  \<open>Cks\<close> (\<open>hw/misc/bl808_cks.c\<close>): the engine computes the ones'
  complement sum.

  \<^bold>\<open>Not modelled\<close>.  The floating-point fallbacks of the runtime; the glue around the closed-source
  BLE and WiFi libraries and the tracing wrappers; inline assembly; host tools; the vendored FAT
  file system; Nim code.  Of the machine (\<open>hw/riscv/bl808.c\<close>) the booting and the DMA request tables are
  modelled; its clock tree, its power domains and the register banks around them are not.  The other
  devices (TrustZone controller, GPIP, EMAC, I2S, audio, GLB, USB and the register blocks)
  have the same shape as those modelled and would be further instances of the locales above.  QOM registration and logging have no behaviour in the model.
\<close>

section \<open>Frames through the SPI controller and the DMA controller\<close>

lemma byte_frames:
  "map (\<lambda>r. r AND 0xFF) (map ucast xs) = (map ucast xs :: u32 list)" "map ucast (map ucast xs :: u32 list) = (xs :: u8 list)"
proof -
  have "take_bit 8 (ucast x :: u32) = ucast x" for x :: u8
    by (rule bit_word_eqI) (auto simp: bit_simps dest: bit_imp_le_length)
  then have "(ucast x :: u32) AND 0xFF = ucast x" for x :: u8 by (simp add: take_bit_eq_mask mask_numeral)
  then show "map (\<lambda>r. r AND 0xFF) (map ucast xs) = (map ucast xs :: u32 list)" by simp
  have "ucast (ucast x :: u32) = x" for x :: u8 by (rule bit_word_eqI) (auto simp: bit_simps)
  then show "map ucast (map ucast xs :: u32 list) = xs" by (simp add: map_idI)
qed

text \<open>
  C23. Bytes queued in an SPI controller in loopback mode come back through the DMA controller: the
  transfer turns the queued frames into received ones, and the DMA channel that reads the
  controller stores them at successive addresses, in order and without loss, burst-many per run.
\<close>

theorem spi_loopback_to_memory:
  assumes spi: "spi_tx_ok p" "spi_rx_ok p" "bl808_spi_clock_active p" "bl808_spi_enabled p"
    and mode: "loopback p" "spi_frame_size p = 0" "spi_ignored p = 0" "tst (spi_fifo_config0 p) SPI_FIFO_DMA_RX_EN"
    and frames: "spi_tx_items p = map ucast xs" "spi_rx_items p = []"
    and dma: "dma_receiving s c req dst n b" "requests s ! req = Some bl808_soc_dma_spi_rx_ops" "unat dst + n < 2 ^ 32"
    and j: "j = min n (min (length ts * b) (length xs))"
  shows "\<exists>s' p'. fold dma_step (map Dma_run ts) (s, m, bl808_spi_transfer_bh xfer p) =
      (s', store_bytes (ucast dst) (take j xs) m, p') \<and>
    map ucast (spi_rx_items p') = drop j xs \<and>
    (if j = n then dma_received s' c (dst + of_nat n) else dma_receiving s' c req (dst + of_nat j) (n - j) b)"
proof -
  let ?p = "bl808_spi_transfer_bh xfer p"
  have ans: "spi_answers xfer p (spi_tx_items p) = (map ucast xs, spi_bus p)"
    using mode(1) frames(1) by (simp add: spi_answers_def)
  have "unat (spi_tx_count p) = length xs" using arg_cong [OF frames(1), of length] by simp
  then have "length xs \<le> 32" using spi_ok_count(1) [OF spi(1)] by simp
  moreover have "spi_room p = 32" using mode(2) frames(2) spi_items_Nil(2) [of p] by (simp add: spi_room_def bl808_spi_fifo_depth_def)
  moreover have "bl808_spi_frame_mask p = 0xFF" using mode(2) by (simp add: bl808_spi_frame_mask_def)
  ultimately have "spi_received p (map ucast xs) = map ucast xs" "\<not> spi_overruns p (map ucast xs)"
    using mode(3) byte_frames(1) [of xs] unfolding spi_received_def spi_overruns_def by simp_all
  then have rx: "spi_rx_ok ?p" "spi_rx_items ?p = map ucast xs" "spi_fifo_config0 ?p = spi_fifo_config0 p"
    and set: "spi_setting ?p = spi_setting p"
    using transfer_bh_spec [OF spi ans refl] frames(2) by simp_all
  have offers: "spi_offers ?p" using rx(3) setting_eqD(4) [OF set] spi(3) mode(4) by (simp add: spi_offers_def)
  show ?thesis
    using spi_rx.p2m_runs [OF dma(1,2) rx(1) offers dma(3), of j ts m, unfolded rx(2) byte_frames, OF j] by blast
qed

definition spi_loop_example :: "unit BL808SPIState" where
  "spi_loop_example = fold (spi_step (\<lambda>b tx. (0, b)))
     [Spi_write 0x80 1, Spi_write 0x88 0x41, Spi_write 0x88 0x42, Spi_write 0x88 0x43, Spi_write 0x00 1] (bl808_spi_init True ())"

lemma spi_loop_example_fields:
  "spi_tx_items spi_loop_example = [0x41, 0x42, 0x43]" "spi_rx_items spi_loop_example = []"
  "bl808_spi_clock_active spi_loop_example" "bl808_spi_enabled spi_loop_example" "loopback spi_loop_example"
  "spi_frame_size spi_loop_example = 0" "spi_ignored spi_loop_example = 0" "tst (spi_fifo_config0 spi_loop_example) 1"
  unfolding spi_loop_example_def by code_simp+

theorem spi_loopback_to_memory_witness:
  "\<exists>s' p'. fold dma_step [Dma_run 1, Dma_run 2, Dma_run 3]
      (dma_example receive_channel bl808_soc_dma_spi_rx_ops, (\<lambda>_. 0), bl808_spi_transfer_bh (\<lambda>b tx. (0, b)) spi_loop_example) =
      (s', (\<lambda>_. 0)(0x2000 := 0x41, 0x2001 := 0x42, 0x2002 := 0x43), p') \<and> dma_received s' 0 0x2003"
proof -
  have inv: "spi_inv spi_loop_example" unfolding spi_loop_example_def by (intro Spi_Props.run_inv init_inv)
  show ?thesis
    using spi_loopback_to_memory [OF spi_invD(1,2) [OF inv] spi_loop_example_fields(3-8) _ spi_loop_example_fields(2)
        receive_channel_receiving dma_example_fields(2), of "[0x41, 0x42, 0x43]" 3 "[1, 2, 3]" "\<lambda>_. 0" "\<lambda>b tx. (0, b)"]
      spi_loop_example_fields(1)
    by (simp add: numeral_3_eq_3) blast
qed

end
